(* ===== verification/Mcu_Prelude.thy ===== *)
theory Mcu_Prelude
  imports Main "HOL-Library.Word"
begin

text \<open>
  Shared material of the development: the machine integer types of the SDK
  (\<^verbatim>\<open>include/wm_type_def.h\<close>), the bit-mask macro \<^verbatim>\<open>BIT(x)\<close> of
  \<^verbatim>\<open>include/wm_regs.h\<close>, and the facts on single bits of words that every
  register driver uses. Two collections carry the component proofs:
  \<open>bits\<close> decides a bit of a masked word, \<open>model\<close> holds the definitions
  that a proof about one driver call unfolds.
\<close>

unbundle bit_operations_syntax

named_theorems bits \<open>bit-level facts on masks and masked words\<close>
named_theorems model \<open>definitions unfolded to evaluate a driver call\<close>

type_synonym u8 = "8 word"
type_synonym u16 = "16 word"
type_synonym u32 = "32 word"

section \<open>Bit masks\<close>

text \<open>\<^verbatim>\<open>#define BIT(x) (1UL << (x))\<close>; the drivers only use positions below 32.\<close>

definition BIT :: "nat \<Rightarrow> u32" where
  "BIT n = push_bit n 1"

lemma bit_BIT [bits]: "bit (BIT k) n \<longleftrightarrow> n = k \<and> k < 32"
  by (auto simp: BIT_def push_bit_eq_mult bit_exp_iff)

lemma and_BIT_eq_0 [bits]: "x AND BIT k = 0 \<longleftrightarrow> \<not> bit x k" for x :: u32
proof
  assume 0: "x AND BIT k = 0"
  show "\<not> bit x k"
  proof
    assume b: "bit x k"
    then have "k < 32" using bit_imp_le_length [of x k] by simp
    with b have "bit (x AND BIT k) k" by (simp add: bit_and_iff bit_BIT)
    with 0 show False by simp
  qed
next
  assume "\<not> bit x k"
  then show "x AND BIT k = 0"
    by (intro bit_eqI) (auto simp: bit_and_iff bit_BIT)
qed

lemma bit_u32_less: "bit x n \<Longrightarrow> n < 32" for x :: u32
  using bit_imp_le_length [of x n] by simp

lemma bit_or_BIT [bits]: "bit (x OR BIT k) n \<longleftrightarrow> bit x n \<or> n = k \<and> k < 32" for x :: u32
  by (auto simp: bit_or_iff bits)

lemma bit_andn_BIT [bits]: "bit (x AND NOT (BIT k)) n \<longleftrightarrow> bit x n \<and> n \<noteq> k" for x :: u32
  by (auto simp: bit_and_iff bit_not_iff bits dest: bit_u32_less)

section \<open>Bit fields\<close>

text \<open>A C bit field of width \<open>w\<close> at position \<open>p\<close> of a 32-bit word.\<close>

definition field :: "nat \<Rightarrow> nat \<Rightarrow> u32 \<Rightarrow> u32" where
  "field p w x = take_bit w (drop_bit p x)"

lemma bit_field [bits]: "bit (field p w x) n \<longleftrightarrow> n < w \<and> bit x (p + n)"
  by (auto simp: field_def bit_take_bit_iff bit_drop_bit_eq add.commute)

lemma bit_small_unat:
  fixes x :: "'a::len word"
  assumes "unat x < 2 ^ k" and "bit x n"
  shows "n < k"
proof -
  from assms(1) have "take_bit k (unat x) = unat x"
    by (rule take_bit_nat_eq_self)
  moreover from assms(2) have "bit (unat x) n"
    by (auto simp: bit_unsigned_iff dest: bit_imp_possible_bit)
  ultimately have "bit (take_bit k (unat x)) n" by simp
  then show ?thesis by (simp add: bit_take_bit_iff)
qed

lemma u8_mask: "(0xFF :: u32) = mask 8"
  by (simp add: mask_eq_exp_minus_1)

lemma field_or: "field p w (x OR y) = field p w x OR field p w y"
  by (intro bit_eqI) (auto simp: bits bit_or_iff)

text \<open>Reading a field back from a word that was assembled by \<^verbatim>\<open>v << p\<close>.\<close>

lemma field_push_same:
  assumes "unat v < 2 ^ w" and "p + w \<le> 32"
  shows "field p w (push_bit p v) = v"
proof (intro bit_eqI)
  fix n
  have "bit v n \<Longrightarrow> n < w" by (rule bit_small_unat [OF assms(1)])
  then show "bit (field p w (push_bit p v)) n \<longleftrightarrow> bit v n"
    using assms(2) by (auto simp: bits bit_push_bit_iff)
qed

lemma field_push_other:
  assumes "unat v < 2 ^ k" and "q + k \<le> p \<or> p + w \<le> q"
  shows "field p w (push_bit q v) = 0"
proof (intro bit_eqI)
  fix n
  have "bit v (p + n - q) \<Longrightarrow> p + n - q < k" by (rule bit_small_unat [OF assms(1)])
  then show "bit (field p w (push_bit q v)) n \<longleftrightarrow> bit 0 n"
    using assms(2) by (auto simp: bits bit_push_bit_iff)
qed

lemma field_and_mask_other: "p + w \<le> q \<Longrightarrow> field p w (x AND push_bit q m) = 0"
  by (intro bit_eqI) (auto simp: bits bit_and_iff bit_push_bit_iff)

lemma BIT_numeral:
  "BIT 0 = 1" "BIT (numeral k) = push_bit (numeral k) 1"
  by (simp_all add: BIT_def)

lemma BIT_inject: "i < 32 \<Longrightarrow> BIT i = BIT j \<longleftrightarrow> i = j"
  by (metis bit_BIT)

lemma bit_0xFFFFFFFF [bits]: "bit (0xFFFFFFFF :: u32) n \<longleftrightarrow> n < 32"
proof -
  have "(0xFFFFFFFF :: u32) = mask 32" by (simp add: mask_eq_exp_minus_1)
  then show ?thesis by (simp only: bit_mask_iff) simp
qed

lemma bit_0xFFFF [bits]: "bit (0xFFFF :: u32) n \<longleftrightarrow> n < 16"
proof -
  have "(0xFFFF :: u32) = mask 16" by (simp add: mask_eq_exp_minus_1)
  then show ?thesis by (simp only: bit_mask_iff) auto
qed

lemma and_0xFFFFFFFF [simp]: "x AND 0xFFFFFFFF = x" for x :: u32
proof -
  have "(0xFFFFFFFF :: u32) = - 1" by simp
  then show ?thesis by (simp only: and.right_neutral)
qed

section \<open>Bounded scans\<close>

lemma all_from_less:
  "(\<forall>j. i \<le> j \<and> j < k \<longrightarrow> P j) \<longleftrightarrow> k \<le> i \<or> P i \<and> (\<forall>j. Suc i \<le> j \<and> j < k \<longrightarrow> P j)" for i k :: nat
proof (cases "i < k")
  case True
  then show ?thesis by (auto simp: Suc_le_eq) (metis le_neq_implies_less)
qed auto

lemma all_from_le:
  "(\<forall>j. i \<le> j \<and> j \<le> k \<longrightarrow> P j) \<longleftrightarrow> k < i \<or> P i \<and> (\<forall>j. Suc i \<le> j \<and> j \<le> k \<longrightarrow> P j)" for i k :: nat
  using all_from_less [of i "Suc k" P] by (auto simp: less_Suc_eq_le Suc_le_eq)

lemma bit_fold_or:
  "bit (fold (\<lambda>i v. if P i then v OR g i else v) xs (v :: u32)) n \<longleftrightarrow>
     bit v n \<or> (\<exists>i\<in>set xs. P i \<and> bit (g i) n)"
  by (induction xs arbitrary: v) (auto simp: bit_or_iff)

section \<open>Bounded arithmetic\<close>

lemma mod_add_small: "a mod m + k < m \<Longrightarrow> (a + k) mod m = a mod m + k" for a k m :: nat
  by (metis mod_add_left_eq mod_less)

lemma u32_of_nat_le: "a < 2 ^ 32 \<Longrightarrow> b < 2 ^ 32 \<Longrightarrow> (of_nat a :: u32) \<le> of_nat b \<longleftrightarrow> a \<le> b"
  by (simp add: word_le_nat_alt unat_of_nat take_bit_nat_eq_self)

lemma u32_of_nat_less: "a < 2 ^ 32 \<Longrightarrow> b < 2 ^ 32 \<Longrightarrow> (of_nat a :: u32) < of_nat b \<longleftrightarrow> a < b"
  by (simp add: word_less_nat_alt unat_of_nat take_bit_nat_eq_self)

lemma u32_of_nat_eq: "a < 2 ^ 32 \<Longrightarrow> b < 2 ^ 32 \<Longrightarrow> (of_nat a :: u32) = of_nat b \<longleftrightarrow> a = b"
  by (metis u32_of_nat_le order.antisym order.refl)

lemma unat_u32_of_nat: "a < 2 ^ 32 \<Longrightarrow> unat (of_nat a :: u32) = a"
  by (simp add: unat_of_nat take_bit_nat_eq_self)

end
