(* ===== verification/Mcu_Regs.thy ===== *)
theory Mcu_Regs
  imports Mcu_Prelude
begin

text \<open>
  The memory-mapped registers of the W800 and the three modules every driver
  rests on: the register accessors of \<^verbatim>\<open>include/wm_regs.h\<close>, the interrupt
  enable bookkeeping of \<^verbatim>\<open>platform/drivers/irq/wm_irq.c\<close> and the clock tree of
  \<^verbatim>\<open>platform/drivers/cpu/wm_cpu.c\<close>.

  A register access of the C code is a load or store through a pointer, so the
  registers are a memory: a store is visible to the next load of the same address
  and to no other address. What the peripherals do to their own registers in
  between is the environment; no theorem here speaks of it. Addresses are natural
  numbers (no driver computes an address that wraps). Calls into the interrupt
  controller (\<^verbatim>\<open>NVIC_*\<close> of \<^verbatim>\<open>core_804.h\<close>, stores to write-one registers)
  are recorded in the order they are made.
\<close>

unbundle bit_operations_syntax

section \<open>State and register access\<close>

datatype nvic_call =
    NVIC_ClearPendingIRQ nat
  | NVIC_EnableIRQ nat
  | NVIC_DisableIRQ nat
  | NVIC_SetPriority nat u32

record mcu =
  regs :: "nat \<Rightarrow> u32"
  irqen_status :: u32
  nvic_log :: "nvic_call list"

definition tls_reg_write32 :: "nat \<Rightarrow> u32 \<Rightarrow> 'a mcu_scheme \<Rightarrow> 'a mcu_scheme" where
  "tls_reg_write32 reg val s = s\<lparr>regs := (regs s)(reg := val)\<rparr>"

definition tls_reg_read32 :: "nat \<Rightarrow> 'a mcu_scheme \<Rightarrow> u32" where
  "tls_reg_read32 reg s = regs s reg"

definition tls_bitband_write :: "nat \<Rightarrow> nat \<Rightarrow> u32 \<Rightarrow> 'a mcu_scheme \<Rightarrow> 'a mcu_scheme" where
  "tls_bitband_write addr bt val s =
     tls_reg_write32 addr ((regs s addr AND NOT (push_bit bt 1)) OR push_bit bt val) s"

text \<open>
  \<^verbatim>\<open>tls_bitband_read\<close> computes the bit and then dereferences it as an address,
  so it returns the word stored at address 0 or 1.
\<close>

definition tls_bitband_read :: "nat \<Rightarrow> nat \<Rightarrow> 'a mcu_scheme \<Rightarrow> u32" where
  "tls_bitband_read addr bt s = regs s (unat (drop_bit bt (regs s addr) AND 1))"

text \<open>The two read-modify-write shapes of the drivers:
  \<^verbatim>\<open>tls_reg_write32(r, tls_reg_read32(r) | m)\<close> and \<^verbatim>\<open>... & ~m)\<close>.\<close>

definition reg_or :: "nat \<Rightarrow> u32 \<Rightarrow> 'a mcu_scheme \<Rightarrow> 'a mcu_scheme" where
  "reg_or r m s = tls_reg_write32 r (tls_reg_read32 r s OR m) s"

definition reg_andn :: "nat \<Rightarrow> u32 \<Rightarrow> 'a mcu_scheme \<Rightarrow> 'a mcu_scheme" where
  "reg_andn r m s = tls_reg_write32 r (tls_reg_read32 r s AND NOT m) s"

lemma regs_write [simp]: "regs (tls_reg_write32 r v s) = (regs s)(r := v)"
  by (simp add: tls_reg_write32_def)

lemma reg_read [simp]: "tls_reg_read32 r s = regs s r"
  by (simp add: tls_reg_read32_def)

lemma regs_reg_or [simp]: "regs (reg_or r m s) = (regs s)(r := regs s r OR m)"
  by (simp add: reg_or_def)

lemma regs_reg_andn [simp]: "regs (reg_andn r m s) = (regs s)(r := regs s r AND NOT m)"
  by (simp add: reg_andn_def)

lemma write_frame [simp]:
  "irqen_status (tls_reg_write32 r v s) = irqen_status s"
  "nvic_log (tls_reg_write32 r v s) = nvic_log s"
  "mcu.more (tls_reg_write32 r v s) = mcu.more s"
  by (simp_all add: tls_reg_write32_def)

lemma rmw_frame [simp]:
  "irqen_status (reg_or r m s) = irqen_status s"
  "nvic_log (reg_or r m s) = nvic_log s"
  "mcu.more (reg_or r m s) = mcu.more s"
  "irqen_status (reg_andn r m s) = irqen_status s"
  "nvic_log (reg_andn r m s) = nvic_log s"
  "mcu.more (reg_andn r m s) = mcu.more s"
  by (simp_all add: reg_or_def reg_andn_def)

section \<open>Interrupt enables (wm_irq.c)\<close>

definition nvic :: "nvic_call \<Rightarrow> 'a mcu_scheme \<Rightarrow> 'a mcu_scheme" where
  "nvic c s = s\<lparr>nvic_log := nvic_log s @ [c]\<rparr>"

definition tls_irq_enable :: "nat \<Rightarrow> 'a mcu_scheme \<Rightarrow> 'a mcu_scheme" where
  "tls_irq_enable vec_no s =
     (if irqen_status s AND BIT vec_no = 0 then
        let s = s\<lparr>irqen_status := irqen_status s OR BIT vec_no\<rparr>;
            s = nvic (NVIC_ClearPendingIRQ vec_no) s
        in nvic (NVIC_EnableIRQ vec_no) s
      else s)"

definition tls_irq_disable :: "nat \<Rightarrow> 'a mcu_scheme \<Rightarrow> 'a mcu_scheme" where
  "tls_irq_disable vec_no s =
     (if irqen_status s AND BIT vec_no \<noteq> 0 then
        let s = s\<lparr>irqen_status := irqen_status s AND NOT (BIT vec_no)\<rparr>
        in nvic (NVIC_DisableIRQ vec_no) s
      else s)"

definition tls_irq_priority :: "nat \<Rightarrow> u32 \<Rightarrow> 'a mcu_scheme \<Rightarrow> 'a mcu_scheme" where
  "tls_irq_priority vec_no prio s = nvic (NVIC_SetPriority vec_no prio) s"

text \<open>What the interrupt controller has been told: the enable bit of a line after
  the recorded calls, starting from all lines disabled.\<close>

fun nvic_apply :: "nvic_call \<Rightarrow> (nat \<Rightarrow> bool) \<Rightarrow> (nat \<Rightarrow> bool)" where
  "nvic_apply (NVIC_EnableIRQ n) e = e(n := True)"
| "nvic_apply (NVIC_DisableIRQ n) e = e(n := False)"
| "nvic_apply (NVIC_ClearPendingIRQ n) e = e"
| "nvic_apply (NVIC_SetPriority n p) e = e"

definition nvic_enabled :: "nvic_call list \<Rightarrow> nat \<Rightarrow> bool" where
  "nvic_enabled cs = fold nvic_apply cs (\<lambda>_. False)"

definition irq_consistent :: "'a mcu_scheme \<Rightarrow> bool" where
  "irq_consistent s \<longleftrightarrow> (\<forall>n. nvic_enabled (nvic_log s) n \<longleftrightarrow> bit (irqen_status s) n)"

lemma nvic_enabled_append [simp]:
  "nvic_enabled (cs @ ds) = fold nvic_apply ds (nvic_enabled cs)"
  by (simp add: nvic_enabled_def)

lemma irq_frame [simp]:
  "regs (nvic c s) = regs s"
  "irqen_status (nvic c s) = irqen_status s"
  "nvic_log (nvic c s) = nvic_log s @ [c]"
  "mcu.more (nvic c s) = mcu.more s"
  "regs (tls_irq_enable v s) = regs s"
  "regs (tls_irq_disable v s) = regs s"
  "mcu.more (tls_irq_enable v s) = mcu.more s"
  "mcu.more (tls_irq_disable v s) = mcu.more s"
  "regs (tls_irq_priority v p s) = regs s"
  "mcu.more (tls_irq_priority v p s) = mcu.more s"
  "irqen_status (tls_irq_priority v p s) = irqen_status s"
  by (simp_all add: nvic_def tls_irq_enable_def tls_irq_disable_def tls_irq_priority_def Let_def)

lemma irqen_status_enable [simp]:
  "bit (irqen_status (tls_irq_enable v s)) n \<longleftrightarrow> bit (irqen_status s) n \<or> n = v \<and> v < 32"
  by (auto simp: tls_irq_enable_def Let_def bits dest: bit_u32_less)

lemma irqen_status_disable [simp]:
  "bit (irqen_status (tls_irq_disable v s)) n \<longleftrightarrow> bit (irqen_status s) n \<and> n \<noteq> v"
  by (auto simp: tls_irq_disable_def Let_def bits)

lemma irq_consistent_enable:
  "irq_consistent s \<Longrightarrow> v < 32 \<Longrightarrow> irq_consistent (tls_irq_enable v s)"
  by (simp add: irq_consistent_def tls_irq_enable_def Let_def bits)

lemma irq_consistent_disable:
  "irq_consistent s \<Longrightarrow> irq_consistent (tls_irq_disable v s)"
  by (auto simp: irq_consistent_def tls_irq_disable_def Let_def bits)

lemma irq_consistent_priority:
  "irq_consistent s \<Longrightarrow> irq_consistent (tls_irq_priority v p s)"
  by (auto simp: irq_consistent_def tls_irq_priority_def)

lemma irq_consistent_write [simp]:
  "irq_consistent (tls_reg_write32 r v s) = irq_consistent s"
  "irq_consistent (reg_or r v s) = irq_consistent s"
  "irq_consistent (reg_andn r v s) = irq_consistent s"
  by (simp_all add: irq_consistent_def)

end
