(* ===== verification/Cpu_Pmu.thy ===== *)
theory Cpu_Pmu
  imports Mcu_Regs
begin

text \<open>
  The clock tree (\<^verbatim>\<open>platform/drivers/cpu/wm_cpu.c\<close>) and the power management
  unit with its peripheral clock gates (\<^verbatim>\<open>platform/drivers/pmu/wm_pmu.c\<close>).
  The clock divider register is written by \<open>tls_sys_clk_set\<close> and decoded by
  \<open>tls_sys_clk_get\<close>; the round trip and the frequencies that result are the main
  facts here.
\<close>

unbundle bit_operations_syntax

section \<open>Registers\<close>

abbreviation (input) "HR_PMU_PS_CR \<equiv> 0x40000D00 :: nat"
abbreviation (input) "HR_PMU_TIMER0 \<equiv> 0x40000D04 :: nat"
abbreviation (input) "HR_PMU_TIMER1 \<equiv> 0x40000D08 :: nat"
abbreviation (input) "HR_PMU_RTC_CTRL1 \<equiv> 0x40000D0C :: nat"
abbreviation (input) "HR_PMU_RTC_CTRL2 \<equiv> 0x40000D10 :: nat"
abbreviation (input) "HR_PMU_INTERRUPT_SRC \<equiv> 0x40000D14 :: nat"
abbreviation (input) "HR_PMU_WLAN_STTS \<equiv> 0x40000D1C :: nat"
abbreviation (input) "HR_CLK_BASE_ADDR \<equiv> 0x40000E00 :: nat"
abbreviation (input) "HR_CLK_DIV_CTL \<equiv> 0x40000E10 :: nat"
abbreviation (input) "CORET_CTRL \<equiv> 0xE000E010 :: nat"
abbreviation (input) "CORET_LOAD \<equiv> 0xE000E014 :: nat"
abbreviation (input) "CORET_VAL \<equiv> 0xE000E018 :: nat"
abbreviation (input) "PMU_IRQn \<equiv> 29 :: nat"
abbreviation (input) "W800_PLL_CLK_MHZ \<equiv> 480 :: u32"
abbreviation (input) "UNIT_MHZ \<equiv> 1000000 :: u32"
abbreviation (input) "HZ \<equiv> 500 :: u32"

section \<open>System clock (wm_cpu.c)\<close>

text \<open>\<^verbatim>\<open>csi_coret_config\<close>, the target of \<^verbatim>\<open>SysTick_Config\<close>: a reload value
  over 24 bits is refused.\<close>

definition csi_coret_config :: "u32 \<Rightarrow> 'a mcu_scheme \<Rightarrow> 'a mcu_scheme" where
  "csi_coret_config ticks s =
     (if ticks - 1 > 0xFFFFFF then s
      else let s = tls_reg_write32 CORET_LOAD (ticks - 1) s;
               s = tls_reg_write32 CORET_VAL 0 s
           in tls_reg_write32 CORET_CTRL (BIT 2 OR BIT 1 OR BIT 0) s)"

definition tls_sys_clk_set :: "u32 \<Rightarrow> 'a mcu_scheme \<Rightarrow> 'a mcu_scheme" where
  "tls_sys_clk_set clk s =
     (if clk < 2 \<or> clk > 240 then s
      else
        let RegValue = (tls_reg_read32 HR_CLK_DIV_CTL s AND 0xFF000000) OR 0x80000000;
            (wlanDiv, bus2Fac) =
              (if clk > 12 then (clk div 4, 1) else (3, (3 * 4 div clk) AND 0xFF));
            RegValue = RegValue OR (push_bit 16 bus2Fac OR push_bit 8 wlanDiv OR clk);
            s = tls_reg_write32 HR_CLK_DIV_CTL RegValue s
        in csi_coret_config (W800_PLL_CLK_MHZ * UNIT_MHZ div clk div HZ) s)"

record tls_sys_clk =
  apbclk :: u32
  cpuclk :: u32
  wlanclk :: u32

text \<open>The dividers are the bytes of the divider register. A zero divider makes the
  C division undefined: the model returns \<open>None\<close>.\<close>

definition tls_sys_clk_get :: "'a mcu_scheme \<Rightarrow> tls_sys_clk option" where
  "tls_sys_clk_get s =
     (let w = tls_reg_read32 HR_CLK_DIV_CTL s;
          cpu = field 0 8 w; wlan = field 8 8 w; bus2 = field 16 8 w
      in if cpu = 0 \<or> wlan = 0 \<or> bus2 = 0 then None
         else Some \<lparr>apbclk = W800_PLL_CLK_MHZ div cpu div bus2,
                    cpuclk = W800_PLL_CLK_MHZ div cpu,
                    wlanclk = W800_PLL_CLK_MHZ div wlan\<rparr>)"

lemma csi_coret_config_div_ctl [simp]:
  "regs (csi_coret_config t s) HR_CLK_DIV_CTL = regs s HR_CLK_DIV_CTL"
  by (simp add: csi_coret_config_def Let_def)

lemma clk_word_fields:
  fixes x c b w :: u32
  assumes "unat c < 2 ^ 8" "unat w < 2 ^ 8" "unat b < 2 ^ 8"
  defines "v \<equiv> ((x AND 0xFF000000) OR 0x80000000) OR (push_bit 16 b OR push_bit 8 w OR c)"
  shows "field 0 8 v = c" "field 8 8 v = w" "field 16 8 v = b"
proof -
  have hi: "(0xFF000000 :: u32) = push_bit 24 (mask 8)"
    by (simp add: mask_eq_exp_minus_1)
  have top: "field 0 8 0x80000000 = 0" "field 8 8 0x80000000 = 0" "field 16 8 0x80000000 = 0"
    by (simp_all add: field_def)
  note parts = v_def hi field_or field_and_mask_other top
    field_push_same [OF assms(2)] field_push_same [OF assms(3)]
    field_push_other [OF assms(1)] field_push_other [OF assms(2)] field_push_other [OF assms(3)]
  show "field 0 8 v = c"
    using field_push_same [OF assms(1), of 0] by (simp add: parts)
  show "field 8 8 v = w"
    using field_push_other [OF assms(1), of 0 8 8] by (simp add: parts assms)
  show "field 16 8 v = b"
    using field_push_other [OF assms(1), of 0 16 8] by (simp add: parts assms)
qed

lemma clk_set_word:
  assumes "2 \<le> clk" "clk \<le> 240"
  shows "field 0 8 (regs (tls_sys_clk_set clk s) HR_CLK_DIV_CTL) = clk"
    and "field 8 8 (regs (tls_sys_clk_set clk s) HR_CLK_DIV_CTL) = (if clk > 12 then clk div 4 else 3)"
    and "field 16 8 (regs (tls_sys_clk_set clk s) HR_CLK_DIV_CTL) = (if clk > 12 then 1 else 12 div clk)"
proof -
  have c: "unat clk < 2 ^ 8" using assms by unat_arith
  have d: "unat (clk div 4) < 2 ^ 8" using c by (simp add: unat_div)
  have "unat (12 div clk) \<le> 12" by (simp add: unat_div)
  then have e: "unat (12 div clk) < 2 ^ 8" by simp
  have f: "(12 div clk) AND 0xFF = 12 div clk"
    using bit_small_unat [OF e] by (intro bit_eqI) (auto simp: bit_and_iff u8_mask bit_mask_iff)
  show "field 0 8 (regs (tls_sys_clk_set clk s) HR_CLK_DIV_CTL) = clk"
     "field 8 8 (regs (tls_sys_clk_set clk s) HR_CLK_DIV_CTL) = (if clk > 12 then clk div 4 else 3)"
     "field 16 8 (regs (tls_sys_clk_set clk s) HR_CLK_DIV_CTL) = (if clk > 12 then 1 else 12 div clk)"
    using assms clk_word_fields [OF c d, of 1] clk_word_fields [OF c _ e, of 3]
    by (auto simp: tls_sys_clk_set_def Let_def f not_less)
qed

lemma clk_set_get:
  assumes "2 \<le> clk" "clk \<le> 240"
  shows "tls_sys_clk_get (tls_sys_clk_set clk s) =
    Some \<lparr>apbclk = 480 div clk div (if clk > 12 then 1 else 12 div clk), cpuclk = 480 div clk,
          wlanclk = 480 div (if clk > 12 then clk div 4 else 3)\<rparr>"
proof -
  have "clk \<noteq> 0" using assms by auto
  moreover have "12 div clk \<noteq> 0" if "clk \<le> 12"
  proof -
    have "unat clk \<le> 12" "unat clk \<noteq> 0"
      using that \<open>clk \<noteq> 0\<close> by (simp_all add: word_le_nat_alt unat_eq_0)
    then have "unat (12 div clk) \<noteq> 0" by (simp add: unat_div div_eq_0_iff)
    then show ?thesis by auto
  qed
  moreover have "clk div 4 \<noteq> 0" if "12 < clk"
  proof -
    have "12 < unat clk" using that by (simp add: word_less_nat_alt)
    then have "unat (clk div 4) \<noteq> 0" by (simp add: unat_div div_eq_0_iff)
    then show ?thesis by auto
  qed
  ultimately show ?thesis
    using clk_set_word [OF assms, of s] by (auto simp: tls_sys_clk_get_def Let_def not_less)
qed

definition mcu_reset :: mcu where
  "mcu_reset = \<lparr>regs = (\<lambda>_. 0), irqen_status = 0, nvic_log = []\<rparr>"

text \<open>Setting the system clock divider and reading the clocks back: for every divider
  the code accepts the decoded clocks are the ones requested (the CPU runs at 480 MHz
  over the divider), a divider outside 2 to 240 changes nothing, and for the four named
  settings of 40 MHz and more the APB clock is 40 MHz and the WLAN clock 160 MHz,
  whatever the register held before.\<close>

theorem sys_clk_set_get:
  "(if 2 \<le> clk \<and> clk \<le> 240
    then tls_sys_clk_get (tls_sys_clk_set clk s) =
      Some \<lparr>apbclk = 480 div clk div (if clk > 12 then 1 else 12 div clk), cpuclk = 480 div clk,
            wlanclk = 480 div (if clk > 12 then clk div 4 else 3)\<rparr>
    else tls_sys_clk_set clk s = s)
   \<and> (clk \<in> {2, 3, 6, 12} \<longrightarrow>
      tls_sys_clk_get (tls_sys_clk_set clk s) = Some \<lparr>apbclk = 40, cpuclk = 480 div clk, wlanclk = 160\<rparr>)"
  using clk_set_get [of clk s] by (auto simp: tls_sys_clk_set_def)

theorem sys_clk_set_get_witness:
  "tls_sys_clk_get (tls_sys_clk_set 2 mcu_reset) = Some \<lparr>apbclk = 40, cpuclk = 240, wlanclk = 160\<rparr>"
  using sys_clk_set_get [of 2 mcu_reset] by simp

section \<open>Power management unit (wm_pmu.c)\<close>

text \<open>
  An interrupt context is a callback pointer (\<open>None\<close> for \<^verbatim>\<open>NULL\<close>, otherwise the
  identity of the user function) with its argument. A handler returns the calls it
  makes, in order: the callbacks themselves are user code.
\<close>

record irq_context =
  callback :: "nat option"
  arg :: u32

type_synonym cb_call = "nat \<times> u32"

definition run_callback :: "irq_context \<Rightarrow> cb_call list" where
  "run_callback c = (case callback c of None \<Rightarrow> [] | Some f \<Rightarrow> [(f, arg c)])"

record pmu_state = mcu +
  pmu_timer1_context :: irq_context
  pmu_timer0_context :: irq_context
  pmu_gpio_wake_context :: irq_context
  pmu_sdio_wake_context :: irq_context

definition PMU_TIMER1_IRQHandler :: "'a pmu_state_scheme \<Rightarrow> cb_call list \<times> 'a pmu_state_scheme" where
  "PMU_TIMER1_IRQHandler s =
     (let s = tls_reg_write32 HR_PMU_INTERRUPT_SRC (BIT 1 OR 0x180) s;
          s = reg_andn HR_PMU_TIMER1 (BIT 16) s
      in (run_callback (pmu_timer1_context s), s))"

definition PMU_TIMER0_IRQHandler :: "'a pmu_state_scheme \<Rightarrow> cb_call list \<times> 'a pmu_state_scheme" where
  "PMU_TIMER0_IRQHandler s =
     (let s = tls_reg_write32 HR_PMU_INTERRUPT_SRC (BIT 0 OR 0x180) s;
          s = reg_andn HR_PMU_TIMER0 (BIT 16) s
      in (run_callback (pmu_timer0_context s), s))"

definition PMU_GPIO_WAKE_IRQHandler :: "'a pmu_state_scheme \<Rightarrow> cb_call list \<times> 'a pmu_state_scheme" where
  "PMU_GPIO_WAKE_IRQHandler s =
     (let s = tls_reg_write32 HR_PMU_INTERRUPT_SRC (BIT 2 OR 0x180) s
      in (run_callback (pmu_gpio_wake_context s), s))"

definition PMU_SDIO_WAKE_IRQHandler :: "'a pmu_state_scheme \<Rightarrow> cb_call list \<times> 'a pmu_state_scheme" where
  "PMU_SDIO_WAKE_IRQHandler s =
     (let s = tls_reg_write32 HR_PMU_INTERRUPT_SRC (BIT 3 OR 0x180) s
      in (run_callback (pmu_sdio_wake_context s), s))"

definition tls_pmu_timer1_isr_register ::
    "nat option \<Rightarrow> u32 \<Rightarrow> 'a pmu_state_scheme \<Rightarrow> 'a pmu_state_scheme" where
  "tls_pmu_timer1_isr_register cb a s =
     tls_irq_enable PMU_IRQn (s\<lparr>pmu_timer1_context := \<lparr>callback = cb, arg = a\<rparr>\<rparr>)"

definition tls_pmu_timer0_isr_register ::
    "nat option \<Rightarrow> u32 \<Rightarrow> 'a pmu_state_scheme \<Rightarrow> 'a pmu_state_scheme" where
  "tls_pmu_timer0_isr_register cb a s =
     tls_irq_enable PMU_IRQn (s\<lparr>pmu_timer0_context := \<lparr>callback = cb, arg = a\<rparr>\<rparr>)"

definition tls_pmu_gpio_isr_register ::
    "nat option \<Rightarrow> u32 \<Rightarrow> 'a pmu_state_scheme \<Rightarrow> 'a pmu_state_scheme" where
  "tls_pmu_gpio_isr_register cb a s =
     tls_irq_enable PMU_IRQn (s\<lparr>pmu_gpio_wake_context := \<lparr>callback = cb, arg = a\<rparr>\<rparr>)"

definition tls_pmu_sdio_isr_register ::
    "nat option \<Rightarrow> u32 \<Rightarrow> 'a pmu_state_scheme \<Rightarrow> 'a pmu_state_scheme" where
  "tls_pmu_sdio_isr_register cb a s =
     tls_irq_enable PMU_IRQn (s\<lparr>pmu_sdio_wake_context := \<lparr>callback = cb, arg = a\<rparr>\<rparr>)"

definition tls_pmu_clk_select :: "u8 \<Rightarrow> 'a mcu_scheme \<Rightarrow> 'a mcu_scheme" where
  "tls_pmu_clk_select bypass s =
     (let val = tls_reg_read32 HR_PMU_PS_CR s;
          val = (if bypass \<noteq> 0 then val OR BIT 4 else val AND NOT (BIT 4));
          val = val OR BIT 3
      in tls_reg_write32 HR_PMU_PS_CR val s)"

text \<open>The sleep/standby status bits 7 and 8 are written back when set
  (the same five lines start four functions of the file).\<close>

definition pmu_ack_status :: "'a mcu_scheme \<Rightarrow> 'a mcu_scheme" where
  "pmu_ack_status s =
     (let val = tls_reg_read32 HR_PMU_INTERRUPT_SRC s
      in if val AND 0x180 \<noteq> 0 then tls_reg_write32 HR_PMU_INTERRUPT_SRC val s else s)"

definition tls_pmu_timer0_start :: "u16 \<Rightarrow> 'a mcu_scheme \<Rightarrow> 'a mcu_scheme" where
  "tls_pmu_timer0_start second s =
     (let s = pmu_ack_status s;
          s = tls_reg_write32 HR_PMU_PS_CR (tls_reg_read32 HR_PMU_PS_CR s OR BIT 3) s
      in tls_reg_write32 HR_PMU_TIMER0 (ucast second OR BIT 16) s)"

definition tls_pmu_timer0_stop :: "'a mcu_scheme \<Rightarrow> 'a mcu_scheme" where
  "tls_pmu_timer0_stop s = reg_andn HR_PMU_TIMER0 (BIT 16) s"

definition tls_pmu_timer1_start :: "u16 \<Rightarrow> 'a mcu_scheme \<Rightarrow> 'a mcu_scheme" where
  "tls_pmu_timer1_start msec s =
     (let s = pmu_ack_status s;
          val = tls_reg_read32 HR_PMU_PS_CR s OR BIT 3
      in if val AND BIT 4 = 0 then
           let s = tls_reg_write32 HR_PMU_PS_CR val s;
               val = (if msec < 5 then 5 else ucast msec)
           in tls_reg_write32 HR_PMU_TIMER1 ((val - 5) OR BIT 16) s
         else tls_reg_write32 HR_PMU_TIMER1 ((ucast msec - 1) OR BIT 16) s)"

definition tls_pmu_timer1_stop :: "'a mcu_scheme \<Rightarrow> 'a mcu_scheme" where
  "tls_pmu_timer1_stop s =
     tls_reg_write32 HR_PMU_TIMER1
       (tls_reg_read32 HR_PMU_TIMER1 s AND NOT (BIT 16) AND NOT (BIT 17)) s"

definition tls_pmu_standby_start :: "'a mcu_scheme \<Rightarrow> 'a mcu_scheme" where
  "tls_pmu_standby_start s =
     (let s = tls_irq_enable PMU_IRQn s;
          s = pmu_ack_status s
      in reg_or HR_PMU_PS_CR (BIT 0) s)"

definition tls_pmu_sleep_start :: "'a mcu_scheme \<Rightarrow> 'a mcu_scheme" where
  "tls_pmu_sleep_start s =
     (let s = tls_irq_enable PMU_IRQn s;
          s = pmu_ack_status s;
          val = tls_reg_read32 HR_PMU_PS_CR s;
          s = (if val AND BIT 4 \<noteq> 0 then reg_or HR_PMU_WLAN_STTS (BIT 8) s else s)
      in tls_reg_write32 HR_PMU_PS_CR (val OR BIT 1) s)"

section \<open>Peripheral clock gates\<close>

abbreviation (input) "TLS_PERIPHERAL_TYPE_I2C \<equiv> BIT 0"
abbreviation (input) "TLS_PERIPHERAL_TYPE_UART0 \<equiv> BIT 1"
abbreviation (input) "TLS_PERIPHERAL_TYPE_UART1 \<equiv> BIT 2"
abbreviation (input) "TLS_PERIPHERAL_TYPE_UART2 \<equiv> BIT 3"
abbreviation (input) "TLS_PERIPHERAL_TYPE_UART3 \<equiv> BIT 4"
abbreviation (input) "TLS_PERIPHERAL_TYPE_UART4 \<equiv> BIT 5"
abbreviation (input) "TLS_PERIPHERAL_TYPE_UART5 \<equiv> BIT 6"
abbreviation (input) "TLS_PERIPHERAL_TYPE_LSPI \<equiv> BIT 7"
abbreviation (input) "TLS_PERIPHERAL_TYPE_DMA \<equiv> BIT 8"
abbreviation (input) "TLS_PERIPHERAL_TYPE_TIMER \<equiv> BIT 10"
abbreviation (input) "TLS_PERIPHERAL_TYPE_SDADC \<equiv> BIT 12"
abbreviation (input) "TLS_PERIPHERAL_TYPE_PWM \<equiv> BIT 13"
abbreviation (input) "TLS_PERIPHERAL_TYPE_I2S \<equiv> BIT 15"
abbreviation (input) "TLS_PERIPHERAL_TYPE_SDIO_MASTER \<equiv> BIT 18"
abbreviation (input) "TLS_PERIPHERAL_TYPE_PSRAM \<equiv> BIT 19"
abbreviation (input) "TLS_PERIPHERAL_TYPE_TOUCH_SENSOR \<equiv> BIT 21"

definition tls_close_peripheral_clock :: "u32 \<Rightarrow> 'a mcu_scheme \<Rightarrow> 'a mcu_scheme" where
  "tls_close_peripheral_clock devices s = reg_andn HR_CLK_BASE_ADDR devices s"

definition tls_open_peripheral_clock :: "u32 \<Rightarrow> 'a mcu_scheme \<Rightarrow> 'a mcu_scheme" where
  "tls_open_peripheral_clock devices s = reg_or HR_CLK_BASE_ADDR devices s"

lemma clock_gate_regs [simp]:
  "regs (tls_open_peripheral_clock d s) =
     (regs s)(HR_CLK_BASE_ADDR := regs s HR_CLK_BASE_ADDR OR d)"
  "regs (tls_close_peripheral_clock d s) =
     (regs s)(HR_CLK_BASE_ADDR := regs s HR_CLK_BASE_ADDR AND NOT d)"
  by (simp_all add: tls_open_peripheral_clock_def tls_close_peripheral_clock_def)

lemma clock_gate_frame [simp]:
  "irqen_status (tls_open_peripheral_clock d s) = irqen_status s"
  "irqen_status (tls_close_peripheral_clock d s) = irqen_status s"
  "nvic_log (tls_open_peripheral_clock d s) = nvic_log s"
  "nvic_log (tls_close_peripheral_clock d s) = nvic_log s"
  "mcu.more (tls_open_peripheral_clock d s) = mcu.more s"
  "mcu.more (tls_close_peripheral_clock d s) = mcu.more s"
  by (simp_all add: tls_open_peripheral_clock_def tls_close_peripheral_clock_def)

end
