(* ===== verification/Io.thy ===== *)
theory Io
  imports Cpu_Pmu
begin

text \<open>
  The pin multiplexer, \<^verbatim>\<open>platform/drivers/io/wm_io.c\<close>: seven options per pin,
  written by \<open>tls_io_cfg_set\<close> and decoded by \<open>tls_io_cfg_get\<close>. A pin number is
  the value of its \<^verbatim>\<open>enum tls_io_name\<close> constant (the code computes with it):
  0 to 15 on port A, 16 to 47 on port B. The interface \<open>pin_op\<close> states what a
  per-pin operation leaves alone; every option is an instance, and so are the GPIO
  configuration calls built on them.
\<close>

unbundle bit_operations_syntax

section \<open>Pins and registers\<close>

type_synonym tls_io_name = nat

abbreviation (input) "WM_IO_PA_00 \<equiv> 0 :: nat"
abbreviation (input) "WM_IO_PA_01 \<equiv> 1 :: nat"
abbreviation (input) "WM_IO_PA_02 \<equiv> 2 :: nat"
abbreviation (input) "WM_IO_PA_03 \<equiv> 3 :: nat"
abbreviation (input) "WM_IO_PA_04 \<equiv> 4 :: nat"
abbreviation (input) "WM_IO_PA_05 \<equiv> 5 :: nat"
abbreviation (input) "WM_IO_PA_06 \<equiv> 6 :: nat"
abbreviation (input) "WM_IO_PA_07 \<equiv> 7 :: nat"
abbreviation (input) "WM_IO_PA_08 \<equiv> 8 :: nat"
abbreviation (input) "WM_IO_PA_09 \<equiv> 9 :: nat"
abbreviation (input) "WM_IO_PA_10 \<equiv> 10 :: nat"
abbreviation (input) "WM_IO_PA_11 \<equiv> 11 :: nat"
abbreviation (input) "WM_IO_PA_12 \<equiv> 12 :: nat"
abbreviation (input) "WM_IO_PA_13 \<equiv> 13 :: nat"
abbreviation (input) "WM_IO_PA_14 \<equiv> 14 :: nat"
abbreviation (input) "WM_IO_PA_15 \<equiv> 15 :: nat"
abbreviation (input) "WM_IO_PB_00 \<equiv> 16 :: nat"
abbreviation (input) "WM_IO_PB_01 \<equiv> 17 :: nat"
abbreviation (input) "WM_IO_PB_02 \<equiv> 18 :: nat"
abbreviation (input) "WM_IO_PB_03 \<equiv> 19 :: nat"
abbreviation (input) "WM_IO_PB_04 \<equiv> 20 :: nat"
abbreviation (input) "WM_IO_PB_05 \<equiv> 21 :: nat"
abbreviation (input) "WM_IO_PB_06 \<equiv> 22 :: nat"
abbreviation (input) "WM_IO_PB_07 \<equiv> 23 :: nat"
abbreviation (input) "WM_IO_PB_08 \<equiv> 24 :: nat"
abbreviation (input) "WM_IO_PB_09 \<equiv> 25 :: nat"
abbreviation (input) "WM_IO_PB_10 \<equiv> 26 :: nat"
abbreviation (input) "WM_IO_PB_11 \<equiv> 27 :: nat"
abbreviation (input) "WM_IO_PB_12 \<equiv> 28 :: nat"
abbreviation (input) "WM_IO_PB_13 \<equiv> 29 :: nat"
abbreviation (input) "WM_IO_PB_14 \<equiv> 30 :: nat"
abbreviation (input) "WM_IO_PB_15 \<equiv> 31 :: nat"
abbreviation (input) "WM_IO_PB_16 \<equiv> 32 :: nat"
abbreviation (input) "WM_IO_PB_17 \<equiv> 33 :: nat"
abbreviation (input) "WM_IO_PB_18 \<equiv> 34 :: nat"
abbreviation (input) "WM_IO_PB_19 \<equiv> 35 :: nat"
abbreviation (input) "WM_IO_PB_20 \<equiv> 36 :: nat"
abbreviation (input) "WM_IO_PB_21 \<equiv> 37 :: nat"
abbreviation (input) "WM_IO_PB_22 \<equiv> 38 :: nat"
abbreviation (input) "WM_IO_PB_23 \<equiv> 39 :: nat"
abbreviation (input) "WM_IO_PB_24 \<equiv> 40 :: nat"
abbreviation (input) "WM_IO_PB_25 \<equiv> 41 :: nat"
abbreviation (input) "WM_IO_PB_26 \<equiv> 42 :: nat"
abbreviation (input) "WM_IO_PB_27 \<equiv> 43 :: nat"
abbreviation (input) "WM_IO_PB_28 \<equiv> 44 :: nat"
abbreviation (input) "WM_IO_PB_29 \<equiv> 45 :: nat"
abbreviation (input) "WM_IO_PB_30 \<equiv> 46 :: nat"
abbreviation (input) "WM_IO_PB_31 \<equiv> 47 :: nat"

abbreviation (input) "TLS_IO_AB_OFFSET \<equiv> 0x40011400 - 0x40011200 :: nat"
abbreviation (input) "HR_GPIO_DATA \<equiv> 0x40011200 :: nat"
abbreviation (input) "HR_GPIO_DATA_EN \<equiv> 0x40011204 :: nat"
abbreviation (input) "HR_GPIO_DIR \<equiv> 0x40011208 :: nat"
abbreviation (input) "HR_GPIO_PULLUP_EN \<equiv> 0x4001120C :: nat"
abbreviation (input) "HR_GPIO_AF_SEL \<equiv> 0x40011210 :: nat"
abbreviation (input) "HR_GPIO_AF_S1 \<equiv> 0x40011214 :: nat"
abbreviation (input) "HR_GPIO_AF_S0 \<equiv> 0x40011218 :: nat"
abbreviation (input) "HR_GPIO_PULLDOWN_EN \<equiv> 0x4001121C :: nat"
abbreviation (input) "HR_GPIO_IS \<equiv> 0x40011220 :: nat"
abbreviation (input) "HR_GPIO_IBE \<equiv> 0x40011224 :: nat"
abbreviation (input) "HR_GPIO_IEV \<equiv> 0x40011228 :: nat"
abbreviation (input) "HR_GPIO_IE \<equiv> 0x4001122C :: nat"
abbreviation (input) "HR_GPIO_RIS \<equiv> 0x40011230 :: nat"
abbreviation (input) "HR_GPIO_MIS \<equiv> 0x40011234 :: nat"
abbreviation (input) "HR_GPIO_IC \<equiv> 0x40011238 :: nat"

abbreviation (input) "WM_IO_OPTION1 \<equiv> 1 :: u8"
abbreviation (input) "WM_IO_OPTION2 \<equiv> 2 :: u8"
abbreviation (input) "WM_IO_OPTION3 \<equiv> 3 :: u8"
abbreviation (input) "WM_IO_OPTION4 \<equiv> 4 :: u8"
abbreviation (input) "WM_IO_OPTION5 \<equiv> 5 :: u8"
abbreviation (input) "WM_IO_OPTION6 \<equiv> 6 :: u8"
abbreviation (input) "WM_IO_OPTION7 \<equiv> 7 :: u8"

text \<open>The first lines of every function of the file: the bit of a pin in its port's
  registers, and the distance of that port's registers from port A's.\<close>

definition io_pin :: "tls_io_name \<Rightarrow> nat" where
  "io_pin name = (if name \<ge> WM_IO_PB_00 then name - WM_IO_PB_00 else name)"

definition io_offset :: "tls_io_name \<Rightarrow> nat" where
  "io_offset name = (if name \<ge> WM_IO_PB_00 then TLS_IO_AB_OFFSET else 0)"

record io_state = mcu +
  io_pa_option67 :: u32
  io_pb_option67 :: u32

section \<open>The options\<close>

definition io_pulls_off :: "nat \<Rightarrow> nat \<Rightarrow> 'a mcu_scheme \<Rightarrow> 'a mcu_scheme" where
  "io_pulls_off offset pin s =
     (let s = reg_or (HR_GPIO_PULLUP_EN + offset) (BIT pin) s
      in reg_andn (HR_GPIO_PULLDOWN_EN + offset) (BIT pin) s)"

definition io_cfg_option1 :: "tls_io_name \<Rightarrow> 'a io_state_scheme \<Rightarrow> 'a io_state_scheme" where
  "io_cfg_option1 name s =
     (let pin = io_pin name; offset = io_offset name;
          s = reg_or (HR_GPIO_AF_SEL + offset) (BIT pin) s;
          s = reg_andn (HR_GPIO_AF_S1 + offset) (BIT pin) s;
          s = reg_andn (HR_GPIO_AF_S0 + offset) (BIT pin) s
      in io_pulls_off offset pin s)"

definition io_cfg_option2 :: "tls_io_name \<Rightarrow> 'a io_state_scheme \<Rightarrow> 'a io_state_scheme" where
  "io_cfg_option2 name s =
     (let pin = io_pin name; offset = io_offset name;
          s = reg_or (HR_GPIO_AF_SEL + offset) (BIT pin) s;
          s = reg_andn (HR_GPIO_AF_S1 + offset) (BIT pin) s;
          s = reg_or (HR_GPIO_AF_S0 + offset) (BIT pin) s
      in io_pulls_off offset pin s)"

definition io_cfg_option3 :: "tls_io_name \<Rightarrow> 'a io_state_scheme \<Rightarrow> 'a io_state_scheme" where
  "io_cfg_option3 name s =
     (let pin = io_pin name; offset = io_offset name;
          s = reg_or (HR_GPIO_AF_SEL + offset) (BIT pin) s;
          s = reg_or (HR_GPIO_AF_S1 + offset) (BIT pin) s;
          s = reg_andn (HR_GPIO_AF_S0 + offset) (BIT pin) s
      in io_pulls_off offset pin s)"

definition io_cfg_option4 :: "tls_io_name \<Rightarrow> 'a io_state_scheme \<Rightarrow> 'a io_state_scheme" where
  "io_cfg_option4 name s =
     (let pin = io_pin name; offset = io_offset name;
          s = reg_or (HR_GPIO_AF_SEL + offset) (BIT pin) s;
          s = reg_or (HR_GPIO_AF_S1 + offset) (BIT pin) s;
          s = reg_or (HR_GPIO_AF_S0 + offset) (BIT pin) s
      in io_pulls_off offset pin s)"

definition io_cfg_option5 :: "tls_io_name \<Rightarrow> 'a io_state_scheme \<Rightarrow> 'a io_state_scheme" where
  "io_cfg_option5 name s =
     (let pin = io_pin name; offset = io_offset name;
          s = reg_andn (HR_GPIO_AF_SEL + offset) (BIT pin) s
      in io_pulls_off offset pin s)"

text \<open>Options 6 (analogue) and 7 (touch) have the same registers; two static words
  tell them apart. Option 7 masks the word with \<^verbatim>\<open>BIT(pin)\<close> itself, not with its
  complement.\<close>

definition io_cfg_option6 :: "tls_io_name \<Rightarrow> 'a io_state_scheme \<Rightarrow> 'a io_state_scheme" where
  "io_cfg_option6 name s =
     (let pin = io_pin name; offset = io_offset name;
          s = (if name \<ge> WM_IO_PB_00
               then s\<lparr>io_pb_option67 := io_pb_option67 s OR BIT pin\<rparr>
               else s\<lparr>io_pa_option67 := io_pa_option67 s OR BIT pin\<rparr>);
          s = reg_andn (HR_GPIO_AF_SEL + offset) (BIT pin) s;
          s = reg_andn (HR_GPIO_DIR + offset) (BIT pin) s
      in io_pulls_off offset pin s)"

definition io_cfg_option7 :: "tls_io_name \<Rightarrow> 'a io_state_scheme \<Rightarrow> 'a io_state_scheme" where
  "io_cfg_option7 name s =
     (let pin = io_pin name; offset = io_offset name;
          s = (if name \<ge> WM_IO_PB_00
               then s\<lparr>io_pb_option67 := io_pb_option67 s AND BIT pin\<rparr>
               else s\<lparr>io_pa_option67 := io_pa_option67 s AND BIT pin\<rparr>);
          s = reg_andn (HR_GPIO_AF_SEL + offset) (BIT pin) s;
          s = reg_andn (HR_GPIO_DIR + offset) (BIT pin) s
      in io_pulls_off offset pin s)"

definition tls_io_cfg_set :: "tls_io_name \<Rightarrow> u8 \<Rightarrow> 'a io_state_scheme \<Rightarrow> 'a io_state_scheme" where
  "tls_io_cfg_set name opt s =
     (if WM_IO_OPTION1 = opt then io_cfg_option1 name s
      else if WM_IO_OPTION2 = opt then io_cfg_option2 name s
      else if WM_IO_OPTION3 = opt then io_cfg_option3 name s
      else if WM_IO_OPTION4 = opt then io_cfg_option4 name s
      else if WM_IO_OPTION5 = opt then io_cfg_option5 name s
      else if WM_IO_OPTION6 = opt then io_cfg_option6 name s
      else if WM_IO_OPTION7 = opt then io_cfg_option7 name s
      else s)"

definition tls_io_cfg_get :: "tls_io_name \<Rightarrow> 'a io_state_scheme \<Rightarrow> u8" where
  "tls_io_cfg_get name s =
     (let pin = io_pin name; offset = io_offset name;
          afsel = tls_reg_read32 (HR_GPIO_AF_SEL + offset) s;
          afs1 = tls_reg_read32 (HR_GPIO_AF_S1 + offset) s;
          afs0 = tls_reg_read32 (HR_GPIO_AF_S0 + offset) s;
          dir = tls_reg_read32 (HR_GPIO_DIR + offset) s;
          pullupen = tls_reg_read32 (HR_GPIO_PULLUP_EN + offset) s;
          pulldownen = tls_reg_read32 (HR_GPIO_PULLDOWN_EN + offset) s
      in if afsel AND BIT pin \<noteq> 0 then
           (if afs1 AND BIT pin = 0 \<and> afs0 AND BIT pin = 0 then WM_IO_OPTION1
            else if afs1 AND BIT pin = 0 \<and> afs0 AND BIT pin \<noteq> 0 then WM_IO_OPTION2
            else if afs1 AND BIT pin \<noteq> 0 \<and> afs0 AND BIT pin = 0 then WM_IO_OPTION3
            else if afs1 AND BIT pin \<noteq> 0 \<and> afs0 AND BIT pin \<noteq> 0 then WM_IO_OPTION4
            else 0)
         else
           (if dir AND BIT pin = 0 \<and> pullupen AND BIT pin \<noteq> 0 \<and> pulldownen AND BIT pin = 0 then
              (if offset \<noteq> 0
               then (if io_pb_option67 s AND BIT pin \<noteq> 0 then WM_IO_OPTION6 else WM_IO_OPTION7)
               else (if io_pa_option67 s AND BIT pin \<noteq> 0 then WM_IO_OPTION6 else WM_IO_OPTION7))
            else WM_IO_OPTION5))"

section \<open>Frame of a per-pin operation\<close>

lemma io_pin_less: "name < 48 \<Longrightarrow> io_pin name < 32"
  unfolding io_pin_def by (split if_split) linarith

lemma io_pin_eqD: "io_pin name = io_pin name' \<Longrightarrow> io_offset name = io_offset name' \<Longrightarrow> name = name'"
  by (auto simp: io_pin_def io_offset_def split: if_splits)

lemma io_offset_cases: "io_offset name = 0 \<or> io_offset name = 0x200"
  by (simp add: io_offset_def)

lemma io67_frame [simp]:
  "io_pa_option67 (tls_reg_write32 r v s) = io_pa_option67 s"
  "io_pb_option67 (tls_reg_write32 r v s) = io_pb_option67 s"
  "io_pa_option67 (reg_or r v s) = io_pa_option67 s"
  "io_pb_option67 (reg_or r v s) = io_pb_option67 s"
  "io_pa_option67 (reg_andn r v s) = io_pa_option67 s"
  "io_pb_option67 (reg_andn r v s) = io_pb_option67 s"
  "io_pa_option67 (tls_irq_enable n s) = io_pa_option67 s"
  "io_pb_option67 (tls_irq_enable n s) = io_pb_option67 s"
  "io_pa_option67 (tls_irq_disable n s) = io_pa_option67 s"
  "io_pb_option67 (tls_irq_disable n s) = io_pb_option67 s"
  "io_pa_option67 (tls_open_peripheral_clock d s) = io_pa_option67 s"
  "io_pb_option67 (tls_open_peripheral_clock d s) = io_pb_option67 s"
  by (simp_all add: reg_or_def reg_andn_def tls_reg_write32_def tls_irq_enable_def
      tls_irq_disable_def nvic_def tls_open_peripheral_clock_def Let_def)

lemmas io_option_defs = io_cfg_option1_def io_cfg_option2_def io_cfg_option3_def io_cfg_option4_def
  io_cfg_option5_def io_cfg_option6_def io_cfg_option7_def io_pulls_off_def Let_def

text \<open>The configuration registers of a pin: direction, pulls and function selection of
  its port; and its port's option 6/7 record.\<close>

definition pin_regs :: "tls_io_name \<Rightarrow> nat set" where
  "pin_regs name = (\<lambda>r. r + io_offset name) `
     {HR_GPIO_DIR, HR_GPIO_PULLUP_EN, HR_GPIO_AF_SEL, HR_GPIO_AF_S1, HR_GPIO_AF_S0, HR_GPIO_PULLDOWN_EN}"

definition option67 :: "tls_io_name \<Rightarrow> 'a io_state_scheme \<Rightarrow> bool" where
  "option67 name s =
     bit (if name \<ge> WM_IO_PB_00 then io_pb_option67 s else io_pa_option67 s) (io_pin name)"

definition pin_bit :: "nat \<Rightarrow> tls_io_name \<Rightarrow> 'a io_state_scheme \<Rightarrow> bool" where
  "pin_bit r name s = bit (regs s (r + io_offset name)) (io_pin name)"

lemma pin_regs_disjoint: "io_offset name \<noteq> io_offset name' \<Longrightarrow> pin_regs name \<inter> pin_regs name' = {}"
  using io_offset_cases [of name] io_offset_cases [of name'] by (auto simp: pin_regs_def)

text \<open>The decoded option of a pin as a function of its own seven bits.\<close>

lemma get_bits:
  "tls_io_cfg_get name s =
     (if pin_bit HR_GPIO_AF_SEL name s then
        (if pin_bit HR_GPIO_AF_S1 name s
         then if pin_bit HR_GPIO_AF_S0 name s then 4 else 3
         else if pin_bit HR_GPIO_AF_S0 name s then 2 else 1)
      else if \<not> pin_bit HR_GPIO_DIR name s \<and> pin_bit HR_GPIO_PULLUP_EN name s
              \<and> \<not> pin_bit HR_GPIO_PULLDOWN_EN name s
      then if option67 name s then 6 else 7
      else 5)"
proof -
  have "io_offset name = 0 \<longleftrightarrow> \<not> name \<ge> WM_IO_PB_00" by (simp add: io_offset_def)
  then show ?thesis
    by (simp add: tls_io_cfg_get_def Let_def and_BIT_eq_0 pin_bit_def option67_def
        del: One_nat_def)
qed

text \<open>
  What every pin operation promises: it changes no bit but the pin's own, and only in the
  pin's configuration registers.
\<close>

locale pin_op =
  fixes op :: "tls_io_name \<Rightarrow> 'a io_state_scheme \<Rightarrow> 'a io_state_scheme"
  assumes bit_frame: "r \<notin> pin_regs name \<or> n \<noteq> io_pin name \<Longrightarrow>
    bit (regs (op name s) r) n = bit (regs s r) n"
begin

lemma other_register: "r \<notin> pin_regs name \<Longrightarrow> regs (op name s) r = regs s r"
  by (intro bit_eqI) (simp add: bit_frame)

lemma other_pin:
  assumes "name' \<noteq> name" "r \<in> pin_regs name'"
  shows "bit (regs (op name s) r) (io_pin name') = bit (regs s r) (io_pin name')"
proof (cases "io_offset name = io_offset name'")
  case True
  with assms(1) have "io_pin name' \<noteq> io_pin name" using io_pin_eqD by metis
  then show ?thesis by (simp add: bit_frame)
next
  case False
  with assms(2) have "r \<notin> pin_regs name" using pin_regs_disjoint by blast
  then show ?thesis by (simp add: bit_frame)
qed

lemma pin_bit_other:
  assumes "name' \<noteq> name"
    and "r \<in> {HR_GPIO_DIR, HR_GPIO_PULLUP_EN, HR_GPIO_AF_SEL, HR_GPIO_AF_S1, HR_GPIO_AF_S0, HR_GPIO_PULLDOWN_EN}"
  shows "pin_bit r name' (op name s) = pin_bit r name' s"
  unfolding pin_bit_def using assms by (intro other_pin) (auto simp: pin_regs_def)

end

text \<open>A pin operation that also keeps the option 6/7 record of the other pins leaves
  their decoded configuration alone.\<close>

locale pin_op67 = pin_op +
  assumes option67_frame: "name' \<noteq> name \<Longrightarrow> option67 name' (op name s) = option67 name' s"
begin

lemma get_other_pin:
  assumes "name' \<noteq> name"
  shows "tls_io_cfg_get name' (op name s) = tls_io_cfg_get name' s"
  by (simp add: get_bits pin_bit_other [OF assms] option67_frame [OF assms])

end

interpretation io1: pin_op67 io_cfg_option1
  by unfold_locales
    (auto simp: io_cfg_option1_def Let_def io_pulls_off_def pin_regs_def option67_def bits)

interpretation io2: pin_op67 io_cfg_option2
  by unfold_locales
    (auto simp: io_cfg_option2_def Let_def io_pulls_off_def pin_regs_def option67_def bits)

interpretation io3: pin_op67 io_cfg_option3
  by unfold_locales
    (auto simp: io_cfg_option3_def Let_def io_pulls_off_def pin_regs_def option67_def bits)

interpretation io4: pin_op67 io_cfg_option4
  by unfold_locales
    (auto simp: io_cfg_option4_def Let_def io_pulls_off_def pin_regs_def option67_def bits)

interpretation io5: pin_op67 io_cfg_option5
  by unfold_locales
    (auto simp: io_cfg_option5_def Let_def io_pulls_off_def pin_regs_def option67_def bits)

lemma option67_set6:
  "option67 name' (io_cfg_option6 name s) \<longleftrightarrow> option67 name' s \<or> name' = name \<and> io_pin name < 32"
  by (auto simp: io_cfg_option6_def Let_def io_pulls_off_def option67_def bits io_pin_def split: if_splits)

lemma option67_set7:
  "option67 name' (io_cfg_option7 name s) \<longleftrightarrow>
     option67 name' s \<and> (name' = name \<or> io_offset name' \<noteq> io_offset name)"
  by (auto simp: io_cfg_option7_def Let_def io_pulls_off_def option67_def bits io_pin_def io_offset_def
      bit_and_iff dest: bit_u32_less split: if_splits)

interpretation io6: pin_op67 io_cfg_option6
proof unfold_locales
  show "bit (regs (io_cfg_option6 name s) r) n = bit (regs s r) n"
    if "r \<notin> pin_regs name \<or> n \<noteq> io_pin name" for r name n and s :: "'a io_state_scheme"
    using that by (auto simp: io_cfg_option6_def Let_def io_pulls_off_def pin_regs_def bits)
qed (simp add: option67_set6)

text \<open>Option 7 keeps the registers of the other pins but not their option 6/7 record:
  it is a \<open>pin_op\<close> only.\<close>

interpretation io7: pin_op io_cfg_option7
  by unfold_locales (auto simp: io_cfg_option7_def Let_def io_pulls_off_def pin_regs_def bits)

interpretation io_set: pin_op "\<lambda>name. tls_io_cfg_set name opt"
  by unfold_locales
    (simp add: tls_io_cfg_set_def io1.bit_frame io2.bit_frame io3.bit_frame io4.bit_frame
      io5.bit_frame io6.bit_frame io7.bit_frame)

lemma set_other_pin:
  assumes "name' \<noteq> name" "opt \<noteq> WM_IO_OPTION7"
  shows "tls_io_cfg_get name' (tls_io_cfg_set name opt s) = tls_io_cfg_get name' s"
  using assms(2)
  by (simp add: tls_io_cfg_set_def io1.get_other_pin [OF assms(1)] io2.get_other_pin [OF assms(1)]
      io3.get_other_pin [OF assms(1)] io4.get_other_pin [OF assms(1)]
      io5.get_other_pin [OF assms(1)] io6.get_other_pin [OF assms(1)])

section \<open>What each option leaves in the registers of its pin\<close>

lemma pulls_off_bits:
  assumes "name < 48"
  shows "pin_bit r name (io_pulls_off (io_offset name) (io_pin name) s) \<longleftrightarrow>
    r = HR_GPIO_PULLUP_EN \<or> r \<noteq> HR_GPIO_PULLDOWN_EN \<and> pin_bit r name s"
  using io_pin_less [OF assms] by (auto simp: pin_bit_def io_pulls_off_def Let_def bits)

lemma pin_bit_rmw:
  assumes "name < 48"
  shows "pin_bit r name (reg_or (r' + io_offset name) (BIT (io_pin name)) s) \<longleftrightarrow> r = r' \<or> pin_bit r name s"
    and "pin_bit r name (reg_andn (r' + io_offset name) (BIT (io_pin name)) s) \<longleftrightarrow> r \<noteq> r' \<and> pin_bit r name s"
  using io_pin_less [OF assms] by (auto simp: pin_bit_def bits)

lemma pin_bit_record [simp]:
  "pin_bit r name (s\<lparr>io_pa_option67 := v\<rparr>) = pin_bit r name s"
  "pin_bit r name (s\<lparr>io_pb_option67 := v\<rparr>) = pin_bit r name s"
  by (simp_all add: pin_bit_def)

lemma get_set1: "name < 48 \<Longrightarrow> tls_io_cfg_get name (io_cfg_option1 name s) = 1"
  by (simp add: get_bits io_cfg_option1_def Let_def pulls_off_bits pin_bit_rmw)

lemma get_set2: "name < 48 \<Longrightarrow> tls_io_cfg_get name (io_cfg_option2 name s) = 2"
  by (simp add: get_bits io_cfg_option2_def Let_def pulls_off_bits pin_bit_rmw)

lemma get_set3: "name < 48 \<Longrightarrow> tls_io_cfg_get name (io_cfg_option3 name s) = 3"
  by (simp add: get_bits io_cfg_option3_def Let_def pulls_off_bits pin_bit_rmw)

lemma get_set4: "name < 48 \<Longrightarrow> tls_io_cfg_get name (io_cfg_option4 name s) = 4"
  by (simp add: get_bits io_cfg_option4_def Let_def pulls_off_bits pin_bit_rmw)

lemma option67_pulls_off [simp]: "option67 name (io_pulls_off off p s) = option67 name s"
  by (simp add: option67_def io_pulls_off_def Let_def)

lemma option67_set5 [simp]: "option67 name' (io_cfg_option5 name s) = option67 name' s"
  by (simp add: option67_def io_cfg_option5_def io_pulls_off_def Let_def)

lemma get_set5:
  "name < 48 \<Longrightarrow> tls_io_cfg_get name (io_cfg_option5 name s) =
     (if pin_bit HR_GPIO_DIR name s then 5 else if option67 name s then 6 else 7)"
  by (simp add: get_bits) (simp add: io_cfg_option5_def Let_def pulls_off_bits pin_bit_rmw)

lemma set67_bits:
  assumes "name < 48"
  shows "\<not> pin_bit HR_GPIO_AF_SEL name (io_cfg_option6 name s)"
    "\<not> pin_bit HR_GPIO_DIR name (io_cfg_option6 name s)"
    "pin_bit HR_GPIO_PULLUP_EN name (io_cfg_option6 name s)"
    "\<not> pin_bit HR_GPIO_PULLDOWN_EN name (io_cfg_option6 name s)"
    "\<not> pin_bit HR_GPIO_AF_SEL name (io_cfg_option7 name s)"
    "\<not> pin_bit HR_GPIO_DIR name (io_cfg_option7 name s)"
    "pin_bit HR_GPIO_PULLUP_EN name (io_cfg_option7 name s)"
    "\<not> pin_bit HR_GPIO_PULLDOWN_EN name (io_cfg_option7 name s)"
  by (simp_all add: io_cfg_option6_def io_cfg_option7_def Let_def pulls_off_bits pin_bit_rmw assms)

lemma get_set6: "name < 48 \<Longrightarrow> tls_io_cfg_get name (io_cfg_option6 name s) = 6"
  by (simp add: get_bits set67_bits option67_set6 io_pin_less)

lemma get_set7:
  "name < 48 \<Longrightarrow> tls_io_cfg_get name (io_cfg_option7 name s) = (if option67 name s then 6 else 7)"
  by (simp add: get_bits set67_bits option67_set7)

lemmas get_set = get_set1 get_set2 get_set3 get_set4 get_set5 get_set6 get_set7

section \<open>Properties of the pin multiplexer\<close>

text \<open>Configuring a pin and reading its configuration back: options 1 to 4 and 6
  are returned as they were set; option 5 is returned when the pin is an output and is
  otherwise reported as 6 or 7; option 7 is returned only when the pin's option 6/7
  record was clear before the call. Any other value changes nothing.\<close>

theorem io_cfg_set_get:
  assumes "name < 48"
  shows "tls_io_cfg_get name (tls_io_cfg_set name opt s) =
    (if opt \<in> {1, 2, 3, 4, 6} then opt
     else if opt = 5 \<and> pin_bit HR_GPIO_DIR name s then 5
     else if opt \<in> {5, 7} then (if option67 name s then 6 else 7)
     else tls_io_cfg_get name s)"
  by (simp add: tls_io_cfg_set_def get_set [OF assms])

definition io_reset :: io_state where
  "io_reset = \<lparr>regs = (\<lambda>_. 0), irqen_status = 0, nvic_log = [], io_pa_option67 = 0, io_pb_option67 = 0\<rparr>"

theorem io_cfg_set_get_witness:
  "tls_io_cfg_get 20 (tls_io_cfg_set 20 6 io_reset) = 6 \<and>
   tls_io_cfg_get 20 (tls_io_cfg_set 20 7 (tls_io_cfg_set 20 6 io_reset)) = 6"
  using io_cfg_set_get [of 20 6 io_reset] io_cfg_set_get [of 20 7 "tls_io_cfg_set 20 6 io_reset"]
  by (simp add: tls_io_cfg_set_def option67_set6 io_pin_def)

text \<open>Configuring one pin with any option but 7 leaves the configuration that is
  read back for every other pin as it was; with any option it changes no bit of a
  register but the pin's own, and only in that pin's port's configuration registers.\<close>

theorem io_cfg_set_independent:
  assumes "name' \<noteq> name"
  shows "(opt \<noteq> 7 \<longrightarrow> tls_io_cfg_get name' (tls_io_cfg_set name opt s) = tls_io_cfg_get name' s)
    \<and> (\<forall>r n. r \<notin> pin_regs name \<or> n \<noteq> io_pin name \<longrightarrow>
        bit (regs (tls_io_cfg_set name opt s) r) n = bit (regs s r) n)"
  using set_other_pin [OF assms] io_set.bit_frame by blast

theorem io_cfg_set_independent_witness:
  "tls_io_cfg_get 3 (tls_io_cfg_set 20 2 (tls_io_cfg_set 3 4 io_reset)) =
   tls_io_cfg_get 3 (tls_io_cfg_set 3 4 io_reset)"
  using io_cfg_set_independent [of 3 20 2 "tls_io_cfg_set 3 4 io_reset"] by simp

text \<open>Option 7 loses the option 6 of every other pin of the same port: the record of
  the port is masked with the pin's own bit, so a pin configured as option 6 is read
  back as 7 after another pin of the port was configured as option 7.\<close>

theorem io_cfg_option7_clears_others:
  assumes "name < 48" "name' < 48" "name' \<noteq> name" "io_offset name' = io_offset name"
  shows "tls_io_cfg_get name' (tls_io_cfg_set name 7 (tls_io_cfg_set name' 6 s)) = 7"
proof -
  let ?s = "io_cfg_option6 name' s"
  have "tls_io_cfg_get name' (io_cfg_option7 name ?s) = 7"
    by (simp add: get_bits io7.pin_bit_other [OF assms(3)] set67_bits [OF assms(2)] option67_set7 assms)
  then show ?thesis by (simp add: tls_io_cfg_set_def)
qed

theorem io_cfg_option7_clears_others_witness:
  "tls_io_cfg_get 17 (tls_io_cfg_set 16 7 (tls_io_cfg_set 17 6 io_reset)) = 7"
  by (rule io_cfg_option7_clears_others) (simp_all add: io_offset_def)

end
