(* ===== verification/Gpio.thy ===== *)
theory Gpio
  imports Io
begin

text \<open>
  The GPIO driver, \<^verbatim>\<open>platform/drivers/gpio/wm_gpio.c\<close>: direction and pull
  configuration, data registers behind their write enable, the edge and level
  interrupts of the two ports and the dispatch of a port interrupt to the callback of
  a pin. The interrupt bookkeeping is an invariant over every sequence of driver
  calls: a port's line is enabled in the interrupt controller exactly while some pin
  of the port has its interrupt enabled.
\<close>

unbundle bit_operations_syntax

section \<open>State\<close>

datatype tls_gpio_dir = WM_GPIO_DIR_OUTPUT | WM_GPIO_DIR_INPUT

datatype tls_gpio_attr = WM_GPIO_ATTR_FLOATING | WM_GPIO_ATTR_PULLHIGH | WM_GPIO_ATTR_PULLLOW

datatype tls_gpio_irq_trig =
    WM_GPIO_IRQ_TRIG_RISING_EDGE
  | WM_GPIO_IRQ_TRIG_FALLING_EDGE
  | WM_GPIO_IRQ_TRIG_DOUBLE_EDGE
  | WM_GPIO_IRQ_TRIG_HIGH_LEVEL
  | WM_GPIO_IRQ_TRIG_LOW_LEVEL

abbreviation (input) "GPIOA_IRQn \<equiv> 14 :: nat"
abbreviation (input) "GPIOB_IRQn \<equiv> 15 :: nat"

record gpio_state = io_state +
  gpio_context :: "irq_context list"

section \<open>Interrupt handlers\<close>

text \<open>The scan loop of both handlers: \<^verbatim>\<open>i\<close> runs from the port's first pin to its
  last; \<open>None\<close> is \<^verbatim>\<open>found == 0\<close>.\<close>

function gpio_scan :: "u32 \<Rightarrow> nat \<Rightarrow> nat \<Rightarrow> nat \<Rightarrow> nat option" where
  "gpio_scan reg base hi i =
     (if i \<le> hi then
        if reg AND BIT (i - base) \<noteq> 0 then Some i else gpio_scan reg base hi (i + 1)
      else None)"
  by auto
termination by (relation "measure (\<lambda>(_, _, hi, i). hi + 1 - i)") auto

declare gpio_scan.simps [simp del]

definition GPIOA_IRQHandler :: "'a gpio_state_scheme \<Rightarrow> cb_call list" where
  "GPIOA_IRQHandler s =
     (let reg = tls_reg_read32 HR_GPIO_MIS s
      in case gpio_scan reg 0 WM_IO_PA_15 0 of
           None \<Rightarrow> []
         | Some i \<Rightarrow> run_callback (gpio_context s ! i))"

definition GPIOB_IRQHandler :: "'a gpio_state_scheme \<Rightarrow> cb_call list" where
  "GPIOB_IRQHandler s =
     (let reg = tls_reg_read32 (HR_GPIO_MIS + TLS_IO_AB_OFFSET) s
      in case gpio_scan reg WM_IO_PB_00 WM_IO_PB_31 WM_IO_PB_00 of
           None \<Rightarrow> []
         | Some i \<Rightarrow> run_callback (gpio_context s ! i))"

section \<open>Driver calls\<close>

definition tls_gpio_cfg ::
    "tls_io_name \<Rightarrow> tls_gpio_dir \<Rightarrow> tls_gpio_attr \<Rightarrow> 'a io_state_scheme \<Rightarrow> 'a io_state_scheme" where
  "tls_gpio_cfg gpio_pin dir attr s =
     (let pin = io_pin gpio_pin; offset = io_offset gpio_pin;
          s = tls_io_cfg_set gpio_pin WM_IO_OPTION5 s;
          s = (case dir of
                 WM_GPIO_DIR_OUTPUT \<Rightarrow> reg_or (HR_GPIO_DIR + offset) (BIT pin) s
               | WM_GPIO_DIR_INPUT \<Rightarrow> reg_andn (HR_GPIO_DIR + offset) (BIT pin) s)
      in case attr of
           WM_GPIO_ATTR_FLOATING \<Rightarrow>
             let s = reg_or (HR_GPIO_PULLUP_EN + offset) (BIT pin) s
             in reg_andn (HR_GPIO_PULLDOWN_EN + offset) (BIT pin) s
         | WM_GPIO_ATTR_PULLHIGH \<Rightarrow>
             let s = reg_andn (HR_GPIO_PULLUP_EN + offset) (BIT pin) s
             in reg_andn (HR_GPIO_PULLDOWN_EN + offset) (BIT pin) s
         | WM_GPIO_ATTR_PULLLOW \<Rightarrow>
             let s = reg_or (HR_GPIO_PULLUP_EN + offset) (BIT pin) s
             in reg_or (HR_GPIO_PULLDOWN_EN + offset) (BIT pin) s)"

definition tls_gpio_read :: "tls_io_name \<Rightarrow> 'a mcu_scheme \<Rightarrow> u8 \<times> 'a mcu_scheme" where
  "tls_gpio_read gpio_pin s =
     (let pin = io_pin gpio_pin; offset = io_offset gpio_pin;
          reg_en = tls_reg_read32 (HR_GPIO_DATA_EN + offset) s;
          s = tls_reg_write32 (HR_GPIO_DATA_EN + offset) (reg_en OR BIT pin) s;
          reg = tls_reg_read32 (HR_GPIO_DATA + offset) s;
          s = tls_reg_write32 (HR_GPIO_DATA_EN + offset) reg_en s
      in (if reg AND BIT pin \<noteq> 0 then 1 else 0, s))"

definition tls_gpio_write :: "tls_io_name \<Rightarrow> u8 \<Rightarrow> 'a mcu_scheme \<Rightarrow> 'a mcu_scheme" where
  "tls_gpio_write gpio_pin value s =
     (let pin = io_pin gpio_pin; offset = io_offset gpio_pin;
          reg_en = tls_reg_read32 (HR_GPIO_DATA_EN + offset) s;
          s = tls_reg_write32 (HR_GPIO_DATA_EN + offset) (reg_en OR BIT pin) s;
          reg = tls_reg_read32 (HR_GPIO_DATA + offset) s;
          s = (if value \<noteq> 0
               then tls_reg_write32 (HR_GPIO_DATA + offset) (reg OR BIT pin) s
               else tls_reg_write32 (HR_GPIO_DATA + offset) (reg AND NOT (BIT pin)) s)
      in tls_reg_write32 (HR_GPIO_DATA_EN + offset) reg_en s)"

definition tls_gpio_irq_enable ::
    "tls_io_name \<Rightarrow> tls_gpio_irq_trig \<Rightarrow> 'a mcu_scheme \<Rightarrow> 'a mcu_scheme" where
  "tls_gpio_irq_enable gpio_pin mode s =
     (let pin = io_pin gpio_pin; offset = io_offset gpio_pin;
          vec_no = (if gpio_pin \<ge> WM_IO_PB_00 then GPIOB_IRQn else GPIOA_IRQn);
          s = (case mode of
                 WM_GPIO_IRQ_TRIG_RISING_EDGE \<Rightarrow>
                   let s = reg_andn (HR_GPIO_IS + offset) (BIT pin) s;
                       s = reg_andn (HR_GPIO_IBE + offset) (BIT pin) s
                   in reg_or (HR_GPIO_IEV + offset) (BIT pin) s
               | WM_GPIO_IRQ_TRIG_FALLING_EDGE \<Rightarrow>
                   let s = reg_andn (HR_GPIO_IS + offset) (BIT pin) s;
                       s = reg_andn (HR_GPIO_IBE + offset) (BIT pin) s
                   in reg_andn (HR_GPIO_IEV + offset) (BIT pin) s
               | WM_GPIO_IRQ_TRIG_DOUBLE_EDGE \<Rightarrow>
                   let s = reg_andn (HR_GPIO_IS + offset) (BIT pin) s
                   in reg_or (HR_GPIO_IBE + offset) (BIT pin) s
               | WM_GPIO_IRQ_TRIG_HIGH_LEVEL \<Rightarrow>
                   let s = reg_or (HR_GPIO_IS + offset) (BIT pin) s
                   in reg_or (HR_GPIO_IEV + offset) (BIT pin) s
               | WM_GPIO_IRQ_TRIG_LOW_LEVEL \<Rightarrow>
                   let s = reg_or (HR_GPIO_IS + offset) (BIT pin) s
                   in reg_andn (HR_GPIO_IEV + offset) (BIT pin) s);
          s = reg_or (HR_GPIO_IE + offset) (BIT pin) s
      in tls_irq_enable vec_no s)"

definition tls_gpio_irq_disable :: "tls_io_name \<Rightarrow> 'a mcu_scheme \<Rightarrow> 'a mcu_scheme" where
  "tls_gpio_irq_disable gpio_pin s =
     (let pin = io_pin gpio_pin; offset = io_offset gpio_pin
      in if gpio_pin \<ge> WM_IO_PB_00 then
           let reg = tls_reg_read32 (HR_GPIO_IE + offset) s;
               s = tls_reg_write32 (HR_GPIO_IE + offset) (reg AND NOT (BIT pin)) s;
               reg = reg AND NOT (BIT pin)
           in if reg = 0 then tls_irq_disable GPIOB_IRQn s else s
         else
           let reg = tls_reg_read32 (HR_GPIO_IE + offset) s;
               s = tls_reg_write32 (HR_GPIO_IE + offset) (reg AND NOT (BIT pin)) s;
               reg = (reg AND NOT (BIT pin)) AND 0xFFFF
           in if reg = 0 then tls_irq_disable GPIOA_IRQn s else s)"

definition tls_get_gpio_irq_status :: "tls_io_name \<Rightarrow> 'a mcu_scheme \<Rightarrow> u8" where
  "tls_get_gpio_irq_status gpio_pin s =
     (let reg = tls_reg_read32 (HR_GPIO_RIS + io_offset gpio_pin) s
      in if reg AND BIT (io_pin gpio_pin) \<noteq> 0 then 1 else 0)"

definition tls_clr_gpio_irq_status :: "tls_io_name \<Rightarrow> 'a mcu_scheme \<Rightarrow> 'a mcu_scheme" where
  "tls_clr_gpio_irq_status gpio_pin s =
     tls_reg_write32 (HR_GPIO_IC + io_offset gpio_pin) (BIT (io_pin gpio_pin)) s"

text \<open>The context array has one entry per pin; an index outside it would be a store
  outside the array, \<open>None\<close>.\<close>

definition tls_gpio_isr_register ::
    "tls_io_name \<Rightarrow> nat option \<Rightarrow> u32 \<Rightarrow> 'a gpio_state_scheme \<Rightarrow> 'a gpio_state_scheme option" where
  "tls_gpio_isr_register gpio_pin cb a s =
     (if gpio_pin < length (gpio_context s)
      then Some (s\<lparr>gpio_context := (gpio_context s)[gpio_pin := \<lparr>callback = cb, arg = a\<rparr>]\<rparr>)
      else None)"

section \<open>Configuration of a pin\<close>

lemma option67_rmw [simp]:
  "option67 name (reg_or r m s) = option67 name s"
  "option67 name (reg_andn r m s) = option67 name s"
  by (simp_all add: option67_def)

interpretation gpio_cfg: pin_op67 "\<lambda>name. tls_gpio_cfg name dir attr"
proof unfold_locales
  show "bit (regs (tls_gpio_cfg name dir attr s) r) n = bit (regs s r) n"
    if "r \<notin> pin_regs name \<or> n \<noteq> io_pin name" for r name n and s :: "'a io_state_scheme"
    using that
    by (cases dir; cases attr)
      (auto simp: tls_gpio_cfg_def tls_io_cfg_set_def io_cfg_option5_def io_pulls_off_def Let_def
        pin_regs_def bits)
qed (simp add: tls_gpio_cfg_def Let_def tls_io_cfg_set_def
      split: tls_gpio_dir.splits tls_gpio_attr.splits)

lemma gpio_cfg_bits:
  assumes "name < 48"
  shows "pin_bit HR_GPIO_AF_SEL name (tls_gpio_cfg name dir attr s) = False"
    and "pin_bit HR_GPIO_DIR name (tls_gpio_cfg name dir attr s) \<longleftrightarrow> dir = WM_GPIO_DIR_OUTPUT"
    and "pin_bit HR_GPIO_PULLUP_EN name (tls_gpio_cfg name dir attr s) \<longleftrightarrow> attr \<noteq> WM_GPIO_ATTR_PULLHIGH"
    and "pin_bit HR_GPIO_PULLDOWN_EN name (tls_gpio_cfg name dir attr s) \<longleftrightarrow> attr = WM_GPIO_ATTR_PULLLOW"
    and "option67 name (tls_gpio_cfg name dir attr s) = option67 name s"
  by (simp_all add: tls_gpio_cfg_def Let_def tls_io_cfg_set_def io_cfg_option5_def
      pulls_off_bits pin_bit_rmw assms split: tls_gpio_dir.splits tls_gpio_attr.splits)

lemma gpio_cfg_get:
  assumes "name < 48"
  shows "tls_io_cfg_get name (tls_gpio_cfg name dir attr s) =
    (if dir = WM_GPIO_DIR_INPUT \<and> attr = WM_GPIO_ATTR_FLOATING
     then if option67 name s then 6 else 7 else 5)"
  unfolding get_bits gpio_cfg_bits [OF assms] by (cases dir; cases attr) auto

section \<open>Data registers\<close>

lemma gpio_read_state: "snd (tls_gpio_read name s) = s"
  by (simp add: tls_gpio_read_def Let_def tls_reg_write32_def)

lemma gpio_read_value:
  "fst (tls_gpio_read name s) = (if bit (regs s (HR_GPIO_DATA + io_offset name)) (io_pin name) then 1 else 0)"
  by (simp add: tls_gpio_read_def Let_def bits)

lemma gpio_write_regs:
  "regs (tls_gpio_write name v s) = (regs s)(HR_GPIO_DATA + io_offset name :=
     (if v \<noteq> 0 then regs s (HR_GPIO_DATA + io_offset name) OR BIT (io_pin name)
      else regs s (HR_GPIO_DATA + io_offset name) AND NOT (BIT (io_pin name))))"
  by (auto simp: tls_gpio_write_def Let_def)

lemma gpio_write_read_same:
  assumes "name < 48"
  shows "fst (tls_gpio_read name (tls_gpio_write name v s)) = (if v \<noteq> 0 then 1 else 0)"
  using io_pin_less [OF assms] by (simp add: gpio_read_value gpio_write_regs bits)

lemma gpio_write_read_other:
  assumes "name' \<noteq> name"
  shows "fst (tls_gpio_read name' (tls_gpio_write name v s)) = fst (tls_gpio_read name' s)"
proof (cases "io_offset name' = io_offset name")
  case True
  with assms have "io_pin name' \<noteq> io_pin name" using io_pin_eqD by metis
  then show ?thesis by (simp add: gpio_read_value gpio_write_regs bits)
qed (simp add: gpio_read_value gpio_write_regs)

section \<open>Dispatch of a port interrupt\<close>

lemma gpio_scan_Some:
  "gpio_scan reg base hi i = Some k \<longleftrightarrow>
     i \<le> k \<and> k \<le> hi \<and> bit reg (k - base) \<and> (\<forall>j. i \<le> j \<and> j < k \<longrightarrow> \<not> bit reg (j - base))"
proof (induction reg base hi i rule: gpio_scan.induct)
  case (1 reg base hi i)
  show ?case
  proof (cases "i \<le> hi \<and> \<not> bit reg (i - base)")
    case True
    with 1 have IH: "gpio_scan reg base hi (i + 1) = Some k \<longleftrightarrow> i + 1 \<le> k \<and> k \<le> hi \<and> bit reg (k - base) \<and>
        (\<forall>j. i + 1 \<le> j \<and> j < k \<longrightarrow> \<not> bit reg (j - base))"
      by (simp add: and_BIT_eq_0)
    have "gpio_scan reg base hi i = gpio_scan reg base hi (i + 1)"
      using True by (subst gpio_scan.simps) (simp add: and_BIT_eq_0)
    with IH True show ?thesis
      by (subst all_from_less) (auto simp: Suc_le_eq le_less)
  next
    case False
    then show ?thesis
      by (subst gpio_scan.simps) (auto simp: and_BIT_eq_0 le_less)
  qed
qed

lemma gpio_scan_None:
  "gpio_scan reg base hi i = None \<longleftrightarrow> (\<forall>j. i \<le> j \<and> j \<le> hi \<longrightarrow> \<not> bit reg (j - base))"
proof (induction reg base hi i rule: gpio_scan.induct)
  case (1 reg base hi i)
  show ?case
  proof (cases "i \<le> hi \<and> \<not> bit reg (i - base)")
    case True
    with 1 have "gpio_scan reg base hi (i + 1) = None \<longleftrightarrow> (\<forall>j. i + 1 \<le> j \<and> j \<le> hi \<longrightarrow> \<not> bit reg (j - base))"
      by (simp add: and_BIT_eq_0)
    moreover have "gpio_scan reg base hi i = gpio_scan reg base hi (i + 1)"
      using True by (subst gpio_scan.simps) (simp add: and_BIT_eq_0)
    ultimately show ?thesis using True by (subst all_from_le) simp
  next
    case False
    then show ?thesis
      by (subst gpio_scan.simps) (auto simp: and_BIT_eq_0)
  qed
qed

section \<open>Interrupt enables of a port\<close>

text \<open>The bits of a port's interrupt enable register that belong to pins, and the
  enable of the port's line.\<close>

definition port_pins :: "bool \<Rightarrow> u32" where
  "port_pins portB = (if portB then 0xFFFFFFFF else 0xFFFF)"

definition port_ie :: "bool \<Rightarrow> 'a mcu_scheme \<Rightarrow> u32" where
  "port_ie portB s = regs s (HR_GPIO_IE + (if portB then TLS_IO_AB_OFFSET else 0)) AND port_pins portB"

definition port_irqn :: "bool \<Rightarrow> nat" where
  "port_irqn portB = (if portB then GPIOB_IRQn else GPIOA_IRQn)"

definition gpio_irq_inv :: "'a mcu_scheme \<Rightarrow> bool" where
  "gpio_irq_inv s \<longleftrightarrow> irq_consistent s \<and>
     (\<forall>portB. bit (irqen_status s) (port_irqn portB) \<longleftrightarrow> port_ie portB s \<noteq> 0)"

lemma port_pins_bit: "bit (port_pins portB) n \<longleftrightarrow> n < (if portB then 32 else 16)"
  unfolding port_pins_def by (cases portB) (simp_all only: bits if_True if_False)

lemma io_pin_port: "name < 48 \<Longrightarrow> bit (port_pins (name \<ge> WM_IO_PB_00)) (io_pin name)"
  unfolding port_pins_bit io_pin_def by (simp split: if_split) linarith

lemma gpio_irq_enable_ie:
  "port_ie portB (tls_gpio_irq_enable name mode s) =
     (if portB = (name \<ge> WM_IO_PB_00)
      then (port_ie portB s OR (BIT (io_pin name) AND port_pins portB)) else port_ie portB s)"
  by (intro bit_eqI)
    (cases mode; auto simp: port_ie_def tls_gpio_irq_enable_def Let_def io_offset_def bit_and_iff bit_or_iff)

lemma gpio_irq_enable_frame:
  "irqen_status (tls_gpio_irq_enable name mode s) =
     irqen_status (tls_irq_enable (port_irqn (name \<ge> WM_IO_PB_00)) s)"
  "nvic_log (tls_gpio_irq_enable name mode s) =
     nvic_log (tls_irq_enable (port_irqn (name \<ge> WM_IO_PB_00)) s)"
  by (cases mode; simp add: tls_gpio_irq_enable_def Let_def port_irqn_def tls_irq_enable_def)+

lemma gpio_irq_disable_regs:
  "regs (tls_gpio_irq_disable name s) = (regs s)(HR_GPIO_IE + io_offset name :=
     regs s (HR_GPIO_IE + io_offset name) AND NOT (BIT (io_pin name)))"
  by (simp add: tls_gpio_irq_disable_def Let_def)

lemma gpio_irq_disable_ie:
  "port_ie portB (tls_gpio_irq_disable name s) =
     (if portB = (name \<ge> WM_IO_PB_00) then port_ie portB s AND NOT (BIT (io_pin name)) else port_ie portB s)"
  by (intro bit_eqI)
    (auto simp: port_ie_def gpio_irq_disable_regs io_offset_def bit_and_iff bit_not_iff)

lemma gpio_irq_disable_frame:
  "irqen_status (tls_gpio_irq_disable name s) =
     (if port_ie (name \<ge> WM_IO_PB_00) s AND NOT (BIT (io_pin name)) = 0
      then irqen_status (tls_irq_disable (port_irqn (name \<ge> WM_IO_PB_00)) s) else irqen_status s)"
  "nvic_log (tls_gpio_irq_disable name s) =
     (if port_ie (name \<ge> WM_IO_PB_00) s AND NOT (BIT (io_pin name)) = 0
      then nvic_log (tls_irq_disable (port_irqn (name \<ge> WM_IO_PB_00)) s) else nvic_log s)"
proof -
  have "(x AND NOT y) AND z = (x AND z) AND NOT y" for x y z :: u32
    by (simp add: ac_simps)
  then show "irqen_status (tls_gpio_irq_disable name s) =
     (if port_ie (name \<ge> WM_IO_PB_00) s AND NOT (BIT (io_pin name)) = 0
      then irqen_status (tls_irq_disable (port_irqn (name \<ge> WM_IO_PB_00)) s) else irqen_status s)"
  "nvic_log (tls_gpio_irq_disable name s) =
     (if port_ie (name \<ge> WM_IO_PB_00) s AND NOT (BIT (io_pin name)) = 0
      then nvic_log (tls_irq_disable (port_irqn (name \<ge> WM_IO_PB_00)) s) else nvic_log s)"
    by (simp_all add: tls_gpio_irq_disable_def Let_def port_ie_def port_pins_def port_irqn_def
        io_offset_def tls_irq_disable_def)
qed

lemma gpio_irq_inv_enable:
  assumes "gpio_irq_inv s" "name < 48"
  shows "gpio_irq_inv (tls_gpio_irq_enable name mode s)"
proof -
  let ?p = "name \<ge> WM_IO_PB_00"
  have v: "port_irqn portB < 32" "port_irqn portB = port_irqn portB' \<longleftrightarrow> portB = portB'" for portB portB'
    by (auto simp: port_irqn_def)
  have "bit (BIT (io_pin name) AND port_pins ?p) (io_pin name)"
    using io_pin_port [OF assms(2)] io_pin_less [OF assms(2)] by (simp add: bit_and_iff bits)
  then have "bit (port_ie ?p (tls_gpio_irq_enable name mode s)) (io_pin name)"
    by (simp add: gpio_irq_enable_ie bit_or_iff)
  then have "port_ie ?p (tls_gpio_irq_enable name mode s) \<noteq> 0" by auto
  moreover have "irq_consistent (tls_gpio_irq_enable name mode s)"
    using irq_consistent_enable [of s "port_irqn ?p"] assms(1)
    by (simp add: gpio_irq_inv_def irq_consistent_def gpio_irq_enable_frame v)
  ultimately show ?thesis
    using assms(1) by (auto simp: gpio_irq_inv_def gpio_irq_enable_frame v gpio_irq_enable_ie)
qed

lemma gpio_irq_inv_disable:
  assumes "gpio_irq_inv s"
  shows "gpio_irq_inv (tls_gpio_irq_disable name s)"
proof -
  let ?p = "name \<ge> WM_IO_PB_00"
  have v: "port_irqn portB = port_irqn portB' \<longleftrightarrow> portB = portB'" for portB portB'
    by (auto simp: port_irqn_def)
  have "irq_consistent (tls_gpio_irq_disable name s)"
    using irq_consistent_disable [of s "port_irqn ?p"] assms
    by (simp add: gpio_irq_inv_def irq_consistent_def gpio_irq_disable_frame)
  moreover have "bit (irqen_status (tls_gpio_irq_disable name s)) (port_irqn portB) \<longleftrightarrow>
      port_ie portB (tls_gpio_irq_disable name s) \<noteq> 0" for portB
  proof -
    have b: "bit (irqen_status s) (port_irqn portB) \<longleftrightarrow> port_ie portB s \<noteq> 0"
      using assms by (simp add: gpio_irq_inv_def)
    show ?thesis
    proof (cases "portB = ?p")
      case True
      then show ?thesis using b
        by (cases "port_ie ?p s AND NOT (BIT (io_pin name)) = 0")
          (auto simp: gpio_irq_disable_frame gpio_irq_disable_ie)
    next
      case False
      then show ?thesis using b by (simp add: gpio_irq_disable_frame gpio_irq_disable_ie v)
    qed
  qed
  ultimately show ?thesis by (simp add: gpio_irq_inv_def)
qed

section \<open>Sequences of driver calls\<close>

text \<open>A step is one driver call for an existing pin; the peripheral may change the
  status and data registers (not the enables) between two calls.\<close>

inductive gpio_step :: "gpio_state \<Rightarrow> gpio_state \<Rightarrow> bool" where
  cfg: "name < 48 \<Longrightarrow> gpio_step s (tls_gpio_cfg name dir attr s)"
| data: "name < 48 \<Longrightarrow> gpio_step s (tls_gpio_write name v s)"
| irq_on: "name < 48 \<Longrightarrow> gpio_step s (tls_gpio_irq_enable name mode s)"
| irq_off: "name < 48 \<Longrightarrow> gpio_step s (tls_gpio_irq_disable name s)"
| clr: "name < 48 \<Longrightarrow> gpio_step s (tls_clr_gpio_irq_status name s)"
| isr: "tls_gpio_isr_register name cb a s = Some s' \<Longrightarrow> gpio_step s s'"
| env: "r \<in> {HR_GPIO_DATA, HR_GPIO_RIS, HR_GPIO_MIS} \<Longrightarrow> off \<in> {0, TLS_IO_AB_OFFSET} \<Longrightarrow>
    gpio_step s (tls_reg_write32 (r + off) v s)"

inductive_cases gpio_stepE: "gpio_step s s'"

inductive gpio_reachable :: "gpio_state \<Rightarrow> bool" where
  init: "irqen_status s = 0 \<Longrightarrow> nvic_log s = [] \<Longrightarrow> port_ie True s = 0 \<Longrightarrow> port_ie False s = 0 \<Longrightarrow>
    length (gpio_context s) = 48 \<Longrightarrow> gpio_reachable s"
| step: "gpio_reachable s \<Longrightarrow> gpio_step s s' \<Longrightarrow> gpio_reachable s'"

lemma gpio_irq_inv_congI:
  assumes "gpio_irq_inv s" "irqen_status s' = irqen_status s" "nvic_log s' = nvic_log s"
    "regs s' HR_GPIO_IE = regs s HR_GPIO_IE"
    "regs s' (HR_GPIO_IE + TLS_IO_AB_OFFSET) = regs s (HR_GPIO_IE + TLS_IO_AB_OFFSET)"
  shows "gpio_irq_inv s'"
  using assms by (auto simp: gpio_irq_inv_def irq_consistent_def port_ie_def)

lemma gpio_cfg_frame:
  "irqen_status (tls_gpio_cfg name dir attr s) = irqen_status s"
  "nvic_log (tls_gpio_cfg name dir attr s) = nvic_log s"
  by (simp_all add: tls_gpio_cfg_def Let_def tls_io_cfg_set_def io_cfg_option5_def io_pulls_off_def
      split: tls_gpio_dir.splits tls_gpio_attr.splits)

lemma gpio_write_frame:
  "irqen_status (tls_gpio_write name v s) = irqen_status s"
  "nvic_log (tls_gpio_write name v s) = nvic_log s"
  by (simp_all add: tls_gpio_write_def Let_def)

lemma ie_not_pin_reg: "HR_GPIO_IE \<notin> pin_regs name" "HR_GPIO_IE + TLS_IO_AB_OFFSET \<notin> pin_regs name"
  using io_offset_cases [of name] by (auto simp: pin_regs_def)

lemma gpio_step_inv:
  assumes "gpio_step s s'" "gpio_irq_inv s"
  shows "gpio_irq_inv s'"
  using assms
proof cases
  case (cfg name dir attr)
  show ?thesis unfolding cfg(1)
    by (rule gpio_irq_inv_congI [OF assms(2) gpio_cfg_frame
          gpio_cfg.other_register [OF ie_not_pin_reg(1)] gpio_cfg.other_register [OF ie_not_pin_reg(2)]])
next
  case (data name v)
  show ?thesis unfolding data(1)
    by (rule gpio_irq_inv_congI [OF assms(2)])
      (use io_offset_cases [of name] in \<open>auto simp: gpio_write_frame gpio_write_regs\<close>)
next
  case (clr name)
  show ?thesis unfolding clr(1)
    by (rule gpio_irq_inv_congI [OF assms(2)])
      (use io_offset_cases [of name] in \<open>auto simp: tls_clr_gpio_irq_status_def\<close>)
next
  case (isr name cb a)
  show ?thesis
    by (rule gpio_irq_inv_congI [OF assms(2)])
      (use isr in \<open>auto simp: tls_gpio_isr_register_def split: if_splits\<close>)
next
  case (env r off v)
  then have "r + off \<noteq> HR_GPIO_IE" "r + off \<noteq> HR_GPIO_IE + TLS_IO_AB_OFFSET" by auto
  then show ?thesis unfolding env(1)
    by (intro gpio_irq_inv_congI [OF assms(2)]) simp_all
qed (simp_all add: gpio_irq_inv_enable gpio_irq_inv_disable)

lemma gpio_reachable_inv: "gpio_reachable s \<Longrightarrow> gpio_irq_inv s"
proof (induction rule: gpio_reachable.induct)
  case (init s)
  then have "port_ie p s = 0" for p by (cases p) auto
  with init show ?case by (auto simp: gpio_irq_inv_def irq_consistent_def nvic_enabled_def)
qed (rule gpio_step_inv)

lemma gpio_irq_enable_context [simp]:
  "gpio_context (tls_irq_enable n s) = gpio_context s"
  "gpio_context (tls_irq_disable n s) = gpio_context s"
  "gpio_context (reg_or r v s) = gpio_context s"
  "gpio_context (reg_andn r v s) = gpio_context s"
  "gpio_context (tls_reg_write32 r v s) = gpio_context s"
  by (simp_all add: tls_irq_enable_def tls_irq_disable_def nvic_def reg_or_def reg_andn_def
      tls_reg_write32_def Let_def)

lemma gpio_step_context:
  "gpio_step s s' \<Longrightarrow> length (gpio_context s') = length (gpio_context s)"
  by (erule gpio_stepE)
    (auto simp: tls_gpio_cfg_def Let_def tls_io_cfg_set_def io_cfg_option5_def io_pulls_off_def
      tls_gpio_write_def tls_gpio_irq_enable_def tls_gpio_irq_disable_def tls_clr_gpio_irq_status_def
      tls_gpio_isr_register_def
      split: tls_gpio_dir.splits tls_gpio_attr.splits tls_gpio_irq_trig.splits if_splits)

lemma gpio_reachable_context: "gpio_reachable s \<Longrightarrow> length (gpio_context s) = 48"
  by (induction rule: gpio_reachable.induct) (simp_all add: gpio_step_context)

lemma port_ie_pins:
  "port_ie portB s \<noteq> 0 \<longleftrightarrow>
     (\<exists>name<48. (name \<ge> WM_IO_PB_00) = portB \<and> bit (regs s (HR_GPIO_IE + io_offset name)) (io_pin name))"
proof
  assume "port_ie portB s \<noteq> 0"
  then obtain n where n: "bit (port_ie portB s) n" by (auto simp: bit_eq_iff)
  then have b: "n < (if portB then 32 else 16)" by (simp add: port_ie_def bit_and_iff port_pins_bit)
  let ?name = "if portB then n + 16 else n"
  have "?name < 48" "(?name \<ge> WM_IO_PB_00) = portB" "io_pin ?name = n"
      "io_offset ?name = (if portB then TLS_IO_AB_OFFSET else 0)"
    using b by (auto simp: io_pin_def io_offset_def split: if_splits)
  moreover have "bit (regs s (HR_GPIO_IE + (if portB then TLS_IO_AB_OFFSET else 0))) n"
    using n by (simp add: port_ie_def bit_and_iff)
  ultimately show "\<exists>name<48. (name \<ge> WM_IO_PB_00) = portB \<and>
      bit (regs s (HR_GPIO_IE + io_offset name)) (io_pin name)"
    by (intro exI [of _ ?name]) simp
next
  assume "\<exists>name<48. (name \<ge> WM_IO_PB_00) = portB \<and> bit (regs s (HR_GPIO_IE + io_offset name)) (io_pin name)"
  then obtain name where a: "name < 48" "(name \<ge> WM_IO_PB_00) = portB"
      "bit (regs s (HR_GPIO_IE + io_offset name)) (io_pin name)" by blast
  then have "bit (port_ie portB s) (io_pin name)"
    using io_pin_port [of name] by (auto simp: port_ie_def bit_and_iff io_offset_def)
  then show "port_ie portB s \<noteq> 0" by auto
qed

section \<open>Properties of the GPIO driver\<close>

definition gpio_reset :: gpio_state where
  "gpio_reset = \<lparr>regs = (\<lambda>_. 0), irqen_status = 0, nvic_log = [], io_pa_option67 = 0, io_pb_option67 = 0,
     gpio_context = replicate 48 \<lparr>callback = None, arg = 0\<rparr>\<rparr>"

lemma gpio_reset_reachable: "gpio_reachable gpio_reset"
  by (rule gpio_reachable.init) (simp_all add: gpio_reset_def port_ie_def)

text \<open>\<^verbatim>\<open>tls_gpio_cfg\<close> puts the pin in plain GPIO function with the requested
  direction and the requested pull (the pull-up enable is active low), keeps every other
  pin's configuration, and an input that floats is the one configuration that
  \<^verbatim>\<open>tls_io_cfg_get\<close> does not report as option 5.\<close>

theorem gpio_cfg_correct:
  assumes "name < 48"
  shows "\<not> pin_bit HR_GPIO_AF_SEL name (tls_gpio_cfg name dir attr s)
    \<and> (pin_bit HR_GPIO_DIR name (tls_gpio_cfg name dir attr s) \<longleftrightarrow> dir = WM_GPIO_DIR_OUTPUT)
    \<and> (pin_bit HR_GPIO_PULLUP_EN name (tls_gpio_cfg name dir attr s) \<longleftrightarrow> attr \<noteq> WM_GPIO_ATTR_PULLHIGH)
    \<and> (pin_bit HR_GPIO_PULLDOWN_EN name (tls_gpio_cfg name dir attr s) \<longleftrightarrow> attr = WM_GPIO_ATTR_PULLLOW)
    \<and> (tls_io_cfg_get name (tls_gpio_cfg name dir attr s) = 5 \<longleftrightarrow>
         \<not> (dir = WM_GPIO_DIR_INPUT \<and> attr = WM_GPIO_ATTR_FLOATING))
    \<and> (\<forall>name'. name' \<noteq> name \<longrightarrow>
         tls_io_cfg_get name' (tls_gpio_cfg name dir attr s) = tls_io_cfg_get name' s)"
  by (simp add: gpio_cfg_bits [OF assms] gpio_cfg_get [OF assms] gpio_cfg.get_other_pin)

theorem gpio_cfg_correct_witness:
  "tls_io_cfg_get 5 (tls_gpio_cfg 5 WM_GPIO_DIR_INPUT WM_GPIO_ATTR_PULLHIGH gpio_reset) = 5 \<and>
   tls_io_cfg_get 5 (tls_gpio_cfg 5 WM_GPIO_DIR_INPUT WM_GPIO_ATTR_FLOATING gpio_reset) \<noteq> 5"
  using gpio_cfg_correct [of 5 WM_GPIO_DIR_INPUT WM_GPIO_ATTR_PULLHIGH gpio_reset]
    gpio_cfg_correct [of 5 WM_GPIO_DIR_INPUT WM_GPIO_ATTR_FLOATING gpio_reset] by simp

text \<open>A level written to a pin is the level read back, the level of every other pin
  is unchanged, reading changes no state, and the write enables of the data register are
  restored by a write.\<close>

theorem gpio_write_read:
  assumes "name < 48"
  shows "fst (tls_gpio_read name (tls_gpio_write name v s)) = (if v \<noteq> 0 then 1 else 0)
    \<and> (\<forall>name'. name' \<noteq> name \<longrightarrow>
         fst (tls_gpio_read name' (tls_gpio_write name v s)) = fst (tls_gpio_read name' s))
    \<and> snd (tls_gpio_read name s) = s
    \<and> (\<forall>r. r \<noteq> HR_GPIO_DATA + io_offset name \<longrightarrow> regs (tls_gpio_write name v s) r = regs s r)"
  by (simp add: gpio_write_read_same [OF assms] gpio_write_read_other gpio_read_state gpio_write_regs)

theorem gpio_write_read_witness:
  "fst (tls_gpio_read 30 (tls_gpio_write 30 1 gpio_reset)) = 1"
  using gpio_write_read [of 30 1 gpio_reset] by simp

text \<open>C22. In every state that driver calls can reach, a port's interrupt line is enabled
  in the interrupt controller exactly while some pin of that port has its interrupt
  enabled.\<close>

theorem gpio_line_enabled_iff:
  assumes "gpio_reachable s"
  shows "nvic_enabled (nvic_log s) (port_irqn portB) \<longleftrightarrow>
    (\<exists>name<48. (name \<ge> WM_IO_PB_00) = portB \<and> bit (regs s (HR_GPIO_IE + io_offset name)) (io_pin name))"
  using gpio_reachable_inv [OF assms] by (simp add: gpio_irq_inv_def irq_consistent_def port_ie_pins)

theorem gpio_line_enabled_iff_witness:
  "nvic_enabled (nvic_log (tls_gpio_irq_enable 20 WM_GPIO_IRQ_TRIG_RISING_EDGE gpio_reset)) GPIOB_IRQn"
proof -
  let ?s = "tls_gpio_irq_enable 20 WM_GPIO_IRQ_TRIG_RISING_EDGE gpio_reset"
  have "gpio_reachable ?s"
    by (rule gpio_reachable.step [OF gpio_reset_reachable]) (simp add: gpio_step.irq_on)
  moreover have "bit (regs ?s (HR_GPIO_IE + io_offset 20)) (io_pin 20)"
    by (simp add: tls_gpio_irq_enable_def Let_def bits io_pin_def)
  ultimately show ?thesis
    using gpio_line_enabled_iff [of ?s True] by (auto simp: port_irqn_def intro: exI [of _ 20])
qed

text \<open>A port interrupt runs exactly the callback registered for the lowest pin of the
  port whose masked status is set, with its registered argument, and nothing when no
  status bit is set or that pin has no callback.\<close>

theorem gpio_dispatch_lowest:
  assumes "name < 48" "bit (regs s (HR_GPIO_MIS + io_offset name)) (io_pin name)"
    "\<forall>j < io_pin name. \<not> bit (regs s (HR_GPIO_MIS + io_offset name)) j"
    "tls_gpio_isr_register name cb a s0 = Some s1" "s = s1\<lparr>regs := m\<rparr>"
  shows "(if name \<ge> WM_IO_PB_00 then GPIOB_IRQHandler s else GPIOA_IRQHandler s) =
    (case cb of None \<Rightarrow> [] | Some f \<Rightarrow> [(f, a)])"
proof -
  have "gpio_context s ! name = \<lparr>callback = cb, arg = a\<rparr>"
    using assms(4,5) by (auto simp: tls_gpio_isr_register_def split: if_splits)
  moreover have "name \<ge> WM_IO_PB_00 \<Longrightarrow>
      gpio_scan (regs s (HR_GPIO_MIS + TLS_IO_AB_OFFSET)) WM_IO_PB_00 WM_IO_PB_31 WM_IO_PB_00 = Some name"
    using assms(1-3) by (auto simp: gpio_scan_Some io_pin_def io_offset_def)
  moreover have "\<not> name \<ge> WM_IO_PB_00 \<Longrightarrow> gpio_scan (regs s HR_GPIO_MIS) 0 WM_IO_PA_15 0 = Some name"
    using assms(1-3) by (auto simp: gpio_scan_Some io_pin_def io_offset_def)
  ultimately show ?thesis
    by (auto simp: GPIOA_IRQHandler_def GPIOB_IRQHandler_def Let_def run_callback_def split: option.splits)
qed

theorem gpio_dispatch_lowest_witness:
  "GPIOB_IRQHandler ((gpio_reset\<lparr>gpio_context := (gpio_context gpio_reset)[18 := \<lparr>callback = Some 7, arg = 9\<rparr>]\<rparr>)
     \<lparr>regs := (\<lambda>_. 0)(HR_GPIO_MIS + TLS_IO_AB_OFFSET := 0xC)\<rparr>) = [(7, 9)]"
proof -
  let ?m = "(\<lambda>_. 0)(HR_GPIO_MIS + TLS_IO_AB_OFFSET := 0xC) :: nat \<Rightarrow> u32"
  let ?s1 = "gpio_reset\<lparr>gpio_context := (gpio_context gpio_reset)[18 := \<lparr>callback = Some 7, arg = 9\<rparr>]\<rparr>"
  have "tls_gpio_isr_register 18 (Some 7) 9 gpio_reset = Some ?s1"
    by (simp add: tls_gpio_isr_register_def gpio_reset_def)
  moreover have "\<forall>j<2. \<not> bit (0xC :: u32) j" by (simp add: less_2_cases_iff)
  ultimately show ?thesis
    using gpio_dispatch_lowest [of 18 "?s1\<lparr>regs := ?m\<rparr>" "Some 7" 9 gpio_reset ?s1 ?m]
    by (simp add: io_offset_def io_pin_def)
qed

end
