(* ===== verification/Gpio_Afsel.thy ===== *)
theory Gpio_Afsel
  imports Gpio
begin

text \<open>
  The alternate function selection, \<^verbatim>\<open>platform/drivers/gpio/wm_gpio_afsel.c\<close>:
  one function per peripheral signal, which accepts the pins the signal can be routed
  to, selects the function there and opens the peripheral's clock. The contract
  \<open>afsel\<close> says what such a function promises; the forty functions that route a digital
  signal are instances of it, each with its own table of pins. The converter, the touch
  sensor and the debug port, which use the options 5 to 7, have contracts of their own.
\<close>

unbundle bit_operations_syntax

abbreviation (input) "HR_GPIOA_DATA_DIR \<equiv> 0x40011208 :: nat"
abbreviation (input) "HR_GPIOA_DATA_PULLEN \<equiv> 0x4001120C :: nat"
abbreviation (input) "HR_GPIOA_AFSEL \<equiv> 0x40011210 :: nat"
abbreviation (input) "HR_GPIOB_DATA_DIR \<equiv> 0x40011408 :: nat"
abbreviation (input) "HR_GPIOB_DATA_PULLEN \<equiv> 0x4001140C :: nat"
abbreviation (input) "HR_GPIOB_AFSEL \<equiv> 0x40011410 :: nat"

section \<open>Signal groups\<close>

definition wm_hspi_gpio_config :: "u8 \<Rightarrow> 'a io_state_scheme \<Rightarrow> 'a io_state_scheme" where
  "wm_hspi_gpio_config numsel s =
     (if numsel = 0 then
        (let s = tls_io_cfg_set WM_IO_PB_06 WM_IO_OPTION3 s;
             s = tls_io_cfg_set WM_IO_PB_07 WM_IO_OPTION3 s;
             s = tls_io_cfg_set WM_IO_PB_09 WM_IO_OPTION3 s;
             s = tls_io_cfg_set WM_IO_PB_10 WM_IO_OPTION3 s
         in tls_io_cfg_set WM_IO_PB_11 WM_IO_OPTION3 s)
      else if numsel = 1 then
        (let s = tls_io_cfg_set WM_IO_PB_12 WM_IO_OPTION1 s;
             s = tls_io_cfg_set WM_IO_PB_13 WM_IO_OPTION1 s;
             s = tls_io_cfg_set WM_IO_PB_14 WM_IO_OPTION1 s;
             s = tls_io_cfg_set WM_IO_PB_15 WM_IO_OPTION1 s
         in tls_io_cfg_set WM_IO_PB_16 WM_IO_OPTION1 s)
      else s)"

definition wm_sdio_host_config :: "u8 \<Rightarrow> 'a io_state_scheme \<Rightarrow> 'a io_state_scheme" where
  "wm_sdio_host_config numsel s =
     (if numsel = 0 then
        (let s = tls_io_cfg_set WM_IO_PB_06 WM_IO_OPTION2 s;
             s = tls_io_cfg_set WM_IO_PB_07 WM_IO_OPTION2 s;
             s = tls_io_cfg_set WM_IO_PB_08 WM_IO_OPTION2 s;
             s = tls_io_cfg_set WM_IO_PB_09 WM_IO_OPTION2 s;
             s = tls_io_cfg_set WM_IO_PB_10 WM_IO_OPTION2 s;
             s = tls_io_cfg_set WM_IO_PB_11 WM_IO_OPTION2 s
         in tls_open_peripheral_clock TLS_PERIPHERAL_TYPE_SDIO_MASTER s)
      else if numsel = 1 then
        (let s = tls_io_cfg_set WM_IO_PA_09 WM_IO_OPTION1 s;
             s = tls_io_cfg_set WM_IO_PA_10 WM_IO_OPTION1 s;
             s = tls_io_cfg_set WM_IO_PA_11 WM_IO_OPTION1 s;
             s = tls_io_cfg_set WM_IO_PA_12 WM_IO_OPTION1 s;
             s = tls_io_cfg_set WM_IO_PA_13 WM_IO_OPTION1 s;
             s = tls_io_cfg_set WM_IO_PA_14 WM_IO_OPTION1 s
         in tls_open_peripheral_clock TLS_PERIPHERAL_TYPE_SDIO_MASTER s)
      else s)"

definition wm_sdio_slave_config :: "u8 \<Rightarrow> 'a io_state_scheme \<Rightarrow> 'a io_state_scheme" where
  "wm_sdio_slave_config numsel s =
     (if numsel = 0 then
        (let s = tls_io_cfg_set WM_IO_PB_06 WM_IO_OPTION4 s;
             s = tls_io_cfg_set WM_IO_PB_07 WM_IO_OPTION4 s;
             s = tls_io_cfg_set WM_IO_PB_08 WM_IO_OPTION4 s;
             s = tls_io_cfg_set WM_IO_PB_09 WM_IO_OPTION4 s;
             s = tls_io_cfg_set WM_IO_PB_10 WM_IO_OPTION4 s
         in tls_io_cfg_set WM_IO_PB_11 WM_IO_OPTION4 s)
      else s)"

definition wm_psram_config :: "u8 \<Rightarrow> 'a io_state_scheme \<Rightarrow> 'a io_state_scheme" where
  "wm_psram_config numsel s =
     (if numsel = 0 then
        (let s = tls_io_cfg_set WM_IO_PB_00 WM_IO_OPTION4 s;
             s = tls_io_cfg_set WM_IO_PB_01 WM_IO_OPTION4 s;
             s = tls_io_cfg_set WM_IO_PB_02 WM_IO_OPTION4 s;
             s = tls_io_cfg_set WM_IO_PB_03 WM_IO_OPTION4 s;
             s = tls_io_cfg_set WM_IO_PB_04 WM_IO_OPTION4 s;
             s = tls_io_cfg_set WM_IO_PB_05 WM_IO_OPTION4 s
         in tls_open_peripheral_clock TLS_PERIPHERAL_TYPE_PSRAM s)
      else if numsel = 1 then
        (let s = tls_io_cfg_set WM_IO_PA_15 WM_IO_OPTION1 s;
             s = tls_io_cfg_set WM_IO_PB_27 WM_IO_OPTION1 s;
             s = tls_io_cfg_set WM_IO_PB_02 WM_IO_OPTION4 s;
             s = tls_io_cfg_set WM_IO_PB_03 WM_IO_OPTION4 s;
             s = tls_io_cfg_set WM_IO_PB_04 WM_IO_OPTION4 s;
             s = tls_io_cfg_set WM_IO_PB_05 WM_IO_OPTION4 s
         in tls_open_peripheral_clock TLS_PERIPHERAL_TYPE_PSRAM s)
      else if numsel = 2 then
        (let s = tls_io_cfg_set WM_IO_PA_15 WM_IO_OPTION1 s;
             s = tls_io_cfg_set WM_IO_PB_27 WM_IO_OPTION1 s;
             s = tls_io_cfg_set WM_IO_PB_28 WM_IO_OPTION1 s;
             s = tls_io_cfg_set WM_IO_PB_29 WM_IO_OPTION1 s;
             s = tls_io_cfg_set WM_IO_PB_30 WM_IO_OPTION1 s;
             s = tls_io_cfg_set WM_IO_PB_31 WM_IO_OPTION1 s
         in tls_open_peripheral_clock TLS_PERIPHERAL_TYPE_PSRAM s)
      else s)"

section \<open>Single signals\<close>

text \<open>A \<^verbatim>\<open>return\<close> in the default branch is \<open>None\<close>: the clock is then not opened.\<close>

definition wm_spi_ck_config :: "tls_io_name \<Rightarrow> 'a io_state_scheme \<Rightarrow> 'a io_state_scheme" where
  "wm_spi_ck_config io_name s =
     (let r =
        (if io_name = WM_IO_PB_01 then Some (tls_io_cfg_set io_name WM_IO_OPTION2 s)
         else if io_name = WM_IO_PB_02 then Some (tls_io_cfg_set io_name WM_IO_OPTION2 s)
         else if io_name = WM_IO_PB_15 then Some (tls_io_cfg_set io_name WM_IO_OPTION3 s)
         else if io_name = WM_IO_PB_24 then Some (tls_io_cfg_set io_name WM_IO_OPTION1 s)
         else None)
      in case r of None \<Rightarrow> s | Some s \<Rightarrow> tls_open_peripheral_clock TLS_PERIPHERAL_TYPE_LSPI s)"

definition wm_spi_cs_config :: "tls_io_name \<Rightarrow> 'a io_state_scheme \<Rightarrow> 'a io_state_scheme" where
  "wm_spi_cs_config io_name s =
     (if io_name = WM_IO_PA_00 then tls_io_cfg_set io_name WM_IO_OPTION2 s
      else if io_name = WM_IO_PB_04 then tls_io_cfg_set io_name WM_IO_OPTION1 s
      else if io_name = WM_IO_PB_14 then tls_io_cfg_set io_name WM_IO_OPTION3 s
      else if io_name = WM_IO_PB_23 then tls_io_cfg_set io_name WM_IO_OPTION1 s
      else s)"

definition wm_spi_di_config :: "tls_io_name \<Rightarrow> 'a io_state_scheme \<Rightarrow> 'a io_state_scheme" where
  "wm_spi_di_config io_name s =
     (if io_name = WM_IO_PB_00 then tls_io_cfg_set io_name WM_IO_OPTION2 s
      else if io_name = WM_IO_PB_03 then tls_io_cfg_set io_name WM_IO_OPTION2 s
      else if io_name = WM_IO_PB_16 then tls_io_cfg_set io_name WM_IO_OPTION3 s
      else if io_name = WM_IO_PB_25 then tls_io_cfg_set io_name WM_IO_OPTION1 s
      else s)"

definition wm_spi_do_config :: "tls_io_name \<Rightarrow> 'a io_state_scheme \<Rightarrow> 'a io_state_scheme" where
  "wm_spi_do_config io_name s =
     (if io_name = WM_IO_PA_07 then tls_io_cfg_set io_name WM_IO_OPTION2 s
      else if io_name = WM_IO_PB_05 then tls_io_cfg_set io_name WM_IO_OPTION1 s
      else if io_name = WM_IO_PB_17 then tls_io_cfg_set io_name WM_IO_OPTION3 s
      else if io_name = WM_IO_PB_26 then tls_io_cfg_set io_name WM_IO_OPTION1 s
      else s)"

definition wm_uart0_tx_config :: "tls_io_name \<Rightarrow> 'a io_state_scheme \<Rightarrow> 'a io_state_scheme" where
  "wm_uart0_tx_config io_name s =
     (let r =
        (if io_name = WM_IO_PB_19 then Some (tls_io_cfg_set io_name WM_IO_OPTION1 s)
         else if io_name = WM_IO_PB_27 then Some (tls_io_cfg_set io_name WM_IO_OPTION2 s)
         else None)
      in case r of None \<Rightarrow> s | Some s \<Rightarrow> tls_open_peripheral_clock TLS_PERIPHERAL_TYPE_UART0 s)"

definition wm_uart0_rx_config :: "tls_io_name \<Rightarrow> 'a io_state_scheme \<Rightarrow> 'a io_state_scheme" where
  "wm_uart0_rx_config io_name s =
     (let r =
        (if io_name = WM_IO_PB_20 then Some (let s = tls_io_cfg_set io_name WM_IO_OPTION1 s in tls_bitband_write HR_GPIOB_DATA_PULLEN 20 0 s)
         else None)
      in case r of None \<Rightarrow> s | Some s \<Rightarrow> tls_open_peripheral_clock TLS_PERIPHERAL_TYPE_UART0 s)"

definition wm_uart1_tx_config :: "tls_io_name \<Rightarrow> 'a io_state_scheme \<Rightarrow> 'a io_state_scheme" where
  "wm_uart1_tx_config io_name s =
     (let r =
        (if io_name = WM_IO_PB_06 then Some (tls_io_cfg_set io_name WM_IO_OPTION1 s)
         else None)
      in case r of None \<Rightarrow> s | Some s \<Rightarrow> tls_open_peripheral_clock TLS_PERIPHERAL_TYPE_UART1 s)"

definition wm_uart1_rx_config :: "tls_io_name \<Rightarrow> 'a io_state_scheme \<Rightarrow> 'a io_state_scheme" where
  "wm_uart1_rx_config io_name s =
     (let r =
        (if io_name = WM_IO_PB_07 then Some (let s = tls_io_cfg_set io_name WM_IO_OPTION1 s in tls_bitband_write HR_GPIOB_DATA_PULLEN 7 0 s)
         else if io_name = WM_IO_PB_16 then Some (let s = tls_io_cfg_set io_name WM_IO_OPTION4 s in tls_bitband_write HR_GPIOB_DATA_PULLEN 16 0 s)
         else None)
      in case r of None \<Rightarrow> s | Some s \<Rightarrow> tls_open_peripheral_clock TLS_PERIPHERAL_TYPE_UART1 s)"

definition wm_uart1_rts_config :: "tls_io_name \<Rightarrow> 'a io_state_scheme \<Rightarrow> 'a io_state_scheme" where
  "wm_uart1_rts_config io_name s =
     (let r =
        (if io_name = WM_IO_PB_19 then Some (tls_io_cfg_set io_name WM_IO_OPTION3 s)
         else if io_name = WM_IO_PA_02 then Some (tls_io_cfg_set io_name WM_IO_OPTION1 s)
         else None)
      in case r of None \<Rightarrow> s | Some s \<Rightarrow> tls_open_peripheral_clock TLS_PERIPHERAL_TYPE_UART1 s)"

definition wm_uart1_cts_config :: "tls_io_name \<Rightarrow> 'a io_state_scheme \<Rightarrow> 'a io_state_scheme" where
  "wm_uart1_cts_config io_name s =
     (let r =
        (if io_name = WM_IO_PB_20 then Some (tls_io_cfg_set io_name WM_IO_OPTION3 s)
         else if io_name = WM_IO_PA_03 then Some (tls_io_cfg_set io_name WM_IO_OPTION1 s)
         else None)
      in case r of None \<Rightarrow> s | Some s \<Rightarrow> tls_open_peripheral_clock TLS_PERIPHERAL_TYPE_UART1 s)"

definition wm_uart2_tx_scio_config :: "tls_io_name \<Rightarrow> 'a io_state_scheme \<Rightarrow> 'a io_state_scheme" where
  "wm_uart2_tx_scio_config io_name s =
     (let r =
        (if io_name = WM_IO_PB_02 then Some (tls_io_cfg_set io_name WM_IO_OPTION3 s)
         else if io_name = WM_IO_PA_02 then Some (tls_io_cfg_set io_name WM_IO_OPTION2 s)
         else None)
      in case r of None \<Rightarrow> s | Some s \<Rightarrow> tls_open_peripheral_clock TLS_PERIPHERAL_TYPE_UART2 s)"

definition wm_uart2_rx_config :: "tls_io_name \<Rightarrow> 'a io_state_scheme \<Rightarrow> 'a io_state_scheme" where
  "wm_uart2_rx_config io_name s =
     (let r =
        (if io_name = WM_IO_PB_03 then Some (let s = tls_io_cfg_set io_name WM_IO_OPTION3 s in tls_bitband_write HR_GPIOB_DATA_PULLEN 3 0 s)
         else if io_name = WM_IO_PA_03 then Some (let s = tls_io_cfg_set io_name WM_IO_OPTION2 s in tls_bitband_write HR_GPIOA_DATA_PULLEN 3 0 s)
         else None)
      in case r of None \<Rightarrow> s | Some s \<Rightarrow> tls_open_peripheral_clock TLS_PERIPHERAL_TYPE_UART2 s)"

definition wm_uart2_rts_scclk_config :: "tls_io_name \<Rightarrow> 'a io_state_scheme \<Rightarrow> 'a io_state_scheme" where
  "wm_uart2_rts_scclk_config io_name s =
     (let r =
        (if io_name = WM_IO_PB_04 then Some (tls_io_cfg_set io_name WM_IO_OPTION2 s)
         else if io_name = WM_IO_PA_05 then Some (tls_io_cfg_set io_name WM_IO_OPTION2 s)
         else None)
      in case r of None \<Rightarrow> s | Some s \<Rightarrow> tls_open_peripheral_clock TLS_PERIPHERAL_TYPE_UART2 s)"

definition wm_uart2_cts_config :: "tls_io_name \<Rightarrow> 'a io_state_scheme \<Rightarrow> 'a io_state_scheme" where
  "wm_uart2_cts_config io_name s =
     (let r =
        (if io_name = WM_IO_PB_05 then Some (tls_io_cfg_set io_name WM_IO_OPTION2 s)
         else if io_name = WM_IO_PA_06 then Some (tls_io_cfg_set io_name WM_IO_OPTION2 s)
         else None)
      in case r of None \<Rightarrow> s | Some s \<Rightarrow> tls_open_peripheral_clock TLS_PERIPHERAL_TYPE_UART2 s)"

definition wm_uart3_tx_config :: "tls_io_name \<Rightarrow> 'a io_state_scheme \<Rightarrow> 'a io_state_scheme" where
  "wm_uart3_tx_config io_name s =
     (let r =
        (if io_name = WM_IO_PB_00 then Some (tls_io_cfg_set io_name WM_IO_OPTION3 s)
         else if io_name = WM_IO_PA_05 then Some (tls_io_cfg_set io_name WM_IO_OPTION1 s)
         else None)
      in case r of None \<Rightarrow> s | Some s \<Rightarrow> tls_open_peripheral_clock TLS_PERIPHERAL_TYPE_UART3 s)"

definition wm_uart3_rx_config :: "tls_io_name \<Rightarrow> 'a io_state_scheme \<Rightarrow> 'a io_state_scheme" where
  "wm_uart3_rx_config io_name s =
     (let r =
        (if io_name = WM_IO_PB_01 then Some (let s = tls_io_cfg_set io_name WM_IO_OPTION3 s in tls_bitband_write HR_GPIOB_DATA_PULLEN 1 0 s)
         else if io_name = WM_IO_PA_06 then Some (let s = tls_io_cfg_set io_name WM_IO_OPTION1 s in tls_bitband_write HR_GPIOA_DATA_PULLEN 6 0 s)
         else None)
      in case r of None \<Rightarrow> s | Some s \<Rightarrow> tls_open_peripheral_clock TLS_PERIPHERAL_TYPE_UART3 s)"

definition wm_uart3_rts_config :: "tls_io_name \<Rightarrow> 'a io_state_scheme \<Rightarrow> 'a io_state_scheme" where
  "wm_uart3_rts_config io_name s =
     (let r =
        (if io_name = WM_IO_PA_02 then Some (tls_io_cfg_set io_name WM_IO_OPTION4 s)
         else None)
      in case r of None \<Rightarrow> s | Some s \<Rightarrow> tls_open_peripheral_clock TLS_PERIPHERAL_TYPE_UART3 s)"

definition wm_uart3_cts_config :: "tls_io_name \<Rightarrow> 'a io_state_scheme \<Rightarrow> 'a io_state_scheme" where
  "wm_uart3_cts_config io_name s =
     (let r =
        (if io_name = WM_IO_PA_03 then Some (tls_io_cfg_set io_name WM_IO_OPTION4 s)
         else None)
      in case r of None \<Rightarrow> s | Some s \<Rightarrow> tls_open_peripheral_clock TLS_PERIPHERAL_TYPE_UART3 s)"

definition wm_uart4_tx_config :: "tls_io_name \<Rightarrow> 'a io_state_scheme \<Rightarrow> 'a io_state_scheme" where
  "wm_uart4_tx_config io_name s =
     (let r =
        (if io_name = WM_IO_PB_04 then Some (tls_io_cfg_set io_name WM_IO_OPTION3 s)
         else if io_name = WM_IO_PA_08 then Some (tls_io_cfg_set io_name WM_IO_OPTION2 s)
         else None)
      in case r of None \<Rightarrow> s | Some s \<Rightarrow> tls_open_peripheral_clock TLS_PERIPHERAL_TYPE_UART4 s)"

definition wm_uart4_rx_config :: "tls_io_name \<Rightarrow> 'a io_state_scheme \<Rightarrow> 'a io_state_scheme" where
  "wm_uart4_rx_config io_name s =
     (let r =
        (if io_name = WM_IO_PB_05 then Some (let s = tls_io_cfg_set io_name WM_IO_OPTION3 s in tls_bitband_write HR_GPIOB_DATA_PULLEN 5 0 s)
         else if io_name = WM_IO_PA_09 then Some (let s = tls_io_cfg_set io_name WM_IO_OPTION2 s in tls_bitband_write HR_GPIOA_DATA_PULLEN 9 0 s)
         else None)
      in case r of None \<Rightarrow> s | Some s \<Rightarrow> tls_open_peripheral_clock TLS_PERIPHERAL_TYPE_UART4 s)"

definition wm_uart4_rts_config :: "tls_io_name \<Rightarrow> 'a io_state_scheme \<Rightarrow> 'a io_state_scheme" where
  "wm_uart4_rts_config io_name s =
     (let r =
        (if io_name = WM_IO_PA_05 then Some (tls_io_cfg_set io_name WM_IO_OPTION4 s)
         else if io_name = WM_IO_PA_10 then Some (tls_io_cfg_set io_name WM_IO_OPTION2 s)
         else None)
      in case r of None \<Rightarrow> s | Some s \<Rightarrow> tls_open_peripheral_clock TLS_PERIPHERAL_TYPE_UART4 s)"

definition wm_uart4_cts_config :: "tls_io_name \<Rightarrow> 'a io_state_scheme \<Rightarrow> 'a io_state_scheme" where
  "wm_uart4_cts_config io_name s =
     (let r =
        (if io_name = WM_IO_PA_06 then Some (tls_io_cfg_set io_name WM_IO_OPTION4 s)
         else if io_name = WM_IO_PA_11 then Some (tls_io_cfg_set io_name WM_IO_OPTION2 s)
         else None)
      in case r of None \<Rightarrow> s | Some s \<Rightarrow> tls_open_peripheral_clock TLS_PERIPHERAL_TYPE_UART4 s)"

definition wm_uart5_tx_config :: "tls_io_name \<Rightarrow> 'a io_state_scheme \<Rightarrow> 'a io_state_scheme" where
  "wm_uart5_tx_config io_name s =
     (let r =
        (if io_name = WM_IO_PA_12 then Some (tls_io_cfg_set io_name WM_IO_OPTION2 s)
         else if io_name = WM_IO_PA_08 then Some (tls_io_cfg_set io_name WM_IO_OPTION3 s)
         else if io_name = WM_IO_PB_18 then Some (tls_io_cfg_set io_name WM_IO_OPTION1 s)
         else None)
      in case r of None \<Rightarrow> s | Some s \<Rightarrow> tls_open_peripheral_clock TLS_PERIPHERAL_TYPE_UART5 s)"

definition wm_uart5_rx_config :: "tls_io_name \<Rightarrow> 'a io_state_scheme \<Rightarrow> 'a io_state_scheme" where
  "wm_uart5_rx_config io_name s =
     (let r =
        (if io_name = WM_IO_PA_13 then Some (let s = tls_io_cfg_set io_name WM_IO_OPTION2 s in tls_bitband_write HR_GPIOA_DATA_PULLEN 13 0 s)
         else if io_name = WM_IO_PA_09 then Some (let s = tls_io_cfg_set io_name WM_IO_OPTION3 s in tls_bitband_write HR_GPIOA_DATA_PULLEN 9 0 s)
         else if io_name = WM_IO_PB_17 then Some (let s = tls_io_cfg_set io_name WM_IO_OPTION1 s in tls_bitband_write HR_GPIOB_DATA_PULLEN 17 0 s)
         else None)
      in case r of None \<Rightarrow> s | Some s \<Rightarrow> tls_open_peripheral_clock TLS_PERIPHERAL_TYPE_UART5 s)"

definition wm_uart5_rts_config :: "tls_io_name \<Rightarrow> 'a io_state_scheme \<Rightarrow> 'a io_state_scheme" where
  "wm_uart5_rts_config io_name s =
     (let r =
        (if io_name = WM_IO_PB_12 then Some (tls_io_cfg_set io_name WM_IO_OPTION3 s)
         else if io_name = WM_IO_PA_14 then Some (tls_io_cfg_set io_name WM_IO_OPTION2 s)
         else None)
      in case r of None \<Rightarrow> s | Some s \<Rightarrow> tls_open_peripheral_clock TLS_PERIPHERAL_TYPE_UART5 s)"

definition wm_uart5_cts_config :: "tls_io_name \<Rightarrow> 'a io_state_scheme \<Rightarrow> 'a io_state_scheme" where
  "wm_uart5_cts_config io_name s =
     (let r =
        (if io_name = WM_IO_PB_13 then Some (tls_io_cfg_set io_name WM_IO_OPTION3 s)
         else if io_name = WM_IO_PA_15 then Some (tls_io_cfg_set io_name WM_IO_OPTION2 s)
         else None)
      in case r of None \<Rightarrow> s | Some s \<Rightarrow> tls_open_peripheral_clock TLS_PERIPHERAL_TYPE_UART5 s)"

definition wm_i2s_ck_config :: "tls_io_name \<Rightarrow> 'a io_state_scheme \<Rightarrow> 'a io_state_scheme" where
  "wm_i2s_ck_config io_name s =
     (let r =
        (if io_name = WM_IO_PA_04 then Some (tls_io_cfg_set io_name WM_IO_OPTION4 s)
         else if io_name = WM_IO_PB_08 then Some (tls_io_cfg_set io_name WM_IO_OPTION1 s)
         else if io_name = WM_IO_PA_08 then Some (tls_io_cfg_set io_name WM_IO_OPTION4 s)
         else if io_name = WM_IO_PB_12 then Some (tls_io_cfg_set io_name WM_IO_OPTION4 s)
         else None)
      in case r of None \<Rightarrow> s | Some s \<Rightarrow> tls_open_peripheral_clock TLS_PERIPHERAL_TYPE_I2S s)"

definition wm_i2s_ws_config :: "tls_io_name \<Rightarrow> 'a io_state_scheme \<Rightarrow> 'a io_state_scheme" where
  "wm_i2s_ws_config io_name s =
     (let r =
        (if io_name = WM_IO_PA_01 then Some (tls_io_cfg_set io_name WM_IO_OPTION4 s)
         else if io_name = WM_IO_PB_09 then Some (tls_io_cfg_set io_name WM_IO_OPTION1 s)
         else if io_name = WM_IO_PA_09 then Some (tls_io_cfg_set io_name WM_IO_OPTION4 s)
         else if io_name = WM_IO_PB_13 then Some (tls_io_cfg_set io_name WM_IO_OPTION4 s)
         else None)
      in case r of None \<Rightarrow> s | Some s \<Rightarrow> tls_open_peripheral_clock TLS_PERIPHERAL_TYPE_I2S s)"

definition wm_i2s_do_config :: "tls_io_name \<Rightarrow> 'a io_state_scheme \<Rightarrow> 'a io_state_scheme" where
  "wm_i2s_do_config io_name s =
     (let r =
        (if io_name = WM_IO_PA_00 then Some (tls_io_cfg_set io_name WM_IO_OPTION4 s)
         else if io_name = WM_IO_PB_11 then Some (tls_io_cfg_set io_name WM_IO_OPTION1 s)
         else if io_name = WM_IO_PA_10 then Some (tls_io_cfg_set io_name WM_IO_OPTION4 s)
         else if io_name = WM_IO_PB_14 then Some (tls_io_cfg_set io_name WM_IO_OPTION4 s)
         else None)
      in case r of None \<Rightarrow> s | Some s \<Rightarrow> tls_open_peripheral_clock TLS_PERIPHERAL_TYPE_I2S s)"

definition wm_i2s_di_config :: "tls_io_name \<Rightarrow> 'a io_state_scheme \<Rightarrow> 'a io_state_scheme" where
  "wm_i2s_di_config io_name s =
     (let r =
        (if io_name = WM_IO_PA_07 then Some (tls_io_cfg_set io_name WM_IO_OPTION4 s)
         else if io_name = WM_IO_PB_10 then Some (tls_io_cfg_set io_name WM_IO_OPTION1 s)
         else if io_name = WM_IO_PA_11 then Some (tls_io_cfg_set io_name WM_IO_OPTION4 s)
         else if io_name = WM_IO_PB_15 then Some (tls_io_cfg_set io_name WM_IO_OPTION4 s)
         else None)
      in case r of None \<Rightarrow> s | Some s \<Rightarrow> tls_open_peripheral_clock TLS_PERIPHERAL_TYPE_I2S s)"

definition wm_i2s_mclk_config :: "tls_io_name \<Rightarrow> 'a io_state_scheme \<Rightarrow> 'a io_state_scheme" where
  "wm_i2s_mclk_config io_name s =
     (let r =
        (if io_name = WM_IO_PA_00 then Some (tls_io_cfg_set io_name WM_IO_OPTION1 s)
         else if io_name = WM_IO_PA_07 then Some (tls_io_cfg_set io_name WM_IO_OPTION3 s)
         else if io_name = WM_IO_PB_17 then Some (tls_io_cfg_set io_name WM_IO_OPTION4 s)
         else None)
      in case r of None \<Rightarrow> s | Some s \<Rightarrow> tls_open_peripheral_clock TLS_PERIPHERAL_TYPE_I2S s)"

definition wm_i2s_extclk_config :: "tls_io_name \<Rightarrow> 'a io_state_scheme \<Rightarrow> 'a io_state_scheme" where
  "wm_i2s_extclk_config io_name s =
     (let r =
        (if io_name = WM_IO_PA_07 then Some (tls_io_cfg_set io_name WM_IO_OPTION3 s)
         else if io_name = WM_IO_PB_17 then Some (tls_io_cfg_set io_name WM_IO_OPTION4 s)
         else None)
      in case r of None \<Rightarrow> s | Some s \<Rightarrow> tls_open_peripheral_clock TLS_PERIPHERAL_TYPE_I2S s)"

definition wm_i2c_scl_config :: "tls_io_name \<Rightarrow> 'a io_state_scheme \<Rightarrow> 'a io_state_scheme" where
  "wm_i2c_scl_config io_name s =
     (let r =
        (if io_name = WM_IO_PA_01 then Some (let s = tls_gpio_cfg io_name WM_GPIO_DIR_OUTPUT WM_GPIO_ATTR_PULLHIGH s in tls_io_cfg_set io_name WM_IO_OPTION2 s)
         else if io_name = WM_IO_PB_20 then Some (let s = tls_gpio_cfg io_name WM_GPIO_DIR_OUTPUT WM_GPIO_ATTR_PULLHIGH s in tls_io_cfg_set io_name WM_IO_OPTION4 s)
         else None)
      in case r of None \<Rightarrow> s | Some s \<Rightarrow> tls_open_peripheral_clock TLS_PERIPHERAL_TYPE_I2C s)"

definition wm_i2c_sda_config :: "tls_io_name \<Rightarrow> 'a io_state_scheme \<Rightarrow> 'a io_state_scheme" where
  "wm_i2c_sda_config io_name s =
     (let r =
        (if io_name = WM_IO_PA_04 then Some (let s = tls_gpio_cfg io_name WM_GPIO_DIR_OUTPUT WM_GPIO_ATTR_PULLHIGH s in tls_io_cfg_set io_name WM_IO_OPTION2 s)
         else if io_name = WM_IO_PB_19 then Some (let s = tls_gpio_cfg io_name WM_GPIO_DIR_OUTPUT WM_GPIO_ATTR_PULLHIGH s in tls_io_cfg_set io_name WM_IO_OPTION4 s)
         else None)
      in case r of None \<Rightarrow> s | Some s \<Rightarrow> tls_open_peripheral_clock TLS_PERIPHERAL_TYPE_I2C s)"

definition wm_pwm0_config :: "tls_io_name \<Rightarrow> 'a io_state_scheme \<Rightarrow> 'a io_state_scheme" where
  "wm_pwm0_config io_name s =
     (let r =
        (if io_name = WM_IO_PB_00 then Some (tls_io_cfg_set io_name WM_IO_OPTION1 s)
         else if io_name = WM_IO_PB_19 then Some (tls_io_cfg_set io_name WM_IO_OPTION2 s)
         else if io_name = WM_IO_PB_12 then Some (tls_io_cfg_set io_name WM_IO_OPTION2 s)
         else if io_name = WM_IO_PA_02 then Some (tls_io_cfg_set io_name WM_IO_OPTION3 s)
         else if io_name = WM_IO_PA_10 then Some (tls_io_cfg_set io_name WM_IO_OPTION3 s)
         else None)
      in case r of None \<Rightarrow> s | Some s \<Rightarrow> tls_open_peripheral_clock TLS_PERIPHERAL_TYPE_PWM s)"

definition wm_pwm1_config :: "tls_io_name \<Rightarrow> 'a io_state_scheme \<Rightarrow> 'a io_state_scheme" where
  "wm_pwm1_config io_name s =
     (let r =
        (if io_name = WM_IO_PB_01 then Some (tls_io_cfg_set io_name WM_IO_OPTION1 s)
         else if io_name = WM_IO_PB_20 then Some (tls_io_cfg_set io_name WM_IO_OPTION2 s)
         else if io_name = WM_IO_PA_03 then Some (tls_io_cfg_set io_name WM_IO_OPTION3 s)
         else if io_name = WM_IO_PA_11 then Some (tls_io_cfg_set io_name WM_IO_OPTION3 s)
         else if io_name = WM_IO_PB_13 then Some (tls_io_cfg_set io_name WM_IO_OPTION2 s)
         else None)
      in case r of None \<Rightarrow> s | Some s \<Rightarrow> tls_open_peripheral_clock TLS_PERIPHERAL_TYPE_PWM s)"

definition wm_pwm2_config :: "tls_io_name \<Rightarrow> 'a io_state_scheme \<Rightarrow> 'a io_state_scheme" where
  "wm_pwm2_config io_name s =
     (let r =
        (if io_name = WM_IO_PA_00 then Some (tls_io_cfg_set io_name WM_IO_OPTION3 s)
         else if io_name = WM_IO_PB_02 then Some (tls_io_cfg_set io_name WM_IO_OPTION1 s)
         else if io_name = WM_IO_PA_12 then Some (tls_io_cfg_set io_name WM_IO_OPTION3 s)
         else if io_name = WM_IO_PB_14 then Some (tls_io_cfg_set io_name WM_IO_OPTION2 s)
         else if io_name = WM_IO_PB_24 then Some (tls_io_cfg_set io_name WM_IO_OPTION2 s)
         else None)
      in case r of None \<Rightarrow> s | Some s \<Rightarrow> tls_open_peripheral_clock TLS_PERIPHERAL_TYPE_PWM s)"

definition wm_pwm3_config :: "tls_io_name \<Rightarrow> 'a io_state_scheme \<Rightarrow> 'a io_state_scheme" where
  "wm_pwm3_config io_name s =
     (let r =
        (if io_name = WM_IO_PA_01 then Some (tls_io_cfg_set io_name WM_IO_OPTION3 s)
         else if io_name = WM_IO_PB_03 then Some (tls_io_cfg_set io_name WM_IO_OPTION1 s)
         else if io_name = WM_IO_PA_13 then Some (tls_io_cfg_set io_name WM_IO_OPTION3 s)
         else if io_name = WM_IO_PB_15 then Some (tls_io_cfg_set io_name WM_IO_OPTION2 s)
         else if io_name = WM_IO_PB_25 then Some (tls_io_cfg_set io_name WM_IO_OPTION2 s)
         else None)
      in case r of None \<Rightarrow> s | Some s \<Rightarrow> tls_open_peripheral_clock TLS_PERIPHERAL_TYPE_PWM s)"

definition wm_pwm4_config :: "tls_io_name \<Rightarrow> 'a io_state_scheme \<Rightarrow> 'a io_state_scheme" where
  "wm_pwm4_config io_name s =
     (let r =
        (if io_name = WM_IO_PA_04 then Some (tls_io_cfg_set io_name WM_IO_OPTION3 s)
         else if io_name = WM_IO_PA_07 then Some (tls_io_cfg_set io_name WM_IO_OPTION1 s)
         else if io_name = WM_IO_PA_14 then Some (tls_io_cfg_set io_name WM_IO_OPTION3 s)
         else if io_name = WM_IO_PB_16 then Some (tls_io_cfg_set io_name WM_IO_OPTION2 s)
         else if io_name = WM_IO_PB_26 then Some (tls_io_cfg_set io_name WM_IO_OPTION2 s)
         else None)
      in case r of None \<Rightarrow> s | Some s \<Rightarrow> tls_open_peripheral_clock TLS_PERIPHERAL_TYPE_PWM s)"

definition wm_pwmbrk_config :: "tls_io_name \<Rightarrow> 'a io_state_scheme \<Rightarrow> 'a io_state_scheme" where
  "wm_pwmbrk_config io_name s =
     (let r =
        (if io_name = WM_IO_PB_08 then Some (tls_io_cfg_set io_name WM_IO_OPTION3 s)
         else if io_name = WM_IO_PA_05 then Some (tls_io_cfg_set io_name WM_IO_OPTION3 s)
         else if io_name = WM_IO_PA_08 then Some (tls_io_cfg_set io_name WM_IO_OPTION1 s)
         else if io_name = WM_IO_PA_15 then Some (tls_io_cfg_set io_name WM_IO_OPTION3 s)
         else if io_name = WM_IO_PB_17 then Some (tls_io_cfg_set io_name WM_IO_OPTION2 s)
         else None)
      in case r of None \<Rightarrow> s | Some s \<Rightarrow> tls_open_peripheral_clock TLS_PERIPHERAL_TYPE_PWM s)"

definition wm_swd_config :: "bool \<Rightarrow> 'a io_state_scheme \<Rightarrow> 'a io_state_scheme" where
  "wm_swd_config enable s =
     (if enable then
        let s = tls_io_cfg_set WM_IO_PA_01 WM_IO_OPTION1 s
        in tls_io_cfg_set WM_IO_PA_04 WM_IO_OPTION1 s
      else
        let s = tls_io_cfg_set WM_IO_PA_01 WM_IO_OPTION5 s
        in tls_io_cfg_set WM_IO_PA_04 WM_IO_OPTION5 s)"

definition wm_adc_config :: "u8 \<Rightarrow> 'a io_state_scheme \<Rightarrow> 'a io_state_scheme" where
  "wm_adc_config Channel s =
     (let r =
        (if Channel = 0 then Some (tls_io_cfg_set WM_IO_PA_01 WM_IO_OPTION6 s)
         else if Channel = 1 then Some (tls_io_cfg_set WM_IO_PA_04 WM_IO_OPTION6 s)
         else if Channel = 2 then Some (tls_io_cfg_set WM_IO_PA_03 WM_IO_OPTION6 s)
         else if Channel = 3 then Some (tls_io_cfg_set WM_IO_PA_02 WM_IO_OPTION6 s)
         else None)
      in case r of None \<Rightarrow> s | Some s \<Rightarrow> tls_open_peripheral_clock TLS_PERIPHERAL_TYPE_SDADC s)"

definition wm_touch_sensor_config :: "tls_io_name \<Rightarrow> 'a io_state_scheme \<Rightarrow> 'a io_state_scheme" where
  "wm_touch_sensor_config io_name s =
     (let r =
        (if io_name \<in> {WM_IO_PA_07, WM_IO_PA_09, WM_IO_PA_10, WM_IO_PB_00, WM_IO_PB_01, WM_IO_PB_02,
            WM_IO_PB_03, WM_IO_PB_04, WM_IO_PB_05, WM_IO_PB_06, WM_IO_PB_07, WM_IO_PB_08, WM_IO_PB_09,
            WM_IO_PA_12, WM_IO_PA_14}
         then Some (tls_io_cfg_set io_name WM_IO_OPTION7 s)
         else None)
      in case r of None \<Rightarrow> s | Some s \<Rightarrow> tls_open_peripheral_clock TLS_PERIPHERAL_TYPE_TOUCH_SENSOR s)"

text \<open>The build keeps the debug port (\<^verbatim>\<open>WM_SWD_ENABLE\<close> is 1).\<close>

definition wm_gpio_af_disable :: "'a mcu_scheme \<Rightarrow> 'a mcu_scheme" where
  "wm_gpio_af_disable s =
     (let s = tls_reg_write32 HR_GPIOA_DATA_DIR 0 s;
          s = tls_reg_write32 HR_GPIOB_DATA_DIR 0 s;
          s = tls_reg_write32 HR_GPIOA_AFSEL 0x12 s;
          s = tls_reg_write32 HR_GPIOB_AFSEL 0 s;
          s = tls_reg_write32 HR_GPIOA_DATA_PULLEN 0 s
      in tls_reg_write32 HR_GPIOB_DATA_PULLEN 0 s)"

section \<open>The contract of a signal function\<close>

text \<open>
  \<open>opts\<close> lists the accepted pins with the option each one needs, \<open>dev\<close> is the
  clock gate (0 when the function opens none), \<open>pullup\<close> says whether the pull-up of the
  pin is on afterwards, and \<open>pre\<close> is what is done to the pin before.
\<close>

definition afsel_contract ::
    "(tls_io_name \<Rightarrow> io_state \<Rightarrow> io_state) \<Rightarrow> (tls_io_name \<times> u8) list \<Rightarrow> u32 \<Rightarrow> bool \<Rightarrow> bool" where
  "afsel_contract cfg opts dev pullup \<longleftrightarrow>
     (\<forall>name s. case map_of opts name of
        None \<Rightarrow> cfg name s = s
      | Some opt \<Rightarrow>
          tls_io_cfg_get name (cfg name s) = opt
          \<and> (pin_bit HR_GPIO_PULLUP_EN name (cfg name s) \<longleftrightarrow> \<not> pullup)
          \<and> regs (cfg name s) HR_CLK_BASE_ADDR = regs s HR_CLK_BASE_ADDR OR dev
          \<and> (\<forall>name'. name' \<noteq> name \<longrightarrow> tls_io_cfg_get name' (cfg name s) = tls_io_cfg_get name' s))"

lemma clk_not_pin_reg: "HR_CLK_BASE_ADDR \<notin> pin_regs name"
  using io_offset_cases [of name] by (auto simp: pin_regs_def)

lemma pin_bit_clock [simp]:
  "r \<in> {HR_GPIO_DIR, HR_GPIO_PULLUP_EN, HR_GPIO_AF_SEL, HR_GPIO_AF_S1, HR_GPIO_AF_S0, HR_GPIO_PULLDOWN_EN} \<Longrightarrow>
     pin_bit r name (tls_open_peripheral_clock d s) = pin_bit r name s"
  using io_offset_cases [of name] by (auto simp: pin_bit_def)

lemma option67_clock [simp]: "option67 name (tls_open_peripheral_clock d s) = option67 name s"
  by (simp add: option67_def)

lemma get_clock [simp]: "tls_io_cfg_get name (tls_open_peripheral_clock d s) = tls_io_cfg_get name s"
  by (simp add: get_bits)

definition pullup_on :: "bool \<Rightarrow> tls_io_name \<Rightarrow> 'a mcu_scheme \<Rightarrow> 'a mcu_scheme" where
  "pullup_on on name s =
     (if on then reg_andn (HR_GPIO_PULLUP_EN + io_offset name) (BIT (io_pin name)) s else s)"

interpretation keep: pin_op67 "\<lambda>_ s. s"
  by unfold_locales simp_all

interpretation pullup: pin_op67 "pullup_on on"
  by unfold_locales (auto simp: pullup_on_def pin_regs_def bits)

lemma set_option_bits:
  assumes "name < 48" "opt \<in> {1, 2, 3, 4}"
  shows "pin_bit HR_GPIO_AF_SEL name (tls_io_cfg_set name opt s)"
    and "pin_bit HR_GPIO_AF_S1 name (tls_io_cfg_set name opt s) \<longleftrightarrow> opt \<in> {3, 4}"
    and "pin_bit HR_GPIO_AF_S0 name (tls_io_cfg_set name opt s) \<longleftrightarrow> opt \<in> {2, 4}"
    and "pin_bit HR_GPIO_PULLUP_EN name (tls_io_cfg_set name opt s)"
  by (insert assms(2), elim insertE emptyE;
      simp add: tls_io_cfg_set_def io_cfg_option1_def io_cfg_option2_def io_cfg_option3_def
        io_cfg_option4_def Let_def pulls_off_bits [OF assms(1)] pin_bit_rmw [OF assms(1)])+

locale afsel = pre: pin_op67 pre
  for pre :: "tls_io_name \<Rightarrow> io_state \<Rightarrow> io_state" +
  fixes cfg :: "tls_io_name \<Rightarrow> io_state \<Rightarrow> io_state"
    and opts :: "(tls_io_name \<times> u8) list"
    and dev :: u32
    and on :: bool
  assumes cfg_eq: "cfg name s = (case map_of opts name of
      None \<Rightarrow> s
    | Some opt \<Rightarrow> tls_open_peripheral_clock dev (pullup_on on name (tls_io_cfg_set name opt (pre name s))))"
    and opts_ok: "list_all (\<lambda>(name, opt). name < 48 \<and> opt \<in> {1, 2, 3, 4}) opts"
begin

lemma optsD: "map_of opts name = Some opt \<Longrightarrow> name < 48 \<and> opt \<in> {1, 2, 3, 4}"
  using opts_ok by (auto simp: list_all_iff dest!: map_of_SomeD)

lemma accepted_get:
  assumes "map_of opts name = Some opt"
  shows "tls_io_cfg_get name (cfg name s) = opt"
proof -
  have n: "name < 48" and o: "opt \<in> {1, 2, 3, 4}" using optsD [OF assms] by auto
  let ?t = "tls_io_cfg_set name opt (pre name s)"
  have k: "pin_bit r name (pullup_on on name t) = pin_bit r name t" if "r \<noteq> HR_GPIO_PULLUP_EN" for r t
    using that by (simp add: pullup_on_def pin_bit_rmw [OF n])
  have "tls_io_cfg_get name (cfg name s) = (if opt \<in> {3, 4} then if opt \<in> {2, 4} then 4 else 3
      else if opt \<in> {2, 4} then 2 else 1)"
    by (simp add: cfg_eq assms get_bits k set_option_bits [OF n o])
  with o show ?thesis by auto
qed

lemma accepted_pullup:
  assumes "map_of opts name = Some opt"
  shows "pin_bit HR_GPIO_PULLUP_EN name (cfg name s) \<longleftrightarrow> \<not> on"
  using optsD [OF assms] by (auto simp: cfg_eq assms pullup_on_def pin_bit_rmw set_option_bits)

lemma accepted_clock:
  assumes "map_of opts name = Some opt"
  shows "regs (cfg name s) HR_CLK_BASE_ADDR = regs s HR_CLK_BASE_ADDR OR dev"
  by (simp add: cfg_eq assms pullup.other_register [OF clk_not_pin_reg]
      io_set.other_register [OF clk_not_pin_reg] pre.other_register [OF clk_not_pin_reg])

lemma other_pin_kept:
  assumes "map_of opts name = Some opt" "name' \<noteq> name"
  shows "tls_io_cfg_get name' (cfg name s) = tls_io_cfg_get name' s"
proof -
  have "opt \<noteq> 7" using optsD [OF assms(1)] by auto
  then show ?thesis
    by (simp add: cfg_eq assms(1) pullup.get_other_pin [OF assms(2)] set_other_pin [OF assms(2)]
        pre.get_other_pin [OF assms(2)])
qed

lemma contract: "afsel_contract cfg opts dev on"
  unfolding afsel_contract_def
  by (auto split: option.split simp: accepted_get accepted_pullup accepted_clock other_pin_kept)
    (simp add: cfg_eq)

end

lemma bitband_clear: "tls_bitband_write a n 0 s = reg_andn a (BIT n) s"
  by (simp add: tls_bitband_write_def reg_andn_def BIT_def)

lemma open_no_clock: "tls_open_peripheral_clock 0 s = s"
  by (simp add: tls_open_peripheral_clock_def reg_or_def tls_reg_write32_def)

section \<open>Instances\<close>

interpretation spi_ck: afsel "\<lambda>_ s. s" wm_spi_ck_config
  "[(WM_IO_PB_01, 2), (WM_IO_PB_02, 2), (WM_IO_PB_15, 3), (WM_IO_PB_24, 1)]" "TLS_PERIPHERAL_TYPE_LSPI" False
  by unfold_locales
    (simp_all add: wm_spi_ck_config_def Let_def pullup_on_def bitband_clear open_no_clock io_pin_def io_offset_def)

interpretation spi_cs: afsel "\<lambda>_ s. s" wm_spi_cs_config
  "[(WM_IO_PA_00, 2), (WM_IO_PB_04, 1), (WM_IO_PB_14, 3), (WM_IO_PB_23, 1)]" "0" False
  by unfold_locales
    (simp_all add: wm_spi_cs_config_def Let_def pullup_on_def bitband_clear open_no_clock io_pin_def io_offset_def)

interpretation spi_di: afsel "\<lambda>_ s. s" wm_spi_di_config
  "[(WM_IO_PB_00, 2), (WM_IO_PB_03, 2), (WM_IO_PB_16, 3), (WM_IO_PB_25, 1)]" "0" False
  by unfold_locales
    (simp_all add: wm_spi_di_config_def Let_def pullup_on_def bitband_clear open_no_clock io_pin_def io_offset_def)

interpretation spi_do: afsel "\<lambda>_ s. s" wm_spi_do_config
  "[(WM_IO_PA_07, 2), (WM_IO_PB_05, 1), (WM_IO_PB_17, 3), (WM_IO_PB_26, 1)]" "0" False
  by unfold_locales
    (simp_all add: wm_spi_do_config_def Let_def pullup_on_def bitband_clear open_no_clock io_pin_def io_offset_def)

interpretation uart0_tx: afsel "\<lambda>_ s. s" wm_uart0_tx_config
  "[(WM_IO_PB_19, 1), (WM_IO_PB_27, 2)]" "TLS_PERIPHERAL_TYPE_UART0" False
  by unfold_locales
    (simp_all add: wm_uart0_tx_config_def Let_def pullup_on_def bitband_clear open_no_clock io_pin_def io_offset_def)

interpretation uart0_rx: afsel "\<lambda>_ s. s" wm_uart0_rx_config
  "[(WM_IO_PB_20, 1)]" "TLS_PERIPHERAL_TYPE_UART0" True
  by unfold_locales
    (simp_all add: wm_uart0_rx_config_def Let_def pullup_on_def bitband_clear open_no_clock io_pin_def io_offset_def)

interpretation uart1_tx: afsel "\<lambda>_ s. s" wm_uart1_tx_config
  "[(WM_IO_PB_06, 1)]" "TLS_PERIPHERAL_TYPE_UART1" False
  by unfold_locales
    (simp_all add: wm_uart1_tx_config_def Let_def pullup_on_def bitband_clear open_no_clock io_pin_def io_offset_def)

interpretation uart1_rx: afsel "\<lambda>_ s. s" wm_uart1_rx_config
  "[(WM_IO_PB_07, 1), (WM_IO_PB_16, 4)]" "TLS_PERIPHERAL_TYPE_UART1" True
  by unfold_locales
    (simp_all add: wm_uart1_rx_config_def Let_def pullup_on_def bitband_clear open_no_clock io_pin_def io_offset_def)

interpretation uart1_rts: afsel "\<lambda>_ s. s" wm_uart1_rts_config
  "[(WM_IO_PB_19, 3), (WM_IO_PA_02, 1)]" "TLS_PERIPHERAL_TYPE_UART1" False
  by unfold_locales
    (simp_all add: wm_uart1_rts_config_def Let_def pullup_on_def bitband_clear open_no_clock io_pin_def io_offset_def)

interpretation uart1_cts: afsel "\<lambda>_ s. s" wm_uart1_cts_config
  "[(WM_IO_PB_20, 3), (WM_IO_PA_03, 1)]" "TLS_PERIPHERAL_TYPE_UART1" False
  by unfold_locales
    (simp_all add: wm_uart1_cts_config_def Let_def pullup_on_def bitband_clear open_no_clock io_pin_def io_offset_def)

interpretation uart2_tx_scio: afsel "\<lambda>_ s. s" wm_uart2_tx_scio_config
  "[(WM_IO_PB_02, 3), (WM_IO_PA_02, 2)]" "TLS_PERIPHERAL_TYPE_UART2" False
  by unfold_locales
    (simp_all add: wm_uart2_tx_scio_config_def Let_def pullup_on_def bitband_clear open_no_clock io_pin_def io_offset_def)

interpretation uart2_rx: afsel "\<lambda>_ s. s" wm_uart2_rx_config
  "[(WM_IO_PB_03, 3), (WM_IO_PA_03, 2)]" "TLS_PERIPHERAL_TYPE_UART2" True
  by unfold_locales
    (simp_all add: wm_uart2_rx_config_def Let_def pullup_on_def bitband_clear open_no_clock io_pin_def io_offset_def)

interpretation uart2_rts_scclk: afsel "\<lambda>_ s. s" wm_uart2_rts_scclk_config
  "[(WM_IO_PB_04, 2), (WM_IO_PA_05, 2)]" "TLS_PERIPHERAL_TYPE_UART2" False
  by unfold_locales
    (simp_all add: wm_uart2_rts_scclk_config_def Let_def pullup_on_def bitband_clear open_no_clock io_pin_def io_offset_def)

interpretation uart2_cts: afsel "\<lambda>_ s. s" wm_uart2_cts_config
  "[(WM_IO_PB_05, 2), (WM_IO_PA_06, 2)]" "TLS_PERIPHERAL_TYPE_UART2" False
  by unfold_locales
    (simp_all add: wm_uart2_cts_config_def Let_def pullup_on_def bitband_clear open_no_clock io_pin_def io_offset_def)

interpretation uart3_tx: afsel "\<lambda>_ s. s" wm_uart3_tx_config
  "[(WM_IO_PB_00, 3), (WM_IO_PA_05, 1)]" "TLS_PERIPHERAL_TYPE_UART3" False
  by unfold_locales
    (simp_all add: wm_uart3_tx_config_def Let_def pullup_on_def bitband_clear open_no_clock io_pin_def io_offset_def)

interpretation uart3_rx: afsel "\<lambda>_ s. s" wm_uart3_rx_config
  "[(WM_IO_PB_01, 3), (WM_IO_PA_06, 1)]" "TLS_PERIPHERAL_TYPE_UART3" True
  by unfold_locales
    (simp_all add: wm_uart3_rx_config_def Let_def pullup_on_def bitband_clear open_no_clock io_pin_def io_offset_def)

interpretation uart3_rts: afsel "\<lambda>_ s. s" wm_uart3_rts_config
  "[(WM_IO_PA_02, 4)]" "TLS_PERIPHERAL_TYPE_UART3" False
  by unfold_locales
    (simp_all add: wm_uart3_rts_config_def Let_def pullup_on_def bitband_clear open_no_clock io_pin_def io_offset_def)

interpretation uart3_cts: afsel "\<lambda>_ s. s" wm_uart3_cts_config
  "[(WM_IO_PA_03, 4)]" "TLS_PERIPHERAL_TYPE_UART3" False
  by unfold_locales
    (simp_all add: wm_uart3_cts_config_def Let_def pullup_on_def bitband_clear open_no_clock io_pin_def io_offset_def)

interpretation uart4_tx: afsel "\<lambda>_ s. s" wm_uart4_tx_config
  "[(WM_IO_PB_04, 3), (WM_IO_PA_08, 2)]" "TLS_PERIPHERAL_TYPE_UART4" False
  by unfold_locales
    (simp_all add: wm_uart4_tx_config_def Let_def pullup_on_def bitband_clear open_no_clock io_pin_def io_offset_def)

interpretation uart4_rx: afsel "\<lambda>_ s. s" wm_uart4_rx_config
  "[(WM_IO_PB_05, 3), (WM_IO_PA_09, 2)]" "TLS_PERIPHERAL_TYPE_UART4" True
  by unfold_locales
    (simp_all add: wm_uart4_rx_config_def Let_def pullup_on_def bitband_clear open_no_clock io_pin_def io_offset_def)

interpretation uart4_rts: afsel "\<lambda>_ s. s" wm_uart4_rts_config
  "[(WM_IO_PA_05, 4), (WM_IO_PA_10, 2)]" "TLS_PERIPHERAL_TYPE_UART4" False
  by unfold_locales
    (simp_all add: wm_uart4_rts_config_def Let_def pullup_on_def bitband_clear open_no_clock io_pin_def io_offset_def)

interpretation uart4_cts: afsel "\<lambda>_ s. s" wm_uart4_cts_config
  "[(WM_IO_PA_06, 4), (WM_IO_PA_11, 2)]" "TLS_PERIPHERAL_TYPE_UART4" False
  by unfold_locales
    (simp_all add: wm_uart4_cts_config_def Let_def pullup_on_def bitband_clear open_no_clock io_pin_def io_offset_def)

interpretation uart5_tx: afsel "\<lambda>_ s. s" wm_uart5_tx_config
  "[(WM_IO_PA_12, 2), (WM_IO_PA_08, 3), (WM_IO_PB_18, 1)]" "TLS_PERIPHERAL_TYPE_UART5" False
  by unfold_locales
    (simp_all add: wm_uart5_tx_config_def Let_def pullup_on_def bitband_clear open_no_clock io_pin_def io_offset_def)

interpretation uart5_rx: afsel "\<lambda>_ s. s" wm_uart5_rx_config
  "[(WM_IO_PA_13, 2), (WM_IO_PA_09, 3), (WM_IO_PB_17, 1)]" "TLS_PERIPHERAL_TYPE_UART5" True
  by unfold_locales
    (simp_all add: wm_uart5_rx_config_def Let_def pullup_on_def bitband_clear open_no_clock io_pin_def io_offset_def)

interpretation uart5_rts: afsel "\<lambda>_ s. s" wm_uart5_rts_config
  "[(WM_IO_PB_12, 3), (WM_IO_PA_14, 2)]" "TLS_PERIPHERAL_TYPE_UART5" False
  by unfold_locales
    (simp_all add: wm_uart5_rts_config_def Let_def pullup_on_def bitband_clear open_no_clock io_pin_def io_offset_def)

interpretation uart5_cts: afsel "\<lambda>_ s. s" wm_uart5_cts_config
  "[(WM_IO_PB_13, 3), (WM_IO_PA_15, 2)]" "TLS_PERIPHERAL_TYPE_UART5" False
  by unfold_locales
    (simp_all add: wm_uart5_cts_config_def Let_def pullup_on_def bitband_clear open_no_clock io_pin_def io_offset_def)

interpretation i2s_ck: afsel "\<lambda>_ s. s" wm_i2s_ck_config
  "[(WM_IO_PA_04, 4), (WM_IO_PB_08, 1), (WM_IO_PA_08, 4), (WM_IO_PB_12, 4)]" "TLS_PERIPHERAL_TYPE_I2S" False
  by unfold_locales
    (simp_all add: wm_i2s_ck_config_def Let_def pullup_on_def bitband_clear open_no_clock io_pin_def io_offset_def)

interpretation i2s_ws: afsel "\<lambda>_ s. s" wm_i2s_ws_config
  "[(WM_IO_PA_01, 4), (WM_IO_PB_09, 1), (WM_IO_PA_09, 4), (WM_IO_PB_13, 4)]" "TLS_PERIPHERAL_TYPE_I2S" False
  by unfold_locales
    (simp_all add: wm_i2s_ws_config_def Let_def pullup_on_def bitband_clear open_no_clock io_pin_def io_offset_def)

interpretation i2s_do: afsel "\<lambda>_ s. s" wm_i2s_do_config
  "[(WM_IO_PA_00, 4), (WM_IO_PB_11, 1), (WM_IO_PA_10, 4), (WM_IO_PB_14, 4)]" "TLS_PERIPHERAL_TYPE_I2S" False
  by unfold_locales
    (simp_all add: wm_i2s_do_config_def Let_def pullup_on_def bitband_clear open_no_clock io_pin_def io_offset_def)

interpretation i2s_di: afsel "\<lambda>_ s. s" wm_i2s_di_config
  "[(WM_IO_PA_07, 4), (WM_IO_PB_10, 1), (WM_IO_PA_11, 4), (WM_IO_PB_15, 4)]" "TLS_PERIPHERAL_TYPE_I2S" False
  by unfold_locales
    (simp_all add: wm_i2s_di_config_def Let_def pullup_on_def bitband_clear open_no_clock io_pin_def io_offset_def)

interpretation i2s_mclk: afsel "\<lambda>_ s. s" wm_i2s_mclk_config
  "[(WM_IO_PA_00, 1), (WM_IO_PA_07, 3), (WM_IO_PB_17, 4)]" "TLS_PERIPHERAL_TYPE_I2S" False
  by unfold_locales
    (simp_all add: wm_i2s_mclk_config_def Let_def pullup_on_def bitband_clear open_no_clock io_pin_def io_offset_def)

interpretation i2s_extclk: afsel "\<lambda>_ s. s" wm_i2s_extclk_config
  "[(WM_IO_PA_07, 3), (WM_IO_PB_17, 4)]" "TLS_PERIPHERAL_TYPE_I2S" False
  by unfold_locales
    (simp_all add: wm_i2s_extclk_config_def Let_def pullup_on_def bitband_clear open_no_clock io_pin_def io_offset_def)

interpretation i2c_scl: afsel "\<lambda>name. tls_gpio_cfg name WM_GPIO_DIR_OUTPUT WM_GPIO_ATTR_PULLHIGH" wm_i2c_scl_config
  "[(WM_IO_PA_01, 2), (WM_IO_PB_20, 4)]" "TLS_PERIPHERAL_TYPE_I2C" False
  by unfold_locales
    (simp_all add: wm_i2c_scl_config_def Let_def pullup_on_def bitband_clear open_no_clock io_pin_def io_offset_def)

interpretation i2c_sda: afsel "\<lambda>name. tls_gpio_cfg name WM_GPIO_DIR_OUTPUT WM_GPIO_ATTR_PULLHIGH" wm_i2c_sda_config
  "[(WM_IO_PA_04, 2), (WM_IO_PB_19, 4)]" "TLS_PERIPHERAL_TYPE_I2C" False
  by unfold_locales
    (simp_all add: wm_i2c_sda_config_def Let_def pullup_on_def bitband_clear open_no_clock io_pin_def io_offset_def)

interpretation pwm0: afsel "\<lambda>_ s. s" wm_pwm0_config
  "[(WM_IO_PB_00, 1), (WM_IO_PB_19, 2), (WM_IO_PB_12, 2), (WM_IO_PA_02, 3), (WM_IO_PA_10, 3)]" "TLS_PERIPHERAL_TYPE_PWM" False
  by unfold_locales
    (simp_all add: wm_pwm0_config_def Let_def pullup_on_def bitband_clear open_no_clock io_pin_def io_offset_def)

interpretation pwm1: afsel "\<lambda>_ s. s" wm_pwm1_config
  "[(WM_IO_PB_01, 1), (WM_IO_PB_20, 2), (WM_IO_PA_03, 3), (WM_IO_PA_11, 3), (WM_IO_PB_13, 2)]" "TLS_PERIPHERAL_TYPE_PWM" False
  by unfold_locales
    (simp_all add: wm_pwm1_config_def Let_def pullup_on_def bitband_clear open_no_clock io_pin_def io_offset_def)

interpretation pwm2: afsel "\<lambda>_ s. s" wm_pwm2_config
  "[(WM_IO_PA_00, 3), (WM_IO_PB_02, 1), (WM_IO_PA_12, 3), (WM_IO_PB_14, 2), (WM_IO_PB_24, 2)]" "TLS_PERIPHERAL_TYPE_PWM" False
  by unfold_locales
    (simp_all add: wm_pwm2_config_def Let_def pullup_on_def bitband_clear open_no_clock io_pin_def io_offset_def)

interpretation pwm3: afsel "\<lambda>_ s. s" wm_pwm3_config
  "[(WM_IO_PA_01, 3), (WM_IO_PB_03, 1), (WM_IO_PA_13, 3), (WM_IO_PB_15, 2), (WM_IO_PB_25, 2)]" "TLS_PERIPHERAL_TYPE_PWM" False
  by unfold_locales
    (simp_all add: wm_pwm3_config_def Let_def pullup_on_def bitband_clear open_no_clock io_pin_def io_offset_def)

interpretation pwm4: afsel "\<lambda>_ s. s" wm_pwm4_config
  "[(WM_IO_PA_04, 3), (WM_IO_PA_07, 1), (WM_IO_PA_14, 3), (WM_IO_PB_16, 2), (WM_IO_PB_26, 2)]" "TLS_PERIPHERAL_TYPE_PWM" False
  by unfold_locales
    (simp_all add: wm_pwm4_config_def Let_def pullup_on_def bitband_clear open_no_clock io_pin_def io_offset_def)

interpretation pwmbrk: afsel "\<lambda>_ s. s" wm_pwmbrk_config
  "[(WM_IO_PB_08, 3), (WM_IO_PA_05, 3), (WM_IO_PA_08, 1), (WM_IO_PA_15, 3), (WM_IO_PB_17, 2)]" "TLS_PERIPHERAL_TYPE_PWM" False
  by unfold_locales
    (simp_all add: wm_pwmbrk_config_def Let_def pullup_on_def bitband_clear open_no_clock io_pin_def io_offset_def)

section \<open>Groups of pins\<close>

text \<open>A group function configures its pins one after the other.\<close>

definition io_cfg_set_all :: "(tls_io_name \<times> u8) list \<Rightarrow> 'a io_state_scheme \<Rightarrow> 'a io_state_scheme" where
  "io_cfg_set_all = fold (\<lambda>(name, opt). tls_io_cfg_set name opt)"

lemma set_all_other:
  "list_all (\<lambda>(name, opt). opt \<in> {1, 2, 3, 4, 6}) ps \<Longrightarrow> name \<notin> fst ` set ps \<Longrightarrow>
     tls_io_cfg_get name (io_cfg_set_all ps s) = tls_io_cfg_get name s"
  by (induction ps arbitrary: s) (auto simp: io_cfg_set_all_def set_other_pin)

lemma get_set_option:
  "name < 48 \<Longrightarrow> opt \<in> {1, 2, 3, 4, 6} \<Longrightarrow> tls_io_cfg_get name (tls_io_cfg_set name opt s) = opt"
  by (auto simp: tls_io_cfg_set_def get_set)

lemma set_all_get:
  assumes "list_all (\<lambda>(name, opt). name < 48 \<and> opt \<in> {1, 2, 3, 4, 6}) ps" "distinct (map fst ps)"
    "(name, opt) \<in> set ps"
  shows "tls_io_cfg_get name (io_cfg_set_all ps s) = opt"
  using assms
proof (induction ps arbitrary: s)
  case (Cons p ps)
  obtain n v where p: "p = (n, v)" by (cases p)
  have later: "io_cfg_set_all (p # ps) s = io_cfg_set_all ps (tls_io_cfg_set n v s)"
    by (simp add: io_cfg_set_all_def p)
  show ?case
  proof (cases "(name, opt) = p")
    case True
    moreover from Cons.prems(1) have "list_all (\<lambda>(name, opt). opt \<in> {1, 2, 3, 4, 6}) ps"
      by (auto simp: list_all_iff)
    moreover from True Cons.prems(2) p have "name \<notin> fst ` set ps" by simp
    ultimately show ?thesis
      using Cons.prems(1) p unfolding later by (simp add: set_all_other get_set_option)
  next
    case False
    with Cons.prems show ?thesis by (auto simp: later intro!: Cons.IH)
  qed
qed simp

lemma group_rows:
  assumes "list_all (\<lambda>(name, opt). name < 48 \<and> opt \<in> {1, 2, 3, 4, 6}) ps" "distinct (map fst ps)"
    "\<And>name. tls_io_cfg_get name t = tls_io_cfg_get name (io_cfg_set_all ps s)"
  shows "tls_io_cfg_get name t = (case map_of ps name of None \<Rightarrow> tls_io_cfg_get name s | Some opt \<Rightarrow> opt)"
proof (cases "map_of ps name")
  case None
  then have "name \<notin> fst ` set ps" by (simp add: map_of_eq_None_iff)
  moreover have "list_all (\<lambda>(name, opt). opt \<in> {1, 2, 3, 4, 6}) ps"
    using assms(1) by (auto simp: list_all_iff)
  ultimately show ?thesis by (simp add: assms(3) None set_all_other)
next
  case (Some opt)
  then show ?thesis by (simp add: assms(3) set_all_get [OF assms(1,2) map_of_SomeD])
qed

section \<open>Converter, touch sensor and debug port\<close>

text \<open>The pins of the converter by channel, and those of the touch sensor.\<close>

definition adc_pins :: "(u8 \<times> tls_io_name) list" where
  "adc_pins = [(0, WM_IO_PA_01), (1, WM_IO_PA_04), (2, WM_IO_PA_03), (3, WM_IO_PA_02)]"

definition touch_pins :: "tls_io_name list" where
  "touch_pins = [WM_IO_PA_07, WM_IO_PA_09, WM_IO_PA_10, WM_IO_PB_00, WM_IO_PB_01, WM_IO_PB_02, WM_IO_PB_03, WM_IO_PB_04,
     WM_IO_PB_05, WM_IO_PB_06, WM_IO_PB_07, WM_IO_PB_08, WM_IO_PB_09, WM_IO_PA_12, WM_IO_PA_14]"

lemma adc_config:
  fixes s :: io_state
  shows "wm_adc_config Channel s = (case map_of adc_pins Channel of None \<Rightarrow> s
     | Some name \<Rightarrow> tls_open_peripheral_clock TLS_PERIPHERAL_TYPE_SDADC (tls_io_cfg_set name 6 s))"
    "map_of adc_pins Channel = Some name \<Longrightarrow> name < 48"
  by (auto simp: wm_adc_config_def adc_pins_def Let_def split: if_splits)

lemma adc_routed:
  fixes s :: io_state
  assumes "map_of adc_pins Channel = Some name"
  shows "tls_io_cfg_get name (wm_adc_config Channel s) = 6 \<and>
    regs (wm_adc_config Channel s) HR_CLK_BASE_ADDR = regs s HR_CLK_BASE_ADDR OR TLS_PERIPHERAL_TYPE_SDADC \<and>
    (\<forall>name'. name' \<noteq> name \<longrightarrow> tls_io_cfg_get name' (wm_adc_config Channel s) = tls_io_cfg_get name' s)"
  using adc_config(2) [OF assms]
  by (simp add: adc_config(1) assms get_set_option set_other_pin io_set.other_register [OF clk_not_pin_reg])

lemma touch_config:
  fixes s :: io_state
  shows "wm_touch_sensor_config name s =
    (if name \<in> set touch_pins then tls_open_peripheral_clock TLS_PERIPHERAL_TYPE_TOUCH_SENSOR (io_cfg_option7 name s) else s)"
    "name \<in> set touch_pins \<Longrightarrow> name < 48"
  by (auto simp: wm_touch_sensor_config_def touch_pins_def tls_io_cfg_set_def)

text \<open>Another pin after option 7: its option 6 is lost when it is of the same port.\<close>

lemma get_other_option7:
  assumes "name' \<noteq> name"
  shows "tls_io_cfg_get name' (io_cfg_option7 name s) =
    (if tls_io_cfg_get name' s = 6 \<and> io_offset name' = io_offset name then 7 else tls_io_cfg_get name' s)"
  by (simp add: get_bits io7.pin_bit_other [OF assms] option67_set7 assms)

lemma touch_routed:
  fixes s :: io_state
  assumes "name \<in> set touch_pins"
  shows "tls_io_cfg_get name (wm_touch_sensor_config name s) = (if option67 name s then 6 else 7) \<and>
    regs (wm_touch_sensor_config name s) HR_CLK_BASE_ADDR = regs s HR_CLK_BASE_ADDR OR TLS_PERIPHERAL_TYPE_TOUCH_SENSOR \<and>
    (\<forall>name'. name' \<noteq> name \<longrightarrow> tls_io_cfg_get name' (wm_touch_sensor_config name s) =
      (if tls_io_cfg_get name' s = 6 \<and> io_offset name' = io_offset name then 7 else tls_io_cfg_get name' s))"
  using touch_config(2) [OF assms]
  by (simp add: touch_config(1) assms get_set7 get_other_option7 io7.other_register [OF clk_not_pin_reg])

lemma swd_routed:
  fixes s :: io_state
  shows "tls_io_cfg_get name (wm_swd_config enable s) =
    (if name \<notin> {WM_IO_PA_01, WM_IO_PA_04} then tls_io_cfg_get name s
     else if enable then 1 else if pin_bit HR_GPIO_DIR name s then 5 else if option67 name s then 6 else 7)"
proof -
  have g: "n < 48 \<Longrightarrow> tls_io_cfg_get n (tls_io_cfg_set n 1 t) = 1"
    "n < 48 \<Longrightarrow> tls_io_cfg_get n (tls_io_cfg_set n 5 t) = (if pin_bit HR_GPIO_DIR n t then 5 else if option67 n t then 6 else 7)"
    for n and t :: io_state by (simp_all add: tls_io_cfg_set_def get_set1 get_set5)
  have k: "n' \<noteq> n \<Longrightarrow> pin_bit HR_GPIO_DIR n' (tls_io_cfg_set n 5 t) = pin_bit HR_GPIO_DIR n' t"
    "option67 n' (tls_io_cfg_set n 5 t) = option67 n' t" for n n' and t :: io_state
    by (simp_all add: tls_io_cfg_set_def io5.pin_bit_other)
  consider "name = WM_IO_PA_01" | "name = WM_IO_PA_04" | "name \<noteq> WM_IO_PA_01" "name \<noteq> WM_IO_PA_04" by blast
  then show ?thesis
    by cases (simp_all add: wm_swd_config_def Let_def set_other_pin g k del: One_nat_def)
qed

section \<open>Properties of the signal functions\<close>

text \<open>The routing table of the chip: for every signal function the pins it accepts with
  the option of each, the clock it opens, and whether it leaves the pull-up on (the
  receive lines of the UARTs).\<close>

definition afsel_table ::
    "((tls_io_name \<Rightarrow> io_state \<Rightarrow> io_state) \<times> (tls_io_name \<times> u8) list \<times> u32 \<times> bool) list" where
  "afsel_table =
    [(wm_spi_ck_config, [(WM_IO_PB_01, 2), (WM_IO_PB_02, 2), (WM_IO_PB_15, 3), (WM_IO_PB_24, 1)], TLS_PERIPHERAL_TYPE_LSPI, False),
     (wm_spi_cs_config, [(WM_IO_PA_00, 2), (WM_IO_PB_04, 1), (WM_IO_PB_14, 3), (WM_IO_PB_23, 1)], 0, False),
     (wm_spi_di_config, [(WM_IO_PB_00, 2), (WM_IO_PB_03, 2), (WM_IO_PB_16, 3), (WM_IO_PB_25, 1)], 0, False),
     (wm_spi_do_config, [(WM_IO_PA_07, 2), (WM_IO_PB_05, 1), (WM_IO_PB_17, 3), (WM_IO_PB_26, 1)], 0, False),
     (wm_uart0_tx_config, [(WM_IO_PB_19, 1), (WM_IO_PB_27, 2)], TLS_PERIPHERAL_TYPE_UART0, False),
     (wm_uart0_rx_config, [(WM_IO_PB_20, 1)], TLS_PERIPHERAL_TYPE_UART0, True),
     (wm_uart1_tx_config, [(WM_IO_PB_06, 1)], TLS_PERIPHERAL_TYPE_UART1, False),
     (wm_uart1_rx_config, [(WM_IO_PB_07, 1), (WM_IO_PB_16, 4)], TLS_PERIPHERAL_TYPE_UART1, True),
     (wm_uart1_rts_config, [(WM_IO_PB_19, 3), (WM_IO_PA_02, 1)], TLS_PERIPHERAL_TYPE_UART1, False),
     (wm_uart1_cts_config, [(WM_IO_PB_20, 3), (WM_IO_PA_03, 1)], TLS_PERIPHERAL_TYPE_UART1, False),
     (wm_uart2_tx_scio_config, [(WM_IO_PB_02, 3), (WM_IO_PA_02, 2)], TLS_PERIPHERAL_TYPE_UART2, False),
     (wm_uart2_rx_config, [(WM_IO_PB_03, 3), (WM_IO_PA_03, 2)], TLS_PERIPHERAL_TYPE_UART2, True),
     (wm_uart2_rts_scclk_config, [(WM_IO_PB_04, 2), (WM_IO_PA_05, 2)], TLS_PERIPHERAL_TYPE_UART2, False),
     (wm_uart2_cts_config, [(WM_IO_PB_05, 2), (WM_IO_PA_06, 2)], TLS_PERIPHERAL_TYPE_UART2, False),
     (wm_uart3_tx_config, [(WM_IO_PB_00, 3), (WM_IO_PA_05, 1)], TLS_PERIPHERAL_TYPE_UART3, False),
     (wm_uart3_rx_config, [(WM_IO_PB_01, 3), (WM_IO_PA_06, 1)], TLS_PERIPHERAL_TYPE_UART3, True),
     (wm_uart3_rts_config, [(WM_IO_PA_02, 4)], TLS_PERIPHERAL_TYPE_UART3, False),
     (wm_uart3_cts_config, [(WM_IO_PA_03, 4)], TLS_PERIPHERAL_TYPE_UART3, False),
     (wm_uart4_tx_config, [(WM_IO_PB_04, 3), (WM_IO_PA_08, 2)], TLS_PERIPHERAL_TYPE_UART4, False),
     (wm_uart4_rx_config, [(WM_IO_PB_05, 3), (WM_IO_PA_09, 2)], TLS_PERIPHERAL_TYPE_UART4, True),
     (wm_uart4_rts_config, [(WM_IO_PA_05, 4), (WM_IO_PA_10, 2)], TLS_PERIPHERAL_TYPE_UART4, False),
     (wm_uart4_cts_config, [(WM_IO_PA_06, 4), (WM_IO_PA_11, 2)], TLS_PERIPHERAL_TYPE_UART4, False),
     (wm_uart5_tx_config, [(WM_IO_PA_12, 2), (WM_IO_PA_08, 3), (WM_IO_PB_18, 1)], TLS_PERIPHERAL_TYPE_UART5, False),
     (wm_uart5_rx_config, [(WM_IO_PA_13, 2), (WM_IO_PA_09, 3), (WM_IO_PB_17, 1)], TLS_PERIPHERAL_TYPE_UART5, True),
     (wm_uart5_rts_config, [(WM_IO_PB_12, 3), (WM_IO_PA_14, 2)], TLS_PERIPHERAL_TYPE_UART5, False),
     (wm_uart5_cts_config, [(WM_IO_PB_13, 3), (WM_IO_PA_15, 2)], TLS_PERIPHERAL_TYPE_UART5, False),
     (wm_i2s_ck_config, [(WM_IO_PA_04, 4), (WM_IO_PB_08, 1), (WM_IO_PA_08, 4), (WM_IO_PB_12, 4)], TLS_PERIPHERAL_TYPE_I2S, False),
     (wm_i2s_ws_config, [(WM_IO_PA_01, 4), (WM_IO_PB_09, 1), (WM_IO_PA_09, 4), (WM_IO_PB_13, 4)], TLS_PERIPHERAL_TYPE_I2S, False),
     (wm_i2s_do_config, [(WM_IO_PA_00, 4), (WM_IO_PB_11, 1), (WM_IO_PA_10, 4), (WM_IO_PB_14, 4)], TLS_PERIPHERAL_TYPE_I2S, False),
     (wm_i2s_di_config, [(WM_IO_PA_07, 4), (WM_IO_PB_10, 1), (WM_IO_PA_11, 4), (WM_IO_PB_15, 4)], TLS_PERIPHERAL_TYPE_I2S, False),
     (wm_i2s_mclk_config, [(WM_IO_PA_00, 1), (WM_IO_PA_07, 3), (WM_IO_PB_17, 4)], TLS_PERIPHERAL_TYPE_I2S, False),
     (wm_i2s_extclk_config, [(WM_IO_PA_07, 3), (WM_IO_PB_17, 4)], TLS_PERIPHERAL_TYPE_I2S, False),
     (wm_i2c_scl_config, [(WM_IO_PA_01, 2), (WM_IO_PB_20, 4)], TLS_PERIPHERAL_TYPE_I2C, False),
     (wm_i2c_sda_config, [(WM_IO_PA_04, 2), (WM_IO_PB_19, 4)], TLS_PERIPHERAL_TYPE_I2C, False),
     (wm_pwm0_config, [(WM_IO_PB_00, 1), (WM_IO_PB_19, 2), (WM_IO_PB_12, 2), (WM_IO_PA_02, 3), (WM_IO_PA_10, 3)], TLS_PERIPHERAL_TYPE_PWM, False),
     (wm_pwm1_config, [(WM_IO_PB_01, 1), (WM_IO_PB_20, 2), (WM_IO_PA_03, 3), (WM_IO_PA_11, 3), (WM_IO_PB_13, 2)], TLS_PERIPHERAL_TYPE_PWM, False),
     (wm_pwm2_config, [(WM_IO_PA_00, 3), (WM_IO_PB_02, 1), (WM_IO_PA_12, 3), (WM_IO_PB_14, 2), (WM_IO_PB_24, 2)], TLS_PERIPHERAL_TYPE_PWM, False),
     (wm_pwm3_config, [(WM_IO_PA_01, 3), (WM_IO_PB_03, 1), (WM_IO_PA_13, 3), (WM_IO_PB_15, 2), (WM_IO_PB_25, 2)], TLS_PERIPHERAL_TYPE_PWM, False),
     (wm_pwm4_config, [(WM_IO_PA_04, 3), (WM_IO_PA_07, 1), (WM_IO_PA_14, 3), (WM_IO_PB_16, 2), (WM_IO_PB_26, 2)], TLS_PERIPHERAL_TYPE_PWM, False),
     (wm_pwmbrk_config, [(WM_IO_PB_08, 3), (WM_IO_PA_05, 3), (WM_IO_PA_08, 1), (WM_IO_PA_15, 3), (WM_IO_PB_17, 2)], TLS_PERIPHERAL_TYPE_PWM, False)]"

lemmas afsel_contracts =
  spi_ck.contract spi_cs.contract spi_di.contract spi_do.contract uart0_tx.contract
  uart0_rx.contract uart1_tx.contract uart1_rx.contract uart1_rts.contract uart1_cts.contract
  uart2_tx_scio.contract uart2_rx.contract uart2_rts_scclk.contract uart2_cts.contract
  uart3_tx.contract uart3_rx.contract uart3_rts.contract uart3_cts.contract uart4_tx.contract
  uart4_rx.contract uart4_rts.contract uart4_cts.contract uart5_tx.contract uart5_rx.contract
  uart5_rts.contract uart5_cts.contract i2s_ck.contract i2s_ws.contract i2s_do.contract
  i2s_di.contract i2s_mclk.contract i2s_extclk.contract i2c_scl.contract i2c_sda.contract
  pwm0.contract pwm1.contract pwm2.contract pwm3.contract pwm4.contract pwmbrk.contract

text \<open>C32. The functions of the file that route one signal, for every pin.
  The forty functions with a row in \<open>afsel_table\<close>: a pin of the row is read back with the row's option, the clock
  of the row is opened and no other clock closed (the rows of the SPI lines CS, DI and DO have no clock:
  those functions open none), the configuration of every other pin is kept, and the pull-up is on
  exactly for the rows that ask for it; a pin outside the row leaves the whole state as it was.
  The converter: the pin of a channel reads back as option 6, its clock is opened, every other pin is
  kept, and a channel over 3 has no effect.
  The touch sensor: for one of its pins the clock is opened and the pin reads back as 7, or as 6 when it
  was recorded as option 6 before; the other pins are kept, except that those of the same port with option 6
  read back as 7 from then on; any other pin has no effect.
  The debug port: its two pins read back as option 1 when it is enabled, as 5, 6 or 7 by their direction and
  record when it is disabled, and every other pin is kept.\<close>

theorem afsel_all_routed:
  "list_all (\<lambda>(cfg, opts, dev, pullup). afsel_contract cfg opts dev pullup) afsel_table \<and>
   (\<forall>Channel (s :: io_state). case map_of adc_pins Channel of
      None \<Rightarrow> wm_adc_config Channel s = s
    | Some name \<Rightarrow> tls_io_cfg_get name (wm_adc_config Channel s) = 6 \<and>
        regs (wm_adc_config Channel s) HR_CLK_BASE_ADDR = regs s HR_CLK_BASE_ADDR OR TLS_PERIPHERAL_TYPE_SDADC \<and>
        (\<forall>name'. name' \<noteq> name \<longrightarrow> tls_io_cfg_get name' (wm_adc_config Channel s) = tls_io_cfg_get name' s)) \<and>
   (\<forall>name (s :: io_state). if name \<notin> set touch_pins then wm_touch_sensor_config name s = s
     else tls_io_cfg_get name (wm_touch_sensor_config name s) = (if option67 name s then 6 else 7) \<and>
        regs (wm_touch_sensor_config name s) HR_CLK_BASE_ADDR = regs s HR_CLK_BASE_ADDR OR TLS_PERIPHERAL_TYPE_TOUCH_SENSOR \<and>
        (\<forall>name'. name' \<noteq> name \<longrightarrow> tls_io_cfg_get name' (wm_touch_sensor_config name s) =
          (if tls_io_cfg_get name' s = 6 \<and> io_offset name' = io_offset name then 7 else tls_io_cfg_get name' s))) \<and>
   (\<forall>name enable (s :: io_state). tls_io_cfg_get name (wm_swd_config enable s) =
     (if name \<notin> {WM_IO_PA_01, WM_IO_PA_04} then tls_io_cfg_get name s
      else if enable then 1 else if pin_bit HR_GPIO_DIR name s then 5 else if option67 name s then 6 else 7))"
proof (intro conjI allI)
  show "list_all (\<lambda>(cfg, opts, dev, pullup). afsel_contract cfg opts dev pullup) afsel_table"
    unfolding afsel_table_def list.pred_inject prod.case
    by (intro conjI TrueI afsel_contracts list.pred_inject(1))
  fix Channel name enable and s :: io_state
  show "case map_of adc_pins Channel of
      None \<Rightarrow> wm_adc_config Channel s = s
    | Some name \<Rightarrow> tls_io_cfg_get name (wm_adc_config Channel s) = 6 \<and>
        regs (wm_adc_config Channel s) HR_CLK_BASE_ADDR = regs s HR_CLK_BASE_ADDR OR TLS_PERIPHERAL_TYPE_SDADC \<and>
        (\<forall>name'. name' \<noteq> name \<longrightarrow> tls_io_cfg_get name' (wm_adc_config Channel s) = tls_io_cfg_get name' s)"
    using adc_routed [of Channel _ s] by (auto simp: adc_config(1) split: option.splits)
  show "if name \<notin> set touch_pins then wm_touch_sensor_config name s = s
     else tls_io_cfg_get name (wm_touch_sensor_config name s) = (if option67 name s then 6 else 7) \<and>
        regs (wm_touch_sensor_config name s) HR_CLK_BASE_ADDR = regs s HR_CLK_BASE_ADDR OR TLS_PERIPHERAL_TYPE_TOUCH_SENSOR \<and>
        (\<forall>name'. name' \<noteq> name \<longrightarrow> tls_io_cfg_get name' (wm_touch_sensor_config name s) =
          (if tls_io_cfg_get name' s = 6 \<and> io_offset name' = io_offset name then 7 else tls_io_cfg_get name' s))"
    using touch_routed [of name s] by (cases "name \<in> set touch_pins") (simp_all add: touch_config(1))
  show "tls_io_cfg_get name (wm_swd_config enable s) =
     (if name \<notin> {WM_IO_PA_01, WM_IO_PA_04} then tls_io_cfg_get name s
      else if enable then 1 else if pin_bit HR_GPIO_DIR name s then 5 else if option67 name s then 6 else 7)"
    by (rule swd_routed)
qed

theorem afsel_all_routed_witness:
  "tls_io_cfg_get WM_IO_PA_01 (wm_adc_config 0 io_reset) = 6 \<and>
   tls_io_cfg_get WM_IO_PA_02 (wm_adc_config 0 io_reset) = tls_io_cfg_get WM_IO_PA_02 io_reset \<and>
   tls_io_cfg_get WM_IO_PB_08 (wm_touch_sensor_config WM_IO_PA_07 (tls_io_cfg_set WM_IO_PB_08 6 io_reset)) = 6 \<and>
   tls_io_cfg_get WM_IO_PB_08 (wm_touch_sensor_config WM_IO_PB_09 (tls_io_cfg_set WM_IO_PB_08 6 io_reset)) = 7"
proof -
  let ?s = "tls_io_cfg_set WM_IO_PB_08 6 io_reset"
  have 6: "tls_io_cfg_get WM_IO_PB_08 ?s = 6" by (rule get_set_option) simp_all
  note adc = afsel_all_routed [THEN conjunct2, THEN conjunct1, rule_format, of 0 io_reset]
  note touch = afsel_all_routed [THEN conjunct2, THEN conjunct2, THEN conjunct1, rule_format, of _ ?s]
  show ?thesis
    using adc touch [of WM_IO_PA_07] touch [of WM_IO_PB_09] 6
    by (simp add: adc_pins_def touch_pins_def io_offset_def del: One_nat_def)
qed

text \<open>The two I2C lines are configured with a pull-up first and with their function
  next, and the second call switches the pull-up off again: on every pin they accept, the
  pull-up is disabled afterwards.\<close>

theorem i2c_pullup_lost:
  fixes s :: io_state
  shows "(scl \<in> {WM_IO_PA_01, WM_IO_PB_20} \<longrightarrow> pin_bit HR_GPIO_PULLUP_EN scl (wm_i2c_scl_config scl s))
    \<and> (sda \<in> {WM_IO_PA_04, WM_IO_PB_19} \<longrightarrow> pin_bit HR_GPIO_PULLUP_EN sda (wm_i2c_sda_config sda s))"
  using i2c_scl.accepted_pullup [of scl _ s] i2c_sda.accepted_pullup [of sda _ s] by auto

theorem i2c_pullup_lost_witness:
  "pin_bit HR_GPIO_PULLUP_EN WM_IO_PA_01 (wm_i2c_scl_config WM_IO_PA_01 io_reset)
   \<and> pin_bit HR_GPIO_PULLUP_EN WM_IO_PB_19 (wm_i2c_sda_config WM_IO_PB_19 io_reset)"
  using i2c_pullup_lost [of WM_IO_PA_01 io_reset WM_IO_PB_19] by simp

text \<open>The pins of each group function by its selector.\<close>

definition group_table :: "((u8 \<Rightarrow> io_state \<Rightarrow> io_state) \<times> u8 \<times> (tls_io_name \<times> u8) list) list" where
  "group_table =
    [(wm_hspi_gpio_config, 0, [(WM_IO_PB_06, 3), (WM_IO_PB_07, 3), (WM_IO_PB_09, 3), (WM_IO_PB_10, 3), (WM_IO_PB_11, 3)]),
     (wm_hspi_gpio_config, 1, [(WM_IO_PB_12, 1), (WM_IO_PB_13, 1), (WM_IO_PB_14, 1), (WM_IO_PB_15, 1), (WM_IO_PB_16, 1)]),
     (wm_sdio_host_config, 0, [(WM_IO_PB_06, 2), (WM_IO_PB_07, 2), (WM_IO_PB_08, 2), (WM_IO_PB_09, 2), (WM_IO_PB_10, 2), (WM_IO_PB_11, 2)]),
     (wm_sdio_host_config, 1, [(WM_IO_PA_09, 1), (WM_IO_PA_10, 1), (WM_IO_PA_11, 1), (WM_IO_PA_12, 1), (WM_IO_PA_13, 1), (WM_IO_PA_14, 1)]),
     (wm_sdio_slave_config, 0, [(WM_IO_PB_06, 4), (WM_IO_PB_07, 4), (WM_IO_PB_08, 4), (WM_IO_PB_09, 4), (WM_IO_PB_10, 4), (WM_IO_PB_11, 4)]),
     (wm_psram_config, 0, [(WM_IO_PB_00, 4), (WM_IO_PB_01, 4), (WM_IO_PB_02, 4), (WM_IO_PB_03, 4), (WM_IO_PB_04, 4), (WM_IO_PB_05, 4)]),
     (wm_psram_config, 1, [(WM_IO_PA_15, 1), (WM_IO_PB_27, 1), (WM_IO_PB_02, 4), (WM_IO_PB_03, 4), (WM_IO_PB_04, 4), (WM_IO_PB_05, 4)]),
     (wm_psram_config, 2, [(WM_IO_PA_15, 1), (WM_IO_PB_27, 1), (WM_IO_PB_28, 1), (WM_IO_PB_29, 1), (WM_IO_PB_30, 1), (WM_IO_PB_31, 1)])]"

lemma group_unfold:
  "io_cfg_set_all [(a, u), (b, v), (c, w), (d, x), (e, y)] s =
     tls_io_cfg_set e y (tls_io_cfg_set d x (tls_io_cfg_set c w (tls_io_cfg_set b v (tls_io_cfg_set a u s))))"
  "io_cfg_set_all [(a, u), (b, v), (c, w), (d, x), (e, y), (f, z)] s =
     tls_io_cfg_set f z (tls_io_cfg_set e y (tls_io_cfg_set d x (tls_io_cfg_set c w (tls_io_cfg_set b v (tls_io_cfg_set a u s)))))"
  by (simp_all add: io_cfg_set_all_def)

text \<open>The group functions (high-speed SPI, SDIO host and slave, PSRAM): after the call
  every pin of the selected row is read back with the option of the row and every other
  pin with the option it had.\<close>

theorem group_all_routed:
  "list_all (\<lambda>(cfg, numsel, ps). \<forall>name s. tls_io_cfg_get name (cfg numsel s) =
      (case map_of ps name of None \<Rightarrow> tls_io_cfg_get name s | Some opt \<Rightarrow> opt)) group_table"
  unfolding group_table_def list.pred_inject prod.case
  by (intro conjI allI list.pred_inject(1) group_rows)
    (simp_all add: group_unfold wm_hspi_gpio_config_def wm_sdio_host_config_def wm_sdio_slave_config_def
      wm_psram_config_def Let_def)

end
