(* ===== verification/Slots.thy ===== *)
theory Slots
  imports Mcu_Prelude
begin

text \<open>
  The interface of a driver that hands out numbered hardware slots: the timer driver
  (six timers) and the DMA driver (eight channels) both keep a bitmap of used slots,
  give out a free one on request and take it back on release. The laws say what an
  allocation and a release do to the set of used slots in a well-formed state; from
  them follows what clients rely on: live handles are pairwise different, at most
  \<open>cap\<close> of them exist, and a request fails only when all are in use.
\<close>

text \<open>A client holds handles it got from the driver: the list holds the slots that were
  allocated and not released yet.\<close>

inductive client ::
    "('c \<Rightarrow> 's \<Rightarrow> (nat \<times> 's) option) \<Rightarrow> (nat \<Rightarrow> 's \<Rightarrow> 's) \<Rightarrow> 's \<Rightarrow> nat list \<Rightarrow> 's \<Rightarrow> nat list \<Rightarrow> bool"
  for alloc release s hs where
  start: "client alloc release s hs s hs"
| got: "client alloc release s hs s' hs' \<Longrightarrow> alloc c s' = Some (i, s'') \<Longrightarrow> client alloc release s hs s'' (i # hs')"
| refused: "client alloc release s hs s' hs' \<Longrightarrow> alloc c s' = None \<Longrightarrow> client alloc release s hs s' hs'"
| released: "client alloc release s hs s' hs' \<Longrightarrow> i \<in> set hs' \<Longrightarrow>
    client alloc release s hs (release i s') (remove1 i hs')"

locale slots =
  fixes good :: "'s \<Rightarrow> bool"
    and used :: "'s \<Rightarrow> nat set"
    and alloc :: "'c \<Rightarrow> 's \<Rightarrow> (nat \<times> 's) option"
    and release :: "nat \<Rightarrow> 's \<Rightarrow> 's"
    and cap :: nat
  assumes alloc_Some: "good s \<Longrightarrow> alloc c s = Some (i, s') \<Longrightarrow>
      good s' \<and> i < cap \<and> i \<notin> used s \<and> used s' = insert i (used s)"
    and alloc_None: "good s \<Longrightarrow> alloc c s = None \<Longrightarrow> {..<cap} \<subseteq> used s"
    and release_used: "good s \<Longrightarrow> i \<in> used s \<Longrightarrow> good (release i s) \<and> used (release i s) = used s - {i}"
    and used_bound: "good s \<Longrightarrow> used s \<subseteq> {..<cap}"
begin

lemma finite_used: "good s \<Longrightarrow> finite (used s)"
  using used_bound finite_subset by blast

lemma card_used_le: "good s \<Longrightarrow> card (used s) \<le> cap"
  using card_mono [OF _ used_bound, of s] by simp

lemma client_handles:
  assumes "client alloc release s hs s' hs'" "good s" "used s = set hs" "distinct hs"
  shows "good s' \<and> used s' = set hs' \<and> distinct hs'"
  using assms
proof (induction rule: client.induct)
  case (got s' hs' c i s'')
  then show ?case using alloc_Some [of s' c i s''] by auto
next
  case (released s' hs' i)
  then show ?case using release_used [of s' i] by (simp add: set_remove1_eq)
qed auto

lemma client_capacity:
  assumes "client alloc release s hs s' hs'" "good s" "used s = set hs" "distinct hs"
  shows "length hs' \<le> cap"
  using client_handles [OF assms] card_used_le [of s'] by (simp add: distinct_card)

text \<open>A request is refused only when \<open>cap\<close> handles are live.\<close>

lemma refused_when_full:
  assumes "client alloc release s hs s' hs'" "good s" "used s = set hs" "distinct hs" "alloc c s' = None"
  shows "length hs' = cap"
proof -
  have h: "good s'" "used s' = set hs'" "distinct hs'" using client_handles [OF assms(1-4)] by auto
  then have "used s' = {..<cap}" using alloc_None [OF h(1) assms(5)] used_bound by blast
  then have "card (used s') = cap" by simp
  with h show ?thesis by (simp add: distinct_card)
qed

end

end
