(* ===== verification/Timer.thy ===== *)
theory Timer
  imports Slots Cpu_Pmu
begin

text \<open>
  The hardware timers, \<^verbatim>\<open>platform/drivers/timer/wm_timer.c\<close>: six timers that share
  one control and status register of five bits per timer (millisecond unit, one shot,
  enable, interrupt enable, interrupt flag), a used bitmap and a callback table.
  \<open>tls_timer_create\<close> is undefined (\<open>None\<close>) when the clock dividers are zero, as the
  clock decoding it calls is. Timer identifiers below 32 are considered: the
  shift \<^verbatim>\<open>BIT(timer_id)\<close> has no meaning beyond.
\<close>

unbundle bit_operations_syntax

section \<open>Registers and state\<close>

abbreviation (input) "HR_TIMER_CFG \<equiv> 0x40011800 :: nat"
abbreviation (input) "HR_TIMER0_5_CSR \<equiv> 0x40011804 :: nat"
abbreviation (input) "HR_TIMER0_PRD \<equiv> 0x40011808 :: nat"
abbreviation (input) "HR_TIMER0_CNT \<equiv> 0x40011820 :: nat"
abbreviation (input) "TIMER_IRQn \<equiv> 30 :: nat"
abbreviation (input) "TLS_TIMER_ID_MAX \<equiv> 6 :: nat"
abbreviation (input) "WM_TIMER_ID_INVALID \<equiv> 0xFF :: u8"
abbreviation "TLS_TIMER_MS_UNIT n \<equiv> BIT (0 + 5 * n)"
abbreviation "TLS_TIMER_ONE_TIME n \<equiv> BIT (1 + 5 * n)"
abbreviation "TLS_TIMER_EN n \<equiv> BIT (2 + 5 * n)"
abbreviation "TLS_TIMER_INT_EN n \<equiv> BIT (3 + 5 * n)"
abbreviation "TLS_TIMER_INT_CLR n \<equiv> BIT (4 + 5 * n)"

datatype tls_timer_unit = TLS_TIMER_UNIT_US | TLS_TIMER_UNIT_MS

record tls_timer_cfg =
  tc_unit :: tls_timer_unit
  tc_timeout :: u32
  tc_is_repeat :: bool
  tc_callback :: "nat option"
  tc_arg :: u32

record timer_state = mcu +
  timer_context :: "irq_context list"
  wm_timer_bitmap :: u8

definition timer_used :: "nat \<Rightarrow> 'a timer_state_scheme \<Rightarrow> bool" where
  "timer_used i s \<longleftrightarrow> (ucast (wm_timer_bitmap s) :: u32) AND BIT i \<noteq> 0"

section \<open>Operations\<close>

definition timer_irq_callback :: "nat \<Rightarrow> 'a timer_state_scheme \<Rightarrow> cb_call list" where
  "timer_irq_callback timer_id s = run_callback (timer_context s ! timer_id)"

definition TIMER0_5_IRQHandler :: "'a timer_state_scheme \<Rightarrow> cb_call list \<times> 'a timer_state_scheme" where
  "TIMER0_5_IRQHandler s =
     (let timer_csr = tls_reg_read32 HR_TIMER0_5_CSR s;
          s = tls_reg_write32 HR_TIMER0_5_CSR timer_csr s;
          c0 = (if timer_csr AND TLS_TIMER_INT_CLR 0 \<noteq> 0 then timer_irq_callback 0 s else []);
          c1 = (if timer_csr AND TLS_TIMER_INT_CLR 1 \<noteq> 0 then timer_irq_callback 1 s else []);
          c2 = (if timer_csr AND TLS_TIMER_INT_CLR 2 \<noteq> 0 then timer_irq_callback 2 s else []);
          c3 = (if timer_csr AND TLS_TIMER_INT_CLR 3 \<noteq> 0 then timer_irq_callback 3 s else []);
          c4 = (if timer_csr AND TLS_TIMER_INT_CLR 4 \<noteq> 0 then timer_irq_callback 4 s else []);
          c5 = (if timer_csr AND TLS_TIMER_INT_CLR 5 \<noteq> 0 then timer_irq_callback 5 s else [])
      in (c0 @ c1 @ c2 @ c3 @ c4 @ c5, s))"

text \<open>The search loop of \<^verbatim>\<open>tls_timer_create\<close>: the first identifier that is not in use,
  or \<^verbatim>\<open>TLS_TIMER_ID_MAX\<close>.\<close>

function timer_first_free :: "'a timer_state_scheme \<Rightarrow> nat \<Rightarrow> nat" where
  "timer_first_free s i =
     (if i < TLS_TIMER_ID_MAX then
        if \<not> timer_used i s then i else timer_first_free s (i + 1)
      else i)"
  by auto
termination by (relation "measure (\<lambda>(_, i). TLS_TIMER_ID_MAX - i)") auto

declare timer_first_free.simps [simp del]

definition tls_timer_create ::
    "tls_timer_cfg \<Rightarrow> 'a timer_state_scheme \<Rightarrow> (u8 \<times> 'a timer_state_scheme) option" where
  "tls_timer_create cfg s =
     (let i = timer_first_free s 0
      in if TLS_TIMER_ID_MAX = i then Some (WM_TIMER_ID_INVALID, s)
         else
           let s = (if wm_timer_bitmap s = 0 then tls_open_peripheral_clock TLS_PERIPHERAL_TYPE_TIMER s else s);
               s = s\<lparr>wm_timer_bitmap := ucast (ucast (wm_timer_bitmap s) OR BIT i)\<rparr>;
               s = s\<lparr>timer_context := (timer_context s)[i := \<lparr>callback = tc_callback cfg, arg = tc_arg cfg\<rparr>]\<rparr>
           in case tls_sys_clk_get s of
                None \<Rightarrow> None
              | Some sysclk \<Rightarrow>
                  let s = tls_reg_write32 HR_TIMER_CFG (apbclk sysclk - 1) s;
                      timer_csr = tls_reg_read32 HR_TIMER0_5_CSR s;
                      timer_csr = (if \<not> tc_is_repeat cfg then timer_csr OR TLS_TIMER_ONE_TIME i
                                   else timer_csr AND NOT (TLS_TIMER_ONE_TIME i));
                      timer_csr = (if tc_unit cfg = TLS_TIMER_UNIT_MS then timer_csr OR TLS_TIMER_MS_UNIT i
                                   else timer_csr AND NOT (TLS_TIMER_MS_UNIT i));
                      s = tls_reg_write32 HR_TIMER0_5_CSR (timer_csr OR TLS_TIMER_INT_CLR i) s;
                      s = (if tc_timeout cfg \<noteq> 0
                           then tls_reg_write32 (HR_TIMER0_PRD + 4 * i) (tc_timeout cfg) s else s);
                      s = tls_irq_enable TIMER_IRQn s
                  in Some (of_nat i, s))"

definition tls_timer_start :: "nat \<Rightarrow> 'a timer_state_scheme \<Rightarrow> 'a timer_state_scheme" where
  "tls_timer_start timer_id s =
     (if \<not> timer_used timer_id s then s
      else tls_reg_write32 HR_TIMER0_5_CSR
             (tls_reg_read32 HR_TIMER0_5_CSR s OR TLS_TIMER_INT_EN timer_id OR TLS_TIMER_EN timer_id) s)"

definition tls_timer_stop :: "nat \<Rightarrow> 'a timer_state_scheme \<Rightarrow> 'a timer_state_scheme" where
  "tls_timer_stop timer_id s =
     (if \<not> timer_used timer_id s then s
      else let s = reg_or HR_TIMER0_5_CSR (TLS_TIMER_INT_CLR timer_id) s
           in reg_andn HR_TIMER0_5_CSR (TLS_TIMER_EN timer_id) s)"

definition tls_timer_change :: "nat \<Rightarrow> u32 \<Rightarrow> 'a timer_state_scheme \<Rightarrow> 'a timer_state_scheme" where
  "tls_timer_change timer_id newtime s =
     (if \<not> timer_used timer_id s then s
      else let s = tls_timer_stop timer_id s;
               s = (if newtime \<noteq> 0 then tls_reg_write32 (HR_TIMER0_PRD + 4 * timer_id) newtime s else s)
           in tls_timer_start timer_id s)"

definition tls_timer_read :: "nat \<Rightarrow> 'a timer_state_scheme \<Rightarrow> u32" where
  "tls_timer_read timer_id s =
     (if \<not> timer_used timer_id s then 0 else tls_reg_read32 (HR_TIMER0_CNT + 4 * timer_id) s)"

definition tls_timer_destroy :: "nat \<Rightarrow> 'a timer_state_scheme \<Rightarrow> 'a timer_state_scheme" where
  "tls_timer_destroy timer_id s =
     (if \<not> timer_used timer_id s then s
      else
        let s = tls_timer_stop timer_id s;
            s = s\<lparr>timer_context := (timer_context s)[timer_id := \<lparr>callback = None, arg = 0\<rparr>]\<rparr>;
            s = s\<lparr>wm_timer_bitmap := ucast (ucast (wm_timer_bitmap s) AND NOT (BIT timer_id))\<rparr>
        in if wm_timer_bitmap s = 0 then tls_close_peripheral_clock TLS_PERIPHERAL_TYPE_TIMER s else s)"

section \<open>Frames\<close>

lemma timer_used_bit [simp]: "timer_used i s \<longleftrightarrow> bit (wm_timer_bitmap s) i"
proof -
  have "bit (wm_timer_bitmap s) i \<Longrightarrow> i < 8" using bit_imp_le_length [of "wm_timer_bitmap s" i] by simp
  then show ?thesis by (auto simp: timer_used_def and_BIT_eq_0 bit_unsigned_iff)
qed

lemma timer_fields_frame [simp]:
  "wm_timer_bitmap (tls_reg_write32 r v s) = wm_timer_bitmap s"
  "wm_timer_bitmap (reg_or r v s) = wm_timer_bitmap s"
  "wm_timer_bitmap (reg_andn r v s) = wm_timer_bitmap s"
  "wm_timer_bitmap (tls_irq_enable n s) = wm_timer_bitmap s"
  "wm_timer_bitmap (tls_open_peripheral_clock d s) = wm_timer_bitmap s"
  "wm_timer_bitmap (tls_close_peripheral_clock d s) = wm_timer_bitmap s"
  "timer_context (tls_reg_write32 r v s) = timer_context s"
  "timer_context (reg_or r v s) = timer_context s"
  "timer_context (reg_andn r v s) = timer_context s"
  "timer_context (tls_irq_enable n s) = timer_context s"
  "timer_context (tls_open_peripheral_clock d s) = timer_context s"
  "timer_context (tls_close_peripheral_clock d s) = timer_context s"
  by (simp_all add: reg_or_def reg_andn_def tls_reg_write32_def tls_irq_enable_def nvic_def
      tls_open_peripheral_clock_def tls_close_peripheral_clock_def Let_def)

lemma bitmap_set: "bit (ucast (ucast (b :: u8) OR BIT i) :: u8) n \<longleftrightarrow> n < 8 \<and> (bit b n \<or> n = i)"
  by (auto simp: bit_unsigned_iff bit_or_iff bits)

lemma bitmap_clear: "bit (ucast (ucast (b :: u8) AND NOT (BIT i)) :: u8) n \<longleftrightarrow> bit b n \<and> n \<noteq> i"
proof -
  have "bit b n \<Longrightarrow> n < 8" using bit_imp_le_length [of b n] by simp
  then show ?thesis by (auto simp: bit_unsigned_iff bit_and_iff bit_not_iff bits)
qed

lemma first_free_spec:
  "i \<le> 6 \<Longrightarrow> timer_first_free s i = k \<Longrightarrow>
     k \<le> 6 \<and> (\<forall>j. i \<le> j \<and> j < k \<longrightarrow> timer_used j s) \<and> (k < 6 \<longrightarrow> \<not> timer_used k s)"
proof (induction s i arbitrary: k rule: timer_first_free.induct)
  case (1 s i)
  show ?case
  proof (cases "i < 6 \<and> timer_used i s")
    case True
    then have "timer_first_free s (i + 1) = k"
      using 1(3) by (subst (asm) timer_first_free.simps) simp
    with True 1(1) have "k \<le> 6 \<and> (\<forall>j. i + 1 \<le> j \<and> j < k \<longrightarrow> timer_used j s) \<and> (k < 6 \<longrightarrow> \<not> timer_used k s)"
      by simp
    with True show ?thesis by (subst all_from_less) auto
  next
    case False
    with 1(2,3) show ?thesis
      by (subst (asm) timer_first_free.simps) (auto split: if_splits)
  qed
qed

lemmas first_free = first_free_spec [of 0, simplified]

section \<open>Well-formed states\<close>

text \<open>Only the six timers are marked used; a timer not in use has no callback and is not
  running; the clock gate is open exactly while a timer is in use.\<close>

definition timer_en :: "nat \<Rightarrow> 'a mcu_scheme \<Rightarrow> bool" where
  "timer_en i s \<longleftrightarrow> bit (regs s HR_TIMER0_5_CSR) (2 + 5 * i)"

definition timer_inv :: "'a timer_state_scheme \<Rightarrow> bool" where
  "timer_inv s \<longleftrightarrow>
     length (timer_context s) = 6
     \<and> (\<forall>i. bit (wm_timer_bitmap s) i \<longrightarrow> i < 6)
     \<and> (\<forall>i<6. \<not> bit (wm_timer_bitmap s) i \<longrightarrow> timer_context s ! i = \<lparr>callback = None, arg = 0\<rparr>)
     \<and> (\<forall>i<6. timer_en i s \<longrightarrow> bit (wm_timer_bitmap s) i)
     \<and> (bit (regs s HR_CLK_BASE_ADDR) 10 \<longleftrightarrow> wm_timer_bitmap s \<noteq> 0)"

lemma timer_inv_bitmap: "timer_inv s \<Longrightarrow> bit (wm_timer_bitmap s) i \<Longrightarrow> i < 6"
  by (simp add: timer_inv_def)

text \<open>What a successful creation does, field by field.\<close>

definition timer_csr_cfg :: "tls_timer_cfg \<Rightarrow> nat \<Rightarrow> u32 \<Rightarrow> u32" where
  "timer_csr_cfg cfg i csr =
     ((if tc_unit cfg = TLS_TIMER_UNIT_MS
       then (if \<not> tc_is_repeat cfg then csr OR TLS_TIMER_ONE_TIME i else csr AND NOT (TLS_TIMER_ONE_TIME i)) OR TLS_TIMER_MS_UNIT i
       else (if \<not> tc_is_repeat cfg then csr OR TLS_TIMER_ONE_TIME i else csr AND NOT (TLS_TIMER_ONE_TIME i)) AND NOT (TLS_TIMER_MS_UNIT i))
      OR TLS_TIMER_INT_CLR i)"

lemma timer_csr_cfg_bit:
  "i < 6 \<Longrightarrow> bit (timer_csr_cfg cfg i csr) n \<longleftrightarrow>
     (if n = 5 * i then tc_unit cfg = TLS_TIMER_UNIT_MS
      else if n = 1 + 5 * i then \<not> tc_is_repeat cfg
      else n = 4 + 5 * i \<or> bit csr n)"
  unfolding timer_csr_cfg_def by (auto simp: bits)

lemma create_full: "timer_first_free s 0 = 6 \<Longrightarrow> tls_timer_create cfg s = Some (0xFF, s)"
  by (simp add: tls_timer_create_def)

lemma clk_get_cong: "regs s HR_CLK_DIV_CTL = regs s' HR_CLK_DIV_CTL \<Longrightarrow> tls_sys_clk_get s = tls_sys_clk_get s'"
  by (simp add: tls_sys_clk_get_def)

lemma create_regs:
  assumes "timer_first_free s 0 = i" "i < 6" "tls_timer_create cfg s = Some (r, s')"
  shows "r = of_nat i"
    and "wm_timer_bitmap s' = ucast (ucast (wm_timer_bitmap s) OR BIT i)"
    and "timer_context s' = (timer_context s)[i := \<lparr>callback = tc_callback cfg, arg = tc_arg cfg\<rparr>]"
    and "regs s' HR_TIMER0_5_CSR = timer_csr_cfg cfg i (regs s HR_TIMER0_5_CSR)"
    and "tc_timeout cfg \<noteq> 0 \<Longrightarrow> regs s' (HR_TIMER0_PRD + 4 * i) = tc_timeout cfg"
    and "regs s' HR_CLK_BASE_ADDR = (if wm_timer_bitmap s = 0 then regs s HR_CLK_BASE_ADDR OR BIT 10 else regs s HR_CLK_BASE_ADDR)"
    and "regs s' HR_CLK_DIV_CTL = regs s HR_CLK_DIV_CTL"
    and "\<exists>c. tls_sys_clk_get s = Some c \<and> regs s' HR_TIMER_CFG = apbclk c - 1"
    and "bit (irqen_status s') TIMER_IRQn"
proof -
  let ?o = "if wm_timer_bitmap s = 0 then tls_open_peripheral_clock TLS_PERIPHERAL_TYPE_TIMER s else s"
  have c: "tls_sys_clk_get (?o\<lparr>wm_timer_bitmap := b, timer_context := x\<rparr>) = tls_sys_clk_get s" for b x
    by (rule clk_get_cong) simp
  obtain clk where k: "tls_sys_clk_get s = Some clk"
    using assms by (cases "tls_sys_clk_get s") (simp_all add: tls_timer_create_def Let_def c)
  note d = tls_timer_create_def Let_def c k assms(1)
  show "r = of_nat i"
     "wm_timer_bitmap s' = ucast (ucast (wm_timer_bitmap s) OR BIT i)"
     "timer_context s' = (timer_context s)[i := \<lparr>callback = tc_callback cfg, arg = tc_arg cfg\<rparr>]"
    using assms(2,3) by (auto simp: d)
  show "regs s' HR_TIMER0_5_CSR = timer_csr_cfg cfg i (regs s HR_TIMER0_5_CSR)"
    using assms(2,3) by (auto simp: d timer_csr_cfg_def)
  show "tc_timeout cfg \<noteq> 0 \<Longrightarrow> regs s' (HR_TIMER0_PRD + 4 * i) = tc_timeout cfg"
    using assms(2,3) by (auto simp: d)
  show "regs s' HR_CLK_BASE_ADDR = (if wm_timer_bitmap s = 0 then regs s HR_CLK_BASE_ADDR OR BIT 10 else regs s HR_CLK_BASE_ADDR)"
    using assms(2,3) by (auto simp: d)
  show "regs s' HR_CLK_DIV_CTL = regs s HR_CLK_DIV_CTL"
    using assms(2,3) by (auto simp: d)
  show "\<exists>c. tls_sys_clk_get s = Some c \<and> regs s' HR_TIMER_CFG = apbclk c - 1"
    using assms(2,3) k by (auto simp: d)
  show "bit (irqen_status s') TIMER_IRQn"
    using assms(2,3) by (auto simp: d)
qed

lemma create_total:
  assumes "tls_sys_clk_get s = Some clk"
  obtains r s' where "tls_timer_create cfg s = Some (r, s')"
proof (cases "timer_first_free s 0 = 6")
  case False
  have c: "tls_sys_clk_get ((if wm_timer_bitmap s = 0 then tls_open_peripheral_clock TLS_PERIPHERAL_TYPE_TIMER s
      else s)\<lparr>wm_timer_bitmap := b, timer_context := x\<rparr>) = tls_sys_clk_get s" for b x
    by (rule clk_get_cong) simp
  show ?thesis using that False by (simp add: tls_timer_create_def Let_def c assms)
qed (use that create_full in blast)

lemma create_cases:
  assumes "tls_timer_create cfg s = Some (r, s')"
  obtains (full) "\<forall>j<6. timer_used j s" "r = 0xFF" "s' = s"
  | (fresh) i where "timer_first_free s 0 = i" "i < 6" "\<not> timer_used i s" "\<forall>j<i. timer_used j s" "r = of_nat i"
proof (cases "timer_first_free s 0 = 6")
  case True
  have "r = 0xFF" "s' = s" using assms create_full [OF True, of cfg] by simp_all
  with full first_free [OF True] show ?thesis by simp
next
  case False
  then have "timer_first_free s 0 < 6" using first_free [OF refl, of s] by simp
  then show ?thesis
    using first_free [OF refl, of s] fresh [OF refl] create_regs(1) [OF refl _ assms] by simp
qed

lemma timer_inv_create:
  assumes "timer_inv s" "tls_timer_create cfg s = Some (r, s')"
  shows "timer_inv s'"
  using assms(2)
proof (cases rule: create_cases)
  case full
  with assms(1) show ?thesis by simp
next
  case (fresh i)
  note r = create_regs [OF fresh(1,2) assms(2)]
  have b: "bit (wm_timer_bitmap s') n \<longleftrightarrow> bit (wm_timer_bitmap s) n \<or> n = i" for n
    using fresh(2) timer_inv_bitmap [OF assms(1), of n] by (auto simp: r bitmap_set)
  from b [of i] have nz: "wm_timer_bitmap s' \<noteq> 0" by auto
  have en: "timer_en j s' = timer_en j s" for j
  proof -
    have "2 + 5 * j \<noteq> 5 * i" "2 + 5 * j \<noteq> 1 + 5 * i" "2 + 5 * j \<noteq> 4 + 5 * i" by presburger+
    then show ?thesis using fresh(2) by (simp add: timer_en_def r timer_csr_cfg_bit del: add_2_eq_Suc)
  qed
  have clk: "bit (regs s' HR_CLK_BASE_ADDR) 10"
    using assms(1) by (simp add: r bits timer_inv_def)
  show ?thesis
    using assms(1) fresh(2) by (auto simp: timer_inv_def b en clk nz r(3) nth_list_update)
qed

lemma timer_start_en:
  "timer_used i s \<Longrightarrow> i < 6 \<Longrightarrow> timer_en j (tls_timer_start i s) \<longleftrightarrow> timer_en j s \<or> j = i"
proof -
  assume a: "timer_used i s" "i < 6"
  have "2 + 5 * j \<noteq> 3 + 5 * i" "2 + 5 * j = 2 + 5 * i \<longleftrightarrow> j = i" by presburger+
  with a show ?thesis
    by (auto simp: timer_en_def tls_timer_start_def bit_or_iff bit_BIT simp del: add_2_eq_Suc)
qed

lemma timer_start_frame [simp]:
  "wm_timer_bitmap (tls_timer_start i s) = wm_timer_bitmap s"
  "timer_context (tls_timer_start i s) = timer_context s"
  "r \<noteq> HR_TIMER0_5_CSR \<Longrightarrow> regs (tls_timer_start i s) r = regs s r"
  by (simp_all add: tls_timer_start_def)

lemma timer_start_inv: "timer_inv s \<Longrightarrow> timer_inv (tls_timer_start i s)"
  by (cases "timer_used i s")
    (auto simp: timer_inv_def timer_start_en, simp_all add: tls_timer_start_def)

lemma timer_stop_regs:
  "timer_used i s \<Longrightarrow> regs (tls_timer_stop i s) =
     (regs s)(HR_TIMER0_5_CSR := (regs s HR_TIMER0_5_CSR OR TLS_TIMER_INT_CLR i) AND NOT (TLS_TIMER_EN i))"
  by (simp add: tls_timer_stop_def Let_def)

lemma timer_stop_frame [simp]:
  "wm_timer_bitmap (tls_timer_stop i s) = wm_timer_bitmap s"
  "timer_context (tls_timer_stop i s) = timer_context s"
  by (simp_all add: tls_timer_stop_def Let_def)

lemma timer_stop_en:
  "timer_used i s \<Longrightarrow> timer_en j (tls_timer_stop i s) \<longleftrightarrow> timer_en j s \<and> j \<noteq> i"
proof -
  assume a: "timer_used i s"
  have "2 + 5 * j \<noteq> 4 + 5 * i" "2 + 5 * j = 2 + 5 * i \<longleftrightarrow> j = i" by presburger+
  with a show ?thesis
    by (auto simp: timer_en_def timer_stop_regs bit_or_iff bit_BIT bits simp del: add_2_eq_Suc)
qed

lemma timer_stop_inv: "timer_inv s \<Longrightarrow> timer_inv (tls_timer_stop i s)"
proof (cases "timer_used i s")
  case True
  assume "timer_inv s"
  with True show ?thesis by (auto simp: timer_inv_def timer_stop_en [OF True]) (simp_all add: timer_stop_regs)
qed (simp add: tls_timer_stop_def)

lemma timer_prd_inv: "timer_inv s \<Longrightarrow> i < 6 \<Longrightarrow> timer_inv (tls_reg_write32 (HR_TIMER0_PRD + 4 * i) v s)"
  by (auto simp: timer_inv_def timer_en_def)

lemma timer_change_inv: "timer_inv s \<Longrightarrow> timer_inv (tls_timer_change i v s)"
  using timer_inv_bitmap [of s i]
  by (auto simp: tls_timer_change_def Let_def intro!: timer_start_inv timer_prd_inv timer_stop_inv)

lemma timer_destroy_fields:
  assumes "timer_used i s"
  shows "wm_timer_bitmap (tls_timer_destroy i s) = ucast (ucast (wm_timer_bitmap s) AND NOT (BIT i))"
    and "timer_context (tls_timer_destroy i s) = (timer_context s)[i := \<lparr>callback = None, arg = 0\<rparr>]"
    and "regs (tls_timer_destroy i s) HR_TIMER0_5_CSR = regs (tls_timer_stop i s) HR_TIMER0_5_CSR"
    and "regs (tls_timer_destroy i s) HR_CLK_BASE_ADDR =
      (if wm_timer_bitmap (tls_timer_destroy i s) = 0 then regs s HR_CLK_BASE_ADDR AND NOT (BIT 10)
       else regs s HR_CLK_BASE_ADDR)"
    and "regs (tls_timer_destroy i s) HR_CLK_DIV_CTL = regs s HR_CLK_DIV_CTL"
  using assms by (simp_all add: tls_timer_destroy_def Let_def timer_stop_regs)

lemma timer_destroy_inv:
  assumes inv: "timer_inv s"
  shows "timer_inv (tls_timer_destroy i s)"
proof (cases "timer_used i s")
  case True
  note f = timer_destroy_fields [OF True]
  have b: "bit (wm_timer_bitmap (tls_timer_destroy i s)) n \<longleftrightarrow> bit (wm_timer_bitmap s) n \<and> n \<noteq> i" for n
    by (simp add: f(1) bitmap_clear)
  have nz: "wm_timer_bitmap s \<noteq> 0" using True by auto
  have en: "timer_en j (tls_timer_destroy i s) \<longleftrightarrow> timer_en j s \<and> j \<noteq> i" for j
    using timer_stop_en [OF True, of j] by (simp add: timer_en_def f(3))
  have "bit (regs (tls_timer_destroy i s) HR_CLK_BASE_ADDR) 10 \<longleftrightarrow> wm_timer_bitmap (tls_timer_destroy i s) \<noteq> 0"
    using inv nz by (simp add: f(4) timer_inv_def bits)
  moreover have "timer_context (tls_timer_destroy i s) ! j = \<lparr>callback = None, arg = 0\<rparr>"
    if "j < 6" "\<not> (bit (wm_timer_bitmap s) j \<and> j \<noteq> i)" for j
    using inv that unfolding f(2) by (cases "j = i") (simp_all add: timer_inv_def)
  moreover have "length (timer_context (tls_timer_destroy i s)) = 6"
    using inv by (simp add: f(2) timer_inv_def)
  moreover have "timer_en j s \<Longrightarrow> j < 6 \<Longrightarrow> bit (wm_timer_bitmap s) j" for j
    using inv by (simp add: timer_inv_def)
  moreover note timer_inv_bitmap [OF inv]
  ultimately show ?thesis unfolding timer_inv_def b en by blast
qed (simp add: tls_timer_destroy_def inv)

section \<open>The timers as slots\<close>

definition timer_alloc ::
    "tls_timer_cfg \<Rightarrow> 'a timer_state_scheme \<Rightarrow> (nat \<times> 'a timer_state_scheme) option" where
  "timer_alloc cfg s =
     (case tls_timer_create cfg s of
        None \<Rightarrow> None
      | Some (r, s') \<Rightarrow> if r = WM_TIMER_ID_INVALID then None else Some (unat r, s'))"

definition timer_good :: "'a timer_state_scheme \<Rightarrow> bool" where
  "timer_good s \<longleftrightarrow> timer_inv s \<and> tls_sys_clk_get s \<noteq> None"

definition timers_in_use :: "'a timer_state_scheme \<Rightarrow> nat set" where
  "timers_in_use s = {i. timer_used i s}"

lemma timer_id_word: "i < 6 \<Longrightarrow> unat (of_nat i :: u8) = i" "i < 6 \<Longrightarrow> (of_nat i :: u8) \<noteq> 0xFF"
proof -
  assume "i < 6"
  then show u: "unat (of_nat i :: u8) = i" by (simp add: unsigned_of_nat take_bit_nat_eq_self)
  show "(of_nat i :: u8) \<noteq> 0xFF"
  proof
    assume "(of_nat i :: u8) = 0xFF"
    then have "unat (of_nat i :: u8) = 255" by simp
    with u \<open>i < 6\<close> show False by simp
  qed
qed

lemma timer_alloc_cases:
  assumes "timer_good s"
  obtains (full) "timers_in_use s = {..<6}" "timer_alloc cfg s = None"
  | (fresh) i s' where "timer_first_free s 0 = i" "i < 6" "i \<notin> timers_in_use s"
      "tls_timer_create cfg s = Some (of_nat i, s')" "timer_alloc cfg s = Some (i, s')"
proof -
  obtain clk where k: "tls_sys_clk_get s = Some clk" and inv: "timer_inv s"
    using assms by (auto simp: timer_good_def)
  obtain r s' where c: "tls_timer_create cfg s = Some (r, s')" using create_total [OF k] by blast
  from c show ?thesis
  proof (cases rule: create_cases)
    case full
    then have "timers_in_use s = {..<6}"
      using timer_inv_bitmap [OF inv] by (auto simp: timers_in_use_def)
    then show ?thesis using that(1) c full(2) by (simp add: timer_alloc_def)
  next
    case (fresh i)
    then show ?thesis using that(2) c by (simp add: timer_alloc_def timers_in_use_def timer_id_word)
  qed
qed

lemma timer_good_create:
  assumes "timer_good s" "tls_timer_create cfg s = Some (r, s')"
  shows "timer_good s'"
  using assms(2)
proof (cases rule: create_cases)
  case full
  then show ?thesis using assms(1) by simp
next
  case (fresh i)
  then show ?thesis
    using assms timer_inv_create [of s cfg r s']
      clk_get_cong [OF create_regs(7) [OF fresh(1,2) assms(2)]] by (simp add: timer_good_def)
qed

lemma timer_good_destroy: "timer_good s \<Longrightarrow> timer_good (tls_timer_destroy i s)"
proof (cases "timer_used i s")
  case True
  assume "timer_good s"
  then show ?thesis
    using timer_destroy_inv [of s i] clk_get_cong [OF timer_destroy_fields(5) [OF True]]
    by (simp add: timer_good_def)
qed (simp add: tls_timer_destroy_def)

interpretation timer_slots: slots timer_good timers_in_use timer_alloc tls_timer_destroy 6
proof unfold_locales
  fix s s' :: "'a timer_state_scheme" and c i
  assume g: "timer_good s" and a: "timer_alloc c s = Some (i, s')"
  from g show "timer_good s' \<and> i < 6 \<and> i \<notin> timers_in_use s \<and> timers_in_use s' = insert i (timers_in_use s)"
  proof (cases rule: timer_alloc_cases [of s c])
    case (fresh j t)
    with a have e: "j = i" "t = s'" by simp_all
    have "bit (wm_timer_bitmap s') n \<longleftrightarrow> bit (wm_timer_bitmap s) n \<or> n = i" for n
      using fresh(2) timer_inv_bitmap [of s n] g
      by (auto simp: create_regs(2) [OF fresh(1,2,4), unfolded e] bitmap_set timer_good_def e)
    with fresh e timer_good_create [OF g fresh(4)] show ?thesis by (auto simp: timers_in_use_def)
  qed (use a in simp)
next
  fix s :: "'a timer_state_scheme" and c
  assume "timer_good s" "timer_alloc c s = None"
  then show "{..<6} \<subseteq> timers_in_use s" by (cases rule: timer_alloc_cases [of s c]) auto
next
  fix s :: "'a timer_state_scheme" and i
  assume "timer_good s" "i \<in> timers_in_use s"
  then show "timer_good (tls_timer_destroy i s) \<and> timers_in_use (tls_timer_destroy i s) = timers_in_use s - {i}"
    using timer_destroy_fields(1) [of i s] timer_good_destroy [of s i]
    by (auto simp: timers_in_use_def bitmap_clear)
next
  fix s :: "'a timer_state_scheme"
  assume "timer_good s"
  then show "timers_in_use s \<subseteq> {..<6}"
    using timer_inv_bitmap by (auto simp: timers_in_use_def timer_good_def)
qed

section \<open>Sequences of driver calls\<close>

text \<open>Between two calls the peripheral may count, raise interrupt flags and, for a
  one-shot timer, clear an enable bit; it never sets one.\<close>

inductive timer_step :: "timer_state \<Rightarrow> timer_state \<Rightarrow> bool" where
  create: "tls_timer_create cfg s = Some (r, s') \<Longrightarrow> timer_step s s'"
| start: "timer_step s (tls_timer_start i s)"
| stop: "timer_step s (tls_timer_stop i s)"
| change: "timer_step s (tls_timer_change i v s)"
| destroy: "timer_step s (tls_timer_destroy i s)"
| irq: "timer_step s (snd (TIMER0_5_IRQHandler s))"
| hardware: "\<forall>i<6. bit csr (2 + 5 * i) \<longrightarrow> timer_en i s \<Longrightarrow>
    timer_step s (tls_reg_write32 HR_TIMER0_5_CSR csr s)"

inductive timer_reachable :: "timer_state \<Rightarrow> bool" where
  init: "timer_context s = replicate 6 \<lparr>callback = None, arg = 0\<rparr> \<Longrightarrow> wm_timer_bitmap s = 0 \<Longrightarrow>
    \<forall>i<6. \<not> timer_en i s \<Longrightarrow> \<not> bit (regs s HR_CLK_BASE_ADDR) 10 \<Longrightarrow> timer_reachable s"
| step: "timer_reachable s \<Longrightarrow> timer_step s s' \<Longrightarrow> timer_reachable s'"

lemma irq_handler_state: "snd (TIMER0_5_IRQHandler s) = s"
  by (simp add: TIMER0_5_IRQHandler_def Let_def tls_reg_write32_def)

lemma timer_step_inv: "timer_step s s' \<Longrightarrow> timer_inv s \<Longrightarrow> timer_inv s'"
proof (induction rule: timer_step.induct)
  case (hardware csr s)
  have "timer_en i (tls_reg_write32 HR_TIMER0_5_CSR csr s) \<longleftrightarrow> bit csr (2 + 5 * i)" for i
    by (simp add: timer_en_def)
  with hardware show ?case by (simp add: timer_inv_def)
qed (simp_all add: timer_inv_create timer_start_inv timer_stop_inv timer_change_inv timer_destroy_inv
      irq_handler_state)

lemma timer_reachable_inv: "timer_reachable s \<Longrightarrow> timer_inv s"
proof (induction rule: timer_reachable.induct)
  case (init s)
  then show ?case by (simp add: timer_inv_def)
qed (rule timer_step_inv)

section \<open>Properties of the timer driver\<close>

definition timer_reset :: timer_state where
  "timer_reset = \<lparr>regs = (\<lambda>_. 0)(HR_CLK_DIV_CTL := 0x01030C), irqen_status = 0, nvic_log = [],
     timer_context = replicate 6 \<lparr>callback = None, arg = 0\<rparr>, wm_timer_bitmap = 0\<rparr>"

lemma timer_reset_reachable: "timer_reachable timer_reset"
  by (rule timer_reachable.init) (simp_all add: timer_reset_def timer_en_def)

lemma timer_reset_good: "timer_good timer_reset"
  using timer_reachable_inv [OF timer_reset_reachable]
  by (simp add: timer_good_def timer_reset_def tls_sys_clk_get_def Let_def field_def)

text \<open>C24. In every state the driver can reach, only the six timers are marked used, a timer
  that is not in use is neither running nor has it a callback, and the clock of the timer
  block is open exactly while some timer is in use.\<close>

theorem timer_reachable_wellformed:
  assumes "timer_reachable s"
  shows "(\<forall>i. timer_used i s \<longrightarrow> i < 6)
    \<and> (\<forall>i<6. \<not> timer_used i s \<longrightarrow> \<not> timer_en i s \<and> run_callback (timer_context s ! i) = [])
    \<and> (bit (regs s HR_CLK_BASE_ADDR) 10 \<longleftrightarrow> (\<exists>i<6. timer_used i s))"
proof -
  have inv: "timer_inv s" by (rule timer_reachable_inv [OF assms])
  have "wm_timer_bitmap s \<noteq> 0 \<longleftrightarrow> (\<exists>i. bit (wm_timer_bitmap s) i)"
    using bit_imp_le_length [of "wm_timer_bitmap s"] by (auto simp: bit_eq_iff)
  then have "wm_timer_bitmap s \<noteq> 0 \<longleftrightarrow> (\<exists>i<6. timer_used i s)" using timer_inv_bitmap [OF inv] by auto
  then show ?thesis using inv by (auto simp: timer_inv_def run_callback_def)
qed

theorem timer_reachable_wellformed_witness:
  "\<not> timer_en 3 (tls_timer_start 3 timer_reset)"
proof -
  have "timer_reachable (tls_timer_start 3 timer_reset)"
    by (rule timer_reachable.step [OF timer_reset_reachable timer_step.start])
  from timer_reachable_wellformed [OF this] show ?thesis
    by (auto simp: timer_reset_def tls_timer_start_def)
qed

text \<open>\<^verbatim>\<open>tls_timer_create\<close> returns the lowest timer that is not in use, programs its
  unit, its mode, its period and its callback, opens the clock gate if it was the first,
  and leaves every control bit of the other timers as it was; with all six in use it
  returns \<^verbatim>\<open>WM_TIMER_ID_INVALID\<close> and changes nothing.\<close>

theorem timer_create_spec:
  assumes "timer_good s"
  shows "\<exists>r s'. tls_timer_create cfg s = Some (r, s') \<and> timer_good s' \<and>
    (if timers_in_use s = {..<6} then r = WM_TIMER_ID_INVALID \<and> s' = s
     else let i = unat r in
       i < 6 \<and> i \<notin> timers_in_use s \<and> (\<forall>j<i. j \<in> timers_in_use s)
       \<and> timers_in_use s' = insert i (timers_in_use s)
       \<and> timer_context s' = (timer_context s)[i := \<lparr>callback = tc_callback cfg, arg = tc_arg cfg\<rparr>]
       \<and> (tc_timeout cfg \<noteq> 0 \<longrightarrow> regs s' (HR_TIMER0_PRD + 4 * i) = tc_timeout cfg)
       \<and> (\<forall>n. bit (regs s' HR_TIMER0_5_CSR) n =
            (if n = 5 * i then tc_unit cfg = TLS_TIMER_UNIT_MS
             else if n = 1 + 5 * i then \<not> tc_is_repeat cfg
             else n = 4 + 5 * i \<or> bit (regs s HR_TIMER0_5_CSR) n)))"
  using assms
proof (cases rule: timer_alloc_cases [of s cfg])
  case full
  then have "timer_first_free s 0 = 6"
    using first_free [OF refl, of s] by (auto simp: timers_in_use_def)
  then show ?thesis using assms full(1) by (simp add: create_full)
next
  case (fresh i s')
  have ne: "timers_in_use s \<noteq> {..<6}" using fresh(2,3) by auto
  note r = create_regs [OF fresh(1,2,4)]
  have u: "timers_in_use s' = insert i (timers_in_use s)"
    using timer_slots.alloc_Some [OF assms fresh(5)] by simp
  have below: "\<forall>j<i. j \<in> timers_in_use s"
    using first_free [OF fresh(1)] by (simp add: timers_in_use_def)
  have csr: "\<forall>n. bit (regs s' HR_TIMER0_5_CSR) n =
      (if n = 5 * i then tc_unit cfg = TLS_TIMER_UNIT_MS
       else if n = 1 + 5 * i then \<not> tc_is_repeat cfg
       else n = 4 + 5 * i \<or> bit (regs s HR_TIMER0_5_CSR) n)"
    unfolding r(4) by (intro allI timer_csr_cfg_bit fresh(2))
  have prd: "tc_timeout cfg \<noteq> 0 \<longrightarrow> regs s' (HR_TIMER0_PRD + 4 * i) = tc_timeout cfg"
    using r(5) by blast
  show ?thesis
    unfolding if_not_P [OF ne] Let_def
    by (rule exI [of _ "of_nat i"], rule exI [of _ s'], unfold timer_id_word(1) [OF fresh(2)])
      (intro conjI fresh(2-4) u below r(3) csr prd timer_good_create [OF assms fresh(4)])
qed

theorem timer_create_spec_witness:
  "\<exists>r s'. tls_timer_create \<lparr>tc_unit = TLS_TIMER_UNIT_MS, tc_timeout = 500, tc_is_repeat = True,
      tc_callback = Some 1, tc_arg = 2\<rparr> timer_reset = Some (r, s') \<and> unat r < 6"
proof -
  have "0 \<notin> timers_in_use timer_reset" by (simp add: timers_in_use_def timer_reset_def)
  then have "timers_in_use timer_reset \<noteq> {..<6}" by (metis lessThan_iff zero_less_numeral)
  then show ?thesis using timer_create_spec [OF timer_reset_good] by (simp add: Let_def) blast
qed

text \<open>C23. However a client interleaves requests and releases, starting with no timer in
  use: the identifiers it holds are pairwise different timers, at most six, and a request
  is refused only when it holds all six.\<close>

theorem timer_handles_distinct:
  assumes "client timer_alloc tls_timer_destroy s [] s' hs" "timer_good s" "timers_in_use s = {}"
  shows "distinct hs \<and> set hs = timers_in_use s' \<and> length hs \<le> 6 \<and>
    (timer_alloc cfg s' = None \<longrightarrow> length hs = 6)"
  using timer_slots.client_handles [OF assms(1,2)] timer_slots.client_capacity [OF assms(1,2)]
    timer_slots.refused_when_full [OF assms(1,2)] assms(3) by auto

theorem timer_handles_distinct_witness:
  "\<exists>s' hs. client timer_alloc tls_timer_destroy timer_reset [] s' hs \<and> length hs = 1 \<and> distinct hs"
proof -
  let ?cfg = "\<lparr>tc_unit = TLS_TIMER_UNIT_US, tc_timeout = 9, tc_is_repeat = False, tc_callback = None, tc_arg = 0\<rparr>"
  have e: "timers_in_use timer_reset = {}" by (simp add: timers_in_use_def timer_reset_def)
  then have "timers_in_use timer_reset \<noteq> {..<6}" by (metis empty_iff lessThan_iff zero_less_numeral)
  then obtain i s' where "timer_alloc ?cfg timer_reset = Some (i, s')"
    by (cases rule: timer_alloc_cases [OF timer_reset_good, of ?cfg]) auto
  then have c: "client timer_alloc tls_timer_destroy timer_reset [] s' [i]"
    by (rule client.got [OF client.start])
  show ?thesis using timer_handles_distinct [OF c timer_reset_good e] c by (intro exI [of _ s'] exI [of _ "[i]"]) simp
qed

text \<open>The timer interrupt runs the callbacks of exactly the timers whose interrupt flag
  is set, in the order of their numbers, and changes nothing else.\<close>

theorem timer_irq_runs_pending:
  "TIMER0_5_IRQHandler s =
     (concat (map (\<lambda>i. run_callback (timer_context s ! i))
        (filter (\<lambda>i. bit (regs s HR_TIMER0_5_CSR) (4 + 5 * i)) [0..<6])), s)"
proof -
  have "[0..<6] = [0, 1, 2, 3, 4, 5 :: nat]" by (simp add: upt_rec)
  then show ?thesis
    by (simp add: TIMER0_5_IRQHandler_def Let_def timer_irq_callback_def and_BIT_eq_0 tls_reg_write32_def)
qed

text \<open>Changing the period of a used timer leaves it running with the new period (a zero
  period keeps the old one) and every other timer's enable as it was.\<close>

theorem timer_change_running:
  assumes "timer_inv s" "timer_used i s"
  shows "timer_en i (tls_timer_change i v s)
    \<and> regs (tls_timer_change i v s) (HR_TIMER0_PRD + 4 * i) = (if v = 0 then regs s (HR_TIMER0_PRD + 4 * i) else v)
    \<and> (\<forall>j. j \<noteq> i \<longrightarrow> timer_en j (tls_timer_change i v s) = timer_en j s)"
proof -
  have i: "i < 6" using timer_inv_bitmap [OF assms(1)] assms(2) by simp
  let ?s = "if v \<noteq> 0 then tls_reg_write32 (HR_TIMER0_PRD + 4 * i) v (tls_timer_stop i s) else tls_timer_stop i s"
  have e: "tls_timer_change i v s = tls_timer_start i ?s"
    using assms(2) by (simp add: tls_timer_change_def)
  have u: "timer_used i ?s" using assms(2) by simp
  have "timer_en j ?s = timer_en j (tls_timer_stop i s)" for j
    using i by (auto simp: timer_en_def)
  then show ?thesis
    using i assms(2) by (simp add: e timer_start_en [OF u i] timer_stop_en timer_stop_regs)
qed

theorem timer_change_running_witness:
  "timer_en 0 (tls_timer_change 0 77 (timer_reset\<lparr>wm_timer_bitmap := 1,
     regs := (\<lambda>_. 0)(HR_CLK_BASE_ADDR := 0x400)\<rparr>))"
proof -
  let ?s = "timer_reset\<lparr>wm_timer_bitmap := 1, regs := (\<lambda>_. 0)(HR_CLK_BASE_ADDR := 0x400)\<rparr>"
  have "timer_inv ?s" by (simp add: timer_inv_def timer_reset_def timer_en_def bit_1_iff)
  moreover have "timer_used 0 ?s" by simp
  ultimately show ?thesis using timer_change_running [of ?s 0 77] by blast
qed

end
