(* ===== verification/Watchdog.thy ===== *)
theory Watchdog
  imports Cpu_Pmu
begin

text \<open>
  The watchdog, \<^verbatim>\<open>platform/drivers/watchdog/wm_watchdog.c\<close>: enabling and feeding it,
  using its counter to measure elapsed time while it is armed or not, the reset of the
  system through it and the reboot reason it leaves. The load value is a 32-bit product
  of the APB clock and the time in microseconds: it wraps.
\<close>

unbundle bit_operations_syntax

section \<open>Registers and state\<close>

abbreviation (input) "HR_WDG_LOAD_VALUE \<equiv> 0x40011600 :: nat"
abbreviation (input) "HR_WDG_CUR_VALUE \<equiv> 0x40011604 :: nat"
abbreviation (input) "HR_WDG_CTRL \<equiv> 0x40011608 :: nat"
abbreviation (input) "HR_WDG_INT_CLR \<equiv> 0x4001160C :: nat"
abbreviation (input) "HR_WDG_LOCK \<equiv> 0x40011640 :: nat"
abbreviation (input) "SYS_REBOOT_REASON_ADDRESS \<equiv> 0x20047EFC :: nat"
abbreviation (input) "WDG_IRQn \<equiv> 31 :: nat"
abbreviation (input) "REBOOT_REASON_POWER_ON \<equiv> 0 :: u32"
abbreviation (input) "REBOOT_REASON_WDG_TIMEOUT \<equiv> 3 :: u32"
abbreviation (input) "REBOOT_REASON_MAX \<equiv> 5 :: u32"
abbreviation (input) "WDG_LOAD_VALUE_MAX \<equiv> 0xFFFFFFFF div 40 :: u32"
abbreviation (input) "WDG_LOAD_VALUE_DEF \<equiv> 20 * 1000 * 1000 :: u32"

record wdg_state = mcu +
  wdg_reset :: bool
  wdg_enable :: bool
  wdg_value_us :: u32
  wdg_jumpclear_flag :: u32

section \<open>Operations\<close>

definition tls_sys_set_reboot_reason :: "u32 \<Rightarrow> 'a mcu_scheme \<Rightarrow> 'a mcu_scheme" where
  "tls_sys_set_reboot_reason reason s = tls_reg_write32 SYS_REBOOT_REASON_ADDRESS reason s"

definition tls_sys_get_reboot_reason :: "'a mcu_scheme \<Rightarrow> u32" where
  "tls_sys_get_reboot_reason s =
     (let rebootval = tls_reg_read32 SYS_REBOOT_REASON_ADDRESS s
      in if rebootval \<ge> REBOOT_REASON_MAX then REBOOT_REASON_POWER_ON else rebootval)"

definition WDG_IRQHandler :: "'a wdg_state_scheme \<Rightarrow> 'a wdg_state_scheme" where
  "WDG_IRQHandler s =
     (if wdg_reset s then s else tls_sys_set_reboot_reason REBOOT_REASON_WDG_TIMEOUT s)"

definition tls_watchdog_clr :: "'a wdg_state_scheme \<Rightarrow> 'a wdg_state_scheme" where
  "tls_watchdog_clr s =
     (if 0 = wdg_jumpclear_flag s then tls_reg_write32 HR_WDG_INT_CLR 1 s else s)"

definition wdg_init :: "u32 \<Rightarrow> 'a mcu_scheme \<Rightarrow> 'a mcu_scheme option" where
  "wdg_init usec s =
     (case tls_sys_clk_get s of
        None \<Rightarrow> None
      | Some sysclk \<Rightarrow>
          let s = tls_irq_enable WDG_IRQn s;
              s = tls_reg_write32 HR_WDG_LOAD_VALUE (apbclk sysclk * usec) s
          in Some (tls_reg_write32 HR_WDG_CTRL 3 s))"

definition wdg_deinit :: "'a mcu_scheme \<Rightarrow> 'a mcu_scheme" where
  "wdg_deinit s =
     (let s = tls_irq_disable WDG_IRQn s;
          s = tls_reg_write32 HR_WDG_CTRL 0 s
      in tls_reg_write32 HR_WDG_INT_CLR 1 s)"

definition tls_watchdog_init :: "u32 \<Rightarrow> 'a wdg_state_scheme \<Rightarrow> 'a wdg_state_scheme option" where
  "tls_watchdog_init usec s =
     (case wdg_init usec s of
        None \<Rightarrow> None
      | Some s \<Rightarrow> Some (s\<lparr>wdg_value_us := usec, wdg_enable := True\<rparr>))"

definition tls_watchdog_deinit :: "'a wdg_state_scheme \<Rightarrow> 'a wdg_state_scheme" where
  "tls_watchdog_deinit s = (wdg_deinit s)\<lparr>wdg_value_us := WDG_LOAD_VALUE_DEF, wdg_enable := False\<rparr>"

definition tls_watchdog_start_cal_elapsed_time ::
    "'a wdg_state_scheme \<Rightarrow> 'a wdg_state_scheme option" where
  "tls_watchdog_start_cal_elapsed_time s =
     (if wdg_enable s then
        let s = s\<lparr>wdg_jumpclear_flag := 1\<rparr>;
            s = wdg_deinit s
        in wdg_init WDG_LOAD_VALUE_MAX s
      else
        let s = s\<lparr>wdg_jumpclear_flag := 2\<rparr>
        in wdg_init WDG_LOAD_VALUE_MAX s)"

definition tls_watchdog_stop_cal_elapsed_time ::
    "'a wdg_state_scheme \<Rightarrow> (u32 \<times> 'a wdg_state_scheme) option" where
  "tls_watchdog_stop_cal_elapsed_time s =
     (if wdg_jumpclear_flag s = 1 then
        let val = (tls_reg_read32 HR_WDG_LOAD_VALUE s - tls_reg_read32 HR_WDG_CUR_VALUE s) div 40;
            s = wdg_deinit s
        in (case wdg_init (wdg_value_us s) s of
              None \<Rightarrow> None
            | Some s \<Rightarrow> Some (val, s\<lparr>wdg_jumpclear_flag := 0\<rparr>))
      else if wdg_jumpclear_flag s = 2 then
        let val = (tls_reg_read32 HR_WDG_LOAD_VALUE s - tls_reg_read32 HR_WDG_CUR_VALUE s) div 40;
            s = wdg_deinit s
        in Some (val, s\<lparr>wdg_jumpclear_flag := 0\<rparr>)
      else Some (0, s\<lparr>wdg_jumpclear_flag := 0\<rparr>))"

text \<open>\<^verbatim>\<open>tls_sys_reset\<close> ends in \<^verbatim>\<open>while(1);\<close>: the state is the one it spins in.\<close>

definition tls_sys_reset :: "'a wdg_state_scheme \<Rightarrow> 'a wdg_state_scheme" where
  "tls_sys_reset s =
     (let s = s\<lparr>wdg_reset := True\<rparr>;
          s = wdg_deinit s;
          s = tls_reg_write32 HR_WDG_LOCK 0x1ACCE551 s;
          s = tls_reg_write32 HR_WDG_LOAD_VALUE 0x100 s;
          s = tls_reg_write32 HR_WDG_CTRL 3 s
      in tls_reg_write32 HR_WDG_LOCK 1 s)"

section \<open>Frames\<close>

lemma wdg_fields_frame [simp]:
  "wdg_reset (tls_reg_write32 r v s) = wdg_reset s"
  "wdg_enable (tls_reg_write32 r v s) = wdg_enable s"
  "wdg_value_us (tls_reg_write32 r v s) = wdg_value_us s"
  "wdg_jumpclear_flag (tls_reg_write32 r v s) = wdg_jumpclear_flag s"
  "wdg_reset (tls_irq_enable n s) = wdg_reset s"
  "wdg_enable (tls_irq_enable n s) = wdg_enable s"
  "wdg_value_us (tls_irq_enable n s) = wdg_value_us s"
  "wdg_jumpclear_flag (tls_irq_enable n s) = wdg_jumpclear_flag s"
  "wdg_reset (tls_irq_disable n s) = wdg_reset s"
  "wdg_enable (tls_irq_disable n s) = wdg_enable s"
  "wdg_value_us (tls_irq_disable n s) = wdg_value_us s"
  "wdg_jumpclear_flag (tls_irq_disable n s) = wdg_jumpclear_flag s"
  by (simp_all add: tls_reg_write32_def tls_irq_enable_def tls_irq_disable_def nvic_def Let_def)

lemma wdg_deinit_fields [simp]:
  "regs (wdg_deinit s) = (regs s)(HR_WDG_CTRL := 0, HR_WDG_INT_CLR := 1)"
  "wdg_enable (wdg_deinit w) = wdg_enable w"
  "wdg_value_us (wdg_deinit w) = wdg_value_us w"
  "wdg_jumpclear_flag (wdg_deinit w) = wdg_jumpclear_flag w"
  "wdg_reset (wdg_deinit w) = wdg_reset w"
  "bit (irqen_status (wdg_deinit s)) n \<longleftrightarrow> bit (irqen_status s) n \<and> n \<noteq> WDG_IRQn"
  by (simp_all add: wdg_deinit_def Let_def)

lemma wdg_clk_cong: "regs s HR_CLK_DIV_CTL = regs s' HR_CLK_DIV_CTL \<Longrightarrow> tls_sys_clk_get s = tls_sys_clk_get s'"
  by (simp add: tls_sys_clk_get_def)

lemma wdg_init_eq:
  "tls_sys_clk_get s = Some clk \<Longrightarrow> wdg_init usec s =
     Some (tls_reg_write32 HR_WDG_CTRL 3 (tls_reg_write32 HR_WDG_LOAD_VALUE (apbclk clk * usec) (tls_irq_enable WDG_IRQn s)))"
  by (simp add: wdg_init_def Let_def)

lemma wdg_clk_frame [simp]:
  "tls_sys_clk_get (s\<lparr>wdg_jumpclear_flag := f\<rparr>) = tls_sys_clk_get s"
  "tls_sys_clk_get (wdg_deinit t) = tls_sys_clk_get t"
  "r \<noteq> HR_CLK_DIV_CTL \<Longrightarrow> tls_sys_clk_get (tls_reg_write32 r v t) = tls_sys_clk_get t"
  "tls_sys_clk_get (tls_irq_enable n t) = tls_sys_clk_get t"
  by (rule wdg_clk_cong; simp)+

lemma elapsed_word:
  assumes "ticks < 2 ^ 32"
  shows "(of_nat ticks :: u32) div 40 = of_nat (ticks div 40)"
proof (rule word_unat_eq_iff [THEN iffD2])
  have "ticks div 40 < 2 ^ 32" using assms by (meson div_le_dividend le_less_trans)
  with assms show "unat ((of_nat ticks :: u32) div 40) = unat (of_nat (ticks div 40) :: u32)"
    by (simp add: unat_div unsigned_of_nat take_bit_nat_eq_self)
qed

section \<open>Properties of the watchdog\<close>

definition wdg_boot :: wdg_state where
  "wdg_boot = \<lparr>regs = (\<lambda>_. 0)(HR_CLK_DIV_CTL := 0x01030C), irqen_status = 0, nvic_log = [],
     wdg_reset = False, wdg_enable = False, wdg_value_us = WDG_LOAD_VALUE_DEF, wdg_jumpclear_flag = 0\<rparr>"

text \<open>Measuring with the watchdog counter, at the 40 MHz APB clock: when the counter has
  run down by \<open>ticks\<close> cycles between the two calls, the result is the elapsed time in
  microseconds, and afterwards the watchdog is as it was before: running with its own load
  value and its interrupt when it was enabled, stopped with its interrupt off when it was
  not; while the measurement runs, feeding does nothing.\<close>

theorem watchdog_measure:
  assumes "tls_sys_clk_get s = Some clk" "apbclk clk = 40" "ticks < 2 ^ 32"
  shows "\<exists>s1. tls_watchdog_start_cal_elapsed_time s = Some s1 \<and> tls_watchdog_clr s1 = s1 \<and>
    (\<exists>s3. tls_watchdog_stop_cal_elapsed_time
          (tls_reg_write32 HR_WDG_CUR_VALUE (regs s1 HR_WDG_LOAD_VALUE - of_nat ticks) s1)
        = Some (of_nat (ticks div 40), s3)
      \<and> wdg_jumpclear_flag s3 = 0 \<and> wdg_enable s3 = wdg_enable s \<and> wdg_value_us s3 = wdg_value_us s
      \<and> regs s3 HR_WDG_CTRL = (if wdg_enable s then 3 else 0)
      \<and> (bit (irqen_status s3) WDG_IRQn \<longleftrightarrow> wdg_enable s)
      \<and> (wdg_enable s \<longrightarrow> regs s3 HR_WDG_LOAD_VALUE = 40 * wdg_value_us s))"
  using assms
  by (cases "wdg_enable s")
    (simp_all add: tls_watchdog_start_cal_elapsed_time_def tls_watchdog_stop_cal_elapsed_time_def Let_def
      tls_watchdog_clr_def wdg_init_eq [where clk = clk] elapsed_word)

theorem watchdog_measure_witness:
  "\<exists>s1 s3. tls_watchdog_start_cal_elapsed_time wdg_boot = Some s1 \<and>
     tls_watchdog_stop_cal_elapsed_time
       (tls_reg_write32 HR_WDG_CUR_VALUE (regs s1 HR_WDG_LOAD_VALUE - of_nat 4000) s1) = Some (of_nat (4000 div 40), s3)"
proof -
  have "tls_sys_clk_get wdg_boot = Some \<lparr>apbclk = 40, cpuclk = 40, wlanclk = 160\<rparr>"
    by (simp add: wdg_boot_def tls_sys_clk_get_def Let_def field_def)
  from watchdog_measure [OF this, of 4000] show ?thesis by auto
qed

text \<open>Switching the watchdog off while a measurement runs does not keep it off: the end of
  the measurement starts it again, with the default load value, although it is recorded as
  not enabled.\<close>

theorem watchdog_deinit_undone:
  assumes "tls_sys_clk_get s = Some clk" "wdg_enable s"
  shows "\<exists>s1 s3 v. tls_watchdog_start_cal_elapsed_time s = Some s1 \<and>
    tls_watchdog_stop_cal_elapsed_time (tls_watchdog_deinit s1) = Some (v, s3) \<and>
    \<not> wdg_enable s3 \<and> regs s3 HR_WDG_CTRL = 3 \<and> regs s3 HR_WDG_LOAD_VALUE = apbclk clk * 20000000"
proof -
  have "tls_sys_clk_get (t\<lparr>wdg_value_us := v, wdg_enable := e\<rparr>) = tls_sys_clk_get t" for t :: "'a wdg_state_scheme" and v e
    by (rule wdg_clk_cong) simp
  moreover have "wdg_deinit (t\<lparr>wdg_value_us := v, wdg_enable := e\<rparr>) = (wdg_deinit t)\<lparr>wdg_value_us := v, wdg_enable := e\<rparr>"
    for t :: "'a wdg_state_scheme" and v e
    by (simp add: wdg_deinit_def tls_irq_disable_def nvic_def tls_reg_write32_def Let_def)
  ultimately show ?thesis
    using assms
    by (simp add: tls_watchdog_start_cal_elapsed_time_def tls_watchdog_stop_cal_elapsed_time_def Let_def
        tls_watchdog_deinit_def wdg_init_eq [where clk = clk])
qed

theorem watchdog_deinit_undone_witness:
  "\<exists>s1 s3 v. tls_watchdog_start_cal_elapsed_time (wdg_boot\<lparr>wdg_enable := True\<rparr>) = Some s1 \<and>
    tls_watchdog_stop_cal_elapsed_time (tls_watchdog_deinit s1) = Some (v, s3) \<and> regs s3 HR_WDG_CTRL = 3"
proof -
  have "tls_sys_clk_get (wdg_boot\<lparr>wdg_enable := True\<rparr>) = Some \<lparr>apbclk = 40, cpuclk = 40, wlanclk = 160\<rparr>"
    by (simp add: wdg_boot_def tls_sys_clk_get_def Let_def field_def)
  from watchdog_deinit_undone [OF this] show ?thesis by auto
qed

text \<open>The reboot reason: every recorded reason below \<^verbatim>\<open>REBOOT_REASON_MAX\<close> is read back as
  it was set and everything else as power-on; the watchdog interrupt records a watchdog
  timeout except during a requested reset, which leaves the recorded reason alone.\<close>

theorem reboot_reason_roundtrip:
  "tls_sys_get_reboot_reason (tls_sys_set_reboot_reason reason s) = (if reason < 5 then reason else 0)
   \<and> tls_sys_get_reboot_reason (WDG_IRQHandler w) = (if wdg_reset w then tls_sys_get_reboot_reason w else 3)
   \<and> tls_sys_get_reboot_reason (WDG_IRQHandler (tls_sys_reset (tls_sys_set_reboot_reason reason w)))
       = (if reason < 5 then reason else 0)"
  by (auto simp: tls_sys_get_reboot_reason_def tls_sys_set_reboot_reason_def WDG_IRQHandler_def
      tls_sys_reset_def Let_def not_less)

text \<open>The load value is a 32-bit product: at 40 MHz a time-out of up to
  \<^verbatim>\<open>WDG_LOAD_VALUE_MAX\<close> microseconds (107 s) is loaded exactly, and the next one wraps
  to almost nothing.\<close>

theorem watchdog_load_bound:
  assumes "tls_sys_clk_get s = Some clk" "apbclk clk = 40" "tls_watchdog_init usec s = Some s'"
  shows "(unat usec \<le> 107374182 \<longrightarrow> unat (regs s' HR_WDG_LOAD_VALUE) = 40 * unat usec)
    \<and> (usec = 107374183 \<longrightarrow> unat (regs s' HR_WDG_LOAD_VALUE) = 24)"
proof -
  have l: "regs s' HR_WDG_LOAD_VALUE = 40 * usec"
    using assms by (auto simp: tls_watchdog_init_def wdg_init_eq [OF assms(1)])
  moreover have "unat (40 * usec) = 40 * unat usec" if "unat usec \<le> 107374182"
    using that by (simp add: unat_word_ariths)
  ultimately show ?thesis by simp
qed

theorem watchdog_load_bound_witness:
  "\<exists>s'. tls_watchdog_init 107374183 wdg_boot = Some s' \<and> unat (regs s' HR_WDG_LOAD_VALUE) = 24"
proof -
  have c: "tls_sys_clk_get wdg_boot = Some \<lparr>apbclk = 40, cpuclk = 40, wlanclk = 160\<rparr>"
    by (simp add: wdg_boot_def tls_sys_clk_get_def Let_def field_def)
  obtain s' where s': "tls_watchdog_init 107374183 wdg_boot = Some s'"
    by (simp add: tls_watchdog_init_def wdg_init_eq [OF c])
  from watchdog_load_bound [OF c _ s'] s' show ?thesis by simp
qed

end
