(* ===== verification/Rtc.thy ===== *)
theory Rtc
  imports Cpu_Pmu
begin

text \<open>
  The real-time clock, \<^verbatim>\<open>platform/drivers/rtc/wm_rtc.c\<close>: the broken-down time is
  packed in two registers of the power management unit. The fields of
  \<^verbatim>\<open>struct tm\<close> are \<^verbatim>\<open>int\<close>s, here their 32-bit patterns.
\<close>

unbundle bit_operations_syntax

record tm =
  tm_sec :: u32
  tm_min :: u32
  tm_hour :: u32
  tm_mday :: u32
  tm_mon :: u32
  tm_year :: u32

record rtc_state = mcu +
  rtc_context :: irq_context

definition rtc_ctrl1 :: "tm \<Rightarrow> u32" where
  "rtc_ctrl1 t = tm_sec t OR push_bit 8 (tm_min t) OR push_bit 16 (tm_hour t) OR push_bit 24 (tm_mday t)"

definition rtc_ctrl2 :: "tm \<Rightarrow> u32" where
  "rtc_ctrl2 t = tm_mon t OR push_bit 8 (tm_year t)"

definition tls_set_rtc :: "tm \<Rightarrow> 'a mcu_scheme \<Rightarrow> 'a mcu_scheme" where
  "tls_set_rtc tblock s =
     (let ctrl2 = tls_reg_read32 HR_PMU_RTC_CTRL2 s;
          ctrl2 = ctrl2 AND NOT (BIT 16);
          s = tls_reg_write32 HR_PMU_RTC_CTRL2 ctrl2 s;
          s = tls_reg_write32 HR_PMU_RTC_CTRL1 (rtc_ctrl1 tblock) s;
          s = tls_reg_write32 HR_PMU_RTC_CTRL2 (rtc_ctrl2 tblock) s;
          ctrl2 = tls_reg_read32 HR_PMU_RTC_CTRL2 s;
          ctrl2 = ctrl2 OR BIT 16
      in tls_reg_write32 HR_PMU_RTC_CTRL2 ctrl2 s)"

definition tls_get_rtc :: "'a mcu_scheme \<Rightarrow> tm" where
  "tls_get_rtc s =
     (let ctrl1 = tls_reg_read32 HR_PMU_RTC_CTRL1 s;
          ctrl2 = tls_reg_read32 HR_PMU_RTC_CTRL2 s
      in \<lparr>tm_sec = ctrl1 AND 0x3f,
          tm_min = drop_bit 8 (ctrl1 AND 0x3f00),
          tm_hour = drop_bit 16 (ctrl1 AND 0x1f0000),
          tm_mday = drop_bit 24 (ctrl1 AND 0x1f000000),
          tm_mon = ctrl2 AND 0xf,
          tm_year = drop_bit 8 (ctrl2 AND 0x7f00)\<rparr>)"

definition PMU_RTC_IRQHandler :: "'a rtc_state_scheme \<Rightarrow> cb_call list \<times> 'a rtc_state_scheme" where
  "PMU_RTC_IRQHandler s =
     (let s = tls_reg_write32 HR_PMU_INTERRUPT_SRC (BIT 4) s
      in (run_callback (rtc_context s), s))"

definition tls_rtc_isr_register ::
    "nat option \<Rightarrow> u32 \<Rightarrow> 'a rtc_state_scheme \<Rightarrow> 'a rtc_state_scheme" where
  "tls_rtc_isr_register cb a s =
     tls_irq_enable PMU_IRQn (s\<lparr>rtc_context := \<lparr>callback = cb, arg = a\<rparr>\<rparr>)"

definition tls_rtc_timer_start :: "tm \<Rightarrow> 'a mcu_scheme \<Rightarrow> 'a mcu_scheme" where
  "tls_rtc_timer_start tblock s =
     (let s = tls_irq_enable PMU_IRQn s;
          s = tls_reg_write32 HR_PMU_RTC_CTRL2 (rtc_ctrl2 tblock OR BIT 16) s
      in tls_reg_write32 HR_PMU_RTC_CTRL1 (rtc_ctrl1 tblock OR BIT 31) s)"

definition tls_rtc_timer_stop :: "'a mcu_scheme \<Rightarrow> 'a mcu_scheme" where
  "tls_rtc_timer_stop s = reg_andn HR_PMU_RTC_CTRL1 (BIT 31) s"

section \<open>Packing and unpacking\<close>

text \<open>The ranges the two registers can hold. A year is counted from 1900 and has seven
  bits: 2027 is the last one.\<close>

definition rtc_range :: "tm \<Rightarrow> bool" where
  "rtc_range t \<longleftrightarrow> tm_sec t < 64 \<and> tm_min t < 64 \<and> tm_hour t < 32 \<and> tm_mday t < 32
     \<and> tm_mon t < 16 \<and> tm_year t < 128"

lemma mask_field: "drop_bit p (x AND push_bit p (mask w)) = field p w x" for x :: u32
proof (intro bit_eqI)
  fix n
  show "bit (drop_bit p (x AND push_bit p (mask w))) n = bit (field p w x) n"
    by (auto simp: bit_drop_bit_eq bit_and_iff bit_push_bit_iff bit_mask_iff bits dest: bit_u32_less)
qed

lemma rtc_masks:
  "(0x3f :: u32) = mask 6" "(0x3f00 :: u32) = push_bit 8 (mask 6)"
  "(0x1f0000 :: u32) = push_bit 16 (mask 5)" "(0x1f000000 :: u32) = push_bit 24 (mask 5)"
  "(0xf :: u32) = mask 4" "(0x7f00 :: u32) = push_bit 8 (mask 7)"
  by (simp_all add: mask_eq_exp_minus_1)

lemma and_mask_field: "x AND mask w = field 0 w x" for x :: u32
  by (simp add: field_def take_bit_eq_mask)

lemma get_rtc_fields:
  "tls_get_rtc s =
     \<lparr>tm_sec = field 0 6 (regs s HR_PMU_RTC_CTRL1), tm_min = field 8 6 (regs s HR_PMU_RTC_CTRL1),
      tm_hour = field 16 5 (regs s HR_PMU_RTC_CTRL1), tm_mday = field 24 5 (regs s HR_PMU_RTC_CTRL1),
      tm_mon = field 0 4 (regs s HR_PMU_RTC_CTRL2), tm_year = field 8 7 (regs s HR_PMU_RTC_CTRL2)\<rparr>"
  unfolding tls_get_rtc_def Let_def reg_read rtc_masks mask_field and_mask_field ..

lemma field_BIT_other: "k < p \<or> p + w \<le> k \<Longrightarrow> field p w (BIT k) = 0"
  by (intro bit_eqI) (auto simp: bits)

lemma rtc_pack:
  assumes "rtc_range t"
  shows "field 0 6 (rtc_ctrl1 t) = tm_sec t" "field 8 6 (rtc_ctrl1 t) = tm_min t"
    "field 16 5 (rtc_ctrl1 t) = tm_hour t" "field 24 5 (rtc_ctrl1 t) = tm_mday t"
    "field 0 4 (rtc_ctrl2 t) = tm_mon t" "field 8 7 (rtc_ctrl2 t) = tm_year t"
proof -
  have u: "unat (tm_sec t) < 2 ^ 6" "unat (tm_min t) < 2 ^ 6" "unat (tm_hour t) < 2 ^ 5"
      "unat (tm_mday t) < 2 ^ 5" "unat (tm_mon t) < 2 ^ 4" "unat (tm_year t) < 2 ^ 7"
    using assms by (simp_all add: rtc_range_def word_less_nat_alt)
  note zero = field_push_other [OF u(1), of 0] field_push_other [OF u(2)] field_push_other [OF u(3)]
    field_push_other [OF u(4)] field_push_other [OF u(5), of 0] field_push_other [OF u(6)]
  note same = field_push_same [OF u(1), of 0] field_push_same [OF u(2)] field_push_same [OF u(3)]
    field_push_same [OF u(4)] field_push_same [OF u(5), of 0] field_push_same [OF u(6)]
  show "field 0 6 (rtc_ctrl1 t) = tm_sec t" "field 8 6 (rtc_ctrl1 t) = tm_min t"
    "field 16 5 (rtc_ctrl1 t) = tm_hour t" "field 24 5 (rtc_ctrl1 t) = tm_mday t"
    "field 0 4 (rtc_ctrl2 t) = tm_mon t" "field 8 7 (rtc_ctrl2 t) = tm_year t"
    using zero same by (simp_all add: rtc_ctrl1_def rtc_ctrl2_def field_or)
qed

lemma rtc_year_wraps:
  assumes "tm_mon t < 16"
  shows "field 8 7 (rtc_ctrl2 t) = tm_year t mod 128"
proof -
  have "unat (tm_mon t) < 2 ^ 4" using assms by (simp add: word_less_nat_alt)
  from field_push_other [OF this, of 0 8 7] have "field 8 7 (tm_mon t) = 0" by simp
  moreover have "field 8 7 (push_bit 8 (tm_year t)) = take_bit 7 (tm_year t)"
    by (intro bit_eqI) (auto simp: bits bit_push_bit_iff bit_take_bit_iff)
  ultimately show ?thesis by (simp add: rtc_ctrl2_def field_or take_bit_eq_mod)
qed

lemma set_rtc_regs:
  "regs (tls_set_rtc t s) HR_PMU_RTC_CTRL1 = rtc_ctrl1 t"
  "regs (tls_set_rtc t s) HR_PMU_RTC_CTRL2 = rtc_ctrl2 t OR BIT 16"
  by (simp_all add: tls_set_rtc_def Let_def)

lemma timer_start_regs:
  "regs (tls_rtc_timer_start t s) HR_PMU_RTC_CTRL1 = rtc_ctrl1 t OR BIT 31"
  "regs (tls_rtc_timer_start t s) HR_PMU_RTC_CTRL2 = rtc_ctrl2 t OR BIT 16"
  by (simp_all add: tls_rtc_timer_start_def Let_def)

lemma rtc_get_packed:
  assumes "rtc_range t" "regs s HR_PMU_RTC_CTRL1 = rtc_ctrl1 t \<or> regs s HR_PMU_RTC_CTRL1 = rtc_ctrl1 t OR BIT 31"
    "regs s HR_PMU_RTC_CTRL2 = rtc_ctrl2 t OR BIT 16"
  shows "tls_get_rtc s = t"
  using assms(2,3) by (auto simp: get_rtc_fields field_or rtc_pack [OF assms(1)] field_BIT_other)

lemma ctrl1_no_alarm: "rtc_range t \<Longrightarrow> \<not> bit (rtc_ctrl1 t) 31"
proof
  assume r: "rtc_range t" and b: "bit (rtc_ctrl1 t) 31"
  have u: "unat (tm_sec t) < 2 ^ 6" "unat (tm_min t) < 2 ^ 6" "unat (tm_hour t) < 2 ^ 5" "unat (tm_mday t) < 2 ^ 5"
    using r by (simp_all add: rtc_range_def word_less_nat_alt)
  show False
    using b bit_small_unat [OF u(1), of 31] bit_small_unat [OF u(2), of 23] bit_small_unat [OF u(3), of 15]
      bit_small_unat [OF u(4), of 7]
    by (auto simp: rtc_ctrl1_def bit_or_iff bit_push_bit_iff)
qed

section \<open>Properties of the real-time clock\<close>

text \<open>A time in range is read back as it was set, by setting the clock and by starting
  the alarm; the clock is enabled in both cases, the alarm only in the second, and stopping
  the alarm keeps the time.\<close>

theorem rtc_roundtrip:
  assumes "rtc_range t"
  shows "tls_get_rtc (tls_set_rtc t s) = t \<and> \<not> bit (regs (tls_set_rtc t s) HR_PMU_RTC_CTRL1) 31
    \<and> tls_get_rtc (tls_rtc_timer_start t s) = t \<and> bit (regs (tls_rtc_timer_start t s) HR_PMU_RTC_CTRL1) 31
    \<and> tls_get_rtc (tls_rtc_timer_stop (tls_rtc_timer_start t s)) = t
    \<and> \<not> bit (regs (tls_rtc_timer_stop (tls_rtc_timer_start t s)) HR_PMU_RTC_CTRL1) 31
    \<and> bit (regs (tls_set_rtc t s) HR_PMU_RTC_CTRL2) 16
    \<and> bit (regs (tls_rtc_timer_start t s) HR_PMU_RTC_CTRL2) 16"
proof -
  have "(rtc_ctrl1 t OR BIT 31) AND NOT (BIT 31) = rtc_ctrl1 t"
    using ctrl1_no_alarm [OF assms] by (intro bit_eqI) (auto simp: bits)
  then have "tls_get_rtc (tls_rtc_timer_stop (tls_rtc_timer_start t s)) = t"
    by (intro rtc_get_packed [OF assms]) (simp_all add: tls_rtc_timer_stop_def timer_start_regs)
  moreover have "tls_get_rtc (tls_set_rtc t s) = t" "tls_get_rtc (tls_rtc_timer_start t s) = t"
    by (intro rtc_get_packed [OF assms]; simp add: set_rtc_regs timer_start_regs)+
  ultimately show ?thesis
    using ctrl1_no_alarm [OF assms]
    by (simp add: set_rtc_regs timer_start_regs tls_rtc_timer_stop_def bits)
qed

theorem rtc_roundtrip_witness:
  "tls_get_rtc (tls_set_rtc \<lparr>tm_sec = 59, tm_min = 58, tm_hour = 23, tm_mday = 31, tm_mon = 12, tm_year = 124\<rparr> mcu_reset)
   = \<lparr>tm_sec = 59, tm_min = 58, tm_hour = 23, tm_mday = 31, tm_mon = 12, tm_year = 124\<rparr>"
  using rtc_roundtrip [of "\<lparr>tm_sec = 59, tm_min = 58, tm_hour = 23, tm_mday = 31, tm_mon = 12, tm_year = 124\<rparr>" mcu_reset]
  by (simp add: rtc_range_def)

text \<open>The year is read back modulo 128: a clock set to 2028 (128 years after 1900) is
  read back as 1900.\<close>

theorem rtc_year_modulo:
  assumes "tm_mon t < 16"
  shows "tm_year (tls_get_rtc (tls_set_rtc t s)) = tm_year t mod 128"
  by (simp add: get_rtc_fields set_rtc_regs field_or field_BIT_other rtc_year_wraps [OF assms])

theorem rtc_year_modulo_witness:
  "tm_year (tls_get_rtc (tls_set_rtc \<lparr>tm_sec = 0, tm_min = 0, tm_hour = 0, tm_mday = 1, tm_mon = 1, tm_year = 128\<rparr> mcu_reset)) = 0"
  using rtc_year_modulo [of "\<lparr>tm_sec = 0, tm_min = 0, tm_hour = 0, tm_mday = 1, tm_mon = 1, tm_year = 128\<rparr>" mcu_reset]
  by simp

end
