(* ===== verification/Dma.thy ===== *)
theory Dma
  imports Slots Cpu_Pmu
begin

text \<open>
  The DMA driver, \<^verbatim>\<open>platform/drivers/dma/wm_dma.c\<close>: eight channels, handed out by
  \<open>tls_dma_request\<close> and taken back by \<open>tls_dma_free\<close>, with start, stop, completion
  polling and the interrupt service. Channel numbers are the values of the
  \<^verbatim>\<open>unsigned char\<close> argument. The loops that wait for the hardware read the channel
  control register again and again: \<open>poll k\<close> is the value the k-th read returns, an
  argument of the operations that poll; a loop that never ends is \<open>None\<close>.
\<close>

unbundle bit_operations_syntax

section \<open>Registers and state\<close>

abbreviation (input) "HR_DMA_INT_MASK \<equiv> 0x40000800 :: nat"
abbreviation (input) "HR_DMA_INT_SRC \<equiv> 0x40000804 :: nat"
abbreviation (input) "DMA_CHNL_REG_BASE \<equiv> 0x40000810 :: nat"
abbreviation "DMA_SRCADDR_REG ch \<equiv> DMA_CHNL_REG_BASE + 0x30 * ch + 0x00"
abbreviation "DMA_DESTADDR_REG ch \<equiv> DMA_CHNL_REG_BASE + 0x30 * ch + 0x04"
abbreviation "DMA_SRCWRAPADDR_REG ch \<equiv> DMA_CHNL_REG_BASE + 0x30 * ch + 0x08"
abbreviation "DMA_DESTWRAPADDR_REG ch \<equiv> DMA_CHNL_REG_BASE + 0x30 * ch + 0x0C"
abbreviation "DMA_WRAPSIZE_REG ch \<equiv> DMA_CHNL_REG_BASE + 0x30 * ch + 0x10"
abbreviation "DMA_CHNLCTRL_REG ch \<equiv> DMA_CHNL_REG_BASE + 0x30 * ch + 0x14"
abbreviation "DMA_MODE_REG ch \<equiv> DMA_CHNL_REG_BASE + 0x30 * ch + 0x18"
abbreviation "DMA_CTRL_REG ch \<equiv> DMA_CHNL_REG_BASE + 0x30 * ch + 0x1C"
abbreviation (input) "DMA_CHNL_CTRL_CHNL_ON \<equiv> 1 :: u32"
abbreviation (input) "DMA_CHNL_CTRL_CHNL_OFF \<equiv> 2 :: u32"
abbreviation (input) "TLS_DMA_FLAGS_CHANNEL_VALID \<equiv> 0x80 :: u8"
abbreviation (input) "TLS_DMA_IRQ_BURST_DONE \<equiv> 1 :: u8"
abbreviation (input) "TLS_DMA_IRQ_TRANSFER_DONE \<equiv> 2 :: u8"
abbreviation (input) "TLS_DMA_IRQ_BOTH_DONE \<equiv> 3 :: u8"
abbreviation (input) "DMA_Channel0_IRQn \<equiv> 4 :: nat"

record dma_irq_context =
  dma_flags :: u8
  burst_done_pf :: "nat option"
  burst_done_priv :: u32
  transfer_done_pf :: "nat option"
  transfer_done_priv :: u32

record tls_dma_descriptor =
  dd_valid :: u32
  dma_ctrl :: u32
  src_addr :: u32
  dest_addr :: u32

record dma_state = mcu +
  dma_used_bit :: u16
  dma_context :: "dma_irq_context list"
  channels :: "u8 list"
  dma_len :: "u32 list"

definition dma_calls :: "nat option \<Rightarrow> u32 \<Rightarrow> cb_call list" where
  "dma_calls pf priv = (case pf of None \<Rightarrow> [] | Some f \<Rightarrow> [(f, priv)])"

text \<open>\<^verbatim>\<open>f << 2 * ch\<close> on the interrupt registers: two bits per channel.\<close>

definition dma_bits :: "u8 \<Rightarrow> nat \<Rightarrow> u32" where
  "dma_bits flags ch = push_bit (2 * ch) (ucast flags)"

section \<open>Waiting for the channel\<close>

text \<open>\<^verbatim>\<open>while (DMA_CHNLCTRL_REG(ch) & DMA_CHNL_CTRL_CHNL_ON);\<close> from the k-th read on:
  the number of the read that ends it.\<close>

partial_function (option) dma_spin :: "(nat \<Rightarrow> u32) \<Rightarrow> nat \<Rightarrow> nat option" where
  "dma_spin poll k = (if poll k AND DMA_CHNL_CTRL_CHNL_ON \<noteq> 0 then dma_spin poll (k + 1) else Some k)"

text \<open>The bounded wait of \<^verbatim>\<open>tls_dma_wait_complt\<close>: \<^verbatim>\<open>timeout\<close> counts the delays.\<close>

function dma_wait_loop :: "(nat \<Rightarrow> u32) \<Rightarrow> nat \<Rightarrow> int" where
  "dma_wait_loop poll timeout =
     (if poll timeout AND DMA_CHNL_CTRL_CHNL_ON \<noteq> 0 then
        if timeout + 1 > 500 then -1 else dma_wait_loop poll (timeout + 1)
      else 0)"
  by auto
termination by (relation "measure (\<lambda>(_, timeout). 501 - timeout)") auto

declare dma_wait_loop.simps [simp del]

definition tls_dma_wait_complt :: "(nat \<Rightarrow> u32) \<Rightarrow> int" where
  "tls_dma_wait_complt poll = dma_wait_loop poll 0"

section \<open>Operations\<close>

definition tls_dma_irq_clr :: "nat \<Rightarrow> u8 \<Rightarrow> 'a mcu_scheme \<Rightarrow> 'a mcu_scheme" where
  "tls_dma_irq_clr ch flags s = tls_reg_write32 HR_DMA_INT_SRC (dma_bits flags ch) s"

definition dma_scan_hi :: "u32 \<Rightarrow> nat" where
  "dma_scan_hi int_src =
     (if int_src AND dma_bits TLS_DMA_IRQ_BOTH_DONE 4 \<noteq> 0 then 4
      else if int_src AND dma_bits TLS_DMA_IRQ_BOTH_DONE 5 \<noteq> 0 then 5
      else if int_src AND dma_bits TLS_DMA_IRQ_BOTH_DONE 6 \<noteq> 0 then 6
      else if int_src AND dma_bits TLS_DMA_IRQ_BOTH_DONE 7 \<noteq> 0 then 7
      else 8)"

text \<open>The length bookkeeping of an automatically reloaded transfer.\<close>

definition dma_reload :: "(nat \<Rightarrow> u32) \<Rightarrow> nat \<Rightarrow> 'a dma_state_scheme \<Rightarrow> 'a dma_state_scheme option" where
  "dma_reload poll ch s =
     (let temp = tls_reg_read32 (DMA_CTRL_REG ch) s;
          s = (if dma_len s ! ch = 0
               then s\<lparr>dma_len := (dma_len s)[ch := drop_bit 8 (temp AND 0xFFFF00)]\<rparr> else s);
          cur_len = drop_bit 8 (temp AND 0xFFFF00);
          r = (if cur_len + dma_len s ! ch > 0xFFFF then
                 let s = reg_or (DMA_CHNLCTRL_REG ch) 2 s
                 in case dma_spin poll 0 of
                      None \<Rightarrow> None
                    | Some k \<Rightarrow>
                        let s = tls_reg_write32 (DMA_CHNLCTRL_REG ch) (poll k) s
                        in Some (0, reg_or (DMA_CHNLCTRL_REG ch) 1 s)
               else Some (cur_len, s))
      in case r of
           None \<Rightarrow> None
         | Some (cur_len, s) \<Rightarrow>
             let temp = temp AND NOT (push_bit 8 0xFFFF);
                 temp = temp OR push_bit 8 (cur_len + dma_len s ! ch)
             in Some (tls_reg_write32 (DMA_CTRL_REG ch) temp s))"

definition dma_irq_serve ::
    "u32 \<Rightarrow> nat \<Rightarrow> 'a dma_state_scheme \<Rightarrow> cb_call list \<times> 'a dma_state_scheme" where
  "dma_irq_serve int_src ch s =
     (let c = dma_context s ! ch
      in if int_src AND dma_bits TLS_DMA_IRQ_BOTH_DONE ch \<noteq> 0 \<and> dma_flags c = TLS_DMA_IRQ_BOTH_DONE then
           (dma_calls (burst_done_pf c) (burst_done_priv c), tls_dma_irq_clr ch TLS_DMA_IRQ_BOTH_DONE s)
         else if int_src AND dma_bits TLS_DMA_IRQ_BURST_DONE ch \<noteq> 0 \<and> dma_flags c = TLS_DMA_IRQ_BURST_DONE then
           (dma_calls (burst_done_pf c) (burst_done_priv c), tls_dma_irq_clr ch TLS_DMA_IRQ_BOTH_DONE s)
         else if int_src AND dma_bits TLS_DMA_IRQ_TRANSFER_DONE ch \<noteq> 0 \<and> dma_flags c = TLS_DMA_IRQ_TRANSFER_DONE then
           (dma_calls (transfer_done_pf c) (transfer_done_priv c), tls_dma_irq_clr ch TLS_DMA_IRQ_BOTH_DONE s)
         else ([], s))"

definition dma_irq_proc ::
    "(nat \<Rightarrow> u32) \<Rightarrow> nat \<Rightarrow> 'a dma_state_scheme \<Rightarrow> (cb_call list \<times> 'a dma_state_scheme) option" where
  "dma_irq_proc poll p s =
     (let int_src = tls_reg_read32 HR_DMA_INT_SRC s;
          ch = (if p > 3 then dma_scan_hi int_src else p)
      in if ch = 8 then Some ([], s)
         else if tls_reg_read32 (DMA_CTRL_REG ch) s AND 1 \<noteq> 0 then
           (case dma_reload poll ch s of None \<Rightarrow> None | Some s \<Rightarrow> Some (dma_irq_serve int_src ch s))
         else Some (dma_irq_serve int_src ch s))"

definition DMA_Channel0_IRQHandler where "DMA_Channel0_IRQHandler poll s = dma_irq_proc poll 0 s"
definition DMA_Channel1_IRQHandler where "DMA_Channel1_IRQHandler poll s = dma_irq_proc poll 1 s"
definition DMA_Channel2_IRQHandler where "DMA_Channel2_IRQHandler poll s = dma_irq_proc poll 2 s"
definition DMA_Channel3_IRQHandler where "DMA_Channel3_IRQHandler poll s = dma_irq_proc poll 3 s"
definition DMA_Channel4_7_IRQHandler where "DMA_Channel4_7_IRQHandler poll s = dma_irq_proc poll 4 s"

text \<open>A channel outside the context array is a store outside the array, \<open>None\<close>.\<close>

definition tls_dma_irq_register ::
    "nat \<Rightarrow> nat option \<Rightarrow> u32 \<Rightarrow> u8 \<Rightarrow> 'a dma_state_scheme \<Rightarrow> 'a dma_state_scheme option" where
  "tls_dma_irq_register ch cb a flags s =
     (if ch \<ge> length (dma_context s) then None
      else
        let mask = tls_reg_read32 HR_DMA_INT_MASK s;
            mask = mask OR dma_bits TLS_DMA_IRQ_BOTH_DONE ch;
            mask = mask AND NOT (dma_bits flags ch);
            s = tls_reg_write32 HR_DMA_INT_MASK mask s;
            c = (dma_context s ! ch)\<lparr>dma_flags := flags\<rparr>;
            c = (if flags AND TLS_DMA_IRQ_BURST_DONE \<noteq> 0
                 then c\<lparr>burst_done_pf := cb, burst_done_priv := a\<rparr> else c);
            c = (if flags AND TLS_DMA_IRQ_TRANSFER_DONE \<noteq> 0
                 then c\<lparr>transfer_done_pf := cb, transfer_done_priv := a\<rparr> else c);
            s = s\<lparr>dma_context := (dma_context s)[ch := c]\<rparr>;
            ch = (if ch > 3 then 4 else ch);
            s = tls_irq_priority (DMA_Channel0_IRQn + ch) (of_nat (ch div 2)) s
        in Some (tls_irq_enable (DMA_Channel0_IRQn + ch) s))"

text \<open>The two start functions refuse a call only when the channel is out of range and the
  descriptor is missing as well; a missing descriptor alone is dereferenced (\<open>None\<close>).\<close>

definition dma_ctrl_word :: "tls_dma_descriptor \<Rightarrow> u8 \<Rightarrow> u32" where
  "dma_ctrl_word d auto_reload =
     push_bit 1 (dma_ctrl d AND 0x7fffff) OR (if auto_reload \<noteq> 0 then 1 else 0)"

definition tls_dma_start_by_wrap ::
    "nat \<Rightarrow> tls_dma_descriptor option \<Rightarrow> u8 \<Rightarrow> u16 \<Rightarrow> u16 \<Rightarrow> 'a mcu_scheme \<Rightarrow> (u8 \<times> 'a mcu_scheme) option" where
  "tls_dma_start_by_wrap ch dma_desc auto_reload src_zize dest_zize s =
     (if ch > 7 \<and> dma_desc = None then Some (1, s)
      else case dma_desc of
        None \<Rightarrow> None
      | Some d \<Rightarrow>
          let s = tls_reg_write32 (DMA_SRCWRAPADDR_REG ch) (src_addr d) s;
              s = tls_reg_write32 (DMA_DESTWRAPADDR_REG ch) (dest_addr d) s;
              s = tls_reg_write32 (DMA_WRAPSIZE_REG ch) (push_bit 16 (ucast dest_zize) OR ucast src_zize) s;
              s = tls_reg_write32 (DMA_CTRL_REG ch) (dma_ctrl_word d auto_reload) s
          in Some (0, reg_or (DMA_CHNLCTRL_REG ch) DMA_CHNL_CTRL_CHNL_ON s))"

definition tls_dma_start ::
    "nat \<Rightarrow> tls_dma_descriptor option \<Rightarrow> u8 \<Rightarrow> 'a dma_state_scheme \<Rightarrow> (u8 \<times> 'a dma_state_scheme) option" where
  "tls_dma_start ch dma_desc auto_reload s =
     (if ch > 7 \<and> dma_desc = None then Some (1, s)
      else
        let s = (if ucast (dma_used_bit s) AND BIT ch = 0
                 then s\<lparr>dma_used_bit := ucast (ucast (dma_used_bit s) OR BIT ch)\<rparr> else s)
        in case dma_desc of
             None \<Rightarrow> None
           | Some d \<Rightarrow>
               let s = tls_reg_write32 (DMA_SRCADDR_REG ch) (src_addr d) s;
                   s = tls_reg_write32 (DMA_DESTADDR_REG ch) (dest_addr d) s;
                   s = tls_reg_write32 (DMA_CTRL_REG ch) (dma_ctrl_word d auto_reload) s
               in Some (0, reg_or (DMA_CHNLCTRL_REG ch) DMA_CHNL_CTRL_CHNL_ON s))"

definition tls_dma_stop ::
    "(nat \<Rightarrow> u32) \<Rightarrow> nat \<Rightarrow> 'a mcu_scheme \<Rightarrow> (u8 \<times> 'a mcu_scheme) option" where
  "tls_dma_stop poll ch s =
     (if ch > 7 then Some (1, s)
      else if tls_reg_read32 (DMA_CHNLCTRL_REG ch) s AND DMA_CHNL_CTRL_CHNL_ON \<noteq> 0 then
        let s = reg_or (DMA_CHNLCTRL_REG ch) DMA_CHNL_CTRL_CHNL_OFF s
        in case dma_spin poll 0 of
             None \<Rightarrow> None
           | Some k \<Rightarrow> Some (0, tls_reg_write32 (DMA_CHNLCTRL_REG ch) (poll k) s)
      else Some (0, s))"

text \<open>The search loop of \<^verbatim>\<open>tls_dma_request\<close>; 8 when every channel is taken.\<close>

definition dma_valid :: "nat \<Rightarrow> 'a dma_state_scheme \<Rightarrow> bool" where
  "dma_valid i s \<longleftrightarrow> channels s ! i AND TLS_DMA_FLAGS_CHANNEL_VALID \<noteq> 0"

function dma_first_free :: "'a dma_state_scheme \<Rightarrow> nat \<Rightarrow> nat" where
  "dma_first_free s i =
     (if i < 8 then if \<not> dma_valid i s then i else dma_first_free s (i + 1) else i)"
  by auto
termination by (relation "measure (\<lambda>(_, i). 8 - i)") auto

declare dma_first_free.simps [simp del]

definition tls_dma_request :: "nat \<Rightarrow> u8 \<Rightarrow> 'a dma_state_scheme \<Rightarrow> nat \<times> 'a dma_state_scheme" where
  "tls_dma_request ch flags s =
     (let freeCh = (if ch < 8 then if \<not> dma_valid ch s then ch else 0xFF else 0xFF);
          freeCh = (if freeCh = 0xFF
                    then let i = dma_first_free s 0 in if i < 8 then i else 0xFF
                    else freeCh)
      in if freeCh < 8 then
           let s = (if dma_used_bit s = 0 then tls_open_peripheral_clock TLS_PERIPHERAL_TYPE_DMA s else s);
               s = s\<lparr>dma_used_bit := ucast (ucast (dma_used_bit s) OR BIT freeCh)\<rparr>;
               s = s\<lparr>channels := (channels s)[freeCh := flags OR TLS_DMA_FLAGS_CHANNEL_VALID]\<rparr>
           in (freeCh, tls_reg_write32 (DMA_MODE_REG freeCh) (ucast flags) s)
         else (freeCh, s))"

definition tls_dma_free :: "(nat \<Rightarrow> u32) \<Rightarrow> nat \<Rightarrow> 'a dma_state_scheme \<Rightarrow> 'a dma_state_scheme option" where
  "tls_dma_free poll ch s =
     (if ch < 8 then
        case tls_dma_stop poll ch s of
          None \<Rightarrow> None
        | Some (_, s) \<Rightarrow>
            let s = tls_reg_write32 (DMA_SRCADDR_REG ch) 0 s;
                s = tls_reg_write32 (DMA_DESTADDR_REG ch) 0 s;
                s = tls_reg_write32 (DMA_MODE_REG ch) 0 s;
                s = tls_reg_write32 (DMA_CTRL_REG ch) 0 s;
                s = reg_or HR_DMA_INT_SRC (dma_bits 3 ch) s;
                s = s\<lparr>channels := (channels s)[ch := 0]\<rparr>;
                s = s\<lparr>dma_used_bit := ucast (ucast (dma_used_bit s) AND NOT (BIT ch))\<rparr>
            in Some (if dma_used_bit s = 0 then tls_close_peripheral_clock TLS_PERIPHERAL_TYPE_DMA s else s)
      else Some s)"

definition tls_dma_init :: "'a dma_state_scheme \<Rightarrow> 'a dma_state_scheme" where
  "tls_dma_init s =
     (let value = fold (\<lambda>i value. if ucast (dma_used_bit s) AND BIT i = 0 then value OR dma_bits 3 i else value)
                    [0..<8] 0;
          s = tls_reg_write32 HR_DMA_INT_MASK value s
      in tls_reg_write32 HR_DMA_INT_SRC value s)"

section \<open>The waiting loops\<close>

lemma dma_spin_ends:
  assumes "\<exists>k. poll k AND 1 = 0"
  shows "dma_spin poll 0 = Some (LEAST k. poll k AND 1 = 0)"
proof -
  let ?k = "LEAST k. poll k AND 1 = 0"
  have e: "poll ?k AND 1 = 0" using assms by (rule LeastI_ex)
  have on: "poll j AND 1 \<noteq> 0" if "j < ?k" for j using not_less_Least [OF that] .
  have "dma_spin poll j = Some ?k" if "j \<le> ?k" for j
    using that
  proof (induction "?k - j" arbitrary: j)
    case 0
    then have "j = ?k" by simp
    with e show ?case by (subst dma_spin.simps) simp
  next
    case (Suc n)
    then have "j < ?k" by simp
    from Suc(1) [of "j + 1"] Suc(2) this have "dma_spin poll (j + 1) = Some ?k" by simp
    with on [OF \<open>j < ?k\<close>] show ?case by (subst dma_spin.simps) simp
  qed
  then show ?thesis by simp
qed

lemma dma_wait_loop_spec:
  "t \<le> 500 \<Longrightarrow> dma_wait_loop poll t = (if \<exists>k. t \<le> k \<and> k \<le> 500 \<and> poll k AND 1 = 0 then 0 else -1)"
proof (induction poll t rule: dma_wait_loop.induct)
  case (1 poll t)
  have split: "(\<exists>k. t \<le> k \<and> k \<le> 500 \<and> poll k AND 1 = 0) \<longleftrightarrow>
      poll t AND 1 = 0 \<or> (\<exists>k. t + 1 \<le> k \<and> k \<le> 500 \<and> poll k AND 1 = 0)"
    using 1(2) all_from_le [of t 500 "\<lambda>k. poll k AND 1 \<noteq> 0"] by auto
  show ?case
  proof (cases "poll t AND 1 \<noteq> 0 \<and> t + 1 \<le> 500")
    case True
    then show ?thesis using 1 split by (subst dma_wait_loop.simps) simp
  next
    case False
    then show ?thesis using 1(2) split by (subst dma_wait_loop.simps) auto
  qed
qed

section \<open>Channel allocation\<close>

lemma dma_fields_frame [simp]:
  "dma_used_bit (tls_reg_write32 r v s) = dma_used_bit s"
  "dma_used_bit (reg_or r v s) = dma_used_bit s"
  "dma_used_bit (tls_open_peripheral_clock d s) = dma_used_bit s"
  "dma_used_bit (tls_close_peripheral_clock d s) = dma_used_bit s"
  "channels (tls_reg_write32 r v s) = channels s"
  "channels (reg_or r v s) = channels s"
  "channels (tls_open_peripheral_clock d s) = channels s"
  "channels (tls_close_peripheral_clock d s) = channels s"
  "dma_context (tls_reg_write32 r v s) = dma_context s"
  "dma_context (reg_or r v s) = dma_context s"
  "dma_len (tls_reg_write32 r v s) = dma_len s"
  "dma_len (reg_or r v s) = dma_len s"
  by (simp_all add: reg_or_def tls_reg_write32_def tls_open_peripheral_clock_def
      tls_close_peripheral_clock_def reg_andn_def)

lemma u16_set: "bit (ucast (ucast (b :: u16) OR BIT i) :: u16) n \<longleftrightarrow> n < 16 \<and> (bit b n \<or> n = i)"
  by (auto simp: bit_unsigned_iff bit_or_iff bits)

lemma u16_bit_less: "bit (b :: u16) n \<Longrightarrow> n < 16"
  using bit_imp_le_length [of b n] by simp

lemma u16_clear: "bit (ucast (ucast (b :: u16) AND NOT (BIT i)) :: u16) n \<longleftrightarrow> bit b n \<and> n \<noteq> i"
  by (auto simp: bit_unsigned_iff bit_and_iff bit_not_iff bits dest: u16_bit_less)

lemma dma_first_free_spec:
  "i \<le> 8 \<Longrightarrow> dma_first_free s i = k \<Longrightarrow>
     k \<le> 8 \<and> (\<forall>j. i \<le> j \<and> j < k \<longrightarrow> dma_valid j s) \<and> (k < 8 \<longrightarrow> \<not> dma_valid k s)"
proof (induction s i arbitrary: k rule: dma_first_free.induct)
  case (1 s i)
  show ?case
  proof (cases "i < 8 \<and> dma_valid i s")
    case True
    then have "dma_first_free s (i + 1) = k"
      using 1(3) by (subst (asm) dma_first_free.simps) simp
    with True 1(1) have "k \<le> 8 \<and> (\<forall>j. i + 1 \<le> j \<and> j < k \<longrightarrow> dma_valid j s) \<and> (k < 8 \<longrightarrow> \<not> dma_valid k s)"
      by simp
    with True show ?thesis by (subst all_from_less) auto
  next
    case False
    with 1(2,3) show ?thesis
      by (subst (asm) dma_first_free.simps) (auto split: if_splits)
  qed
qed

lemmas dma_first_free_0 = dma_first_free_spec [of 0, simplified]

text \<open>Eight channels; an allocated channel is marked used; the clock of the block is open
  exactly while a channel is marked used.\<close>

definition dma_inv :: "'a dma_state_scheme \<Rightarrow> bool" where
  "dma_inv s \<longleftrightarrow> length (channels s) = 8 \<and> length (dma_context s) = 8 \<and> length (dma_len s) = 8
     \<and> (\<forall>i<8. dma_valid i s \<longrightarrow> bit (dma_used_bit s) i)
     \<and> (bit (regs s HR_CLK_BASE_ADDR) 8 \<longleftrightarrow> dma_used_bit s \<noteq> 0)"

definition dma_choice :: "nat \<Rightarrow> 'a dma_state_scheme \<Rightarrow> nat" where
  "dma_choice ch s = (if ch < 8 \<and> \<not> dma_valid ch s then ch else dma_first_free s 0)"

lemma dma_choice_spec:
  "dma_choice ch s \<le> 8" "dma_choice ch s < 8 \<Longrightarrow> \<not> dma_valid (dma_choice ch s) s"
  "dma_choice ch s = 8 \<Longrightarrow> \<forall>i<8. dma_valid i s"
  using dma_first_free_0 [OF refl, of s] by (auto simp: dma_choice_def split: if_splits)

lemma request_eq:
  "tls_dma_request ch flags s =
     (let i = dma_choice ch s in
      if i < 8 then
        let s' = (if dma_used_bit s = 0 then tls_open_peripheral_clock TLS_PERIPHERAL_TYPE_DMA s else s);
            s' = s'\<lparr>dma_used_bit := ucast (ucast (dma_used_bit s) OR BIT i),
                    channels := (channels s)[i := flags OR TLS_DMA_FLAGS_CHANNEL_VALID]\<rparr>
        in (i, tls_reg_write32 (DMA_MODE_REG i) (ucast flags) s')
      else (0xFF, s))"
  by (auto simp: tls_dma_request_def dma_choice_def Let_def)

lemma valid_flag: "(flags OR 0x80) AND 0x80 \<noteq> (0 :: u8)"
proof -
  have "bit (0x80 :: u8) 7" by simp
  then have "bit ((flags OR 0x80) AND 0x80) 7" by (simp add: bit_and_iff bit_or_iff)
  then show ?thesis by auto
qed

lemma request_fields:
  assumes "dma_inv s" "dma_choice ch s < 8" "tls_dma_request ch flags s = (i, s')"
  shows "i = dma_choice ch s"
    and "dma_valid j s' \<longleftrightarrow> j = i \<or> dma_valid j s"
    and "dma_inv s'"
proof -
  let ?c = "dma_choice ch s"
  have len: "length (channels s) = 8" using assms(1) by (simp add: dma_inv_def)
  show i: "i = ?c" using assms(2,3) by (simp add: request_eq Let_def)
  have ch: "channels s' = (channels s)[?c := flags OR 0x80]"
    and u: "dma_used_bit s' = ucast (ucast (dma_used_bit s) OR BIT ?c)"
    and x: "dma_context s' = dma_context s" "dma_len s' = dma_len s"
    using assms(2,3) by (auto simp: request_eq Let_def tls_open_peripheral_clock_def)
  have clk: "regs s' HR_CLK_BASE_ADDR = (if dma_used_bit s = 0 then regs s HR_CLK_BASE_ADDR OR BIT 8 else regs s HR_CLK_BASE_ADDR)"
    using assms(2,3) by (auto simp: request_eq Let_def)
  show v: "dma_valid j s' \<longleftrightarrow> j = i \<or> dma_valid j s" for j
    unfolding i dma_valid_def ch using assms(2) len
    by (cases "j = ?c") (simp_all add: valid_flag)
  have ub: "bit (dma_used_bit s') n \<longleftrightarrow> bit (dma_used_bit s) n \<or> n = ?c" for n
    using assms(2) by (auto simp: u u16_set dest: u16_bit_less)
  then have nz: "dma_used_bit s' \<noteq> 0" by (metis bit_0_eq bot_apply bot_bool_def)
  have "bit (regs s' HR_CLK_BASE_ADDR) 8"
    using assms(1) by (simp add: clk dma_inv_def bits)
  with nz show "dma_inv s'"
    using assms(1) unfolding dma_inv_def v ub by (auto simp: ch x i)
qed

lemma stop_fields:
  assumes "tls_dma_stop poll ch s = Some (r, s')"
  shows "dma_used_bit s' = dma_used_bit s" "channels s' = channels s" "dma_context s' = dma_context s"
    "dma_len s' = dma_len s" "q \<noteq> DMA_CHNLCTRL_REG ch \<Longrightarrow> regs s' q = regs s q"
  using assms by (auto simp: tls_dma_stop_def Let_def split: if_splits option.splits)

lemma free_total:
  assumes "\<exists>k. poll k AND 1 = 0"
  obtains s' where "tls_dma_free poll ch s = Some s'"
proof -
  obtain k where "dma_spin poll 0 = Some k" using dma_spin_ends [OF assms] by blast
  then have "tls_dma_stop poll ch s \<noteq> None" by (simp add: tls_dma_stop_def Let_def)
  then obtain p where "tls_dma_stop poll ch s = Some p" by blast
  then have "tls_dma_free poll ch s \<noteq> None" by (cases p) (simp add: tls_dma_free_def Let_def)
  then show ?thesis using that by blast
qed

lemma free_fields:
  assumes "dma_inv s" "i < 8" "tls_dma_free poll i s = Some s'"
  shows "dma_valid j s' \<longleftrightarrow> j \<noteq> i \<and> dma_valid j s" and "dma_inv s'"
proof -
  obtain r t where t: "tls_dma_stop poll i s = Some (r, t)"
    using assms(2,3) by (auto simp: tls_dma_free_def split: option.splits)
  note f = stop_fields [OF t]
  have len: "length (channels s) = 8" using assms(1) by (simp add: dma_inv_def)
  have ch: "channels s' = (channels s)[i := 0]"
    and u: "dma_used_bit s' = ucast (ucast (dma_used_bit s) AND NOT (BIT i))"
    and x: "dma_context s' = dma_context s" "dma_len s' = dma_len s"
    using assms(2,3) by (auto simp: tls_dma_free_def t Let_def f tls_close_peripheral_clock_def reg_andn_def
        tls_reg_write32_def reg_or_def)
  have k: "regs t HR_CLK_BASE_ADDR = regs s HR_CLK_BASE_ADDR" using assms(2) by (intro f(5)) simp
  have clk: "regs s' HR_CLK_BASE_ADDR = (if dma_used_bit s' = 0 then regs s HR_CLK_BASE_ADDR AND NOT (BIT 8) else regs s HR_CLK_BASE_ADDR)"
    using assms(2,3) by (auto simp: tls_dma_free_def t Let_def f k)
  show v: "dma_valid j s' \<longleftrightarrow> j \<noteq> i \<and> dma_valid j s" for j
    unfolding dma_valid_def ch using assms(2) len by (cases "j = i") simp_all
  have ub: "bit (dma_used_bit s') n \<longleftrightarrow> bit (dma_used_bit s) n \<and> n \<noteq> i" for n
    by (simp add: u u16_clear)
  have "dma_used_bit s' \<noteq> 0 \<Longrightarrow> dma_used_bit s \<noteq> 0"
    using ub by (auto simp: bit_eq_iff)
  then have "bit (regs s' HR_CLK_BASE_ADDR) 8 \<longleftrightarrow> dma_used_bit s' \<noteq> 0"
    using assms(1) by (auto simp: clk dma_inv_def bits)
  then show "dma_inv s'"
    using assms(1) unfolding dma_inv_def v ub by (auto simp: ch x)
qed

text \<open>The channels as slots. The hardware must switch a stopped channel off at some read
  of its control register; the release is then total.\<close>

definition dma_good :: "(nat \<Rightarrow> u32) \<Rightarrow> 'a dma_state_scheme \<Rightarrow> bool" where
  "dma_good poll s \<longleftrightarrow> dma_inv s \<and> (\<exists>k. poll k AND 1 = 0)"

definition dma_alloc :: "nat \<times> u8 \<Rightarrow> 'a dma_state_scheme \<Rightarrow> (nat \<times> 'a dma_state_scheme) option" where
  "dma_alloc c s = (let (i, s') = tls_dma_request (fst c) (snd c) s in if i = 0xFF then None else Some (i, s'))"

definition dma_release :: "(nat \<Rightarrow> u32) \<Rightarrow> nat \<Rightarrow> 'a dma_state_scheme \<Rightarrow> 'a dma_state_scheme" where
  "dma_release poll i s = (case tls_dma_free poll i s of None \<Rightarrow> s | Some s' \<Rightarrow> s')"

definition dma_in_use :: "'a dma_state_scheme \<Rightarrow> nat set" where
  "dma_in_use s = {i. i < 8 \<and> dma_valid i s}"

lemma dma_alloc_cases:
  assumes "dma_inv s"
  obtains (full) "{..<8} \<subseteq> dma_in_use s" "dma_alloc c s = None" "tls_dma_request (fst c) (snd c) s = (0xFF, s)"
  | (fresh) i s' where "i = dma_choice (fst c) s" "i < 8" "tls_dma_request (fst c) (snd c) s = (i, s')"
      "dma_alloc c s = Some (i, s')"
proof (cases "dma_choice (fst c) s < 8")
  case True
  obtain i s' where r: "tls_dma_request (fst c) (snd c) s = (i, s')" by (meson surj_pair)
  have "i = dma_choice (fst c) s" by (rule request_fields(1) [OF assms True r])
  with True r fresh show ?thesis by (simp add: dma_alloc_def)
next
  case False
  then have "dma_choice (fst c) s = 8" using dma_choice_spec(1) [of "fst c" s] by simp
  with dma_choice_spec(3) full show ?thesis by (auto simp: dma_alloc_def request_eq Let_def dma_in_use_def)
qed

interpretation dma_slots: slots "dma_good poll" dma_in_use dma_alloc "dma_release poll" 8
proof unfold_locales
  fix s s' :: "'a dma_state_scheme" and c i
  assume g: "dma_good poll s" and a: "dma_alloc c s = Some (i, s')"
  then have inv: "dma_inv s" by (simp add: dma_good_def)
  from inv show "dma_good poll s' \<and> i < 8 \<and> i \<notin> dma_in_use s \<and> dma_in_use s' = insert i (dma_in_use s)"
  proof (cases rule: dma_alloc_cases [of s c])
    case (fresh j t)
    with a have e: "j = i" "t = s'" by simp_all
    have lt: "dma_choice (fst c) s < 8" using fresh(1,2) by simp
    show ?thesis
      using request_fields [OF inv lt fresh(3)] dma_choice_spec(2) [OF lt] fresh(1,2) g
      by (auto simp: e dma_good_def dma_in_use_def)
  qed (use a in simp)
next
  fix s :: "'a dma_state_scheme" and c
  assume a: "dma_good poll s" "dma_alloc c s = None"
  then have "dma_inv s" by (simp add: dma_good_def)
  then show "{..<8} \<subseteq> dma_in_use s"
    by (cases rule: dma_alloc_cases [of s c]) (use a(2) in auto)
next
  fix s :: "'a dma_state_scheme" and i
  assume g: "dma_good poll s" and i: "i \<in> dma_in_use s"
  then obtain s' where s': "tls_dma_free poll i s = Some s'"
    using free_total [of poll i s] by (auto simp: dma_good_def)
  have inv: "dma_inv s" and lt: "i < 8" using g i by (auto simp: dma_good_def dma_in_use_def)
  from free_fields [OF inv lt s'] g show "dma_good poll (dma_release poll i s) \<and>
      dma_in_use (dma_release poll i s) = dma_in_use s - {i}"
    by (auto simp: dma_release_def s' dma_good_def dma_in_use_def)
next
  fix s :: "'a dma_state_scheme"
  show "dma_in_use s \<subseteq> {..<8}" by (auto simp: dma_in_use_def)
qed

section \<open>Interrupt service\<close>

lemma dma_bits_bit: "bit (dma_bits f ch) n \<longleftrightarrow> n < 32 \<and> 2 * ch \<le> n \<and> bit f (n - 2 * ch)"
proof -
  have "bit f (n - 2 * ch) \<Longrightarrow> n - 2 * ch < 8" using bit_imp_le_length [of f "n - 2 * ch"] by simp
  then show ?thesis by (auto simp: dma_bits_def bit_push_bit_iff bit_unsigned_iff)
qed

lemma bit_u8_3: "bit (3 :: u8) n \<longleftrightarrow> n < 2"
proof -
  have "(3 :: u8) = mask 2" by (simp add: mask_eq_exp_minus_1)
  then show ?thesis by (simp only: bit_mask_iff) auto
qed

lemma both_pending: "ch < 8 \<Longrightarrow> x AND dma_bits 3 ch \<noteq> 0 \<longleftrightarrow> bit x (2 * ch) \<or> bit x (2 * ch + 1)" for x :: u32
proof -
  assume "ch < 8"
  have "x AND dma_bits 3 ch \<noteq> 0 \<longleftrightarrow> (\<exists>n. bit x n \<and> bit (dma_bits 3 ch) n)"
    by (auto simp: bit_eq_iff bit_and_iff dest: bit_u32_less)
  also have "\<dots> \<longleftrightarrow> (\<exists>n. bit x n \<and> (n = 2 * ch \<or> n = 2 * ch + 1))"
  proof -
    have "bit (dma_bits 3 ch) n \<longleftrightarrow> n = 2 * ch \<or> n = 2 * ch + 1" for n
      unfolding dma_bits_bit bit_u8_3 using \<open>ch < 8\<close> by auto
    then show ?thesis by simp
  qed
  finally show ?thesis by auto
qed

lemma one_pending:
  "ch < 8 \<Longrightarrow> x AND dma_bits 1 ch \<noteq> 0 \<longleftrightarrow> bit x (2 * ch)"
  "ch < 8 \<Longrightarrow> x AND dma_bits 2 ch \<noteq> 0 \<longleftrightarrow> bit x (2 * ch + 1)" for x :: u32
proof -
  assume "ch < 8"
  have "dma_bits 1 ch = BIT (2 * ch)" by (simp add: dma_bits_def BIT_def)
  then show "x AND dma_bits 1 ch \<noteq> 0 \<longleftrightarrow> bit x (2 * ch)" by (simp add: and_BIT_eq_0)
  have "dma_bits 2 ch = BIT (2 * ch + 1)"
    by (simp add: dma_bits_def BIT_def push_bit_eq_mult)
  then show "x AND dma_bits 2 ch \<noteq> 0 \<longleftrightarrow> bit x (2 * ch + 1)" by (simp add: and_BIT_eq_0)
qed

lemma register_fields:
  assumes "tls_dma_irq_register ch cb a flags s = Some s'" "ch < 8" "flags \<in> {1, 2, 3}"
  shows "dma_flags (dma_context s' ! ch) = flags"
    and "flags \<in> {1, 3} \<Longrightarrow> burst_done_pf (dma_context s' ! ch) = cb \<and> burst_done_priv (dma_context s' ! ch) = a"
    and "flags \<in> {2, 3} \<Longrightarrow> transfer_done_pf (dma_context s' ! ch) = cb \<and> transfer_done_priv (dma_context s' ! ch) = a"
proof -
  have x: "dma_context (tls_irq_enable n (tls_irq_priority n p t)) = dma_context t" for n p and t :: "'a dma_state_scheme"
    by (simp add: tls_irq_enable_def tls_irq_priority_def nvic_def Let_def)
  show "dma_flags (dma_context s' ! ch) = flags"
     "flags \<in> {1, 3} \<Longrightarrow> burst_done_pf (dma_context s' ! ch) = cb \<and> burst_done_priv (dma_context s' ! ch) = a"
     "flags \<in> {2, 3} \<Longrightarrow> transfer_done_pf (dma_context s' ! ch) = cb \<and> transfer_done_priv (dma_context s' ! ch) = a"
    using assms by (auto simp: tls_dma_irq_register_def Let_def x split: if_splits)
qed

section \<open>Properties of the DMA driver\<close>

definition dma_reset :: dma_state where
  "dma_reset = \<lparr>regs = (\<lambda>_. 0), irqen_status = 0, nvic_log = [], dma_used_bit = 0,
     dma_context = replicate 8 \<lparr>dma_flags = 0, burst_done_pf = None, burst_done_priv = 0,
       transfer_done_pf = None, transfer_done_priv = 0\<rparr>,
     channels = replicate 8 0, dma_len = replicate 8 0\<rparr>"

lemma dma_reset_inv: "dma_inv dma_reset"
  by (simp add: dma_inv_def dma_reset_def dma_valid_def)

text \<open>\<^verbatim>\<open>tls_dma_request\<close> returns the channel asked for when it is free, otherwise the
  lowest free one, marks exactly that channel as taken with the requested flags and opens
  the DMA clock; with all eight taken it returns 0xFF and changes nothing.\<close>

theorem dma_request_spec:
  assumes "dma_inv s" "tls_dma_request ch flags s = (i, s')"
  shows "if {..<8} \<subseteq> dma_in_use s then i = 0xFF \<and> s' = s
    else i < 8 \<and> i \<notin> dma_in_use s
      \<and> (ch < 8 \<and> ch \<notin> dma_in_use s \<longrightarrow> i = ch)
      \<and> (\<not> (ch < 8 \<and> ch \<notin> dma_in_use s) \<longrightarrow> (\<forall>j<i. j \<in> dma_in_use s))
      \<and> dma_in_use s' = insert i (dma_in_use s) \<and> dma_inv s'
      \<and> bit (regs s' HR_CLK_BASE_ADDR) 8 \<and> regs s' (DMA_MODE_REG i) = ucast flags"
  using assms(1)
proof (cases rule: dma_alloc_cases [of s "(ch, flags)"])
  case full
  then show ?thesis using assms(2) by simp
next
  case (fresh j t)
  with assms(2) have e: "j = i" "t = s'" by simp_all
  have lt: "dma_choice ch s < 8" and i: "i = dma_choice ch s" using fresh(1,2) e by simp_all
  note f = request_fields [OF assms(1) lt assms(2)]
  have n: "\<not> dma_valid i s" using dma_choice_spec(2) [OF lt] i by simp
  have mode: "regs s' (DMA_MODE_REG i) = ucast flags"
    using assms(2) lt by (auto simp: request_eq Let_def)
  have "bit (dma_used_bit s') i" using f(2,3) lt i by (auto simp: dma_inv_def)
  then have "dma_used_bit s' \<noteq> 0" by auto
  then have clk: "bit (regs s' HR_CLK_BASE_ADDR) 8" using f(3) by (simp add: dma_inv_def)
  have low: "\<not> (ch < 8 \<and> ch \<notin> dma_in_use s) \<longrightarrow> (\<forall>j<i. j \<in> dma_in_use s)"
    using dma_first_free_0 [OF refl, of s] lt i by (auto simp: dma_choice_def dma_in_use_def)
  have asked: "ch < 8 \<and> ch \<notin> dma_in_use s \<longrightarrow> i = ch" using i by (auto simp: dma_choice_def dma_in_use_def)
  have use: "dma_in_use s' = insert i (dma_in_use s)" using f(2) lt i by (auto simp: dma_in_use_def)
  have new: "i < 8" "i \<notin> dma_in_use s" using n lt i by (simp_all add: dma_in_use_def)
  then have ne: "\<not> {..<8} \<subseteq> dma_in_use s" by auto
  show ?thesis unfolding if_not_P [OF ne] by (intro conjI new asked low use f(3) clk mode)
qed

theorem dma_request_spec_witness: "fst (tls_dma_request 5 3 dma_reset) = 5"
proof -
  have "0 \<notin> dma_in_use dma_reset" by (simp add: dma_in_use_def dma_reset_def dma_valid_def)
  then have "\<not> {..<8} \<subseteq> dma_in_use dma_reset" by (metis lessThan_iff subsetD zero_less_numeral)
  then show ?thesis
    using dma_request_spec [OF dma_reset_inv, of 5 3 "fst (tls_dma_request 5 3 dma_reset)" "snd (tls_dma_request 5 3 dma_reset)"]
    by (auto simp: dma_in_use_def dma_reset_def dma_valid_def)
qed

text \<open>C28. However a client interleaves requests and releases, starting with no channel
  taken: the channels it holds are pairwise different, at most eight, and a request is
  refused only when it holds all eight.\<close>

theorem dma_handles_distinct:
  assumes "client dma_alloc (dma_release poll) s [] s' hs" "dma_inv s" "\<exists>k. poll k AND 1 = 0"
    "dma_in_use s = {}"
  shows "distinct hs \<and> set hs = dma_in_use s' \<and> length hs \<le> 8 \<and>
    (dma_alloc c s' = None \<longrightarrow> length hs = 8)"
proof -
  have g: "dma_good poll s" using assms(2,3) by (simp add: dma_good_def)
  show ?thesis
    using dma_slots.client_handles [OF assms(1) g] dma_slots.client_capacity [OF assms(1) g]
      dma_slots.refused_when_full [OF assms(1) g] assms(4) by auto
qed

theorem dma_handles_distinct_witness:
  "\<exists>s'. client dma_alloc (dma_release (\<lambda>_. 0)) dma_reset [] s' [2] \<and> dma_in_use s' = {2}"
proof -
  have e: "dma_in_use dma_reset = {}" by (simp add: dma_in_use_def dma_reset_def dma_valid_def)
  have "fst (tls_dma_request 2 3 dma_reset) = 2"
    by (simp add: tls_dma_request_def Let_def dma_reset_def dma_valid_def)
  then have "dma_alloc (2, 3) dma_reset = Some (2, snd (tls_dma_request 2 3 dma_reset))"
    by (simp add: dma_alloc_def case_prod_beta)
  then have c: "client dma_alloc (dma_release (\<lambda>_. 0)) dma_reset [] (snd (tls_dma_request 2 3 dma_reset)) [2]"
    by (rule client.got [OF client.start])
  show ?thesis using dma_handles_distinct [OF c dma_reset_inv _ e] c by auto
qed

text \<open>Waiting for completion always returns, after at most 501 reads of the channel
  control register: 0 when one of these reads shows the channel off, -1 otherwise.\<close>

theorem dma_wait_complt_bounded:
  "tls_dma_wait_complt poll = (if \<exists>k\<le>500. poll k AND DMA_CHNL_CTRL_CHNL_ON = 0 then 0 else -1)"
  by (simp add: tls_dma_wait_complt_def dma_wait_loop_spec)

text \<open>An interrupt of a channel whose callback was registered with \<open>flags\<close>, while the
  channel does not reload itself: when a flag of \<open>flags\<close> is raised the registered callback
  runs exactly once with its argument and both flags of the channel are acknowledged; when
  none is raised nothing happens.\<close>

theorem dma_irq_dispatch:
  assumes "tls_dma_irq_register ch cb a flags s0 = Some s1" "ch < 4" "flags \<in> {1, 2, 3}"
    "s = s1\<lparr>regs := m\<rparr>" "m (DMA_CTRL_REG ch) AND 1 = 0"
  shows "dma_irq_proc poll ch s =
    (if (bit flags 0 \<and> bit (m HR_DMA_INT_SRC) (2 * ch)) \<or> (bit flags 1 \<and> bit (m HR_DMA_INT_SRC) (2 * ch + 1))
     then Some (dma_calls cb a, tls_reg_write32 HR_DMA_INT_SRC (dma_bits 3 ch) s)
     else Some ([], s))"
proof -
  have ch: "ch < 8" using assms(2) by simp
  note f = register_fields [OF assms(1) ch assms(3)]
  note p = both_pending [OF ch] one_pending [OF ch]
  have e: "dma_irq_proc poll ch s = Some (dma_irq_serve (m HR_DMA_INT_SRC) ch s)"
    using assms(2,4,5) by (simp add: dma_irq_proc_def)
  from assms(3) consider "flags = 1" | "flags = 2" | "flags = 3" by blast
  then show ?thesis
    unfolding e using f assms(4) by cases (simp_all add: dma_irq_serve_def Let_def tls_dma_irq_clr_def p)
qed

theorem dma_irq_dispatch_witness:
  "\<exists>s1. tls_dma_irq_register 2 (Some 7) 9 2 dma_reset = Some s1 \<and>
     dma_irq_proc (\<lambda>_. 0) 2 (s1\<lparr>regs := (\<lambda>_. 0)(HR_DMA_INT_SRC := 0x20)\<rparr>) =
       Some ([(7, 9)], tls_reg_write32 HR_DMA_INT_SRC (dma_bits 3 2) (s1\<lparr>regs := (\<lambda>_. 0)(HR_DMA_INT_SRC := 0x20)\<rparr>))"
proof -
  obtain s1 where s1: "tls_dma_irq_register 2 (Some 7) 9 2 dma_reset = Some s1"
    by (simp add: tls_dma_irq_register_def dma_reset_def Let_def)
  show ?thesis using s1 dma_irq_dispatch [OF s1 _ _ refl, of "(\<lambda>_. 0)(HR_DMA_INT_SRC := 0x20)" "\<lambda>_. 0"]
    by (simp add: dma_calls_def)
qed

text \<open>Starting a channel that was never requested marks it used without opening the DMA
  clock, and the next request then leaves the clock closed too.\<close>

theorem dma_start_unrequested_no_clock:
  assumes "dma_inv s" "dma_used_bit s = 0" "ch < 8" "tls_dma_start ch (Some d) reload s = Some (r, s1)"
    "tls_dma_request ch' flags s1 = (i, s2)"
  shows "r = 0 \<and> i < 8 \<and> \<not> bit (regs s2 HR_CLK_BASE_ADDR) 8"
proof -
  have off: "\<not> bit (regs s HR_CLK_BASE_ADDR) 8" "length (channels s) = 8" and nv: "\<forall>j<8. \<not> dma_valid j s"
    using assms(1,2) by (auto simp: dma_inv_def)
  have s1: "r = 0" "channels s1 = channels s" "regs s1 HR_CLK_BASE_ADDR = regs s HR_CLK_BASE_ADDR"
      "dma_used_bit s1 = ucast (BIT ch)"
    using assms(2-4) by (auto simp: tls_dma_start_def Let_def)
  have "bit (dma_used_bit s1) ch" using assms(3) by (simp add: s1 bit_unsigned_iff bits)
  then have nz: "dma_used_bit s1 \<noteq> 0" by auto
  have "\<not> dma_valid 0 s1" using nv by (simp add: dma_valid_def s1)
  then have "dma_choice ch' s1 < 8"
    using dma_choice_spec(1,3) [of ch' s1] by (metis le_neq_implies_less zero_less_numeral)
  then show ?thesis using assms(5) nz off s1(1,3) by (auto simp: request_eq Let_def)
qed

theorem dma_start_unrequested_no_clock_witness:
  "\<exists>s1 r. tls_dma_start 1 (Some \<lparr>dd_valid = 0, dma_ctrl = 0, src_addr = 0, dest_addr = 0\<rparr>) 0 dma_reset = Some (r, s1) \<and>
     \<not> bit (regs (snd (tls_dma_request 2 0 s1)) HR_CLK_BASE_ADDR) 8"
proof -
  let ?d = "\<lparr>dd_valid = 0, dma_ctrl = 0, src_addr = 0, dest_addr = 0\<rparr> :: tls_dma_descriptor"
  obtain r s1 where s1: "tls_dma_start 1 (Some ?d) 0 dma_reset = Some (r, s1)"
    by (simp add: tls_dma_start_def Let_def)
  have "dma_used_bit dma_reset = 0" by (simp add: dma_reset_def)
  from dma_start_unrequested_no_clock [OF dma_reset_inv this _ s1, of 2 0] s1 show ?thesis
    by (metis one_less_numeral_iff prod.collapse semiring_norm(76) num.simps(4))
qed

text \<open>\<^verbatim>\<open>tls_dma_init\<close> masks and acknowledges the two interrupts of exactly the channels
  that are not marked used.\<close>

theorem dma_init_masks_unused:
  assumes "ch < 8" "n = 2 * ch \<or> n = 2 * ch + 1"
  shows "(bit (regs (tls_dma_init s) HR_DMA_INT_MASK) n \<longleftrightarrow> \<not> bit (dma_used_bit s) ch)
    \<and> regs (tls_dma_init s) HR_DMA_INT_SRC = regs (tls_dma_init s) HR_DMA_INT_MASK"
proof -
  have b: "bit (dma_bits 3 i) n \<longleftrightarrow> i = ch" if "i < 8" for i
    unfolding dma_bits_bit bit_u8_3 using that assms by auto
  have u: "(ucast (dma_used_bit s) :: u32) AND BIT i = 0 \<longleftrightarrow> \<not> bit (dma_used_bit s) i" for i
    by (auto simp: and_BIT_eq_0 bit_unsigned_iff dest: u16_bit_less)
  have "bit (regs (tls_dma_init s) HR_DMA_INT_MASK) n \<longleftrightarrow>
      (\<exists>i\<in>set [0..<8]. ucast (dma_used_bit s) AND BIT i = (0 :: u32) \<and> bit (dma_bits 3 i) n)"
    by (simp add: tls_dma_init_def Let_def bit_fold_or)
  also have "\<dots> \<longleftrightarrow> \<not> bit (dma_used_bit s) ch" using assms(1) b by (auto simp: u)
  finally show ?thesis by (simp add: tls_dma_init_def Let_def)
qed

theorem dma_init_masks_unused_witness:
  "bit (regs (tls_dma_init (dma_reset\<lparr>dma_used_bit := 4\<rparr>)) HR_DMA_INT_MASK) 3
   \<and> \<not> bit (regs (tls_dma_init (dma_reset\<lparr>dma_used_bit := 4\<rparr>)) HR_DMA_INT_MASK) 5"
  using dma_init_masks_unused [of 1 3 "dma_reset\<lparr>dma_used_bit := 4\<rparr>"]
    dma_init_masks_unused [of 2 5 "dma_reset\<lparr>dma_used_bit := 4\<rparr>"] by simp

end
