(* ===== verification/Strconv.thy ===== *)
theory Strconv
  imports Mcu_Prelude
begin

text \<open>
  The string conversions of \<^verbatim>\<open>platform/common/utils/platform_utils.c\<close>: decimal and
  hexadecimal numbers, byte arrays, IP and MAC addresses, and the case-insensitive
  comparison. A C string is the list of its characters before the terminating zero; a read
  of the terminator is a read past the end of the list, and a function that reads beyond it
  is undefined there (\<open>None\<close>). A conversion returns its \<^verbatim>\<open>int\<close> result and what it
  stored through its output pointer (\<open>None\<close> for nothing). Signed 32-bit arithmetic wraps.
\<close>

unbundle bit_operations_syntax

section \<open>Characters\<close>

definition ord :: "char \<Rightarrow> int" where
  "ord c = int (of_char c)"

definition NUL :: char where
  "NUL = char_of (0 :: nat)"

fun next_char :: "string \<Rightarrow> char" where
  "next_char [] = NUL"
| "next_char (c # cs) = c"

section \<open>Decimal numbers\<close>

definition atodec :: "char \<Rightarrow> int" where
  "atodec ch = (if ord ch \<ge> 48 \<and> ord ch \<le> 57 then ord ch - 48 else -1)"

fun strtodec_loop :: "string \<Rightarrow> int \<Rightarrow> u32 \<Rightarrow> (int \<times> u32) option" where
  "strtodec_loop [] i dd = Some (i, dd)"
| "strtodec_loop (c # str) i dd =
     (let i = atodec c in if i < 0 then None else strtodec_loop str i (dd * 10 + of_int i))"

definition strtodec :: "string \<Rightarrow> int \<times> u32 option" where
  "strtodec str =
     (let (str, sign) = (if next_char str = CHR ''-'' then (tl str, -1) else (str, 1 :: u32))
      in case strtodec_loop str (-1) 0 of
           None \<Rightarrow> (-1, None)
         | Some (i, dd) \<Rightarrow> (if i < 0 then -1 else 0, Some (dd * sign)))"

section \<open>Hexadecimal numbers\<close>

definition atohex :: "char \<Rightarrow> int" where
  "atohex ch =
     (if ord ch \<ge> 48 \<and> ord ch \<le> 57 then ord ch - 48
      else if ord ch \<ge> 97 \<and> ord ch \<le> 102 then ord ch - 97 + 10
      else if ord ch \<ge> 65 \<and> ord ch \<le> 70 then ord ch - 65 + 10
      else -1)"

fun strtohex_loop :: "string \<Rightarrow> int \<Rightarrow> nat \<Rightarrow> u32 \<Rightarrow> (int \<times> u32) option" where
  "strtohex_loop [] n i dd = Some (n, dd)"
| "strtohex_loop (c # str) n i dd =
     (let n = atohex c
      in if n < 0 then None
         else let dd = push_bit 4 dd + of_int n; i = i + 1
              in if i > 8 then None else strtohex_loop str n i dd)"

definition strtohex :: "string \<Rightarrow> int \<times> u32 option" where
  "strtohex str =
     (case strtohex_loop str (-1) 0 0 of
        None \<Rightarrow> (-1, None)
      | Some (n, dd) \<Rightarrow> (if n < 0 then -1 else 0, Some dd))"

text \<open>The bytes stored so far are returned with the result.\<close>

fun strtohexarray :: "nat \<Rightarrow> string \<Rightarrow> int \<times> u8 list" where
  "strtohexarray 0 str = (if next_char str = NUL then 0 else -1, [])"
| "strtohexarray (Suc cnt) str =
     (let hex = atohex (next_char str); str = tl str
      in if hex < 0 then (-1, [])
         else let tmp = push_bit 4 (of_int hex :: u8) AND 0xf0;
                  hex = atohex (next_char str); str = tl str
              in if hex < 0 then (-1, [])
                 else let tmp = tmp OR (of_int hex AND 0x0f);
                          (r, des) = strtohexarray cnt str
                      in (r, tmp # des))"

section \<open>Addresses\<close>

text \<open>The scan for the first three dots: \<open>seg\<close> holds the characters from \<^verbatim>\<open>head\<close> to
  \<^verbatim>\<open>tail\<close>. The loop stops only at the third dot; without it, it reads past the end.\<close>

fun strtoip_scan :: "nat \<Rightarrow> u32 \<Rightarrow> string \<Rightarrow> string \<Rightarrow> (u32 \<times> string) option option" where
  "strtoip_scan i ip seg [] = (if i < 3 then None else Some (Some (ip, seg)))"
| "strtoip_scan i ip seg (c # str) =
     (if i < 3 then
        if c = CHR ''.'' then
          (case strtodec seg of
             (r, n) \<Rightarrow>
               if r < 0 then Some None
               else case n of
                 None \<Rightarrow> Some None
               | Some n \<Rightarrow>
                   if sint n < 0 \<or> sint n > 255 then Some None
                   else strtoip_scan (i + 1) (push_bit 8 ip + n) [] str)
        else strtoip_scan i ip (seg @ [c]) str
      else Some (Some (ip, seg @ c # str)))"

definition strtoip :: "string \<Rightarrow> (int \<times> u32 option) option" where
  "strtoip str =
     (case strtoip_scan 0 0 [] str of
        None \<Rightarrow> None
      | Some None \<Rightarrow> Some (-1, None)
      | Some (Some (ip, head)) \<Rightarrow>
          (case strtodec head of
             (r, n) \<Rightarrow>
               if r < 0 then Some (-1, None)
               else case n of
                 None \<Rightarrow> Some (-1, None)
               | Some n \<Rightarrow>
                   if sint n < 0 \<or> sint n > 255 then Some (-1, None)
                   else let ip = push_bit 8 ip + n
                        in Some (if ip = 0 then -1 else 0, Some ip)))"

text \<open>The \<^verbatim>\<open>%d\<close> (for a non-negative argument) and \<^verbatim>\<open>%02x\<close> conversions of
  \<^verbatim>\<open>sprintf\<close>.\<close>

fun dec_str :: "nat \<Rightarrow> string" where
  "dec_str n = (if n < 10 then [char_of (n + 48)] else dec_str (n div 10) @ [char_of (n mod 10 + 48)])"

declare dec_str.simps [simp del]

definition hex_char :: "nat \<Rightarrow> char" where
  "hex_char n = (if n < 10 then char_of (n + 48) else char_of (n - 10 + 97))"

definition hex2_str :: "u8 \<Rightarrow> string" where
  "hex2_str b = [hex_char (unat b div 16), hex_char (unat b mod 16)]"

definition iptostr :: "u32 \<Rightarrow> string" where
  "iptostr ip =
     dec_str (unat (drop_bit 24 ip AND 0xff)) @ ''.'' @ dec_str (unat (drop_bit 16 ip AND 0xff)) @ ''.'' @
     dec_str (unat (drop_bit 8 ip AND 0xff)) @ ''.'' @ dec_str (unat (drop_bit 0 ip AND 0xff))"

definition mactostr :: "u8 list \<Rightarrow> string" where
  "mactostr mac =
     hex2_str (mac ! 0) @ hex2_str (mac ! 1) @ hex2_str (mac ! 2) @
     hex2_str (mac ! 3) @ hex2_str (mac ! 4) @ hex2_str (mac ! 5)"

section \<open>Digits\<close>

definition hex_to_digit :: "int \<Rightarrow> int" where
  "hex_to_digit c =
     (if 48 \<le> c \<and> c \<le> 57 then c - 48
      else if 65 \<le> c \<and> c \<le> 70 then c - (65 - 10)
      else if 97 \<le> c \<and> c \<le> 102 then c - (97 - 10)
      else -1)"

definition digit_to_hex :: "int \<Rightarrow> int" where
  "digit_to_hex c =
     (if 0 \<le> c \<and> c \<le> 9 then c + 48
      else if 0xA \<le> c \<and> c \<le> 0xF then c - 0xA + 65
      else -1)"

fun hexstr_loop :: "string \<Rightarrow> u32 \<Rightarrow> int \<times> u32" where
  "hexstr_loop [] d = (0, d)"
| "hexstr_loop (b # buf) d =
     (let c = hex_to_digit (ord b)
      in if c < 0 then (-1, d) else hexstr_loop buf (ucast (of_int c :: u8) OR push_bit 4 d))"

definition hexstr_to_unit :: "string \<Rightarrow> int \<times> u32" where
  "hexstr_to_unit buf = (if length buf > 8 then (-1, 0) else hexstr_loop buf 0)"

text \<open>\<^verbatim>\<open>atoi\<close> on a string of digits; its value is undefined when it does not fit an
  \<^verbatim>\<open>int\<close>.\<close>

fun dec_value :: "string \<Rightarrow> nat \<Rightarrow> nat" where
  "dec_value [] v = v"
| "dec_value (c # cs) v = dec_value cs (v * 10 + nat (ord c - 48))"

definition string_to_uint :: "string \<Rightarrow> (int \<times> u32 option) option" where
  "string_to_uint buf =
     (let len = length buf
      in if len > 11 \<or> len = 0 then Some (-1, None)
         else if list_ex (\<lambda>c. \<not> (48 \<le> ord c \<and> ord c \<le> 57)) buf then Some (-1, None)
         else if dec_value buf 0 < 2 ^ 31 then Some (0, Some (of_nat (dec_value buf 0)))
         else None)"

section \<open>Copying and comparing\<close>

text \<open>\<open>alloc\<close> is whether \<^verbatim>\<open>tls_mem_alloc\<close> succeeds. The result of the copying functions is
  the whole allocated buffer; \<^verbatim>\<open>strndup\<close> copies \<^verbatim>\<open>len\<close> bytes whatever the string's length,
  which is undefined beyond its terminator.\<close>

definition strdup :: "bool \<Rightarrow> string \<Rightarrow> string option" where
  "strdup alloc s =
     (let len = length s + 1
      in if \<not> alloc then None else Some (take (len - 1) s @ replicate (len - length s) NUL))"

definition strndup :: "bool \<Rightarrow> string \<Rightarrow> nat \<Rightarrow> string option option" where
  "strndup alloc s len =
     (if \<not> alloc then Some None
      else if len > length s + 1 then None
      else Some (Some (take len (s @ [NUL]) @ [NUL])))"

definition toupper :: "char \<Rightarrow> int" where
  "toupper a = (if ord a \<ge> 97 \<and> ord a \<le> 122 then ord a - (97 - 65) else ord a)"

fun strcasecmp :: "string \<Rightarrow> string \<Rightarrow> int" where
  "strcasecmp (a # s1) (b # s2) =
     (if a = b then strcasecmp s1 s2
      else if toupper a \<noteq> toupper b then 1
      else strcasecmp s1 s2)"
| "strcasecmp _ _ = 0"

definition gettimeofday :: "u32 \<Rightarrow> u32 \<times> u32" where
  "gettimeofday current_tick = (current_tick div 100, 10000 * (current_tick mod 100))"

section \<open>Decimal round trip\<close>

lemma ord_char_of [simp]: "n < 256 \<Longrightarrow> ord (char_of n) = int n"
  by (simp add: ord_def)

lemma ord_inject: "ord a = ord b \<longleftrightarrow> a = b"
  by (simp add: ord_def)

lemma atodec_digit [simp]: "n < 10 \<Longrightarrow> atodec (char_of (n + 48)) = int n"
  by (simp add: atodec_def)

lemma strtodec_loop_append:
  "strtodec_loop (xs @ ys) i dd =
     (case strtodec_loop xs i dd of None \<Rightarrow> None | Some (i', dd') \<Rightarrow> strtodec_loop ys i' dd')"
  by (induction xs arbitrary: i dd) (auto simp: Let_def)

lemma strtodec_loop_dec: "strtodec_loop (dec_str n) i 0 = Some (int (n mod 10), of_nat n)"
proof (induction n arbitrary: i rule: dec_str.induct)
  case (1 n)
  show ?case
  proof (cases "n < 10")
    case True
    then show ?thesis by (subst dec_str.simps) simp
  next
    case False
    have "(of_nat (n div 10) * 10 + of_nat (n mod 10) :: u32) = of_nat (n div 10 * 10 + n mod 10)"
      by (simp only: of_nat_add of_nat_mult of_nat_numeral)
    then have "(of_nat (n div 10) * 10 + of_nat (n mod 10) :: u32) = of_nat n" by simp
    with False 1 [OF False] show ?thesis
      by (subst dec_str.simps) (simp add: strtodec_loop_append)
  qed
qed

text \<open>A printed number starts with a digit and holds only digits.\<close>

lemma dec_str_digits: "\<forall>c \<in> set (dec_str n). 48 \<le> ord c \<and> ord c \<le> 57"
proof (induction n rule: dec_str.induct)
  case (1 n)
  then show ?case by (cases "n < 10") (subst dec_str.simps, simp)+
qed

lemma dec_str_not_Nil: "dec_str n \<noteq> []"
  by (subst dec_str.simps) simp

lemma dec_str_no:
  assumes "ord c < 48"
  shows "c \<notin> set (dec_str n)"
  using dec_str_digits [of n] assms by auto

lemma ord_literals: "ord (CHR ''-'') = 45" "ord (CHR ''.'') = 46"
  by (simp_all add: ord_def of_char_def)

lemma strtodec_dec: "strtodec (dec_str n) = (0, Some (of_nat n))"
proof -
  obtain c cs where c: "dec_str n = c # cs" using dec_str_not_Nil by (cases "dec_str n") auto
  have "c \<noteq> CHR ''-''" using dec_str_no [of "CHR ''-''" n] by (auto simp: c ord_literals)
  then have "next_char (dec_str n) \<noteq> CHR ''-''" by (simp add: c)
  then show ?thesis by (simp add: strtodec_def strtodec_loop_dec)
qed

section \<open>Address round trips\<close>

lemma scan_segment:
  assumes "CHR ''.'' \<notin> set xs" "i < 3"
  shows "strtoip_scan i ip seg (xs @ rest) = strtoip_scan i ip (seg @ xs) rest"
  using assms by (induction xs arbitrary: seg) auto

lemma sint_small: "n \<le> 255 \<Longrightarrow> sint (of_nat n :: u32) = int n"
proof -
  assume n: "n \<le> 255"
  have "signed_take_bit 31 (int n) = int n"
    by (rule signed_take_bit_int_eq_self) (use n in auto)
  then show ?thesis by (simp add: signed_of_nat)
qed

lemma scan_octet:
  assumes "n \<le> 255" "i < 3"
  shows "strtoip_scan i ip [] (dec_str n @ CHR ''.'' # rest) =
    strtoip_scan (Suc i) (push_bit 8 ip + of_nat n) [] rest"
proof -
  have "CHR ''.'' \<notin> set (dec_str n)" by (rule dec_str_no) (simp add: ord_literals)
  then show ?thesis
    using assms by (simp add: scan_segment strtodec_dec sint_small)
qed

lemma scan_done: "strtoip_scan 3 ip [] s = Some (Some (ip, s))"
  by (cases s) simp_all

lemma octets_compose:
  fixes ip :: u32
  shows "push_bit 8 (push_bit 8 (push_bit 8 (drop_bit 24 ip AND 0xff) + (drop_bit 16 ip AND 0xff))
    + (drop_bit 8 ip AND 0xff)) + (drop_bit 0 ip AND 0xff) = ip"
proof -
  have m: "x AND 0xff = take_bit 8 x" for x :: u32
    by (simp add: take_bit_eq_mask mask_eq_exp_minus_1)
  have s: "push_bit 8 (drop_bit (8 + k) ip) + take_bit 8 (drop_bit k ip) = drop_bit k ip" for k
    using bits_ident [of 8 "drop_bit k ip"] by simp
  have top: "take_bit 8 (drop_bit 24 ip) = drop_bit 24 ip"
    by (intro bit_eqI) (auto simp: bit_take_bit_iff bit_drop_bit_eq dest: bit_u32_less)
  show ?thesis using s [of 16] s [of 8] s [of 0] by (simp add: m top)
qed

lemma octet_le: "unat (x AND 0xff :: u32) \<le> 255"
proof -
  have "x AND 0xff \<le> (0xff :: u32)" by (rule word_and_le1)
  then show ?thesis by (simp add: word_le_nat_alt)
qed

lemma strtoip_iptostr: "strtoip (iptostr ip) = Some (if ip = 0 then -1 else 0, Some ip)"
proof -
  let ?o = "\<lambda>k. unat (drop_bit k ip AND 0xff)"
  let ?hi = "push_bit 8 (push_bit 8 (drop_bit 24 ip AND 0xff) + (drop_bit 16 ip AND 0xff)) + (drop_bit 8 ip AND 0xff)"
  have "strtoip_scan 0 0 [] (iptostr ip) = Some (Some (?hi, dec_str (?o 0)))"
    unfolding iptostr_def append_assoc
    by (simp add: scan_octet octet_le scan_done [unfolded numeral_3_eq_3])
  moreover have "push_bit 8 ?hi + (drop_bit 0 ip AND 0xff) = ip" by (rule octets_compose)
  moreover have w: "of_nat (?o 0) = drop_bit 0 ip AND 0xff" by simp
  have "sint (drop_bit 0 ip AND 0xff) = int (?o 0)" using sint_small [OF octet_le, of "drop_bit 0 ip"] unfolding w .
  then have "\<not> sint (drop_bit 0 ip AND 0xff) < 0" "\<not> 255 < sint (drop_bit 0 ip AND 0xff)"
    using octet_le [of "drop_bit 0 ip"] by linarith+
  ultimately show ?thesis
    by (simp add: strtoip_def strtodec_dec)
qed

lemma hex_char_value: "n < 16 \<Longrightarrow> atohex (hex_char n) = int n"
  by (simp add: hex_char_def atohex_def)

lemma byte_compose:
  "(push_bit 4 (of_nat (unat b div 16) :: u8) AND 0xf0) OR (of_nat (unat b mod 16) AND 0x0f) = b"
proof -
  have u: "unat b < 256" using unsigned_less [of b, where ?'a = nat] by simp
  have hi: "(of_nat (unat b div 16) :: u8) = drop_bit 4 b"
  proof (rule word_unat_eq_iff [THEN iffD2])
    have "unat b div 16 < 2 ^ 8" using u by simp
    then show "unat (of_nat (unat b div 16) :: u8) = unat (drop_bit 4 b)"
      by (simp add: drop_bit_eq_div unat_div unsigned_of_nat take_bit_nat_eq_self)
  qed
  have lo: "(of_nat (unat b mod 16) :: u8) = take_bit 4 b"
  proof (rule word_unat_eq_iff [THEN iffD2])
    have "unat b mod 16 < 2 ^ 8" by (rule order.strict_trans [of _ 16]) simp_all
    then show "unat (of_nat (unat b mod 16) :: u8) = unat (take_bit 4 b)"
      by (simp add: take_bit_eq_mod unat_mod unsigned_of_nat)
  qed
  have m: "(0xf0 :: u8) = push_bit 4 (mask 4)" "(0x0f :: u8) = mask 4"
    by (simp_all add: mask_eq_exp_minus_1)
  show ?thesis
    unfolding hi lo m
    by (intro bit_eqI)
      (auto simp: bit_or_iff bit_and_iff bit_push_bit_iff bit_drop_bit_eq bit_take_bit_iff bit_mask_iff)
qed

lemma hexarray_byte:
  "strtohexarray (Suc n) (hex2_str b @ rest) =
     (fst (strtohexarray n rest), b # snd (strtohexarray n rest))"
proof -
  have "unat b < 256" using unsigned_less [of b, where ?'a = nat] by simp
  then have "unat b div 16 < 16" by (simp add: div_less_iff_less_mult)
  then show ?thesis
    by (simp add: hex2_str_def Let_def hex_char_value byte_compose case_prod_beta)
qed

lemma hexarray_mac:
  assumes "length mac = 6"
  shows "strtohexarray 6 (mactostr mac) = (0, mac)"
proof -
  obtain a b c d e f where m: "mac = [a, b, c, d, e, f]"
    using assms by (auto simp: numeral_eq_Suc length_Suc_conv)
  have n: "6 = Suc (Suc (Suc (Suc (Suc (Suc 0)))))" by simp
  show ?thesis
    unfolding m mactostr_def n
    using hexarray_byte [of 0 f "[]"] by (simp add: hexarray_byte del: strtohexarray.simps(2))
qed

section \<open>Hexadecimal routines\<close>

lemma atohex_hex_to_digit: "atohex c = hex_to_digit (ord c)"
  by (auto simp: atohex_def hex_to_digit_def)

lemma hex_digit_range: "hex_to_digit x < 16"
  by (auto simp: hex_to_digit_def)

lemma shift_add_or:
  assumes "0 \<le> n" "n < 16"
  shows "push_bit 4 dd + of_int n = ucast (of_int n :: u8) OR push_bit 4 (dd :: u32)"
proof -
  have u: "(ucast (of_int n :: u8) :: u32) = of_int n"
    using assms by (simp add: unsigned_of_int take_bit_int_eq_self)
  have "unat (of_int n :: u32) < 2 ^ 4"
    using assms by (simp add: unsigned_of_int take_bit_int_eq_self nat_less_iff)
  note small = bit_small_unat [OF this]
  have "push_bit 4 dd AND of_int n = 0"
    by (intro bit_eqI) (auto simp: bit_and_iff bit_push_bit_iff dest: small)
  then show ?thesis unfolding u by (simp add: disjunctive_add_eq_or or.commute)
qed

lemma hex_loops_agree:
  "i + length str \<le> 8 \<Longrightarrow>
     (case strtohex_loop str n i dd of
        None \<Rightarrow> fst (hexstr_loop str dd) = -1
      | Some (m, v) \<Rightarrow> hexstr_loop str dd = (0, v) \<and> (str \<noteq> [] \<longrightarrow> m \<ge> 0))"
proof (induction str arbitrary: n i dd)
  case (Cons c str)
  show ?case
  proof (cases "atohex c < 0")
    case False
    have "push_bit 4 dd + of_int (atohex c) = ucast (of_int (atohex c) :: u8) OR push_bit 4 dd"
      using False hex_digit_range [of "ord c"] by (intro shift_add_or) (simp_all add: atohex_hex_to_digit)
    with Cons.IH [where i = "i + 1" and n = "atohex c" and dd = "push_bit 4 dd + of_int (atohex c)"] Cons.prems False show ?thesis
      by (cases str) (auto simp: Let_def atohex_hex_to_digit split: option.splits)
  qed (simp add: Let_def atohex_hex_to_digit)
qed simp

lemma strtohex_long: "8 < i + length str \<Longrightarrow> i \<le> 8 \<Longrightarrow> strtohex_loop str n i dd = None"
proof (induction str arbitrary: n i dd)
  case (Cons c str)
  then show ?case by (cases "i + 1 \<le> 8") (auto simp: Let_def)
qed simp

lemma strtohex_hexstr:
  assumes "str \<noteq> []"
  shows "fst (strtohex str) = fst (hexstr_to_unit str)"
    and "fst (strtohex str) = 0 \<Longrightarrow> snd (strtohex str) = Some (snd (hexstr_to_unit str))"
proof -
  have "fst (strtohex str) = fst (hexstr_to_unit str)
      \<and> (fst (strtohex str) = 0 \<longrightarrow> snd (strtohex str) = Some (snd (hexstr_to_unit str)))"
  proof (cases "length str \<le> 8")
    case True
    then show ?thesis
      using assms hex_loops_agree [where i = 0 and str = str and n = "-1" and dd = 0]
      by (auto simp: strtohex_def hexstr_to_unit_def split: option.splits)
  next
    case False
    then show ?thesis by (simp add: strtohex_def hexstr_to_unit_def strtohex_long)
  qed
  then show "fst (strtohex str) = fst (hexstr_to_unit str)"
    "fst (strtohex str) = 0 \<Longrightarrow> snd (strtohex str) = Some (snd (hexstr_to_unit str))" by auto
qed

section \<open>Properties of the conversions\<close>

text \<open>An IP address printed by \<^verbatim>\<open>iptostr\<close> is read back by \<^verbatim>\<open>strtoip\<close>, for every address;
  only the all-zero address is reported as an error (its value is stored all the same).\<close>

theorem ip_roundtrip: "strtoip (iptostr ip) = Some (if ip = 0 then -1 else 0, Some ip)"
  by (rule strtoip_iptostr)

text \<open>A MAC address printed by \<^verbatim>\<open>mactostr\<close> is read back by \<^verbatim>\<open>strtohexarray\<close>.\<close>

theorem mac_roundtrip:
  assumes "length mac = 6"
  shows "strtohexarray 6 (mactostr mac) = (0, mac)"
  using assms by (rule hexarray_mac)

theorem mac_roundtrip_witness:
  "strtohexarray 6 (mactostr [0x00, 0x25, 0x08, 0xab, 0xcd, 0xef]) = (0, [0x00, 0x25, 0x08, 0xab, 0xcd, 0xef])"
  by (rule mac_roundtrip) simp

text \<open>Decimal numbers: every printed number is read back modulo \<open>2 ^ 32\<close>, with and without
  a minus sign.\<close>

theorem dec_roundtrip:
  "strtodec (dec_str n) = (0, Some (of_nat n)) \<and> strtodec (CHR ''-'' # dec_str n) = (0, Some (- of_nat n))"
  using strtodec_dec [of n] by (simp add: strtodec_def strtodec_loop_dec)

text \<open>The two hexadecimal parsers agree on every non-empty string: same result code, and the
  same value when they succeed.\<close>

theorem hex_parsers_agree:
  assumes "str \<noteq> []"
  shows "fst (strtohex str) = fst (hexstr_to_unit str)
    \<and> (fst (strtohex str) = 0 \<longrightarrow> snd (strtohex str) = Some (snd (hexstr_to_unit str)))"
  using strtohex_hexstr [OF assms] by blast

theorem hex_parsers_agree_witness: "fst (strtohex ''1aF'') = fst (hexstr_to_unit ''1aF'')"
  using hex_parsers_agree [of "''1aF''"] by simp

text \<open>The scan of \<^verbatim>\<open>strtoip\<close> ends only at a third dot: on a string without dots it runs
  past the end of the string.\<close>

theorem strtoip_overruns:
  assumes "CHR ''.'' \<notin> set str"
  shows "strtoip str = None"
  using scan_segment [OF assms, of 0 0 "[]" "[]"] by (simp add: strtoip_def)

theorem strtoip_overruns_witness: "strtoip ''localhost'' = None"
  by (rule strtoip_overruns) simp

text \<open>\<^verbatim>\<open>strcasecmp\<close> compares the common prefix only: it returns 0 exactly when the two
  strings agree, up to the case of letters, on the length of the shorter one.\<close>

theorem strcasecmp_prefix:
  "strcasecmp s1 s2 = 0 \<longleftrightarrow>
     (\<forall>i < min (length s1) (length s2). toupper (s1 ! i) = toupper (s2 ! i))"
proof (induction s1 s2 rule: strcasecmp.induct)
  case (1 a s1 b s2)
  then show ?case by (auto simp: All_less_Suc2)
qed auto

end
