(* ===== verification/Flash_Ctl.thy ===== *)
theory Flash_Ctl
  imports Mcu_Prelude
begin

text \<open>
  The flash controller and the command layer of
  \<^verbatim>\<open>platform/drivers/internalflash/wm_internal_fls.c\<close>: the driver writes a command word
  and an address to two registers, exchanges data through a buffer window
  (\<^verbatim>\<open>RSA_BASE_ADDRESS\<close>) and starts the command. What the controller and the flash chip
  do then is hardware: a function \<open>hw\<close> of the command word, the address register, the
  buffer and the chip, which every definition takes as an argument. The documented
  behaviour the driver relies on is the interface \<open>spi_nor\<close>: reading delivers the stored
  bytes, erasing a sector sets its bytes to 0xFF, programming a page can only clear bits,
  and both need a preceding write enable and an unprotected target.
\<close>

unbundle bit_operations_syntax

section \<open>Registers and state\<close>

type_synonym 'c flash_hw = "u32 \<Rightarrow> nat \<Rightarrow> (nat \<Rightarrow> u8) \<Rightarrow> 'c \<Rightarrow> 'c \<times> (nat \<Rightarrow> u8)"

abbreviation (input) "INSIDE_FLS_SECTOR_SIZE \<equiv> 0x1000 :: nat"
abbreviation (input) "INSIDE_FLS_PAGE_SIZE \<equiv> 256 :: nat"
abbreviation (input) "INSIDE_FLS_BASE_ADDR \<equiv> 0x8000000 :: nat"
abbreviation (input) "INSIDE_FLS_SECBOOT_ADDR \<equiv> 0x8002000 :: nat"

abbreviation (input) "SPIFLASH_MID_GD \<equiv> 0xC8 :: u8"
abbreviation (input) "SPIFLASH_MID_ESMT \<equiv> 0x1C :: u8"
abbreviation (input) "SPIFLASH_MID_PUYA \<equiv> 0x85 :: u8"
abbreviation (input) "SPIFLASH_MID_WINBOND \<equiv> 0xEF :: u8"
abbreviation (input) "SPIFLASH_MID_FUDANMICRO \<equiv> 0xA1 :: u8"
abbreviation (input) "SPIFLASH_MID_BOYA \<equiv> 0x68 :: u8"
abbreviation (input) "SPIFLASH_MID_XMC \<equiv> 0x20 :: u8"
abbreviation (input) "SPIFLASH_MID_XTX \<equiv> 0x0B :: u8"
abbreviation (input) "SPIFLASH_MID_TSINGTENG \<equiv> 0xEB :: u8"
abbreviation (input) "SPIFLASH_MID_TSINGTENG_1MB_4MB \<equiv> 0xCD :: u8"

record tls_inside_fls =
  flashid :: u8
  density :: nat
  otp_eraseSize :: nat
  otp_pageSize :: nat

text \<open>\<open>rsa\<close> is the buffer window by byte, \<open>cmd_addr\<close> and \<open>flash_addr\<close> are
  \<^verbatim>\<open>HR_FLASH_CMD_ADDR\<close> and \<^verbatim>\<open>HR_FLASH_ADDR\<close>; \<open>sem_taken\<close> counts the acquisitions of
  \<^verbatim>\<open>fls_lock\<close> that were not released; the last two fields are the static variables of the
  fast write functions.\<close>

record 'c fls =
  chip :: 'c
  rsa :: "nat \<Rightarrow> u8"
  cmd_addr :: u32
  flash_addr :: nat
  flash_cr :: u32
  encrypt_ctrl :: u32
  inside_fls :: "tls_inside_fls option"
  sem_taken :: nat
  gsflscache :: "u8 list option"
  gsSector :: nat

section \<open>Commands\<close>

definition flash_cmd :: "u32 \<Rightarrow> 'c fls \<Rightarrow> 'c fls" where
  "flash_cmd v s = s\<lparr>cmd_addr := v\<rparr>"

definition flash_set_addr :: "nat \<Rightarrow> 'c fls \<Rightarrow> 'c fls" where
  "flash_set_addr addr s = s\<lparr>flash_addr := addr mod 0x2000000\<rparr>"

text \<open>\<^verbatim>\<open>M32(HR_FLASH_CMD_START) = CMD_START_Msk\<close>\<close>

definition flash_start :: "'c flash_hw \<Rightarrow> 'c fls \<Rightarrow> 'c fls" where
  "flash_start hw s =
     (let (c, b) = hw (cmd_addr s) (flash_addr s) (rsa s) (chip s) in s\<lparr>chip := c, rsa := b\<rparr>)"

definition rsa_word :: "(nat \<Rightarrow> u8) \<Rightarrow> nat \<Rightarrow> u32" where
  "rsa_word b k =
     ucast (b k) OR push_bit 8 (ucast (b (k + 1))) OR push_bit 16 (ucast (b (k + 2))) OR push_bit 24 (ucast (b (k + 3)))"

definition rsa_store :: "nat \<Rightarrow> u32 \<Rightarrow> (nat \<Rightarrow> u8) \<Rightarrow> nat \<Rightarrow> u8" where
  "rsa_store k v b =
     b(k := ucast v, k + 1 := ucast (drop_bit 8 v), k + 2 := ucast (drop_bit 16 v), k + 3 := ucast (drop_bit 24 v))"

definition read_first_value :: "'c fls \<Rightarrow> u32" where
  "read_first_value s = rsa_word (rsa s) 0"

definition write_first_value :: "u32 \<Rightarrow> 'c fls \<Rightarrow> 'c fls" where
  "write_first_value v s = s\<lparr>rsa := rsa_store 0 v (rsa s)\<rparr>"

definition writeEnable :: "'c flash_hw \<Rightarrow> 'c fls \<Rightarrow> 'c fls" where
  "writeEnable hw s = flash_start hw (flash_cmd 0x6 s)"

definition readRID :: "'c flash_hw \<Rightarrow> 'c fls \<Rightarrow> u8 \<times> 'c fls" where
  "readRID hw s =
     (let s = flash_start hw (flash_cmd 0x2c09F s) in (ucast (read_first_value s AND 0xFF), s))"

section \<open>Status registers\<close>

definition read_sr :: "'c flash_hw \<Rightarrow> 'c fls \<Rightarrow> u32 \<times> 'c fls" where
  "read_sr hw s =
     (let s = flash_start hw (flash_cmd 0x0C005 s);
          status = read_first_value s AND 0xFF;
          s = flash_start hw (flash_cmd 0x0C035 s);
          status = status OR push_bit 8 (read_first_value s AND 0xFF)
      in (status, s))"

definition bp_bits :: "u32 \<Rightarrow> u32 \<Rightarrow> u32 \<Rightarrow> u32 \<Rightarrow> u32 \<Rightarrow> u32" where
  "bp_bits bp4 bp3 bp2 bp1 bp0 =
     push_bit 6 bp4 OR push_bit 5 bp3 OR push_bit 4 bp2 OR push_bit 3 bp1 OR push_bit 2 bp0"

definition writeBpBit_for_1wreg ::
    "'c flash_hw \<Rightarrow> u32 \<Rightarrow> u32 \<Rightarrow> u32 \<Rightarrow> u32 \<Rightarrow> u32 \<Rightarrow> u32 \<Rightarrow> 'c fls \<Rightarrow> 'c fls" where
  "writeBpBit_for_1wreg hw cmp bp4 bp3 bp2 bp1 bp0 s =
     (let (status, s) = read_sr hw s;
          bpstatus = bp_bits bp4 bp3 bp2 bp1 bp0
      in if status AND 0x407C \<noteq> (bpstatus OR push_bit 14 cmp) then
           let status = (status AND 0xBF83) OR bpstatus OR push_bit 14 cmp;
               s = flash_start hw (flash_cmd 0x6 s);
               s = write_first_value status s
           in flash_start hw (flash_cmd 0x1A001 s)
         else s)"

definition writeBpBit_for_2wreg ::
    "'c flash_hw \<Rightarrow> u32 \<Rightarrow> u32 \<Rightarrow> u32 \<Rightarrow> u32 \<Rightarrow> u32 \<Rightarrow> u32 \<Rightarrow> 'c fls \<Rightarrow> 'c fls" where
  "writeBpBit_for_2wreg hw cmp bp4 bp3 bp2 bp1 bp0 s =
     (let (status, s) = read_sr hw s;
          bpstatus = bp_bits bp4 bp3 bp2 bp1 bp0;
          s = (if bpstatus \<noteq> status AND 0x7C then
                 let bpstatus = (status AND 0x83) OR bpstatus;
                     s = flash_start hw (flash_cmd 0x6 s);
                     s = write_first_value bpstatus s
                 in flash_start hw (flash_cmd 0xA001 s)
               else s)
      in if drop_bit 8 (status AND 0x4000) \<noteq> push_bit 6 cmp then
           let s = flash_start hw (flash_cmd 0x6 s);
               status = (drop_bit 8 status AND 0xBF) OR push_bit 6 cmp;
               s = write_first_value status s
           in flash_start hw (flash_cmd 0xA031 s)
         else s)"

definition writeESMTBpBit ::
    "'c flash_hw \<Rightarrow> u32 \<Rightarrow> u32 \<Rightarrow> u32 \<Rightarrow> u32 \<Rightarrow> u32 \<Rightarrow> u32 \<Rightarrow> 'c fls \<Rightarrow> 'c fls" where
  "writeESMTBpBit hw cmp bp4 bp3 bp2 bp1 bp0 s =
     (let s = flash_start hw (flash_cmd 0x0C005 s);
          status = read_first_value s AND 0xFF;
          bpstatus = bp_bits bp4 bp3 bp2 bp1 bp0;
          status = (status AND 0x83) OR bpstatus;
          s = flash_start hw (flash_cmd 0x6 s);
          bpstatus = bp_bits bp4 bp3 bp2 bp1 bp0;
          status = (status AND 0x83) OR bpstatus OR push_bit 14 cmp;
          s = write_first_value status s;
          s = flash_start hw (flash_cmd 0x0A001 s);
          s = flash_start hw (flash_cmd 0x0C085 s);
          status = read_first_value s AND 0xFF;
          s = flash_start hw (flash_cmd 0x6 s);
          status = (status AND 0xBF) OR push_bit 6 cmp;
          s = write_first_value status s
      in flash_start hw (flash_cmd 0x0A0C1 s))"

text \<open>\<^verbatim>\<open>flashunlock\<close> and \<^verbatim>\<open>flashlock\<close>; both look at the density of the installed driver
  (their callers check that it is installed).\<close>

definition fls_density :: "'c fls \<Rightarrow> nat" where
  "fls_density s = (case inside_fls s of None \<Rightarrow> 0 | Some f \<Rightarrow> density f)"

definition flashunlock :: "'c flash_hw \<Rightarrow> 'c fls \<Rightarrow> int \<times> 'c fls" where
  "flashunlock hw s =
     (let (rid, s) = readRID hw s
      in if rid = SPIFLASH_MID_GD \<or> rid = SPIFLASH_MID_TSINGTENG then
           (0, writeBpBit_for_1wreg hw 0 0 0 0 0 0 s)
         else if rid = SPIFLASH_MID_PUYA \<or> rid = SPIFLASH_MID_TSINGTENG_1MB_4MB then
           (if fls_density s = 0x100000
            then (0, writeBpBit_for_1wreg hw 0 0 0 0 0 0 s)
            else (0, writeBpBit_for_2wreg hw 0 0 0 0 0 0 s))
         else if rid = SPIFLASH_MID_XTX \<or> rid = SPIFLASH_MID_BOYA \<or> rid = SPIFLASH_MID_FUDANMICRO \<or> rid = SPIFLASH_MID_XMC then
           (0, writeBpBit_for_2wreg hw 0 0 0 0 0 0 s)
         else if rid = SPIFLASH_MID_ESMT then (0, writeESMTBpBit hw 0 0 0 0 0 0 s)
         else (-1, s))"

definition flashlock :: "'c flash_hw \<Rightarrow> 'c fls \<Rightarrow> int \<times> 'c fls" where
  "flashlock hw s =
     (let (rid, s) = readRID hw s
      in if rid = SPIFLASH_MID_GD \<or> rid = SPIFLASH_MID_TSINGTENG then
           (0, writeBpBit_for_1wreg hw 0 1 1 0 1 0 s)
         else if rid = SPIFLASH_MID_PUYA \<or> rid = SPIFLASH_MID_TSINGTENG_1MB_4MB then
           (if fls_density s = 0x100000
            then (0, writeBpBit_for_1wreg hw 0 1 1 0 1 0 s)
            else (0, writeBpBit_for_2wreg hw 0 1 1 0 1 0 s))
         else if rid = SPIFLASH_MID_XTX \<or> rid = SPIFLASH_MID_BOYA \<or> rid = SPIFLASH_MID_FUDANMICRO \<or> rid = SPIFLASH_MID_XMC then
           (0, writeBpBit_for_2wreg hw 0 1 1 0 1 0 s)
         else if rid = SPIFLASH_MID_ESMT then (0, writeESMTBpBit hw 0 1 1 0 1 0 s)
         else (-1, s))"

definition writeLbBit_for_1wreg :: "'c flash_hw \<Rightarrow> u32 \<Rightarrow> 'c fls \<Rightarrow> 'c fls" where
  "writeLbBit_for_1wreg hw val s =
     (let (status, s) = read_sr hw s;
          s = flash_start hw (flash_cmd 0x6 s);
          status = status OR val;
          s = write_first_value status s
      in flash_start hw (flash_cmd 0x1A001 s))"

definition writeLbBit_for_2wreg :: "'c flash_hw \<Rightarrow> u32 \<Rightarrow> 'c fls \<Rightarrow> 'c fls" where
  "writeLbBit_for_2wreg hw val s =
     (let (status, s) = read_sr hw s;
          s = flash_start hw (flash_cmd 0x6 s);
          status = drop_bit 8 (status OR val);
          s = write_first_value status s
      in flash_start hw (flash_cmd 0xA031 s))"

section \<open>Programming, erasing, reading\<close>

text \<open>The copy loop of \<^verbatim>\<open>programSR\<close>: four bytes at a time, \<^verbatim>\<open>size -= 4\<close> on an unsigned
  size; a size that is not a multiple of four never reaches zero.\<close>

function load_words :: "nat \<Rightarrow> u8 list \<Rightarrow> nat \<Rightarrow> (nat \<Rightarrow> u8) \<Rightarrow> (nat \<Rightarrow> u8) option" where
  "load_words base_addr buf n b =
     (if n = 0 then Some b
      else if n < 4 then None
      else load_words (base_addr + 4) (drop 4 buf) (n - 4)
             (b(base_addr := buf ! 0, base_addr + 1 := buf ! 1, base_addr + 2 := buf ! 2, base_addr + 3 := buf ! 3)))"
  by auto
termination by (relation "measure (\<lambda>(_, _, n, _). n)") auto

declare load_words.simps [simp del]

definition programSR :: "'c flash_hw \<Rightarrow> u32 \<Rightarrow> nat \<Rightarrow> u8 list \<Rightarrow> nat \<Rightarrow> 'c fls \<Rightarrow> 'c fls option" where
  "programSR hw cmd addr buf sz s =
     (let sz = (if sz > INSIDE_FLS_PAGE_SIZE then INSIDE_FLS_PAGE_SIZE else sz)
      in case load_words 0 buf sz (rsa s) of
           None \<Rightarrow> None
         | Some b \<Rightarrow>
             let s = s\<lparr>rsa := b\<rparr>;
                 s = writeEnable hw s;
                 s = flash_cmd (cmd OR push_bit 16 (of_nat sz - 1)) s;
                 s = flash_set_addr addr s
             in Some (flash_start hw s))"

definition programPage :: "'c flash_hw \<Rightarrow> nat \<Rightarrow> nat \<Rightarrow> u8 list \<Rightarrow> 'c fls \<Rightarrow> 'c fls option" where
  "programPage hw adr sz buf s = programSR hw 0x80009002 adr buf sz s"

definition eraseSR :: "'c flash_hw \<Rightarrow> u32 \<Rightarrow> nat \<Rightarrow> 'c fls \<Rightarrow> 'c fls" where
  "eraseSR hw cmd addr s =
     (let s = writeEnable hw s;
          s = flash_cmd cmd s;
          s = flash_set_addr addr s
      in flash_start hw s)"

definition eraseSector :: "'c flash_hw \<Rightarrow> nat \<Rightarrow> 'c fls \<Rightarrow> 'c fls" where
  "eraseSector hw adr s = eraseSR hw 0x80000820 adr s"

definition getFlashDensity :: "'c flash_hw \<Rightarrow> 'c fls \<Rightarrow> nat \<times> 'c fls" where
  "getFlashDensity hw s =
     (let s = flash_start hw (flash_cmd 0x2c09F s);
          d = drop_bit 16 (read_first_value s AND 0xFFFFFF) AND 0xFF
      in (if d \<noteq> 0 \<and> d \<le> 0x21 then unat (push_bit (unat d) 1 :: u32) else 0, s))"

text \<open>\<^verbatim>\<open>__readByCMD\<close> with the bytes it stores through \<^verbatim>\<open>buf\<close>: whole words, the bytes of
  the last word beyond \<^verbatim>\<open>sz\<close> set to zero.\<close>

definition read_cmd_word :: "u8 \<Rightarrow> nat \<Rightarrow> u32 \<Rightarrow> u32 option" where
  "read_cmd_word cmd sz cr =
     (let len = push_bit 16 ((of_nat sz - 1) AND 0x3FF)
      in if cmd = 0x03 then Some (0x8000C003 OR len)
         else if cmd = 0x0B then
           (if cr AND 2 = 2 then Some (0xB400C00B OR len) else Some (0xBC00C00B OR len))
         else if cmd = 0xBB then Some (0xE400C0BB OR len)
         else if cmd = 0xEB then Some (0xEC00C0EB OR len)
         else None)"

definition rsa_read :: "(nat \<Rightarrow> u8) \<Rightarrow> nat \<Rightarrow> u8 list" where
  "rsa_read b sz =
     (let word = sz div 4; byte = sz mod 4
      in map b [0..<4 * word] @
         (if byte > 0 then map b [4 * word..<4 * word + byte] @ replicate (4 - byte) 0 else []))"

definition readByCMD_raw ::
    "'c flash_hw \<Rightarrow> u8 \<Rightarrow> nat \<Rightarrow> nat \<Rightarrow> 'c fls \<Rightarrow> int \<times> u8 list \<times> 'c fls" where
  "readByCMD_raw hw cmd addr sz s =
     (let cmd = (if flash_cr s AND 1 = 0 then (if cmd > 0x0B then 0x0B else cmd) else cmd)
      in case read_cmd_word cmd sz (flash_cr s) of
           None \<Rightarrow> (-1, [], s)
         | Some w \<Rightarrow>
             let s = flash_cmd w s;
                 s = flash_set_addr addr s;
                 s = flash_start hw s
             in (0, rsa_read (rsa s) sz, s))"

end
