(* ===== verification/Flash_Nor.thy ===== *)
theory Flash_Nor
  imports Flash_Ctl
begin

text \<open>
  The interface between the flash driver and the flash chip. \<open>spi_nor\<close> states the
  documented behaviour of a serial NOR flash behind the controller, for the command words
  the driver uses: reading delivers the stored bytes, a sector erase sets 4096 bytes to
  0xFF, a page program only clears bits, both need the write enable latch and an
  unprotected address. \<open>spi_nor_sr\<close> adds the identification and the two status
  registers, \<open>spi_nor_otp\<close> the security register area. What the command layer of the driver does to the contents is
  proved once in these locales; they are interpreted on the reference chip \<open>nor_hw\<close>,
  which decodes the command words.
\<close>

unbundle bit_operations_syntax

section \<open>Flash contents\<close>

definition mem_write :: "(nat \<Rightarrow> u8) \<Rightarrow> nat \<Rightarrow> u8 list \<Rightarrow> nat \<Rightarrow> u8" where
  "mem_write m a bs x = (if a \<le> x \<and> x < a + length bs then bs ! (x - a) else m x)"

definition mem_and :: "(nat \<Rightarrow> u8) \<Rightarrow> nat \<Rightarrow> u8 list \<Rightarrow> nat \<Rightarrow> u8" where
  "mem_and m a bs x = (if a \<le> x \<and> x < a + length bs then m x AND bs ! (x - a) else m x)"

definition mem_erase :: "(nat \<Rightarrow> u8) \<Rightarrow> nat \<Rightarrow> nat \<Rightarrow> u8" where
  "mem_erase m k x = (if x div 4096 = k then 0xFF else m x)"

definition mem_read :: "(nat \<Rightarrow> u8) \<Rightarrow> nat \<Rightarrow> nat \<Rightarrow> u8 list" where
  "mem_read m a n = map m [a..<a + n]"

lemma length_mem_read [simp]: "length (mem_read m a n) = n"
  by (simp add: mem_read_def)

lemma nth_mem_read [simp]: "i < n \<Longrightarrow> mem_read m a n ! i = m (a + i)"
  by (simp add: mem_read_def)

lemma mem_read_0 [simp]: "mem_read m a 0 = []"
  by (simp add: mem_read_def)

lemma mem_read_append: "mem_read m a i @ mem_read m (a + i) j = mem_read m a (i + j)"
  by (rule nth_equalityI) (auto simp: nth_append)

lemma take_mem_read: "take i (mem_read m a n) = mem_read m a (min i n)"
  by (simp add: mem_read_def take_map min_def)

lemma drop_mem_read: "drop i (mem_read m a n) = mem_read m (a + i) (n - i)"
  by (cases "i \<le> n") (auto simp: mem_read_def drop_map)

lemma mem_read_mem_write:
  "mem_read (mem_write m a bs) a (length bs) = bs"
  by (rule nth_equalityI) (simp_all add: mem_write_def)

lemma mem_read_part:
  assumes "i + n \<le> length bs"
  shows "mem_read (mem_write m a bs) (a + i) n = take n (drop i bs)"
  by (rule nth_equalityI) (use assms in \<open>auto simp: mem_write_def\<close>)

lemma mem_read_mem_write_other:
  assumes "a + length bs \<le> x \<or> x + n \<le> a"
  shows "mem_read (mem_write m a bs) x n = mem_read m x n"
  by (rule nth_equalityI) (use assms in \<open>auto simp: mem_write_def\<close>)

lemma mem_write_append: "mem_write (mem_write m a bs) (a + length bs) cs = mem_write m a (bs @ cs)"
  by (rule ext) (auto simp: mem_write_def nth_append)

lemma mem_and_append: "mem_and (mem_and m a bs) (a + length bs) cs = mem_and m a (bs @ cs)"
  by (rule ext) (auto simp: mem_and_def nth_append)

lemma mem_write_Nil [simp]: "mem_write m a [] = m"
  by (rule ext) (auto simp: mem_write_def)

lemma mem_and_Nil [simp]: "mem_and m a [] = m"
  by (rule ext) (auto simp: mem_and_def)

text \<open>Programming an erased range stores the bytes.\<close>

lemma and_0xFF_u8 [simp]: "0xFF AND x = x" for x :: u8
proof -
  have "(0xFF :: u8) = - 1" by simp
  then show ?thesis by (simp only: and.left_neutral)
qed

lemma mem_and_erased:
  assumes "length bs = 4096"
  shows "mem_and (mem_erase m k) (k * 4096) bs = mem_write m (k * 4096) bs"
proof
  fix x
  have "x div 4096 = k \<longleftrightarrow> k * 4096 \<le> x \<and> x < k * 4096 + 4096" by auto
  then show "mem_and (mem_erase m k) (k * 4096) bs x = mem_write m (k * 4096) bs x"
    by (simp add: mem_and_def mem_erase_def mem_write_def assms)
qed

section \<open>The interface\<close>

definition read_cmds :: "u32 list" where
  "read_cmds = [0x8000C003, 0xB400C00B, 0xBC00C00B, 0xE400C0BB, 0xEC00C0EB]"

locale spi_nor =
  fixes hw :: "'c flash_hw"
    and mem :: "'c \<Rightarrow> nat \<Rightarrow> u8"
    and wel :: "'c \<Rightarrow> bool"
    and prot :: "'c \<Rightarrow> nat \<Rightarrow> bool"
    and cap :: nat
  assumes enable_wel: "wel (fst (hw 6 a b c))"
    and enable_mem: "mem (fst (hw 6 a b c)) = mem c"
    and enable_prot: "prot (fst (hw 6 a b c)) = prot c"
    and enable_buf: "snd (hw 6 a b c) = b"
    and erase_mem: "wel c \<Longrightarrow> a < cap \<Longrightarrow> \<not> prot c a \<Longrightarrow>
      mem (fst (hw 0x80000820 a b c)) = mem_erase (mem c) (a div 4096)"
    and erase_prot: "prot (fst (hw 0x80000820 a b c)) = prot c"
    and program_mem: "wel c \<Longrightarrow> 0 < n \<Longrightarrow> n \<le> 256 \<Longrightarrow> a mod 256 = 0 \<Longrightarrow> a + n \<le> cap \<Longrightarrow> \<not> prot c a \<Longrightarrow>
      mem (fst (hw (0x80009002 OR push_bit 16 (of_nat n - 1)) a b c)) = mem_and (mem c) a (map b [0..<n])"
    and program_prot: "0 < n \<Longrightarrow> n \<le> 256 \<Longrightarrow>
      prot (fst (hw (0x80009002 OR push_bit 16 (of_nat n - 1)) a b c)) = prot c"
    and read_buf: "w \<in> set read_cmds \<Longrightarrow> 0 < n \<Longrightarrow> n \<le> 1024 \<Longrightarrow> a + n \<le> cap \<Longrightarrow> i < n \<Longrightarrow>
      snd (hw (w OR push_bit 16 (of_nat n - 1)) a b c) i = mem c (a + i)"
    and read_mem: "w \<in> set read_cmds \<Longrightarrow> 0 < n \<Longrightarrow> n \<le> 1024 \<Longrightarrow>
      mem (fst (hw (w OR push_bit 16 (of_nat n - 1)) a b c)) = mem c"
    and read_prot: "w \<in> set read_cmds \<Longrightarrow> 0 < n \<Longrightarrow> n \<le> 1024 \<Longrightarrow>
      prot (fst (hw (w OR push_bit 16 (of_nat n - 1)) a b c)) = prot c"
    and cap_sectors: "4096 dvd cap"
    and cap_bound: "cap \<le> 0x2000000"

text \<open>The part of the driver state that the command layer leaves alone.\<close>

definition drv :: "'c fls \<Rightarrow> u32 \<times> u32 \<times> tls_inside_fls option \<times> nat \<times> u8 list option \<times> nat" where
  "drv s = (flash_cr s, encrypt_ctrl s, inside_fls s, sem_taken s, gsflscache s, gsSector s)"

lemma drv_start [simp]: "drv (flash_start hw s) = drv s"
  by (simp add: drv_def flash_start_def split: prod.split)

lemma drv_cmd [simp]: "drv (flash_cmd w s) = drv s"
  by (simp add: drv_def flash_cmd_def)

lemma drv_addr [simp]: "drv (flash_set_addr a s) = drv s"
  by (simp add: drv_def flash_set_addr_def)

lemma drv_first [simp]: "drv (write_first_value v s) = drv s"
  by (simp add: drv_def write_first_value_def)

lemma drv_rsa [simp]: "drv (s\<lparr>rsa := b\<rparr>) = drv s"
  by (simp add: drv_def)

lemma chip_cmd_addr [simp]:
  "chip (flash_cmd w s) = chip s" "rsa (flash_cmd w s) = rsa s"
  "chip (flash_set_addr a s) = chip s" "rsa (flash_set_addr a s) = rsa s"
  "cmd_addr (flash_set_addr a s) = cmd_addr s" "cmd_addr (flash_cmd w s) = w"
  "flash_addr (flash_set_addr a s) = a mod 0x2000000" "flash_addr (flash_cmd w s) = flash_addr s"
  "chip (write_first_value v s) = chip s" "flash_addr (write_first_value v s) = flash_addr s"
  by (simp_all add: flash_cmd_def flash_set_addr_def write_first_value_def)

lemma chip_start: "chip (flash_start hw s) = fst (hw (cmd_addr s) (flash_addr s) (rsa s) (chip s))"
  by (simp add: flash_start_def split: prod.split)

lemma rsa_start: "rsa (flash_start hw s) = snd (hw (cmd_addr s) (flash_addr s) (rsa s) (chip s))"
  by (simp add: flash_start_def split: prod.split)

lemma addr_start [simp]: "flash_addr (flash_start hw s) = flash_addr s"
  by (simp add: flash_start_def split: prod.split)

lemma drv_eq_fields:
  assumes "drv s' = drv s"
  shows "flash_cr s' = flash_cr s" "inside_fls s' = inside_fls s" "sem_taken s' = sem_taken s"
    "gsflscache s' = gsflscache s" "gsSector s' = gsSector s" "encrypt_ctrl s' = encrypt_ctrl s"
  using assms by (simp_all add: drv_def)

text \<open>The copy loop fills the buffer window when the size is a multiple of four.\<close>

lemma load_words_Some:
  assumes "4 dvd n" "n \<le> length buf"
  shows "\<exists>b'. load_words base buf n b = Some b' \<and>
    (\<forall>i. b' i = (if base \<le> i \<and> i < base + n then buf ! (i - base) else b i))"
  using assms
proof (induction base buf n b rule: load_words.induct)
  case (1 base buf n b)
  show ?case
  proof (cases "n = 0")
    case True
    then show ?thesis by (auto simp: load_words.simps [of base buf 0])
  next
    case False
    with 1 have n: "4 \<le> n" "4 dvd n - 4" by auto
    let ?b = "b(base := buf ! 0, base + 1 := buf ! 1, base + 2 := buf ! 2, base + 3 := buf ! 3)"
    have step: "load_words base buf n b = load_words (base + 4) (drop 4 buf) (n - 4) ?b"
      using False n by (simp add: load_words.simps [of base buf n])
    obtain b' where b': "load_words (base + 4) (drop 4 buf) (n - 4) ?b = Some b'"
      "\<And>i. b' i = (if base + 4 \<le> i \<and> i < base + 4 + (n - 4) then drop 4 buf ! (i - (base + 4)) else ?b i)"
      using "1.IH" [OF False] n "1.prems" by (metis diff_le_mono length_drop not_less)
    have "b' i = (if base \<le> i \<and> i < base + n then buf ! (i - base) else b i)" for i
    proof (cases "base + 4 \<le> i")
      case True
      with b'(2) [of i] n 1 show ?thesis by (auto simp: nth_drop)
    next
      case le: False
      then consider "i < base" | "i = base" | "i = base + 1" | "i = base + 2" | "i = base + 3" by linarith
      then show ?thesis using b'(2) [of i] n by cases auto
    qed
    with step b'(1) show ?thesis by simp
  qed
qed

lemma load_words_window:
  assumes "4 dvd n" "n \<le> length buf"
  shows "\<exists>b'. load_words 0 buf n b = Some b' \<and> map b' [0..<n] = take n buf"
proof -
  obtain b' where b': "load_words 0 buf n b = Some b'"
    "\<forall>i. b' i = (if 0 \<le> i \<and> i < 0 + n then buf ! (i - 0) else b i)"
    using load_words_Some [OF assms, of 0 b] by blast
  have "map b' [0..<n] = take n buf"
    using b'(2) assms(2) by (intro nth_equalityI) simp_all
  with b'(1) show ?thesis by blast
qed

lemma rsa_read_map:
  "take sz (rsa_read b sz) = map b [0..<sz]"
  "sz mod 4 = 0 \<Longrightarrow> rsa_read b sz = map b [0..<sz]"
proof -
  have sz: "sz = 4 * (sz div 4) + sz mod 4" by simp
  let ?w = "4 * (sz div 4)"
  have m: "map b [0..<?w] @ map b [?w..<?w + sz mod 4] = map b [0..<sz]"
    using upt_add_eq_append [of 0 ?w "sz mod 4"] sz by simp
  show "take sz (rsa_read b sz) = map b [0..<sz]"
  proof (cases "sz mod 4 = 0")
    case True
    then have "?w = sz" by (metis sz add_0_right)
    with True show ?thesis by (simp add: rsa_read_def Let_def)
  next
    case False
    then have "rsa_read b sz = map b [0..<sz] @ replicate (4 - sz mod 4) 0"
      using m by (simp add: rsa_read_def Let_def)
    then show ?thesis by simp
  qed
  show "rsa_read b sz = map b [0..<sz]" if "sz mod 4 = 0"
  proof -
    from that have "?w = sz" by (metis sz add_0_right)
    with that show ?thesis by (simp add: rsa_read_def Let_def)
  qed
qed

lemma and_0x3FF: "unat v < 2 ^ 10 \<Longrightarrow> v AND 0x3FF = v" for v :: u32
proof -
  assume v: "unat v < 2 ^ 10"
  have "(0x3FF :: u32) = mask 10" by (simp add: mask_eq_exp_minus_1)
  moreover have "v AND mask 10 = v"
    by (intro bit_eqI) (auto simp: bit_and_iff bit_mask_iff dest: bit_small_unat [OF v])
  ultimately show ?thesis by simp
qed

lemma read_cmd_word_cmds:
  assumes "0 < n" "n \<le> 1024" "cmd = (if flash_cr s AND 1 = 0 then (if 0xEB > (0x0B :: u8) then 0x0B else 0xEB) else 0xEB)"
  shows "\<exists>w\<in>set read_cmds. read_cmd_word cmd n (flash_cr s) = Some (w OR push_bit 16 (of_nat n - 1))"
proof -
  have "unat (of_nat n - 1 :: u32) < 1024"
    using assms by (simp add: unat_sub_if_size unat_of_nat word_size)
  then have "unat (of_nat n - 1 :: u32) < 2 ^ 10" by simp
  then have "(of_nat n - 1 :: u32) AND 0x3FF = of_nat n - 1"
    by (rule and_0x3FF)
  with assms(3) show ?thesis
    by (auto simp: read_cmds_def read_cmd_word_def Let_def)
qed

text \<open>The contents, the protection and the rest of the driver state are unchanged.\<close>

definition kept :: "('c \<Rightarrow> nat \<Rightarrow> u8) \<Rightarrow> ('c \<Rightarrow> nat \<Rightarrow> bool) \<Rightarrow> 'c fls \<Rightarrow> 'c fls \<Rightarrow> bool" where
  "kept mem prot s s' \<longleftrightarrow> mem (chip s') = mem (chip s) \<and> prot (chip s') = prot (chip s) \<and> drv s' = drv s"

lemma kept_refl [simp]: "kept mem prot s s"
  by (simp add: kept_def)

lemma kept_trans: "kept mem prot s s' \<Longrightarrow> kept mem prot s' s'' \<Longrightarrow> kept mem prot s s''"
  by (simp add: kept_def)

lemma kept_mem: "kept mem prot s s' \<Longrightarrow> mem (chip s') = mem (chip s)"
  by (simp add: kept_def)

section \<open>The command layer on a chip that satisfies the interface\<close>

context spi_nor
begin

lemma writeEnable_spec [simp]:
  "mem (chip (writeEnable hw s)) = mem (chip s)" "wel (chip (writeEnable hw s))"
  "prot (chip (writeEnable hw s)) = prot (chip s)" "rsa (writeEnable hw s) = rsa s"
  "drv (writeEnable hw s) = drv s"
  by (simp_all add: writeEnable_def chip_start rsa_start enable_mem enable_wel enable_prot enable_buf)

lemma eraseSector_spec:
  assumes "adr mod 0x2000000 = k * 4096" "k * 4096 < cap" "\<not> prot (chip s) (k * 4096)"
  shows "mem (chip (eraseSector hw adr s)) = mem_erase (mem (chip s)) k"
    "prot (chip (eraseSector hw adr s)) = prot (chip s)"
    "drv (eraseSector hw adr s) = drv s"
  using assms
  by (simp_all add: eraseSector_def eraseSR_def Let_def chip_start erase_mem erase_prot)

lemma programPage_spec:
  assumes "adr mod 0x2000000 = a" "a mod 256 = 0" "0 < sz" "sz \<le> 256" "4 dvd sz"
    "sz \<le> length buf" "a + sz \<le> cap" "\<not> prot (chip s) a"
  shows "\<exists>s'. programPage hw adr sz buf s = Some s' \<and>
    mem (chip s') = mem_and (mem (chip s)) a (take sz buf) \<and>
    prot (chip s') = prot (chip s) \<and> drv s' = drv s"
proof -
  obtain b' where b': "load_words 0 buf sz (rsa s) = Some b'" "map b' [0..<sz] = take sz buf"
    using load_words_window [OF assms(5,6)] by blast
  let ?s = "flash_start hw (flash_set_addr adr (flash_cmd (0x80009002 OR push_bit 16 (of_nat sz - 1)) (writeEnable hw (s\<lparr>rsa := b'\<rparr>))))"
  have "programPage hw adr sz buf s = Some ?s"
    using b' assms(4) by (simp add: programPage_def programSR_def Let_def)
  moreover have "mem (chip ?s) = mem_and (mem (chip s)) a (take sz buf)"
    using assms by (simp add: chip_start program_mem b'(2))
  moreover have "prot (chip ?s) = prot (chip s)"
    using assms by (simp add: chip_start program_prot)
  ultimately show ?thesis by (intro exI [of _ ?s]) simp
qed

lemma readByCMD_raw_spec:
  assumes "adr mod 0x2000000 = a" "0 < sz" "sz \<le> 1024" "a + sz \<le> cap"
  shows "\<exists>s' bs. readByCMD_raw hw 0xEB adr sz s = (0, bs, s') \<and> take sz bs = mem_read (mem (chip s)) a sz \<and>
    (sz mod 4 = 0 \<longrightarrow> bs = mem_read (mem (chip s)) a sz) \<and>
    kept mem prot s s'"
proof -
  let ?cmd = "if flash_cr s AND 1 = 0 then (if 0xEB > (0x0B :: u8) then 0x0B else 0xEB) else 0xEB"
  obtain w where w: "w \<in> set read_cmds" "read_cmd_word ?cmd sz (flash_cr s) = Some (w OR push_bit 16 (of_nat sz - 1))"
    using read_cmd_word_cmds [OF assms(2,3) refl] by blast
  let ?s = "flash_start hw (flash_set_addr adr (flash_cmd (w OR push_bit 16 (of_nat sz - 1)) s))"
  have r: "readByCMD_raw hw 0xEB adr sz s = (0, rsa_read (rsa ?s) sz, ?s)"
    using w(2) by (simp add: readByCMD_raw_def Let_def)
  have "map (rsa ?s) [0..<sz] = mem_read (mem (chip s)) a sz"
    by (rule nth_equalityI) (use assms w(1) in \<open>simp_all add: rsa_start read_buf\<close>)
  then show ?thesis using r assms w(1)
    by (intro exI [of _ ?s] exI [of _ "rsa_read (rsa ?s) sz"])
       (simp add: rsa_read_map chip_start read_mem read_prot kept_def)
qed

end

section \<open>Status registers and the security registers\<close>

text \<open>BP bits clear and CMP clear: nothing protected. BP4..BP0 = 11010 and CMP clear: the
  first 8 KiB, the area [0x0~0x2000] of the comments of \<^verbatim>\<open>tls_flash_lock\<close>.\<close>

locale spi_nor_sr = spi_nor hw mem wel prot cap
  for hw :: "'c flash_hw" and mem wel prot cap +
  fixes rid :: "'c \<Rightarrow> u8"
    and sr1 :: "'c \<Rightarrow> u8"
    and sr2 :: "'c \<Rightarrow> u8"
  assumes rid_read: "snd (hw 0x2c09F a b c) 0 = rid c"
    and rid_chip: "fst (hw 0x2c09F a b c) = c"
    and sr1_read: "snd (hw 0x0C005 a b c) 0 = sr1 c"
    and sr1_chip: "fst (hw 0x0C005 a b c) = c"
    and sr2_read: "snd (hw 0x0C035 a b c) 0 = sr2 c"
    and sr2_chip: "fst (hw 0x0C035 a b c) = c"
    and enable_sr: "sr1 (fst (hw 6 a b c)) = sr1 c" "sr2 (fst (hw 6 a b c)) = sr2 c"
    and write_both: "wel c \<Longrightarrow> mem (fst (hw 0x1A001 a b c)) = mem c"
      "wel c \<Longrightarrow> sr1 (fst (hw 0x1A001 a b c)) = b 0" "wel c \<Longrightarrow> sr2 (fst (hw 0x1A001 a b c)) = b 1"
    and write_sr1: "wel c \<Longrightarrow> mem (fst (hw 0xA001 a b c)) = mem c"
      "wel c \<Longrightarrow> sr1 (fst (hw 0xA001 a b c)) = b 0" "wel c \<Longrightarrow> sr2 (fst (hw 0xA001 a b c)) = sr2 c"
    and write_sr2: "wel c \<Longrightarrow> mem (fst (hw 0xA031 a b c)) = mem c"
      "wel c \<Longrightarrow> sr1 (fst (hw 0xA031 a b c)) = sr1 c" "wel c \<Longrightarrow> sr2 (fst (hw 0xA031 a b c)) = b 0"
    and prot_none: "sr1 c AND 0x7C = 0 \<Longrightarrow> sr2 c AND 0x40 = 0 \<Longrightarrow> \<not> prot c x"
    and prot_low: "sr1 c AND 0x7C = 0x68 \<Longrightarrow> sr2 c AND 0x40 = 0 \<Longrightarrow> prot c x \<longleftrightarrow> x < 0x2000"

locale spi_nor_otp = spi_nor hw mem wel prot cap
  for hw :: "'c flash_hw" and mem wel prot cap +
  fixes otp :: "'c \<Rightarrow> nat \<Rightarrow> u8"
  assumes otp_read_buf: "0 < n \<Longrightarrow> n \<le> 1024 \<Longrightarrow> i < n \<Longrightarrow>
      snd (hw (0xBC00C048 OR push_bit 16 (of_nat n - 1)) a b c) i = otp c (a + i)"
    and otp_read_chip: "0 < n \<Longrightarrow> n \<le> 1024 \<Longrightarrow> fst (hw (0xBC00C048 OR push_bit 16 (of_nat n - 1)) a b c) = c"

section \<open>A reference chip\<close>

record nor_chip =
  cells :: "nat \<Rightarrow> u8"
  latch :: bool
  jedec :: u32
  reg1 :: u8
  reg2 :: u8
  security :: "nat \<Rightarrow> u8"

definition nor_prot :: "nor_chip \<Rightarrow> nat \<Rightarrow> bool" where
  "nor_prot c x =
     (if reg1 c AND 0x7C = 0 \<and> reg2 c AND 0x40 = 0 then False
      else if reg1 c AND 0x7C = 0x68 \<and> reg2 c AND 0x40 = 0 then x < 0x2000
      else True)"

definition nor_len :: "u32 \<Rightarrow> nat" where
  "nor_len w = unat (drop_bit 16 w AND 0x3FF) + 1"

definition nor_fill :: "nat \<Rightarrow> (nat \<Rightarrow> u8) \<Rightarrow> (nat \<Rightarrow> u8) \<Rightarrow> nat \<Rightarrow> u8" where
  "nor_fill n src b i = (if i < n then src i else b i)"

definition nor_hw :: "nor_chip flash_hw" where
  "nor_hw w a b c =
     (let opcode = (ucast w :: u8); n = nor_len w; idle = c\<lparr>latch := False\<rparr>
      in if opcode = 0x06 then (c\<lparr>latch := True\<rparr>, b)
         else if opcode = 0x20 then
           (if latch c \<and> \<not> nor_prot c a then (idle\<lparr>cells := mem_erase (cells c) (a div 4096)\<rparr>, b) else (idle, b))
         else if opcode = 0x02 then
           (if latch c \<and> \<not> nor_prot c a then (idle\<lparr>cells := mem_and (cells c) a (map b [0..<n])\<rparr>, b) else (idle, b))
         else if opcode = 0x03 \<or> opcode = 0x0B \<or> opcode = 0xBB \<or> opcode = 0xEB then
           (c, nor_fill n (\<lambda>i. cells c (a + i)) b)
         else if opcode = 0x48 then (c, nor_fill n (\<lambda>i. security c (a + i)) b)
         else if opcode = 0x9F then (c, rsa_store 0 (jedec c) b)
         else if opcode = 0x05 then (c, b(0 := reg1 c))
         else if opcode = 0x35 then (c, b(0 := reg2 c))
         else if opcode = 0x01 then
           (if latch c then (if n = 2 then idle\<lparr>reg1 := b 0, reg2 := b 1\<rparr> else idle\<lparr>reg1 := b 0\<rparr>, b) else (idle, b))
         else if opcode = 0x31 then (if latch c then (idle\<lparr>reg2 := b 0\<rparr>, b) else (idle, b))
         else (c, b))"

lemma unat_len: "0 < n \<Longrightarrow> n \<le> 1024 \<Longrightarrow> unat (of_nat n - 1 :: u32) = n - 1"
  by (simp add: unat_sub_if_size unat_of_nat word_size)

lemma nor_opcode: "(ucast (w OR push_bit 16 v :: u32) :: u8) = ucast w"
  by (intro bit_eqI) (auto simp: bit_ucast_iff bit_or_iff bit_push_bit_iff)

lemma nor_len_cmd:
  assumes "drop_bit 16 w AND 0x3FF = 0" "0 < n" "n \<le> 1024"
  shows "nor_len (w OR push_bit 16 (of_nat n - 1)) = n"
proof -
  let ?v = "of_nat n - 1 :: u32"
  have v: "unat ?v < 2 ^ 10" using unat_len [OF assms(2,3)] assms(2,3) by simp
  have "drop_bit 16 (push_bit 16 ?v) = ?v"
    by (intro bit_eqI) (auto simp: bit_drop_bit_eq bit_push_bit_iff dest: bit_small_unat [OF v])
  then have "drop_bit 16 (w OR push_bit 16 ?v) AND 0x3FF = (drop_bit 16 w AND 0x3FF) OR (?v AND 0x3FF)"
    by (simp only: drop_bit_or bit.conj_disj_distrib2)
  also have "\<dots> = ?v" using assms(1) and_0x3FF [OF v] by simp
  finally show ?thesis using unat_len [OF assms(2,3)] assms(2) by (simp add: nor_len_def)
qed

lemma nor_hw_read:
  assumes "w \<in> set read_cmds" "0 < n" "n \<le> 1024"
  shows "nor_hw (w OR push_bit 16 (of_nat n - 1)) a b c = (c, nor_fill n (\<lambda>i. cells c (a + i)) b)"
proof -
  have "drop_bit 16 w AND 0x3FF = 0" and op: "(ucast w :: u8) \<in> {0x03, 0x0B, 0xBB, 0xEB}"
    using assms(1) by (auto simp: read_cmds_def)
  then have "nor_len (w OR push_bit 16 (of_nat n - 1)) = n" using assms by (simp add: nor_len_cmd)
  with op show ?thesis by (auto simp: nor_hw_def nor_opcode)
qed

lemma nor_hw_program:
  assumes "0 < n" "n \<le> 256"
  shows "nor_hw (0x80009002 OR push_bit 16 (of_nat n - 1)) a b c =
    (if latch c \<and> \<not> nor_prot c a then c\<lparr>latch := False, cells := mem_and (cells c) a (map b [0..<n])\<rparr>
     else c\<lparr>latch := False\<rparr>, b)"
proof -
  have "nor_len (0x80009002 OR push_bit 16 (of_nat n - 1)) = n"
    using assms by (intro nor_len_cmd) simp_all
  then show ?thesis by (simp add: nor_hw_def nor_opcode Let_def)
qed

lemma nor_prot_latch [simp]:
  "nor_prot (c\<lparr>latch := l\<rparr>) = nor_prot c" "nor_prot (c\<lparr>cells := m\<rparr>) = nor_prot c"
  by (rule ext, simp add: nor_prot_def)+

interpretation nor: spi_nor nor_hw cells latch nor_prot "0x2000000"
proof
  fix a b c
  show "latch (fst (nor_hw 6 a b c))" by (simp add: nor_hw_def)
  show "cells (fst (nor_hw 6 a b c)) = cells c" by (simp add: nor_hw_def)
  show "nor_prot (fst (nor_hw 6 a b c)) = nor_prot c" by (simp add: nor_hw_def)
  show "snd (nor_hw 6 a b c) = b" by (simp add: nor_hw_def)
  show "latch c \<Longrightarrow> \<not> nor_prot c a \<Longrightarrow> cells (fst (nor_hw 0x80000820 a b c)) = mem_erase (cells c) (a div 4096)"
    by (simp add: nor_hw_def Let_def)
  show "nor_prot (fst (nor_hw 0x80000820 a b c)) = nor_prot c" by (simp add: nor_hw_def Let_def)
qed (simp_all add: nor_hw_program nor_hw_read nor_fill_def)

lemma rsa_store_0: "rsa_store 0 v b 0 = ucast v"
  by (simp add: rsa_store_def)

interpretation nor: spi_nor_sr nor_hw cells latch nor_prot "0x2000000" "\<lambda>c. ucast (jedec c)" reg1 reg2
  by unfold_locales (simp_all add: nor_hw_def Let_def nor_len_def rsa_store_0 nor_prot_def)

interpretation nor: spi_nor_otp nor_hw cells latch nor_prot "0x2000000" security
proof
  fix n i a b c
  assume n: "0 < n" "n \<le> (1024 :: nat)"
  then have "nor_len (0xBC00C048 OR push_bit 16 (of_nat n - 1)) = n" by (intro nor_len_cmd) simp_all
  then have h: "nor_hw (0xBC00C048 OR push_bit 16 (of_nat n - 1)) a b c = (c, nor_fill n (\<lambda>i. security c (a + i)) b)"
    by (simp add: nor_hw_def nor_opcode)
  show "fst (nor_hw (0xBC00C048 OR push_bit 16 (of_nat n - 1)) a b c) = c" by (simp add: h)
  show "i < n \<Longrightarrow> snd (nor_hw (0xBC00C048 OR push_bit 16 (of_nat n - 1)) a b c) i = security c (a + i)"
    by (simp add: h nor_fill_def)
qed

end
