(* ===== verification/Bytes.thy ===== *)
theory Bytes
  imports Mcu_Prelude
begin

text \<open>
  Byte sequences as the core sees them: little-endian words in memory, C strings, and the
  layout of a C structure (every member at the next multiple of its alignment). The
  persistent structures of the parameter and upgrade modules are read and written as bytes,
  so their lemmas rest on the round trips proved here.
\<close>

unbundle bit_operations_syntax

section \<open>Little-endian words\<close>

definition le16 :: "u16 \<Rightarrow> u8 list" where
  "le16 w = [ucast w, ucast (drop_bit 8 w)]"

definition le32 :: "u32 \<Rightarrow> u8 list" where
  "le32 w = [ucast w, ucast (drop_bit 8 w), ucast (drop_bit 16 w), ucast (drop_bit 24 w)]"

definition un16 :: "u8 list \<Rightarrow> u16" where
  "un16 bs = ucast (bs ! 0) OR push_bit 8 (ucast (bs ! 1))"

definition un32 :: "u8 list \<Rightarrow> u32" where
  "un32 bs = ucast (bs ! 0) OR push_bit 8 (ucast (bs ! 1)) OR push_bit 16 (ucast (bs ! 2)) OR push_bit 24 (ucast (bs ! 3))"

lemma length_le [simp]: "length (le16 w) = 2" "length (le32 v) = 4"
  by (simp_all add: le16_def le32_def)

lemma bit_u8_less: "bit x n \<Longrightarrow> n < 8" for x :: u8
  using bit_imp_le_length [of x n] by simp

lemma bit_byte_of: "bit (ucast (drop_bit k w) :: u8) n \<longleftrightarrow> n < 8 \<and> bit w (k + n)" for w :: "'a::len word"
  by (auto simp: bit_ucast_iff bit_drop_bit_eq dest: bit_imp_possible_bit)

lemma bit_byte_0: "bit (ucast w :: u8) n \<longleftrightarrow> n < 8 \<and> bit w n" for w :: "'a::len word"
  by (auto simp: bit_ucast_iff dest: bit_imp_possible_bit)

lemma un16_le16 [simp]: "un16 (le16 w @ r) = w"
proof (rule bit_eqI)
  fix n assume "possible_bit TYPE(16 word) n"
  then have n: "n < 16" by simp
  then consider "n < 8" | "8 \<le> n" "n - 8 < 8" by linarith
  then show "bit (un16 (le16 w @ r)) n \<longleftrightarrow> bit w n"
    by cases (use n in \<open>auto simp: un16_def le16_def bit_or_iff bit_push_bit_iff bit_ucast_iff bit_byte_of bit_byte_0
        bit_drop_bit_eq dest: bit_imp_possible_bit\<close>)
qed

lemma bit_push_byte:
  "bit (push_bit k (ucast b) :: u32) n \<longleftrightarrow> k \<le> n \<and> n < 32 \<and> bit b (n - k)" for b :: u8
  by (auto simp: bit_push_bit_iff bit_ucast_iff dest: bit_imp_possible_bit)

lemma un32_le32 [simp]: "un32 (le32 w @ r) = w"
proof (rule bit_eqI)
  fix n assume "possible_bit TYPE(32 word) n"
  then have n: "n < 32" by simp
  have u: "un32 (le32 w @ r) = push_bit 0 (ucast (ucast w :: u8)) OR push_bit 8 (ucast (ucast (drop_bit 8 w) :: u8)) OR
      push_bit 16 (ucast (ucast (drop_bit 16 w) :: u8)) OR push_bit 24 (ucast (ucast (drop_bit 24 w) :: u8))"
    by (simp add: un32_def le32_def)
  consider "n < 8" | "8 \<le> n" "n < 16" | "16 \<le> n" "n < 24" | "24 \<le> n" by linarith
  then show "bit (un32 (le32 w @ r)) n \<longleftrightarrow> bit w n"
    unfolding u bit_or_iff bit_push_byte bit_byte_0 bit_drop_bit_eq using n by cases auto
qed

section \<open>C strings\<close>

definition cstr :: "u8 list \<Rightarrow> u8 list" where
  "cstr bs = takeWhile (\<lambda>b. b \<noteq> 0) bs @ [0]"

lemma cstr_cstr: "cstr (cstr bs @ r) = cstr bs"
proof -
  have "takeWhile (\<lambda>b. b \<noteq> 0) (takeWhile (\<lambda>b. b \<noteq> 0) bs @ (0 :: u8) # r) = takeWhile (\<lambda>b. b \<noteq> 0) bs"
    by (subst takeWhile_append2) (auto dest: set_takeWhileD)
  then show ?thesis by (simp add: cstr_def)
qed

lemma length_cstr: "length (cstr bs) \<le> Suc (length bs)"
  by (simp add: cstr_def length_takeWhile_le)

section \<open>Copying into a buffer\<close>

text \<open>\<^verbatim>\<open>memcpy(cache + off, buf, n)\<close>.\<close>

definition copy_into :: "u8 list \<Rightarrow> nat \<Rightarrow> u8 list \<Rightarrow> nat \<Rightarrow> u8 list" where
  "copy_into cache off buf n = take off cache @ take n buf @ drop (off + n) cache"

lemma length_copy_into [simp]:
  "off + n \<le> length cache \<Longrightarrow> n \<le> length buf \<Longrightarrow> length (copy_into cache off buf n) = length cache"
  by (simp add: copy_into_def)

lemma copy_into_all: "length cache = n \<Longrightarrow> copy_into cache 0 buf n = take n buf"
  by (simp add: copy_into_def)

lemma copy_into_same:
  assumes "off + n \<le> length p" "n \<le> length buf"
  shows "take n (drop off (copy_into p off buf n)) = take n buf"
  using assms by (simp add: copy_into_def)

lemma copy_into_other:
  assumes "off + n \<le> length p" "n \<le> length buf" "off' + n' \<le> off \<or> off + n \<le> off'"
  shows "take n' (drop off' (copy_into p off buf n)) = take n' (drop off' p)"
proof (rule nth_equalityI)
  show "length (take n' (drop off' (copy_into p off buf n))) = length (take n' (drop off' p))"
    using assms(1,2) by simp
next
  fix i assume "i < length (take n' (drop off' (copy_into p off buf n)))"
  then have i: "i < n'" "off' + i < length p" using assms(1,2) by auto
  then show "take n' (drop off' (copy_into p off buf n)) ! i = take n' (drop off' p) ! i"
    using assms by (auto simp: copy_into_def nth_append)
qed

section \<open>Structure layout\<close>

text \<open>The offsets of members given by size and alignment, from offset \<open>k\<close> on.\<close>

fun c_offsets :: "nat \<Rightarrow> (nat \<times> nat) list \<Rightarrow> nat list" where
  "c_offsets k [] = []"
| "c_offsets k ((sz, al) # fs) = (let a = (k + al - 1) div al * al in a # c_offsets (a + sz) fs)"

lemma length_c_offsets [simp]: "length (c_offsets k fs) = length fs"
  by (induction k fs rule: c_offsets.induct) (simp_all add: Let_def)

lemma align_up: "0 < al \<Longrightarrow> k \<le> (k + al - 1) div al * al" for k al :: nat
  using div_mult_mod_eq [of "k + al - 1" al] mod_less_divisor [of al "k + al - 1"] by linarith

lemma c_offsets_ge:
  "\<forall>(sz, al)\<in>set fs. 0 < al \<Longrightarrow> i < length fs \<Longrightarrow> k \<le> c_offsets k fs ! i"
proof (induction k fs arbitrary: i rule: c_offsets.induct)
  case (2 k sz al fs)
  have al: "k \<le> (k + al - 1) div al * al" using 2(2) by (intro align_up) auto
  show ?case
  proof (cases i)
    case (Suc j)
    then have "(k + al - 1) div al * al + sz \<le> c_offsets ((k + al - 1) div al * al + sz) fs ! j"
      using 2(1) [OF refl, of j] 2(2,3) by auto
    with Suc al show ?thesis by (simp add: Let_def)
  qed (use al in \<open>simp add: Let_def\<close>)
qed simp

text \<open>Members do not overlap.\<close>

lemma c_offsets_disjoint:
  assumes "\<forall>(sz, al)\<in>set fs. 0 < al" "i < j" "j < length fs"
  shows "c_offsets k fs ! i + fst (fs ! i) \<le> c_offsets k fs ! j"
  using assms
proof (induction k fs arbitrary: i j rule: c_offsets.induct)
  case (2 k sz al fs)
  then obtain j' where j: "j = Suc j'" "j' < length fs" by (cases j) auto
  show ?case
  proof (cases i)
    case 0
    then show ?thesis
      using c_offsets_ge [of fs j' "(k + al - 1) div al * al + sz"] 2(2) j by (simp add: Let_def)
  next
    case (Suc i')
    then show ?thesis using 2(1) [OF refl, of i' j'] 2(2,3) j by (simp add: Let_def)
  qed
qed simp

end
