(* ===== verification/Flash.thy ===== *)
theory Flash
  imports Flash_Nor Bytes "HOL-Library.Monad_Syntax"
begin

text \<open>
  The public operations of \<^verbatim>\<open>platform/drivers/internalflash/wm_internal_fls.c\<close> on top of the
  command layer of \<open>Flash_Ctl\<close>. Addresses and lengths are the values of the \<^verbatim>\<open>u32\<close>
  parameters. A result \<open>None\<close> means that a loop of the code does not end; \<open>alloc\<close>
  arguments stand for the outcome of \<^verbatim>\<open>tls_mem_alloc\<close> (\<open>None\<close> when it fails,
  otherwise the bytes of the fresh block), and a \<^verbatim>\<open>NULL\<close> buffer is \<open>None\<close>.
\<close>

unbundle bit_operations_syntax

abbreviation (input) "TLS_FLS_STATUS_OK \<equiv> 0 :: int"
abbreviation (input) "TLS_FLS_STATUS_EINVAL \<equiv> 1 :: int"
abbreviation (input) "TLS_FLS_STATUS_EBUSY \<equiv> 2 :: int"
abbreviation (input) "TLS_FLS_STATUS_EPERM \<equiv> 3 :: int"
abbreviation (input) "TLS_FLS_STATUS_ENOSUPPORT \<equiv> 4 :: int"
abbreviation (input) "TLS_FLS_STATUS_ENOMEM \<equiv> 6 :: int"

section \<open>Locking\<close>

definition fls_acquire :: "'c fls \<Rightarrow> 'c fls" where
  "fls_acquire s = s\<lparr>sem_taken := sem_taken s + 1\<rparr>"

definition fls_release :: "'c fls \<Rightarrow> 'c fls" where
  "fls_release s = s\<lparr>sem_taken := sem_taken s - 1\<rparr>"

definition tls_fls_sem_lock :: "'c fls \<Rightarrow> 'c fls" where
  "tls_fls_sem_lock s = (if inside_fls s = None then s else fls_acquire s)"

definition tls_fls_sem_unlock :: "'c fls \<Rightarrow> 'c fls" where
  "tls_fls_sem_unlock s = (if inside_fls s = None then s else fls_release s)"

definition tls_flash_unlock :: "'c flash_hw \<Rightarrow> 'c fls \<Rightarrow> int \<times> 'c fls" where
  "tls_flash_unlock hw s =
     (if inside_fls s = None then (TLS_FLS_STATUS_EPERM, s)
      else let (ret, s) = flashunlock hw (fls_acquire s) in (ret, fls_release s))"

definition tls_flash_lock :: "'c flash_hw \<Rightarrow> 'c fls \<Rightarrow> int \<times> 'c fls" where
  "tls_flash_lock hw s =
     (if inside_fls s = None then (TLS_FLS_STATUS_EPERM, s)
      else let (ret, s) = flashlock hw (fls_acquire s) in (ret, fls_release s))"

definition config_flash_decrypt_param :: "u32 \<Rightarrow> u32 \<Rightarrow> u32 \<Rightarrow> 'c fls \<Rightarrow> int \<times> 'c fls" where
  "config_flash_decrypt_param code_decrypt dbus_decrypt data_decrypt s =
     (0, s\<lparr>encrypt_ctrl := (encrypt_ctrl s AND NOT 0xE) OR push_bit 1 (code_decrypt AND 1) OR
            push_bit 2 (dbus_decrypt AND 1) OR push_bit 3 (data_decrypt AND 1)\<rparr>)"

section \<open>Reading\<close>

definition readByCMD :: "'c flash_hw \<Rightarrow> u8 \<Rightarrow> nat \<Rightarrow> nat \<Rightarrow> 'c fls \<Rightarrow> int \<times> u8 list \<times> 'c fls" where
  "readByCMD hw cmd addr sz s =
     (if inside_fls s = None then (TLS_FLS_STATUS_EPERM, [], s)
      else let (_, bs, s) = readByCMD_raw hw cmd addr sz (fls_acquire s)
           in (TLS_FLS_STATUS_OK, bs, fls_release s))"

text \<open>The \<^verbatim>\<open>for\<close> loop over whole chunks: the bytes stored through \<^verbatim>\<open>buf\<close>, the address after
  the loop and the state.\<close>

fun read_chunks :: "'c flash_hw \<Rightarrow> nat \<Rightarrow> nat \<Rightarrow> nat \<Rightarrow> 'c fls \<Rightarrow> u8 list \<times> nat \<times> 'c fls" where
  "read_chunks hw 0 max_size faddr s = ([], faddr, s)"
| "read_chunks hw (Suc k) max_size faddr s =
     (let (_, bs, s) = readByCMD_raw hw 0xEB faddr max_size s;
          (bs', a, s) = read_chunks hw k max_size (faddr + max_size) s
      in (bs @ bs', a, s))"

definition flashRead ::
    "'c flash_hw \<Rightarrow> bool \<Rightarrow> bool \<Rightarrow> nat \<Rightarrow> nat \<Rightarrow> 'c fls \<Rightarrow> int \<times> u8 list \<times> 'c fls" where
  "flashRead hw buf_aligned alloc_ok addr sz s =
     (let page_offset = addr mod INSIDE_FLS_PAGE_SIZE
      in if page_offset = 0 \<and> buf_aligned \<and> sz mod 4 = 0 then
           let max_size = (if sz \<ge> 512 then 1024 else INSIDE_FLS_PAGE_SIZE);
               sz_pagenum = sz div max_size;
               sz_remain = sz mod max_size;
               (bs, faddr, s) = read_chunks hw sz_pagenum max_size addr s
           in if sz_remain \<noteq> 0 then
                let (_, cs, s) = readByCMD_raw hw 0xEB faddr sz_remain s in (0, bs @ cs, s)
              else (0, bs, s)
         else if \<not> alloc_ok then (TLS_FLS_STATUS_ENOMEM, [], s)
         else
           let faddr = addr - page_offset;
               (_, cache, s) = readByCMD_raw hw 0xEB faddr INSIDE_FLS_PAGE_SIZE s
           in if sz > INSIDE_FLS_PAGE_SIZE - page_offset then
                let bs = take (INSIDE_FLS_PAGE_SIZE - page_offset) (drop page_offset cache);
                    faddr = faddr + INSIDE_FLS_PAGE_SIZE;
                    sz_pagenum = (sz - (INSIDE_FLS_PAGE_SIZE - page_offset)) div INSIDE_FLS_PAGE_SIZE;
                    sz_remain = (sz - (INSIDE_FLS_PAGE_SIZE - page_offset)) mod INSIDE_FLS_PAGE_SIZE;
                    (cs, faddr, s) = read_chunks hw sz_pagenum INSIDE_FLS_PAGE_SIZE faddr s
                in if sz_remain \<noteq> 0 then
                     let (_, cache, s) = readByCMD_raw hw 0xEB faddr (sz_remain + (4 - sz_remain mod 4)) s
                     in (0, bs @ cs @ take sz_remain cache, s)
                   else (0, bs @ cs, s)
              else (0, take sz (drop page_offset cache), s))"

text \<open>The check of the public operations on address, length and buffer.\<close>

definition bad_args :: "nat \<Rightarrow> nat \<Rightarrow> bool \<Rightarrow> 'c fls \<Rightarrow> bool" where
  "bad_args addr len buf_null s \<longleftrightarrow> addr mod INSIDE_FLS_BASE_ADDR \<ge> fls_density s \<or> len = 0 \<or> buf_null"

definition tls_fls_read ::
    "'c flash_hw \<Rightarrow> bool \<Rightarrow> bool \<Rightarrow> nat \<Rightarrow> bool \<Rightarrow> nat \<Rightarrow> 'c fls \<Rightarrow> int \<times> u8 list \<times> 'c fls" where
  "tls_fls_read hw buf_aligned alloc_ok addr buf_null len s =
     (if inside_fls s = None then (TLS_FLS_STATUS_EPERM, [], s)
      else if bad_args addr len buf_null s then (TLS_FLS_STATUS_EINVAL, [], s)
      else let (_, bs, s) = flashRead hw buf_aligned alloc_ok addr len (fls_acquire s)
           in (TLS_FLS_STATUS_OK, bs, fls_release s))"

section \<open>Writing\<close>

text \<open>\<open>k\<close> pages of a cached sector from page \<open>i\<close> on.\<close>

fun program_pages :: "'c flash_hw \<Rightarrow> nat \<Rightarrow> nat \<Rightarrow> nat \<Rightarrow> u8 list \<Rightarrow> 'c fls \<Rightarrow> 'c fls option" where
  "program_pages hw 0 i base cache s = Some s"
| "program_pages hw (Suc k) i base cache s = do {
     s \<leftarrow> programPage hw (base + i * INSIDE_FLS_PAGE_SIZE) INSIDE_FLS_PAGE_SIZE (drop (i * INSIDE_FLS_PAGE_SIZE) cache) s;
     program_pages hw k (i + 1) base cache s
   }"

partial_function (option) fls_write_loop ::
    "'c flash_hw \<Rightarrow> nat \<Rightarrow> nat \<Rightarrow> nat \<Rightarrow> u8 list \<Rightarrow> nat \<Rightarrow> 'c fls \<Rightarrow> 'c fls option" where
  "fls_write_loop hw secpos secoff secremain buf len s =
     (let (_, cache, s) = flashRead hw True True (secpos * INSIDE_FLS_SECTOR_SIZE) INSIDE_FLS_SECTOR_SIZE s;
          s = eraseSector hw (secpos * INSIDE_FLS_SECTOR_SIZE) s;
          cache = copy_into cache secoff buf secremain
      in do {
        s \<leftarrow> program_pages hw (INSIDE_FLS_SECTOR_SIZE div INSIDE_FLS_PAGE_SIZE) 0 (secpos * INSIDE_FLS_SECTOR_SIZE) cache s;
        if len = secremain then Some s
        else fls_write_loop hw (secpos + 1) 0
               (if len - secremain > INSIDE_FLS_SECTOR_SIZE then INSIDE_FLS_SECTOR_SIZE else len - secremain)
               (drop secremain buf) (len - secremain) s
      })"

definition tls_fls_write ::
    "'c flash_hw \<Rightarrow> bool \<Rightarrow> nat \<Rightarrow> u8 list option \<Rightarrow> nat \<Rightarrow> 'c fls \<Rightarrow> (int \<times> 'c fls) option" where
  "tls_fls_write hw alloc_ok addr buf len s =
     (if inside_fls s = None then Some (TLS_FLS_STATUS_EPERM, s)
      else if bad_args addr len (buf = None) s then Some (TLS_FLS_STATUS_EINVAL, s)
      else if \<not> alloc_ok then Some (TLS_FLS_STATUS_ENOMEM, fls_release (fls_acquire s))
      else
        let offaddr = addr mod INSIDE_FLS_BASE_ADDR;
            secpos = offaddr div INSIDE_FLS_SECTOR_SIZE;
            secoff = offaddr mod INSIDE_FLS_SECTOR_SIZE;
            secremain = INSIDE_FLS_SECTOR_SIZE - secoff;
            secremain = (if len \<le> secremain then len else secremain)
        in do {
          s \<leftarrow> fls_write_loop hw secpos secoff secremain (the buf) len (fls_acquire s);
          Some (TLS_FLS_STATUS_OK, fls_release s)
        })"

partial_function (option) fls_program_loop ::
    "'c flash_hw \<Rightarrow> nat \<Rightarrow> nat \<Rightarrow> nat \<Rightarrow> u8 list \<Rightarrow> u8 list \<Rightarrow> nat \<Rightarrow> 'c fls \<Rightarrow> 'c fls option" where
  "fls_program_loop hw pagepos pageoff pageremain cache buf len s =
     (let cache = copy_into cache pageoff buf pageremain
      in do {
        s \<leftarrow> programPage hw (pagepos * INSIDE_FLS_PAGE_SIZE) INSIDE_FLS_PAGE_SIZE cache s;
        if len = pageremain then Some s
        else if len - pageremain > INSIDE_FLS_PAGE_SIZE then
          fls_program_loop hw (pagepos + 1) 0 INSIDE_FLS_PAGE_SIZE cache (drop pageremain buf) (len - pageremain) s
        else
          let (_, cache, s) = flashRead hw True True ((pagepos + 1) * INSIDE_FLS_PAGE_SIZE) INSIDE_FLS_PAGE_SIZE s
          in fls_program_loop hw (pagepos + 1) 0 (len - pageremain) cache (drop pageremain buf) (len - pageremain) s
      })"

definition tls_fls_write_without_erase ::
    "'c flash_hw \<Rightarrow> bool \<Rightarrow> nat \<Rightarrow> u8 list option \<Rightarrow> nat \<Rightarrow> 'c fls \<Rightarrow> (int \<times> 'c fls) option" where
  "tls_fls_write_without_erase hw alloc_ok addr buf len s =
     (if inside_fls s = None then Some (TLS_FLS_STATUS_EPERM, s)
      else if bad_args addr len (buf = None) s then Some (TLS_FLS_STATUS_EINVAL, s)
      else if \<not> alloc_ok then Some (TLS_FLS_STATUS_ENOMEM, fls_release (fls_acquire s))
      else
        let offaddr = addr mod INSIDE_FLS_BASE_ADDR;
            pagepos = offaddr div INSIDE_FLS_PAGE_SIZE;
            pageoff = offaddr mod INSIDE_FLS_PAGE_SIZE;
            pageremain = INSIDE_FLS_PAGE_SIZE - pageoff;
            pageremain = (if len \<le> pageremain then len else pageremain);
            (_, cache, s) = flashRead hw True True (pagepos * INSIDE_FLS_PAGE_SIZE) INSIDE_FLS_PAGE_SIZE (fls_acquire s)
        in do {
          s \<leftarrow> fls_program_loop hw pagepos pageoff pageremain cache (the buf) len s;
          Some (TLS_FLS_STATUS_OK, fls_release s)
        })"

section \<open>Erasing\<close>

definition sector_limit :: "'c fls \<Rightarrow> nat" where
  "sector_limit s = fls_density s div INSIDE_FLS_SECTOR_SIZE + INSIDE_FLS_BASE_ADDR div INSIDE_FLS_SECTOR_SIZE"

definition tls_fls_erase :: "'c flash_hw \<Rightarrow> nat \<Rightarrow> 'c fls \<Rightarrow> int \<times> 'c fls" where
  "tls_fls_erase hw sector s =
     (if inside_fls s = None then (TLS_FLS_STATUS_EPERM, s)
      else if sector \<ge> sector_limit s then (TLS_FLS_STATUS_EINVAL, s)
      else (TLS_FLS_STATUS_OK, fls_release (eraseSector hw (sector * INSIDE_FLS_SECTOR_SIZE) (fls_acquire s))))"

fun chip_erase_loop :: "'c flash_hw \<Rightarrow> nat \<Rightarrow> nat \<Rightarrow> 'c fls \<Rightarrow> 'c fls" where
  "chip_erase_loop hw 0 i s = s"
| "chip_erase_loop hw (Suc k) i s =
     (let (_, cache, s) = flashRead hw True True (INSIDE_FLS_SECBOOT_ADDR + i * INSIDE_FLS_SECTOR_SIZE) INSIDE_FLS_SECTOR_SIZE s;
          s = (if list_ex (\<lambda>x. x \<noteq> 0xFF) cache
               then eraseSector hw (INSIDE_FLS_SECBOOT_ADDR + i * INSIDE_FLS_SECTOR_SIZE) s else s)
      in chip_erase_loop hw k (i + 1) s)"

definition tls_fls_chip_erase :: "'c flash_hw \<Rightarrow> bool \<Rightarrow> 'c fls \<Rightarrow> int \<times> 'c fls" where
  "tls_fls_chip_erase hw alloc_ok s =
     (if inside_fls s = None then (TLS_FLS_STATUS_EPERM, s)
      else if \<not> alloc_ok then (TLS_FLS_STATUS_ENOMEM, fls_release (fls_acquire s))
      else (TLS_FLS_STATUS_OK,
        fls_release (chip_erase_loop hw ((fls_density s + 2 ^ 32 - 0x2000) mod 2 ^ 32 div INSIDE_FLS_SECTOR_SIZE) 0 (fls_acquire s))))"

section \<open>Fast write\<close>

text \<open>The fast write functions keep one sector in a cache block; the code does not check
  that \<^verbatim>\<open>tls_fls_fast_write_init\<close> allocated it before \<^verbatim>\<open>tls_fls_fast_write\<close> copies into it, so
  the lemmas below are about states that have the cache.\<close>

definition tls_fls_flush_sector :: "'c flash_hw \<Rightarrow> 'c fls \<Rightarrow> 'c fls option" where
  "tls_fls_flush_sector hw s =
     (if gsSector s < sector_limit s then
        program_pages hw (INSIDE_FLS_SECTOR_SIZE div INSIDE_FLS_PAGE_SIZE) 0 (gsSector s * INSIDE_FLS_SECTOR_SIZE)
          (case gsflscache s of None \<Rightarrow> [] | Some c \<Rightarrow> c)
          (eraseSector hw (gsSector s * INSIDE_FLS_SECTOR_SIZE) s)
      else Some s)"

definition tls_fls_fast_write_init :: "u8 list option \<Rightarrow> 'c fls \<Rightarrow> int \<times> 'c fls" where
  "tls_fls_fast_write_init alloc s =
     (if inside_fls s = None then (TLS_FLS_STATUS_EPERM, s)
      else if gsflscache s \<noteq> None then (-1, s)
      else case alloc of None \<Rightarrow> (-1, s) | Some blk \<Rightarrow> (TLS_FLS_STATUS_OK, s\<lparr>gsflscache := Some blk\<rparr>))"

definition tls_fls_fast_write_destroy :: "'c flash_hw \<Rightarrow> 'c fls \<Rightarrow> 'c fls option" where
  "tls_fls_fast_write_destroy hw s =
     (if gsflscache s = None then Some s
      else if inside_fls s = None then Some s
      else do {
        s \<leftarrow> tls_fls_flush_sector hw (fls_acquire s);
        Some ((fls_release s)\<lparr>gsflscache := None\<rparr>)
      })"

partial_function (option) fast_write_loop ::
    "'c flash_hw \<Rightarrow> nat \<Rightarrow> nat \<Rightarrow> u8 list \<Rightarrow> nat \<Rightarrow> 'c fls \<Rightarrow> 'c fls option" where
  "fast_write_loop hw offset maxlen buf len0 s =
     (if len0 > 0 then
        let len = (if len0 > maxlen then maxlen else len0);
            s = s\<lparr>gsflscache := map_option (\<lambda>c. copy_into c offset buf len) (gsflscache s)\<rparr>
        in do {
          s \<leftarrow> (if offset + len \<ge> INSIDE_FLS_SECTOR_SIZE
                then do { s \<leftarrow> tls_fls_flush_sector hw s; Some (s\<lparr>gsSector := gsSector s + 1\<rparr>) }
                else Some s);
          fast_write_loop hw 0 INSIDE_FLS_SECTOR_SIZE (drop len buf) (len0 - len) s
        }
      else Some s)"

definition tls_fls_fast_write ::
    "'c flash_hw \<Rightarrow> nat \<Rightarrow> u8 list option \<Rightarrow> nat \<Rightarrow> 'c fls \<Rightarrow> (int \<times> 'c fls) option" where
  "tls_fls_fast_write hw addr buf len0 s =
     (if inside_fls s = None then Some (TLS_FLS_STATUS_EPERM, s)
      else if bad_args addr len0 (buf = None) s then Some (TLS_FLS_STATUS_EINVAL, s)
      else
        let s = fls_acquire s;
            sector = addr div INSIDE_FLS_SECTOR_SIZE;
            offset = addr mod INSIDE_FLS_SECTOR_SIZE
        in do {
          s \<leftarrow> (if sector \<noteq> gsSector s \<and> gsSector s \<noteq> 0 then tls_fls_flush_sector hw s else Some s);
          s \<leftarrow> fast_write_loop hw offset (INSIDE_FLS_SECTOR_SIZE - offset) (the buf) len0 (s\<lparr>gsSector := sector\<rparr>);
          Some (TLS_FLS_STATUS_OK, fls_release s)
        })"

section \<open>Initialisation and parameters\<close>

definition otp_erase_size :: "u8 \<Rightarrow> nat \<Rightarrow> nat option" where
  "otp_erase_size rid dens =
     (if rid = SPIFLASH_MID_TSINGTENG_1MB_4MB then
        Some (if dens = 0x100000 then 1024 else if dens = 0x400000 then 2048 else 256)
      else if rid = SPIFLASH_MID_GD then Some 1024
      else if rid = SPIFLASH_MID_FUDANMICRO then Some (if dens \<le> 2 ^ 20 then 256 else 1024)
      else if rid = SPIFLASH_MID_TSINGTENG \<or> rid = SPIFLASH_MID_BOYA \<or> rid = SPIFLASH_MID_XMC \<or> rid = SPIFLASH_MID_WINBOND
      then Some 256
      else if rid = SPIFLASH_MID_PUYA then Some 512
      else if rid = SPIFLASH_MID_XTX \<or> rid = SPIFLASH_MID_ESMT then Some 0
      else None)"

definition tls_fls_init :: "'c flash_hw \<Rightarrow> bool \<Rightarrow> bool \<Rightarrow> 'c fls \<Rightarrow> int \<times> 'c fls" where
  "tls_fls_init hw alloc_ok sem_ok s =
     (if inside_fls s \<noteq> None then (TLS_FLS_STATUS_EBUSY, s)
      else if \<not> alloc_ok then (TLS_FLS_STATUS_ENOMEM, s)
      else if \<not> sem_ok then (TLS_FLS_STATUS_ENOMEM, s)
      else
        let (rid, s) = readRID hw s;
            (dens, s) = getFlashDensity hw s
        in case otp_erase_size rid dens of
             None \<Rightarrow> (TLS_FLS_STATUS_ENOSUPPORT, s)
           | Some e \<Rightarrow>
               (TLS_FLS_STATUS_OK,
                s\<lparr>inside_fls := Some \<lparr>flashid = rid, density = dens, otp_eraseSize = e, otp_pageSize = 256\<rparr>,
                  sem_taken := 0\<rparr>))"

definition tls_fls_exit :: "'c fls \<Rightarrow> int \<times> 'c fls" where
  "tls_fls_exit s = (TLS_FLS_STATUS_EPERM, s)"

definition tls_fls_get_param :: "nat \<Rightarrow> bool \<Rightarrow> 'c fls \<Rightarrow> int \<times> nat option \<times> 'c fls" where
  "tls_fls_get_param type param_null s =
     (if inside_fls s = None then (TLS_FLS_STATUS_EPERM, None, s)
      else if param_null then (TLS_FLS_STATUS_EINVAL, None, s)
      else
        let s = fls_acquire s;
            (err, v) =
              (if type = 0 then (TLS_FLS_STATUS_OK, Some 0x2013)
               else if type = 1 then (TLS_FLS_STATUS_OK, Some (fls_density s))
               else if type = 2 then (TLS_FLS_STATUS_OK, Some INSIDE_FLS_PAGE_SIZE)
               else if type = 3 then (TLS_FLS_STATUS_OK, Some INSIDE_FLS_PAGE_SIZE)
               else if type = 4 then (TLS_FLS_STATUS_OK, Some INSIDE_FLS_SECTOR_SIZE)
               else (TLS_FLS_STATUS_EINVAL, None))
        in (err, v, fls_release s))"

text \<open>The flash layout variables of the parameter and upgrade modules.\<close>

record fls_layout =
  TLS_FLASH_MESH_PARAM_ADDR :: u32
  TLS_FLASH_PARAM_DEFAULT :: u32
  TLS_FLASH_PARAM1_ADDR :: u32
  TLS_FLASH_PARAM2_ADDR :: u32
  TLS_FLASH_PARAM_RESTORE_ADDR :: u32
  TLS_FLASH_OTA_FLAG_ADDR :: u32
  TLS_FLASH_END_ADDR :: u32

definition fls_layout_default :: fls_layout where
  "fls_layout_default = \<lparr>TLS_FLASH_MESH_PARAM_ADDR = 0x81FA000, TLS_FLASH_PARAM_DEFAULT = 0x81FB000,
     TLS_FLASH_PARAM1_ADDR = 0x81FC000, TLS_FLASH_PARAM2_ADDR = 0x81FD000,
     TLS_FLASH_PARAM_RESTORE_ADDR = 0x81FE000, TLS_FLASH_OTA_FLAG_ADDR = 0x81FF000,
     TLS_FLASH_END_ADDR = 0x81FFFFF\<rparr>"

definition tls_fls_sys_param_postion_init :: "fls_layout \<Rightarrow> 'c fls \<Rightarrow> fls_layout \<times> 'c fls" where
  "tls_fls_sys_param_postion_init l s =
     (let (err, v, s) = tls_fls_get_param 1 False s
      in case v of
           Some d \<Rightarrow>
             if err = TLS_FLS_STATUS_OK then
               (let top = 0x8000000 OR of_nat d in
                \<lparr>TLS_FLASH_MESH_PARAM_ADDR = top - 0x6000, TLS_FLASH_PARAM_DEFAULT = top - 0x5000,
                 TLS_FLASH_PARAM1_ADDR = top - 0x4000, TLS_FLASH_PARAM2_ADDR = top - 0x3000,
                 TLS_FLASH_PARAM_RESTORE_ADDR = top - 0x2000, TLS_FLASH_OTA_FLAG_ADDR = top - 0x1000,
                 TLS_FLASH_END_ADDR = top - 1\<rparr>, s)
             else (l, s)
         | None \<Rightarrow> (l, s))"

section \<open>Reading on a chip that satisfies the interface\<close>

lemma sector_fits: "4096 dvd d \<Longrightarrow> k * 4096 < d \<Longrightarrow> k * 4096 + 4096 \<le> (d :: nat)"
  by (auto elim!: dvdE)

lemma page_fits:
  assumes "4096 dvd cap" "a < (cap :: nat)"
  shows "a - a mod 256 + 256 \<le> cap"
proof -
  have "256 dvd cap" using assms(1) by (rule dvd_trans [rotated]) simp
  then obtain c where c: "cap = 256 * c" ..
  with assms(2) have "a div 256 < c" by (simp add: less_mult_imp_div_less mult.commute)
  then have "a div 256 * 256 + 256 \<le> cap" using c by simp
  then show ?thesis by (simp add: minus_mod_eq_div_mult)
qed

lemma mod_256_of_25: "adr mod 0x2000000 = a mod (0x2000000 :: nat) \<Longrightarrow> adr mod 256 = a mod (256 :: nat)"
  using mod_mod_cancel [of 256 "0x2000000 :: nat" adr] mod_mod_cancel [of 256 "0x2000000 :: nat" a] by simp

context spi_nor
begin

lemma read_raw:
  assumes "adr mod 0x2000000 = a mod 0x2000000" "0 < sz" "sz \<le> 1024" "a + sz \<le> cap"
  obtains s' bs where "readByCMD_raw hw 0xEB adr sz s = (0, bs, s')" "take sz bs = mem_read (mem (chip s)) a sz"
    "sz mod 4 = 0 \<Longrightarrow> bs = mem_read (mem (chip s)) a sz" "kept mem prot s s'"
proof -
  have "a mod 0x2000000 = a" using assms cap_bound by (intro mod_less) linarith
  with assms readByCMD_raw_spec [of adr a sz s] that show ?thesis by auto
qed

lemma read_chunks_spec:
  assumes "adr mod 0x2000000 = a mod 0x2000000" "0 < m" "m \<le> 1024" "m mod 4 = 0" "a + k * m \<le> cap"
  shows "\<exists>s'. read_chunks hw k m adr s = (mem_read (mem (chip s)) a (k * m), adr + k * m, s') \<and> kept mem prot s s'"
  using assms
proof (induction k arbitrary: adr a s)
  case (Suc k)
  obtain s1 bs where 1: "readByCMD_raw hw 0xEB adr m s = (0, bs, s1)" "bs = mem_read (mem (chip s)) a m" "kept mem prot s s1"
    using Suc.prems by (auto intro: read_raw [of adr a m s])
  have "(adr + m) mod 0x2000000 = (a + m) mod 0x2000000" using Suc.prems(1) by (rule mod_add_cong) simp
  then obtain s2 where 2: "read_chunks hw k m (adr + m) s1 = (mem_read (mem (chip s1)) (a + m) (k * m), adr + m + k * m, s2)"
    "kept mem prot s1 s2"
    using Suc.IH [of "adr + m" "a + m" s1] Suc.prems by (auto simp: add.assoc)
  show ?case using 1 2 by (auto simp: kept_mem mem_read_append intro: kept_trans)
qed simp

lemma flashRead_aligned:
  assumes "adr mod 0x2000000 = a mod 0x2000000" "a + sz \<le> cap" "adr mod 256 = 0" "sz mod 4 = 0"
  shows "\<exists>s'. flashRead hw True ok adr sz s = (0, mem_read (mem (chip s)) a sz, s') \<and> kept mem prot s s'"
proof -
  define m where "m = (if sz \<ge> 512 then 1024 else 256 :: nat)"
  have m: "0 < m" "m \<le> 1024" "m mod 4 = 0" by (auto simp: m_def)
  define k r where "k = sz div m" and "r = sz mod m"
  have sz: "k * m + r = sz" by (simp add: k_def r_def)
  obtain s1 where 1: "read_chunks hw k m adr s = (mem_read (mem (chip s)) a (k * m), adr + k * m, s1)" "kept mem prot s s1"
    using read_chunks_spec [OF assms(1) m, of k s] assms(2) sz by auto
  show ?thesis
  proof (cases "r = 0")
    case True
    with 1 sz assms show ?thesis by (simp add: flashRead_def m_def [symmetric] k_def [symmetric] r_def [symmetric])
  next
    case False
    have "r < m" using m(1) by (simp add: r_def)
    moreover have "r mod 4 = 0" using m(3) assms(4) by (simp add: r_def mod_mod_cancel dvd_eq_mod_eq_0)
    moreover have "(adr + k * m) mod 0x2000000 = (a + k * m) mod 0x2000000" using assms(1) by (rule mod_add_cong) simp
    ultimately obtain s2 where 2: "readByCMD_raw hw 0xEB (adr + k * m) r s1 = (0, mem_read (mem (chip s1)) (a + k * m) r, s2)" "kept mem prot s1 s2"
      using False m(2) sz assms(2) by (auto intro: read_raw [of "adr + k * m" "a + k * m" r s1])
    have "flashRead hw True ok adr sz s = (0, mem_read (mem (chip s)) a (k * m) @ mem_read (mem (chip s)) (a + k * m) r, s2)"
      using 1 2 False assms(3,4) by (simp add: flashRead_def m_def [symmetric] k_def [symmetric] r_def [symmetric] kept_mem [OF 1(2)])
    then show ?thesis using kept_trans [OF 1(2) 2(2)] by (simp add: mem_read_append sz)
  qed
qed

end

lemma mod_minus_cong:
  fixes a b p m :: nat
  assumes "a mod m = b mod m" "p \<le> a" "p \<le> b"
  shows "(a - p) mod m = (b - p) mod m"
proof -
  obtain q1 q2 where "a + m * q1 = b + m * q2" using assms(1) by (auto simp: nat_mod_eq_iff)
  then have "a - p + m * q1 = b - p + m * q2" using assms(2,3) by linarith
  then show ?thesis by (auto simp: nat_mod_eq_iff)
qed

context spi_nor
begin

text \<open>The tail of the cached path: whole pages, then the last partial page read in words.\<close>

lemma read_tail_spec:
  assumes a: "adr mod 0x2000000 = a mod 0x2000000" and sz: "a + (k * 256 + r) \<le> cap" and r: "r < 256" "0 < r"
    and pg: "a mod 256 = 0"
  shows "\<exists>s1 s2 bs. read_chunks hw k 256 adr s = (mem_read (mem (chip s)) a (k * 256), adr + k * 256, s1) \<and>
    readByCMD_raw hw 0xEB (adr + k * 256) (r + (4 - r mod 4)) s1 = (0, bs, s2) \<and>
    take r bs = mem_read (mem (chip s)) (a + k * 256) r \<and> kept mem prot s s2"
proof -
  obtain s1 where 1: "read_chunks hw k 256 adr s = (mem_read (mem (chip s)) a (k * 256), adr + k * 256, s1)" "kept mem prot s s1"
    using read_chunks_spec [OF a, of 256 k s] sz by auto
  let ?n = "r + (4 - r mod 4)"
  have n: "0 < ?n" "?n \<le> 256" "r \<le> ?n" using r by presburger+
  have x: "a + k * 256 + 256 \<le> cap"
    using page_fits [OF cap_sectors, of "a + k * 256"] sz r pg by simp
  have "(adr + k * 256) mod 0x2000000 = (a + k * 256) mod 0x2000000" using a by (rule mod_add_cong) simp
  then obtain s2 bs where 2: "readByCMD_raw hw 0xEB (adr + k * 256) ?n s1 = (0, bs, s2)"
      "take ?n bs = mem_read (mem (chip s1)) (a + k * 256) ?n" "kept mem prot s1 s2"
    using n x by (auto intro: read_raw [of "adr + k * 256" "a + k * 256" ?n s1])
  have "take r bs = take r (take ?n bs)" using n(3) by (simp add: min_def)
  also have "\<dots> = mem_read (mem (chip s)) (a + k * 256) r"
    unfolding 2(2) take_mem_read kept_mem [OF 1(2)] using n(3) by (simp add: min_def)
  finally show ?thesis using 1 2 kept_trans by blast
qed

lemma flashRead_cached:
  assumes a: "adr mod 0x2000000 = a mod 0x2000000" and sz: "0 < sz" "a + sz \<le> cap"
    and br: "\<not> (adr mod 256 = 0 \<and> al \<and> sz mod 4 = 0)"
  shows "\<exists>s'. flashRead hw al True adr sz s = (0, mem_read (mem (chip s)) a sz, s') \<and> kept mem prot s s'"
proof -
  define p where "p = a mod 256"
  have p: "adr mod 256 = p" "p < 256" "p \<le> a" "p \<le> adr"
    using mod_256_of_25 [OF a] by (auto simp: p_def)
  have fit: "a - p + 256 \<le> cap" using page_fits [OF cap_sectors, of a] sz by (simp add: p_def)
  have a': "(adr - p) mod 0x2000000 = (a - p) mod 0x2000000" using a p by (intro mod_minus_cong)
  then obtain s1 where 1: "readByCMD_raw hw 0xEB (adr - p) 256 s = (0, mem_read (mem (chip s)) (a - p) 256, s1)" "kept mem prot s s1"
    using fit by (auto intro: read_raw [of "adr - p" "a - p" 256 s])
  define h where "h = 256 - p"
  have d: "drop p (mem_read (mem (chip s)) (a - p) 256) = mem_read (mem (chip s)) a h"
    using p by (simp add: drop_mem_read h_def)
  have "flashRead hw al True adr sz s =
     (let (_, cache, s) = readByCMD_raw hw 0xEB (adr - p) 256 s
      in if sz > h then
           let (cs, f, s) = read_chunks hw ((sz - h) div 256) 256 (adr - p + 256) s
           in if (sz - h) mod 256 \<noteq> 0 then
                let (_, cache', s) = readByCMD_raw hw 0xEB f ((sz - h) mod 256 + (4 - (sz - h) mod 256 mod 4)) s
                in (0, take h (drop p cache) @ cs @ take ((sz - h) mod 256) cache', s)
              else (0, take h (drop p cache) @ cs, s)
         else (0, take sz (drop p cache), s))"
    using br by (simp only: flashRead_def p(1) h_def Let_def if_False if_True not_True_eq_False)
  note fr = this [unfolded 1(1) prod.case Let_def d]
  show ?thesis
  proof (cases "sz > h")
    case False
    with fr 1(2) show ?thesis by (simp add: take_mem_read min_def)
  next
    case True
    define k r where "k = (sz - h) div 256" and "r = (sz - h) mod 256"
    have kr: "k * 256 + r = sz - h" "r < 256" by (simp_all add: k_def r_def)
    have ah: "a + h = a - p + 256" using p by (simp add: h_def)
    have c: "(adr - p + 256) mod 0x2000000 = (a + h) mod 0x2000000" "(a + h) mod 256 = 0"
      unfolding ah using mod_add_cong [OF a' refl, of 256] by (simp_all add: p_def minus_mod_eq_mult_div)
    have c3: "a + h + (k * 256 + r) \<le> cap" using kr(1) True sz(2) by simp
    note app = mem_read_append [of "mem (chip s)" a h "sz - h"]
      mem_read_append [of "mem (chip s)" "a + h" "k * 256" r]
    show ?thesis
    proof (cases "r = 0")
      case r0: True
      obtain s2 where 2: "read_chunks hw k 256 (adr - p + 256) s1 = (mem_read (mem (chip s)) (a + h) (k * 256), adr - p + 256 + k * 256, s2)"
          "kept mem prot s1 s2"
        using read_chunks_spec [OF c(1), of 256 k s1] c3 r0 kept_mem [OF 1(2)] by auto
      with fr True r0 app kr kept_trans [OF 1(2) 2(2)] show ?thesis
        by (simp add: k_def [symmetric] r_def [symmetric] take_mem_read)
    next
      case r1: False
      obtain s2 s3 bs where 2: "read_chunks hw k 256 (adr - p + 256) s1 = (mem_read (mem (chip s)) (a + h) (k * 256), adr - p + 256 + k * 256, s2)"
          "readByCMD_raw hw 0xEB (adr - p + 256 + k * 256) (r + (4 - r mod 4)) s2 = (0, bs, s3)"
          "take r bs = mem_read (mem (chip s)) (a + h + k * 256) r" "kept mem prot s1 s3"
        using read_tail_spec [OF c(1) c3 kr(2) _ c(2), of s1] r1 kept_mem [OF 1(2)] by auto
      with fr True r1 app kr kept_trans [OF 1(2) 2(4)] show ?thesis
        by (simp add: k_def [symmetric] r_def [symmetric] take_mem_read)
    qed
  qed
qed

lemma flashRead_spec:
  assumes "adr mod 0x2000000 = a mod 0x2000000" "0 < sz" "a + sz \<le> cap"
    "ok \<or> al \<and> adr mod 256 = 0 \<and> sz mod 4 = 0"
  shows "\<exists>s'. flashRead hw al ok adr sz s = (0, mem_read (mem (chip s)) a sz, s') \<and> kept mem prot s s'"
proof (cases "al \<and> adr mod 256 = 0 \<and> sz mod 4 = 0")
  case True
  with flashRead_aligned [OF assms(1,3), of ok s] show ?thesis by simp
next
  case False
  with assms flashRead_cached [OF assms(1-3), of al s] show ?thesis by auto
qed

end

section \<open>Writing on a chip that satisfies the interface\<close>

text \<open>A sector with new bytes copied in, written back as a whole, is a write of these bytes.\<close>

lemma mem_write_copy_into:
  assumes "off + n \<le> sz" "n \<le> length buf"
  shows "mem_write m a (copy_into (mem_read m a sz) off buf n) = mem_write m (a + off) (take n buf)"
proof
  fix x
  show "mem_write m a (copy_into (mem_read m a sz) off buf n) x = mem_write m (a + off) (take n buf) x"
    using assms by (auto simp: mem_write_def copy_into_def nth_append)
qed

lemma mem_and_copy_into:
  assumes "off + n \<le> sz" "n \<le> length buf"
  shows "mem_and m a (copy_into (mem_read m a sz) off buf n) = mem_and m (a + off) (take n buf)"
proof
  fix x
  show "mem_and m a (copy_into (mem_read m a sz) off buf n) x = mem_and m (a + off) (take n buf) x"
    using assms by (auto simp: mem_and_def copy_into_def nth_append)
qed

context spi_nor
begin

lemma program_pages_spec:
  assumes "adr mod 0x2000000 = a mod 0x2000000" "a mod 256 = 0" "i * 256 + k * 256 \<le> length cache"
    "a + (i * 256 + k * 256) \<le> cap" "\<And>x. a \<le> x \<Longrightarrow> x < a + (i * 256 + k * 256) \<Longrightarrow> \<not> prot (chip s) x"
  shows "\<exists>s'. program_pages hw k i adr cache s = Some s' \<and>
    mem (chip s') = mem_and (mem (chip s)) (a + i * 256) (take (k * 256) (drop (i * 256) cache)) \<and>
    prot (chip s') = prot (chip s) \<and> drv s' = drv s"
  using assms
proof (induction k arbitrary: i s)
  case (Suc k)
  let ?a = "a + i * 256"
  have "(adr + i * 256) mod 0x2000000 = ?a mod 0x2000000" using Suc.prems(1) by (rule mod_add_cong) simp
  moreover have "?a mod 0x2000000 = ?a" using Suc.prems(4) cap_bound by (intro mod_less) simp
  ultimately have "(adr + i * 256) mod 0x2000000 = ?a" by simp
  moreover have pg: "?a mod 256 = 0" and len: "256 \<le> length (drop (i * 256) cache)" using Suc.prems(2,3) by auto
  ultimately obtain s1 where 1: "programPage hw (adr + i * 256) 256 (drop (i * 256) cache) s = Some s1"
    "mem (chip s1) = mem_and (mem (chip s)) ?a (take 256 (drop (i * 256) cache))"
    "prot (chip s1) = prot (chip s)" "drv s1 = drv s"
    using programPage_spec [of "adr + i * 256" ?a 256 "drop (i * 256) cache" s, OF _ pg _ _ _ len] Suc.prems(4,5) by auto
  obtain s2 where 2: "program_pages hw k (i + 1) adr cache s1 = Some s2"
    "mem (chip s2) = mem_and (mem (chip s1)) (a + (i + 1) * 256) (take (k * 256) (drop ((i + 1) * 256) cache))"
    "prot (chip s2) = prot (chip s1)" "drv s2 = drv s1"
    using Suc.IH [of "i + 1" s1] Suc.prems 1 by auto
  have "take (Suc k * 256) (drop (i * 256) cache) =
      take 256 (drop (i * 256) cache) @ take (k * 256) (drop ((i + 1) * 256) cache)"
    by (simp add: take_add add.commute)
  moreover have "length (take 256 (drop (i * 256) cache)) = 256" using Suc.prems(3) by simp
  ultimately have "mem (chip s2) = mem_and (mem (chip s)) ?a (take (Suc k * 256) (drop (i * 256) cache))"
    using 2(2) 1(2) mem_and_append [of "mem (chip s)" ?a "take 256 (drop (i * 256) cache)"] by (simp add: ac_simps)
  with 1 2 show ?case by simp
qed simp

text \<open>Erase a sector and program all its pages from a cache: the sector holds the cache.\<close>

lemma sector_rewrite:
  assumes "adr mod 0x2000000 = k * 4096" "k * 4096 < cap" "length cache = 4096"
    "\<And>x. x div 4096 = k \<Longrightarrow> \<not> prot (chip s) x"
  shows "\<exists>s'. program_pages hw 16 0 adr cache (eraseSector hw adr s) = Some s' \<and>
    mem (chip s') = mem_write (mem (chip s)) (k * 4096) cache \<and> prot (chip s') = prot (chip s) \<and> drv s' = drv s"
proof -
  let ?s = "eraseSector hw adr s"
  have e: "mem (chip ?s) = mem_erase (mem (chip s)) k" "prot (chip ?s) = prot (chip s)" "drv ?s = drv s"
    using eraseSector_spec [OF assms(1,2)] assms(4) by simp_all
  obtain c where "cap = 4096 * c" using cap_sectors ..
  with assms(2) have fit: "k * 4096 + 4096 \<le> cap" by simp
  have "adr mod 0x2000000 = k * 4096 mod 0x2000000" using assms(1) by (metis mod_mod_trivial)
  then obtain s' where "program_pages hw 16 0 adr cache ?s = Some s'"
    "mem (chip s') = mem_and (mem (chip ?s)) (k * 4096) cache" "prot (chip s') = prot (chip ?s)" "drv s' = drv ?s"
    using program_pages_spec [of adr "k * 4096" 0 16 cache ?s] fit assms(3,4) e(2) by auto
  with e assms(3) show ?thesis by (simp add: mem_and_erased)
qed

lemma fls_write_loop_spec:
  assumes "0 < len" "len \<le> length buf" "secoff < 4096" "secremain = min len (4096 - secoff)"
    "secpos * 4096 + secoff + len \<le> cap"
    "\<And>x. secpos * 4096 \<le> x \<Longrightarrow> x div 4096 \<le> (secpos * 4096 + secoff + len - 1) div 4096 \<Longrightarrow> \<not> prot (chip s) x"
  shows "\<exists>s'. fls_write_loop hw secpos secoff secremain buf len s = Some s' \<and>
    mem (chip s') = mem_write (mem (chip s)) (secpos * 4096 + secoff) (take len buf) \<and>
    prot (chip s') = prot (chip s) \<and> drv s' = drv s"
  using assms
proof (induction len arbitrary: secpos secoff secremain buf s rule: less_induct)
  case (less len)
  let ?a = "secpos * 4096"
  have lt: "?a < cap" using less.prems by linarith
  obtain c where "cap = 4096 * c" using cap_sectors ..
  with lt have fit: "?a + 4096 \<le> cap" by simp
  have am: "?a mod 0x2000000 = ?a" using lt cap_bound by (intro mod_less) simp
  obtain s1 where 1: "flashRead hw True True ?a 4096 s = (0, mem_read (mem (chip s)) ?a 4096, s1)" "kept mem prot s s1"
    using flashRead_spec [OF refl, of 4096 ?a True True s] fit by auto
  let ?cache = "copy_into (mem_read (mem (chip s)) ?a 4096) secoff buf secremain"
  have rem: "secoff + secremain \<le> 4096" "secremain \<le> length buf" "secremain \<le> len" "0 < secremain"
    using less.prems by (auto simp: min_def)
  have "\<not> prot (chip s1) x" if "x div 4096 = secpos" for x
  proof -
    have "secpos = (secpos * 4096) div 4096" by simp
    also have "\<dots> \<le> (secpos * 4096 + secoff + len - 1) div 4096" using less.prems(1) by (intro div_le_mono) linarith
    finally show ?thesis using less.prems(6) [of x] that 1(2) by (auto simp: kept_def)
  qed
  then obtain s2 where 2: "program_pages hw 16 0 ?a ?cache (eraseSector hw ?a s1) = Some s2"
    "mem (chip s2) = mem_write (mem (chip s1)) ?a ?cache" "prot (chip s2) = prot (chip s1)" "drv s2 = drv s1"
    using sector_rewrite [OF am lt, of ?cache s1] rem by auto
  have m2: "mem (chip s2) = mem_write (mem (chip s)) (?a + secoff) (take secremain buf)"
    using 2(2) mem_write_copy_into [OF rem(1,2)] kept_mem [OF 1(2)] by simp
  have step: "fls_write_loop hw secpos secoff secremain buf len s =
      (if len = secremain then Some s2 else fls_write_loop hw (secpos + 1) 0 (if len - secremain > 4096 then 4096 else len - secremain)
        (drop secremain buf) (len - secremain) s2)"
    by (subst fls_write_loop.simps) (simp add: 1(1) 2(1))
  show ?case
  proof (cases "len = secremain")
    case True
    with step 2 m2 1(2) show ?thesis by (simp add: kept_def)
  next
    case False
    then have sr: "secremain = 4096 - secoff" "secremain < len" using less.prems(4) rem(3) by auto
    have eq: "?a + secoff + len - 1 = (secpos + 1) * 4096 + 0 + (len - secremain) - 1" using sr less.prems(3) by simp
    have np: "\<not> prot (chip s2) x" if "(secpos + 1) * 4096 \<le> x"
      "x div 4096 \<le> ((secpos + 1) * 4096 + 0 + (len - secremain) - 1) div 4096" for x
      using less.prems(6) [of x] that 2(3) 1(2) unfolding eq [symmetric] by (auto simp: kept_def)
    have nx: "len - secremain < len" "0 < len - secremain" "len - secremain \<le> length (drop secremain buf)"
      "(if len - secremain > 4096 then 4096 else len - secremain) = min (len - secremain) (4096 - 0)"
      "(secpos + 1) * 4096 + 0 + (len - secremain) \<le> cap"
      using sr rem less.prems(2,3,5) by auto
    obtain s3 where 3: "fls_write_loop hw (secpos + 1) 0 (if len - secremain > 4096 then 4096 else len - secremain)
        (drop secremain buf) (len - secremain) s2 = Some s3"
      "mem (chip s3) = mem_write (mem (chip s2)) ((secpos + 1) * 4096 + 0) (take (len - secremain) (drop secremain buf))"
      "prot (chip s3) = prot (chip s2)" "drv s3 = drv s2"
      using less.IH [OF nx(1-3) zero_less_numeral nx(4,5) np] by metis
    have "take len buf = take secremain buf @ take (len - secremain) (drop secremain buf)"
      using sr(2) by (metis le_add_diff_inverse less_imp_le take_add)
    moreover have "?a + secoff + length (take secremain buf) = (secpos + 1) * 4096 + 0" using sr rem(2) less.prems(3) by simp
    ultimately have "mem (chip s3) = mem_write (mem (chip s)) (?a + secoff) (take len buf)"
      using 3(2) m2 mem_write_append [of "mem (chip s)" "?a + secoff" "take secremain buf"] by metis
    with step 3 False 2 1(2) show ?thesis by (simp add: kept_def)
  qed
qed

end

section \<open>The public operations\<close>

lemma lock_simps [simp]:
  "chip (fls_acquire s) = chip s" "chip (fls_release s) = chip s"
  "inside_fls (fls_acquire s) = inside_fls s" "inside_fls (fls_release s) = inside_fls s"
  "gsSector (fls_acquire s) = gsSector s" "gsSector (fls_release s) = gsSector s"
  "gsflscache (fls_acquire s) = gsflscache s" "gsflscache (fls_release s) = gsflscache s"
  by (simp_all add: fls_acquire_def fls_release_def)

text \<open>An operation that keeps the driver state between acquire and release keeps it as a
  whole: the semaphore is balanced.\<close>

lemma drv_release: "drv s' = drv (fls_acquire s) \<Longrightarrow> drv (fls_release s') = drv s"
  by (simp add: drv_def fls_acquire_def fls_release_def)

lemma off_mod_25: "addr mod 0x8000000 < 0x2000000 \<Longrightarrow> addr mod 0x2000000 = addr mod (0x8000000 :: nat)"
  using mod_mod_cancel [of "0x2000000 :: nat" "0x8000000" addr] by simp

text \<open>The sectors that a range of bytes touches are not write protected.\<close>

definition range_unprotected :: "('c \<Rightarrow> nat \<Rightarrow> bool) \<Rightarrow> 'c fls \<Rightarrow> nat \<Rightarrow> nat \<Rightarrow> bool" where
  "range_unprotected prot s off n \<longleftrightarrow>
     (\<forall>x. off div 4096 \<le> x div 4096 \<longrightarrow> x div 4096 \<le> (off + n - 1) div 4096 \<longrightarrow> \<not> prot (chip s) x)"

lemma range_unprotected_sub:
  assumes "range_unprotected prot s off n" "off \<le> off'" "off' + n' \<le> off + n" "0 < n'" "prot (chip t) = prot (chip s)"
  shows "range_unprotected prot t off' n'"
proof -
  have "off div 4096 \<le> off' div 4096" using assms(2) by (rule div_le_mono)
  moreover have "(off' + n' - 1) div 4096 \<le> (off + n - 1) div 4096" using assms(3,4) by (intro div_le_mono) linarith
  ultimately show ?thesis using assms(1,5) unfolding range_unprotected_def by auto
qed

context spi_nor
begin

lemma write_spec:
  assumes f: "inside_fls s = Some f" "density f \<le> cap"
    and len: "0 < len" "len \<le> length buf" "addr mod 0x8000000 + len \<le> density f"
    and np: "range_unprotected prot s (addr mod 0x8000000) len"
  shows "\<exists>s'. tls_fls_write hw True addr (Some buf) len s = Some (0, s') \<and>
    mem (chip s') = mem_write (mem (chip s)) (addr mod 0x8000000) (take len buf) \<and>
    prot (chip s') = prot (chip s) \<and> drv s' = drv s"
proof -
  define off where "off = addr mod 0x8000000"
  define secpos where "secpos = off div 4096"
  define secoff where "secoff = off mod 4096"
  have off: "secpos * 4096 + secoff = off" "secoff < 4096" by (simp_all add: secpos_def secoff_def)
  have "secpos * 4096 + secoff + len \<le> cap" using len(3) f(2) off by (simp add: off_def)
  moreover have "\<not> prot (chip (fls_acquire s)) x"
    if "secpos * 4096 \<le> x" "x div 4096 \<le> (secpos * 4096 + secoff + len - 1) div 4096" for x
  proof -
    have "secpos \<le> x div 4096" using that(1) div_le_mono [of "secpos * 4096" x 4096] by simp
    then show ?thesis using that(2) np unfolding range_unprotected_def off_def [symmetric] secpos_def [symmetric] off
      by simp
  qed
  ultimately obtain s' where s': "fls_write_loop hw secpos secoff (min len (4096 - secoff)) buf len (fls_acquire s) = Some s'"
    "mem (chip s') = mem_write (mem (chip s)) off (take len buf)" "prot (chip s') = prot (chip s)" "drv s' = drv (fls_acquire s)"
    using fls_write_loop_spec [OF len(1,2) off(2) refl, of secpos "fls_acquire s"] off(1) by auto
  have "\<not> bad_args addr len False s" using len f by (simp add: bad_args_def fls_density_def)
  then have "tls_fls_write hw True addr (Some buf) len s = Some (0, fls_release s')"
    using f(1) s'(1) by (simp add: tls_fls_write_def Let_def off_def [symmetric] secpos_def [symmetric] secoff_def [symmetric] min_def split: if_splits)
  then show ?thesis using s' drv_release by (simp add: off_def)
qed

lemma read_spec:
  assumes f: "inside_fls s = Some f" "density f \<le> cap"
    and len: "0 < len" "addr mod 0x8000000 + len \<le> density f"
    and ok: "ok \<or> al \<and> addr mod 256 = 0 \<and> len mod 4 = 0"
  shows "\<exists>s'. tls_fls_read hw al ok addr False len s = (0, mem_read (mem (chip s)) (addr mod 0x8000000) len, s') \<and>
    kept mem prot s s'"
proof -
  define off where "off = addr mod 0x8000000"
  have lt: "off < 0x2000000" using len f(2) cap_bound by (simp add: off_def)
  then have "addr mod 0x2000000 = off mod 0x2000000" using off_mod_25 [of addr] by (simp add: off_def)
  then obtain s' where s': "flashRead hw al ok addr len (fls_acquire s) = (0, mem_read (mem (chip s)) off len, s')"
    "kept mem prot (fls_acquire s) s'"
    using flashRead_spec [of addr off len ok al "fls_acquire s"] len f(2) ok by (auto simp: off_def)
  have "\<not> bad_args addr len False s" using len f by (simp add: bad_args_def fls_density_def)
  with s' f(1) show ?thesis by (simp add: tls_fls_read_def off_def kept_def drv_release)
qed

lemma erase_spec:
  assumes f: "inside_fls s = Some f" "density f \<le> cap"
    and k: "k < density f div 4096" "sector = k \<or> sector = 0x8000 + k" "\<not> prot (chip s) (k * 4096)"
  shows "\<exists>s'. tls_fls_erase hw sector s = (0, s') \<and> mem (chip s') = mem_erase (mem (chip s)) k \<and>
    prot (chip s') = prot (chip s) \<and> drv s' = drv s"
proof -
  have lt: "k * 4096 < cap" using k(1) f(2) by (simp add: less_mult_imp_div_less)
  have "(0x8000 + k) * 4096 = k * 4096 + 4 * 0x2000000" by simp
  then have "(0x8000 + k) * 4096 mod 0x2000000 = k * 4096 mod 0x2000000" by (simp only: mod_mult_self1)
  then have "sector * 4096 mod 0x2000000 = k * 4096" using k(2) lt cap_bound by auto
  note e = eraseSector_spec [OF this lt, of "fls_acquire s"]
  have "tls_fls_erase hw sector s = (0, fls_release (eraseSector hw (sector * 4096) (fls_acquire s)))"
    using f(1) k by (auto simp: tls_fls_erase_def sector_limit_def fls_density_def)
  with e k(3) show ?thesis by (simp add: drv_release)
qed

end

section \<open>Programming without erase, erasing the chip\<close>

context spi_nor
begin

lemma page_program:
  assumes "pagepos * 256 + 256 \<le> cap" "length cache = 256" "\<not> prot (chip s) (pagepos * 256)"
  shows "\<exists>s'. programPage hw (pagepos * 256) 256 cache s = Some s' \<and>
    mem (chip s') = mem_and (mem (chip s)) (pagepos * 256) cache \<and> prot (chip s') = prot (chip s) \<and> drv s' = drv s"
proof -
  have "pagepos * 256 mod 0x2000000 = pagepos * 256" using assms(1) cap_bound by (intro mod_less) simp
  from programPage_spec [OF this, of 256 cache s] assms show ?thesis by simp
qed

lemma fls_program_loop_spec:
  assumes "0 < len" "len \<le> length buf" "pageoff < 256" "pageremain = min len (256 - pageoff)"
    "pagepos * 256 + pageoff + len \<le> cap" "length cache = 256"
    "cache = mem_read (mem (chip s)) (pagepos * 256) 256 \<or> pageoff = 0 \<and> pageremain = 256"
    "\<And>x. pagepos * 256 \<le> x \<Longrightarrow> x < pagepos * 256 + pageoff + len \<Longrightarrow> \<not> prot (chip s) x"
  shows "\<exists>s'. fls_program_loop hw pagepos pageoff pageremain cache buf len s = Some s' \<and>
    mem (chip s') = mem_and (mem (chip s)) (pagepos * 256 + pageoff) (take len buf) \<and>
    prot (chip s') = prot (chip s) \<and> drv s' = drv s"
  using assms
proof (induction len arbitrary: pagepos pageoff pageremain cache buf s rule: less_induct)
  case (less len)
  let ?a = "pagepos * 256" and ?c = "copy_into cache pageoff buf pageremain"
  have rem: "pageoff + pageremain \<le> 256" "pageremain \<le> length buf" "pageremain \<le> len" "0 < pageremain"
    using less.prems by (auto simp: min_def)
  have fit: "?a + 256 \<le> cap" using page_fits [OF cap_sectors, of ?a] less.prems(1,5) by simp
  have lc: "length ?c = 256" using rem less.prems(6) by simp
  have "\<not> prot (chip s) ?a" using less.prems(1,8) by simp
  then obtain s1 where 1: "programPage hw ?a 256 ?c s = Some s1" "mem (chip s1) = mem_and (mem (chip s)) ?a ?c"
    "prot (chip s1) = prot (chip s)" "drv s1 = drv s"
    using page_program [OF fit lc] by blast
  have m1: "mem (chip s1) = mem_and (mem (chip s)) (?a + pageoff) (take pageremain buf)"
    using less.prems(7) mem_and_copy_into [OF rem(1,2), of "mem (chip s)" ?a] copy_into_all [OF less.prems(6), of buf] 1(2) by auto
  show ?case
  proof (cases "len = pageremain")
    case True
    then have "fls_program_loop hw pagepos pageoff pageremain cache buf len s = Some s1"
      by (subst fls_program_loop.simps) (simp add: 1(1))
    with True 1 m1 show ?thesis by simp
  next
    case False
    then have sr: "pageremain = 256 - pageoff" "pageremain < len" using less.prems(4) rem(3) by auto
    let ?len = "len - pageremain" and ?buf = "drop pageremain buf"
    have nx: "?len < len" "0 < ?len" "?len \<le> length ?buf" "(pagepos + 1) * 256 + 0 + ?len \<le> cap"
      using sr rem less.prems(2,3,5) by auto
    have "take len buf = take pageremain buf @ take ?len ?buf"
      using sr(2) by (metis le_add_diff_inverse less_imp_le take_add)
    moreover have "?a + pageoff + length (take pageremain buf) = (pagepos + 1) * 256 + 0" using sr rem(2) less.prems(3) by simp
    ultimately have app: "mem_and (mem (chip s1)) ((pagepos + 1) * 256 + 0) (take ?len ?buf) =
        mem_and (mem (chip s)) (?a + pageoff) (take len buf)"
      using m1 mem_and_append [of "mem (chip s)" "?a + pageoff" "take pageremain buf"] by metis
    have np: "\<not> prot (chip s1) x" if "(pagepos + 1) * 256 \<le> x" "x < (pagepos + 1) * 256 + 0 + ?len" for x
      using less.prems(8) [of x] that sr less.prems(3) 1(3) by auto
    obtain s2 cache' where 2: "fls_program_loop hw pagepos pageoff pageremain cache buf len s =
        fls_program_loop hw (pagepos + 1) 0 (min ?len (256 - 0)) cache' ?buf ?len s2"
      "length cache' = 256" "cache' = mem_read (mem (chip s2)) ((pagepos + 1) * 256) 256 \<or> (0 :: nat) = 0 \<and> min ?len (256 - 0) = 256"
      "kept mem prot s1 s2"
    proof (cases "?len > 256")
      case True
      then have "fls_program_loop hw pagepos pageoff pageremain cache buf len s =
          fls_program_loop hw (pagepos + 1) 0 (min ?len (256 - 0)) ?c ?buf ?len s1"
        using False by (subst fls_program_loop.simps) (simp add: 1(1))
      with that [of ?c s1] lc True show thesis by simp
    next
      case le: False
      have "(pagepos + 1) * 256 + 256 \<le> cap" using page_fits [OF cap_sectors, of "(pagepos + 1) * 256"] nx by simp
      then obtain s2 where s2: "flashRead hw True True ((pagepos + 1) * 256) 256 s1 =
          (0, mem_read (mem (chip s1)) ((pagepos + 1) * 256) 256, s2)" "kept mem prot s1 s2"
        using flashRead_spec [OF refl, of 256 "(pagepos + 1) * 256" True True s1] by auto
      then have "fls_program_loop hw pagepos pageoff pageremain cache buf len s =
          fls_program_loop hw (pagepos + 1) 0 (min ?len (256 - 0)) (mem_read (mem (chip s1)) ((pagepos + 1) * 256) 256) ?buf ?len s2"
        using False le by (subst fls_program_loop.simps) (simp add: 1(1) min_def)
      with that [OF this] s2(2) show thesis by (simp add: kept_mem)
    qed
    have np2: "\<not> prot (chip s2) x" if "(pagepos + 1) * 256 \<le> x" "x < (pagepos + 1) * 256 + 0 + ?len" for x
      using np [OF that] 2(4) by (simp add: kept_def)
    show ?thesis
      using less.IH [OF nx(1-3) zero_less_numeral refl nx(4) 2(2,3) np2] 2(1,4) app 1(3,4) by (simp add: kept_def)
  qed
qed

lemma write_without_erase_spec:
  assumes f: "inside_fls s = Some f" "density f \<le> cap"
    and len: "0 < len" "len \<le> length buf" "addr mod 0x8000000 + len \<le> density f"
    and np: "range_unprotected prot s (addr mod 0x8000000) len"
  shows "\<exists>s'. tls_fls_write_without_erase hw True addr (Some buf) len s = Some (0, s') \<and>
    mem (chip s') = mem_and (mem (chip s)) (addr mod 0x8000000) (take len buf) \<and>
    prot (chip s') = prot (chip s) \<and> drv s' = drv s"
proof -
  define off where "off = addr mod 0x8000000"
  define pos where "pos = off div 256"
  define po where "po = off mod 256"
  have off: "pos * 256 + po = off" "po < 256" by (simp_all add: pos_def po_def)
  have cap: "pos * 256 + po + len \<le> cap" using len(3) f(2) off by (simp add: off_def)
  then have fit: "pos * 256 + 256 \<le> cap" using page_fits [OF cap_sectors, of "pos * 256"] len(1) by simp
  obtain s1 where s1: "flashRead hw True True (pos * 256) 256 (fls_acquire s) = (0, mem_read (mem (chip s)) (pos * 256) 256, s1)"
    "kept mem prot (fls_acquire s) s1"
    using flashRead_spec [OF refl, of 256 "pos * 256" True True "fls_acquire s"] fit by auto
  have "\<not> prot (chip s1) x" if "pos * 256 \<le> x" "x < pos * 256 + po + len" for x
  proof -
    have "off div 4096 = pos * 256 div 4096" by (simp add: pos_def)
    then have "off div 4096 \<le> x div 4096" using that(1) div_le_mono [of "pos * 256" x 4096] by simp
    moreover have "x div 4096 \<le> (off + len - 1) div 4096" using that(2) off(1) by (intro div_le_mono) linarith
    ultimately show ?thesis using np s1(2) by (simp add: range_unprotected_def off_def kept_def)
  qed
  then obtain s' where s': "fls_program_loop hw pos po (min len (256 - po)) (mem_read (mem (chip s)) (pos * 256) 256) buf len s1 = Some s'"
    "mem (chip s') = mem_and (mem (chip s)) off (take len buf)" "prot (chip s') = prot (chip s)" "drv s' = drv (fls_acquire s)"
    using fls_program_loop_spec [OF len(1,2) off(2) refl cap, of "mem_read (mem (chip s)) (pos * 256) 256" s1] s1(2) off(1)
    by (auto simp: kept_def)
  have "\<not> bad_args addr len False s" using len f by (simp add: bad_args_def fls_density_def)
  then have "tls_fls_write_without_erase hw True addr (Some buf) len s = Some (0, fls_release s')"
    using f(1) s1(1) s'(1)
    by (simp add: tls_fls_write_without_erase_def Let_def off_def [symmetric] pos_def [symmetric] po_def [symmetric] min_def split: if_splits)
  then show ?thesis using s' drv_release by (simp add: off_def)
qed

end

text \<open>The contents after the sectors \<open>j\<close> to \<open>k - 1\<close> were erased.\<close>

definition mem_blank :: "(nat \<Rightarrow> u8) \<Rightarrow> nat \<Rightarrow> nat \<Rightarrow> nat \<Rightarrow> u8" where
  "mem_blank m j k x = (if j \<le> x div 4096 \<and> x div 4096 < k then 0xFF else m x)"

lemma mem_blank_step: "j < k \<Longrightarrow> mem_blank (mem_erase m j) (Suc j) k = mem_blank m j k"
  by (rule ext) (auto simp: mem_blank_def mem_erase_def)

lemma mem_erase_blank_sector:
  assumes "\<not> list_ex (\<lambda>x. x \<noteq> 0xFF) (mem_read m (k * 4096) 4096)"
  shows "mem_erase m k = m"
proof
  fix x
  show "mem_erase m k x = m x"
  proof (cases "x div 4096 = k")
    case True
    then have "x = k * 4096 + x mod 4096" by auto
    moreover have "m (k * 4096 + x mod 4096) = 0xFF"
      using assms by (auto simp: list_ex_iff mem_read_def)
    ultimately show ?thesis using True by (simp add: mem_erase_def)
  qed (simp add: mem_erase_def)
qed

context spi_nor
begin

lemma chip_erase_loop_spec:
  assumes "(i + 2 + k) * 4096 \<le> cap" "\<And>x. i + 2 \<le> x div 4096 \<Longrightarrow> x div 4096 < i + 2 + k \<Longrightarrow> \<not> prot (chip s) x"
  shows "mem (chip (chip_erase_loop hw k i s)) = mem_blank (mem (chip s)) (i + 2) (i + 2 + k) \<and>
    prot (chip (chip_erase_loop hw k i s)) = prot (chip s) \<and> drv (chip_erase_loop hw k i s) = drv s"
  using assms
proof (induction k arbitrary: i s)
  case 0
  then show ?case by (auto simp: mem_blank_def fun_eq_iff)
next
  case (Suc k)
  let ?adr = "0x8002000 + i * 4096" and ?a = "(i + 2) * 4096"
  have fit: "?a + 4096 \<le> cap" using Suc.prems(1) by simp
  have "?adr = ?a + 4 * 0x2000000" by simp
  then have "?adr mod 0x2000000 = ?a mod 0x2000000" by (simp only: mod_mult_self1)
  moreover have "?a mod 0x2000000 = ?a" using fit cap_bound by (intro mod_less) linarith
  ultimately have adr: "?adr mod 0x2000000 = ?a" "?adr mod 0x2000000 = ?a mod 0x2000000" by simp_all
  obtain s1 where 1: "flashRead hw True True ?adr 4096 s = (0, mem_read (mem (chip s)) ?a 4096, s1)" "kept mem prot s s1"
    using flashRead_spec [OF adr(2), of 4096 True True s] fit by auto
  define s2 where "s2 = (if list_ex (\<lambda>x. x \<noteq> 0xFF) (mem_read (mem (chip s)) ?a 4096) then eraseSector hw ?adr s1 else s1)"
  have "\<not> prot (chip s1) ?a" using Suc.prems(2) [of ?a] 1(2) by (simp add: kept_def)
  then have s2: "mem (chip s2) = mem_erase (mem (chip s)) (i + 2)" "prot (chip s2) = prot (chip s)" "drv s2 = drv s"
    using eraseSector_spec [OF adr(1), of s1] fit 1(2) mem_erase_blank_sector [of "mem (chip s)" "i + 2"]
    by (auto simp: s2_def kept_def)
  have "chip_erase_loop hw (Suc k) i s = chip_erase_loop hw k (i + 1) s2"
    using 1(1) by (simp add: s2_def Let_def)
  moreover have "\<not> prot (chip s2) x" if "i + 1 + 2 \<le> x div 4096" "x div 4096 < i + 1 + 2 + k" for x
    using Suc.prems(2) [of x] that s2(2) by simp
  ultimately show ?case
    using Suc.IH [of "i + 1" s2] Suc.prems(1) s2 mem_blank_step [of "i + 2" "i + 2 + Suc k" "mem (chip s)"] by simp
qed

lemma chip_erase_spec:
  assumes f: "inside_fls s = Some f" "density f \<le> cap" "4096 dvd density f" "0x2000 \<le> density f"
    and np: "\<And>x. 0x2000 \<le> x \<Longrightarrow> x < density f \<Longrightarrow> \<not> prot (chip s) x"
  shows "\<exists>s'. tls_fls_chip_erase hw True s = (0, s') \<and>
    (\<forall>x. mem (chip s') x = (if 0x2000 \<le> x \<and> x < density f then 0xFF else mem (chip s) x)) \<and>
    prot (chip s') = prot (chip s) \<and> drv s' = drv s"
proof -
  obtain d where d: "density f = 4096 * d" using f(3) ..
  define n where "n = (density f + 2 ^ 32 - 0x2000) mod 2 ^ 32 div 4096"
  have "density f + 2 ^ 32 - 0x2000 = density f - 0x2000 + 2 ^ 32" using f(4) by simp
  then have "(density f + 2 ^ 32 - 0x2000) mod 2 ^ 32 = density f - 0x2000"
    using f(2) cap_bound by (simp only: mod_add_self2) simp
  then have n: "2 + n = d" using f(4) d by (simp add: n_def)
  have iff: "2 \<le> x div 4096 \<and> x div 4096 < d \<longleftrightarrow> 0x2000 \<le> x \<and> x < density f" for x
    unfolding d by auto
  let ?s = "chip_erase_loop hw n 0 (fls_acquire s)"
  have l: "mem (chip ?s) = mem_blank (mem (chip s)) 2 d" "prot (chip ?s) = prot (chip s)" "drv ?s = drv (fls_acquire s)"
    using chip_erase_loop_spec [of 0 n "fls_acquire s", unfolded add_0 n] d f(2) np iff by auto
  have "tls_fls_chip_erase hw True s = (0, fls_release ?s)"
    using f(1) by (simp add: tls_fls_chip_erase_def n_def fls_density_def)
  with l iff show ?thesis by (simp add: drv_release mem_blank_def)
qed

end

section \<open>Fast write on a chip that satisfies the interface\<close>

text \<open>The part of the driver state that fast writing keeps.\<close>

definition drv0 :: "'c fls \<Rightarrow> u32 \<times> u32 \<times> tls_inside_fls option \<times> nat" where
  "drv0 s = (flash_cr s, encrypt_ctrl s, inside_fls s, sem_taken s)"

lemma drv0_drv: "drv s' = drv s \<Longrightarrow> drv0 s' = drv0 s \<and> gsflscache s' = gsflscache s \<and> gsSector s' = gsSector s"
  by (simp add: drv_def drv0_def)

lemma drv0_inside: "drv0 s' = drv0 s \<Longrightarrow> inside_fls s' = inside_fls s"
  by (simp add: drv0_def)

lemma drv0_upd [simp]:
  "drv0 (s\<lparr>gsSector := n\<rparr>) = drv0 s" "drv0 (s\<lparr>gsflscache := c\<rparr>) = drv0 s"
  by (simp_all add: drv0_def)

lemma drv0_release: "drv0 s' = drv0 (fls_acquire s) \<Longrightarrow> drv0 (fls_release s') = drv0 s"
  by (simp add: drv0_def fls_acquire_def fls_release_def)

context spi_nor
begin

lemma base_sector_mod: "k * 4096 < cap \<Longrightarrow> (0x8000 + k) * 4096 mod 0x2000000 = k * 4096"
proof -
  assume lt: "k * 4096 < cap"
  have "(0x8000 + k) * 4096 = k * 4096 + 4 * 0x2000000" by simp
  then have "(0x8000 + k) * 4096 mod 0x2000000 = k * 4096 mod 0x2000000" by (simp only: mod_mult_self1)
  then show ?thesis using lt cap_bound by simp
qed

lemma flush_spec:
  assumes f: "inside_fls s = Some f" "density f \<le> cap" "4096 dvd density f"
    and g: "gsSector s = 0x8000 + k" "k * 4096 < density f" "gsflscache s = Some c" "length c = 4096"
    and np: "\<And>x. x div 4096 = k \<Longrightarrow> \<not> prot (chip s) x"
  shows "\<exists>s'. tls_fls_flush_sector hw s = Some s' \<and> mem (chip s') = mem_write (mem (chip s)) (k * 4096) c \<and>
    prot (chip s') = prot (chip s) \<and> drv s' = drv s"
proof -
  have lt: "k * 4096 < cap" using f(2) g(2) by simp
  have "k < density f div 4096" using f(3) g(2) by (auto elim!: dvdE)
  then have "tls_fls_flush_sector hw s = program_pages hw 16 0 ((0x8000 + k) * 4096) c (eraseSector hw ((0x8000 + k) * 4096) s)"
    using f(1) g by (simp add: tls_fls_flush_sector_def sector_limit_def fls_density_def)
  with sector_rewrite [OF base_sector_mod [OF lt] lt g(4) np] show ?thesis by simp
qed

text \<open>The sector beyond the end of the flash is not flushed.\<close>

lemma flush_beyond:
  "inside_fls s = Some f \<Longrightarrow> gsSector s = 0x8000 + k \<Longrightarrow> density f \<le> k * 4096 \<Longrightarrow> tls_fls_flush_sector hw s = Some s"
  using div_le_mono [of "density f" "k * 4096" 4096] by (simp add: tls_fls_flush_sector_def sector_limit_def fls_density_def)

lemma take_block: "length c = 4096 \<Longrightarrow> take (4096 * (1 + x)) (c @ r) = c @ take (4096 * x) r"
  by simp

lemma drop_block: "length c = 4096 \<Longrightarrow> drop (4096 * (1 + x)) (c @ r) = drop (4096 * x) r"
  by simp

text \<open>The copy loop: from a cache that holds the first \<open>offset\<close> bytes of a sector, the
  complete sectors reach the flash and the rest is at the start of the cache.\<close>

lemma fast_write_loop_spec:
  assumes "inside_fls s = Some f" "density f \<le> cap" "4096 dvd density f"
    "gsSector s = 0x8000 + k" "gsflscache s = Some c" "length c = 4096" "offset < 4096" "len \<le> length buf"
    "k * 4096 + offset + len \<le> density f"
    "\<And>x. k * 4096 \<le> x \<Longrightarrow> x < density f \<Longrightarrow> \<not> prot (chip s) x"
  shows "\<exists>s' c'. fast_write_loop hw offset (4096 - offset) buf len s = Some s' \<and>
    mem (chip s') = mem_write (mem (chip s)) (k * 4096) (take (4096 * ((offset + len) div 4096)) (take offset c @ take len buf)) \<and>
    prot (chip s') = prot (chip s) \<and> drv0 s' = drv0 s \<and> gsSector s' = 0x8000 + k + (offset + len) div 4096 \<and>
    gsflscache s' = Some c' \<and> length c' = 4096 \<and>
    take ((offset + len) mod 4096) c' = drop (4096 * ((offset + len) div 4096)) (take offset c @ take len buf)"
  using assms
proof (induction len arbitrary: k offset c buf s rule: less_induct)
  case (less len)
  show ?case
  proof (cases "offset + len < 4096")
    case True
    let ?s = "if len > 0 then s\<lparr>gsflscache := Some (copy_into c offset buf len)\<rparr> else s"
    have "fast_write_loop hw offset (4096 - offset) buf len s = Some ?s"
      using True less.prems(5) by (subst fast_write_loop.simps) (simp add: fast_write_loop.simps [of hw 0])
    moreover have "take (offset + len) (copy_into c offset buf len) = take offset c @ take len buf"
      using True less.prems by (simp add: copy_into_def)
    ultimately show ?thesis using True less.prems
      by (intro exI [of _ ?s] exI [of _ "if len > 0 then copy_into c offset buf len else c"]) simp
  next
    case False
    define n where "n = 4096 - offset"
    have n: "0 < n" "n \<le> len" "offset + n = 4096" using False less.prems(7) by (auto simp: n_def)
    let ?c = "take offset c @ take n buf"
    have lc: "length ?c = 4096" "copy_into c offset buf n = ?c" using n less.prems(6,8) by (auto simp: copy_into_def)
    let ?s = "s\<lparr>gsflscache := Some ?c\<rparr>"
    have kd: "k * 4096 < density f" using less.prems(9) n by linarith
    then have "k * 4096 + 4096 \<le> density f" using less.prems(3) by (auto elim!: dvdE)
    then have np: "\<not> prot (chip ?s) x" if "x div 4096 = k" for x using that less.prems(10) [of x] by auto
    obtain s1 where 1: "tls_fls_flush_sector hw ?s = Some s1" "mem (chip s1) = mem_write (mem (chip s)) (k * 4096) ?c"
      "prot (chip s1) = prot (chip s)" "drv s1 = drv ?s"
      using flush_spec [of ?s f k ?c] less.prems kd lc np by auto
    let ?s1 = "s1\<lparr>gsSector := gsSector s1 + 1\<rparr>"
    have d1: "drv0 ?s1 = drv0 s" "gsflscache ?s1 = Some ?c" "gsSector ?s1 = 0x8000 + (k + 1)" "inside_fls ?s1 = Some f"
      using drv0_drv [OF 1(4)] less.prems(1,4) drv0_inside [of s1 s] by auto
    have step: "fast_write_loop hw offset (4096 - offset) buf len s = fast_write_loop hw 0 (4096 - 0) (drop n buf) (len - n) ?s1"
      using n less.prems(5) lc(2) 1(1) by (subst fast_write_loop.simps) (cases "n = len"; simp add: n_def [symmetric])
    have np1: "\<not> prot (chip ?s1) x" if "(k + 1) * 4096 \<le> x" "x < density f" for x
      using that less.prems(10) [of x] 1(3) by simp
    have "len - n < len" "len - n \<le> length (drop n buf)" "(k + 1) * 4096 + 0 + (len - n) \<le> density f"
      using n less.prems(8,9) by auto
    then obtain s' c' where 2: "fast_write_loop hw 0 (4096 - 0) (drop n buf) (len - n) ?s1 = Some s'"
      "mem (chip s') = mem_write (mem (chip ?s1)) ((k + 1) * 4096) (take (4096 * ((0 + (len - n)) div 4096)) (take 0 ?c @ take (len - n) (drop n buf)))"
      "prot (chip s') = prot (chip ?s1)" "drv0 s' = drv0 ?s1" "gsSector s' = 0x8000 + (k + 1) + (0 + (len - n)) div 4096"
      "gsflscache s' = Some c'" "length c' = 4096"
      "take ((0 + (len - n)) mod 4096) c' = drop (4096 * ((0 + (len - n)) div 4096)) (take 0 ?c @ take (len - n) (drop n buf))"
      using less.IH [OF _ d1(4) less.prems(2,3) d1(3,2) lc(1) zero_less_numeral _ _ np1] by metis
    let ?r = "take (len - n) (drop n buf)"
    have str: "take offset c @ take len buf = ?c @ ?r" using n(2) by (metis append_assoc le_add_diff_inverse take_add)
    have tot: "offset + len = 4096 + (len - n)" using n by simp
    have dm: "(offset + len) div 4096 = 1 + (len - n) div 4096" "(offset + len) mod 4096 = (len - n) mod 4096"
      unfolding tot by simp_all
    have "mem (chip s') = mem_write (mem (chip s)) (k * 4096) (?c @ take (4096 * ((len - n) div 4096)) ?r)"
      using 2(2) 1(2) mem_write_append [of "mem (chip s)" "k * 4096" ?c] lc(1) by (simp add: add.commute)
    then show ?thesis unfolding str dm take_block [OF lc(1)] drop_block [OF lc(1)]
      by (intro exI [of _ s'] exI [of _ c'] conjI) (use step 2 1(3) d1(1) in simp_all)
  qed
qed

end

text \<open>A session of contiguous fast writes of non-empty blocks.\<close>

fun fast_write_all :: "'c flash_hw \<Rightarrow> nat \<Rightarrow> u8 list list \<Rightarrow> 'c fls \<Rightarrow> 'c fls option" where
  "fast_write_all hw addr [] s = Some s"
| "fast_write_all hw addr (b # bs) s = do {
     (r, s) \<leftarrow> tls_fls_fast_write hw addr (Some b) (length b) s;
     fast_write_all hw (addr + length b) bs s
   }"

text \<open>The bytes accepted so far, from sector \<open>k\<close> on: complete sectors are in the flash, the
  rest is at the start of the cache.\<close>

definition fast_inv :: "('c \<Rightarrow> nat \<Rightarrow> u8) \<Rightarrow> (nat \<Rightarrow> u8) \<Rightarrow> nat \<Rightarrow> u8 list \<Rightarrow> 'c fls \<Rightarrow> bool" where
  "fast_inv mem m k bytes s \<longleftrightarrow>
     (\<exists>c. gsflscache s = Some c \<and> length c = 4096 \<and> gsSector s = 0x8000 + (k + length bytes div 4096) \<and>
        mem (chip s) = mem_write m (k * 4096) (take (4096 * (length bytes div 4096)) bytes) \<and>
        take (length bytes mod 4096) c = drop (4096 * (length bytes div 4096)) bytes)"

lemma take_stream:
  assumes "q = length bytes div 4096"
  shows "take (4096 * (length (bytes @ buf) div 4096)) (bytes @ buf) =
      take (4096 * q) bytes @ take (4096 * ((length bytes mod 4096 + length buf) div 4096)) (drop (4096 * q) bytes @ buf)"
    and "drop (4096 * (length (bytes @ buf) div 4096)) (bytes @ buf) =
      drop (4096 * ((length bytes mod 4096 + length buf) div 4096)) (drop (4096 * q) bytes @ buf)"
    and "length (bytes @ buf) div 4096 = q + (length bytes mod 4096 + length buf) div 4096"
    and "length (bytes @ buf) mod 4096 = (length bytes mod 4096 + length buf) mod 4096"
proof -
  let ?j = "(length bytes mod 4096 + length buf) div 4096"
  have "length (bytes @ buf) = q * 4096 + (length bytes mod 4096 + length buf)" by (simp add: assms)
  then show d: "length (bytes @ buf) div 4096 = q + ?j"
    and "length (bytes @ buf) mod 4096 = (length bytes mod 4096 + length buf) mod 4096"
    by (simp_all only: div_mult_self3 mod_mult_self3)
  have le: "4096 * q \<le> length bytes" by (simp add: assms)
  have sp: "bytes @ buf = take (4096 * q) bytes @ (drop (4096 * q) bytes @ buf)" by simp
  show "take (4096 * (length (bytes @ buf) div 4096)) (bytes @ buf) =
      take (4096 * q) bytes @ take (4096 * ?j) (drop (4096 * q) bytes @ buf)"
    unfolding d by (subst sp, subst take_append) (use le in \<open>simp add: distrib_left\<close>)
  show "drop (4096 * (length (bytes @ buf) div 4096)) (bytes @ buf) =
      drop (4096 * ?j) (drop (4096 * q) bytes @ buf)"
    unfolding d by (subst sp, subst drop_append) (use le in \<open>simp add: distrib_left\<close>)
qed

context spi_nor
begin

lemma fast_write_spec:
  assumes f: "inside_fls s = Some f" "density f \<le> cap" "4096 dvd density f"
    and buf: "buf \<noteq> []" "k * 4096 + length bytes + length buf \<le> density f"
    and g: "gsSector s = 0x8000 + (k + length bytes div 4096) \<or> gsSector s = 0"
    and inv: "fast_inv mem m k bytes (s\<lparr>gsSector := 0x8000 + (k + length bytes div 4096)\<rparr>)"
    and np: "\<And>x. k * 4096 \<le> x \<Longrightarrow> x < density f \<Longrightarrow> \<not> prot (chip s) x"
  shows "\<exists>s'. tls_fls_fast_write hw (0x8000000 + k * 4096 + length bytes) (Some buf) (length buf) s = Some (0, s') \<and>
    fast_inv mem m k (bytes @ buf) s' \<and> prot (chip s') = prot (chip s) \<and> drv0 s' = drv0 s"
proof -
  define q j where "q = length bytes div 4096" and "j = length bytes mod 4096"
  have n: "length bytes = q * 4096 + j" "j < 4096" by (simp_all add: q_def j_def)
  let ?addr = "0x8000000 + k * 4096 + length bytes" and ?s = "(fls_acquire s)\<lparr>gsSector := 0x8000 + (k + q)\<rparr>"
  obtain c where c: "gsflscache s = Some c" "length c = 4096" "mem (chip s) = mem_write m (k * 4096) (take (4096 * q) bytes)"
    "take j c = drop (4096 * q) bytes"
    using inv by (auto simp: fast_inv_def q_def j_def)
  define S where "S = 0x8000 + (k + q)"
  have "?addr = S * 4096 + j" using n(1) by (simp add: distrib_right S_def)
  then have "?addr div 4096 = S" and am: "?addr mod 4096 = j" using n(2) by simp_all
  then have ad: "?addr div 4096 = 0x8000 + (k + q)" by (simp only: S_def)
  have "?addr mod 0x8000000 < density f"
  proof -
    have "k * 4096 + length bytes < 0x8000000" using buf f(2) cap_bound by (cases buf) auto
    then have "?addr mod 0x8000000 = k * 4096 + length bytes" by (simp add: add.assoc)
    then show ?thesis using buf by (cases buf) auto
  qed
  then have ok: "\<not> bad_args ?addr (length buf) False s" using buf(1) f(1) by (simp add: bad_args_def fls_density_def)
  have "\<not> prot (chip ?s) x" if "(k + q) * 4096 \<le> x" "x < density f" for x
    using np [of x] that by (simp add: distrib_right)
  moreover have "(k + q) * 4096 + j + length buf \<le> density f" using buf(2) n(1) by (simp add: distrib_right)
  ultimately obtain s' c' where s': "fast_write_loop hw j (4096 - j) buf (length buf) ?s = Some s'"
    "mem (chip s') = mem_write (mem (chip ?s)) ((k + q) * 4096) (take (4096 * ((j + length buf) div 4096)) (take j c @ take (length buf) buf))"
    "prot (chip s') = prot (chip ?s)" "drv0 s' = drv0 ?s" "gsSector s' = 0x8000 + (k + q) + (j + length buf) div 4096"
    "gsflscache s' = Some c'" "length c' = 4096"
    "take ((j + length buf) mod 4096) c' = drop (4096 * ((j + length buf) div 4096)) (take j c @ take (length buf) buf)"
    using fast_write_loop_spec [of ?s f "k + q" c j "length buf" buf] f c(1,2) n(2) by auto
  have "tls_fls_fast_write hw ?addr (Some buf) (length buf) s = Some (0, fls_release s')"
    using ok f(1) g s'(1) by (auto simp: tls_fls_fast_write_def ad am Let_def q_def [symmetric])
  moreover have "fast_inv mem m k (bytes @ buf) (fls_release s')"
  proof -
    note st = take_stream [OF q_def, of buf, folded j_def]
    have "(k + q) * 4096 = k * 4096 + length (take (4096 * q) bytes)" using n(1) by (simp add: distrib_right)
    then have "mem (chip s') = mem_write m (k * 4096) (take (4096 * (length (bytes @ buf) div 4096)) (bytes @ buf))"
      using s'(2) c(3,4) mem_write_append [of m "k * 4096" "take (4096 * q) bytes"] unfolding st(1) by simp
    then show ?thesis unfolding fast_inv_def using s' c(4) st by auto
  qed
  ultimately show ?thesis using s' by (simp add: drv0_release)
qed

end

context spi_nor
begin

lemma fast_write_all_inv:
  assumes "inside_fls s = Some f" "density f \<le> cap" "4096 dvd density f"
    "list_all (\<lambda>b. b \<noteq> []) bufs" "k * 4096 + length bytes + length (concat bufs) \<le> density f"
    "gsSector s = 0x8000 + (k + length bytes div 4096) \<or> bufs \<noteq> [] \<and> gsSector s = 0"
    "fast_inv mem m k bytes (s\<lparr>gsSector := 0x8000 + (k + length bytes div 4096)\<rparr>)"
    "\<And>x. k * 4096 \<le> x \<Longrightarrow> x < density f \<Longrightarrow> \<not> prot (chip s) x"
  shows "\<exists>s'. fast_write_all hw (0x8000000 + k * 4096 + length bytes) bufs s = Some s' \<and>
    fast_inv mem m k (bytes @ concat bufs) s' \<and> prot (chip s') = prot (chip s) \<and> drv0 s' = drv0 s"
  using assms
proof (induction bufs arbitrary: bytes s)
  case Nil
  then have "s\<lparr>gsSector := 0x8000 + (k + length bytes div 4096)\<rparr> = s" by simp
  with Nil show ?case by simp
next
  case (Cons b bufs)
  obtain s1 where 1: "tls_fls_fast_write hw (0x8000000 + k * 4096 + length bytes) (Some b) (length b) s = Some (0, s1)"
    "fast_inv mem m k (bytes @ b) s1" "prot (chip s1) = prot (chip s)" "drv0 s1 = drv0 s"
    using fast_write_spec [of s f b k bytes m] Cons.prems by auto
  have g: "gsSector s1 = 0x8000 + (k + length (bytes @ b) div 4096)" using 1(2) by (auto simp: fast_inv_def)
  then have "s1\<lparr>gsSector := 0x8000 + (k + length (bytes @ b) div 4096)\<rparr> = s1" by simp
  then have "fast_inv mem m k (bytes @ b) (s1\<lparr>gsSector := 0x8000 + (k + length (bytes @ b) div 4096)\<rparr>)"
    using 1(2) by (simp only:)
  then obtain s2 where 2: "fast_write_all hw (0x8000000 + k * 4096 + length (bytes @ b)) bufs s1 = Some s2"
    "fast_inv mem m k ((bytes @ b) @ concat bufs) s2" "prot (chip s2) = prot (chip s1)" "drv0 s2 = drv0 s1"
    using Cons.IH [of s1 "bytes @ b"] Cons.prems g 1(2,3) drv0_inside [OF 1(4)] by (auto simp: add.assoc)
  with 1 show ?case by (simp add: add.assoc)
qed

lemma fast_destroy_spec:
  assumes f: "inside_fls s = Some f" "density f \<le> cap" "4096 dvd density f" and inv: "fast_inv mem m k bytes s"
    and np: "\<And>x. k * 4096 \<le> x \<Longrightarrow> x < density f \<Longrightarrow> \<not> prot (chip s) x"
    and fit: "k * 4096 + length bytes \<le> density f"
  shows "\<exists>s'. tls_fls_fast_write_destroy hw s = Some s' \<and> mem_read (mem (chip s')) (k * 4096) (length bytes) = bytes \<and>
    (\<forall>x. x < k * 4096 \<or> (k + length bytes div 4096 + 1) * 4096 \<le> x \<longrightarrow> mem (chip s') x = m x) \<and>
    gsflscache s' = None \<and> drv0 s' = drv0 s \<and> prot (chip s') = prot (chip s)"
proof -
  define q where "q = length bytes div 4096"
  obtain c where c: "gsflscache s = Some c" "length c = 4096" "gsSector s = 0x8000 + (k + q)"
    "mem (chip s) = mem_write m (k * 4096) (take (4096 * q) bytes)" "take (length bytes mod 4096) c = drop (4096 * q) bytes"
    using inv by (auto simp: fast_inv_def q_def)
  have lq: "length (take (4096 * q) bytes) = 4096 * q" by (simp add: q_def)
  obtain s1 where 1: "tls_fls_flush_sector hw (fls_acquire s) = Some s1" "drv s1 = drv (fls_acquire s)"
    "prot (chip s1) = prot (chip s)"
    "(k + q) * 4096 < density f \<Longrightarrow> mem (chip s1) = mem_write (mem (chip s)) ((k + q) * 4096) c"
    "\<not> (k + q) * 4096 < density f \<Longrightarrow> mem (chip s1) = mem (chip s)"
  proof (cases "(k + q) * 4096 < density f")
    case True
    then have "(k + q) * 4096 + 4096 \<le> density f" by (rule sector_fits [OF f(3)])
    then have "\<not> prot (chip s) x" if "x div 4096 = k + q" for x using np [of x] that by auto
    with that True flush_spec [of "fls_acquire s" f "k + q" c] f c show thesis by auto
  next
    case False
    with that [of "fls_acquire s"] flush_beyond [of "fls_acquire s" f "k + q"] f(1) c(3) show thesis by auto
  qed
  have mem1: "mem (chip s1) = mem_write m (k * 4096) (take (4096 * q) bytes @ c)" if "(k + q) * 4096 < density f"
    using 1(4) [OF that] c(4) mem_write_append [of m "k * 4096" "take (4096 * q) bytes" c] lq by (simp add: distrib_right mult.commute)
  have full: "take (4096 * q) bytes = bytes" if "\<not> (k + q) * 4096 < density f"
    using that fit by (simp add: q_def)
  have "mem_read (mem (chip s1)) (k * 4096) (length bytes) = bytes"
  proof (cases "(k + q) * 4096 < density f")
    case True
    have "bytes = take (4096 * q) bytes @ take (length bytes mod 4096) c" using c(5) by simp
    also have "\<dots> = take (length bytes) (take (4096 * q) bytes @ c)" using lq by (simp add: q_def minus_mult_div_eq_mod)
    finally have eq: "take (length bytes) (take (4096 * q) bytes @ c) = bytes" by simp
    have "length bytes \<le> length (take (4096 * q) bytes @ c)" using lq c(2) by (simp add: q_def)
    then have "mem_read (mem (chip s1)) (k * 4096) (length bytes) =
        take (length bytes) (mem_read (mem (chip s1)) (k * 4096) (length (take (4096 * q) bytes @ c)))"
      by (simp only: take_mem_read min_def if_True)
    then show ?thesis using eq mem_read_mem_write mem1 [OF True] by metis
  next
    case False
    with 1(5) c(4) full show ?thesis by (simp add: mem_read_mem_write)
  qed
  moreover have "mem (chip s1) x = m x" if "x < k * 4096 \<or> (k + q + 1) * 4096 \<le> x" for x
    using that mem1 1(5) c(4) lq c(2) by (cases "(k + q) * 4096 < density f") (auto simp: mem_write_def)
  moreover have "tls_fls_fast_write_destroy hw s = Some ((fls_release s1)\<lparr>gsflscache := None\<rparr>)"
    using c(1) f(1) 1(1) by (simp add: tls_fls_fast_write_destroy_def)
  ultimately show ?thesis using drv0_drv [OF drv_release [OF 1(2)]] 1(3) by (simp add: q_def)
qed

lemma fast_session_spec:
  assumes f: "inside_fls s = Some f" "density f \<le> cap" "4096 dvd density f"
    and b: "list_all (\<lambda>b. b \<noteq> []) bufs" "bufs \<noteq> []" "k * 4096 + length (concat bufs) \<le> density f"
    and g: "gsSector s = 0x8000 + k \<or> gsSector s = 0" "gsflscache s = Some c" "length c = 4096"
    and np: "\<And>x. k * 4096 \<le> x \<Longrightarrow> x < density f \<Longrightarrow> \<not> prot (chip s) x"
  shows "\<exists>s1 s2. fast_write_all hw (0x8000000 + k * 4096) bufs s = Some s1 \<and> tls_fls_fast_write_destroy hw s1 = Some s2 \<and>
    mem_read (mem (chip s2)) (k * 4096) (length (concat bufs)) = concat bufs \<and>
    (\<forall>x. x < k * 4096 \<or> (k + length (concat bufs) div 4096 + 1) * 4096 \<le> x \<longrightarrow> mem (chip s2) x = mem (chip s) x) \<and>
    gsflscache s2 = None \<and> drv0 s2 = drv0 s"
proof -
  have "fast_inv mem (mem (chip s)) k [] (s\<lparr>gsSector := 0x8000 + (k + length ([] :: u8 list) div 4096)\<rparr>)"
    using g by (simp add: fast_inv_def)
  then obtain s1 where 1: "fast_write_all hw (0x8000000 + k * 4096) bufs s = Some s1"
    "fast_inv mem (mem (chip s)) k (concat bufs) s1" "prot (chip s1) = prot (chip s)" "drv0 s1 = drv0 s"
    using fast_write_all_inv [of s f bufs k "[]" "mem (chip s)"] f b g np by auto
  have "\<exists>s2. tls_fls_fast_write_destroy hw s1 = Some s2 \<and>
    mem_read (mem (chip s2)) (k * 4096) (length (concat bufs)) = concat bufs \<and>
    (\<forall>x. x < k * 4096 \<or> (k + length (concat bufs) div 4096 + 1) * 4096 \<le> x \<longrightarrow> mem (chip s2) x = mem (chip s) x) \<and>
    gsflscache s2 = None \<and> drv0 s2 = drv0 s1 \<and> prot (chip s2) = prot (chip s1)"
    using fast_destroy_spec [OF _ f(2,3) 1(2) _ b(3)] np 1(3) drv0_inside [OF 1(4)] f(1) by simp
  with 1 show ?thesis by auto
qed

end

section \<open>Properties\<close>

text \<open>A running driver for a 2 MiB chip with nothing protected, for the witnesses.\<close>

definition demo_fls :: "nor_chip fls" where
  "demo_fls =
     \<lparr>chip = \<lparr>cells = (\<lambda>_. 0x5A), latch = False, jedec = 0x1540C8, reg1 = 0, reg2 = 2, security = (\<lambda>_. 0)\<rparr>,
      rsa = (\<lambda>_. 0), cmd_addr = 0, flash_addr = 0, flash_cr = 1, encrypt_ctrl = 0,
      inside_fls = Some \<lparr>flashid = 0xC8, density = 0x200000, otp_eraseSize = 1024, otp_pageSize = 256\<rparr>,
      sem_taken = 0, gsflscache = None, gsSector = 0\<rparr>"

lemma demo_unprotected [simp]: "\<not> nor_prot (chip demo_fls) x" "range_unprotected nor_prot demo_fls a n"
  by (simp_all add: demo_fls_def nor_prot_def range_unprotected_def)

lemma demo_simps [simp]:
  "inside_fls demo_fls = Some \<lparr>flashid = 0xC8, density = 0x200000, otp_eraseSize = 1024, otp_pageSize = 256\<rparr>"
  "gsSector demo_fls = 0" "cells (chip demo_fls) x = 0x5A"
  by (simp_all add: demo_fls_def)

text \<open>C3. On a chip with the documented behaviour, \<^verbatim>\<open>tls_fls_write\<close> of an in-range buffer ends,
  returns \<^verbatim>\<open>TLS_FLS_STATUS_OK\<close>, stores exactly the given bytes at the address (whatever its
  alignment and however many sectors it crosses), leaves every other byte of the flash as it
  was although whole sectors are erased on the way, and gives the semaphore back.\<close>

theorem fls_write_correct:
  assumes "spi_nor hw mem wel prot cap" "inside_fls s = Some f" "density f \<le> cap"
    "0 < len" "len \<le> length buf" "addr mod 0x8000000 + len \<le> density f"
    "range_unprotected prot s (addr mod 0x8000000) len"
  shows "\<exists>s'. tls_fls_write hw True addr (Some buf) len s = Some (TLS_FLS_STATUS_OK, s') \<and>
    mem (chip s') = mem_write (mem (chip s)) (addr mod 0x8000000) (take len buf) \<and>
    prot (chip s') = prot (chip s) \<and> drv s' = drv s"
  using spi_nor.write_spec [OF assms(1-7)] .

theorem fls_write_correct_witness:
  "\<exists>s'. tls_fls_write nor_hw True 0x8001FFE (Some [1, 2, 3, 4]) 4 demo_fls = Some (0, s') \<and>
    cells (chip s') = mem_write (cells (chip demo_fls)) 0x1FFE [1, 2, 3, 4]"
  using fls_write_correct [OF nor.spi_nor_axioms, of demo_fls _ 4 "[1, 2, 3, 4]" "0x8001FFE"] by auto

text \<open>What was written is what is read: \<^verbatim>\<open>tls_fls_write\<close> followed by \<^verbatim>\<open>tls_fls_read\<close> of the
  same range delivers the written bytes, for every alignment of the address, the length and
  the destination buffer, on the word-copy path and on the page-cache path.\<close>

theorem fls_write_read:
  assumes "spi_nor hw mem wel prot cap" "inside_fls s = Some f" "density f \<le> cap"
    "0 < len" "len \<le> length buf" "addr mod 0x8000000 + len \<le> density f"
    "range_unprotected prot s (addr mod 0x8000000) len"
  shows "\<exists>s' s''. tls_fls_write hw True addr (Some buf) len s = Some (TLS_FLS_STATUS_OK, s') \<and>
    tls_fls_read hw buf_aligned True addr False len s' = (TLS_FLS_STATUS_OK, take len buf, s'') \<and>
    mem (chip s'') = mem (chip s')"
proof -
  obtain s' where 1: "tls_fls_write hw True addr (Some buf) len s = Some (0, s')"
    "mem (chip s') = mem_write (mem (chip s)) (addr mod 0x8000000) (take len buf)" "drv s' = drv s"
    using spi_nor.write_spec [OF assms] by blast
  have "inside_fls s' = Some f" using drv_eq_fields(2) [OF 1(3)] assms(2) by simp
  then obtain s'' where 2: "tls_fls_read hw buf_aligned True addr False len s' =
      (0, mem_read (mem (chip s')) (addr mod 0x8000000) len, s'')" "kept mem prot s' s''"
    using spi_nor.read_spec [OF assms(1) _ assms(3,4,6)] by blast
  have "length (take len buf) = len" using assms(5) by simp
  then have "mem_read (mem (chip s')) (addr mod 0x8000000) len = take len buf"
    using 1(2) mem_read_mem_write by metis
  with 1 2 show ?thesis by (auto simp: kept_mem)
qed

theorem fls_write_read_witness:
  "\<exists>s' s''. tls_fls_write nor_hw True 0x8001FFE (Some [1, 2, 3, 4]) 4 demo_fls = Some (0, s') \<and>
    tls_fls_read nor_hw False True 0x8001FFE False 4 s' = (0, [1, 2, 3, 4], s'')"
  using fls_write_read [OF nor.spi_nor_axioms, of demo_fls _ 4 "[1, 2, 3, 4]" "0x8001FFE" False] by auto

text \<open>\<^verbatim>\<open>tls_fls_write_without_erase\<close> only clears bits: every byte of the range becomes the
  conjunction of the old and the new byte, bytes around it (which are programmed again with
  their own value) do not change. On erased flash it therefore stores the buffer.\<close>

theorem fls_write_without_erase_correct:
  assumes "spi_nor hw mem wel prot cap" "inside_fls s = Some f" "density f \<le> cap"
    "0 < len" "len \<le> length buf" "addr mod 0x8000000 + len \<le> density f"
    "range_unprotected prot s (addr mod 0x8000000) len"
  shows "\<exists>s'. tls_fls_write_without_erase hw True addr (Some buf) len s = Some (TLS_FLS_STATUS_OK, s') \<and>
    mem (chip s') = mem_and (mem (chip s)) (addr mod 0x8000000) (take len buf) \<and>
    prot (chip s') = prot (chip s) \<and> drv s' = drv s"
  using spi_nor.write_without_erase_spec [OF assms(1-7)] .

theorem fls_write_without_erase_correct_witness:
  "\<exists>s'. tls_fls_write_without_erase nor_hw True 0x80010FE (Some [1, 2, 3, 4]) 4 demo_fls = Some (0, s') \<and>
    cells (chip s') = mem_and (cells (chip demo_fls)) 0x10FE [1, 2, 3, 4]"
  using fls_write_without_erase_correct [OF nor.spi_nor_axioms, of demo_fls _ 4 "[1, 2, 3, 4]" "0x80010FE"] by auto

text \<open>\<^verbatim>\<open>tls_fls_chip_erase\<close> leaves the first 8 KiB (the second stage boot loader starts
  after them) alone and sets every other byte of the chip to 0xFF, although it skips the erase
  of sectors that read as blank.\<close>

theorem fls_chip_erase_correct:
  assumes "spi_nor hw mem wel prot cap" "inside_fls s = Some f" "density f \<le> cap" "4096 dvd density f"
    "0x2000 \<le> density f" "\<And>x. 0x2000 \<le> x \<Longrightarrow> x < density f \<Longrightarrow> \<not> prot (chip s) x"
  shows "\<exists>s'. tls_fls_chip_erase hw True s = (TLS_FLS_STATUS_OK, s') \<and>
    (\<forall>x. mem (chip s') x = (if 0x2000 \<le> x \<and> x < density f then 0xFF else mem (chip s) x)) \<and>
    prot (chip s') = prot (chip s) \<and> drv s' = drv s"
  using spi_nor.chip_erase_spec [OF assms(1-5)] assms(6) by blast

theorem fls_chip_erase_correct_witness:
  "\<exists>s'. tls_fls_chip_erase nor_hw True demo_fls = (0, s') \<and>
    (\<forall>x. cells (chip s') x = (if 0x2000 \<le> x \<and> x < 0x200000 then 0xFF else 0x5A))"
  using fls_chip_erase_correct [OF nor.spi_nor_axioms, of demo_fls] by auto

text \<open>C4. A fast write session: after \<^verbatim>\<open>tls_fls_fast_write_init\<close> on a booted driver, any
  sequence of non-empty blocks written at contiguous addresses from a sector boundary on,
  followed by \<^verbatim>\<open>tls_fls_fast_write_destroy\<close>, leaves the concatenation of the blocks in the
  flash, wherever the blocks cross sectors, and changes nothing before the first sector or
  after the sector in which the data ends.\<close>

theorem fast_write_session_correct:
  assumes "spi_nor hw mem wel prot cap" "inside_fls s = Some f" "density f \<le> cap" "4096 dvd density f"
    "list_all (\<lambda>b. b \<noteq> []) bufs" "bufs \<noteq> []" "k * 4096 + length (concat bufs) \<le> density f"
    "gsSector s = 0x8000 + k \<or> gsSector s = 0" "gsflscache s = None" "length blk = 4096"
    "\<And>x. k * 4096 \<le> x \<Longrightarrow> x < density f \<Longrightarrow> \<not> prot (chip s) x"
  shows "\<exists>s0 s1 s2. tls_fls_fast_write_init (Some blk) s = (TLS_FLS_STATUS_OK, s0) \<and>
    fast_write_all hw (0x8000000 + k * 4096) bufs s0 = Some s1 \<and> tls_fls_fast_write_destroy hw s1 = Some s2 \<and>
    mem_read (mem (chip s2)) (k * 4096) (length (concat bufs)) = concat bufs \<and>
    (\<forall>x. x < k * 4096 \<or> (k + length (concat bufs) div 4096 + 1) * 4096 \<le> x \<longrightarrow> mem (chip s2) x = mem (chip s) x) \<and>
    gsflscache s2 = None \<and> drv0 s2 = drv0 s"
proof -
  let ?s = "s\<lparr>gsflscache := Some blk\<rparr>"
  have i: "tls_fls_fast_write_init (Some blk) s = (0, ?s)" using assms(2,9) by (simp add: tls_fls_fast_write_init_def)
  show ?thesis using spi_nor.fast_session_spec [OF assms(1), of ?s f bufs k blk] assms i by auto
qed

theorem fast_write_session_correct_witness:
  "\<exists>s0 s1 s2. tls_fls_fast_write_init (Some (replicate 4096 0)) demo_fls = (0, s0) \<and>
    fast_write_all nor_hw 0x8010000 [replicate 5000 1, [2, 3]] s0 = Some s1 \<and> tls_fls_fast_write_destroy nor_hw s1 = Some s2 \<and>
    mem_read (cells (chip s2)) 0x10000 5002 = replicate 5000 1 @ [2, 3]"
proof -
  have "gsflscache demo_fls = None" by (simp add: demo_fls_def)
  then show ?thesis
    using fast_write_session_correct [OF nor.spi_nor_axioms, of demo_fls _ "[replicate 5000 1, [2, 3]]" 16 "replicate 4096 0"] by auto
qed

section \<open>Where the code departs from its contract\<close>

context spi_nor
begin

lemma flush_sector0:
  assumes "inside_fls s = Some f" "density f \<le> cap" "0 < density f" "gsSector s = 0" "gsflscache s = Some c" "length c = 4096"
    "\<And>x. x < 4096 \<Longrightarrow> \<not> prot (chip s) x"
  shows "\<exists>s'. tls_fls_flush_sector hw s = Some s' \<and> mem (chip s') = mem_write (mem (chip s)) 0 c"
proof -
  have "tls_fls_flush_sector hw s = program_pages hw 16 0 0 c (eraseSector hw 0 s)"
    using assms by (simp add: tls_fls_flush_sector_def sector_limit_def)
  with sector_rewrite [of 0 0 c s] assms show ?thesis by auto
qed

lemma whole_sector_spec:
  assumes f: "inside_fls s = Some f" "density f \<le> cap" "4096 dvd density f"
    and g: "gsSector s = 0x8000 + k \<or> gsSector s = 0" "gsflscache s = Some c" "length c = 4096" "length buf = 4096"
    and fit: "(k + 1) * 4096 < density f" and np: "\<And>x. \<not> prot (chip s) x"
  shows "\<exists>s1 s2. tls_fls_fast_write hw (0x8000000 + k * 4096) (Some buf) 4096 s = Some (0, s1) \<and>
    tls_fls_fast_write_destroy hw s1 = Some s2 \<and> gsSector s2 = 0x8000 + (k + 1) \<and>
    mem (chip s2) = mem_write (mem (chip s)) (k * 4096) (buf @ buf)"
proof -
  let ?adr = "0x8000000 + k * 4096"
  have "?adr = (0x8000 + k) * 4096" by simp
  then have ad: "?adr div 4096 = 0x8000 + k" "?adr mod 4096 = 0" by (simp_all only: div_mult_self_is_m mod_mult_self2_is_0 zero_less_numeral)
  have kd: "k * 4096 < density f" using fit by simp
  have "k * 4096 < 0x8000000" using kd f(2) cap_bound by linarith
  then have "?adr mod 0x8000000 = k * 4096" by simp
  then have ok: "\<not> bad_args ?adr 4096 False s" using kd f(1) by (simp add: bad_args_def fls_density_def)
  let ?s = "(fls_acquire s)\<lparr>gsSector := 0x8000 + k, gsflscache := Some buf\<rparr>"
  obtain s1 where 1: "tls_fls_flush_sector hw ?s = Some s1" "mem (chip s1) = mem_write (mem (chip s)) (k * 4096) buf"
    "prot (chip s1) = prot (chip s)" "drv s1 = drv ?s"
    using flush_spec [of ?s f k buf] f g(4) kd np by auto
  let ?s1 = "s1\<lparr>gsSector := gsSector s1 + 1\<rparr>"
  have d: "gsSector s1 = 0x8000 + k" "gsflscache s1 = Some buf" "inside_fls s1 = Some f"
    using drv_eq_fields [OF 1(4)] f(1) by simp_all
  have cp: "copy_into c 0 buf 4096 = buf" using copy_into_all [OF g(3), of buf] g(4) by simp
  have "fast_write_loop hw 0 4096 buf 4096 ((fls_acquire s)\<lparr>gsSector := 0x8000 + k\<rparr>) = Some ?s1"
    using g(2) 1(1) cp by (subst fast_write_loop.simps) (simp add: fast_write_loop.simps [of hw 0 4096 "drop 4096 buf" 0])
  then have w: "tls_fls_fast_write hw ?adr (Some buf) 4096 s = Some (0, fls_release ?s1)"
    using ok f(1) g(1) by (auto simp: tls_fls_fast_write_def ad Let_def)
  obtain s2 where 2: "tls_fls_flush_sector hw (fls_acquire (fls_release ?s1)) = Some s2"
    "mem (chip s2) = mem_write (mem (chip s1)) ((k + 1) * 4096) buf" "drv s2 = drv (fls_acquire (fls_release ?s1))"
    using flush_spec [of "fls_acquire (fls_release ?s1)" f "k + 1" buf] f(2,3) d g(4) fit np 1(3) by auto
  have "tls_fls_fast_write_destroy hw (fls_release ?s1) = Some ((fls_release s2)\<lparr>gsflscache := None\<rparr>)"
    using d 2(1) by (simp add: tls_fls_fast_write_destroy_def)
  moreover have "gsSector s2 = 0x8000 + (k + 1)" using drv_eq_fields(5) [OF 2(3)] d(1) by simp
  moreover have "mem (chip s2) = mem_write (mem (chip s)) (k * 4096) (buf @ buf)"
    using 2(2) 1(2) mem_write_append [of "mem (chip s)" "k * 4096" buf buf] g(4) by (simp add: add.commute)
  ultimately show ?thesis using w by auto
qed

end

text \<open>A fast write session that ends exactly at the end of a sector writes one sector too
  many: \<^verbatim>\<open>tls_fls_fast_write\<close> flushes the full sector and advances \<^verbatim>\<open>gsSector\<close>, and
  \<^verbatim>\<open>tls_fls_fast_write_destroy\<close> then flushes the stale cache once more, so that the sector
  after the data is erased and becomes a copy of the last one.\<close>

theorem fast_write_boundary_clobbers:
  assumes "spi_nor hw mem wel prot cap" "inside_fls s = Some f" "density f \<le> cap" "4096 dvd density f"
    "gsSector s = 0x8000 + k \<or> gsSector s = 0" "gsflscache s = Some c" "length c = 4096" "length buf = 4096"
    "(k + 1) * 4096 < density f" "\<And>x. \<not> prot (chip s) x"
  shows "\<exists>s1 s2. tls_fls_fast_write hw (0x8000000 + k * 4096) (Some buf) 4096 s = Some (TLS_FLS_STATUS_OK, s1) \<and>
    tls_fls_fast_write_destroy hw s1 = Some s2 \<and> gsSector s2 = 0x8000 + (k + 1) \<and>
    mem (chip s2) = mem_write (mem (chip s)) (k * 4096) (buf @ buf)"
  using spi_nor.whole_sector_spec [OF assms(1-9)] assms(10) by blast

theorem fast_write_boundary_clobbers_witness:
  "\<exists>s1 s2. tls_fls_fast_write nor_hw 0x8010000 (Some (replicate 4096 7)) 4096 (demo_fls\<lparr>gsflscache := Some (replicate 4096 0)\<rparr>) = Some (0, s1) \<and>
    tls_fls_fast_write_destroy nor_hw s1 = Some s2 \<and> cells (chip s2) 0x11000 = 7"
proof -
  have "\<exists>s1 s2. tls_fls_fast_write nor_hw (0x8000000 + 16 * 4096) (Some (replicate 4096 7)) 4096 (demo_fls\<lparr>gsflscache := Some (replicate 4096 0)\<rparr>) = Some (0, s1) \<and>
    tls_fls_fast_write_destroy nor_hw s1 = Some s2 \<and> gsSector s2 = 0x8000 + (16 + 1) \<and>
    cells (chip s2) = mem_write (cells (chip (demo_fls\<lparr>gsflscache := Some (replicate 4096 0)\<rparr>))) (16 * 4096) (replicate 4096 7 @ replicate 4096 7)"
    using fast_write_boundary_clobbers [OF nor.spi_nor_axioms, of "demo_fls\<lparr>gsflscache := Some (replicate 4096 0)\<rparr>" _ 16
      "replicate 4096 0" "replicate 4096 7"] by simp
  then show ?thesis by (auto simp: mem_write_def nth_append)
qed

text \<open>\<^verbatim>\<open>tls_fls_fast_write_destroy\<close> flushes without checking that anything was written: on a
  booted driver (\<^verbatim>\<open>gsSector\<close> 0), opening and closing a session without a write replaces the
  first sector of the flash by the uninitialised cache block.\<close>

theorem fast_write_empty_session_clobbers:
  assumes "spi_nor hw mem wel prot cap" "inside_fls s = Some f" "density f \<le> cap" "0 < density f"
    "gsSector s = 0" "gsflscache s = None" "length blk = 4096" "\<And>x. x < 4096 \<Longrightarrow> \<not> prot (chip s) x"
  shows "\<exists>s1 s2. tls_fls_fast_write_init (Some blk) s = (TLS_FLS_STATUS_OK, s1) \<and>
    tls_fls_fast_write_destroy hw s1 = Some s2 \<and> mem (chip s2) = mem_write (mem (chip s)) 0 blk"
proof -
  let ?s = "s\<lparr>gsflscache := Some blk\<rparr>"
  have "tls_fls_fast_write_init (Some blk) s = (0, ?s)" using assms(2,6) by (simp add: tls_fls_fast_write_init_def)
  moreover obtain s2 where "tls_fls_flush_sector hw (fls_acquire ?s) = Some s2" "mem (chip s2) = mem_write (mem (chip s)) 0 blk"
    using spi_nor.flush_sector0 [OF assms(1), of "fls_acquire ?s" f blk] assms by auto
  then have "tls_fls_fast_write_destroy hw ?s = Some ((fls_release s2)\<lparr>gsflscache := None\<rparr>)"
    "mem (chip ((fls_release s2)\<lparr>gsflscache := None\<rparr>)) = mem_write (mem (chip s)) 0 blk"
    using assms(2) by (simp_all add: tls_fls_fast_write_destroy_def)
  ultimately show ?thesis by blast
qed

theorem fast_write_empty_session_clobbers_witness:
  "\<exists>s1 s2. tls_fls_fast_write_init (Some (replicate 4096 0)) demo_fls = (0, s1) \<and>
    tls_fls_fast_write_destroy nor_hw s1 = Some s2 \<and> cells (chip s2) 0 = 0"
proof -
  have "gsflscache demo_fls = None" by (simp add: demo_fls_def)
  from fast_write_empty_session_clobbers [OF nor.spi_nor_axioms _ _ _ _ this, of _ "replicate 4096 0"]
  show ?thesis by (auto simp: mem_write_def)
qed

text \<open>\<^verbatim>\<open>tls_fls_read\<close> reports success when the page cache for an unaligned read cannot be
  allocated: it drops the error of \<^verbatim>\<open>flashRead\<close> and stores no byte.\<close>

theorem fls_read_nomem:
  assumes "inside_fls s \<noteq> None" "\<not> bad_args addr len False s" "\<not> (addr mod 256 = 0 \<and> buf_aligned \<and> len mod 4 = 0)"
  shows "tls_fls_read hw buf_aligned False addr False len s = (TLS_FLS_STATUS_OK, [], s)"
  using assms by (auto simp: tls_fls_read_def flashRead_def fls_acquire_def fls_release_def)

theorem fls_read_nomem_witness:
  "tls_fls_read nor_hw True False 0x8000001 False 10 demo_fls = (0, [], demo_fls)"
  by (rule fls_read_nomem) (simp_all add: bad_args_def fls_density_def)

end
