(* ===== verification/Flash_Otp.thy ===== *)
theory Flash_Otp
  imports Flash
begin

text \<open>
  The remaining operations of \<^verbatim>\<open>platform/drivers/internalflash/wm_internal_fls.c\<close>: the unique
  id, the security registers (OTP area) and the write protection of the status registers. The
  lemmas show that the word-wise copy of \<^verbatim>\<open>tls_fls_otp_read\<close> delivers the right bytes for every
  alignment, what \<^verbatim>\<open>tls_flash_lock\<close> and \<^verbatim>\<open>tls_flash_unlock\<close> do to the status registers, and
  where the semaphore of the driver is not given back.
\<close>

unbundle bit_operations_syntax

section \<open>Unique id\<close>

definition uid_bytes :: "u8 \<Rightarrow> nat option" where
  "uid_bytes rid =
     (if rid = SPIFLASH_MID_GD \<or> rid = SPIFLASH_MID_PUYA \<or> rid = SPIFLASH_MID_TSINGTENG \<or> rid = SPIFLASH_MID_TSINGTENG_1MB_4MB
      then Some 16
      else if rid = SPIFLASH_MID_WINBOND \<or> rid = SPIFLASH_MID_FUDANMICRO \<or> rid = SPIFLASH_MID_BOYA \<or> rid = SPIFLASH_MID_XMC
      then Some 8
      else None)"

text \<open>The 18 bytes stored through \<^verbatim>\<open>uuid\<close> are part of the result. The read length is 20 or 12,
  so the branch for a rest of less than a word is never taken.\<close>

definition tls_fls_read_unique_id :: "'c flash_hw \<Rightarrow> 'c fls \<Rightarrow> int \<times> u8 list \<times> 'c fls" where
  "tls_fls_read_unique_id hw s =
     (if inside_fls s = None then (TLS_FLS_STATUS_EPERM, [], s)
      else
        let (rid, s) = readRID hw (fls_acquire s)
        in case uid_bytes rid of
             None \<Rightarrow> (-1, replicate 18 0xFF, fls_release s)
           | Some uni_bytes \<Rightarrow>
               let len = 4 + uni_bytes;
                   s = flash_start hw (flash_cmd (0xC04B OR push_bit 16 (of_nat len - 1)) s);
                   FLASH_BUF = map (rsa s) [0..<4 * (len div 4)];
                   uuid = copy_into (replicate 18 0xFF) 0 [rid, of_nat uni_bytes] 2;
                   uuid = copy_into uuid 2 (drop 4 FLASH_BUF) uni_bytes
               in (0, uuid, fls_release s))"

section \<open>Security registers\<close>

text \<open>The bytes copied out of the buffer window: a head up to the next word boundary, whole
  words, a tail.\<close>

definition otp_copy :: "(nat \<Rightarrow> u8) \<Rightarrow> nat \<Rightarrow> nat \<Rightarrow> u8 list" where
  "otp_copy b addr_offset len =
     (let addr_read = addr_offset div 4 * 4;
          i = (4 - addr_offset mod 4) mod 4;
          byte = (if i > len then len else i);
          head = (if byte \<noteq> 0 then map b [addr_read + 4 - i..<addr_read + 4 - i + byte] else []);
          addr_read = (if byte \<noteq> 0 then addr_read + 4 else addr_read);
          word = (len - byte) div 4;
          body = map b [addr_read..<addr_read + 4 * word];
          addr_read = addr_read + 4 * word;
          rest = (len - byte) mod 4
      in head @ body @ (if rest > 0 then map b [addr_read..<addr_read + rest] else []))"

definition tls_fls_otp_read ::
    "'c flash_hw \<Rightarrow> nat \<Rightarrow> bool \<Rightarrow> nat \<Rightarrow> 'c fls \<Rightarrow> int \<times> u8 list \<times> 'c fls" where
  "tls_fls_otp_read hw addr buf_null len s =
     (if inside_fls s = None then (TLS_FLS_STATUS_EPERM, [], s)
      else
        let s = fls_acquire s;
            addr_offset = (if buf_null then 0 else addr mod 16);
            sz_need = (if buf_null then len else (addr_offset + len + 16) div 16 * 16);
            addr = (if buf_null then addr else addr div 16 * 16);
            s = flash_cmd (0xBC00C048 OR push_bit 16 ((of_nat sz_need - 1) AND 0x3FF)) s;
            s = flash_set_addr addr s;
            s = flash_start hw s
        in (TLS_FLS_STATUS_OK, if buf_null then [] else otp_copy (rsa s) addr_offset len, fls_release s))"

partial_function (option) otp_backup ::
    "'c flash_hw \<Rightarrow> nat \<Rightarrow> nat \<Rightarrow> nat \<Rightarrow> u8 list \<Rightarrow> 'c fls \<Rightarrow> (u8 list \<times> 'c fls) option" where
  "otp_backup hw pageSize p n acc s =
     (if n > 0 then
        let l = (if n > pageSize then pageSize else n);
            (_, bs, s) = tls_fls_otp_read hw p False l s
        in otp_backup hw pageSize (p + l) (n - l) (acc @ bs) s
      else Some (acc, s))"

partial_function (option) otp_program ::
    "'c flash_hw \<Rightarrow> nat \<Rightarrow> nat \<Rightarrow> u8 list \<Rightarrow> nat \<Rightarrow> 'c fls \<Rightarrow> 'c fls option" where
  "otp_program hw pageSize p q n s =
     (if n > 0 then
        let l = (if n > pageSize then pageSize else n)
        in do {
          s \<leftarrow> programSR hw 0x80009042 p q l s;
          otp_program hw pageSize (p + l) (drop l q) (n - l) s
        }
      else Some s)"

definition tls_fls_otp_write ::
    "'c flash_hw \<Rightarrow> bool \<Rightarrow> nat \<Rightarrow> u8 list option \<Rightarrow> nat \<Rightarrow> 'c fls \<Rightarrow> (int \<times> 'c fls) option" where
  "tls_fls_otp_write hw alloc_ok addr buf len s =
     (case (buf, inside_fls s) of
        (None, _) \<Rightarrow> Some (TLS_FLS_STATUS_EINVAL, s)
      | (_, None) \<Rightarrow> Some (TLS_FLS_STATUS_EPERM, s)
      | (Some buf, Some f) \<Rightarrow>
          let eraseSize = otp_eraseSize f;
              pageSize = otp_pageSize f
          in if eraseSize = 0 \<or> pageSize = 0 then Some (TLS_FLS_STATUS_ENOSUPPORT, s)
             else
               let eraseAddr = unat (of_nat addr AND NOT (of_nat eraseSize - 1) :: u32)
               in if addr < eraseAddr \<or> len > eraseSize - (addr - eraseAddr) then Some (TLS_FLS_STATUS_EINVAL, s)
                  else if \<not> alloc_ok then Some (TLS_FLS_STATUS_ENOMEM, s)
                  else do {
                    (backbuf, s) \<leftarrow> otp_backup hw pageSize eraseAddr eraseSize [] s;
                    s \<leftarrow> otp_program hw pageSize eraseAddr (copy_into backbuf (addr - eraseAddr) buf len) eraseSize
                           (eraseSR hw 0x80000844 eraseAddr (fls_acquire s));
                    Some (0, fls_release s)
                  })"

definition tls_fls_otp_lock :: "'c flash_hw \<Rightarrow> 'c fls \<Rightarrow> int \<times> 'c fls" where
  "tls_fls_otp_lock hw s =
     (case inside_fls s of
        None \<Rightarrow> (TLS_FLS_STATUS_EPERM, s)
      | Some f \<Rightarrow>
          let s = fls_acquire s; rid = flashid f
          in if rid = SPIFLASH_MID_GD \<or> rid = SPIFLASH_MID_TSINGTENG then
               (0, fls_release (writeLbBit_for_1wreg hw (push_bit 10 1) s))
             else if rid = SPIFLASH_MID_TSINGTENG_1MB_4MB then
               (0, fls_release (writeLbBit_for_1wreg hw (push_bit 11 7) s))
             else if rid = SPIFLASH_MID_FUDANMICRO then
               (0, fls_release (writeLbBit_for_2wreg hw (push_bit 10 1) s))
             else if rid = SPIFLASH_MID_BOYA \<or> rid = SPIFLASH_MID_XMC \<or> rid = SPIFLASH_MID_WINBOND \<or> rid = SPIFLASH_MID_PUYA then
               (0, fls_release (writeLbBit_for_2wreg hw (push_bit 11 7) s))
             else (TLS_FLS_STATUS_ENOSUPPORT, s))"

section \<open>Lemmas\<close>

lemma map_upt_split: "map b [i..<i + j] @ map b [i + j..<i + j + k] = map b [i..<i + j + (k :: nat)]"
  by (simp add: upt_add_eq_append [of i "i + j" k] flip: map_append)

lemma otp_copy_correct: "otp_copy b off len = map b [off..<off + len]"
proof -
  define i where "i = (4 - off mod 4) mod 4"
  have i: "i = 0 \<and> off div 4 * 4 = off \<or> i \<noteq> 0 \<and> off div 4 * 4 + 4 = off + i"
  proof -
    define r d where "r = off mod 4" and "d = off div 4"
    have "off = d * 4 + r" "r < 4" by (simp_all add: r_def d_def)
    then show ?thesis by (cases "r = 0") (auto simp: i_def r_def [symmetric] d_def [symmetric])
  qed
  define byte where "byte = (if i > len then len else i)"
  have split: "map b [x..<x + 4 * ((len - byte) div 4)] @
      (if (len - byte) mod 4 > 0 then map b [x + 4 * ((len - byte) div 4)..<x + 4 * ((len - byte) div 4) + (len - byte) mod 4] else []) =
      map b [x..<x + (len - byte)]" for x
  proof (cases "(len - byte) mod 4 > 0")
    case True
    then show ?thesis
      using map_upt_split [of b x "4 * ((len - byte) div 4)" "(len - byte) mod 4"] by (simp add: add.assoc)
  next
    case False
    then have "4 * ((len - byte) div 4) = len - byte" using mult_div_mod_eq [of 4 "len - byte"] by simp
    then show ?thesis using False by simp
  qed
  have "otp_copy b off len =
      (if byte \<noteq> 0 then map b [off div 4 * 4 + 4 - i..<off div 4 * 4 + 4 - i + byte] else []) @
      map b [(if byte \<noteq> 0 then off div 4 * 4 + 4 else off div 4 * 4)..<(if byte \<noteq> 0 then off div 4 * 4 + 4 else off div 4 * 4) + (len - byte)]"
    by (simp only: otp_copy_def Let_def i_def [symmetric] byte_def [symmetric] split)
  also have "\<dots> = map b [off..<off + len]"
  proof (cases "byte = 0")
    case True
    then have "i = 0 \<or> len = 0" by (auto simp: byte_def split: if_splits)
    then show ?thesis using True i by auto
  next
    case False
    then have "i \<noteq> 0" by (auto simp: byte_def split: if_splits)
    with i have a: "off div 4 * 4 + 4 = off + i" by simp
    show ?thesis
    proof (cases "i > len")
      case True
      then have "byte = len" by (simp add: byte_def)
      with a False show ?thesis by simp
    next
      case le: False
      then have "byte = i" by (simp add: byte_def)
      with a False le map_upt_split [of b off i "len - i"] show ?thesis by (simp add: add.assoc)
    qed
  qed
  finally show ?thesis .
qed

section \<open>Status registers\<close>

lemma less_8: "n < 8 \<longleftrightarrow> n = 0 \<or> n = 1 \<or> n = 2 \<or> n = 3 \<or> n = 4 \<or> n = 5 \<or> n = 6 \<or> n = (7 :: nat)"
  by auto

text \<open>The status word assembled from the two registers.\<close>

definition sr_word :: "u8 \<Rightarrow> u8 \<Rightarrow> u32" where
  "sr_word x y = ucast x OR push_bit 8 (ucast y)"

lemma bit_sr_word: "bit (sr_word x y) n \<longleftrightarrow> (n < 8 \<and> bit x n \<or> 8 \<le> n \<and> bit y (n - 8))"
proof -
  have "bit x n \<Longrightarrow> n < 8" "bit y (n - 8) \<Longrightarrow> n - 8 < 8" using bit_imp_le_length [of x n] bit_imp_le_length [of y "n - 8"] by auto
  then show ?thesis by (auto simp: sr_word_def bit_or_iff bit_push_bit_iff bit_ucast_iff)
qed

lemma rsa_word_low: "rsa_word b k AND 0xFF = ucast (b k)"
proof (rule bit_eqI)
  fix n assume "possible_bit TYPE(32 word) n"
  have "bit (b k) n \<Longrightarrow> n < 8" using bit_imp_le_length [of "b k" n] by simp
  then show "bit (rsa_word b k AND 0xFF) n \<longleftrightarrow> bit (ucast (b k) :: u32) n"
    by (auto simp: u8_mask bit_and_iff bit_mask_iff rsa_word_def bit_or_iff bit_push_bit_iff bit_ucast_iff)
qed

lemma write_first_bytes [simp]:
  "rsa (write_first_value v s) 0 = ucast v" "rsa (write_first_value v s) (Suc 0) = ucast (drop_bit 8 v)"
  by (simp_all add: write_first_value_def rsa_store_def)

text \<open>What the read-modify-write of the protection bits does to the two registers, for the
  two patterns the driver uses.\<close>

lemma bp_write:
  assumes "bp = 0 \<or> bp = (0x68 :: u32)"
  shows "(ucast ((sr_word x y AND 0xBF83) OR bp) :: u8) = (x AND 0x83) OR ucast bp"
    and "(ucast (drop_bit 8 ((sr_word x y AND 0xBF83) OR bp)) :: u8) = y AND 0xBF"
    and "(ucast ((sr_word x y AND 0x83) OR bp) :: u8) = (x AND 0x83) OR ucast bp"
    and "(ucast (drop_bit 8 (sr_word x y) AND 0xBF) :: u8) = y AND 0xBF"
  by (rule bit_eqI; use assms in \<open>auto simp: less_8 bit_ucast_iff bit_and_iff bit_or_iff bit_drop_bit_eq bit_sr_word\<close>)+

lemma bp_same:
  assumes bp: "bp = 0 \<or> bp = (0x68 :: u32)"
  shows "sr_word x y AND 0x7C = bp \<Longrightarrow> (x AND 0x83) OR ucast bp = x"
    and "sr_word x y AND 0x4000 = 0 \<Longrightarrow> y AND 0xBF = y"
proof -
  assume eq: "sr_word x y AND 0x7C = bp"
  then have b: "bit (sr_word x y AND 0x7C) n = bit bp n" for n by simp
  show "(x AND 0x83) OR ucast bp = x"
    by (rule bit_eqI) (use bp b [of 2] b [of 3] b [of 4] b [of 5] b [of 6] in
      \<open>auto simp: less_8 bit_ucast_iff bit_and_iff bit_or_iff bit_sr_word\<close>)
next
  assume "sr_word x y AND 0x4000 = 0"
  then have "bit (sr_word x y AND 0x4000) 14 = bit (0 :: u32) 14" by simp
  then show "y AND 0xBF = y"
    by (intro bit_eqI) (auto simp: less_8 bit_and_iff bit_sr_word)
qed

lemma sr_split: "sr_word x y AND 0x407C = bp \<Longrightarrow> bp = 0 \<or> bp = 0x68 \<Longrightarrow> sr_word x y AND 0x7C = bp \<and> sr_word x y AND 0x4000 = 0"
proof -
  assume eq: "sr_word x y AND 0x407C = bp" and bp: "bp = 0 \<or> bp = 0x68"
  have "sr_word x y AND 0x7C = (sr_word x y AND 0x407C) AND 0x7C" "sr_word x y AND 0x4000 = (sr_word x y AND 0x407C) AND 0x4000"
    by (simp_all add: and.assoc)
  with eq bp show ?thesis by auto
qed

lemma bit_0x4000: "bit (0x4000 :: u32) n \<longleftrightarrow> n = 14"
proof -
  have "(0x4000 :: u32) = BIT 14" by (simp add: BIT_def)
  then show ?thesis by (simp only: bit_BIT) simp
qed

lemma ucast_ucast_u8: "ucast (ucast x :: u32) = x" for x :: u8
  by (rule bit_eqI) (simp add: bit_ucast_iff)

text \<open>The registers have the protection bits \<open>bp\<close>, CMP is clear and every other bit (the
  quad enable bit QE among them) is as before.\<close>

definition sr_protects :: "('c \<Rightarrow> u8) \<Rightarrow> ('c \<Rightarrow> u8) \<Rightarrow> u8 \<Rightarrow> 'c \<Rightarrow> 'c \<Rightarrow> bool" where
  "sr_protects sr1 sr2 bp c c' \<longleftrightarrow> sr1 c' = (sr1 c AND 0x83) OR bp \<and> sr2 c' = sr2 c AND 0xBF"

context spi_nor_sr
begin

lemma read_sr_spec:
  "fst (read_sr hw s) = sr_word (sr1 (chip s)) (sr2 (chip s))"
  "chip (snd (read_sr hw s)) = chip s" "drv (snd (read_sr hw s)) = drv s"
  by (simp_all add: read_sr_def Let_def read_first_value_def rsa_word_low sr_word_def chip_start rsa_start
      sr1_read sr1_chip sr2_read sr2_chip)

lemma readRID_spec:
  "fst (readRID hw s) = rid (chip s)" "chip (snd (readRID hw s)) = chip s" "drv (snd (readRID hw s)) = drv s"
  by (simp_all add: readRID_def Let_def read_first_value_def rsa_word_low chip_start rsa_start rid_read rid_chip ucast_ucast_u8)

lemma enable_spec [simp]:
  "wel (chip (flash_start hw (flash_cmd 6 s)))" "mem (chip (flash_start hw (flash_cmd 6 s))) = mem (chip s)"
  "sr1 (chip (flash_start hw (flash_cmd 6 s))) = sr1 (chip s)" "sr2 (chip (flash_start hw (flash_cmd 6 s))) = sr2 (chip s)"
  by (simp_all add: chip_start enable_wel enable_mem enable_sr)

lemma bp_1wreg:
  fixes s :: "'c fls"
  assumes bp: "bp_bits bp4 bp3 bp2 bp1 bp0 = bp" "bp = 0 \<or> bp = 0x68"
  defines "s' \<equiv> writeBpBit_for_1wreg hw 0 bp4 bp3 bp2 bp1 bp0 s"
  shows "sr_protects sr1 sr2 (ucast bp) (chip s) (chip s') \<and> mem (chip s') = mem (chip s) \<and> drv s' = drv s"
proof -
  obtain s1 where s1: "read_sr hw s = (sr_word (sr1 (chip s)) (sr2 (chip s)), s1)" "chip s1 = chip s" "drv s1 = drv s"
    using read_sr_spec [of s] by (cases "read_sr hw s") auto
  let ?w = "sr_word (sr1 (chip s)) (sr2 (chip s))"
  show ?thesis
  proof (cases "?w AND 0x407C = bp")
    case True
    then have "s' = s1" by (simp add: s'_def writeBpBit_for_1wreg_def s1(1) bp(1))
    with sr_split [OF True bp(2)] s1 show ?thesis
      using bp_same [OF bp(2), of "sr1 (chip s)" "sr2 (chip s)"] by (simp add: sr_protects_def)
  next
    case False
    let ?s2 = "write_first_value ((?w AND 0xBF83) OR bp) (flash_start hw (flash_cmd 6 s1))"
    have "s' = flash_start hw (flash_cmd 0x1A001 ?s2)"
      using False by (simp add: s'_def writeBpBit_for_1wreg_def s1(1) bp(1) Let_def)
    then show ?thesis using s1 bp_write(1,2) [OF bp(2)]
      by (simp add: sr_protects_def chip_start [of hw "flash_cmd 0x1A001 ?s2"] write_both)
  qed
qed

lemma bp_2wreg:
  fixes s :: "'c fls"
  assumes bp: "bp_bits bp4 bp3 bp2 bp1 bp0 = bp" "bp = 0 \<or> bp = 0x68"
  defines "s' \<equiv> writeBpBit_for_2wreg hw 0 bp4 bp3 bp2 bp1 bp0 s"
  shows "sr_protects sr1 sr2 (ucast bp) (chip s) (chip s') \<and> mem (chip s') = mem (chip s) \<and> drv s' = drv s"
proof -
  obtain s1 where s1: "read_sr hw s = (sr_word (sr1 (chip s)) (sr2 (chip s)), s1)" "chip s1 = chip s" "drv s1 = drv s"
    using read_sr_spec [of s] by (cases "read_sr hw s") auto
  let ?w = "sr_word (sr1 (chip s)) (sr2 (chip s))"
  let ?a = "flash_cmd 0xA001 (write_first_value ((?w AND 0x83) OR bp) (flash_start hw (flash_cmd 6 s1)))"
  define s2 where "s2 = (if bp \<noteq> ?w AND 0x7C then flash_start hw ?a else s1)"
  have s2: "sr1 (chip s2) = (sr1 (chip s) AND 0x83) OR ucast bp" "sr2 (chip s2) = sr2 (chip s)" "mem (chip s2) = mem (chip s)" "drv s2 = drv s"
    using s1 bp_write(3) [OF bp(2)] bp_same(1) [OF bp(2)] by (auto simp: s2_def chip_start [of hw ?a] write_sr1)
  let ?b = "flash_cmd 0xA031 (write_first_value (drop_bit 8 ?w AND 0xBF) (flash_start hw (flash_cmd 6 s2)))"
  have s': "s' = (if drop_bit 8 (?w AND 0x4000) \<noteq> 0 then flash_start hw ?b else s2)"
    by (simp add: s'_def writeBpBit_for_2wreg_def s1(1) bp(1) Let_def s2_def)
  have "?w AND 0x4000 = 0" if "drop_bit 8 (?w AND 0x4000) = 0"
  proof (rule bit_eqI)
    fix n
    have "bit (drop_bit 8 (?w AND 0x4000)) 6 = bit (0 :: u32) 6" using that by simp
    then have "\<not> bit ?w 14" by (simp add: bit_drop_bit_eq bit_and_iff)
    then show "bit (?w AND 0x4000) n = bit (0 :: u32) n"
      unfolding bit_and_iff bit_0x4000 by auto
  qed
  then show ?thesis using s2 bp_write(4) [OF bp(2)] bp_same(2) [OF bp(2)]
    by (auto simp: s' sr_protects_def chip_start [of hw ?b] write_sr2)
qed

end

lemma sr_protects_bits:
  assumes "sr_protects sr1 sr2 bp c c'" "bp = 0 \<or> bp = 0x68"
  shows "sr1 c' AND 0x7C = bp" "sr2 c' AND 0x40 = 0"
  using assms
  by (auto simp: sr_protects_def intro!: bit_eqI)
     (auto simp: less_8 bit_and_iff bit_or_iff)

text \<open>The chips whose protection bits the driver knows (ESMT has its own register layout).\<close>

definition sr_chips :: "u8 list" where
  "sr_chips = [SPIFLASH_MID_GD, SPIFLASH_MID_TSINGTENG, SPIFLASH_MID_PUYA, SPIFLASH_MID_TSINGTENG_1MB_4MB,
     SPIFLASH_MID_XTX, SPIFLASH_MID_BOYA, SPIFLASH_MID_FUDANMICRO, SPIFLASH_MID_XMC]"

context spi_nor_sr
begin

lemma flashunlock_spec:
  assumes "rid (chip s) \<in> set sr_chips"
  shows "\<exists>s'. flashunlock hw s = (0, s') \<and> sr_protects sr1 sr2 0 (chip s) (chip s') \<and> mem (chip s') = mem (chip s) \<and> drv s' = drv s"
proof -
  obtain s1 where s1: "readRID hw s = (rid (chip s), s1)" "chip s1 = chip s" "drv s1 = drv s"
    using readRID_spec [of s] by (cases "readRID hw s") auto
  have bp: "bp_bits 0 0 0 0 0 = 0" by (simp add: bp_bits_def)
  show ?thesis using assms bp_1wreg [OF bp, of s1] bp_2wreg [OF bp, of s1] s1
    by (auto simp: flashunlock_def sr_chips_def)
qed

lemma flashlock_spec:
  assumes "rid (chip s) \<in> set sr_chips"
  shows "\<exists>s'. flashlock hw s = (0, s') \<and> sr_protects sr1 sr2 0x68 (chip s) (chip s') \<and> mem (chip s') = mem (chip s) \<and> drv s' = drv s"
proof -
  obtain s1 where s1: "readRID hw s = (rid (chip s), s1)" "chip s1 = chip s" "drv s1 = drv s"
    using readRID_spec [of s] by (cases "readRID hw s") auto
  have bp: "bp_bits 1 1 0 1 0 = 0x68" by (simp add: bp_bits_def)
  show ?thesis using assms bp_1wreg [OF bp, of s1] bp_2wreg [OF bp, of s1] s1
    by (auto simp: flashlock_def sr_chips_def)
qed

lemma lock_unlock_spec:
  assumes "inside_fls s = Some f" "rid (chip s) \<in> set sr_chips"
  shows "\<exists>s'. tls_flash_unlock hw s = (0, s') \<and> (\<forall>x. \<not> prot (chip s') x) \<and>
      sr_protects sr1 sr2 0 (chip s) (chip s') \<and> mem (chip s') = mem (chip s) \<and> drv s' = drv s"
    and "\<exists>s'. tls_flash_lock hw s = (0, s') \<and> (\<forall>x. prot (chip s') x \<longleftrightarrow> x < 0x2000) \<and>
      sr_protects sr1 sr2 0x68 (chip s) (chip s') \<and> mem (chip s') = mem (chip s) \<and> drv s' = drv s"
proof -
  obtain s1 where "flashunlock hw (fls_acquire s) = (0, s1)" "sr_protects sr1 sr2 0 (chip s) (chip s1)"
    "mem (chip s1) = mem (chip s)" "drv s1 = drv (fls_acquire s)"
    using flashunlock_spec [of "fls_acquire s"] assms(2) by auto
  then show "\<exists>s'. tls_flash_unlock hw s = (0, s') \<and> (\<forall>x. \<not> prot (chip s') x) \<and>
      sr_protects sr1 sr2 0 (chip s) (chip s') \<and> mem (chip s') = mem (chip s) \<and> drv s' = drv s"
    using assms(1) sr_protects_bits [of sr1 sr2 0 "chip s" "chip s1"] prot_none [of "chip s1"] drv_release
    by (auto simp: tls_flash_unlock_def)
next
  obtain s1 where "flashlock hw (fls_acquire s) = (0, s1)" "sr_protects sr1 sr2 0x68 (chip s) (chip s1)"
    "mem (chip s1) = mem (chip s)" "drv s1 = drv (fls_acquire s)"
    using flashlock_spec [of "fls_acquire s"] assms(2) by auto
  then show "\<exists>s'. tls_flash_lock hw s = (0, s') \<and> (\<forall>x. prot (chip s') x \<longleftrightarrow> x < 0x2000) \<and>
      sr_protects sr1 sr2 0x68 (chip s) (chip s') \<and> mem (chip s') = mem (chip s) \<and> drv s' = drv s"
    using assms(1) sr_protects_bits [of sr1 sr2 "0x68" "chip s" "chip s1"] prot_low [of "chip s1"] drv_release
    by (auto simp: tls_flash_lock_def)
qed

end

context spi_nor_otp
begin

lemma otp_read_spec:
  assumes "inside_fls s = Some f" "addr < 0x2000000" "(addr mod 16 + len + 16) div 16 * 16 \<le> 1024"
  shows "\<exists>s'. tls_fls_otp_read hw addr False len s = (0, mem_read (otp (chip s)) addr len, s') \<and>
    chip s' = chip s \<and> drv s' = drv s"
proof -
  define j where "j = addr mod 16"
  define n where "n = (j + len + 16) div 16 * 16"
  have n: "0 < n" "n \<le> 1024" "j + len < n" using assms(3) by (auto simp: n_def j_def)
  have "(of_nat n - 1 :: u32) AND 0x3FF = of_nat n - 1" using unat_len [OF n(1,2)] n(2) by (intro and_0x3FF) simp
  moreover have "addr div 16 * 16 mod 0x2000000 = addr div 16 * 16"
    using assms(2) div_times_less_eq_dividend [of addr 16] by (intro mod_less) linarith
  moreover define s1 where "s1 = flash_start hw (flash_set_addr (addr div 16 * 16)
      (flash_cmd (0xBC00C048 OR push_bit 16 (of_nat n - 1)) (fls_acquire s)))"
  ultimately have s1: "tls_fls_otp_read hw addr False len s = (0, otp_copy (rsa s1) j len, fls_release s1)"
    "rsa s1 = snd (hw (0xBC00C048 OR push_bit 16 (of_nat n - 1)) (addr div 16 * 16) (rsa (fls_acquire s)) (chip s))"
    "chip s1 = fst (hw (0xBC00C048 OR push_bit 16 (of_nat n - 1)) (addr div 16 * 16) (rsa (fls_acquire s)) (chip s))"
    "drv s1 = drv (fls_acquire s)"
    using assms(1) by (simp_all only: tls_fls_otp_read_def Let_def j_def [symmetric] n_def [symmetric] if_False option.simps)
      (simp_all add: chip_start rsa_start)
  have "map (rsa s1) [j..<j + len] = mem_read (otp (chip s)) addr len"
  proof (rule nth_equalityI)
    fix i assume "i < length (map (rsa s1) [j..<j + len])"
    then have "i < len" by simp
    moreover have "addr div 16 * 16 + (j + i) = addr + i" by (simp add: j_def)
    ultimately show "map (rsa s1) [j..<j + len] ! i = mem_read (otp (chip s)) addr len ! i"
      using n s1(2) otp_read_buf [OF n(1,2), of "j + i"] by (simp add: add.assoc [symmetric])
  qed simp
  with s1 otp_read_chip [OF n(1,2)] show ?thesis by (simp add: otp_copy_correct drv_release)
qed

end

section \<open>Properties\<close>

text \<open>C33. \<^verbatim>\<open>tls_flash_unlock\<close> makes every address writable and \<^verbatim>\<open>tls_flash_lock\<close> protects exactly
  the first 8 KiB, on every chip whose status registers the driver knows; both keep every
  status bit that is not a protection bit (the quad enable bit in particular), the contents
  and the semaphore.\<close>

theorem flash_lock_unlock:
  assumes "spi_nor_sr hw mem wel prot cap rid sr1 sr2" "inside_fls s = Some f" "rid (chip s) \<in> set sr_chips"
  shows "(\<exists>s'. tls_flash_unlock hw s = (0, s') \<and> (\<forall>x. \<not> prot (chip s') x) \<and>
      sr_protects sr1 sr2 0 (chip s) (chip s') \<and> mem (chip s') = mem (chip s) \<and> drv s' = drv s) \<and>
    (\<exists>s'. tls_flash_lock hw s = (0, s') \<and> (\<forall>x. prot (chip s') x \<longleftrightarrow> x < 0x2000) \<and>
      sr_protects sr1 sr2 0x68 (chip s) (chip s') \<and> mem (chip s') = mem (chip s) \<and> drv s' = drv s)"
  using spi_nor_sr.lock_unlock_spec [OF assms] by blast

theorem flash_lock_unlock_witness:
  "\<exists>s'. tls_flash_lock nor_hw demo_fls = (0, s') \<and> nor_prot (chip s') 0x1FFF \<and> \<not> nor_prot (chip s') 0x2000"
proof -
  have "ucast (jedec (chip demo_fls)) \<in> set sr_chips" by (simp add: demo_fls_def sr_chips_def)
  from flash_lock_unlock [OF nor.spi_nor_sr_axioms _ this] show ?thesis by auto
qed

text \<open>\<^verbatim>\<open>tls_fls_otp_read\<close> reads whole 16 byte lines and copies words out of the buffer
  window, yet delivers exactly the bytes \<open>addr\<close> to \<open>addr + len - 1\<close> of the security
  registers for every alignment and length that fits the window.\<close>

theorem otp_read_correct:
  assumes "spi_nor_otp hw mem wel prot cap otp" "inside_fls s = Some f" "addr < 0x2000000"
    "(addr mod 16 + len + 16) div 16 * 16 \<le> 1024"
  shows "\<exists>s'. tls_fls_otp_read hw addr False len s = (TLS_FLS_STATUS_OK, mem_read (otp (chip s)) addr len, s') \<and>
    chip s' = chip s \<and> drv s' = drv s"
  using spi_nor_otp.otp_read_spec [OF assms] .

theorem otp_read_correct_witness:
  "\<exists>s'. tls_fls_otp_read nor_hw 0x1003 False 6 demo_fls = (0, mem_read (security (chip demo_fls)) 0x1003 6, s')"
  using otp_read_correct [OF nor.spi_nor_otp_axioms, of demo_fls _ "0x1003" 6] by auto

text \<open>\<^verbatim>\<open>tls_fls_otp_lock\<close> gives the driver semaphore back exactly on the chips it supports:
  on an XTX or ESMT chip, which \<^verbatim>\<open>tls_fls_init\<close> accepts, it returns with the semaphore taken,
  and the next flash operation waits forever.\<close>

theorem otp_lock_semaphore:
  assumes "inside_fls s = Some f"
  shows "sem_taken (snd (tls_fls_otp_lock hw s)) =
    sem_taken s + (if flashid f \<in> set [SPIFLASH_MID_GD, SPIFLASH_MID_TSINGTENG, SPIFLASH_MID_TSINGTENG_1MB_4MB,
        SPIFLASH_MID_FUDANMICRO, SPIFLASH_MID_BOYA, SPIFLASH_MID_XMC, SPIFLASH_MID_WINBOND, SPIFLASH_MID_PUYA]
      then 0 else 1)"
proof -
  have 1: "drv (writeLbBit_for_1wreg hw v s) = drv s" for v s
    by (simp add: writeLbBit_for_1wreg_def read_sr_def Let_def)
  have 2: "drv (writeLbBit_for_2wreg hw v s) = drv s" for v s
    by (simp add: writeLbBit_for_2wreg_def read_sr_def Let_def)
  have r: "sem_taken (fls_release s') = sem_taken s" if "drv s' = drv (fls_acquire s)" for s'
    using drv_eq_fields(3) [OF drv_release [OF that]] .
  show ?thesis using assms r [OF 1] r [OF 2]
    by (simp add: tls_fls_otp_lock_def Let_def) (simp add: fls_acquire_def)
qed

theorem otp_lock_semaphore_witness:
  "sem_taken (snd (tls_fls_otp_lock nor_hw (demo_fls\<lparr>inside_fls := Some \<lparr>flashid = SPIFLASH_MID_XTX, density = 0x200000,
     otp_eraseSize = 0, otp_pageSize = 256\<rparr>\<rparr>))) = 1"
  using otp_lock_semaphore [of "demo_fls\<lparr>inside_fls := Some \<lparr>flashid = SPIFLASH_MID_XTX, density = 0x200000,
     otp_eraseSize = 0, otp_pageSize = 256\<rparr>\<rparr>" "\<lparr>flashid = SPIFLASH_MID_XTX, density = 0x200000,
     otp_eraseSize = 0, otp_pageSize = 256\<rparr>" nor_hw] by (simp add: demo_fls_def)

end
