(* ===== verification/Crc.thy ===== *)
theory Crc
  imports Mcu_Prelude
begin

text \<open>
  The checksums of \<^verbatim>\<open>platform/common/utils/platform_utils.c\<close>: a table-driven CRC-8, the
  CRC-32 that protects firmware images and parameters, computed eight bits at a time by
  32 exclusive-or equations, and a 32-bit sum. Both CRCs are proved equal to bit-serial
  reference definitions; the CRC-32 proof uses that both sides are linear over
  exclusive or, so that it is enough to compare them on the words with a single bit.
\<close>

unbundle bit_operations_syntax

section \<open>CRC-8\<close>

definition crc8_tbl :: "u8 list" where
  "crc8_tbl =
    [0x00, 0x91, 0xe3, 0x72, 0x07, 0x96, 0xe4, 0x75, 0x0e, 0x9f, 0xed, 0x7c, 0x09, 0x98, 0xea, 0x7b,
     0x1c, 0x8d, 0xff, 0x6e, 0x1b, 0x8a, 0xf8, 0x69, 0x12, 0x83, 0xf1, 0x60, 0x15, 0x84, 0xf6, 0x67,
     0x38, 0xa9, 0xdb, 0x4a, 0x3f, 0xae, 0xdc, 0x4d, 0x36, 0xa7, 0xd5, 0x44, 0x31, 0xa0, 0xd2, 0x43,
     0x24, 0xb5, 0xc7, 0x56, 0x23, 0xb2, 0xc0, 0x51, 0x2a, 0xbb, 0xc9, 0x58, 0x2d, 0xbc, 0xce, 0x5f,
     0x70, 0xe1, 0x93, 0x02, 0x77, 0xe6, 0x94, 0x05, 0x7e, 0xef, 0x9d, 0x0c, 0x79, 0xe8, 0x9a, 0x0b,
     0x6c, 0xfd, 0x8f, 0x1e, 0x6b, 0xfa, 0x88, 0x19, 0x62, 0xf3, 0x81, 0x10, 0x65, 0xf4, 0x86, 0x17,
     0x48, 0xd9, 0xab, 0x3a, 0x4f, 0xde, 0xac, 0x3d, 0x46, 0xd7, 0xa5, 0x34, 0x41, 0xd0, 0xa2, 0x33,
     0x54, 0xc5, 0xb7, 0x26, 0x53, 0xc2, 0xb0, 0x21, 0x5a, 0xcb, 0xb9, 0x28, 0x5d, 0xcc, 0xbe, 0x2f,
     0xe0, 0x71, 0x03, 0x92, 0xe7, 0x76, 0x04, 0x95, 0xee, 0x7f, 0x0d, 0x9c, 0xe9, 0x78, 0x0a, 0x9b,
     0xfc, 0x6d, 0x1f, 0x8e, 0xfb, 0x6a, 0x18, 0x89, 0xf2, 0x63, 0x11, 0x80, 0xf5, 0x64, 0x16, 0x87,
     0xd8, 0x49, 0x3b, 0xaa, 0xdf, 0x4e, 0x3c, 0xad, 0xd6, 0x47, 0x35, 0xa4, 0xd1, 0x40, 0x32, 0xa3,
     0xc4, 0x55, 0x27, 0xb6, 0xc3, 0x52, 0x20, 0xb1, 0xca, 0x5b, 0x29, 0xb8, 0xcd, 0x5c, 0x2e, 0xbf,
     0x90, 0x01, 0x73, 0xe2, 0x97, 0x06, 0x74, 0xe5, 0x9e, 0x0f, 0x7d, 0xec, 0x99, 0x08, 0x7a, 0xeb,
     0x8c, 0x1d, 0x6f, 0xfe, 0x8b, 0x1a, 0x68, 0xf9, 0x82, 0x13, 0x61, 0xf0, 0x85, 0x14, 0x66, 0xf7,
     0xa8, 0x39, 0x4b, 0xda, 0xaf, 0x3e, 0x4c, 0xdd, 0xa6, 0x37, 0x45, 0xd4, 0xa1, 0x30, 0x42, 0xd3,
     0xb4, 0x25, 0x57, 0xc6, 0xb3, 0x22, 0x50, 0xc1, 0xba, 0x2b, 0x59, 0xc8, 0xbd, 0x2c, 0x5e, 0xcf]"

fun calculate_crc8 :: "u8 \<Rightarrow> u8 list \<Rightarrow> u8" where
  "calculate_crc8 crc8 [] = crc8"
| "calculate_crc8 crc8 (data # ptr) = calculate_crc8 (crc8_tbl ! unat (crc8 XOR data)) ptr"

definition get_crc8 :: "u8 list \<Rightarrow> u8" where
  "get_crc8 ptr = calculate_crc8 0 ptr"

definition chk_crc8 :: "u8 list \<Rightarrow> int" where
  "chk_crc8 ptr = (if calculate_crc8 0 ptr = 0 then 0 else -1)"

section \<open>CRC-32\<close>

text \<open>Row i lists the indices of \<^verbatim>\<open>in_data_buf\<close> and of \<^verbatim>\<open>crc_buf\<close> that the line of
  \<^verbatim>\<open>crc_out[i]\<close> combines.\<close>

definition crc_rows :: "(nat list \<times> nat list) list" where
  "crc_rows =
    [([1, 7], [30, 24]),
     ([0, 1, 6, 7], [31, 30, 25, 24]),
     ([0, 1, 5, 6, 7], [31, 30, 26, 25, 24]),
     ([0, 4, 5, 6], [31, 27, 26, 25]),
     ([1, 3, 4, 5, 7], [30, 28, 27, 26, 24]),
     ([0, 1, 2, 3, 4, 6, 7], [31, 30, 29, 28, 27, 25, 24]),
     ([0, 1, 2, 3, 5, 6], [31, 30, 29, 28, 26, 25]),
     ([0, 2, 4, 5, 7], [31, 29, 27, 26, 24]),
     ([3, 4, 6, 7], [28, 27, 25, 24, 0]),
     ([2, 3, 5, 6], [29, 28, 26, 25, 1]),
     ([2, 4, 5, 7], [29, 27, 26, 24, 2]),
     ([3, 4, 6, 7], [28, 27, 25, 24, 3]),
     ([1, 2, 3, 5, 6, 7], [30, 29, 28, 26, 25, 24, 4]),
     ([0, 1, 2, 4, 5, 6], [31, 30, 29, 27, 26, 25, 5]),
     ([0, 1, 3, 4, 5], [31, 30, 28, 27, 26, 6]),
     ([0, 2, 3, 4], [31, 29, 28, 27, 7]),
     ([2, 3, 7], [29, 28, 24, 8]),
     ([1, 2, 6], [30, 29, 25, 9]),
     ([0, 1, 5], [31, 30, 26, 10]),
     ([0, 4], [31, 27, 11]),
     ([3], [28, 12]),
     ([2], [29, 13]),
     ([7], [24, 14]),
     ([1, 6, 7], [30, 25, 24, 15]),
     ([0, 5, 6], [31, 26, 25, 16]),
     ([4, 5], [27, 26, 17]),
     ([1, 3, 4, 7], [30, 28, 27, 24, 18]),
     ([0, 2, 3, 6], [31, 29, 28, 25, 19]),
     ([1, 2, 5], [30, 29, 26, 20]),
     ([0, 1, 4], [31, 30, 27, 21]),
     ([0, 3], [31, 28, 22]),
     ([2], [23, 29])]"

primrec xor_bits :: "'a::len word \<Rightarrow> nat list \<Rightarrow> bool" where
  "xor_bits w [] = False"
| "xor_bits w (k # ks) = (bit w k \<noteq> xor_bits w ks)"

definition crc_out :: "u32 \<Rightarrow> u8 \<Rightarrow> nat \<Rightarrow> bool" where
  "crc_out crc_result data_8 i =
     (xor_bits data_8 (fst (crc_rows ! i)) \<noteq> xor_bits crc_result (snd (crc_rows ! i)))"

definition cal_crc32 :: "u32 \<Rightarrow> u8 \<Rightarrow> u32" where
  "cal_crc32 crc_result data_8 =
     fold (\<lambda>i v. if crc_out crc_result data_8 i then v OR BIT i else v) [0..<32] 0"

definition crc_reverse :: "u32 \<Rightarrow> u32" where
  "crc_reverse crc_result =
     fold (\<lambda>i v. if bit crc_result i then v OR BIT (31 - i) else v) [0..<32] 0"

definition get_crc32 :: "u8 list \<Rightarrow> u32" where
  "get_crc32 data =
     (let crc_result = fold (\<lambda>d r. cal_crc32 r d) data 0xffffffff;
          val = crc_reverse crc_result
      in NOT val)"

section \<open>Sum\<close>

text \<open>The static accumulator of \<^verbatim>\<open>checksum\<close> (64 bits) is passed and returned.\<close>

definition checksum :: "u32 list \<Rightarrow> bool \<Rightarrow> 64 word \<Rightarrow> u32 \<times> 64 word" where
  "checksum data init acc =
     (let acc = (if \<not> init then 0 else acc);
          acc = fold (\<lambda>d s. s + ucast d) data acc
      in (NOT (ucast (drop_bit 32 acc) + ucast acc), acc))"

section \<open>CRC-8 against its bit-serial definition\<close>

text \<open>One step of the reflected CRC-8 with polynomial \<open>x^8 + x^2 + x + 1\<close>.\<close>

fun crc8_serial :: "nat \<Rightarrow> u8 \<Rightarrow> u8" where
  "crc8_serial 0 c = c"
| "crc8_serial (Suc n) c = crc8_serial n (if bit c 0 then drop_bit 1 c XOR 0xE0 else drop_bit 1 c)"

lemma crc8_serial_numeral:
  "crc8_serial (numeral k) c =
     crc8_serial (pred_numeral k) (if bit c 0 then drop_bit 1 c XOR 0xE0 else drop_bit 1 c)"
  by (simp add: numeral_eq_Suc)

text \<open>All bytes in their order, for the comparison entry by entry.\<close>

definition all_bytes :: "u8 list" where
  "all_bytes =
    [0x00, 0x01, 0x02, 0x03, 0x04, 0x05, 0x06, 0x07, 0x08, 0x09, 0x0a, 0x0b, 0x0c, 0x0d, 0x0e, 0x0f,
     0x10, 0x11, 0x12, 0x13, 0x14, 0x15, 0x16, 0x17, 0x18, 0x19, 0x1a, 0x1b, 0x1c, 0x1d, 0x1e, 0x1f,
     0x20, 0x21, 0x22, 0x23, 0x24, 0x25, 0x26, 0x27, 0x28, 0x29, 0x2a, 0x2b, 0x2c, 0x2d, 0x2e, 0x2f,
     0x30, 0x31, 0x32, 0x33, 0x34, 0x35, 0x36, 0x37, 0x38, 0x39, 0x3a, 0x3b, 0x3c, 0x3d, 0x3e, 0x3f,
     0x40, 0x41, 0x42, 0x43, 0x44, 0x45, 0x46, 0x47, 0x48, 0x49, 0x4a, 0x4b, 0x4c, 0x4d, 0x4e, 0x4f,
     0x50, 0x51, 0x52, 0x53, 0x54, 0x55, 0x56, 0x57, 0x58, 0x59, 0x5a, 0x5b, 0x5c, 0x5d, 0x5e, 0x5f,
     0x60, 0x61, 0x62, 0x63, 0x64, 0x65, 0x66, 0x67, 0x68, 0x69, 0x6a, 0x6b, 0x6c, 0x6d, 0x6e, 0x6f,
     0x70, 0x71, 0x72, 0x73, 0x74, 0x75, 0x76, 0x77, 0x78, 0x79, 0x7a, 0x7b, 0x7c, 0x7d, 0x7e, 0x7f,
     0x80, 0x81, 0x82, 0x83, 0x84, 0x85, 0x86, 0x87, 0x88, 0x89, 0x8a, 0x8b, 0x8c, 0x8d, 0x8e, 0x8f,
     0x90, 0x91, 0x92, 0x93, 0x94, 0x95, 0x96, 0x97, 0x98, 0x99, 0x9a, 0x9b, 0x9c, 0x9d, 0x9e, 0x9f,
     0xa0, 0xa1, 0xa2, 0xa3, 0xa4, 0xa5, 0xa6, 0xa7, 0xa8, 0xa9, 0xaa, 0xab, 0xac, 0xad, 0xae, 0xaf,
     0xb0, 0xb1, 0xb2, 0xb3, 0xb4, 0xb5, 0xb6, 0xb7, 0xb8, 0xb9, 0xba, 0xbb, 0xbc, 0xbd, 0xbe, 0xbf,
     0xc0, 0xc1, 0xc2, 0xc3, 0xc4, 0xc5, 0xc6, 0xc7, 0xc8, 0xc9, 0xca, 0xcb, 0xcc, 0xcd, 0xce, 0xcf,
     0xd0, 0xd1, 0xd2, 0xd3, 0xd4, 0xd5, 0xd6, 0xd7, 0xd8, 0xd9, 0xda, 0xdb, 0xdc, 0xdd, 0xde, 0xdf,
     0xe0, 0xe1, 0xe2, 0xe3, 0xe4, 0xe5, 0xe6, 0xe7, 0xe8, 0xe9, 0xea, 0xeb, 0xec, 0xed, 0xee, 0xef,
     0xf0, 0xf1, 0xf2, 0xf3, 0xf4, 0xf5, 0xf6, 0xf7, 0xf8, 0xf9, 0xfa, 0xfb, 0xfc, 0xfd, 0xfe, 0xff]"

lemma all_bytes_nth: "all_bytes ! unat b = b"
proof -
  have u: "[0..<256] = 0 # 1 # [2..<256 :: nat]"
    using upt_conv_Cons [of 0 256] upt_conv_Cons [of 1 256] by (simp add: numeral_2_eq_2)
  have e: "map unat all_bytes = [0..<256]" unfolding all_bytes_def u by simp
  then have l: "length all_bytes = 256" by (metis length_map length_upt diff_zero)
  have b: "unat b < 256" using unsigned_less [of b] by simp
  have "unat (all_bytes ! unat b) = map unat all_bytes ! unat b" using b l by simp
  also have "\<dots> = unat b" unfolding e using b by simp
  finally show ?thesis by (simp only: word_unat_eq_iff)
qed

lemma crc8_tbl_serial_all: "map (crc8_serial 8) all_bytes = crc8_tbl"
  unfolding all_bytes_def crc8_tbl_def list.map by (simp add: crc8_serial_numeral)

lemma crc8_tbl_nth: "crc8_tbl ! unat b = crc8_serial 8 b"
proof -
  have "length all_bytes = 256" by (simp add: all_bytes_def)
  moreover have "unat b < 256" using unsigned_less [of b] by simp
  ultimately show ?thesis by (simp add: crc8_tbl_serial_all [symmetric] all_bytes_nth)
qed

lemma xor_cancel: "x XOR a = x XOR b \<Longrightarrow> a = b" for x :: "'a::len word"
proof -
  assume "x XOR a = x XOR b"
  then have "x XOR (x XOR a) = x XOR (x XOR b)" by simp
  then show ?thesis by (simp add: xor.assoc [symmetric])
qed

lemma crc8_step_inj:
  assumes "(if bit c 0 then drop_bit 1 c XOR 0xE0 else drop_bit 1 c) =
    (if bit d 0 then drop_bit 1 d XOR 0xE0 else drop_bit 1 (d :: u8))"
  shows "c = d"
proof -
  have top: "bit (if bit c 0 then drop_bit 1 c XOR 0xE0 else drop_bit 1 c) 7 = bit c 0" for c :: u8
    by (auto simp: bit_xor_iff bit_drop_bit_eq dest: bit_imp_le_length)
  have "bit c 0 = bit d 0" using top [of c] top [of d] assms by simp
  moreover have "drop_bit 1 c = drop_bit 1 d"
  proof (cases "bit c 0")
    case True
    with assms \<open>bit c 0 = bit d 0\<close> have "drop_bit 1 c XOR 0xE0 = drop_bit 1 d XOR 0xE0" by simp
    then show ?thesis by (simp only: xor.commute [of _ "0xE0"]) (rule xor_cancel)
  next
    case False
    with assms \<open>bit c 0 = bit d 0\<close> show ?thesis by simp
  qed
  ultimately show ?thesis
  proof (intro bit_eqI)
    fix n assume e: "bit c 0 = bit d 0" "drop_bit 1 c = drop_bit 1 d"
    show "bit c n = bit d n"
    proof (cases n)
      case (Suc m)
      have "bit (drop_bit 1 c) m = bit (drop_bit 1 d) m" using e by simp
      then show ?thesis by (simp add: bit_drop_bit_eq Suc)
    qed (simp add: e)
  qed
qed

lemma crc8_serial_inj: "crc8_serial n c = crc8_serial n d \<Longrightarrow> c = d"
proof (induction n arbitrary: c d)
  case (Suc n)
  from Suc.prems have "(if bit c 0 then drop_bit 1 c XOR 0xE0 else drop_bit 1 c) =
      (if bit d 0 then drop_bit 1 d XOR 0xE0 else drop_bit 1 d)"
    using Suc.IH unfolding crc8_serial.simps by blast
  then show ?case by (rule crc8_step_inj)
qed simp

lemma calculate_crc8_append: "calculate_crc8 c (xs @ ys) = calculate_crc8 (calculate_crc8 c xs) ys"
  by (induction xs arbitrary: c) auto

lemma calculate_crc8_inj: "calculate_crc8 c xs = calculate_crc8 d xs \<Longrightarrow> c = d"
proof (induction xs arbitrary: c d)
  case (Cons x xs)
  from Cons.prems have "crc8_serial 8 (c XOR x) = crc8_serial 8 (d XOR x)"
    using Cons.IH unfolding calculate_crc8.simps crc8_tbl_nth by blast
  then have "x XOR c = x XOR d" by (simp only: xor.commute [of x]) (rule crc8_serial_inj)
  then show ?case by (rule xor_cancel)
qed simp

section \<open>CRC-32 against its bit-serial definition\<close>

text \<open>One bit of the reflected CRC-32 with polynomial \<open>0xEDB88320\<close> (IEEE 802.3), and the
  CRC of a message.\<close>

fun crc32_serial :: "nat \<Rightarrow> u32 \<Rightarrow> u32" where
  "crc32_serial 0 c = c"
| "crc32_serial (Suc n) c = crc32_serial n (if bit c 0 then drop_bit 1 c XOR 0xEDB88320 else drop_bit 1 c)"

definition crc32_ieee :: "u8 list \<Rightarrow> u32" where
  "crc32_ieee data = NOT (fold (\<lambda>d c. crc32_serial 8 (c XOR ucast d)) data 0xffffffff)"

text \<open>Two functions that are linear over exclusive or agree when they agree on the words
  with one bit.\<close>

definition xor_linear :: "('a::len word \<Rightarrow> u32) \<Rightarrow> bool" where
  "xor_linear f \<longleftrightarrow> (\<forall>x y. f (x XOR y) = f x XOR f y)"

lemma xor_linear_zero: "xor_linear f \<Longrightarrow> f 0 = 0"
  unfolding xor_linear_def by (metis xor.right_neutral xor_self_eq)

lemma take_bit_Suc_xor:
  "take_bit (Suc n) x = take_bit n x XOR (if bit x n then 2 ^ n else 0)" for x :: "'a::len word"
  by (intro bit_eqI) (auto simp: bit_take_bit_iff bit_xor_iff bit_exp_iff less_Suc_eq)

lemma xor_linear_eqI:
  fixes f g :: "'a::len word \<Rightarrow> u32"
  assumes f: "xor_linear f" and g: "xor_linear g"
    and one: "\<And>k. k < LENGTH('a) \<Longrightarrow> f (2 ^ k) = g (2 ^ k)"
  shows "f x = g x"
proof -
  have "f (take_bit n x) = g (take_bit n x)" for n
  proof (induction n)
    case 0
    then show ?case by (simp add: xor_linear_zero [OF f] xor_linear_zero [OF g])
  next
    case (Suc n)
    have "bit x n \<Longrightarrow> n < LENGTH('a)" by (rule bit_imp_le_length)
    then have "f (if bit x n then 2 ^ n else 0) = g (if bit x n then 2 ^ n else 0)"
      by (simp add: one xor_linear_zero [OF f] xor_linear_zero [OF g])
    with Suc f g show ?case by (simp add: take_bit_Suc_xor xor_linear_def)
  qed
  from this [of "LENGTH('a)"] show ?thesis by simp
qed

lemma xor_bits_xor: "xor_bits (v XOR w) ks = (xor_bits v ks \<noteq> xor_bits w ks)"
  by (induction ks) (auto simp: bit_xor_iff)

lemma crc_out_xor: "crc_out (r XOR r') (d XOR d') i = (crc_out r d i \<noteq> crc_out r' d' i)"
  by (auto simp: crc_out_def xor_bits_xor)

lemma bit_cal_crc32: "bit (cal_crc32 r d) n \<longleftrightarrow> n < 32 \<and> crc_out r d n"
  by (auto simp: cal_crc32_def bit_fold_or bit_BIT)

lemma bit_crc_reverse: "bit (crc_reverse r) n \<longleftrightarrow> n < 32 \<and> bit r (31 - n)"
proof -
  have "bit (crc_reverse r) n \<longleftrightarrow> (\<exists>i\<in>set [0..<32]. bit r i \<and> bit (BIT (31 - i)) n)"
    by (simp add: crc_reverse_def bit_fold_or)
  also have "\<dots> \<longleftrightarrow> n < 32 \<and> bit r (31 - n)"
    by (auto simp: bit_BIT intro!: bexI [of _ "31 - n"])
  finally show ?thesis .
qed

lemma cal_crc32_xor: "cal_crc32 (r XOR r') (d XOR d') = cal_crc32 r d XOR cal_crc32 r' d'"
  by (intro bit_eqI) (auto simp: bit_cal_crc32 bit_xor_iff crc_out_xor)

lemma crc_reverse_xor: "crc_reverse (r XOR r') = crc_reverse r XOR crc_reverse r'"
  by (intro bit_eqI) (auto simp: bit_crc_reverse bit_xor_iff)

lemma crc32_step_xor:
  "(if bit (c XOR d) 0 then drop_bit 1 (c XOR d) XOR p else drop_bit 1 (c XOR d)) =
   (if bit c 0 then drop_bit 1 c XOR p else drop_bit 1 c) XOR
   (if bit d 0 then drop_bit 1 d XOR p else drop_bit 1 (d :: u32))"
  by (intro bit_eqI) (auto simp: bit_xor_iff bit_drop_bit_eq)

lemma crc32_serial_xor: "crc32_serial n (c XOR d) = crc32_serial n c XOR crc32_serial n d"
proof (induction n arbitrary: c d)
  case (Suc n)
  show ?case unfolding crc32_serial.simps crc32_step_xor by (rule Suc)
qed simp

lemma all_less_upt: "list_all P [0..<n] \<Longrightarrow> k < n \<Longrightarrow> P k"
  by (simp add: list_all_iff)

lemma upt_32: "[0..<32] = [0, 1, 2, 3, 4, 5, 6, 7, 8, 9, 10, 11, 12, 13, 14, 15, 16, 17, 18, 19, 20,
    21, 22, 23, 24, 25, 26, 27, 28, 29, 30, 31 :: nat]"
  using upt_conv_Cons [of 0 32] upt_conv_Cons [of 1 32] by (simp add: numeral_2_eq_2 [symmetric])

lemma crc32_serial_numeral:
  "crc32_serial (numeral k) c =
     crc32_serial (pred_numeral k) (if bit c 0 then drop_bit 1 c XOR 0xEDB88320 else drop_bit 1 c)"
  by (simp add: numeral_eq_Suc)

lemma xor_bits_exp: "k < LENGTH('a) \<Longrightarrow> xor_bits (2 ^ k :: 'a::len word) ks = odd (count_list ks k)"
  by (induction ks) (auto simp: bit_exp_iff)

lemma crc_columns:
  "list_all (\<lambda>k. map (\<lambda>row. odd (count_list (snd row) k)) crc_rows =
     rev (map (bit (crc32_serial 8 (2 ^ (31 - k)))) [0..<32])) [0..<32]"
  unfolding upt_32 list.pred_inject by (intro conjI) (simp_all add: crc_rows_def crc32_serial_numeral)

lemma crc_data_columns:
  "list_all (\<lambda>k. map (\<lambda>row. odd (count_list (fst row) k)) crc_rows =
     rev (map (bit (crc32_serial 8 (2 ^ k))) [0..<32])) [0, 1, 2, 3, 4, 5, 6, 7]"
  unfolding upt_32 list.pred_inject by (intro conjI) (simp_all add: crc_rows_def crc32_serial_numeral)

lemma crc_rows_length: "length crc_rows = 32"
  by (simp add: crc_rows_def)

lemma column_nth:
  assumes "map f crc_rows = rev (map g [0..<32])" "n < 32"
  shows "f (crc_rows ! (31 - n)) = g n"
proof -
  have "f (crc_rows ! (31 - n)) = map f crc_rows ! (31 - n)" using assms(2) by (simp add: crc_rows_length)
  also have "\<dots> = g n" unfolding assms(1) using assms(2) by (simp add: rev_nth)
  finally show ?thesis .
qed

lemma xor_bits_zero [simp]: "xor_bits 0 ks = False"
  by (induction ks) auto

lemma crc_basis:
  assumes "k < 32"
  shows "crc_reverse (cal_crc32 (2 ^ k) 0) = crc32_serial 8 (crc_reverse (2 ^ k))"
proof -
  have r: "crc_reverse (2 ^ k) = 2 ^ (31 - k)"
    using assms by (intro bit_eqI) (auto simp: bit_crc_reverse bit_exp_iff)
  have c: "map (\<lambda>row. odd (count_list (snd row) k)) crc_rows =
      rev (map (bit (crc32_serial 8 (2 ^ (31 - k)))) [0..<32])"
    by (rule all_less_upt [OF crc_columns assms])
  show ?thesis
    using assms by (intro bit_eqI)
      (auto simp: r bit_crc_reverse bit_cal_crc32 crc_out_def xor_bits_exp column_nth [OF c])
qed

lemma crc_data_basis:
  assumes "k < 8"
  shows "crc_reverse (cal_crc32 0 (2 ^ k)) = crc32_serial 8 (2 ^ k)"
proof -
  have "k \<in> set [0, 1, 2, 3, 4, 5, 6, 7]" using assms by auto
  then have c: "map (\<lambda>row. odd (count_list (fst row) k)) crc_rows =
      rev (map (bit (crc32_serial 8 (2 ^ k))) [0..<32])"
    using crc_data_columns unfolding list_all_iff by blast
  show ?thesis
    using assms by (intro bit_eqI)
      (auto simp: bit_crc_reverse bit_cal_crc32 crc_out_def xor_bits_exp column_nth [OF c])
qed

lemma crc_byte_step: "crc_reverse (cal_crc32 r d) = crc32_serial 8 (crc_reverse r XOR ucast d)"
proof -
  have a: "crc_reverse (cal_crc32 r 0) = crc32_serial 8 (crc_reverse r)"
  proof (rule xor_linear_eqI [of "\<lambda>r. crc_reverse (cal_crc32 r 0)" "\<lambda>r. crc32_serial 8 (crc_reverse r)"])
    show "xor_linear (\<lambda>r. crc_reverse (cal_crc32 r 0))"
      unfolding xor_linear_def
      using cal_crc32_xor [of _ _ 0 0] by (simp add: crc_reverse_xor)
    show "xor_linear (\<lambda>r. crc32_serial 8 (crc_reverse r))"
      by (simp add: xor_linear_def crc_reverse_xor crc32_serial_xor)
  qed (simp add: crc_basis)
  have b: "crc_reverse (cal_crc32 0 d) = crc32_serial 8 (ucast d)"
  proof (rule xor_linear_eqI [of "\<lambda>d. crc_reverse (cal_crc32 0 d)" "\<lambda>d. crc32_serial 8 (ucast d)"])
    show "xor_linear (\<lambda>d. crc_reverse (cal_crc32 0 d))"
      unfolding xor_linear_def
      using cal_crc32_xor [of 0 0] by (simp add: crc_reverse_xor)
    have "ucast (x XOR y) = (ucast x XOR ucast y :: u32)" for x y :: u8
      by (intro bit_eqI) (simp add: bit_unsigned_iff bit_xor_iff)
    then show "xor_linear (\<lambda>d :: u8. crc32_serial 8 (ucast d))"
      by (simp add: xor_linear_def crc32_serial_xor)
  next
    fix k assume "k < LENGTH(8)"
    then have "k < 8" by simp
    moreover from this have "ucast (2 ^ k :: u8) = (2 ^ k :: u32)"
      by (intro bit_eqI) (auto simp: bit_unsigned_iff bit_exp_iff)
    ultimately show "crc_reverse (cal_crc32 0 (2 ^ k)) = crc32_serial 8 (ucast (2 ^ k :: u8))"
      by (simp add: crc_data_basis)
  qed
  have "cal_crc32 r d = cal_crc32 r 0 XOR cal_crc32 0 d"
    using cal_crc32_xor [of r 0 0 d] by simp
  then show ?thesis by (simp add: crc_reverse_xor a b crc32_serial_xor)
qed

lemma crc32_fold: "crc_reverse (fold (\<lambda>d r. cal_crc32 r d) data r) =
    fold (\<lambda>d c. crc32_serial 8 (c XOR ucast d)) data (crc_reverse r)"
  by (induction data arbitrary: r) (simp_all add: crc_byte_step)

lemma crc32_get: "get_crc32 data = crc32_ieee data"
proof -
  have "crc_reverse 0xffffffff = 0xffffffff"
  proof (rule bit_eqI)
    fix n assume "possible_bit TYPE(u32) n"
    then have "n < 32" by simp
    then show "bit (crc_reverse 0xffffffff) n \<longleftrightarrow> bit (0xffffffff :: u32) n"
      unfolding bit_crc_reverse bit_0xFFFFFFFF by auto
  qed
  then show ?thesis by (simp add: get_crc32_def crc32_ieee_def Let_def crc32_fold)
qed

lemma crc32_step_inj:
  assumes "(if bit c 0 then drop_bit 1 c XOR 0xEDB88320 else drop_bit 1 c) =
    (if bit d 0 then drop_bit 1 d XOR 0xEDB88320 else drop_bit 1 (d :: u32))"
  shows "c = d"
proof -
  have top: "bit (if bit c 0 then drop_bit 1 c XOR 0xEDB88320 else drop_bit 1 c) 31 = bit c 0" for c :: u32
    by (auto simp: bit_xor_iff bit_drop_bit_eq dest: bit_imp_le_length)
  have 0: "bit c 0 = bit d 0" using top [of c] top [of d] assms by simp
  have e: "drop_bit 1 c = drop_bit 1 d"
  proof (cases "bit c 0")
    case True
    with assms 0 have "drop_bit 1 c XOR 0xEDB88320 = drop_bit 1 d XOR 0xEDB88320" by simp
    then show ?thesis by (simp only: xor.commute [of _ "0xEDB88320"]) (rule xor_cancel)
  next
    case False
    with assms 0 show ?thesis by simp
  qed
  show ?thesis
  proof (intro bit_eqI)
    fix n
    have "bit (drop_bit 1 c) (n - 1) = bit (drop_bit 1 d) (n - 1)" using e by simp
    then show "bit c n = bit d n" using 0 by (cases n) (simp_all add: bit_drop_bit_eq)
  qed
qed

lemma crc32_serial_inj: "crc32_serial n c = crc32_serial n d \<Longrightarrow> c = d"
proof (induction n arbitrary: c d)
  case (Suc n)
  from Suc.prems have "(if bit c 0 then drop_bit 1 c XOR 0xEDB88320 else drop_bit 1 c) =
      (if bit d 0 then drop_bit 1 d XOR 0xEDB88320 else drop_bit 1 d)"
    using Suc.IH unfolding crc32_serial.simps by blast
  then show ?case by (rule crc32_step_inj)
qed simp

text \<open>The two checksums as a register that absorbs bytes: an injective step makes every
  difference in one byte visible in the result.\<close>

locale byte_register =
  fixes absorb :: "'b \<Rightarrow> 's \<Rightarrow> 's"
  assumes absorb_state: "absorb b s = absorb b t \<Longrightarrow> s = t"
    and absorb_byte: "absorb a s = absorb b s \<Longrightarrow> a = b"
begin

lemma fold_state: "fold absorb xs s = fold absorb xs t \<Longrightarrow> s = t"
  by (induction xs arbitrary: s t) (auto dest: absorb_state)

lemma one_byte_detected:
  assumes "fold absorb (xs @ a # ys) s = fold absorb (xs @ b # ys) s"
  shows "a = b"
proof -
  have "absorb a (fold absorb xs s) = absorb b (fold absorb xs s)"
    using assms fold_state [of ys] by simp
  then show ?thesis by (rule absorb_byte)
qed

end

definition crc8_absorb :: "u8 \<Rightarrow> u8 \<Rightarrow> u8" where
  "crc8_absorb d c = crc8_serial 8 (c XOR d)"

definition crc32_absorb :: "u8 \<Rightarrow> u32 \<Rightarrow> u32" where
  "crc32_absorb d c = crc32_serial 8 (c XOR ucast d)"

interpretation crc8: byte_register crc8_absorb
proof unfold_locales
  fix b s t assume "crc8_absorb b s = crc8_absorb b t"
  then have "s XOR b = t XOR b" unfolding crc8_absorb_def by (rule crc8_serial_inj)
  then have "b XOR s = b XOR t" by (simp only: xor.commute)
  then show "s = t" by (rule xor_cancel)
next
  fix a b s assume "crc8_absorb a s = crc8_absorb b s"
  then have "s XOR a = s XOR b" unfolding crc8_absorb_def by (rule crc8_serial_inj)
  then show "a = b" by (rule xor_cancel)
qed

interpretation crc32: byte_register crc32_absorb
proof unfold_locales
  fix b s t assume "crc32_absorb b s = crc32_absorb b t"
  then have "s XOR ucast b = t XOR ucast b" unfolding crc32_absorb_def by (rule crc32_serial_inj)
  then have "ucast b XOR s = ucast b XOR t" by (simp only: xor.commute)
  then show "s = t" by (rule xor_cancel)
next
  fix a b s assume "crc32_absorb a s = crc32_absorb b s"
  then have "s XOR ucast a = s XOR ucast b" unfolding crc32_absorb_def by (rule crc32_serial_inj)
  then have "(ucast a :: u32) = ucast b" by (rule xor_cancel)
  then have e: "bit (ucast a :: u32) n = bit (ucast b :: u32) n" for n by simp
  show "a = b"
  proof (rule bit_eqI)
    fix n assume "possible_bit TYPE(u8) n"
    then show "bit a n = bit b n" using e [of n] by (simp add: bit_unsigned_iff)
  qed
qed

lemma crc8_fold: "calculate_crc8 c xs = fold crc8_absorb xs c"
  by (induction xs arbitrary: c) (simp_all add: crc8_tbl_nth crc8_absorb_def)

section \<open>Properties of the checksums\<close>

text \<open>The table-driven CRC-8 is the bit-serial CRC-8 of its polynomial, for every start
  value and every message.\<close>

theorem crc8_table_correct:
  "calculate_crc8 c data = fold (\<lambda>d c. crc8_serial 8 (c XOR d)) data c"
  by (induction data arbitrary: c) (simp_all add: crc8_tbl_nth)

text \<open>A message followed by its CRC-8 passes the check, and a message that differs from a
  checked one in exactly one byte never does.\<close>

theorem crc8_check:
  "chk_crc8 (data @ [get_crc8 data]) = 0
   \<and> (a \<noteq> b \<longrightarrow> chk_crc8 (xs @ a # ys) = 0 \<longrightarrow> chk_crc8 (xs @ b # ys) = -1)"
proof -
  have "crc8_tbl ! 0 = 0" by (simp add: crc8_tbl_def)
  then have "chk_crc8 (data @ [get_crc8 data]) = 0"
    by (simp add: chk_crc8_def get_crc8_def calculate_crc8_append)
  then show ?thesis
    using crc8.one_byte_detected [of xs a ys 0 b] by (auto simp: chk_crc8_def crc8_fold)
qed

theorem crc8_check_witness:
  "chk_crc8 ([1, 2] @ 5 # [get_crc8 [1, 2, 3]]) = -1"
  using crc8_check [of "[1, 2, 3]" 3 5 "[1, 2]" "[get_crc8 [1, 2, 3]]"] by simp

text \<open>C31. \<^verbatim>\<open>get_crc32\<close>, computed a byte at a time by the 32 equations of \<^verbatim>\<open>_cal_crc32\<close>, is
  the CRC-32 of IEEE 802.3 of every message.\<close>

theorem crc32_correct: "get_crc32 data = crc32_ieee data"
  by (rule crc32_get)

text \<open>Two messages that differ in exactly one byte have different CRC-32 values.\<close>

theorem crc32_detects_byte:
  assumes "a \<noteq> b"
  shows "get_crc32 (xs @ a # ys) \<noteq> get_crc32 (xs @ b # ys)"
proof
  assume "get_crc32 (xs @ a # ys) = get_crc32 (xs @ b # ys)"
  then have "fold crc32_absorb (xs @ a # ys) 0xffffffff = fold crc32_absorb (xs @ b # ys) 0xffffffff"
    unfolding crc32_get crc32_ieee_def crc32_absorb_def [abs_def] by (simp only: bit.compl_eq_compl_iff)
  then have "a = b" by (rule crc32.one_byte_detected)
  with assms show False by simp
qed

theorem crc32_detects_byte_witness: "get_crc32 ([7] @ 1 # [9]) \<noteq> get_crc32 ([7] @ 2 # [9])"
  by (rule crc32_detects_byte) simp

text \<open>The sum can be computed in pieces: starting afresh on a first piece and continuing
  on a second gives the value and the accumulator of the whole.\<close>

theorem checksum_incremental:
  "checksum ys True (snd (checksum xs False acc)) = checksum (xs @ ys) False acc'"
  by (simp add: checksum_def Let_def)

end
