(* ===== verification/Param.thy ===== *)
theory Param
  imports Param_Layout Flash Crc
begin

text \<open>
  The parameter module \<^verbatim>\<open>platform/common/params/wm_param.c\<close> (with
  \<^verbatim>\<open>USE_TWO_RAM_FOR_PARAMETER\<close> 0). The current parameters are in \<^verbatim>\<open>flash_param\<close>; two copies with a
  magic word, a write counter and a CRC-32 are kept in two flash sectors, written alternately,
  so that one intact copy survives an interrupted write. The flash driver is the model of
  \<open>Flash\<close>; the checksum engine that \<^verbatim>\<open>tls_param_init\<close> uses is hardware and an argument \<open>crc\<close>
  (the value before the final complement). \<open>alloc k\<close> says whether the k-th allocation of a call
  succeeds. A result \<open>None\<close> means that the code does not return or reads outside its buffer.
\<close>

unbundle bit_operations_syntax

abbreviation (input) "TLS_PARAM_STATUS_OK \<equiv> 0 :: int"
abbreviation (input) "TLS_PARAM_STATUS_EINVALID \<equiv> 1 :: int"
abbreviation (input) "TLS_PARAM_STATUS_EMEM \<equiv> 2 :: int"
abbreviation (input) "TLS_PARAM_STATUS_EIO \<equiv> 3 :: int"
abbreviation (input) "TLS_PARAM_STATUS_EPERM \<equiv> 4 :: int"
abbreviation (input) "TLS_PARAM_STATUS_EINVALIDID \<equiv> 5 :: int"
abbreviation (input) "TLS_PARAM_ID_ALL \<equiv> -1 :: int"
abbreviation (input) "TLS_PARAM_ID_MAX \<equiv> 66 :: int"
abbreviation (input) "TLS_USER_MAGIC \<equiv> 0x574D3031 :: u32"

text \<open>\<open>sys_param_lock\<close> counts the holders of the semaphore (\<open>None\<close> before it is created).\<close>

record 'c prm =
  pfls :: "'c fls"
  flash_param :: tls_param_flash
  sys_param_lock :: "nat option"
  user_default_param :: "u8 list option"
  updp_mode :: u8
  lay :: fls_layout

definition prm_acquire :: "'c prm \<Rightarrow> 'c prm" where
  "prm_acquire s = s\<lparr>sys_param_lock := map_option Suc (sys_param_lock s)\<rparr>"

definition prm_release :: "'c prm \<Rightarrow> 'c prm" where
  "prm_release s = s\<lparr>sys_param_lock := map_option (\<lambda>n. n - 1) (sys_param_lock s)\<rparr>"

text \<open>\<^verbatim>\<open>(partition == 0) ? TLS_FLASH_PARAM1_ADDR : TLS_FLASH_PARAM2_ADDR\<close>\<close>

definition param_addr :: "fls_layout \<Rightarrow> bool \<Rightarrow> nat" where
  "param_addr l first = unat (if first then TLS_FLASH_PARAM1_ADDR l else TLS_FLASH_PARAM2_ADDR l)"

section \<open>Writing\<close>

definition param_flash_verify ::
    "'c flash_hw \<Rightarrow> bool \<Rightarrow> nat \<Rightarrow> u8 list \<Rightarrow> nat \<Rightarrow> 'c prm \<Rightarrow> int \<times> 'c prm" where
  "param_flash_verify hw alloc_ok data_addr data_buffer len s =
     (if \<not> alloc_ok then (0, s)
      else
        let (err, buffer, f) = tls_fls_read hw True alloc_ok data_addr False len (pfls s);
            s = s\<lparr>pfls := f\<rparr>
        in if err \<noteq> TLS_FLS_STATUS_OK then (0, s)
           else if buffer = take len data_buffer then (1, s) else (0, s))"

text \<open>The header fields that \<^verbatim>\<open>param_to_flash\<close> sets before it writes.\<close>

definition param_stamp :: "int \<Rightarrow> int \<Rightarrow> tls_param_flash \<Rightarrow> tls_param_flash" where
  "param_stamp mcount pnum p =
     (let p = p\<lparr>magic := TLS_PARAM_MAGIC, plength := 2036\<rparr>;
          p = p\<lparr>modify_count := (if mcount < 0 then modify_count p + 1 else of_int mcount)\<rparr>;
          p = p\<lparr>partition_num := (if pnum < 0 then (partition_num p + 1) AND 1 else of_int pnum)\<rparr>;
          p = p\<lparr>resv_1 := 0, resv_2 := 0\<rparr>
      in p\<lparr>crc32 := get_crc32 (take (sizeof_param_flash - 4) (param_bytes p))\<rparr>)"

definition param_to_flash ::
    "'c flash_hw \<Rightarrow> (nat \<Rightarrow> bool) \<Rightarrow> int \<Rightarrow> int \<Rightarrow> int \<Rightarrow> 'c prm \<Rightarrow> (int \<times> 'c prm) option" where
  "param_to_flash hw alloc pid mcount pnum s =
     (if pid < TLS_PARAM_ID_ALL \<or> pid \<ge> TLS_PARAM_ID_MAX then Some (TLS_PARAM_STATUS_EINVALID, s)
      else
        let p = param_stamp mcount pnum (flash_param s);
            s = s\<lparr>flash_param := p\<rparr>;
            addr = param_addr (lay s) (partition_num p = 0)
        in do {
          (err, f) \<leftarrow> tls_fls_write hw (alloc 0) addr (Some (param_bytes p)) sizeof_param_flash (pfls s);
          let s = s\<lparr>pfls := f\<rparr>;
          if err \<noteq> TLS_FLS_STATUS_OK then Some (TLS_PARAM_STATUS_EIO, s)
          else
            let (ok, s) = param_flash_verify hw (alloc 1) addr (param_bytes p) sizeof_param_flash s
            in Some (if ok = 1 then TLS_PARAM_STATUS_OK else TLS_PARAM_STATUS_EIO, s)
        })"

definition tls_param_load_factory_default :: "'c prm \<Rightarrow> 'c prm" where
  "tls_param_load_factory_default s = s\<lparr>flash_param := (flash_param s)\<lparr>parameters := factory_default\<rparr>\<rparr>"

section \<open>Initialisation\<close>

text \<open>One iteration of the loop over the two copies in \<^verbatim>\<open>tls_param_init\<close>: \<open>flash\<close> is the buffer the
  copy is read into; the result says whether the copy is damaged. The branch that tries to
  restore the area by erasing a sector is never taken: it is reached only by an intact copy,
  when at most one of the two is damaged.\<close>

definition param_load_copy ::
    "'c flash_hw \<Rightarrow> (u8 list \<Rightarrow> u32) \<Rightarrow> bool \<Rightarrow> u8 list \<Rightarrow> 'c prm \<Rightarrow> (bool \<times> u8 list \<times> 'c prm) option" where
  "param_load_copy hw crc first flash s =
     (let (_, bs, f) = tls_fls_read hw True True (param_addr (lay s) first) False sizeof_param_flash (pfls s);
          s = s\<lparr>pfls := f\<rparr>;
          flash = bs @ drop (length bs) flash;
          p = param_of_bytes flash;
          len = unat (plength p)
      in if magic p \<noteq> TLS_PARAM_MAGIC then Some (True, flash, s)
         else if len < 4 \<or> len > sizeof_param_flash then None
         else if NOT (crc (take (len - 4) flash)) \<noteq> un32 (drop (len - 4) flash) then Some (True, flash, s)
         else
           let s = (if magic (flash_param s) = 0 \<or> modify_count (flash_param s) < modify_count p then
                      if len \<noteq> sizeof_param_flash
                      then s\<lparr>flash_param := param_of_bytes (copy_into (param_bytes (flash_param s)) 0 flash (len - 4))\<rparr>
                      else s\<lparr>flash_param := p\<rparr>
                    else s)
           in Some (False, replicate sizeof_param_flash 0, s))"

text \<open>The restore loop: rewrite the damaged copies from the loaded one.\<close>

definition param_restore ::
    "'c flash_hw \<Rightarrow> (nat \<Rightarrow> bool) \<Rightarrow> bool \<Rightarrow> bool \<Rightarrow> 'c prm \<Rightarrow> (int \<times> 'c prm) option" where
  "param_restore hw alloc damage0 damage1 s =
     do {
       (err, s) \<leftarrow> (if damage0 then param_to_flash hw (\<lambda>k. alloc (k + 1)) TLS_PARAM_ID_ALL (-1) 0 s else Some (0, s));
       if err \<noteq> TLS_PARAM_STATUS_OK then Some (TLS_PARAM_STATUS_EIO, s)
       else do {
         (err, s) \<leftarrow> (if damage1 then param_to_flash hw (\<lambda>k. alloc (k + 3)) TLS_PARAM_ID_ALL (-1) 1 s else Some (0, s));
         Some (if err \<noteq> TLS_PARAM_STATUS_OK then TLS_PARAM_STATUS_EIO else TLS_PARAM_STATUS_OK, s)
       }
     }"

definition param_write_defaults ::
    "'c flash_hw \<Rightarrow> (nat \<Rightarrow> bool) \<Rightarrow> 'c prm \<Rightarrow> (int \<times> 'c prm) option" where
  "param_write_defaults hw alloc s =
     do {
       (err, s) \<leftarrow> param_to_flash hw (\<lambda>k. alloc (k + 1)) TLS_PARAM_ID_ALL 1 0 (tls_param_load_factory_default s);
       if err \<noteq> TLS_PARAM_STATUS_OK then Some (TLS_PARAM_STATUS_EIO, s)
       else do {
         (err, s) \<leftarrow> param_to_flash hw (\<lambda>k. alloc (k + 3)) TLS_PARAM_ID_ALL 1 1 s;
         Some (if err \<noteq> TLS_PARAM_STATUS_OK then TLS_PARAM_STATUS_EIO else TLS_PARAM_STATUS_OK, s)
       }
     }"

definition tls_param_init ::
    "'c flash_hw \<Rightarrow> (u8 list \<Rightarrow> u32) \<Rightarrow> (nat \<Rightarrow> bool) \<Rightarrow> bool \<Rightarrow> 'c prm \<Rightarrow> (int \<times> 'c prm) option" where
  "tls_param_init hw crc alloc sem_ok s =
     (if magic (flash_param s) = TLS_PARAM_MAGIC then Some (TLS_PARAM_STATUS_EPERM, s)
      else if \<not> sem_ok then Some (TLS_PARAM_STATUS_EMEM, s)
      else
        let s = prm_acquire (s\<lparr>sys_param_lock := Some 0\<rparr>);
            s = s\<lparr>flash_param := param_zero\<rparr>
        in if \<not> alloc 0 then Some (TLS_PARAM_STATUS_EMEM, prm_release s)
           else do {
             (damage0, flash, s) \<leftarrow> param_load_copy hw crc True (replicate sizeof_param_flash 0) s;
             (damage1, flash, s) \<leftarrow> param_load_copy hw crc False flash s;
             (err, s) \<leftarrow> (if damage0 \<and> damage1 then param_write_defaults hw alloc s
                          else param_restore hw alloc damage0 damage1 s);
             Some (err, prm_release s)
           })"

section \<open>Access\<close>

definition tls_param_user_param_init :: "bool \<Rightarrow> 'c prm \<Rightarrow> u8 list option \<times> 'c prm" where
  "tls_param_user_param_init alloc_ok s =
     (let s = (if user_default_param s = None \<and> alloc_ok
               then s\<lparr>user_default_param := Some (replicate sizeof_sys_param 0)\<rparr> else s)
      in (user_default_param s, s))"

definition tls_param_set ::
    "'c flash_hw \<Rightarrow> (nat \<Rightarrow> bool) \<Rightarrow> int \<Rightarrow> u8 list option \<Rightarrow> bool \<Rightarrow> 'c prm \<Rightarrow> (int \<times> 'c prm) option" where
  "tls_param_set hw alloc pid argv to_flash s =
     (if pid < TLS_PARAM_ID_ALL \<or> pid \<ge> TLS_PARAM_ID_MAX \<or> argv = None then Some (TLS_PARAM_STATUS_EINVALID, s)
      else if updp_mode s \<noteq> 0 then
        (case tls_param_user_param_init (alloc 2) s of
           (None, s) \<Rightarrow> Some (TLS_PARAM_STATUS_EMEM, s)
         | (Some param, s) \<Rightarrow>
             let s = prm_acquire s
             in case param_store pid (the argv) param of
                  None \<Rightarrow> Some (TLS_PARAM_STATUS_EINVALIDID, prm_release s)
                | Some param \<Rightarrow> Some (TLS_PARAM_STATUS_OK, prm_release (s\<lparr>user_default_param := Some param\<rparr>)))
      else
        let s = prm_acquire s
        in case param_store pid (the argv) (parameters (flash_param s)) of
             None \<Rightarrow> Some (TLS_PARAM_STATUS_EINVALIDID, prm_release s)
           | Some param \<Rightarrow>
               let s = s\<lparr>flash_param := (flash_param s)\<lparr>parameters := param\<rparr>\<rparr>
               in do {
                 (err, s) \<leftarrow> (if to_flash then param_to_flash hw alloc pid (-1) (-1) s else Some (TLS_PARAM_STATUS_OK, s));
                 Some (err, prm_release s)
               })"

definition tls_param_get ::
    "'c flash_hw \<Rightarrow> bool \<Rightarrow> int \<Rightarrow> bool \<Rightarrow> 'c prm \<Rightarrow> int \<times> u8 list option \<times> 'c prm" where
  "tls_param_get hw alloc_ok pid from_flash s =
     (if pid < TLS_PARAM_ID_ALL \<or> pid \<ge> TLS_PARAM_ID_MAX then (TLS_PARAM_STATUS_EINVALID, None, s)
      else
        let (src, s) =
              (if from_flash \<and> alloc_ok then
                 let (err, bs, f) = tls_fls_read hw True True (param_addr (lay s) (partition_num (flash_param s) = 0)) False
                                      sizeof_param_flash (pfls s)
                 in (if err = TLS_FLS_STATUS_OK then Some (parameters (param_of_bytes bs)) else None, s\<lparr>pfls := f\<rparr>)
               else (None, s));
            src = (case src of None \<Rightarrow> parameters (flash_param s) | Some p \<Rightarrow> p);
            s = prm_acquire s
        in case param_fetch pid src of
             None \<Rightarrow> (TLS_PARAM_STATUS_EINVALIDID, None, prm_release s)
           | Some v \<Rightarrow> (TLS_PARAM_STATUS_OK, Some v, prm_release s))"

definition tls_param_to_flash ::
    "'c flash_hw \<Rightarrow> (nat \<Rightarrow> bool) \<Rightarrow> int \<Rightarrow> 'c prm \<Rightarrow> (int \<times> 'c prm) option" where
  "tls_param_to_flash hw alloc pid s =
     (let s = prm_acquire s;
          (same, s) =
            (if pid = TLS_PARAM_ID_ALL \<and> alloc 2 then
               let (err, bs, f) = tls_fls_read hw True True (param_addr (lay s) (partition_num (flash_param s) = 0)) False
                                    sizeof_param_flash (pfls s)
               in (err = TLS_FLS_STATUS_OK \<and> parameters (param_of_bytes bs) = parameters (flash_param s), s\<lparr>pfls := f\<rparr>)
             else (False, s))
      in if same then Some (TLS_FLS_STATUS_OK, prm_release s)
         else do {
           (err, s) \<leftarrow> param_to_flash hw alloc pid (-1) (-1) s;
           Some (err, prm_release s)
         })"

definition tls_param_to_default ::
    "'c flash_hw \<Rightarrow> (nat \<Rightarrow> bool) \<Rightarrow> 'c prm \<Rightarrow> (int \<times> 'c prm) option" where
  "tls_param_to_default hw alloc s =
     do {
       (err, s) \<leftarrow> param_to_flash hw alloc TLS_PARAM_ID_ALL 1 0 (tls_param_load_factory_default s);
       if err \<noteq> 0 then Some (err, s)
       else do {
         (err, s) \<leftarrow> param_to_flash hw (\<lambda>k. alloc (k + 2)) TLS_PARAM_ID_ALL 1 1 s;
         Some (err, s\<lparr>flash_param := (flash_param s)\<lparr>magic := 0\<rparr>\<rparr>)
       }
     }"

definition tls_param_get_bt_param_address :: "nat \<Rightarrow> int \<Rightarrow> bool \<Rightarrow> 'c prm \<Rightarrow> int \<times> 'c prm" where
  "tls_param_get_bt_param_address base pid from_flash s =
     (if pid < TLS_PARAM_ID_ALL \<or> pid \<ge> TLS_PARAM_ID_MAX then (TLS_PARAM_STATUS_EINVALID, s)
      else if from_flash then (-1, s)
      else
        (if pid = 56 then int (base + field_off f_remote_device1)
         else if pid = 57 then int (base + field_off f_remote_device2)
         else if pid = 58 then int (base + field_off f_remote_device3)
         else if pid = 59 then int (base + field_off f_remote_device4)
         else if pid = 60 then int (base + field_off f_remote_device5)
         else 0, prm_release (prm_acquire s)))"

section \<open>User defaults\<close>

text \<open>The results of \<^verbatim>\<open>tls_fls_read\<close> and \<^verbatim>\<open>tls_fls_write\<close> are ignored; \<open>junk\<close> is the previous contents
  of the local variables.\<close>

definition read_over :: "'c flash_hw \<Rightarrow> bool \<Rightarrow> bool \<Rightarrow> nat \<Rightarrow> u8 list \<Rightarrow> 'c prm \<Rightarrow> u8 list \<times> 'c prm" where
  "read_over hw aligned alloc_ok addr buf s =
     (let (_, bs, f) = tls_fls_read hw aligned alloc_ok addr False (length buf) (pfls s)
      in (bs @ drop (length bs) buf, s\<lparr>pfls := f\<rparr>))"

definition tls_param_load_user ::
    "'c flash_hw \<Rightarrow> bool \<Rightarrow> (nat \<Rightarrow> bool) \<Rightarrow> u8 list \<Rightarrow> u8 list \<Rightarrow> 'c prm \<Rightarrow> int \<times> u8 list option \<times> 'c prm" where
  "tls_param_load_user hw aligned alloc junk_magic junk_crc s =
     (let offset = unat (TLS_FLASH_PARAM_DEFAULT (lay s));
          (m, s) = read_over hw aligned (alloc 0) offset junk_magic s
      in if un32 m \<noteq> TLS_USER_MAGIC then (TLS_PARAM_STATUS_EINVALID, None, s)
         else
           let (param, s) = read_over hw aligned (alloc 1) (offset + 4) (replicate sizeof_sys_param 0) s;
               (c, s) = read_over hw aligned (alloc 2) (offset + 4 + sizeof_sys_param) junk_crc s
           in if un32 c \<noteq> get_crc32 param then (TLS_PARAM_STATUS_EINVALID, Some param, s)
              else (TLS_PARAM_STATUS_OK, Some param, s))"

definition tls_param_save_user_default ::
    "'c flash_hw \<Rightarrow> (nat \<Rightarrow> bool) \<Rightarrow> 'c prm \<Rightarrow> (int \<times> 'c prm) option" where
  "tls_param_save_user_default hw alloc s =
     (case user_default_param s of
        None \<Rightarrow> Some (TLS_PARAM_STATUS_EMEM, s)
      | Some param \<Rightarrow>
          let offset = unat (TLS_FLASH_PARAM_DEFAULT (lay s))
          in do {
            (_, f) \<leftarrow> tls_fls_write hw (alloc 0) offset (Some (le32 TLS_USER_MAGIC)) 4 (pfls s);
            (_, f) \<leftarrow> tls_fls_write hw (alloc 1) (offset + 4) (Some param) sizeof_sys_param f;
            (_, f) \<leftarrow> tls_fls_write hw (alloc 2) (offset + 4 + sizeof_sys_param) (Some (le32 (get_crc32 param))) 4 f;
            Some (TLS_PARAM_STATUS_OK, s\<lparr>pfls := f\<rparr>)
          })"

record tls_user_param =
  up_wireless_protocol :: u8
  up_auto_mode :: u8
  up_dhcp_enable :: u8
  up_user_port_mode :: u8
  up_ip :: "u8 list"
  up_netmask :: "u8 list"
  up_gateway :: "u8 list"
  up_dns :: "u8 list"
  up_baudrate :: u32
  up_socket_protocol :: u8
  up_socket_client_or_server :: u8
  up_socket_port_num :: u16
  up_socket_host :: "u8 list"
  up_auto_powersave :: u8
  up_PassWord :: "u8 list"

definition user_param_fill :: "tls_user_param \<Rightarrow> u8 list \<Rightarrow> u8 list" where
  "user_param_fill u p =
     (let p = put f_wireless_protocol 0 [up_wireless_protocol u] p;
          p = put f_auto_mode 0 [up_auto_mode u] p;
          p = put f_uart_cfg 0 (le32 (up_baudrate u)) p;
          p = put f_user_port_mode 0 [up_user_port_mode u] p;
          p = put f_ipcfg 0 [up_dhcp_enable u] p;
          p = put f_auto_powersave 0 [up_auto_powersave u] p;
          p = put f_ipcfg 4 (take 4 (up_ip u)) p;
          p = put f_ipcfg 8 (take 4 (up_netmask u)) p;
          p = put f_ipcfg 12 (take 4 (up_gateway u)) p;
          p = put f_ipcfg 16 (take 4 (up_dns u)) p;
          p = put f_ipcfg 20 (take 4 (up_dns u)) p;
          p = put f_remote_socket_cfg 0 [up_socket_protocol u] p;
          p = put f_remote_socket_cfg 1 [up_socket_client_or_server u] p;
          p = put f_remote_socket_cfg 2 (le16 (up_socket_port_num u)) p;
          p = put f_remote_socket_cfg 4 (take 32 (up_socket_host u)) p;
          p = put f_PassWord 0 (take 6 (up_PassWord u)) p;
          p = put f_hardware_version 0 factory_default_hardware p;
          p = put f_wireless_region 0 [1] p;
          p = put f_channel 0 [1] p;
          p = put f_channellist 0 (le16 0x3FFF) p;
          p = put f_wbgr 0 [0] p;
          p = put f_wbgr 1 [9] p;
          p = put f_ssid_broadcast_enable 0 [1] p;
          p = put f_encry 0 [0] p;
          p = put f_auto_retrycnt 0 [255] p;
          p = put f_auto_roam 0 [0] p;
          p = put f_transparent_trigger_length 0 (le16 512) p;
          p = put f_uart_cfg 4 [0] p;
          p = put f_uart_cfg 5 [0] p;
          p = put f_local_dnsname 0 (str_bytes ''local.winnermicro'') p;
          p = put f_local_device_name 0 (str_bytes ''w800'') p;
          p = put f_EscapeChar 0 [0x2b] p;
          p = put f_EscapePeriod 0 (le16 200) p
      in put f_debug_mode 0 (le32 0) p)"

definition tls_param_save_user ::
    "'c flash_hw \<Rightarrow> (nat \<Rightarrow> bool) \<Rightarrow> tls_user_param \<Rightarrow> 'c prm \<Rightarrow> (int \<times> 'c prm) option" where
  "tls_param_save_user hw alloc u s =
     (case tls_param_user_param_init (alloc 3) s of
        (None, s) \<Rightarrow> Some (TLS_PARAM_STATUS_EMEM, s)
      | (Some param, s) \<Rightarrow> do {
          (_, s) \<leftarrow> tls_param_save_user_default hw alloc (s\<lparr>user_default_param := Some (user_param_fill u param)\<rparr>);
          Some (TLS_PARAM_STATUS_OK, s)
        })"

definition tls_param_get_updp_mode :: "'c prm \<Rightarrow> u8" where
  "tls_param_get_updp_mode s = updp_mode s"

definition tls_param_set_updp_mode :: "u8 \<Rightarrow> 'c prm \<Rightarrow> 'c prm" where
  "tls_param_set_updp_mode mode s = s\<lparr>updp_mode := mode\<rparr>"

end
