(* ===== verification/Param_Access.thy ===== *)
theory Param_Access
  imports Param
begin

text \<open>
  Setting and getting single parameters in RAM: what \<^verbatim>\<open>tls_param_set\<close> stores is what
  \<^verbatim>\<open>tls_param_get\<close> returns, the bytes of every other parameter are untouched, the structure
  keeps its size, and the semaphore is given back on every path. A string that is longer than
  its member is the exception: \<^verbatim>\<open>strcpy\<close> runs into the next member.
\<close>

unbundle bit_operations_syntax

section \<open>One parameter\<close>

text \<open>The bytes that a call with argument \<open>v\<close> transfers, and that they fit the member.\<close>

definition param_value :: "nat \<Rightarrow> copy_kind \<Rightarrow> u8 list \<Rightarrow> u8 list" where
  "param_value n kind v = (case kind of Mem \<Rightarrow> take n v | Cstr \<Rightarrow> cstr v)"

definition param_fits :: "nat \<Rightarrow> copy_kind \<Rightarrow> u8 list \<Rightarrow> bool" where
  "param_fits n kind v \<longleftrightarrow> (case kind of Mem \<Rightarrow> n \<le> length v | Cstr \<Rightarrow> length (cstr v) \<le> n)"

lemma param_store_slot:
  assumes "param_slot pid = Some (off, n, kind)" "param_fits n kind v" "pid \<noteq> -1"
  shows "param_store pid v p = Some (copy_into p off (param_value n kind v) (length (param_value n kind v)))"
    and "length (param_value n kind v) \<le> n"
  using assms by (cases kind; auto simp: param_store_def param_value_def param_fits_def copy_into_def)+

lemma param_fetch_stored:
  assumes "param_slot pid = Some (off, n, kind)" "param_fits n kind v" "pid \<noteq> -1" "length p = 2016"
  shows "param_fetch pid (copy_into p off (param_value n kind v) (length (param_value n kind v))) = Some (param_value n kind v)"
proof (cases kind)
  case Mem
  with assms param_slot_bound [OF assms(1)] show ?thesis
    by (simp add: param_fetch_def param_value_def param_fits_def copy_into_def min_def)
next
  case Cstr
  with assms param_slot_bound [OF assms(1)] show ?thesis
    by (simp add: param_fetch_def param_value_def param_fits_def copy_into_def cstr_cstr min_def)
qed

lemma param_store_other:
  assumes "param_slot pid = Some (off, n, kind)" "param_fits n kind v" "pid \<noteq> -1" "length p = 2016"
    "param_store pid v p = Some p'" "param_slot j = Some (off', n', kind')" "j \<noteq> pid"
  shows "take n' (drop off' p') = take n' (drop off' p)"
proof -
  let ?w = "param_value n kind v"
  have p': "p' = copy_into p off ?w (length ?w)" and le: "length ?w \<le> n"
    using param_store_slot [OF assms(1-3)] assms(5) by simp_all
  have "off' + n' \<le> off \<or> off + n \<le> off'" using param_slot_disjoint [OF assms(1,6)] assms(7) by simp
  with le param_slot_bound [OF assms(1)] assms(4) show ?thesis
    unfolding p' by (intro copy_into_other) auto
qed

lemma param_store_length:
  assumes "param_slot pid = Some (off, n, kind)" "param_fits n kind v" "pid \<noteq> -1" "length p = 2016"
    "param_store pid v p = Some p'"
  shows "length p' = 2016"
  using param_store_slot [OF assms(1-3)] param_slot_bound [OF assms(1)] assms(4,5) by auto

text \<open>The whole structure.\<close>

lemma param_store_all:
  "length p = 2016 \<Longrightarrow> param_store (-1) v p = Some (take 2016 v)"
  by (simp add: param_store_def copy_into_all)

section \<open>The semaphore\<close>

lemma prm_release_acquire [simp]: "prm_release (prm_acquire s) = s"
  by (cases s) (simp add: prm_release_def prm_acquire_def option.map_comp comp_def option.map_ident)

lemma prm_lock_frame [simp]:
  "flash_param (prm_acquire s) = flash_param s" "pfls (prm_acquire s) = pfls s" "lay (prm_acquire s) = lay s"
  "updp_mode (prm_acquire s) = updp_mode s" "user_default_param (prm_acquire s) = user_default_param s"
  "flash_param (prm_release s) = flash_param s" "pfls (prm_release s) = pfls s" "lay (prm_release s) = lay s"
  "updp_mode (prm_release s) = updp_mode s" "user_default_param (prm_release s) = user_default_param s"
  "sys_param_lock (prm_acquire s) = map_option Suc (sys_param_lock s)"
  "sys_param_lock (prm_release s) = map_option (\<lambda>n. n - 1) (sys_param_lock s)"
  by (simp_all add: prm_acquire_def prm_release_def)

lemma prm_release_upd:
  "prm_release ((prm_acquire s)\<lparr>flash_param := p\<rparr>) = s\<lparr>flash_param := p\<rparr>"
  "prm_release ((prm_acquire s)\<lparr>user_default_param := u\<rparr>) = s\<lparr>user_default_param := u\<rparr>"
  "prm_release ((prm_acquire s)\<lparr>pfls := f\<rparr>) = s\<lparr>pfls := f\<rparr>"
  by (cases s; simp add: prm_release_def prm_acquire_def option.map_comp comp_def option.map_ident)+

lemma param_to_flash_lock:
  "param_to_flash hw alloc pid mcount pnum s = Some (err, s') \<Longrightarrow>
    sys_param_lock s' = sys_param_lock s \<and> lay s' = lay s \<and> updp_mode s' = updp_mode s \<and>
    user_default_param s' = user_default_param s"
  by (auto simp: param_to_flash_def param_flash_verify_def Let_def bind_eq_Some_conv split: prod.splits if_splits)

lemma set_lock:
  assumes "tls_param_set hw alloc pid argv to_flash s = Some (err, s')"
  shows "sys_param_lock s' = sys_param_lock s"
proof -
  have m: "map_option (\<lambda>n. n - Suc 0) (map_option Suc l) = l" for l
    by (simp add: option.map_comp comp_def option.map_ident)
  have u: "sys_param_lock (snd (tls_param_user_param_init b s)) = sys_param_lock s" for b
    by (simp add: tls_param_user_param_init_def Let_def)
  show ?thesis using assms u [of "alloc 2"]
    by (auto simp: tls_param_set_def Let_def bind_eq_Some_conv m dest!: param_to_flash_lock
        split: if_splits option.splits prod.splits)
qed

section \<open>Properties\<close>

text \<open>C36. A parameter that is set is the parameter that is read back, in RAM, and every
  other parameter keeps its bytes: for an id of the table and a value that fits (a string
  with its terminator), \<^verbatim>\<open>tls_param_set\<close> and then \<^verbatim>\<open>tls_param_get\<close> return
  \<^verbatim>\<open>TLS_PARAM_STATUS_OK\<close> and the value.\<close>

theorem param_set_get:
  assumes "param_slot pid = Some (off, n, kind)" "param_fits n kind v" "0 \<le> pid" "pid < 66"
    "updp_mode s = 0" "length (parameters (flash_param s)) = 2016"
  shows "\<exists>s'. tls_param_set hw alloc pid (Some v) False s = Some (TLS_PARAM_STATUS_OK, s') \<and>
    tls_param_get hw ok pid False s' = (TLS_PARAM_STATUS_OK, Some (param_value n kind v), s') \<and>
    length (parameters (flash_param s')) = 2016 \<and>
    (\<forall>j off' n' kind'. param_slot j = Some (off', n', kind') \<longrightarrow> j \<noteq> pid \<longrightarrow>
       take n' (drop off' (parameters (flash_param s'))) = take n' (drop off' (parameters (flash_param s))))"
proof -
  let ?p = "parameters (flash_param s)"
  obtain p' where p': "param_store pid v ?p = Some p'" and l: "length p' = 2016"
    using param_store_slot(1) [OF assms(1,2)] param_store_length [OF assms(1,2) _ assms(6)] assms(3) by fastforce
  let ?s' = "s\<lparr>flash_param := (flash_param s)\<lparr>parameters := p'\<rparr>\<rparr>"
  have "tls_param_set hw alloc pid (Some v) False s = Some (0, ?s')"
    using assms p' by (simp add: tls_param_set_def prm_release_upd)
  moreover have "param_fetch pid p' = Some (param_value n kind v)"
    using param_fetch_stored [OF assms(1,2) _ assms(6)] param_store_slot(1) [OF assms(1,2), of ?p] p' assms(3) by simp
  then have "tls_param_get hw ok pid False ?s' = (0, Some (param_value n kind v), ?s')"
    using assms(3,4) by (simp add: tls_param_get_def)
  moreover have "take n' (drop off' p') = take n' (drop off' ?p)"
    if "param_slot j = Some (off', n', kind')" "j \<noteq> pid" for j off' n' kind'
    using param_store_other [OF assms(1,2) _ assms(6) p' that] assms(3) by simp
  ultimately show ?thesis using l by (intro exI [of _ ?s']) auto
qed

definition demo_prm :: "nor_chip prm" where
  "demo_prm = \<lparr>pfls = demo_fls, flash_param = param_zero, sys_param_lock = None, user_default_param = None,
     updp_mode = 0, lay = fls_layout_default\<rparr>"

lemma demo_prm_simps [simp]:
  "pfls demo_prm = demo_fls" "flash_param demo_prm = param_zero" "updp_mode demo_prm = 0" "lay demo_prm = fls_layout_default"
  "length (parameters param_zero) = 2016" "user_default_param demo_prm = None"
  by (simp_all add: demo_prm_def param_zero_def)

lemma slot_dnsname: "param_slot 20 = Some (172, 32, Cstr)"
  by (simp add: param_slot_def param_table_def field_off_def field_size_def sys_param_offsets) (simp add: sys_param_struct_def)

lemma slot_devname: "param_slot 21 = Some (204, 32, Cstr)"
  by (simp add: param_slot_def param_table_def field_off_def field_size_def sys_param_offsets) (simp add: sys_param_struct_def)

theorem param_set_get_witness:
  "\<exists>s'. tls_param_set nor_hw (\<lambda>_. True) 20 (Some [0x61, 0x62, 0]) False demo_prm = Some (0, s') \<and>
    tls_param_get nor_hw True 20 False s' = (0, Some [0x61, 0x62, 0], s')"
  using param_set_get [OF slot_dnsname, of "[0x61, 0x62, 0]" demo_prm nor_hw "\<lambda>_. True" True]
  by (auto simp: param_fits_def param_value_def cstr_def)

text \<open>Every id of the table owns a range inside the 2016 bytes of
  \<^verbatim>\<open>struct tls_sys_param\<close>, and two different ids own disjoint ranges.\<close>

theorem param_slots_in_bounds:
  assumes "param_slot i = Some (off, n, kind)"
  shows "off + n \<le> sizeof_sys_param \<and>
    (\<forall>j off' n' kind'. param_slot j = Some (off', n', kind') \<longrightarrow> i \<noteq> j \<longrightarrow> off' + n' \<le> off \<or> off + n \<le> off')"
  using param_slot_bound [OF assms] param_slot_disjoint [OF assms] by blast

theorem param_slots_in_bounds_witness: "172 + 32 \<le> sizeof_sys_param \<and> (204 + 32 \<le> (172 :: nat) \<or> 172 + 32 \<le> (204 :: nat))"
  using param_slots_in_bounds [OF slot_dnsname] slot_devname by auto

text \<open>Every call of \<^verbatim>\<open>tls_param_set\<close> that returns gives the semaphore back as often
  as it took it, whatever the arguments, the allocations and the flash do.\<close>

theorem param_set_releases:
  assumes "tls_param_set hw alloc pid argv to_flash s = Some (err, s')"
  shows "sys_param_lock s' = sys_param_lock s"
  using assms by (rule set_lock)

theorem param_set_releases_witness:
  "\<exists>s'. tls_param_set nor_hw (\<lambda>_. True) 25 (Some [1]) False demo_prm = Some (5, s') \<and> sys_param_lock s' = None"
proof -
  have "param_slot 25 = None" by (simp add: param_slot_def param_table_def)
  then have "tls_param_set nor_hw (\<lambda>_. True) 25 (Some [1]) False demo_prm = Some (5, demo_prm)"
    by (simp add: tls_param_set_def param_store_def)
  from this param_set_releases [OF this] show ?thesis by (auto simp: demo_prm_def)
qed

text \<open>\<^verbatim>\<open>tls_param_set\<close> copies the DNS name with \<^verbatim>\<open>strcpy\<close> into a member of 32
  bytes without looking at its length: a name of 32 characters or more overwrites the first
  byte of the device name that follows.\<close>

theorem param_dnsname_overflow:
  assumes "updp_mode s = 0" "length (parameters (flash_param s)) = 2016"
    "33 \<le> length (cstr v)" "length (cstr v) \<le> 1000"
  shows "\<exists>s'. tls_param_set hw alloc 20 (Some v) False s = Some (TLS_PARAM_STATUS_OK, s') \<and>
    parameters (flash_param s') ! 204 = cstr v ! 32"
proof -
  let ?p = "parameters (flash_param s)" and ?w = "cstr v"
  let ?s' = "s\<lparr>flash_param := (flash_param s)\<lparr>parameters := copy_into ?p 172 ?w (length ?w)\<rparr>\<rparr>"
  have "tls_param_set hw alloc 20 (Some v) False s = Some (0, ?s')"
    using assms by (simp add: tls_param_set_def param_store_def slot_dnsname prm_release_upd)
  moreover have "copy_into ?p 172 ?w (length ?w) ! 204 = ?w ! 32"
    using assms by (simp add: copy_into_def nth_append)
  ultimately show ?thesis by auto
qed

theorem param_dnsname_overflow_witness:
  "\<exists>s'. tls_param_set nor_hw (\<lambda>_. True) 20 (Some (replicate 33 0x41 @ [0])) False demo_prm = Some (0, s') \<and>
    parameters (flash_param s') ! 204 = 0x41"
  using param_dnsname_overflow [of demo_prm "replicate 33 0x41 @ [0]" nor_hw "\<lambda>_. True"]
  by (auto simp: cstr_def nth_append takeWhile_append)

end
