(* ===== verification/Param_Persist.thy ===== *)
theory Param_Persist
  imports Param_Access
begin

text \<open>
  Persistence of the parameters: the two copies in flash, what \<^verbatim>\<open>tls_param_init\<close> makes of
  them and what survives an interrupted write. The lemmas are proved on a flash chip that
  satisfies \<open>spi_nor\<close> and for a checksum engine that computes the complement of \<^verbatim>\<open>get_crc32\<close>;
  \<open>param_inv\<close> is the invariant that relates the copies to the counter in RAM.
\<close>

unbundle bit_operations_syntax

section \<open>The copies\<close>

definition copy_off :: "fls_layout \<Rightarrow> bool \<Rightarrow> nat" where
  "copy_off l b = param_addr l b mod 0x8000000"

definition param_copy :: "('c \<Rightarrow> nat \<Rightarrow> u8) \<Rightarrow> 'c prm \<Rightarrow> bool \<Rightarrow> u8 list" where
  "param_copy mem s b = mem_read (mem (chip (pfls s))) (copy_off (lay s) b) sizeof_param_flash"

text \<open>The flash driver runs, and the two copies are in two sectors of the flash that are not
  write protected.\<close>

definition param_wf :: "('c \<Rightarrow> nat \<Rightarrow> bool) \<Rightarrow> nat \<Rightarrow> 'c prm \<Rightarrow> bool" where
  "param_wf prot cap s \<longleftrightarrow>
     (\<exists>f. inside_fls (pfls s) = Some f \<and> density f \<le> cap \<and>
       (\<forall>b. 4096 dvd copy_off (lay s) b \<and> copy_off (lay s) b + 4096 \<le> density f \<and>
            range_unprotected prot (pfls s) (copy_off (lay s) b) sizeof_param_flash)) \<and>
     copy_off (lay s) True \<noteq> copy_off (lay s) False \<and>
     length (parameters (flash_param s)) = sizeof_sys_param"

text \<open>A checksum engine for the CRC-32 of the software routine.\<close>

definition crc_engine :: "(u8 list \<Rightarrow> u32) \<Rightarrow> bool" where
  "crc_engine crc \<longleftrightarrow> (\<forall>bs. NOT (crc bs) = get_crc32 bs)"

definition copy_intact :: "u8 list \<Rightarrow> bool" where
  "copy_intact bs \<longleftrightarrow> length bs = sizeof_param_flash \<and> magic (param_of_bytes bs) = TLS_PARAM_MAGIC \<and>
     unat (plength (param_of_bytes bs)) = sizeof_param_flash \<and> get_crc32 (take 2032 bs) = crc32 (param_of_bytes bs)"

definition copy_damaged :: "u8 list \<Rightarrow> bool" where
  "copy_damaged bs \<longleftrightarrow> magic (param_of_bytes bs) \<noteq> TLS_PARAM_MAGIC \<or>
     unat (plength (param_of_bytes bs)) = sizeof_param_flash \<and> get_crc32 (take 2032 bs) \<noteq> crc32 (param_of_bytes bs)"

lemma length_param_copy [simp]: "length (param_copy mem s b) = 2036"
  by (simp add: param_copy_def)

lemma copy_off_sectors:
  assumes "param_wf prot cap s"
  shows "copy_off (lay s) b + 2036 \<le> copy_off (lay s) (\<not> b) \<or> copy_off (lay s) (\<not> b) + 2036 \<le> copy_off (lay s) b"
proof -
  obtain j k where jk: "copy_off (lay s) b = 4096 * j" "copy_off (lay s) (\<not> b) = 4096 * k"
    using assms unfolding param_wf_def by (meson dvdE)
  have "copy_off (lay s) b \<noteq> copy_off (lay s) (\<not> b)"
    using assms unfolding param_wf_def by (cases b) auto
  then have "j \<noteq> k" using jk by auto
  then have "j + 1 \<le> k \<or> k + 1 \<le> j" by linarith
  then have "4096 * (j + 1) \<le> 4096 * k \<or> 4096 * (k + 1) \<le> 4096 * j" by auto
  then show ?thesis using jk by auto
qed

section \<open>The stamp\<close>

lemma stamp_simps [simp]:
  "magic (param_stamp mc pn p) = TLS_PARAM_MAGIC" "plength (param_stamp mc pn p) = 2036"
  "parameters (param_stamp mc pn p) = parameters p"
  "modify_count (param_stamp mc pn p) = (if mc < 0 then modify_count p + 1 else of_int mc)"
  "partition_num (param_stamp mc pn p) = (if pn < 0 then (partition_num p + 1) AND 1 else of_int pn)"
  by (simp_all add: param_stamp_def Let_def)

lemma take_param_bytes:
  assumes "length (parameters p) = 2016"
  shows "take 2032 (param_bytes (p\<lparr>crc32 := c\<rparr>)) = take 2032 (param_bytes p)"
  using assms by (simp add: param_bytes_def)

lemma copy_intact_stamp:
  assumes "length (parameters p) = 2016"
  shows "copy_intact (param_bytes (param_stamp mc pn p))"
proof -
  let ?q = "param_stamp mc pn p"
  have l: "length (parameters ?q) = 2016" using assms by simp
  obtain r where r: "?q = r\<lparr>crc32 := get_crc32 (take 2032 (param_bytes r))\<rparr>" "parameters r = parameters p"
    unfolding param_stamp_def Let_def by auto
  then have "crc32 ?q = get_crc32 (take 2032 (param_bytes ?q))" using take_param_bytes [of r] assms by simp
  then show ?thesis using l by (simp add: copy_intact_def)
qed

section \<open>Writing one copy\<close>

context spi_nor
begin

lemma param_wf_frame:
  assumes "param_wf prot cap s" "drv f = drv (pfls s)" "prot (chip f) = prot (chip (pfls s))"
    "length (parameters p) = 2016"
  shows "param_wf prot cap (s\<lparr>flash_param := p, pfls := f\<rparr>)"
  using assms drv_eq_fields(2) [OF assms(2)] by (simp add: param_wf_def range_unprotected_def)

lemma param_wf_acc:
  assumes "param_wf prot cap s"
  obtains f where "inside_fls (pfls s) = Some f" "density f \<le> cap"
    "\<And>b. copy_off (lay s) b + 2036 \<le> density f"
    "\<And>b. range_unprotected prot (pfls s) (copy_off (lay s) b) 2036"
    "\<And>b. param_addr (lay s) b mod 256 = 0"
proof -
  obtain f where f: "inside_fls (pfls s) = Some f" "density f \<le> cap"
    "\<And>b. 4096 dvd copy_off (lay s) b" "\<And>b. copy_off (lay s) b + 4096 \<le> density f"
    "\<And>b. range_unprotected prot (pfls s) (copy_off (lay s) b) 2036"
    using assms by (auto simp: param_wf_def)
  have "256 dvd copy_off (lay s) b" for b using f(3) [of b] by (rule dvd_trans [rotated]) simp
  then have "param_addr (lay s) b mod 256 = 0" for b
    by (simp add: copy_off_def dvd_eq_mod_eq_0 mod_mod_cancel)
  moreover have "copy_off (lay s) b + 2036 \<le> density f" for b using f(4) [of b] by simp
  ultimately show thesis using that f by blast
qed

lemma read_copy:
  assumes "param_wf prot cap s"
  shows "\<exists>f. tls_fls_read hw True ok (param_addr (lay s) b) False 2036 (pfls s) = (0, param_copy mem s b, f) \<and>
    kept mem prot (pfls s) f"
proof -
  obtain f where f: "inside_fls (pfls s) = Some f" "density f \<le> cap"
    "copy_off (lay s) b + 2036 \<le> density f" "param_addr (lay s) b mod 256 = 0"
    using param_wf_acc [OF assms] by metis
  show ?thesis using read_spec [OF f(1,2), of 2036 "param_addr (lay s) b" ok True] f(3,4)
    by (auto simp: copy_off_def param_copy_def)
qed

lemma verify_copy:
  assumes "param_wf prot cap s" "length bs = 2036" "param_copy mem s b = bs"
  shows "\<exists>f. param_flash_verify hw True (param_addr (lay s) b) bs 2036 s = (1, s\<lparr>pfls := f\<rparr>) \<and> kept mem prot (pfls s) f"
  using read_copy [OF assms(1), of True b] assms(2,3) by (auto simp: param_flash_verify_def)

lemma param_to_flash_spec:
  assumes wf: "param_wf prot cap s" and a: "alloc 0" "alloc 1" and pid: "-1 \<le> pid" "pid < 66"
    and p: "p = param_stamp mc pn (flash_param s)" and b: "b \<longleftrightarrow> partition_num p = 0"
  shows "\<exists>f. param_to_flash hw alloc pid mc pn s = Some (0, s\<lparr>flash_param := p, pfls := f\<rparr>) \<and>
    param_copy mem (s\<lparr>flash_param := p, pfls := f\<rparr>) b = param_bytes p \<and>
    param_copy mem (s\<lparr>flash_param := p, pfls := f\<rparr>) (\<not> b) = param_copy mem s (\<not> b) \<and>
    param_wf prot cap (s\<lparr>flash_param := p, pfls := f\<rparr>) \<and> drv f = drv (pfls s)"
proof -
  have lp: "length (parameters p) = 2016" using wf p by (simp add: param_wf_def)
  let ?s = "s\<lparr>flash_param := p\<rparr>" and ?a = "param_addr (lay s) b"
  obtain f where f: "inside_fls (pfls s) = Some f" "density f \<le> cap" "copy_off (lay s) b + 2036 \<le> density f"
    "range_unprotected prot (pfls s) (copy_off (lay s) b) 2036" using param_wf_acc [OF wf] by metis
  obtain f1 where 1: "tls_fls_write hw True ?a (Some (param_bytes p)) 2036 (pfls s) = Some (0, f1)"
    "mem (chip f1) = mem_write (mem (chip (pfls s))) (copy_off (lay s) b) (param_bytes p)"
    "prot (chip f1) = prot (chip (pfls s))" "drv f1 = drv (pfls s)"
    using write_spec [OF f(1,2), of 2036 "param_bytes p" ?a] f(3,4) lp by (auto simp: copy_off_def)
  let ?s1 = "s\<lparr>flash_param := p, pfls := f1\<rparr>"
  have wf1: "param_wf prot cap ?s1" using param_wf_frame [OF wf 1(4,3) lp] by simp
  have c1: "param_copy mem ?s1 b = param_bytes p"
    using mem_read_mem_write [of "mem (chip (pfls s))" "copy_off (lay s) b" "param_bytes p"] 1(2) lp
    by (simp add: param_copy_def)
  obtain f2 where 2: "param_flash_verify hw True ?a (param_bytes p) 2036 ?s1 = (1, ?s1\<lparr>pfls := f2\<rparr>)" "kept mem prot f1 f2"
    using verify_copy [OF wf1 _ c1] lp by auto
  have k: "mem (chip f2) = mem (chip f1)" "prot (chip f2) = prot (chip (pfls s))" "drv f2 = drv (pfls s)"
    using 2(2) 1(3,4) by (simp_all add: kept_def)
  have "param_to_flash hw alloc pid mc pn s = Some (0, s\<lparr>flash_param := p, pfls := f2\<rparr>)"
    using 1(1) 2(1) a pid b by (simp add: param_to_flash_def p [symmetric] Let_def)
  moreover have "param_copy mem (s\<lparr>flash_param := p, pfls := f2\<rparr>) b = param_bytes p"
    using c1 k(1) by (simp add: param_copy_def)
  moreover have "param_copy mem (s\<lparr>flash_param := p, pfls := f2\<rparr>) (\<not> b) = param_copy mem s (\<not> b)"
    using 1(2) k(1) lp copy_off_sectors [OF wf, of b] by (simp add: param_copy_def mem_read_mem_write_other)
  moreover have "param_wf prot cap (s\<lparr>flash_param := p, pfls := f2\<rparr>)" by (rule param_wf_frame [OF wf k(3,2) lp])
  ultimately show ?thesis using k(3) by blast
qed

end

section \<open>Loading\<close>

text \<open>What the loop of \<^verbatim>\<open>tls_param_init\<close> leaves in \<^verbatim>\<open>flash_param\<close> after reading a copy.\<close>

definition param_newer :: "tls_param_flash \<Rightarrow> u8 list \<Rightarrow> tls_param_flash" where
  "param_newer q bs =
     (if copy_intact bs \<and> (magic q = 0 \<or> modify_count q < modify_count (param_of_bytes bs)) then param_of_bytes bs else q)"

lemma copy_damaged_not_intact: "copy_damaged bs \<Longrightarrow> \<not> copy_intact bs"
  by (auto simp: copy_damaged_def copy_intact_def)

lemma crc32_param_of_bytes: "crc32 (param_of_bytes bs) = un32 (drop 2032 bs)"
  by (simp add: param_of_bytes_def)

lemma crc_engineD: "crc_engine crc \<Longrightarrow> NOT (crc bs) = get_crc32 bs"
  by (simp add: crc_engine_def)

lemma length_param_of_bytes [simp]: "length bs = 2036 \<Longrightarrow> length (parameters (param_of_bytes bs)) = 2016"
  by (simp add: param_of_bytes_def)

context spi_nor
begin

lemma param_load_copy_spec:
  assumes wf: "param_wf prot cap s" and crc: "crc_engine crc" and l: "length flash = 2036"
    and c: "copy_damaged (param_copy mem s b) \<or> copy_intact (param_copy mem s b)"
  shows "\<exists>f flash'. param_load_copy hw crc b flash s =
      Some (\<not> copy_intact (param_copy mem s b), flash',
        s\<lparr>flash_param := param_newer (flash_param s) (param_copy mem s b), pfls := f\<rparr>) \<and>
    length flash' = 2036 \<and> kept mem prot (pfls s) f"
proof -
  let ?bs = "param_copy mem s b"
  obtain f where f: "tls_fls_read hw True True (param_addr (lay s) b) False 2036 (pfls s) = (0, ?bs, f)" "kept mem prot (pfls s) f"
    using read_copy [OF wf] by blast
  have dr: "drop 2036 flash = []" using l by simp
  have same: "s\<lparr>flash_param := flash_param s, pfls := f\<rparr> = s\<lparr>pfls := f\<rparr>" by simp
  show ?thesis
  proof (cases "copy_intact ?bs")
    case True
    then have "param_load_copy hw crc b flash s = Some (False, replicate 2036 0,
        s\<lparr>flash_param := param_newer (flash_param s) ?bs, pfls := f\<rparr>)"
      using f(1) dr crc_engineD [OF crc, of "take 2032 ?bs"]
      by (simp add: param_load_copy_def copy_intact_def crc32_param_of_bytes param_newer_def Let_def)
    with True f(2) show ?thesis by auto
  next
    case False
    with c have d: "copy_damaged ?bs" by simp
    then have "param_load_copy hw crc b flash s = Some (True, ?bs, s\<lparr>pfls := f\<rparr>)"
      using f(1) dr crc_engineD [OF crc, of "take 2032 ?bs"]
      by (auto simp: param_load_copy_def copy_damaged_def crc32_param_of_bytes Let_def)
    with False f(2) same show ?thesis by (auto simp: param_newer_def)
  qed
qed

lemma param_copy_kept: "kept mem prot (pfls s) f \<Longrightarrow> param_copy mem (s\<lparr>flash_param := q, pfls := f\<rparr>) b = param_copy mem s b"
  by (simp add: param_copy_def kept_def)

lemma param_wf_kept:
  assumes "param_wf prot cap s" "kept mem prot (pfls s) f" "length (parameters q) = 2016"
  shows "param_wf prot cap (s\<lparr>flash_param := q, pfls := f\<rparr>)"
  using assms by (intro param_wf_frame) (simp_all add: kept_def)

lemma length_param_newer:
  "length (parameters q) = 2016 \<Longrightarrow> length (parameters (param_newer q (param_copy mem s b))) = 2016"
  by (simp add: param_newer_def)

lemma param_load_both:
  assumes wf: "param_wf prot cap s" and crc: "crc_engine crc"
    and c: "\<And>b. copy_damaged (param_copy mem s b) \<or> copy_intact (param_copy mem s b)"
  shows "\<exists>f flash s1. param_load_copy hw crc True (replicate 2036 0) s = Some (\<not> copy_intact (param_copy mem s True), flash, s1) \<and>
    (\<exists>flash'. param_load_copy hw crc False flash s1 = Some (\<not> copy_intact (param_copy mem s False), flash',
      s\<lparr>flash_param := param_newer (param_newer (flash_param s) (param_copy mem s True)) (param_copy mem s False), pfls := f\<rparr>)) \<and>
    kept mem prot (pfls s) f"
proof -
  let ?q = "param_newer (flash_param s) (param_copy mem s True)"
  obtain f1 flash where 1: "param_load_copy hw crc True (replicate 2036 0) s =
      Some (\<not> copy_intact (param_copy mem s True), flash, s\<lparr>flash_param := ?q, pfls := f1\<rparr>)"
    "length flash = 2036" "kept mem prot (pfls s) f1"
    using param_load_copy_spec [OF wf crc _ c, of "replicate 2036 0" True] by auto
  have lq: "length (parameters ?q) = 2016" using wf by (simp add: length_param_newer param_wf_def)
  let ?s1 = "s\<lparr>flash_param := ?q, pfls := f1\<rparr>"
  have "param_wf prot cap ?s1" by (rule param_wf_kept [OF wf 1(3) lq])
  then obtain f2 flash' where 2: "param_load_copy hw crc False flash ?s1 =
      Some (\<not> copy_intact (param_copy mem s False), flash', ?s1\<lparr>flash_param := param_newer ?q (param_copy mem s False), pfls := f2\<rparr>)"
    "kept mem prot f1 f2"
    using param_load_copy_spec [OF _ crc 1(2), of ?s1 False] c [of False] by (auto simp: param_copy_kept [OF 1(3)])
  show ?thesis
    by (intro exI [of _ f2] exI [of _ flash] exI [of _ ?s1] conjI exI [of _ flash'] 1(1) kept_trans [OF 1(3) 2(2)])
       (use 2(1) in simp)
qed

lemma param_restore_spec:
  assumes wf: "param_wf prot cap s" and a: "\<And>k. alloc k" and p: "p = param_stamp (-1) (if b then 0 else 1) (flash_param s)"
  shows "\<exists>f. param_restore hw alloc b (\<not> b) s = Some (0, s\<lparr>flash_param := p, pfls := f\<rparr>) \<and>
    param_copy mem (s\<lparr>flash_param := p, pfls := f\<rparr>) b = param_bytes p \<and>
    param_copy mem (s\<lparr>flash_param := p, pfls := f\<rparr>) (\<not> b) = param_copy mem s (\<not> b) \<and>
    param_wf prot cap (s\<lparr>flash_param := p, pfls := f\<rparr>) \<and> drv f = drv (pfls s)"
proof -
  have "b \<longleftrightarrow> partition_num p = 0" using p by simp
  with param_to_flash_spec [OF wf _ _ _ _ p, of "\<lambda>k. alloc (k + (if b then 1 else 3))" "-1" b] a
  show ?thesis by (cases b) (auto simp: param_restore_def)
qed

end

text \<open>The state after the semaphore has been created and taken and \<^verbatim>\<open>flash_param\<close> cleared.\<close>

definition param_boot :: "'c prm \<Rightarrow> 'c prm" where
  "param_boot s = s\<lparr>sys_param_lock := Some 1, flash_param := param_zero\<rparr>"

definition param_best :: "('c \<Rightarrow> nat \<Rightarrow> u8) \<Rightarrow> 'c prm \<Rightarrow> tls_param_flash" where
  "param_best mem s = param_newer (param_newer param_zero (param_copy mem s True)) (param_copy mem s False)"

lemma param_boot_simps [simp]:
  "pfls (param_boot s) = pfls s" "lay (param_boot s) = lay s" "flash_param (param_boot s) = param_zero"
  "param_copy mem (param_boot s) b = param_copy mem s b"
  by (simp_all add: param_boot_def param_copy_def)

lemma param_wf_boot [simp]: "param_wf prot cap s \<Longrightarrow> param_wf prot cap (param_boot s)"
  by (simp add: param_wf_def)

context spi_nor
begin

lemma tls_param_init_loaded:
  assumes wf: "param_wf prot cap s" and crc: "crc_engine crc" and m: "magic (flash_param s) \<noteq> TLS_PARAM_MAGIC" and a: "alloc 0"
    and c: "\<And>b. copy_damaged (param_copy mem s b) \<or> copy_intact (param_copy mem s b)"
  shows "\<exists>f. tls_param_init hw crc alloc True s = do {
      (err, s') \<leftarrow> (if \<not> copy_intact (param_copy mem s True) \<and> \<not> copy_intact (param_copy mem s False)
                   then param_write_defaults hw alloc ((param_boot s)\<lparr>flash_param := param_best mem s, pfls := f\<rparr>)
                   else param_restore hw alloc (\<not> copy_intact (param_copy mem s True)) (\<not> copy_intact (param_copy mem s False))
                          ((param_boot s)\<lparr>flash_param := param_best mem s, pfls := f\<rparr>));
      Some (err, prm_release s')
    } \<and> kept mem prot (pfls s) f"
proof -
  have b: "(prm_acquire (s\<lparr>sys_param_lock := Some 0\<rparr>))\<lparr>flash_param := param_zero\<rparr> = param_boot s"
    by (simp add: prm_acquire_def param_boot_def)
  have "\<exists>f flash s1. param_load_copy hw crc True (replicate 2036 0) (param_boot s) =
      Some (\<not> copy_intact (param_copy mem s True), flash, s1) \<and>
    (\<exists>flash'. param_load_copy hw crc False flash s1 = Some (\<not> copy_intact (param_copy mem s False), flash',
      (param_boot s)\<lparr>flash_param := param_best mem s, pfls := f\<rparr>)) \<and> kept mem prot (pfls s) f"
    using param_load_both [OF param_wf_boot [OF wf] crc] c by (simp add: param_best_def)
  then obtain f flash flash' s1 where "param_load_copy hw crc True (replicate 2036 0) (param_boot s) =
      Some (\<not> copy_intact (param_copy mem s True), flash, s1)"
    "param_load_copy hw crc False flash s1 = Some (\<not> copy_intact (param_copy mem s False), flash',
      (param_boot s)\<lparr>flash_param := param_best mem s, pfls := f\<rparr>)" "kept mem prot (pfls s) f"
    by blast
  then show ?thesis using m a by (intro exI [of _ f]) (simp add: tls_param_init_def Let_def b)
qed

lemma param_restore_none: "param_restore hw alloc False False s = Some (0, s)"
  by (simp add: param_restore_def)

lemma init_both:
  assumes wf: "param_wf prot cap s" and crc: "crc_engine crc" and m: "magic (flash_param s) \<noteq> TLS_PARAM_MAGIC" and a: "\<And>k. alloc k"
    and c: "\<And>b. copy_intact (param_copy mem s b)"
  shows "\<exists>f. tls_param_init hw crc alloc True s = Some (0, s\<lparr>sys_param_lock := Some 0, flash_param := param_best mem s, pfls := f\<rparr>) \<and>
    kept mem prot (pfls s) f"
proof -
  obtain f where "tls_param_init hw crc alloc True s =
      Some (0, prm_release ((param_boot s)\<lparr>flash_param := param_best mem s, pfls := f\<rparr>))" "kept mem prot (pfls s) f"
    using tls_param_init_loaded [where alloc = alloc, OF wf crc m a] c by (auto simp: param_restore_none)
  moreover have "prm_release ((param_boot s)\<lparr>flash_param := param_best mem s, pfls := f\<rparr>) =
      s\<lparr>sys_param_lock := Some 0, flash_param := param_best mem s, pfls := f\<rparr>"
    by (simp add: prm_release_def param_boot_def)
  ultimately show ?thesis by auto
qed

lemma param_best_one:
  assumes "copy_damaged (param_copy mem s b)" "copy_intact (param_copy mem s (\<not> b))"
  shows "param_best mem s = param_of_bytes (param_copy mem s (\<not> b))"
  using assms copy_damaged_not_intact [OF assms(1)]
  by (cases b) (simp_all add: param_best_def param_newer_def param_zero_def)

lemma init_one:
  assumes wf: "param_wf prot cap s" and crc: "crc_engine crc" and m: "magic (flash_param s) \<noteq> TLS_PARAM_MAGIC" and a: "\<And>k. alloc k"
    and c: "copy_damaged (param_copy mem s b)" "copy_intact (param_copy mem s (\<not> b))"
    and p: "p = param_stamp (-1) (if b then 0 else 1) (param_of_bytes (param_copy mem s (\<not> b)))"
  shows "\<exists>f. tls_param_init hw crc alloc True s = Some (0, s\<lparr>sys_param_lock := Some 0, flash_param := p, pfls := f\<rparr>) \<and>
    param_copy mem (s\<lparr>sys_param_lock := Some 0, flash_param := p, pfls := f\<rparr>) b = param_bytes p \<and>
    param_copy mem (s\<lparr>sys_param_lock := Some 0, flash_param := p, pfls := f\<rparr>) (\<not> b) = param_copy mem s (\<not> b) \<and>
    param_wf prot cap (s\<lparr>sys_param_lock := Some 0, flash_param := p, pfls := f\<rparr>)"
proof -
  have c': "copy_damaged (param_copy mem s b') \<or> copy_intact (param_copy mem s b')" for b'
    using c by (cases "b' = b") auto
  have i: "copy_intact (param_copy mem s True) \<longleftrightarrow> \<not> b" "copy_intact (param_copy mem s False) \<longleftrightarrow> b"
    using c copy_damaged_not_intact by (cases b; auto)+
  let ?q = "param_of_bytes (param_copy mem s (\<not> b))"
  obtain f where f: "tls_param_init hw crc alloc True s = do {
      (err, s') \<leftarrow> param_restore hw alloc b (\<not> b) ((param_boot s)\<lparr>flash_param := ?q, pfls := f\<rparr>);
      Some (err, prm_release s')
    }" "kept mem prot (pfls s) f"
    using tls_param_init_loaded [where alloc = alloc, OF wf crc m a c'] i param_best_one [OF c] by auto
  let ?s1 = "(param_boot s)\<lparr>flash_param := ?q, pfls := f\<rparr>"
  have wf1: "param_wf prot cap ?s1" using param_wf_kept [OF param_wf_boot [OF wf], of f ?q] f(2) by simp
  have co: "param_copy mem ?s1 b' = param_copy mem s b'" for b' using f(2) by (simp add: param_copy_def kept_def)
  obtain g where g: "param_restore hw alloc b (\<not> b) ?s1 = Some (0, ?s1\<lparr>flash_param := p, pfls := g\<rparr>)"
    "param_copy mem (?s1\<lparr>flash_param := p, pfls := g\<rparr>) b = param_bytes p"
    "param_copy mem (?s1\<lparr>flash_param := p, pfls := g\<rparr>) (\<not> b) = param_copy mem s (\<not> b)"
    "param_wf prot cap (?s1\<lparr>flash_param := p, pfls := g\<rparr>)"
    using param_restore_spec [where alloc = alloc, OF wf1 a, of p b] p co by auto
  have "tls_param_init hw crc alloc True s = Some (0, s\<lparr>sys_param_lock := Some 0, flash_param := p, pfls := g\<rparr>)"
    using f(1) g(1) by (simp add: prm_release_def param_boot_def)
  then show ?thesis using g(2-4) by (auto simp: param_copy_def param_wf_def param_boot_def)
qed

end

lemma length_put: "field_off k + sub + length bs \<le> 2016 \<Longrightarrow> length p = 2016 \<Longrightarrow> length (put k sub bs p) = 2016"
  by (simp add: put_def)

lemma length_factory_default [simp]: "length factory_default = 2016"
  unfolding factory_default_def ip_defaults_def Let_def
  by (intro length_put; simp add: field_off_def sys_param_offsets factory_default_hardware_def str_bytes_def)

context spi_nor
begin

lemma param_write_defaults_spec:
  assumes wf: "param_wf prot cap s" and a: "\<And>k. alloc k"
    and p: "p = param_stamp 1 0 ((flash_param s)\<lparr>parameters := factory_default\<rparr>)" and q: "q = param_stamp 1 1 p"
  shows "\<exists>f. param_write_defaults hw alloc s = Some (0, s\<lparr>flash_param := q, pfls := f\<rparr>) \<and>
    param_copy mem (s\<lparr>flash_param := q, pfls := f\<rparr>) True = param_bytes p \<and>
    param_copy mem (s\<lparr>flash_param := q, pfls := f\<rparr>) False = param_bytes q \<and>
    param_wf prot cap (s\<lparr>flash_param := q, pfls := f\<rparr>)"
proof -
  let ?s = "tls_param_load_factory_default s"
  have s: "?s = s\<lparr>flash_param := (flash_param s)\<lparr>parameters := factory_default\<rparr>\<rparr>" by (simp add: tls_param_load_factory_default_def)
  have "param_wf prot cap ?s" using wf by (simp add: s param_wf_def)
  then obtain f where f: "param_to_flash hw (\<lambda>k. alloc (k + 1)) (-1) 1 0 ?s = Some (0, ?s\<lparr>flash_param := p, pfls := f\<rparr>)"
    "param_copy mem (?s\<lparr>flash_param := p, pfls := f\<rparr>) True = param_bytes p" "param_wf prot cap (?s\<lparr>flash_param := p, pfls := f\<rparr>)"
    using param_to_flash_spec [of ?s "\<lambda>k. alloc (k + 1)" "-1" p 1 0 True] a p by (auto simp: s)
  let ?s1 = "?s\<lparr>flash_param := p, pfls := f\<rparr>"
  obtain g where g: "param_to_flash hw (\<lambda>k. alloc (k + 3)) (-1) 1 1 ?s1 = Some (0, ?s1\<lparr>flash_param := q, pfls := g\<rparr>)"
    "param_copy mem (?s1\<lparr>flash_param := q, pfls := g\<rparr>) False = param_bytes q"
    "param_copy mem (?s1\<lparr>flash_param := q, pfls := g\<rparr>) True = param_copy mem ?s1 True"
    "param_wf prot cap (?s1\<lparr>flash_param := q, pfls := g\<rparr>)"
    using param_to_flash_spec [OF f(3), of "\<lambda>k. alloc (k + 3)" "-1" q 1 1 False] a q by auto
  show ?thesis using f g by (intro exI [of _ g]) (simp add: param_write_defaults_def s)
qed

lemma init_none:
  assumes wf: "param_wf prot cap s" and crc: "crc_engine crc" and m: "magic (flash_param s) \<noteq> TLS_PARAM_MAGIC" and a: "\<And>k. alloc k"
    and c: "\<And>b. copy_damaged (param_copy mem s b)"
    and p: "p = param_stamp 1 0 (param_zero\<lparr>parameters := factory_default\<rparr>)" and q: "q = param_stamp 1 1 p"
  shows "\<exists>f. tls_param_init hw crc alloc True s = Some (0, s\<lparr>sys_param_lock := Some 0, flash_param := q, pfls := f\<rparr>) \<and>
    param_copy mem (s\<lparr>sys_param_lock := Some 0, flash_param := q, pfls := f\<rparr>) True = param_bytes p \<and>
    param_copy mem (s\<lparr>sys_param_lock := Some 0, flash_param := q, pfls := f\<rparr>) False = param_bytes q \<and>
    param_wf prot cap (s\<lparr>sys_param_lock := Some 0, flash_param := q, pfls := f\<rparr>)"
proof -
  have i: "\<not> copy_intact (param_copy mem s b)" for b using c copy_damaged_not_intact by auto
  have best: "param_best mem s = param_zero" using i by (simp add: param_best_def param_newer_def)
  obtain f where f: "tls_param_init hw crc alloc True s = do {
      (err, s') \<leftarrow> param_write_defaults hw alloc ((param_boot s)\<lparr>flash_param := param_zero, pfls := f\<rparr>);
      Some (err, prm_release s')
    }" "kept mem prot (pfls s) f"
    using tls_param_init_loaded [where alloc = alloc, OF wf crc m a] c i by (auto simp: best)
  let ?s1 = "(param_boot s)\<lparr>flash_param := param_zero, pfls := f\<rparr>"
  have "param_wf prot cap ?s1" using param_wf_kept [OF param_wf_boot [OF wf], of f param_zero] f(2) by simp
  then obtain g where g: "param_write_defaults hw alloc ?s1 = Some (0, ?s1\<lparr>flash_param := q, pfls := g\<rparr>)"
    "param_copy mem (?s1\<lparr>flash_param := q, pfls := g\<rparr>) True = param_bytes p"
    "param_copy mem (?s1\<lparr>flash_param := q, pfls := g\<rparr>) False = param_bytes q"
    "param_wf prot cap (?s1\<lparr>flash_param := q, pfls := g\<rparr>)"
    using param_write_defaults_spec [of ?s1 alloc p q] a p q by auto
  have "tls_param_init hw crc alloc True s = Some (0, s\<lparr>sys_param_lock := Some 0, flash_param := q, pfls := g\<rparr>)"
    using f(1) g(1) by (simp add: prm_release_def param_boot_def)
  then show ?thesis using g(2-4) by (auto simp: param_copy_def param_wf_def param_boot_def)
qed

end

section \<open>The invariant\<close>

text \<open>A copy is damaged, or intact and numbered by the sector it is in.\<close>

definition copy_sound :: "bool \<Rightarrow> u8 list \<Rightarrow> bool" where
  "copy_sound b bs \<longleftrightarrow> copy_damaged bs \<or> copy_intact bs \<and> partition_num (param_of_bytes bs) = (if b then 0 else 1)"

text \<open>No intact copy is newer than the counter in RAM.\<close>

definition copy_older :: "tls_param_flash \<Rightarrow> u8 list \<Rightarrow> bool" where
  "copy_older q bs \<longleftrightarrow> copy_intact bs \<longrightarrow> modify_count (param_of_bytes bs) \<le> modify_count q"

definition param_inv :: "('c \<Rightarrow> nat \<Rightarrow> u8) \<Rightarrow> ('c \<Rightarrow> nat \<Rightarrow> bool) \<Rightarrow> nat \<Rightarrow> 'c prm \<Rightarrow> bool" where
  "param_inv mem prot cap s \<longleftrightarrow> param_wf prot cap s \<and> partition_num (flash_param s) \<in> {0, 1} \<and>
     (\<forall>b. copy_sound b (param_copy mem s b) \<and> copy_older (flash_param s) (param_copy mem s b))"

text \<open>The part of it that holds whatever fails, and the two together: \<open>k\<close> says whether the counter in
  RAM is in step with the copies.\<close>

definition param_sound :: "('c \<Rightarrow> nat \<Rightarrow> u8) \<Rightarrow> ('c \<Rightarrow> nat \<Rightarrow> bool) \<Rightarrow> nat \<Rightarrow> 'c prm \<Rightarrow> bool" where
  "param_sound mem prot cap s \<longleftrightarrow> param_wf prot cap s \<and> partition_num (flash_param s) \<in> {0, 1} \<and>
     (\<forall>b. copy_sound b (param_copy mem s b))"

definition param_ok :: "('c \<Rightarrow> nat \<Rightarrow> u8) \<Rightarrow> ('c \<Rightarrow> nat \<Rightarrow> bool) \<Rightarrow> nat \<Rightarrow> bool \<Rightarrow> 'c prm \<Rightarrow> bool" where
  "param_ok mem prot cap k s \<longleftrightarrow> param_sound mem prot cap s \<and> (k \<longrightarrow> param_inv mem prot cap s)"

lemma param_ok_iff:
  "param_ok mem prot cap k s \<longleftrightarrow> param_wf prot cap s \<and> partition_num (flash_param s) \<in> {0, 1} \<and>
    (\<forall>b. copy_sound b (param_copy mem s b)) \<and> (k \<longrightarrow> (\<forall>b. copy_older (flash_param s) (param_copy mem s b)))"
  by (auto simp: param_ok_def param_sound_def param_inv_def)

lemma copy_sound_stamp:
  assumes "length (parameters p) = 2016" "partition_num (param_stamp mc pn p) = (if b then 0 else 1)"
  shows "copy_sound b (param_bytes (param_stamp mc pn p))"
  using copy_intact_stamp [OF assms(1), of mc pn] assms by (simp add: copy_sound_def del: stamp_simps(5))

lemma copy_older_stamp: "length (parameters p) = 2016 \<Longrightarrow> copy_older p (param_bytes p)"
  by (simp add: copy_older_def)

lemma copy_older_mono: "copy_older q bs \<Longrightarrow> modify_count q \<le> modify_count q' \<Longrightarrow> copy_older q' bs"
  by (auto simp: copy_older_def)

lemma copy_sound_cases: "copy_sound b bs \<Longrightarrow> copy_damaged bs \<or> copy_intact bs"
  by (auto simp: copy_sound_def)

lemma partition_toggle:
  assumes "q \<in> {0, 1 :: u16}"
  shows "(q + 1) AND 1 = (if q = 0 then 1 else 0)"
  using assms by auto

lemma count_next: "n \<noteq> 0xFFFF \<Longrightarrow> n < n + 1" for n :: u16
proof -
  assume n: "n \<noteq> 0xFFFF"
  have "unat n \<noteq> 65535"
  proof
    assume "unat n = 65535"
    then have "unat n = unat (0xFFFF :: u16)" by simp
    with n show False by (simp only: word_unat_eq_iff)
  qed
  moreover have "unat n < 65536" using unsigned_less [of n] by simp
  ultimately have "unat (n + 1) = unat n + 1" by (simp add: unat_word_ariths)
  then show ?thesis by (simp add: word_less_nat_alt)
qed

context spi_nor
begin

text \<open>The outcomes of \<^verbatim>\<open>param_to_flash\<close> whatever the allocations do: the copy that is not
  addressed keeps its bytes, the addressed one keeps them or becomes the stamped structure, and
  a result without error means that it was written.\<close>

lemma param_to_flash_any:
  assumes wf: "param_wf prot cap s" and pid: "-1 \<le> pid" "pid < 66"
    and p: "p = param_stamp mc pn (flash_param s)" and b: "b \<longleftrightarrow> partition_num p = 0"
  shows "\<exists>err f. param_to_flash hw alloc pid mc pn s = Some (err, s\<lparr>flash_param := p, pfls := f\<rparr>) \<and>
    param_copy mem (s\<lparr>flash_param := p, pfls := f\<rparr>) b \<in> {param_bytes p, param_copy mem s b} \<and>
    (err = 0 \<longrightarrow> param_copy mem (s\<lparr>flash_param := p, pfls := f\<rparr>) b = param_bytes p) \<and>
    param_copy mem (s\<lparr>flash_param := p, pfls := f\<rparr>) (\<not> b) = param_copy mem s (\<not> b) \<and>
    param_wf prot cap (s\<lparr>flash_param := p, pfls := f\<rparr>)"
proof -
  have lp: "length (parameters p) = 2016" using wf p by (simp add: param_wf_def)
  obtain f where f: "inside_fls (pfls s) = Some f" "density f \<le> cap" "copy_off (lay s) b + 2036 \<le> density f"
    "range_unprotected prot (pfls s) (copy_off (lay s) b) 2036" using param_wf_acc [OF wf] by metis
  consider "alloc 0" "alloc 1" | "alloc 0" "\<not> alloc 1" | "\<not> alloc 0" by blast
  then show ?thesis
  proof cases
    case 1
    then show ?thesis using param_to_flash_spec [where alloc = alloc, OF wf _ _ pid p b] by blast
  next
    case 2
    obtain f1 where f1: "tls_fls_write hw True (param_addr (lay s) b) (Some (param_bytes p)) 2036 (pfls s) = Some (0, f1)"
      "mem (chip f1) = mem_write (mem (chip (pfls s))) (copy_off (lay s) b) (param_bytes p)"
      "prot (chip f1) = prot (chip (pfls s))" "drv f1 = drv (pfls s)"
      using write_spec [OF f(1,2), of 2036 "param_bytes p" "param_addr (lay s) b"] f(3,4) lp by (auto simp: copy_off_def)
    have "param_to_flash hw alloc pid mc pn s = Some (3, s\<lparr>flash_param := p, pfls := f1\<rparr>)"
      using f1(1) 2 pid b by (simp add: param_to_flash_def p [symmetric] Let_def param_flash_verify_def)
    moreover have "param_copy mem (s\<lparr>flash_param := p, pfls := f1\<rparr>) b = param_bytes p"
      using mem_read_mem_write [of "mem (chip (pfls s))" "copy_off (lay s) b" "param_bytes p"] f1(2) lp by (simp add: param_copy_def)
    moreover have "param_copy mem (s\<lparr>flash_param := p, pfls := f1\<rparr>) (\<not> b) = param_copy mem s (\<not> b)"
      using f1(2) lp copy_off_sectors [OF wf, of b] by (simp add: param_copy_def mem_read_mem_write_other)
    ultimately show ?thesis using param_wf_frame [OF wf f1(4,3) lp] by blast
  next
    case 3
    have "\<not> bad_args (param_addr (lay s) b) 2036 False (pfls s)"
      using f by (simp add: bad_args_def fls_density_def copy_off_def)
    then have "param_to_flash hw alloc pid mc pn s = Some (3, s\<lparr>flash_param := p, pfls := fls_release (fls_acquire (pfls s))\<rparr>)"
      using 3 f(1) pid b by (simp add: param_to_flash_def p [symmetric] Let_def tls_fls_write_def)
    moreover have "fls_release (fls_acquire (pfls s)) = pfls s" by (simp add: fls_acquire_def fls_release_def)
    ultimately have "param_to_flash hw alloc pid mc pn s = Some (3, s\<lparr>flash_param := p, pfls := pfls s\<rparr>)" by simp
    moreover have "param_copy mem (s\<lparr>flash_param := p, pfls := pfls s\<rparr>) b' = param_copy mem s b'" for b' by (simp add: param_copy_def)
    moreover have "(3 :: int) \<noteq> 0" by simp
    ultimately show ?thesis using param_wf_frame [OF wf _ _ lp, of "pfls s"] by blast
  qed
qed

lemma to_flash_ok:
  assumes wf: "param_wf prot cap s" and c: "\<And>b. copy_sound b (param_copy mem s b)" and pid: "-1 \<le> pid" "pid < 66"
    and p: "p = param_stamp mc pn (flash_param s)" "partition_num p \<in> {0, 1}"
    and k: "k \<Longrightarrow> copy_older p (param_copy mem s True) \<and> copy_older p (param_copy mem s False)"
    and r: "param_to_flash hw alloc pid mc pn s = Some (err, s')"
  shows "param_ok mem prot cap k s' \<and> flash_param s' = p \<and>
    (\<forall>b. param_copy mem s' b \<in> {param_bytes p, param_copy mem s b}) \<and>
    param_copy mem s' (partition_num p \<noteq> 0) = param_copy mem s (partition_num p \<noteq> 0) \<and>
    (err = 0 \<longrightarrow> param_copy mem s' (partition_num p = 0) = param_bytes p)"
proof -
  define b where "b \<longleftrightarrow> partition_num p = 0"
  have lp: "length (parameters (flash_param s)) = 2016" "length (parameters p) = 2016"
    using wf p(1) by (simp_all add: param_wf_def)
  have pn: "partition_num p = (if b then 0 else 1)" using p(2) by (auto simp: b_def)
  obtain f where f: "s' = s\<lparr>flash_param := p, pfls := f\<rparr>" "param_copy mem s' b \<in> {param_bytes p, param_copy mem s b}"
    "err = 0 \<longrightarrow> param_copy mem s' b = param_bytes p" "param_copy mem s' (\<not> b) = param_copy mem s (\<not> b)" "param_wf prot cap s'"
    using param_to_flash_any [OF wf pid p(1) b_def, of alloc] r by auto
  have "copy_sound b (param_bytes p)"
    using copy_sound_stamp [OF lp(1), of mc pn b] pn by (simp only: p(1))
  moreover have "copy_older p (param_bytes p)" by (rule copy_older_stamp [OF lp(2)])
  moreover have "k \<Longrightarrow> copy_older p (param_copy mem s b')" for b' using k by (cases b') auto
  ultimately have "copy_sound b' (param_copy mem s' b') \<and> (k \<longrightarrow> copy_older p (param_copy mem s' b'))" for b'
    using f(2,4) c [of b'] by (cases "b' = b") auto
  moreover have "param_copy mem s' b' \<in> {param_bytes p, param_copy mem s b'}" for b' using f(2,4) by (cases "b' = b") auto
  moreover have "flash_param s' = p" by (simp add: f(1))
  ultimately show ?thesis using f(3-5) p(2) by (auto simp: param_ok_iff b_def)
qed

text \<open>The counter moves on by one: the copies stay behind it unless it wraps.\<close>

lemma param_ok_next:
  assumes ok: "param_ok mem prot cap k s" and pid: "-1 \<le> pid" "pid < 66"
    and r: "param_to_flash hw alloc pid (-1) (-1) s = Some (err, s')"
  shows "param_ok mem prot cap (k \<and> modify_count (flash_param s) \<le> modify_count (flash_param s')) s'"
proof -
  let ?p = "param_stamp (-1) (-1) (flash_param s)"
  have s: "param_wf prot cap s" "\<And>b. copy_sound b (param_copy mem s b)" "partition_num ?p \<in> {0, 1}"
    using ok partition_toggle [of "partition_num (flash_param s)"] by (auto simp: param_ok_iff)
  have o: "copy_older ?p (param_copy mem s True) \<and> copy_older ?p (param_copy mem s False)"
    if "k \<and> modify_count (flash_param s) \<le> modify_count ?p"
    using ok that copy_older_mono [of "flash_param s" _ ?p] by (simp add: param_ok_iff)
  from to_flash_ok [OF s(1,2) pid refl s(3) o r] show ?thesis by simp
qed

end

section \<open>The operations keep the invariant\<close>

text \<open>An argument of \<^verbatim>\<open>tls_param_set\<close> that is as long as the member.\<close>

definition param_arg_ok :: "int \<Rightarrow> u8 list \<Rightarrow> bool" where
  "param_arg_ok pid v =
     (if pid = -1 then sizeof_sys_param \<le> length v
      else case param_slot pid of None \<Rightarrow> True | Some (off, n, kind) \<Rightarrow> param_fits n kind v)"

lemma param_store_ok:
  assumes "param_arg_ok pid v" "length p = 2016" "param_store pid v p = Some p'"
  shows "length p' = 2016"
proof (cases "pid = -1")
  case True
  with assms show ?thesis by (auto simp: param_arg_ok_def param_store_all)
next
  case False
  with assms(3) obtain off n kind where sl: "param_slot pid = Some (off, n, kind)"
    by (auto simp: param_store_def split: option.splits)
  with False assms show ?thesis using param_store_length [OF sl _ _ assms(2,3)] by (simp add: param_arg_ok_def)
qed

lemma param_ok_cong:
  assumes "pfls s' = pfls s" "lay s' = lay s" "length (parameters (flash_param s')) = length (parameters (flash_param s))"
    "modify_count (flash_param s') = modify_count (flash_param s)" "partition_num (flash_param s') = partition_num (flash_param s)"
  shows "param_ok mem prot cap k s' = param_ok mem prot cap k s"
  using assms by (simp add: param_ok_iff param_wf_def copy_older_def param_copy_def)

lemma param_ok_lock [simp]:
  "param_ok mem prot cap k (prm_acquire s) = param_ok mem prot cap k s"
  "param_ok mem prot cap k (prm_release s) = param_ok mem prot cap k s"
  by (rule param_ok_cong; simp)+

lemma param_ok_weaken: "param_ok mem prot cap k s \<Longrightarrow> (k' \<Longrightarrow> k) \<Longrightarrow> param_ok mem prot cap k' s"
  by (auto simp: param_ok_iff)

lemma param_to_flash_refused: "pid < -1 \<or> 66 \<le> pid \<Longrightarrow> param_to_flash hw alloc pid mc pn s = Some (1, s)"
  by (simp add: param_to_flash_def)

context spi_nor
begin

lemma param_ok_kept:
  assumes "param_ok mem prot cap k s" "kept mem prot (pfls s) f"
  shows "param_ok mem prot cap k (s\<lparr>pfls := f\<rparr>)"
proof -
  have "param_wf prot cap (s\<lparr>flash_param := flash_param s, pfls := f\<rparr>)"
    using assms by (intro param_wf_kept) (simp_all add: param_ok_iff param_wf_def)
  then have wf: "param_wf prot cap (s\<lparr>pfls := f\<rparr>)" by simp
  have "param_copy mem (s\<lparr>pfls := f\<rparr>) b = param_copy mem s b" for b using assms(2) by (simp add: param_copy_def kept_def)
  with assms(1) wf show ?thesis by (simp add: param_ok_iff)
qed

lemma set_ok:
  assumes ok: "param_ok mem prot cap k s" and v: "\<And>v. argv = Some v \<Longrightarrow> param_arg_ok pid v"
    and r: "tls_param_set hw alloc pid argv to_flash s = Some (err, s')"
  shows "param_ok mem prot cap (k \<and> modify_count (flash_param s) \<le> modify_count (flash_param s')) s'"
proof (cases "pid < -1 \<or> 66 \<le> pid \<or> argv = None \<or> updp_mode s \<noteq> 0 \<or> param_store pid (the argv) (parameters (flash_param s)) = None")
  case True
  then have "pfls s' = pfls s \<and> lay s' = lay s \<and> flash_param s' = flash_param s"
    using r by (auto simp: tls_param_set_def tls_param_user_param_init_def Let_def split: if_splits option.splits)
  with ok param_ok_cong [of s' s] show ?thesis by simp
next
  case False
  then obtain w q where w: "argv = Some w" and q: "param_store pid w (parameters (flash_param s)) = Some q" by auto
  let ?s1 = "(prm_acquire s)\<lparr>flash_param := (flash_param s)\<lparr>parameters := q\<rparr>\<rparr>"
  have lp: "length (parameters (flash_param s)) = 2016" using ok by (simp add: param_ok_iff param_wf_def)
  have "length q = 2016" by (rule param_store_ok [OF v [OF w] lp q])
  then have i1: "param_ok mem prot cap k ?s1" using ok lp param_ok_cong [of ?s1 s] by simp
  show ?thesis
  proof (cases to_flash)
    case True
    then obtain s2 where s2: "param_to_flash hw alloc pid (-1) (-1) ?s1 = Some (err, s2)" "s' = prm_release s2"
      using r False w q by (auto simp: tls_param_set_def Let_def bind_eq_Some_conv)
    then show ?thesis using param_ok_next [OF i1 _ _ s2(1)] False by simp
  qed (use r False w q i1 in \<open>auto simp: tls_param_set_def Let_def\<close>)
qed

lemma save_ok:
  assumes ok: "param_ok mem prot cap k s" and r: "tls_param_to_flash hw alloc pid s = Some (err, s')"
  shows "param_ok mem prot cap (k \<and> modify_count (flash_param s) \<le> modify_count (flash_param s')) s'"
proof -
  let ?s = "prm_acquire s"
  have step: "param_ok mem prot cap (k \<and> modify_count (flash_param s) \<le> modify_count (flash_param t')) t'"
    if "param_ok mem prot cap k t" "flash_param t = flash_param s" "param_to_flash hw alloc pid (-1) (-1) t = Some (err, t')" for t t'
    using param_ok_next [OF that(1) _ _ that(3)] param_to_flash_refused [of pid hw alloc "-1" "-1" t] that
    by (cases "pid < -1 \<or> 66 \<le> pid") auto
  have wf: "param_wf prot cap ?s" using ok by (simp add: param_ok_iff param_wf_def)
  obtain bs f where f: "tls_fls_read hw True True (param_addr (lay s) (partition_num (flash_param s) = 0)) False 2036 (pfls s) = (0, bs, f)"
    "kept mem prot (pfls s) f" using read_copy [OF wf, of True "partition_num (flash_param s) = 0"] by auto
  have i: "param_ok mem prot cap k (?s\<lparr>pfls := f\<rparr>)" using param_ok_kept [of k ?s f] ok f(2) by simp
  show ?thesis
  proof (cases "pid = -1 \<and> alloc 2")
    case True
    with r f(1) i show ?thesis using step [OF i]
      by (auto simp: tls_param_to_flash_def Let_def bind_eq_Some_conv split: if_splits)
  next
    case False
    obtain s2 where s2: "param_to_flash hw alloc pid (-1) (-1) ?s = Some (err, s2)" "s' = prm_release s2"
      using r False by (cases "pid = -1") (auto simp: tls_param_to_flash_def Let_def bind_eq_Some_conv)
    then show ?thesis using step [of ?s s2] ok by simp
  qed
qed

lemma get_ok:
  assumes "param_ok mem prot cap k s" "tls_param_get hw alloc_ok pid from_flash s = (err, v, s')"
  shows "param_ok mem prot cap k s'"
proof -
  have wf: "param_wf prot cap s" using assms(1) by (simp add: param_ok_iff)
  obtain bs f where f: "tls_fls_read hw True True (param_addr (lay s) (partition_num (flash_param s) = 0)) False 2036 (pfls s) = (0, bs, f)"
    "kept mem prot (pfls s) f" using read_copy [OF wf, of True "partition_num (flash_param s) = 0"] by auto
  have "param_ok mem prot cap k (s\<lparr>pfls := f\<rparr>)" by (rule param_ok_kept [OF assms(1) f(2)])
  with assms f(1) show ?thesis by (auto simp: tls_param_get_def Let_def split: if_splits option.splits)
qed

text \<open>Both copies written one after the other with the counter 1: the end of the factory defaults.\<close>

lemma copy_older_damaged: "copy_damaged bs \<Longrightarrow> copy_older q bs"
  by (simp add: copy_older_def copy_damaged_not_intact)

lemma defaults_first:
  assumes ok: "param_ok mem prot cap False s" and pid: "-1 \<le> pid" "pid < 66" and p: "p = param_stamp 1 0 (flash_param s)"
    and r: "param_to_flash hw alloc pid 1 0 s = Some (err, s1)"
  shows "param_ok mem prot cap (\<forall>b. copy_damaged (param_copy mem s b)) s1 \<and> flash_param s1 = p \<and>
    param_copy mem s1 False = param_copy mem s False \<and> (err = 0 \<longrightarrow> param_copy mem s1 True = param_bytes p)"
proof -
  have s: "param_wf prot cap s" "\<And>b. copy_sound b (param_copy mem s b)" using ok by (auto simp: param_ok_iff)
  have d: "copy_older p (param_copy mem s True) \<and> copy_older p (param_copy mem s False)"
    if "\<forall>b. copy_damaged (param_copy mem s b)" using that copy_older_damaged by blast
  have "partition_num p \<in> {0, 1}" by (simp add: p)
  from to_flash_ok [OF s pid p this d r] show ?thesis by (simp add: p)
qed

lemma defaults_second:
  assumes ok: "param_ok mem prot cap False s" and pid: "-1 \<le> pid" "pid < 66"
    and r1: "param_to_flash hw alloc pid 1 0 s = Some (0, s1)"
    and r2: "param_to_flash hw alloc' pid 1 1 s1 = Some (err, s2)"
  shows "param_ok mem prot cap (err = 0 \<or> (\<forall>b. copy_damaged (param_copy mem s b))) s2"
proof -
  let ?p = "param_stamp 1 0 (flash_param s)"
  let ?q = "param_stamp 1 1 ?p"
  note 1 = defaults_first [OF ok pid refl r1]
  have l: "length (parameters ?p) = 2016" "length (parameters ?q) = 2016" using ok by (simp_all add: param_ok_iff param_wf_def)
  have s1: "param_wf prot cap s1" "\<And>b. copy_sound b (param_copy mem s1 b)" using 1 by (auto simp: param_ok_iff)
  have q: "?q = param_stamp 1 1 (flash_param s1)" "partition_num ?q \<in> {0, 1}" using 1 by simp_all
  have older: "copy_older ?q (param_bytes ?p)" "copy_older ?q (param_bytes ?q)" using l by (simp_all add: copy_older_def)
  from to_flash_ok [where k = False, OF s1 pid q _ r2]
  have 2: "param_ok mem prot cap False s2" "flash_param s2 = ?q" "param_copy mem s2 True = param_bytes ?p"
    "param_copy mem s2 False \<in> {param_bytes ?q, param_copy mem s False}" "err = 0 \<longrightarrow> param_copy mem s2 False = param_bytes ?q"
    using 1 by auto
  have "copy_older ?q (param_copy mem s2 b)" if "err = 0 \<or> (\<forall>b. copy_damaged (param_copy mem s b))" for b
    using that 2(3-5) older copy_older_damaged by (cases b) auto
  with 2(1,2) show ?thesis by (simp add: param_ok_iff)
qed

lemma to_default_ok:
  assumes ok: "param_ok mem prot cap k s" and r: "tls_param_to_default hw alloc s = Some (err, s')"
  shows "param_ok mem prot cap (err = 0) s'"
proof -
  let ?s = "tls_param_load_factory_default s"
  have ok': "param_ok mem prot cap False ?s"
    using ok by (auto simp: param_ok_iff tls_param_load_factory_default_def param_wf_def param_copy_def)
  obtain e1 s1 where 1: "param_to_flash hw alloc (-1) 1 0 ?s = Some (e1, s1)"
    using r by (auto simp: tls_param_to_default_def bind_eq_Some_conv)
  show ?thesis
  proof (cases "e1 = 0")
    case False
    then have "err = e1" "s' = s1" using r 1 by (auto simp: tls_param_to_default_def)
    moreover have "param_ok mem prot cap False s1"
      using defaults_first [OF ok' _ _ refl 1] param_ok_weaken by fastforce
    ultimately show ?thesis using False by simp
  next
    case True
    obtain s2 where 2: "param_to_flash hw (\<lambda>k. alloc (k + 2)) (-1) 1 1 s1 = Some (err, s2)"
      "s' = s2\<lparr>flash_param := (flash_param s2)\<lparr>magic := 0\<rparr>\<rparr>"
      using r 1 True by (auto simp: tls_param_to_default_def bind_eq_Some_conv)
    have "param_ok mem prot cap (err = 0) s2"
      using defaults_second [OF ok' _ _ _ 2(1)] 1 True param_ok_weaken by fastforce
    then show ?thesis using param_ok_cong [of s' s2] 2(2) by simp
  qed
qed

end

end
