(* ===== verification/Param_Reach.thy ===== *)
theory Param_Reach
  imports Param_Persist
begin

text \<open>
  The life of the parameters over many operations and power cycles: the states that
  initialisation, setting, saving, restoring the defaults and reboots lead to, the invariant
  they keep, and what a reboot finds after a completed and after an interrupted write.
\<close>

unbundle bit_operations_syntax

text \<open>A power cycle: the flash keeps its contents, the variables in RAM are cleared.\<close>

definition power_cycle :: "'c prm \<Rightarrow> 'c prm" where
  "power_cycle s = s\<lparr>flash_param := param_zero, sys_param_lock := None, user_default_param := None, updp_mode := 0\<rparr>"

lemma power_cycle_simps [simp]:
  "pfls (power_cycle s) = pfls s" "lay (power_cycle s) = lay s" "flash_param (power_cycle s) = param_zero"
  "param_copy mem (power_cycle s) b = param_copy mem s b"
  by (simp_all add: power_cycle_def param_copy_def)

lemma param_wf_power_cycle [simp]: "param_wf prot cap s \<Longrightarrow> param_wf prot cap (power_cycle s)"
  by (simp add: param_wf_def)

lemma magic_zero [simp]: "magic param_zero = 0" "modify_count param_zero = 0"
  by (simp_all add: param_zero_def)

text \<open>The runs of a device. A run begins with a reset on a flash whose two copies are each damaged (an
  erased sector included) or intact; then the operations come in any order, with any allocation and
  the creation of the semaphore failing or not, and the power may be lost between them. The flag
  says that the counter in RAM is in step with the copies: \<^verbatim>\<open>tls_param_init\<close> that gets through
  without a wrap of the counter and \<^verbatim>\<open>tls_param_to_default\<close> that succeeds set it; a wrap, a failed
  \<^verbatim>\<open>tls_param_to_default\<close>, an initialisation without memory and the loss of power clear it.\<close>

inductive param_reach ::
    "'c flash_hw \<Rightarrow> ('c \<Rightarrow> nat \<Rightarrow> u8) \<Rightarrow> ('c \<Rightarrow> nat \<Rightarrow> bool) \<Rightarrow> nat \<Rightarrow> (u8 list \<Rightarrow> u32) \<Rightarrow> bool \<Rightarrow> 'c prm \<Rightarrow> bool"
  for hw mem prot cap crc where
    Reset: "\<lbrakk>param_wf prot cap s; \<forall>b. copy_sound b (param_copy mem s b); flash_param s = param_zero\<rbrakk> \<Longrightarrow>
      param_reach hw mem prot cap crc False s"
  | Init: "\<lbrakk>param_reach hw mem prot cap crc k s; tls_param_init hw crc alloc sem_ok s = Some (err, s');
      k' \<longleftrightarrow> (if err = TLS_PARAM_STATUS_EPERM then k
             else err \<noteq> TLS_PARAM_STATUS_EMEM \<and>
               (\<forall>b. copy_intact (param_copy mem s b) \<longrightarrow> modify_count (param_of_bytes (param_copy mem s b)) \<noteq> 0xFFFF))\<rbrakk> \<Longrightarrow>
      param_reach hw mem prot cap crc k' s'"
  | Set: "\<lbrakk>param_reach hw mem prot cap crc k s; \<And>v. argv = Some v \<Longrightarrow> param_arg_ok pid v;
      tls_param_set hw alloc pid argv to_flash s = Some (err, s')\<rbrakk> \<Longrightarrow>
      param_reach hw mem prot cap crc (k \<and> modify_count (flash_param s) \<le> modify_count (flash_param s')) s'"
  | Get: "\<lbrakk>param_reach hw mem prot cap crc k s; tls_param_get hw alloc_ok pid from_flash s = (err, v, s')\<rbrakk> \<Longrightarrow>
      param_reach hw mem prot cap crc k s'"
  | Save: "\<lbrakk>param_reach hw mem prot cap crc k s; tls_param_to_flash hw alloc pid s = Some (err, s')\<rbrakk> \<Longrightarrow>
      param_reach hw mem prot cap crc (k \<and> modify_count (flash_param s) \<le> modify_count (flash_param s')) s'"
  | Load: "param_reach hw mem prot cap crc k s \<Longrightarrow> param_reach hw mem prot cap crc k (tls_param_load_factory_default s)"
  | Default: "\<lbrakk>param_reach hw mem prot cap crc k s; tls_param_to_default hw alloc s = Some (err, s')\<rbrakk> \<Longrightarrow>
      param_reach hw mem prot cap crc (err = TLS_PARAM_STATUS_OK) s'"
  | Mode: "param_reach hw mem prot cap crc k s \<Longrightarrow> param_reach hw mem prot cap crc k (tls_param_set_updp_mode m s)"
  | Power: "param_reach hw mem prot cap crc k s \<Longrightarrow> param_reach hw mem prot cap crc False (power_cycle s)"

lemma param_best_both:
  assumes "\<And>b. copy_intact (param_copy mem s b)"
  shows "param_best mem s =
    (if modify_count (param_of_bytes (param_copy mem s True)) < modify_count (param_of_bytes (param_copy mem s False))
     then param_of_bytes (param_copy mem s False) else param_of_bytes (param_copy mem s True))"
proof -
  have "magic (param_of_bytes (param_copy mem s True)) \<noteq> 0" using assms [of True] by (simp add: copy_intact_def)
  then show ?thesis using assms by (simp add: param_best_def param_newer_def)
qed

lemma param_best_newer:
  assumes "\<And>b. copy_intact (param_copy mem s b)"
    "modify_count (param_of_bytes (param_copy mem s (\<not> b))) < modify_count (param_of_bytes (param_copy mem s b))"
  shows "param_best mem s = param_of_bytes (param_copy mem s b)"
  using assms(2) by (cases b) (auto simp: param_best_both [OF assms(1)])

lemma u16_max: "0xFFFF \<le> n \<Longrightarrow> n = 0xFFFF" for n :: u16
proof -
  assume "0xFFFF \<le> n"
  moreover have "unat n < 65536" using unsigned_less [of n] by simp
  ultimately show ?thesis by (simp add: word_le_nat_alt word_unat_eq_iff)
qed

lemma two_copies:
  assumes "D True \<or> I True" "D False \<or> I False"
  obtains (both) "\<And>b. I b" | (one) b where "D b" "I (\<not> b)" | (none) "\<And>b. D b"
proof (cases "I True \<and> I False")
  case True
  then have "I b" for b by (cases b) auto
  then show thesis by (rule both)
next
  case False
  show thesis
  proof (cases "D True \<and> D False")
    case True
    then have "D b" for b by (cases b) auto
    then show thesis by (rule none)
  next
    case other: False
    then show thesis using False assms one [of True] one [of False] by auto
  qed
qed

context spi_nor
begin

text \<open>Initialisation with any allocations: it ends early and leaves an empty structure in RAM, or it has loaded
  the better copy and repairs what is damaged as far as the memory allows.\<close>

lemma init_repaired_ok:
  assumes wf: "param_wf prot cap t" and c: "\<And>b. copy_sound b (param_copy mem t b)" and m: "flash_param t = param_best mem t"
    and n: "k \<Longrightarrow> \<forall>b. copy_intact (param_copy mem t b) \<longrightarrow> modify_count (param_of_bytes (param_copy mem t b)) \<noteq> 0xFFFF"
    and i: "copy_intact (param_copy mem t b0)"
    and r: "param_restore hw alloc (\<not> copy_intact (param_copy mem t True)) (\<not> copy_intact (param_copy mem t False)) t = Some (err, s')"
  shows "param_ok mem prot cap k s'"
proof -
  have dc: "copy_damaged (param_copy mem t b) \<or> copy_intact (param_copy mem t b)" for b by (rule copy_sound_cases [OF c])
  consider (both) "\<And>b. copy_intact (param_copy mem t b)" | (one) b where "copy_damaged (param_copy mem t b)" "copy_intact (param_copy mem t (\<not> b))"
    using two_copies [of "\<lambda>b. copy_damaged (param_copy mem t b)" "\<lambda>b. copy_intact (param_copy mem t b)"] dc i copy_damaged_not_intact by metis
  then show ?thesis
  proof cases
    case both
    then have s': "s' = t" using r by (simp add: param_restore_none)
    have "partition_num (param_best mem t) \<in> {0, 1}"
      using c [of True] c [of False] both copy_damaged_not_intact by (auto simp: param_best_both [OF both] copy_sound_def)
    moreover have "copy_older (param_best mem t) (param_copy mem t b)" for b
      by (cases b) (auto simp: param_best_both [OF both] copy_older_def)
    ultimately show ?thesis using wf c m by (simp add: s' param_ok_iff)
  next
    case (one b)
    let ?q = "param_of_bytes (param_copy mem t (\<not> b))"
    let ?p = "param_stamp (-1) (if b then 0 else 1) (flash_param t)"
    have q: "flash_param t = ?q" unfolding m by (rule param_best_one [OF one])
    have nb: "copy_intact (param_copy mem t True) \<longleftrightarrow> \<not> b" "copy_intact (param_copy mem t False) \<longleftrightarrow> b"
      using one copy_damaged_not_intact by (cases b; auto)+
    obtain err' where r': "param_to_flash hw (\<lambda>k. alloc (k + (if b then 1 else 3))) (-1) (-1) (if b then 0 else 1) t = Some (err', s')"
      using r unfolding nb by (cases b) (auto simp: param_restore_def bind_eq_Some_conv split: if_splits)
    have older: "copy_older ?p (param_copy mem t True) \<and> copy_older ?p (param_copy mem t False)" if k
    proof -
      have "copy_older ?p (param_copy mem t (\<not> b))"
        using count_next [of "modify_count ?q"] n [OF that] one(2) by (auto simp: copy_older_def q)
      then show ?thesis using copy_older_damaged [OF one(1)] by (cases b) auto
    qed
    have "partition_num ?p \<in> {0, 1}" by simp
    from to_flash_ok [OF wf c _ _ refl this older r'] show ?thesis by simp
  qed
qed

lemma init_defaults_ok:
  assumes wf: "param_wf prot cap t" and c: "\<And>b. copy_damaged (param_copy mem t b)" and m: "flash_param t = param_zero"
    and r: "param_write_defaults hw alloc t = Some (err, s')"
  shows "param_ok mem prot cap k s'"
proof -
  let ?t = "tls_param_load_factory_default t"
  have d: "\<forall>b. copy_damaged (param_copy mem ?t b)" using c by (simp add: tls_param_load_factory_default_def param_copy_def)
  have "param_wf prot cap ?t" "partition_num (flash_param ?t) \<in> {0, 1}"
    using wf m by (simp_all add: tls_param_load_factory_default_def param_wf_def param_zero_def)
  then have ok: "param_ok mem prot cap False ?t" using d by (simp add: param_ok_iff copy_sound_def)
  obtain e1 s1 where 1: "param_to_flash hw (\<lambda>k. alloc (k + 1)) (-1) 1 0 ?t = Some (e1, s1)"
    using r by (auto simp: param_write_defaults_def bind_eq_Some_conv)
  show ?thesis
  proof (cases "e1 = 0")
    case False
    then have "s' = s1" using r 1 by (auto simp: param_write_defaults_def)
    then show ?thesis using defaults_first [OF ok _ _ refl 1] d param_ok_weaken by fastforce
  next
    case True
    then obtain e2 where "param_to_flash hw (\<lambda>k. alloc (k + 3)) (-1) 1 1 s1 = Some (e2, s')"
      using r 1 by (auto simp: param_write_defaults_def bind_eq_Some_conv)
    then show ?thesis using defaults_second [OF ok _ _ 1 [unfolded True]] d param_ok_weaken by fastforce
  qed
qed

lemma init_loaded_ok:
  assumes wf: "param_wf prot cap s" and crc: "crc_engine crc" and m: "magic (flash_param s) \<noteq> TLS_PARAM_MAGIC" and a: "alloc 0"
    and c: "\<And>b. copy_sound b (param_copy mem s b)"
    and n: "k \<Longrightarrow> \<forall>b. copy_intact (param_copy mem s b) \<longrightarrow> modify_count (param_of_bytes (param_copy mem s b)) \<noteq> 0xFFFF"
    and r: "tls_param_init hw crc alloc True s = Some (err, s')"
  shows "param_ok mem prot cap k s'"
proof -
  have dc: "copy_damaged (param_copy mem s b) \<or> copy_intact (param_copy mem s b)" for b by (rule copy_sound_cases [OF c])
  let ?d = "\<lambda>b. \<not> copy_intact (param_copy mem s b)"
  let ?t = "\<lambda>f. (param_boot s)\<lparr>flash_param := param_best mem s, pfls := f\<rparr>"
  let ?w = "\<lambda>f. if ?d True \<and> ?d False then param_write_defaults hw alloc (?t f) else param_restore hw alloc (?d True) (?d False) (?t f)"
  obtain f where f: "tls_param_init hw crc alloc True s = ?w f \<bind> (\<lambda>(err, s'). Some (err, prm_release s'))" "kept mem prot (pfls s) f"
    using tls_param_init_loaded [where alloc = alloc, OF wf crc m a dc] by blast
  then obtain s1 where s1: "?w f = Some (err, s1)" "s' = prm_release s1"
    using r by (cases "?w f") auto
  have lb: "length (parameters (param_best mem s)) = 2016" by (simp add: param_best_def length_param_newer)
  have wt: "param_wf prot cap (?t f)" using param_wf_kept [OF param_wf_boot [OF wf], of f] f(2) lb by simp
  have co: "param_copy mem (?t f) b = param_copy mem s b" for b using f(2) by (simp add: param_copy_def kept_def)
  have best: "param_best mem (?t f) = param_best mem s" unfolding param_best_def [of mem "?t f"] co by (simp add: param_best_def)
  have "param_ok mem prot cap k s1"
  proof (cases "?d True \<and> ?d False")
    case True
    then have nb: "\<not> copy_intact (param_copy mem s b)" for b by (cases b) auto
    show ?thesis
      by (rule init_defaults_ok [OF wt, of alloc err]) (use s1 True nb dc co in \<open>auto simp: param_best_def param_newer_def\<close>)
  next
    case False
    then obtain b0 where b0: "copy_intact (param_copy mem (?t f) b0)" using co by auto
    have r1: "param_restore hw alloc (\<not> copy_intact (param_copy mem (?t f) True)) (\<not> copy_intact (param_copy mem (?t f) False)) (?t f) = Some (err, s1)"
      using s1(1) False unfolding co by simp
    show ?thesis by (rule init_repaired_ok [OF wt _ _ _ b0 r1]) (use c n in \<open>simp_all add: best co\<close>)
  qed
  then show ?thesis by (simp add: s1(2))
qed

lemma init_ok:
  assumes ok: "param_ok mem prot cap k s" and crc: "crc_engine crc"
    and r: "tls_param_init hw crc alloc sem_ok s = Some (err, s')"
    and k': "k' \<longleftrightarrow> (if err = TLS_PARAM_STATUS_EPERM then k
      else err \<noteq> TLS_PARAM_STATUS_EMEM \<and>
        (\<forall>b. copy_intact (param_copy mem s b) \<longrightarrow> modify_count (param_of_bytes (param_copy mem s b)) \<noteq> 0xFFFF))"
  shows "param_ok mem prot cap k' s'"
proof -
  have s: "param_wf prot cap s" "\<And>b. copy_sound b (param_copy mem s b)" using ok by (simp_all add: param_ok_iff)
  consider "magic (flash_param s) = TLS_PARAM_MAGIC \<or> \<not> sem_ok" | "magic (flash_param s) \<noteq> TLS_PARAM_MAGIC" "sem_ok" "\<not> alloc 0"
    | "magic (flash_param s) \<noteq> TLS_PARAM_MAGIC" "sem_ok" "alloc 0" by blast
  then show ?thesis
  proof cases
    case 1
    then have "s' = s \<and> (k' \<longrightarrow> k)" using r by (auto simp: tls_param_init_def k' split: if_splits)
    with ok show ?thesis using param_ok_weaken by blast
  next
    case 2
    then have s': "s' = s\<lparr>sys_param_lock := Some 0, flash_param := param_zero\<rparr>" and "\<not> k'"
      using r by (auto simp: tls_param_init_def k' Let_def prm_acquire_def prm_release_def)
    then show ?thesis using s by (simp add: param_ok_iff param_wf_def param_copy_def) (simp add: param_zero_def)
  next
    case 3
    then have "err \<noteq> TLS_PARAM_STATUS_EPERM"
      using r by (auto simp: tls_param_init_def Let_def bind_eq_Some_conv param_write_defaults_def param_restore_def split: if_splits)
    then have n: "\<forall>b. copy_intact (param_copy mem s b) \<longrightarrow> modify_count (param_of_bytes (param_copy mem s b)) \<noteq> 0xFFFF" if k'
      using that unfolding k' by simp
    have "tls_param_init hw crc alloc True s = Some (err, s')" using r 3(2) by simp
    from init_loaded_ok [where alloc = alloc, OF s(1) crc 3(1,3) s(2) n this] show ?thesis .
  qed
qed

lemma param_reach_ok:
  assumes crc: "crc_engine crc" and "param_reach hw mem prot cap crc k s"
  shows "param_ok mem prot cap k s"
  using assms(2)
proof induction
  case (Reset s)
  then show ?case by (simp add: param_ok_iff) (simp add: param_zero_def)
next
  case (Init k s alloc sem_ok err s' k')
  show ?case by (rule init_ok [OF Init.IH crc Init.hyps(2,3)])
next
  case (Set k s argv pid alloc to_flash err s')
  show ?case by (rule set_ok [OF Set.IH Set.hyps(2,3)])
next
  case (Get k s alloc_ok pid from_flash err v s')
  show ?case by (rule get_ok [OF Get.IH Get.hyps(2)])
next
  case (Save k s alloc pid err s')
  show ?case by (rule save_ok [OF Save.IH Save.hyps(2)])
next
  case (Load k s)
  then show ?case by (simp add: param_ok_iff tls_param_load_factory_default_def param_wf_def param_copy_def copy_older_def)
next
  case (Default k s alloc err s')
  show ?case by (rule to_default_ok [OF Default.IH Default.hyps(2)])
next
  case (Mode k s m)
  then show ?case using param_ok_cong [of "tls_param_set_updp_mode m s" s] by (simp add: tls_param_set_updp_mode_def)
next
  case (Power k s)
  then show ?case by (simp add: param_ok_iff) (simp add: param_zero_def)
qed

lemma param_reach_inv_lemma:
  "crc_engine crc \<Longrightarrow> param_reach hw mem prot cap crc True s \<Longrightarrow> param_inv mem prot cap s"
  using param_reach_ok [of crc True s] by (simp add: param_ok_def)

lemma set_flash_spec:
  assumes inv: "param_wf prot cap s" "partition_num (flash_param s) \<in> {0, 1}" and a: "\<And>k. alloc k" and u: "updp_mode s = 0"
    and v: "param_arg_ok pid v" "-1 \<le> pid" "pid < 66" "param_store pid v (parameters (flash_param s)) = Some q"
    and p: "p = param_stamp (-1) (-1) ((flash_param s)\<lparr>parameters := q\<rparr>)"
    and b: "b \<longleftrightarrow> partition_num (flash_param s) \<noteq> 0"
  shows "\<exists>f. tls_param_set hw alloc pid (Some v) True s = Some (0, s\<lparr>flash_param := p, pfls := f\<rparr>) \<and>
    param_copy mem (s\<lparr>flash_param := p, pfls := f\<rparr>) b = param_bytes p \<and>
    param_copy mem (s\<lparr>flash_param := p, pfls := f\<rparr>) (\<not> b) = param_copy mem s (\<not> b) \<and>
    param_wf prot cap (s\<lparr>flash_param := p, pfls := f\<rparr>)"
proof -
  let ?s1 = "(prm_acquire s)\<lparr>flash_param := (flash_param s)\<lparr>parameters := q\<rparr>\<rparr>"
  have lp: "length (parameters (flash_param s)) = 2016" using inv(1) by (simp add: param_wf_def)
  have "length q = 2016" by (rule param_store_ok [OF v(1) lp v(4)])
  then have wf1: "param_wf prot cap ?s1" using inv(1) by (simp add: param_wf_def)
  have "b \<longleftrightarrow> partition_num p = 0" using partition_toggle [OF inv(2)] by (auto simp: p b)
  then obtain f where f: "param_to_flash hw alloc pid (-1) (-1) ?s1 = Some (0, ?s1\<lparr>flash_param := p, pfls := f\<rparr>)"
    "param_copy mem (?s1\<lparr>flash_param := p, pfls := f\<rparr>) b = param_bytes p"
    "param_copy mem (?s1\<lparr>flash_param := p, pfls := f\<rparr>) (\<not> b) = param_copy mem s (\<not> b)"
    "param_wf prot cap (?s1\<lparr>flash_param := p, pfls := f\<rparr>)"
    using param_to_flash_spec [where alloc = alloc, OF wf1 a a v(2,3), of p "-1" "-1" b] p by (auto simp: param_copy_def)
  have "prm_release (?s1\<lparr>flash_param := p, pfls := f\<rparr>) = s\<lparr>flash_param := p, pfls := f\<rparr>"
    by (cases s) (simp add: prm_release_def prm_acquire_def option.map_comp comp_def option.map_ident)
  then have "tls_param_set hw alloc pid (Some v) True s = Some (0, s\<lparr>flash_param := p, pfls := f\<rparr>)"
    using f(1) v u by (simp add: tls_param_set_def Let_def)
  with f(2-4) show ?thesis by (intro exI [of _ f]) (simp add: param_copy_def param_wf_def)
qed

lemma default_refused:
  assumes wf: "param_wf prot cap s" and a: "\<not> alloc 0"
  shows "\<exists>s1. tls_param_to_default hw alloc s = Some (3, s1) \<and>
    s1 = s\<lparr>flash_param := param_stamp 1 0 ((flash_param s)\<lparr>parameters := factory_default\<rparr>)\<rparr>"
proof -
  obtain f where f: "inside_fls (pfls s) = Some f" "copy_off (lay s) True + 2036 \<le> density f" using param_wf_acc [OF wf] by metis
  then have b: "\<not> bad_args (param_addr (lay s) True) 2036 False (pfls s)" by (simp add: bad_args_def fls_density_def copy_off_def)
  have "fls_release (fls_acquire (pfls s)) = pfls s" by (simp add: fls_acquire_def fls_release_def)
  then show ?thesis using f(1) b a
    by (simp add: tls_param_to_default_def param_to_flash_def tls_param_load_factory_default_def Let_def tls_fls_write_def)
qed

text \<open>A boot with a copy that is newer than the other one, or the only intact one, loads it.\<close>

lemma init_loads_newest:
  assumes wf: "param_wf prot cap s" and crc: "crc_engine crc" and m: "magic (flash_param s) \<noteq> TLS_PARAM_MAGIC" and a: "\<And>k. alloc k"
    and b: "copy_intact (param_copy mem s b)"
    and c: "copy_damaged (param_copy mem s (\<not> b)) \<or> copy_intact (param_copy mem s (\<not> b)) \<and>
      modify_count (param_of_bytes (param_copy mem s (\<not> b))) < modify_count (param_of_bytes (param_copy mem s b))"
  shows "\<exists>s'. tls_param_init hw crc alloc True s = Some (0, s') \<and>
    parameters (flash_param s') = parameters (param_of_bytes (param_copy mem s b)) \<and>
    param_copy mem s' b = param_copy mem s b \<and> copy_intact (param_copy mem s' (\<not> b)) \<and> param_wf prot cap s'"
  using c
proof (elim disjE conjE)
  assume d: "copy_damaged (param_copy mem s (\<not> b))"
  let ?q = "param_of_bytes (param_copy mem s b)"
  obtain f where f: "tls_param_init hw crc alloc True s = Some (0, f)"
    "flash_param f = param_stamp (-1) (if \<not> b then 0 else 1) ?q"
    "param_copy mem f (\<not> b) = param_bytes (flash_param f)" "param_copy mem f b = param_copy mem s b" "param_wf prot cap f"
    using init_one [where alloc = alloc, OF wf crc m a d _ refl] b by auto
  have "copy_intact (param_copy mem f (\<not> b))" unfolding f(3) f(2) by (rule copy_intact_stamp) simp
  with f show ?thesis by auto
next
  assume i: "copy_intact (param_copy mem s (\<not> b))"
    and n: "modify_count (param_of_bytes (param_copy mem s (\<not> b))) < modify_count (param_of_bytes (param_copy mem s b))"
  have all: "copy_intact (param_copy mem s b')" for b' using b i by (cases "b' = b") auto
  let ?best = "param_best mem s"
  have best: "?best = param_of_bytes (param_copy mem s b)" by (rule param_best_newer [OF all n])
  obtain f where f: "tls_param_init hw crc alloc True s = Some (0, s\<lparr>sys_param_lock := Some 0, flash_param := ?best, pfls := f\<rparr>)"
    "kept mem prot (pfls s) f" using init_both [where alloc = alloc, OF wf crc m a all] by blast
  let ?s' = "s\<lparr>sys_param_lock := Some 0, flash_param := ?best, pfls := f\<rparr>"
  have "param_copy mem ?s' b' = param_copy mem s b'" for b' using f(2) by (simp add: param_copy_def kept_def)
  moreover have "param_wf prot cap (s\<lparr>flash_param := ?best, pfls := f\<rparr>)" by (rule param_wf_kept [OF wf f(2)]) (simp add: best)
  then have "param_wf prot cap ?s'" by (simp add: param_wf_def)
  moreover have "parameters (flash_param ?s') = parameters (param_of_bytes (param_copy mem s b))" by (simp add: best)
  ultimately show ?thesis using f(1) all by (intro exI [of _ ?s'] conjI) (simp_all only:)
qed

end

section \<open>Properties\<close>

lemma demo_offsets:
  "copy_off fls_layout_default True = 0x1FC000" "copy_off fls_layout_default False = 0x1FD000"
  by (simp_all add: copy_off_def param_addr_def fls_layout_default_def)

lemma demo_param_wf: "param_wf nor_prot 0x2000000 demo_prm"
  unfolding param_wf_def by (simp add: demo_offsets all_bool_eq)

lemma demo_damaged: "copy_damaged (param_copy cells demo_prm b)"
proof -
  have "mem_read (cells (chip demo_fls)) a n = replicate n 0x5A" for a n by (rule nth_equalityI) simp_all
  then show ?thesis by (simp add: copy_damaged_def param_copy_def param_of_bytes_def un32_def)
qed

text \<open>C6. The invariant of the parameter store over the runs of a device: initialisation, setting (with
  arguments as long as the member), reading, saving, restoring and loading the defaults, switching the
  mode and power cycles between the operations, in any order, on a flash that was erased, damaged or
  written before, with any allocation failing or not. The copies in flash are always damaged or intact and
  numbered by their sector, the state stays well formed and the sector number in RAM is 0 or 1; and
  while the counter in RAM is in step (the flag \<open>k\<close>: the last initialisation got through or the
  defaults were restored, and the 16-bit counter has not wrapped since) no intact copy is newer
  than it, which is what makes the next save the one that a boot finds.\<close>

theorem param_reach_inv:
  assumes "spi_nor hw mem wel prot cap" "crc_engine crc" "param_reach hw mem prot cap crc k s"
  shows "param_wf prot cap s \<and> partition_num (flash_param s) \<in> {0, 1} \<and>
    (\<forall>b. copy_sound b (param_copy mem s b)) \<and> (k \<longrightarrow> (\<forall>b. copy_older (flash_param s) (param_copy mem s b)))"
  using spi_nor.param_reach_ok [OF assms] unfolding param_ok_iff .

abbreviation (input) "sw_crc \<equiv> \<lambda>bs. NOT (get_crc32 bs)"

lemma sw_crc_engine: "crc_engine sw_crc"
  by (simp add: crc_engine_def)

lemma demo_boot:
  obtains s' where "tls_param_init nor_hw sw_crc (\<lambda>_. True) True demo_prm = Some (0, s')"
    "parameters (flash_param s') = factory_default" "modify_count (flash_param s') = 1" "updp_mode s' = 0"
    "param_reach nor_hw cells nor_prot 0x2000000 sw_crc True s'"
proof -
  obtain f where f: "tls_param_init nor_hw sw_crc (\<lambda>_. True) True demo_prm = Some (0, f)"
    "flash_param f = param_stamp 1 1 (param_stamp 1 0 (param_zero\<lparr>parameters := factory_default\<rparr>))" "updp_mode f = 0"
    using nor.init_none [where alloc = "\<lambda>_. True", OF demo_param_wf sw_crc_engine _ _ demo_damaged refl refl]
    by (auto simp: demo_prm_def)
  have "param_reach nor_hw cells nor_prot 0x2000000 sw_crc False demo_prm"
    using demo_param_wf demo_damaged by (intro param_reach.Reset) (simp_all add: copy_sound_def)
  then have "param_reach nor_hw cells nor_prot 0x2000000 sw_crc True f"
    by (rule param_reach.Init [OF _ f(1)]) (use demo_damaged copy_damaged_not_intact in auto)
  with f that show thesis by simp
qed

theorem param_reach_inv_witness:
  "\<exists>s'. tls_param_init nor_hw sw_crc (\<lambda>_. True) True demo_prm = Some (0, s') \<and>
    (\<forall>b. copy_sound b (param_copy cells s' b) \<and> copy_older (flash_param s') (param_copy cells s' b))"
proof -
  obtain s' where "tls_param_init nor_hw sw_crc (\<lambda>_. True) True demo_prm = Some (0, s')"
    "param_reach nor_hw cells nor_prot 0x2000000 sw_crc True s'" by (rule demo_boot)
  with param_reach_inv [OF nor.spi_nor_axioms sw_crc_engine this(2)] show ?thesis by blast
qed

text \<open>C2. A parameter that is set with \<^verbatim>\<open>to_flash\<close> survives a power cycle: from every state
  with the invariant, \<^verbatim>\<open>tls_param_set\<close> returns \<^verbatim>\<open>TLS_PARAM_STATUS_OK\<close>, and when the RAM is lost
  \<^verbatim>\<open>tls_param_init\<close> loads exactly the parameters that were current after the call, whichever
  copy was written and whatever the other copy holds.\<close>

theorem param_set_persists:
  assumes "spi_nor hw mem wel prot cap" "crc_engine crc" "param_inv mem prot cap s" "modify_count (flash_param s) \<noteq> 0xFFFF"
    "updp_mode s = 0" "param_arg_ok pid v" "-1 \<le> pid" "pid < 66" "param_store pid v (parameters (flash_param s)) = Some q"
    "\<And>k. alloc k"
  shows "\<exists>s1 s2. tls_param_set hw alloc pid (Some v) True s = Some (TLS_PARAM_STATUS_OK, s1) \<and>
    tls_param_init hw crc alloc True (power_cycle s1) = Some (TLS_PARAM_STATUS_OK, s2) \<and>
    parameters (flash_param s1) = q \<and> parameters (flash_param s2) = q"
proof -
  define p where "p = param_stamp (-1) (-1) ((flash_param s)\<lparr>parameters := q\<rparr>)"
  define b where "b \<longleftrightarrow> partition_num (flash_param s) \<noteq> 0"
  have wf: "param_wf prot cap s" "partition_num (flash_param s) \<in> {0, 1}" using assms(3) by (simp_all add: param_inv_def)
  have lq: "length q = 2016" using param_store_ok [OF assms(6) _ assms(9)] wf(1) by (simp add: param_wf_def)
  then have lp: "length (parameters p) = 2016" by (simp add: p_def)
  obtain f where f: "tls_param_set hw alloc pid (Some v) True s = Some (0, s\<lparr>flash_param := p, pfls := f\<rparr>)"
    "param_copy mem (s\<lparr>flash_param := p, pfls := f\<rparr>) b = param_bytes p"
    "param_copy mem (s\<lparr>flash_param := p, pfls := f\<rparr>) (\<not> b) = param_copy mem s (\<not> b)"
    "param_wf prot cap (s\<lparr>flash_param := p, pfls := f\<rparr>)"
    using spi_nor.set_flash_spec [where alloc = alloc, OF assms(1) wf assms(10,5,6,7,8,9) p_def b_def] by blast
  let ?s1 = "s\<lparr>flash_param := p, pfls := f\<rparr>"
  have "copy_damaged (param_copy mem s (\<not> b)) \<or> copy_intact (param_copy mem s (\<not> b)) \<and>
      modify_count (param_of_bytes (param_copy mem s (\<not> b))) < modify_count p"
    using assms(3) count_next [OF assms(4)] by (auto simp: param_inv_def copy_sound_def copy_older_def p_def)
  moreover have "copy_intact (param_bytes p)" unfolding p_def by (rule copy_intact_stamp) (simp add: lq)
  ultimately obtain s2 where "tls_param_init hw crc alloc True (power_cycle ?s1) = Some (0, s2)"
    "parameters (flash_param s2) = parameters p"
    using spi_nor.init_loads_newest [where alloc = alloc, OF assms(1) param_wf_power_cycle [OF f(4)] assms(2) _ assms(10), of b] f(2,3) lp by auto
  then show ?thesis using f(1) by (auto simp: p_def)
qed

theorem param_set_persists_witness:
  "\<exists>s0 s1 s2. tls_param_init nor_hw sw_crc (\<lambda>_. True) True demo_prm = Some (0, s0) \<and>
    tls_param_set nor_hw (\<lambda>_. True) 20 (Some [0x61, 0x62, 0]) True s0 = Some (0, s1) \<and>
    tls_param_init nor_hw sw_crc (\<lambda>_. True) True (power_cycle s1) = Some (0, s2) \<and>
    parameters (flash_param s2) = copy_into factory_default 172 [0x61, 0x62, 0] 3"
proof -
  obtain s0 where s0: "tls_param_init nor_hw sw_crc (\<lambda>_. True) True demo_prm = Some (0, s0)"
    "parameters (flash_param s0) = factory_default" "modify_count (flash_param s0) = 1" "updp_mode s0 = 0"
    "param_reach nor_hw cells nor_prot 0x2000000 sw_crc True s0" by (rule demo_boot)
  have "param_inv cells nor_prot 0x2000000 s0"
    by (rule nor.param_reach_inv_lemma [OF sw_crc_engine s0(5)])
  then show ?thesis
    using param_set_persists [OF nor.spi_nor_axioms sw_crc_engine, of s0 20 "[0x61, 0x62, 0]" _ "\<lambda>_. True"] s0(1-4)
    by (auto simp: param_arg_ok_def slot_dnsname param_fits_def cstr_def param_store_def numeral_3_eq_3)
qed

text \<open>C7. Recovery from an interrupted write: when one copy is damaged, in whatever way that
  changes its magic word or its checksum, and the other is intact, \<^verbatim>\<open>tls_param_init\<close> loads the
  intact copy, rewrites the damaged one with the same parameters and leaves the intact one
  alone.\<close>

theorem param_crash_recovery:
  assumes "spi_nor hw mem wel prot cap" "crc_engine crc" "param_wf prot cap s" "magic (flash_param s) \<noteq> TLS_PARAM_MAGIC"
    "copy_damaged (param_copy mem s b)" "copy_intact (param_copy mem s (\<not> b))" "\<And>k. alloc k"
  shows "\<exists>s'. tls_param_init hw crc alloc True s = Some (TLS_PARAM_STATUS_OK, s') \<and>
    parameters (flash_param s') = parameters (param_of_bytes (param_copy mem s (\<not> b))) \<and>
    param_copy mem s' (\<not> b) = param_copy mem s (\<not> b) \<and> copy_intact (param_copy mem s' b) \<and>
    parameters (param_of_bytes (param_copy mem s' b)) = parameters (flash_param s')"
proof -
  let ?p = "param_stamp (-1) (if b then 0 else 1) (param_of_bytes (param_copy mem s (\<not> b)))"
  have l: "length (parameters ?p) = 2016" by simp
  obtain s' where s': "tls_param_init hw crc alloc True s = Some (0, s')" "flash_param s' = ?p" "param_copy mem s' b = param_bytes ?p"
    "param_copy mem s' (\<not> b) = param_copy mem s (\<not> b)"
    using spi_nor.init_one [where alloc = alloc, OF assms(1,3,2,4,7,5,6) refl] by auto
  moreover have "copy_intact (param_bytes ?p)" by (rule copy_intact_stamp) simp
  ultimately show ?thesis using l by (intro exI [of _ s']) simp
qed

text \<open>A device whose flash holds one proper copy, in the first or the second sector.\<close>

definition one_copy :: "bool \<Rightarrow> tls_param_flash \<Rightarrow> nor_chip prm" where
  "one_copy b p = demo_prm\<lparr>pfls := demo_fls\<lparr>chip := (chip demo_fls)\<lparr>cells :=
     mem_write (\<lambda>_. 0x5A) (copy_off fls_layout_default b) (param_bytes p)\<rparr>\<rparr>\<rparr>"

lemma one_copy_simps [simp]:
  "flash_param (one_copy b p) = param_zero" "updp_mode (one_copy b p) = 0" "lay (one_copy b p) = fls_layout_default"
  by (simp_all add: one_copy_def)

lemma one_copy_wf: "param_wf nor_prot 0x2000000 (one_copy b p)"
  using demo_param_wf by (simp add: param_wf_def one_copy_def range_unprotected_def)

lemma one_copy_read:
  assumes "length (parameters p) = 2016"
  shows "param_copy cells (one_copy b p) b = param_bytes p" "copy_damaged (param_copy cells (one_copy b p) (\<not> b))"
proof -
  let ?m = "mem_write (\<lambda>_. 0x5A) (copy_off fls_layout_default b) (param_bytes p)"
  have c: "param_copy cells (one_copy b p) b' = mem_read ?m (copy_off fls_layout_default b') 2036" for b'
    by (simp add: param_copy_def one_copy_def)
  show "param_copy cells (one_copy b p) b = param_bytes p"
    using mem_read_mem_write [of "\<lambda>_. 0x5A" "copy_off fls_layout_default b" "param_bytes p"] assms by (simp add: c)
  have "param_copy cells (one_copy b p) (\<not> b) = param_copy cells demo_prm (\<not> b)"
  proof -
    have "mem_read ?m (copy_off fls_layout_default (\<not> b)) 2036 = mem_read (\<lambda>_. 0x5A) (copy_off fls_layout_default (\<not> b)) 2036"
      by (rule mem_read_mem_write_other) (use assms in \<open>cases b; simp add: demo_offsets\<close>)
    moreover have "cells (chip demo_fls) = (\<lambda>_. 0x5A)" by auto
    ultimately show ?thesis by (simp add: c) (simp add: param_copy_def)
  qed
  then show "copy_damaged (param_copy cells (one_copy b p) (\<not> b))" using demo_damaged by simp
qed

theorem param_crash_recovery_witness:
  "\<exists>s'. tls_param_init nor_hw sw_crc (\<lambda>_. True) True (one_copy False (param_stamp 7 1 (param_zero\<lparr>parameters := factory_default\<rparr>))) = Some (0, s') \<and>
    parameters (flash_param s') = factory_default \<and> copy_intact (param_copy cells s' True)"
proof -
  let ?r = "param_zero\<lparr>parameters := factory_default\<rparr>"
  let ?s = "one_copy False (param_stamp 7 1 ?r)"
  have l: "length (parameters (param_stamp 7 1 ?r)) = 2016" by simp
  have c: "copy_intact (param_copy cells ?s (\<not> True))"
    using one_copy_read(1) [OF l, of False] copy_intact_stamp [of ?r 7 1] by simp
  have d: "copy_damaged (param_copy cells ?s True)" using one_copy_read(2) [OF l, of False] by simp
  show ?thesis
    using param_crash_recovery [where alloc = "\<lambda>_. True", OF nor.spi_nor_axioms sw_crc_engine one_copy_wf _ d c] one_copy_read(1) [OF l, of False] l by auto
qed

text \<open>On a flash without an intact copy (a new device), \<^verbatim>\<open>tls_param_init\<close> loads the factory
  defaults and writes them to both copies with counter 1.\<close>

theorem param_init_defaults:
  assumes "spi_nor hw mem wel prot cap" "crc_engine crc" "param_wf prot cap s" "magic (flash_param s) \<noteq> TLS_PARAM_MAGIC"
    "\<And>b. copy_damaged (param_copy mem s b)" "\<And>k. alloc k"
  shows "\<exists>s'. tls_param_init hw crc alloc True s = Some (TLS_PARAM_STATUS_OK, s') \<and> sys_param_lock s' = Some 0 \<and>
    parameters (flash_param s') = factory_default \<and>
    (\<forall>b. copy_intact (param_copy mem s' b) \<and> modify_count (param_of_bytes (param_copy mem s' b)) = 1 \<and>
         parameters (param_of_bytes (param_copy mem s' b)) = factory_default)"
proof -
  let ?r = "param_zero\<lparr>parameters := factory_default\<rparr>"
  let ?p = "param_stamp 1 0 ?r" and ?q = "param_stamp 1 1 (param_stamp 1 0 ?r)"
  have l: "length (parameters ?p) = 2016" "length (parameters ?q) = 2016" by simp_all
  obtain s' where s': "tls_param_init hw crc alloc True s = Some (0, s')" "sys_param_lock s' = Some 0" "flash_param s' = ?q"
    "param_copy mem s' True = param_bytes ?p" "param_copy mem s' False = param_bytes ?q"
    using spi_nor.init_none [where alloc = alloc, OF assms(1,3,2,4,6,5) refl refl] by auto
  have "copy_intact (param_bytes ?p)" by (rule copy_intact_stamp) simp
  moreover have "copy_intact (param_bytes ?q)" by (rule copy_intact_stamp) simp
  ultimately show ?thesis using s' l by (intro exI [of _ s']) (simp add: all_bool_eq)
qed

theorem param_init_defaults_witness:
  "\<exists>s'. tls_param_init nor_hw sw_crc (\<lambda>_. True) True demo_prm = Some (0, s') \<and> parameters (flash_param s') = factory_default"
  using param_init_defaults [where alloc = "\<lambda>_. True", OF nor.spi_nor_axioms sw_crc_engine demo_param_wf _ demo_damaged] by auto

text \<open>The counter of the copies has 16 bits and is compared without regard to wrap-around:
  the write after counter 65535 stores counter 0, so that the next boot takes the old copy
  for the newer one and the parameters that were just saved are lost.\<close>

theorem param_counter_wrap:
  assumes "spi_nor hw mem wel prot cap" "crc_engine crc" "param_wf prot cap s" "partition_num (flash_param s) \<in> {0, 1}"
    "modify_count (flash_param s) = 0xFFFF" "b \<longleftrightarrow> partition_num (flash_param s) = 0"
    "copy_intact (param_copy mem s b)" "modify_count (param_of_bytes (param_copy mem s b)) = 0xFFFF"
    "updp_mode s = 0" "param_arg_ok pid v" "-1 \<le> pid" "pid < 66" "param_store pid v (parameters (flash_param s)) = Some q"
    "\<And>k. alloc k"
  shows "\<exists>s1 s2. tls_param_set hw alloc pid (Some v) True s = Some (TLS_PARAM_STATUS_OK, s1) \<and> parameters (flash_param s1) = q \<and>
    tls_param_init hw crc alloc True (power_cycle s1) = Some (TLS_PARAM_STATUS_OK, s2) \<and>
    parameters (flash_param s2) = parameters (param_of_bytes (param_copy mem s b))"
proof -
  define p where "p = param_stamp (-1) (-1) ((flash_param s)\<lparr>parameters := q\<rparr>)"
  have lq: "length q = 2016" using param_store_ok [OF assms(10) _ assms(13)] assms(3) by (simp add: param_wf_def)
  then have lp: "length (parameters p) = 2016" by (simp add: p_def)
  have nb: "(\<not> b) \<longleftrightarrow> partition_num (flash_param s) \<noteq> 0" using assms(6) by simp
  obtain f where f: "tls_param_set hw alloc pid (Some v) True s = Some (0, s\<lparr>flash_param := p, pfls := f\<rparr>)"
    "param_copy mem (s\<lparr>flash_param := p, pfls := f\<rparr>) (\<not> b) = param_bytes p"
    "param_copy mem (s\<lparr>flash_param := p, pfls := f\<rparr>) b = param_copy mem s b"
    "param_wf prot cap (s\<lparr>flash_param := p, pfls := f\<rparr>)"
    using spi_nor.set_flash_spec [where alloc = alloc, OF assms(1,3,4,14,9,10,11,12,13) p_def nb] by auto
  let ?s1 = "s\<lparr>flash_param := p, pfls := f\<rparr>"
  have "copy_intact (param_bytes p)" unfolding p_def by (rule copy_intact_stamp) (simp add: lq)
  moreover have "modify_count p = 0" using assms(5) by (simp add: p_def)
  ultimately obtain s2 where "tls_param_init hw crc alloc True (power_cycle ?s1) = Some (0, s2)"
    "parameters (flash_param s2) = parameters (param_of_bytes (param_copy mem s b))"
    using spi_nor.init_loads_newest [where alloc = alloc, OF assms(1) param_wf_power_cycle [OF f(4)] assms(2) _ assms(14), of b]
      f(2,3) lp assms(7,8) by auto
  then show ?thesis using f(1) by (auto simp: p_def)
qed

theorem param_counter_wrap_witness:
  "let p = param_stamp 0xFFFF 0 (param_zero\<lparr>parameters := factory_default\<rparr>);
       s = (one_copy True p)\<lparr>flash_param := p\<rparr>
   in \<exists>s1 s2. tls_param_set nor_hw (\<lambda>_. True) 20 (Some [0x61, 0]) True s = Some (0, s1) \<and>
     tls_param_init nor_hw sw_crc (\<lambda>_. True) True (power_cycle s1) = Some (0, s2) \<and>
     parameters (flash_param s2) = factory_default"
proof -
  let ?r = "param_zero\<lparr>parameters := factory_default\<rparr>"
  let ?p = "param_stamp 0xFFFF 0 ?r"
  let ?s = "(one_copy True ?p)\<lparr>flash_param := ?p\<rparr>"
  have l: "length (parameters ?p) = 2016" by simp
  have r: "param_copy cells ?s True = param_bytes ?p" using one_copy_read(1) [OF l, of True] by (simp add: param_copy_def)
  have c: "copy_intact (param_copy cells ?s True)" unfolding r by (rule copy_intact_stamp) simp
  have wf: "param_wf nor_prot 0x2000000 ?s" using one_copy_wf [of True ?p] by (simp add: param_wf_def)
  have m: "modify_count (param_of_bytes (param_copy cells ?s True)) = 0xFFFF" by (simp add: r param_of_bytes_bytes [OF l])
  show ?thesis unfolding Let_def
    using param_counter_wrap [where alloc = "\<lambda>_. True", OF nor.spi_nor_axioms sw_crc_engine wf _ _ _ c m, of 20 "[0x61, 0]"] l
    by (auto simp: param_arg_ok_def slot_dnsname param_fits_def cstr_def param_store_def r)
qed

text \<open>Restoring the defaults without memory for the write leaves the counter 1 in RAM while the copies in
  flash keep their higher counters: the next save is reported as done, but a boot finds the old copy.\<close>

theorem param_default_fails:
  assumes "spi_nor hw mem wel prot cap" "crc_engine crc" "param_wf prot cap s" "updp_mode s = 0"
    "copy_intact (param_copy mem s True)" "2 < modify_count (param_of_bytes (param_copy mem s True))"
    "param_arg_ok pid v" "-1 \<le> pid" "pid < 66" "param_store pid v factory_default = Some q" "\<not> alloc 0" "\<And>k. alloc' k"
  shows "\<exists>s1 s2 s3. tls_param_to_default hw alloc s = Some (TLS_PARAM_STATUS_EIO, s1) \<and>
    tls_param_set hw alloc' pid (Some v) True s1 = Some (TLS_PARAM_STATUS_OK, s2) \<and> parameters (flash_param s2) = q \<and>
    tls_param_init hw crc alloc' True (power_cycle s2) = Some (TLS_PARAM_STATUS_OK, s3) \<and>
    parameters (flash_param s3) = parameters (param_of_bytes (param_copy mem s True))"
proof -
  let ?p = "param_stamp 1 0 ((flash_param s)\<lparr>parameters := factory_default\<rparr>)"
  obtain s1 where s1: "tls_param_to_default hw alloc s = Some (3, s1)" "s1 = s\<lparr>flash_param := ?p\<rparr>"
    using spi_nor.default_refused [where alloc = alloc, OF assms(1,3,11)] by blast
  have wf1: "param_wf prot cap s1" "partition_num (flash_param s1) \<in> {0, 1}" "updp_mode s1 = 0"
    "param_store pid v (parameters (flash_param s1)) = Some q"
    using assms(3,4,10) by (simp_all add: s1(2) param_wf_def)
  define p where "p = param_stamp (-1) (-1) ((flash_param s1)\<lparr>parameters := q\<rparr>)"
  have b: "False \<longleftrightarrow> partition_num (flash_param s1) \<noteq> 0" by (simp add: s1(2))
  obtain f where f: "tls_param_set hw alloc' pid (Some v) True s1 = Some (0, s1\<lparr>flash_param := p, pfls := f\<rparr>)"
    "param_copy mem (s1\<lparr>flash_param := p, pfls := f\<rparr>) False = param_bytes p"
    "param_copy mem (s1\<lparr>flash_param := p, pfls := f\<rparr>) True = param_copy mem s1 True"
    "param_wf prot cap (s1\<lparr>flash_param := p, pfls := f\<rparr>)"
    using spi_nor.set_flash_spec [where alloc = alloc', OF assms(1) wf1(1,2) assms(12) wf1(3) assms(7-9) wf1(4) p_def b] by auto
  have "length q = 2016" using param_store_ok [OF assms(7) _ assms(10)] by simp
  then have "copy_intact (param_bytes p)" "length (parameters p) = 2016" unfolding p_def by (simp_all add: copy_intact_stamp)
  moreover have "modify_count p = 2" by (simp add: p_def s1(2))
  moreover have "param_copy mem s1 True = param_copy mem s True" by (simp add: s1(2) param_copy_def)
  ultimately obtain s3 where "tls_param_init hw crc alloc' True (power_cycle (s1\<lparr>flash_param := p, pfls := f\<rparr>)) = Some (0, s3)"
    "parameters (flash_param s3) = parameters (param_of_bytes (param_copy mem s True))"
    using spi_nor.init_loads_newest [where alloc = alloc', OF assms(1) param_wf_power_cycle [OF f(4)] assms(2) _ assms(12), of True]
      f(2,3) assms(5,6) by auto
  then show ?thesis using s1(1) f(1) by (auto simp: p_def)
qed

theorem param_default_fails_witness:
  "\<exists>s1 s2 s3. tls_param_to_default nor_hw (\<lambda>_. False) (one_copy True (param_stamp 7 0 (param_zero\<lparr>parameters := factory_default\<rparr>))) = Some (3, s1) \<and>
    tls_param_set nor_hw (\<lambda>_. True) 20 (Some [0x61, 0]) True s1 = Some (0, s2) \<and>
    tls_param_init nor_hw sw_crc (\<lambda>_. True) True (power_cycle s2) = Some (0, s3) \<and> parameters (flash_param s3) = factory_default"
proof -
  let ?r = "param_zero\<lparr>parameters := factory_default\<rparr>"
  let ?p = "param_stamp 7 0 ?r"
  have l: "length (parameters ?p) = 2016" by simp
  note r = one_copy_read(1) [OF l, of True]
  have c: "copy_intact (param_copy cells (one_copy True ?p) True)" unfolding r by (rule copy_intact_stamp) simp
  have m: "2 < modify_count (param_of_bytes (param_copy cells (one_copy True ?p) True))" by (simp add: r param_of_bytes_bytes [OF l])
  show ?thesis
    using param_default_fails [where alloc = "\<lambda>_. False" and alloc' = "\<lambda>_. True", OF nor.spi_nor_axioms sw_crc_engine one_copy_wf _ c m, of 20 "[0x61, 0]"] l
    by (auto simp: param_arg_ok_def slot_dnsname param_fits_def cstr_def param_store_def r)
qed

end
