(* ===== verification/Param_User.thy ===== *)
theory Param_User
  imports Param_Access
begin

text \<open>
  The user defaults: \<^verbatim>\<open>tls_param_save_user_default\<close> stores a magic word, the parameter structure
  and its CRC-32 with three writes, \<^verbatim>\<open>tls_param_load_user\<close> reads and checks them.
\<close>

unbundle bit_operations_syntax

context spi_nor
begin

lemma write_in:
  assumes f: "inside_fls t = Some f" "density f \<le> cap" and d: "drv t = drv s" "prot (chip t) = prot (chip s)"
    and r: "addr mod 0x8000000 + n \<le> density f" "range_unprotected prot s (addr mod 0x8000000) n"
    and k: "0 < length bs" "k + length bs \<le> n" and m: "mem (chip t) = mem_write m0 (addr mod 0x8000000) pre" "length pre = k"
  shows "\<exists>t'. tls_fls_write hw True (addr + k) (Some bs) (length bs) t = Some (0, t') \<and>
    mem (chip t') = mem_write m0 (addr mod 0x8000000) (pre @ bs) \<and> prot (chip t') = prot (chip s) \<and> drv t' = drv s"
proof -
  have "addr mod 0x8000000 + k < 0x8000000" using k r(1) f(2) cap_bound by linarith
  then have a: "(addr + k) mod 0x8000000 = addr mod 0x8000000 + k" by (rule mod_add_small)
  have "range_unprotected prot t (addr mod 0x8000000 + k) (length bs)"
    by (rule range_unprotected_sub [OF r(2)]) (use k d in auto)
  with write_spec [OF f, of "length bs" bs "addr + k"] k r a m mem_write_append [of m0 "addr mod 0x8000000" pre bs] d
  show ?thesis by auto
qed

lemma read_in:
  assumes f: "inside_fls (pfls t) = Some f" "density f \<le> cap" and d: "off mod 0x8000000 + k + length buf \<le> density f"
    and l: "0 < length buf"
  shows "\<exists>g. read_over hw al True (off + k) buf t = (mem_read (mem (chip (pfls t))) (off mod 0x8000000 + k) (length buf), t\<lparr>pfls := g\<rparr>) \<and>
    kept mem prot (pfls t) g"
proof -
  have "off mod 0x8000000 + k < 0x8000000" using d f(2) l cap_bound by linarith
  then have a: "(off + k) mod 0x8000000 = off mod 0x8000000 + k" by (rule mod_add_small)
  obtain g where "tls_fls_read hw al True (off + k) False (length buf) (pfls t) =
      (0, mem_read (mem (chip (pfls t))) (off mod 0x8000000 + k) (length buf), g)" "kept mem prot (pfls t) g"
    using read_spec [OF f, of "length buf" "off + k" True al] d l a by auto
  then show ?thesis by (intro exI [of _ g]) (simp add: read_over_def)
qed

lemma save_user_default_spec:
  assumes f: "inside_fls (pfls s) = Some f" "density f \<le> cap"
    and r: "unat (TLS_FLASH_PARAM_DEFAULT (lay s)) mod 0x8000000 + 2024 \<le> density f"
      "range_unprotected prot (pfls s) (unat (TLS_FLASH_PARAM_DEFAULT (lay s)) mod 0x8000000) 2024"
    and u: "user_default_param s = Some param" "length param = 2016" and a: "\<And>k. alloc k"
  shows "\<exists>g. tls_param_save_user_default hw alloc s = Some (0, s\<lparr>pfls := g\<rparr>) \<and>
    mem (chip g) = mem_write (mem (chip (pfls s))) (unat (TLS_FLASH_PARAM_DEFAULT (lay s)) mod 0x8000000)
      (le32 TLS_USER_MAGIC @ param @ le32 (get_crc32 param)) \<and> drv g = drv (pfls s)"
proof -
  define off where "off = unat (TLS_FLASH_PARAM_DEFAULT (lay s))"
  note r' = r [folded off_def]
  have i: "inside_fls t = Some f" if "drv t = drv (pfls s)" for t :: "'a fls" using drv_eq_fields(2) [OF that] f(1) by simp
  obtain g1 where 1: "tls_fls_write hw True off (Some (le32 TLS_USER_MAGIC)) 4 (pfls s) = Some (0, g1)"
    "mem (chip g1) = mem_write (mem (chip (pfls s))) (off mod 0x8000000) (le32 TLS_USER_MAGIC)"
    "prot (chip g1) = prot (chip (pfls s))" "drv g1 = drv (pfls s)"
    using write_in [OF f refl refl r', of "le32 TLS_USER_MAGIC" 0 _ "[]"] by auto
  obtain g2 where 2: "tls_fls_write hw True (off + 4) (Some param) 2016 g1 = Some (0, g2)"
    "mem (chip g2) = mem_write (mem (chip (pfls s))) (off mod 0x8000000) (le32 TLS_USER_MAGIC @ param)"
    "prot (chip g2) = prot (chip (pfls s))" "drv g2 = drv (pfls s)"
    using write_in [OF i [OF 1(4)] f(2) 1(4,3) r', of param 4, OF _ _ 1(2)] u(2) by auto
  obtain g3 where 3: "tls_fls_write hw True (off + 2020) (Some (le32 (get_crc32 param))) 4 g2 = Some (0, g3)"
    "mem (chip g3) = mem_write (mem (chip (pfls s))) (off mod 0x8000000) ((le32 TLS_USER_MAGIC @ param) @ le32 (get_crc32 param))"
    "drv g3 = drv (pfls s)"
    using write_in [OF i [OF 2(4)] f(2) 2(4,3) r', of "le32 (get_crc32 param)" 2020, OF _ _ 2(2)] u(2) by auto
  have "tls_param_save_user_default hw alloc s = Some (0, s\<lparr>pfls := g3\<rparr>)"
    using 1(1) 2(1) 3(1) u(1) a by (simp add: tls_param_save_user_default_def off_def add.assoc)
  with 3(2,3) show ?thesis by (intro exI [of _ g3]) (simp add: off_def)
qed

lemma load_user_spec:
  assumes f: "inside_fls (pfls s) = Some f" "density f \<le> cap" and a: "\<And>k. alloc k"
    and r: "unat (TLS_FLASH_PARAM_DEFAULT (lay s)) mod 0x8000000 + 2024 \<le> density f"
    and m: "mem (chip (pfls s)) = mem_write m0 (unat (TLS_FLASH_PARAM_DEFAULT (lay s)) mod 0x8000000)
      (le32 TLS_USER_MAGIC @ param @ le32 (get_crc32 param))" "length param = 2016"
    and j: "length jm = 4" "length jc = 4"
  shows "\<exists>g. tls_param_load_user hw al alloc jm jc s = (0, Some param, s\<lparr>pfls := g\<rparr>) \<and> kept mem prot (pfls s) g"
proof -
  define off where "off = unat (TLS_FLASH_PARAM_DEFAULT (lay s))"
  note r' = r [folded off_def] and m' = m(1) [folded off_def]
  let ?bs = "le32 TLS_USER_MAGIC @ param @ le32 (get_crc32 param)"
  have p: "mem_read (mem (chip (pfls s))) (off mod 0x8000000 + i) n = take n (drop i ?bs)" if "i + n \<le> 2024" for i n
    unfolding m' by (rule mem_read_part) (use that m(2) in simp)
  have i: "inside_fls (pfls t) = Some f" "mem (chip (pfls t)) = mem (chip (pfls s))" if "kept mem prot (pfls s) (pfls t)" for t
    using that drv_eq_fields(2) [of "pfls t" "pfls s"] f(1) by (simp_all add: kept_def)
  obtain g1 where 1: "read_over hw al True off jm s = (le32 TLS_USER_MAGIC, s\<lparr>pfls := g1\<rparr>)" "kept mem prot (pfls s) g1"
    using read_in [OF f, of off 0 jm al] r' j p [of 0 4] by auto
  let ?s1 = "s\<lparr>pfls := g1\<rparr>"
  obtain g2 where 2: "read_over hw al True (off + 4) (replicate 2016 0) ?s1 = (param, s\<lparr>pfls := g2\<rparr>)" "kept mem prot (pfls s) g2"
    using read_in [of ?s1 f off 4 "replicate 2016 0" al] i [of ?s1] f(2) r' 1(2) p [of 4 2016] m(2) by (auto intro: kept_trans)
  let ?s2 = "s\<lparr>pfls := g2\<rparr>"
  obtain g3 where 3: "read_over hw al True (off + 2020) jc ?s2 = (le32 (get_crc32 param), s\<lparr>pfls := g3\<rparr>)" "kept mem prot (pfls s) g3"
    using read_in [of ?s2 f off 2020 jc al] i [of ?s2] f(2) r' 2(2) j p [of 2020 4] m(2) by (auto intro: kept_trans)
  have "un32 (le32 TLS_USER_MAGIC) = TLS_USER_MAGIC" "un32 (le32 (get_crc32 param)) = get_crc32 param"
    using un32_le32 [of TLS_USER_MAGIC "[]"] un32_le32 [of "get_crc32 param" "[]"] by simp_all
  then have "tls_param_load_user hw al alloc jm jc s = (0, Some param, s\<lparr>pfls := g3\<rparr>)"
    using 1(1) 2(1) 3(1) a by (simp add: tls_param_load_user_def Let_def off_def add.assoc)
  with 3(2) show ?thesis by blast
qed

end

text \<open>User defaults that are saved are loaded again: \<^verbatim>\<open>tls_param_save_user_default\<close> and then
  \<^verbatim>\<open>tls_param_load_user\<close> return \<^verbatim>\<open>TLS_PARAM_STATUS_OK\<close> and the same structure, for every
  alignment of the destination and whatever the local variables held before.\<close>

theorem user_default_roundtrip:
  assumes "spi_nor hw mem wel prot cap" "inside_fls (pfls s) = Some f" "density f \<le> cap"
    "unat (TLS_FLASH_PARAM_DEFAULT (lay s)) mod 0x8000000 + 2024 \<le> density f"
    "range_unprotected prot (pfls s) (unat (TLS_FLASH_PARAM_DEFAULT (lay s)) mod 0x8000000) 2024"
    "user_default_param s = Some param" "length param = sizeof_sys_param" "\<And>k. alloc k" "length jm = 4" "length jc = 4"
  shows "\<exists>s1 s2. tls_param_save_user_default hw alloc s = Some (TLS_PARAM_STATUS_OK, s1) \<and>
    tls_param_load_user hw aligned alloc jm jc s1 = (TLS_PARAM_STATUS_OK, Some param, s2)"
proof -
  obtain g where g: "tls_param_save_user_default hw alloc s = Some (0, s\<lparr>pfls := g\<rparr>)"
    "mem (chip g) = mem_write (mem (chip (pfls s))) (unat (TLS_FLASH_PARAM_DEFAULT (lay s)) mod 0x8000000)
      (le32 TLS_USER_MAGIC @ param @ le32 (get_crc32 param))" "drv g = drv (pfls s)"
    using spi_nor.save_user_default_spec [where alloc = alloc, OF assms(1-8)] by blast
  have "inside_fls g = Some f" using drv_eq_fields(2) [OF g(3)] assms(2) by simp
  then show ?thesis
    using spi_nor.load_user_spec [where alloc = alloc and s = "s\<lparr>pfls := g\<rparr>", OF assms(1) _ assms(3,8), of "mem (chip (pfls s))" param jm jc aligned]
      g assms(4,7,9,10) by auto
qed

theorem user_default_roundtrip_witness:
  "\<exists>s1 s2. tls_param_save_user_default nor_hw (\<lambda>_. True) (demo_prm\<lparr>user_default_param := Some (replicate 2016 7)\<rparr>) = Some (0, s1) \<and>
    tls_param_load_user nor_hw False (\<lambda>_. True) [1, 2, 3, 4] [0, 0, 0, 0] s1 = (0, Some (replicate 2016 7), s2)"
  using user_default_roundtrip [where alloc = "\<lambda>_. True" and param = "replicate 2016 7" and s = "demo_prm\<lparr>user_default_param := Some (replicate 2016 7)\<rparr>",
    OF nor.spi_nor_axioms, of _ "[1, 2, 3, 4]" "[0, 0, 0, 0]" False]
  by (auto simp: fls_layout_default_def)

end
