(* ===== verification/Fwup.thy ===== *)
theory Fwup
  imports Param
begin

text \<open>
  The firmware upgrade module \<^verbatim>\<open>platform/common/fwup/wm_fwup.c\<close>: a client opens a session, hands
  over the image in requests of any size, and the upgrade task collects the 64-byte header,
  checks it, programs the image with the fast write functions of the flash driver, verifies
  its CRC in flash and only then writes the flag that tells the boot loader to use it.

  Code that is not part of the repository is an argument: the wireless library (\<open>wifi_api\<close>) and
  the CRC engine (\<open>crc_upd\<close>, the state after a block, as \<^verbatim>\<open>tls_crypto_crc_update\<close> leaves it in the context). \<open>fw_env\<close> gives the outcomes of the memory
  allocations and the previous contents of uninitialised buffers. \<^verbatim>\<open>tls_sys_reset\<close> does not return
  (it ends in \<^verbatim>\<open>while(1);\<close>): the state has \<open>halted\<close> set and the task does nothing further. A
  result \<open>None\<close> means that a call does not return.
\<close>

unbundle bit_operations_syntax

section \<open>Image header\<close>

abbreviation (input) "SIGNATURE_WORD \<equiv> 0xA0FFFF9F :: u32"
abbreviation (input) "FLASH_BASE_ADDR \<equiv> 0x8000000 :: u32"
abbreviation (input) "CODE_UPD_START_ADDR \<equiv> 0x8010000 :: u32"
abbreviation (input) "CODE_RUN_START_ADDR \<equiv> 0x80D0000 :: u32"
abbreviation (input) "USER_ADDR_START \<equiv> 0x81E0000 :: u32"
abbreviation (input) "IMAGE_START_ADDR_MSK \<equiv> 0x400 :: u32"
abbreviation (input) "IMG_TYPE_FLASHBIN0 \<equiv> 1 :: u32"
abbreviation (input) "sizeof_image_header \<equiv> 64 :: nat"

record image_header =
  magic_no :: u32
  img_attr :: u32
  img_addr :: u32
  img_len :: u32
  img_header_addr :: u32
  upgrade_img_addr :: u32
  org_checksum :: u32
  upd_no :: u32
  ver :: "u8 list"
  h_reserved0 :: u32
  h_reserved1 :: u32
  h_next :: u32
  hd_checksum :: u32

definition image_of_bytes :: "u8 list \<Rightarrow> image_header" where
  "image_of_bytes bs =
     \<lparr>magic_no = un32 bs, img_attr = un32 (drop 4 bs), img_addr = un32 (drop 8 bs), img_len = un32 (drop 12 bs),
      img_header_addr = un32 (drop 16 bs), upgrade_img_addr = un32 (drop 20 bs), org_checksum = un32 (drop 24 bs),
      upd_no = un32 (drop 28 bs), ver = take 16 (drop 32 bs), h_reserved0 = un32 (drop 48 bs),
      h_reserved1 = un32 (drop 52 bs), h_next = un32 (drop 56 bs), hd_checksum = un32 (drop 60 bs)\<rparr>"

definition header_bytes :: "image_header \<Rightarrow> u8 list" where
  "header_bytes h = le32 (magic_no h) @ le32 (img_attr h) @ le32 (img_addr h) @ le32 (img_len h) @ le32 (img_header_addr h) @
     le32 (upgrade_img_addr h) @ le32 (org_checksum h) @ le32 (upd_no h) @ ver h @ le32 (h_reserved0 h) @ le32 (h_reserved1 h) @
     le32 (h_next h) @ le32 (hd_checksum h)"

text \<open>The bit fields of \<^verbatim>\<open>Img_Attr_Type\<close>.\<close>

definition img_type :: "image_header \<Rightarrow> u32" where
  "img_type h = field 0 4 (img_attr h)"

definition code_encrypt :: "image_header \<Rightarrow> bool" where
  "code_encrypt h \<longleftrightarrow> bit (img_attr h) 4"

definition signature :: "image_header \<Rightarrow> bool" where
  "signature h \<longleftrightarrow> bit (img_attr h) 8"

text \<open>The checksum loop over the words of the header.\<close>

definition header_crc :: "(u32 \<Rightarrow> u8 list \<Rightarrow> u32) \<Rightarrow> u8 list \<Rightarrow> u32" where
  "header_crc crc_upd bs = fold (\<lambda>i c. crc_upd c (take 4 (drop (i * 4) bs))) [0..<(sizeof_image_header - 4) div 4] 0xFFFFFFFF"

record fw_env =
  ok_cache :: bool
  ok_sector :: bool
  ok_buffer :: bool
  junk_run :: "u8 list"
  junk_buffer :: "u8 list"

definition tls_fwup_img_header_check ::
    "'c flash_hw \<Rightarrow> (u32 \<Rightarrow> u8 list \<Rightarrow> u32) \<Rightarrow> fw_env \<Rightarrow> u8 list \<Rightarrow> 'c prm \<Rightarrow> bool \<times> 'c prm" where
  "tls_fwup_img_header_check hw crc_upd env img s =
     (let h = image_of_bytes img
      in if magic_no h \<noteq> SIGNATURE_WORD then (False, s)
         else if img_type h \<noteq> IMG_TYPE_FLASHBIN0 then (False, s)
         else
           let (run, s) = read_over hw True (ok_cache env) (unat (img_header_addr h)) (junk_run env) s;
               r = image_of_bytes run
           in if signature r \<and> \<not> signature h \<or> \<not> signature r \<and> signature h then (False, s)
              else if code_encrypt r \<and> \<not> code_encrypt h \<or> \<not> code_encrypt r \<and> code_encrypt h then (False, s)
              else if img_addr h mod IMAGE_START_ADDR_MSK \<noteq> 0 then (False, s)
              else if (img_addr h OR FLASH_BASE_ADDR) \<ge> USER_ADDR_START then (False, s)
              else if (img_addr h OR FLASH_BASE_ADDR) + img_len h \<ge> USER_ADDR_START then (False, s)
              else if (upgrade_img_addr h OR FLASH_BASE_ADDR) < CODE_UPD_START_ADDR \<or>
                      (upgrade_img_addr h OR FLASH_BASE_ADDR) + img_len h \<ge> CODE_RUN_START_ADDR then (False, s)
              else (hd_checksum h = header_crc crc_upd img, s))"

section \<open>State\<close>

abbreviation (input) "TLS_FWUP_STATUS_OK \<equiv> 0 :: int"
abbreviation (input) "TLS_FWUP_STATUS_EINVALID \<equiv> 1 :: int"
abbreviation (input) "TLS_FWUP_STATUS_EMEM \<equiv> 2 :: int"
abbreviation (input) "TLS_FWUP_STATUS_EPERM \<equiv> 3 :: int"
abbreviation (input) "TLS_FWUP_STATUS_EBUSY \<equiv> 4 :: int"
abbreviation (input) "TLS_FWUP_STATUS_ESESSIONID \<equiv> 5 :: int"
abbreviation (input) "TLS_FWUP_STATUS_EIO \<equiv> 6 :: int"
abbreviation (input) "TLS_FWUP_STATUS_ESIGNATURE \<equiv> 7 :: int"
abbreviation (input) "TLS_FWUP_STATUS_ECRC \<equiv> 8 :: int"
abbreviation (input) "TLS_FWUP_STATUS_EUNDEF \<equiv> 9 :: int"

abbreviation (input) "TLS_FWUP_REQ_STATUS_IDLE \<equiv> 0 :: int"
abbreviation (input) "TLS_FWUP_REQ_STATUS_BUSY \<equiv> 1 :: int"
abbreviation (input) "TLS_FWUP_REQ_STATUS_SUCCESS \<equiv> 2 :: int"
abbreviation (input) "TLS_FWUP_REQ_STATUS_FIO \<equiv> 3 :: int"
abbreviation (input) "TLS_FWUP_REQ_STATUS_FSIGNATURE \<equiv> 4 :: int"
abbreviation (input) "TLS_FWUP_REQ_STATUS_FMEM \<equiv> 5 :: int"
abbreviation (input) "TLS_FWUP_REQ_STATUS_FCRC \<equiv> 6 :: int"
abbreviation (input) "TLS_FWUP_REQ_STATUS_FCOMPLETE \<equiv> 7 :: int"

abbreviation (input) "TLS_FWUP_STATE_UNDEF \<equiv> 0xFFFF :: u16"
abbreviation (input) "TLS_FWUP_STATE_BUSY \<equiv> 1 :: u16"
abbreviation (input) "TLS_FWUP_STATE_COMPLETE \<equiv> 2 :: u16"
abbreviation (input) "TLS_FWUP_STATE_ERROR_IO \<equiv> 4 :: u16"
abbreviation (input) "TLS_FWUP_STATE_ERROR_SIGNATURE \<equiv> 8 :: u16"
abbreviation (input) "TLS_FWUP_STATE_ERROR_MEM \<equiv> 16 :: u16"
abbreviation (input) "TLS_FWUP_STATE_ERROR_CRC \<equiv> 32 :: u16"
abbreviation (input) "TLS_FWUP_STATE_ERROR \<equiv> 0x3C :: u16"

datatype tls_fwup_image_src = SRC_LUART | SRC_HUART | SRC_HSPI | SRC_WEB

text \<open>A request: the data still to be handled (\<^verbatim>\<open>data\<close> and \<^verbatim>\<open>data_len\<close>) and the status.\<close>

record tls_fwup_request =
  rdata :: "u8 list"
  rstatus :: int

record tls_fwup =
  wait_list :: "tls_fwup_request list"
  busy :: bool
  current_image_src :: tls_fwup_image_src
  current_state :: u16
  current_session_id :: u32
  received_len :: u32
  total_len :: u32
  updated_len :: u32
  program_base :: u32
  program_offset :: u32
  received_number :: u32

record 'w wifi_api =
  oneshot_get :: "'w \<Rightarrow> u8"
  oneshot_set :: "u8 \<Rightarrow> 'w \<Rightarrow> 'w"
  psflag_set :: "u8 \<Rightarrow> 'w \<Rightarrow> 'w"
  auto_get :: "'w \<Rightarrow> u8"
  auto_set :: "u8 \<Rightarrow> 'w \<Rightarrow> 'w"

text \<open>\<open>fwup\<close> is the structure behind the pointer of that name (\<open>None\<close> for \<^verbatim>\<open>NULL\<close>), \<open>fwup_freed\<close>
  tells that the block has been returned to the allocator while the pointer is kept;
  \<open>msg_queue\<close> counts the waiting messages; \<open>booter\<close> is the local variable of the task that
  collects the header; \<open>finished\<close> lists the requests whose \<^verbatim>\<open>complete\<close> callback has run.\<close>

record ('c, 'w) fw =
  fprm :: "'c prm"
  fwup :: "tls_fwup option"
  fwup_freed :: bool
  list_lock :: "nat option"
  msg_queue :: "nat option"
  fwup_task :: bool
  booter :: "u8 list"
  oneshotback :: u8
  wifi :: 'w
  reboot_reason :: nat
  halted :: bool
  finished :: "tls_fwup_request list"

definition fw_upd :: "(tls_fwup \<Rightarrow> tls_fwup) \<Rightarrow> ('c, 'w) fw \<Rightarrow> ('c, 'w) fw" where
  "fw_upd g s = s\<lparr>fwup := map_option g (fwup s)\<rparr>"

definition fw_flag :: "u16 \<Rightarrow> ('c, 'w) fw \<Rightarrow> ('c, 'w) fw" where
  "fw_flag b s = fw_upd (\<lambda>u. u\<lparr>current_state := current_state u OR b\<rparr>) s"

abbreviation fw :: "('c, 'w) fw \<Rightarrow> tls_fwup" where
  "fw s \<equiv> the (fwup s)"

definition fw_fls :: "'c fls \<Rightarrow> ('c, 'w) fw \<Rightarrow> ('c, 'w) fw" where
  "fw_fls f s = s\<lparr>fprm := (fprm s)\<lparr>pfls := f\<rparr>\<rparr>"

section \<open>The upgrade task\<close>

definition fwup_update_autoflag :: "'w wifi_api \<Rightarrow> ('c, 'w) fw \<Rightarrow> ('c, 'w) fw" where
  "fwup_update_autoflag api s = (if auto_get api (wifi s) = 3 then s\<lparr>wifi := auto_set api 1 (wifi s)\<rparr> else s)"

text \<open>The status of a request that is discarded because of an earlier error.\<close>

definition fwup_error_status :: "u16 \<Rightarrow> int" where
  "fwup_error_status st =
     (if st AND TLS_FWUP_STATE_ERROR_IO \<noteq> 0 then TLS_FWUP_REQ_STATUS_FIO
      else if st AND TLS_FWUP_STATE_ERROR_SIGNATURE \<noteq> 0 then TLS_FWUP_REQ_STATUS_FSIGNATURE
      else if st AND TLS_FWUP_STATE_ERROR_MEM \<noteq> 0 then TLS_FWUP_REQ_STATUS_FMEM
      else if st AND TLS_FWUP_STATE_ERROR_CRC \<noteq> 0 then TLS_FWUP_REQ_STATUS_FCRC
      else TLS_FWUP_REQ_STATUS_BUSY)"

text \<open>The actions after a complete header: \<open>Inl\<close> carries the status for \<^verbatim>\<open>goto request_finish\<close>.\<close>

definition fwup_header_complete ::
    "'c flash_hw \<Rightarrow> (u32 \<Rightarrow> u8 list \<Rightarrow> u32) \<Rightarrow> fw_env \<Rightarrow> ('c, 'w) fw \<Rightarrow> ((int + unit) \<times> ('c, 'w) fw) option" where
  "fwup_header_complete hw crc_upd env s =
     (let (ok, p) = tls_fwup_img_header_check hw crc_upd env (booter s) (fprm s);
          s = s\<lparr>fprm := p\<rparr>;
          h = image_of_bytes (booter s)
      in if \<not> ok then Some (Inl TLS_FWUP_REQ_STATUS_FIO, fw_flag TLS_FWUP_STATE_ERROR_IO s)
         else
           let s = fw_upd (\<lambda>u. u\<lparr>program_base := upgrade_img_addr h OR FLASH_BASE_ADDR, program_offset := 0,
                     total_len := img_len h + 64 + (if signature h then 128 else 0)\<rparr>) s
           in do {
             (err, f) \<leftarrow> tls_fls_fast_write hw (unat (program_base (fw s) + program_offset (fw s))) (Some (booter s))
                           sizeof_image_header (pfls (fprm s));
             let s = fw_fls f s;
             if err \<noteq> TLS_FLS_STATUS_OK then Some (Inl TLS_FWUP_REQ_STATUS_FIO, fw_flag TLS_FWUP_STATE_ERROR_IO s)
             else Some (Inr (), fw_upd (\<lambda>u. u\<lparr>updated_len := 64, program_offset := 64\<rparr>) s)
           })"

text \<open>Collecting the header; \<open>Inr\<close> carries the data that is left in the request. Every image
  source is at most \<^verbatim>\<open>TLS_FWUP_IMAGE_SRC_WEB\<close>, so the test on the source always holds.\<close>

definition fwup_header ::
    "'c flash_hw \<Rightarrow> (u32 \<Rightarrow> u8 list \<Rightarrow> u32) \<Rightarrow> fw_env \<Rightarrow> u8 list \<Rightarrow> ('c, 'w) fw \<Rightarrow> ((int + u8 list) \<times> ('c, 'w) fw) option" where
  "fwup_header hw crc_upd env data s =
     do {
       (r, data, s) \<leftarrow>
         (if received_len (fw s) < 64 then
            let got = unat (received_len (fw s));
                len = min (sizeof_image_header - got) (length data);
                s = s\<lparr>booter := copy_into (booter s) got data len\<rparr>;
                s = fw_upd (\<lambda>u. u\<lparr>received_len := received_len u + of_nat len\<rparr>) s
            in if received_len (fw s) = 64
               then do { (r, s) \<leftarrow> fwup_header_complete hw crc_upd env s; Some (r, drop len data, s) }
               else Some (Inr (), drop len data, s)
          else Some (Inr (), data, s));
       (case r of
          Inl st \<Rightarrow> Some (Inl st, s)
        | Inr _ \<Rightarrow> Some (Inr data, fw_upd (\<lambda>u. u\<lparr>received_len := received_len u + of_nat (length data)\<rparr>) s))
     }"

text \<open>The verification loop: the engine state after all blocks, or the failure of a read.\<close>

function fwup_crc_loop ::
    "'c flash_hw \<Rightarrow> (u32 \<Rightarrow> u8 list \<Rightarrow> u32) \<Rightarrow> bool \<Rightarrow> u32 \<Rightarrow> u32 \<Rightarrow> nat \<Rightarrow> u8 list \<Rightarrow> u32 \<Rightarrow> 'c fls \<Rightarrow> u32 option \<times> 'c fls" where
  "fwup_crc_loop hw crc_upd ok base offset left buffer c f =
     (if left = 0 then (Some c, f)
      else
        let len = (if left > 1024 then 1024 else left);
            (err, bs, f) = tls_fls_read hw True ok (unat (base + offset)) False len f;
            buffer = bs @ drop (length bs) buffer
        in if err \<noteq> TLS_FLS_STATUS_OK then (None, f)
           else fwup_crc_loop hw crc_upd ok base (offset + of_nat len) (left - len) buffer (crc_upd c (take len buffer)) f)"
  by pat_completeness auto
termination
  by (relation "measure (\<lambda>(hw, crc_upd, ok, base, offset, left, buffer, c, f). left)") auto

declare fwup_crc_loop.simps [simp del]

text \<open>After the last byte: flush, verify, write the flag for the boot loader.\<close>

definition fwup_verify ::
    "'c flash_hw \<Rightarrow> (u32 \<Rightarrow> u8 list \<Rightarrow> u32) \<Rightarrow> 'w wifi_api \<Rightarrow> fw_env \<Rightarrow> ('c, 'w) fw \<Rightarrow> ((int + unit) \<times> ('c, 'w) fw) option" where
  "fwup_verify hw crc_upd api env s =
     do {
       f \<leftarrow> tls_fls_fast_write_destroy hw (pfls (fprm s));
       let s = fw_fls f s;
       if \<not> ok_buffer env then Some (Inl TLS_FWUP_REQ_STATUS_FMEM, fw_flag TLS_FWUP_STATE_ERROR_MEM s)
       else
         let h = image_of_bytes (booter s);
             left = total_len (fw s) - (if signature h then 128 else 0) - 64;
             (chk, f) = fwup_crc_loop hw crc_upd (ok_cache env) (program_base (fw s)) 64 (unat left) (junk_buffer env) 0xFFFFFFFF (pfls (fprm s));
             s = fw_fls f s
         in case chk of
              None \<Rightarrow> Some (Inl TLS_FWUP_REQ_STATUS_FIO, fw_flag TLS_FWUP_STATE_ERROR_IO s)
            | Some image_checksum \<Rightarrow>
                if org_checksum h \<noteq> image_checksum
                then Some (Inl TLS_FWUP_REQ_STATUS_FCRC, fw_flag TLS_FWUP_STATE_ERROR_CRC s)
                else do {
                  (_, f) \<leftarrow> tls_fls_write hw (ok_sector env) (unat (TLS_FLASH_OTA_FLAG_ADDR (lay (fprm s))))
                              (Some (le32 (org_checksum h))) 4 (pfls (fprm s));
                  let s = fw_flag TLS_FWUP_STATE_COMPLETE (fw_fls f s);
                  Some (Inr (), if oneshotback s \<noteq> 0 then s\<lparr>wifi := oneshot_set api (oneshotback s) (wifi s)\<rparr> else s)
                }
     }"

definition fwup_program ::
    "'c flash_hw \<Rightarrow> (u32 \<Rightarrow> u8 list \<Rightarrow> u32) \<Rightarrow> 'w wifi_api \<Rightarrow> fw_env \<Rightarrow> u8 list \<Rightarrow> ('c, 'w) fw \<Rightarrow> ((int + unit) \<times> ('c, 'w) fw) option" where
  "fwup_program hw crc_upd api env data s =
     (if data = [] then Some (Inr (), s)
      else do {
        (err, f) \<leftarrow> tls_fls_fast_write hw (unat (program_base (fw s) + program_offset (fw s))) (Some data) (length data) (pfls (fprm s));
        let s = fw_fls f s;
        if err \<noteq> TLS_FLS_STATUS_OK then Some (Inl TLS_FWUP_REQ_STATUS_FIO, fw_flag TLS_FWUP_STATE_ERROR_IO s)
        else
          let s = fw_upd (\<lambda>u. u\<lparr>program_offset := program_offset u + of_nat (length data),
                                 updated_len := updated_len u + of_nat (length data)\<rparr>) s
          in if updated_len (fw s) \<ge> total_len (fw s) then fwup_verify hw crc_upd api env s else Some (Inr (), s)
      })"

text \<open>The body of the loop for one request up to \<^verbatim>\<open>request_finish\<close>.\<close>

definition fwup_handle ::
    "'c flash_hw \<Rightarrow> (u32 \<Rightarrow> u8 list \<Rightarrow> u32) \<Rightarrow> 'w wifi_api \<Rightarrow> fw_env \<Rightarrow> u8 list \<Rightarrow> ('c, 'w) fw \<Rightarrow> (int \<times> ('c, 'w) fw) option" where
  "fwup_handle hw crc_upd api env data s =
     (if current_state (fw s) AND TLS_FWUP_STATE_ERROR \<noteq> 0 then Some (fwup_error_status (current_state (fw s)), s)
      else if current_state (fw s) AND TLS_FWUP_STATE_COMPLETE \<noteq> 0 then Some (TLS_FWUP_REQ_STATUS_FCOMPLETE, s)
      else do {
        (r, s) \<leftarrow> fwup_header hw crc_upd env data s;
        (case r of
           Inl st \<Rightarrow> Some (st, s)
         | Inr data \<Rightarrow> do {
             (r, s) \<leftarrow> fwup_program hw crc_upd api env data s;
             Some (case r of Inl st \<Rightarrow> st | Inr _ \<Rightarrow> TLS_FWUP_REQ_STATUS_SUCCESS, s)
           })
      })"

text \<open>From \<^verbatim>\<open>request_finish\<close> on, for the request at the head of the list.\<close>

definition fwup_request_finish :: "'w wifi_api \<Rightarrow> int \<Rightarrow> ('c, 'w) fw \<Rightarrow> ('c, 'w) fw" where
  "fwup_request_finish api st s =
     (let r = (hd (wait_list (fw s)))\<lparr>rstatus := st\<rparr>;
          s = fw_upd (\<lambda>u. u\<lparr>wait_list := tl (wait_list u)\<rparr>) s;
          s = (if wait_list (fw s) = [] then fw_upd (\<lambda>u. u\<lparr>current_state := current_state u AND NOT TLS_FWUP_STATE_BUSY\<rparr>) s else s)
      in if updated_len (fw s) \<ge> 64 \<and> updated_len (fw s) \<ge> total_len (fw s) \<or> st \<noteq> TLS_FWUP_REQ_STATUS_SUCCESS
         then (fwup_update_autoflag api s)\<lparr>reboot_reason := 4, halted := True\<rparr>
         else s\<lparr>finished := finished s @ [r]\<rparr>)"

definition fwup_one ::
    "'c flash_hw \<Rightarrow> (u32 \<Rightarrow> u8 list \<Rightarrow> u32) \<Rightarrow> 'w wifi_api \<Rightarrow> fw_env \<Rightarrow> ('c, 'w) fw \<Rightarrow> ('c, 'w) fw option" where
  "fwup_one hw crc_upd api env s =
     do {
       (st, s) \<leftarrow> fwup_handle hw crc_upd api env (rdata (hd (wait_list (fw s)))) s;
       Some (fwup_request_finish api st s)
     }"

text \<open>The loop over the waiting requests, when no other task adds one meanwhile.\<close>

fun fwup_pass ::
    "'c flash_hw \<Rightarrow> (u32 \<Rightarrow> u8 list \<Rightarrow> u32) \<Rightarrow> 'w wifi_api \<Rightarrow> fw_env \<Rightarrow> nat \<Rightarrow> ('c, 'w) fw \<Rightarrow> ('c, 'w) fw option" where
  "fwup_pass hw crc_upd api env 0 s = Some s"
| "fwup_pass hw crc_upd api env (Suc n) s =
     do { s \<leftarrow> fwup_one hw crc_upd api env s; if halted s then Some s else fwup_pass hw crc_upd api env n s }"

text \<open>One message of the task's queue.\<close>

definition fwup_scheduler ::
    "'c flash_hw \<Rightarrow> (u32 \<Rightarrow> u8 list \<Rightarrow> u32) \<Rightarrow> 'w wifi_api \<Rightarrow> fw_env \<Rightarrow> ('c, 'w) fw \<Rightarrow> ('c, 'w) fw option" where
  "fwup_scheduler hw crc_upd api env s =
     (case msg_queue s of
        Some (Suc n) \<Rightarrow>
          let s = s\<lparr>msg_queue := Some n\<rparr>;
              s = (if wait_list (fw s) \<noteq> [] then fw_flag TLS_FWUP_STATE_BUSY s else s)
          in fwup_pass hw crc_upd api env (length (wait_list (fw s))) s
      | _ \<Rightarrow> Some s)"

section \<open>Sessions\<close>

definition tls_fwup_zero :: tls_fwup where
  "tls_fwup_zero = \<lparr>wait_list = [], busy = False, current_image_src = SRC_LUART, current_state = 0, current_session_id = 0,
     received_len = 0, total_len = 0, updated_len = 0, program_base = 0, program_offset = 0, received_number = 0\<rparr>"

definition tls_fwup_init :: "bool \<Rightarrow> bool \<Rightarrow> bool \<Rightarrow> bool \<Rightarrow> bool \<Rightarrow> ('c, 'w) fw \<Rightarrow> int \<times> ('c, 'w) fw" where
  "tls_fwup_init alloc_ok sem_ok queue_ok stk_ok task_ok s =
     (if fwup s \<noteq> None then (TLS_FWUP_STATUS_EBUSY, s)
      else if \<not> alloc_ok then (TLS_FWUP_STATUS_EMEM, s)
      else
        let s = s\<lparr>fwup := Some tls_fwup_zero, fwup_freed := False\<rparr>
        in if \<not> sem_ok then (TLS_FWUP_STATUS_EMEM, s\<lparr>fwup_freed := True\<rparr>)
           else
             let s = s\<lparr>list_lock := Some 1\<rparr>
             in if \<not> queue_ok then (TLS_FWUP_STATUS_EMEM, s\<lparr>list_lock := None, fwup_freed := True\<rparr>)
                else
                  let s = s\<lparr>msg_queue := Some 0\<rparr>
                  in if \<not> stk_ok then (TLS_FWUP_STATUS_EMEM, s\<lparr>msg_queue := None, list_lock := None, fwup_freed := True\<rparr>)
                     else if \<not> task_ok then (TLS_FWUP_STATUS_EMEM, s\<lparr>msg_queue := None, list_lock := None, fwup := None\<rparr>)
                     else (TLS_FWUP_STATUS_OK, s\<lparr>fwup_task := True\<rparr>))"

text \<open>\<open>rands\<close> are the values \<^verbatim>\<open>rand\<close> returns; \<open>inits\<close> the outcomes for \<^verbatim>\<open>tls_fwup_init\<close>; \<open>cache\<close> the
  block for the fast write cache. The parameter is \<^verbatim>\<open>TLS_PARAM_ID_PSM\<close>.\<close>

definition get_psm :: "'c flash_hw \<Rightarrow> bool \<Rightarrow> 'c prm \<Rightarrow> u8 \<times> 'c prm" where
  "get_psm hw alloc_ok p =
     (let (_, v, p) = tls_param_get hw alloc_ok 22 True p in (case v of Some (b # _) \<Rightarrow> b | _ \<Rightarrow> 0, p))"

definition tls_fwup_enter ::
    "'c flash_hw \<Rightarrow> 'w wifi_api \<Rightarrow> (bool \<times> bool \<times> bool \<times> bool \<times> bool) \<Rightarrow> u32 list \<Rightarrow> bool \<Rightarrow> u8 list option \<Rightarrow> tls_fwup_image_src \<Rightarrow>
     ('c, 'w) fw \<Rightarrow> (u32 \<times> ('c, 'w) fw) option" where
  "tls_fwup_enter hw api inits rands alloc_ok cache image_src s =
     (let (a, b, c, d, e) = inits;
          (_, s) = tls_fwup_init a b c d e s
      in case fwup s of
           None \<Rightarrow> Some (0, s)
         | Some u \<Rightarrow>
             if busy u then Some (0, s)
             else do {
               session_id \<leftarrow> find (\<lambda>r. r \<noteq> 0) rands;
               let s = fw_upd (\<lambda>u. u\<lparr>current_state := 0, current_image_src := image_src, received_len := 0, total_len := 0,
                         updated_len := 0, program_base := 0, program_offset := 0, received_number := -1,
                         current_session_id := session_id, busy := True\<rparr>) s;
               let s = s\<lparr>oneshotback := oneshot_get api (wifi s)\<rparr>;
               let s = (if oneshotback s \<noteq> 0 then s\<lparr>wifi := oneshot_set api 0 (wifi s)\<rparr> else s);
               let (enable, p) = get_psm hw alloc_ok (fprm s);
               let s = s\<lparr>fprm := p\<rparr>;
               let s = (if enable = 1 then s\<lparr>wifi := psflag_set api 0 (wifi s)\<rparr> else s);
               let (_, f) = tls_fls_fast_write_init cache (pfls (fprm s));
               Some (session_id, fw_fls f s)
             })"

definition tls_fwup_exit :: "'c flash_hw \<Rightarrow> 'w wifi_api \<Rightarrow> bool \<Rightarrow> u32 \<Rightarrow> ('c, 'w) fw \<Rightarrow> int \<times> ('c, 'w) fw" where
  "tls_fwup_exit hw api alloc_ok session_id s =
     (if fwup s = None \<or> \<not> busy (fw s) then (TLS_FWUP_STATUS_EPERM, s)
      else if session_id \<noteq> current_session_id (fw s) then (TLS_FWUP_STATUS_ESESSIONID, s)
      else if current_state (fw s) AND TLS_FWUP_STATE_BUSY \<noteq> 0 then (TLS_FWUP_STATUS_EBUSY, s)
      else
        let s = fw_upd (\<lambda>u. u\<lparr>current_state := 0, received_len := 0, total_len := 0, updated_len := 0, program_base := 0,
                  program_offset := 0, received_number := -1, current_session_id := 0, busy := False\<rparr>) s;
            s = (if oneshotback s \<noteq> 0 then s\<lparr>wifi := oneshot_set api (oneshotback s) (wifi s)\<rparr> else s);
            (enable, p) = get_psm hw alloc_ok (fprm s);
            s = s\<lparr>fprm := p\<rparr>
        in (TLS_FWUP_STATUS_OK, s\<lparr>wifi := psflag_set api enable (wifi s)\<rparr>))"

definition tls_fwup_get_current_session_id :: "('c, 'w) fw \<Rightarrow> u32" where
  "tls_fwup_get_current_session_id s = (case fwup s of None \<Rightarrow> 0 | Some u \<Rightarrow> current_session_id u)"

definition tls_fwup_set_update_numer :: "u32 \<Rightarrow> ('c, 'w) fw \<Rightarrow> int \<times> ('c, 'w) fw" where
  "tls_fwup_set_update_numer number s =
     (if number - received_number (fw s) = 1 then (TLS_FWUP_STATUS_OK, fw_upd (\<lambda>u. u\<lparr>received_number := number\<rparr>) s)
      else (0xFFFF, s))"

definition tls_fwup_get_current_update_numer :: "('c, 'w) fw \<Rightarrow> u32" where
  "tls_fwup_get_current_update_numer s = received_number (fw s)"

definition tls_fwup_get_status :: "('c, 'w) fw \<Rightarrow> bool" where
  "tls_fwup_get_status s = busy (fw s)"

definition tls_fwup_set_crc_error :: "u32 \<Rightarrow> ('c, 'w) fw \<Rightarrow> int \<times> ('c, 'w) fw" where
  "tls_fwup_set_crc_error session_id s =
     (if fwup s = None then (TLS_FWUP_STATUS_EPERM, s)
      else if session_id \<noteq> current_session_id (fw s) then (TLS_FWUP_STATUS_ESESSIONID, s)
      else (TLS_FWUP_STATUS_OK, fw_flag TLS_FWUP_STATE_ERROR_CRC s))"

text \<open>The message is lost when the queue (4 entries) is full; the result of the send is not looked at.\<close>

definition tls_fwup_request_async :: "u32 \<Rightarrow> u8 list option \<Rightarrow> ('c, 'w) fw \<Rightarrow> int \<times> ('c, 'w) fw" where
  "tls_fwup_request_async session_id data s =
     (if fwup s = None then (TLS_FWUP_STATUS_EPERM, s)
      else if session_id \<noteq> current_session_id (fw s) then (TLS_FWUP_STATUS_ESESSIONID, s)
      else case data of
        None \<Rightarrow> (TLS_FWUP_STATUS_EINVALID, s)
      | Some [] \<Rightarrow> (TLS_FWUP_STATUS_EINVALID, s)
      | Some d \<Rightarrow>
          let need_sched = (wait_list (fw s) = []);
              s = fw_upd (\<lambda>u. u\<lparr>wait_list := wait_list u @ [\<lparr>rdata = d, rstatus = TLS_FWUP_REQ_STATUS_IDLE\<rparr>]\<rparr>) s
          in (TLS_FWUP_STATUS_OK,
              if need_sched then s\<lparr>msg_queue := map_option (\<lambda>n. if n < 4 then n + 1 else n) (msg_queue s)\<rparr> else s))"

definition fwup_sync_status :: "int \<Rightarrow> int" where
  "fwup_sync_status st =
     (if st = TLS_FWUP_REQ_STATUS_SUCCESS then TLS_FWUP_STATUS_OK
      else if st = TLS_FWUP_REQ_STATUS_FIO then TLS_FWUP_STATUS_EIO
      else if st = TLS_FWUP_REQ_STATUS_FSIGNATURE then TLS_FWUP_STATUS_ESIGNATURE
      else if st = TLS_FWUP_REQ_STATUS_FMEM then TLS_FWUP_STATUS_EMEM
      else if st = TLS_FWUP_REQ_STATUS_FCRC then TLS_FWUP_STATUS_ECRC
      else if st = TLS_FWUP_REQ_STATUS_FCOMPLETE then TLS_FWUP_STATUS_EIO
      else TLS_FWUP_STATUS_EUNDEF)"

text \<open>The caller waits for the task, which serves its queue meanwhile: the call returns when the
  callback of its request has run.\<close>

definition tls_fwup_request_sync ::
    "'c flash_hw \<Rightarrow> (u32 \<Rightarrow> u8 list \<Rightarrow> u32) \<Rightarrow> 'w wifi_api \<Rightarrow> fw_env \<Rightarrow> bool \<Rightarrow> int \<Rightarrow> u32 \<Rightarrow> u8 list option \<Rightarrow> ('c, 'w) fw \<Rightarrow>
     (int \<times> ('c, 'w) fw) option" where
  "tls_fwup_request_sync hw crc_upd api env sem_ok junk_status session_id data s =
     (if fwup s = None then Some (TLS_FWUP_STATUS_EPERM, s)
      else if session_id \<noteq> current_session_id (fw s) then Some (TLS_FWUP_STATUS_ESESSIONID, s)
      else if data = None \<or> data = Some [] then Some (TLS_FWUP_STATUS_EINVALID, s)
      else if \<not> sem_ok then Some (TLS_FWUP_STATUS_EMEM, s)
      else
        let (err, s) = tls_fwup_request_async session_id data s
        in if err \<noteq> TLS_FWUP_STATUS_OK then Some (fwup_sync_status junk_status, s)
           else do {
             s \<leftarrow> fwup_scheduler hw crc_upd api env s;
             if halted s \<or> finished s = [] then None
             else Some (fwup_sync_status (rstatus (last (finished s))), s)
           })"

definition tls_fwup_current_state :: "u32 \<Rightarrow> ('c, 'w) fw \<Rightarrow> u16" where
  "tls_fwup_current_state session_id s =
     (if fwup s = None then TLS_FWUP_STATE_UNDEF
      else if session_id \<noteq> current_session_id (fw s) then TLS_FWUP_STATE_UNDEF
      else current_state (fw s))"

definition tls_fwup_reset :: "u32 \<Rightarrow> ('c, 'w) fw \<Rightarrow> int \<times> ('c, 'w) fw" where
  "tls_fwup_reset session_id s =
     (if fwup s = None \<or> \<not> busy (fw s) then (TLS_FWUP_STATUS_EPERM, s)
      else if session_id \<noteq> current_session_id (fw s) then (TLS_FWUP_STATUS_ESESSIONID, s)
      else if current_state (fw s) AND TLS_FWUP_STATE_BUSY \<noteq> 0 then (TLS_FWUP_STATUS_EBUSY, s)
      else (TLS_FWUP_STATUS_OK, fw_upd (\<lambda>u. u\<lparr>current_state := 0, received_len := 0, total_len := 0, updated_len := 0,
              program_base := 0, program_offset := 0\<rparr>) s))"

definition tls_fwup_clear_error :: "u32 \<Rightarrow> ('c, 'w) fw \<Rightarrow> int \<times> ('c, 'w) fw" where
  "tls_fwup_clear_error session_id s =
     (if fwup s = None \<or> \<not> busy (fw s) then (TLS_FWUP_STATUS_EPERM, s)
      else if session_id \<noteq> current_session_id (fw s) then (TLS_FWUP_STATUS_ESESSIONID, s)
      else if current_state (fw s) AND TLS_FWUP_STATE_BUSY \<noteq> 0 then (TLS_FWUP_STATUS_EBUSY, s)
      else (TLS_FWUP_STATUS_OK, fw_upd (\<lambda>u. u\<lparr>current_state := current_state u AND NOT TLS_FWUP_STATE_ERROR\<rparr>) s))"

end
