(* ===== verification/Fwup_Image.thy ===== *)
theory Fwup_Image
  imports Fwup Param_User
begin

text \<open>
  The path of an image through the upgrade task on a flash chip that satisfies \<open>spi_nor\<close>:
  the header is collected over any number of requests, the data is programmed from the start
  of a sector on, and after the last byte the stored image is verified.
\<close>

unbundle bit_operations_syntax

section \<open>Structures\<close>

lemma fw_simps [simp]:
  "fwup (fw_upd g s) = map_option g (fwup s)" "fprm (fw_upd g s) = fprm s" "booter (fw_upd g s) = booter s"
  "halted (fw_upd g s) = halted s" "msg_queue (fw_upd g s) = msg_queue s" "finished (fw_upd g s) = finished s"
  "oneshotback (fw_upd g s) = oneshotback s" "wifi (fw_upd g s) = wifi s"
  "fwup (fw_fls f s) = fwup s" "fprm (fw_fls f s) = (fprm s)\<lparr>pfls := f\<rparr>" "booter (fw_fls f s) = booter s"
  "halted (fw_fls f s) = halted s" "msg_queue (fw_fls f s) = msg_queue s" "finished (fw_fls f s) = finished s"
  "oneshotback (fw_fls f s) = oneshotback s" "wifi (fw_fls f s) = wifi s"
  by (simp_all add: fw_upd_def fw_fls_def)

section \<open>Programming\<close>

text \<open>The upgrade area: sector \<open>k\<close> on, \<open>n\<close> bytes, inside the flash and not write protected.\<close>

definition upd_area :: "('c \<Rightarrow> nat \<Rightarrow> bool) \<Rightarrow> nat \<Rightarrow> nat \<Rightarrow> nat \<Rightarrow> 'c fls \<Rightarrow> bool" where
  "upd_area prot cap k n f \<longleftrightarrow>
     (\<exists>F. inside_fls f = Some F \<and> density F \<le> cap \<and> 4096 dvd density F \<and> k * 4096 + n \<le> density F \<and>
       (\<forall>x. k * 4096 \<le> x \<longrightarrow> x < density F \<longrightarrow> \<not> prot (chip f) x))"

definition fast_ready :: "('c \<Rightarrow> nat \<Rightarrow> u8) \<Rightarrow> (nat \<Rightarrow> u8) \<Rightarrow> nat \<Rightarrow> u8 list \<Rightarrow> 'c fls \<Rightarrow> bool" where
  "fast_ready mem m k bytes f \<longleftrightarrow>
     (gsSector f = 0x8000 + (k + length bytes div 4096) \<or> gsSector f = 0 \<and> bytes = []) \<and>
     fast_inv mem m k bytes (f\<lparr>gsSector := 0x8000 + (k + length bytes div 4096)\<rparr>)"

lemma fast_ready_start:
  assumes "gsflscache f = Some c" "length c = 4096" "gsSector f = 0 \<or> gsSector f = 0x8000 + k"
  shows "fast_ready mem (mem (chip f)) k [] f"
  using assms by (auto simp: fast_ready_def fast_inv_def)

lemma fast_ready_inv: "fast_inv mem m k bytes f \<Longrightarrow> fast_ready mem m k bytes f"
proof -
  assume i: "fast_inv mem m k bytes f"
  then have "gsSector f = 0x8000 + (k + length bytes div 4096)" by (auto simp: fast_inv_def)
  then have "f\<lparr>gsSector := 0x8000 + (k + length bytes div 4096)\<rparr> = f" by simp
  with i show ?thesis by (auto simp: fast_ready_def fast_inv_def)
qed

lemma fast_ready_nonempty: "fast_ready mem m k bytes f \<Longrightarrow> bytes \<noteq> [] \<Longrightarrow> fast_inv mem m k bytes f"
  unfolding fast_ready_def
proof (elim conjE)
  assume "gsSector f = 0x8000 + (k + length bytes div 4096) \<or> gsSector f = 0 \<and> bytes = []" "bytes \<noteq> []"
    and i: "fast_inv mem m k bytes (f\<lparr>gsSector := 0x8000 + (k + length bytes div 4096)\<rparr>)"
  then have "f\<lparr>gsSector := 0x8000 + (k + length bytes div 4096)\<rparr> = f" by simp
  with i show ?thesis by (simp only:)
qed

lemma fast_ready_kept:
  assumes "fast_ready mem m k bytes f" "kept mem prot f f'"
  shows "fast_ready mem m k bytes f'"
  using assms drv_eq_fields [of f' f] by (simp add: fast_ready_def fast_inv_def kept_def)

lemma upd_area_kept: "kept mem prot f f' \<Longrightarrow> upd_area prot cap k n f \<Longrightarrow> upd_area prot cap k n f'"
  using drv_eq_fields(2) [of f' f] by (simp add: upd_area_def kept_def)

lemma upd_area_drv0: "drv0 f' = drv0 f \<Longrightarrow> prot (chip f') = prot (chip f) \<Longrightarrow> upd_area prot cap k n f \<Longrightarrow> upd_area prot cap k n f'"
  using drv0_inside [of f' f] by (simp add: upd_area_def)

lemma upd_area_le: "upd_area prot cap k n f \<Longrightarrow> n' \<le> n \<Longrightarrow> upd_area prot cap k n' f"
  by (auto simp: upd_area_def)

context spi_nor
begin

lemma fast_step:
  assumes a: "upd_area prot cap k (length w + length d) f" and r: "fast_ready mem m k w f" and d: "d \<noteq> []"
  shows "\<exists>f'. tls_fls_fast_write hw (0x8000000 + k * 4096 + length w) (Some d) (length d) f = Some (0, f') \<and>
    fast_ready mem m k (w @ d) f' \<and> prot (chip f') = prot (chip f) \<and> drv0 f' = drv0 f"
proof -
  obtain F where F: "inside_fls f = Some F" "density F \<le> cap" "4096 dvd density F" "k * 4096 + (length w + length d) \<le> density F"
    "\<And>x. k * 4096 \<le> x \<Longrightarrow> x < density F \<Longrightarrow> \<not> prot (chip f) x" using a by (auto simp: upd_area_def)
  have g: "gsSector f = 0x8000 + (k + length w div 4096) \<or> gsSector f = 0"
    "fast_inv mem m k w (f\<lparr>gsSector := 0x8000 + (k + length w div 4096)\<rparr>)" using r by (auto simp: fast_ready_def)
  have "k * 4096 + length w + length d \<le> density F" using F(4) by simp
  then obtain f' where "tls_fls_fast_write hw (0x8000000 + k * 4096 + length w) (Some d) (length d) f = Some (0, f')"
    "fast_inv mem m k (w @ d) f'" "prot (chip f') = prot (chip f)" "drv0 f' = drv0 f"
    using fast_write_spec [OF F(1-3) d _ g] F(5) by blast
  then show ?thesis using fast_ready_inv by blast
qed

lemma upd_area_small: "upd_area prot cap k n f \<Longrightarrow> 0x8000000 + k * 4096 + n < 2 ^ 32"
  using cap_bound by (auto simp: upd_area_def)

end

section \<open>The invariant of the transfer\<close>

text \<open>The part of the state that handling a request leaves alone.\<close>

definition fw_same :: "('c \<Rightarrow> nat \<Rightarrow> bool) \<Rightarrow> ('c, 'w) fw \<Rightarrow> ('c, 'w) fw \<Rightarrow> bool" where
  "fw_same prot s s' \<longleftrightarrow> lay (fprm s') = lay (fprm s) \<and> oneshotback s' = oneshotback s \<and>
     halted s' = halted s \<and> msg_queue s' = msg_queue s \<and> finished s' = finished s \<and>
     map_option wait_list (fwup s') = map_option wait_list (fwup s) \<and>
     map_option current_session_id (fwup s') = map_option current_session_id (fwup s) \<and>
     prot (chip (pfls (fprm s'))) = prot (chip (pfls (fprm s))) \<and> drv0 (pfls (fprm s')) = drv0 (pfls (fprm s))"

lemma fw_same_refl [simp]: "fw_same prot s s"
  by (simp add: fw_same_def)

lemma fw_same_trans: "fw_same prot s s' \<Longrightarrow> fw_same prot s' s'' \<Longrightarrow> fw_same prot s s''"
  by (simp add: fw_same_def)

lemma fw_same_area: "fw_same prot s s' \<Longrightarrow> upd_area prot cap k n (pfls (fprm s)) \<Longrightarrow> upd_area prot cap k n (pfls (fprm s'))"
  by (rule upd_area_drv0) (simp_all add: fw_same_def)

text \<open>\<open>bytes\<close> have been received, the first \<open>w\<close> of them are programmed.\<close>

definition fw_recv :: "('c \<Rightarrow> nat \<Rightarrow> u8) \<Rightarrow> (nat \<Rightarrow> u8) \<Rightarrow> nat \<Rightarrow> nat \<Rightarrow> u8 list \<Rightarrow> nat \<Rightarrow> ('c, 'w) fw \<Rightarrow> bool" where
  "fw_recv mem m k tot bytes w s \<longleftrightarrow>
     (\<exists>u. fwup s = Some u \<and> received_len u = of_nat (length bytes) \<and> length (booter s) = 64 \<and>
       (if length bytes < 64 then w = 0 \<and> take (length bytes) (booter s) = bytes \<and> updated_len u = 0
        else 64 \<le> w \<and> w \<le> length bytes \<and> booter s = take 64 bytes \<and> program_base u = of_nat (0x8000000 + k * 4096) \<and>
          program_offset u = of_nat w \<and> updated_len u = of_nat w \<and> total_len u = of_nat tot)) \<and>
     fast_ready mem m k (take w bytes) (pfls (fprm s))"

text \<open>What the header says: where the image goes and how long it is.\<close>

definition header_target :: "nat \<Rightarrow> nat \<Rightarrow> u8 list \<Rightarrow> bool" where
  "header_target k tot hdr \<longleftrightarrow>
     upgrade_img_addr (image_of_bytes hdr) OR FLASH_BASE_ADDR = of_nat (0x8000000 + k * 4096) \<and>
     tot = unat (img_len (image_of_bytes hdr)) + 64 + (if signature (image_of_bytes hdr) then 128 else 0)"

lemma header_target_len:
  "header_target k tot hdr \<Longrightarrow> img_len (image_of_bytes hdr) + 64 + (if signature (image_of_bytes hdr) then 128 else 0) = of_nat tot"
  by (simp add: header_target_def)

text \<open>The header check reads the flash and changes nothing.\<close>

definition header_readable :: "fw_env \<Rightarrow> u8 list \<Rightarrow> 'c fls \<Rightarrow> bool" where
  "header_readable env hdr f \<longleftrightarrow> ok_cache env \<and> length (junk_run env) = sizeof_image_header \<and>
     unat (img_header_addr (image_of_bytes hdr)) mod 0x8000000 + sizeof_image_header \<le> fls_density f"

context spi_nor
begin

lemma header_check_kept:
  assumes a: "upd_area prot cap k n (pfls p)" and r: "header_readable env hdr (pfls p)"
    and c: "tls_fwup_img_header_check hw crc_upd env hdr p = (b, p')"
  shows "\<exists>g. p' = p\<lparr>pfls := g\<rparr> \<and> kept mem prot (pfls p) g"
proof -
  obtain F where F: "inside_fls (pfls p) = Some F" "density F \<le> cap" using a by (auto simp: upd_area_def)
  let ?a = "unat (img_header_addr (image_of_bytes hdr))"
  have "junk_run env \<noteq> []" using r by (auto simp: header_readable_def)
  then obtain g bs where g: "read_over hw True True ?a (junk_run env) p = (bs, p\<lparr>pfls := g\<rparr>)" "kept mem prot (pfls p) g"
    using read_in [OF F, of ?a 0 "junk_run env" True] r F(1) by (auto simp: header_readable_def fls_density_def)
  have "p' = p \<or> p' = p\<lparr>pfls := g\<rparr>"
    using c g(1) r by (auto simp: tls_fwup_img_header_check_def Let_def header_readable_def split: if_splits)
  moreover have "p = p\<lparr>pfls := pfls p\<rparr>" "kept mem prot (pfls p) (pfls p)" by simp_all
  ultimately show ?thesis using g(2) by metis
qed

lemma header_complete_spec:
  fixes s :: "('c, 'w) fw"
  assumes a: "upd_area prot cap k tot (pfls (fprm s))" and b: "booter s = hdr" "length hdr = 64" and u: "fwup s = Some u"
    and r: "header_readable env hdr (pfls (fprm s))" and t: "header_target k tot hdr"
    and c: "fst (tls_fwup_img_header_check hw crc_upd env hdr (fprm s))"
    and f: "fast_ready mem m k [] (pfls (fprm s))"
  shows "\<exists>s'. fwup_header_complete hw crc_upd env s = Some (Inr (), s') \<and> fw_same prot s s' \<and> booter s' = hdr \<and>
    fwup s' = Some (u\<lparr>program_base := of_nat (0x8000000 + k * 4096), program_offset := 64, total_len := of_nat tot, updated_len := 64\<rparr>) \<and>
    wifi s' = wifi s \<and> fast_ready mem m k hdr (pfls (fprm s'))"
proof -
  obtain p' where p': "tls_fwup_img_header_check hw crc_upd env hdr (fprm s) = (True, p')" using c by (metis prod.collapse)
  obtain g where g: "p' = (fprm s)\<lparr>pfls := g\<rparr>" "kept mem prot (pfls (fprm s)) g" using header_check_kept [OF a r p'] by blast
  have ne: "hdr \<noteq> []" using b by auto
  have tot: "64 \<le> tot" using t by (simp add: header_target_def)
  have ag: "upd_area prot cap k (length ([] :: u8 list) + length hdr) g"
    using upd_area_le [OF upd_area_kept [OF g(2) a]] b tot by simp
  obtain f' where f': "tls_fls_fast_write hw (0x8000000 + k * 4096) (Some hdr) 64 g = Some (0, f')"
    "fast_ready mem m k hdr f'" "prot (chip f') = prot (chip g)" "drv0 f' = drv0 g"
    using fast_step [OF ag fast_ready_kept [OF f g(2)] ne] b by auto
  have base: "unat (of_nat (0x8000000 + k * 4096) :: u32) = 0x8000000 + k * 4096"
    using upd_area_small [OF a] by (intro unat_u32_of_nat) simp
  let ?s' = "fw_upd (\<lambda>u. u\<lparr>updated_len := 64, program_offset := 64\<rparr>) (fw_fls f' (fw_upd
     (\<lambda>u. u\<lparr>program_base := of_nat (0x8000000 + k * 4096), program_offset := 0, total_len := of_nat tot\<rparr>) (s\<lparr>fprm := p'\<rparr>)))"
  have "fwup_header_complete hw crc_upd env s = Some (Inr (), ?s')"
    using p' b u f'(1) t base g(1) header_target_len [OF t]
    by (simp add: fwup_header_complete_def Let_def header_target_def del: of_nat_add of_nat_mult of_nat_numeral)
  moreover have "fw_same prot s ?s'"
    using g f'(3,4) drv0_drv [of g "pfls (fprm s)"] u by (simp add: fw_same_def kept_def)
  ultimately show ?thesis using b u f'(2) g(1) by (intro exI [of _ ?s']) simp
qed

text \<open>Collecting the header: afterwards the request holds the bytes that are not yet programmed.\<close>

lemma header_spec:
  fixes s :: "('c, 'w) fw"
  assumes r: "fw_recv mem m k tot bytes w s" and w: "64 \<le> length bytes \<Longrightarrow> w = length bytes"
    and a: "upd_area prot cap k tot (pfls (fprm s))" and d: "length (bytes @ d) \<le> tot"
    and h: "64 \<le> length (bytes @ d) \<Longrightarrow> length bytes < 64 \<Longrightarrow> header_readable env (take 64 (bytes @ d)) (pfls (fprm s)) \<and>
      header_target k tot (take 64 (bytes @ d)) \<and> fst (tls_fwup_img_header_check hw crc_upd env (take 64 (bytes @ d)) (fprm s))"
  shows "\<exists>s' w'. fwup_header hw crc_upd env d s = Some (Inr (if length (bytes @ d) < 64 then [] else drop w' (bytes @ d)), s') \<and>
    fw_recv mem m k tot (bytes @ d) w' s' \<and> w' \<le> max 64 (length bytes) \<and> fw_same prot s s' \<and> wifi s' = wifi s \<and>
    (length (bytes @ d) < 64 \<longrightarrow> fprm s' = fprm s) \<and>
    map_option current_state (fwup s') = map_option current_state (fwup s)"
proof -
  have small: "tot < 2 ^ 32" using upd_area_small [OF a] by simp
  obtain u where u: "fwup s = Some u" "received_len u = of_nat (length bytes)" "length (booter s) = 64" using r by (auto simp: fw_recv_def)
  have rl: "received_len u < 64 \<longleftrightarrow> length bytes < 64"
    using d small u(2) u32_of_nat_less [of "length bytes" 64] by simp
  have un: "unat (received_len u) = length bytes" using u(2) d small by (simp add: unat_u32_of_nat)
  show ?thesis
  proof (cases "length bytes < 64")
    case False
    let ?s' = "fw_upd (\<lambda>u. u\<lparr>received_len := received_len u + of_nat (length d)\<rparr>) s"
    have "fwup_header hw crc_upd env d s = Some (Inr d, ?s')" using False rl u(1) by (simp add: fwup_header_def)
    moreover have "fw_recv mem m k tot (bytes @ d) (length bytes) ?s'"
      using r False w by (auto simp: fw_recv_def)
    moreover have "fw_same prot s ?s'" using u(1) by (simp add: fw_same_def)
    ultimately show ?thesis using False u(1) by (intro exI [of _ ?s'] exI [of _ "length bytes"]) simp
  next
    case True
    have ph: "w = 0" "take (length bytes) (booter s) = bytes" "updated_len u = 0" "fast_ready mem m k [] (pfls (fprm s))"
      using r True u(1) by (auto simp: fw_recv_def)
    define len where "len = min (64 - length bytes) (length d)"
    define b where "b = copy_into (booter s) (length bytes) d len"
    let ?s1 = "fw_upd (\<lambda>u. u\<lparr>received_len := received_len u + of_nat len\<rparr>) (s\<lparr>booter := b\<rparr>)"
    have len: "length bytes + len \<le> 64" "len \<le> length d" using True by (auto simp: len_def)
    have lb: "length b = 64" using len u(3) by (simp add: b_def)
    have tb: "take (length bytes + len) b = bytes @ take len d"
      using ph(2) len u(3) by (simp add: b_def copy_into_def)
    have r1: "received_len (fw ?s1) = of_nat (length bytes + len)" using u by simp
    have full: "received_len (fw ?s1) = 64 \<longleftrightarrow> length bytes + len = 64"
      using u32_of_nat_eq [of "length bytes + len" 64] len unfolding r1 by simp
    show ?thesis
    proof (cases "length (bytes @ d) < 64")
      case short: True
      then have ld: "len = length d" by (auto simp: len_def)
      have bd: "copy_into (booter s) (length bytes) d (length d) = b" by (simp add: b_def ld)
      let ?s2 = "fw_upd (\<lambda>u. u\<lparr>received_len := received_len u + of_nat (length ([] :: u8 list))\<rparr>) ?s1"
      have "fwup_header hw crc_upd env d s = Some (Inr [], ?s2)"
        using rl True u(1) full short by (simp add: fwup_header_def Let_def un len_def [symmetric] ld bd)
      moreover have "fw_recv mem m k tot (bytes @ d) 0 ?s2"
        using short lb tb ld u ph by (simp add: fw_recv_def)
      moreover have "fw_same prot s ?s2" using u(1) by (simp add: fw_same_def)
      ultimately show ?thesis using short u(1) by (intro exI [of _ ?s2] exI [of _ 0]) simp
    next
      case long: False
      then have ld: "length bytes + len = 64" using True by (auto simp: len_def)
      then have len64: "len = 64 - length bytes" by simp
      then have hdr: "b = take 64 (bytes @ d)" using tb lb ld long by simp
      have h1: "header_readable env b (pfls (fprm s))" "header_target k tot b" "fst (tls_fwup_img_header_check hw crc_upd env b (fprm s))"
        using h long True unfolding hdr by auto
      obtain s2 where s2: "fwup_header_complete hw crc_upd env ?s1 = Some (Inr (), s2)" "fw_same prot ?s1 s2" "booter s2 = b"
        "fwup s2 = Some (u\<lparr>received_len := received_len u + of_nat len, program_base := of_nat (0x8000000 + k * 4096), program_offset := 64,
            total_len := of_nat tot, updated_len := 64\<rparr>)"
        "wifi s2 = wifi s" "fast_ready mem m k b (pfls (fprm s2))"
        using header_complete_spec [of k tot ?s1 b _ env crc_upd m] a lb h1 u(1) ph(4) by auto
      let ?s3 = "fw_upd (\<lambda>u. u\<lparr>received_len := received_len u + of_nat (length (drop len d))\<rparr>) s2"
      have dr: "drop len d = drop 64 (bytes @ d)" using True by (simp add: len64)
      have "fwup_header hw crc_upd env d s = Some (Inr (drop 64 (bytes @ d)), ?s3)"
        using rl True u(1) full ld s2(1) by (simp add: fwup_header_def Let_def un len_def [symmetric] b_def [symmetric] dr)
      moreover have "(of_nat (length bytes) + of_nat len + of_nat (length d - len) :: u32) = of_nat (length bytes + length d)"
        using len(2) by (simp add: of_nat_diff)
      then have "fw_recv mem m k tot (bytes @ d) 64 ?s3"
        using long lb s2(3,4,6) u(2) hdr by (simp add: fw_recv_def)
      moreover have "fw_same prot s ?s3" using s2(2,4) u(1) by (simp add: fw_same_def)
      ultimately show ?thesis using long u(1) s2(4,5) by (intro exI [of _ ?s3] exI [of _ 64]) simp
    qed
  qed
qed

lemma program_spec:
  fixes s :: "('c, 'w) fw"
  assumes r: "fw_recv mem m k tot bs w s" and w: "64 \<le> length bs" "w < length bs" "length bs \<le> tot"
    and a: "upd_area prot cap k tot (pfls (fprm s))"
  shows "\<exists>s1. fwup_program hw crc_upd api env (drop w bs) s =
      (if length bs = tot then fwup_verify hw crc_upd api env s1 else Some (Inr (), s1)) \<and>
    fw_recv mem m k tot bs (length bs) s1 \<and> fw_same prot s s1 \<and> wifi s1 = wifi s \<and>
    map_option current_state (fwup s1) = map_option current_state (fwup s)"
proof -
  obtain u where u: "fwup s = Some u" "received_len u = of_nat (length bs)" "length (booter s) = 64" "booter s = take 64 bs"
    "program_base u = of_nat (0x8000000 + k * 4096)" "program_offset u = of_nat w" "updated_len u = of_nat w" "total_len u = of_nat tot" "64 \<le> w"
    "fast_ready mem m k (take w bs) (pfls (fprm s))"
    using r w(1) by (auto simp: fw_recv_def)
  have small: "0x8000000 + k * 4096 + tot < 2 ^ 32" by (rule upd_area_small [OF a])
  have lw: "length (take w bs) = w" using w by simp
  have ar: "upd_area prot cap k (length (take w bs) + length (drop w bs)) (pfls (fprm s))"
    using upd_area_le [OF a] w by simp
  obtain f' where f': "tls_fls_fast_write hw (0x8000000 + k * 4096 + w) (Some (drop w bs)) (length (drop w bs)) (pfls (fprm s)) = Some (0, f')"
    "fast_ready mem m k bs f'" "prot (chip f') = prot (chip (pfls (fprm s)))" "drv0 f' = drv0 (pfls (fprm s))"
    using fast_step [OF ar u(10)] w lw by auto
  have ad: "unat (program_base u + program_offset u) = 0x8000000 + k * 4096 + w"
  proof -
    have "program_base u + program_offset u = of_nat (0x8000000 + k * 4096 + w)" using u(5,6) by simp
    then show ?thesis using small w by (simp only: unat_u32_of_nat)
  qed
  let ?s1 = "fw_upd (\<lambda>u. u\<lparr>program_offset := program_offset u + of_nat (length (drop w bs)),
      updated_len := updated_len u + of_nat (length (drop w bs))\<rparr>) (fw_fls f' s)"
  have n: "of_nat w + of_nat (length bs - w) = (of_nat (length bs) :: u32)" using w by (simp add: of_nat_diff)
  have "(of_nat (length bs) :: u32) \<ge> of_nat tot \<longleftrightarrow> length bs = tot" using small w by (subst u32_of_nat_le) auto
  then have "fwup_program hw crc_upd api env (drop w bs) s =
      (if length bs = tot then fwup_verify hw crc_upd api env ?s1 else Some (Inr (), ?s1))"
    using f'(1) u(1,7,8) w n by (simp add: fwup_program_def Let_def ad del: of_nat_diff)
  moreover have "fw_recv mem m k tot bs (length bs) ?s1" using u w n f'(2) by (simp add: fw_recv_def)
  moreover have "fw_same prot s ?s1" using u(1) f'(3,4) by (simp add: fw_same_def)
  ultimately show ?thesis using u(1) by (intro exI [of _ ?s1]) simp
qed

lemma handle_mid:
  fixes s :: "('c, 'w) fw"
  assumes r: "fw_recv mem m k tot bytes w s" and w: "64 \<le> length bytes \<Longrightarrow> w = length bytes"
    and a: "upd_area prot cap k tot (pfls (fprm s))" and d: "d \<noteq> []" "length (bytes @ d) \<le> tot" "64 < tot"
    and st: "current_state (fw s) AND TLS_FWUP_STATE_ERROR = 0" "current_state (fw s) AND TLS_FWUP_STATE_COMPLETE = 0"
    and h: "64 \<le> length (bytes @ d) \<Longrightarrow> length bytes < 64 \<Longrightarrow> header_readable env (take 64 (bytes @ d)) (pfls (fprm s)) \<and>
      header_target k tot (take 64 (bytes @ d)) \<and> fst (tls_fwup_img_header_check hw crc_upd env (take 64 (bytes @ d)) (fprm s))"
  shows "\<exists>s1 w1. fwup_handle hw crc_upd api env d s =
      (if length (bytes @ d) = tot
       then do { (r, s') \<leftarrow> fwup_verify hw crc_upd api env s1; Some (case r of Inl st \<Rightarrow> st | Inr _ \<Rightarrow> TLS_FWUP_REQ_STATUS_SUCCESS, s') }
       else Some (TLS_FWUP_REQ_STATUS_SUCCESS, s1)) \<and>
    fw_recv mem m k tot (bytes @ d) w1 s1 \<and> (64 \<le> length (bytes @ d) \<longrightarrow> w1 = length (bytes @ d)) \<and>
    fw_same prot s s1 \<and> wifi s1 = wifi s \<and> (length (bytes @ d) < 64 \<longrightarrow> fprm s1 = fprm s) \<and>
    map_option current_state (fwup s1) = map_option current_state (fwup s)"
proof -
  obtain s1 w1 where 1: "fwup_header hw crc_upd env d s = Some (Inr (if length (bytes @ d) < 64 then [] else drop w1 (bytes @ d)), s1)"
    "fw_recv mem m k tot (bytes @ d) w1 s1" "fw_same prot s s1" "wifi s1 = wifi s"
    "map_option current_state (fwup s1) = map_option current_state (fwup s)" "w1 \<le> max 64 (length bytes)"
    "length (bytes @ d) < 64 \<longrightarrow> fprm s1 = fprm s"
    using header_spec [OF r w a d(2) h] by blast
  have a1: "upd_area prot cap k tot (pfls (fprm s1))" by (rule fw_same_area [OF 1(3) a])
  show ?thesis
  proof (cases "length (bytes @ d) < 64 \<or> w1 = length (bytes @ d)")
    case True
    then have "drop w1 (bytes @ d) = [] \<or> length (bytes @ d) < 64" by auto
    then have "(if length (bytes @ d) < 64 then [] else drop w1 (bytes @ d)) = []" by auto
    then have "fwup_handle hw crc_upd api env d s = Some (2, s1)"
      using 1(1) st by (simp add: fwup_handle_def fwup_program_def del: drop_append length_append)
    moreover have "length (bytes @ d) \<noteq> tot"
      using True 1(6) d(1,3) by (auto simp: max_def split: if_splits)
    ultimately show ?thesis using 1 True by (intro exI [of _ s1] exI [of _ w1]) auto
  next
    case False
    then have lw: "w1 < length (bytes @ d)" using 1(2) by (auto simp: fw_recv_def)
    obtain s2 where 2: "fwup_program hw crc_upd api env (drop w1 (bytes @ d)) s1 =
      (if length (bytes @ d) = tot then fwup_verify hw crc_upd api env s2 else Some (Inr (), s2))"
      "fw_recv mem m k tot (bytes @ d) (length (bytes @ d)) s2" "fw_same prot s1 s2" "wifi s2 = wifi s1"
      "map_option current_state (fwup s2) = map_option current_state (fwup s1)"
      using program_spec [OF 1(2) _ lw d(2) a1, of crc_upd api env] False by auto
    have "fwup_handle hw crc_upd api env d s = (if length (bytes @ d) = tot
       then do { (r, s') \<leftarrow> fwup_verify hw crc_upd api env s2; Some (case r of Inl st \<Rightarrow> st | Inr _ \<Rightarrow> 2, s') }
       else Some (2, s2))"
      using 1(1) 2(1) st False by (simp add: fwup_handle_def del: drop_append length_append)
    with False 1 2 fw_same_trans [OF 1(3) 2(3)] show ?thesis by (intro exI [of _ s2] exI [of _ "length (bytes @ d)"]) auto
  qed
qed

end

section \<open>Verification\<close>

text \<open>An engine that may process a message in blocks.\<close>

definition crc_stream :: "(u32 \<Rightarrow> u8 list \<Rightarrow> u32) \<Rightarrow> bool" where
  "crc_stream crc_upd \<longleftrightarrow> (\<forall>c. crc_upd c [] = c) \<and> (\<forall>c a b. crc_upd (crc_upd c a) b = crc_upd c (a @ b))"

lemma fw_flag_simps [simp]:
  "fwup (fw_flag b s) = map_option (\<lambda>u. u\<lparr>current_state := current_state u OR b\<rparr>) (fwup s)" "fprm (fw_flag b s) = fprm s"
  "booter (fw_flag b s) = booter s" "halted (fw_flag b s) = halted s" "msg_queue (fw_flag b s) = msg_queue s"
  "finished (fw_flag b s) = finished s" "oneshotback (fw_flag b s) = oneshotback s" "wifi (fw_flag b s) = wifi s"
  by (simp_all add: fw_flag_def)

context spi_nor
begin

lemma crc_loop_spec:
  assumes crc: "crc_stream crc_upd" and f: "inside_fls f = Some F" "density F \<le> cap"
    and fit: "k * 4096 + off + left \<le> density F"
  shows "\<exists>f'. fwup_crc_loop hw crc_upd True (of_nat (0x8000000 + k * 4096)) (of_nat off) left buf c f =
      (Some (crc_upd c (mem_read (mem (chip f)) (k * 4096 + off) left)), f') \<and> kept mem prot f f'"
  using f(1) fit
proof (induction left arbitrary: off buf c f rule: less_induct)
  case (less left)
  show ?case
  proof (cases "left = 0")
    case True
    then show ?thesis using crc by (auto simp: fwup_crc_loop.simps crc_stream_def)
  next
    case False
    define len where "len = (if left > 1024 then 1024 else left)"
    have len: "0 < len" "len \<le> left" using False by (auto simp: len_def)
    let ?a = "0x8000000 + k * 4096 + off" and ?x = "mem_read (mem (chip f)) (k * 4096 + off)"
    have small: "k * 4096 + off < 0x2000000" using less.prems f(2) cap_bound False by linarith
    then have am: "?a mod 0x8000000 = k * 4096 + off" by (simp add: add.assoc)
    have au: "unat (of_nat (0x8000000 + k * 4096) + of_nat off :: u32) = ?a"
    proof -
      have "of_nat (0x8000000 + k * 4096) + of_nat off = (of_nat ?a :: u32)" by simp
      moreover have "?a < 2 ^ 32" using small by simp
      ultimately show ?thesis by (simp only: unat_u32_of_nat)
    qed
    obtain f1 where 1: "tls_fls_read hw True True ?a False len f = (0, ?x len, f1)" "kept mem prot f f1"
      using read_spec [OF less.prems(1) f(2) len(1), of ?a True True] less.prems(2) len am by auto
    have in1: "inside_fls f1 = Some F" "mem (chip f1) = mem (chip f)"
      using 1(2) drv_eq_fields(2) [of f1 f] less.prems(1) by (simp_all add: kept_def)
    have "left - len < left" using len by simp
    moreover have "k * 4096 + (off + len) + (left - len) \<le> density F" using less.prems(2) len by simp
    ultimately obtain f2 where 2: "fwup_crc_loop hw crc_upd True (of_nat (0x8000000 + k * 4096)) (of_nat (off + len)) (left - len)
        (?x len @ drop len buf) (crc_upd c (?x len)) f1 =
        (Some (crc_upd (crc_upd c (?x len)) (mem_read (mem (chip f1)) (k * 4096 + (off + len)) (left - len))), f2)" "kept mem prot f1 f2"
      using less.IH [OF _ in1(1)] by blast
    have "crc_upd (crc_upd c (?x len)) (mem_read (mem (chip f1)) (k * 4096 + (off + len)) (left - len)) = crc_upd c (?x left)"
      using crc mem_read_append [of "mem (chip f)" "k * 4096 + off" len "left - len"] len(2) in1(2)
      by (simp add: crc_stream_def add.assoc)
    moreover have oa: "(of_nat (off + len) :: u32) = of_nat off + of_nat len" by simp
    have "fwup_crc_loop hw crc_upd True (of_nat (0x8000000 + k * 4096)) (of_nat off) left buf c f =
        fwup_crc_loop hw crc_upd True (of_nat (0x8000000 + k * 4096)) (of_nat (off + len)) (left - len)
          (?x len @ drop len buf) (crc_upd c (?x len)) f1"
      using False 1(1) au by (subst fwup_crc_loop.simps) (simp add: Let_def len_def [symmetric] oa del: of_nat_add of_nat_mult of_nat_numeral)
    ultimately show ?thesis using 2 kept_trans [OF 1(2) 2(2)] by auto
  qed
qed

end

text \<open>The offset of the flag for the boot loader, in a sector behind the image.\<close>

definition ota_off :: "('c, 'w) fw \<Rightarrow> nat" where
  "ota_off s = unat (TLS_FLASH_OTA_FLAG_ADDR (lay (fprm s))) mod 0x8000000"

definition ota_clear :: "nat \<Rightarrow> nat \<Rightarrow> ('c, 'w) fw \<Rightarrow> bool" where
  "ota_clear k tot s \<longleftrightarrow> (k + tot div 4096 + 1) * 4096 \<le> ota_off s \<and> ota_off s + 4 \<le> fls_density (pfls (fprm s))"

text \<open>The part of the image that the checksum covers.\<close>

definition image_body :: "u8 list \<Rightarrow> u8 list" where
  "image_body bs = take (unat (img_len (image_of_bytes (take 64 bs)))) (drop 64 bs)"

lemma ota_unprotected:
  assumes "upd_area prot cap k tot f" "k * 4096 \<le> off" "off + n \<le> fls_density f" "0 < n"
  shows "range_unprotected prot f off n"
  unfolding range_unprotected_def
proof (intro allI impI)
  fix x assume x: "off div 4096 \<le> x div 4096" "x div 4096 \<le> (off + n - 1) div 4096"
  obtain F where F: "inside_fls f = Some F" "4096 dvd density F" "\<And>x. k * 4096 \<le> x \<Longrightarrow> x < density F \<Longrightarrow> \<not> prot (chip f) x"
    using assms(1) by (auto simp: upd_area_def)
  obtain q where q: "density F = 4096 * q" using F(2) ..
  have "(off + n - 1) div 4096 < q" using assms(3,4) F(1) q by (simp add: fls_density_def div_less_iff_less_mult mult.commute)
  then have "x < density F" using x(2) q by (simp add: div_less_iff_less_mult [symmetric] mult.commute)
  moreover have "k \<le> x div 4096" using assms(2) x(1) div_le_mono [of "k * 4096" off 4096] by simp
  then have "k * 4096 \<le> x" by (simp add: less_eq_div_iff_mult_less_eq)
  ultimately show "\<not> prot (chip f) x" using F(3) by blast
qed

context spi_nor
begin

lemma verify_spec:
  fixes s :: "('c, 'w) fw"
  assumes r: "fw_recv mem m k tot bs tot s" "length bs = tot" "64 < tot" and a: "upd_area prot cap k tot (pfls (fprm s))"
    and t: "header_target k tot (take 64 bs)" and e: "ok_buffer env" "ok_cache env" "ok_sector env"
    and crc: "crc_stream crc_upd" and o: "ota_clear k tot s"
  defines "h \<equiv> image_of_bytes (take 64 bs)"
  shows "\<exists>s' res. fwup_verify hw crc_upd api env s = Some (res, s') \<and> fw_same prot s s' \<and>
    mem_read (mem (chip (pfls (fprm s')))) (k * 4096) tot = bs \<and>
    (\<exists>u u'. fwup s = Some u \<and> fwup s' = Some u' \<and> updated_len u' = updated_len u \<and> total_len u' = total_len u \<and>
     (if org_checksum h = crc_upd 0xFFFFFFFF (image_body bs)
      then res = Inr () \<and> current_state u' = current_state u OR TLS_FWUP_STATE_COMPLETE \<and>
        mem_read (mem (chip (pfls (fprm s')))) (ota_off s) 4 = le32 (org_checksum h)
      else res = Inl TLS_FWUP_REQ_STATUS_FCRC \<and> current_state u' = current_state u OR TLS_FWUP_STATE_ERROR_CRC \<and>
        mem_read (mem (chip (pfls (fprm s')))) (ota_off s) 4 = mem_read m (ota_off s) 4))"
proof -
  let ?f = "pfls (fprm s)"
  obtain u where u: "fwup s = Some u" "booter s = take 64 bs" "program_base u = of_nat (0x8000000 + k * 4096)"
    "total_len u = of_nat tot" and rd: "fast_ready mem m k bs ?f"
    using r by (auto simp: fw_recv_def)
  obtain F where F: "inside_fls ?f = Some F" "density F \<le> cap" "4096 dvd density F" "k * 4096 + tot \<le> density F"
    "\<And>x. k * 4096 \<le> x \<Longrightarrow> x < density F \<Longrightarrow> \<not> prot (chip ?f) x" using a by (auto simp: upd_area_def)
  have "bs \<noteq> []" using r(2,3) by auto
  then have inv: "fast_inv mem m k bs ?f" by (rule fast_ready_nonempty [OF rd])
  obtain f1 where 1: "tls_fls_fast_write_destroy hw ?f = Some f1" "mem_read (mem (chip f1)) (k * 4096) tot = bs"
    "\<forall>x. x < k * 4096 \<or> (k + tot div 4096 + 1) * 4096 \<le> x \<longrightarrow> mem (chip f1) x = m x" "drv0 f1 = drv0 ?f" "prot (chip f1) = prot (chip ?f)"
    using fast_destroy_spec [OF F(1-3) inv F(5)] F(4) r(2) by auto
  have in1: "inside_fls f1 = Some F" using drv0_inside [OF 1(4)] F(1) by simp
  have left: "total_len u - (if signature h then 128 else 0) - 64 = img_len h"
    using header_target_len [OF t] u(4) by (auto simp: h_def algebra_simps)
  have tl: "64 + unat (img_len h) \<le> tot" using t by (simp add: header_target_def h_def)
  obtain f2 where 2: "fwup_crc_loop hw crc_upd True (of_nat (0x8000000 + k * 4096)) (of_nat 64) (unat (img_len h)) (junk_buffer env) 0xFFFFFFFF f1 =
      (Some (crc_upd 0xFFFFFFFF (mem_read (mem (chip f1)) (k * 4096 + 64) (unat (img_len h)))), f2)" "kept mem prot f1 f2"
    using crc_loop_spec [OF crc in1 F(2), of k 64 "unat (img_len h)" "junk_buffer env" "0xFFFFFFFF"] F(4) tl by auto
  have "unat (img_len h) \<le> tot - 64" using tl by simp
  then have body: "mem_read (mem (chip f1)) (k * 4096 + 64) (unat (img_len h)) = image_body bs"
  proof -
    have "mem_read (mem (chip f1)) (k * 4096 + 64) (unat (img_len h)) = take (unat (img_len h)) (drop 64 (mem_read (mem (chip f1)) (k * 4096) tot))"
      using \<open>unat (img_len h) \<le> tot - 64\<close> by (simp add: drop_mem_read take_mem_read min_def)
    then show ?thesis unfolding 1(2) by (simp add: image_body_def h_def)
  qed
  let ?s2 = "fw_fls f2 (fw_fls f1 s)" and ?c = "crc_upd 0xFFFFFFFF (image_body bs)"
  have v: "fwup_verify hw crc_upd api env s =
      (if org_checksum h \<noteq> ?c then Some (Inl 6, fw_flag 32 ?s2)
       else do {
         (_, f) \<leftarrow> tls_fls_write hw True (unat (TLS_FLASH_OTA_FLAG_ADDR (lay (fprm s)))) (Some (le32 (org_checksum h))) 4 f2;
         let s = fw_flag 2 (fw_fls f ?s2);
         Some (Inr (), if oneshotback s \<noteq> 0 then s\<lparr>wifi := oneshot_set api (oneshotback s) (wifi s)\<rparr> else s)
       })"
    using 1(1) e u 2(1) left body
    by (simp add: fwup_verify_def Let_def h_def [symmetric] del: of_nat_add of_nat_mult of_nat_diff)
  have k2: "mem (chip f2) = mem (chip f1)" "prot (chip f2) = prot (chip ?f)" "drv0 f2 = drv0 ?f"
    using 2(2) 1(4,5) drv0_drv [of f2 f1] by (simp_all add: kept_def)
  have oo: "(k + tot div 4096 + 1) * 4096 \<le> ota_off s" "ota_off s + 4 \<le> density F" using o F(1) by (simp_all add: ota_clear_def fls_density_def)
  have ta: "k * 4096 + tot \<le> ota_off s"
  proof -
    have "tot < (tot div 4096 + 1) * 4096" using dividend_less_div_times [of 4096 tot] by simp
    then show ?thesis using oo(1) by (simp add: algebra_simps)
  qed
  show ?thesis
  proof (cases "org_checksum h = ?c")
    case False
    have "mem_read (mem (chip f2)) (ota_off s) 4 = mem_read m (ota_off s) 4"
      by (rule nth_equalityI) (use 1(3) k2(1) oo(1) in auto)
    with False v u k2 1(2) show ?thesis by (intro exI [of _ "fw_flag 32 ?s2"] exI [of _ "Inl 6"]) (simp add: fw_same_def)
  next
    case True
    have in2: "inside_fls f2 = Some F" using drv0_inside [OF k2(3)] F(1) by simp
    have "range_unprotected prot f2 (ota_off s) 4"
      using ota_unprotected [of prot cap k tot f2 "ota_off s" 4] upd_area_drv0 [OF k2(3,2) a] ta oo(2) in2 by (simp add: fls_density_def)
    then obtain f3 where 3: "tls_fls_write hw True (unat (TLS_FLASH_OTA_FLAG_ADDR (lay (fprm s)))) (Some (le32 (org_checksum h))) 4 f2 = Some (0, f3)"
      "mem (chip f3) = mem_write (mem (chip f2)) (ota_off s) (le32 (org_checksum h))" "prot (chip f3) = prot (chip f2)" "drv f3 = drv f2"
      using write_spec [OF in2 F(2), of 4 "le32 (org_checksum h)" "unat (TLS_FLASH_OTA_FLAG_ADDR (lay (fprm s)))"] oo(2) by (auto simp: ota_off_def)
    let ?s3 = "fw_flag 2 (fw_fls f3 ?s2)"
    let ?s4 = "if oneshotback ?s3 \<noteq> 0 then ?s3\<lparr>wifi := oneshot_set api (oneshotback ?s3) (wifi ?s3)\<rparr> else ?s3"
    have "fwup_verify hw crc_upd api env s = Some (Inr (), ?s4)" using v True 3(1) by (simp add: Let_def)
    moreover have "mem_read (mem (chip f3)) (ota_off s) 4 = le32 (org_checksum h)"
      using mem_read_mem_write [of "mem (chip f2)" "ota_off s" "le32 (org_checksum h)"] 3(2) by simp
    moreover have "mem_read (mem (chip f3)) (k * 4096) tot = bs"
      using 3(2) 1(2) k2(1) ta by (simp add: mem_read_mem_write_other)
    moreover have "fw_same prot s ?s4" using u(1) k2(2,3) 3(3,4) drv0_drv [of f3 f2] by (simp add: fw_same_def)
    moreover have "fprm ?s4 = (fprm s)\<lparr>pfls := f3\<rparr>" "fwup ?s4 = Some (u\<lparr>current_state := current_state u OR 2\<rparr>)" using u(1) by simp_all
    ultimately show ?thesis using True u(1) by (intro exI [of _ ?s4] exI [of _ "Inr ()"]) simp
  qed
qed

end

end
