(* ===== verification/Fwup_Session.thy ===== *)
theory Fwup_Session
  imports Fwup_Image
begin

text \<open>
  A whole upgrade: the session is opened, the image is handed over in requests of any size,
  and the task programs and verifies it. The main theorem follows the image from the first
  request to the reset; the others state the bounds that the header check enforces and the
  rules of the session interface.
\<close>

unbundle bit_operations_syntax

section \<open>Feeding an image\<close>

text \<open>A client that hands over the requests one after the other, and the task that serves each.\<close>

fun fwup_feed ::
    "'c flash_hw \<Rightarrow> (u32 \<Rightarrow> u8 list \<Rightarrow> u32) \<Rightarrow> 'w wifi_api \<Rightarrow> fw_env \<Rightarrow> u32 \<Rightarrow> u8 list list \<Rightarrow> ('c, 'w) fw \<Rightarrow> ('c, 'w) fw option" where
  "fwup_feed hw crc_upd api env sid [] s = Some s"
| "fwup_feed hw crc_upd api env sid (d # ds) s =
     do {
       s \<leftarrow> fwup_scheduler hw crc_upd api env (snd (tls_fwup_request_async sid (Some d) s));
       if halted s then Some s else fwup_feed hw crc_upd api env sid ds s
     }"

text \<open>Between two requests: nothing waits, no error, \<open>bytes\<close> have been received.\<close>

definition fw_idle :: "('c \<Rightarrow> nat \<Rightarrow> u8) \<Rightarrow> (nat \<Rightarrow> u8) \<Rightarrow> nat \<Rightarrow> nat \<Rightarrow> u32 \<Rightarrow> u8 list \<Rightarrow> ('c, 'w) fw \<Rightarrow> bool" where
  "fw_idle mem m k tot sid bytes s \<longleftrightarrow>
     fw_recv mem m k tot bytes (if length bytes < 64 then 0 else length bytes) s \<and> \<not> halted s \<and> msg_queue s = Some 0 \<and>
     wait_list (fw s) = [] \<and> current_state (fw s) = 0 \<and> current_session_id (fw s) = sid"

text \<open>The state in which the task starts to handle a request.\<close>

definition fw_busy :: "u8 list \<Rightarrow> ('c, 'w) fw \<Rightarrow> ('c, 'w) fw" where
  "fw_busy d s = fw_upd (\<lambda>u. u\<lparr>wait_list := [\<lparr>rdata = d, rstatus = 0\<rparr>], current_state := 1\<rparr>) s"

lemma fw_idle_some: "fw_idle mem m k tot sid bytes s \<Longrightarrow> \<exists>u. fwup s = Some u"
  by (auto simp: fw_idle_def fw_recv_def)

lemma scheduler_one:
  assumes "fw_idle mem m k tot sid bytes s" "d \<noteq> []"
  shows "fwup_scheduler hw crc_upd api env (snd (tls_fwup_request_async sid (Some d) s)) =
    (case fwup_handle hw crc_upd api env d (fw_busy d s) of None \<Rightarrow> None | Some (st, s') \<Rightarrow> Some (fwup_request_finish api st s'))"
proof -
  obtain u where u: "fwup s = Some u" using fw_idle_some [OF assms(1)] by blast
  let ?r = "\<lparr>rdata = d, rstatus = 0\<rparr>"
  have i: "current_session_id u = sid" "msg_queue s = Some 0" "wait_list u = []" "current_state u = 0"
    using assms(1) u by (simp_all add: fw_idle_def)
  have "snd (tls_fwup_request_async sid (Some d) s) = (fw_upd (\<lambda>u. u\<lparr>wait_list := wait_list u @ [?r]\<rparr>) s)\<lparr>msg_queue := Some 1\<rparr>"
    using i u assms(2) by (simp add: tls_fwup_request_async_def split: list.split)
  moreover have "fw_flag 1 ((fw_upd (\<lambda>u. u\<lparr>wait_list := wait_list u @ [?r]\<rparr>) s)\<lparr>msg_queue := Some 0\<rparr>) = fw_busy d s"
    using i u by (cases s) (simp add: fw_flag_def fw_upd_def fw_busy_def)
  ultimately show ?thesis using u i
    by (simp add: fwup_scheduler_def fw_busy_def fwup_one_def Let_def split: option.split)
qed

lemma fw_recv_busy: "fw_recv mem m k tot bytes w (fw_busy d s) = fw_recv mem m k tot bytes w s"
  by (cases "fwup s") (simp_all add: fw_recv_def fw_busy_def)

lemma fw_busy_simps [simp]:
  "fprm (fw_busy d s) = fprm s" "halted (fw_busy d s) = halted s" "msg_queue (fw_busy d s) = msg_queue s"
  "oneshotback (fw_busy d s) = oneshotback s" "booter (fw_busy d s) = booter s" "wifi (fw_busy d s) = wifi s"
  "fwup (fw_busy d s) = map_option (\<lambda>u. u\<lparr>wait_list := [\<lparr>rdata = d, rstatus = 0\<rparr>], current_state := 1\<rparr>) (fwup s)"
  by (simp_all add: fw_busy_def)

text \<open>The header is accepted on the flash contents at the start of the transfer.\<close>

definition header_ok :: "'c flash_hw \<Rightarrow> (u32 \<Rightarrow> u8 list \<Rightarrow> u32) \<Rightarrow> fw_env \<Rightarrow> nat \<Rightarrow> nat \<Rightarrow> u8 list \<Rightarrow> 'c prm \<Rightarrow> bool" where
  "header_ok hw crc_upd env k tot hdr p \<longleftrightarrow>
     header_readable env hdr (pfls p) \<and> header_target k tot hdr \<and> fst (tls_fwup_img_header_check hw crc_upd env hdr p)"

context spi_nor
begin

lemma feed_mid:
  fixes s :: "('c, 'w) fw"
  assumes i: "fw_idle mem m k tot sid bytes s" and d: "d \<noteq> []" "length (bytes @ d) < tot" "64 < tot"
    and a: "upd_area prot cap k tot (pfls (fprm s))"
    and h: "64 \<le> length (bytes @ d) \<Longrightarrow> length bytes < 64 \<Longrightarrow> header_ok hw crc_upd env k tot (take 64 (bytes @ d)) (fprm s)"
  shows "\<exists>s'. fwup_scheduler hw crc_upd api env (snd (tls_fwup_request_async sid (Some d) s)) = Some s' \<and>
    fw_idle mem m k tot sid (bytes @ d) s' \<and> upd_area prot cap k tot (pfls (fprm s')) \<and> lay (fprm s') = lay (fprm s) \<and>
    inside_fls (pfls (fprm s')) = inside_fls (pfls (fprm s)) \<and> (length (bytes @ d) < 64 \<longrightarrow> fprm s' = fprm s)"
proof -
  let ?b = "fw_busy d s"
  obtain u where u: "fwup s = Some u" using fw_idle_some [OF i] by blast
  have sid: "current_session_id u = sid" using i u by (simp add: fw_idle_def)
  have r: "fw_recv mem m k tot bytes (if length bytes < 64 then 0 else length bytes) ?b"
    using i by (simp add: fw_idle_def fw_recv_busy)
  have small: "tot < 2 ^ 32" using upd_area_small [OF a] by simp
  obtain s1 w1 where 1: "fwup_handle hw crc_upd api env d ?b = Some (2, s1)" "fw_recv mem m k tot (bytes @ d) w1 s1"
    "64 \<le> length (bytes @ d) \<longrightarrow> w1 = length (bytes @ d)" "fw_same prot ?b s1" "length (bytes @ d) < 64 \<longrightarrow> fprm s1 = fprm s"
    "map_option current_state (fwup s1) = Some 1"
    using handle_mid [OF r, of d env crc_upd api] d a h u by (auto simp: header_ok_def)
  obtain v where v: "fwup s1 = Some v" "wait_list v = [\<lparr>rdata = d, rstatus = 0\<rparr>]" "current_state v = 1" "current_session_id v = sid"
    using 1(4,6) u sid by (auto simp: fw_same_def)
  have more: "\<not> (64 \<le> updated_len v \<and> total_len v \<le> updated_len v)"
  proof (cases "length (bytes @ d) < 64")
    case True
    then have "updated_len v = 0" using 1(2) v(1) by (simp add: fw_recv_def)
    then show ?thesis by simp
  next
    case False
    then have "updated_len v = of_nat (length (bytes @ d))" "total_len v = of_nat tot" using 1(2,3) v(1) by (auto simp: fw_recv_def)
    then show ?thesis using u32_of_nat_le [of tot "length (bytes @ d)"] small d(2) by simp
  qed
  let ?s' = "fwup_request_finish api 2 s1"
  have f: "?s' = (fw_upd (\<lambda>u. u\<lparr>wait_list := [], current_state := 0\<rparr>) s1)\<lparr>finished := finished s1 @ [\<lparr>rdata = d, rstatus = 2\<rparr>]\<rparr>"
    using v more by (cases s1) (auto simp: fwup_request_finish_def Let_def fw_upd_def)
  have "fw_idle mem m k tot sid (bytes @ d) ?s'"
    using 1(2,3,4) v i unfolding f by (auto simp: fw_idle_def fw_recv_def fw_same_def)
  moreover have "upd_area prot cap k tot (pfls (fprm ?s'))" "lay (fprm ?s') = lay (fprm s)" "inside_fls (pfls (fprm ?s')) = inside_fls (pfls (fprm s))"
    using fw_same_area [OF 1(4)] a 1(4) drv0_inside unfolding f by (auto simp: fw_same_def)
  moreover have "length (bytes @ d) < 64 \<longrightarrow> fprm ?s' = fprm s" using 1(5) unfolding f by simp
  ultimately show ?thesis using scheduler_one [OF i d(1), of hw crc_upd api env] 1(1) by simp
qed

lemma feed_last:
  fixes s :: "('c, 'w) fw"
  assumes i: "fw_idle mem m k tot sid bytes s" and d: "d \<noteq> []" "length (bytes @ d) = tot" "64 < tot"
    and a: "upd_area prot cap k tot (pfls (fprm s))" and o: "ota_clear k tot s"
    and h: "length bytes < 64 \<Longrightarrow> header_ok hw crc_upd env k tot (take 64 (bytes @ d)) (fprm s)"
    and t: "header_target k tot (take 64 (bytes @ d))"
    and e: "ok_buffer env" "ok_cache env" "ok_sector env" and crc: "crc_stream crc_upd"
  defines "c \<equiv> org_checksum (image_of_bytes (take 64 (bytes @ d)))"
  shows "\<exists>s'. fwup_scheduler hw crc_upd api env (snd (tls_fwup_request_async sid (Some d) s)) = Some s' \<and> halted s' \<and>
    mem_read (mem (chip (pfls (fprm s')))) (k * 4096) tot = bytes @ d \<and>
    (if c = crc_upd 0xFFFFFFFF (image_body (bytes @ d))
     then current_state (fw s') = TLS_FWUP_STATE_COMPLETE \<and> mem_read (mem (chip (pfls (fprm s')))) (ota_off s) 4 = le32 c
     else current_state (fw s') = TLS_FWUP_STATE_ERROR_CRC \<and>
       mem_read (mem (chip (pfls (fprm s')))) (ota_off s) 4 = mem_read m (ota_off s) 4)"
proof -
  let ?b = "fw_busy d s" and ?bs = "bytes @ d"
  obtain u where u: "fwup s = Some u" using fw_idle_some [OF i] by blast
  have r: "fw_recv mem m k tot bytes (if length bytes < 64 then 0 else length bytes) ?b" using i by (simp add: fw_idle_def fw_recv_busy)
  obtain s1 w1 where 1: "fwup_handle hw crc_upd api env d ?b =
      do { (r, s') \<leftarrow> fwup_verify hw crc_upd api env s1; Some (case r of Inl st \<Rightarrow> st | Inr _ \<Rightarrow> 2, s') }"
    "fw_recv mem m k tot ?bs w1 s1" "64 \<le> length ?bs \<longrightarrow> w1 = length ?bs" "fw_same prot ?b s1" "map_option current_state (fwup s1) = Some 1"
    using handle_mid [OF r, of d env crc_upd api] d a h u by (auto simp: header_ok_def)
  have w1: "w1 = tot" using 1(3) d by simp
  have r1: "fw_recv mem m k tot ?bs tot s1" using 1(2) w1 by simp
  have same1: "lay (fprm s1) = lay (fprm s)" "inside_fls (pfls (fprm s1)) = inside_fls (pfls (fprm s))"
    using 1(4) drv0_inside by (auto simp: fw_same_def)
  then have o1: "ota_off s1 = ota_off s" "ota_clear k tot s1" using o by (simp_all add: ota_off_def ota_clear_def fls_density_def)
  have a1: "upd_area prot cap k tot (pfls (fprm s1))" using fw_same_area [OF 1(4)] a by simp
  obtain s2 res v v' where 2: "fwup_verify hw crc_upd api env s1 = Some (res, s2)" "fw_same prot s1 s2"
    "mem_read (mem (chip (pfls (fprm s2)))) (k * 4096) tot = ?bs" "fwup s1 = Some v" "fwup s2 = Some v'"
    "updated_len v' = updated_len v" "total_len v' = total_len v"
    "if c = crc_upd 0xFFFFFFFF (image_body ?bs)
      then res = Inr () \<and> current_state v' = current_state v OR 2 \<and> mem_read (mem (chip (pfls (fprm s2)))) (ota_off s) 4 = le32 c
      else res = Inl 6 \<and> current_state v' = current_state v OR 32 \<and> mem_read (mem (chip (pfls (fprm s2)))) (ota_off s) 4 = mem_read m (ota_off s) 4"
    using verify_spec [OF r1 d(2,3) a1 t e crc o1(2), of api] unfolding c_def o1(1) by blast
  have v: "current_state v = 1" "updated_len v = of_nat tot" "total_len v = of_nat tot"
    using 1(2,5) 2(4) d w1 by (auto simp: fw_recv_def)
  have wl: "wait_list v' = [\<lparr>rdata = d, rstatus = 0\<rparr>]" using 1(4) 2(2,4,5) u by (simp add: fw_same_def)
  have "(64 :: u32) \<le> of_nat tot" using u32_of_nat_le [of 64 tot] d(3) upd_area_small [OF a] by simp
  then have fini: "updated_len v' \<ge> 64 \<and> updated_len v' \<ge> total_len v'" using 2(6,7) v by simp
  let ?st = "case res of Inl st \<Rightarrow> st | Inr _ \<Rightarrow> (2 :: int)"
  let ?s' = "fwup_request_finish api ?st s2"
  have fin: "halted ?s'" "fprm ?s' = fprm s2" "fwup ?s' = Some (v'\<lparr>wait_list := [], current_state := current_state v' AND NOT 1\<rparr>)"
    using 2(5) wl fini by (simp_all add: fwup_request_finish_def fwup_update_autoflag_def Let_def)
  have "fwup_scheduler hw crc_upd api env (snd (tls_fwup_request_async sid (Some d) s)) = Some ?s'"
    using scheduler_one [OF i d(1), of hw crc_upd api env] 1(1) 2(1) by simp
  then show ?thesis using fin 2(3,8) v(1) by (intro exI [of _ ?s']) (auto split: if_splits)
qed

lemma feed_all:
  fixes s :: "('c, 'w) fw"
  assumes "fw_idle mem m k tot sid bytes s" "list_all (\<lambda>d. d \<noteq> []) ds" "ds \<noteq> []" "bytes @ concat ds = img" "length img = tot" "64 < tot"
    and "upd_area prot cap k tot (pfls (fprm s))" "ota_clear k tot s" "length bytes < 64 \<Longrightarrow> fprm s = p0"
    and h: "header_ok hw crc_upd env k tot (take 64 img) p0"
    and e: "ok_buffer env" "ok_cache env" "ok_sector env" and crc: "crc_stream crc_upd"
    and c: "c = org_checksum (image_of_bytes (take 64 img))" and off: "ota_off s = off"
  shows "\<exists>s'. fwup_feed hw crc_upd api env sid ds s = Some s' \<and> halted s' \<and>
    mem_read (mem (chip (pfls (fprm s')))) (k * 4096) tot = img \<and>
    (if c = crc_upd 0xFFFFFFFF (image_body img)
     then current_state (fw s') = TLS_FWUP_STATE_COMPLETE \<and> mem_read (mem (chip (pfls (fprm s')))) off 4 = le32 c
     else current_state (fw s') = TLS_FWUP_STATE_ERROR_CRC \<and>
       mem_read (mem (chip (pfls (fprm s')))) off 4 = mem_read m off 4)"
  using assms(1-9) off
proof (induction ds arbitrary: bytes s)
  case (Cons d ds)
  have d: "d \<noteq> []" using Cons.prems(2) by simp
  have t: "header_target k tot (take 64 img)" using h by (simp add: header_ok_def)
  show ?case
  proof (cases "ds = []")
    case True
    then have img: "bytes @ d = img" using Cons.prems(4) by simp
    have h': "length bytes < 64 \<Longrightarrow> header_ok hw crc_upd env k tot (take 64 (bytes @ d)) (fprm s)"
      using h Cons.prems(9) img by simp
    show ?thesis
      using feed_last [OF Cons.prems(1) d _ Cons.prems(6,7,8) h' _ e crc, of api] t img Cons.prems(5,10) c True by auto
  next
    case False
    then have "0 < length (concat ds)" using Cons.prems(2) by (cases ds) auto
    then have lt: "length (bytes @ d) < tot" using Cons.prems(4,5) by auto
    have h': "header_ok hw crc_upd env k tot (take 64 (bytes @ d)) (fprm s)" if "64 \<le> length (bytes @ d)" "length bytes < 64"
    proof -
      have img: "img = (bytes @ d) @ concat ds" using Cons.prems(4) by simp
      have "take 64 img = take 64 (bytes @ d)" unfolding img using that(1) by (subst take_append) (simp del: take_append)
      then show ?thesis using h Cons.prems(9) that(2) by simp
    qed
    obtain s1 where 1: "fwup_scheduler hw crc_upd api env (snd (tls_fwup_request_async sid (Some d) s)) = Some s1"
      "fw_idle mem m k tot sid (bytes @ d) s1" "upd_area prot cap k tot (pfls (fprm s1))" "lay (fprm s1) = lay (fprm s)"
      "inside_fls (pfls (fprm s1)) = inside_fls (pfls (fprm s))" "length (bytes @ d) < 64 \<longrightarrow> fprm s1 = fprm s"
      using feed_mid [OF Cons.prems(1) d lt Cons.prems(6,7) h', of api] by blast
    have "ota_clear k tot s1" "ota_off s1 = off" using Cons.prems(8,10) 1(4,5) by (simp_all add: ota_clear_def ota_off_def fls_density_def)
    moreover have "length (bytes @ d) < 64 \<Longrightarrow> fprm s1 = p0" using 1(6) Cons.prems(9) by simp
    moreover have "\<not> halted s1" using 1(2) by (simp add: fw_idle_def)
    ultimately show ?thesis
      using Cons.IH [OF 1(2) _ False _ Cons.prems(5,6) 1(3)] 1(1) Cons.prems(2,4) by simp
  qed
qed simp

end

end
