(* ===== verification/Fwup_Props.thy ===== *)
theory Fwup_Props
  imports Fwup_Session Param_Reach
begin

text \<open>
  Properties of the upgrade module: a complete upgrade, the opening of a session, what the
  header check guarantees and what it misses, and the rules of the session interface.
\<close>

unbundle bit_operations_syntax

section \<open>A complete upgrade\<close>

text \<open>A session is open and nothing has been received.\<close>

definition fw_open :: "nat \<Rightarrow> u32 \<Rightarrow> ('c, 'w) fw \<Rightarrow> bool" where
  "fw_open k sid s \<longleftrightarrow>
     (case (fwup s, gsflscache (pfls (fprm s))) of
        (Some u, Some c) \<Rightarrow> received_len u = 0 \<and> updated_len u = 0 \<and> current_state u = 0 \<and> wait_list u = [] \<and>
          current_session_id u = sid \<and> length c = 4096
      | _ \<Rightarrow> False) \<and>
     (gsSector (pfls (fprm s)) = 0 \<or> gsSector (pfls (fprm s)) = 0x8000 + k) \<and>
     msg_queue s = Some 0 \<and> \<not> halted s \<and> length (booter s) = 64"

lemma fw_open_idle:
  assumes "fw_open k sid s"
  shows "fw_idle mem (mem (chip (pfls (fprm s)))) k tot sid [] s"
proof -
  obtain u c where u: "fwup s = Some u" "gsflscache (pfls (fprm s)) = Some c" "length c = 4096" "received_len u = 0" "updated_len u = 0"
    "current_state u = 0" "wait_list u = []" "current_session_id u = sid" "msg_queue s = Some 0" "\<not> halted s" "length (booter s) = 64"
    "gsSector (pfls (fprm s)) = 0 \<or> gsSector (pfls (fprm s)) = 0x8000 + k"
    using assms by (auto simp: fw_open_def split: option.splits)
  have "fast_ready mem (mem (chip (pfls (fprm s)))) k [] (pfls (fprm s))" by (rule fast_ready_start [OF u(2,3,12)])
  then show ?thesis using u by (simp add: fw_idle_def fw_recv_def)
qed

text \<open>C1. An upgrade from the first request to the reset: the image (header, body and, when the
  header says so, 128 bytes of signature) arrives in requests of any sizes, its header is
  accepted and its upgrade area is a range of unprotected sectors below the sector of the
  flag. Then the task programs exactly the image, and when the CRC of the body in flash is the checksum of the header it writes
  the flag for the boot loader and ends in the state COMPLETE; when it is not, the flag is not
  touched and the state is the CRC error. In both cases the task ends in the reset.\<close>

theorem fwup_upgrade_correct:
  assumes "spi_nor hw mem wel prot cap" "crc_stream crc_upd" "fw_open k sid s"
    "list_all (\<lambda>d. d \<noteq> []) ds" "ds \<noteq> []" "concat ds = img" "length img = tot" "64 < tot"
    "upd_area prot cap k tot (pfls (fprm s))" "ota_clear k tot s" "header_ok hw crc_upd env k tot (take 64 img) (fprm s)"
    "ok_buffer env" "ok_cache env" "ok_sector env" "c = org_checksum (image_of_bytes (take 64 img))"
  shows "\<exists>s'. fwup_feed hw crc_upd api env sid ds s = Some s' \<and> halted s' \<and>
    mem_read (mem (chip (pfls (fprm s')))) (k * 4096) tot = img \<and>
    (if c = crc_upd 0xFFFFFFFF (image_body img)
     then current_state (fw s') = TLS_FWUP_STATE_COMPLETE \<and>
       mem_read (mem (chip (pfls (fprm s')))) (ota_off s) 4 = le32 c
     else current_state (fw s') = TLS_FWUP_STATE_ERROR_CRC \<and>
       mem_read (mem (chip (pfls (fprm s')))) (ota_off s) 4 = mem_read (mem (chip (pfls (fprm s)))) (ota_off s) 4)"
  using spi_nor.feed_all [OF assms(1) fw_open_idle [OF assms(3)] assms(4,5) _ assms(7,8,9,10) _ assms(11-14,2,15) refl] assms(6)
  by simp

subsection \<open>A concrete image\<close>

definition sw_upd :: "u32 \<Rightarrow> u8 list \<Rightarrow> u32" where
  "sw_upd c bs = fold crc32_absorb bs c"

lemma sw_upd_stream: "crc_stream sw_upd"
  by (simp add: crc_stream_def sw_upd_def)

definition demo_hdr60 :: "u32 \<Rightarrow> u32 \<Rightarrow> u8 list" where
  "demo_hdr60 len c = le32 SIGNATURE_WORD @ le32 0x11 @ le32 0x80D0400 @ le32 len @ le32 0x80D0000 @
     le32 0x8010000 @ le32 c @ le32 0 @ replicate 16 0 @ le32 0 @ le32 0 @ le32 0"

definition demo_hdr :: "u32 \<Rightarrow> u32 \<Rightarrow> u8 list" where
  "demo_hdr len c = demo_hdr60 len c @ le32 (header_crc sw_upd (demo_hdr60 len c))"

definition demo_image :: "u8 list \<Rightarrow> u8 list" where
  "demo_image body = demo_hdr (of_nat (length body)) (sw_upd 0xFFFFFFFF body) @ body"

definition demo_api :: "u8 wifi_api" where
  "demo_api = \<lparr>oneshot_get = id, oneshot_set = (\<lambda>v _. v), psflag_set = (\<lambda>_ w. w), auto_get = (\<lambda>_. 0), auto_set = (\<lambda>_ w. w)\<rparr>"

definition demo_env :: fw_env where
  "demo_env = \<lparr>ok_cache = True, ok_sector = True, ok_buffer = True, junk_run = replicate 64 0, junk_buffer = replicate 1024 0\<rparr>"

definition demo_fw :: "(nor_chip, u8) fw" where
  "demo_fw = \<lparr>fprm = demo_prm\<lparr>pfls := demo_fls\<lparr>gsflscache := Some (replicate 4096 0)\<rparr>\<rparr>,
     fwup = Some (tls_fwup_zero\<lparr>busy := True, current_session_id := 7\<rparr>), fwup_freed = False, list_lock = Some 1,
     msg_queue = Some 0, fwup_task = True, booter = replicate 64 0, oneshotback = 0, wifi = 0, reboot_reason = 0,
     halted = False, finished = []\<rparr>"

lemma length_demo_hdr: "length (demo_hdr60 len c) = 60" "length (demo_hdr len c) = 64"
  by (simp_all add: demo_hdr60_def demo_hdr_def)

lemma header_crc_prefix: "length bs = 60 \<Longrightarrow> header_crc crc_upd (bs @ r) = header_crc crc_upd bs"
  unfolding header_crc_def by (rule fold_cong) (auto simp: take_append)

lemma demo_header: "take 64 (demo_image body) = demo_hdr (of_nat (length body)) (sw_upd 0xFFFFFFFF body)"
  by (simp add: demo_image_def length_demo_hdr)

lemma demo_fields:
  "image_of_bytes (demo_hdr len c) =
     \<lparr>magic_no = SIGNATURE_WORD, img_attr = 0x11, img_addr = 0x80D0400, img_len = len, img_header_addr = 0x80D0000,
      upgrade_img_addr = 0x8010000, org_checksum = c, upd_no = 0, ver = replicate 16 0, h_reserved0 = 0,
      h_reserved1 = 0, h_next = 0, hd_checksum = header_crc sw_upd (demo_hdr60 len c)\<rparr>"
  unfolding demo_hdr_def using un32_le32 [of _ "[]"] by (simp add: image_of_bytes_def demo_hdr60_def)

lemma demo_fw_simps [simp]:
  "inside_fls (pfls (fprm demo_fw)) = Some \<lparr>flashid = 0xC8, density = 0x200000, otp_eraseSize = 1024, otp_pageSize = 256\<rparr>"
  "cells (chip (pfls (fprm demo_fw))) x = 0x5A" "\<not> nor_prot (chip (pfls (fprm demo_fw))) x" "lay (fprm demo_fw) = fls_layout_default"
  by (simp_all add: demo_fw_def)

lemma demo_area: "upd_area nor_prot 0x2000000 16 n (pfls (fprm demo_fw)) \<longleftrightarrow> n \<le> 0x1F0000"
  by (simp add: upd_area_def)

lemma demo_check:
  assumes "0x80D0400 + len < USER_ADDR_START" "0x8010000 + len < CODE_RUN_START_ADDR"
  shows "fst (tls_fwup_img_header_check nor_hw sw_upd demo_env (demo_hdr len c) (fprm demo_fw))"
proof -
  let ?h = "image_of_bytes (demo_hdr len c)"
  have j: "junk_run demo_env = replicate 64 0" "ok_cache demo_env" by (simp_all add: demo_env_def)
  have "mem_read (cells (chip (pfls (fprm demo_fw)))) a n = replicate n 0x5A" for a n by (rule nth_equalityI) simp_all
  then obtain p where p: "read_over nor_hw True True 0x80D0000 (replicate 64 0) (fprm demo_fw) = (replicate 64 0x5A, p)"
    using nor.read_in [of "fprm demo_fw" _ "0x80D0000" 0 "replicate 64 0" True] by auto
  have r: "\<not> signature (image_of_bytes (replicate 64 0x5A))" "code_encrypt (image_of_bytes (replicate 64 0x5A))"
    by (simp_all add: signature_def code_encrypt_def image_of_bytes_def un32_def)
  have crc: "header_crc sw_upd (demo_hdr len c) = header_crc sw_upd (demo_hdr60 len c)"
    unfolding demo_hdr_def by (rule header_crc_prefix [OF length_demo_hdr(1)])
  have h: "img_type ?h = 1" "\<not> signature ?h" "code_encrypt ?h"
    by (simp_all add: demo_fields img_type_def signature_def code_encrypt_def field_def)
  show ?thesis
    using p r h crc assms by (simp add: tls_fwup_img_header_check_def j Let_def) (simp add: demo_fields not_le)
qed

theorem fwup_upgrade_correct_witness:
  "\<exists>s'. fwup_feed nor_hw sw_upd demo_api demo_env 7 [take 10 (demo_image [1, 2, 3, 4]), drop 10 (demo_image [1, 2, 3, 4])] demo_fw = Some s' \<and>
    halted s' \<and> mem_read (cells (chip (pfls (fprm s')))) 0x10000 68 = demo_image [1, 2, 3, 4] \<and>
    current_state (fw s') = TLS_FWUP_STATE_COMPLETE \<and>
    mem_read (cells (chip (pfls (fprm s')))) 0x1FF000 4 = le32 (sw_upd 0xFFFFFFFF [1, 2, 3, 4])"
proof -
  let ?img = "demo_image [1, 2, 3, 4]"
  have l: "length ?img = 68" by (simp add: demo_image_def length_demo_hdr)
  have "fw_open 16 7 demo_fw" by (simp add: fw_open_def demo_fw_def tls_fwup_zero_def demo_fls_def)
  moreover have "ota_off demo_fw = 0x1FF000" "ota_clear 16 68 demo_fw"
    by (simp_all add: ota_off_def ota_clear_def fls_layout_default_def fls_density_def)
  moreover have "header_ok nor_hw sw_upd demo_env 16 68 (take 64 ?img) (fprm demo_fw)"
    using demo_check [of 4 "sw_upd 0xFFFFFFFF [1, 2, 3, 4]"] by (simp add: demo_header header_ok_def header_readable_def header_target_def demo_fields demo_env_def fls_density_def signature_def)
  moreover have "image_body ?img = [1, 2, 3, 4]"
    by (simp add: image_body_def demo_header demo_fields) (simp add: demo_image_def length_demo_hdr)
  moreover have "ok_buffer demo_env" "ok_cache demo_env" "ok_sector demo_env" by (simp_all add: demo_env_def)
  moreover have "take 10 ?img \<noteq> []" "drop 10 ?img \<noteq> []" using l by auto
  ultimately show ?thesis
    using fwup_upgrade_correct [where crc_upd = sw_upd and api = demo_api and k = 16 and tot = 68 and s = demo_fw,
      OF nor.spi_nor_axioms sw_upd_stream, of 7 "[take 10 ?img, drop 10 ?img]" ?img demo_env] l demo_area
    by (simp add: demo_header demo_fields)
qed

section \<open>The header check\<close>

text \<open>What an accepted header guarantees, when the sums of address and length do not wrap:
  the image is a flash image at an address of 1024 byte alignment, it is stored at or above the
  start of the upgrade area and its body, counted from there, ends below the running image, the running copy ends
  below the user area, and the header carries its own checksum.\<close>

theorem fwup_header_check_bounds:
  assumes "tls_fwup_img_header_check hw crc_upd env img p = (True, p')" "h = image_of_bytes img"
    "unat (upgrade_img_addr h OR FLASH_BASE_ADDR) + unat (img_len h) < 2 ^ 32"
    "unat (img_addr h OR FLASH_BASE_ADDR) + unat (img_len h) < 2 ^ 32"
  shows "img_type h = IMG_TYPE_FLASHBIN0 \<and> 1024 dvd unat (img_addr h) \<and>
    0x8010000 \<le> unat (upgrade_img_addr h OR FLASH_BASE_ADDR) \<and>
    unat (upgrade_img_addr h OR FLASH_BASE_ADDR) + unat (img_len h) < 0x80D0000 \<and>
    unat (img_addr h OR FLASH_BASE_ADDR) + unat (img_len h) < 0x81E0000 \<and> hd_checksum h = header_crc crc_upd img"
proof -
  have c: "img_type h = 1" "img_addr h mod 0x400 = 0" "\<not> (upgrade_img_addr h OR FLASH_BASE_ADDR) < CODE_UPD_START_ADDR"
    "\<not> (upgrade_img_addr h OR FLASH_BASE_ADDR) + img_len h \<ge> CODE_RUN_START_ADDR"
    "\<not> (img_addr h OR FLASH_BASE_ADDR) + img_len h \<ge> USER_ADDR_START" "hd_checksum h = header_crc crc_upd img"
    using assms(1) unfolding assms(2) by (auto simp: tls_fwup_img_header_check_def Let_def split: if_splits prod.splits)
  have "unat (img_addr h) mod 1024 = unat (img_addr h mod 0x400)" by (simp add: unat_mod_distrib)
  then have "1024 dvd unat (img_addr h)" using c(2) by (simp add: dvd_eq_mod_eq_0)
  moreover have "unat ((upgrade_img_addr h OR FLASH_BASE_ADDR) + img_len h) = unat (upgrade_img_addr h OR FLASH_BASE_ADDR) + unat (img_len h)"
    using assms(3) by (simp add: unat_word_ariths)
  moreover have "unat ((img_addr h OR FLASH_BASE_ADDR) + img_len h) = unat (img_addr h OR FLASH_BASE_ADDR) + unat (img_len h)"
    using assms(4) by (simp add: unat_word_ariths)
  ultimately show ?thesis using c by (simp add: word_le_nat_alt word_less_nat_alt not_le not_less)
qed

theorem fwup_header_check_bounds_witness:
  "1024 dvd unat (img_addr (image_of_bytes (demo_hdr 4 0))) \<and> unat (upgrade_img_addr (image_of_bytes (demo_hdr 4 0)) OR FLASH_BASE_ADDR) + 4 < 0x80D0000"
proof -
  obtain p' where "tls_fwup_img_header_check nor_hw sw_upd demo_env (demo_hdr 4 0) (fprm demo_fw) = (True, p')"
    using demo_check [of 4 0] by (cases "tls_fwup_img_header_check nor_hw sw_upd demo_env (demo_hdr 4 0) (fprm demo_fw)") auto
  from fwup_header_check_bounds [OF this refl] show ?thesis by (simp add: demo_fields)
qed

text \<open>The check does not count the header (and the signature) that is stored with the body:
  an image whose body just fits is accepted although header and body together reach beyond \<^verbatim>\<open>CODE_RUN_START_ADDR\<close>,
  so that programming it overwrites the header of the running image.\<close>

theorem fwup_header_overlap:
  "fst (tls_fwup_img_header_check nor_hw sw_upd demo_env (demo_hdr 0xBFFFF c) (fprm demo_fw)) \<and>
    header_target 16 0xC003F (demo_hdr 0xBFFFF c) \<and> unat CODE_RUN_START_ADDR < 0x8000000 + 16 * 4096 + 0xC003F"
  using demo_check [of "0xBFFFF" c] by (simp add: header_target_def demo_fields signature_def)

text \<open>The sums of the check are 32-bit sums: a header with the length 0xFFFFFFFF is accepted,
  because both sums wrap around.\<close>

theorem fwup_header_wraps:
  "fst (tls_fwup_img_header_check nor_hw sw_upd demo_env (demo_hdr 0xFFFFFFFF c) (fprm demo_fw)) \<and>
    img_len (image_of_bytes (demo_hdr 0xFFFFFFFF c)) = 0xFFFFFFFF"
  using demo_check [of "0xFFFFFFFF" c] by (simp add: demo_fields)

section \<open>Sessions\<close>

context spi_nor
begin

lemma get_psm_kept:
  assumes "param_wf prot cap p"
  shows "\<exists>v f. get_psm hw ok p = (v, p\<lparr>pfls := f\<rparr>) \<and> kept mem prot (pfls p) f"
proof -
  obtain f where f: "tls_fls_read hw True True (param_addr (lay p) (partition_num (flash_param p) = 0)) False 2036 (pfls p) =
      (0, param_copy mem p (partition_num (flash_param p) = 0), f)" "kept mem prot (pfls p) f"
    using read_copy [OF assms] by blast
  have "snd (get_psm hw ok p) = p\<lparr>pfls := (if ok then f else pfls p)\<rparr>"
    using f(1) by (simp add: get_psm_def tls_param_get_def Let_def split: option.split list.split)
  then show ?thesis using f(2) kept_refl [of mem prot "pfls p"] by (metis prod.collapse)
qed

end

text \<open>\<^verbatim>\<open>tls_fwup_enter\<close> on an idle module opens a session with the first non-zero random number as its id:
  the module is ready for the first request, whatever the previous session left behind in
  its counters, and the fast write cache is allocated.\<close>

theorem fwup_enter_opens:
  assumes "spi_nor hw mem wel prot cap" "param_wf prot cap (fprm s)" "fwup s = Some u" "\<not> busy u" "wait_list u = []"
    "msg_queue s = Some 0" "\<not> halted s" "length (booter s) = 64" "gsflscache (pfls (fprm s)) = None"
    "gsSector (pfls (fprm s)) = 0 \<or> gsSector (pfls (fprm s)) = 0x8000 + k" "length blk = 4096" "find (\<lambda>r. r \<noteq> 0) rands = Some sid"
  shows "\<exists>s'. tls_fwup_enter hw api inits rands ok (Some blk) src s = Some (sid, s') \<and> sid \<noteq> 0 \<and> fw_open k sid s' \<and>
    tls_fwup_get_status s' \<and> mem (chip (pfls (fprm s'))) = mem (chip (pfls (fprm s)))"
proof -
  obtain v f where f: "get_psm hw ok (fprm s) = (v, (fprm s)\<lparr>pfls := f\<rparr>)" "kept mem prot (pfls (fprm s)) f"
    using spi_nor.get_psm_kept [OF assms(1,2)] by blast
  have d: "gsflscache f = None" "gsSector f = gsSector (pfls (fprm s))" "inside_fls f = inside_fls (pfls (fprm s))"
    "mem (chip f) = mem (chip (pfls (fprm s)))"
    using f(2) assms(9) drv_eq_fields [of f "pfls (fprm s)"] by (simp_all add: kept_def)
  have i: "inside_fls f \<noteq> None" using d(3) assms(2) by (auto simp: param_wf_def)
  have "sid \<noteq> 0" using assms(12) by (auto simp: find_Some_iff)
  then show ?thesis
    using assms(3-8,10-12) f(1) d i
    by (cases inits) (auto simp: tls_fwup_enter_def tls_fwup_init_def Let_def tls_fls_fast_write_init_def fw_open_def tls_fwup_get_status_def)
qed

theorem fwup_enter_opens_witness:
  "\<exists>s'. tls_fwup_enter nor_hw demo_api (True, True, True, True, True) [0, 9] True (Some (replicate 4096 0)) SRC_WEB
      (demo_fw\<lparr>fprm := demo_prm, fwup := Some tls_fwup_zero\<rparr>) = Some (9, s') \<and> fw_open 16 9 s'"
  using fwup_enter_opens [where s = "demo_fw\<lparr>fprm := demo_prm, fwup := Some tls_fwup_zero\<rparr>" and u = tls_fwup_zero and k = 16
      and blk = "replicate 4096 0" and rands = "[0, 9]" and sid = 9 and api = demo_api
      and inits = "(True, True, True, True, True)" and ok = True and src = SRC_WEB, OF nor.spi_nor_axioms]
    demo_param_wf
  by (auto simp: tls_fwup_zero_def demo_fw_def demo_fls_def)

text \<open>One session at a time: while a session is open, \<^verbatim>\<open>tls_fwup_enter\<close> returns 0 and changes
  nothing, and every operation with another session id is refused without effect.\<close>

theorem fwup_session_exclusive:
  assumes "fwup s = Some u" "busy u" "sid \<noteq> current_session_id u"
  shows "tls_fwup_enter hw api inits rands ok blk src s = Some (0, s) \<and>
    tls_fwup_exit hw api ok sid s = (TLS_FWUP_STATUS_ESESSIONID, s) \<and> tls_fwup_reset sid s = (TLS_FWUP_STATUS_ESESSIONID, s) \<and>
    tls_fwup_clear_error sid s = (TLS_FWUP_STATUS_ESESSIONID, s) \<and> tls_fwup_set_crc_error sid s = (TLS_FWUP_STATUS_ESESSIONID, s) \<and>
    tls_fwup_request_async sid data s = (TLS_FWUP_STATUS_ESESSIONID, s) \<and>
    tls_fwup_request_sync hw crc_upd api env sem_ok junk sid data s = Some (TLS_FWUP_STATUS_ESESSIONID, s) \<and>
    tls_fwup_current_state sid s = TLS_FWUP_STATE_UNDEF"
  using assms
  by (cases inits) (simp add: tls_fwup_enter_def tls_fwup_init_def tls_fwup_exit_def tls_fwup_reset_def tls_fwup_clear_error_def
      tls_fwup_set_crc_error_def tls_fwup_request_async_def tls_fwup_request_sync_def tls_fwup_current_state_def)

theorem fwup_session_exclusive_witness:
  "tls_fwup_enter nor_hw demo_api (True, True, True, True, True) [5] True None SRC_WEB demo_fw = Some (0, demo_fw) \<and>
    tls_fwup_request_async 8 (Some [1]) demo_fw = (5, demo_fw)"
  using fwup_session_exclusive [of demo_fw "tls_fwup_zero\<lparr>busy := True, current_session_id := 7\<rparr>" 8 nor_hw demo_api
    "(True, True, True, True, True)" "[5]" True None SRC_WEB "Some [1]"]
  by (simp add: demo_fw_def)

text \<open>A client of \<^verbatim>\<open>tls_fwup_request_sync\<close> never sees an error of the transfer: a request that
  fails resets the system before its callback runs, so that a request that was accepted and returns has
  succeeded, and none of the codes EIO, ESIGNATURE, EMEM and ECRC that the function maps the request status to is delivered.\<close>

theorem fwup_sync_errors_lost:
  assumes "fwup s = Some u" "current_session_id u = sid" "wait_list u = []" "msg_queue s = Some 0" "d \<noteq> []"
    "tls_fwup_request_sync hw crc_upd api env True junk sid (Some d) s = Some (err, s')"
  shows "err = TLS_FWUP_STATUS_OK"
proof -
  let ?r = "\<lparr>rdata = d, rstatus = 0\<rparr>"
  let ?s1 = "(fw_upd (\<lambda>u. u\<lparr>wait_list := wait_list u @ [?r]\<rparr>) s)\<lparr>msg_queue := Some 1\<rparr>"
  have a: "tls_fwup_request_async sid (Some d) s = (0, ?s1)"
    using assms(1-5) by (cases d) (simp_all add: tls_fwup_request_async_def Let_def)
  obtain s2 where s2: "fwup_scheduler hw crc_upd api env ?s1 = Some s2" "\<not> halted s2" "finished s2 \<noteq> []"
    "err = fwup_sync_status (rstatus (last (finished s2)))"
    using assms(1,2,5,6) by (auto simp: tls_fwup_request_sync_def a bind_eq_Some_conv split: if_splits)
  have q: "msg_queue ?s1 = Some 1" "fwup ?s1 = Some (u\<lparr>wait_list := [?r]\<rparr>)"
    using assms(1,3) by simp_all
  then obtain s3 st where s3: "s2 = fwup_request_finish api st s3"
    using s2(1) by (auto simp: fwup_scheduler_def fwup_one_def Let_def bind_eq_Some_conv split: if_splits)
  then have "st = 2 \<and> rstatus (last (finished s2)) = 2"
    using s2(2) by (auto simp: fwup_request_finish_def Let_def split: if_splits)
  with s2(4) show ?thesis by (simp add: fwup_sync_status_def)
qed

theorem fwup_sync_errors_lost_witness:
  "\<exists>s'. tls_fwup_request_sync nor_hw sw_upd demo_api demo_env True 0 7 (Some [1, 2]) demo_fw = Some (0, s')"
proof -
  let ?d = "[1, 2] :: u8 list"
  have "fw_open 16 7 demo_fw" by (simp add: fw_open_def demo_fw_def tls_fwup_zero_def demo_fls_def)
  then have i: "fw_idle cells (cells (chip (pfls (fprm demo_fw)))) 16 100 7 [] demo_fw" by (rule fw_open_idle)
  obtain s1 where s1: "fwup_scheduler nor_hw sw_upd demo_api demo_env (snd (tls_fwup_request_async 7 (Some ?d) demo_fw)) = Some s1"
    "fw_idle cells (cells (chip (pfls (fprm demo_fw)))) 16 100 7 ?d s1"
    using nor.feed_mid [where crc_upd = sw_upd and env = demo_env and api = demo_api, OF i, of ?d] demo_area [of 100] by auto
  have "\<not> halted s1" using s1(2) by (simp add: fw_idle_def)
  moreover have "finished s1 \<noteq> []"
    using s1(1) calculation unfolding scheduler_one [OF i, of ?d, simplified]
    by (auto simp: fwup_request_finish_def Let_def split: option.splits if_splits)
  ultimately have "\<exists>err s'. tls_fwup_request_sync nor_hw sw_upd demo_api demo_env True 0 7 (Some ?d) demo_fw = Some (err, s')"
    using s1(1) by (simp add: tls_fwup_request_sync_def demo_fw_def tls_fwup_zero_def tls_fwup_request_async_def Let_def)
  then obtain err s' where r: "tls_fwup_request_sync nor_hw sw_upd demo_api demo_env True 0 7 (Some ?d) demo_fw = Some (err, s')" by blast
  have "err = 0"
    by (rule fwup_sync_errors_lost [where u = "tls_fwup_zero\<lparr>busy := True, current_session_id := 7\<rparr>", OF _ _ _ _ _ r]) (simp_all add: demo_fw_def tls_fwup_zero_def)
  with r show ?thesis by blast
qed

text \<open>\<^verbatim>\<open>tls_fwup_init\<close> does not clear its pointer on three of its four error paths: the block is
  freed, but the module counts as installed. A second call reports that it is busy, and
  \<^verbatim>\<open>tls_fwup_enter\<close> opens a session on freed memory although there is no task to serve it.\<close>

theorem fwup_init_dangling:
  assumes "fwup s = None" "\<not> fwup_task s" "\<not> sem_ok \<or> \<not> queue_ok \<or> \<not> stk_ok" "find (\<lambda>r. r \<noteq> 0) rands = Some sid"
  shows "\<exists>s1 s2. tls_fwup_init True sem_ok queue_ok stk_ok task_ok s = (TLS_FWUP_STATUS_EMEM, s1) \<and>
    fwup_freed s1 \<and> fst (tls_fwup_init a b c d e s1) = TLS_FWUP_STATUS_EBUSY \<and>
    tls_fwup_enter hw api (a, b, c, d, e) rands ok blk src s1 = Some (sid, s2) \<and> fwup_freed s2 \<and> \<not> fwup_task s2"
proof -
  define s1 where "s1 = snd (tls_fwup_init True sem_ok queue_ok stk_ok task_ok s)"
  have 1: "tls_fwup_init True sem_ok queue_ok stk_ok task_ok s = (2, s1)" "fwup_freed s1"
    "fwup s1 = Some tls_fwup_zero" "\<not> fwup_task s1"
    using assms by (auto simp: s1_def tls_fwup_init_def Let_def)
  then have "fst (tls_fwup_init a b c d e s1) = 4" by (simp add: tls_fwup_init_def)
  moreover have "\<exists>s2. tls_fwup_enter hw api (a, b, c, d, e) rands ok blk src s1 = Some (sid, s2) \<and> fwup_freed s2 \<and> \<not> fwup_task s2"
    using 1 assms(4) by (auto simp: tls_fwup_enter_def tls_fwup_init_def tls_fwup_zero_def Let_def fw_upd_def fw_fls_def split: prod.split)
  ultimately show ?thesis using 1 by blast
qed

theorem fwup_init_dangling_witness:
  "\<exists>s1 s2. tls_fwup_init True False True True True (demo_fw\<lparr>fwup := None, fwup_task := False\<rparr>) = (2, s1) \<and> fwup_freed s1 \<and>
    tls_fwup_enter nor_hw demo_api (True, True, True, True, True) [3] True None SRC_WEB s1 = Some (3, s2) \<and> \<not> fwup_task s2"
  using fwup_init_dangling [of "demo_fw\<lparr>fwup := None, fwup_task := False\<rparr>" False True True "[3]" 3 True True True True True True nor_hw demo_api True None SRC_WEB]
  by auto

end
