(* ===== verification/Fwup_Queue.thy ===== *)
theory Fwup_Queue
  imports Mcu_Prelude
begin

text \<open>
  The hand-over of requests between the clients and the upgrade task as interleaved steps.
  \<^verbatim>\<open>tls_fwup_request_async\<close> appends a request and sends a message only when the list was empty;
  the task takes a message and walks over the list with \<^verbatim>\<open>dl_list_for_each_safe\<close>, which fetches the
  successor of a request before the request is handled and removed. Requests are named by
  numbers. A single client that waits for its answer is always served; with two clients
  a request can be left behind for ever.
\<close>

section \<open>Steps\<close>

text \<open>\<open>cursor\<close> is the pair \<^verbatim>\<open>request\<close>, \<^verbatim>\<open>temp\<close> of the loop while it runs; the second component is
  \<open>None\<close> when \<^verbatim>\<open>temp\<close> is the head of the list.\<close>

record rq =
  waiting :: "nat list"
  msgs :: nat
  cursor :: "(nat \<times> nat option) option"
  served :: "nat list"

definition succ_of :: "nat \<Rightarrow> nat list \<Rightarrow> nat option" where
  "succ_of r xs = (case dropWhile (\<lambda>x. x \<noteq> r) xs of _ # y # _ \<Rightarrow> Some y | _ \<Rightarrow> None)"

text \<open>\<^verbatim>\<open>tls_fwup_request_async\<close>: the queue holds 4 messages.\<close>

definition rq_add :: "nat \<Rightarrow> rq \<Rightarrow> rq" where
  "rq_add r s = s\<lparr>waiting := waiting s @ [r], msgs := (if waiting s = [] \<and> msgs s < 4 then msgs s + 1 else msgs s)\<rparr>"

text \<open>The task takes a message and enters the loop.\<close>

definition rq_start :: "rq \<Rightarrow> rq option" where
  "rq_start s =
     (if cursor s = None \<and> 0 < msgs s
      then Some (s\<lparr>msgs := msgs s - 1, cursor := (case waiting s of [] \<Rightarrow> None | r # _ \<Rightarrow> Some (r, succ_of r (waiting s)))\<rparr>)
      else None)"

text \<open>The loop handles its request, removes it and advances.\<close>

definition rq_serve :: "rq \<Rightarrow> rq option" where
  "rq_serve s =
     (case cursor s of
        None \<Rightarrow> None
      | Some (r, n) \<Rightarrow>
          let w = remove1 r (waiting s)
          in Some (s\<lparr>waiting := w, served := served s @ [r],
                     cursor := (case n of None \<Rightarrow> None | Some r' \<Rightarrow> Some (r', succ_of r' w))\<rparr>))"

inductive rq_step :: "rq \<Rightarrow> rq \<Rightarrow> bool" where
  Add: "r \<notin> set (waiting s) \<Longrightarrow> r \<notin> set (served s) \<Longrightarrow> rq_step s (rq_add r s)"
| Start: "rq_start s = Some s' \<Longrightarrow> rq_step s s'"
| Serve: "rq_serve s = Some s' \<Longrightarrow> rq_step s s'"

inductive_cases rq_stepE: "rq_step s s'"

text \<open>A single client adds a request only after the previous one has been answered.\<close>

inductive rq_single :: "rq \<Rightarrow> bool" where
  Init: "rq_single \<lparr>waiting = [], msgs = 0, cursor = None, served = []\<rparr>"
| Add1: "rq_single s \<Longrightarrow> waiting s = [] \<Longrightarrow> cursor s = None \<Longrightarrow> rq_single (rq_add r s)"
| Start1: "rq_single s \<Longrightarrow> rq_start s = Some s' \<Longrightarrow> rq_single s'"
| Serve1: "rq_single s \<Longrightarrow> rq_serve s = Some s' \<Longrightarrow> rq_single s'"

section \<open>Lemmas\<close>

definition rq_left_behind :: "nat \<Rightarrow> rq \<Rightarrow> bool" where
  "rq_left_behind r s \<longleftrightarrow> r \<in> set (waiting s) \<and> r \<notin> set (served s) \<and> msgs s = 0 \<and> cursor s = None"

lemma left_behind_step:
  assumes "rq_left_behind r s" "rq_step s s'"
  shows "rq_left_behind r s'"
  using assms(2,1) by cases (auto simp: rq_left_behind_def rq_add_def rq_start_def rq_serve_def)

lemma single_shape:
  assumes "rq_single s"
  shows "msgs s = 0 \<and> waiting s = [] \<and> cursor s = None \<or> (\<exists>r. waiting s = [r] \<and> (msgs s = 1 \<and> cursor s = None \<or> msgs s = 0 \<and> cursor s = Some (r, None)))"
  using assms by induction (auto simp: rq_add_def rq_start_def rq_serve_def succ_of_def Let_def)

section \<open>Properties\<close>

text \<open>A single client is always served: in every reachable state with a waiting request the
  task has work to do, and at most two steps of the task serve it.\<close>

theorem fwq_single_served:
  assumes "rq_single s" "r \<in> set (waiting s)"
  shows "(\<exists>s'. rq_serve s = Some s' \<and> r \<in> set (served s')) \<or>
    (\<exists>s1 s'. rq_start s = Some s1 \<and> rq_serve s1 = Some s' \<and> r \<in> set (served s'))"
  using single_shape [OF assms(1)] assms(2) by (auto simp: rq_start_def rq_serve_def succ_of_def Let_def)

theorem fwq_single_served_witness:
  "(\<exists>s'. rq_serve (rq_add 3 \<lparr>waiting = [], msgs = 0, cursor = None, served = []\<rparr>) = Some s' \<and> 3 \<in> set (served s')) \<or>
    (\<exists>s1 s'. rq_start (rq_add 3 \<lparr>waiting = [], msgs = 0, cursor = None, served = []\<rparr>) = Some s1 \<and> rq_serve s1 = Some s' \<and> 3 \<in> set (served s'))"
proof -
  let ?s = "\<lparr>waiting = [], msgs = 0, cursor = None, served = []\<rparr>"
  have "rq_single (rq_add 3 ?s)" by (rule rq_single.Add1 [OF rq_single.Init]) simp_all
  then show ?thesis by (rule fwq_single_served) (simp add: rq_add_def)
qed

text \<open>C38. A request that a second client adds while the task handles the last request of the
  list is never served: no message is sent for it because the list is not empty, the loop
  has already fetched the end of the list, and from then on no step of any client or of the
  task changes that.\<close>

theorem fwq_request_stranded:
  assumes "waiting s = [a]" "cursor s = Some (a, None)" "msgs s = 0" "r \<noteq> a" "r \<notin> set (served s)"
    "rq_serve (rq_add r s) = Some s1" "rtranclp rq_step s1 s2"
  shows "r \<in> set (waiting s2) \<and> r \<notin> set (served s2)"
proof -
  have "rq_left_behind r s1"
    using assms(1-6) by (auto simp: rq_left_behind_def rq_add_def rq_serve_def Let_def)
  with assms(7) have "rq_left_behind r s2" by induction (auto intro: left_behind_step)
  then show ?thesis by (simp add: rq_left_behind_def)
qed

theorem fwq_request_stranded_witness:
  "let s = \<lparr>waiting = [1], msgs = 0, cursor = Some (1, None), served = []\<rparr>
   in \<exists>s1. rq_serve (rq_add 2 s) = Some s1 \<and> 2 \<in> set (waiting (rq_add 5 s1)) \<and> 2 \<notin> set (served (rq_add 5 s1))"
proof -
  let ?s = "\<lparr>waiting = [1], msgs = 0, cursor = Some (1, None), served = []\<rparr>"
  let ?s1 = "\<lparr>waiting = [2], msgs = 0, cursor = None, served = [1]\<rparr>"
  have 1: "rq_serve (rq_add 2 ?s) = Some ?s1" by (simp add: rq_serve_def rq_add_def)
  have "rtranclp rq_step ?s1 (rq_add 5 ?s1)" by (rule r_into_rtranclp) (auto intro: rq_step.Add)
  then have "2 \<in> set (waiting (rq_add 5 ?s1)) \<and> 2 \<notin> set (served (rq_add 5 ?s1))"
    using fwq_request_stranded [of ?s 1 2 ?s1 "rq_add 5 ?s1"] 1 by simp
  with 1 show ?thesis by (simp only: Let_def) blast
qed

end
