(* ===== verification/Wl_Timers.thy ===== *)
theory Wl_Timers
  imports Mcu_Prelude
begin

text \<open>
  The one-shot timers of the task wrapper (\<^verbatim>\<open>platform/common/task/wm_wl_timers.c\<close>) and the mailbox
  fetch they wait in (\<^verbatim>\<open>tls_arch_mbox_fetch\<close> of \<^verbatim>\<open>wm_wl_mbox.c\<close>). A timer list is a delta list: an
  entry holds the time after its predecessor. The lemmas relate it to the list of deadlines
  from now, a sorted list with stable insertion, and follow the fetch loop in real time.
\<close>

section \<open>Timer lists\<close>

text \<open>\<^verbatim>\<open>struct tls_timeo\<close>; \<^verbatim>\<open>next\<close> is the list. Handlers and arguments are addresses, 0 is \<^verbatim>\<open>NULL\<close>.\<close>

record tls_timeo =
  t_time :: u32
  t_h :: u32
  t_arg :: u32

type_synonym timeo_list = "tls_timeo list"

text \<open>The loop of \<^verbatim>\<open>tls_timeout_p\<close> from the node \<open>t\<close> on.\<close>

fun timeout_walk :: "tls_timeo \<Rightarrow> timeo_list \<Rightarrow> timeo_list" where
  "timeout_walk n [] = []"
| "timeout_walk n [t] = [t, n\<lparr>t_time := t_time n - t_time t\<rparr>]"
| "timeout_walk n (t # u # ts) =
     (let n' = n\<lparr>t_time := t_time n - t_time t\<rparr>
      in if t_time n' < t_time u then t # n' # u\<lparr>t_time := t_time u - t_time n'\<rparr> # ts
         else t # timeout_walk n' (u # ts))"

definition timeout_insert :: "u32 \<Rightarrow> u32 \<Rightarrow> u32 \<Rightarrow> timeo_list \<Rightarrow> timeo_list" where
  "timeout_insert msecs handler a ts =
     (let n = \<lparr>t_time = msecs, t_h = handler, t_arg = a\<rparr>
      in case ts of
           [] \<Rightarrow> [n]
         | t # r \<Rightarrow> if msecs < t_time t then n # t\<lparr>t_time := t_time t - msecs\<rparr> # r else timeout_walk n ts)"

text \<open>The loop of \<^verbatim>\<open>tls_untimeout_p\<close>.\<close>

fun untimeout_walk :: "u32 \<Rightarrow> u32 \<Rightarrow> timeo_list \<Rightarrow> timeo_list" where
  "untimeout_walk handler a [] = []"
| "untimeout_walk handler a (t # ts) =
     (if t_h t = handler \<and> t_arg t = a
      then (case ts of [] \<Rightarrow> [] | u # r \<Rightarrow> u\<lparr>t_time := t_time u + t_time t\<rparr> # r)
      else t # untimeout_walk handler a ts)"

text \<open>\<^verbatim>\<open>next_timeout\<close> has \<^verbatim>\<open>TLS_TIMEO_ALL_COUONT\<close> = 9 lists. An operation on an index outside the array
  has no defined outcome: \<open>None\<close>. \<open>mem\<close> tells whether \<^verbatim>\<open>tls_mem_alloc\<close> succeeds.\<close>

type_synonym timeouts = "timeo_list list"

definition tls_wl_timer_init :: "timeouts \<Rightarrow> timeouts" where
  "tls_wl_timer_init tt = replicate 9 []"

definition tls_timeout_p :: "bool \<Rightarrow> u8 \<Rightarrow> u32 \<Rightarrow> u32 \<Rightarrow> u32 \<Rightarrow> timeouts \<Rightarrow> timeouts option" where
  "tls_timeout_p mem i msecs handler a tt =
     (let k = unat i
      in if k < length tt then Some (if mem then tt[k := timeout_insert msecs handler a (tt ! k)] else tt) else None)"

definition tls_untimeout_p :: "u8 \<Rightarrow> u32 \<Rightarrow> u32 \<Rightarrow> timeouts \<Rightarrow> timeouts option" where
  "tls_untimeout_p i handler a tt =
     (let k = unat i in if k < length tt then Some (tt[k := untimeout_walk handler a (tt ! k)]) else None)"

section \<open>Waiting for a message\<close>

definition HZ :: u32 where "HZ = 500"
definition SYS_ARCH_TIMEOUT :: u32 where "SYS_ARCH_TIMEOUT = 0xFFFFFFFF"

text \<open>The operating system is a parameter: \<open>get_time e\<close> is \<^verbatim>\<open>tls_os_get_time\<close> and \<open>recv n e\<close> is
  \<^verbatim>\<open>tls_os_queue_receive\<close> with a wait of \<open>n\<close> ticks (0 for ever), which gives a message or fails.\<close>

definition fetch_ticks :: "u32 \<Rightarrow> u32" where
  "fetch_ticks timeout =
     (let in_timeout = timeout * HZ div 1000 in if timeout \<noteq> 0 \<and> in_timeout = 0 then 1 else in_timeout)"

definition elapsed_ms :: "u32 \<Rightarrow> u32 \<Rightarrow> u32" where
  "elapsed_ms tick_start tick_stop =
     (let tick_elapsed = (if tick_start \<le> tick_stop then tick_stop - tick_start else 0xFFFFFFFF - tick_start + tick_stop)
      in tick_elapsed * 1000 div HZ)"

definition tls_arch_mbox_fetch ::
  "('e \<Rightarrow> u32) \<Rightarrow> (u32 \<Rightarrow> 'e \<Rightarrow> 'm option \<times> 'e) \<Rightarrow> u32 \<Rightarrow> 'e \<Rightarrow> u32 \<times> 'm option \<times> 'e" where
  "tls_arch_mbox_fetch get_time recv timeout e =
     (let tick_start = get_time e;
          (msg, e') = recv (fetch_ticks timeout) e
      in case msg of
           None \<Rightarrow> (SYS_ARCH_TIMEOUT, None, e')
         | Some m \<Rightarrow> (elapsed_ms tick_start (get_time e'), Some m, e'))"

text \<open>\<^verbatim>\<open>tls_timeouts_mbox_fetch_p\<close>. \<open>run handler arg\<close> is the effect of a handler, which may change the
  timer lists. The result is the message, \<open>None\<close> when \<^verbatim>\<open>*msg\<close> was not written. The loop does
  not end when handlers keep re-arming themselves; the value is then \<open>None\<close>, as it is for an
  index outside the array.\<close>

definition fire :: "(u32 \<Rightarrow> u32 \<Rightarrow> timeouts \<times> 'e \<Rightarrow> timeouts \<times> 'e) \<Rightarrow> tls_timeo \<Rightarrow> timeouts \<times> 'e \<Rightarrow> timeouts \<times> 'e" where
  "fire run t s = (if t_h t \<noteq> 0 then run (t_h t) (t_arg t) s else s)"

definition head_wait ::
  "('e \<Rightarrow> u32) \<Rightarrow> (u32 \<Rightarrow> 'e \<Rightarrow> 'm option \<times> 'e) \<Rightarrow> tls_timeo \<Rightarrow> 'e \<Rightarrow> u32 \<times> 'm option \<times> 'e" where
  "head_wait get_time recv t e =
     (if 0 < t_time t then tls_arch_mbox_fetch get_time recv (t_time t) e else (SYS_ARCH_TIMEOUT, None, e))"

definition head_left :: "u32 \<Rightarrow> tls_timeo \<Rightarrow> tls_timeo" where
  "head_left time_needed t = t\<lparr>t_time := (if time_needed < t_time t then t_time t - time_needed else 0)\<rparr>"

partial_function (option) tls_timeouts_mbox_fetch_p ::
  "('e \<Rightarrow> u32) \<Rightarrow> (u32 \<Rightarrow> 'e \<Rightarrow> 'm option \<times> 'e) \<Rightarrow> (u32 \<Rightarrow> u32 \<Rightarrow> timeouts \<times> 'e \<Rightarrow> timeouts \<times> 'e) \<Rightarrow> u8 \<Rightarrow>
   timeouts \<times> 'e \<Rightarrow> ('m option \<times> timeouts \<times> 'e) option" where
  "tls_timeouts_mbox_fetch_p get_time recv run i s =
     (if length (fst s) \<le> unat i then None else case fst s ! unat i of
        [] \<Rightarrow> (let (_, msg, e') = tls_arch_mbox_fetch get_time recv 0 (snd s) in Some (msg, fst s, e'))
      | t # ts \<Rightarrow>
          (let (time_needed, msg, e') = head_wait get_time recv t (snd s)
           in if time_needed = SYS_ARCH_TIMEOUT
              then tls_timeouts_mbox_fetch_p get_time recv run i (fire run t ((fst s)[unat i := ts], e'))
              else Some (msg, (fst s)[unat i := head_left time_needed t # ts], e')))"

section \<open>Deadlines\<close>

text \<open>The deadlines of a timer list, in milliseconds from now: the abstraction of the delta list.\<close>

fun deadlines_from :: "nat \<Rightarrow> timeo_list \<Rightarrow> (nat \<times> u32 \<times> u32) list" where
  "deadlines_from d [] = []"
| "deadlines_from d (t # ts) = (d + unat (t_time t), t_h t, t_arg t) # deadlines_from (d + unat (t_time t)) ts"

abbreviation deadlines :: "timeo_list \<Rightarrow> (nat \<times> u32 \<times> u32) list" where
  "deadlines \<equiv> deadlines_from 0"

text \<open>The abstract operations: insertion after every deadline that is not later, and removal of
  the first entry of a handler and argument.\<close>

definition schedule :: "nat \<times> 'a \<Rightarrow> (nat \<times> 'a) list \<Rightarrow> (nat \<times> 'a) list" where
  "schedule x xs = takeWhile (\<lambda>y. fst y \<le> fst x) xs @ x # dropWhile (\<lambda>y. fst y \<le> fst x) xs"

fun cancel :: "'a \<Rightarrow> (nat \<times> 'a) list \<Rightarrow> (nat \<times> 'a) list" where
  "cancel p [] = []"
| "cancel p (x # xs) = (if snd x = p then xs else x # cancel p xs)"

definition timeo_ok :: "timeo_list \<Rightarrow> bool" where
  "timeo_ok ts \<longleftrightarrow> (\<forall>x\<in>set (deadlines ts). fst x < 2 ^ 32)"

lemma deadlines_sorted: "sorted (map fst (deadlines_from d ts)) \<and> (\<forall>x\<in>set (deadlines_from d ts). d \<le> fst x)"
  by (induction ts arbitrary: d) (auto, fastforce)

lemma schedule_Cons:
  "schedule x (y # ys) = (if fst y \<le> fst x then y # schedule x ys else x # y # ys)"
  by (simp add: schedule_def)

lemma walk_schedule:
  assumes "ts \<noteq> []" "t_time (hd ts) \<le> t_time n"
  shows "deadlines_from d (timeout_walk n ts) = schedule (d + unat (t_time n), t_h n, t_arg n) (deadlines_from d ts)"
  using assms
proof (induction n ts arbitrary: d rule: timeout_walk.induct)
  case (2 n t)
  then show ?case by (simp add: schedule_def unat_sub word_le_nat_alt)
next
  case (3 n t u ts)
  let ?n = "n\<lparr>t_time := t_time n - t_time t\<rparr>"
  have le: "unat (t_time t) \<le> unat (t_time n)" using 3 by (simp add: word_le_nat_alt)
  show ?case
  proof (cases "t_time ?n < t_time u")
    case True
    then show ?thesis using le 3(3)
      by (auto simp: schedule_Cons unat_sub word_less_nat_alt word_le_nat_alt add_ac)
  next
    case False
    then have "deadlines_from (d + unat (t_time t)) (timeout_walk ?n (u # ts)) =
        schedule (d + unat (t_time t) + unat (t_time ?n), t_h n, t_arg n) (deadlines_from (d + unat (t_time t)) (u # ts))"
      using 3(1) [OF refl, of "d + unat (t_time t)"] by simp
    then show ?thesis using False le 3(3)
      by (simp add: schedule_Cons [of _ "(d + unat (t_time t), _)"] unat_sub word_le_nat_alt)
  qed
qed simp

lemma insert_schedule: "deadlines (timeout_insert m f a ts) = schedule (unat m, f, a) (deadlines ts)"
proof (cases ts)
  case (Cons t r)
  then show ?thesis
    using walk_schedule [of ts "\<lparr>t_time = m, t_h = f, t_arg = a\<rparr>" 0]
    by (auto simp: timeout_insert_def schedule_Cons unat_sub word_less_nat_alt word_le_nat_alt Let_def)
qed (simp add: timeout_insert_def schedule_def)

lemma untimeout_cancel_from:
  assumes "\<forall>x\<in>set (deadlines_from d ts). fst x < 2 ^ 32"
  shows "deadlines_from d (untimeout_walk f a ts) = cancel (f, a) (deadlines_from d ts)"
  using assms
proof (induction ts arbitrary: d)
  case (Cons t ts)
  show ?case
  proof (cases ts)
    case (Cons u r)
    have "unat (t_time u + t_time t) = unat (t_time u) + unat (t_time t)"
      using Cons.prems Cons by (intro unat_add_lem [THEN iffD1]) auto
    then show ?thesis using Cons.IH Cons.prems Cons by (auto simp: add_ac)
  qed auto
qed simp

section \<open>Ticks\<close>

lemma fetch_ticks_exact:
  assumes "unat t \<le> 8589934"
  shows "unat (fetch_ticks t) = (if t = 0 then 0 else max 1 (unat t div 2))"
proof -
  have "unat (t * HZ) = unat t * 500"
    using assms by (subst unat_mult_lem [THEN iffD1]) (simp_all add: HZ_def)
  then have "unat (t * HZ div 1000) = unat t div 2" by (simp add: unat_div_distrib)
  moreover have "t * HZ div 1000 = 0 \<longleftrightarrow> unat (t * HZ div 1000) = 0" by (simp add: unat_eq_0)
  ultimately show ?thesis by (auto simp: fetch_ticks_def Let_def unat_eq_0)
qed

lemma unat_u32_less: "unat x < 4294967296" for x :: u32
  by (rule order.strict_trans2 [OF unsigned_less]) simp

lemma u32_div_1000: "unat (x div 1000) \<le> 4294967" for x :: u32
  using unat_u32_less [of x] by (simp add: unat_div_distrib)

lemma fetch_ticks_bound: "unat (fetch_ticks t) \<le> 4294967"
  using u32_div_1000 [of "t * HZ"] by (simp add: fetch_ticks_def Let_def)

lemma elapsed_not_timeout: "elapsed_ms a b \<noteq> SYS_ARCH_TIMEOUT"
proof -
  have "unat (x div HZ) \<le> 8589934" for x
    using unat_u32_less [of x] by (simp add: unat_div_distrib HZ_def)
  then have "unat (elapsed_ms a b) \<le> 8589934" by (simp add: elapsed_ms_def Let_def)
  moreover have "unat SYS_ARCH_TIMEOUT = 4294967295" by (simp add: SYS_ARCH_TIMEOUT_def)
  ultimately show ?thesis by auto
qed

section \<open>The fetch loop\<close>

lemmas fetch_simps = tls_timeouts_mbox_fetch_p.simps

lemma fetch_timeout_step:
  assumes "unat i < length tt" "tt ! unat i = t # ts" "head_wait get_time recv t e = (SYS_ARCH_TIMEOUT, m, e')"
  shows "tls_timeouts_mbox_fetch_p get_time recv run i (tt, e) =
    tls_timeouts_mbox_fetch_p get_time recv run i (fire run t (tt[unat i := ts], e'))"
  by (subst fetch_simps) (use assms in simp)

lemma fetch_empty:
  assumes "unat i < length tt" "tt ! unat i = []"
  shows "tls_timeouts_mbox_fetch_p get_time recv run i (tt, e) =
    (case tls_arch_mbox_fetch get_time recv 0 e of (_, m, e') \<Rightarrow> Some (m, tt, e'))"
  by (subst fetch_simps) (use assms in \<open>simp split: prod.splits\<close>)

lemma fetch_message:
  assumes "unat i < length tt" "tt ! unat i = t # ts" "head_wait get_time recv t e = (n, m, e')" "n \<noteq> SYS_ARCH_TIMEOUT"
  shows "tls_timeouts_mbox_fetch_p get_time recv run i (tt, e) = Some (m, tt[unat i := head_left n t # ts], e')"
  by (subst fetch_simps) (use assms in simp)

lemma fetch_returns:
  assumes "\<And>f a tt e. length (fst (run f a (tt, e))) = length tt \<and>
      length (fst (run f a (tt, e)) ! unat i) \<le> length (tt ! unat i)"
    and "unat i < length tt"
  shows "\<exists>r. tls_timeouts_mbox_fetch_p get_time recv run i (tt, e) = Some r"
  using assms(2)
proof (induction "length (tt ! unat i)" arbitrary: tt e rule: less_induct)
  case less
  show ?case
  proof (cases "tt ! unat i")
    case Nil
    then show ?thesis using less.prems by (simp add: fetch_empty split: prod.splits)
  next
    case (Cons t ts)
    obtain n m e' where w: "head_wait get_time recv t e = (n, m, e')" by (metis prod_cases3)
    show ?thesis
    proof (cases "n = SYS_ARCH_TIMEOUT")
      case True
      obtain tt2 e2 where f: "fire run t (tt[unat i := ts], e') = (tt2, e2)" by fastforce
      have "length tt2 = length tt \<and> length (tt2 ! unat i) \<le> length ts"
        using assms(1) [of "t_h t" "t_arg t" "tt[unat i := ts]" e'] f less.prems
        by (auto simp: fire_def split: if_splits)
      then have "\<exists>r. tls_timeouts_mbox_fetch_p get_time recv run i (tt2, e2) = Some r"
        using less.prems Cons by (intro less.hyps) auto
      then show ?thesis using fetch_timeout_step [OF less.prems Cons w [unfolded True]] f by simp
    next
      case False
      then show ?thesis using fetch_message [OF less.prems Cons w] by simp
    qed
  qed
qed

lemma head_left_deadlines:
  "deadlines (head_left n t # ts) =
    map (\<lambda>(d, p). (d - min (unat n) (unat (t_time t)), p)) (deadlines (t # ts))"
proof -
  have "deadlines_from (d - k) ts = map (\<lambda>(d, p). (d - k, p)) (deadlines_from d ts)" if "k \<le> d" for d k
    using that by (induction ts arbitrary: d) (auto simp: add_diff_assoc2)
  from this this [of "unat (t_time t)" "unat (t_time t)"] show ?thesis
    by (auto simp: head_left_def unat_sub word_less_nat_alt word_le_nat_alt min_def)
qed

lemma fetch_starves:
  assumes "tls_timeouts_mbox_fetch_p get_time recv run i s = Some r" "f \<noteq> 0"
  shows "(\<forall>tt e. \<exists>e'. run f a (tt, e) = (the (tls_timeout_p True i 0 f a tt), e')) \<longrightarrow> unat i < length (fst s) \<longrightarrow>
    fst s ! unat i \<noteq> [\<lparr>t_time = 0, t_h = f, t_arg = a\<rparr>]"
proof (rule tls_timeouts_mbox_fetch_p.raw_induct [OF _ assms(1),
    where P = "\<lambda>get_time recv run i s r. (\<forall>tt e. \<exists>e'. run f a (tt, e) = (the (tls_timeout_p True i 0 f a tt), e')) \<longrightarrow>
       unat i < length (fst s) \<longrightarrow> fst s ! unat i \<noteq> [\<lparr>t_time = 0, t_h = f, t_arg = a\<rparr>]"], goal_cases)
  case (1 F get_time recv run i s r)
  obtain tt e where s: "s = (tt, e)" by fastforce
  show ?case
  proof (intro impI notI)
    assume run: "\<forall>tt e. \<exists>e'. run f a (tt, e) = (the (tls_timeout_p True i 0 f a tt), e')"
      and i: "unat i < length (fst s)" and t: "fst s ! unat i = [\<lparr>t_time = 0, t_h = f, t_arg = a\<rparr>]"
    obtain e' where r: "run f a (tt[unat i := []], e) = (the (tls_timeout_p True i 0 f a (tt[unat i := []])), e')"
      using run by blast
    have "F get_time recv run i (tt[unat i := [\<lparr>t_time = 0, t_h = f, t_arg = a\<rparr>]], e') = Some r"
      using 1(2) i t assms(2)
      by (simp add: s head_wait_def fire_def r tls_timeout_p_def timeout_insert_def)
    from 1(1) [OF this] run i show False by (simp add: s)
  qed
qed

section \<open>Real time\<close>

text \<open>An environment in which no message arrives while a timer is running: a receive with a
  limit lasts that many ticks and fails, a receive without limit gives a message. Handlers
  note the tick at which they run. The clock counts ticks of 2 ms without wrap-around.\<close>

record clock =
  now :: nat
  fired :: "(nat \<times> u32 \<times> u32) list"

definition idle_recv :: "u32 \<Rightarrow> clock \<Rightarrow> u32 option \<times> clock" where
  "idle_recv n e = (if n = 0 then (Some 1, e) else (None, e\<lparr>now := now e + unat n\<rparr>))"

definition note_run :: "u32 \<Rightarrow> u32 \<Rightarrow> timeouts \<times> clock \<Rightarrow> timeouts \<times> clock" where
  "note_run f a s = (fst s, (snd s)\<lparr>fired := fired (snd s) @ [(2 * now (snd s), f, a)]\<rparr>)"

text \<open>The tick times at which the timers of a list fire.\<close>

fun fire_times :: "nat \<Rightarrow> timeo_list \<Rightarrow> (nat \<times> u32 \<times> u32) list" where
  "fire_times n [] = []"
| "fire_times n (t # ts) =
     (let n' = n + unat (fetch_ticks (t_time t)) in (2 * n', t_h t, t_arg t) # fire_times n' ts)"

lemma fetch_ticks_0: "fetch_ticks t = 0 \<longleftrightarrow> t = 0"
  by (auto simp: fetch_ticks_def Let_def)

lemma fetch_idle:
  assumes "unat i < length tt" "\<forall>t\<in>set (tt ! unat i). t_h t \<noteq> 0"
  shows "\<exists>e'. tls_timeouts_mbox_fetch_p get_time idle_recv note_run i (tt, e) = Some (Some 1, tt[unat i := []], e') \<and>
    fired e' = fired e @ fire_times (now e) (tt ! unat i)"
  using assms
proof (induction "tt ! unat i" arbitrary: tt e)
  case Nil
  then show ?case
    by (auto simp: fetch_empty tls_arch_mbox_fetch_def idle_recv_def fetch_ticks_0 list_update_same_conv [THEN iffD2])
next
  case (Cons t ts)
  let ?e = "e\<lparr>now := now e + unat (fetch_ticks (t_time t))\<rparr>"
  have w: "head_wait get_time idle_recv t e = (SYS_ARCH_TIMEOUT, None, ?e)"
    by (auto simp: head_wait_def tls_arch_mbox_fetch_def idle_recv_def fetch_ticks_0 word_neq_0_conv
        fetch_ticks_0 [THEN iffD2, OF refl])
  let ?e2 = "snd (note_run (t_h t) (t_arg t) (tt[unat i := ts], ?e))"
  have h: "t_h t \<noteq> 0" "\<forall>t\<in>set ts. t_h t \<noteq> 0" using Cons(4) by (auto simp: Cons(2) [symmetric])
  have "fire note_run t (tt[unat i := ts], ?e) = (tt[unat i := ts], ?e2)"
    using h by (simp add: fire_def note_run_def)
  then have step: "tls_timeouts_mbox_fetch_p get_time idle_recv note_run i (tt, e) =
      tls_timeouts_mbox_fetch_p get_time idle_recv note_run i (tt[unat i := ts], ?e2)"
    using fetch_timeout_step [OF Cons(3) Cons(2) [symmetric] w, of note_run] by simp
  obtain e' where "tls_timeouts_mbox_fetch_p get_time idle_recv note_run i (tt[unat i := ts], ?e2) =
      Some (Some 1, tt[unat i := []], e')" "fired e' = fired ?e2 @ fire_times (now ?e2) ts"
    using Cons(1) [of "tt[unat i := ts]" ?e2] Cons(3) h by auto
  then show ?case
    unfolding step Cons(2) [symmetric] by (intro exI [of _ e'] conjI) (simp_all add: note_run_def Let_def)
qed

lemma fire_times_drift:
  assumes "\<forall>t\<in>set ts. unat (t_time t) \<le> 8589934" "k < length ts" "2 * n \<le> d + j" "d \<le> 2 * n + j"
  shows "snd (fire_times n ts ! k) = snd (deadlines_from d ts ! k) \<and>
    fst (fire_times n ts ! k) \<le> fst (deadlines_from d ts ! k) + j + k + 1 \<and>
    fst (deadlines_from d ts ! k) \<le> fst (fire_times n ts ! k) + j + k + 1"
  using assms
proof (induction ts arbitrary: k n d j)
  case (Cons t ts)
  have t: "2 * unat (fetch_ticks (t_time t)) \<le> unat (t_time t) + 1" "unat (t_time t) \<le> 2 * unat (fetch_ticks (t_time t)) + 1"
    using fetch_ticks_exact [of "t_time t"] Cons.prems(1) by (auto simp: unat_gt_0 Suc_le_eq max_def split: if_splits)
  show ?case
  proof (cases k)
    case 0
    then show ?thesis using Cons.prems t by (simp add: Let_def)
  next
    case (Suc k')
    then show ?thesis
      using Cons.IH [of k' "n + unat (fetch_ticks (t_time t))" "d + unat (t_time t)" "j + 1"] Cons.prems t
      by (auto simp: Let_def)
  qed
qed simp

section \<open>Reachable timer lists\<close>

text \<open>What the owner of a list does with it: adding and removing timers, and in the fetch loop
  taking off the head when it expires or shortening it when a message comes first.\<close>

inductive timer_reach :: "timeouts \<Rightarrow> bool" where
  Init: "timer_reach (tls_wl_timer_init tt)"
| Add: "timer_reach tt \<Longrightarrow> tls_timeout_p mem i m f a tt = Some tt' \<Longrightarrow> timer_reach tt'"
| Del: "timer_reach tt \<Longrightarrow> tls_untimeout_p i f a tt = Some tt' \<Longrightarrow> timer_reach tt'"
| Expire: "timer_reach tt \<Longrightarrow> k < length tt \<Longrightarrow> tt ! k = t # ts \<Longrightarrow> timer_reach (tt[k := ts])"
| Message: "timer_reach tt \<Longrightarrow> k < length tt \<Longrightarrow> tt ! k = t # ts \<Longrightarrow> timer_reach (tt[k := head_left n t # ts])"

lemma set_schedule: "set (schedule x xs) = insert x (set xs)"
  unfolding schedule_def by (metis Un_insert_right list.simps(15) set_append takeWhile_dropWhile_id)

lemma set_cancel: "set (cancel p xs) \<subseteq> set xs"
  by (induction xs) auto

lemma deadlines_shift: "deadlines_from (d + k) ts = map (\<lambda>(x, p). (x + k, p)) (deadlines_from d ts)"
proof (induction ts arbitrary: d)
  case (Cons t ts)
  then show ?case using Cons.IH [of "d + unat (t_time t)"] by (simp add: add_ac)
qed simp

lemma timeo_ok_insert: "timeo_ok ts \<Longrightarrow> timeo_ok (timeout_insert m f a ts)"
  using unat_u32_less [of m] by (auto simp: timeo_ok_def insert_schedule set_schedule)

lemma untimeout_cancel: "timeo_ok ts \<Longrightarrow> deadlines (untimeout_walk f a ts) = cancel (f, a) (deadlines ts)"
  using untimeout_cancel_from [of 0 ts f a] by (simp add: timeo_ok_def)

lemma timeo_ok_untimeout: "timeo_ok ts \<Longrightarrow> timeo_ok (untimeout_walk f a ts)"
  using untimeout_cancel [of ts f a] set_cancel [of "(f, a)" "deadlines ts"] by (auto simp: timeo_ok_def)

lemma timeo_ok_tl: "timeo_ok (t # ts) \<Longrightarrow> timeo_ok ts"
  using deadlines_shift [of 0 "unat (t_time t)" ts] by (fastforce simp: timeo_ok_def)

lemma timeo_ok_head_left: "timeo_ok (t # ts) \<Longrightarrow> timeo_ok (head_left n t # ts)"
  unfolding timeo_ok_def head_left_deadlines by (auto intro: le_less_trans [OF diff_le_self])

lemma timer_reach_ok: "timer_reach tt \<Longrightarrow> length tt = 9 \<and> (\<forall>k<length tt. timeo_ok (tt ! k))"
proof (induction rule: timer_reach.induct)
  case (Expire tt k t ts)
  then show ?case using timeo_ok_tl [of t ts] by (auto simp: nth_list_update)
next
  case (Message tt k t ts n)
  then show ?case using timeo_ok_head_left [of t ts n] by (auto simp: nth_list_update)
qed (auto simp: tls_wl_timer_init_def tls_timeout_p_def tls_untimeout_p_def Let_def nth_list_update timeo_ok_def [of "[]"]
    intro!: timeo_ok_insert timeo_ok_untimeout split: if_splits)

section \<open>Properties\<close>

text \<open>C12. Adding a timer refines insertion into the list of deadlines: the new deadline comes
  after every timer that is due no later, no other deadline and no other list changes. When
  no memory is left nothing changes.\<close>

theorem timeout_p_schedules:
  assumes "tls_timeout_p mem i msecs f a tt = Some tt'"
  shows "map deadlines tt' =
    (map deadlines tt)[unat i := (if mem then schedule (unat msecs, f, a) (deadlines (tt ! unat i)) else deadlines (tt ! unat i))]"
proof -
  have "unat i < length tt \<Longrightarrow> (map deadlines tt)[unat i := deadlines (tt ! unat i)] = map deadlines tt"
    by (simp add: list_update_same_conv)
  then show ?thesis
    using assms by (auto simp: tls_timeout_p_def Let_def map_update insert_schedule split: if_splits)
qed

theorem timeout_p_schedules_witness:
  "map deadlines [[\<lparr>t_time = 10, t_h = 1, t_arg = 0\<rparr>, \<lparr>t_time = 5, t_h = 3, t_arg = 0\<rparr>, \<lparr>t_time = 5, t_h = 2, t_arg = 0\<rparr>]] =
     [[(10, 1, 0), (15, 3, 0), (20, 2, 0)]]"
  using timeout_p_schedules [of True 0 15 3 0 "[[\<lparr>t_time = 10, t_h = 1, t_arg = 0\<rparr>, \<lparr>t_time = 10, t_h = 2, t_arg = 0\<rparr>]]"]
  by (simp add: tls_timeout_p_def timeout_insert_def schedule_def)

text \<open>C13. In every reachable state removing a timer takes the first entry with that handler and
  argument off the list of deadlines and moves no other deadline: the addition of its time
  to the next entry does not overflow.\<close>

theorem untimeout_p_cancels:
  assumes "timer_reach tt" "tls_untimeout_p i f a tt = Some tt'"
  shows "map deadlines tt' = (map deadlines tt)[unat i := cancel (f, a) (deadlines (tt ! unat i))]"
  using timer_reach_ok [OF assms(1)] assms(2)
  by (auto simp: tls_untimeout_p_def Let_def map_update untimeout_cancel split: if_splits)

theorem untimeout_p_cancels_witness:
  "map deadlines [[], [\<lparr>t_time = 10, t_h = 2, t_arg = 0\<rparr>], [], [], [], [], [], [], []] =
     [[], [(10, 2, 0)], [], [], [], [], [], [], []]"
proof -
  have init: "tls_wl_timer_init [] = [[], [], [], [], [], [], [], [], []]"
    by (simp add: tls_wl_timer_init_def numeral_eq_Suc)
  have "timer_reach [[], [\<lparr>t_time = 10, t_h = 2, t_arg = 0\<rparr>], [], [], [], [], [], [], []]"
    using Add [OF Init, of True 1 10 2 0 "[]"] by (simp add: tls_timeout_p_def init timeout_insert_def)
  from Add [OF this, of True 1 4 3 0]
  have "timer_reach [[], [\<lparr>t_time = 4, t_h = 3, t_arg = 0\<rparr>, \<lparr>t_time = 6, t_h = 2, t_arg = 0\<rparr>], [], [], [], [], [], [], []]"
    by (simp add: tls_timeout_p_def timeout_insert_def)
  from untimeout_p_cancels [OF this, of 1 3 0] show ?thesis
    by (simp add: tls_untimeout_p_def)
qed

text \<open>C37. Waiting for a message ends: when no handler lengthens the list, the fetch loop returns
  after at most as many expired timers as there are, for every behaviour of the mailbox.\<close>

theorem mbox_fetch_returns:
  assumes "\<And>f a tt e. length (fst (run f a (tt, e))) = length tt \<and>
      length (fst (run f a (tt, e)) ! unat i) \<le> length (tt ! unat i)"
    and "unat i < length tt"
  shows "\<exists>r. tls_timeouts_mbox_fetch_p get_time recv run i (tt, e) = Some r"
  by (rule fetch_returns [OF assms])

theorem mbox_fetch_returns_witness:
  "\<exists>r. tls_timeouts_mbox_fetch_p (\<lambda>e. of_nat (now e)) idle_recv note_run 1
     ([[], [\<lparr>t_time = 3, t_h = 7, t_arg = 0\<rparr>]], \<lparr>now = 0, fired = []\<rparr>) = Some r"
  by (rule mbox_fetch_returns) (simp_all add: note_run_def)

text \<open>A handler that arms its own timer again with a delay of 0 starves the mailbox: when its
  timer has expired and is the only one, the fetch loop never returns.\<close>

theorem mbox_fetch_starves:
  assumes "f \<noteq> 0" "unat i < length tt" "tt ! unat i = [\<lparr>t_time = 0, t_h = f, t_arg = a\<rparr>]"
    and "\<forall>tt e. \<exists>e'. run f a (tt, e) = (the (tls_timeout_p True i 0 f a tt), e')"
  shows "tls_timeouts_mbox_fetch_p get_time recv run i (tt, e) = None"
proof (rule ccontr)
  assume "tls_timeouts_mbox_fetch_p get_time recv run i (tt, e) \<noteq> None"
  then obtain r where "tls_timeouts_mbox_fetch_p get_time recv run i (tt, e) = Some r" by blast
  from fetch_starves [OF this assms(1), of a] assms(2-4) show False by simp
qed

theorem mbox_fetch_starves_witness:
  "tls_timeouts_mbox_fetch_p (\<lambda>e. of_nat (now e)) idle_recv (\<lambda>f a s. (the (tls_timeout_p True 0 0 f a (fst s)), snd s)) 0
     ([[\<lparr>t_time = 0, t_h = 7, t_arg = 1\<rparr>]], \<lparr>now = 0, fired = []\<rparr>) = None"
  by (rule mbox_fetch_starves [of 7 _ _ 1]) simp_all

text \<open>C27. With an idle mailbox every timer of a list fires once, in the order of the deadlines,
  before the next message is taken; the k-th one fires within k milliseconds (counted from 1)
  of its deadline: each wait is rounded to ticks of 2 ms. No delay may exceed 8589934 ms.\<close>

theorem timers_fire_in_time:
  assumes "unat i < length tt" "\<forall>t\<in>set (tt ! unat i). t_h t \<noteq> 0 \<and> unat (t_time t) \<le> 8589934" "fired e = []" "now e = 0"
  shows "\<exists>e'. tls_timeouts_mbox_fetch_p get_time idle_recv note_run i (tt, e) = Some (Some 1, tt[unat i := []], e') \<and>
    map snd (fired e') = map snd (deadlines (tt ! unat i)) \<and>
    (\<forall>k < length (fired e'). \<bar>int (fst (fired e' ! k)) - int (fst (deadlines (tt ! unat i) ! k))\<bar> \<le> int k + 1)"
proof -
  let ?ts = "tt ! unat i"
  obtain e' where e': "tls_timeouts_mbox_fetch_p get_time idle_recv note_run i (tt, e) = Some (Some 1, tt[unat i := []], e')"
    "fired e' = fire_times 0 ?ts"
    using fetch_idle [OF assms(1), of get_time e] assms(2-4) by auto
  have drift: "k < length ?ts \<Longrightarrow> snd (fire_times 0 ?ts ! k) = snd (deadlines ?ts ! k) \<and>
      \<bar>int (fst (fire_times 0 ?ts ! k)) - int (fst (deadlines ?ts ! k))\<bar> \<le> int k + 1" for k
    using fire_times_drift [of ?ts k 0 0 0] assms(2) by (auto simp: abs_le_iff)
  have len: "length (fire_times n ts) = length ts" "length (deadlines_from n ts) = length ts" for n ts
    by (induction ts arbitrary: n) (simp_all add: Let_def)
  show ?thesis
    using drift by (intro exI [of _ e']) (auto simp: e' len intro!: nth_equalityI)
qed

theorem timers_fire_in_time_witness:
  "\<exists>e'. tls_timeouts_mbox_fetch_p (\<lambda>e. of_nat (now e)) idle_recv note_run 0
      ([[\<lparr>t_time = 3, t_h = 7, t_arg = 1\<rparr>, \<lparr>t_time = 0, t_h = 9, t_arg = 2\<rparr>]], \<lparr>now = 0, fired = []\<rparr>) = Some (Some 1, [[]], e') \<and>
    map snd (fired e') = [(7, 1), (9, 2)]"
  using timers_fire_in_time [of 0 "[[\<lparr>t_time = 3, t_h = 7, t_arg = 1\<rparr>, \<lparr>t_time = 0, t_h = 9, t_arg = 2\<rparr>]]" "\<lparr>now = 0, fired = []\<rparr>" "\<lambda>e. of_nat (now e)"]
  by force

text \<open>The conversion of a delay to ticks is exact up to rounding for delays up to 8589934 ms,
  and never gives more than 4294967 ticks: the product with \<^verbatim>\<open>HZ\<close> wraps, so that a timer of more
  than 8589934 ms (2 hours 23 minutes) always fires too early.\<close>

theorem fetch_ticks_bounds:
  "unat (fetch_ticks t) \<le> 4294967 \<and>
   (unat t \<le> 8589934 \<longrightarrow> unat (fetch_ticks t) = (if t = 0 then 0 else max 1 (unat t div 2))) \<and>
   (8589935 \<le> unat t \<longrightarrow> 2 * unat (fetch_ticks t) < unat t)"
  using fetch_ticks_bound [of t] fetch_ticks_exact [of t] by auto

theorem fetch_ticks_bounds_witness: "unat (fetch_ticks 1001) = 500 \<and> 2 * unat (fetch_ticks 8589935) < unat (8589935 :: u32)"
  using fetch_ticks_bounds [of 1001] fetch_ticks_bounds [of 8589935] by simp

text \<open>The time a receive took is exact while the tick counter does not wrap; across a wrap it
  comes out one tick (2 ms) short.\<close>

theorem elapsed_ms_exact:
  assumes "0 < k" "k \<le> 4294967"
  shows "elapsed_ms a (a + of_nat k) = of_nat (if unat a + k < 2 ^ 32 then 2 * k else 2 * (k - 1))"
proof -
  have k: "unat (of_nat k :: u32) = k" using assms by (intro unat_u32_of_nat) simp
  have ms: "of_nat j * 1000 div HZ = of_nat (2 * j)" if "j \<le> 4294967" for j
  proof (rule unsigned_word_eqI)
    have j: "unat (of_nat j :: u32) = j" "unat (of_nat (2 * j) :: u32) = 2 * j"
      using that unat_u32_of_nat [of j] unat_u32_of_nat [of "2 * j"] by auto
    have "unat (of_nat j * 1000 :: u32) = j * 1000"
      using that by (subst unat_mult_lem [THEN iffD1]) (simp_all add: j)
    then show "unat (of_nat j * 1000 div HZ) = unat (of_nat (2 * j) :: u32)"
      using j by (simp add: unat_div_distrib HZ_def)
  qed
  show ?thesis
  proof (cases "unat a + k < 2 ^ 32")
    case True
    then have "a \<le> a + of_nat k" using k by (simp add: word_le_nat_alt unat_add_lem [THEN iffD1])
    then show ?thesis using True ms [OF assms(2)] by (simp add: elapsed_ms_def)
  next
    case False
    then have gt: "\<not> a \<le> a + of_nat k"
      using k assms unat_u32_less [of a] by (auto simp: word_le_nat_alt unat_word_ariths mod_if)
    have "(0xFFFFFFFF :: u32) = - 1" by simp
    then have "0xFFFFFFFF - a + (a + of_nat k) = (of_nat (k - 1) :: u32)" using assms by (simp only: of_nat_diff) simp
    moreover have "of_nat (k - 1) * 1000 div HZ = of_nat (2 * (k - 1))" using assms by (intro ms) simp
    ultimately show ?thesis unfolding elapsed_ms_def Let_def by (simp only: gt False if_False)
  qed
qed

theorem elapsed_ms_exact_witness: "elapsed_ms 10 (10 + 5) = 10 \<and> elapsed_ms 0xFFFFFFFE (0xFFFFFFFE + 5) = 8"
  using elapsed_ms_exact [of 5 10] elapsed_ms_exact [of 5 "0xFFFFFFFE"] by simp

end
