(* ===== verification/Wl_Task.thy ===== *)
theory Wl_Task
  imports Wl_Timers
begin

text \<open>
  The mailboxes (\<^verbatim>\<open>platform/common/task/wm_wl_mbox.c\<close>) and the task wrapper
  (\<^verbatim>\<open>platform/common/task/wm_wl_task.c\<close>): messages that ask a task to run a function or to change its
  timers. The operating system queue behind a mailbox is a bounded first-in first-out list of
  message pointers, which is what \<^verbatim>\<open>xQueueSend\<close> without waiting and \<^verbatim>\<open>xQueueReceive\<close> document.
\<close>

section \<open>Mailboxes\<close>

text \<open>A message pointer: one of the static messages \<^verbatim>\<open>wl_msg\<close> or a heap cell.\<close>

datatype msg_ref = Static nat | Heap nat

record os_queue =
  room :: nat
  items :: "msg_ref list"

definition os_queue_send :: "msg_ref \<Rightarrow> os_queue \<Rightarrow> bool \<times> os_queue" where
  "os_queue_send m q = (if length (items q) < room q then (True, q\<lparr>items := items q @ [m]\<rparr>) else (False, q))"

definition TLS_OS_SUCCESS :: int where "TLS_OS_SUCCESS = 0"
definition TLS_OS_ERROR :: int where "TLS_OS_ERROR = 1"

text \<open>\<open>created\<close> is the outcome of \<^verbatim>\<open>tls_os_queue_create\<close>. A mailbox that was not created keeps the old pointer.\<close>

definition tls_mbox_new :: "bool \<Rightarrow> nat \<Rightarrow> os_queue option \<Rightarrow> int \<times> os_queue option" where
  "tls_mbox_new created n mbox =
     (let n' = (if n = 0 then 10 else n)
      in if created then (TLS_OS_SUCCESS, Some \<lparr>room = n', items = []\<rparr>) else (TLS_OS_ERROR, mbox))"

definition tls_mbox_valid :: "os_queue option \<Rightarrow> bool" where
  "tls_mbox_valid mbox \<longleftrightarrow> mbox \<noteq> None"

text \<open>\<^verbatim>\<open>tls_mbox_post\<close>: up to ten attempts; \<open>delay i\<close> is what the other tasks do to the mailbox during the
  pause of 5 ticks after attempt \<open>i\<close>. The result is the mailbox only: the caller does not
  learn whether the message was sent.\<close>

function mbox_post_loop :: "(nat \<Rightarrow> os_queue \<Rightarrow> os_queue) \<Rightarrow> msg_ref \<Rightarrow> nat \<Rightarrow> os_queue \<Rightarrow> os_queue" where
  "mbox_post_loop delay m i q =
     (if i < 10
      then (let (sent, q') = os_queue_send m q
            in if sent then q' else mbox_post_loop delay m (i + 1) (delay i q'))
      else q)"
  by auto
termination by (relation "measure (\<lambda>(_, _, i, _). 10 - i)") auto

declare mbox_post_loop.simps [simp del]

definition tls_mbox_post :: "(nat \<Rightarrow> os_queue \<Rightarrow> os_queue) \<Rightarrow> msg_ref \<Rightarrow> os_queue \<Rightarrow> os_queue" where
  "tls_mbox_post delay m q = mbox_post_loop delay m 0 q"

definition tls_mbox_trypost :: "msg_ref \<Rightarrow> os_queue \<Rightarrow> int \<times> os_queue" where
  "tls_mbox_trypost m q = (let (sent, q') = os_queue_send m q in (if sent then TLS_OS_SUCCESS else TLS_OS_ERROR, q'))"

section \<open>Tasks\<close>

datatype task_msg_type = TASK_MSG_TIMEOUT | TASK_MSG_UNTIMEOUT | TASK_MSG_CALLBACK_WITH_BLOCK
  | TASK_MSG_CALLBACK | TASK_MSG_CALLBACK_STATIC | TASK_MSG_NULL

text \<open>\<^verbatim>\<open>struct task_msg\<close>. The union is spread over its words: \<open>m_fun\<close> is \<^verbatim>\<open>cb.function\<close>, \<^verbatim>\<open>cbs.function\<close> and
  \<^verbatim>\<open>tmo.msecs\<close>, \<open>m_ctx\<close> is \<^verbatim>\<open>cb.ctx\<close>, \<^verbatim>\<open>cbs.ctx\<close> and \<^verbatim>\<open>tmo.h\<close>. \<^verbatim>\<open>cbs.cnt\<close> and \<^verbatim>\<open>tmo.arg\<close> share the third
  word, but static messages are never timer messages. The member \<^verbatim>\<open>sem\<close> is not used.\<close>

record task_msg =
  m_type :: task_msg_type
  m_fun :: u32
  m_ctx :: u32
  m_cnt :: u8
  m_arg :: u32

record task_parameter =
  task_id :: u8
  mbox_size :: u8
  mbox_id :: u8
  timeo_id :: u8

text \<open>\<open>heap\<close> holds the messages from \<^verbatim>\<open>tls_mem_alloc\<close>.\<close>

record wl =
  task_mbox :: "os_queue option list"
  wl_msg :: "task_msg list"
  heap :: "nat \<rightharpoonup> task_msg"

definition zero_msg :: task_msg where
  "zero_msg = \<lparr>m_type = TASK_MSG_TIMEOUT, m_fun = 0, m_ctx = 0, m_cnt = 0, m_arg = 0\<rparr>"

text \<open>The static memory at start-up, and \<^verbatim>\<open>tls_wl_task_init\<close>, whose \<^verbatim>\<open>memset\<close> covers one message.\<close>

definition wl_reset :: wl where
  "wl_reset = \<lparr>task_mbox = replicate 8 None, wl_msg = replicate 9 zero_msg, heap = Map.empty\<rparr>"

definition tls_wl_task_init :: "wl \<Rightarrow> int \<times> wl" where
  "tls_wl_task_init s = (0, s\<lparr>wl_msg := (wl_msg s)[0 := zero_msg]\<rparr>)"

abbreviation mbox_of :: "task_parameter \<Rightarrow> wl \<Rightarrow> os_queue option" where
  "mbox_of p s \<equiv> task_mbox s ! unat (mbox_id p)"

abbreviation set_mbox :: "task_parameter \<Rightarrow> os_queue \<Rightarrow> wl \<Rightarrow> wl" where
  "set_mbox p q s \<equiv> s\<lparr>task_mbox := (task_mbox s)[unat (mbox_id p) := Some q]\<rparr>"

text \<open>\<open>None\<close> stands for an access outside \<^verbatim>\<open>task_mbox\<close> or \<^verbatim>\<open>wl_msg\<close>.\<close>

definition tls_wl_task_run :: "bool \<Rightarrow> task_parameter \<Rightarrow> wl \<Rightarrow> (int \<times> wl) option" where
  "tls_wl_task_run created p s =
     (let k = unat (mbox_id p)
      in if length (task_mbox s) \<le> k then None
         else let (err, mbox) = tls_mbox_new created (unat (mbox_size p)) (task_mbox s ! k);
                  s' = s\<lparr>task_mbox := (task_mbox s)[k := mbox]\<rparr>
              in Some (if err \<noteq> TLS_OS_SUCCESS then - 1 else 0, s'))"

text \<open>\<^verbatim>\<open>tls_wl_task_callback_static\<close> in two parts, because other tasks can run between them: up to
  the sending of the message, and the increment of the count.\<close>

definition callback_static_send ::
  "(nat \<Rightarrow> os_queue \<Rightarrow> os_queue) \<Rightarrow> task_parameter \<Rightarrow> u32 \<Rightarrow> u32 \<Rightarrow> bool \<Rightarrow> u8 \<Rightarrow> wl \<Rightarrow> (bool \<times> wl) option" where
  "callback_static_send delay p f ctx block msg_id s =
     (let k = unat msg_id
      in if length (wl_msg s) \<le> k \<or> length (task_mbox s) \<le> unat (mbox_id p) then None
         else if 0 < m_cnt (wl_msg s ! k) then Some (False, s)
         else case mbox_of p s of
           None \<Rightarrow> Some (False, s)
         | Some q \<Rightarrow>
             let s1 = s\<lparr>wl_msg := (wl_msg s)[k := (wl_msg s ! k)\<lparr>m_type := TASK_MSG_CALLBACK_STATIC, m_fun := f, m_ctx := ctx\<rparr>]\<rparr>
             in if block then Some (True, set_mbox p (tls_mbox_post delay (Static k) q) s1)
                else let (err, q') = tls_mbox_trypost (Static k) q
                     in Some (err = TLS_OS_SUCCESS, set_mbox p q' s1))"

definition callback_static_count :: "u8 \<Rightarrow> wl \<Rightarrow> wl" where
  "callback_static_count msg_id s =
     (let k = unat msg_id in s\<lparr>wl_msg := (wl_msg s)[k := (wl_msg s ! k)\<lparr>m_cnt := m_cnt (wl_msg s ! k) + 1\<rparr>]\<rparr>)"

definition tls_wl_task_callback_static ::
  "(nat \<Rightarrow> os_queue \<Rightarrow> os_queue) \<Rightarrow> task_parameter \<Rightarrow> u32 \<Rightarrow> u32 \<Rightarrow> bool \<Rightarrow> u8 \<Rightarrow> wl \<Rightarrow> (int \<times> wl) option" where
  "tls_wl_task_callback_static delay p f ctx block msg_id s =
     (case callback_static_send delay p f ctx block msg_id s of
        None \<Rightarrow> None
      | Some (sent, s') \<Rightarrow> Some (if sent then (TLS_OS_SUCCESS, callback_static_count msg_id s') else (TLS_OS_ERROR, s')))"

text \<open>The messages on the heap. \<open>mem\<close> is the cell that \<^verbatim>\<open>tls_mem_alloc\<close> returns, if any.\<close>

definition post_heap_msg ::
  "(nat \<Rightarrow> os_queue \<Rightarrow> os_queue) \<Rightarrow> nat option \<Rightarrow> task_parameter \<Rightarrow> task_msg \<Rightarrow> wl \<Rightarrow> (int \<times> wl) option" where
  "post_heap_msg delay mem p msg s =
     (if length (task_mbox s) \<le> unat (mbox_id p) then None
      else case mbox_of p s of
        None \<Rightarrow> Some (TLS_OS_ERROR, s)
      | Some q \<Rightarrow>
          (case mem of
             None \<Rightarrow> Some (TLS_OS_ERROR, s)
           | Some a \<Rightarrow> Some (TLS_OS_SUCCESS, set_mbox p (tls_mbox_post delay (Heap a) q) (s\<lparr>heap := (heap s)(a \<mapsto> msg)\<rparr>))))"

definition tls_wl_task_callback ::
  "(nat \<Rightarrow> os_queue \<Rightarrow> os_queue) \<Rightarrow> nat option \<Rightarrow> task_parameter \<Rightarrow> u32 \<Rightarrow> u32 \<Rightarrow> bool \<Rightarrow> wl \<Rightarrow> (int \<times> wl) option" where
  "tls_wl_task_callback delay mem p f ctx block s =
     (if length (task_mbox s) \<le> unat (mbox_id p) then None
      else case mbox_of p s of
        None \<Rightarrow> Some (TLS_OS_ERROR, s)
      | Some q \<Rightarrow>
          (case mem of
             None \<Rightarrow> Some (TLS_OS_ERROR, s)
           | Some a \<Rightarrow>
               let s1 = s\<lparr>heap := (heap s)(a \<mapsto> zero_msg\<lparr>m_type := TASK_MSG_CALLBACK, m_fun := f, m_ctx := ctx\<rparr>)\<rparr>
               in if block then Some (TLS_OS_SUCCESS, set_mbox p (tls_mbox_post delay (Heap a) q) s1)
                  else let (err, q') = tls_mbox_trypost (Heap a) q
                       in if err \<noteq> TLS_OS_SUCCESS
                          then Some (TLS_OS_ERROR, (set_mbox p q' s1)\<lparr>heap := (heap s1)(a := None)\<rparr>)
                          else Some (TLS_OS_SUCCESS, set_mbox p q' s1)))"

definition tls_wl_task_add_timeout ::
  "(nat \<Rightarrow> os_queue \<Rightarrow> os_queue) \<Rightarrow> nat option \<Rightarrow> task_parameter \<Rightarrow> u32 \<Rightarrow> u32 \<Rightarrow> u32 \<Rightarrow> wl \<Rightarrow> (int \<times> wl) option" where
  "tls_wl_task_add_timeout delay mem p msecs h a s =
     post_heap_msg delay mem p (zero_msg\<lparr>m_type := TASK_MSG_TIMEOUT, m_fun := msecs, m_ctx := h, m_arg := a\<rparr>) s"

definition tls_wl_task_untimeout ::
  "(nat \<Rightarrow> os_queue \<Rightarrow> os_queue) \<Rightarrow> nat option \<Rightarrow> task_parameter \<Rightarrow> u32 \<Rightarrow> u32 \<Rightarrow> wl \<Rightarrow> (int \<times> wl) option" where
  "tls_wl_task_untimeout delay mem p h a s =
     post_heap_msg delay mem p (zero_msg\<lparr>m_type := TASK_MSG_UNTIMEOUT, m_ctx := h, m_arg := a\<rparr>) s"

text \<open>The body of the loop of \<^verbatim>\<open>task_thread\<close> for the message \<open>m\<close> that was fetched: the call it makes
  (function and argument), and the state. \<open>mem\<close> is the outcome of the allocation in
  \<^verbatim>\<open>tls_timeout_p\<close>. \<open>None\<close> stands for a message that does not exist and for a list outside the array.\<close>

definition msg_at :: "msg_ref \<Rightarrow> wl \<Rightarrow> task_msg option" where
  "msg_at m s = (case m of Static k \<Rightarrow> if k < length (wl_msg s) then Some (wl_msg s ! k) else None | Heap a \<Rightarrow> heap s a)"

definition put_msg :: "msg_ref \<Rightarrow> task_msg \<Rightarrow> wl \<Rightarrow> wl" where
  "put_msg m x s = (case m of Static k \<Rightarrow> s\<lparr>wl_msg := (wl_msg s)[k := x]\<rparr> | Heap a \<Rightarrow> s\<lparr>heap := (heap s)(a \<mapsto> x)\<rparr>)"

definition free_msg :: "msg_ref \<Rightarrow> wl \<Rightarrow> wl" where
  "free_msg m s = (case m of Static k \<Rightarrow> s | Heap a \<Rightarrow> s\<lparr>heap := (heap s)(a := None)\<rparr>)"

definition task_dispatch ::
  "bool \<Rightarrow> task_parameter \<Rightarrow> msg_ref \<Rightarrow> wl \<times> timeouts \<Rightarrow> ((u32 \<times> u32) option \<times> wl \<times> timeouts) option" where
  "task_dispatch mem p m st =
     (let (s, tt) = st in
      case msg_at m s of
        None \<Rightarrow> None
      | Some x \<Rightarrow>
          (case m_type x of
             TASK_MSG_CALLBACK \<Rightarrow> Some (Some (m_fun x, m_ctx x), free_msg m s, tt)
           | TASK_MSG_CALLBACK_STATIC \<Rightarrow> Some (Some (m_fun x, m_ctx x), put_msg m (x\<lparr>m_cnt := m_cnt x - 1\<rparr>) s, tt)
           | TASK_MSG_TIMEOUT \<Rightarrow>
               (case tls_timeout_p mem (timeo_id p) (m_fun x) (m_ctx x) (m_arg x) tt of
                  None \<Rightarrow> None | Some tt' \<Rightarrow> Some (None, free_msg m s, tt'))
           | TASK_MSG_UNTIMEOUT \<Rightarrow>
               (case tls_untimeout_p (timeo_id p) (m_ctx x) (m_arg x) tt of
                  None \<Rightarrow> None | Some tt' \<Rightarrow> Some (None, free_msg m s, tt'))
           | _ \<Rightarrow> Some (None, s, tt)))"

text \<open>Taking the next message of a task and handling it.\<close>

definition task_serve ::
  "bool \<Rightarrow> task_parameter \<Rightarrow> wl \<times> timeouts \<Rightarrow> ((u32 \<times> u32) option \<times> wl \<times> timeouts) option" where
  "task_serve mem p st =
     (if length (task_mbox (fst st)) \<le> unat (mbox_id p) then None
      else case mbox_of p (fst st) of
        None \<Rightarrow> None
      | Some q \<Rightarrow>
          (case items q of
             [] \<Rightarrow> None
           | m # ms \<Rightarrow> task_dispatch mem p m (set_mbox p (q\<lparr>items := ms\<rparr>) (fst st), snd st)))"

section \<open>Posting\<close>

abbreviation no_delay :: "nat \<Rightarrow> os_queue \<Rightarrow> os_queue" where
  "no_delay \<equiv> \<lambda>_ q. q"

lemma post_room: "length (items q) < room q \<Longrightarrow> tls_mbox_post delay m q = q\<lparr>items := items q @ [m]\<rparr>"
  by (simp add: tls_mbox_post_def mbox_post_loop.simps os_queue_send_def)

lemma post_loop_full: "\<not> length (items q) < room q \<Longrightarrow> mbox_post_loop no_delay m i q = q"
proof (induction "10 - i" arbitrary: i)
  case (Suc n)
  then have "mbox_post_loop no_delay m (i + 1) q = q" by simp
  then show ?case using Suc.prems by (subst mbox_post_loop.simps) (simp add: os_queue_send_def)
qed (simp add: mbox_post_loop.simps)

lemma post_full: "\<not> length (items q) < room q \<Longrightarrow> tls_mbox_post no_delay m q = q"
  by (simp add: tls_mbox_post_def post_loop_full)

lemma trypost:
  "tls_mbox_trypost m q =
     (if length (items q) < room q then (TLS_OS_SUCCESS, q\<lparr>items := items q @ [m]\<rparr>) else (TLS_OS_ERROR, q))"
  by (simp add: tls_mbox_trypost_def os_queue_send_def)

section \<open>Steps\<close>

text \<open>The calls of the clients and the service of a message by its task, each as one step. A post
  that waits for room is a step at the time the room is there, or, when it gives up, a step
  that finds the mailbox full. The flag tells whether a blocking post was accepted.\<close>

definition has_room :: "task_parameter \<Rightarrow> wl \<Rightarrow> bool" where
  "has_room p s \<longleftrightarrow> (case mbox_of p s of None \<Rightarrow> True | Some q \<Rightarrow> length (items q) < room q)"

inductive wl_step :: "bool \<Rightarrow> wl \<times> timeouts \<Rightarrow> wl \<times> timeouts \<Rightarrow> bool" where
  Run: "tls_wl_task_run c p s = Some (r, s') \<Longrightarrow> mbox_of p s = None \<Longrightarrow> wl_step True (s, tt) (s', tt)"
| Static: "tls_wl_task_callback_static no_delay p f ctx block msg_id s = Some (r, s') \<Longrightarrow>
    wl_step (block \<longrightarrow> has_room p s) (s, tt) (s', tt)"
| Callback: "tls_wl_task_callback no_delay (Some a) p f ctx block s = Some (r, s') \<Longrightarrow> heap s a = None \<Longrightarrow>
    wl_step (block \<longrightarrow> has_room p s) (s, tt) (s', tt)"
| Timeout: "tls_wl_task_add_timeout no_delay (Some a) p msecs h x s = Some (r, s') \<Longrightarrow> heap s a = None \<Longrightarrow>
    wl_step (has_room p s) (s, tt) (s', tt)"
| Untimeout: "tls_wl_task_untimeout no_delay (Some a) p h x s = Some (r, s') \<Longrightarrow> heap s a = None \<Longrightarrow>
    wl_step (has_room p s) (s, tt) (s', tt)"
| Serve: "task_serve mem p st = Some (r, st') \<Longrightarrow> wl_step True st st'"

inductive_cases wl_stepE: "wl_step b st st'"

inductive wl_reach :: "wl \<times> timeouts \<Rightarrow> bool" where
  Reset: "wl_reach (wl_reset, tt)"
| Step: "wl_reach st \<Longrightarrow> wl_step True st st' \<Longrightarrow> wl_reach st'"

section \<open>Queued messages\<close>

definition box_count :: "msg_ref \<Rightarrow> os_queue option \<Rightarrow> nat" where
  "box_count m b = (case b of None \<Rightarrow> 0 | Some q \<Rightarrow> count_list (items q) m)"

definition queued :: "msg_ref \<Rightarrow> wl \<Rightarrow> nat" where
  "queued m s = sum_list (map (box_count m) (task_mbox s))"

lemma sum_list_map_update:
  "k < length xs \<Longrightarrow> sum_list (map f (xs[k := y])) + f (xs ! k) = sum_list (map f xs) + (f y :: nat)"
  by (induction xs arbitrary: k) (auto simp: nth_Cons split: nat.splits)

lemma queued_update:
  "k < length (task_mbox s) \<Longrightarrow>
   queued m (s\<lparr>task_mbox := (task_mbox s)[k := b]\<rparr>) + box_count m (task_mbox s ! k) = queued m s + box_count m b"
  by (simp add: queued_def sum_list_map_update)

lemma queued_other [simp]:
  "queued m (s\<lparr>wl_msg := x\<rparr>) = queued m s" "queued m (s\<lparr>heap := y\<rparr>) = queued m s"
  by (simp_all add: queued_def)

lemma queued_enqueue:
  assumes "unat (mbox_id p) < length (task_mbox s)" "mbox_of p s = Some q"
  shows "queued m (set_mbox p (q\<lparr>items := items q @ [x]\<rparr>) s) = queued m s + (if x = m then 1 else 0)"
  using queued_update [OF assms(1), of m "Some (q\<lparr>items := items q @ [x]\<rparr>)"] assms(2) by (simp add: box_count_def)

lemma queued_dequeue:
  assumes "unat (mbox_id p) < length (task_mbox s)" "mbox_of p s = Some q" "items q = x # ms"
  shows "queued m (set_mbox p (q\<lparr>items := ms\<rparr>) s) + (if x = m then 1 else 0) = queued m s"
  using queued_update [OF assms(1), of m "Some (q\<lparr>items := ms\<rparr>)"] assms(2,3) by (auto simp: box_count_def split: if_splits)

lemma set_mbox_same:
  "mbox_of p s = Some q \<Longrightarrow> set_mbox p q s = s"
  by (metis list_update_id wl.surjective wl.update_convs(1))

text \<open>The invariant: the count of a static message is the number of its copies in the mailboxes,
  at most one, and every heap message is in exactly one mailbox.\<close>

definition slot_ok :: "wl \<Rightarrow> nat \<Rightarrow> bool" where
  "slot_ok s k \<longleftrightarrow> unat (m_cnt (wl_msg s ! k)) = queued (Static k) s \<and> queued (Static k) s \<le> 1 \<and>
     (0 < queued (Static k) s \<longrightarrow> m_type (wl_msg s ! k) = TASK_MSG_CALLBACK_STATIC)"

definition cell_ok :: "wl \<Rightarrow> nat \<Rightarrow> bool" where
  "cell_ok s a \<longleftrightarrow> queued (Heap a) s = (if heap s a = None then 0 else 1) \<and>
     (\<forall>x. heap s a = Some x \<longrightarrow> m_type x \<in> {TASK_MSG_CALLBACK, TASK_MSG_TIMEOUT, TASK_MSG_UNTIMEOUT})"

definition wl_inv :: "wl \<Rightarrow> bool" where
  "wl_inv s \<longleftrightarrow> length (task_mbox s) = 8 \<and> length (wl_msg s) = 9 \<and> (\<forall>k<9. slot_ok s k) \<and>
     (\<forall>k\<ge>9. queued (Static k) s = 0) \<and> (\<forall>a. cell_ok s a)"

lemma wl_inv_enqueue_heap:
  assumes "wl_inv s" "heap s a = None" "mbox_of p s = Some q" "unat (mbox_id p) < 8"
    "m_type x \<in> {TASK_MSG_CALLBACK, TASK_MSG_TIMEOUT, TASK_MSG_UNTIMEOUT}"
  shows "wl_inv (set_mbox p (q\<lparr>items := items q @ [Heap a]\<rparr>) (s\<lparr>heap := (heap s)(a \<mapsto> x)\<rparr>))"
  using assms queued_enqueue [of p "s\<lparr>heap := (heap s)(a \<mapsto> x)\<rparr>" q _ "Heap a"]
  by (auto simp: wl_inv_def slot_ok_def cell_ok_def)

lemma wl_inv_slot:
  assumes "wl_inv s" "k < 9" "queued (Static k) s = 0" "m_cnt x = 0"
  shows "wl_inv (s\<lparr>wl_msg := (wl_msg s)[k := x]\<rparr>)"
  using assms by (auto simp: wl_inv_def slot_ok_def cell_ok_def nth_list_update)

lemma wl_inv_enqueue_static:
  assumes "wl_inv s" "k < 9" "queued (Static k) s = 0" "mbox_of p s = Some q" "unat (mbox_id p) < 8"
    "m_cnt x = 1" "m_type x = TASK_MSG_CALLBACK_STATIC"
  shows "wl_inv (set_mbox p (q\<lparr>items := items q @ [Static k]\<rparr>) (s\<lparr>wl_msg := (wl_msg s)[k := x]\<rparr>))"
  using assms queued_enqueue [of p "s\<lparr>wl_msg := (wl_msg s)[k := x]\<rparr>" q _ "Static k"]
  by (auto simp: wl_inv_def slot_ok_def cell_ok_def nth_list_update)

lemma wl_inv_dequeue_heap:
  assumes "wl_inv s" "mbox_of p s = Some q" "unat (mbox_id p) < 8" "items q = Heap a # ms"
  shows "wl_inv (free_msg (Heap a) (set_mbox p (q\<lparr>items := ms\<rparr>) s))"
proof -
  let ?s = "set_mbox p (q\<lparr>items := ms\<rparr>) s"
  have len: "length (task_mbox s) = 8" using assms(1) by (simp add: wl_inv_def)
  have q: "queued m ?s + (if Heap a = m then 1 else 0) = queued m s" for m
    using queued_dequeue [OF _ assms(2,4)] assms(3) len by simp
  have "queued (Heap a) s \<le> 1" using assms(1) by (auto simp: wl_inv_def cell_ok_def)
  then have "queued m ?s = (if m = Heap a then 0 else queued m s)" for m
    using q [of "Heap a"] q [of m] by auto
  then show ?thesis using assms(1) by (auto simp: free_msg_def wl_inv_def slot_ok_def cell_ok_def)
qed

lemma unat_1_u8: "unat x = 1 \<Longrightarrow> x = 1" for x :: u8
  by (rule unsigned_word_eqI [where ?'a = nat]) simp

lemma wl_inv_dequeue_static:
  assumes "wl_inv s" "mbox_of p s = Some q" "unat (mbox_id p) < 8" "items q = Static k # ms" "k < 9"
  shows "wl_inv ((set_mbox p (q\<lparr>items := ms\<rparr>) s)\<lparr>wl_msg := (wl_msg s)[k := (wl_msg s ! k)\<lparr>m_cnt := m_cnt (wl_msg s ! k) - 1\<rparr>]\<rparr>)"
proof -
  let ?s = "set_mbox p (q\<lparr>items := ms\<rparr>) s"
  have len: "length (task_mbox s) = 8" using assms(1) by (simp add: wl_inv_def)
  have q: "queued m ?s + (if Static k = m then 1 else 0) = queued m s" for m
    using queued_dequeue [OF _ assms(2,4)] assms(3) len by simp
  have "queued (Static k) s \<le> 1" "unat (m_cnt (wl_msg s ! k)) = queued (Static k) s"
    using assms(1,5) by (auto simp: wl_inv_def slot_ok_def)
  then have "m_cnt (wl_msg s ! k) = 1" "queued m ?s = (if m = Static k then 0 else queued m s)" for m
    using q [of "Static k"] q [of m] by (auto simp: unat_1_u8)
  then show ?thesis using assms(1) by (auto simp: wl_inv_def slot_ok_def cell_ok_def nth_list_update)
qed

lemma wl_inv_static:
  assumes "wl_inv s" "tls_wl_task_callback_static no_delay p f ctx block msg_id s = Some (r, s')" "block \<longrightarrow> has_room p s"
  shows "wl_inv s'"
proof -
  let ?k = "unat msg_id" and ?x = "(wl_msg s ! unat msg_id)\<lparr>m_type := TASK_MSG_CALLBACK_STATIC, m_fun := f, m_ctx := ctx\<rparr>"
  have len: "length (task_mbox s) = 8" "length (wl_msg s) = 9" using assms(1) by (simp_all add: wl_inv_def)
  have k: "?k < 9" and mb: "unat (mbox_id p) < 8"
    using assms(2) len by (auto simp: tls_wl_task_callback_static_def callback_static_send_def Let_def split: if_splits)
  show ?thesis
  proof (cases "m_cnt (wl_msg s ! ?k) = 0")
    case True
    then have 0: "queued (Static ?k) s = 0" using assms(1) k by (auto simp: wl_inv_def slot_ok_def)
    show ?thesis
    proof (cases "mbox_of p s")
      case None
      then show ?thesis using assms(1,2) True k mb len
        by (simp add: tls_wl_task_callback_static_def callback_static_send_def)
    next
      case (Some q)
      show ?thesis
      proof (cases "length (items q) < room q")
        case room: True
        have "s' = set_mbox p (q\<lparr>items := items q @ [Static ?k]\<rparr>) (s\<lparr>wl_msg := (wl_msg s)[?k := ?x\<lparr>m_cnt := 1\<rparr>]\<rparr>)"
          using assms(2) True Some room k mb len
          by (auto simp: tls_wl_task_callback_static_def callback_static_send_def callback_static_count_def trypost post_room
              TLS_OS_SUCCESS_def Let_def split: if_splits)
        then show ?thesis using wl_inv_enqueue_static [OF assms(1) k 0 Some mb] by simp
      next
        case False
        then have "s' = s\<lparr>wl_msg := (wl_msg s)[?k := ?x]\<rparr>"
          using assms(2,3) True Some k mb len set_mbox_same [OF Some]
          by (auto simp: tls_wl_task_callback_static_def callback_static_send_def trypost has_room_def
              TLS_OS_SUCCESS_def TLS_OS_ERROR_def Let_def list_update_same_conv split: if_splits)
        then show ?thesis using wl_inv_slot [OF assms(1) k 0, of ?x] True by simp
      qed
    qed
  next
    case False
    then show ?thesis using assms(1,2) k mb len
      by (auto simp: tls_wl_task_callback_static_def callback_static_send_def word_neq_0_conv)
  qed
qed

lemma wl_inv_post_heap:
  assumes "wl_inv s" "post_heap_msg no_delay (Some a) p x s = Some (r, s')" "heap s a = None" "has_room p s"
    "m_type x \<in> {TASK_MSG_CALLBACK, TASK_MSG_TIMEOUT, TASK_MSG_UNTIMEOUT}"
  shows "wl_inv s'"
  using assms wl_inv_enqueue_heap [OF assms(1,3) _ _ assms(5), of p]
  by (auto simp: post_heap_msg_def has_room_def post_room wl_inv_def split: if_splits option.splits)

lemma wl_inv_callback:
  assumes "wl_inv s" "tls_wl_task_callback no_delay (Some a) p f ctx block s = Some (r, s')" "heap s a = None"
    "block \<longrightarrow> has_room p s"
  shows "wl_inv s'"
proof (cases "mbox_of p s")
  case None
  then show ?thesis using assms(1,2) by (simp add: tls_wl_task_callback_def split: if_splits)
next
  case (Some q)
  let ?x = "zero_msg\<lparr>m_type := TASK_MSG_CALLBACK, m_fun := f, m_ctx := ctx\<rparr>"
  have len: "length (task_mbox s) = 8" using assms(1) by (simp add: wl_inv_def)
  have mb: "unat (mbox_id p) < 8" using assms(2) len by (auto simp: tls_wl_task_callback_def split: if_splits)
  show ?thesis
  proof (cases "length (items q) < room q")
    case True
    then have "s' = set_mbox p (q\<lparr>items := items q @ [Heap a]\<rparr>) (s\<lparr>heap := (heap s)(a \<mapsto> ?x)\<rparr>)"
      using assms(2) Some mb len
      by (auto simp: tls_wl_task_callback_def trypost post_room TLS_OS_SUCCESS_def Let_def split: if_splits)
    then show ?thesis using wl_inv_enqueue_heap [OF assms(1,3) Some mb, of ?x] by simp
  next
    case False
    have "(heap s)(a := None) = heap s" using assms(3) by auto
    then have "s' = s" using False assms(2,4) Some mb len set_mbox_same [OF Some]
      by (auto simp: tls_wl_task_callback_def trypost has_room_def TLS_OS_SUCCESS_def TLS_OS_ERROR_def Let_def
          list_update_same_conv split: if_splits)
    then show ?thesis using assms(1) by simp
  qed
qed

lemma queued_member:
  assumes "mbox_of p s = Some q" "m \<in> set (items q)" "unat (mbox_id p) < length (task_mbox s)"
  shows "0 < queued m s"
proof -
  have "count_list (items q) m \<noteq> 0" using assms(2) by (simp add: count_list_0_iff)
  then have "0 < box_count m (mbox_of p s)" using assms(1) by (simp add: box_count_def)
  moreover have "box_count m (mbox_of p s) \<le> queued m s"
    unfolding queued_def using assms(3) by (intro member_le_sum_list) (auto intro: imageI nth_mem)
  ultimately show ?thesis by linarith
qed

lemma wl_inv_head:
  assumes "wl_inv s" "mbox_of p s = Some q" "unat (mbox_id p) < 8" "items q = m # ms"
  shows "(\<exists>k<9. m = Static k \<and> m_type (wl_msg s ! k) = TASK_MSG_CALLBACK_STATIC) \<or>
    (\<exists>a x. m = Heap a \<and> heap s a = Some x \<and> m_type x \<in> {TASK_MSG_CALLBACK, TASK_MSG_TIMEOUT, TASK_MSG_UNTIMEOUT})"
proof -
  have pos: "0 < queued m s" using assms by (intro queued_member) (auto simp: wl_inv_def)
  show ?thesis
  proof (cases m)
    case (Static k)
    then have "k < 9" using pos assms(1) by (cases "k < 9") (auto simp: wl_inv_def)
    moreover have "slot_ok s k" using \<open>k < 9\<close> assms(1) by (simp add: wl_inv_def)
    ultimately show ?thesis using pos Static by (auto simp: slot_ok_def)
  next
    case (Heap a)
    then have "cell_ok s a" "queued (Heap a) s \<noteq> 0" using pos assms(1) by (simp_all add: wl_inv_def)
    then show ?thesis using Heap by (auto simp: cell_ok_def split: if_splits)
  qed
qed

lemma wl_inv_serve:
  assumes "wl_inv s" "task_serve mem p (s, tt) = Some (r, s', tt')"
  shows "wl_inv s'"
proof -
  have len: "length (task_mbox s) = 8" "length (wl_msg s) = 9" using assms(1) by (simp_all add: wl_inv_def)
  obtain q m ms where q: "unat (mbox_id p) < 8" "mbox_of p s = Some q" "items q = m # ms"
    and d: "task_dispatch mem p m (set_mbox p (q\<lparr>items := ms\<rparr>) s, tt) = Some (r, s', tt')"
    using assms(2) len by (auto simp: task_serve_def split: if_splits option.splits list.splits)
  from wl_inv_head [OF assms(1) q(2,1,3)] show ?thesis
  proof (elim disjE exE conjE)
    fix k assume "k < 9" "m = Static k" "m_type (wl_msg s ! k) = TASK_MSG_CALLBACK_STATIC"
    then show ?thesis using wl_inv_dequeue_static [OF assms(1) q(2,1)] q(3) d len
      by (auto simp: task_dispatch_def msg_at_def put_msg_def)
  next
    fix a x assume h: "m = Heap a" "heap s a = Some x" "m_type x \<in> {TASK_MSG_CALLBACK, TASK_MSG_TIMEOUT, TASK_MSG_UNTIMEOUT}"
    then have "s' = free_msg (Heap a) (set_mbox p (q\<lparr>items := ms\<rparr>) s)"
      using d by (auto simp: task_dispatch_def msg_at_def split: option.splits)
    then show ?thesis using wl_inv_dequeue_heap [OF assms(1) q(2,1)] q(3) h by simp
  qed
qed

lemma run_frame:
  assumes "tls_wl_task_run c p s = Some (r, s')" "mbox_of p s = None"
  shows "queued m s' = queued m s \<and> length (task_mbox s') = length (task_mbox s) \<and> wl_msg s' = wl_msg s \<and> heap s' = heap s"
proof -
  have "unat (mbox_id p) < length (task_mbox s)" using assms(1) by (auto simp: tls_wl_task_run_def Let_def split: if_splits)
  then show ?thesis
    using assms queued_update [of "unat (mbox_id p)" s m]
    by (auto simp: tls_wl_task_run_def tls_mbox_new_def box_count_def Let_def split: if_splits)
qed

lemma wl_inv_run:
  "wl_inv s \<Longrightarrow> tls_wl_task_run c p s = Some (r, s') \<Longrightarrow> mbox_of p s = None \<Longrightarrow> wl_inv s'"
  using run_frame [of c p s r s'] by (simp add: wl_inv_def slot_ok_def cell_ok_def)

lemma wl_inv_step:
  assumes "wl_step True st st'" "wl_inv (fst st)"
  shows "wl_inv (fst st')"
proof -
  have "b \<longrightarrow> wl_inv (fst st')" if "wl_step b st st'" for b
    using that assms(2)
  proof cases
    case (Serve mem p r)
    then show ?thesis using assms(2) wl_inv_serve [of "fst st" mem p "snd st" r "fst st'" "snd st'"] by simp
  qed (auto intro: wl_inv_run wl_inv_static wl_inv_callback wl_inv_post_heap
      simp: tls_wl_task_add_timeout_def tls_wl_task_untimeout_def)
  with assms(1) show ?thesis by blast
qed

lemma wl_inv_reset: "wl_inv wl_reset"
proof -
  have "queued m wl_reset = 0" for m by (simp add: queued_def wl_reset_def box_count_def sum_list_replicate)
  then show ?thesis by (simp add: wl_inv_def slot_ok_def cell_ok_def wl_reset_def zero_msg_def)
qed

lemma wl_reach_inv: "wl_reach st \<Longrightarrow> wl_inv (fst st)"
  by (induction rule: wl_reach.induct) (auto simp: wl_inv_reset intro: wl_inv_step)

section \<open>Messages that are never sent\<close>

text \<open>A static message whose count is positive although it is in no mailbox.\<close>

definition slot_stuck :: "nat \<Rightarrow> wl \<Rightarrow> bool" where
  "slot_stuck k s \<longleftrightarrow> k < length (wl_msg s) \<and> 0 < m_cnt (wl_msg s ! k) \<and> queued (Static k) s = 0"

lemma static_call_stuck:
  assumes "slot_stuck (unat msg_id) s" "unat (mbox_id p) < length (task_mbox s)"
  shows "tls_wl_task_callback_static delay p f ctx block msg_id s = Some (TLS_OS_ERROR, s)"
  using assms by (simp add: slot_stuck_def tls_wl_task_callback_static_def callback_static_send_def)

lemma trypost_post: "snd (tls_mbox_trypost m q) = tls_mbox_post no_delay m q"
  by (simp add: trypost post_room post_full)

lemma stuck_enqueue:
  assumes "slot_stuck k s" "unat (mbox_id p) < length (task_mbox s)" "mbox_of p s = Some q" "x \<noteq> Static k"
    and s': "task_mbox s' = (task_mbox s)[unat (mbox_id p) := Some (tls_mbox_post no_delay x q)]"
      "length (wl_msg s') = length (wl_msg s)" "m_cnt (wl_msg s' ! k) = m_cnt (wl_msg s ! k)"
  shows "slot_stuck k s'"
proof -
  have "box_count (Static k) (Some (tls_mbox_post no_delay x q)) = box_count (Static k) (Some q)"
    using assms(4) by (cases "length (items q) < room q") (simp_all add: post_room post_full box_count_def)
  then have "queued (Static k) (s\<lparr>task_mbox := task_mbox s'\<rparr>) = queued (Static k) s"
    using queued_update [OF assms(2), of "Static k" "Some (tls_mbox_post no_delay x q)"] assms(3) s'(1) by simp
  then show ?thesis using assms(1) s'(2,3) by (simp add: slot_stuck_def queued_def)
qed

lemma stuck_static:
  assumes "slot_stuck k s" "tls_wl_task_callback_static no_delay p f ctx block msg_id s = Some (r, s')"
  shows "slot_stuck k s'"
proof -
  have mb: "unat (mbox_id p) < length (task_mbox s)" "unat msg_id < length (wl_msg s)"
    using assms(2) by (auto simp: tls_wl_task_callback_static_def callback_static_send_def Let_def split: if_splits)
  consider "unat msg_id = k" | "s' = s" | q where "unat msg_id \<noteq> k" "mbox_of p s = Some q" "\<not> 0 < m_cnt (wl_msg s ! unat msg_id)"
    using assms(2) mb
    by (cases "mbox_of p s")
      (auto simp: tls_wl_task_callback_static_def callback_static_send_def Let_def split: if_splits)
  then show ?thesis
  proof cases
    case 1
    then show ?thesis using static_call_stuck [of msg_id s p no_delay f ctx block] assms mb by auto
  next
    case 2
    then show ?thesis using assms(1) by simp
  next
    case (3 q)
    have "task_mbox s' = (task_mbox s)[unat (mbox_id p) := Some (tls_mbox_post no_delay (Static (unat msg_id)) q)] \<and>
        length (wl_msg s') = length (wl_msg s) \<and> wl_msg s' ! k = wl_msg s ! k"
      using assms(2) 3 mb trypost_post [of "Static (unat msg_id)" q]
      by (auto simp: tls_wl_task_callback_static_def callback_static_send_def callback_static_count_def
          Let_def split: if_splits prod.splits)
    then show ?thesis using stuck_enqueue [OF assms(1) mb(1) 3(2), of "Static (unat msg_id)" s'] 3(1) by simp
  qed
qed

lemma stuck_post_heap:
  assumes "slot_stuck k s" "post_heap_msg no_delay (Some a) p x s = Some (r, s')"
  shows "slot_stuck k s'"
  using assms stuck_enqueue [OF assms(1), of p _ "Heap a" s']
  by (auto simp: post_heap_msg_def split: if_splits option.splits)

lemma stuck_callback:
  assumes "slot_stuck k s" "tls_wl_task_callback no_delay (Some a) p f ctx block s = Some (r, s')"
  shows "slot_stuck k s'"
proof (cases "mbox_of p s")
  case (Some q)
  have mb: "unat (mbox_id p) < length (task_mbox s)"
    using assms(2) by (auto simp: tls_wl_task_callback_def split: if_splits)
  have "task_mbox s' = (task_mbox s)[unat (mbox_id p) := Some (tls_mbox_post no_delay (Heap a) q)] \<and> wl_msg s' = wl_msg s"
    using assms(2) Some mb trypost_post [of "Heap a" q]
    by (auto simp: tls_wl_task_callback_def Let_def split: if_splits prod.splits)
  then show ?thesis using stuck_enqueue [OF assms(1) mb Some, of "Heap a" s'] by simp
qed (use assms in \<open>auto simp: tls_wl_task_callback_def split: if_splits\<close>)

lemma stuck_serve:
  assumes "slot_stuck k s" "task_serve mem p (s, tt) = Some (r, s', tt')"
  shows "slot_stuck k s'"
proof -
  obtain q m ms where q: "unat (mbox_id p) < length (task_mbox s)" "mbox_of p s = Some q" "items q = m # ms"
    and d: "task_dispatch mem p m (set_mbox p (q\<lparr>items := ms\<rparr>) s, tt) = Some (r, s', tt')"
    using assms(2) by (auto simp: task_serve_def split: if_splits option.splits list.splits)
  let ?s = "set_mbox p (q\<lparr>items := ms\<rparr>) s"
  have m: "m \<noteq> Static k" using queued_member [OF q(2) _ q(1), of m] q(3) assms(1) by (auto simp: slot_stuck_def)
  then have "slot_stuck k ?s" using queued_dequeue [OF q, of "Static k"] assms(1) by (simp add: slot_stuck_def)
  moreover have "task_mbox s' = task_mbox ?s \<and> length (wl_msg s') = length (wl_msg ?s) \<and> wl_msg s' ! k = wl_msg ?s ! k"
    using d m by (auto simp: task_dispatch_def put_msg_def free_msg_def split: option.splits task_msg_type.splits msg_ref.splits)
  ultimately show ?thesis by (simp add: slot_stuck_def queued_def)
qed

lemma stuck_run:
  "slot_stuck k s \<Longrightarrow> tls_wl_task_run c p s = Some (r, s') \<Longrightarrow> mbox_of p s = None \<Longrightarrow> slot_stuck k s'"
  using run_frame [of c p s r s'] by (simp add: slot_stuck_def)

lemma stuck_step:
  assumes "wl_step b st st'" "slot_stuck k (fst st)"
  shows "slot_stuck k (fst st')"
  using assms
proof cases
  case (Serve mem p r)
  then show ?thesis using assms(2) stuck_serve [of k "fst st" mem p "snd st" r "fst st'" "snd st'"] by simp
qed (auto intro: stuck_run stuck_static stuck_callback stuck_post_heap
    simp: tls_wl_task_add_timeout_def tls_wl_task_untimeout_def)

lemma stuck_forever:
  assumes "(\<lambda>x y. \<exists>b. wl_step b x y)\<^sup>*\<^sup>* st st'" "slot_stuck k (fst st)"
  shows "slot_stuck k (fst st')"
  using assms by induction (auto intro: stuck_step)

text \<open>An example: a task with a mailbox for one message, which holds a callback.\<close>

definition ex_task :: task_parameter where
  "ex_task = \<lparr>task_id = 1, mbox_size = 1, mbox_id = 0, timeo_id = 1\<rparr>"

definition ex_state :: wl where
  "ex_state = wl_reset\<lparr>task_mbox := (task_mbox wl_reset)[0 := Some \<lparr>room = 1, items = [Heap 7]\<rparr>],
     heap := [7 \<mapsto> zero_msg\<lparr>m_type := TASK_MSG_CALLBACK, m_fun := 100, m_ctx := 5\<rparr>]\<rparr>"

lemmas ex_defs = ex_task_def ex_state_def wl_reset_def zero_msg_def

lemma ex_reach: "wl_reach (ex_state, tt)"
proof -
  let ?s = "wl_reset\<lparr>task_mbox := (task_mbox wl_reset)[0 := Some \<lparr>room = 1, items = []\<rparr>]\<rparr>"
  have "tls_wl_task_run True ex_task wl_reset = Some (0, ?s)" "mbox_of ex_task wl_reset = None"
    by (simp_all add: tls_wl_task_run_def tls_mbox_new_def ex_task_def wl_reset_def TLS_OS_SUCCESS_def)
  then have "wl_reach (?s, tt)" by (rule wl_reach.Step [OF wl_reach.Reset wl_step.Run])
  moreover have "tls_wl_task_callback no_delay (Some 7) ex_task 100 5 True ?s = Some (TLS_OS_SUCCESS, ex_state)"
    "heap ?s 7 = None" "has_room ex_task ?s"
    by (simp_all add: tls_wl_task_callback_def post_room has_room_def ex_defs)
  then have "wl_step True (?s, tt) (ex_state, tt)" using wl_step.Callback [of 7 ex_task 100 5 True ?s] by simp
  ultimately show ?thesis by (rule wl_reach.Step)
qed

section \<open>Properties\<close>

text \<open>When every call and every service of a message is one step and no blocking post gives up, a static
  message is in the mailboxes as often as its count says, at most once, and a heap message is in
  exactly one mailbox until its task frees it. (The theory \<open>Wl_Preempt\<close> treats interleaved calls and posts
  that give up.)\<close>

theorem wl_messages_atomic:
  assumes "wl_reach (s, tt)"
  shows "(\<forall>k<9. unat (m_cnt (wl_msg s ! k)) = queued (Static k) s \<and> queued (Static k) s \<le> 1) \<and>
    (\<forall>a. queued (Heap a) s = (if heap s a = None then 0 else 1))"
  using wl_reach_inv [OF assms] by (simp add: wl_inv_def slot_ok_def cell_ok_def)

theorem wl_messages_atomic_witness: "queued (Heap 7) ex_state = 1 \<and> queued (Heap 8) ex_state = 0"
  using wl_messages_atomic [OF ex_reach] by (simp add: ex_state_def)

text \<open>A task never finds a stale message: in every such state the next message of a mailbox
  exists and is handled, and a callback message is answered with the call of its function.\<close>

theorem task_serves_messages:
  assumes "wl_reach (s, tt)" "unat (mbox_id p) < 8" "mbox_of p s = Some q" "items q = m # ms" "unat (timeo_id p) < length tt"
  shows "\<exists>x r s' tt'. msg_at m s = Some x \<and> task_serve mem p (s, tt) = Some (r, s', tt') \<and>
    (m_type x \<in> {TASK_MSG_CALLBACK, TASK_MSG_CALLBACK_STATIC} \<longrightarrow> r = Some (m_fun x, m_ctx x))"
proof -
  have inv: "wl_inv s" using wl_reach_inv [OF assms(1)] by simp
  then have len: "length (task_mbox s) = 8" "length (wl_msg s) = 9" by (simp_all add: wl_inv_def)
  from wl_inv_head [OF inv assms(3,2,4)] show ?thesis
    using assms(2-5) len
    by (auto simp: task_serve_def task_dispatch_def msg_at_def tls_timeout_p_def tls_untimeout_p_def Let_def)
qed

theorem task_serves_messages_witness: "\<exists>s' tt'. task_serve True ex_task (ex_state, [[], []]) = Some (Some (100, 5), s', tt')"
  using task_serves_messages [OF ex_reach, of ex_task "\<lparr>room = 1, items = [Heap 7]\<rparr>" "Heap 7" "[]" "[[], []]" True]
  by (auto simp: ex_defs msg_at_def)

text \<open>A blocking static callback whose mailbox stays full for ten attempts reports success
  although the message was not sent, and blocks its message for ever: whatever the clients
  and tasks do from then on, every later request with that message is refused.\<close>

theorem static_callback_stuck:
  assumes "wl_reach (s, tt)" "mbox_of p s = Some q" "unat (mbox_id p) < 8" "\<not> length (items q) < room q"
    "unat msg_id < 9" "m_cnt (wl_msg s ! unat msg_id) = 0"
  shows "\<exists>s1. tls_wl_task_callback_static no_delay p f ctx True msg_id s = Some (TLS_OS_SUCCESS, s1) \<and>
    task_mbox s1 = task_mbox s \<and>
    (\<forall>s2 tt2 p' f' ctx' block. (\<lambda>x y. \<exists>b. wl_step b x y)\<^sup>*\<^sup>* (s1, tt) (s2, tt2) \<longrightarrow> unat (mbox_id p') < length (task_mbox s2) \<longrightarrow>
       tls_wl_task_callback_static no_delay p' f' ctx' block msg_id s2 = Some (TLS_OS_ERROR, s2))"
proof -
  let ?k = "unat msg_id"
  let ?s1 = "callback_static_count msg_id
    (s\<lparr>wl_msg := (wl_msg s)[?k := (wl_msg s ! ?k)\<lparr>m_type := TASK_MSG_CALLBACK_STATIC, m_fun := f, m_ctx := ctx\<rparr>]\<rparr>)"
  have inv: "wl_inv s" using wl_reach_inv [OF assms(1)] by simp
  then have len: "length (task_mbox s) = 8" "length (wl_msg s) = 9" "queued (Static ?k) s = 0"
    using assms(5,6) by (auto simp: wl_inv_def slot_ok_def)
  have call: "tls_wl_task_callback_static no_delay p f ctx True msg_id s = Some (TLS_OS_SUCCESS, ?s1)"
    using assms(2-6) len list_update_id [of "task_mbox s" "unat (mbox_id p)"]
    by (simp add: tls_wl_task_callback_static_def callback_static_send_def post_full Let_def)
  have stuck: "slot_stuck ?k ?s1" "task_mbox ?s1 = task_mbox s"
    using assms(5,6) len by (simp_all add: slot_stuck_def callback_static_count_def Let_def)
  show ?thesis
    using call stuck stuck_forever [of "(?s1, tt)" _ ?k] static_call_stuck [of msg_id _ _ no_delay] by fastforce
qed

theorem static_callback_stuck_witness:
  "\<exists>s1. tls_wl_task_callback_static no_delay ex_task 200 6 True 3 ex_state = Some (TLS_OS_SUCCESS, s1) \<and>
    task_mbox s1 = task_mbox ex_state \<and>
    tls_wl_task_callback_static no_delay ex_task 300 9 False 3 s1 = Some (TLS_OS_ERROR, s1)"
  using static_callback_stuck [OF ex_reach, of ex_task "\<lparr>room = 1, items = [Heap 7]\<rparr>" 3 200 6] by (fastforce simp: ex_defs)

text \<open>A timer request to a mailbox that stays full for ten attempts reports success, but the
  mailbox is unchanged and the message is left on the heap in no mailbox: it leaks.\<close>

theorem add_timeout_lost:
  assumes "wl_reach (s, tt)" "mbox_of p s = Some q" "unat (mbox_id p) < 8" "\<not> length (items q) < room q" "heap s a = None"
  shows "\<exists>s1. tls_wl_task_add_timeout no_delay (Some a) p msecs h x s = Some (TLS_OS_SUCCESS, s1) \<and>
    task_mbox s1 = task_mbox s \<and> heap s1 a \<noteq> None \<and> queued (Heap a) s1 = 0"
proof -
  have inv: "wl_inv s" using wl_reach_inv [OF assms(1)] by simp
  then have "length (task_mbox s) = 8" "queued (Heap a) s = 0" using assms(5) by (simp_all add: wl_inv_def cell_ok_def)
  then show ?thesis using assms(2-4) list_update_id [of "task_mbox s" "unat (mbox_id p)"]
    by (auto simp: tls_wl_task_add_timeout_def post_heap_msg_def post_full queued_def)
qed

theorem add_timeout_lost_witness:
  "\<exists>s1. tls_wl_task_add_timeout no_delay (Some 8) ex_task 50 400 0 ex_state = Some (TLS_OS_SUCCESS, s1) \<and>
    task_mbox s1 = task_mbox ex_state \<and> heap s1 8 \<noteq> None \<and> queued (Heap 8) s1 = 0"
  by (rule add_timeout_lost [OF ex_reach, of ex_task "\<lparr>room = 1, items = [Heap 7]\<rparr>"]) (simp_all add: ex_defs)

text \<open>The check and the increment of the count are not atomic: when a second client requests
  a callback with the same static message after the first one has sent it and before it has
  counted it, both succeed, the message is in the mailbox twice, and both copies call the
  function of the second client: the callback of the first is lost.\<close>

theorem static_callback_race:
  assumes "wl_reach (s, tt)" "mbox_of p s = Some q" "unat (mbox_id p) < 8" "length (items q) + 1 < room q"
    "unat msg_id < 9" "m_cnt (wl_msg s ! unat msg_id) = 0"
  shows "\<exists>s1 s2. callback_static_send no_delay p fA cA bA msg_id s = Some (True, s1) \<and>
    tls_wl_task_callback_static no_delay p fB cB bB msg_id s1 = Some (TLS_OS_SUCCESS, s2) \<and>
    (let s3 = callback_static_count msg_id s2; m = Static (unat msg_id)
     in mbox_of p s3 = Some (q\<lparr>items := items q @ [m, m]\<rparr>) \<and>
        (\<exists>x. msg_at m s3 = Some x \<and> m_type x = TASK_MSG_CALLBACK_STATIC \<and> m_fun x = fB \<and> m_ctx x = cB \<and> m_cnt x = 2))"
proof -
  have "length (task_mbox s) = 8" "length (wl_msg s) = 9"
    using wl_reach_inv [OF assms(1)] by (simp_all add: wl_inv_def)
  then show ?thesis using assms(2-6)
    by (simp add: tls_wl_task_callback_static_def callback_static_send_def callback_static_count_def trypost post_room
        msg_at_def Let_def)
qed

theorem static_callback_race_witness:
  "\<exists>s s1 s2. callback_static_send no_delay ex_task 200 1 True 3 s = Some (True, s1) \<and>
    tls_wl_task_callback_static no_delay ex_task 300 2 False 3 s1 = Some (TLS_OS_SUCCESS, s2)"
proof -
  let ?p = "ex_task\<lparr>mbox_size := 4\<rparr>" and ?s = "wl_reset\<lparr>task_mbox := (task_mbox wl_reset)[0 := Some \<lparr>room = 4, items = []\<rparr>]\<rparr>"
  have "tls_wl_task_run True ?p wl_reset = Some (0, ?s)" "mbox_of ?p wl_reset = None"
    by (simp_all add: tls_wl_task_run_def tls_mbox_new_def ex_task_def wl_reset_def TLS_OS_SUCCESS_def)
  then have "wl_reach (?s, [])" by (rule wl_reach.Step [OF wl_reach.Reset wl_step.Run])
  from static_callback_race [OF this, of ex_task "\<lparr>room = 4, items = []\<rparr>" 3 200 1 True 300 2 False] show ?thesis
    by (fastforce simp: ex_defs)
qed

end
