(* ===== verification/Wl_Preempt.thy ===== *)
theory Wl_Preempt
  imports Wl_Task "HOL-Library.Multiset"
begin

text \<open>
  The mailboxes and tasks of \<^verbatim>\<open>wm_wl_task.c\<close> under preemption. The calls of the clients are cut at every point
  where another task can run: between the test of the count of a static message, the writing of its members,
  each attempt to send it and the increment of the count; between the allocation of a heap message
  and the attempts to send it; between the fetching of a message by its task and its handling. A
  blocking post may give up after its ten attempts. The increment and the decrement of the count are
  one step each. Every call in the form in which \<open>Wl_Task\<close> defines it is a run of these steps.
\<close>

section \<open>Steps\<close>

text \<open>The calls in progress. \<open>checked\<close>: static calls that found the count zero; \<open>ready\<close>: static calls that have
  written the message and try to send it; \<open>counting\<close>: static calls behind the post, by message;
  \<open>posting\<close>: heap calls with an allocated message that is not sent yet; \<open>taken\<close>: messages that their
  task has fetched and not handled yet. \<open>lost\<close> counts, per static message, the blocking posts that gave
  up, \<open>leaked\<close> holds the heap messages of blocking posts that gave up.\<close>

record wl_run =
  r_wl :: wl
  r_tt :: timeouts
  checked :: "(task_parameter \<times> u32 \<times> u32 \<times> bool \<times> nat) multiset"
  ready :: "(task_parameter \<times> bool \<times> nat) multiset"
  counting :: "nat multiset"
  posting :: "(task_parameter \<times> bool \<times> nat) multiset"
  taken :: "(task_parameter \<times> msg_ref) multiset"
  lost :: "nat \<Rightarrow> nat"
  leaked :: "nat set"

definition idle_run :: "wl \<Rightarrow> timeouts \<Rightarrow> (nat \<Rightarrow> nat) \<Rightarrow> nat set \<Rightarrow> wl_run" where
  "idle_run s tt l d = \<lparr>r_wl = s, r_tt = tt, checked = {#}, ready = {#}, counting = {#}, posting = {#}, taken = {#}, lost = l, leaked = d\<rparr>"

definition static_write :: "u32 \<Rightarrow> u32 \<Rightarrow> nat \<Rightarrow> wl \<Rightarrow> wl" where
  "static_write f ctx k s =
     s\<lparr>wl_msg := (wl_msg s)[k := (wl_msg s ! k)\<lparr>m_type := TASK_MSG_CALLBACK_STATIC, m_fun := f, m_ctx := ctx\<rparr>]\<rparr>"

text \<open>The messages of \<^verbatim>\<open>tls_wl_task_callback\<close>, \<^verbatim>\<open>tls_wl_task_add_timeout\<close> and \<^verbatim>\<open>tls_wl_task_untimeout\<close>; only the first may be
  sent without waiting.\<close>

definition heap_request :: "bool \<Rightarrow> task_msg \<Rightarrow> bool" where
  "heap_request block y \<longleftrightarrow> m_type y = TASK_MSG_CALLBACK \<or> block \<and> m_type y \<in> {TASK_MSG_TIMEOUT, TASK_MSG_UNTIMEOUT}"

inductive wl_pre :: "wl_run \<Rightarrow> wl_run \<Rightarrow> bool" where
  Run: "tls_wl_task_run c p (r_wl x) = Some (r, s') \<Longrightarrow> mbox_of p (r_wl x) = None \<Longrightarrow> wl_pre x (x\<lparr>r_wl := s'\<rparr>)"
| Check: "unat (msg_id :: u8) < length (wl_msg (r_wl x)) \<Longrightarrow> unat (mbox_id p) < length (task_mbox (r_wl x)) \<Longrightarrow>
    \<not> 0 < m_cnt (wl_msg (r_wl x) ! unat msg_id) \<Longrightarrow>
    wl_pre x (x\<lparr>checked := add_mset (p, f, ctx, block, unat msg_id) (checked x)\<rparr>)"
| Invalid: "checked x = add_mset (p, f, ctx, block, k) C \<Longrightarrow> mbox_of p (r_wl x) = None \<Longrightarrow> wl_pre x (x\<lparr>checked := C\<rparr>)"
| Write: "checked x = add_mset (p, f, ctx, block, k) C \<Longrightarrow> mbox_of p (r_wl x) \<noteq> None \<Longrightarrow>
    wl_pre x (x\<lparr>checked := C, ready := add_mset (p, block, k) (ready x), r_wl := static_write f ctx k (r_wl x)\<rparr>)"
| Send: "ready x = add_mset (p, block, k) R \<Longrightarrow> mbox_of p (r_wl x) = Some q \<Longrightarrow> os_queue_send (Static k) q = (True, q') \<Longrightarrow>
    wl_pre x (x\<lparr>ready := R, counting := add_mset k (counting x), r_wl := set_mbox p q' (r_wl x)\<rparr>)"
| Refused: "ready x = add_mset (p, False, k) R \<Longrightarrow> mbox_of p (r_wl x) = Some q \<Longrightarrow> os_queue_send (Static k) q = (False, q') \<Longrightarrow>
    wl_pre x (x\<lparr>ready := R\<rparr>)"
| Give_up: "ready x = add_mset (p, True, k) R \<Longrightarrow> mbox_of p (r_wl x) = Some q \<Longrightarrow> os_queue_send (Static k) q = (False, q') \<Longrightarrow>
    wl_pre x (x\<lparr>ready := R, counting := add_mset k (counting x), lost := (lost x)(k := lost x k + 1)\<rparr>)"
| Count: "counting x = add_mset (unat msg_id) K \<Longrightarrow>
    wl_pre x (x\<lparr>counting := K, r_wl := callback_static_count msg_id (r_wl x)\<rparr>)"
| Alloc: "unat (mbox_id p) < length (task_mbox (r_wl x)) \<Longrightarrow> mbox_of p (r_wl x) \<noteq> None \<Longrightarrow> heap (r_wl x) a = None \<Longrightarrow> heap_request block y \<Longrightarrow>
    wl_pre x (x\<lparr>posting := add_mset (p, block, a) (posting x), r_wl := (r_wl x)\<lparr>heap := (heap (r_wl x))(a \<mapsto> y)\<rparr>\<rparr>)"
| Heap_send: "posting x = add_mset (p, block, a) P \<Longrightarrow> mbox_of p (r_wl x) = Some q \<Longrightarrow> os_queue_send (Heap a) q = (True, q') \<Longrightarrow>
    wl_pre x (x\<lparr>posting := P, r_wl := set_mbox p q' (r_wl x)\<rparr>)"
| Heap_refused: "posting x = add_mset (p, False, a) P \<Longrightarrow> mbox_of p (r_wl x) = Some q \<Longrightarrow> os_queue_send (Heap a) q = (False, q') \<Longrightarrow>
    wl_pre x (x\<lparr>posting := P, r_wl := free_msg (Heap a) (r_wl x)\<rparr>)"
| Heap_give_up: "posting x = add_mset (p, True, a) P \<Longrightarrow> mbox_of p (r_wl x) = Some q \<Longrightarrow> os_queue_send (Heap a) q = (False, q') \<Longrightarrow>
    wl_pre x (x\<lparr>posting := P, leaked := insert a (leaked x)\<rparr>)"
| Take: "unat (mbox_id p) < length (task_mbox (r_wl x)) \<Longrightarrow> mbox_of p (r_wl x) = Some q \<Longrightarrow> items q = m # ms \<Longrightarrow>
    wl_pre x (x\<lparr>taken := add_mset (p, m) (taken x), r_wl := set_mbox p (q\<lparr>items := ms\<rparr>) (r_wl x)\<rparr>)"
| Handle: "taken x = add_mset (p, m) T \<Longrightarrow> task_dispatch mem p m (r_wl x, r_tt x) = Some (r, s', tt') \<Longrightarrow>
    wl_pre x (x\<lparr>taken := T, r_wl := s', r_tt := tt'\<rparr>)"
| Timers: "wl_pre x (x\<lparr>r_tt := tt'\<rparr>)"

inductive wl_runs :: "wl_run \<Rightarrow> bool" where
  Start: "wl_runs (idle_run wl_reset tt (\<lambda>_. 0) {})"
| Step: "wl_runs x \<Longrightarrow> wl_pre x x' \<Longrightarrow> wl_runs x'"

lemma idle_run_simps [simp]:
  "r_wl (idle_run s tt l d) = s" "r_tt (idle_run s tt l d) = tt" "checked (idle_run s tt l d) = {#}" "ready (idle_run s tt l d) = {#}"
  "counting (idle_run s tt l d) = {#}" "posting (idle_run s tt l d) = {#}" "taken (idle_run s tt l d) = {#}"
  "lost (idle_run s tt l d) = l" "leaked (idle_run s tt l d) = d"
  by (simp_all add: idle_run_def)

section \<open>The calls are runs of steps\<close>

lemmas wl_pre_trans = converse_rtranclp_into_rtranclp [where r = wl_pre] rtranclp.rtrancl_refl [where r = wl_pre]

lemma post_send:
  assumes "os_queue_send m q = (sent, q')"
  shows "tls_mbox_post no_delay m q = q'" "tls_mbox_trypost m q = (if sent then TLS_OS_SUCCESS else TLS_OS_ERROR, q')"
    "\<not> sent \<Longrightarrow> q' = q" "sent \<Longrightarrow> q' = q\<lparr>items := items q @ [m]\<rparr>"
  using assms post_room [of q no_delay m] post_full [of q m]
  by (auto simp: os_queue_send_def tls_mbox_trypost_def split: if_splits)

lemma static_post_run:
  assumes q: "mbox_of p s = Some q" "os_queue_send (Static (unat msg_id)) q = (sent, q')" and go: "sent \<or> block"
  shows "\<exists>l'. wl_pre\<^sup>*\<^sup>* ((idle_run s tt l d)\<lparr>ready := {#(p, block, unat msg_id)#}\<rparr>)
    (idle_run (callback_static_count msg_id (set_mbox p q' s)) tt l' d)"
proof -
  let ?k = "unat msg_id" and ?l = "if sent then l else l(unat msg_id := l (unat msg_id) + 1)"
  let ?x = "(idle_run s tt l d)\<lparr>ready := {#(p, block, ?k)#}\<rparr>" and ?y = "(idle_run (set_mbox p q' s) tt ?l d)\<lparr>counting := {#?k#}\<rparr>"
  have "wl_pre ?x ?y"
  proof (cases sent)
    case True
    then show ?thesis using wl_pre.Send [of ?x p block ?k "{#}" q q'] q by (simp add: idle_run_def)
  next
    case False
    then have "block" "set_mbox p q' s = s" using go post_send(3) [OF q(2)] set_mbox_same [OF q(1)] by auto
    then show ?thesis using False wl_pre.Give_up [of ?x p ?k "{#}" q q'] q by (simp add: idle_run_def)
  qed
  moreover have "wl_pre ?y (idle_run (callback_static_count msg_id (set_mbox p q' s)) tt ?l d)"
    using wl_pre.Count [of ?y msg_id "{#}"] by (simp add: idle_run_def)
  ultimately show ?thesis by (meson wl_pre_trans)
qed

lemma static_call_run:
  assumes "tls_wl_task_callback_static no_delay p f ctx block msg_id s = Some (r, s')"
  shows "\<exists>l'. wl_pre\<^sup>*\<^sup>* (idle_run s tt l d) (idle_run s' tt l' d)"
proof -
  let ?k = "unat msg_id" and ?x = "idle_run s tt l d"
  let ?y = "?x\<lparr>checked := {#(p, f, ctx, block, unat msg_id)#}\<rparr>"
  have rg: "?k < length (wl_msg s)" "unat (mbox_id p) < length (task_mbox s)"
    using assms by (auto simp: tls_wl_task_callback_static_def callback_static_send_def Let_def split: if_splits)
  consider (busy) "0 < m_cnt (wl_msg s ! ?k)" | (invalid) "\<not> 0 < m_cnt (wl_msg s ! ?k)" "mbox_of p s = None"
    | (valid) q where "\<not> 0 < m_cnt (wl_msg s ! ?k)" "mbox_of p s = Some q" by (cases "mbox_of p s") auto
  then show ?thesis
  proof cases
    case busy
    then have "s' = s" using assms rg by (simp add: tls_wl_task_callback_static_def callback_static_send_def)
    then show ?thesis by blast
  next
    case invalid
    then have "s' = s" using assms rg by (simp add: tls_wl_task_callback_static_def callback_static_send_def)
    moreover have "wl_pre ?x ?y" using wl_pre.Check [of msg_id ?x p f ctx block] rg invalid by simp
    moreover have "wl_pre ?y ?x" using wl_pre.Invalid [of ?y p f ctx block ?k "{#}"] invalid by (simp add: idle_run_def)
    ultimately show ?thesis by (meson wl_pre_trans)
  next
    case (valid q)
    let ?s = "static_write f ctx ?k s"
    let ?z = "(idle_run ?s tt l d)\<lparr>ready := {#(p, block, ?k)#}\<rparr>"
    have "wl_pre ?x ?y" using wl_pre.Check [of msg_id ?x p f ctx block] rg valid by simp
    moreover have "wl_pre ?y ?z" using wl_pre.Write [of ?y p f ctx block ?k "{#}"] valid by (simp add: idle_run_def)
    moreover have m: "mbox_of p ?s = Some q" using valid by (simp add: static_write_def)
    obtain sent q' where q': "os_queue_send (Static ?k) q = (sent, q')" by fastforce
    consider "sent \<or> block" "s' = callback_static_count msg_id (set_mbox p q' ?s)" | "\<not> sent" "\<not> block" "s' = ?s"
      using assms rg valid post_send [OF q'] set_mbox_same [OF m]
      by (auto simp: tls_wl_task_callback_static_def callback_static_send_def static_write_def Let_def TLS_OS_SUCCESS_def TLS_OS_ERROR_def split: if_splits)
    then have "\<exists>l'. wl_pre\<^sup>*\<^sup>* ?z (idle_run s' tt l' d)"
    proof cases
      case 1
      then show ?thesis using static_post_run [OF m q'] by blast
    next
      case 2
      then have "wl_pre ?z (idle_run s' tt l d)" using wl_pre.Refused [of ?z p ?k "{#}" q q'] m q' by (simp add: idle_run_def)
      then show ?thesis by blast
    qed
    ultimately show ?thesis by (meson wl_pre_trans)
  qed
qed

text \<open>A heap message is allocated and sent, or given up, or freed again.\<close>

lemma heap_post_run:
  assumes q: "mbox_of p s = Some q" "unat (mbox_id p) < length (task_mbox s)" "heap s a = None" "heap_request block y"
    and send: "os_queue_send (Heap a) q = (sent, q')"
    and s': "s' = (if sent \<or> block then set_mbox p q' (s\<lparr>heap := (heap s)(a \<mapsto> y)\<rparr>) else s)"
  shows "\<exists>d'. wl_pre\<^sup>*\<^sup>* (idle_run s tt l d) (idle_run s' tt l d')"
proof -
  let ?x = "idle_run s tt l d" and ?s = "s\<lparr>heap := (heap s)(a \<mapsto> y)\<rparr>"
  let ?y = "(idle_run ?s tt l d)\<lparr>posting := {#(p, block, a)#}\<rparr>"
  have "wl_pre ?x ?y" using wl_pre.Alloc [of p ?x a block y] q by (simp add: idle_run_def)
  moreover have m: "mbox_of p ?s = Some q" using q by simp
  have "\<exists>d'. wl_pre ?y (idle_run s' tt l d')"
  proof (cases sent)
    case True
    then show ?thesis using wl_pre.Heap_send [of ?y p block a "{#}" q q'] m send s' by (auto simp: idle_run_def)
  next
    case False
    then have e: "set_mbox p q' ?s = ?s" using post_send(3) [OF send] set_mbox_same [OF m] by simp
    have f: "free_msg (Heap a) ?s = s" using q(3) by (simp add: free_msg_def fun_upd_idem)
    show ?thesis
    proof (cases block)
      case True
      then show ?thesis using False e wl_pre.Heap_give_up [of ?y p a "{#}" q q'] m send s' by (auto simp: idle_run_def)
    next
      case nb: False
      then show ?thesis using False f wl_pre.Heap_refused [of ?y p a "{#}" q q'] m send s' by (auto simp: idle_run_def)
    qed
  qed
  ultimately show ?thesis by (meson wl_pre_trans)
qed

lemma post_heap_run:
  assumes "post_heap_msg no_delay (Some a) p y s = Some (r, s')" "heap s a = None" "heap_request True y"
  shows "\<exists>d'. wl_pre\<^sup>*\<^sup>* (idle_run s tt l d) (idle_run s' tt l d')"
proof (cases "mbox_of p s")
  case None
  then have "s' = s" using assms(1) by (simp add: post_heap_msg_def split: if_splits)
  then show ?thesis by blast
next
  case (Some q)
  obtain sent q' where q': "os_queue_send (Heap a) q = (sent, q')" by fastforce
  show ?thesis
    by (rule heap_post_run [OF Some _ assms(2,3) q']) (use assms(1) Some post_send(1) [OF q'] in \<open>auto simp: post_heap_msg_def split: if_splits\<close>)
qed

lemma callback_run:
  assumes "tls_wl_task_callback no_delay (Some a) p f ctx block s = Some (r, s')" "heap s a = None"
  shows "\<exists>d'. wl_pre\<^sup>*\<^sup>* (idle_run s tt l d) (idle_run s' tt l d')"
proof (cases "mbox_of p s")
  case None
  then have "s' = s" using assms(1) by (simp add: tls_wl_task_callback_def split: if_splits)
  then show ?thesis by blast
next
  case (Some q)
  let ?y = "zero_msg\<lparr>m_type := TASK_MSG_CALLBACK, m_fun := f, m_ctx := ctx\<rparr>"
  obtain sent q' where q': "os_queue_send (Heap a) q = (sent, q')" by fastforce
  have rg: "unat (mbox_id p) < length (task_mbox s)" using assms(1) by (auto simp: tls_wl_task_callback_def split: if_splits)
  have y: "heap_request block ?y" by (simp add: heap_request_def)
  have u: "(heap s)(a := None) = heap s" using assms(2) by auto
  show ?thesis
    by (rule heap_post_run [OF Some rg assms(2) y q'])
      (use assms(1) Some rg post_send [OF q'] set_mbox_same [OF Some] u in
        \<open>auto simp: tls_wl_task_callback_def TLS_OS_SUCCESS_def TLS_OS_ERROR_def list_update_same_conv Let_def split: if_splits\<close>)
qed

lemma serve_run:
  assumes "task_serve mem p (s, tt) = Some (r, s', tt')"
  shows "wl_pre\<^sup>*\<^sup>* (idle_run s tt l d) (idle_run s' tt' l d)"
proof -
  obtain q m ms where q: "unat (mbox_id p) < length (task_mbox s)" "mbox_of p s = Some q" "items q = m # ms"
    "task_dispatch mem p m (set_mbox p (q\<lparr>items := ms\<rparr>) s, tt) = Some (r, s', tt')"
    using assms by (auto simp: task_serve_def split: if_splits option.splits list.splits)
  let ?x = "idle_run s tt l d"
  let ?y = "(idle_run (set_mbox p (q\<lparr>items := ms\<rparr>) s) tt l d)\<lparr>taken := {#(p, m)#}\<rparr>"
  have "wl_pre ?x ?y" using wl_pre.Take [of p ?x q m ms] q by (simp add: idle_run_def)
  moreover have "wl_pre ?y (idle_run s' tt' l d)" using wl_pre.Handle [of ?y p m "{#}" mem r s' tt'] q(4) by (simp add: idle_run_def)
  ultimately show ?thesis by (meson wl_pre_trans)
qed

text \<open>Every step of \<open>wl_step\<close>, a whole call or the service of a message, whether its post is accepted or not,
  is a run of the small steps.\<close>

lemma step_run:
  assumes "wl_step b st st'"
  shows "\<exists>l' d'. wl_pre\<^sup>*\<^sup>* (idle_run (fst st) (snd st) l d) (idle_run (fst st') (snd st') l' d')"
  using assms
proof cases
  case (Run c p s r s' tt)
  then have "wl_pre (idle_run s tt l d) (idle_run s' tt l d)" using wl_pre.Run [of c p "idle_run s tt l d" r s'] by (simp add: idle_run_def)
  then show ?thesis using Run by auto
next
  case (Static p f ctx block msg_id s r s' tt)
  then show ?thesis using static_call_run [of p f ctx block msg_id s r s' tt l d] by auto
next
  case (Callback a p f ctx block s r s' tt)
  then show ?thesis using callback_run [of a p f ctx block s r s' tt l d] by auto
next
  case (Timeout a p msecs h y s r s' tt)
  then have "post_heap_msg no_delay (Some a) p (zero_msg\<lparr>m_type := TASK_MSG_TIMEOUT, m_fun := msecs, m_ctx := h, m_arg := y\<rparr>) s = Some (r, s')"
    by (simp add: tls_wl_task_add_timeout_def)
  from post_heap_run [OF this, of tt l d] Timeout show ?thesis by (auto simp: heap_request_def)
next
  case (Untimeout a p h y s r s' tt)
  then have "post_heap_msg no_delay (Some a) p (zero_msg\<lparr>m_type := TASK_MSG_UNTIMEOUT, m_ctx := h, m_arg := y\<rparr>) s = Some (r, s')"
    by (simp add: tls_wl_task_untimeout_def)
  from post_heap_run [OF this, of tt l d] Untimeout show ?thesis by (auto simp: heap_request_def)
next
  case (Serve mem p r)
  then show ?thesis using serve_run [of mem p "fst st" "snd st" r "fst st'" "snd st'"] by auto
qed

section \<open>The ledger\<close>

text \<open>The copies of a message in the mailboxes and in the hands of the tasks.\<close>

definition held :: "msg_ref \<Rightarrow> wl_run \<Rightarrow> nat" where
  "held m x = queued m (r_wl x) + count (image_mset snd (taken x)) m"

definition slot_balanced :: "wl_run \<Rightarrow> nat \<Rightarrow> bool" where
  "slot_balanced x k \<longleftrightarrow>
     m_cnt (wl_msg (r_wl x) ! k) + of_nat (count (counting x) k) = of_nat (held (Static k) x + lost x k) \<and>
     (0 < held (Static k) x \<longrightarrow> m_type (wl_msg (r_wl x) ! k) = TASK_MSG_CALLBACK_STATIC)"

definition cell_balanced :: "wl_run \<Rightarrow> nat \<Rightarrow> bool" where
  "cell_balanced x a \<longleftrightarrow>
     held (Heap a) x + count (image_mset (snd \<circ> snd) (posting x)) a + (if a \<in> leaked x then 1 else 0) =
       (if heap (r_wl x) a = None then 0 else 1) \<and>
     (\<forall>y. heap (r_wl x) a = Some y \<longrightarrow> m_type y \<in> {TASK_MSG_CALLBACK, TASK_MSG_TIMEOUT, TASK_MSG_UNTIMEOUT})"

definition pending_ok :: "wl_run \<Rightarrow> bool" where
  "pending_ok x \<longleftrightarrow> length (task_mbox (r_wl x)) = 8 \<and> length (wl_msg (r_wl x)) = 9 \<and>
     (\<forall>(p, f, ctx, block, k) \<in># checked x. k < 9 \<and> unat (mbox_id p) < 8) \<and>
     (\<forall>(p, block, k) \<in># ready x. k < 9 \<and> unat (mbox_id p) < 8 \<and> m_type (wl_msg (r_wl x) ! k) = TASK_MSG_CALLBACK_STATIC) \<and>
     (\<forall>(p, block, a) \<in># posting x. unat (mbox_id p) < 8) \<and> (\<forall>k \<in># counting x. k < 9)"

definition ledger :: "wl_run \<Rightarrow> bool" where
  "ledger x \<longleftrightarrow> pending_ok x \<and> (\<forall>k<9. slot_balanced x k) \<and> (\<forall>k\<ge>9. held (Static k) x = 0) \<and> (\<forall>a. cell_balanced x a)"

lemmas ledger_defs = ledger_def pending_ok_def slot_balanced_def cell_balanced_def held_def

lemma ledger_start: "ledger (idle_run wl_reset tt (\<lambda>_. 0) {})"
proof -
  have "queued m wl_reset = 0" for m by (simp add: queued_def wl_reset_def box_count_def sum_list_replicate)
  then show ?thesis by (simp add: ledger_defs wl_reset_def zero_msg_def)
qed

lemma ledger_run:
  assumes "ledger x" "tls_wl_task_run c p (r_wl x) = Some (r, s')" "mbox_of p (r_wl x) = None"
  shows "ledger (x\<lparr>r_wl := s'\<rparr>)"
  using assms(1) run_frame [OF assms(2,3)] by (simp add: ledger_defs)

lemma ledger_write:
  assumes "ledger x" "checked x = add_mset (p, f, ctx, block, k) C"
  shows "ledger (x\<lparr>checked := C, ready := add_mset (p, block, k) (ready x), r_wl := static_write f ctx k (r_wl x)\<rparr>)"
  using assms by (fastforce simp: ledger_defs static_write_def nth_list_update)

lemma ledger_send:
  assumes x: "ledger x" "ready x = add_mset (p, block, k) R" "mbox_of p (r_wl x) = Some q" "os_queue_send (Static k) q = (True, q')"
  shows "ledger (x\<lparr>ready := R, counting := add_mset k (counting x), r_wl := set_mbox p q' (r_wl x)\<rparr>)"
proof -
  have r: "unat (mbox_id p) < length (task_mbox (r_wl x))" "k < 9" using x(1,2) by (auto simp: ledger_def pending_ok_def)
  note q = queued_enqueue [OF r(1) x(3), of _ "Static k"]
  show ?thesis using x(1,2) r post_send(4) [OF x(4)] by (auto simp: ledger_defs q)
qed

lemma ledger_give_up:
  assumes "ledger x" "ready x = add_mset (p, True, k) R"
  shows "ledger (x\<lparr>ready := R, counting := add_mset k (counting x), lost := (lost x)(k := lost x k + 1)\<rparr>)"
  using assms by (auto simp: ledger_defs)

lemma ledger_count:
  assumes "ledger x" "counting x = add_mset (unat msg_id) K"
  shows "ledger (x\<lparr>counting := K, r_wl := callback_static_count msg_id (r_wl x)\<rparr>)"
  using assms by (auto simp: ledger_defs callback_static_count_def Let_def nth_list_update algebra_simps)

text \<open>A step that touches one heap message only.\<close>

definition posted :: "wl_run \<Rightarrow> nat \<Rightarrow> nat" where
  "posted x a = count (image_mset (snd \<circ> snd) (posting x)) a"

lemma ledger_cell:
  assumes "ledger x" "pending_ok x'" "wl_msg (r_wl x') = wl_msg (r_wl x)" "counting x' = counting x" "lost x' = lost x"
    and "\<And>k. held (Static k) x' = held (Static k) x"
    and "\<And>b. b \<noteq> a \<Longrightarrow> held (Heap b) x' = held (Heap b) x \<and> posted x' b = posted x b \<and>
      (b \<in> leaked x' \<longleftrightarrow> b \<in> leaked x) \<and> heap (r_wl x') b = heap (r_wl x) b"
    and "cell_balanced x' a"
  shows "ledger x'"
proof -
  have "cell_balanced x' b" for b
    using assms(1,8) assms(7) [of b] by (cases "b = a") (simp_all add: ledger_def cell_balanced_def posted_def)
  then show ?thesis using assms(1-6) by (simp add: ledger_def slot_balanced_def)
qed

lemma cell_balancedD:
  assumes "ledger x"
  shows "held (Heap a) x + posted x a + (if a \<in> leaked x then 1 else 0) = (if heap (r_wl x) a = None then 0 else 1)"
    "heap (r_wl x) a = Some y \<Longrightarrow> m_type y \<in> {TASK_MSG_CALLBACK, TASK_MSG_TIMEOUT, TASK_MSG_UNTIMEOUT}"
proof -
  have "cell_balanced x a" using assms by (simp add: ledger_def)
  then show "held (Heap a) x + posted x a + (if a \<in> leaked x then 1 else 0) = (if heap (r_wl x) a = None then 0 else 1)"
    "heap (r_wl x) a = Some y \<Longrightarrow> m_type y \<in> {TASK_MSG_CALLBACK, TASK_MSG_TIMEOUT, TASK_MSG_UNTIMEOUT}"
    by (simp_all add: cell_balanced_def posted_def)
qed

lemma cell_balancedI:
  assumes "held (Heap a) x + posted x a + (if a \<in> leaked x then 1 else 0) = (if heap (r_wl x) a = None then 0 else 1)"
    "\<And>y. heap (r_wl x) a = Some y \<Longrightarrow> m_type y \<in> {TASK_MSG_CALLBACK, TASK_MSG_TIMEOUT, TASK_MSG_UNTIMEOUT}"
  shows "cell_balanced x a"
  using assms by (simp add: cell_balanced_def posted_def)

lemma posted_add: "posting x = add_mset (p, block, a) P \<Longrightarrow> posted x b = posted (x\<lparr>posting := P\<rparr>) b + (if b = a then 1 else 0)"
  by (simp add: posted_def)

lemma ledger_alloc:
  assumes "ledger x" "unat (mbox_id p) < length (task_mbox (r_wl x))" "heap (r_wl x) a = None" "heap_request block y"
  shows "ledger (x\<lparr>posting := add_mset (p, block, a) (posting x), r_wl := (r_wl x)\<lparr>heap := (heap (r_wl x))(a \<mapsto> y)\<rparr>\<rparr>)" (is "ledger ?x")
proof (rule ledger_cell [OF assms(1)])
  show "pending_ok ?x" using assms(1,2) by (auto simp: ledger_def pending_ok_def)
  show "cell_balanced ?x a" using cell_balancedD(1) [OF assms(1), of a] assms(3,4)
    by (intro cell_balancedI) (auto simp: held_def posted_def heap_request_def split: if_splits)
qed (simp_all add: held_def posted_def)

lemma ledger_heap_send:
  assumes x: "ledger x" "posting x = add_mset (p, block, a) P" "mbox_of p (r_wl x) = Some q" "os_queue_send (Heap a) q = (True, q')"
  shows "ledger (x\<lparr>posting := P, r_wl := set_mbox p q' (r_wl x)\<rparr>)" (is "ledger ?x")
proof -
  have r: "unat (mbox_id p) < length (task_mbox (r_wl x))" using x(1,2) by (auto simp: ledger_def pending_ok_def)
  have q: "queued m (set_mbox p q' (r_wl x)) = queued m (r_wl x) + (if Heap a = m then 1 else 0)" for m
    unfolding post_send(4) [OF x(4) TrueI] by (rule queued_enqueue [OF r x(3)])
  show ?thesis
  proof (rule ledger_cell [OF x(1)])
    show "pending_ok ?x" using x(1,2) by (auto simp: ledger_def pending_ok_def)
    show "cell_balanced ?x a"
      using cell_balancedD [OF x(1), of a] posted_add [OF x(2), of a] by (intro cell_balancedI) (simp_all add: held_def q posted_def)
  qed (use posted_add [OF x(2)] in \<open>simp_all add: held_def q posted_def\<close>)
qed

lemma ledger_heap_refused:
  assumes x: "ledger x" "posting x = add_mset (p, False, a) P"
  shows "ledger (x\<lparr>posting := P, r_wl := free_msg (Heap a) (r_wl x)\<rparr>)" (is "ledger ?x")
proof (rule ledger_cell [OF x(1)])
  show "pending_ok ?x" using x by (auto simp: ledger_def pending_ok_def free_msg_def)
  show "cell_balanced ?x a"
    using cell_balancedD(1) [OF x(1), of a] posted_add [OF x(2), of a]
    by (intro cell_balancedI) (simp_all add: held_def posted_def free_msg_def split: if_splits)
qed (use posted_add [OF x(2)] in \<open>simp_all add: held_def posted_def free_msg_def\<close>)

lemma ledger_heap_give_up:
  assumes x: "ledger x" "posting x = add_mset (p, True, a) P"
  shows "ledger (x\<lparr>posting := P, leaked := insert a (leaked x)\<rparr>)" (is "ledger ?x")
proof (rule ledger_cell [OF x(1)])
  show "pending_ok ?x" using x by (auto simp: ledger_def pending_ok_def)
  show "cell_balanced ?x a"
    using cell_balancedD [OF x(1), of a] posted_add [OF x(2), of a]
    by (intro cell_balancedI) (simp_all add: held_def posted_def split: if_splits)
qed (use posted_add [OF x(2)] in \<open>simp_all add: held_def posted_def\<close>)

lemma ledger_take:
  assumes x: "ledger x" "unat (mbox_id p) < length (task_mbox (r_wl x))" "mbox_of p (r_wl x) = Some q" "items q = m # ms"
  shows "ledger (x\<lparr>taken := add_mset (p, m) (taken x), r_wl := set_mbox p (q\<lparr>items := ms\<rparr>) (r_wl x)\<rparr>)"
proof -
  let ?x = "x\<lparr>taken := add_mset (p, m) (taken x), r_wl := set_mbox p (q\<lparr>items := ms\<rparr>) (r_wl x)\<rparr>"
  have h: "held n ?x = held n x" for n
    using queued_dequeue [OF x(2-4), of n] by (auto simp: held_def split: if_splits)
  show ?thesis using x(1) by (simp add: ledger_def pending_ok_def slot_balanced_def cell_balanced_def h)
qed

text \<open>A message that a task holds exists and has a type that the task handles.\<close>

lemma ledger_taken:
  assumes "ledger x" "(p, m) \<in># taken x"
  shows "(\<exists>k<9. m = Static k \<and> m_type (wl_msg (r_wl x) ! k) = TASK_MSG_CALLBACK_STATIC) \<or>
    (\<exists>a y. m = Heap a \<and> heap (r_wl x) a = Some y \<and> m_type y \<in> {TASK_MSG_CALLBACK, TASK_MSG_TIMEOUT, TASK_MSG_UNTIMEOUT})"
proof -
  have "m \<in># image_mset snd (taken x)" using assms(2) by force
  then have pos: "0 < held m x" unfolding held_def by (simp only: count_greater_zero_iff add_gr_0 simp_thms)
  show ?thesis
  proof (cases m)
    case (Static k)
    then have "k < 9" using pos assms(1) by (cases "k < 9") (auto simp: ledger_def)
    then show ?thesis using pos Static assms(1) by (auto simp: ledger_def slot_balanced_def)
  next
    case (Heap a)
    have "cell_balanced x a" using assms(1) by (simp add: ledger_def)
    then show ?thesis using pos Heap by (auto simp: cell_balanced_def split: if_splits)
  qed
qed

lemma ledger_handle_static:
  assumes "ledger x" "taken x = add_mset (p, Static k) T" "k < 9"
  shows "ledger (x\<lparr>taken := T, r_wl := put_msg (Static k) ((wl_msg (r_wl x) ! k)\<lparr>m_cnt := m_cnt (wl_msg (r_wl x) ! k) - 1\<rparr>) (r_wl x), r_tt := tt'\<rparr>)"
  using assms by (auto simp: ledger_defs put_msg_def nth_list_update algebra_simps)

lemma ledger_handle_heap:
  assumes x: "ledger x" "taken x = add_mset (p, Heap a) T"
  shows "ledger (x\<lparr>taken := T, r_wl := free_msg (Heap a) (r_wl x), r_tt := tt'\<rparr>)" (is "ledger ?x")
proof (rule ledger_cell [OF x(1)])
  have h: "held m x = held m ?x + (if m = Heap a then 1 else 0)" for m by (simp add: held_def x(2) free_msg_def)
  show "pending_ok ?x" using x(1) by (simp add: ledger_def pending_ok_def free_msg_def)
  show "cell_balanced ?x a"
    using cell_balancedD(1) [OF x(1), of a] h [of "Heap a"]
    by (intro cell_balancedI) (simp_all add: posted_def free_msg_def split: if_splits)
  show "held (Static k) ?x = held (Static k) x" for k using h [of "Static k"] by simp
  show "held (Heap b) ?x = held (Heap b) x \<and> posted ?x b = posted x b \<and> (b \<in> leaked ?x \<longleftrightarrow> b \<in> leaked x) \<and>
    heap (r_wl ?x) b = heap (r_wl x) b" if "b \<noteq> a" for b
    using h [of "Heap b"] that by (simp add: posted_def free_msg_def)
qed (simp_all add: free_msg_def)

lemma ledger_handle:
  assumes x: "ledger x" "taken x = add_mset (p, m) T" and d: "task_dispatch mem p m (r_wl x, r_tt x) = Some (r, s', tt')"
  shows "ledger (x\<lparr>taken := T, r_wl := s', r_tt := tt'\<rparr>)"
proof -
  have "(p, m) \<in># taken x" by (simp add: x(2))
  from ledger_taken [OF x(1) this] show ?thesis
  proof (elim disjE exE conjE)
    fix k assume k: "k < 9" "m = Static k" "m_type (wl_msg (r_wl x) ! k) = TASK_MSG_CALLBACK_STATIC"
    then have "s' = put_msg (Static k) ((wl_msg (r_wl x) ! k)\<lparr>m_cnt := m_cnt (wl_msg (r_wl x) ! k) - 1\<rparr>) (r_wl x)"
      using d by (auto simp: task_dispatch_def msg_at_def split: if_splits)
    then show ?thesis using ledger_handle_static [OF x(1)] x(2) k by simp
  next
    fix a y assume h: "m = Heap a" "heap (r_wl x) a = Some y" "m_type y \<in> {TASK_MSG_CALLBACK, TASK_MSG_TIMEOUT, TASK_MSG_UNTIMEOUT}"
    then have "s' = free_msg (Heap a) (r_wl x)"
      using d by (auto simp: task_dispatch_def msg_at_def split: option.splits)
    then show ?thesis using ledger_handle_heap [OF x(1)] x(2) h by simp
  qed
qed

lemma ledger_step: "wl_pre x x' \<Longrightarrow> ledger x \<Longrightarrow> ledger x'"
proof (induction rule: wl_pre.induct)
  case (Check msg_id x p f ctx block)
  then show ?case by (auto simp: ledger_defs)
next
  case (Invalid x p f ctx block k C)
  then show ?case by (auto simp: ledger_defs)
next
  case (Refused x p k R q q')
  then show ?case by (auto simp: ledger_defs)
next
  case (Timers x tt')
  then show ?case by (simp add: ledger_defs)
qed (blast intro: ledger_run ledger_write ledger_send ledger_give_up ledger_count ledger_alloc ledger_heap_send
    ledger_heap_refused ledger_heap_give_up ledger_take ledger_handle)+

lemma wl_runs_ledger: "wl_runs x \<Longrightarrow> ledger x"
  by (induction rule: wl_runs.induct) (auto simp: ledger_start intro: ledger_step)

section \<open>Two clients of one static message\<close>

text \<open>Both find the count zero before either of them has sent the message, both send it, one has counted.\<close>

definition ex_box :: "msg_ref list \<Rightarrow> os_queue option list" where
  "ex_box ms = Some \<lparr>room = 4, items = ms\<rparr> # replicate 7 None"

definition ex_slots :: "u32 \<Rightarrow> u8 \<Rightarrow> task_msg list" where
  "ex_slots f c = (replicate 9 zero_msg)[3 := zero_msg\<lparr>m_type := TASK_MSG_CALLBACK_STATIC, m_fun := f, m_ctx := 7, m_cnt := c\<rparr>]"

definition ex_race :: wl_run where
  "ex_race = (idle_run \<lparr>task_mbox = ex_box [Static 3, Static 3], wl_msg = ex_slots 200 1, heap = Map.empty\<rparr> [] (\<lambda>_. 0) {})\<lparr>counting := {#3#}\<rparr>"

lemma ex_box_new: "(replicate 8 None)[0 := Some \<lparr>room = 4, items = ms\<rparr>] = ex_box ms"
  by (simp add: ex_box_def numeral_eq_Suc)

lemma ex_race_runs: "wl_runs ex_race"
proof -
  let ?id = "\<lambda>ms w. idle_run \<lparr>task_mbox = ex_box ms, wl_msg = w, heap = Map.empty\<rparr> [] (\<lambda>_. 0) {}"
  let ?c = "\<lambda>f. (ex_task, f, 7, True, 3) :: task_parameter \<times> u32 \<times> u32 \<times> bool \<times> nat"
  let ?r = "(ex_task, True, 3) :: task_parameter \<times> bool \<times> nat"
  let ?x1 = "?id [] (wl_msg wl_reset)"
  let ?x2 = "?x1\<lparr>checked := {#?c 100#}\<rparr>" and ?x3 = "?x1\<lparr>checked := {#?c 100, ?c 200#}\<rparr>"
  let ?x4 = "(?id [] (ex_slots 100 0))\<lparr>checked := {#?c 200#}, ready := {#?r#}\<rparr>"
  let ?x5 = "(?id [] (ex_slots 200 0))\<lparr>ready := {#?r, ?r#}\<rparr>"
  let ?x6 = "(?id [Static 3] (ex_slots 200 0))\<lparr>ready := {#?r#}, counting := {#3#}\<rparr>"
  let ?x7 = "(?id [Static 3, Static 3] (ex_slots 200 0))\<lparr>counting := {#3, 3#}\<rparr>"
  have 0: "wl_pre (idle_run wl_reset [] (\<lambda>_. 0) {}) ?x1"
    using wl_pre.Run [of True "ex_task\<lparr>mbox_size := 4\<rparr>" "idle_run wl_reset [] (\<lambda>_. 0) {}"]
    by (simp add: tls_wl_task_run_def tls_mbox_new_def ex_task_def wl_reset_def TLS_OS_SUCCESS_def idle_run_def ex_box_new)
  have 1: "wl_pre ?x1 ?x2" using wl_pre.Check [of 3 ?x1 ex_task 100 7 True]
    by (simp add: ex_task_def wl_reset_def ex_box_def zero_msg_def)
  have 2: "wl_pre ?x2 ?x3" using wl_pre.Check [of 3 ?x2 ex_task 200 7 True]
    by (simp add: ex_task_def wl_reset_def ex_box_def zero_msg_def add_mset_commute)
  have 3: "wl_pre ?x3 ?x4" using wl_pre.Write [of ?x3 ex_task 100 7 True 3 "{#?c 200#}"]
    by (simp add: ex_task_def wl_reset_def ex_box_def zero_msg_def static_write_def ex_slots_def idle_run_def)
  have 4: "wl_pre ?x4 ?x5" using wl_pre.Write [of ?x4 ex_task 200 7 True 3 "{#}"]
    by (simp add: ex_task_def ex_box_def static_write_def ex_slots_def idle_run_def zero_msg_def)
  have 5: "wl_pre ?x5 ?x6" using wl_pre.Send [of ?x5 ex_task True 3 "{#?r#}" "\<lparr>room = 4, items = []\<rparr>"]
    by (simp add: ex_task_def ex_box_def os_queue_send_def idle_run_def)
  have 6: "wl_pre ?x6 ?x7" using wl_pre.Send [of ?x6 ex_task True 3 "{#}" "\<lparr>room = 4, items = [Static 3]\<rparr>"]
    by (simp add: ex_task_def ex_box_def os_queue_send_def idle_run_def)
  have 7: "wl_pre ?x7 ex_race" using wl_pre.Count [of ?x7 3 "{#3#}"]
    by (simp add: callback_static_count_def ex_slots_def ex_race_def idle_run_def zero_msg_def)
  show ?thesis by (rule wl_runs.Step [OF _ 7] wl_runs.Step [OF _ 6] wl_runs.Step [OF _ 5] wl_runs.Step [OF _ 4] wl_runs.Step [OF _ 3]
      wl_runs.Step [OF _ 2] wl_runs.Step [OF _ 1] wl_runs.Step [OF _ 0] wl_runs.Start)+
qed

section \<open>Properties\<close>

text \<open>C26. The messages of the mailboxes are accounted for whatever the interleaving: clients preempted anywhere
  between the test of the count, the send and the increment, tasks preempted between fetching and handling
  a message, and posts that give up. For each static message the count, plus the increments still to
  come, is modulo 256 the number of its copies in the mailboxes and with the tasks plus the number of
  blocking posts that gave up. Each allocated heap message is in exactly one place: in one mailbox, with one
  task, with the client that is about to send it, or given up by a blocking post, which is the only
  leak; a free cell is in none. And a message that a task holds exists and has a type that the task
  handles, so that no message is freed twice or used after it was freed. (An increment or decrement of a
  count is one step here.)\<close>

theorem wl_messages_accounted:
  assumes "wl_runs x" "s = r_wl x"
  shows "(\<forall>k<9. m_cnt (wl_msg s ! k) + of_nat (count (counting x) k) =
      of_nat (queued (Static k) s + count (image_mset snd (taken x)) (Static k) + lost x k)) \<and>
    (\<forall>a. queued (Heap a) s + count (image_mset snd (taken x)) (Heap a) + count (image_mset (snd \<circ> snd) (posting x)) a +
        (if a \<in> leaked x then 1 else 0) = (if heap s a = None then 0 else 1)) \<and>
    (\<forall>p m. (p, m) \<in># taken x \<longrightarrow> (\<exists>y. msg_at m s = Some y \<and>
        m_type y \<in> (case m of Static k \<Rightarrow> {TASK_MSG_CALLBACK_STATIC} | Heap a \<Rightarrow> {TASK_MSG_CALLBACK, TASK_MSG_TIMEOUT, TASK_MSG_UNTIMEOUT})))"
proof -
  have l: "ledger x" by (rule wl_runs_ledger [OF assms(1)])
  then have "\<exists>y. msg_at m s = Some y \<and>
      m_type y \<in> (case m of Static k \<Rightarrow> {TASK_MSG_CALLBACK_STATIC} | Heap a \<Rightarrow> {TASK_MSG_CALLBACK, TASK_MSG_TIMEOUT, TASK_MSG_UNTIMEOUT})"
    if "(p, m) \<in># taken x" for p m
    using ledger_taken [OF l that] by (auto simp: assms(2) msg_at_def ledger_def pending_ok_def)
  then show ?thesis using l by (simp add: assms(2) ledger_def slot_balanced_def cell_balanced_def held_def)
qed

theorem wl_messages_accounted_witness:
  "\<exists>x. wl_runs x \<and> queued (Static 3) (r_wl x) = 2 \<and> counting x = {#3#} \<and> m_cnt (wl_msg (r_wl x) ! 3) + 1 = 2"
proof -
  have "queued (Static 3) (r_wl ex_race) = 2"
    by (simp add: ex_race_def queued_def ex_box_def box_count_def numeral_eq_Suc)
  moreover have "counting ex_race = {#3#}" "taken ex_race = {#}" "lost ex_race = (\<lambda>_. 0)"
    by (simp_all add: ex_race_def)
  ultimately show ?thesis
    using conjunct1 [OF wl_messages_accounted [OF ex_race_runs refl], rule_format, of 3] ex_race_runs by force
qed

end
