(* ===== verification/Uart_Ring.thy ===== *)
theory Uart_Ring
  imports Mcu_Prelude
begin

text \<open>
  The receive ring buffer of the UART driver: \<^verbatim>\<open>struct tls_uart_circ_buf\<close> with the macros \<^verbatim>\<open>CIRC_CNT\<close> and
  \<^verbatim>\<open>CIRC_SPACE\<close> of \<^verbatim>\<open>include/driver/wm_uart.h\<close>, the store of one byte and the copy loop of
  \<^verbatim>\<open>tls_uart_read\<close> of \<^verbatim>\<open>platform/drivers/uart/wm_uart.c\<close>. The ring has 512 places, indices are 32-bit words; it
  refines a queue of at most 511 bytes, the contract of the locale \<open>byte_queue\<close>.
\<close>

unbundle bit_operations_syntax

section \<open>Ring\<close>

record tls_uart_circ_buf =
  r_buf :: "u8 list"
  r_head :: u32
  r_tail :: u32

abbreviation (input) "TLS_UART_RX_BUF_SIZE \<equiv> 512 :: u32"

definition CIRC_CNT :: "u32 \<Rightarrow> u32 \<Rightarrow> u32" where
  "CIRC_CNT h t = (h - t) AND (TLS_UART_RX_BUF_SIZE - 1)"

definition CIRC_SPACE :: "u32 \<Rightarrow> u32 \<Rightarrow> u32" where
  "CIRC_SPACE h t = CIRC_CNT t (h + 1)"

text \<open>\<^verbatim>\<open>recv->buf[recv->head] = ch; recv->head = (recv->head + 1) & (TLS_UART_RX_BUF_SIZE - 1);\<close>\<close>

definition ring_put :: "u8 \<Rightarrow> tls_uart_circ_buf \<Rightarrow> tls_uart_circ_buf" where
  "ring_put ch r =
     r\<lparr>r_buf := (r_buf r)[unat (r_head r) := ch], r_head := (r_head r + 1) AND (TLS_UART_RX_BUF_SIZE - 1)\<rparr>"

text \<open>\<^verbatim>\<open>recv->tail = (recv->tail + n) & (TLS_UART_RX_BUF_SIZE - 1);\<close>\<close>

definition ring_skip :: "u32 \<Rightarrow> tls_uart_circ_buf \<Rightarrow> tls_uart_circ_buf" where
  "ring_skip n r = r\<lparr>r_tail := (r_tail r + n) AND (TLS_UART_RX_BUF_SIZE - 1)\<rparr>"

text \<open>The copy of \<^verbatim>\<open>tls_uart_read\<close>, in two parts when it runs over the end of the ring.\<close>

definition ring_read :: "u16 \<Rightarrow> tls_uart_circ_buf \<Rightarrow> u8 list \<times> tls_uart_circ_buf" where
  "ring_read readsize r =
     (let data_cnt = CIRC_CNT (r_head r) (r_tail r);
          buflen = (if ucast readsize \<le> data_cnt then ucast readsize else data_cnt);
          out = (if TLS_UART_RX_BUF_SIZE < r_tail r + buflen
                 then let bufcopylen = TLS_UART_RX_BUF_SIZE - r_tail r
                      in take (unat bufcopylen) (drop (unat (r_tail r)) (r_buf r)) @ take (unat (buflen - bufcopylen)) (r_buf r)
                 else take (unat buflen) (drop (unat (r_tail r)) (r_buf r)))
      in (out, ring_skip buflen r))"

section \<open>Index arithmetic\<close>

definition ring_ok :: "tls_uart_circ_buf \<Rightarrow> bool" where
  "ring_ok r \<longleftrightarrow> length (r_buf r) = 512 \<and> unat (r_head r) < 512 \<and> unat (r_tail r) < 512"

text \<open>The bytes in the ring, oldest first.\<close>

definition ring_cnt :: "tls_uart_circ_buf \<Rightarrow> nat" where
  "ring_cnt r = (unat (r_head r) + 512 - unat (r_tail r)) mod 512"

definition ring_bytes :: "tls_uart_circ_buf \<Rightarrow> u8 list" where
  "ring_bytes r = map (\<lambda>i. r_buf r ! ((unat (r_tail r) + i) mod 512)) [0..<ring_cnt r]"

lemma mod_512: "a = b + 512 \<Longrightarrow> b < 512 \<Longrightarrow> a mod 512 = b" for a b :: nat
  by simp

lemma ring_put_arith:
  fixes h t :: nat
  assumes "h < 512" "t < 512"
  shows "((h + 1) mod 512 + 512 - t) mod 512 = ((h + 512 - t) mod 512 + 1) mod 512"
proof -
  have "(h + 1) mod 512 + 512 - t = (h + 1) mod 512 + (512 - t)" using assms by simp
  moreover have "h + 512 - t = h + (512 - t)" using assms by simp
  ultimately show ?thesis by (simp add: mod_simps)
qed

lemma ring_skip_arith:
  fixes h t n :: nat
  assumes "h < 512" "t < 512" "n \<le> (h + 512 - t) mod 512"
  shows "(h + 512 - (t + n) mod 512) mod 512 = (h + 512 - t) mod 512 - n"
proof -
  consider "t + n \<le> h" "(h + 512 - t) mod 512 = h - t" | "h < t" "t + n < 512" "(h + 512 - t) mod 512 = h + 512 - t"
    | "h < t" "512 \<le> t + n" "t + n - 512 \<le> h" "(h + 512 - t) mod 512 = h + 512 - t"
  proof (cases "t \<le> h")
    case True
    then have "(h + 512 - t) mod 512 = h - t" using assms(1) by (intro mod_512) simp_all
    then show ?thesis using that(1) assms(3) True by simp
  next
    case False
    then have "(h + 512 - t) mod 512 = h + 512 - t" by simp
    moreover from this have "t + n - 512 \<le> h" using assms(2,3) by simp
    ultimately show ?thesis using that(2,3) False by (cases "t + n < 512") simp_all
  qed
  then show ?thesis
  proof cases
    case 1
    then have "(h + 512 - (t + n)) mod 512 = h - (t + n)" using assms(1) by (intro mod_512) simp_all
    then show ?thesis using 1 assms(1) by simp
  next
    case 2
    then show ?thesis by simp
  next
    case 3
    then have "(t + n) mod 512 = t + n - 512" using assms by (simp add: mod_if)
    moreover have "(h + 512 - (t + n - 512)) mod 512 = h - (t + n - 512)" using 3 assms(1) by (intro mod_512) simp_all
    ultimately show ?thesis using 3 assms(1) by simp
  qed
qed

lemma ring_index_free:
  fixes h t i :: nat
  assumes "h < 512" "t < 512" "i < (h + 512 - t) mod 512"
  shows "(t + i) mod 512 \<noteq> h"
proof
  assume "(t + i) mod 512 = h"
  then have "(h + 512 - t) mod 512 = ((t + i) mod 512 + (512 - t)) mod 512" using assms(2) by simp
  also have "\<dots> = (t + i + (512 - t)) mod 512" by (simp add: mod_simps)
  also have "\<dots> = (i + 512) mod 512" using assms(2) by (simp add: add.commute)
  also have "\<dots> = i mod 512" by simp
  finally have "i < i mod 512" using assms(3) by simp
  then show False by (meson mod_less_eq_dividend not_less)
qed

lemma ring_index_head:
  fixes h t :: nat
  assumes "h < 512" "t < 512"
  shows "(t + (h + 512 - t) mod 512) mod 512 = h"
proof -
  have "(t + (h + 512 - t) mod 512) mod 512 = (t + (h + 512 - t)) mod 512" by (simp add: mod_simps)
  also have "t + (h + 512 - t) = h + 512" using assms(2) by simp
  finally show ?thesis using assms(1) by simp
qed

lemma ring_space_arith:
  fixes h t :: nat
  assumes "h < 512" "t < 512"
  shows "(t + 512 - (h + 1)) mod 512 = 511 - (h + 512 - t) mod 512"
proof (cases "t \<le> h")
  case True
  then have "(h + 512 - t) mod 512 = h - t" using assms(1) by (intro mod_512) simp_all
  then show ?thesis using True assms by simp
next
  case False
  then have "(t + 512 - (h + 1)) mod 512 = t - (h + 1)" using assms by (intro mod_512) simp_all
  then show ?thesis using False assms by simp
qed

lemma unat_and_511 [simp]: "unat (x AND 511) = unat x mod 512" for x :: u32
proof -
  have "(511 :: u32) = mask 9" by (simp add: mask_eq_exp_minus_1)
  then have "x AND 511 = take_bit 9 x" by (simp only: take_bit_eq_mask)
  then show ?thesis by (simp only: unsigned_take_bit_eq) (simp add: take_bit_eq_mod)
qed

lemma unat_add_512: "unat (x + y) mod 512 = (unat x + unat y) mod 512" for x y :: u32
  by (simp add: unat_word_ariths mod_mod_cancel)

lemma circ_cnt:
  assumes "unat t \<le> 512"
  shows "unat (CIRC_CNT h t) = (unat h + 512 - unat t) mod 512"
proof -
  have "unat (h - t) mod 512 = (unat h + 512 - unat t) mod 512"
  proof (cases "unat t \<le> unat h")
    case True
    then have "unat h + 512 - unat t = unat (h - t) + 512" by (simp add: unat_sub_if_size)
    then show ?thesis by simp
  next
    case False
    then have "unat (h - t) = (unat h + 512 - unat t) + 8388607 * 512"
      using assms by (simp add: unat_sub_if_size word_size)
    then show ?thesis by (simp only: mod_mult_self1)
  qed
  then show ?thesis by (simp add: CIRC_CNT_def)
qed

lemma ring_cnt_less: "ring_cnt r < 512"
  by (simp add: ring_cnt_def)

lemma circ_cnt_ring: "ring_ok r \<Longrightarrow> unat (CIRC_CNT (r_head r) (r_tail r)) = ring_cnt r"
  by (simp add: circ_cnt ring_cnt_def ring_ok_def)

lemma length_ring_bytes [simp]: "length (ring_bytes r) = ring_cnt r"
  by (simp add: ring_bytes_def)

lemma head_after_cnt:
  assumes "ring_ok r"
  shows "(unat (r_tail r) + ring_cnt r) mod 512 = unat (r_head r)"
  unfolding ring_cnt_def by (rule ring_index_head) (use assms in \<open>simp_all add: ring_ok_def\<close>)

lemma circ_space:
  assumes "ring_ok r"
  shows "unat (CIRC_SPACE (r_head r) (r_tail r)) = 511 - ring_cnt r"
proof -
  have h: "unat (r_head r + 1) = unat (r_head r) + 1"
    using assms by (subst unat_add_lem [THEN iffD1]) (simp_all add: ring_ok_def)
  have "unat (CIRC_SPACE (r_head r) (r_tail r)) = (unat (r_tail r) + 512 - (unat (r_head r) + 1)) mod 512"
    unfolding CIRC_SPACE_def using assms by (subst circ_cnt) (simp_all add: h ring_ok_def)
  also have "\<dots> = 511 - ring_cnt r"
    unfolding ring_cnt_def by (rule ring_space_arith) (use assms in \<open>simp_all add: ring_ok_def\<close>)
  finally show ?thesis .
qed

lemma ring_put_ok: "ring_ok r \<Longrightarrow> ring_ok (ring_put ch r)"
  by (simp add: ring_ok_def ring_put_def)

lemma ring_skip_ok: "ring_ok r \<Longrightarrow> ring_ok (ring_skip n r)"
  by (simp add: ring_ok_def ring_skip_def)

lemma ring_put_indices:
  "unat (r_head (ring_put ch r)) = (unat (r_head r) + 1) mod 512" "r_tail (ring_put ch r) = r_tail r"
  "r_buf (ring_put ch r) = (r_buf r)[unat (r_head r) := ch]"
  using unat_add_512 [of "r_head r" 1] by (simp_all add: ring_put_def)

lemma ring_skip_indices:
  "unat (r_tail (ring_skip n r)) = (unat (r_tail r) + unat n) mod 512" "r_head (ring_skip n r) = r_head r"
  "r_buf (ring_skip n r) = r_buf r"
  using unat_add_512 [of "r_tail r" n] by (simp_all add: ring_skip_def)

lemma ring_cnt_put:
  assumes "ring_ok r"
  shows "ring_cnt (ring_put ch r) = (ring_cnt r + 1) mod 512"
  unfolding ring_cnt_def ring_put_indices by (rule ring_put_arith) (use assms in \<open>simp_all add: ring_ok_def\<close>)

lemma ring_cnt_skip:
  assumes "ring_ok r" "unat n \<le> ring_cnt r"
  shows "ring_cnt (ring_skip n r) = ring_cnt r - unat n"
  unfolding ring_cnt_def ring_skip_indices
  by (rule ring_skip_arith) (use assms in \<open>simp_all add: ring_ok_def ring_cnt_def\<close>)

lemma ring_bytes_put:
  assumes "ring_ok r" "ring_cnt r < 511"
  shows "ring_bytes (ring_put ch r) = ring_bytes r @ [ch]"
proof -
  have "(r_buf r)[unat (r_head r) := ch] ! ((unat (r_tail r) + i) mod 512) = r_buf r ! ((unat (r_tail r) + i) mod 512)"
    if "i < ring_cnt r" for i
  proof -
    have "(unat (r_tail r) + i) mod 512 \<noteq> unat (r_head r)"
      by (rule ring_index_free) (use assms(1) that in \<open>simp_all add: ring_ok_def ring_cnt_def\<close>)
    then show ?thesis by simp
  qed
  moreover have "(r_buf r)[unat (r_head r) := ch] ! ((unat (r_tail r) + ring_cnt r) mod 512) = ch"
    using assms(1) head_after_cnt [OF assms(1)] by (simp add: ring_ok_def)
  ultimately show ?thesis
    using assms ring_cnt_put [OF assms(1), of ch] by (simp add: ring_bytes_def ring_put_indices)
qed

lemma ring_bytes_put_full:
  assumes "ring_ok r" "ring_cnt r = 511"
  shows "ring_bytes (ring_put ch r) = []"
  using ring_cnt_put [OF assms(1), of ch] assms(2) by (simp add: ring_bytes_def)

lemma ring_bytes_skip:
  assumes "ring_ok r" "unat n \<le> ring_cnt r"
  shows "ring_bytes (ring_skip n r) = drop (unat n) (ring_bytes r)"
proof (rule nth_equalityI)
  show "length (ring_bytes (ring_skip n r)) = length (drop (unat n) (ring_bytes r))"
    by (simp add: ring_cnt_skip [OF assms])
  fix i assume "i < length (ring_bytes (ring_skip n r))"
  then have "i < ring_cnt r - unat n" "unat n + i < ring_cnt r" using assms by (simp_all add: ring_cnt_skip)
  then show "ring_bytes (ring_skip n r) ! i = drop (unat n) (ring_bytes r) ! i"
    using assms by (simp add: ring_cnt_skip ring_bytes_def ring_skip_indices mod_simps add.assoc)
qed

lemma unat_ucast_u16: "unat (ucast n :: u32) = unat n" for n :: u16
proof -
  have "unat n < 65536" using unsigned_less [of n] by simp
  then show ?thesis by (simp add: unsigned_ucast_eq take_bit_nat_eq_self)
qed

lemma ring_bytes_unroll:
  assumes "ring_ok r" "k \<le> ring_cnt r"
  shows "take k (ring_bytes r) = take k (drop (unat (r_tail r)) (r_buf r) @ r_buf r)"
proof (rule nth_equalityI)
  show "length (take k (ring_bytes r)) = length (take k (drop (unat (r_tail r)) (r_buf r) @ r_buf r))"
    using assms ring_cnt_less [of r] by (auto simp: ring_ok_def min_def)
  fix i assume "i < length (take k (ring_bytes r))"
  then have i: "i < k" "i < ring_cnt r" using assms by simp_all
  have ok: "unat (r_tail r) < 512" "length (r_buf r) = 512" using assms by (simp_all add: ring_ok_def)
  show "take k (ring_bytes r) ! i = take k (drop (unat (r_tail r)) (r_buf r) @ r_buf r) ! i"
  proof (cases "unat (r_tail r) + i < 512")
    case True
    then have "i < 512 - unat (r_tail r)" by simp
    then show ?thesis using True i ok by (simp add: ring_bytes_def nth_append)
  next
    case False
    then have "(unat (r_tail r) + i) mod 512 = unat (r_tail r) + i - 512"
      using i ok ring_cnt_less [of r] by (intro mod_512) simp_all
    moreover have "\<not> i < 512 - unat (r_tail r)" using False by simp
    ultimately show ?thesis using False i ok by (simp add: ring_bytes_def nth_append add.commute)
  qed
qed

lemma ring_read_spec:
  assumes "ring_ok r"
  shows "fst (ring_read n r) = take (unat n) (ring_bytes r)"
    and "ring_bytes (snd (ring_read n r)) = drop (unat n) (ring_bytes r)"
    and "ring_ok (snd (ring_read n r))"
proof -
  let ?d = "CIRC_CNT (r_head r) (r_tail r)" and ?t = "unat (r_tail r)"
  let ?b = "if ucast n \<le> ?d then ucast n else ?d"
  have d: "unat ?d = ring_cnt r" by (rule circ_cnt_ring [OF assms])
  have n: "unat (ucast n :: u32) = unat n" by (rule unat_ucast_u16)
  have b: "unat ?b = min (unat n) (ring_cnt r)" by (simp add: word_le_nat_alt d n min_def)
  have sk: "snd (ring_read n r) = ring_skip ?b r" by (simp add: ring_read_def Let_def)
  show "ring_ok (snd (ring_read n r))" unfolding sk by (rule ring_skip_ok [OF assms])
  show "ring_bytes (snd (ring_read n r)) = drop (unat n) (ring_bytes r)"
    unfolding sk using ring_bytes_skip [OF assms, of ?b] b by (simp add: min_def)
  have sum: "unat (r_tail r + ?b) = ?t + min (unat n) (ring_cnt r)"
    using assms ring_cnt_less [of r] by (subst unat_add_lem [THEN iffD1]) (auto simp: b ring_ok_def min_def)
  have "take (unat n) (ring_bytes r) = take (unat ?b) (ring_bytes r)" unfolding b by (simp add: min_def)
  also have "\<dots> = take (unat ?b) (drop ?t (r_buf r) @ r_buf r)" using assms b by (intro ring_bytes_unroll) simp_all
  also have "\<dots> = fst (ring_read n r)"
  proof (cases "512 < r_tail r + ?b")
    case True
    have ok: "?t < 512" "length (r_buf r) = 512" using assms by (simp_all add: ring_ok_def)
    have wrap: "512 < ?t + unat ?b" using True sum b by (simp add: word_less_nat_alt)
    have c: "unat (512 - r_tail r) = 512 - ?t" using ok by (subst unat_sub) (simp_all add: word_le_nat_alt)
    then have "unat (?b - (512 - r_tail r)) = unat ?b - (512 - ?t)" using wrap by (subst unat_sub) (simp_all add: word_le_nat_alt)
    then show ?thesis using True wrap ok c unfolding ring_read_def Let_def by simp
  next
    case False
    have ok: "?t < 512" "length (r_buf r) = 512" using assms by (simp_all add: ring_ok_def)
    have "?t + unat ?b \<le> 512" using False sum b by (simp add: word_less_nat_alt)
    then show ?thesis using False ok unfolding ring_read_def Let_def by simp
  qed
  finally show "fst (ring_read n r) = take (unat n) (ring_bytes r)" by simp
qed

section \<open>The contract of a byte queue\<close>

text \<open>A run of stores and reads: all bytes that were read, and the last state.\<close>

datatype ('b, 'n) qop = Put 'b | Get 'n

fun qrun :: "('b \<Rightarrow> 'r \<Rightarrow> 'r) \<Rightarrow> ('n \<Rightarrow> 'r \<Rightarrow> 'b list \<times> 'r) \<Rightarrow> ('b, 'n) qop list \<Rightarrow> 'r \<Rightarrow> 'b list \<times> 'r" where
  "qrun put get [] r = ([], r)"
| "qrun put get (Put b # ops) r = qrun put get ops (put b r)"
| "qrun put get (Get n # ops) r =
     (let (xs, r') = get n r; (ys, r'') = qrun put get ops r' in (xs @ ys, r''))"

text \<open>The bytes that a run stores, and that it never stores into a full queue.\<close>

fun stored :: "('b, 'n) qop list \<Rightarrow> 'b list" where
  "stored [] = []"
| "stored (Put b # ops) = b # stored ops"
| "stored (Get n # ops) = stored ops"

fun fits :: "nat \<Rightarrow> ('n \<Rightarrow> nat) \<Rightarrow> nat \<Rightarrow> ('b, 'n) qop list \<Rightarrow> bool" where
  "fits cap num len [] \<longleftrightarrow> True"
| "fits cap num len (Put b # ops) \<longleftrightarrow> len < cap \<and> fits cap num (len + 1) ops"
| "fits cap num len (Get n # ops) \<longleftrightarrow> fits cap num (len - num n) ops"

locale byte_queue =
  fixes ok :: "'r \<Rightarrow> bool" and contents :: "'r \<Rightarrow> 'b list" and put :: "'b \<Rightarrow> 'r \<Rightarrow> 'r"
    and get :: "'n \<Rightarrow> 'r \<Rightarrow> 'b list \<times> 'r" and num :: "'n \<Rightarrow> nat" and cap :: nat
  assumes put_ok: "ok r \<Longrightarrow> ok (put b r)"
    and put_contents: "ok r \<Longrightarrow> length (contents r) < cap \<Longrightarrow> contents (put b r) = contents r @ [b]"
    and get_ok: "ok r \<Longrightarrow> ok (snd (get n r))"
    and get_out: "ok r \<Longrightarrow> fst (get n r) = take (num n) (contents r)"
    and get_contents: "ok r \<Longrightarrow> contents (snd (get n r)) = drop (num n) (contents r)"
begin

lemma put_all:
  "ok r \<Longrightarrow> length (contents r) + length bs \<le> cap \<Longrightarrow>
    ok (fold put bs r) \<and> contents (fold put bs r) = contents r @ bs"
  by (induction bs arbitrary: r) (simp_all add: put_ok put_contents)

lemma fifo:
  assumes "ok r" "fits cap num (length (contents r)) ops"
  shows "contents r @ stored ops = fst (qrun put get ops r) @ contents (snd (qrun put get ops r))"
  using assms
proof (induction ops arbitrary: r)
  case (Cons a ops)
  show ?case
  proof (cases a)
    case (Put b)
    then show ?thesis using Cons.IH [of "put b r"] Cons.prems by (simp add: put_ok put_contents)
  next
    case (Get n)
    let ?r = "snd (get n r)"
    have "drop (num n) (contents r) @ stored ops = fst (qrun put get ops ?r) @ contents (snd (qrun put get ops ?r))"
      using Cons.IH [of ?r] Cons.prems Get by (simp add: get_ok get_contents)
    then have "contents r @ stored ops = take (num n) (contents r) @ fst (qrun put get ops ?r) @ contents (snd (qrun put get ops ?r))"
      by (metis append_assoc append_take_drop_id)
    then show ?thesis using Get get_out [OF Cons.prems(1), of n] by (simp add: case_prod_beta)
  qed
qed simp

end

interpretation ring: byte_queue ring_ok ring_bytes ring_put ring_read unat 511
  by unfold_locales (simp_all add: ring_put_ok ring_bytes_put ring_read_spec)


section \<open>Properties\<close>

text \<open>C17. The receive ring is a first-in first-out queue: over any run of stores and reads of any sizes
  that never stores a byte while 511 are waiting, the bytes read followed by those still in the ring
  are the bytes that were in it followed by those stored, wherever the indices start.\<close>

theorem uart_ring_fifo:
  assumes "ring_ok r" "fits 511 unat (length (ring_bytes r)) ops"
  shows "ring_bytes r @ stored ops = fst (qrun ring_put ring_read ops r) @ ring_bytes (snd (qrun ring_put ring_read ops r))"
  using assms by (rule ring.fifo)

theorem uart_ring_fifo_witness:
  "let r = \<lparr>r_buf = replicate 512 0, r_head = 511, r_tail = 511\<rparr>; ops = [Put 7, Put 8, Get 1, Put 9]
   in fst (qrun ring_put ring_read ops r) @ ring_bytes (snd (qrun ring_put ring_read ops r)) = [7, 8, 9]"
  using uart_ring_fifo [of "\<lparr>r_buf = replicate 512 0, r_head = 511, r_tail = 511\<rparr>" "[Put 7, Put 8, Get 1, Put 9]"]
  by (simp add: ring_ok_def ring_cnt_def ring_bytes_def Let_def del: qrun.simps)

end
