(* ===== verification/Uart.thy ===== *)
theory Uart
  imports Uart_Ring Dma
begin

text \<open>
  The UART driver, \<^verbatim>\<open>platform/drivers/uart/wm_uart.c\<close>: configuration of the line, the list of messages to
  send, the receive rings and the interrupt handlers of the six ports, and sending by DMA. What
  an interrupt handler reads from registers that the hardware changes is an argument: the
  FIFO status words, the received bytes and the space in the transmit FIFO. Bytes
  stored to the transmit window are collected per port. Calls of registered functions are recorded
  in the order they are made. \<open>None\<close> stands for an access outside an array.
\<close>

unbundle bit_operations_syntax

section \<open>Registers and state\<close>

abbreviation (input) "STEP_SIZE \<equiv> 0x200 :: nat"
abbreviation (input) "HR_UART0_BASE_ADDR \<equiv> 0x40010600 :: nat"
abbreviation "UR_LC b \<equiv> b + 0x00 :: nat"
abbreviation "UR_FC b \<equiv> b + 0x04 :: nat"
abbreviation "UR_DMAC b \<equiv> b + 0x08 :: nat"
abbreviation "UR_FIFOC b \<equiv> b + 0x0C :: nat"
abbreviation "UR_BD b \<equiv> b + 0x10 :: nat"
abbreviation "UR_INTM b \<equiv> b + 0x14 :: nat"
abbreviation "UR_INTS b \<equiv> b + 0x18 :: nat"
abbreviation "UR_TXW b \<equiv> b + 0x20 :: nat"

abbreviation (input) "ULCON_WL_MASK \<equiv> 0x03 :: u32"
abbreviation (input) "ULCON_STOP_2 \<equiv> 0x04 :: u32"
abbreviation (input) "ULCON_PMD_EN \<equiv> 0x08 :: u32"
abbreviation (input) "ULCON_PMD_EVEN \<equiv> 0x08 :: u32"
abbreviation (input) "ULCON_PMD_ODD \<equiv> 0x18 :: u32"
abbreviation (input) "ULCON_PMD_MASK \<equiv> 0x18 :: u32"
abbreviation (input) "ULCON_TX_EN \<equiv> 0x40 :: u32"
abbreviation (input) "ULCON_RX_EN \<equiv> 0x80 :: u32"
abbreviation (input) "UIS_RX_FIFO \<equiv> 0x04 :: u32"
abbreviation (input) "UIS_CTS_CHNG \<equiv> 0x10 :: u32"
abbreviation (input) "UIS_OVERRUN \<equiv> 0x100 :: u32"
abbreviation (input) "UART_RX_INT_FLAG \<equiv> 0x1EC :: u32"
abbreviation (input) "UART_RX_ERR_INT_FLAG \<equiv> 0xE0 :: u32"
abbreviation (input) "UART_TX_INT_FLAG \<equiv> 0x03 :: u32"
abbreviation (input) "UFS_CST_STS \<equiv> 0x1000 :: u32"
abbreviation (input) "UART0_IRQn \<equiv> 16 :: nat"
abbreviation (input) "UART24_IRQn \<equiv> 19 :: nat"
abbreviation (input) "WM_SUCCESS \<equiv> 0 :: int"
abbreviation (input) "WM_FAILED \<equiv> - 1 :: int"

datatype pmode = TLS_UART_PMODE_DISABLED | TLS_UART_PMODE_ODD | TLS_UART_PMODE_EVEN
  | TLS_UART_PMODE_MARK | TLS_UART_PMODE_SPACE

datatype chsize = TLS_UART_CHSIZE_5BIT | TLS_UART_CHSIZE_6BIT | TLS_UART_CHSIZE_7BIT | TLS_UART_CHSIZE_8BIT

datatype flow_ctrl_mode = TLS_UART_FLOW_CTRL_NONE | TLS_UART_FLOW_CTRL_HARDWARE

datatype rx_flag = TLS_UART_RX_DISABLE | TLS_UART_RX_ENABLE

datatype stopbits_mode = TLS_UART_ONE_STOPBITS | TLS_UART_TWO_STOPBITS

record tls_uart_options =
  baudrate :: u32
  charlength :: chsize
  paritytype :: pmode
  flow_ctrl :: flow_ctrl_mode
  stopbits :: stopbits_mode

record tls_uart_tx_msg =
  m_buf :: "u8 list"
  m_buflen :: u16
  m_offset :: u16

text \<open>A registered function: the driver's own release function, or one of the application.\<close>

datatype uart_fn = Free_tx_sent_data | App_fn nat

datatype uart_call = Rx_call nat u16 u32 | Tx_sent_call nat | Tx_call nat

record tls_uart_port =
  uart_no :: nat
  uart_irq_no :: nat
  plus_char_cnt :: u32
  opts :: tls_uart_options
  fcStatus :: flow_ctrl_mode
  rxstatus :: rx_flag
  tx_fifofull :: u32
  p_regs :: nat
  icount_tx :: u32
  recv :: tls_uart_circ_buf
  tx_msg_pending_list :: "tls_uart_tx_msg list"
  tx_msg_to_be_freed_list :: "tls_uart_tx_msg list"
  hw_stopped :: bool
  rx_callback :: "nat option"
  tx_callback :: "uart_fn option"
  tx_sent_callback :: "uart_fn option"
  tx_dma_on :: bool
  priv_data :: u32

record uart_state = dma_state +
  uart_port :: "tls_uart_port list"
  uart_rx_byte_cb_flag :: "u8 list"
  txw :: "nat \<Rightarrow> u8 list"
  uart_calls :: "uart_call list"

definition zero_opts :: tls_uart_options where
  "zero_opts = \<lparr>baudrate = 0, charlength = TLS_UART_CHSIZE_5BIT, paritytype = TLS_UART_PMODE_DISABLED,
     flow_ctrl = TLS_UART_FLOW_CTRL_NONE, stopbits = TLS_UART_ONE_STOPBITS\<rparr>"

text \<open>A port after \<^verbatim>\<open>memset\<close>; an empty \<open>r_buf\<close> is a ring without memory.\<close>

definition zero_port :: tls_uart_port where
  "zero_port = \<lparr>uart_no = 0, uart_irq_no = 0, plus_char_cnt = 0, opts = zero_opts, fcStatus = TLS_UART_FLOW_CTRL_NONE,
     rxstatus = TLS_UART_RX_DISABLE, tx_fifofull = 0, p_regs = 0, icount_tx = 0,
     recv = \<lparr>r_buf = [], r_head = 0, r_tail = 0\<rparr>, tx_msg_pending_list = [], tx_msg_to_be_freed_list = [],
     hw_stopped = False, rx_callback = None, tx_callback = None, tx_sent_callback = None, tx_dma_on = False, priv_data = 0\<rparr>"

abbreviation port_at :: "nat \<Rightarrow> 'a uart_state_scheme \<Rightarrow> tls_uart_port" where
  "port_at n s \<equiv> uart_port s ! n"

definition upd_port :: "nat \<Rightarrow> (tls_uart_port \<Rightarrow> tls_uart_port) \<Rightarrow> 'a uart_state_scheme \<Rightarrow> 'a uart_state_scheme" where
  "upd_port n f s = s\<lparr>uart_port := (uart_port s)[n := f (uart_port s ! n)]\<rparr>"

definition call :: "uart_call list \<Rightarrow> 'a uart_state_scheme \<Rightarrow> 'a uart_state_scheme" where
  "call cs s = s\<lparr>uart_calls := uart_calls s @ cs\<rparr>"

abbreviation base_of :: "nat \<Rightarrow> 'a uart_state_scheme \<Rightarrow> nat" where
  "base_of n s \<equiv> p_regs (port_at n s)"

section \<open>Sending\<close>

definition tls_uart_tx_enable :: "nat \<Rightarrow> 'a uart_state_scheme \<Rightarrow> 'a uart_state_scheme" where
  "tls_uart_tx_enable n s = reg_or (UR_LC (base_of n s)) ULCON_TX_EN s"

definition tls_uart_tx_disable :: "nat \<Rightarrow> 'a uart_state_scheme \<Rightarrow> 'a uart_state_scheme" where
  "tls_uart_tx_disable n s = reg_andn (UR_LC (base_of n s)) ULCON_TX_EN s"

text \<open>The loop of \<^verbatim>\<open>tls_uart_tx_chars\<close>: \<open>fifos k\<close> is the k-th value of \<^verbatim>\<open>UR_FIFOS\<close>; the result is the message and the
  bytes stored to \<^verbatim>\<open>UR_TXW\<close>.\<close>

fun tx_loop :: "(nat \<Rightarrow> u32) \<Rightarrow> u32 \<Rightarrow> nat \<Rightarrow> nat \<Rightarrow> tls_uart_tx_msg \<Rightarrow> tls_uart_tx_msg \<times> u8 list" where
  "tx_loop fifos full k 0 m = (m, [])"
| "tx_loop fifos full k (Suc c) m =
     (if m_offset m < m_buflen m \<and> fifos k AND 0x3F \<noteq> full
      then let (m', out) = tx_loop fifos full (k + 1) c (m\<lparr>m_offset := m_offset m + 1\<rparr>)
           in (m', m_buf m ! unat (m_offset m) # out)
      else (m, []))"

text \<open>\<^verbatim>\<open>tls_uart_free_tx_sent_data\<close>: every message of the list is released, with its buffer.\<close>

definition tls_uart_free_tx_sent_data :: "nat \<Rightarrow> 'a uart_state_scheme \<Rightarrow> 'a uart_state_scheme" where
  "tls_uart_free_tx_sent_data n s = upd_port n (\<lambda>p. p\<lparr>tx_msg_to_be_freed_list := []\<rparr>) s"

definition run_tx_fn :: "(nat \<Rightarrow> uart_call) \<Rightarrow> uart_fn option \<Rightarrow> nat \<Rightarrow> 'a uart_state_scheme \<Rightarrow> 'a uart_state_scheme" where
  "run_tx_fn mk f n s =
     (case f of None \<Rightarrow> s | Some Free_tx_sent_data \<Rightarrow> tls_uart_free_tx_sent_data n s | Some (App_fn a) \<Rightarrow> call [mk a] s)"

definition tls_uart_tx_chars :: "(nat \<Rightarrow> u32) \<Rightarrow> nat \<Rightarrow> 'a uart_state_scheme \<Rightarrow> 'a uart_state_scheme" where
  "tls_uart_tx_chars fifos n s =
     (let p = port_at n s
      in case tx_msg_pending_list p of
           [] \<Rightarrow> s
         | m # ms \<Rightarrow>
             let (m', out) = tx_loop fifos (tx_fifofull p) 0 32 m;
                 s = s\<lparr>txw := (txw s)(n := txw s n @ out)\<rparr>;
                 s = upd_port n (\<lambda>p. p\<lparr>icount_tx := icount_tx p + of_nat (length out)\<rparr>) s
             in if m_buflen m' \<le> m_offset m'
                then let s = upd_port n (\<lambda>p. p\<lparr>tx_msg_pending_list := ms,
                               tx_msg_to_be_freed_list := tx_msg_to_be_freed_list p @ [m']\<rparr>) s;
                         s = run_tx_fn Tx_sent_call (tx_sent_callback (port_at n s)) n s
                     in run_tx_fn Tx_call (tx_callback (port_at n s)) n s
                else upd_port n (\<lambda>p. p\<lparr>tx_msg_pending_list := m' # ms\<rparr>) s)"

text \<open>\<^verbatim>\<open>tls_uart_tx_chars_start\<close> has the same body.\<close>

definition tls_uart_tx_chars_start :: "(nat \<Rightarrow> u32) \<Rightarrow> nat \<Rightarrow> 'a uart_state_scheme \<Rightarrow> 'a uart_state_scheme" where
  "tls_uart_tx_chars_start fifos n s = tls_uart_tx_chars fifos n s"

text \<open>\<open>mem\<close> tells whether both allocations succeed; the length is stored in 16 bits.\<close>

definition tls_uart_fill_buf :: "bool \<Rightarrow> nat \<Rightarrow> u8 list \<Rightarrow> u32 \<Rightarrow> 'a uart_state_scheme \<Rightarrow> int \<times> 'a uart_state_scheme" where
  "tls_uart_fill_buf mem n buf count s =
     (if \<not> mem then (- 1, s)
      else (0, upd_port n (\<lambda>p. p\<lparr>tx_msg_pending_list := tx_msg_pending_list p @
                 [\<lparr>m_buf = take (unat count) buf, m_buflen = ucast count, m_offset = 0\<rparr>]\<rparr>) s))"

text \<open>\<open>buf\<close> is \<open>None\<close> for \<^verbatim>\<open>NULL\<close>.\<close>

definition tls_uart_write_async ::
  "(nat \<Rightarrow> u32) \<Rightarrow> bool \<Rightarrow> nat \<Rightarrow> u8 list option \<Rightarrow> u16 \<Rightarrow> 'a uart_state_scheme \<Rightarrow> (int \<times> 'a uart_state_scheme) option" where
  "tls_uart_write_async fifos mem n buf writesize s =
     (case buf of
        None \<Rightarrow> Some (WM_FAILED, s)
      | Some b \<Rightarrow>
          if writesize < 1 then Some (WM_FAILED, s)
          else if length (uart_port s) \<le> n \<or> length b < unat writesize then None
          else let (ret, s) = tls_uart_fill_buf mem n b (ucast writesize) s
               in Some (ret, if ret = 0 then tls_uart_tx_chars_start fifos n s else s))"

definition tls_uart_write ::
  "(nat \<Rightarrow> u32) \<Rightarrow> bool \<Rightarrow> nat \<Rightarrow> u8 list option \<Rightarrow> u16 \<Rightarrow> 'a uart_state_scheme \<Rightarrow> (int \<times> 'a uart_state_scheme) option" where
  "tls_uart_write fifos mem n buf writesize s = tls_uart_write_async fifos mem n buf writesize s"

text \<open>\<^verbatim>\<open>tls_uart_tx_remain_len\<close>: the sum has 16 bits, the difference is an int.\<close>

definition tls_uart_tx_remain_len :: "nat \<Rightarrow> 'a uart_state_scheme \<Rightarrow> int" where
  "tls_uart_tx_remain_len n s =
     512 - uint (fold (\<lambda>m l. l + m_buflen m) (tx_msg_pending_list (port_at n s)) (0 :: u16))"

definition tls_uart_tx_length :: "nat \<Rightarrow> 'a uart_state_scheme \<Rightarrow> u32" where
  "tls_uart_tx_length n s = icount_tx (port_at n s)"

section \<open>Line configuration\<close>

definition baud_rates :: "u32 list" where
  "baud_rates = [2000000, 1500000, 1250000, 1000000, 921600, 460800, 230400, 115200, 57600, 38400, 19200, 9600,
     4800, 2400, 1800, 1200, 600]"

definition tls_uart_check_baudrate :: "u32 \<Rightarrow> int" where
  "tls_uart_check_baudrate b = (if b \<in> set baud_rates then 1 else - 1)"

definition tls_uart_get_baud_rate :: "nat \<Rightarrow> 'a uart_state_scheme \<Rightarrow> u32" where
  "tls_uart_get_baud_rate n s = (if base_of n s \<noteq> 0 then baudrate (opts (port_at n s)) else 0)"

definition baud_word :: "u32 \<Rightarrow> u32 \<Rightarrow> u32" where
  "baud_word apb b = (apb div (16 * b) - 1) OR push_bit 16 ((apb mod (b * 16)) * 16 div (b * 16))"

text \<open>The result is \<open>None\<close> when the clock dividers are not set up.\<close>

definition tls_uart_set_baud_rate_inside :: "nat \<Rightarrow> u32 \<Rightarrow> 'a uart_state_scheme \<Rightarrow> (int \<times> 'a uart_state_scheme) option" where
  "tls_uart_set_baud_rate_inside n b s =
     (if tls_uart_check_baudrate b < 0 then Some (WM_FAILED, s)
      else case tls_sys_clk_get s of
        None \<Rightarrow> None
      | Some clk \<Rightarrow>
          let s = tls_reg_write32 (UR_BD (base_of n s)) (baud_word (apbclk clk * 1000000) b) s
          in Some (WM_SUCCESS, upd_port n (\<lambda>p. p\<lparr>opts := (opts p)\<lparr>baudrate := b\<rparr>\<rparr>) s))"

definition tls_uart_set_parity_inside :: "nat \<Rightarrow> pmode \<Rightarrow> 'a uart_state_scheme \<Rightarrow> int \<times> 'a uart_state_scheme" where
  "tls_uart_set_parity_inside n pt s =
     (let s = upd_port n (\<lambda>p. p\<lparr>opts := (opts p)\<lparr>paritytype := pt\<rparr>\<rparr>) s;
          lc = UR_LC (base_of n s)
      in case pt of
           TLS_UART_PMODE_DISABLED \<Rightarrow> (WM_SUCCESS, reg_andn lc ULCON_PMD_EN s)
         | TLS_UART_PMODE_EVEN \<Rightarrow> (WM_SUCCESS, reg_or lc ULCON_PMD_EVEN (reg_andn lc ULCON_PMD_MASK s))
         | TLS_UART_PMODE_ODD \<Rightarrow> (WM_SUCCESS, reg_or lc ULCON_PMD_ODD (reg_andn lc ULCON_PMD_MASK s))
         | _ \<Rightarrow> (WM_FAILED, s))"

definition wl_code :: "chsize \<Rightarrow> u32" where
  "wl_code c = (case c of TLS_UART_CHSIZE_5BIT \<Rightarrow> 0 | TLS_UART_CHSIZE_6BIT \<Rightarrow> 1 | TLS_UART_CHSIZE_7BIT \<Rightarrow> 2 | TLS_UART_CHSIZE_8BIT \<Rightarrow> 3)"

definition tls_uart_set_data_bits :: "nat \<Rightarrow> chsize \<Rightarrow> 'a uart_state_scheme \<Rightarrow> int \<times> 'a uart_state_scheme" where
  "tls_uart_set_data_bits n c s =
     (let s = upd_port n (\<lambda>p. p\<lparr>opts := (opts p)\<lparr>charlength := c\<rparr>\<rparr>) s;
          lc = UR_LC (base_of n s);
          s = reg_andn lc ULCON_WL_MASK s
      in (WM_SUCCESS, reg_or lc (wl_code c) s))"

definition tls_uart_set_stop_bits_inside :: "nat \<Rightarrow> stopbits_mode \<Rightarrow> 'a uart_state_scheme \<Rightarrow> int \<times> 'a uart_state_scheme" where
  "tls_uart_set_stop_bits_inside n sb s =
     (let s = upd_port n (\<lambda>p. p\<lparr>opts := (opts p)\<lparr>stopbits := sb\<rparr>\<rparr>) s;
          lc = UR_LC (base_of n s)
      in (WM_SUCCESS, if sb = TLS_UART_TWO_STOPBITS then reg_or lc ULCON_STOP_2 s else reg_andn lc ULCON_STOP_2 s))"

definition tls_uart_set_flow_ctrl :: "nat \<Rightarrow> flow_ctrl_mode \<Rightarrow> 'a uart_state_scheme \<Rightarrow> 'a uart_state_scheme" where
  "tls_uart_set_flow_ctrl n fc s =
     (let p = port_at n s
      in case fc of
           TLS_UART_FLOW_CTRL_NONE \<Rightarrow> tls_reg_write32 (UR_FC (p_regs p)) 0 s
         | TLS_UART_FLOW_CTRL_HARDWARE \<Rightarrow>
             if flow_ctrl (opts p) = TLS_UART_FLOW_CTRL_HARDWARE
             then tls_reg_write32 (UR_FC (p_regs p)) (BIT 0 OR push_bit 2 6) s else s)"

definition tls_uart_set_fc_status :: "(nat \<Rightarrow> u32) \<Rightarrow> nat \<Rightarrow> flow_ctrl_mode \<Rightarrow> 'a uart_state_scheme \<Rightarrow> 'a uart_state_scheme option" where
  "tls_uart_set_fc_status fifos n status s =
     (if length (uart_port s) \<le> n then None
      else let s = upd_port n (\<lambda>p. p\<lparr>fcStatus := status\<rparr>) s;
               s = tls_uart_set_flow_ctrl n status s;
               p = port_at n s
           in Some (if flow_ctrl (opts p) = TLS_UART_FLOW_CTRL_HARDWARE \<and> status = TLS_UART_FLOW_CTRL_NONE \<and> hw_stopped p
                    then let s = tls_uart_tx_enable n s;
                             s = tls_uart_tx_chars fifos n s
                         in upd_port n (\<lambda>p. p\<lparr>hw_stopped := False\<rparr>) s
                    else s))"

definition tls_uart_rx_disable :: "nat \<Rightarrow> 'a uart_state_scheme \<Rightarrow> 'a uart_state_scheme" where
  "tls_uart_rx_disable n s = reg_andn (UR_LC (base_of n s)) ULCON_RX_EN s"

definition tls_uart_rx_enable :: "nat \<Rightarrow> 'a uart_state_scheme \<Rightarrow> 'a uart_state_scheme" where
  "tls_uart_rx_enable n s = reg_or (UR_LC (base_of n s)) ULCON_RX_EN s"

text \<open>\<^verbatim>\<open>tls_uart_config\<close> ignores the results of the setters.\<close>

definition tls_uart_config :: "nat \<Rightarrow> tls_uart_options \<Rightarrow> 'a uart_state_scheme \<Rightarrow> 'a uart_state_scheme option" where
  "tls_uart_config n o' s =
     (case tls_uart_set_baud_rate_inside n (baudrate o') s of
        None \<Rightarrow> None
      | Some (_, s) \<Rightarrow>
          let s = snd (tls_uart_set_parity_inside n (paritytype o') s);
              s = snd (tls_uart_set_data_bits n (charlength o') s);
              s = snd (tls_uart_set_stop_bits_inside n (stopbits o') s);
              s = upd_port n (\<lambda>p. p\<lparr>opts := (opts p)\<lparr>flow_ctrl := flow_ctrl o'\<rparr>\<rparr>) s;
              s = tls_uart_set_flow_ctrl n (flow_ctrl o') s;
              b = base_of n s;
              s = tls_reg_write32 (UR_INTS b) 0xFFFFFFFF s;
              s = tls_reg_write32 (UR_INTM b) 0 s;
              s = tls_reg_write32 (UR_DMAC b) (push_bit 3 4 OR BIT 2) s;
              s = tls_reg_write32 (UR_FIFOC b) (push_bit 2 3 OR push_bit 4 3 OR 0x01 OR 0x02) s;
              s = reg_andn (UR_LC b) (ULCON_TX_EN OR ULCON_RX_EN) s
          in Some (reg_or (UR_LC b) (ULCON_RX_EN OR ULCON_TX_EN) s))"

section \<open>Flow control in the interrupt\<close>

definition uart_handle_cts_change :: "(nat \<Rightarrow> u32) \<Rightarrow> nat \<Rightarrow> bool \<Rightarrow> 'a uart_state_scheme \<Rightarrow> 'a uart_state_scheme" where
  "uart_handle_cts_change fifos n status s =
     (let p = port_at n s
      in if fcStatus p = TLS_UART_FLOW_CTRL_HARDWARE \<and> flow_ctrl (opts p) = TLS_UART_FLOW_CTRL_HARDWARE \<and> uart_no p = 1
         then if hw_stopped p
              then if status
                   then tls_uart_tx_chars fifos n (tls_uart_tx_enable n (upd_port n (\<lambda>p. p\<lparr>hw_stopped := False\<rparr>) s))
                   else s
              else if \<not> status
                   then tls_uart_tx_disable n (upd_port n (\<lambda>p. p\<lparr>hw_stopped := True\<rparr>) s)
                   else s
         else s)"

definition tls_set_uart_rx_status :: "nat \<Rightarrow> rx_flag \<Rightarrow> 'a uart_state_scheme \<Rightarrow> 'a uart_state_scheme" where
  "tls_set_uart_rx_status no status s =
     (if no = 1
      then let p = port_at 1 s
           in if rxstatus p = status then s
              else if status = TLS_UART_RX_DISABLE
              then if flow_ctrl (opts p) = TLS_UART_FLOW_CTRL_HARDWARE \<and> fcStatus p = TLS_UART_FLOW_CTRL_HARDWARE
                   then upd_port 1 (\<lambda>p. p\<lparr>rxstatus := TLS_UART_RX_DISABLE\<rparr>) (reg_or (UR_INTM (p_regs p)) (BIT 2 OR BIT 8) s)
                   else s
              else upd_port 1 (\<lambda>p. p\<lparr>rxstatus := TLS_UART_RX_ENABLE\<rparr>) (reg_andn (UR_INTM (p_regs p)) (BIT 2 OR BIT 8) s)
      else s)"

section \<open>Receive interrupts\<close>

text \<open>What a handler reads: the FIFO status for the receive count, the bytes of the receive
  window in order, the FIFO status in the transmit loops of the two later parts, and the one
  for the clear-to-send line.\<close>

record uart_in =
  rx_fifos :: u32
  rxw :: "nat \<Rightarrow> u8"
  tx_fifos :: "nat \<Rightarrow> u32"
  cts_fifos :: u32
  cts_tx_fifos :: "nat \<Rightarrow> u32"

definition rx_fifocnt :: "uart_in \<Rightarrow> nat" where
  "rx_fifocnt i = unat (drop_bit 6 (rx_fifos i) AND 0x3F)"

definition rx_call :: "nat \<Rightarrow> u16 \<Rightarrow> 'a uart_state_scheme \<Rightarrow> 'a uart_state_scheme" where
  "rx_call n len s = (case rx_callback (port_at n s) of None \<Rightarrow> s | Some f \<Rightarrow> call [Rx_call f len (priv_data (port_at n s))] s)"

text \<open>Storing one byte, with the call per byte when the flag of the port is set.\<close>

definition rx_store :: "nat \<Rightarrow> u8 \<Rightarrow> 'a uart_state_scheme \<Rightarrow> 'a uart_state_scheme" where
  "rx_store n ch s =
     (let s = upd_port n (\<lambda>p. p\<lparr>recv := ring_put ch (recv p)\<rparr>) s
      in if uart_rx_byte_cb_flag s ! n \<noteq> 0 then rx_call n 1 s else s)"

text \<open>The receive loop of \<^verbatim>\<open>UART0_IRQHandler\<close> with \<open>c\<close> bytes left, the next one the k-th: the number of
  bytes stored and the state.\<close>

fun uart0_rx_loop :: "uart_in \<Rightarrow> u32 \<Rightarrow> nat \<Rightarrow> nat \<Rightarrow> 'a uart_state_scheme \<Rightarrow> nat \<times> 'a uart_state_scheme" where
  "uart0_rx_loop i intr_src k 0 s = (0, s)"
| "uart0_rx_loop i intr_src k (Suc c) s =
     (let ch = rxw i k; p = port_at 0 s
      in if intr_src AND UART_RX_ERR_INT_FLAG \<noteq> 0
         then uart0_rx_loop i intr_src (k + 1) c (reg_or (UR_INTS (p_regs p)) UART_RX_ERR_INT_FLAG s)
         else if CIRC_SPACE (r_head (recv p)) (r_tail (recv p)) \<le> 2
         then if fcStatus p = TLS_UART_FLOW_CTRL_HARDWARE
              then (1, rx_store 0 ch (tls_set_uart_rx_status (uart_no p) TLS_UART_RX_DISABLE s))
              else (0, s)
         else let (l, s) = uart0_rx_loop i intr_src (k + 1) c (rx_store 0 ch s) in (l + 1, s))"

definition rx_len_call :: "nat \<Rightarrow> nat \<Rightarrow> 'a uart_state_scheme \<Rightarrow> 'a uart_state_scheme" where
  "rx_len_call n rxlen s =
     (if rxlen \<noteq> 0 \<and> uart_rx_byte_cb_flag s ! n = 0 then rx_call n (of_nat rxlen) s else s)"

text \<open>The end that the three handlers share: transmit interrupts and the clear-to-send line.\<close>

definition uart_irq_tail :: "uart_in \<Rightarrow> u32 \<Rightarrow> nat \<Rightarrow> 'a uart_state_scheme \<Rightarrow> 'a uart_state_scheme" where
  "uart_irq_tail i intr_src n s =
     (let s = (if intr_src AND UART_TX_INT_FLAG \<noteq> 0 then tls_uart_tx_chars (tx_fifos i) n s else s)
      in if intr_src AND UIS_CTS_CHNG \<noteq> 0
         then uart_handle_cts_change (cts_tx_fifos i) n (cts_fifos i AND UFS_CST_STS \<noteq> 0) s else s)"

definition rx_pending :: "u32 \<Rightarrow> nat \<Rightarrow> 'a uart_state_scheme \<Rightarrow> bool" where
  "rx_pending intr_src n s \<longleftrightarrow>
     intr_src AND UART_RX_INT_FLAG \<noteq> 0 \<and> tls_reg_read32 (UR_INTM (base_of n s)) s AND UIS_RX_FIFO = 0"

definition UART0_IRQHandler :: "uart_in \<Rightarrow> 'a uart_state_scheme \<Rightarrow> 'a uart_state_scheme" where
  "UART0_IRQHandler i s =
     (let intr_src = tls_reg_read32 (UR_INTS (base_of 0 s)) s;
          s = tls_reg_write32 (UR_INTS (base_of 0 s)) intr_src s;
          s = (if rx_pending intr_src 0 s
               then let (rxlen, s) = uart0_rx_loop i intr_src 0 (rx_fifocnt i) s in rx_len_call 0 rxlen s
               else s)
      in uart_irq_tail i intr_src 0 s)"

definition tls_uart_push :: "u8 list \<Rightarrow> 'a uart_state_scheme \<Rightarrow> 'a uart_state_scheme" where
  "tls_uart_push xs s = upd_port 1 (\<lambda>p. p\<lparr>recv := fold ring_put xs (recv p)\<rparr>) s"

text \<open>The overrun branch of the handlers of the other ports.\<close>

definition uart_overrun :: "u32 \<Rightarrow> nat \<Rightarrow> 'a uart_state_scheme \<Rightarrow> 'a uart_state_scheme" where
  "uart_overrun intr_src n s =
     (if intr_src AND UIS_OVERRUN \<noteq> 0
      then let s = reg_or (UR_INTS (base_of n s)) UIS_OVERRUN s
           in if tx_dma_on (port_at n s)
              then reg_or (UR_DMAC (base_of n s)) 1 (reg_andn (UR_DMAC (base_of n s)) 1 s) else s
      else s)"

text \<open>\<^verbatim>\<open>RX_CACHE_LIMIT\<close>: when at most 128 places are free the oldest 128 bytes are dropped.\<close>

definition rx_cache_limit :: "tls_uart_circ_buf \<Rightarrow> tls_uart_circ_buf" where
  "rx_cache_limit r = (if CIRC_SPACE (r_head r) (r_tail r) \<le> 128 then ring_skip 128 r else r)"

fun rx_store_all :: "uart_in \<Rightarrow> nat \<Rightarrow> nat \<Rightarrow> nat \<Rightarrow> 'a uart_state_scheme \<Rightarrow> 'a uart_state_scheme" where
  "rx_store_all i n k 0 s = s"
| "rx_store_all i n k (Suc c) s = rx_store_all i n (k + 1) c (rx_store n (rxw i k) s)"

text \<open>The search for the escape sequence after three bytes of which the last is a plus sign.
  Indices are 32-bit words; \<open>None\<close> is a read outside the ring.\<close>

definition plus_at :: "tls_uart_circ_buf \<Rightarrow> u32 \<Rightarrow> bool option" where
  "plus_at r j = (if unat j < length (r_buf r) then Some (r_buf r ! unat j = 0x2B) else None)"

definition both_plus :: "tls_uart_circ_buf \<Rightarrow> u32 \<Rightarrow> u32 \<Rightarrow> bool option" where
  "both_plus r j1 j2 = (case plus_at r j1 of None \<Rightarrow> None | Some False \<Rightarrow> Some False | Some True \<Rightarrow> plus_at r j2)"

definition escape_seen :: "tls_uart_circ_buf \<Rightarrow> bool option" where
  "escape_seen r =
     (if r_head r - 1 = 0 then both_plus r 511 510
      else if r_head r - 1 = 1 then both_plus r 0 511
      else both_plus r (r_head r - 2) (r_head r - 3))"

definition uart_escape :: "nat \<Rightarrow> u8 \<Rightarrow> nat \<Rightarrow> 'a uart_state_scheme \<Rightarrow> 'a uart_state_scheme option" where
  "uart_escape escapefifocnt ch n s =
     (if escapefifocnt = 3 \<and> ch = 0x2B
      then case escape_seen (recv (port_at n s)) of
             None \<Rightarrow> None
           | Some b \<Rightarrow> Some (if b then upd_port n (\<lambda>p. p\<lparr>plus_char_cnt := 3\<rparr>) s else s)
      else Some s)"

definition last_rx :: "uart_in \<Rightarrow> nat \<Rightarrow> u8" where
  "last_rx i c = (if c = 0 then 0 else rxw i (c - 1))"

text \<open>The receive block of \<^verbatim>\<open>UART1_IRQHandler\<close>.\<close>

definition uart1_rx :: "uart_in \<Rightarrow> u32 \<Rightarrow> 'a uart_state_scheme \<Rightarrow> 'a uart_state_scheme option" where
  "uart1_rx i intr_src s =
     (let c = rx_fifocnt i;
          s = upd_port 1 (\<lambda>p. p\<lparr>plus_char_cnt := 0, recv := rx_cache_limit (recv p)\<rparr>) s;
          (rxlen, s) = (if intr_src AND UART_RX_ERR_INT_FLAG \<noteq> 0
                        then (0, reg_or (UR_INTS (base_of 1 s)) UART_RX_ERR_INT_FLAG s)
                        else (c, rx_store_all i 1 0 c s))
      in case uart_escape c (last_rx i c) 1 s of None \<Rightarrow> None | Some s \<Rightarrow> Some (rx_len_call 1 rxlen s))"

definition UART1_IRQHandler :: "uart_in \<Rightarrow> 'a uart_state_scheme \<Rightarrow> 'a uart_state_scheme option" where
  "UART1_IRQHandler i s =
     (let intr_src = tls_reg_read32 (UR_INTS (base_of 1 s)) s;
          s = tls_reg_write32 (UR_INTS (base_of 1 s)) intr_src s;
          s = uart_overrun intr_src 1 s
      in case (if rx_pending intr_src 1 s then uart1_rx i intr_src s else Some s) of
           None \<Rightarrow> None
         | Some s \<Rightarrow> Some (uart_irq_tail i intr_src 1 s))"

text \<open>\<^verbatim>\<open>findOutIntUart\<close>: the first of the ports 2 to 5 with a pending interrupt, 6 if there is none; the
  handler then runs on the element behind the array.\<close>

fun find_int_uart :: "nat list \<Rightarrow> 'a uart_state_scheme \<Rightarrow> nat" where
  "find_int_uart [] s = 6"
| "find_int_uart (j # js) s =
     (if tls_reg_read32 (HR_UART0_BASE_ADDR + 0x18 + j * STEP_SIZE) s AND 0x1FF \<noteq> 0 then j else find_int_uart js s)"

definition findOutIntUart :: "'a uart_state_scheme \<Rightarrow> nat" where
  "findOutIntUart s = find_int_uart [2, 3, 4, 5] s"

text \<open>The receive block of the handler of the ports 2 to 5, which counts erroneous bytes in the
  length it reports, and the handler, which acknowledges at the end.\<close>

definition uart2_rx :: "uart_in \<Rightarrow> u32 \<Rightarrow> nat \<Rightarrow> 'a uart_state_scheme \<Rightarrow> 'a uart_state_scheme option" where
  "uart2_rx i intr_src n s =
     (let c = rx_fifocnt i;
          s = upd_port n (\<lambda>p. p\<lparr>plus_char_cnt := 0, recv := rx_cache_limit (recv p)\<rparr>) s;
          s = (if intr_src AND UART_RX_ERR_INT_FLAG \<noteq> 0
               then (reg_or (UR_INTS (base_of n s)) UART_RX_ERR_INT_FLAG ^^ c) s
               else rx_store_all i n 0 c s)
      in case uart_escape c (last_rx i c) n s of None \<Rightarrow> None | Some s \<Rightarrow> Some (rx_len_call n c s))"

definition UART2_4_IRQHandler :: "uart_in \<Rightarrow> 'a uart_state_scheme \<Rightarrow> 'a uart_state_scheme option" where
  "UART2_4_IRQHandler i s =
     (let n = findOutIntUart s
      in if length (uart_port s) \<le> n then None
         else let intr_src = tls_reg_read32 (UR_INTS (base_of n s)) s;
                  s = uart_overrun intr_src n s
              in case (if rx_pending intr_src n s then uart2_rx i intr_src n s else Some s) of
                   None \<Rightarrow> None
                 | Some s \<Rightarrow> let s = uart_irq_tail i intr_src n s in Some (tls_reg_write32 (UR_INTS (base_of n s)) intr_src s))"

section \<open>Ports\<close>

definition uart_vec :: "nat \<Rightarrow> nat" where
  "uart_vec n = (if n < 2 then UART0_IRQn + n else UART24_IRQn)"

text \<open>\<^verbatim>\<open>UartRegInit\<close>; \<open>None\<close> when the clock dividers are not set up.\<close>

definition UartRegInit :: "nat \<Rightarrow> 'a uart_state_scheme \<Rightarrow> 'a uart_state_scheme option" where
  "UartRegInit n s =
     (case tls_sys_clk_get s of
        None \<Rightarrow> None
      | Some clk \<Rightarrow>
          let b = HR_UART0_BASE_ADDR + n * STEP_SIZE
          in Some (if n = 0
                   then let s = tls_reg_write32 (UR_BD b) (baud_word (apbclk clk * 1000000) 115200) s;
                            s = tls_reg_write32 (UR_LC b) (ULCON_WL_MASK OR ULCON_TX_EN) s;
                            s = tls_reg_write32 (UR_FC b) 0 s;
                            s = tls_reg_write32 (UR_DMAC b) 0 s;
                            s = tls_reg_write32 (UR_FIFOC b) 0 s
                        in tls_reg_write32 (UR_INTM b) 0xFF s
                   else let s = tls_reg_write32 (UR_FIFOC b) (push_bit 2 1 OR push_bit 4 2) s;
                            s = tls_reg_write32 (UR_DMAC b) (push_bit 3 8 OR push_bit 2 1) s
                        in tls_reg_write32 (UR_INTM b) (NOT (push_bit 2 3)) s))"

definition default_opts :: tls_uart_options where
  "default_opts = \<lparr>baudrate = 115200, charlength = TLS_UART_CHSIZE_8BIT, paritytype = TLS_UART_PMODE_DISABLED,
     flow_ctrl = TLS_UART_FLOW_CTRL_NONE, stopbits = TLS_UART_ONE_STOPBITS\<rparr>"

definition tls_uart_tx_callback_register :: "nat \<Rightarrow> uart_fn option \<Rightarrow> 'a uart_state_scheme \<Rightarrow> 'a uart_state_scheme" where
  "tls_uart_tx_callback_register n f s = upd_port n (\<lambda>p. p\<lparr>tx_callback := f\<rparr>) s"

definition tls_uart_tx_sent_callback_register :: "nat \<Rightarrow> uart_fn option \<Rightarrow> 'a uart_state_scheme \<Rightarrow> 'a uart_state_scheme" where
  "tls_uart_tx_sent_callback_register n f s = upd_port n (\<lambda>p. p\<lparr>tx_sent_callback := f\<rparr>) s"

definition tls_uart_rx_callback_register :: "nat \<Rightarrow> nat option \<Rightarrow> u32 \<Rightarrow> 'a uart_state_scheme \<Rightarrow> 'a uart_state_scheme" where
  "tls_uart_rx_callback_register n f d s = upd_port n (\<lambda>p. p\<lparr>rx_callback := f, priv_data := d\<rparr>) s"

definition tls_uart_rx_byte_callback_flag :: "nat \<Rightarrow> u8 \<Rightarrow> 'a uart_state_scheme \<Rightarrow> 'a uart_state_scheme" where
  "tls_uart_rx_byte_callback_flag n flag s = s\<lparr>uart_rx_byte_cb_flag := (uart_rx_byte_cb_flag s)[n := flag]\<rparr>"

text \<open>\<open>mem\<close> is the outcome of the allocation of the ring.\<close>

definition tls_uart_port_init ::
  "bool \<Rightarrow> nat \<Rightarrow> tls_uart_options option \<Rightarrow> u8 \<Rightarrow> 'a uart_state_scheme \<Rightarrow> (int \<times> 'a uart_state_scheme) option" where
  "tls_uart_port_init mem n o' modeChoose s =
     (if 6 \<le> n then Some (WM_FAILED, s)
      else case UartRegInit n (tls_irq_disable (uart_vec n) s) of
        None \<Rightarrow> None
      | Some s \<Rightarrow>
          let b = HR_UART0_BASE_ADDR + n * STEP_SIZE;
              s = upd_port n (\<lambda>p. zero_port\<lparr>p_regs := b\<rparr>) s;
              s = (if n = 2 then if modeChoose = 1 then reg_or (UR_LC b) (BIT 24) s else reg_andn (UR_LC b) 0x1000000 s else s);
              s = upd_port n (\<lambda>p. p\<lparr>uart_no := n\<rparr>) s
          in case tls_uart_config n (case o' of None \<Rightarrow> default_opts | Some x \<Rightarrow> x) s of
               None \<Rightarrow> None
             | Some s \<Rightarrow>
                 let s = upd_port n (\<lambda>p. p\<lparr>rxstatus := TLS_UART_RX_ENABLE, uart_irq_no := uart_vec n\<rparr>) s
                 in if \<not> mem then Some (WM_FAILED, s)
                    else let s = upd_port n (\<lambda>p. p\<lparr>recv := \<lparr>r_buf = replicate 512 0, r_head = 0, r_tail = 0\<rparr>,
                                   tx_fifofull := 16, tx_msg_pending_list := [], tx_msg_to_be_freed_list := []\<rparr>) s;
                             s = tls_uart_tx_callback_register n (Some Free_tx_sent_data) s
                         in Some (WM_SUCCESS, tls_irq_enable (uart_irq_no (port_at n s)) s))"

definition tls_uart_try_read :: "nat \<Rightarrow> int \<Rightarrow> 'a uart_state_scheme \<Rightarrow> int" where
  "tls_uart_try_read n read_size s =
     (let r = recv (port_at n s); data_cnt = uint (CIRC_CNT (r_head r) (r_tail r))
      in if read_size \<le> data_cnt then read_size else 0)"

text \<open>\<open>valid\<close> is false for a \<^verbatim>\<open>NULL\<close> buffer. The result is the return value, the bytes copied and the state.\<close>

definition tls_uart_read :: "nat \<Rightarrow> bool \<Rightarrow> u16 \<Rightarrow> 'a uart_state_scheme \<Rightarrow> (int \<times> u8 list \<times> 'a uart_state_scheme) option" where
  "tls_uart_read n valid readsize s =
     (if \<not> valid \<or> readsize < 1 then Some (WM_FAILED, [], s)
      else if length (uart_port s) \<le> n then None
      else let (out, r) = ring_read readsize (recv (port_at n s))
           in Some (int (length out), out, upd_port n (\<lambda>p. p\<lparr>recv := r\<rparr>) s))"

definition tls_uart_set_parity where "tls_uart_set_parity n pt s = tls_uart_set_parity_inside n pt s"
definition tls_uart_set_baud_rate where "tls_uart_set_baud_rate n b s = tls_uart_set_baud_rate_inside n b s"
definition tls_uart_set_stop_bits where "tls_uart_set_stop_bits n sb s = tls_uart_set_stop_bits_inside n sb s"

definition tls_uart_dma_off :: "nat \<Rightarrow> 'a uart_state_scheme \<Rightarrow> int \<times> 'a uart_state_scheme" where
  "tls_uart_dma_off n s = (WM_SUCCESS, upd_port n (\<lambda>p. p\<lparr>tx_dma_on := False\<rparr>) s)"

section \<open>Sending by DMA\<close>

abbreviation (input) "HR_DMA_CHNL_SEL \<equiv> 0x40000808 :: nat"

text \<open>\<open>fn\<close> is the address of \<^verbatim>\<open>tls_uart_dma_write_complte_callback\<close>, \<open>buf\<close> the address of the data, 0 for
  \<^verbatim>\<open>NULL\<close>, \<open>poll\<close> what the channel register returns while it is stopped.\<close>

definition tls_uart_dma_write_complte_callback ::
  "(nat \<Rightarrow> u32) \<Rightarrow> u32 \<Rightarrow> 'a uart_state_scheme \<Rightarrow> 'a uart_state_scheme option" where
  "tls_uart_dma_write_complte_callback poll parg s =
     (let no = unat (drop_bit 8 (parg AND 0x00FFFF00)); dma_ch = unat (parg AND 0xFF)
      in if length (uart_port s) \<le> no then None
         else case tls_dma_free poll dma_ch s of
                None \<Rightarrow> None
              | Some s \<Rightarrow>
                  let s = upd_port no (\<lambda>p. p\<lparr>tx_dma_on := False\<rparr>) s
                  in Some (run_tx_fn Tx_sent_call (tx_sent_callback (port_at no s)) no s))"

definition tls_uart_dma_write ::
  "nat \<Rightarrow> u32 \<Rightarrow> u16 \<Rightarrow> uart_fn option \<Rightarrow> nat \<Rightarrow> 'a uart_state_scheme \<Rightarrow> (int \<times> 'a uart_state_scheme) option" where
  "tls_uart_dma_write fn buf writesize cmpl_callback n s =
     (if length (uart_port s) \<le> n then None
      else if buf = 0 \<or> writesize < 1 \<or> 4096 \<le> writesize \<or> tx_dma_on (port_at n s) then Some (WM_FAILED, s)
      else let (dmaCh, s) = tls_dma_request 0xFF (push_bit 2 1 OR 1) s
           in if dmaCh = 0xFF then Some (WM_FAILED, s)
              else let b = base_of n s;
                       s = tls_reg_write32 HR_DMA_CHNL_SEL (of_nat n) s;
                       s = reg_andn (UR_DMAC b) 1 s;
                       s = upd_port n (\<lambda>p. p\<lparr>tx_sent_callback := cmpl_callback\<rparr>) s
                   in case tls_dma_irq_register dmaCh (Some fn) (of_nat dmaCh OR push_bit 8 (of_nat n)) 2 s of
                        None \<Rightarrow> None
                      | Some s \<Rightarrow>
                          let s = upd_port n (\<lambda>p. p\<lparr>tx_dma_on := True\<rparr>) s;
                              s = reg_or (UR_DMAC b) 1 s;
                              d = \<lparr>dd_valid = BIT 31, dma_ctrl = 1 OR push_bit 7 (ucast writesize), src_addr = buf,
                                   dest_addr = of_nat (UR_TXW b)\<rparr>
                          in case tls_dma_start dmaCh (Some d) 0 s of None \<Rightarrow> None | Some (_, s) \<Rightarrow> Some (WM_SUCCESS, s))"

end
