(* ===== verification/Uart_Rx.thy ===== *)
theory Uart_Rx
  imports Uart
begin

text \<open>
  What the receive side of the UART driver does: the three interrupt handlers in terms of the
  queue of bytes in the ring, reading, and the search for the escape sequence.
\<close>

section \<open>Frame\<close>

lemma reg_frame_uart [simp]:
  "uart_port (tls_reg_write32 r v s) = uart_port s" "uart_port (reg_or r v s) = uart_port s"
  "uart_port (reg_andn r v s) = uart_port s"
  "uart_rx_byte_cb_flag (tls_reg_write32 r v s) = uart_rx_byte_cb_flag s"
  "uart_rx_byte_cb_flag (reg_or r v s) = uart_rx_byte_cb_flag s"
  "uart_rx_byte_cb_flag (reg_andn r v s) = uart_rx_byte_cb_flag s"
  "txw (tls_reg_write32 r v s) = txw s" "txw (reg_or r v s) = txw s" "txw (reg_andn r v s) = txw s"
  "uart_calls (tls_reg_write32 r v s) = uart_calls s" "uart_calls (reg_or r v s) = uart_calls s"
  "uart_calls (reg_andn r v s) = uart_calls s"
  by (simp_all add: tls_reg_write32_def reg_or_def reg_andn_def)

lemma upd_port_frame [simp]:
  "regs (upd_port n f s) = regs s" "txw (upd_port n f s) = txw s" "uart_calls (upd_port n f s) = uart_calls s"
  "uart_rx_byte_cb_flag (upd_port n f s) = uart_rx_byte_cb_flag s"
  "length (uart_port (upd_port n f s)) = length (uart_port s)"
  by (simp_all add: upd_port_def)

lemma port_upd_port [simp]: "n < length (uart_port s) \<Longrightarrow> uart_port (upd_port n f s) ! n = f (uart_port s ! n)"
  by (simp add: upd_port_def)

lemma port_upd_other [simp]: "m \<noteq> n \<Longrightarrow> uart_port (upd_port n f s) ! m = uart_port s ! m"
  by (simp add: upd_port_def)

lemma call_frame [simp]:
  "regs (call c s) = regs s" "uart_port (call c s) = uart_port s" "txw (call c s) = txw s"
  "uart_rx_byte_cb_flag (call c s) = uart_rx_byte_cb_flag s" "uart_calls (call c s) = uart_calls s @ c"
  by (simp_all add: call_def)

lemma rx_call_frame [simp]:
  "regs (rx_call n l s) = regs s" "uart_port (rx_call n l s) = uart_port s" "txw (rx_call n l s) = txw s"
  "uart_rx_byte_cb_flag (rx_call n l s) = uart_rx_byte_cb_flag s"
  by (simp_all add: rx_call_def split: option.split)

lemma rx_len_call_port [simp]: "uart_port (rx_len_call n l s) = uart_port s" "regs (rx_len_call n l s) = regs s"
  by (simp_all add: rx_len_call_def)

lemma rx_store_frame [simp]:
  "uart_port (rx_store n ch s) = uart_port (upd_port n (\<lambda>p. p\<lparr>recv := ring_put ch (recv p)\<rparr>) s)"
  "regs (rx_store n ch s) = regs s" "uart_rx_byte_cb_flag (rx_store n ch s) = uart_rx_byte_cb_flag s"
  by (simp_all add: rx_store_def Let_def)

section \<open>The end of the handlers leaves the ring alone\<close>

lemma upd_port_recv:
  "(\<And>p. recv (f p) = recv p) \<Longrightarrow> recv (uart_port (upd_port n f s) ! m) = recv (uart_port s ! m)"
  by (cases "n = m"; cases "m < length (uart_port s)") (simp_all add: upd_port_def linorder_not_less list_update_beyond)

lemma run_tx_fn_recv [simp]:
  "recv (uart_port (run_tx_fn mk f n s) ! m) = recv (uart_port s ! m)"
  "length (uart_port (run_tx_fn mk f n s)) = length (uart_port s)"
  by (simp_all add: run_tx_fn_def tls_uart_free_tx_sent_data_def upd_port_recv split: option.split uart_fn.split)

lemma tx_chars_recv [simp]:
  "recv (uart_port (tls_uart_tx_chars fifos n s) ! m) = recv (uart_port s ! m)"
  "length (uart_port (tls_uart_tx_chars fifos n s)) = length (uart_port s)"
  by (auto simp: tls_uart_tx_chars_def Let_def upd_port_recv split: list.split prod.split)

lemma cts_change_recv [simp]:
  "recv (uart_port (uart_handle_cts_change fifos n st s) ! m) = recv (uart_port s ! m)"
  by (simp add: uart_handle_cts_change_def tls_uart_tx_enable_def tls_uart_tx_disable_def Let_def upd_port_recv)

lemma irq_tail_recv [simp]: "recv (uart_port (uart_irq_tail i src n s) ! m) = recv (uart_port s ! m)"
  by (simp add: uart_irq_tail_def Let_def)

lemma overrun_port [simp]: "uart_port (uart_overrun src n s) = uart_port s"
  by (simp add: uart_overrun_def Let_def)

section \<open>Storing\<close>

text \<open>The bytes that the receive window returns.\<close>

definition rx_bytes :: "uart_in \<Rightarrow> nat \<Rightarrow> nat \<Rightarrow> u8 list" where
  "rx_bytes i k c = map (rxw i) [k..<k + c]"

lemma rx_bytes_Suc: "rx_bytes i k (Suc c) = rxw i k # rx_bytes i (Suc k) c"
  by (simp add: rx_bytes_def upt_conv_Cons del: upt_Suc)

lemma rx_bytes_0 [simp]: "rx_bytes i k 0 = []"
  by (simp add: rx_bytes_def)

lemma length_rx_bytes [simp]: "length (rx_bytes i k c) = c"
  by (simp add: rx_bytes_def)

lemma take_rx_bytes: "take m (rx_bytes i k c) = rx_bytes i k (min c m)"
  by (cases "m \<le> c") (simp_all add: rx_bytes_def take_map min_def)

lemma rx_store_all_ring:
  "n < length (uart_port s) \<Longrightarrow>
    recv (port_at n (rx_store_all i n k c s)) = fold ring_put (rx_bytes i k c) (recv (port_at n s)) \<and>
    length (uart_port (rx_store_all i n k c s)) = length (uart_port s)"
  by (induction c arbitrary: k s) (simp_all add: rx_bytes_Suc)

lemma rx_store_all_regs [simp]: "regs (rx_store_all i n k c s) = regs s"
  by (induction c arbitrary: k s) simp_all

lemma rx_fifocnt_less: "rx_fifocnt i < 64"
proof -
  have "(0x3F :: u32) = mask 6" by (simp add: mask_eq_exp_minus_1)
  then have "drop_bit 6 (rx_fifos i) AND 0x3F = take_bit 6 (drop_bit 6 (rx_fifos i))" by (simp only: take_bit_eq_mask)
  then show ?thesis by (simp only: rx_fifocnt_def unsigned_take_bit_eq) (simp add: take_bit_eq_mod)
qed

lemma rx_cache_limit_spec:
  assumes "ring_ok r"
  shows "ring_ok (rx_cache_limit r) \<and>
    ring_bytes (rx_cache_limit r) = (if 383 \<le> ring_cnt r then drop 128 (ring_bytes r) else ring_bytes r)"
proof -
  have "CIRC_SPACE (r_head r) (r_tail r) \<le> 128 \<longleftrightarrow> 383 \<le> ring_cnt r"
    using circ_space [OF assms] ring_cnt_less [of r] by (auto simp: word_le_nat_alt)
  then show ?thesis using assms ring_bytes_skip [OF assms, of 128] by (simp add: rx_cache_limit_def ring_skip_ok)
qed

text \<open>After the limit there is room for every byte the hardware can hold.\<close>

lemma rx_cache_store:
  assumes "ring_ok r" "length bs < 64"
  shows "ring_ok (fold ring_put bs (rx_cache_limit r)) \<and>
    ring_bytes (fold ring_put bs (rx_cache_limit r)) = (if 383 \<le> ring_cnt r then drop 128 (ring_bytes r) else ring_bytes r) @ bs"
proof -
  note l = rx_cache_limit_spec [OF assms(1)]
  have "length (ring_bytes (rx_cache_limit r)) + length bs \<le> 511"
    using l assms(2) ring_cnt_less [of r] by auto
  then show ?thesis using ring.put_all [of "rx_cache_limit r" bs] l by simp
qed

section \<open>The escape sequence\<close>

lemma plus_at_ok: "ring_ok r \<Longrightarrow> unat j < 512 \<Longrightarrow> plus_at r j = Some (r_buf r ! unat j = 0x2B)"
  by (simp add: plus_at_def ring_ok_def)

lemma both_plus_ok:
  "ring_ok r \<Longrightarrow> unat j < 512 \<Longrightarrow> unat l < 512 \<Longrightarrow> both_plus r j l = Some (r_buf r ! unat j = 0x2B \<and> r_buf r ! unat l = 0x2B)"
  by (auto simp: both_plus_def plus_at_ok split: option.split bool.split)

lemma unat_head_minus: "k \<le> unat x \<Longrightarrow> k < 2 ^ 32 \<Longrightarrow> unat (x - of_nat k) = unat x - k" for x :: u32
  by (subst unat_sub) (simp_all add: word_le_nat_alt unat_u32_of_nat)

lemma escape_seen_ok:
  assumes "ring_ok r" "r_head r \<noteq> 0"
  shows "escape_seen r = Some (r_buf r ! ((unat (r_head r) + 510) mod 512) = 0x2B \<and> r_buf r ! ((unat (r_head r) + 509) mod 512) = 0x2B)"
proof -
  have h: "0 < unat (r_head r)" "unat (r_head r) < 512" using assms by (simp_all add: ring_ok_def unat_gt_0)
  consider "r_head r = 1" | "r_head r = 2" | "2 < unat (r_head r)"
  proof -
    have "unat (r_head r) = 1 \<Longrightarrow> r_head r = 1" "unat (r_head r) = 2 \<Longrightarrow> r_head r = 2"
      by (rule unsigned_word_eqI [where ?'a = nat]; simp)+
    then show ?thesis using h(1) that by fastforce
  qed
  then show ?thesis
  proof cases
    case 3
    have "r_head r \<noteq> 1" "r_head r \<noteq> 2" using 3 by auto
    then have "r_head r - 1 \<noteq> 0" "r_head r - 1 \<noteq> 1" by (auto simp: diff_eq_eq)
    moreover have "unat (r_head r - 2) = unat (r_head r) - 2" "unat (r_head r - 3) = unat (r_head r) - 3"
      using 3 unat_head_minus [of 2 "r_head r"] unat_head_minus [of 3 "r_head r"] by simp_all
    moreover have "(unat (r_head r) + 510) mod 512 = unat (r_head r) - 2" "(unat (r_head r) + 509) mod 512 = unat (r_head r) - 3"
      using 3 h by (intro mod_512; simp)+
    ultimately show ?thesis using assms h by (simp add: escape_seen_def both_plus_ok)
  qed (use assms in \<open>simp_all add: escape_seen_def both_plus_ok\<close>)
qed

lemma escape_seen_outside: "ring_ok r \<Longrightarrow> r_head r = 0 \<Longrightarrow> escape_seen r = None"
  by (simp add: escape_seen_def both_plus_def plus_at_def ring_ok_def)

section \<open>Port 0\<close>

lemma rx_status_port0 [simp]: "tls_set_uart_rx_status 0 st s = s"
  by (simp add: tls_set_uart_rx_status_def)

lemma circ_space_le2:
  "ring_ok r \<Longrightarrow> CIRC_SPACE (r_head r) (r_tail r) \<le> 2 \<longleftrightarrow> 509 \<le> ring_cnt r"
  using circ_space [of r] ring_cnt_less [of r] by (auto simp: word_le_nat_alt)

lemma uart0_rx_loop_spec:
  assumes "src AND UART_RX_ERR_INT_FLAG = 0" "0 < length (uart_port s)" "ring_ok (recv (port_at 0 s))"
    "fcStatus (port_at 0 s) = TLS_UART_FLOW_CTRL_NONE"
  shows "let m = min c (509 - ring_cnt (recv (port_at 0 s))); (l, s') = uart0_rx_loop i src k c s
    in l = m \<and> recv (port_at 0 s') = fold ring_put (rx_bytes i k m) (recv (port_at 0 s))"
  using assms(2-)
proof (induction c arbitrary: k s)
  case (Suc c)
  let ?r = "recv (port_at 0 s)" and ?s = "rx_store 0 (rxw i k) s"
  show ?case
  proof (cases "509 \<le> ring_cnt ?r")
    case True
    then show ?thesis using Suc.prems assms(1) by (simp add: circ_space_le2 Let_def)
  next
    case False
    have r: "recv (port_at 0 ?s) = ring_put (rxw i k) ?r" "ring_ok (recv (port_at 0 ?s))"
      "ring_cnt (recv (port_at 0 ?s)) = ring_cnt ?r + 1"
      using Suc.prems False by (simp_all add: ring_put_ok ring_cnt_put)
    obtain l s' where l: "uart0_rx_loop i src (k + 1) c ?s = (l, s')" by fastforce
    have IH: "l = min c (509 - (ring_cnt ?r + 1))"
      "recv (port_at 0 s') = fold ring_put (rx_bytes i (k + 1) l) (ring_put (rxw i k) ?r)"
      using Suc.IH [of ?s "k + 1"] Suc.prems r l by (simp_all add: Let_def)
    have "uart0_rx_loop i src k (Suc c) s = (l + 1, s')"
      using False Suc.prems assms(1) l by (simp add: circ_space_le2 Let_def)
    moreover have "min (Suc c) (509 - ring_cnt ?r) = Suc l" using IH(1) False by simp
    ultimately show ?thesis using IH(2) by (simp add: rx_bytes_Suc Let_def)
  qed
qed simp

lemma uart0_rx_loop_err:
  assumes "src AND UART_RX_ERR_INT_FLAG \<noteq> 0"
  shows "fst (uart0_rx_loop i src k c s) = 0 \<and> uart_port (snd (uart0_rx_loop i src k c s)) = uart_port s"
  using assms by (induction c arbitrary: k s) (simp_all add: Let_def)

lemma uart0_rx_loop_hw_full:
  assumes "src AND UART_RX_ERR_INT_FLAG = 0" "0 < length (uart_port s)" "ring_ok (recv (port_at 0 s))"
    "509 \<le> ring_cnt (recv (port_at 0 s))" "fcStatus (port_at 0 s) = TLS_UART_FLOW_CTRL_HARDWARE" "uart_no (port_at 0 s) = 0"
  shows "uart0_rx_loop i src k (Suc c) s = (1, rx_store 0 (rxw i k) s)"
  using assms by (simp add: circ_space_le2 Let_def)

section \<open>Reading\<close>

lemma uart_read_spec:
  assumes "n < length (uart_port s)" "ring_ok (recv (port_at n s))" "0 < k"
  shows "\<exists>s2. tls_uart_read n True k s =
      Some (int (min (unat k) (length (ring_bytes (recv (port_at n s))))), take (unat k) (ring_bytes (recv (port_at n s))), s2) \<and>
    ring_bytes (recv (port_at n s2)) = drop (unat k) (ring_bytes (recv (port_at n s)))"
proof -
  obtain xs r where r: "ring_read k (recv (port_at n s)) = (xs, r)" by fastforce
  have "\<not> k < 1" using assms(3) by (simp add: word_less_1)
  then have "tls_uart_read n True k s = Some (int (length xs), xs, upd_port n (\<lambda>p. p\<lparr>recv := r\<rparr>) s)"
    using r assms(1) by (simp add: tls_uart_read_def)
  then show ?thesis using ring_read_spec(1,2) [OF assms(2), of k] r assms(1) by (simp add: min.commute)
qed

section \<open>Port 1\<close>

lemma cts_change_length [simp]: "length (uart_port (uart_handle_cts_change fifos n st s)) = length (uart_port s)"
  by (simp add: uart_handle_cts_change_def tls_uart_tx_enable_def tls_uart_tx_disable_def Let_def)

lemma irq_tail_length [simp]: "length (uart_port (uart_irq_tail i src n s)) = length (uart_port s)"
  by (simp add: uart_irq_tail_def Let_def)

lemma escape_recv:
  "uart_escape c ch n s = Some s' \<Longrightarrow> recv (port_at m s') = recv (port_at m s) \<and> length (uart_port s') = length (uart_port s)"
  by (auto simp: uart_escape_def upd_port_recv split: if_splits option.splits)

lemma overrun_regs [simp]: "regs (uart_overrun src n s) (UR_INTM (base_of n s)) = regs s (UR_INTM (base_of n s))"
  by (simp add: uart_overrun_def Let_def)

lemma uart1_handler:
  assumes "src = regs s (UR_INTS (base_of 1 s))" "src AND UART_RX_INT_FLAG \<noteq> 0"
    and "regs s (UR_INTM (base_of 1 s)) AND UIS_RX_FIFO = 0"
  shows "UART1_IRQHandler i s =
    (case uart1_rx i src (uart_overrun src 1 (tls_reg_write32 (UR_INTS (base_of 1 s)) src s)) of
       None \<Rightarrow> None | Some s \<Rightarrow> Some (uart_irq_tail i src 1 s))"
proof -
  have "rx_pending src 1 (uart_overrun src 1 (tls_reg_write32 (UR_INTS (base_of 1 s)) src s))"
    using assms(2,3) overrun_regs [of src 1 "tls_reg_write32 (UR_INTS (base_of 1 s)) src s"] by (simp add: rx_pending_def)
  then show ?thesis unfolding UART1_IRQHandler_def Let_def reg_read assms(1) [symmetric] by simp
qed

lemma uart1_rx_ring:
  assumes "1 < length (uart_port s)" "uart1_rx i src s = Some s'" "src AND UART_RX_ERR_INT_FLAG = 0"
  shows "recv (port_at 1 s') = fold ring_put (rx_bytes i 0 (rx_fifocnt i)) (rx_cache_limit (recv (port_at 1 s)))"
    and "length (uart_port s') = length (uart_port s)"
proof -
  let ?s2 = "upd_port 1 (\<lambda>p. p\<lparr>plus_char_cnt := 0, recv := rx_cache_limit (recv p)\<rparr>) s"
  let ?s3 = "rx_store_all i 1 0 (rx_fifocnt i) ?s2"
  obtain s4 where s4: "uart_escape (rx_fifocnt i) (last_rx i (rx_fifocnt i)) 1 ?s3 = Some s4"
    and s': "s' = rx_len_call 1 (rx_fifocnt i) s4"
    using assms(2,3) by (auto simp: uart1_rx_def Let_def split: option.splits)
  show "recv (port_at 1 s') = fold ring_put (rx_bytes i 0 (rx_fifocnt i)) (rx_cache_limit (recv (port_at 1 s)))"
    "length (uart_port s') = length (uart_port s)"
    using escape_recv [OF s4, of 1] rx_store_all_ring [of 1 ?s2 i 0 "rx_fifocnt i"] assms(1) by (simp_all add: s')
qed

lemma uart1_ring:
  assumes "1 < length (uart_port s)" "UART1_IRQHandler i s = Some s'"
    and "src = regs s (UR_INTS (base_of 1 s))" "src AND UART_RX_ERR_INT_FLAG = 0" "src AND UART_RX_INT_FLAG \<noteq> 0"
    and "regs s (UR_INTM (base_of 1 s)) AND UIS_RX_FIFO = 0"
  shows "recv (port_at 1 s') = fold ring_put (rx_bytes i 0 (rx_fifocnt i)) (rx_cache_limit (recv (port_at 1 s)))"
    and "length (uart_port s') = length (uart_port s)"
proof -
  let ?s1 = "uart_overrun src 1 (tls_reg_write32 (UR_INTS (base_of 1 s)) src s)"
  obtain s2 where s2: "uart1_rx i src ?s1 = Some s2" and s': "s' = uart_irq_tail i src 1 s2"
    using assms(2) uart1_handler [OF assms(3,5,6)] by (auto split: option.splits)
  show "recv (port_at 1 s') = fold ring_put (rx_bytes i 0 (rx_fifocnt i)) (rx_cache_limit (recv (port_at 1 s)))"
    "length (uart_port s') = length (uart_port s)"
    using uart1_rx_ring [OF _ s2 assms(4)] assms(1) by (simp_all add: s')
qed

section \<open>Three bytes\<close>

lemma put3:
  assumes "ring_ok r"
  shows "unat (r_head (fold ring_put [a, b, c] r)) = (unat (r_head r) + 3) mod 512"
    and "r_buf (fold ring_put [a, b, c] r) ! ((unat (r_head r) + 1) mod 512) = b"
    and "r_buf (fold ring_put [a, b, c] r) ! unat (r_head r) = a"
proof -
  have h: "unat (r_head r) < 512" "length (r_buf r) = 512" using assms by (simp_all add: ring_ok_def)
  have d: "(unat (r_head r) + 1) mod 512 \<noteq> unat (r_head r)" "(unat (r_head r) + 2) mod 512 \<noteq> unat (r_head r)"
    "(unat (r_head r) + 2) mod 512 \<noteq> (unat (r_head r) + 1) mod 512"
    using h(1) by (auto simp: mod_if split: if_splits)
  show "unat (r_head (fold ring_put [a, b, c] r)) = (unat (r_head r) + 3) mod 512"
    by (simp add: ring_put_indices mod_simps add.commute)
  show "r_buf (fold ring_put [a, b, c] r) ! ((unat (r_head r) + 1) mod 512) = b"
    "r_buf (fold ring_put [a, b, c] r) ! unat (r_head r) = a"
    using h d by (simp_all add: ring_put_indices mod_simps)
qed

lemma escape_after3:
  assumes "ring_ok r"
  shows "escape_seen (fold ring_put [a, b, c] r) =
    (if (unat (r_head r) + 3) mod 512 = 0 then None else Some (b = 0x2B \<and> a = 0x2B))"
proof -
  let ?r = "fold ring_put [a, b, c] r"
  have ok: "ring_ok ?r" using assms by (simp add: ring_put_ok)
  note p = put3 [OF assms, of a b c]
  show ?thesis
  proof (cases "(unat (r_head r) + 3) mod 512 = 0")
    case True
    then have "r_head ?r = 0" using p(1) by (simp add: unat_eq_0 [symmetric])
    then show ?thesis using True escape_seen_outside [OF ok] by simp
  next
    case False
    have "r_head ?r \<noteq> 0" using False p(1) by (metis unsigned_0)
    moreover have "(unat (r_head ?r) + 510) mod 512 = (unat (r_head r) + 1) mod 512"
      "(unat (r_head ?r) + 509) mod 512 = unat (r_head r)"
    proof -
      have "unat (r_head r) + 3 + 510 = unat (r_head r) + 1 + 512" "unat (r_head r) + 3 + 509 = unat (r_head r) + 512"
        by simp_all
      then show "(unat (r_head ?r) + 510) mod 512 = (unat (r_head r) + 1) mod 512"
        "(unat (r_head ?r) + 509) mod 512 = unat (r_head r)"
        using assms unfolding p(1) mod_add_left_eq by (simp_all only: mod_add_self2) (simp add: ring_ok_def)
    qed
    ultimately show ?thesis using False escape_seen_ok [OF ok] p(2,3) by simp
  qed
qed

lemma upd_port_plus:
  "(\<And>p. plus_char_cnt (f p) = plus_char_cnt p) \<Longrightarrow> plus_char_cnt (uart_port (upd_port n f s) ! m) = plus_char_cnt (uart_port s ! m)"
  by (cases "n = m"; cases "m < length (uart_port s)") (simp_all add: upd_port_def linorder_not_less list_update_beyond)

lemma run_tx_fn_plus [simp]: "plus_char_cnt (uart_port (run_tx_fn mk f n s) ! m) = plus_char_cnt (uart_port s ! m)"
  by (simp add: run_tx_fn_def tls_uart_free_tx_sent_data_def upd_port_plus split: option.split uart_fn.split)

lemma tx_chars_plus [simp]: "plus_char_cnt (uart_port (tls_uart_tx_chars fifos n s) ! m) = plus_char_cnt (uart_port s ! m)"
  by (simp add: tls_uart_tx_chars_def Let_def upd_port_plus split: list.split prod.split)

lemma irq_tail_plus [simp]: "plus_char_cnt (uart_port (uart_irq_tail i src n s) ! m) = plus_char_cnt (uart_port s ! m)"
  by (simp add: uart_irq_tail_def uart_handle_cts_change_def tls_uart_tx_enable_def tls_uart_tx_disable_def Let_def upd_port_plus)

lemma rx_store_all_plus [simp]:
  "plus_char_cnt (uart_port (rx_store_all i n k c s) ! m) = plus_char_cnt (uart_port s ! m)"
  by (induction c arbitrary: k s) (simp_all add: upd_port_plus)

text \<open>The receive block of port 1 for three bytes.\<close>

lemma uart1_rx_three:
  assumes "1 < length (uart_port s)" "ring_ok (recv (port_at 1 s))" "src AND UART_RX_ERR_INT_FLAG = 0" "rx_fifocnt i = 3"
  shows "if (unat (r_head (recv (port_at 1 s))) + 3) mod 512 = 0 \<and> rxw i 2 = 0x2B then uart1_rx i src s = None
    else \<exists>s'. uart1_rx i src s = Some s' \<and>
      plus_char_cnt (port_at 1 s') = (if rx_bytes i 0 3 = [0x2B, 0x2B, 0x2B] then 3 else 0)"
proof -
  let ?r = "rx_cache_limit (recv (port_at 1 s))"
  let ?s2 = "upd_port 1 (\<lambda>p. p\<lparr>plus_char_cnt := 0, recv := rx_cache_limit (recv p)\<rparr>) s"
  let ?s3 = "rx_store_all i 1 0 3 ?s2"
  have bs: "rx_bytes i 0 3 = [rxw i 0, rxw i 1, rxw i 2]" by (simp add: rx_bytes_def upt_rec numeral_2_eq_2)
  have ok: "ring_ok ?r" and h: "r_head ?r = r_head (recv (port_at 1 s))"
    using rx_cache_limit_spec [OF assms(2)] by (simp_all add: rx_cache_limit_def ring_skip_indices)
  have r3: "recv (port_at 1 ?s3) = fold ring_put [rxw i 0, rxw i 1, rxw i 2] ?r" "1 < length (uart_port ?s3)"
    using rx_store_all_ring [of 1 ?s2 i 0 3] assms(1) bs by simp_all
  have p3: "plus_char_cnt (port_at 1 ?s3) = 0" using assms(1) by simp
  have rx: "uart1_rx i src s = (case uart_escape 3 (rxw i 2) 1 ?s3 of None \<Rightarrow> None | Some s \<Rightarrow> Some (rx_len_call 1 3 s))"
    using assms(3,4) by (simp add: uart1_rx_def last_rx_def Let_def)
  show ?thesis
    using escape_after3 [OF ok, of "rxw i 0" "rxw i 1" "rxw i 2"] r3 p3
    unfolding rx uart_escape_def r3(1) h bs by auto
qed

section \<open>An example machine\<close>

text \<open>Six ports with the given interrupt sources, flow control and ring indices, the APB clock at
  40 MHz, and three bytes in the receive FIFO.\<close>

definition ex_uart :: "u32 \<Rightarrow> flow_ctrl_mode \<Rightarrow> u32 \<Rightarrow> u32 \<Rightarrow> uart_state" where
  "ex_uart src fc h t = \<lparr>regs = (\<lambda>_. 0)(0x40000E10 := 0x00060302, 0x40010618 := src, 0x40010818 := src), irqen_status = 0,
     nvic_log = [], dma_used_bit = 0, dma_context = [], channels = [], dma_len = [],
     uart_port = map (\<lambda>n. zero_port\<lparr>uart_no := n, p_regs := 0x40010600 + n * 0x200, fcStatus := fc,
       recv := \<lparr>r_buf = replicate 512 0, r_head = h, r_tail = t\<rparr>, tx_fifofull := 16\<rparr>) [0..<6],
     uart_rx_byte_cb_flag = replicate 6 0, txw = (\<lambda>_. []), uart_calls = []\<rparr>"

definition ex_rx :: "u8 list \<Rightarrow> uart_in" where
  "ex_rx bs = \<lparr>rx_fifos = push_bit 6 (of_nat (length bs)), rxw = (\<lambda>k. bs ! k), tx_fifos = (\<lambda>_. 0), cts_fifos = 0, cts_tx_fifos = (\<lambda>_. 0)\<rparr>"

lemma ex_uart_port:
  "n < 6 \<Longrightarrow> port_at n (ex_uart src fc h t) = zero_port\<lparr>uart_no := n, p_regs := 0x40010600 + n * 0x200, fcStatus := fc,
     recv := \<lparr>r_buf = replicate 512 0, r_head = h, r_tail = t\<rparr>, tx_fifofull := 16\<rparr>"
  by (simp add: ex_uart_def)

lemma ex_uart_simps [simp]:
  "length (uart_port (ex_uart src fc h t)) = 6" "txw (ex_uart src fc h t) n = []"
  "regs (ex_uart src fc h t) = (\<lambda>_. 0)(0x40000E10 := 0x00060302, 0x40010618 := src, 0x40010818 := src)"
  by (simp_all add: ex_uart_def)

lemma ex_rx_three: "rx_fifocnt (ex_rx [a, b, c]) = 3" "rx_bytes (ex_rx [a, b, c]) 0 3 = [a, b, c]" "rxw (ex_rx [a, b, c]) 2 = c"
  by (simp_all add: rx_fifocnt_def ex_rx_def rx_bytes_def upt_rec)

section \<open>Properties\<close>

text \<open>Port 0 without flow control: a receive interrupt without line errors appends the bytes
  of the hardware FIFO to the queue in order, as many as fit when two places stay free.\<close>

theorem uart0_receives:
  assumes "0 < length (uart_port s)" "ring_ok (recv (port_at 0 s))" "fcStatus (port_at 0 s) = TLS_UART_FLOW_CTRL_NONE"
    and "src = regs s (UR_INTS (base_of 0 s))" "src AND UART_RX_ERR_INT_FLAG = 0" "src AND UART_RX_INT_FLAG \<noteq> 0"
    and "regs s (UR_INTM (base_of 0 s)) AND UIS_RX_FIFO = 0"
  shows "ring_bytes (recv (port_at 0 (UART0_IRQHandler i s))) =
    ring_bytes (recv (port_at 0 s)) @ take (509 - ring_cnt (recv (port_at 0 s))) (rx_bytes i 0 (rx_fifocnt i))"
proof -
  let ?s = "tls_reg_write32 (UR_INTS (base_of 0 s)) src s" and ?r = "recv (port_at 0 s)"
  let ?m = "min (rx_fifocnt i) (509 - ring_cnt ?r)"
  obtain l s' where l: "uart0_rx_loop i src 0 (rx_fifocnt i) ?s = (l, s')" by fastforce
  have "recv (port_at 0 (UART0_IRQHandler i s)) = recv (port_at 0 s')"
    using assms(4-7) l by (simp add: UART0_IRQHandler_def rx_pending_def Let_def)
  also have "\<dots> = fold ring_put (rx_bytes i 0 ?m) ?r"
    using uart0_rx_loop_spec [of src ?s "rx_fifocnt i" i 0] assms l by (simp add: Let_def)
  finally have "recv (port_at 0 (UART0_IRQHandler i s)) = fold ring_put (rx_bytes i 0 ?m) ?r" .
  moreover have "length (ring_bytes ?r) + length (rx_bytes i 0 ?m) \<le> 511"
    using ring_cnt_less [of ?r] by simp
  ultimately show ?thesis using ring.put_all [of ?r "rx_bytes i 0 ?m"] assms(2) by (simp add: take_rx_bytes)
qed

theorem uart0_receives_witness:
  "ring_bytes (recv (port_at 0 (UART0_IRQHandler (ex_rx [7, 8, 9]) (ex_uart 4 TLS_UART_FLOW_CTRL_NONE 0 0)))) = [7, 8, 9]"
  using uart0_receives [of "ex_uart 4 TLS_UART_FLOW_CTRL_NONE 0 0" 4 "ex_rx [7, 8, 9]"]
  by (simp add: ex_uart_port ring_ok_def ring_bytes_def ring_cnt_def ex_rx_three zero_port_def)

text \<open>C16. Ports 1 to 5 prefer new data: a receive interrupt of port 1 without line errors appends
  all bytes of the hardware FIFO; when fewer than 129 places were free, the oldest 128 bytes
  are dropped first. Reading then returns the bytes in the order of their arrival.\<close>

theorem uart1_receives:
  assumes "1 < length (uart_port s)" "ring_ok (recv (port_at 1 s))" "UART1_IRQHandler i s = Some s'"
    and "src = regs s (UR_INTS (base_of 1 s))" "src AND UART_RX_ERR_INT_FLAG = 0" "src AND UART_RX_INT_FLAG \<noteq> 0"
    and "regs s (UR_INTM (base_of 1 s)) AND UIS_RX_FIFO = 0" "0 < n"
  shows "\<exists>s2. let q = ring_bytes (recv (port_at 1 s));
      q' = (if 383 \<le> length q then drop 128 q else q) @ rx_bytes i 0 (rx_fifocnt i)
    in ring_bytes (recv (port_at 1 s')) = q' \<and>
       tls_uart_read 1 True n s' = Some (int (min (unat n) (length q')), take (unat n) q', s2) \<and>
       ring_bytes (recv (port_at 1 s2)) = drop (unat n) q'"
proof -
  let ?r = "recv (port_at 1 s)" and ?bs = "rx_bytes i 0 (rx_fifocnt i)"
  have ring: "recv (port_at 1 s') = fold ring_put ?bs (rx_cache_limit ?r)" "length (uart_port s') = length (uart_port s)"
    by (rule uart1_ring [OF assms(1,3-7)])+
  have q: "ring_ok (recv (port_at 1 s'))"
    "ring_bytes (recv (port_at 1 s')) = (if 383 \<le> ring_cnt ?r then drop 128 (ring_bytes ?r) else ring_bytes ?r) @ ?bs"
    using rx_cache_store [OF assms(2), of ?bs] rx_fifocnt_less [of i] unfolding ring by simp_all
  from uart_read_spec [OF _ q(1) assms(8)] assms(1) ring(2) show ?thesis
    unfolding Let_def q(2) length_ring_bytes by simp
qed

theorem uart1_receives_witness:
  "\<exists>s' s2. UART1_IRQHandler (ex_rx [7, 8]) (ex_uart 4 TLS_UART_FLOW_CTRL_NONE 0 0) = Some s' \<and>
    tls_uart_read 1 True 1 s' = Some (1, [7], s2) \<and> ring_bytes (recv (port_at 1 s2)) = [8]"
proof -
  let ?s = "ex_uart 4 TLS_UART_FLOW_CTRL_NONE 0 0" and ?i = "ex_rx [7, 8]"
  have i: "rx_fifocnt ?i = 2" "rx_bytes ?i 0 2 = [7, 8]" by (simp_all add: rx_fifocnt_def ex_rx_def rx_bytes_def upt_rec)
  have "\<exists>s'. UART1_IRQHandler ?i ?s = Some s'"
    using uart1_handler [of 4 ?s ?i] i(1)
    by (simp add: ex_uart_port uart1_rx_def uart_escape_def Let_def split: option.split)
  then obtain s' where s': "UART1_IRQHandler ?i ?s = Some s'" ..
  show ?thesis
    using uart1_receives [OF _ _ s', of 4 1] s' i
    by (auto simp: ex_uart_port ring_ok_def ring_bytes_def ring_cnt_def Let_def)
qed

text \<open>The escape sequence of three plus signs that arrive together is recognised exactly, unless
  the third one is stored in the last place of the ring.\<close>

theorem uart1_escape_detected:
  assumes "1 < length (uart_port s)" "ring_ok (recv (port_at 1 s))" "rx_fifocnt i = 3"
    and "src = regs s (UR_INTS (base_of 1 s))" "src AND UART_RX_ERR_INT_FLAG = 0" "src AND UART_RX_INT_FLAG \<noteq> 0"
    and "regs s (UR_INTM (base_of 1 s)) AND UIS_RX_FIFO = 0" "unat (r_head (recv (port_at 1 s))) \<noteq> 509"
  shows "\<exists>s'. UART1_IRQHandler i s = Some s' \<and>
    plus_char_cnt (port_at 1 s') = (if rx_bytes i 0 3 = [0x2B, 0x2B, 0x2B] then 3 else 0)"
proof -
  let ?s1 = "uart_overrun src 1 (tls_reg_write32 (UR_INTS (base_of 1 s)) src s)"
  have "(unat (r_head (recv (port_at 1 s))) + 3) mod 512 \<noteq> 0"
    using assms(2,8) by (auto simp: ring_ok_def mod_if split: if_splits)
  then obtain s2 where "uart1_rx i src ?s1 = Some s2"
    "plus_char_cnt (port_at 1 s2) = (if rx_bytes i 0 3 = [0x2B, 0x2B, 0x2B] then 3 else 0)"
    using uart1_rx_three [of ?s1 src i] assms(1-3,5) by auto
  then show ?thesis using uart1_handler [OF assms(4,6,7), of i] by simp
qed

theorem uart1_escape_detected_witness:
  "\<exists>s'. UART1_IRQHandler (ex_rx [0x2B, 0x2B, 0x2B]) (ex_uart 4 TLS_UART_FLOW_CTRL_NONE 511 0) = Some s' \<and>
    plus_char_cnt (port_at 1 s') = 3"
  using uart1_escape_detected [of "ex_uart 4 TLS_UART_FLOW_CTRL_NONE 511 0" "ex_rx [0x2B, 0x2B, 0x2B]" 4]
  by (simp add: ex_uart_port ring_ok_def ex_rx_three)

text \<open>When the third plus sign is stored in the last place of the ring, the write index is 0 and
  the handler reads the bytes before the start of the ring.\<close>

theorem uart1_escape_outside:
  assumes "1 < length (uart_port s)" "ring_ok (recv (port_at 1 s))" "rx_fifocnt i = 3" "rxw i 2 = 0x2B"
    and "src = regs s (UR_INTS (base_of 1 s))" "src AND UART_RX_ERR_INT_FLAG = 0" "src AND UART_RX_INT_FLAG \<noteq> 0"
    and "regs s (UR_INTM (base_of 1 s)) AND UIS_RX_FIFO = 0" "unat (r_head (recv (port_at 1 s))) = 509"
  shows "UART1_IRQHandler i s = None"
  using uart1_handler [OF assms(5,7,8), of i] assms(1-4,9)
    uart1_rx_three [of "uart_overrun src 1 (tls_reg_write32 (UR_INTS (base_of 1 s)) src s)" src i, OF _ _ assms(6)] by simp

theorem uart1_escape_outside_witness:
  "UART1_IRQHandler (ex_rx [1, 2, 0x2B]) (ex_uart 4 TLS_UART_FLOW_CTRL_NONE 509 0) = None"
  using uart1_escape_outside [of "ex_uart 4 TLS_UART_FLOW_CTRL_NONE 509 0" "ex_rx [1, 2, 0x2B]" 4]
  by (simp add: ex_uart_port ring_ok_def ex_rx_three)

text \<open>Port 0 with hardware flow control: the call that should stop the receiver has no effect on
  port 0, every interrupt stores one more byte, and the byte that follows a full ring makes
  the ring appear empty: 511 bytes are lost.\<close>

theorem uart0_flow_control_overruns:
  assumes "0 < length (uart_port s)" "ring_ok (recv (port_at 0 s))" "ring_cnt (recv (port_at 0 s)) = 511"
    and "fcStatus (port_at 0 s) = TLS_UART_FLOW_CTRL_HARDWARE" "uart_no (port_at 0 s) = 0" "0 < rx_fifocnt i"
    and "src = regs s (UR_INTS (base_of 0 s))" "src AND UART_RX_ERR_INT_FLAG = 0" "src AND UART_RX_INT_FLAG \<noteq> 0"
    and "regs s (UR_INTM (base_of 0 s)) AND UIS_RX_FIFO = 0"
  shows "ring_bytes (recv (port_at 0 (UART0_IRQHandler i s))) = []"
proof -
  let ?s = "tls_reg_write32 (UR_INTS (base_of 0 s)) src s"
  obtain c where c: "rx_fifocnt i = Suc c" using assms(6) by (cases "rx_fifocnt i") simp_all
  have "uart0_rx_loop i src 0 (Suc c) ?s = (1, rx_store 0 (rxw i 0) ?s)"
    by (rule uart0_rx_loop_hw_full) (use assms in simp_all)
  then have "recv (port_at 0 (UART0_IRQHandler i s)) = ring_put (rxw i 0) (recv (port_at 0 s))"
    using assms c by (simp add: UART0_IRQHandler_def rx_pending_def Let_def)
  then show ?thesis using ring_bytes_put_full [OF assms(2,3)] by simp
qed


theorem uart0_flow_control_overruns_witness:
  "ring_bytes (recv (port_at 0 (UART0_IRQHandler (ex_rx [7]) (ex_uart 4 TLS_UART_FLOW_CTRL_HARDWARE 511 0)))) = []"
  using uart0_flow_control_overruns [of "ex_uart 4 TLS_UART_FLOW_CTRL_HARDWARE 511 0" "ex_rx [7]" 4]
  by (simp add: ex_uart_port ring_ok_def ring_cnt_def rx_fifocnt_def ex_rx_def)
end
