(* ===== verification/Uart_Tx.thy ===== *)
theory Uart_Tx
  imports Uart_Rx
begin

text \<open>
  What the transmit side of the UART driver does: the bytes of all accepted writes leave through the
  transmit window in order, none is lost or repeated, and all of them leave when transmit
  interrupts keep coming. The baud rate word is the best one in sixteenths of a bit.
\<close>

section \<open>Messages\<close>

definition msg_ok :: "tls_uart_tx_msg \<Rightarrow> bool" where
  "msg_ok m \<longleftrightarrow> m_offset m \<le> m_buflen m \<and> unat (m_buflen m) \<le> length (m_buf m)"

definition msg_rest :: "tls_uart_tx_msg \<Rightarrow> u8 list" where
  "msg_rest m = drop (unat (m_offset m)) (take (unat (m_buflen m)) (m_buf m))"

definition pending :: "nat \<Rightarrow> 'a uart_state_scheme \<Rightarrow> u8 list" where
  "pending n s = concat (map msg_rest (tx_msg_pending_list (port_at n s)))"

text \<open>A message on the pending list has bytes left.\<close>

definition tx_inv :: "nat \<Rightarrow> 'a uart_state_scheme \<Rightarrow> bool" where
  "tx_inv n s \<longleftrightarrow> n < length (uart_port s) \<and> (\<forall>m\<in>set (tx_msg_pending_list (port_at n s)). msg_ok m \<and> m_offset m < m_buflen m)"

lemma msg_rest_step:
  assumes "msg_ok m" "m_offset m < m_buflen m"
  shows "msg_rest m = m_buf m ! unat (m_offset m) # msg_rest (m\<lparr>m_offset := m_offset m + 1\<rparr>) \<and> msg_ok (m\<lparr>m_offset := m_offset m + 1\<rparr>)"
proof -
  have lt: "unat (m_offset m) < unat (m_buflen m)" "unat (m_buflen m) \<le> length (m_buf m)"
    using assms by (simp_all add: msg_ok_def word_less_nat_alt)
  have "unat (m_buflen m) < 65536" using unsigned_less [of "m_buflen m"] by simp
  then have "unat (m_offset m + 1) = unat (m_offset m) + 1"
    using lt(1) by (subst unat_add_lem [THEN iffD1]) simp_all
  then show ?thesis using lt by (simp add: msg_rest_def msg_ok_def word_le_nat_alt Cons_nth_drop_Suc [symmetric])
qed

lemma tx_loop_spec:
  assumes "msg_ok m" "tx_loop fifos full k c m = (m', out)"
  shows "out @ msg_rest m' = msg_rest m \<and> msg_ok m'"
  using assms
proof (induction fifos full k c m arbitrary: m' out rule: tx_loop.induct)
  case (2 fifos full k c m)
  show ?case
  proof (cases "m_offset m < m_buflen m \<and> fifos k AND 0x3F \<noteq> full")
    case True
    obtain m2 o2 where l: "tx_loop fifos full (k + 1) c (m\<lparr>m_offset := m_offset m + 1\<rparr>) = (m2, o2)" by fastforce
    then have "m' = m2" "out = m_buf m ! unat (m_offset m) # o2" using 2(3) True by auto
    moreover have "o2 @ msg_rest m2 = msg_rest (m\<lparr>m_offset := m_offset m + 1\<rparr>) \<and> msg_ok m2"
      using 2(1) [OF True _ l] msg_rest_step [OF 2(2)] True by simp
    ultimately show ?thesis using msg_rest_step [OF 2(2)] True by simp
  qed (use 2 in auto)
qed simp

lemma tx_loop_progress:
  assumes "m_offset m < m_buflen m" "fifos k AND 0x3F \<noteq> full" "tx_loop fifos full k (Suc c) m = (m', out)"
  shows "out \<noteq> []"
  using assms by (auto split: prod.splits)

lemma msg_rest_empty: "msg_ok m \<Longrightarrow> m_buflen m \<le> m_offset m \<Longrightarrow> msg_rest m = []"
  by (simp add: msg_rest_def word_le_nat_alt)

section \<open>One call\<close>

lemma run_tx_fn_tx [simp]:
  "txw (run_tx_fn mk f n s) = txw s"
  "tx_msg_pending_list (port_at m (run_tx_fn mk f n s)) = tx_msg_pending_list (port_at m s)"
  "tx_fifofull (port_at m (run_tx_fn mk f n s)) = tx_fifofull (port_at m s)"
proof -
  have sel: "(\<And>p. g (h p) = g p) \<Longrightarrow> g (port_at m (upd_port n h s)) = g (port_at m s)" for g :: "tls_uart_port \<Rightarrow> 'x" and h
    by (cases "n = m"; cases "m < length (uart_port s)") (simp_all add: upd_port_def linorder_not_less list_update_beyond)
  show "txw (run_tx_fn mk f n s) = txw s"
    "tx_msg_pending_list (port_at m (run_tx_fn mk f n s)) = tx_msg_pending_list (port_at m s)"
    "tx_fifofull (port_at m (run_tx_fn mk f n s)) = tx_fifofull (port_at m s)"
    by (simp_all add: run_tx_fn_def tls_uart_free_tx_sent_data_def sel split: option.split uart_fn.split)
qed

lemma tx_chars_spec:
  assumes "tx_inv n s"
  shows "txw (tls_uart_tx_chars fifos n s) n @ pending n (tls_uart_tx_chars fifos n s) = txw s n @ pending n s \<and>
    tx_inv n (tls_uart_tx_chars fifos n s)"
proof (cases "tx_msg_pending_list (port_at n s)")
  case Nil
  then show ?thesis using assms by (simp add: tls_uart_tx_chars_def)
next
  case (Cons m ms)
  have n: "n < length (uart_port s)" and m: "msg_ok m" "m_offset m < m_buflen m"
    using assms Cons by (auto simp: tx_inv_def)
  obtain m' out where l: "tx_loop fifos (tx_fifofull (port_at n s)) 0 32 m = (m', out)" by fastforce
  note t = tx_loop_spec [OF m(1) l]
  show ?thesis
  proof (cases "m_buflen m' \<le> m_offset m'")
    case True
    then show ?thesis using assms Cons n l t msg_rest_empty [of m']
      by (auto simp: tls_uart_tx_chars_def Let_def pending_def tx_inv_def)
  next
    case False
    then show ?thesis using assms Cons n l t
      by (auto simp: tls_uart_tx_chars_def Let_def pending_def tx_inv_def)
  qed
qed

lemma tx_chars_progress:
  assumes "tx_inv n s" "pending n s \<noteq> []" "fifos 0 AND 0x3F \<noteq> tx_fifofull (port_at n s)"
  shows "length (txw s n) < length (txw (tls_uart_tx_chars fifos n s) n)"
proof -
  obtain m ms where Cons: "tx_msg_pending_list (port_at n s) = m # ms"
    using assms(2) by (cases "tx_msg_pending_list (port_at n s)") (simp_all add: pending_def)
  obtain m' out where l: "tx_loop fifos (tx_fifofull (port_at n s)) 0 32 m = (m', out)" by fastforce
  have "out \<noteq> []"
    using tx_loop_progress [of m fifos 0 "tx_fifofull (port_at n s)" 31 m' out] assms(1,3) Cons l
    by (simp add: tx_inv_def numeral_eq_Suc)
  then show ?thesis using assms(1) Cons l by (auto simp: tls_uart_tx_chars_def Let_def tx_inv_def)
qed

lemma tx_chars_grows: "length (txw s n) \<le> length (txw (tls_uart_tx_chars fifos n s) n)"
  by (auto simp: tls_uart_tx_chars_def Let_def split: list.split prod.split)

lemma tx_chars_fifofull [simp]:
  "tx_fifofull (port_at m (tls_uart_tx_chars fifos n s)) = tx_fifofull (port_at m s)"
proof -
  have sel: "(\<And>p. tx_fifofull (h p) = tx_fifofull p) \<Longrightarrow> tx_fifofull (port_at m (upd_port n h s)) = tx_fifofull (port_at m s)"
    for h and s :: "'a uart_state_scheme"
    by (cases "n = m"; cases "m < length (uart_port s)") (simp_all add: upd_port_def linorder_not_less list_update_beyond)
  show ?thesis by (simp add: tls_uart_tx_chars_def Let_def sel split: list.split prod.split)
qed


section \<open>Writes and interrupts\<close>

text \<open>The transmit interrupts of a port, each with the values of the status register it sees.\<close>

definition tx_irqs :: "nat \<Rightarrow> (nat \<Rightarrow> u32) list \<Rightarrow> 'a uart_state_scheme \<Rightarrow> 'a uart_state_scheme" where
  "tx_irqs n fs s = fold (\<lambda>f. tls_uart_tx_chars f n) fs s"

lemma fill_buf_stream:
  fixes k :: u16
  assumes "tx_inv n s" "0 < k" "unat k \<le> length b" "tls_uart_fill_buf True n b (ucast k) s = (ret, s')"
  shows "ret = 0 \<and> txw s' = txw s \<and> txw s' n @ pending n s' = txw s n @ pending n s @ take (unat k) b \<and> tx_inv n s' \<and>
    tx_fifofull (port_at n s') = tx_fifofull (port_at n s)"
proof -
  have "ucast (ucast k :: u32) = k"
    by (rule ucast_up_ucast_id) (simp add: is_up)
  then show ?thesis
    using assms by (auto simp: tls_uart_fill_buf_def pending_def tx_inv_def msg_ok_def msg_rest_def unat_ucast_u16 word_less_nat_alt)
qed

lemma tx_irqs_spec:
  "tx_inv n s \<Longrightarrow> txw (tx_irqs n fs s) n @ pending n (tx_irqs n fs s) = txw s n @ pending n s \<and> tx_inv n (tx_irqs n fs s)"
proof (induction fs arbitrary: s)
  case (Cons f fs)
  then show ?case using tx_chars_spec [OF Cons.prems, of f] Cons.IH [of "tls_uart_tx_chars f n s"] by (simp add: tx_irqs_def)
qed (simp add: tx_irqs_def)

lemma tx_irqs_drain:
  assumes "tx_inv n s" "length (pending n s) \<le> length fs" "\<forall>f\<in>set fs. f 0 AND 0x3F \<noteq> tx_fifofull (port_at n s)"
  shows "pending n (tx_irqs n fs s) = []"
  using assms
proof (induction fs arbitrary: s)
  case (Cons f fs)
  let ?s = "tls_uart_tx_chars f n s"
  note t = tx_chars_spec [OF Cons.prems(1), of f]
  have "length (txw ?s n) + length (pending n ?s) = length (txw s n) + length (pending n s)"
    using t by (metis length_append)
  moreover have "pending n s \<noteq> [] \<Longrightarrow> length (txw s n) < length (txw ?s n)"
    using tx_chars_progress [OF Cons.prems(1)] Cons.prems(3) by simp
  ultimately have "length (pending n ?s) \<le> length fs" using Cons.prems(2) tx_chars_grows [of s n f] by (cases "pending n s") auto
  then show ?case using Cons.IH [of ?s] t Cons.prems(3) by (simp add: tx_irqs_def)
qed (simp add: tx_irqs_def)

section \<open>The baud rate\<close>

lemma baud_rates_bound: "b \<in> set baud_rates \<Longrightarrow> 600 \<le> unat b \<and> unat b \<le> 2000000"
  by (auto simp: baud_rates_def)

lemma baud_parts:
  fixes a b :: nat
  assumes "0 < b"
  shows "16 * (a div (16 * b)) + a mod (16 * b) * 16 div (16 * b) = a div b"
proof -
  have "a mod (16 * b) * 16 div (16 * b) = a mod (16 * b) div b"
    by (simp add: mult.commute)
  moreover have "a div b = (16 * b * (a div (16 * b)) + a mod (16 * b)) div b" by simp
  moreover have "(16 * b * (a div (16 * b)) + a mod (16 * b)) div b = 16 * (a div (16 * b)) + a mod (16 * b) div b"
    using div_mult_self3 [of b "16 * (a div (16 * b))" "a mod (16 * b)"] assms by (simp add: ac_simps)
  ultimately show ?thesis by simp
qed

lemma unat_push16: "unat x < 16 \<Longrightarrow> unat (push_bit 16 x :: u32) = unat x * 65536"
  by (simp add: push_bit_eq_mult unat_word_ariths)


lemma unat_push16_or:
  fixes x y :: u32
  assumes "unat y < 65536"
  shows "(y OR push_bit 16 x) AND 0xFFFF = y" "unat x < 65536 \<Longrightarrow> drop_bit 16 (y OR push_bit 16 x) = x"
proof -
  have m: "(0xFFFF :: u32) = mask 16" by (simp add: mask_eq_exp_minus_1)
  have y: "bit y k \<Longrightarrow> k < 16" for k using bit_small_unat [of y 16 k] assms by simp
  show "(y OR push_bit 16 x) AND 0xFFFF = y"
    unfolding m by (intro bit_eqI) (auto simp: bit_and_iff bit_or_iff bit_push_bit_iff bit_mask_iff dest: y)
  assume "unat x < 65536"
  then have "bit x k \<Longrightarrow> k < 16" for k using bit_small_unat [of x 16 k] by simp
  then show "drop_bit 16 (y OR push_bit 16 x) = x"
    by (intro bit_eqI) (auto simp: bit_drop_bit_eq bit_or_iff bit_push_bit_iff dest: y)
qed

lemma baud_word_parts:
  assumes "b \<in> set baud_rates" "16 * unat b \<le> unat apb" "unat apb < 2 ^ 29"
  shows "unat (drop_bit 16 (baud_word apb b)) < 16"
    and "16 * (unat (baud_word apb b AND 0xFFFF) + 1) + unat (drop_bit 16 (baud_word apb b)) = unat apb div unat b"
proof -
  note b = baud_rates_bound [OF assms(1)]
  have b16: "unat (16 * b) = 16 * unat b" "unat (b * 16) = 16 * unat b" using b by (simp_all add: unat_word_ariths)
  define m where "m = unat apb mod (16 * unat b)"
  have m: "m < 16 * unat b" using b by (simp add: m_def)
  have "unat (apb mod (b * 16)) = m" by (simp add: unat_mod b16 m_def)
  then have "unat (apb mod (b * 16) * 16) = m * 16" using m b by (simp add: unat_word_ariths)
  then have f: "unat (apb mod (b * 16) * 16 div (b * 16)) = m * 16 div (16 * unat b)" by (simp add: unat_div b16)
  have f16: "m * 16 div (16 * unat b) < 16" using m b by (simp add: less_mult_imp_div_less)
  define q where "q = unat apb div (16 * unat b)"
  have q: "1 \<le> q" using assms(2) b by (simp add: q_def div_greater_zero_iff Suc_le_eq)
  have "q \<le> unat apb div 9600" unfolding q_def using b by (intro div_le_mono2) simp_all
  also have "\<dots> < 65536" using assms(3) by simp
  finally have q': "q < 65536" .
  have "unat (apb div (16 * b)) = q" by (simp add: unat_div b16 q_def)
  then have d: "unat (apb div (16 * b) - 1) = q - 1" using q by (subst unat_sub) (simp_all add: word_le_nat_alt)
  have w: "unat (baud_word apb b AND 0xFFFF) = q - 1" "unat (drop_bit 16 (baud_word apb b)) = m * 16 div (16 * unat b)"
    unfolding baud_word_def using d f f16 q' unat_push16_or [of "apb div (16 * b) - 1" "apb mod (b * 16) * 16 div (b * 16)"]
    by simp_all
  show "unat (drop_bit 16 (baud_word apb b)) < 16" using f16 w by simp
  show "16 * (unat (baud_word apb b AND 0xFFFF) + 1) + unat (drop_bit 16 (baud_word apb b)) = unat apb div unat b"
    unfolding w using q baud_parts [of "unat b" "unat apb"] b by (simp add: q_def m_def)
qed

section \<open>Properties\<close>

text \<open>C15. Sending: a write is accepted, its bytes are queued behind all earlier ones, and after
  as many transmit interrupts with room in the hardware FIFO as bytes were waiting, exactly the
  accepted bytes have left the port, in the order of the writes, and nothing is left.\<close>

theorem uart_write_sends:
  assumes "tx_inv n s" "0 < k" "unat k \<le> length b"
    and "length (pending n s) + unat k \<le> length fs" "\<forall>f\<in>set fs. f 0 AND 0x3F \<noteq> tx_fifofull (port_at n s)"
  shows "\<exists>s'. tls_uart_write fifos True n (Some b) k s = Some (0, s') \<and>
    txw s' n @ pending n s' = txw s n @ pending n s @ take (unat k) b \<and>
    txw (tx_irqs n fs s') n = txw s n @ pending n s @ take (unat k) b \<and> pending n (tx_irqs n fs s') = []"
proof -
  obtain r s1 where f: "tls_uart_fill_buf True n b (ucast k) s = (r, s1)" by fastforce
  note F = fill_buf_stream [OF assms(1-3) f]
  let ?s = "tls_uart_tx_chars fifos n s1"
  have T: "txw ?s n @ pending n ?s = txw s n @ pending n s @ take (unat k) b" "tx_inv n ?s"
    "tx_fifofull (port_at n ?s) = tx_fifofull (port_at n s)"
    using tx_chars_spec [of n s1 fifos] F by auto
  have "length (txw s n) \<le> length (txw ?s n)" using tx_chars_grows [of s1 n fifos] F by simp
  then have "length (pending n ?s) \<le> length fs"
    using arg_cong [OF T(1), of length] assms(3,4) by simp
  then have D: "pending n (tx_irqs n fs ?s) = []" using tx_irqs_drain [OF T(2), of fs] T(3) assms(5) by simp
  have "tls_uart_write fifos True n (Some b) k s = Some (0, ?s)"
    using f F assms(1-3) by (simp add: tls_uart_write_def tls_uart_write_async_def tls_uart_tx_chars_start_def tx_inv_def word_less_1)
  moreover have "txw (tx_irqs n fs ?s) n = txw s n @ pending n s @ take (unat k) b"
    using tx_irqs_spec [OF T(2), of fs] D T(1) by simp
  ultimately show ?thesis using T(1) D by blast
qed

text \<open>C34. The baud rate word: for every rate of the table that the bus clock allows, the integer part
  plus one and the sixteenths in the upper half give the bus clock over the rate, rounded down, in
  sixteenths of a bit; a rate that is not in the table is refused without effect.\<close>

theorem uart_baud_exact:
  assumes "tls_sys_clk_get s = Some clk" "apb = apbclk clk * 1000000" "16 * unat b \<le> unat apb" "unat apb < 2 ^ 29"
  shows "if b \<in> set baud_rates
    then \<exists>s'. tls_uart_set_baud_rate n b s = Some (0, s') \<and>
      (let w = regs s' (UR_BD (base_of n s))
       in 16 * (unat (w AND 0xFFFF) + 1) + unat (drop_bit 16 w) = unat apb div unat b \<and> unat (drop_bit 16 w) < 16)
    else tls_uart_set_baud_rate n b s = Some (- 1, s)"
proof (cases "b \<in> set baud_rates")
  case True
  then show ?thesis using baud_word_parts [OF True assms(3,4)] assms(1,2)
    by (simp add: tls_uart_set_baud_rate_def tls_uart_set_baud_rate_inside_def tls_uart_check_baudrate_def Let_def)
next
  case False
  then show ?thesis
    by (simp add: tls_uart_set_baud_rate_def tls_uart_set_baud_rate_inside_def tls_uart_check_baudrate_def)
qed



theorem uart_write_sends_witness:
  "\<exists>s'. tls_uart_write (\<lambda>_. 0) True 1 (Some [1, 2, 3]) 3 (ex_uart 0 TLS_UART_FLOW_CTRL_NONE 0 0) = Some (0, s') \<and>
    txw (tx_irqs 1 [\<lambda>_. 0, \<lambda>_. 0, \<lambda>_. 0] s') 1 = [1, 2, 3]"
proof -
  let ?s = "ex_uart 0 TLS_UART_FLOW_CTRL_NONE 0 0"
  have s: "tx_inv 1 ?s" "pending 1 ?s = []" "txw ?s 1 = []" "tx_fifofull (port_at 1 ?s) = 16"
    by (simp_all add: tx_inv_def pending_def ex_uart_port zero_port_def)
  show ?thesis
    using uart_write_sends [OF s(1), of 3 "[1, 2, 3]" "[\<lambda>_. 0, \<lambda>_. 0, \<lambda>_. 0]" "\<lambda>_. 0"] s by auto
qed

theorem uart_baud_exact_witness:
  "\<exists>s'. tls_uart_set_baud_rate 0 115200 (ex_uart 0 TLS_UART_FLOW_CTRL_NONE 0 0) = Some (0, s') \<and>
    (let w = regs s' 0x40010610 in 16 * (unat (w AND 0xFFFF) + 1) + unat (drop_bit 16 w) = 347)"
proof -
  let ?s = "ex_uart 0 TLS_UART_FLOW_CTRL_NONE 0 0"
  have c: "tls_sys_clk_get ?s = Some \<lparr>apbclk = 40, cpuclk = 240, wlanclk = 160\<rparr>"
    by (simp add: tls_sys_clk_get_def ex_uart_def field_def Let_def)
  have b: "115200 \<in> set baud_rates" "base_of 0 ?s = 0x40010600" by (simp_all add: baud_rates_def ex_uart_port)
  show ?thesis using uart_baud_exact [OF c refl, of 115200 0] b by (auto simp: Let_def)
qed

end
