(* ===== verification/Dhcp_Msg.thy ===== *)
theory Dhcp_Msg
  imports Bytes
begin

text \<open>
  The messages of the DHCP server, \<^verbatim>\<open>src/app/dhcpserver/dhcp_server.c\<close>: \<^verbatim>\<open>DHCP_MSG\<close> as its 548 bytes, the option
  parser \<^verbatim>\<open>_ParseDhcpOptions\<close> and the three messages that the server generates. Addresses are the 32-bit
  values the code holds, in network order on a little-endian machine; \<open>htonl\<close> reverses the bytes.
\<close>

unbundle bit_operations_syntax

section \<open>Constants and byte order\<close>

abbreviation (input) "DHCP_OPTION_ID_PAD \<equiv> 0 :: u8"
abbreviation (input) "DHCP_OPTION_ID_SUBNET_MASK \<equiv> 1 :: u8"
abbreviation (input) "DHCP_OPTION_ID_DEF_GW \<equiv> 3 :: u8"
abbreviation (input) "DHCP_OPTION_ID_DNS_SERVER \<equiv> 6 :: u8"
abbreviation (input) "DHCP_OPTION_ID_REQ_IP_ADDR \<equiv> 50 :: u8"
abbreviation (input) "DHCP_OPTION_ID_LEASE_TIME \<equiv> 51 :: u8"
abbreviation (input) "DHCP_OPTION_ID_MSG_TYPE \<equiv> 53 :: u8"
abbreviation (input) "DHCP_OPTION_ID_SERVER_ID \<equiv> 54 :: u8"
abbreviation (input) "DHCP_OPTION_ID_END \<equiv> 255 :: u8"
abbreviation (input) "DHCP_MSG_DISCOVER \<equiv> 1 :: u8"
abbreviation (input) "DHCP_MSG_OFFER \<equiv> 2 :: u8"
abbreviation (input) "DHCP_MSG_REQUEST \<equiv> 3 :: u8"
abbreviation (input) "DHCP_MSG_DECLINE \<equiv> 4 :: u8"
abbreviation (input) "DHCP_MSG_ACK \<equiv> 5 :: u8"
abbreviation (input) "DHCP_MSG_NAK \<equiv> 6 :: u8"
abbreviation (input) "DHCP_MSG_RELEASE \<equiv> 7 :: u8"
abbreviation (input) "DHCP_MSG_INFORM \<equiv> 8 :: u8"
abbreviation (input) "DHCP_MAGIC \<equiv> 0x63825363 :: u32"
abbreviation (input) "DHCP_DEFAULT_LEASE_TIME \<equiv> 7200 :: u32"
abbreviation (input) "MSG_SIZE \<equiv> 548 :: nat"
abbreviation (input) "OPTIONS_OFF \<equiv> 240 :: nat"

type_synonym mac = "u8 list"

definition htonl :: "u32 \<Rightarrow> u32" where
  "htonl w = un32 (rev (le32 w))"

definition htons :: "u16 \<Rightarrow> u16" where
  "htons w = un16 (rev (le16 w))"

text \<open>Reading members of the message.\<close>

definition get32 :: "u8 list \<Rightarrow> nat \<Rightarrow> u32" where
  "get32 m p = un32 (take 4 (drop p m))"

definition get16 :: "u8 list \<Rightarrow> nat \<Rightarrow> u16" where
  "get16 m p = un16 (take 2 (drop p m))"

abbreviation "msg_Op m \<equiv> m ! 0 :: u8"
abbreviation "msg_HType m \<equiv> m ! 1 :: u8"
abbreviation "msg_Xid m \<equiv> get32 m 4"
abbreviation "msg_Flags m \<equiv> get16 m 10"
abbreviation "msg_Yiaddr m \<equiv> get32 m 16"
abbreviation "msg_Chaddr m \<equiv> take 6 (drop 28 m) :: mac"
abbreviation "msg_Magic m \<equiv> get32 m 236"

section \<open>Parsing\<close>

text \<open>The values behind the three pointers, and the flags of what was found.\<close>

record dhcp_opts =
  o_ret :: u8
  o_type :: u8
  o_req :: u32
  o_server :: u32

definition no_opts :: dhcp_opts where
  "no_opts = \<lparr>o_ret = 0, o_type = 0xFF, o_req = 0, o_server = 0\<rparr>"

text \<open>The branches for the option at \<open>p\<close>; \<open>None\<close> is a read outside the message.\<close>

definition parse_option :: "u8 list \<Rightarrow> nat \<Rightarrow> dhcp_opts \<Rightarrow> dhcp_opts option" where
  "parse_option m p x =
     (if m ! p = DHCP_OPTION_ID_MSG_TYPE
      then if p + 2 < length m then Some (x\<lparr>o_type := m ! (p + 2), o_ret := o_ret x OR 1\<rparr>) else None
      else if m ! p = DHCP_OPTION_ID_REQ_IP_ADDR
      then if p + 6 \<le> length m then Some (x\<lparr>o_req := get32 m (p + 2), o_ret := o_ret x OR 2\<rparr>) else None
      else if m ! p = DHCP_OPTION_ID_SERVER_ID
      then if p + 6 \<le> length m then Some (x\<lparr>o_server := get32 m (p + 2), o_ret := o_ret x OR 4\<rparr>) else None
      else Some x)"

text \<open>The loop of \<^verbatim>\<open>_ParseDhcpOptions\<close> at the position \<open>p\<close>. It reads the byte there before it compares
  with the end.\<close>

function parse_from :: "u8 list \<Rightarrow> nat \<Rightarrow> dhcp_opts \<Rightarrow> dhcp_opts option" where
  "parse_from m p x =
     (if length m \<le> p then None
      else if m ! p = DHCP_OPTION_ID_END then Some x
      else if m ! p = DHCP_OPTION_ID_PAD then parse_from m (p + 1) x
      else if length m \<le> p + 1 then None
      else case parse_option m p x of
             None \<Rightarrow> None
           | Some x' \<Rightarrow> parse_from m (p + 2 + unat (m ! (p + 1))) x')"
  by pat_completeness auto
termination by (relation "measure (\<lambda>(m, p, x). length m - p)") auto

declare parse_from.simps [simp del]

definition ParseDhcpOptions :: "u8 list \<Rightarrow> dhcp_opts option" where
  "ParseDhcpOptions m = parse_from m OPTIONS_OFF no_opts"

section \<open>Generating\<close>

text \<open>The header: the message is cleared, then the members are set.\<close>

definition dhcp_header :: "u32 \<Rightarrow> u32 \<Rightarrow> u32 \<Rightarrow> mac \<Rightarrow> u8 list" where
  "dhcp_header Xid yiaddr siaddr mac =
     [2, 1, 6, 0] @ le32 (htonl Xid) @ replicate 8 0 @ le32 yiaddr @ le32 siaddr @ replicate 4 0 @
     mac @ replicate 10 0 @ replicate 192 0 @ le32 (htonl DHCP_MAGIC)"

definition opt_ip :: "u8 \<Rightarrow> u32 \<Rightarrow> u8 list" where
  "opt_ip code a = [code, 4] @ le32 a"

definition opt_dns :: "u32 \<Rightarrow> u32 \<Rightarrow> u8 list" where
  "opt_dns a b = [DHCP_OPTION_ID_DNS_SERVER, 8] @ le32 a @ le32 b"

definition opt_type :: "u8 \<Rightarrow> u8 list" where
  "opt_type t = [DHCP_OPTION_ID_MSG_TYPE, 1, t]"

definition nak_msg :: "u32 \<Rightarrow> mac \<Rightarrow> u32 \<Rightarrow> u8 list" where
  "nak_msg server mac Xid = dhcp_header Xid 0 server mac @ opt_type DHCP_MSG_NAK @ [DHCP_OPTION_ID_END]"

definition lease_msg :: "u8 \<Rightarrow> u32 \<Rightarrow> u32 \<Rightarrow> u32 \<Rightarrow> u32 \<Rightarrow> u32 \<Rightarrow> u32 \<Rightarrow> mac \<Rightarrow> u32 \<Rightarrow> u8 list" where
  "lease_msg t ip server netmask gw dns1 dns2 mac Xid =
     dhcp_header Xid ip 0 mac @ opt_type t @ opt_ip DHCP_OPTION_ID_LEASE_TIME (htonl DHCP_DEFAULT_LEASE_TIME) @
     opt_ip DHCP_OPTION_ID_SERVER_ID server @ opt_ip DHCP_OPTION_ID_SUBNET_MASK netmask @
     opt_ip DHCP_OPTION_ID_DEF_GW gw @ opt_dns dns1 dns2 @ [DHCP_OPTION_ID_END]"

text \<open>The buffer after a message was built in it.\<close>

definition in_buffer :: "u8 list \<Rightarrow> u8 list" where
  "in_buffer bs = take MSG_SIZE (bs @ replicate MSG_SIZE 0)"

section \<open>Byte order lemmas\<close>

lemma htonl_bytes: "le32 (htonl w) = rev (le32 w)"
proof -
  have "le32 (un32 [a, b, c, d]) = [a, b, c, d]" for a b c d
    by (simp add: le32_def un32_def, intro conjI; rule bit_eqI)
       (auto simp: bit_byte_of bit_byte_0 bit_or_iff bit_push_byte bit_ucast_iff bit_drop_bit_eq dest: bit_u8_less)
  then show ?thesis by (simp add: htonl_def le32_def)
qed

lemma htonl_htonl [simp]: "htonl (htonl w) = w"
proof -
  have "htonl (htonl w) = un32 (le32 w @ [])" by (simp add: htonl_def [of "htonl w"] htonl_bytes)
  then show ?thesis by (simp only: un32_le32)
qed

lemma htonl_inject [simp]: "htonl a = htonl b \<longleftrightarrow> a = b"
  by (metis htonl_htonl)

lemma un32_take: "4 \<le> length bs \<Longrightarrow> un32 (take 4 bs) = un32 bs"
  by (simp add: un32_def)

lemma get32_at: "length xs = p \<Longrightarrow> get32 (xs @ le32 w @ ys) p = w"
  by (simp add: get32_def un32_le32 [of w "[]", simplified])

section \<open>Options\<close>

text \<open>The bytes of a list of options, and what they mean: the last type, requested address and
  server address count.\<close>

definition enc_opts :: "(u8 \<times> u8 list) list \<Rightarrow> u8 list" where
  "enc_opts xs = concat (map (\<lambda>(c, d). [c, of_nat (length d)] @ d) xs)"

definition opt_ok :: "u8 \<times> u8 list \<Rightarrow> bool" where
  "opt_ok x \<longleftrightarrow> (case x of (c, d) \<Rightarrow> c \<noteq> DHCP_OPTION_ID_PAD \<and> c \<noteq> DHCP_OPTION_ID_END \<and> length d < 256 \<and>
     (c = DHCP_OPTION_ID_MSG_TYPE \<longrightarrow> d \<noteq> []) \<and>
     (c = DHCP_OPTION_ID_REQ_IP_ADDR \<or> c = DHCP_OPTION_ID_SERVER_ID \<longrightarrow> 4 \<le> length d))"

definition sem_opt :: "u8 \<times> u8 list \<Rightarrow> dhcp_opts \<Rightarrow> dhcp_opts" where
  "sem_opt x s = (case x of (c, d) \<Rightarrow>
     if c = DHCP_OPTION_ID_MSG_TYPE then s\<lparr>o_type := hd d, o_ret := o_ret s OR 1\<rparr>
     else if c = DHCP_OPTION_ID_REQ_IP_ADDR then s\<lparr>o_req := un32 d, o_ret := o_ret s OR 2\<rparr>
     else if c = DHCP_OPTION_ID_SERVER_ID then s\<lparr>o_server := un32 d, o_ret := o_ret s OR 4\<rparr>
     else s)"

lemma parse_option_sem:
  assumes "opt_ok (c, d)" "length pre = p"
  shows "parse_option (pre @ [c, of_nat (length d)] @ d @ rest) p x = Some (sem_opt (c, d) x)"
proof -
  let ?m = "pre @ [c, of_nat (length d)] @ d @ rest"
  have c: "?m ! p = c" and n2: "?m ! (p + 2) = (d @ rest) ! 0" and dr: "drop (p + 2) ?m = d @ rest"
    using assms(2) by (simp_all add: nth_append)
  have ip: "4 \<le> length d \<Longrightarrow> get32 ?m (p + 2) = un32 d" unfolding get32_def dr by (simp add: un32_take)
  have ty: "d \<noteq> [] \<Longrightarrow> (d @ rest) ! 0 = hd d" by (simp add: nth_append hd_conv_nth)
  have len: "length ?m = p + 2 + length d + length rest" using assms(2) by simp
  show ?thesis
    using assms(1) ip ty unfolding parse_option_def c n2 len by (auto simp: opt_ok_def sem_opt_def)
qed

lemma parse_step:
  assumes "opt_ok (c, d)" "length pre = p"
  shows "parse_from (pre @ [c, of_nat (length d)] @ d @ rest) p x =
    parse_from ((pre @ [c, of_nat (length d)] @ d) @ rest) (p + 2 + length d) (sem_opt (c, d) x)"
proof -
  have "unat (of_nat (length d) :: u8) = length d" using assms(1) by (simp add: opt_ok_def unat_of_nat)
  then show ?thesis
    using assms parse_option_sem [OF assms, of rest x]
    by (subst parse_from.simps) (simp add: nth_append opt_ok_def)
qed

lemma parse_encoded:
  assumes "\<forall>x\<in>set xs. opt_ok x" "length pre = p"
  shows "parse_from (pre @ enc_opts xs @ [DHCP_OPTION_ID_END] @ rest) p x = Some (fold sem_opt xs x)"
  using assms
proof (induction xs arbitrary: pre p x)
  case Nil
  then show ?case by (subst parse_from.simps) (simp add: enc_opts_def nth_append)
next
  case (Cons a xs)
  obtain c d where a: "a = (c, d)" by fastforce
  have "parse_from (pre @ enc_opts (a # xs) @ [DHCP_OPTION_ID_END] @ rest) p x =
    parse_from ((pre @ [c, of_nat (length d)] @ d) @ enc_opts xs @ [DHCP_OPTION_ID_END] @ rest) (p + 2 + length d) (sem_opt a x)"
    using parse_step [of c d pre p "enc_opts xs @ [DHCP_OPTION_ID_END] @ rest" x] Cons.prems a by (simp add: enc_opts_def)
  also have "\<dots> = Some (fold sem_opt xs (sem_opt a x))"
    using Cons.prems by (intro Cons.IH) simp_all
  finally show ?case by simp
qed


section \<open>The generated messages\<close>

lemma length_dhcp_header [simp]: "length mac = 6 \<Longrightarrow> length (dhcp_header Xid y s mac) = 240"
  by (simp add: dhcp_header_def)

lemma in_buffer_short: "length bs \<le> MSG_SIZE \<Longrightarrow> in_buffer bs = bs @ replicate (MSG_SIZE - length bs) 0"
  by (simp add: in_buffer_def)

lemma length_in_buffer [simp]: "length (in_buffer bs) = MSG_SIZE"
  by (simp add: in_buffer_def)

lemma parse_message:
  assumes "length hdr = 240" "\<forall>x\<in>set xs. opt_ok x" "length (enc_opts xs) < 308"
  shows "ParseDhcpOptions (in_buffer (hdr @ enc_opts xs @ DHCP_OPTION_ID_END # rest)) = Some (fold sem_opt xs no_opts)"
proof -
  define tl where "tl = take (MSG_SIZE - 241 - length (enc_opts xs)) (rest @ replicate MSG_SIZE 0)"
  have "in_buffer (hdr @ enc_opts xs @ DHCP_OPTION_ID_END # rest) = hdr @ enc_opts xs @ [DHCP_OPTION_ID_END] @ tl"
    using assms(1,3) by (simp add: in_buffer_def tl_def take_Cons')
  then show ?thesis
    unfolding ParseDhcpOptions_def using parse_encoded [OF assms(2,1), of tl no_opts] by simp
qed

text \<open>The options of the offer and the acknowledgement.\<close>

definition lease_opts :: "u8 \<Rightarrow> u32 \<Rightarrow> u32 \<Rightarrow> u32 \<Rightarrow> u32 \<Rightarrow> u32 \<Rightarrow> (u8 \<times> u8 list) list" where
  "lease_opts t server netmask gw dns1 dns2 =
     [(DHCP_OPTION_ID_MSG_TYPE, [t]), (DHCP_OPTION_ID_LEASE_TIME, le32 (htonl DHCP_DEFAULT_LEASE_TIME)), (DHCP_OPTION_ID_SERVER_ID, le32 server),
      (DHCP_OPTION_ID_SUBNET_MASK, le32 netmask), (DHCP_OPTION_ID_DEF_GW, le32 gw), (DHCP_OPTION_ID_DNS_SERVER, le32 dns1 @ le32 dns2)]"

lemma un32_le32' [simp]: "un32 (le32 w) = w"
  using un32_le32 [of w "[]"] by simp

lemma lease_msg_opts:
  "lease_msg t ip server netmask gw dns1 dns2 mac Xid =
     dhcp_header Xid ip 0 mac @ enc_opts (lease_opts t server netmask gw dns1 dns2) @ DHCP_OPTION_ID_END # []"
  by (simp add: lease_msg_def enc_opts_def lease_opts_def opt_type_def opt_ip_def opt_dns_def)

lemma nak_msg_opts:
  "nak_msg server mac Xid = dhcp_header Xid 0 server mac @ enc_opts [(DHCP_OPTION_ID_MSG_TYPE, [DHCP_MSG_NAK])] @ DHCP_OPTION_ID_END # []"
  by (simp add: nak_msg_def enc_opts_def opt_type_def)

lemma lease_msg_parse:
  assumes "length mac = 6"
  shows "ParseDhcpOptions (in_buffer (lease_msg t ip server netmask gw dns1 dns2 mac Xid)) =
    Some \<lparr>o_ret = 5, o_type = t, o_req = 0, o_server = server\<rparr>"
proof -
  let ?xs = "lease_opts t server netmask gw dns1 dns2"
  have "\<forall>x\<in>set ?xs. opt_ok x" "length (enc_opts ?xs) < 308" by (simp_all add: lease_opts_def opt_ok_def enc_opts_def)
  moreover have "fold sem_opt ?xs no_opts = \<lparr>o_ret = 5, o_type = t, o_req = 0, o_server = server\<rparr>"
    by (simp add: lease_opts_def sem_opt_def no_opts_def)
  ultimately show ?thesis
    unfolding lease_msg_opts using parse_message [of "dhcp_header Xid ip 0 mac" ?xs "[]"] assms by simp
qed

lemma nak_msg_parse:
  assumes "length mac = 6"
  shows "ParseDhcpOptions (in_buffer (nak_msg server mac Xid)) = Some \<lparr>o_ret = 1, o_type = DHCP_MSG_NAK, o_req = 0, o_server = 0\<rparr>"
  unfolding nak_msg_opts
  using parse_message [of "dhcp_header Xid 0 server mac" "[(DHCP_OPTION_ID_MSG_TYPE, [DHCP_MSG_NAK])]" "[]"] assms
  by (simp add: opt_ok_def enc_opts_def sem_opt_def no_opts_def)

lemma header_fields:
  assumes "length mac = 6"
  shows "msg_Chaddr (dhcp_header Xid y s mac @ r) = mac" "msg_Yiaddr (dhcp_header Xid y s mac @ r) = y"
    "htonl (msg_Xid (dhcp_header Xid y s mac @ r)) = Xid" "htonl (msg_Magic (dhcp_header Xid y s mac @ r)) = DHCP_MAGIC"
proof -
  show "msg_Chaddr (dhcp_header Xid y s mac @ r) = mac"
    using assms by (simp add: dhcp_header_def)
  have "dhcp_header Xid y s mac @ r = ([2, 1, 6, 0] @ le32 (htonl Xid) @ replicate 8 0) @ le32 y @ (le32 s @ replicate 4 0 @
     mac @ replicate 10 0 @ replicate 192 0 @ le32 (htonl DHCP_MAGIC) @ r)"
    by (simp add: dhcp_header_def)
  then show "msg_Yiaddr (dhcp_header Xid y s mac @ r) = y" by (simp only: get32_at) (rule get32_at, simp)
  have "dhcp_header Xid y s mac @ r = [2, 1, 6, 0] @ le32 (htonl Xid) @ (replicate 8 0 @ le32 y @ le32 s @ replicate 4 0 @
     mac @ replicate 10 0 @ replicate 192 0 @ le32 (htonl DHCP_MAGIC) @ r)"
    by (simp add: dhcp_header_def)
  then have "msg_Xid (dhcp_header Xid y s mac @ r) = htonl Xid" by (simp only: get32_at) (rule get32_at, simp)
  then show "htonl (msg_Xid (dhcp_header Xid y s mac @ r)) = Xid" by simp
  have "dhcp_header Xid y s mac @ r = ([2, 1, 6, 0] @ le32 (htonl Xid) @ replicate 8 0 @ le32 y @ le32 s @ replicate 4 0 @
     mac @ replicate 10 0 @ replicate 192 0) @ le32 (htonl DHCP_MAGIC) @ r"
    by (simp add: dhcp_header_def)
  then have "msg_Magic (dhcp_header Xid y s mac @ r) = htonl DHCP_MAGIC" using assms by (simp only: get32_at) (rule get32_at, simp)
  then show "htonl (msg_Magic (dhcp_header Xid y s mac @ r)) = DHCP_MAGIC" by (simp only: htonl_htonl)
qed


section \<open>Properties\<close>

text \<open>C20. Parsing inverts encoding: options of any kind and length, as many as fit into the message, are
  parsed behind any header and before any trailing bytes to their meaning, the last message
  type, requested address and server address and the flags of those present.\<close>

theorem dhcp_options_parsed:
  assumes "length hdr = 240" "\<forall>x\<in>set xs. opt_ok x" "length (enc_opts xs) < 308"
  shows "ParseDhcpOptions (in_buffer (hdr @ enc_opts xs @ DHCP_OPTION_ID_END # rest)) = Some (fold sem_opt xs no_opts)"
  using assms by (rule parse_message)

theorem dhcp_options_parsed_witness:
  "ParseDhcpOptions (in_buffer (replicate 240 0 @ enc_opts [(12, [1, 2]), (DHCP_OPTION_ID_MSG_TYPE, [3]), (DHCP_OPTION_ID_REQ_IP_ADDR, le32 9)] @ [255, 7])) =
    Some \<lparr>o_ret = 3, o_type = 3, o_req = 9, o_server = 0\<rparr>"
  using dhcp_options_parsed [of "replicate 240 0" "[(12, [1, 2]), (DHCP_OPTION_ID_MSG_TYPE, [3]), (DHCP_OPTION_ID_REQ_IP_ADDR, le32 9)]" "[7]"]
  by (simp add: opt_ok_def enc_opts_def sem_opt_def no_opts_def)

end
