(* ===== verification/Dhcp.thy ===== *)
theory Dhcp
  imports Dhcp_Msg
begin

text \<open>
  The DHCP server of the access point, \<^verbatim>\<open>src/app/dhcpserver/dhcp_server.c\<close>: the table of eight clients, the search
  of the table for each kind of message, the state machine of a client, the tick and the start of the server. The
  stations known to the wireless library, the own address and the outcome of allocations are arguments; calls into the
  network stack are recorded in order. \<open>None\<close> stands for a read outside the message or a division by zero.
\<close>

unbundle bit_operations_syntax

section \<open>State\<close>

abbreviation (input) "DHCP_DEFFAULT_TIMEOUT \<equiv> 10 :: u32"
abbreviation (input) "DHCPS_ERR_SUCCESS \<equiv> 0 :: int"
abbreviation (input) "DHCPS_ERR_LINKDOWN \<equiv> - 1 :: int"
abbreviation (input) "DHCPS_ERR_PARAM \<equiv> - 2 :: int"
abbreviation (input) "DHCPS_ERR_MEM \<equiv> - 3 :: int"
abbreviation (input) "DHCPS_ERR_NOT_BIND \<equiv> - 4 :: int"
abbreviation (input) "DHCPS_ERR_NOT_FOUND \<equiv> - 5 :: int"
abbreviation (input) "DHCPS_ERR_INACTIVE \<equiv> - 6 :: int"

datatype DHCP_CLIENT_STATE = DHCP_CLIENT_STATE_IDLE | DHCP_CLIENT_STATE_SELECT | DHCP_CLIENT_STATE_REQUEST | DHCP_CLIENT_STATE_BIND

record DHCP_CLIENT =
  State :: DHCP_CLIENT_STATE
  Timeout :: u32
  IpAddr :: u32
  MacAddr :: mac
  Lease :: u32

record DHCP_SERVER =
  Enable :: bool
  Socket :: bool
  ServerIpAddr :: u32
  StartIpAddr :: u32
  SubnetMask :: u32
  GateWay :: u32
  Dns1 :: u32
  Dns2 :: u32
  LeaseTime :: u32
  Clients :: "DHCP_CLIENT list"

text \<open>Calls into the network stack; the destination of a message is \<open>None\<close> for broadcast.\<close>

datatype net_call = Udp_sendto "u32 option" "u8 list" | Etharp_update u32 mac | Udp_new | Udp_bind u16
  | Udp_recv | Udp_remove | Sys_timeout nat | Sys_untimeout

record dhcps =
  DhcpServer :: "DHCP_SERVER option"
  DhcpMsg :: "u8 list option"
  net :: "net_call list"

text \<open>What a call sees of its surroundings: the stations that are connected (\<open>None\<close> when the buffer for them
  cannot be allocated), the own address, and whether a packet buffer can be allocated.\<close>

record dhcp_env =
  authed_sta :: "mac list option"
  own_mac :: mac
  pbuf_ok :: bool

definition zero_mac :: mac where
  "zero_mac = replicate 6 0"

definition zero_client :: DHCP_CLIENT where
  "zero_client = \<lparr>State = DHCP_CLIENT_STATE_IDLE, Timeout = 0, IpAddr = 0, MacAddr = zero_mac, Lease = 0\<rparr>"

definition upd_client :: "nat \<Rightarrow> (DHCP_CLIENT \<Rightarrow> DHCP_CLIENT) \<Rightarrow> DHCP_SERVER \<Rightarrow> DHCP_SERVER" where
  "upd_client i f sv = sv\<lparr>Clients := (Clients sv)[i := f (Clients sv ! i)]\<rparr>"

definition log_net :: "net_call list \<Rightarrow> dhcps \<Rightarrow> dhcps" where
  "log_net cs st = st\<lparr>net := net st @ cs\<rparr>"

section \<open>Tick\<close>

definition CheckMacIsValid :: "mac list option \<Rightarrow> mac \<Rightarrow> bool" where
  "CheckMacIsValid sta mac = (case sta of None \<Rightarrow> False | Some ms \<Rightarrow> list_ex (\<lambda>m. m = mac) ms)"

definition tick_client :: "mac list option \<Rightarrow> DHCP_CLIENT \<Rightarrow> DHCP_CLIENT" where
  "tick_client sta c =
     (case State c of
        DHCP_CLIENT_STATE_REQUEST \<Rightarrow>
          if Timeout c = 0 then c
          else let c = c\<lparr>Timeout := Timeout c - 1\<rparr>
               in if Timeout c = 0 then c\<lparr>MacAddr := zero_mac, State := DHCP_CLIENT_STATE_IDLE\<rparr> else c
      | DHCP_CLIENT_STATE_BIND \<Rightarrow>
          let d = (if Lease c = 0 then c else c\<lparr>Lease := Lease c - 1\<rparr>)
          in if Lease c \<noteq> 0 \<and> Lease d = 0 then d\<lparr>State := DHCP_CLIENT_STATE_IDLE\<rparr>
             else if \<not> CheckMacIsValid sta (MacAddr d) then d\<lparr>State := DHCP_CLIENT_STATE_IDLE\<rparr>
             else d
      | _ \<Rightarrow> c)"

text \<open>\<open>sta i\<close> is what the i-th call of \<^verbatim>\<open>_CheckMacIsValid\<close> gets.\<close>

definition DhcpTickHandle :: "(nat \<Rightarrow> mac list option) \<Rightarrow> dhcps \<Rightarrow> dhcps" where
  "DhcpTickHandle sta st =
     (case DhcpServer st of
        None \<Rightarrow> st
      | Some sv \<Rightarrow>
          if \<not> Enable sv then st
          else let sv = sv\<lparr>Clients := map (\<lambda>(i, c). tick_client (sta i) c) (enumerate 0 (Clients sv))\<rparr>
               in log_net [Sys_timeout 1000] (st\<lparr>DhcpServer := Some sv\<rparr>))"

section \<open>Search of the table\<close>

record scan =
  pFreeClient :: "nat option"
  pReqClient :: "nat option"
  pMyHistoryClient :: "nat option"
  pHistoryClient :: "nat option"
  pMyClient :: "nat option"
  IpUnavailable :: bool

definition no_scan :: scan where
  "no_scan = \<lparr>pFreeClient = None, pReqClient = None, pMyHistoryClient = None, pHistoryClient = None, pMyClient = None,
     IpUnavailable = False\<rparr>"

definition first_of :: "bool \<Rightarrow> nat \<Rightarrow> nat option \<Rightarrow> nat option" where
  "first_of b i x = (if x = None \<and> b then Some i else x)"

definition scan_client :: "mac \<Rightarrow> u32 \<Rightarrow> nat \<times> DHCP_CLIENT \<Rightarrow> scan \<Rightarrow> scan" where
  "scan_client mac req x s =
     (case x of (i, c) \<Rightarrow>
        if State c = DHCP_CLIENT_STATE_IDLE
        then s\<lparr>pMyHistoryClient := first_of (MacAddr c = mac) i (pMyHistoryClient s),
               pReqClient := first_of (IpAddr c = req) i (pReqClient s),
               pFreeClient := first_of (MacAddr c = zero_mac) i (pFreeClient s),
               pHistoryClient := first_of (MacAddr c \<noteq> zero_mac) i (pHistoryClient s)\<rparr>
        else if MacAddr c = mac then s\<lparr>pMyClient := Some i\<rparr>
        else if IpAddr c = req then s\<lparr>IpUnavailable := True\<rparr>
        else s)"

definition table_scan :: "mac \<Rightarrow> u32 \<Rightarrow> DHCP_CLIENT list \<Rightarrow> scan" where
  "table_scan mac req cs = fold (scan_client mac req) (enumerate 0 cs) no_scan"

text \<open>The address of a client that is not bound is forgotten, and it becomes idle.\<close>

definition drop_client :: "DHCP_CLIENT \<Rightarrow> DHCP_CLIENT" where
  "drop_client c =
     (if State c \<noteq> DHCP_CLIENT_STATE_BIND then c\<lparr>MacAddr := zero_mac\<rparr> else c)\<lparr>State := DHCP_CLIENT_STATE_IDLE\<rparr>"

definition lookup_discover :: "scan \<Rightarrow> DHCP_SERVER \<Rightarrow> nat option \<times> DHCP_SERVER" where
  "lookup_discover x sv =
     (case pMyClient x of
        Some my \<Rightarrow>
          let sv = upd_client my (\<lambda>c. c\<lparr>State := DHCP_CLIENT_STATE_IDLE\<rparr>) sv
          in (case pReqClient x of
                Some r \<Rightarrow> (Some r, if State (Clients sv ! my) \<noteq> DHCP_CLIENT_STATE_BIND
                                   then upd_client my (\<lambda>c. c\<lparr>MacAddr := zero_mac\<rparr>) sv else sv)
              | None \<Rightarrow> (Some my, sv))
      | None \<Rightarrow>
          (case pReqClient x of
             Some r \<Rightarrow> Some r
           | None \<Rightarrow> (case pMyHistoryClient x of
               Some h \<Rightarrow> Some h
             | None \<Rightarrow> (case pFreeClient x of Some f \<Rightarrow> Some f | None \<Rightarrow> pHistoryClient x)), sv))"

definition for_me :: "u32 \<Rightarrow> DHCP_SERVER \<Rightarrow> bool" where
  "for_me ServerId sv \<longleftrightarrow> ServerId = 0 \<or> ServerIpAddr sv = ServerId"

definition lookup_request :: "scan \<Rightarrow> u32 \<Rightarrow> DHCP_SERVER \<Rightarrow> nat option \<times> DHCP_SERVER" where
  "lookup_request x ServerId sv =
     (case pMyClient x of
        Some my \<Rightarrow>
          if IpUnavailable x then (None, upd_client my drop_client sv)
          else (case pReqClient x of
                  Some r \<Rightarrow> (if for_me ServerId sv then Some r else None, upd_client my drop_client sv)
                | None \<Rightarrow> (if for_me ServerId sv then Some my else None, sv))
      | None \<Rightarrow> (if IpUnavailable x then None else if for_me ServerId sv then pReqClient x else None, sv))"

definition ClientTableLookup :: "mac \<Rightarrow> u8 \<Rightarrow> u32 \<Rightarrow> u32 \<Rightarrow> DHCP_SERVER \<Rightarrow> nat option \<times> DHCP_SERVER" where
  "ClientTableLookup mac MsgType ReqIpAddr ServerId sv =
     (let x = table_scan mac ReqIpAddr (Clients sv);
          (ret, sv) = (if MsgType = DHCP_MSG_DISCOVER then lookup_discover x sv
                       else if MsgType = DHCP_MSG_REQUEST then lookup_request x ServerId sv
                       else if MsgType = DHCP_MSG_RELEASE \<or> MsgType = DHCP_MSG_DECLINE
                       then (None, case pMyClient x of None \<Rightarrow> sv | Some my \<Rightarrow> upd_client my drop_client sv)
                       else (None, sv))
      in case ret of
           None \<Rightarrow> (None, sv)
         | Some r \<Rightarrow> (Some r, upd_client r (\<lambda>c. c\<lparr>MacAddr := mac\<rparr>) sv))"

section \<open>Sending\<close>

definition IS_BROADCAST_SEND :: "u16 \<Rightarrow> bool" where
  "IS_BROADCAST_SEND f \<longleftrightarrow> drop_bit 15 f = 1"

definition DHCPNakGenAndSend :: "dhcp_env \<Rightarrow> mac \<Rightarrow> u32 \<Rightarrow> dhcps \<Rightarrow> dhcps" where
  "DHCPNakGenAndSend e mac Xid st =
     (case (DhcpMsg st, DhcpServer st) of
        (Some _, Some sv) \<Rightarrow>
          if \<not> pbuf_ok e then st
          else let m = nak_msg (ServerIpAddr sv) mac Xid
               in log_net [Udp_sendto None m] (st\<lparr>DhcpMsg := Some (in_buffer m)\<rparr>)
      | _ \<Rightarrow> st)"

text \<open>The acknowledgement and the offer differ in the message type.\<close>

definition lease_gen_and_send :: "u8 \<Rightarrow> dhcp_env \<Rightarrow> DHCP_CLIENT \<Rightarrow> u32 \<Rightarrow> u16 \<Rightarrow> dhcps \<Rightarrow> dhcps" where
  "lease_gen_and_send t e c Xid Flags st =
     (case (DhcpMsg st, DhcpServer st) of
        (Some _, Some sv) \<Rightarrow>
          if \<not> pbuf_ok e then st
          else let m = lease_msg t (IpAddr c) (ServerIpAddr sv) (SubnetMask sv) (GateWay sv) (Dns1 sv) (Dns2 sv) (MacAddr c) Xid
               in log_net (if IS_BROADCAST_SEND Flags then [Udp_sendto None m]
                           else [Etharp_update (IpAddr c) (MacAddr c), Udp_sendto (Some (IpAddr c)) m])
                    (st\<lparr>DhcpMsg := Some (in_buffer m)\<rparr>)
      | _ \<Rightarrow> st)"

definition DHCPAckGenAndSend :: "dhcp_env \<Rightarrow> DHCP_CLIENT \<Rightarrow> u32 \<Rightarrow> u16 \<Rightarrow> dhcps \<Rightarrow> dhcps" where
  "DHCPAckGenAndSend e c Xid Flags st = lease_gen_and_send DHCP_MSG_ACK e c Xid Flags st"

definition DHCPOfferGenAndSend :: "dhcp_env \<Rightarrow> DHCP_CLIENT \<Rightarrow> u32 \<Rightarrow> u16 \<Rightarrow> dhcps \<Rightarrow> dhcps" where
  "DHCPOfferGenAndSend e c Xid Flags st = lease_gen_and_send DHCP_MSG_OFFER e c Xid Flags st"

section \<open>State machine of a client\<close>

definition CleanClientHistory :: "mac \<Rightarrow> DHCP_SERVER \<Rightarrow> DHCP_SERVER" where
  "CleanClientHistory mac sv =
     sv\<lparr>Clients := map (\<lambda>c. if State c = DHCP_CLIENT_STATE_IDLE \<and> MacAddr c = mac then c\<lparr>MacAddr := zero_mac\<rparr> else c) (Clients sv)\<rparr>"

definition with_server :: "(DHCP_SERVER \<Rightarrow> DHCP_SERVER) \<Rightarrow> dhcps \<Rightarrow> dhcps" where
  "with_server f st = st\<lparr>DhcpServer := map_option f (DhcpServer st)\<rparr>"

text \<open>The acknowledgement that ends a negotiation or renews a lease, the offer that begins one, for the
  i-th client of the server.\<close>

definition sme_bind :: "dhcp_env \<Rightarrow> nat \<Rightarrow> DHCP_CLIENT \<Rightarrow> u32 \<Rightarrow> u16 \<Rightarrow> dhcps \<Rightarrow> dhcps" where
  "sme_bind e i c Xid Flags st =
     (let st = DHCPAckGenAndSend e c Xid Flags st;
          st = with_server (upd_client i (\<lambda>c. c\<lparr>Lease := DHCP_DEFAULT_LEASE_TIME, State := DHCP_CLIENT_STATE_BIND\<rparr>)) st
      in with_server (CleanClientHistory (MacAddr c)) st)"

definition sme_offer :: "dhcp_env \<Rightarrow> nat \<Rightarrow> DHCP_CLIENT \<Rightarrow> u32 \<Rightarrow> u16 \<Rightarrow> dhcps \<Rightarrow> dhcps" where
  "sme_offer e i c Xid Flags st =
     (let st = DHCPOfferGenAndSend e c Xid Flags st
      in with_server (upd_client i (\<lambda>c. c\<lparr>Timeout := DHCP_DEFFAULT_TIMEOUT, State := DHCP_CLIENT_STATE_REQUEST\<rparr>)) st)"

definition DhcpClientSMEHandle :: "dhcp_env \<Rightarrow> nat \<Rightarrow> u8 \<Rightarrow> u32 \<Rightarrow> u16 \<Rightarrow> dhcps \<Rightarrow> dhcps" where
  "DhcpClientSMEHandle e i MsgType Xid Flags st =
     (case DhcpServer st of
        None \<Rightarrow> st
      | Some sv \<Rightarrow>
          let c = Clients sv ! i
          in case State c of
               DHCP_CLIENT_STATE_IDLE \<Rightarrow>
                 if MsgType = DHCP_MSG_DISCOVER
                 then sme_offer e i c Xid Flags (with_server (upd_client i (\<lambda>c. c\<lparr>State := DHCP_CLIENT_STATE_SELECT\<rparr>)) st)
                 else if MsgType = DHCP_MSG_REQUEST then sme_bind e i c Xid Flags st
                 else sme_offer e i c Xid Flags st
             | DHCP_CLIENT_STATE_SELECT \<Rightarrow> sme_offer e i c Xid Flags st
             | DHCP_CLIENT_STATE_REQUEST \<Rightarrow> sme_bind e i c Xid Flags st
             | DHCP_CLIENT_STATE_BIND \<Rightarrow> sme_bind e i c Xid Flags st)"

section \<open>Interface\<close>

fun find_client :: "(DHCP_CLIENT \<Rightarrow> bool) \<Rightarrow> DHCP_CLIENT list \<Rightarrow> DHCP_CLIENT option" where
  "find_client P [] = None"
| "find_client P (c # cs) = (if P c then Some c else find_client P cs)"

definition DHCPS_GetIpByMac :: "mac \<Rightarrow> dhcps \<Rightarrow> u32 option" where
  "DHCPS_GetIpByMac mac st =
     (case DhcpServer st of None \<Rightarrow> None | Some sv \<Rightarrow> map_option IpAddr (find_client (\<lambda>c. MacAddr c = mac) (Clients sv)))"

definition DHCPS_GetMacByIp :: "u32 \<Rightarrow> dhcps \<Rightarrow> mac option" where
  "DHCPS_GetMacByIp ip st =
     (case DhcpServer st of None \<Rightarrow> None | Some sv \<Rightarrow> map_option MacAddr (find_client (\<lambda>c. IpAddr c = ip) (Clients sv)))"

definition DHCPS_SetDns :: "u8 \<Rightarrow> u32 \<Rightarrow> dhcps \<Rightarrow> dhcps" where
  "DHCPS_SetDns numdns dns st =
     with_server (\<lambda>sv. if numdns = 0 then sv\<lparr>Dns1 := dns\<rparr> else if numdns = 1 then sv\<lparr>Dns2 := dns\<rparr> else sv) st"

text \<open>A packet \<open>P\<close>: its first 548 bytes are copied into the cleared buffer.\<close>

definition accepted :: "u8 list \<Rightarrow> u8 list \<Rightarrow> dhcp_env \<Rightarrow> bool" where
  "accepted P m e \<longleftrightarrow> P \<noteq> [] \<and> msg_Op m = 1 \<and> htonl (msg_Magic m) = DHCP_MAGIC \<and> msg_HType m = 1 \<and>
     own_mac e \<noteq> msg_Chaddr m \<and> CheckMacIsValid (authed_sta e) (msg_Chaddr m)"

definition DHCPS_RecvCb :: "dhcp_env \<Rightarrow> u8 list \<Rightarrow> dhcps \<Rightarrow> dhcps option" where
  "DHCPS_RecvCb e P st =
     (case DhcpMsg st of
        None \<Rightarrow> Some st
      | Some _ \<Rightarrow>
          let m = in_buffer P;
              st = st\<lparr>DhcpMsg := Some m\<rparr>
          in if \<not> accepted P m e then Some st
             else case ParseDhcpOptions m of
                    None \<Rightarrow> None
                  | Some opt \<Rightarrow>
                      if o_ret opt AND 1 = 0 \<or> o_type opt = DHCP_MSG_INFORM then Some st
                      else let Xid = htonl (msg_Xid m); Flags = htons (msg_Flags m); mac = msg_Chaddr m;
                               (ret, st) = (case DhcpServer st of
                                  None \<Rightarrow> (None, st)
                                | Some sv \<Rightarrow> let (r, sv) = ClientTableLookup mac (o_type opt) (o_req opt) (o_server opt) sv
                                             in (r, st\<lparr>DhcpServer := Some sv\<rparr>))
                           in Some (case ret of
                                None \<Rightarrow> if o_type opt \<noteq> DHCP_MSG_RELEASE \<and> o_type opt \<noteq> DHCP_MSG_DECLINE
                                         then DHCPNakGenAndSend e mac Xid st else st
                              | Some i \<Rightarrow> DhcpClientSMEHandle e i (o_type opt) Xid Flags st))"

fun delete_client :: "mac \<Rightarrow> DHCP_CLIENT list \<Rightarrow> int \<times> DHCP_CLIENT list" where
  "delete_client mac [] = (DHCPS_ERR_NOT_FOUND, [])"
| "delete_client mac (c # cs) =
     (if State c \<noteq> DHCP_CLIENT_STATE_IDLE \<and> MacAddr c = mac
      then if State c \<noteq> DHCP_CLIENT_STATE_BIND then (DHCPS_ERR_NOT_BIND, c # cs)
           else (DHCPS_ERR_SUCCESS, c\<lparr>State := DHCP_CLIENT_STATE_IDLE\<rparr> # cs)
      else let (r, cs) = delete_client mac cs in (r, c # cs))"

text \<open>\<open>None\<close> is a \<^verbatim>\<open>NULL\<close> address.\<close>

definition DHCPS_ClientDelete :: "mac option \<Rightarrow> dhcps \<Rightarrow> int \<times> dhcps" where
  "DHCPS_ClientDelete mac st =
     (case DhcpServer st of
        None \<Rightarrow> (DHCPS_ERR_MEM, st)
      | Some sv \<Rightarrow>
          if \<not> Enable sv then (DHCPS_ERR_INACTIVE, st)
          else case mac of
                 None \<Rightarrow> (DHCPS_ERR_PARAM, st)
               | Some m \<Rightarrow> let (r, cs) = delete_client m (Clients sv)
                            in (r, st\<lparr>DhcpServer := Some (sv\<lparr>Clients := cs\<rparr>)\<rparr>))"

section \<open>Start and stop\<close>

text \<open>The network interface as the server sees it.\<close>

record netif =
  is_up :: bool
  ip_addr :: u32
  netmask :: u32

definition next_host :: "u32 \<Rightarrow> u32 \<Rightarrow> u32 \<Rightarrow> u32" where
  "next_host Mask tmp k = (if (tmp + k) mod (NOT Mask) \<noteq> 0 then (tmp + k) mod (NOT Mask) else 1)"

definition host_ip :: "u32 \<Rightarrow> u32 \<Rightarrow> u32 \<Rightarrow> u32" where
  "host_ip Mask Val k = htonl ((Val AND Mask) OR next_host Mask (Val AND NOT Mask) k)"

definition start_server :: "netif \<Rightarrow> DHCP_SERVER" where
  "start_server nif =
     (let Mask = htonl (netmask nif);
          start = host_ip Mask (htonl (ip_addr nif)) 1
      in \<lparr>Enable = False, Socket = False, ServerIpAddr = ip_addr nif, StartIpAddr = start, SubnetMask = netmask nif,
          GateWay = ip_addr nif, Dns1 = ip_addr nif, Dns2 = 0, LeaseTime = DHCP_DEFAULT_LEASE_TIME,
          Clients = map (\<lambda>i. zero_client\<lparr>IpAddr := host_ip Mask (htonl start) (of_nat i), Lease := DHCP_DEFAULT_LEASE_TIME\<rparr>) [0..<8]\<rparr>)"

text \<open>\<open>mem\<close>: the outcomes of the two allocations and of \<^verbatim>\<open>udp_new\<close>.\<close>

definition DHCPS_Start :: "bool \<times> bool \<times> bool \<Rightarrow> netif \<Rightarrow> dhcps \<Rightarrow> (int \<times> dhcps) option" where
  "DHCPS_Start mem nif st =
     (case mem of (m1, m2, sock) \<Rightarrow>
        if \<not> is_up nif then Some (DHCPS_ERR_LINKDOWN, st)
        else if DhcpServer st = None \<and> \<not> m1 \<or> DhcpMsg st = None \<and> \<not> m2
        then Some (DHCPS_ERR_MEM, st\<lparr>DhcpServer := None, DhcpMsg := None\<rparr>)
        else if NOT (htonl (netmask nif)) = 0 then None
        else let st = st\<lparr>DhcpMsg := Some (case DhcpMsg st of None \<Rightarrow> replicate MSG_SIZE 0 | Some m \<Rightarrow> m)\<rparr>;
                 sv = start_server nif;
                 st = log_net [Udp_new] st
             in if \<not> sock then Some (DHCPS_ERR_MEM, st\<lparr>DhcpServer := Some sv\<rparr>)
                else Some (DHCPS_ERR_SUCCESS,
                  log_net [Udp_bind 67, Udp_recv, Sys_timeout 1000] (st\<lparr>DhcpServer := Some (sv\<lparr>Socket := True, Enable := True\<rparr>)\<rparr>)))"

definition DHCPS_Stop :: "dhcps \<Rightarrow> dhcps" where
  "DHCPS_Stop st =
     (let st = (case DhcpServer st of
                  None \<Rightarrow> st
                | Some sv \<Rightarrow> log_net (Sys_untimeout # (if Socket sv then [Udp_remove] else [])) (st\<lparr>DhcpServer := None\<rparr>))
      in st\<lparr>DhcpMsg := None\<rparr>)"

end
