(* ===== verification/Dhcp_Table.thy ===== *)
theory Dhcp_Table
  imports Dhcp
begin

text \<open>
  The table of clients of the DHCP server: what the search finds, the invariant of the table,
  and the map from stations to addresses that it stands for.
\<close>

section \<open>What the search finds\<close>

definition first_such :: "(DHCP_CLIENT \<Rightarrow> bool) \<Rightarrow> DHCP_CLIENT list \<Rightarrow> nat option" where
  "first_such P cs = find (\<lambda>i. P (cs ! i)) [0..<length cs]"

lemma find_append: "find P (xs @ ys) = (case find P xs of None \<Rightarrow> find P ys | Some x \<Rightarrow> Some x)"
  by (induction xs) simp_all

lemma first_such_snoc: "first_such P (cs @ [c]) = first_of (P c) (length cs) (first_such P cs)"
proof -
  have "find (\<lambda>i. P ((cs @ [c]) ! i)) [0..<length cs] = first_such P cs"
    unfolding first_such_def by (rule find_cong) (simp_all add: nth_append)
  then show ?thesis
    unfolding first_such_def [of P "cs @ [c]"] by (simp add: find_append first_of_def split: option.split)
qed

lemma first_such_Nil [simp]: "first_such P [] = None"
  by (simp add: first_such_def)

lemma first_such_Some: "first_such P cs = Some i \<Longrightarrow> i < length cs \<and> P (cs ! i) \<and> (\<forall>j<i. \<not> P (cs ! j))"
  by (auto simp: first_such_def find_Some_iff)

lemma first_such_None: "first_such P cs = None \<longleftrightarrow> (\<forall>i<length cs. \<not> P (cs ! i))"
  by (auto simp: first_such_def find_None_iff)

abbreviation idle :: "DHCP_CLIENT \<Rightarrow> bool" where
  "idle c \<equiv> State c = DHCP_CLIENT_STATE_IDLE"

abbreviation bound :: "DHCP_CLIENT \<Rightarrow> bool" where
  "bound c \<equiv> State c = DHCP_CLIENT_STATE_BIND"

lemma first_idle: "first_such (\<lambda>c. idle c \<and> Q c) cs = Some r \<Longrightarrow> r < length cs \<and> idle (cs ! r)"
  by (drule first_such_Some) simp

lemma table_scan_Nil [simp]: "table_scan mac req [] = no_scan"
  by (simp add: table_scan_def)

lemma table_scan_snoc: "table_scan mac req (cs @ [c]) = scan_client mac req (length cs, c) (table_scan mac req cs)"
  by (simp add: table_scan_def enumerate_append_eq)

lemma scan_first:
  "pReqClient (table_scan mac req cs) = first_such (\<lambda>c. idle c \<and> IpAddr c = req) cs"
  "pMyHistoryClient (table_scan mac req cs) = first_such (\<lambda>c. idle c \<and> MacAddr c = mac) cs"
  "pFreeClient (table_scan mac req cs) = first_such (\<lambda>c. idle c \<and> MacAddr c = zero_mac) cs"
  "pHistoryClient (table_scan mac req cs) = first_such (\<lambda>c. idle c \<and> MacAddr c \<noteq> zero_mac) cs"
  by (induction cs rule: rev_induct)
     (simp_all add: no_scan_def table_scan_snoc scan_client_def first_such_snoc, simp_all add: first_of_def)

lemma scan_unavailable:
  "IpUnavailable (table_scan mac req cs) \<longleftrightarrow> (\<exists>c\<in>set cs. \<not> idle c \<and> MacAddr c \<noteq> mac \<and> IpAddr c = req)"
  by (induction cs rule: rev_induct) (auto simp: no_scan_def table_scan_snoc scan_client_def)

lemma scan_my:
  "case pMyClient (table_scan mac req cs) of
     None \<Rightarrow> \<forall>c\<in>set cs. idle c \<or> MacAddr c \<noteq> mac
   | Some i \<Rightarrow> i < length cs \<and> \<not> idle (cs ! i) \<and> MacAddr (cs ! i) = mac"
  by (induction cs rule: rev_induct)
     (auto simp: no_scan_def table_scan_snoc scan_client_def nth_append split: option.splits)

section \<open>Invariant\<close>

text \<open>Two entries do not conflict: two active ones belong to different stations, and no other entry
  remembers the station of a bound one.\<close>

definition no_conflict :: "DHCP_CLIENT \<Rightarrow> DHCP_CLIENT \<Rightarrow> bool" where
  "no_conflict a b \<longleftrightarrow> (\<not> idle a \<and> (\<not> idle b \<or> bound a \<and> MacAddr a \<noteq> zero_mac) \<longrightarrow> MacAddr a \<noteq> MacAddr b)"

definition client_ok :: "DHCP_CLIENT \<Rightarrow> bool" where
  "client_ok c \<longleftrightarrow> length (MacAddr c) = 6 \<and> State c \<noteq> DHCP_CLIENT_STATE_SELECT \<and>
     (State c = DHCP_CLIENT_STATE_REQUEST \<longrightarrow> 0 < Timeout c \<and> Timeout c \<le> DHCP_DEFFAULT_TIMEOUT) \<and>
     (bound c \<longrightarrow> 0 < Lease c \<and> Lease c \<le> DHCP_DEFAULT_LEASE_TIME)"

definition table_inv :: "DHCP_CLIENT list \<Rightarrow> bool" where
  "table_inv cs \<longleftrightarrow> (\<forall>c\<in>set cs. client_ok c) \<and> (\<forall>i<length cs. \<forall>j<length cs. i \<noteq> j \<longrightarrow> no_conflict (cs ! i) (cs ! j))"

lemma table_inv_update:
  assumes "table_inv cs" "i < length cs" "client_ok c"
    and "\<And>j. j < length cs \<Longrightarrow> j \<noteq> i \<Longrightarrow> no_conflict c (cs ! j) \<and> no_conflict (cs ! j) c"
  shows "table_inv (cs[i := c])"
proof -
  have "\<forall>d\<in>set (cs[i := c]). client_ok d"
    using assms(1,3) set_update_subset_insert [of cs i c] by (auto simp: table_inv_def)
  moreover have "no_conflict (cs[i := c] ! k) (cs[i := c] ! l)" if "k < length cs" "l < length cs" "k \<noteq> l" for k l
    using assms that by (cases "k = i"; cases "l = i") (simp_all add: table_inv_def)
  ultimately show ?thesis by (simp add: table_inv_def)
qed

lemma table_invD:
  "table_inv cs \<Longrightarrow> i < length cs \<Longrightarrow> client_ok (cs ! i)"
  "table_inv cs \<Longrightarrow> i < length cs \<Longrightarrow> j < length cs \<Longrightarrow> i \<noteq> j \<Longrightarrow> no_conflict (cs ! i) (cs ! j)"
  by (simp_all add: table_inv_def)

lemma client_ok_mac: "client_ok c \<Longrightarrow> length (MacAddr c) = 6"
  by (simp add: client_ok_def)

lemma length_zero_mac [simp]: "length zero_mac = 6"
  by (simp add: zero_mac_def)

text \<open>An entry that becomes idle and keeps or forgets its station keeps the invariant.\<close>

lemma table_inv_idle:
  assumes "table_inv cs" "i < length cs" "idle c" "MacAddr c = zero_mac \<or> \<not> idle (cs ! i) \<and> MacAddr c = MacAddr (cs ! i)"
  shows "table_inv (cs[i := c])"
proof (rule table_inv_update [OF assms(1,2)])
  show "client_ok c" using assms table_invD(1) [OF assms(1,2)] by (auto simp: client_ok_def)
  fix j assume j: "j < length cs" "j \<noteq> i"
  show "no_conflict c (cs ! j) \<and> no_conflict (cs ! j) c"
    using assms(3,4) table_invD(2) [OF assms(1) j(1) assms(2) j(2)] by (auto simp: no_conflict_def)
qed

lemma drop_client_simps [simp]:
  "State (drop_client c) = DHCP_CLIENT_STATE_IDLE" "IpAddr (drop_client c) = IpAddr c"
  "MacAddr (drop_client c) = (if bound c then MacAddr c else zero_mac)"
  by (simp_all add: drop_client_def)

lemma table_inv_drop: "table_inv cs \<Longrightarrow> i < length cs \<Longrightarrow> table_inv (cs[i := drop_client (cs ! i)])"
  by (rule table_inv_idle) auto

text \<open>An entry that is given to a station that no active entry belongs to.\<close>

lemma table_inv_assign:
  assumes "table_inv cs" "i < length cs" "idle (cs ! i)" "length mac = 6"
    and "\<And>j. j < length cs \<Longrightarrow> \<not> idle (cs ! j) \<Longrightarrow> MacAddr (cs ! j) \<noteq> mac"
  shows "table_inv (cs[i := (cs ! i)\<lparr>MacAddr := mac\<rparr>])"
proof (rule table_inv_update [OF assms(1,2)])
  show "client_ok ((cs ! i)\<lparr>MacAddr := mac\<rparr>)" using assms(3,4) by (simp add: client_ok_def)
  fix j assume "j < length cs" "j \<noteq> i"
  then show "no_conflict ((cs ! i)\<lparr>MacAddr := mac\<rparr>) (cs ! j) \<and> no_conflict (cs ! j) ((cs ! i)\<lparr>MacAddr := mac\<rparr>)"
    using assms(3,5) by (simp add: no_conflict_def)
qed

lemma upd_client_simps [simp]:
  "Clients (upd_client i f sv) = (Clients sv)[i := f (Clients sv ! i)]"
  "ServerIpAddr (upd_client i f sv) = ServerIpAddr sv" "Enable (upd_client i f sv) = Enable sv"
  by (simp_all add: upd_client_def)

section \<open>The search keeps the invariant\<close>

text \<open>What the search promises about its result: the entry belongs to the station, no other active entry
  does, and it is idle unless the message was a request.\<close>

definition found_ok :: "mac \<Rightarrow> u8 \<Rightarrow> nat option \<Rightarrow> DHCP_CLIENT list \<Rightarrow> bool" where
  "found_ok mac t ret cs \<longleftrightarrow> (case ret of None \<Rightarrow> True | Some r \<Rightarrow>
     r < length cs \<and> MacAddr (cs ! r) = mac \<and> (\<forall>j<length cs. j \<noteq> r \<and> \<not> idle (cs ! j) \<longrightarrow> MacAddr (cs ! j) \<noteq> mac) \<and>
     (t \<noteq> DHCP_MSG_REQUEST \<longrightarrow> idle (cs ! r)))"

text \<open>Before the station is written into the result.\<close>

definition found_pre :: "mac \<Rightarrow> u8 \<Rightarrow> nat option \<Rightarrow> DHCP_CLIENT list \<Rightarrow> bool" where
  "found_pre mac t ret cs \<longleftrightarrow> (case ret of None \<Rightarrow> True | Some r \<Rightarrow>
     r < length cs \<and> (\<forall>j<length cs. j \<noteq> r \<and> \<not> idle (cs ! j) \<longrightarrow> MacAddr (cs ! j) \<noteq> mac) \<and>
     (idle (cs ! r) \<or> t = DHCP_MSG_REQUEST \<and> MacAddr (cs ! r) = mac))"

lemma my_others:
  assumes "table_inv cs" "pMyClient (table_scan mac req cs) = Some i" "j < length cs" "j \<noteq> i" "\<not> idle (cs ! j)"
  shows "MacAddr (cs ! j) \<noteq> mac"
  using scan_my [of cs mac req] assms table_invD(2) [OF assms(1), of i j] by (simp add: no_conflict_def)

lemma no_my_others: "pMyClient (table_scan mac req cs) = None \<Longrightarrow> j < length cs \<Longrightarrow> \<not> idle (cs ! j) \<Longrightarrow> MacAddr (cs ! j) \<noteq> mac"
  using scan_my [of cs mac req] by auto

lemma lookup_discover_spec:
  assumes "table_inv (Clients sv)" "lookup_discover (table_scan mac req (Clients sv)) sv = (ret, sv')"
  shows "table_inv (Clients sv') \<and> found_pre mac t ret (Clients sv') \<and> length (Clients sv') = length (Clients sv)"
proof (cases "pMyClient (table_scan mac req (Clients sv))")
  case None
  then have "sv' = sv" "ret \<in> {first_such (\<lambda>c. idle c \<and> IpAddr c = req) (Clients sv), first_such (\<lambda>c. idle c \<and> MacAddr c = mac) (Clients sv),
      first_such (\<lambda>c. idle c \<and> MacAddr c = zero_mac) (Clients sv), first_such (\<lambda>c. idle c \<and> MacAddr c \<noteq> zero_mac) (Clients sv)}"
    using assms(2) by (auto simp: lookup_discover_def scan_first split: option.splits)
  moreover from this have "ret = Some r \<Longrightarrow> r < length (Clients sv) \<and> idle (Clients sv ! r)" for r
    by (auto dest!: first_idle sym [of "Some r"])
  ultimately show ?thesis using assms(1) no_my_others [OF None] by (auto simp: found_pre_def split: option.split)
next
  case (Some my)
  let ?c = "Clients sv ! my"
  have my: "my < length (Clients sv)" "\<not> idle ?c" using scan_my [of "Clients sv" mac req] Some by simp_all
  show ?thesis
  proof (cases "first_such (\<lambda>c. idle c \<and> IpAddr c = req) (Clients sv)")
    case None
    then have r: "ret = Some my" "Clients sv' = (Clients sv)[my := ?c\<lparr>State := DHCP_CLIENT_STATE_IDLE\<rparr>]"
      using assms(2) Some by (auto simp: lookup_discover_def scan_first)
    have "table_inv (Clients sv')" unfolding r by (rule table_inv_idle) (use assms(1) my in auto)
    moreover have "MacAddr (Clients sv' ! j) \<noteq> mac" if "j < length (Clients sv)" "j \<noteq> my" "\<not> idle (Clients sv' ! j)" for j
      using my_others [OF assms(1) Some that(1,2)] that by (simp add: r)
    ultimately show ?thesis using my by (simp add: found_pre_def r cong: conj_cong)
  next
    case R: (Some r)
    note R' = first_such_Some [OF R]
    have ne: "r \<noteq> my" using R' my by auto
    have r: "ret = Some r" "Clients sv' = (Clients sv)[my := ?c\<lparr>State := DHCP_CLIENT_STATE_IDLE, MacAddr := zero_mac\<rparr>]"
      using assms(2) Some R my by (auto simp: lookup_discover_def scan_first)
    have "table_inv (Clients sv')" unfolding r by (rule table_inv_idle) (use assms(1) my in auto)
    moreover have "MacAddr (Clients sv' ! j) \<noteq> mac" if "j < length (Clients sv)" "j \<noteq> r" "\<not> idle (Clients sv' ! j)" for j
      using my_others [OF assms(1) Some that(1)] that my by (cases "j = my") (simp_all add: r)
    ultimately show ?thesis using R' ne by (simp add: found_pre_def r)
  qed
qed

lemma lookup_request_spec:
  assumes "table_inv (Clients sv)" "lookup_request (table_scan mac req (Clients sv)) sid sv = (ret, sv')"
  shows "table_inv (Clients sv') \<and> found_pre mac DHCP_MSG_REQUEST ret (Clients sv') \<and> length (Clients sv') = length (Clients sv)"
proof (cases "pMyClient (table_scan mac req (Clients sv))")
  case None
  then have "sv' = sv" "ret = None \<or> ret = first_such (\<lambda>c. idle c \<and> IpAddr c = req) (Clients sv)"
    using assms(2) by (auto simp: lookup_request_def scan_first split: if_splits)
  moreover from this have "ret = Some r \<Longrightarrow> r < length (Clients sv) \<and> idle (Clients sv ! r)" for r
    by (auto dest!: first_idle sym [of "Some r"])
  ultimately show ?thesis using assms(1) no_my_others [OF None] by (auto simp: found_pre_def split: option.split)
next
  case (Some my)
  let ?c = "Clients sv ! my"
  have my: "my < length (Clients sv)" "\<not> idle ?c" "MacAddr ?c = mac" using scan_my [of "Clients sv" mac req] Some by simp_all
  have dropped: "table_inv ((Clients sv)[my := drop_client ?c])" by (rule table_inv_drop [OF assms(1) my(1)])
  show ?thesis
  proof (cases "ret = None \<or> ret = Some my")
    case True
    then have "Clients sv' = (Clients sv)[my := drop_client ?c] \<and> ret = None \<or> sv' = sv"
      using assms(2) Some my first_such_Some by (fastforce simp: lookup_request_def scan_first split: if_splits option.splits)
    then show ?thesis using True assms(1) dropped my my_others [OF assms(1) Some] by (auto simp: found_pre_def)
  next
    case False
    then obtain r where r: "first_such (\<lambda>c. idle c \<and> IpAddr c = req) (Clients sv) = Some r" "ret = Some r" "Clients sv' = (Clients sv)[my := drop_client ?c]"
      using assms(2) Some by (auto simp: lookup_request_def scan_first split: if_splits option.splits)
    note R' = first_such_Some [OF r(1)]
    have "r \<noteq> my" using R' my by auto
    moreover have "MacAddr (Clients sv' ! j) \<noteq> mac" if "j < length (Clients sv)" "j \<noteq> r" "\<not> idle (Clients sv' ! j)" for j
      using my_others [OF assms(1) Some that(1)] that my by (cases "j = my") (simp_all add: r)
    ultimately show ?thesis using R' dropped by (simp add: found_pre_def r)
  qed
qed


lemma found_assign:
  assumes "table_inv cs" "found_pre mac t (Some r) cs" "length mac = 6"
  shows "table_inv (cs[r := (cs ! r)\<lparr>MacAddr := mac\<rparr>]) \<and> found_ok mac t (Some r) (cs[r := (cs ! r)\<lparr>MacAddr := mac\<rparr>])"
proof (cases "idle (cs ! r)")
  case True
  have "table_inv (cs[r := (cs ! r)\<lparr>MacAddr := mac\<rparr>])"
    by (rule table_inv_assign) (use assms True in \<open>auto simp: found_pre_def\<close>)
  then show ?thesis using assms(2) True by (auto simp: found_ok_def found_pre_def)
next
  case False
  then have "cs[r := (cs ! r)\<lparr>MacAddr := mac\<rparr>] = cs" using assms(2) by (auto simp: found_pre_def)
  then show ?thesis using assms False by (simp add: found_ok_def found_pre_def)
qed

lemma lookup_cases:
  "ClientTableLookup mac t req sid sv =
    (let x = table_scan mac req (Clients sv);
         (ret, sv) = (if t = DHCP_MSG_DISCOVER then lookup_discover x sv
                      else if t = DHCP_MSG_REQUEST then lookup_request x sid sv
                      else (None, if (t = DHCP_MSG_RELEASE \<or> t = DHCP_MSG_DECLINE) \<and> pMyClient x \<noteq> None
                                  then upd_client (the (pMyClient x)) drop_client sv else sv))
     in (ret, case ret of None \<Rightarrow> sv | Some r \<Rightarrow> upd_client r (\<lambda>c. c\<lparr>MacAddr := mac\<rparr>) sv))"
  by (auto simp: ClientTableLookup_def Let_def split: option.split prod.split)

theorem lookup_spec:
  assumes "table_inv (Clients sv)" "length mac = 6" "ClientTableLookup mac t req sid sv = (ret, sv')"
  shows "table_inv (Clients sv')" "found_ok mac t ret (Clients sv')" "length (Clients sv') = length (Clients sv)"
proof -
  let ?x = "table_scan mac req (Clients sv)"
  define q where "q = (if t = DHCP_MSG_DISCOVER then lookup_discover ?x sv
      else if t = DHCP_MSG_REQUEST then lookup_request ?x sid sv
      else (None, if (t = DHCP_MSG_RELEASE \<or> t = DHCP_MSG_DECLINE) \<and> pMyClient ?x \<noteq> None
                  then upd_client (the (pMyClient ?x)) drop_client sv else sv))"
  obtain r s1 where q: "q = (r, s1)" by fastforce
  have r: "ret = r" "sv' = (case r of None \<Rightarrow> s1 | Some r \<Rightarrow> upd_client r (\<lambda>c. c\<lparr>MacAddr := mac\<rparr>) s1)"
    using assms(3) q unfolding lookup_cases Let_def q_def [symmetric] by auto
  have "table_inv (Clients s1) \<and> found_pre mac t r (Clients s1) \<and> length (Clients s1) = length (Clients sv)"
  proof -
    consider "t = DHCP_MSG_DISCOVER" | "t = DHCP_MSG_REQUEST" | "t \<noteq> DHCP_MSG_DISCOVER" "t \<noteq> DHCP_MSG_REQUEST" by blast
    then show ?thesis
    proof cases
      case 1
      then show ?thesis using lookup_discover_spec [OF assms(1)] q by (simp add: q_def)
    next
      case 2
      then show ?thesis using lookup_request_spec [OF assms(1)] q by (simp add: q_def)
    next
      case 3
      then show ?thesis using q assms(1) scan_my [of "Clients sv" mac req] table_inv_drop [OF assms(1)]
        by (auto simp: q_def found_pre_def split: if_splits)
    qed
  qed
  then show "table_inv (Clients sv')" "found_ok mac t ret (Clients sv')" "length (Clients sv') = length (Clients sv)"
    using found_assign [of "Clients s1" mac t] assms(2) unfolding r by (auto simp: found_ok_def split: option.split)
qed

text \<open>The search changes no address and no other member of the server.\<close>

lemma upd_client_ips: "(\<And>c. IpAddr (f c) = IpAddr c) \<Longrightarrow> map IpAddr (Clients (upd_client i f sv)) = map IpAddr (Clients sv)"
  by (cases "i < length (Clients sv)") (simp_all add: map_update list_update_beyond, metis list_update_id map_update)

lemma upd_client_frame: "upd_client i f sv = sv\<lparr>Clients := Clients (upd_client i f sv)\<rparr>"
  by (simp add: upd_client_def)

definition same_net :: "DHCP_SERVER \<Rightarrow> DHCP_SERVER \<Rightarrow> bool" where
  "same_net sv sv' \<longleftrightarrow> sv' = sv\<lparr>Clients := Clients sv'\<rparr> \<and> map IpAddr (Clients sv') = map IpAddr (Clients sv)"

lemma same_net_refl [simp]: "same_net sv sv"
  by (simp add: same_net_def)

lemma same_net_trans: "same_net a b \<Longrightarrow> same_net b c \<Longrightarrow> same_net a c"
  unfolding same_net_def by (metis DHCP_SERVER.surjective DHCP_SERVER.update_convs(10))

lemma same_net_upd [simp]: "(\<And>c. IpAddr (f c) = IpAddr c) \<Longrightarrow> same_net sv (upd_client i f sv)"
  unfolding same_net_def using upd_client_ips [of f i sv] upd_client_frame [of i f sv] by blast

lemma lookup_same_net: "ClientTableLookup mac t req sid sv = (ret, sv') \<Longrightarrow> same_net sv sv'"
proof -
  assume a: "ClientTableLookup mac t req sid sv = (ret, sv')"
  have d: "same_net sv (snd (lookup_discover x sv))" for x
    by (auto simp: lookup_discover_def Let_def split: option.split intro: same_net_trans [OF same_net_upd same_net_upd])
  have r: "same_net sv (snd (lookup_request x sid sv))" for x
    by (auto simp: lookup_request_def split: option.split)
  show ?thesis
    using a d [of "table_scan mac req (Clients sv)"] r [of "table_scan mac req (Clients sv)"]
    unfolding lookup_cases Let_def
    by (auto split: prod.splits if_splits option.splits intro: same_net_trans [OF _ same_net_upd])
qed

end
