(* ===== verification/Dhcp_Serve.thy ===== *)
theory Dhcp_Serve
  imports Dhcp_Table
begin

text \<open>
  What the DHCP server does with a packet and a tick, in terms of the map from stations to the addresses that
  are bound to them.
\<close>

section \<open>Bindings\<close>

definition bindings :: "DHCP_CLIENT list \<Rightarrow> mac \<rightharpoonup> u32" where
  "bindings cs m = map_option IpAddr (find_client (\<lambda>c. bound c \<and> MacAddr c = m) cs)"

lemma find_client_Some: "find_client P cs = Some c \<Longrightarrow> c \<in> set cs \<and> P c"
  by (induction cs) (auto split: if_splits)

lemma find_client_None: "find_client P cs = None \<longleftrightarrow> (\<forall>c\<in>set cs. \<not> P c)"
  by (induction cs) auto

lemma find_client_unique:
  assumes "i < length cs" "P (cs ! i)" "\<And>j. j < length cs \<Longrightarrow> P (cs ! j) \<Longrightarrow> j = i"
  shows "find_client P cs = Some (cs ! i)"
proof (cases "find_client P cs")
  case None
  then show ?thesis using assms(1,2) by (auto simp: find_client_None)
next
  case (Some c)
  then show ?thesis using find_client_Some [OF Some] assms(3) by (auto simp: in_set_conv_nth)
qed

lemma bindings_iff:
  assumes "table_inv cs"
  shows "bindings cs m = Some a \<longleftrightarrow> (\<exists>i<length cs. bound (cs ! i) \<and> MacAddr (cs ! i) = m \<and> IpAddr (cs ! i) = a)"
proof
  assume "bindings cs m = Some a"
  then obtain c where "find_client (\<lambda>c. bound c \<and> MacAddr c = m) cs = Some c" "IpAddr c = a" by (auto simp: bindings_def)
  then show "\<exists>i<length cs. bound (cs ! i) \<and> MacAddr (cs ! i) = m \<and> IpAddr (cs ! i) = a"
    using find_client_Some by (fastforce simp: in_set_conv_nth)
next
  assume "\<exists>i<length cs. bound (cs ! i) \<and> MacAddr (cs ! i) = m \<and> IpAddr (cs ! i) = a"
  then obtain i where i: "i < length cs" "bound (cs ! i)" "MacAddr (cs ! i) = m" "IpAddr (cs ! i) = a" by blast
  have u: "j = i" if "j < length cs" "bound (cs ! j) \<and> MacAddr (cs ! j) = m" for j
  proof (rule ccontr)
    assume "j \<noteq> i"
    from table_invD(2) [OF assms that(1) i(1) this] show False using that(2) i(2,3) by (simp add: no_conflict_def)
  qed
  have "find_client (\<lambda>c. bound c \<and> MacAddr c = m) cs = Some (cs ! i)"
    by (rule find_client_unique [OF i(1) _ u]) (use i in simp_all)
  then show "bindings cs m = Some a" using i by (simp add: bindings_def)
qed

text \<open>A step that binds nothing and only touches bindings of one station.\<close>

definition keeps :: "mac \<Rightarrow> DHCP_CLIENT \<Rightarrow> DHCP_CLIENT \<Rightarrow> bool" where
  "keeps mac c c' \<longleftrightarrow> (bound c' \<longrightarrow> c' = c) \<and> (bound c \<and> MacAddr c \<noteq> mac \<longrightarrow> c' = c)"

definition shrinks :: "mac \<Rightarrow> DHCP_CLIENT list \<Rightarrow> DHCP_CLIENT list \<Rightarrow> bool" where
  "shrinks mac cs cs' \<longleftrightarrow> list_all2 (keeps mac) cs cs'"

lemma keeps_refl [simp]: "keeps mac c c"
  by (simp add: keeps_def)

lemma keeps_trans: "keeps mac a b \<Longrightarrow> keeps mac b c \<Longrightarrow> keeps mac a c"
  unfolding keeps_def by metis

lemma shrinks_refl [simp]: "shrinks mac cs cs"
  by (simp add: shrinks_def list_all2_refl)

lemma shrinks_trans: "shrinks mac a b \<Longrightarrow> shrinks mac b c \<Longrightarrow> shrinks mac a c"
  unfolding shrinks_def by (rule list_all2_trans [OF keeps_trans])

lemma shrinks_upd:
  assumes "\<not> bound c" "bound (cs ! i) \<Longrightarrow> MacAddr (cs ! i) = mac"
  shows "shrinks mac cs (cs[i := c])"
proof -
  have "list_all2 (keeps mac) (cs[i := cs ! i]) (cs[i := c])"
    using assms by (intro list_all2_update_cong) (auto simp: keeps_def list_all2_refl)
  then show ?thesis by (simp add: shrinks_def)
qed

lemma shrinks_nth: "shrinks mac cs cs' \<Longrightarrow> j < length cs \<Longrightarrow> keeps mac (cs ! j) (cs' ! j)"
  unfolding shrinks_def by (rule list_all2_nthD)

lemma shrinks_length: "shrinks mac cs cs' \<Longrightarrow> length cs' = length cs"
  unfolding shrinks_def by (simp add: list_all2_lengthD)

lemma option_eq_by_Some: "(\<And>a. x = Some a \<longleftrightarrow> y = Some a) \<Longrightarrow> x = y"
  by (cases x; cases y) auto

lemma bindings_shrinks:
  assumes "table_inv cs" "table_inv cs'" "shrinks mac cs cs'"
  shows "bindings cs' = bindings cs \<or> bindings cs' = (bindings cs)(mac := None)"
proof -
  note len = shrinks_length [OF assms(3)] and nth = shrinks_nth [OF assms(3)]
  have sub: "bindings cs m = Some a" if H: "bindings cs' m = Some a" for m a
  proof -
    obtain i where i: "i < length cs" "bound (cs' ! i)" "MacAddr (cs' ! i) = m" "IpAddr (cs' ! i) = a"
      using H unfolding bindings_iff [OF assms(2)] len by blast
    then have "cs' ! i = cs ! i" using nth [of i] by (simp add: keeps_def)
    then show ?thesis unfolding bindings_iff [OF assms(1)] using i by (intro exI [of _ i]) simp
  qed
  have "bindings cs' m = Some a" if M: "m \<noteq> mac" and H: "bindings cs m = Some a" for m a
  proof -
    obtain i where i: "i < length cs" "bound (cs ! i)" "MacAddr (cs ! i) = m" "IpAddr (cs ! i) = a"
      using H unfolding bindings_iff [OF assms(1)] by blast
    have "cs' ! i = cs ! i" using nth [OF i(1)] i(2,3) M unfolding keeps_def by blast
    then show ?thesis unfolding bindings_iff [OF assms(2)] len using i by (intro exI [of _ i]) simp
  qed
  then have other: "bindings cs' m = bindings cs m" if "m \<noteq> mac" for m
    using sub that by (intro option_eq_by_Some) blast
  show ?thesis
  proof (cases "bindings cs' mac")
    case None
    then have "bindings cs' = (bindings cs)(mac := None)" by (intro ext) (simp add: other)
    then show ?thesis ..
  next
    case (Some a)
    then have "bindings cs' x = bindings cs x" for x using other [of x] sub [OF Some] by (cases "x = mac") simp_all
    then show ?thesis by blast
  qed
qed

lemma lookup_shrinks:
  assumes "table_inv (Clients sv)" "length mac = 6" "ClientTableLookup mac t req sid sv = (ret, sv')"
  shows "shrinks mac (Clients sv) (Clients sv')"
proof -
  let ?x = "table_scan mac req (Clients sv)"
  note my = scan_my [of "Clients sv" mac req]
  have d: "shrinks mac (Clients sv) (Clients (snd (lookup_discover ?x sv)))"
    using my by (auto simp: lookup_discover_def Let_def intro!: shrinks_upd split: option.split)
  have r: "shrinks mac (Clients sv) (Clients (snd (lookup_request ?x sid sv)))"
    using my by (auto simp: lookup_request_def intro!: shrinks_upd split: option.split)
  have x: "shrinks mac (Clients sv) (Clients (upd_client (the (pMyClient ?x)) drop_client sv))" if "pMyClient ?x \<noteq> None"
    using my that by (auto intro!: shrinks_upd)
  have w: "shrinks mac (Clients s1) (Clients (upd_client i (\<lambda>c. c\<lparr>MacAddr := mac\<rparr>) s1))"
    if "found_pre mac t (Some i) (Clients s1)" for i s1
  proof (cases "idle (Clients s1 ! i)")
    case True
    then show ?thesis by (auto intro!: shrinks_upd)
  next
    case False
    then have "(Clients s1)[i := (Clients s1 ! i)\<lparr>MacAddr := mac\<rparr>] = Clients s1" using that by (auto simp: found_pre_def)
    then show ?thesis by simp
  qed
  have "found_pre mac t (fst (lookup_discover ?x sv)) (Clients (snd (lookup_discover ?x sv)))"
    using lookup_discover_spec [OF assms(1), of mac req "fst (lookup_discover ?x sv)" "snd (lookup_discover ?x sv)" t] by simp
  moreover have "t = DHCP_MSG_REQUEST \<Longrightarrow> found_pre mac t (fst (lookup_request ?x sid sv)) (Clients (snd (lookup_request ?x sid sv)))"
    using lookup_request_spec [OF assms(1), of mac req sid "fst (lookup_request ?x sid sv)" "snd (lookup_request ?x sid sv)"] by simp
  ultimately show ?thesis
    using assms(3) d r x unfolding lookup_cases Let_def
    by (auto split: prod.splits if_splits option.splits intro: shrinks_trans [OF _ w])
qed

section \<open>The two outcomes for a client\<close>

definition clean :: "mac \<Rightarrow> DHCP_CLIENT \<Rightarrow> DHCP_CLIENT" where
  "clean mac c = (if idle c \<and> MacAddr c = mac then c\<lparr>MacAddr := zero_mac\<rparr> else c)"

definition bind_table :: "nat \<Rightarrow> mac \<Rightarrow> DHCP_CLIENT list \<Rightarrow> DHCP_CLIENT list" where
  "bind_table r mac cs = map (clean mac) (cs[r := (cs ! r)\<lparr>Lease := DHCP_DEFAULT_LEASE_TIME, State := DHCP_CLIENT_STATE_BIND\<rparr>])"

lemma clean_simps [simp]: "State (clean mac c) = State c" "IpAddr (clean mac c) = IpAddr c"
  "\<not> idle c \<Longrightarrow> clean mac c = c"
  by (simp_all add: clean_def)

lemma clean_ok: "client_ok c \<Longrightarrow> client_ok (clean mac c)"
  by (simp add: clean_def client_ok_def)

lemma no_conflict_clean: "no_conflict a b \<Longrightarrow> no_conflict (clean mac a) (clean mac b)"
  by (auto simp: no_conflict_def clean_def)

lemma bind_table_nth:
  "r < length cs \<Longrightarrow> i < length cs \<Longrightarrow> bind_table r mac cs ! i =
    (if i = r then (cs ! r)\<lparr>Lease := DHCP_DEFAULT_LEASE_TIME, State := DHCP_CLIENT_STATE_BIND\<rparr> else clean mac (cs ! i))"
  by (simp add: bind_table_def)

lemma length_bind_table [simp]: "length (bind_table r mac cs) = length cs"
  by (simp add: bind_table_def)

lemma bind_table_inv:
  assumes "table_inv cs" "found_ok mac t (Some r) cs"
  shows "table_inv (bind_table r mac cs)"
proof -
  have r: "r < length cs" "MacAddr (cs ! r) = mac" "\<And>j. j < length cs \<Longrightarrow> j \<noteq> r \<Longrightarrow> \<not> idle (cs ! j) \<Longrightarrow> MacAddr (cs ! j) \<noteq> mac"
    using assms(2) by (simp_all add: found_ok_def)
  have "client_ok (bind_table r mac cs ! i)" if "i < length cs" for i
    using table_invD(1) [OF assms(1) that] that r(1,2) by (auto simp: bind_table_nth clean_ok) (simp add: client_ok_def)
  moreover have "no_conflict (bind_table r mac cs ! i) (bind_table r mac cs ! j)" if "i < length cs" "j < length cs" "i \<noteq> j" for i j
  proof -
    consider "i = r" | "j = r" "i \<noteq> r" | "i \<noteq> r" "j \<noteq> r" by blast
    then show ?thesis
    proof cases
      case 1
      then show ?thesis using r(2) r(3) [of j] that by (cases "idle (cs ! j)") (auto simp: bind_table_nth no_conflict_def clean_def)
    next
      case 2
      then show ?thesis using r(2) r(3) [of i] that by (simp add: bind_table_nth no_conflict_def clean_def)
    next
      case 3
      then show ?thesis using table_invD(2) [OF assms(1) that] that r(1) by (simp add: bind_table_nth no_conflict_clean)
    qed
  qed
  ultimately show ?thesis by (auto simp: table_inv_def in_set_conv_nth)
qed

lemma bind_table_bindings:
  assumes "table_inv cs" "found_ok mac t (Some r) cs"
  shows "bindings (bind_table r mac cs) = (bindings cs)(mac \<mapsto> IpAddr (cs ! r))"
proof -
  have r: "r < length cs" "MacAddr (cs ! r) = mac" "\<And>j. j < length cs \<Longrightarrow> j \<noteq> r \<Longrightarrow> \<not> idle (cs ! j) \<Longrightarrow> MacAddr (cs ! j) \<noteq> mac"
    using assms(2) by (simp_all add: found_ok_def)
  note iff = bindings_iff [OF bind_table_inv [OF assms]]
  have mac: "bindings (bind_table r mac cs) mac = Some (IpAddr (cs ! r))"
    unfolding iff using r(1,2) by (intro exI [of _ r]) (simp add: bind_table_nth)
  have "bindings (bind_table r mac cs) m = Some a \<longleftrightarrow> bindings cs m = Some a" if "m \<noteq> mac" for m a
    unfolding iff bindings_iff [OF assms(1)] using r(1,2) that by (auto simp: bind_table_nth split: if_splits)
  then have "bindings (bind_table r mac cs) m = bindings cs m" if "m \<noteq> mac" for m
    using that by (intro option_eq_by_Some) blast
  then show ?thesis using mac by auto
qed

definition offer_table :: "nat \<Rightarrow> DHCP_CLIENT list \<Rightarrow> DHCP_CLIENT list" where
  "offer_table r cs = cs[r := (cs ! r)\<lparr>Timeout := DHCP_DEFFAULT_TIMEOUT, State := DHCP_CLIENT_STATE_REQUEST\<rparr>]"

lemma offer_table_inv:
  assumes "table_inv cs" "found_ok mac t (Some r) cs" "idle (cs ! r)"
  shows "table_inv (offer_table r cs)" "shrinks mac cs (offer_table r cs)"
proof -
  have r: "r < length cs" "MacAddr (cs ! r) = mac" "\<And>j. j < length cs \<Longrightarrow> j \<noteq> r \<Longrightarrow> \<not> idle (cs ! j) \<Longrightarrow> MacAddr (cs ! j) \<noteq> mac"
    using assms(2) by (simp_all add: found_ok_def)
  show "table_inv (offer_table r cs)" unfolding offer_table_def
  proof (rule table_inv_update [OF assms(1) r(1)])
    show "client_ok ((cs ! r)\<lparr>Timeout := DHCP_DEFFAULT_TIMEOUT, State := DHCP_CLIENT_STATE_REQUEST\<rparr>)"
      using table_invD(1) [OF assms(1) r(1)] by (simp add: client_ok_def)
    fix j assume "j < length cs" "j \<noteq> r"
    from r(3) [OF this] r(2)
    show "no_conflict ((cs ! r)\<lparr>Timeout := DHCP_DEFFAULT_TIMEOUT, State := DHCP_CLIENT_STATE_REQUEST\<rparr>) (cs ! j) \<and>
      no_conflict (cs ! j) ((cs ! r)\<lparr>Timeout := DHCP_DEFFAULT_TIMEOUT, State := DHCP_CLIENT_STATE_REQUEST\<rparr>)"
      by (auto simp: no_conflict_def)
  qed
  show "shrinks mac cs (offer_table r cs)" unfolding offer_table_def using assms(3) by (auto intro!: shrinks_upd)
qed


section \<open>Messages that leave\<close>

text \<open>The messages of one type among recorded calls, as a client reads them: its station and its address.\<close>

fun reply_of :: "u8 \<Rightarrow> net_call \<Rightarrow> (mac \<times> u32) option" where
  "reply_of t (Udp_sendto d m) =
     (case ParseDhcpOptions (in_buffer m) of
        Some x \<Rightarrow> if o_type x = t then Some (msg_Chaddr m, msg_Yiaddr m) else None
      | None \<Rightarrow> None)"
| "reply_of t c = None"

definition replies :: "u8 \<Rightarrow> net_call list \<Rightarrow> (mac \<times> u32) list" where
  "replies t cs = List.map_filter (reply_of t) cs"

abbreviation "offers \<equiv> replies DHCP_MSG_OFFER"
abbreviation "acks \<equiv> replies DHCP_MSG_ACK"

lemma replies_simps [simp]:
  "replies t [] = []" "replies t (c # cs) = (case reply_of t c of None \<Rightarrow> replies t cs | Some x \<Rightarrow> x # replies t cs)"
  by (simp_all add: replies_def List.map_filter_def split: option.split)

lemma reply_of_nak: "length mac = 6 \<Longrightarrow> t \<noteq> DHCP_MSG_NAK \<Longrightarrow> reply_of t (Udp_sendto d (nak_msg server mac Xid)) = None"
  by (simp add: nak_msg_parse)

lemma reply_of_lease:
  assumes "length mac = 6"
  shows "reply_of t' (Udp_sendto d (lease_msg t ip server nm gw d1 d2 mac Xid)) = (if t = t' then Some (mac, ip) else None)"
  using assms header_fields(1,2) [OF assms] by (simp add: lease_msg_parse) (simp add: lease_msg_opts)

lemma send_frame:
  assumes "DhcpServer st = Some sv" "DhcpMsg st \<noteq> None" "length (MacAddr c) = 6"
  shows "\<exists>new. net (lease_gen_and_send t e c Xid Flags st) = net st @ new \<and>
      (\<forall>t'. replies t' new = (if pbuf_ok e \<and> t = t' then [(MacAddr c, IpAddr c)] else []))"
    and "DhcpServer (lease_gen_and_send t e c Xid Flags st) = Some sv" "DhcpMsg (lease_gen_and_send t e c Xid Flags st) \<noteq> None"
  using assms by (auto simp: lease_gen_and_send_def log_net_def Let_def reply_of_lease simp del: reply_of.simps(1))

lemma nak_frame:
  assumes "DhcpServer st = Some sv" "DhcpMsg st \<noteq> None" "length mac = 6"
  shows "\<exists>new. net (DHCPNakGenAndSend e mac Xid st) = net st @ new \<and> acks new = []"
    and "DhcpServer (DHCPNakGenAndSend e mac Xid st) = Some sv" "DhcpMsg (DHCPNakGenAndSend e mac Xid st) \<noteq> None"
  using assms by (auto simp: DHCPNakGenAndSend_def log_net_def Let_def reply_of_nak simp del: reply_of.simps(1))

lemma with_server_simps [simp]:
  "DhcpServer (with_server f st) = map_option f (DhcpServer st)" "DhcpMsg (with_server f st) = DhcpMsg st" "net (with_server f st) = net st"
  by (simp_all add: with_server_def)

lemma clean_history: "CleanClientHistory mac sv = sv\<lparr>Clients := map (clean mac) (Clients sv)\<rparr>"
  by (simp add: CleanClientHistory_def clean_def cong: map_cong)

lemma sme_bind_result:
  assumes "DhcpServer st = Some sv" "DhcpMsg st \<noteq> None" "length (MacAddr c) = 6" "c = Clients sv ! i"
  shows "DhcpServer (sme_bind e i c Xid Flags st) = Some (sv\<lparr>Clients := bind_table i (MacAddr c) (Clients sv)\<rparr>)"
    and "DhcpMsg (sme_bind e i c Xid Flags st) \<noteq> None"
    and "\<exists>new. net (sme_bind e i c Xid Flags st) = net st @ new \<and> acks new = (if pbuf_ok e then [(MacAddr c, IpAddr c)] else [])"
  using send_frame [OF assms(1-3), of DHCP_MSG_ACK e Xid Flags] assms(4)
  by (auto simp: sme_bind_def DHCPAckGenAndSend_def Let_def clean_history bind_table_def upd_client_def)

lemma sme_offer_result:
  assumes "DhcpServer st = Some sv" "DhcpMsg st \<noteq> None" "length (MacAddr c) = 6" "c = (Clients sv ! i)\<lparr>State := x\<rparr>"
  shows "DhcpServer (sme_offer e i c Xid Flags st) = Some (sv\<lparr>Clients := offer_table i (Clients sv)\<rparr>)"
    and "DhcpMsg (sme_offer e i c Xid Flags st) \<noteq> None"
    and "\<exists>new. net (sme_offer e i c Xid Flags st) = net st @ new \<and> acks new = [] \<and>
      offers new = (if pbuf_ok e then [(MacAddr c, IpAddr c)] else [])"
  using send_frame [OF assms(1-3), of DHCP_MSG_OFFER e Xid Flags]
  by (auto simp: sme_offer_def DHCPOfferGenAndSend_def Let_def offer_table_def upd_client_def)


section \<open>Packets\<close>

definition serving :: "dhcps \<Rightarrow> DHCP_SERVER \<Rightarrow> bool" where
  "serving st sv \<longleftrightarrow> DhcpServer st = Some sv \<and> DhcpMsg st \<noteq> None \<and> table_inv (Clients sv)"

lemma offer_after_select: "offer_table i (cs[i := (cs ! i)\<lparr>State := x\<rparr>]) = offer_table i cs"
  by (cases "i < length cs") (simp_all add: offer_table_def list_update_beyond)

lemma offer_same_net: "same_net sv (sv\<lparr>Clients := offer_table i (Clients sv)\<rparr>)"
  using same_net_upd [of "\<lambda>c. c\<lparr>Timeout := DHCP_DEFFAULT_TIMEOUT, State := DHCP_CLIENT_STATE_REQUEST\<rparr>" sv i]
  by (simp add: upd_client_def offer_table_def)

lemma bind_same_net: "same_net sv (sv\<lparr>Clients := bind_table i mac (Clients sv)\<rparr>)"
proof -
  let ?f = "\<lambda>c. c\<lparr>Lease := DHCP_DEFAULT_LEASE_TIME, State := DHCP_CLIENT_STATE_BIND\<rparr> :: DHCP_CLIENT"
  have "map IpAddr (bind_table i mac (Clients sv)) = map IpAddr (Clients (upd_client i ?f sv))"
    by (simp add: bind_table_def)
  then show ?thesis using upd_client_ips [of ?f i sv] by (simp add: same_net_def)
qed

text \<open>What the state machine does with the client that the search found.\<close>

lemma sme_result:
  assumes "serving st sv" "found_ok mac t (Some i) (Clients sv)" "length mac = 6" "t = DHCP_MSG_DISCOVER \<or> t = DHCP_MSG_REQUEST"
    and "st' = DhcpClientSMEHandle e i t Xid Flags st"
  shows "\<exists>sv' new. serving st' sv' \<and> same_net sv sv' \<and> net st' = net st @ new \<and>
    (if t = DHCP_MSG_DISCOVER
     then acks new = [] \<and> offers new = (if pbuf_ok e then [(mac, IpAddr (Clients sv ! i))] else []) \<and> Clients sv' = offer_table i (Clients sv)
     else acks new = (if pbuf_ok e then [(mac, IpAddr (Clients sv ! i))] else []) \<and> Clients sv' = bind_table i mac (Clients sv))"
proof -
  let ?c = "Clients sv ! i"
  have S: "DhcpServer st = Some sv" "DhcpMsg st \<noteq> None" "table_inv (Clients sv)" using assms(1) by (simp_all add: serving_def)
  have C: "MacAddr ?c = mac" "i < length (Clients sv)" "t \<noteq> DHCP_MSG_REQUEST \<Longrightarrow> idle ?c" using assms(2) by (simp_all add: found_ok_def)
  have ns: "State ?c \<noteq> DHCP_CLIENT_STATE_SELECT" using table_invD(1) [OF S(3) C(2)] by (simp add: client_ok_def)
  show ?thesis
  proof (cases "t = DHCP_MSG_DISCOVER")
    case True
    let ?s = "with_server (upd_client i (\<lambda>c. c\<lparr>State := DHCP_CLIENT_STATE_SELECT\<rparr>)) st"
    let ?sv = "upd_client i (\<lambda>c. c\<lparr>State := DHCP_CLIENT_STATE_SELECT\<rparr>) sv"
    have i: "idle ?c" using C(3) True by simp
    then have e: "st' = sme_offer e i ?c Xid Flags ?s" using assms(5) True S(1) by (simp add: DhcpClientSMEHandle_def)
    have c: "?c = (Clients ?sv ! i)\<lparr>State := DHCP_CLIENT_STATE_IDLE\<rparr>" using C(2) i by simp
    have "DhcpServer st' = Some (sv\<lparr>Clients := offer_table i (Clients sv)\<rparr>)" "DhcpMsg st' \<noteq> None"
      "\<exists>new. net st' = net st @ new \<and> acks new = [] \<and> offers new = (if pbuf_ok e then [(MacAddr ?c, IpAddr ?c)] else [])"
      using sme_offer_result [where st = ?s and sv = ?sv and e = e and Xid = Xid and Flags = Flags, OF _ _ _ c] S C(1) assms(3) unfolding e
      by (simp_all add: offer_after_select upd_client_def)
    moreover have "table_inv (offer_table i (Clients sv))" by (rule offer_table_inv(1) [OF S(3) assms(2) i])
    ultimately show ?thesis using offer_same_net [of sv i] True C(1) by (auto simp: serving_def)
  next
    case False
    then have e: "st' = sme_bind e i ?c Xid Flags st"
      using assms(4,5) S(1) ns by (auto simp: DhcpClientSMEHandle_def Let_def split: DHCP_CLIENT_STATE.split)
    have "length (MacAddr ?c) = 6" using C(1) assms(3) by simp
    note R = sme_bind_result [OF S(1,2) this refl, of e Xid Flags, folded e, unfolded C(1)]
    moreover have "table_inv (bind_table i mac (Clients sv))" by (rule bind_table_inv [OF S(3) assms(2)])
    ultimately show ?thesis using bind_same_net [of sv i mac] False by (auto simp: serving_def)
  qed
qed

lemma lookup_types: "ClientTableLookup mac t req sid sv = (Some i, sv') \<Longrightarrow> t = DHCP_MSG_DISCOVER \<or> t = DHCP_MSG_REQUEST"
  by (auto simp: ClientTableLookup_def Let_def split: if_splits option.splits)

text \<open>A packet that is not thrown away.\<close>

definition handle_msg :: "dhcp_env \<Rightarrow> mac \<Rightarrow> dhcp_opts \<Rightarrow> u32 \<Rightarrow> u16 \<Rightarrow> DHCP_SERVER \<Rightarrow> dhcps \<Rightarrow> dhcps" where
  "handle_msg e mac opt Xid Flags sv st =
     (let (r, sv') = ClientTableLookup mac (o_type opt) (o_req opt) (o_server opt) sv; st' = st\<lparr>DhcpServer := Some sv'\<rparr>
      in case r of
           None \<Rightarrow> if o_type opt \<noteq> DHCP_MSG_RELEASE \<and> o_type opt \<noteq> DHCP_MSG_DECLINE then DHCPNakGenAndSend e mac Xid st' else st'
         | Some i \<Rightarrow> DhcpClientSMEHandle e i (o_type opt) Xid Flags st')"

lemma recv_cases:
  assumes "DhcpServer st = Some sv" "DhcpMsg st \<noteq> None" "DHCPS_RecvCb e P st = Some st'"
  shows "st' = st\<lparr>DhcpMsg := Some (in_buffer P)\<rparr> \<or>
    (\<exists>opt. ParseDhcpOptions (in_buffer P) = Some opt \<and> accepted P (in_buffer P) e \<and>
       st' = handle_msg e (msg_Chaddr (in_buffer P)) opt (htonl (msg_Xid (in_buffer P))) (htons (msg_Flags (in_buffer P))) sv
               (st\<lparr>DhcpMsg := Some (in_buffer P)\<rparr>))"
proof -
  let ?m = "in_buffer P"
  obtain b where b: "DhcpMsg st = Some b" using assms(2) by auto
  consider "\<not> accepted P ?m e"
    | opt where "accepted P ?m e" "ParseDhcpOptions ?m = Some opt" "o_ret opt AND 1 = 0 \<or> o_type opt = DHCP_MSG_INFORM"
    | opt where "accepted P ?m e" "ParseDhcpOptions ?m = Some opt" "\<not> (o_ret opt AND 1 = 0 \<or> o_type opt = DHCP_MSG_INFORM)"
    using assms(3) b unfolding DHCPS_RecvCb_def Let_def by (cases "ParseDhcpOptions ?m"; cases "accepted P ?m e") auto
  then show ?thesis
  proof cases
    case (3 opt)
    then have "st' = handle_msg e (msg_Chaddr ?m) opt (htonl (msg_Xid ?m)) (htons (msg_Flags ?m)) sv (st\<lparr>DhcpMsg := Some ?m\<rparr>)"
      using assms(1,3) b unfolding DHCPS_RecvCb_def handle_msg_def Let_def by (simp add: case_prod_beta split: option.splits)
    then show ?thesis using 3(1,2) by blast
  qed (use assms(3) b in \<open>auto simp: DHCPS_RecvCb_def Let_def\<close>)
qed

lemma handle_result:
  assumes "serving st sv" "length mac = 6" "st' = handle_msg e mac opt Xid Flags sv st"
  shows "\<exists>sv' new. serving st' sv' \<and> same_net sv sv' \<and> net st' = net st @ new \<and>
    (acks new = [] \<and> bindings (Clients sv') \<in> {bindings (Clients sv), (bindings (Clients sv))(mac := None)} \<or>
     (\<exists>a. acks new = (if pbuf_ok e then [(mac, a)] else []) \<and> bindings (Clients sv') = (bindings (Clients sv))(mac \<mapsto> a)))"
proof -
  have S: "DhcpMsg st \<noteq> None" "table_inv (Clients sv)" using assms(1) by (simp_all add: serving_def)
  obtain r s1 where l: "ClientTableLookup mac (o_type opt) (o_req opt) (o_server opt) sv = (r, s1)" by fastforce
  let ?st = "st\<lparr>DhcpServer := Some s1\<rparr>"
  note L = lookup_spec [OF S(2) assms(2) l] and N = lookup_same_net [OF l]
  have s1: "serving ?st s1" using S(1) L(1) by (simp add: serving_def)
  have B: "bindings (Clients s1) \<in> {bindings (Clients sv), (bindings (Clients sv))(mac := None)}"
    using bindings_shrinks [OF S(2) L(1) lookup_shrinks [OF S(2) assms(2) l]] by simp
  show ?thesis
  proof (cases r)
    case None
    then have st': "st' = ?st \<or> st' = DHCPNakGenAndSend e mac Xid ?st" using assms(3) l by (auto simp: handle_msg_def Let_def)
    have "serving st' s1 \<and> (\<exists>new. net st' = net st @ new \<and> acks new = [])"
      using st' nak_frame [of ?st s1 mac e Xid] S(1) assms(2) L(1) s1 by (auto simp: serving_def)
    then show ?thesis using N B by blast
  next
    case (Some i)
    have st': "st' = DhcpClientSMEHandle e i (o_type opt) Xid Flags ?st" using assms(3) l Some by (simp add: handle_msg_def)
    note T = lookup_types [OF l [unfolded Some]] and F = L(2) [unfolded Some]
    obtain sv' new where R: "serving st' sv'" "same_net s1 sv'" "net st' = net st @ new"
      "if o_type opt = DHCP_MSG_DISCOVER then acks new = [] \<and> Clients sv' = offer_table i (Clients s1)
       else acks new = (if pbuf_ok e then [(mac, IpAddr (Clients s1 ! i))] else []) \<and> Clients sv' = bind_table i mac (Clients s1)"
      using sme_result [OF s1 F assms(2) T st'] by auto
    have SN: "same_net sv sv'" by (rule same_net_trans [OF N R(2)])
    show ?thesis
    proof (cases "o_type opt = DHCP_MSG_DISCOVER")
      case True
      then have "idle (Clients s1 ! i)" using F by (simp add: found_ok_def)
      note O = offer_table_inv [OF L(1) F this]
      have "shrinks mac (Clients sv) (Clients sv')"
        using shrinks_trans [OF lookup_shrinks [OF S(2) assms(2) l] O(2)] R(4) True by simp
      from bindings_shrinks [OF S(2) _ this] R(1) have "bindings (Clients sv') \<in> {bindings (Clients sv), (bindings (Clients sv))(mac := None)}"
        by (simp add: serving_def)
      then show ?thesis using R SN True by auto
    next
      case False
      have "bindings (Clients sv') = (bindings (Clients s1))(mac \<mapsto> IpAddr (Clients s1 ! i))"
        using bind_table_bindings [OF L(1) F] R(4) False by simp
      then have "bindings (Clients sv') = (bindings (Clients sv))(mac \<mapsto> IpAddr (Clients s1 ! i))" using B by auto
      then show ?thesis using R SN False by (intro exI [of _ sv'] exI [of _ new]) auto
    qed
  qed
qed

theorem recv_result:
  assumes "serving st sv" "DHCPS_RecvCb e P st = Some st'" "mac = msg_Chaddr (in_buffer P)"
  shows "\<exists>sv' new. serving st' sv' \<and> same_net sv sv' \<and> net st' = net st @ new \<and>
    (acks new = [] \<and> bindings (Clients sv') \<in> {bindings (Clients sv), (bindings (Clients sv))(mac := None)} \<or>
     (\<exists>a. acks new = (if pbuf_ok e then [(mac, a)] else []) \<and> bindings (Clients sv') = (bindings (Clients sv))(mac \<mapsto> a)))"
proof -
  have S: "DhcpServer st = Some sv" "DhcpMsg st \<noteq> None" using assms(1) by (simp_all add: serving_def)
  have s1: "serving (st\<lparr>DhcpMsg := Some (in_buffer P)\<rparr>) sv" using assms(1) by (simp add: serving_def)
  have "length mac = 6" by (simp add: assms(3))
  note H = handle_result [OF s1 this, of st' e]
  consider "st' = st\<lparr>DhcpMsg := Some (in_buffer P)\<rparr>"
    | opt Xid Flags where "st' = handle_msg e mac opt Xid Flags sv (st\<lparr>DhcpMsg := Some (in_buffer P)\<rparr>)"
    using recv_cases [OF S assms(2)] unfolding assms(3) by blast
  then show ?thesis
  proof cases
    case 1
    then show ?thesis using s1 by (intro exI [of _ sv] exI [of _ "[]"]) simp
  next
    case 2
    from H [OF this] show ?thesis by simp
  qed
qed

end
