(* ===== verification/Dhcp_Reach.thy ===== *)
theory Dhcp_Reach
  imports Dhcp_Serve
begin

text \<open>
  Every sequence of packets, ticks and calls after the start of the DHCP server: the invariant of the table, the
  pool of addresses that the start computes, and the expiry of leases.
\<close>

unbundle bit_operations_syntax

section \<open>Tick\<close>

text \<open>A tick leaves an entry to its station or makes it idle; the station of a pending offer is forgotten.\<close>

lemma tick_cases:
  "tick_client sta c = c \<or>
   State c = DHCP_CLIENT_STATE_REQUEST \<and> Timeout c \<noteq> 0 \<and>
     (Timeout c - 1 \<noteq> 0 \<and> tick_client sta c = c\<lparr>Timeout := Timeout c - 1\<rparr> \<or>
      Timeout c - 1 = 0 \<and> tick_client sta c = c\<lparr>Timeout := Timeout c - 1, MacAddr := zero_mac, State := DHCP_CLIENT_STATE_IDLE\<rparr>) \<or>
   bound c \<and> (\<exists>l. (l = 0 \<longrightarrow> Lease c = 0 \<or> idle (tick_client sta c)) \<and> l = (if Lease c = 0 then 0 else Lease c - 1) \<and>
     (tick_client sta c = c\<lparr>Lease := l\<rparr> \<or> tick_client sta c = c\<lparr>Lease := l, State := DHCP_CLIENT_STATE_IDLE\<rparr>))"
  by (cases "State c") (simp_all add: tick_client_def Let_def)

lemma word_pred_bounds: "x \<noteq> 0 \<Longrightarrow> x - 1 \<noteq> 0 \<Longrightarrow> x \<le> b \<Longrightarrow> 0 < x - 1 \<and> x - 1 \<le> b" for x b :: u32
  by (simp add: word_gt_0 word_le_nat_alt unat_minus_one)

lemma tick_ok: "client_ok c \<Longrightarrow> client_ok (tick_client sta c)"
  using tick_cases [of sta c] word_pred_bounds by (auto simp: client_ok_def)

lemma tick_fields:
  "IpAddr (tick_client sta c) = IpAddr c"
  "\<not> idle (tick_client sta c) \<Longrightarrow> State c = State (tick_client sta c) \<and> MacAddr c = MacAddr (tick_client sta c)"
  "MacAddr (tick_client sta c) = MacAddr c \<or> MacAddr (tick_client sta c) = zero_mac"
  using tick_cases [of sta c] by auto

lemma tick_no_conflict: "no_conflict a b \<Longrightarrow> no_conflict (tick_client s a) (tick_client t b)"
proof (unfold no_conflict_def, intro impI)
  let ?a = "tick_client s a" and ?b = "tick_client t b"
  assume ab: "\<not> idle a \<and> (\<not> idle b \<or> bound a \<and> MacAddr a \<noteq> zero_mac) \<longrightarrow> MacAddr a \<noteq> MacAddr b"
    and h: "\<not> idle ?a \<and> (\<not> idle ?b \<or> bound ?a \<and> MacAddr ?a \<noteq> zero_mac)"
  have a: "State a = State ?a" "MacAddr a = MacAddr ?a" using tick_fields(2) [of s a] h by blast+
  show "MacAddr ?a \<noteq> MacAddr ?b"
  proof (cases "idle ?b")
    case True
    then have "bound a" "MacAddr a \<noteq> zero_mac" using a h by simp_all
    then have "MacAddr a \<noteq> MacAddr b" using ab by simp
    then show ?thesis using a(2) tick_fields(3) [of t b] \<open>MacAddr a \<noteq> zero_mac\<close> by metis
  next
    case False
    then have "State b = State ?b" "MacAddr b = MacAddr ?b" using tick_fields(2) [of t b] by blast+
    then show ?thesis using ab a h False by simp
  qed
qed

definition tick_table :: "(nat \<Rightarrow> mac list option) \<Rightarrow> DHCP_CLIENT list \<Rightarrow> DHCP_CLIENT list" where
  "tick_table sta cs = map (\<lambda>(i, c). tick_client (sta i) c) (enumerate 0 cs)"

lemma tick_table_nth [simp]: "i < length cs \<Longrightarrow> tick_table sta cs ! i = tick_client (sta i) (cs ! i)"
  by (simp add: tick_table_def nth_enumerate_eq)

lemma length_tick_table [simp]: "length (tick_table sta cs) = length cs"
  by (simp add: tick_table_def)

lemma tick_table_inv: "table_inv cs \<Longrightarrow> table_inv (tick_table sta cs)"
  by (auto simp: table_inv_def all_set_conv_all_nth tick_ok intro!: tick_no_conflict)

lemma tick_table_ips: "map IpAddr (tick_table sta cs) = map IpAddr cs"
  by (rule nth_equalityI) (simp_all add: tick_fields)

lemma tick_handle:
  assumes "serving st sv" "Enable sv"
  shows "serving (DhcpTickHandle sta st) (sv\<lparr>Clients := tick_table sta (Clients sv)\<rparr>)"
  using assms tick_table_inv by (simp add: DhcpTickHandle_def serving_def log_net_def tick_table_def)

section \<open>Deletion\<close>

lemma delete_client_cases:
  "delete_client mac cs = (r, cs') \<Longrightarrow>
    cs' = cs \<or> (\<exists>i<length cs. bound (cs ! i) \<and> MacAddr (cs ! i) = mac \<and> cs' = cs[i := (cs ! i)\<lparr>State := DHCP_CLIENT_STATE_IDLE\<rparr>])"
proof (induction mac cs arbitrary: r cs' rule: delete_client.induct)
  case (2 mac c cs)
  show ?case
  proof (cases "\<not> idle c \<and> MacAddr c = mac")
    case True
    then show ?thesis using 2(2) by (auto intro: exI [of _ 0] split: if_splits)
  next
    case False
    obtain r1 cs1 where d: "delete_client mac cs = (r1, cs1)" by fastforce
    have "cs' = c # cs1" using 2(2) False d by auto
    then show ?thesis using 2(1) [OF False d] by (auto intro: exI [of _ "Suc i" for i])
  qed
qed simp

lemma delete_serving:
  assumes "serving st sv" "DHCPS_ClientDelete m st = (r, st')"
  shows "\<exists>sv'. serving st' sv' \<and> same_net sv sv'"
proof (cases "Enable sv \<and> m \<noteq> None")
  case True
  then obtain mac where m: "m = Some mac" by auto
  obtain r1 cs where d: "delete_client mac (Clients sv) = (r1, cs)" by fastforce
  have st': "st' = st\<lparr>DhcpServer := Some (sv\<lparr>Clients := cs\<rparr>)\<rparr>"
    using assms True m d by (auto simp: DHCPS_ClientDelete_def serving_def)
  from delete_client_cases [OF d]
  have "table_inv cs \<and> same_net sv (sv\<lparr>Clients := cs\<rparr>)"
  proof
    assume "\<exists>i<length (Clients sv). bound (Clients sv ! i) \<and> MacAddr (Clients sv ! i) = mac \<and> cs = (Clients sv)[i := (Clients sv ! i)\<lparr>State := DHCP_CLIENT_STATE_IDLE\<rparr>]"
    then obtain i where i: "i < length (Clients sv)" "bound (Clients sv ! i)" "cs = (Clients sv)[i := (Clients sv ! i)\<lparr>State := DHCP_CLIENT_STATE_IDLE\<rparr>]" by blast
    have "table_inv cs" unfolding i(3) by (rule table_inv_idle) (use assms(1) i in \<open>auto simp: serving_def\<close>)
    moreover have "same_net sv (upd_client i (\<lambda>c. c\<lparr>State := DHCP_CLIENT_STATE_IDLE\<rparr>) sv)" by simp
    ultimately show ?thesis using i(3) by (simp add: upd_client_def)
  qed (use assms(1) in \<open>simp add: serving_def\<close>)
  then show ?thesis using assms(1) st' by (auto simp: serving_def)
next
  case False
  then have "st' = st" using assms by (auto simp: DHCPS_ClientDelete_def serving_def split: option.splits if_splits)
  then show ?thesis using assms(1) same_net_refl by blast
qed

section \<open>Reachable states\<close>

inductive dhcps_reach :: "netif \<Rightarrow> dhcps \<Rightarrow> bool" for nif where
  reach_start: "DHCPS_Start mem nif st = Some (0, st') \<Longrightarrow> dhcps_reach nif st'"
| reach_packet: "dhcps_reach nif st \<Longrightarrow> DHCPS_RecvCb e P st = Some st' \<Longrightarrow> dhcps_reach nif st'"
| reach_tick: "dhcps_reach nif st \<Longrightarrow> dhcps_reach nif (DhcpTickHandle sta st)"
| reach_delete: "dhcps_reach nif st \<Longrightarrow> DHCPS_ClientDelete m st = (r, st') \<Longrightarrow> dhcps_reach nif st'"
| reach_dns: "dhcps_reach nif st \<Longrightarrow> dhcps_reach nif (DHCPS_SetDns n a st)"

definition pool :: "netif \<Rightarrow> u32 list" where
  "pool nif = map IpAddr (Clients (start_server nif))"

text \<open>The part of the state that no packet changes.\<close>

definition on_net :: "netif \<Rightarrow> DHCP_SERVER \<Rightarrow> bool" where
  "on_net nif sv \<longleftrightarrow> Enable sv \<and> ServerIpAddr sv = ip_addr nif \<and> map IpAddr (Clients sv) = pool nif"

lemma same_net_on: "same_net sv sv' \<Longrightarrow> on_net nif sv \<Longrightarrow> on_net nif sv'"
  unfolding same_net_def on_net_def by (metis DHCP_SERVER.select_convs(1,3) DHCP_SERVER.surjective DHCP_SERVER.update_convs(10))

lemma start_table_inv: "table_inv (Clients (start_server nif))"
  by (auto simp: table_inv_def start_server_def Let_def client_ok_def no_conflict_def zero_client_def)

lemma length_pool [simp]: "length (pool nif) = 8"
  by (simp add: pool_def start_server_def Let_def)

theorem reach_serving: "dhcps_reach nif st \<Longrightarrow> \<exists>sv. serving st sv \<and> on_net nif sv"
proof (induction rule: dhcps_reach.induct)
  case (reach_start mem st st')
  have "ServerIpAddr (start_server nif) = ip_addr nif" by (simp add: start_server_def Let_def)
  then show ?case using reach_start start_table_inv [of nif]
    by (auto simp: DHCPS_Start_def serving_def on_net_def pool_def log_net_def Let_def split: prod.splits if_splits)
next
  case (reach_packet st e P st')
  then obtain sv where sv: "serving st sv" "on_net nif sv" by blast
  from recv_result [OF sv(1) reach_packet.hyps(2) refl] show ?case using same_net_on sv(2) by blast
next
  case (reach_tick st sta)
  then obtain sv where sv: "serving st sv" "on_net nif sv" by blast
  then show ?case using tick_handle [of st sv sta] tick_table_ips [of sta "Clients sv"]
    by (intro exI [of _ "sv\<lparr>Clients := tick_table sta (Clients sv)\<rparr>"]) (simp add: on_net_def)
next
  case (reach_delete st m r st')
  then obtain sv where sv: "serving st sv" "on_net nif sv" by blast
  from delete_serving [OF sv(1) reach_delete.hyps(2)] show ?case using same_net_on sv(2) by blast
next
  case (reach_dns st n a)
  then obtain sv where sv: "serving st sv" "on_net nif sv" by blast
  then show ?case by (auto simp: DHCPS_SetDns_def serving_def on_net_def)
qed

end
