(* ===== verification/Dhcp_Props.thy ===== *)
theory Dhcp_Props
  imports Dhcp_Reach
begin

text \<open>
  The properties of the DHCP server: addresses are never bound twice, every acknowledgement is a binding, a
  client that asks gets an address, leases end, and where the code departs from this.
\<close>

unbundle bit_operations_syntax

section \<open>The pool\<close>

definition host :: "netif \<Rightarrow> nat \<Rightarrow> nat" where
  "host nif k = unat (htonl (ip_addr nif) AND mask k)"

definition net_mask :: "netif \<Rightarrow> nat \<Rightarrow> bool" where
  "net_mask nif k \<longleftrightarrow> k \<le> 32 \<and> htonl (netmask nif) = NOT (mask k)"

lemma unat_mask32: "k \<le> 32 \<Longrightarrow> unat (mask k :: u32) = 2 ^ k - 1"
proof -
  assume "k \<le> 32"
  then have "(2 :: nat) ^ k \<le> 2 ^ 32" by (intro power_increasing) simp_all
  then have "mask k < (2 :: nat) ^ 32" by (simp add: mask_eq_exp_minus_1)
  from unat_u32_of_nat [OF this] show ?thesis by (simp add: of_nat_mask_eq mask_eq_exp_minus_1)
qed

lemma and_mask_bits: "bit (x AND mask k) n \<longleftrightarrow> n < k \<and> bit x n" for x :: u32
  by (auto simp: bit_and_iff bit_mask_iff dest: bit_u32_less)

lemma join_parts:
  fixes x y :: u32
  assumes "unat y < 2 ^ k"
  shows "((x AND NOT (mask k)) OR y) AND mask k = y" "((x AND NOT (mask k)) OR y) AND NOT (mask k) = x AND NOT (mask k)"
proof -
  have y: "bit y n \<Longrightarrow> n < k" for n by (rule bit_small_unat [OF assms])
  show "((x AND NOT (mask k)) OR y) AND mask k = y"
    by (intro bit_eqI) (auto simp: bit_and_iff bit_or_iff bit_not_iff bit_mask_iff dest: y bit_u32_less)
  show "((x AND NOT (mask k)) OR y) AND NOT (mask k) = x AND NOT (mask k)"
    by (intro bit_eqI) (auto simp: bit_and_iff bit_or_iff bit_not_iff bit_mask_iff dest: y bit_u32_less)
qed

lemma parts_eq: "x AND m = y AND m \<Longrightarrow> x AND NOT m = y AND NOT m \<Longrightarrow> x = y" for x y m :: u32
proof -
  have "(z AND m) OR (z AND NOT m) = z" for z by (simp flip: bit.conj_disj_distrib)
  then show "x AND m = y AND m \<Longrightarrow> x AND NOT m = y AND NOT m \<Longrightarrow> x = y" by metis
qed

text \<open>The host number that the code computes, as a number.\<close>

definition wrap :: "nat \<Rightarrow> nat \<Rightarrow> nat" where
  "wrap k h = (if h mod (2 ^ k - 1) \<noteq> 0 then h mod (2 ^ k - 1) else 1)"

lemma next_host_wrap:
  assumes "k \<le> 32" "unat tmp + j < 2 ^ 32"
  shows "unat (next_host (NOT (mask k)) tmp (of_nat j)) = wrap k (unat tmp + j)"
proof -
  have "unat (tmp + of_nat j) = unat tmp + j"
    using assms(2) by (subst unat_add_lem [THEN iffD1]) (simp_all add: unat_u32_of_nat)
  then have w: "unat ((tmp + of_nat j) mod mask k) = (unat tmp + j) mod (2 ^ k - 1)"
    by (simp add: unat_mod unat_mask32 [OF assms(1)])
  define x where "x = (tmp + of_nat j) mod mask k"
  have "next_host (NOT (mask k)) tmp (of_nat j) = (if x \<noteq> 0 then x else 1)"
    by (simp add: next_host_def x_def)
  moreover have "x = 0 \<longleftrightarrow> (unat tmp + j) mod (2 ^ k - 1) = 0" using w by (simp only: x_def [symmetric] unat_eq_0 [symmetric])
  ultimately show ?thesis using w by (simp add: x_def [symmetric] wrap_def)
qed

lemma wrap_less: "2 \<le> k \<Longrightarrow> wrap k h < 2 ^ k - 1"
proof -
  assume "2 \<le> k"
  then have "(2 :: nat) ^ 2 \<le> 2 ^ k" by (intro power_increasing) simp_all
  then show ?thesis by (auto simp: wrap_def)
qed

lemma host_ip_wrap:
  assumes "2 \<le> k" "k \<le> 32" "unat (V AND mask k) + j < 2 ^ 32"
  shows "htonl (host_ip (NOT (mask k)) V (of_nat j)) AND NOT (mask k) = V AND NOT (mask k)"
    and "unat (htonl (host_ip (NOT (mask k)) V (of_nat j)) AND mask k) = wrap k (unat (V AND mask k) + j)"
proof -
  let ?y = "next_host (NOT (mask k)) (V AND mask k) (of_nat j)"
  have y: "unat ?y = wrap k (unat (V AND mask k) + j)" by (rule next_host_wrap [OF assms(2,3)])
  then have "unat ?y < 2 ^ k" using wrap_less [OF assms(1), of "unat (V AND mask k) + j"] by simp
  note J = join_parts [OF this, of V]
  show "htonl (host_ip (NOT (mask k)) V (of_nat j)) AND NOT (mask k) = V AND NOT (mask k)"
    unfolding host_ip_def using J(2) by simp
  show "unat (htonl (host_ip (NOT (mask k)) V (of_nat j)) AND mask k) = wrap k (unat (V AND mask k) + j)"
    unfolding host_ip_def using J(1) y by simp
qed

lemma host_less: "host nif k < 2 ^ k"
  by (simp add: host_def flip: take_bit_eq_mask) (simp add: unsigned_take_bit_eq)

text \<open>The i-th address of the pool: its network is that of the server, its host number is computed twice modulo
  the largest host number.\<close>

lemma pool_nth:
  assumes "net_mask nif k" "2 \<le> k" "k \<le> 31" "i < 8"
  shows "htonl (pool nif ! i) AND NOT (mask k) = htonl (ip_addr nif) AND NOT (mask k)"
    and "unat (htonl (pool nif ! i) AND mask k) = wrap k (wrap k (host nif k + 1) + i)"
proof -
  let ?V = "htonl (ip_addr nif)" and ?M = "NOT (mask k) :: u32"
  have M: "htonl (netmask nif) = ?M" "k \<le> 32" using assms(1) by (simp_all add: net_mask_def)
  have two: "(2 :: nat) ^ k \<le> 2 ^ 31" using assms(3) by (intro power_increasing) simp_all
  let ?s = "host_ip ?M ?V 1"
  have "unat (?V AND mask k) + 1 < 2 ^ 32" using host_less [of nif k] two by (simp add: host_def)
  note S = host_ip_wrap [of k ?V 1, OF assms(2) M(2) this, simplified of_nat_1]
  have "wrap k (host nif k + 1) < 2 ^ k" using wrap_less [OF assms(2), of "host nif k + 1"] by simp
  then have "unat (htonl ?s AND mask k) + i < 2 ^ 32" using S(2) two assms(4) by (simp add: host_def)
  note T = host_ip_wrap [of k "htonl ?s" i, OF assms(2) M(2) this]
  have p: "pool nif ! i = host_ip ?M (htonl ?s) (of_nat i)"
    using assms(4) by (simp add: pool_def start_server_def Let_def M(1))
  show "htonl (pool nif ! i) AND ?M = ?V AND ?M" unfolding p using T(1) S(1) by simp
  show "unat (htonl (pool nif ! i) AND mask k) = wrap k (wrap k (host nif k + 1) + i)"
    unfolding p using T(2) S(2) by (simp add: host_def)
qed

text \<open>A network in which the eight addresses behind the server's fit.\<close>

definition good_net :: "netif \<Rightarrow> nat \<Rightarrow> bool" where
  "good_net nif k \<longleftrightarrow> net_mask nif k \<and> 2 \<le> k \<and> k \<le> 31 \<and> host nif k + 8 < 2 ^ k - 1"

lemma good_pool:
  assumes "good_net nif k" "i < 8"
  shows "htonl (pool nif ! i) AND NOT (mask k) = htonl (ip_addr nif) AND NOT (mask k)"
    and "unat (htonl (pool nif ! i) AND mask k) = host nif k + 1 + i"
proof -
  have g: "net_mask nif k" "2 \<le> k" "k \<le> 31" "host nif k + 8 < 2 ^ k - 1" using assms(1) by (simp_all add: good_net_def)
  have w: "wrap k n = n" if "0 < n" "n < 2 ^ k - 1" for n using that by (simp add: wrap_def)
  show "htonl (pool nif ! i) AND NOT (mask k) = htonl (ip_addr nif) AND NOT (mask k)" by (rule pool_nth(1) [OF g(1-3) assms(2)])
  show "unat (htonl (pool nif ! i) AND mask k) = host nif k + 1 + i"
    using pool_nth(2) [OF g(1-3) assms(2)] w g(4) assms(2) by simp
qed

lemma good_pool_distinct:
  assumes "good_net nif k"
  shows "distinct (pool nif)"
  unfolding distinct_conv_nth length_pool
proof (intro allI impI)
  fix i j :: nat assume "i < 8" "j < 8" "i \<noteq> j"
  then have "unat (htonl (pool nif ! i) AND mask k) \<noteq> unat (htonl (pool nif ! j) AND mask k)"
    using good_pool(2) [OF assms] by simp
  then show "pool nif ! i \<noteq> pool nif ! j" by auto
qed

section \<open>Bindings of a reachable server\<close>

definition leases :: "dhcps \<Rightarrow> mac \<rightharpoonup> u32" where
  "leases st = (case DhcpServer st of None \<Rightarrow> Map.empty | Some sv \<Rightarrow> bindings (Clients sv))"

lemma reach_server:
  assumes "dhcps_reach nif st" "DhcpServer st = Some sv"
  shows "serving st sv" "on_net nif sv" "table_inv (Clients sv)" "length (Clients sv) = 8"
    "\<And>j. j < 8 \<Longrightarrow> IpAddr (Clients sv ! j) = pool nif ! j"
proof -
  show s: "serving st sv" "on_net nif sv" using reach_serving [OF assms(1)] assms(2) by (auto simp: serving_def)
  then have p: "map IpAddr (Clients sv) = pool nif" by (simp add: on_net_def)
  show "table_inv (Clients sv)" using s(1) by (simp add: serving_def)
  show l: "length (Clients sv) = 8" using p by (metis length_map length_pool)
  show "IpAddr (Clients sv ! j) = pool nif ! j" if "j < 8" for j using p l that by (metis nth_map)
qed

lemma reach_enabled: "on_net nif sv \<Longrightarrow> Enable sv"
  by (simp add: on_net_def)

lemma reach_ip_inj:
  assumes "dhcps_reach nif st" "DhcpServer st = Some sv" "good_net nif k" "i < 8" "j < 8"
    and "IpAddr (Clients sv ! i) = IpAddr (Clients sv ! j)"
  shows "i = j"
  using nth_eq_iff_index_eq [OF good_pool_distinct [OF assms(3)], of i j] reach_server(5) [OF assms(1,2)] assms(4-6) by simp

lemma leases_inj:
  assumes "dhcps_reach nif st" "good_net nif k" "leases st m = Some a" "leases st m' = Some a"
  shows "m' = m"
proof -
  obtain sv where sv: "DhcpServer st = Some sv" using assms(3) by (auto simp: leases_def split: option.splits)
  note S = reach_server [OF assms(1) sv]
  have b: "\<exists>i<8. MacAddr (Clients sv ! i) = x \<and> IpAddr (Clients sv ! i) = a" if "leases st x = Some a" for x
    using that unfolding leases_def sv option.case bindings_iff [OF S(3)] S(4) by blast
  show ?thesis using b [OF assms(3)] b [OF assms(4)] reach_ip_inj [OF assms(1) sv assms(2)] by metis
qed

lemma tick_leases:
  assumes "serving st sv" "Enable sv"
  shows "leases (DhcpTickHandle sta st) \<subseteq>\<^sub>m leases st"
proof -
  note T = tick_handle [OF assms, of sta]
  have inv: "table_inv (Clients sv)" "table_inv (tick_table sta (Clients sv))" using assms(1) T by (simp_all add: serving_def)
  have "bindings (Clients sv) m = Some a" if H: "bindings (tick_table sta (Clients sv)) m = Some a" for m a
  proof -
    obtain i where i: "i < length (Clients sv)" "bound (tick_table sta (Clients sv) ! i)"
      "MacAddr (tick_table sta (Clients sv) ! i) = m" "IpAddr (tick_table sta (Clients sv) ! i) = a"
      using H unfolding bindings_iff [OF inv(2)] length_tick_table by blast
    then show ?thesis unfolding bindings_iff [OF inv(1)] using tick_fields(1,2) [of "sta i" "Clients sv ! i"]
      by (intro exI [of _ i]) simp
  qed
  then show ?thesis using assms(1) T by (auto simp: leases_def serving_def map_le_def dom_def)
qed

section \<open>Expiry\<close>

text \<open>Ticks that an entry has left.\<close>

definition ticks_left :: "DHCP_CLIENT \<Rightarrow> nat" where
  "ticks_left c = (case State c of DHCP_CLIENT_STATE_REQUEST \<Rightarrow> unat (Timeout c) | DHCP_CLIENT_STATE_BIND \<Rightarrow> unat (Lease c) | _ \<Rightarrow> 0)"

lemma ticks_left_idle: "client_ok c \<Longrightarrow> ticks_left c = 0 \<longleftrightarrow> idle c"
  by (cases "State c") (auto simp: ticks_left_def client_ok_def unat_eq_0)

lemma ticks_left_bound: "client_ok c \<Longrightarrow> ticks_left c \<le> 7200"
  by (cases "State c") (auto simp: ticks_left_def client_ok_def word_le_nat_alt)

lemma tick_counts: "client_ok c \<Longrightarrow> ticks_left (tick_client sta c) \<le> ticks_left c - 1"
  by (cases "State c") (auto simp: ticks_left_def tick_client_def Let_def client_ok_def unat_minus_one)

text \<open>Several ticks, each with the stations it sees.\<close>

definition ticks :: "(nat \<Rightarrow> mac list option) list \<Rightarrow> dhcps \<Rightarrow> dhcps" where
  "ticks fs st = fold DhcpTickHandle fs st"

lemma ticks_expire:
  assumes "serving st sv" "Enable sv" "\<forall>c\<in>set (Clients sv). ticks_left c \<le> length fs"
  shows "\<exists>sv'. serving (ticks fs st) sv' \<and> (\<forall>c\<in>set (Clients sv'). idle c)"
  using assms
proof (induction fs arbitrary: st sv)
  case Nil
  then have "\<forall>c\<in>set (Clients sv). idle c"
    using ticks_left_idle by (auto simp: serving_def table_inv_def)
  then show ?case using Nil by (auto simp: ticks_def)
next
  case (Cons f fs)
  let ?sv = "sv\<lparr>Clients := tick_table f (Clients sv)\<rparr>"
  have "ticks_left (tick_table f (Clients sv) ! i) \<le> length fs" if "i < length (Clients sv)" for i
  proof -
    have "client_ok (Clients sv ! i)" "ticks_left (Clients sv ! i) \<le> Suc (length fs)"
      using Cons.prems(1,3) that by (simp_all add: serving_def table_inv_def)
    then show ?thesis using tick_counts [of "Clients sv ! i" "f i"] that by simp
  qed
  then have "\<forall>c\<in>set (Clients ?sv). ticks_left c \<le> length fs" by (auto simp: in_set_conv_nth)
  then show ?case using Cons.IH [of "DhcpTickHandle f st" ?sv] tick_handle [OF Cons.prems(1,2), of f] Cons.prems(2) by (simp add: ticks_def)
qed

section \<open>Messages of a client\<close>

definition client_header :: "u32 \<Rightarrow> u16 \<Rightarrow> mac \<Rightarrow> u8 list" where
  "client_header Xid Flags mac =
     [1, 1, 6, 0] @ le32 (htonl Xid) @ [0, 0] @ le16 (htons Flags) @ replicate 16 0 @ mac @ replicate 202 0 @ le32 (htonl DHCP_MAGIC)"

definition client_msg :: "u32 \<Rightarrow> u16 \<Rightarrow> mac \<Rightarrow> (u8 \<times> u8 list) list \<Rightarrow> u8 list" where
  "client_msg Xid Flags mac opts = client_header Xid Flags mac @ enc_opts opts @ DHCP_OPTION_ID_END # []"

definition station :: "dhcp_env \<Rightarrow> mac \<Rightarrow> bool" where
  "station e mac \<longleftrightarrow> length mac = 6 \<and> mac \<noteq> zero_mac \<and> own_mac e \<noteq> mac \<and> CheckMacIsValid (authed_sta e) mac"

lemma length_client_header [simp]: "length mac = 6 \<Longrightarrow> length (client_header Xid Flags mac) = 240"
  by (simp add: client_header_def)

lemma client_header_fields:
  assumes "length mac = 6" "P = client_header Xid Flags mac @ xs" "length xs \<le> 308"
  shows "msg_Chaddr (in_buffer P) = mac" "msg_Op (in_buffer P) = 1" "msg_HType (in_buffer P) = 1" "htonl (msg_Magic (in_buffer P)) = DHCP_MAGIC"
proof -
  define r where "r = xs @ replicate (308 - length xs) 0"
  have b: "in_buffer P = client_header Xid Flags mac @ r" using assms by (simp add: in_buffer_short r_def)
  show "msg_Chaddr (in_buffer P) = mac" "msg_Op (in_buffer P) = 1" "msg_HType (in_buffer P) = 1"
    unfolding b client_header_def using assms(1) by simp_all
  have "in_buffer P = ([1, 1, 6, 0] @ le32 (htonl Xid) @ [0, 0] @ le16 (htons Flags) @ replicate 16 0 @ mac @ replicate 202 0) @ le32 (htonl DHCP_MAGIC) @ r"
    unfolding b by (simp add: client_header_def)
  then have "msg_Magic (in_buffer P) = htonl DHCP_MAGIC" using assms(1) by (simp only: get32_at) (rule get32_at, simp)
  then show "htonl (msg_Magic (in_buffer P)) = DHCP_MAGIC" by (simp only: htonl_htonl)
qed

lemma client_accepted:
  assumes "station e mac" "P = client_header Xid Flags mac @ xs" "length xs \<le> 308"
  shows "accepted P (in_buffer P) e"
proof -
  have m: "length mac = 6" using assms(1) by (simp add: station_def)
  have "P \<noteq> []" by (simp add: assms(2) client_header_def)
  then show ?thesis unfolding accepted_def client_header_fields [OF m assms(2,3)] using assms(1) by (simp add: station_def)
qed

lemma recv_client_msg:
  assumes "serving st sv" "station e mac" "\<forall>x\<in>set opts. opt_ok x" "length (enc_opts opts) < 308"
    and "opt = fold sem_opt opts no_opts" "o_ret opt AND 1 \<noteq> 0" "o_type opt \<noteq> DHCP_MSG_INFORM"
  shows "\<exists>b X F. DHCPS_RecvCb e (client_msg Xid Flags mac opts) st = Some (handle_msg e mac opt X F sv (st\<lparr>DhcpMsg := Some b\<rparr>))"
proof -
  let ?P = "client_msg Xid Flags mac opts"
  have m: "length mac = 6" using assms(2) by (simp add: station_def)
  have P: "?P = client_header Xid Flags mac @ (enc_opts opts @ [DHCP_OPTION_ID_END])" "length (enc_opts opts @ [DHCP_OPTION_ID_END]) \<le> 308"
    using assms(4) by (simp_all add: client_msg_def)
  note acc = client_accepted [OF assms(2) P] and F = client_header_fields [OF m P]
  have parse: "ParseDhcpOptions (in_buffer ?P) = Some opt"
    unfolding client_msg_def assms(5) by (rule parse_message) (use m assms(3,4) in simp_all)
  obtain b where b: "DhcpMsg st = Some b" "DhcpServer st = Some sv" using assms(1) by (auto simp: serving_def)
  have "DHCPS_RecvCb e ?P st = Some (handle_msg e mac opt (htonl (msg_Xid (in_buffer ?P))) (htons (msg_Flags (in_buffer ?P))) sv (st\<lparr>DhcpMsg := Some (in_buffer ?P)\<rparr>))"
    using acc parse b assms(6,7) unfolding DHCPS_RecvCb_def handle_msg_def Let_def F(1)
    by (simp add: case_prod_beta split: option.split)
  then show ?thesis by blast
qed

text \<open>Without an active entry of the station and with an idle entry, a search for a discovery succeeds.\<close>

lemma lookup_discover_finds:
  assumes "\<forall>c\<in>set (Clients sv). idle c \<or> MacAddr c \<noteq> mac" "c \<in> set (Clients sv)" "idle c"
  shows "\<exists>r. ClientTableLookup mac DHCP_MSG_DISCOVER req sid sv = (Some r, upd_client r (\<lambda>c. c\<lparr>MacAddr := mac\<rparr>) sv) \<and>
    r < length (Clients sv) \<and> idle (Clients sv ! r)"
proof -
  let ?x = "table_scan mac req (Clients sv)"
  have my: "pMyClient ?x = None" using scan_my [of "Clients sv" mac req] assms(1) by (auto split: option.splits)
  have "first_such (\<lambda>c. idle c \<and> MacAddr c = zero_mac) (Clients sv) \<noteq> None \<or> first_such (\<lambda>c. idle c \<and> MacAddr c \<noteq> zero_mac) (Clients sv) \<noteq> None"
    using assms(2,3) by (auto simp: first_such_None in_set_conv_nth)
  then have "fst (lookup_discover ?x sv) \<noteq> None \<and> snd (lookup_discover ?x sv) = sv"
    using my by (auto simp: lookup_discover_def scan_first split: option.split)
  then obtain r where r: "lookup_discover ?x sv = (Some r, sv)" by (cases "lookup_discover ?x sv") auto
  have "r < length (Clients sv) \<and> idle (Clients sv ! r)"
    using r my by (auto simp: lookup_discover_def scan_first split: option.splits dest!: first_idle)
  then show ?thesis using r by (auto simp: ClientTableLookup_def)
qed

text \<open>A request of a station with an active entry finds this entry when no other one has the requested address.\<close>

lemma lookup_request_own:
  assumes "table_inv (Clients sv)" "i < length (Clients sv)" "\<not> idle (Clients sv ! i)" "MacAddr (Clients sv ! i) = mac"
    and "\<And>j. j < length (Clients sv) \<Longrightarrow> IpAddr (Clients sv ! j) = req \<Longrightarrow> j = i" "for_me sid sv"
  shows "ClientTableLookup mac DHCP_MSG_REQUEST req sid sv = (Some i, sv)"
proof -
  let ?x = "table_scan mac req (Clients sv)"
  have "pMyClient ?x = Some i"
  proof (cases "pMyClient ?x")
    case None
    then show ?thesis using no_my_others [OF None assms(2,3)] assms(4) by simp
  next
    case (Some j)
    then show ?thesis using my_others [OF assms(1) Some assms(2) _ assms(3)] assms(4) by (cases "i = j") simp_all
  qed
  moreover have "\<not> IpUnavailable ?x"
  proof
    assume "IpUnavailable ?x"
    then obtain j where "j < length (Clients sv)" "MacAddr (Clients sv ! j) \<noteq> mac" "IpAddr (Clients sv ! j) = req"
      unfolding scan_unavailable by (auto simp: in_set_conv_nth)
    then show False using assms(4,5) by blast
  qed
  moreover have "pReqClient ?x = None" unfolding scan_first first_such_None using assms(3,5) by blast
  ultimately have "lookup_request ?x sid sv = (Some i, sv)" using assms(6) by (simp add: lookup_request_def)
  moreover have "upd_client i (\<lambda>c. c\<lparr>MacAddr := mac\<rparr>) sv = sv" using assms(2,4) by (simp add: upd_client_def) (metis DHCP_CLIENT.surjective DHCP_CLIENT.update_convs(4) DHCP_SERVER.surjective DHCP_SERVER.update_convs(10) list_update_id)
  ultimately show ?thesis by (simp add: ClientTableLookup_def)
qed

text \<open>The two halves of the negotiation.\<close>

abbreviation "discover_opts \<equiv> [(DHCP_OPTION_ID_MSG_TYPE, [DHCP_MSG_DISCOVER])] :: (u8 \<times> u8 list) list"

abbreviation request_opts :: "u32 \<Rightarrow> u32 \<Rightarrow> (u8 \<times> u8 list) list" where
  "request_opts a server \<equiv> [(DHCP_OPTION_ID_MSG_TYPE, [DHCP_MSG_REQUEST]), (DHCP_OPTION_ID_REQ_IP_ADDR, le32 a), (DHCP_OPTION_ID_SERVER_ID, le32 server)]"

lemma discover_step:
  assumes "serving st sv" "station e mac" "pbuf_ok e"
    and "\<forall>c\<in>set (Clients sv). idle c \<or> MacAddr c \<noteq> mac" "c \<in> set (Clients sv)" "idle c"
  shows "\<exists>st1 sv1 new r. DHCPS_RecvCb e (client_msg Xid Flags mac discover_opts) st = Some st1 \<and> net st1 = net st @ new \<and>
    r < length (Clients sv) \<and> offers new = [(mac, IpAddr (Clients sv ! r))] \<and>
    serving st1 sv1 \<and> same_net sv sv1 \<and> \<not> idle (Clients sv1 ! r) \<and> MacAddr (Clients sv1 ! r) = mac \<and>
    bindings (Clients sv1) = bindings (Clients sv)"
proof -
  have m: "length mac = 6" and inv: "table_inv (Clients sv)" using assms(1,2) by (simp_all add: station_def serving_def)
  define opt where "opt = fold sem_opt discover_opts no_opts"
  have opt: "opt = \<lparr>o_ret = 1, o_type = DHCP_MSG_DISCOVER, o_req = 0, o_server = 0\<rparr>" by (simp add: opt_def sem_opt_def no_opts_def)
  have "\<forall>x\<in>set discover_opts. opt_ok x" "length (enc_opts discover_opts) < 308" "o_ret opt AND 1 \<noteq> 0" "o_type opt \<noteq> DHCP_MSG_INFORM"
    by (simp_all add: opt opt_ok_def enc_opts_def)
  from recv_client_msg [OF assms(1,2) this(1,2) opt_def this(3,4), of Xid Flags] obtain b X F where r1:
    "DHCPS_RecvCb e (client_msg Xid Flags mac discover_opts) st = Some (handle_msg e mac opt X F sv (st\<lparr>DhcpMsg := Some b\<rparr>))" by blast
  obtain r where l1: "ClientTableLookup mac DHCP_MSG_DISCOVER 0 0 sv = (Some r, upd_client r (\<lambda>c. c\<lparr>MacAddr := mac\<rparr>) sv)"
    and r: "r < length (Clients sv)" using lookup_discover_finds [OF assms(4-6), of 0 0] by blast
  let ?s1 = "upd_client r (\<lambda>c. c\<lparr>MacAddr := mac\<rparr>) sv"
  define st1 where "st1 = DhcpClientSMEHandle e r DHCP_MSG_DISCOVER X F (st\<lparr>DhcpMsg := Some b, DhcpServer := Some ?s1\<rparr>)"
  have h1: "handle_msg e mac opt X F sv (st\<lparr>DhcpMsg := Some b\<rparr>) = st1" using l1 by (simp add: handle_msg_def opt st1_def)
  note L = lookup_spec [OF inv m l1]
  have "serving (st\<lparr>DhcpMsg := Some b, DhcpServer := Some ?s1\<rparr>) ?s1" using L(1) by (simp add: serving_def)
  from sme_result [OF this L(2) m _ st1_def] assms(3) obtain sv1 new where O: "serving st1 sv1" "same_net ?s1 sv1" "net st1 = net st @ new"
    "offers new = [(mac, IpAddr (Clients sv ! r))]" "Clients sv1 = offer_table r (Clients ?s1)" using r by auto
  have act: "\<not> idle (Clients sv1 ! r)" "MacAddr (Clients sv1 ! r) = mac" using r by (simp_all add: O(5) offer_table_def)
  have "idle (Clients ?s1 ! r)" using L(2) r by (simp add: found_ok_def)
  then have "shrinks mac (Clients sv) (Clients sv1)"
    using shrinks_trans [OF lookup_shrinks [OF inv m l1]] offer_table_inv(2) [OF L(1,2)] O(5) by simp
  moreover have "bindings (Clients sv) mac = None" using assms(4) by (auto simp: bindings_def find_client_None)
  ultimately have "bindings (Clients sv1) = bindings (Clients sv)"
    using bindings_shrinks [OF inv, of "Clients sv1" mac] O(1) by (auto simp: serving_def)
  moreover have "same_net sv sv1" by (rule same_net_trans [OF _ O(2)]) simp
  ultimately show ?thesis using r1 h1 O(1,3,4) r act by blast
qed

lemma request_step:
  assumes "serving st sv" "station e mac" "pbuf_ok e" "i < length (Clients sv)" "\<not> idle (Clients sv ! i)" "MacAddr (Clients sv ! i) = mac"
    and "\<And>j. j < length (Clients sv) \<Longrightarrow> IpAddr (Clients sv ! j) = req \<Longrightarrow> j = i" "a = IpAddr (Clients sv ! i)"
  shows "\<exists>st1 sv1 new. DHCPS_RecvCb e (client_msg Xid Flags mac (request_opts req (ServerIpAddr sv))) st = Some st1 \<and>
    net st1 = net st @ new \<and> acks new = [(mac, a)] \<and> serving st1 sv1 \<and> bindings (Clients sv1) = (bindings (Clients sv))(mac \<mapsto> a)"
proof -
  have m: "length mac = 6" and inv: "table_inv (Clients sv)" using assms(1,2) by (simp_all add: station_def serving_def)
  let ?o = "request_opts req (ServerIpAddr sv)"
  define opt where "opt = fold sem_opt ?o no_opts"
  have opt: "opt = \<lparr>o_ret = 7, o_type = DHCP_MSG_REQUEST, o_req = req, o_server = ServerIpAddr sv\<rparr>"
    by (simp add: opt_def sem_opt_def no_opts_def)
  have "\<forall>x\<in>set ?o. opt_ok x" "length (enc_opts ?o) < 308" "o_ret opt AND 1 \<noteq> 0" "o_type opt \<noteq> DHCP_MSG_INFORM"
    by (simp_all add: opt opt_ok_def enc_opts_def)
  from recv_client_msg [OF assms(1,2) this(1,2) opt_def this(3,4), of Xid Flags] obtain b X F where r1:
    "DHCPS_RecvCb e (client_msg Xid Flags mac ?o) st = Some (handle_msg e mac opt X F sv (st\<lparr>DhcpMsg := Some b\<rparr>))" by blast
  have "for_me (ServerIpAddr sv) sv" by (simp add: for_me_def)
  from lookup_request_own [OF inv assms(4-7) this] have l: "ClientTableLookup mac DHCP_MSG_REQUEST req (ServerIpAddr sv) sv = (Some i, sv)" .
  define st1 where "st1 = DhcpClientSMEHandle e i DHCP_MSG_REQUEST X F (st\<lparr>DhcpMsg := Some b, DhcpServer := Some sv\<rparr>)"
  have h1: "handle_msg e mac opt X F sv (st\<lparr>DhcpMsg := Some b\<rparr>) = st1" using l by (simp add: handle_msg_def opt st1_def)
  note L = lookup_spec [OF inv m l]
  have "serving (st\<lparr>DhcpMsg := Some b, DhcpServer := Some sv\<rparr>) sv" using inv by (simp add: serving_def)
  from sme_result [OF this L(2) m _ st1_def] assms(3,8) obtain sv1 new where O: "serving st1 sv1" "net st1 = net st @ new"
    "acks new = [(mac, a)]" "Clients sv1 = bind_table i mac (Clients sv)" by auto
  have "bindings (Clients sv1) = (bindings (Clients sv))(mac \<mapsto> a)"
    unfolding O(4) assms(8) by (rule bind_table_bindings [OF inv L(2)])
  then show ?thesis using r1 h1 O(1-3) by blast
qed

text \<open>The whole negotiation.\<close>

lemma handshake:
  assumes "dhcps_reach nif st" "good_net nif k" "DhcpServer st = Some sv" "station e mac" "pbuf_ok e"
    and "\<forall>c\<in>set (Clients sv). State c = DHCP_CLIENT_STATE_IDLE \<or> MacAddr c \<noteq> mac" "\<exists>c\<in>set (Clients sv). State c = DHCP_CLIENT_STATE_IDLE"
  shows "\<exists>a st1 st2 new1 new2.
    DHCPS_RecvCb e (client_msg x1 f1 mac discover_opts) st = Some st1 \<and>
    net st1 = net st @ new1 \<and> offers new1 = [(mac, a)] \<and> a \<in> set (pool nif) \<and>
    DHCPS_RecvCb e (client_msg x2 f2 mac (request_opts a (ip_addr nif))) st1 = Some st2 \<and>
    net st2 = net st1 @ new2 \<and> acks new2 = [(mac, a)] \<and> leases st2 = (leases st)(mac \<mapsto> a)"
proof -
  note R = reach_server [OF assms(1,3)]
  from discover_step [OF R(1) assms(4-6), of _ x1 f1] assms(7) obtain st1 sv1 new1 r where
    D: "DHCPS_RecvCb e (client_msg x1 f1 mac discover_opts) st = Some st1" "net st1 = net st @ new1" "r < length (Clients sv)"
      "offers new1 = [(mac, IpAddr (Clients sv ! r))]" "serving st1 sv1" "same_net sv sv1" "\<not> idle (Clients sv1 ! r)"
      "MacAddr (Clients sv1 ! r) = mac" "bindings (Clients sv1) = bindings (Clients sv)" by blast
  have s1: "DhcpServer st1 = Some sv1" using D(5) by (simp add: serving_def)
  note R1 = reach_server [OF reach_packet [OF assms(1) D(1)] s1]
  have r: "r < 8" using D(3) R(4) by simp
  have a: "IpAddr (Clients sv1 ! r) = IpAddr (Clients sv ! r)" "IpAddr (Clients sv ! r) \<in> set (pool nif)"
    using R(5) [OF r] R1(5) [OF r] r nth_mem [of r "pool nif"] by simp_all
  have "ServerIpAddr sv1 = ip_addr nif" using R1(2) by (simp add: on_net_def)
  moreover have "j = r" if "j < length (Clients sv1)" "IpAddr (Clients sv1 ! j) = IpAddr (Clients sv ! r)" for j
    using reach_ip_inj [OF reach_packet [OF assms(1) D(1)] s1 assms(2) _ r, of j] that a(1) R1(4) by simp
  ultimately obtain st2 sv2 new2 where
    "DHCPS_RecvCb e (client_msg x2 f2 mac (request_opts (IpAddr (Clients sv ! r)) (ip_addr nif))) st1 = Some st2"
    "net st2 = net st1 @ new2" "acks new2 = [(mac, IpAddr (Clients sv ! r))]" "serving st2 sv2"
    "bindings (Clients sv2) = (bindings (Clients sv1))(mac \<mapsto> IpAddr (Clients sv ! r))"
    using request_step [OF D(5) assms(4,5) _ D(7,8) _ a(1) [symmetric], of "IpAddr (Clients sv ! r)" x2 f2] r R1(4) by auto
  moreover from this have "leases st2 = (leases st)(mac \<mapsto> IpAddr (Clients sv ! r))"
    using D(9) R(1) by (simp add: leases_def serving_def)
  ultimately show ?thesis using D(1,2,4) a(2) by blast
qed

section \<open>An example server\<close>

text \<open>192.168.1.1 with the mask 255.255.255.0, one station.\<close>

definition ex_nif :: netif where
  "ex_nif = \<lparr>is_up = True, ip_addr = htonl 0xC0A80101, netmask = htonl 0xFFFFFF00\<rparr>"

definition ex_mac :: mac where
  "ex_mac = [1, 2, 3, 4, 5, 6]"

definition ex_env :: dhcp_env where
  "ex_env = \<lparr>authed_sta = Some [ex_mac], own_mac = zero_mac, pbuf_ok = True\<rparr>"

definition ex_st :: dhcps where
  "ex_st = \<lparr>DhcpServer = Some ((start_server ex_nif)\<lparr>Socket := True, Enable := True\<rparr>), DhcpMsg = Some (replicate MSG_SIZE 0),
     net = [Udp_new, Udp_bind 67, Udp_recv, Sys_timeout 1000]\<rparr>"

lemma ex_dhcp_reach: "dhcps_reach ex_nif ex_st"
proof (rule reach_start)
  show "DHCPS_Start (True, True, True) ex_nif \<lparr>DhcpServer = None, DhcpMsg = None, net = []\<rparr> = Some (0, ex_st)"
    by (simp add: DHCPS_Start_def ex_nif_def ex_st_def log_net_def Let_def)
qed

lemma ex_net: "net_mask \<lparr>is_up = True, ip_addr = htonl a, netmask = htonl 0xFFFFFF00\<rparr> 8"
  "host \<lparr>is_up = True, ip_addr = htonl a, netmask = htonl 0xFFFFFF00\<rparr> 8 = unat (a AND 0xFF)"
  by (simp_all add: net_mask_def host_def mask_eq_exp_minus_1)

lemma ex_good: "good_net ex_nif 8"
  unfolding good_net_def ex_nif_def ex_net by (simp add: ex_net)

lemma ex_station: "station ex_env ex_mac"
  by (simp add: station_def ex_env_def ex_mac_def zero_mac_def CheckMacIsValid_def numeral_eq_Suc)

lemma ex_idle: "\<forall>c\<in>set (Clients ((start_server ex_nif)\<lparr>Socket := True, Enable := True\<rparr>)). State c = DHCP_CLIENT_STATE_IDLE"
  "Clients ((start_server ex_nif)\<lparr>Socket := True, Enable := True\<rparr>) \<noteq> []"
  by (simp_all add: start_server_def Let_def zero_client_def)

lemma ex_server: "DhcpServer ex_st = Some ((start_server ex_nif)\<lparr>Socket := True, Enable := True\<rparr>)" "leases ex_st = Map.empty"
proof -
  show s: "DhcpServer ex_st = Some ((start_server ex_nif)\<lparr>Socket := True, Enable := True\<rparr>)" by (simp add: ex_st_def)
  have "find_client (\<lambda>c. bound c \<and> MacAddr c = m) (Clients ((start_server ex_nif)\<lparr>Socket := True, Enable := True\<rparr>)) = None" for m
    using ex_idle(1) by (auto simp: find_client_None)
  then show "leases ex_st = Map.empty" by (intro ext) (simp add: leases_def s bindings_def)
qed

lemma ex_bound: "\<exists>st sv a. dhcps_reach ex_nif st \<and> DhcpServer st = Some sv \<and> leases st ex_mac = Some a"
proof -
  have "pbuf_ok ex_env" by (simp add: ex_env_def)
  moreover have "\<exists>c\<in>set (Clients ((start_server ex_nif)\<lparr>Socket := True, Enable := True\<rparr>)). State c = DHCP_CLIENT_STATE_IDLE"
    using ex_idle by (meson last_in_set)
  ultimately obtain a st1 st2 where h: "DHCPS_RecvCb ex_env (client_msg 0 0 ex_mac discover_opts) ex_st = Some st1"
    "DHCPS_RecvCb ex_env (client_msg 0 0 ex_mac (request_opts a (ip_addr ex_nif))) st1 = Some st2" "leases st2 = (leases ex_st)(ex_mac \<mapsto> a)"
    using handshake [OF ex_dhcp_reach ex_good ex_server(1) ex_station, of 0 0 0 0] ex_idle(1) by blast
  then have "dhcps_reach ex_nif st2" by (intro reach_packet [OF reach_packet [OF ex_dhcp_reach]])
  moreover have "leases st2 ex_mac = Some a" using h(3) by simp
  moreover from this obtain sv where "DhcpServer st2 = Some sv" by (auto simp: leases_def split: option.splits)
  ultimately show ?thesis by blast
qed

section \<open>Properties\<close>

text \<open>C9. In every reachable state of a server whose network has room for the pool, the client table
  holds no conflict: when entry \<open>i\<close> is bound to the station \<open>m\<close> and the address \<open>a\<close>, no other entry of
  the table, bound or not, carries that MAC address or that IP address, so that a station is bound
  to one address and an address to one station. The address lies in the server's network and is not
  the server's, and the two lookup functions return the pair. (A station with the MAC address zero,
  which marks a free entry, is left out.)\<close>

theorem dhcps_bindings_safe:
  assumes "dhcps_reach nif st" "good_net nif k" "DhcpServer st = Some sv"
    and "i < length (Clients sv)" "State (Clients sv ! i) = DHCP_CLIENT_STATE_BIND"
    and "MacAddr (Clients sv ! i) = m" "IpAddr (Clients sv ! i) = a" "m \<noteq> zero_mac"
  shows "(\<forall>j < length (Clients sv). j \<noteq> i \<longrightarrow> MacAddr (Clients sv ! j) \<noteq> m \<and> IpAddr (Clients sv ! j) \<noteq> a) \<and>
    htonl a AND htonl (netmask nif) = htonl (ip_addr nif) AND htonl (netmask nif) \<and> a \<noteq> ip_addr nif \<and>
    DHCPS_GetIpByMac m st = Some a \<and> DHCPS_GetMacByIp a st = Some m"
proof -
  let ?cs = "Clients sv"
  note R = reach_server [OF assms(1,3)]
  note S = R(3) and len = R(4) and ip = R(5)
  have i: "i < 8" "bound (?cs ! i)" using assms(4,5) len by simp_all
  have inj: "j = i" if "j < 8" "IpAddr (?cs ! j) = a" for j
    using reach_ip_inj [OF assms(1,3,2) that(1) i(1)] that(2) assms(7) by simp
  have mac: "j = i" if "j < 8" "MacAddr (?cs ! j) = m" for j
  proof (rule ccontr)
    assume "j \<noteq> i"
    then have "no_conflict (?cs ! i) (?cs ! j)" using table_invD(2) [OF S] i(1) that(1) len by simp
    then show False using i(2) that(2) assms(6,8) by (simp add: no_conflict_def)
  qed
  have "find_client (\<lambda>c. MacAddr c = m) ?cs = Some (?cs ! i)"
    by (rule find_client_unique [OF _ _ mac]) (use i len assms(6) in simp_all)
  moreover have "find_client (\<lambda>c. IpAddr c = a) ?cs = Some (?cs ! i)"
    by (rule find_client_unique [OF _ _ inj]) (use i len assms(7) in simp_all)
  moreover have "htonl a AND NOT (mask k) = htonl (ip_addr nif) AND NOT (mask k)" "unat (htonl a AND mask k) = host nif k + 1 + i"
    using good_pool [OF assms(2) i(1)] ip [OF i(1)] assms(7) by simp_all
  moreover from this have "a \<noteq> ip_addr nif" by (auto simp: host_def)
  moreover have "htonl (netmask nif) = NOT (mask k)" using assms(2) by (simp add: good_net_def net_mask_def)
  moreover have "MacAddr (?cs ! j) \<noteq> m \<and> IpAddr (?cs ! j) \<noteq> a" if "j < length ?cs" "j \<noteq> i" for j
    using inj mac that len by auto
  ultimately show ?thesis using assms(3,6,7) by (simp add: DHCPS_GetIpByMac_def DHCPS_GetMacByIp_def)
qed

theorem dhcps_bindings_safe_witness:
  "\<exists>st sv i a. DhcpServer st = Some sv \<and> i < length (Clients sv) \<and> State (Clients sv ! i) = DHCP_CLIENT_STATE_BIND \<and>
    MacAddr (Clients sv ! i) = ex_mac \<and> (\<forall>j < length (Clients sv). j \<noteq> i \<longrightarrow> MacAddr (Clients sv ! j) \<noteq> ex_mac) \<and>
    DHCPS_GetIpByMac ex_mac st = Some a \<and> DHCPS_GetMacByIp a st = Some ex_mac \<and> a \<noteq> ip_addr ex_nif"
proof -
  obtain st sv a where st: "dhcps_reach ex_nif st" "DhcpServer st = Some sv" "leases st ex_mac = Some a" using ex_bound by blast
  note S = reach_server(3) [OF st(1,2)]
  obtain i where i: "i < length (Clients sv)" "bound (Clients sv ! i)" "MacAddr (Clients sv ! i) = ex_mac"
    using st(3) unfolding leases_def st(2) option.case bindings_iff [OF S] by blast
  have "ex_mac \<noteq> zero_mac" using ex_station by (simp add: station_def)
  from dhcps_bindings_safe [OF st(1) ex_good st(2) i(1) _ i(3) refl this] i st(2) show ?thesis by auto
qed

text \<open>A step of an abstract table of leases, with the acknowledgements it sends.\<close>

inductive lease_step :: "(mac \<rightharpoonup> u32) \<Rightarrow> (mac \<times> u32) list \<Rightarrow> (mac \<rightharpoonup> u32) \<Rightarrow> bool" where
  lease_end: "b' \<subseteq>\<^sub>m b \<Longrightarrow> lease_step b [] b'"
| lease_grant: "a \<notin> ran (b(m := None)) \<Longrightarrow> lease_step b [(m, a)] (b(m \<mapsto> a))"

text \<open>C8. The server refines a table of leases: a packet or a tick either ends leases and acknowledges nothing,
  or it grants one lease, acknowledges exactly that one to its station, and the address is not
  leased to another station.\<close>

theorem dhcps_refines_leases:
  assumes "dhcps_reach nif st" "good_net nif k" "pbuf_ok e" "DHCPS_RecvCb e P st = Some st'"
  shows "(\<exists>new. net st' = net st @ new \<and> lease_step (leases st) (acks new) (leases st')) \<and>
    lease_step (leases st) [] (leases (DhcpTickHandle sta st))"
proof
  obtain sv where sv: "serving st sv" "on_net nif sv" using reach_serving [OF assms(1)] by blast
  have b: "leases st = bindings (Clients sv)" using sv(1) by (simp add: leases_def serving_def)
  show "lease_step (leases st) [] (leases (DhcpTickHandle sta st))"
    by (rule lease_end [OF tick_leases [OF sv(1) reach_enabled [OF sv(2)]]])
  let ?m = "msg_Chaddr (in_buffer P)"
  obtain sv' new where R: "serving st' sv'" "net st' = net st @ new"
    "acks new = [] \<and> bindings (Clients sv') \<in> {bindings (Clients sv), (bindings (Clients sv))(?m := None)} \<or>
     (\<exists>a. acks new = [(?m, a)] \<and> bindings (Clients sv') = (bindings (Clients sv))(?m \<mapsto> a))"
    using recv_result [OF sv(1) assms(4) refl] assms(3) by auto
  have b': "leases st' = bindings (Clients sv')" using R(1) by (simp add: leases_def serving_def)
  from R(3) have "lease_step (leases st) (acks new) (leases st')"
  proof
    assume "acks new = [] \<and> bindings (Clients sv') \<in> {bindings (Clients sv), (bindings (Clients sv))(?m := None)}"
    then show ?thesis using lease_end [of "leases st'" "leases st"] by (auto simp: b b' map_le_def)
  next
    assume "\<exists>a. acks new = [(?m, a)] \<and> bindings (Clients sv') = (bindings (Clients sv))(?m \<mapsto> a)"
    then obtain a where a: "acks new = [(?m, a)]" "leases st' = (leases st)(?m \<mapsto> a)" using b b' by auto
    have "a \<notin> ran ((leases st)(?m := None))"
    proof
      assume "a \<in> ran ((leases st)(?m := None))"
      then obtain x where x: "x \<noteq> ?m" "leases st x = Some a" by (auto simp: ran_def split: if_splits)
      have "x = ?m" by (rule leases_inj [OF reach_packet [OF assms(1,4)] assms(2)]) (use x in \<open>simp_all add: a(2)\<close>)
      then show False using x(1) by simp
    qed
    from lease_grant [OF this] show ?thesis unfolding a .
  qed
  then show "\<exists>new. net st' = net st @ new \<and> lease_step (leases st) (acks new) (leases st')" using R(2) by blast
qed

theorem dhcps_refines_leases_witness:
  "\<exists>st'. DHCPS_RecvCb ex_env (client_msg 0 0 ex_mac discover_opts) ex_st = Some st' \<and>
    (\<exists>new. net st' = net ex_st @ new \<and> lease_step Map.empty (acks new) (leases st'))"
proof -
  have p: "pbuf_ok ex_env" by (simp add: ex_env_def)
  have "\<exists>c\<in>set (Clients ((start_server ex_nif)\<lparr>Socket := True, Enable := True\<rparr>)). State c = DHCP_CLIENT_STATE_IDLE"
    using ex_idle by (meson last_in_set)
  then obtain st' where s: "DHCPS_RecvCb ex_env (client_msg 0 0 ex_mac discover_opts) ex_st = Some st'"
    using handshake [OF ex_dhcp_reach ex_good ex_server(1) ex_station p, of 0 0 0 0] ex_idle(1) by blast
  from dhcps_refines_leases [OF ex_dhcp_reach ex_good p s] s show ?thesis unfolding ex_server(2) by blast
qed

text \<open>Leases end: 7200 ticks without a packet make every entry of the table idle, whichever stations
  are connected, so every address can be given to a new client.\<close>

theorem dhcps_leases_expire:
  assumes "dhcps_reach nif st" "7200 \<le> length fs"
  shows "\<exists>sv'. DhcpServer (ticks fs st) = Some sv' \<and> (\<forall>c\<in>set (Clients sv'). State c = DHCP_CLIENT_STATE_IDLE) \<and> leases (ticks fs st) = Map.empty"
proof -
  obtain sv where sv: "serving st sv" "on_net nif sv" using reach_serving [OF assms(1)] by blast
  have "\<forall>c\<in>set (Clients sv). ticks_left c \<le> length fs"
    using sv(1) ticks_left_bound assms(2) by (fastforce simp: serving_def table_inv_def)
  then obtain sv' where sv': "serving (ticks fs st) sv'" "\<forall>c\<in>set (Clients sv'). idle c"
    using ticks_expire [OF sv(1) reach_enabled [OF sv(2)], of fs] by blast
  have "find_client (\<lambda>c. bound c \<and> MacAddr c = m) (Clients sv') = None" for m
    using sv'(2) by (auto simp: find_client_None)
  then have "leases (ticks fs st) m = None" for m using sv'(1) by (simp add: leases_def serving_def bindings_def)
  then show ?thesis using sv' by (auto simp: serving_def)
qed


theorem dhcps_leases_expire_witness: "leases (ticks (replicate 7200 (\<lambda>_. None)) ex_st) = Map.empty"
  using dhcps_leases_expire [OF ex_dhcp_reach, of "replicate 7200 (\<lambda>_. None)"] by auto

text \<open>C19. A station that has no active entry gets an address while one is idle: its discovery is answered with an
  offer of an address of the pool, and its request for that address with an acknowledgement that
  binds it.\<close>

theorem dhcps_handshake:
  assumes "dhcps_reach nif st" "good_net nif k" "DhcpServer st = Some sv" "station e mac" "pbuf_ok e"
    and "\<forall>c\<in>set (Clients sv). State c = DHCP_CLIENT_STATE_IDLE \<or> MacAddr c \<noteq> mac" "\<exists>c\<in>set (Clients sv). State c = DHCP_CLIENT_STATE_IDLE"
  shows "\<exists>a st1 st2 new1 new2.
    DHCPS_RecvCb e (client_msg x1 f1 mac discover_opts) st = Some st1 \<and>
    net st1 = net st @ new1 \<and> offers new1 = [(mac, a)] \<and> a \<in> set (pool nif) \<and>
    DHCPS_RecvCb e (client_msg x2 f2 mac (request_opts a (ip_addr nif))) st1 = Some st2 \<and>
    net st2 = net st1 @ new2 \<and> acks new2 = [(mac, a)] \<and> leases st2 = (leases st)(mac \<mapsto> a)"
  using assms by (rule handshake)

theorem dhcps_handshake_witness:
  "\<exists>a st1 st2. DHCPS_RecvCb ex_env (client_msg 7 0 ex_mac discover_opts) ex_st = Some st1 \<and>
    DHCPS_RecvCb ex_env (client_msg 8 0 ex_mac (request_opts a (ip_addr ex_nif))) st1 = Some st2 \<and> leases st2 = [ex_mac \<mapsto> a]"
proof -
  have p: "pbuf_ok ex_env" by (simp add: ex_env_def)
  have "\<exists>c\<in>set (Clients ((start_server ex_nif)\<lparr>Socket := True, Enable := True\<rparr>)). State c = DHCP_CLIENT_STATE_IDLE"
    using ex_idle by (meson last_in_set)
  then show ?thesis
    using dhcps_handshake [OF ex_dhcp_reach ex_good ex_server(1) ex_station p, of 7 0 8 0] ex_idle(1) unfolding ex_server(2) by blast
qed

text \<open>A packet whose options hold no end option makes the parser read behind the message.\<close>

theorem dhcps_no_end_option:
  assumes "DhcpMsg st = Some b" "accepted P (in_buffer P) e" "\<forall>p. 240 \<le> p \<and> p < 548 \<longrightarrow> in_buffer P ! p \<noteq> 255"
  shows "DHCPS_RecvCb e P st = None"
proof -
  have "parse_from (in_buffer P) p x = None" if "240 \<le> p" for p x
    using that
  proof (induction "in_buffer P" p x rule: parse_from.induct)
    case (1 p x)
    then show ?case using assms(3) by (subst parse_from.simps) (auto split: option.split)
  qed
  then show ?thesis using assms(1,2) by (simp add: DHCPS_RecvCb_def ParseDhcpOptions_def)
qed

theorem dhcps_no_end_option_witness: "DHCPS_RecvCb ex_env (client_header 0 0 ex_mac) ex_st = None"
proof -
  have m: "length ex_mac = 6" by (simp add: ex_mac_def)
  have b: "in_buffer (client_header 0 0 ex_mac) = client_header 0 0 ex_mac @ replicate 308 0" by (simp add: in_buffer_short m)
  have "accepted (client_header 0 0 ex_mac) (in_buffer (client_header 0 0 ex_mac)) ex_env"
    by (rule client_accepted [OF ex_station, of _ 0 0 "[]"]) simp_all
  moreover have "\<forall>p. 240 \<le> p \<and> p < 548 \<longrightarrow> in_buffer (client_header 0 0 ex_mac) ! p \<noteq> 255"
    unfolding b by (auto simp: nth_append m)
  ultimately show ?thesis using dhcps_no_end_option [of ex_st] by (simp add: ex_st_def)
qed

text \<open>A station with an active entry that requests an address outside the pool is not refused: it gets an
  acknowledgement for the address of its entry, which is not the one it asked for.\<close>

theorem dhcps_foreign_request_acked:
  assumes "dhcps_reach nif st" "DhcpServer st = Some sv" "station e mac" "pbuf_ok e" "req \<notin> set (pool nif)"
    and "c \<in> set (Clients sv)" "State c \<noteq> DHCP_CLIENT_STATE_IDLE" "MacAddr c = mac"
  shows "\<exists>st1 new. DHCPS_RecvCb e (client_msg Xid Flags mac (request_opts req (ip_addr nif))) st = Some st1 \<and>
    net st1 = net st @ new \<and> acks new = [(mac, IpAddr c)] \<and> IpAddr c \<noteq> req"
proof -
  note R = reach_server [OF assms(1,2)]
  obtain i where i: "i < length (Clients sv)" "c = Clients sv ! i" using assms(6) by (auto simp: in_set_conv_nth)
  have ip: "IpAddr (Clients sv ! j) \<noteq> req" if "j < length (Clients sv)" for j
    using R(4,5) that assms(5) nth_mem [of j "pool nif"] by auto
  have sid: "ServerIpAddr sv = ip_addr nif" using R(2) by (simp add: on_net_def)
  have "\<not> idle (Clients sv ! i)" "MacAddr (Clients sv ! i) = mac" "\<And>j. j < length (Clients sv) \<Longrightarrow> IpAddr (Clients sv ! j) = req \<Longrightarrow> j = i"
    using assms(7,8) i(2) ip by blast+
  from request_step [where Xid = Xid and Flags = Flags and req = req, OF R(1) assms(3,4) i(1) this refl] show ?thesis
    unfolding sid i(2) using ip [OF i(1)] by blast
qed

theorem dhcps_foreign_request_acked_witness:
  "\<exists>st st1 a new. DHCPS_RecvCb ex_env (client_msg 0 0 ex_mac (request_opts 0x01020304 (ip_addr ex_nif))) st = Some st1 \<and>
    net st1 = net st @ new \<and> acks new = [(ex_mac, a)] \<and> a \<noteq> 0x01020304"
proof -
  obtain st sv a where st: "dhcps_reach ex_nif st" "DhcpServer st = Some sv" "leases st ex_mac = Some a" using ex_bound by blast
  then obtain c where c: "c \<in> set (Clients sv)" "bound c" "MacAddr c = ex_mac"
    by (auto simp: leases_def bindings_def dest: find_client_Some)
  have "pool ex_nif ! i \<noteq> 0x01020304" if "i < 8" for i
  proof
    assume "pool ex_nif ! i = 0x01020304"
    then have "htonl 0x01020304 AND NOT (mask 8) = 0xC0A80101 AND NOT (mask 8)"
      using good_pool(1) [OF ex_good that] by (simp add: ex_nif_def)
    then show False by (simp add: htonl_def le32_def un32_def mask_eq_exp_minus_1)
  qed
  then have "0x01020304 \<notin> set (pool ex_nif)" by (auto simp: in_set_conv_nth)
  moreover have "State c \<noteq> DHCP_CLIENT_STATE_IDLE" "pbuf_ok ex_env" using c(2) by (simp_all add: ex_env_def)
  ultimately show ?thesis using dhcps_foreign_request_acked [OF st(1,2) ex_station _ _ c(1) _ c(3), of "0x01020304" 0 0] by blast
qed

text \<open>When the server's host number is close to the end of its network, the pool wraps and two of
  its entries hold the same address, so two clients can be bound to it.\<close>

theorem dhcps_pool_wraps:
  assumes "net_mask nif k" "3 \<le> k" "k \<le> 31" "2 ^ k - 8 \<le> host nif k" "host nif k + 2 < 2 ^ k"
  shows "\<exists>i j. i < 8 \<and> j < 8 \<and> i \<noteq> j \<and> pool nif ! i = pool nif ! j"
proof -
  let ?N = "2 ^ k - 1 :: nat" and ?h = "host nif k + 1"
  have big: "(8 :: nat) \<le> 2 ^ k" using power_increasing [of 3 k "2 :: nat"] assms(2) by simp
  define i where "i = ?N - ?h"
  have i: "?h + i = ?N" "i < 7" using assms(4,5) big by (simp_all add: i_def)
  have s: "wrap k ?h = ?h" using assms(5) by (simp add: wrap_def)
  have "1 mod ?N = 1" using big by simp
  then have "wrap k ?N = 1" "wrap k (?N + 1) = 1" by (simp_all only: wrap_def mod_add_self1 mod_self) simp_all
  then have "wrap k (wrap k ?h + i) = 1" "wrap k (wrap k ?h + (i + 1)) = 1" unfolding s add.assoc [symmetric] i(1) .
  then have "unat (htonl (pool nif ! i) AND mask k) = unat (htonl (pool nif ! (i + 1)) AND mask k)"
    using pool_nth(2) [OF assms(1) _ assms(3), of i] pool_nth(2) [OF assms(1) _ assms(3), of "i + 1"] assms(2) i(2) by simp
  then have h: "htonl (pool nif ! i) AND mask k = htonl (pool nif ! (i + 1)) AND mask k" by (simp only: word_unat_eq_iff)
  have "htonl (pool nif ! i) AND NOT (mask k) = htonl (pool nif ! (i + 1)) AND NOT (mask k)"
    using pool_nth(1) [OF assms(1) _ assms(3), of i] pool_nth(1) [OF assms(1) _ assms(3), of "i + 1"] assms(2) i(2) by simp
  then have "htonl (pool nif ! i) = htonl (pool nif ! (i + 1))" by (rule parts_eq [OF h])
  then show ?thesis using i(2) by (intro exI [of _ i] exI [of _ "i + 1"]) simp
qed


theorem dhcps_pool_wraps_witness:
  "\<exists>i j. i < 8 \<and> j < 8 \<and> i \<noteq> j \<and>
    (let nif = \<lparr>is_up = True, ip_addr = htonl 0xC0A801FA, netmask = htonl 0xFFFFFF00\<rparr> in pool nif ! i = pool nif ! j)"
  unfolding Let_def by (rule dhcps_pool_wraps [OF ex_net(1)]) (simp_all add: ex_net(2))
end
