(* ===== verification/Lsd.thy ===== *)
theory Lsd
  imports Bytes Crc
begin

text \<open>
  Provisioning without a connection, \<^verbatim>\<open>src/app/oneshotconfig/wm_oneshot_lsd.c\<close>: a phone tells the name and the key of
  the network through the lengths of the multicast frames it sends. Four frames whose lengths go down by
  one announce the base length; then groups of four frames carry two bytes, their number and a checksum. The
  variables of one of the three kinds of frames are a record \<open>lsd_src\<close> (the code has one array per
  variable). \<open>None\<close> stands for an access outside an array; that of a
  group number is the only one that can happen, since lengths are compared before they are used and the count of
  bytes has eight bits.
\<close>

unbundle bit_operations_syntax

section \<open>Checksum\<close>

definition lsd_crc_table :: "u8 list" where
  "lsd_crc_table =
    [0x00, 0x91, 0xe3, 0x72, 0x07, 0x96, 0xe4, 0x75, 0x0e, 0x9f, 0xed, 0x7c, 0x09, 0x98, 0xea, 0x7b,
     0x1c, 0x8d, 0xff, 0x6e, 0x1b, 0x8a, 0xf8, 0x69, 0x12, 0x83, 0xf1, 0x60, 0x15, 0x84, 0xf6, 0x67,
     0x38, 0xa9, 0xdb, 0x4a, 0x3f, 0xae, 0xdc, 0x4d, 0x36, 0xa7, 0xd5, 0x44, 0x31, 0xa0, 0xd2, 0x43,
     0x24, 0xb5, 0xc7, 0x56, 0x23, 0xb2, 0xc0, 0x51, 0x2a, 0xbb, 0xc9, 0x58, 0x2d, 0xbc, 0xce, 0x5f,
     0x70, 0xe1, 0x93, 0x02, 0x77, 0xe6, 0x94, 0x05, 0x7e, 0xef, 0x9d, 0x0c, 0x79, 0xe8, 0x9a, 0x0b,
     0x6c, 0xfd, 0x8f, 0x1e, 0x6b, 0xfa, 0x88, 0x19, 0x62, 0xf3, 0x81, 0x10, 0x65, 0xf4, 0x86, 0x17,
     0x48, 0xd9, 0xab, 0x3a, 0x4f, 0xde, 0xac, 0x3d, 0x46, 0xd7, 0xa5, 0x34, 0x41, 0xd0, 0xa2, 0x33,
     0x54, 0xc5, 0xb7, 0x26, 0x53, 0xc2, 0xb0, 0x21, 0x5a, 0xcb, 0xb9, 0x28, 0x5d, 0xcc, 0xbe, 0x2f,
     0xe0, 0x71, 0x03, 0x92, 0xe7, 0x76, 0x04, 0x95, 0xee, 0x7f, 0x0d, 0x9c, 0xe9, 0x78, 0x0a, 0x9b,
     0xfc, 0x6d, 0x1f, 0x8e, 0xfb, 0x6a, 0x18, 0x89, 0xf2, 0x63, 0x11, 0x80, 0xf5, 0x64, 0x16, 0x87,
     0xd8, 0x49, 0x3b, 0xaa, 0xdf, 0x4e, 0x3c, 0xad, 0xd6, 0x47, 0x35, 0xa4, 0xd1, 0x40, 0x32, 0xa3,
     0xc4, 0x55, 0x27, 0xb6, 0xc3, 0x52, 0x20, 0xb1, 0xca, 0x5b, 0x29, 0xb8, 0xcd, 0x5c, 0x2e, 0xbf,
     0x90, 0x01, 0x73, 0xe2, 0x97, 0x06, 0x74, 0xe5, 0x9e, 0x0f, 0x7d, 0xec, 0x99, 0x08, 0x7a, 0xeb,
     0x8c, 0x1d, 0x6f, 0xfe, 0x8b, 0x1a, 0x68, 0xf9, 0x82, 0x13, 0x61, 0xf0, 0x85, 0x14, 0x66, 0xf7,
     0xa8, 0x39, 0x4b, 0xda, 0xaf, 0x3e, 0x4c, 0xdd, 0xa6, 0x37, 0x45, 0xd4, 0xa1, 0x30, 0x42, 0xd3,
     0xb4, 0x25, 0x57, 0xc6, 0xb3, 0x22, 0x50, 0xc1, 0xba, 0x2b, 0x59, 0xc8, 0xbd, 0x2c, 0x5e, 0xcf]"

text \<open>\<^verbatim>\<open>lsd_crc8_init\<close>, \<^verbatim>\<open>lsd_crc8_update\<close> and \<^verbatim>\<open>lsd_crc8_get\<close> on the value of \<^verbatim>\<open>lsd_crc_value\<close>.\<close>

definition lsd_crc8_init :: "u8 \<Rightarrow> u8" where
  "lsd_crc8_init d = d"

definition lsd_crc8_update :: "u8 \<Rightarrow> u8 \<Rightarrow> u8" where
  "lsd_crc8_update d crc = lsd_crc_table ! unat (d XOR crc)"

definition lsd_crc8_calc :: "u8 list \<Rightarrow> u8" where
  "lsd_crc8_calc buf = fold lsd_crc8_update buf (lsd_crc8_init 0)"

section \<open>Frames\<close>

record ieee80211_hdr =
  frame_control :: u16
  duration_id :: u16
  addr1 :: "u8 list"
  addr2 :: "u8 list"
  addr3 :: "u8 list"
  seq_ctrl :: u16
  addr4 :: "u8 list"

definition ieee80211_has_tods :: "u16 \<Rightarrow> bool" where
  "ieee80211_has_tods fc \<longleftrightarrow> fc AND 0x0100 \<noteq> 0"

definition ieee80211_has_fromds :: "u16 \<Rightarrow> bool" where
  "ieee80211_has_fromds fc \<longleftrightarrow> fc AND 0x0200 \<noteq> 0"

definition ieee80211_has_a4 :: "u16 \<Rightarrow> bool" where
  "ieee80211_has_a4 fc \<longleftrightarrow> fc AND 0x0300 = 0x0300"

definition ieee80211_has_retry :: "u16 \<Rightarrow> bool" where
  "ieee80211_has_retry fc \<longleftrightarrow> fc AND 0x0800 \<noteq> 0"

definition ieee80211_is_data_qos :: "u16 \<Rightarrow> bool" where
  "ieee80211_is_data_qos fc \<longleftrightarrow> fc AND 0x008C = 0x0088"

definition ieee80211_get_SA :: "ieee80211_hdr \<Rightarrow> u8 list" where
  "ieee80211_get_SA h =
     (if ieee80211_has_a4 (frame_control h) then addr4 h
      else if ieee80211_has_fromds (frame_control h) then addr3 h else addr2 h)"

definition ieee80211_get_DA :: "ieee80211_hdr \<Rightarrow> u8 list" where
  "ieee80211_get_DA h = (if ieee80211_has_tods (frame_control h) then addr3 h else addr1 h)"

section \<open>State\<close>

abbreviation (input) "LSD_ONESHOT_CONTINUE \<equiv> 0 :: int"
abbreviation (input) "LSD_ONESHOT_CHAN_TEMP_LOCKED \<equiv> 1 :: int"
abbreviation (input) "LSD_ONESHOT_CHAN_LOCKED_BW20 \<equiv> 2 :: int"
abbreviation (input) "LSD_ONESHOT_CHAN_LOCKED_BW40 \<equiv> 3 :: int"
abbreviation (input) "LSD_ONESHOT_COMPLETE \<equiv> 4 :: int"
abbreviation (input) "LSD_ONESHOT_ERR \<equiv> 5 :: int"
abbreviation (input) "LSD_DATA_MAX \<equiv> 256 :: nat"

record lsd_src =
  lsd_last_num :: u8
  lsd_head :: "u16 list"
  lsd_byte :: "u16 list"
  lsd_state :: u8
  lsd_data_datum :: u16
  lsd_head_cnt :: u8
  lsd_head_bw20 :: u8
  lsd_byte_cnt :: u8
  lsd_sync_cnt :: u8
  lsd_src_mac :: "u8 list"
  lsd_data_cnt :: u8
  lsd_last_seq :: u16
  lsd_temp_lock :: u8

record lsd_data_t =
  ld_data :: "u8 list"
  ld_used :: "u8 list"

record lsd_param_t =
  lp_ssid :: "u8 list"
  lp_pwd :: "u8 list"
  lp_bssid :: "u8 list"
  lp_user_data :: "u8 list"
  lp_ssid_len :: u8
  lp_pwd_len :: u8
  lp_user_len :: u8
  lp_total_len :: u8

record bss_info =
  b_bssid :: "u8 list"
  b_ssid_len :: u8
  b_ssid :: "u8 list"

record lsd =
  lsd_srcs :: "lsd_src list"
  lsd_lock_chan_cnt :: u8
  lsd_data :: "lsd_data_t option"
  lsd_param :: "lsd_param_t option"
  lsd_scan_bss :: "bss_info list option"

definition zero_src :: lsd_src where
  "zero_src = \<lparr>lsd_last_num = 0, lsd_head = [0, 0, 0, 0], lsd_byte = [0, 0, 0, 0], lsd_state = 0, lsd_data_datum = 0, lsd_head_cnt = 0,
     lsd_head_bw20 = 0, lsd_byte_cnt = 0, lsd_sync_cnt = 0, lsd_src_mac = replicate 6 0, lsd_data_cnt = 0, lsd_last_seq = 0, lsd_temp_lock = 0\<rparr>"

definition zero_data :: lsd_data_t where
  "zero_data = \<lparr>ld_data = replicate 256 0, ld_used = replicate 256 0\<rparr>"

definition zero_param :: lsd_param_t where
  "zero_param = \<lparr>lp_ssid = replicate 33 0, lp_pwd = replicate 65 0, lp_bssid = replicate 6 0, lp_user_data = replicate 128 0,
     lp_ssid_len = 0, lp_pwd_len = 0, lp_user_len = 0, lp_total_len = 0\<rparr>"

text \<open>\<open>m1\<close>, \<open>m2\<close>: the outcomes of the two allocations.\<close>

definition tls_lsd_init :: "bool \<Rightarrow> bool \<Rightarrow> bss_info list option \<Rightarrow> lsd \<Rightarrow> lsd" where
  "tls_lsd_init m1 m2 scanBss s =
     \<lparr>lsd_srcs = map (\<lambda>x. zero_src) [0..<3], lsd_lock_chan_cnt = 0,
      lsd_data = (if lsd_data s = None \<and> \<not> m1 then None else Some zero_data),
      lsd_param = (if lsd_param s = None \<and> \<not> m2 then None else Some zero_param), lsd_scan_bss = scanBss\<rparr>"

definition tls_lsd_deinit :: "lsd \<Rightarrow> lsd" where
  "tls_lsd_deinit s = s\<lparr>lsd_data := None, lsd_param := None\<rparr>"

section \<open>Finding the base length\<close>

definition lsd_new_mac :: "u8 list \<Rightarrow> lsd_src \<Rightarrow> lsd_src" where
  "lsd_new_mac mac s =
     s\<lparr>lsd_src_mac := mac, lsd_head_cnt := 0, lsd_head_bw20 := 0, lsd_sync_cnt := 0, lsd_last_seq := 0, lsd_head := [0, 0, 0, 0]\<rparr>"

definition lsd_track_mac :: "u8 list \<Rightarrow> lsd_src \<Rightarrow> lsd_src" where
  "lsd_track_mac mac s =
     (if lsd_src_mac s = replicate 6 0 then (lsd_new_mac mac s)\<lparr>lsd_temp_lock := 0\<rparr>
      else if lsd_src_mac s \<noteq> mac then lsd_new_mac mac s else s)"

text \<open>The comparison of a length with the one before, in type int.\<close>

definition lsd_head_step :: "u16 \<Rightarrow> bool \<Rightarrow> lsd_src \<Rightarrow> lsd_src" where
  "lsd_head_step frm_len bw20 s =
     (let s = s\<lparr>lsd_head := (lsd_head s)[unat (lsd_head_cnt s) := frm_len]\<rparr>;
          cur = uint (lsd_head s ! unat (lsd_head_cnt s));
          prev = uint (lsd_head s ! (unat (lsd_head_cnt s) - 1));
          s = (if 0 < lsd_head_cnt s
               then if cur + 1 \<noteq> prev \<and> cur - 3 \<noteq> prev
                    then s\<lparr>lsd_temp_lock := 0, lsd_head_cnt := 0, lsd_head_bw20 := 0, lsd_head := (lsd_head s)[0 := frm_len]\<rparr>
                    else s\<lparr>lsd_temp_lock := 1\<rparr>
               else s);
          s = s\<lparr>lsd_head_cnt := lsd_head_cnt s + 1\<rparr>;
          s = (if bw20 then s\<lparr>lsd_head_bw20 := lsd_head_bw20 s + 1\<rparr> else s)
      in if 4 \<le> lsd_head_cnt s then s\<lparr>lsd_sync_cnt := lsd_sync_cnt s + 1, lsd_head_cnt := 0\<rparr> else s)"

definition lsd_temp_locked :: "u8 \<Rightarrow> lsd_src \<Rightarrow> int \<times> u8 \<times> lsd_src" where
  "lsd_temp_locked lock s =
     (if lsd_temp_lock s = 1 \<and> lock = 0 then (LSD_ONESHOT_CHAN_TEMP_LOCKED, 1, s) else (LSD_ONESHOT_CONTINUE, lock, s))"

definition lsd_sync :: "ieee80211_hdr \<Rightarrow> u16 \<Rightarrow> u8 list \<Rightarrow> u8 \<Rightarrow> lsd_src \<Rightarrow> int \<times> u8 \<times> lsd_src" where
  "lsd_sync hdr frm_len SrcMac lock s =
     (if frm_len < 60 \<or> 86 < frm_len then (LSD_ONESHOT_CONTINUE, lock, s)
      else let s = lsd_track_mac SrcMac s
           in if ieee80211_has_retry (frame_control hdr) \<and> lsd_last_seq s = seq_ctrl hdr then (LSD_ONESHOT_CONTINUE, lock, s)
              else let s = lsd_head_step frm_len (duration_id hdr AND 1 = 0) (s\<lparr>lsd_last_seq := seq_ctrl hdr\<rparr>)
                   in if 1 \<le> lsd_sync_cnt s
                      then let guide_len = fold min [lsd_head s ! 1, lsd_head s ! 2, lsd_head s ! 3] (lsd_head s ! 0);
                               s = s\<lparr>lsd_state := 1, lsd_data_datum := guide_len - 1 + 20\<rparr>
                           in if 4 \<le> lsd_head_bw20 s
                              then let s = s\<lparr>lsd_head_bw20 := 0\<rparr>
                                   in if lock = 1 then (LSD_ONESHOT_CHAN_LOCKED_BW20, 2, s) else lsd_temp_locked lock s
                              else if lock = 1 then (LSD_ONESHOT_CHAN_LOCKED_BW40, 2, s) else lsd_temp_locked lock s
                      else lsd_temp_locked lock s)"

section \<open>Collecting bytes\<close>

definition lsd_clear :: "lsd_src \<Rightarrow> lsd_src" where
  "lsd_clear s = s\<lparr>lsd_data_cnt := 0\<rparr>"

text \<open>\<^verbatim>\<open>memset(&lsd_byte[tods][0], 0, 4)\<close> clears two of the four entries.\<close>

definition lsd_new_num :: "u8 \<Rightarrow> lsd_src \<Rightarrow> lsd_src" where
  "lsd_new_num num s =
     (if lsd_last_num s \<noteq> num
      then s\<lparr>lsd_byte := [0, 0] @ drop 2 (lsd_byte s), lsd_byte_cnt := 0, lsd_last_num := num\<rparr> else s)"

definition lsd_byte_step :: "u16 \<Rightarrow> lsd_src \<Rightarrow> lsd_src" where
  "lsd_byte_step x s =
     (let c = lsd_byte_cnt s;
          s = s\<lparr>lsd_byte := (lsd_byte s)[unat c := x]\<rparr>
      in if c = 0 \<and> 256 \<le> lsd_byte s ! 0 \<or> c = 1 \<and> 0x100 \<noteq> lsd_byte s ! 1 AND 0x300 \<or>
            c = 2 \<and> 256 \<le> lsd_byte s ! 2 \<or> c = 3 \<and> 0x200 \<noteq> lsd_byte s ! 3 AND 0x300
         then s\<lparr>lsd_byte_cnt := 0\<rparr> else s\<lparr>lsd_byte_cnt := c + 1\<rparr>)"

text \<open>A complete group: the result is true when the table was full and has been cleared.\<close>

definition lsd_group :: "lsd_src \<Rightarrow> lsd_data_t \<Rightarrow> (bool \<times> lsd_src \<times> lsd_data_t) option" where
  "lsd_group s d =
     (let data1 = ucast (lsd_byte s ! 0); crc = ucast (lsd_byte s ! 1); data2 = ucast (lsd_byte s ! 2); seq = ucast (lsd_byte s ! 3) :: u8;
          i = 2 * unat seq
      in if LSD_DATA_MAX \<le> i then None
         else if ld_used d ! i = 0 \<and> crc = lsd_crc8_calc [data1, data2, seq]
         then let d = \<lparr>ld_data = (ld_data d)[i := data1, i + 1 := data2], ld_used = (ld_used d)[i := 1, i + 1 := 1]\<rparr>;
                  s = s\<lparr>lsd_data_cnt := lsd_data_cnt s + 1 + 1\<rparr>
              in if LSD_DATA_MAX \<le> unat (lsd_data_cnt s) then Some (True, lsd_clear s, zero_data)
                 else Some (False, s\<lparr>lsd_byte_cnt := 0\<rparr>, d)
         else Some (False, s\<lparr>lsd_byte_cnt := 0\<rparr>, d))"

section \<open>Evaluating the bytes\<close>

definition tls_find_ssid_nonascII_pos_and_count :: "u8 list \<Rightarrow> u8 \<Rightarrow> u8" where
  "tls_find_ssid_nonascII_pos_and_count ssid ssid_len = of_nat (length (filter (\<lambda>x. 0x80 \<le> x) (take (unat ssid_len) ssid)))"

text \<open>Search of the scanned networks; the address of the name and its length are results.\<close>

fun lsd_ssid_bssid_crc_match :: "u8 \<Rightarrow> u8 \<Rightarrow> u8 \<Rightarrow> bss_info list \<Rightarrow> lsd_param_t \<Rightarrow> int \<times> u8 \<times> lsd_param_t" where
  "lsd_ssid_bssid_crc_match ssidCrc bssidCrc ssidLen [] p = (- 1, ssidLen, p)"
| "lsd_ssid_bssid_crc_match ssidCrc bssidCrc ssidLen (b # bs) p =
     (if bssidCrc = lsd_crc8_calc (b_bssid b)
      then let non_asciicnt = tls_find_ssid_nonascII_pos_and_count (lp_ssid p) ssidLen;
               name = copy_into (lp_ssid p) 0 (b_ssid b) (unat (b_ssid_len b))
           in if ssidLen = b_ssid_len b \<and> ssidCrc = lsd_crc8_calc (take (unat (b_ssid_len b)) (b_ssid b))
              then (0, ssidLen, p\<lparr>lp_ssid := name, lp_bssid := b_bssid b\<rparr>)
              else if non_asciicnt \<noteq> 0
              then (0, b_ssid_len b, (if ssidLen \<noteq> b_ssid_len b then p\<lparr>lp_ssid := name\<rparr> else p)\<lparr>lp_bssid := b_bssid b\<rparr>)
              else lsd_ssid_bssid_crc_match ssidCrc bssidCrc ssidLen bs p
      else lsd_ssid_bssid_crc_match ssidCrc bssidCrc ssidLen bs p)"

definition lsd_match :: "u8 \<Rightarrow> u8 \<Rightarrow> u8 \<Rightarrow> bss_info list option \<Rightarrow> lsd_param_t \<Rightarrow> int \<times> u8 \<times> lsd_param_t" where
  "lsd_match ssidCrc bssidCrc ssidLen scan p =
     (case scan of None \<Rightarrow> (- 1, ssidLen, p) | Some bs \<Rightarrow> lsd_ssid_bssid_crc_match ssidCrc bssidCrc ssidLen bs p)"

text \<open>The checks of the three lengths: the code to return, if any.\<close>

definition lsd_len_check :: "nat \<Rightarrow> nat \<Rightarrow> nat \<Rightarrow> int option" where
  "lsd_len_check totalLen pwdLen ssidLen =
     (if 32 < ssidLen \<or> 64 < pwdLen then Some LSD_ONESHOT_ERR
      else if pwdLen = 0 \<and> ssidLen = 0 \<and> totalLen \<le> 2 then Some LSD_ONESHOT_CONTINUE
      else if 0 < ssidLen \<and> 0 < pwdLen then if totalLen < pwdLen + ssidLen + 5 then Some LSD_ONESHOT_CONTINUE else None
      else if 0 < ssidLen \<and> pwdLen = 0 then if totalLen < pwdLen + ssidLen + 4 then Some LSD_ONESHOT_CONTINUE else None
      else if ssidLen = 0 \<and> 0 < pwdLen then Some LSD_ONESHOT_CONTINUE
      else None)"

text \<open>All bytes have arrived: the code, and whether the table is cleared.\<close>

definition lsd_all :: "bss_info list option \<Rightarrow> u8 list \<Rightarrow> u8 \<Rightarrow> u8 \<Rightarrow> u8 \<Rightarrow> lsd_param_t \<Rightarrow> int \<times> bool \<times> lsd_param_t" where
  "lsd_all scan dat totalLen pwdLen ssidLen p =
     (let tl = unat totalLen; pl = unat pwdLen; sl = unat ssidLen
      in if dat ! (tl + 1) \<noteq> lsd_crc8_calc (take (tl + 1) dat) then (LSD_ONESHOT_CONTINUE, True, p)
         else if sl = 0 \<and> pl = 0
         then let p = p\<lparr>lp_ssid_len := 0, lp_pwd_len := 0, lp_user_len := totalLen - 2\<rparr>
              in if 128 < lp_user_len p then (LSD_ONESHOT_ERR, True, p)
                 else (LSD_ONESHOT_COMPLETE, False, p\<lparr>lp_user_data := copy_into (lp_user_data p) 0 (drop 3 dat) (unat (lp_user_len p))\<rparr>)
         else let bssidCrc = dat ! 3;
                  ul = (if 0 < pl then totalLen - pwdLen - ssidLen - 5 else totalLen - ssidLen - 4);
                  so = (if 0 < pl then 5 + pl else 4 + pl);
                  ssidCrc = dat ! (so + sl);
                  p = (if 0 < pl then p\<lparr>lp_pwd := copy_into (lp_pwd p) 0 (drop 4 dat) pl\<rparr> else p);
                  p = p\<lparr>lp_ssid := copy_into (lp_ssid p) 0 (drop so dat) sl, lp_user_len := ul\<rparr>
              in if 128 < ul then (LSD_ONESHOT_ERR, True, p)
                 else let p = p\<lparr>lp_user_data := copy_into (lp_user_data p) 0 (drop (so + sl + 1) dat) (unat ul)\<rparr>;
                          p = p\<lparr>lp_ssid_len := ssidLen, lp_pwd_len := pwdLen, lp_total_len := totalLen\<rparr>;
                          (_, len, p) = lsd_match ssidCrc bssidCrc ssidLen scan p
                      in (LSD_ONESHOT_COMPLETE, False, p\<lparr>lp_ssid_len := len\<rparr>))"

text \<open>The bytes of the key that have arrived are copied; a wrong checksum discards the key and its length.\<close>

definition lsd_drop_pwd :: "nat \<Rightarrow> lsd_data_t \<Rightarrow> lsd_data_t" where
  "lsd_drop_pwd pl d =
     \<lparr>ld_data = (copy_into (ld_data d) 4 (replicate pl 0) pl)[1 := 0], ld_used = (copy_into (ld_used d) 4 (replicate pl 0) pl)[1 := 0]\<rparr>"

text \<open>Not all bytes have arrived, but the name may be known from the scan.\<close>

definition lsd_early ::
  "bss_info list option \<Rightarrow> u8 \<Rightarrow> u8 \<Rightarrow> u8 \<Rightarrow> lsd_src \<Rightarrow> lsd_data_t \<Rightarrow> lsd_param_t \<Rightarrow> int \<times> lsd_src \<times> lsd_data_t \<times> lsd_param_t" where
  "lsd_early scan totalLen pwdLen ssidLen s d p =
     (let pl = unat pwdLen; sl = unat ssidLen;
          so = (if 0 < pl then 5 + pl else 4 + pl);
          userLen = (if 0 < pl then totalLen - pwdLen - ssidLen - 5 else totalLen - ssidLen - 4);
          try = (\<lambda>s d p. let (ret, len, p) = lsd_match (ld_data d ! (so + sl)) (ld_data d ! 3) ssidLen scan p
                          in if ret = 0 then (LSD_ONESHOT_COMPLETE, s, d, p\<lparr>lp_ssid_len := len, lp_pwd_len := pwdLen, lp_total_len := totalLen\<rparr>)
                             else (LSD_ONESHOT_CONTINUE, s, d, p))
      in if sl = 0 \<or> ld_used d ! (so + sl) = 0 \<or> 0 < userLen \<or> ld_used d ! 3 = 0 then (LSD_ONESHOT_CONTINUE, s, d, p)
         else if pl = 0 then try s d p
         else if ld_used d ! (4 + pl) = 0 then (LSD_ONESHOT_CONTINUE, s, d, p)
         else let k = length (takeWhile (\<lambda>u. u \<noteq> 0) (take pl (drop 4 (ld_used d))));
                  p = p\<lparr>lp_pwd := copy_into (lp_pwd p) 0 (drop 4 (ld_data d)) k\<rparr>
              in if k \<noteq> pl then (LSD_ONESHOT_CONTINUE, s, d, p)
                 else if ld_data d ! (4 + pl) \<noteq> lsd_crc8_calc (take pl (drop 4 (ld_data d)))
                 then (LSD_ONESHOT_CONTINUE, s\<lparr>lsd_data_cnt := lsd_data_cnt s - pwdLen\<rparr>, lsd_drop_pwd pl d, p\<lparr>lp_pwd := replicate 65 0\<rparr>)
                 else try s d p)"

definition lsd_evaluate ::
  "bss_info list option \<Rightarrow> lsd_src \<Rightarrow> lsd_data_t \<Rightarrow> lsd_param_t \<Rightarrow> int \<times> lsd_src \<times> lsd_data_t \<times> lsd_param_t" where
  "lsd_evaluate scan s d p =
     (if ld_used d ! 0 = 0 \<or> ld_used d ! 1 = 0 \<or> ld_used d ! 2 = 0 then (LSD_ONESHOT_CONTINUE, s, d, p)
      else let totalLen = ld_data d ! 0; pwdLen = ld_data d ! 1; ssidLen = ld_data d ! 2
           in case lsd_len_check (unat totalLen) (unat pwdLen) (unat ssidLen) of
                Some r \<Rightarrow> (r, lsd_clear s, zero_data, p)
              | None \<Rightarrow>
                  if unat totalLen + 2 \<le> unat (lsd_data_cnt s)
                  then let (r, clr, p) = lsd_all scan (ld_data d) totalLen pwdLen ssidLen p
                       in if clr then (r, lsd_clear s, zero_data, p) else (r, s, d, p)
                  else lsd_early scan totalLen pwdLen ssidLen s d p)"

section \<open>A frame\<close>

text \<open>\<^verbatim>\<open>case 1\<close> of the switch.\<close>

definition lsd_receive ::
  "bss_info list option \<Rightarrow> ieee80211_hdr \<Rightarrow> u16 \<Rightarrow> u8 list \<Rightarrow> u8 \<Rightarrow> lsd_src \<Rightarrow> lsd_data_t \<Rightarrow> lsd_param_t \<Rightarrow>
    (int \<times> lsd_src \<times> lsd_data_t \<times> lsd_param_t) option" where
  "lsd_receive scan hdr frm_len SrcMac num s d p =
     (if 1024 \<le> frm_len \<or> frm_len < lsd_data_datum s \<or> lsd_src_mac s \<noteq> SrcMac \<or>
         ieee80211_has_retry (frame_control hdr) \<and> lsd_last_seq s = seq_ctrl hdr
      then Some (LSD_ONESHOT_CONTINUE, s, d, p)
      else let s = lsd_new_num num (s\<lparr>lsd_last_seq := seq_ctrl hdr\<rparr>);
               s = lsd_byte_step (frm_len - lsd_data_datum s) s
           in if 4 \<le> lsd_byte_cnt s
              then case lsd_group s d of
                     None \<Rightarrow> None
                   | Some (err, s, d) \<Rightarrow> Some (if err then (LSD_ONESHOT_ERR, s, d, p) else lsd_evaluate scan s d p)
              else Some (lsd_evaluate scan s d p))"

definition tls_lsd_recv :: "ieee80211_hdr \<Rightarrow> u16 \<Rightarrow> lsd \<Rightarrow> (int \<times> lsd) option" where
  "tls_lsd_recv hdr data_len s =
     (case (lsd_data s, lsd_param s) of
        (Some d, Some p) \<Rightarrow>
          let tods = (if duration_id hdr = 0 then 2 else if ieee80211_has_tods (frame_control hdr) then 1 else 0 :: nat);
              multicast = ieee80211_get_DA hdr;
              frm_len = (if ieee80211_is_data_qos (frame_control hdr) then data_len - 2 else data_len);
              SrcMac = ieee80211_get_SA hdr;
              src = lsd_srcs s ! tods
          in if take 3 multicast \<noteq> [0x01, 0x00, 0x5E] \<and> duration_id hdr \<noteq> 0 then Some (LSD_ONESHOT_CONTINUE, s)
             else if lsd_state src = 0
             then let (r, lock, src) = lsd_sync hdr frm_len SrcMac (lsd_lock_chan_cnt s) src
                  in Some (r, s\<lparr>lsd_srcs := (lsd_srcs s)[tods := src], lsd_lock_chan_cnt := lock\<rparr>)
             else if lsd_state src = 1
             then case lsd_receive (lsd_scan_bss s) hdr frm_len SrcMac (multicast ! 5) src d p of
                    None \<Rightarrow> None
                  | Some (r, src, d, p) \<Rightarrow> Some (r, s\<lparr>lsd_srcs := (lsd_srcs s)[tods := src], lsd_data := Some d, lsd_param := Some p\<rparr>)
             else Some (LSD_ONESHOT_CONTINUE, s)
      | _ \<Rightarrow> Some (- 1, s))"

end
