(* ===== verification/Lsd_Msg.thy ===== *)
theory Lsd_Msg
  imports Lsd
begin

text \<open>
  The message a provisioning application sends, as a specification, and the evaluation of a table that
  holds some of its pairs of bytes.
\<close>

unbundle bit_operations_syntax

section \<open>Checksum\<close>

lemma lsd_crc8_calc_crc8: "lsd_crc8_calc xs = get_crc8 xs"
proof -
  have t: "lsd_crc_table = crc8_tbl" by (simp add: lsd_crc_table_def crc8_tbl_def)
  have "calculate_crc8 c xs = fold lsd_crc8_update xs c" for c
    by (induction xs arbitrary: c) (simp_all add: lsd_crc8_update_def t xor.commute)
  then show ?thesis by (simp add: lsd_crc8_calc_def lsd_crc8_init_def get_crc8_def)
qed

lemma lsd_crc8_calc_absorb: "lsd_crc8_calc xs = fold crc8_absorb xs 0"
  by (simp add: lsd_crc8_calc_crc8 get_crc8_def crc8_fold)

section \<open>The message\<close>

definition lsd_total_len :: "u8 list \<Rightarrow> u8 list \<Rightarrow> u8 list \<Rightarrow> nat" where
  "lsd_total_len ssid pwd user =
     (if ssid = [] then length user + 2
      else if pwd = [] then length ssid + length user + 4 else length pwd + length ssid + length user + 5)"

definition lsd_body :: "u8 list \<Rightarrow> u8 list \<Rightarrow> u8 list \<Rightarrow> u8 \<Rightarrow> u8 list" where
  "lsd_body ssid pwd user bc =
     [of_nat (lsd_total_len ssid pwd user), of_nat (length pwd), of_nat (length ssid)] @
     (if ssid = [] then []
      else [bc] @ (if pwd = [] then [] else pwd @ [lsd_crc8_calc pwd]) @ ssid @ [lsd_crc8_calc ssid]) @ user"

definition lsd_message :: "u8 list \<Rightarrow> u8 list \<Rightarrow> u8 list \<Rightarrow> u8 \<Rightarrow> u8 list" where
  "lsd_message ssid pwd user bc = lsd_body ssid pwd user bc @ [lsd_crc8_calc (lsd_body ssid pwd user bc)]"

definition lsd_sendable :: "u8 list \<Rightarrow> u8 list \<Rightarrow> u8 list \<Rightarrow> bool" where
  "lsd_sendable ssid pwd user \<longleftrightarrow>
     length ssid \<le> 32 \<and> length pwd \<le> 64 \<and> length user \<le> 128 \<and> (ssid = [] \<longrightarrow> pwd = [] \<and> user \<noteq> [])"

text \<open>The number of pairs, and the two bytes of a pair (an odd message ends with a zero).\<close>

definition lsd_pairs :: "u8 list \<Rightarrow> nat" where
  "lsd_pairs m = (length m + 1) div 2"

definition lsd_padded :: "u8 list \<Rightarrow> u8 list" where
  "lsd_padded m = (if odd (length m) then m @ [0] else m)"

lemma length_padded: "length (lsd_padded m) = 2 * lsd_pairs m"
  by (auto simp: lsd_padded_def lsd_pairs_def elim!: oddE evenE)

lemma padded_nth: "j < length m \<Longrightarrow> lsd_padded m ! j = m ! j"
  by (simp add: lsd_padded_def nth_append)

lemma length_body: "lsd_sendable ssid pwd user \<Longrightarrow> length (lsd_body ssid pwd user bc) = lsd_total_len ssid pwd user + 1"
  by (auto simp: lsd_body_def lsd_total_len_def lsd_sendable_def)

lemma length_message: "lsd_sendable ssid pwd user \<Longrightarrow> length (lsd_message ssid pwd user bc) = lsd_total_len ssid pwd user + 2"
  by (simp add: lsd_message_def length_body)

lemma total_len_bound: "lsd_sendable ssid pwd user \<Longrightarrow> lsd_total_len ssid pwd user \<le> 229"
  by (auto simp: lsd_total_len_def lsd_sendable_def)

lemma pairs_bound: "lsd_sendable ssid pwd user \<Longrightarrow> lsd_pairs (lsd_message ssid pwd user bc) \<le> 116"
  using total_len_bound [of ssid pwd user] by (simp add: lsd_pairs_def length_message)

lemma pairs_pos: "lsd_sendable ssid pwd user \<Longrightarrow> 2 \<le> lsd_pairs (lsd_message ssid pwd user bc)"
  by (auto simp: lsd_pairs_def length_message lsd_total_len_def lsd_sendable_def)

section \<open>A table that holds some of the pairs\<close>

definition lsd_table :: "u8 list \<Rightarrow> nat set \<Rightarrow> u8 \<Rightarrow> lsd_data_t \<Rightarrow> bool" where
  "lsd_table m S cnt d \<longleftrightarrow>
     length (ld_data d) = 256 \<and> length (ld_used d) = 256 \<and> S \<subseteq> {..<lsd_pairs m} \<and> cnt = of_nat (2 * card S) \<and>
     (\<forall>j<256. ld_used d ! j = (if j div 2 \<in> S then 1 else 0)) \<and>
     (\<forall>j<2 * lsd_pairs m. j div 2 \<in> S \<longrightarrow> ld_data d ! j = lsd_padded m ! j)"

lemma table_empty: "lsd_table m {} 0 zero_data"
  by (simp add: lsd_table_def zero_data_def)

lemma table_used: "lsd_table m S cnt d \<Longrightarrow> j < 256 \<Longrightarrow> ld_used d ! j = (if j div 2 \<in> S then 1 else 0)"
  by (simp add: lsd_table_def)

lemma table_data:
  assumes "lsd_table m S cnt d" "j < length m" "j div 2 \<in> S"
  shows "ld_data d ! j = m ! j"
proof -
  have "j < 2 * lsd_pairs m" using assms(2) by (simp add: lsd_pairs_def)
  then show ?thesis using assms padded_nth [OF assms(2)] by (simp add: lsd_table_def)
qed

lemma table_full:
  assumes "lsd_table m S cnt d" "lsd_pairs m \<le> 127"
  shows "length m \<le> unat cnt \<longleftrightarrow> S = {..<lsd_pairs m}"
proof -
  have s: "S \<subseteq> {..<lsd_pairs m}" and c: "cnt = of_nat (2 * card S)" using assms(1) by (simp_all add: lsd_table_def)
  have le: "card S \<le> lsd_pairs m" using card_mono [OF _ s] by simp
  have "unat cnt = (2 * card S) mod 256" unfolding c unat_of_nat by simp
  then have u: "unat cnt = 2 * card S" using le assms(2) by simp
  show ?thesis
  proof
    assume "length m \<le> unat cnt"
    then have "lsd_pairs m \<le> card S" using u by (simp add: lsd_pairs_def)
    then show "S = {..<lsd_pairs m}" using s by (intro card_subset_eq) (use le in auto)
  next
    assume "S = {..<lsd_pairs m}"
    then show "length m \<le> unat cnt" using u by (simp add: lsd_pairs_def)
  qed
qed

lemma table_store:
  assumes t: "lsd_table m S cnt d" and i: "i < lsd_pairs m" and n: "lsd_pairs m \<le> 127" and new: "i \<notin> S"
  shows "lsd_table m (insert i S) (cnt + 1 + 1)
     \<lparr>ld_data = (ld_data d)[2 * i := lsd_padded m ! (2 * i), 2 * i + 1 := lsd_padded m ! (2 * i + 1)],
      ld_used = (ld_used d)[2 * i := 1, 2 * i + 1 := 1]\<rparr>"
proof -
  have f: "finite S" using t finite_subset by (auto simp: lsd_table_def)
  have "cnt = of_nat (2 * card S)" using t by (simp add: lsd_table_def)
  then have "cnt + 1 + 1 = of_nat (2 * card (insert i S))" using f new by simp
  moreover have "j div 2 \<in> insert i S \<longleftrightarrow> j = 2 * i \<or> j = 2 * i + 1 \<or> j div 2 \<in> S" for j by auto
  ultimately show ?thesis using t i n unfolding lsd_table_def by (auto simp: nth_list_update)
qed

lemma table_take:
  assumes t: "lsd_table m {..<lsd_pairs m} cnt d" and k: "a + n \<le> length m" and n: "lsd_pairs m \<le> 127"
  shows "take n (drop a (ld_data d)) = take n (drop a m)"
proof (rule nth_equalityI)
  have l: "length m \<le> 254" using n by (simp add: lsd_pairs_def)
  then show "length (take n (drop a (ld_data d))) = length (take n (drop a m))" using t k by (simp add: lsd_table_def)
  fix j assume "j < length (take n (drop a (ld_data d)))"
  then have j: "j < n" "a + j < 256" using t by (auto simp: lsd_table_def)
  then have "a + j < length m" using k by simp
  then have "ld_data d ! (a + j) = m ! (a + j)" using table_data [OF t] by (simp add: lsd_pairs_def)
  then show "take n (drop a (ld_data d)) ! j = take n (drop a m) ! j" using j t k by (simp add: lsd_table_def)
qed

section \<open>Fields of the message\<close>

text \<open>The place of the name.\<close>

definition lsd_name_at :: "u8 list \<Rightarrow> nat" where
  "lsd_name_at pwd = (if 0 < length pwd then 5 + length pwd else 4 + length pwd)"

lemma message_head:
  "lsd_message ssid pwd user bc ! 0 = of_nat (lsd_total_len ssid pwd user)"
  "lsd_message ssid pwd user bc ! 1 = of_nat (length pwd)"
  "lsd_message ssid pwd user bc ! 2 = of_nat (length ssid)"
  by (simp_all add: lsd_message_def lsd_body_def numeral_2_eq_2)

lemma message_total:
  assumes "lsd_sendable ssid pwd user"
  shows "take (lsd_total_len ssid pwd user + 1) (lsd_message ssid pwd user bc) = lsd_body ssid pwd user bc"
    "lsd_message ssid pwd user bc ! (lsd_total_len ssid pwd user + 1) = lsd_crc8_calc (lsd_body ssid pwd user bc)"
  using length_body [OF assms, of bc] by (simp_all add: lsd_message_def nth_append)

lemma message_user_only: "take (length user) (drop 3 (lsd_message [] [] user bc)) = user"
  by (simp add: lsd_message_def lsd_body_def)

lemma nth_past: "n = length xs \<Longrightarrow> (xs @ y # ys) ! n = y"
  by simp

lemma message_network:
  assumes "ssid \<noteq> []"
  shows "lsd_message ssid pwd user bc ! 3 = bc"
    "take (length pwd) (drop 4 (lsd_message ssid pwd user bc)) = pwd"
    "pwd \<noteq> [] \<Longrightarrow> lsd_message ssid pwd user bc ! (4 + length pwd) = lsd_crc8_calc pwd"
    "take (length ssid) (drop (lsd_name_at pwd) (lsd_message ssid pwd user bc)) = ssid"
    "lsd_message ssid pwd user bc ! (lsd_name_at pwd + length ssid) = lsd_crc8_calc ssid"
    "take (length user) (drop (lsd_name_at pwd + length ssid + 1) (lsd_message ssid pwd user bc)) = user"
  using assms by (simp_all add: lsd_message_def lsd_body_def lsd_name_at_def numeral_3_eq_3 numeral_eq_Suc nth_append)

lemma total_len_name: "ssid \<noteq> [] \<Longrightarrow> lsd_total_len ssid pwd user = lsd_name_at pwd + length ssid + length user"
  by (simp add: lsd_total_len_def lsd_name_at_def)

section \<open>Scanned networks\<close>

text \<open>The scanned networks whose address has the checksum that was sent bear the name that was sent.\<close>

definition lsd_scan_ok :: "u8 list \<Rightarrow> u8 \<Rightarrow> bss_info list \<Rightarrow> bool" where
  "lsd_scan_ok ssid bc bs \<longleftrightarrow>
     (\<forall>b\<in>set bs. lsd_crc8_calc (b_bssid b) = bc \<longrightarrow>
        unat (b_ssid_len b) = length ssid \<and> take (length ssid) (b_ssid b) = ssid)"

definition lsd_got :: "u8 list \<Rightarrow> u8 list \<Rightarrow> u8 list \<Rightarrow> lsd_param_t \<Rightarrow> bool" where
  "lsd_got ssid pwd user p \<longleftrightarrow>
     unat (lp_ssid_len p) = length ssid \<and> take (length ssid) (lp_ssid p) = ssid \<and>
     unat (lp_pwd_len p) = length pwd \<and> take (length pwd) (lp_pwd p) = pwd \<and>
     unat (lp_user_len p) = length user \<and> take (length user) (lp_user_data p) = user"

lemma scan_match:
  assumes "lsd_scan_ok ssid bc bs" "length ssid \<le> 32" "sl = of_nat (length ssid)"
  shows "lsd_ssid_bssid_crc_match (lsd_crc8_calc ssid) bc sl bs p = (- 1, sl, p) \<or>
    (\<exists>b. lsd_ssid_bssid_crc_match (lsd_crc8_calc ssid) bc sl bs p =
        (0, sl, p\<lparr>lp_ssid := copy_into (lp_ssid p) 0 ssid (length ssid), lp_bssid := b\<rparr>))"
  using assms(1)
proof (induction bs)
  case (Cons b bs)
  have rest: "lsd_scan_ok ssid bc bs" using Cons.prems by (simp add: lsd_scan_ok_def)
  show ?case
  proof (cases "bc = lsd_crc8_calc (b_bssid b)")
    case True
    then have l: "unat (b_ssid_len b) = length ssid" and t: "take (length ssid) (b_ssid b) = ssid"
      using Cons.prems by (simp_all add: lsd_scan_ok_def)
    have "sl = b_ssid_len b" using l assms(3) by (simp flip: l)
    then show ?thesis using True l t by (auto simp: copy_into_def)
  next
    case False
    then show ?thesis using Cons.IH [OF rest] by simp
  qed
qed simp

end
