(* ===== verification/Lsd_Eval.thy ===== *)
theory Lsd_Eval
  imports Lsd_Msg
begin

text \<open>
  What the evaluation does with a table that holds some pairs of a message: it completes with the fields of the
  message, or it changes nothing but the part of the key copied so far; it completes when all pairs are there.
\<close>

section \<open>All bytes\<close>

definition lsd_fresh :: "lsd_param_t \<Rightarrow> bool" where
  "lsd_fresh p \<longleftrightarrow> length (lp_ssid p) = 33 \<and> length (lp_pwd p) = 65 \<and> length (lp_user_data p) = 128 \<and> lp_user_len p = 0"

lemma fresh_zero: "lsd_fresh zero_param"
  by (simp add: lsd_fresh_def zero_param_def)

definition lsd_scan_fine :: "u8 list \<Rightarrow> u8 \<Rightarrow> bss_info list option \<Rightarrow> bool" where
  "lsd_scan_fine ssid bc scan \<longleftrightarrow> (case scan of None \<Rightarrow> True | Some bs \<Rightarrow> lsd_scan_ok ssid bc bs)"

lemma match_cases:
  assumes "lsd_scan_fine ssid bc scan" "length ssid \<le> 32"
  obtains "lsd_match (lsd_crc8_calc ssid) bc (of_nat (length ssid)) scan p = (- 1, of_nat (length ssid), p)"
  | b where "lsd_match (lsd_crc8_calc ssid) bc (of_nat (length ssid)) scan p =
        (0, of_nat (length ssid), p\<lparr>lp_ssid := copy_into (lp_ssid p) 0 ssid (length ssid), lp_bssid := b\<rparr>)"
proof (cases scan)
  case None
  then show ?thesis using that(1) by (simp add: lsd_match_def)
next
  case (Some bs)
  have "lsd_scan_ok ssid bc bs" using assms(1) Some by (simp add: lsd_scan_fine_def)
  from scan_match [OF this assms(2) refl, of p] show ?thesis using that Some by (auto simp: lsd_match_def)
qed

lemma take_copy_into_0: "length xs = n \<Longrightarrow> n \<le> length c \<Longrightarrow> take n (copy_into c 0 xs n) = xs"
  by (simp add: copy_into_def)

lemma unat_small: "n < 256 \<Longrightarrow> unat (of_nat n :: u8) = n"
  by (simp add: unat_of_nat)

lemma copy_into_take: "copy_into c 0 (drop a xs) n = copy_into c 0 (take n (drop a xs)) n"
  by (simp add: copy_into_def)

text \<open>The length of the user data, computed modulo 256.\<close>

lemma user_len:
  assumes "lsd_sendable ssid pwd user" "ssid \<noteq> []"
  shows "(if 0 < length pwd
     then of_nat (lsd_total_len ssid pwd user) - of_nat (length pwd) - of_nat (length ssid) - 5
     else of_nat (lsd_total_len ssid pwd user) - of_nat (length ssid) - 4) = (of_nat (length user) :: u8)"
  using assms by (auto simp: lsd_total_len_def)

lemma all_user_only:
  assumes s: "lsd_sendable [] [] user" and f: "lsd_fresh p"
    and t: "lsd_table (lsd_message [] [] user bc) {..<lsd_pairs (lsd_message [] [] user bc)} cnt d"
  shows "\<exists>p'. lsd_all scan (ld_data d) (of_nat (lsd_total_len [] [] user)) (of_nat 0) (of_nat 0) p = (LSD_ONESHOT_COMPLETE, False, p') \<and>
    lsd_got [] [] user p'"
proof -
  let ?m = "lsd_message [] [] user bc" and ?tl = "lsd_total_len [] [] user"
  have n: "lsd_pairs ?m \<le> 127" using pairs_bound [OF s, of bc] by simp
  have tl: "unat (of_nat ?tl :: u8) = ?tl" using total_len_bound [OF s] by (intro unat_small) simp
  have l: "length ?m = ?tl + 2" by (rule length_message [OF s])
  have crc: "ld_data d ! (?tl + 1) = lsd_crc8_calc (take (?tl + 1) (ld_data d))"
    using table_take [OF t _ n, of 0 "?tl + 1"] table_data [OF t, of "?tl + 1"] l message_total [OF s, of bc]
    by (simp add: lsd_pairs_def)
  have u: "take (length user) (drop 3 (ld_data d)) = user"
    using table_take [OF t _ n, of 3 "length user"] l by (simp add: lsd_total_len_def message_user_only)
  have ul: "of_nat ?tl - 2 = (of_nat (length user) :: u8)" by (simp add: lsd_total_len_def)
  have le: "length user \<le> 128" using s by (simp add: lsd_sendable_def)
  then have un: "unat (of_nat (length user) :: u8) = length user" by (simp add: unat_small)
  have nb: "\<not> (128 :: u8) < of_nat (length user)" using le un by (simp add: word_less_nat_alt)
  show ?thesis using crc tl ul un nb f le u
    by (simp add: lsd_all_def Let_def lsd_got_def lsd_fresh_def copy_into_take take_copy_into_0)
qed

lemma all_network:
  assumes s: "lsd_sendable ssid pwd user" and ne: "ssid \<noteq> []" and f: "lsd_fresh p" and sc: "lsd_scan_fine ssid bc scan"
    and t: "lsd_table (lsd_message ssid pwd user bc) {..<lsd_pairs (lsd_message ssid pwd user bc)} cnt d"
  shows "\<exists>p'. lsd_all scan (ld_data d) (of_nat (lsd_total_len ssid pwd user)) (of_nat (length pwd)) (of_nat (length ssid)) p =
      (LSD_ONESHOT_COMPLETE, False, p') \<and> lsd_got ssid pwd user p'"
proof -
  let ?m = "lsd_message ssid pwd user bc" and ?tl = "lsd_total_len ssid pwd user" and ?so = "lsd_name_at pwd"
  have n: "lsd_pairs ?m \<le> 127" using pairs_bound [OF s, of bc] by simp
  have b: "length ssid \<le> 32" "length pwd \<le> 64" "length user \<le> 128" using s by (simp_all add: lsd_sendable_def)
  have un: "unat (of_nat ?tl :: u8) = ?tl" "unat (of_nat (length ssid) :: u8) = length ssid"
    "unat (of_nat (length pwd) :: u8) = length pwd" "unat (of_nat (length user) :: u8) = length user"
    using total_len_bound [OF s] b by (simp_all add: unat_small)
  have l: "length ?m = ?tl + 2" by (rule length_message [OF s])
  have tl: "?tl = ?so + length ssid + length user" by (rule total_len_name [OF ne])
  have at: "j \<le> ?tl + 1 \<Longrightarrow> ld_data d ! j = ?m ! j" for j
    using table_data [OF t, of j] l by (simp add: lsd_pairs_def)
  have tk: "a + k \<le> ?tl + 2 \<Longrightarrow> take k (drop a (ld_data d)) = take k (drop a ?m)" for a k
    using table_take [OF t _ n] l by simp
  have so: "4 + length pwd \<le> ?so" "(if 0 < length pwd then 5 + length pwd else 4 + length pwd) = ?so"
    by (simp_all add: lsd_name_at_def)
  have crc: "ld_data d ! (?tl + 1) = lsd_crc8_calc (take (?tl + 1) (ld_data d))"
    using tk [of 0 "?tl + 1"] at [of "?tl + 1"] message_total [OF s, of bc] by simp
  have fld: "take (length pwd) (drop 4 (ld_data d)) = pwd" "take (length ssid) (drop ?so (ld_data d)) = ssid"
    "take (length user) (drop (?so + length ssid + 1) (ld_data d)) = user"
    "ld_data d ! 3 = bc" "ld_data d ! (?so + length ssid) = lsd_crc8_calc ssid"
    using tk at so(1) tl message_network [OF ne, where pwd = pwd and user = user and bc = bc] by simp_all
  have nb: "\<not> (128 :: u8) < of_nat (length user)" using b(3) un(4) by (simp add: word_less_nat_alt)
  note ul = user_len [OF s ne]
  define q where "q = p\<lparr>lp_pwd := (if 0 < length pwd then copy_into (lp_pwd p) 0 pwd (length pwd) else lp_pwd p),
     lp_ssid := copy_into (lp_ssid p) 0 ssid (length ssid), lp_user_len := of_nat (length user),
     lp_user_data := copy_into (lp_user_data p) 0 user (length user),
     lp_ssid_len := of_nat (length ssid), lp_pwd_len := of_nat (length pwd), lp_total_len := of_nat ?tl\<rparr>"
  have "lsd_all scan (ld_data d) (of_nat ?tl) (of_nat (length pwd)) (of_nat (length ssid)) p =
      (let (_, len, p) = lsd_match (lsd_crc8_calc ssid) bc (of_nat (length ssid)) scan q
       in (LSD_ONESHOT_COMPLETE, False, p\<lparr>lp_ssid_len := len\<rparr>))"
    unfolding lsd_all_def Let_def un so(2) ul copy_into_take fld using crc nb ne fld by (simp add: q_def)
  moreover have "lsd_got ssid pwd user q" "length (lp_ssid q) = 33"
    using f b un by (simp_all add: q_def lsd_got_def lsd_fresh_def take_copy_into_0)
  ultimately show ?thesis using b(1)
    by (rule_tac match_cases [OF sc b(1), of q]) (auto simp: lsd_got_def un take_copy_into_0)
qed

section \<open>Some bytes\<close>

lemma len_check_message:
  assumes "lsd_sendable ssid pwd user"
  shows "lsd_len_check (lsd_total_len ssid pwd user) (length pwd) (length ssid) = None"
  using assms by (auto simp: lsd_len_check_def lsd_sendable_def lsd_total_len_def)

lemma table_prefix:
  assumes t: "lsd_table m S cnt d" and l: "a + n \<le> length m" "length m \<le> 256"
    and k: "length (takeWhile (\<lambda>u. u \<noteq> 0) (take n (drop a (ld_used d)))) = n"
  shows "take n (drop a (ld_data d)) = take n (drop a m)"
proof (rule nth_equalityI)
  have len: "length (ld_data d) = 256" "length (ld_used d) = 256" using t by (simp_all add: lsd_table_def)
  then show "length (take n (drop a (ld_data d))) = length (take n (drop a m))" using l by simp
  fix j assume "j < length (take n (drop a (ld_data d)))"
  then have j: "j < n" by simp
  have "takeWhile (\<lambda>u. u \<noteq> 0) (take n (drop a (ld_used d))) = take n (drop a (ld_used d))"
    using k len l by (intro takeWhile_eq_take [THEN trans]) simp
  then have "\<forall>u\<in>set (take n (drop a (ld_used d))). u \<noteq> 0" by (simp add: takeWhile_eq_all_conv)
  moreover have "ld_used d ! (a + j) \<in> set (take n (drop a (ld_used d)))"
    using j len l by (auto simp: in_set_conv_nth intro!: exI [of _ j])
  ultimately have "(a + j) div 2 \<in> S" using table_used [OF t, of "a + j"] j l by (auto split: if_splits)
  then have "ld_data d ! (a + j) = m ! (a + j)" using table_data [OF t] j l by simp
  then show "take n (drop a (ld_data d)) ! j = take n (drop a m) ! j" using j len l by simp
qed

text \<open>The result of an evaluation that goes on, or that has the fields of the message.\<close>

definition lsd_outcome ::
  "u8 list \<Rightarrow> u8 list \<Rightarrow> u8 list \<Rightarrow> lsd_src \<Rightarrow> lsd_data_t \<Rightarrow> int \<times> lsd_src \<times> lsd_data_t \<times> lsd_param_t \<Rightarrow> bool" where
  "lsd_outcome ssid pwd user s d res \<longleftrightarrow>
     (\<exists>p. res = (LSD_ONESHOT_CONTINUE, s, d, p) \<and> lsd_fresh p) \<or>
     (\<exists>p. res = (LSD_ONESHOT_COMPLETE, s, d, p) \<and> lsd_got ssid pwd user p)"

lemma outcome_continue: "lsd_fresh p \<Longrightarrow> lsd_outcome ssid pwd user s d (LSD_ONESHOT_CONTINUE, s, d, p)"
  by (simp add: lsd_outcome_def)

text \<open>The search of the networks, when the key is known and no user data were sent.\<close>

lemma try_outcome:
  assumes s: "lsd_sendable ssid pwd []" and sc: "lsd_scan_fine ssid bc scan"
    and f: "lsd_fresh p" and w: "take (length pwd) (lp_pwd p) = pwd"
  shows "lsd_outcome ssid pwd [] src d
    (let (ret, len, p) = lsd_match (lsd_crc8_calc ssid) bc (of_nat (length ssid)) scan p
     in if ret = 0 then (LSD_ONESHOT_COMPLETE, src, d, p\<lparr>lp_ssid_len := len, lp_pwd_len := of_nat (length pwd), lp_total_len := tlen\<rparr>)
        else (LSD_ONESHOT_CONTINUE, src, d, p))"
proof -
  have b: "length ssid \<le> 32" "length pwd \<le> 64" using s by (simp_all add: lsd_sendable_def)
  show ?thesis using f w b
    by (rule_tac match_cases [OF sc b(1), of p]) (auto simp: lsd_outcome_def lsd_got_def lsd_fresh_def unat_small take_copy_into_0)
qed

lemma early_outcome:
  assumes s: "lsd_sendable ssid pwd user" and f: "lsd_fresh p" and sc: "lsd_scan_fine ssid bc scan"
    and t: "lsd_table (lsd_message ssid pwd user bc) S cnt d"
  shows "lsd_outcome ssid pwd user src d
    (lsd_early scan (of_nat (lsd_total_len ssid pwd user)) (of_nat (length pwd)) (of_nat (length ssid)) src d p)"
proof (cases "ssid = []")
  case True
  then show ?thesis using f by (simp add: lsd_early_def outcome_continue)
next
  case ne: False
  let ?m = "lsd_message ssid pwd user bc" and ?tl = "lsd_total_len ssid pwd user" and ?so = "lsd_name_at pwd"
  have b: "length ssid \<le> 32" "length pwd \<le> 64" "length user \<le> 128" using s by (simp_all add: lsd_sendable_def)
  have un: "unat (of_nat (length ssid) :: u8) = length ssid" "unat (of_nat (length pwd) :: u8) = length pwd"
    using b by (simp_all add: unat_small)
  have u0: "0 < (of_nat (length user) :: u8) \<longleftrightarrow> user \<noteq> []" using b(3) by (simp add: word_less_nat_alt unat_small)
  have l: "length ?m = ?tl + 2" by (rule length_message [OF s])
  have tl: "?tl = ?so + length ssid + length user" by (rule total_len_name [OF ne])
  have le: "?tl \<le> 229" by (rule total_len_bound [OF s])
  have so: "4 + length pwd \<le> ?so" "(if 0 < length pwd then 5 + length pwd else 4 + length pwd) = ?so"
    by (simp_all add: lsd_name_at_def)
  have at: "j \<le> ?tl + 1 \<Longrightarrow> ld_used d ! j \<noteq> 0 \<Longrightarrow> ld_data d ! j = ?m ! j" for j
    using table_data [OF t, of j] table_used [OF t, of j] l le by (auto split: if_splits)
  note net = message_network [OF ne, where pwd = pwd and user = user and bc = bc]
  let ?k = "length (takeWhile (\<lambda>u. u \<noteq> 0) (take (length pwd) (drop 4 (ld_used d))))"
  let ?p = "p\<lparr>lp_pwd := copy_into (lp_pwd p) 0 (drop 4 (ld_data d)) ?k\<rparr>"
  have kle: "?k \<le> length pwd" using length_takeWhile_le [of _ "take (length pwd) (drop 4 (ld_used d))"] by simp
  have len: "length (ld_data d) = 256" using t by (simp add: lsd_table_def)
  have fp: "lsd_fresh ?p" using f kle b len by (simp add: lsd_fresh_def)
  have key: "?k = length pwd \<Longrightarrow> take (length pwd) (drop 4 (ld_data d)) = pwd"
    using table_prefix [OF t, of 4 "length pwd"] l le tl so(1) net(2) by simp
  then have kp: "?k = length pwd \<Longrightarrow> take (length pwd) (lp_pwd ?p) = pwd"
    using f b by (simp add: copy_into_take [of _ 4] take_copy_into_0 lsd_fresh_def)
  show ?thesis
  proof (cases "ld_used d ! (?so + length ssid) = 0 \<or> user \<noteq> [] \<or> ld_used d ! 3 = 0 \<or> pwd \<noteq> [] \<and> (ld_used d ! (4 + length pwd) = 0 \<or> ?k \<noteq> length pwd)")
    case True
    then show ?thesis
      unfolding lsd_early_def Let_def un so(2) user_len [OF s ne] u0 using f fp by (auto simp: outcome_continue)
  next
    case False
    then have us: "user = []" and st: "lsd_sendable ssid pwd []" using s by auto
    have nm: "ld_data d ! (?so + length ssid) = lsd_crc8_calc ssid" "ld_data d ! 3 = bc"
      using False at [of "?so + length ssid"] at [of 3] net tl so(1) by simp_all
    have pc: "pwd \<noteq> [] \<Longrightarrow> ld_data d ! (4 + length pwd) = lsd_crc8_calc pwd"
      using False at [of "4 + length pwd"] net(3) tl so(1) by simp
    show ?thesis
    proof (cases "pwd = []")
      case True
      show ?thesis unfolding lsd_early_def Let_def un so(2) user_len [OF s ne] u0 nm
        using False ne True try_outcome [OF st sc f] by (simp add: us Let_def)
    next
      case pw: False
      then have k: "?k = length pwd" using False by simp
      show ?thesis unfolding lsd_early_def Let_def un so(2) user_len [OF s ne] u0 nm
        using False ne pw key [OF k] pc try_outcome [OF st sc fp kp [OF k]] k by (simp add: us Let_def)
    qed
  qed
qed

text \<open>The evaluation of a table that holds the pairs \<open>S\<close>.\<close>

lemma evaluate_outcome:
  assumes s: "lsd_sendable ssid pwd user" and f: "lsd_fresh p" and sc: "lsd_scan_fine ssid bc scan"
    and t: "lsd_table (lsd_message ssid pwd user bc) S (lsd_data_cnt src) d"
  shows "lsd_outcome ssid pwd user src d (lsd_evaluate scan src d p)"
    and "S = {..<lsd_pairs (lsd_message ssid pwd user bc)} \<Longrightarrow> fst (lsd_evaluate scan src d p) = LSD_ONESHOT_COMPLETE"
proof -
  let ?m = "lsd_message ssid pwd user bc" and ?tl = "lsd_total_len ssid pwd user"
  have b: "length ssid \<le> 32" "length pwd \<le> 64" "length user \<le> 128" using s by (simp_all add: lsd_sendable_def)
  have un: "unat (of_nat (length ssid) :: u8) = length ssid" "unat (of_nat (length pwd) :: u8) = length pwd"
     "unat (of_nat ?tl :: u8) = ?tl"
    using b total_len_bound [OF s] by (simp_all add: unat_small)
  have n: "lsd_pairs ?m \<le> 127" "2 \<le> lsd_pairs ?m" using pairs_bound [OF s, of bc] pairs_pos [OF s, of bc] by simp_all
  have l: "length ?m = ?tl + 2" by (rule length_message [OF s])
  have full: "?tl + 2 \<le> unat (lsd_data_cnt src) \<longleftrightarrow> S = {..<lsd_pairs ?m}" using table_full [OF t n(1)] l by simp
  have us: "ld_used d ! 0 = 0 \<longleftrightarrow> 0 \<notin> S" "ld_used d ! 1 = 0 \<longleftrightarrow> 0 \<notin> S" "ld_used d ! 2 = 0 \<longleftrightarrow> 1 \<notin> S"
    using table_used [OF t, of 0] table_used [OF t, of 1] table_used [OF t, of 2] by simp_all
  have hd: "ld_data d ! 0 = of_nat ?tl" "ld_data d ! 1 = of_nat (length pwd)" "ld_data d ! 2 = of_nat (length ssid)"
    if "0 \<in> S" "1 \<in> S"
    using table_data [OF t, of 0] table_data [OF t, of 1] table_data [OF t, of 2] that l message_head [of ssid pwd user bc]
    by (simp_all add: lsd_total_len_def)
  have ev: "0 \<in> S \<and> 1 \<in> S \<Longrightarrow> lsd_evaluate scan src d p =
     (if S = {..<lsd_pairs ?m}
      then let (r, clr, p) = lsd_all scan (ld_data d) (of_nat ?tl) (of_nat (length pwd)) (of_nat (length ssid)) p
           in if clr then (r, lsd_clear src, zero_data, p) else (r, src, d, p)
      else lsd_early scan (of_nat ?tl) (of_nat (length pwd)) (of_nat (length ssid)) src d p)"
    using us hd full by (simp add: lsd_evaluate_def Let_def un len_check_message [OF s])
  have all: "\<exists>p'. lsd_all scan (ld_data d) (of_nat ?tl) (of_nat (length pwd)) (of_nat (length ssid)) p = (LSD_ONESHOT_COMPLETE, False, p') \<and>
      lsd_got ssid pwd user p'" if "S = {..<lsd_pairs ?m}"
  proof (cases "ssid = []")
    case True
    then have "pwd = []" using s by (simp add: lsd_sendable_def)
    then show ?thesis using all_user_only [of user p bc _ d scan] s f t that True by simp
  next
    case False
    then show ?thesis using all_network [OF s False f sc] t that by simp
  qed
  show "lsd_outcome ssid pwd user src d (lsd_evaluate scan src d p)"
  proof (cases "0 \<in> S \<and> 1 \<in> S")
    case True
    then show ?thesis
      using ev all early_outcome [OF s f sc t, of src] by (cases "S = {..<lsd_pairs ?m}") (auto simp: lsd_outcome_def)
  next
    case False
    then show ?thesis using us f by (auto simp: lsd_evaluate_def outcome_continue)
  qed
  show "fst (lsd_evaluate scan src d p) = LSD_ONESHOT_COMPLETE" if "S = {..<lsd_pairs ?m}"
    using all [OF that] ev that n by auto
qed

end
