(* ===== verification/Lsd_Recv.thy ===== *)
theory Lsd_Recv
  imports Lsd_Eval
begin

text \<open>
  Frames of a sender, one at a time and in groups of four, and what a sequence of them does to the receiver.
\<close>

unbundle bit_operations_syntax

section \<open>Sequences of frames\<close>

type_synonym lsd_frame = "ieee80211_hdr \<times> u16"

text \<open>The frames are handed to the receiver until it reports an error or that it is complete.\<close>

fun lsd_feed :: "lsd_frame list \<Rightarrow> lsd \<Rightarrow> (int \<times> lsd) option" where
  "lsd_feed [] s = Some (LSD_ONESHOT_CONTINUE, s)"
| "lsd_feed (f # fs) s =
     (case tls_lsd_recv (fst f) (snd f) s of
        None \<Rightarrow> None
      | Some (r, s) \<Rightarrow> if r = LSD_ONESHOT_COMPLETE \<or> r = LSD_ONESHOT_ERR \<or> r < 0 then Some (r, s) else lsd_feed fs s)"

lemma feed_append:
  assumes "lsd_feed xs s = Some (LSD_ONESHOT_CONTINUE, t)"
  shows "lsd_feed (xs @ ys) s = lsd_feed ys t"
  using assms by (induction xs arbitrary: s) (auto split: option.splits if_splits prod.splits)

lemma feed_stop:
  assumes "lsd_feed xs s = Some (LSD_ONESHOT_COMPLETE, t)"
  shows "lsd_feed (xs @ ys) s = Some (LSD_ONESHOT_COMPLETE, t)"
  using assms by (induction xs arbitrary: s) (auto split: option.splits if_splits prod.splits)

text \<open>The kind of a frame, and a frame of kind \<open>t\<close> from \<open>mac\<close> with number \<open>num\<close> and length \<open>n\<close>.\<close>

definition lsd_kind :: "ieee80211_hdr \<Rightarrow> nat" where
  "lsd_kind h = (if duration_id h = 0 then 2 else if ieee80211_has_tods (frame_control h) then 1 else 0)"

definition lsd_frm_len :: "lsd_frame \<Rightarrow> u16" where
  "lsd_frm_len f = (if ieee80211_is_data_qos (frame_control (fst f)) then snd f - 2 else snd f)"

definition lsd_multicast :: "ieee80211_hdr \<Rightarrow> bool" where
  "lsd_multicast h \<longleftrightarrow> take 3 (ieee80211_get_DA h) = [0x01, 0x00, 0x5E]"

definition lsd_from :: "nat \<Rightarrow> u8 list \<Rightarrow> u8 \<Rightarrow> u16 \<Rightarrow> lsd_frame \<Rightarrow> bool" where
  "lsd_from t mac num n f \<longleftrightarrow>
     lsd_kind (fst f) = t \<and> lsd_multicast (fst f) \<and> ieee80211_get_SA (fst f) = mac \<and> ieee80211_get_DA (fst f) ! 5 = num \<and>
     \<not> ieee80211_has_retry (frame_control (fst f)) \<and> lsd_frm_len f = n"

text \<open>Frames of the same kind that carry nothing: from another address, no multicast, shorter than the base length (such
  as further announcements) or too long.\<close>

definition lsd_noise :: "nat \<Rightarrow> u8 list \<Rightarrow> u16 \<Rightarrow> lsd_frame \<Rightarrow> bool" where
  "lsd_noise t mac datum f \<longleftrightarrow>
     lsd_kind (fst f) = t \<and>
     (ieee80211_get_SA (fst f) \<noteq> mac \<or> \<not> lsd_multicast (fst f) \<and> duration_id (fst f) \<noteq> 0 \<or>
      lsd_frm_len f < datum \<or> 1024 \<le> lsd_frm_len f)"

lemma kind_less: "lsd_kind h < 3"
  by (simp add: lsd_kind_def)

section \<open>A receiver that has locked\<close>

definition lsd_locked :: "nat \<Rightarrow> u8 list \<Rightarrow> u16 \<Rightarrow> lsd \<Rightarrow> bool" where
  "lsd_locked t mac datum s \<longleftrightarrow>
     t < 3 \<and> length (lsd_srcs s) = 3 \<and> lsd_state (lsd_srcs s ! t) = 1 \<and> lsd_src_mac (lsd_srcs s ! t) = mac \<and>
     lsd_data_datum (lsd_srcs s ! t) = datum \<and> length (lsd_byte (lsd_srcs s ! t)) = 4 \<and> lsd_byte_cnt (lsd_srcs s ! t) < 4"

definition lsd_hears :: "u8 list \<Rightarrow> u8 list \<Rightarrow> u8 list \<Rightarrow> u8 \<Rightarrow> nat \<Rightarrow> u8 list \<Rightarrow> u16 \<Rightarrow> nat set \<Rightarrow> lsd \<Rightarrow> bool" where
  "lsd_hears ssid pwd user bc t mac datum S s \<longleftrightarrow>
     lsd_locked t mac datum s \<and> lsd_scan_fine ssid bc (lsd_scan_bss s) \<and>
     (\<exists>d p. lsd_data s = Some d \<and> lsd_param s = Some p \<and> lsd_fresh p \<and>
        lsd_table (lsd_message ssid pwd user bc) S (lsd_data_cnt (lsd_srcs s ! t)) d)"

definition lsd_holds :: "u8 list \<Rightarrow> u8 list \<Rightarrow> u8 list \<Rightarrow> lsd \<Rightarrow> bool" where
  "lsd_holds ssid pwd user s \<longleftrightarrow> (\<exists>p. lsd_param s = Some p \<and> lsd_got ssid pwd user p)"

text \<open>The function with the kind and the length of the frame named.\<close>

lemma recv_unfold:
  assumes "lsd_data s = Some d" "lsd_param s = Some p" "t = lsd_kind (fst f)"
  shows "tls_lsd_recv (fst f) (snd f) s =
    (if \<not> lsd_multicast (fst f) \<and> duration_id (fst f) \<noteq> 0 then Some (LSD_ONESHOT_CONTINUE, s)
     else if lsd_state (lsd_srcs s ! t) = 0
     then let (r, lock, src) = lsd_sync (fst f) (lsd_frm_len f) (ieee80211_get_SA (fst f)) (lsd_lock_chan_cnt s) (lsd_srcs s ! t)
          in Some (r, s\<lparr>lsd_srcs := (lsd_srcs s)[t := src], lsd_lock_chan_cnt := lock\<rparr>)
     else if lsd_state (lsd_srcs s ! t) = 1
     then case lsd_receive (lsd_scan_bss s) (fst f) (lsd_frm_len f) (ieee80211_get_SA (fst f)) (ieee80211_get_DA (fst f) ! 5)
                 (lsd_srcs s ! t) d p of
            None \<Rightarrow> None
          | Some (r, src, d, p) \<Rightarrow> Some (r, s\<lparr>lsd_srcs := (lsd_srcs s)[t := src], lsd_data := Some d, lsd_param := Some p\<rparr>)
     else Some (LSD_ONESHOT_CONTINUE, s))"
  unfolding tls_lsd_recv_def lsd_kind_def [symmetric] lsd_frm_len_def [symmetric] lsd_multicast_def [symmetric] Let_def assms
  by simp

lemma lsd_same:
  "lsd_data s = Some d \<Longrightarrow> lsd_param s = Some p \<Longrightarrow> s\<lparr>lsd_srcs := (lsd_srcs s)[t := lsd_srcs s ! t], lsd_data := Some d, lsd_param := Some p\<rparr> = s"
  by (cases s) simp

text \<open>What frames that carry nothing need of the state; every frame of the kind keeps it.\<close>

definition lsd_tuned :: "nat \<Rightarrow> u8 list \<Rightarrow> u16 \<Rightarrow> lsd \<Rightarrow> bool" where
  "lsd_tuned t mac datum s \<longleftrightarrow>
     t < length (lsd_srcs s) \<and> lsd_state (lsd_srcs s ! t) = 1 \<and> lsd_src_mac (lsd_srcs s ! t) = mac \<and>
     lsd_data_datum (lsd_srcs s ! t) = datum \<and> lsd_data s \<noteq> None \<and> lsd_param s \<noteq> None"

lemma recv_noise:
  assumes "lsd_tuned t mac datum s" "lsd_noise t mac datum f"
  shows "tls_lsd_recv (fst f) (snd f) s = Some (LSD_ONESHOT_CONTINUE, s)"
proof -
  from assms(1) obtain d p where d: "lsd_data s = Some d" "lsd_param s = Some p" by (auto simp: lsd_tuned_def)
  show ?thesis using assms recv_unfold [OF d refl, of f] lsd_same [OF d]
    by (auto simp: lsd_noise_def lsd_tuned_def lsd_receive_def)
qed

definition lsd_kept :: "lsd_src \<Rightarrow> lsd_src \<Rightarrow> bool" where
  "lsd_kept s s' \<longleftrightarrow> lsd_state s' = lsd_state s \<and> lsd_src_mac s' = lsd_src_mac s \<and> lsd_data_datum s' = lsd_data_datum s"

lemma evaluate_kept: "lsd_kept s (fst (snd (lsd_evaluate scan s d p)))"
proof -
  have early: "lsd_kept s (fst (snd (lsd_early scan tl pl sl s d p)))" for tl pl sl
    unfolding lsd_early_def Let_def by (simp add: lsd_kept_def split: prod.split)
  show ?thesis unfolding lsd_evaluate_def lsd_clear_def Let_def using early
    by (simp add: lsd_kept_def split: option.split prod.split)
qed

lemma group_kept: "lsd_group s d = Some (e, s', d') \<Longrightarrow> lsd_kept s s'"
  by (auto simp: lsd_group_def lsd_clear_def lsd_kept_def Let_def split: if_splits)

lemma receive_kept:
  assumes "lsd_receive scan h n mac num s d p = Some (r, s', d', p')"
  shows "lsd_kept s s'"
proof -
  have ev: "lsd_evaluate scan a d p = (r, s', d', p') \<Longrightarrow> lsd_kept a s'" for a d
    using evaluate_kept [of a scan d p] by simp
  have a: "lsd_kept s (lsd_byte_step x (lsd_new_num num (s\<lparr>lsd_last_seq := q\<rparr>)))" for x q
    by (simp add: lsd_byte_step_def lsd_new_num_def Let_def lsd_kept_def)
  have tr: "lsd_kept s a \<Longrightarrow> lsd_kept a b \<Longrightarrow> lsd_kept s b" for a b by (simp add: lsd_kept_def)
  show ?thesis using assms unfolding lsd_receive_def Let_def
    by (auto split: if_splits option.splits simp: lsd_clear_def dest!: ev group_kept intro: tr [OF a] tr [OF tr [OF a]])
      (simp_all add: lsd_kept_def)
qed

lemma tuned_recv:
  assumes l: "lsd_tuned t mac datum s" and k: "lsd_kind (fst f) = t" and r: "tls_lsd_recv (fst f) (snd f) s = Some (r, s')"
  shows "lsd_tuned t mac datum s'"
proof -
  from l obtain d p where d: "lsd_data s = Some d" "lsd_param s = Some p" by (auto simp: lsd_tuned_def)
  show ?thesis using l r recv_unfold [OF d k [symmetric]]
    by (auto simp: lsd_tuned_def lsd_kept_def split: if_splits option.splits dest!: receive_kept)
qed

lemma feed_noise:
  assumes "lsd_tuned t mac datum s" "\<forall>f\<in>set fs. lsd_kind (fst f) = t"
  shows "lsd_feed fs s = lsd_feed (filter (\<lambda>f. \<not> lsd_noise t mac datum f) fs) s"
  using assms
proof (induction fs arbitrary: s)
  case (Cons f fs)
  then show ?case using recv_noise [OF Cons.prems(1), of f]
    by (auto split: option.split dest: tuned_recv)
qed simp

lemma recv_locked:
  assumes l: "lsd_locked t mac datum s" and f: "lsd_from t mac num n f" and d: "lsd_data s = Some d" "lsd_param s = Some p"
  shows "tls_lsd_recv (fst f) (snd f) s =
    (case lsd_receive (lsd_scan_bss s) (fst f) n mac num (lsd_srcs s ! t) d p of
       None \<Rightarrow> None
     | Some (r, src, d, p) \<Rightarrow> Some (r, s\<lparr>lsd_srcs := (lsd_srcs s)[t := src], lsd_data := Some d, lsd_param := Some p\<rparr>))"
proof -
  have "t = lsd_kind (fst f)" using f by (simp add: lsd_from_def)
  from recv_unfold [OF d this] show ?thesis using l f by (simp add: lsd_from_def lsd_locked_def)
qed

section \<open>One frame\<close>

text \<open>The variables of the source after a frame with the value \<open>x\<close>, before a group is decoded.\<close>

definition lsd_after :: "u16 \<Rightarrow> u8 \<Rightarrow> u16 \<Rightarrow> lsd_src \<Rightarrow> lsd_src" where
  "lsd_after sq num x s = lsd_byte_step x (lsd_new_num num (s\<lparr>lsd_last_seq := sq\<rparr>))"

lemmas lsd_after_defs = lsd_after_def lsd_byte_step_def lsd_new_num_def Let_def

lemma after_frame [simp]:
  "lsd_state (lsd_after sq num x s) = lsd_state s" "lsd_src_mac (lsd_after sq num x s) = lsd_src_mac s"
  "lsd_data_datum (lsd_after sq num x s) = lsd_data_datum s" "lsd_data_cnt (lsd_after sq num x s) = lsd_data_cnt s"
  "length (lsd_byte s) = 4 \<Longrightarrow> length (lsd_byte (lsd_after sq num x s)) = 4"
  "lsd_last_num (lsd_after sq num x s) = num"
  by (simp_all add: lsd_after_defs)

lemma after_cnt: "lsd_byte_cnt s < 4 \<Longrightarrow> unat (lsd_byte_cnt (lsd_after sq num x s)) \<le> unat (if lsd_last_num s = num then lsd_byte_cnt s else 0) + 1"
  by (auto simp: lsd_after_defs unat_word_ariths word_less_nat_alt)

lemma datum_value:
  assumes "unat datum + v < 1024"
  shows "\<not> 1024 \<le> datum + of_nat v" "\<not> datum + of_nat v < (datum :: u16)"
proof -
  have "unat (datum + of_nat v) = unat datum + v" using assms by (simp add: unat_word_ariths unat_of_nat)
  then show "\<not> 1024 \<le> datum + of_nat v" "\<not> datum + of_nat v < (datum :: u16)"
    using assms by (simp_all add: word_le_nat_alt word_less_nat_alt)
qed

lemma receive_frame:
  assumes "lsd_src_mac s = mac" "lsd_data_datum s = datum" "unat datum + v < 1024" "\<not> ieee80211_has_retry (frame_control h)"
  shows "lsd_receive scan h (datum + of_nat v) mac num s d p =
    (let s = lsd_after (seq_ctrl h) num (of_nat v) s
     in if 4 \<le> lsd_byte_cnt s
        then case lsd_group s d of
               None \<Rightarrow> None
             | Some (err, s, d) \<Rightarrow> Some (if err then (LSD_ONESHOT_ERR, s, d, p) else lsd_evaluate scan s d p)
        else Some (lsd_evaluate scan s d p))"
proof -
  have "lsd_data_datum (lsd_new_num num (s\<lparr>lsd_last_seq := seq_ctrl h\<rparr>)) = datum" using assms(2) by (simp add: lsd_new_num_def)
  then show ?thesis using assms datum_value [OF assms(3)] by (simp add: lsd_receive_def Let_def lsd_after_def)
qed

text \<open>A frame that does not complete a group.\<close>

lemma hears_frame:
  assumes h: "lsd_hears ssid pwd user bc t mac datum S s" and ok: "lsd_sendable ssid pwd user"
    and f: "lsd_from t mac num (datum + of_nat v) f" and v: "unat datum + v < 1024"
    and c: "lsd_byte_cnt (lsd_after (seq_ctrl (fst f)) num (of_nat v) (lsd_srcs s ! t)) < 4"
  shows "\<exists>r s'. tls_lsd_recv (fst f) (snd f) s = Some (r, s') \<and>
    (r = LSD_ONESHOT_COMPLETE \<and> lsd_holds ssid pwd user s' \<or>
     r = LSD_ONESHOT_CONTINUE \<and> lsd_hears ssid pwd user bc t mac datum S s' \<and>
       lsd_srcs s' ! t = lsd_after (seq_ctrl (fst f)) num (of_nat v) (lsd_srcs s ! t))"
proof -
  let ?a = "lsd_after (seq_ctrl (fst f)) num (of_nat v) (lsd_srcs s ! t)"
  from h obtain d p where lk: "lsd_locked t mac datum s" and sc: "lsd_scan_fine ssid bc (lsd_scan_bss s)"
    and d: "lsd_data s = Some d" "lsd_param s = Some p" and fr: "lsd_fresh p"
    and tb: "lsd_table (lsd_message ssid pwd user bc) S (lsd_data_cnt (lsd_srcs s ! t)) d"
    by (auto simp: lsd_hears_def)
  have "lsd_outcome ssid pwd user ?a d (lsd_evaluate (lsd_scan_bss s) ?a d p)"
    by (rule evaluate_outcome [OF ok fr sc]) (use tb in simp)
  moreover have "tls_lsd_recv (fst f) (snd f) s =
     (case lsd_evaluate (lsd_scan_bss s) ?a d p of (r, src, d, p) \<Rightarrow>
        Some (r, s\<lparr>lsd_srcs := (lsd_srcs s)[t := src], lsd_data := Some d, lsd_param := Some p\<rparr>))"
    using recv_locked [OF lk f d] receive_frame [of "lsd_srcs s ! t" mac datum v "fst f" "lsd_scan_bss s" num d p] lk f v less_le_not_le [THEN iffD1, OF c]
    by (simp add: lsd_locked_def lsd_from_def Let_def)
  moreover have "t < length (lsd_srcs s)" using lk by (simp add: lsd_locked_def)
  ultimately show ?thesis using lk sc tb c
    by (auto simp: lsd_outcome_def lsd_holds_def lsd_hears_def lsd_locked_def)
qed

text \<open>The frame that completes the group of pair \<open>i\<close>.\<close>

definition lsd_crc :: "u8 list \<Rightarrow> nat \<Rightarrow> u8" where
  "lsd_crc m i = lsd_crc8_calc [lsd_padded m ! (2 * i), lsd_padded m ! (2 * i + 1), of_nat i]"

definition lsd_values :: "u8 list \<Rightarrow> nat \<Rightarrow> nat list" where
  "lsd_values m i = [unat (lsd_padded m ! (2 * i)), 0x100 + unat (lsd_crc m i), unat (lsd_padded m ! (2 * i + 1)), 0x200 + i]"

lemma ucast_of_nat: "ucast (of_nat n :: u16) = (of_nat n :: u8)"
  by (rule bit_word_eqI) (simp add: bit_simps)

lemma ucast_value: "ucast (of_nat (unat b) :: u16) = (b :: u8)" "ucast (of_nat (0x100 + unat b) :: u16) = (b :: u8)"
  "ucast (of_nat (0x200 + i) :: u16) = (of_nat i :: u8)"
  unfolding ucast_of_nat by simp_all

lemma group_pair:
  assumes t: "lsd_table m S (lsd_data_cnt s) d" and i: "i < lsd_pairs m" and n: "lsd_pairs m \<le> 127"
    and b: "lsd_byte s = map of_nat (lsd_values m i)"
  shows "\<exists>s' d'. lsd_group s d = Some (False, s', d') \<and> lsd_table m (insert i S) (lsd_data_cnt s') d' \<and>
    s' = s\<lparr>lsd_data_cnt := lsd_data_cnt s', lsd_byte_cnt := 0\<rparr>"
proof -
  let ?x = "lsd_padded m ! (2 * i)" and ?y = "lsd_padded m ! (2 * i + 1)"
  have bts: "lsd_byte s ! 0 = of_nat (unat ?x)" "lsd_byte s ! 1 = of_nat (0x100 + unat (lsd_crc m i))"
    "lsd_byte s ! 2 = of_nat (unat ?y)" "lsd_byte s ! 3 = of_nat (0x200 + i)"
    unfolding b lsd_values_def by (simp_all add: numeral_2_eq_2 numeral_3_eq_3)
  have ui: "unat (of_nat i :: u8) = i" using i n by (simp add: unat_small)
  have mx: "\<not> 256 \<le> unat c" for c :: u8 using unsigned_less [of c] unfolding not_le by simp
  have us: "ld_used d ! (2 * i) = 0 \<longleftrightarrow> i \<notin> S" using table_used [OF t, of "2 * i"] i n by simp
  show ?thesis
  proof (cases "i \<in> S")
    case True
    then show ?thesis using t i n us unfolding lsd_group_def Let_def bts ucast_value ui
      by (auto simp: insert_absorb)
  next
    case False
    from table_store [OF t i n False] show ?thesis
      using i n us False unfolding lsd_group_def Let_def bts ucast_value ui lsd_crc_def by (simp add: mx)
  qed
qed

lemma hears_group:
  assumes h: "lsd_hears ssid pwd user bc t mac datum S s" and ok: "lsd_sendable ssid pwd user"
    and f: "lsd_from t mac num (datum + of_nat v) f" and v: "unat datum + v < 1024"
    and i: "i < lsd_pairs (lsd_message ssid pwd user bc)"
    and c: "lsd_byte_cnt (lsd_after (seq_ctrl (fst f)) num (of_nat v) (lsd_srcs s ! t)) = 4"
    and b: "lsd_byte (lsd_after (seq_ctrl (fst f)) num (of_nat v) (lsd_srcs s ! t)) =
      map of_nat (lsd_values (lsd_message ssid pwd user bc) i)"
  shows "\<exists>r s'. tls_lsd_recv (fst f) (snd f) s = Some (r, s') \<and>
    (r = LSD_ONESHOT_COMPLETE \<and> lsd_holds ssid pwd user s' \<or>
     r = LSD_ONESHOT_CONTINUE \<and> lsd_hears ssid pwd user bc t mac datum (insert i S) s' \<and>
       insert i S \<noteq> {..<lsd_pairs (lsd_message ssid pwd user bc)} \<and>
       lsd_byte_cnt (lsd_srcs s' ! t) = 0 \<and> lsd_last_num (lsd_srcs s' ! t) = num)"
proof -
  let ?m = "lsd_message ssid pwd user bc" and ?a = "lsd_after (seq_ctrl (fst f)) num (of_nat v) (lsd_srcs s ! t)"
  from h obtain d p where lk: "lsd_locked t mac datum s" and sc: "lsd_scan_fine ssid bc (lsd_scan_bss s)"
    and d: "lsd_data s = Some d" "lsd_param s = Some p" and fr: "lsd_fresh p"
    and tb: "lsd_table ?m S (lsd_data_cnt (lsd_srcs s ! t)) d"
    by (auto simp: lsd_hears_def)
  have n: "lsd_pairs ?m \<le> 127" using pairs_bound [OF ok, of bc] by simp
  have "lsd_table ?m S (lsd_data_cnt ?a) d" using tb by simp
  from group_pair [OF this i n b] obtain a d' where g: "lsd_group ?a d = Some (False, a, d')"
    and tb': "lsd_table ?m (insert i S) (lsd_data_cnt a) d'" and a: "a = ?a\<lparr>lsd_data_cnt := lsd_data_cnt a, lsd_byte_cnt := 0\<rparr>"
    by blast
  note out = evaluate_outcome [OF ok fr sc tb']
  have "tls_lsd_recv (fst f) (snd f) s =
     (case lsd_evaluate (lsd_scan_bss s) a d' p of (r, src, d, p) \<Rightarrow>
        Some (r, s\<lparr>lsd_srcs := (lsd_srcs s)[t := src], lsd_data := Some d, lsd_param := Some p\<rparr>))"
    using recv_locked [OF lk f d] receive_frame [of "lsd_srcs s ! t" mac datum v "fst f" "lsd_scan_bss s" num d p] lk f v c g
    by (simp add: lsd_locked_def lsd_from_def Let_def)
  moreover have "t < length (lsd_srcs s)" using lk by (simp add: lsd_locked_def)
  moreover have "lsd_state a = 1" "lsd_src_mac a = mac" "lsd_data_datum a = datum" "length (lsd_byte a) = 4"
    "lsd_byte_cnt a = 0" "lsd_last_num a = num"
    using lk by (subst a, simp add: lsd_locked_def)+
  ultimately show ?thesis using out lk sc tb'
    by (auto simp: lsd_outcome_def lsd_holds_def lsd_hears_def lsd_locked_def)
qed

end
