(* ===== verification/Lsd_Group.thy ===== *)
theory Lsd_Group
  imports Lsd_Recv "HOL-Library.Sublist"
begin

text \<open>
  Groups of four frames, complete or with frames lost, and the frames of other senders between them.
\<close>

unbundle bit_operations_syntax

section \<open>Four frames\<close>

definition lsd_fits :: "nat \<Rightarrow> u16 \<Rightarrow> bool" where
  "lsd_fits k x \<longleftrightarrow> (k = 0 \<or> k = 2 \<longrightarrow> x < 256) \<and> (k = 1 \<longrightarrow> x AND 0x300 = 0x100) \<and> (k = 3 \<longrightarrow> x AND 0x300 = 0x200)"

text \<open>The first \<open>k\<close> of the values \<open>xs\<close> of the group with number \<open>num\<close> have been collected.\<close>

definition lsd_collected :: "u8 \<Rightarrow> u16 list \<Rightarrow> nat \<Rightarrow> lsd_src \<Rightarrow> bool" where
  "lsd_collected num xs k s \<longleftrightarrow>
     (0 < k \<longrightarrow> lsd_last_num s = num) \<and> (lsd_last_num s = num \<longrightarrow> lsd_byte_cnt s = of_nat k) \<and>
     length (lsd_byte s) = 4 \<and> take k (lsd_byte s) = take k xs"

lemma byte_step_fits:
  assumes "lsd_byte_cnt s = of_nat k" "length (lsd_byte s) = 4" "k < 4" "lsd_fits k x"
  shows "lsd_byte_cnt (lsd_byte_step x s) = of_nat k + 1 \<and> lsd_byte (lsd_byte_step x s) = (lsd_byte s)[k := x]"
proof -
  consider "k = 0" | "k = 1" | "k = 2" | "k = 3" using assms(3) by linarith
  then show ?thesis using assms by cases (simp_all add: lsd_byte_step_def lsd_fits_def Let_def not_le)
qed

lemma collected_next:
  assumes c: "lsd_collected num xs k s" and k: "k < 4" "length xs = 4" and f: "lsd_fits k (xs ! k)"
  shows "lsd_byte_cnt (lsd_after sq num (xs ! k) s) = of_nat k + 1"
    and "lsd_collected num xs (k + 1) (lsd_after sq num (xs ! k) s)"
proof -
  let ?s = "lsd_new_num num (s\<lparr>lsd_last_seq := sq\<rparr>)"
  have s0: "lsd_byte_cnt ?s = of_nat k" "length (lsd_byte ?s) = 4" "take k (lsd_byte ?s) = take k xs"
    using c by (auto simp: lsd_collected_def lsd_new_num_def)
  note st = byte_step_fits [OF s0(1,2) k(1) f]
  then show cnt: "lsd_byte_cnt (lsd_after sq num (xs ! k) s) = of_nat k + 1" by (simp add: lsd_after_def)
  have "take (k + 1) (lsd_byte (lsd_after sq num (xs ! k) s)) = take (k + 1) xs"
    using st s0 k by (simp add: lsd_after_def take_Suc_conv_app_nth)
  then show "lsd_collected num xs (k + 1) (lsd_after sq num (xs ! k) s)"
    using c cnt by (simp add: lsd_collected_def)
qed

lemma collected_all:
  assumes "lsd_collected num xs 4 s" "length xs = 4"
  shows "lsd_byte s = xs"
proof -
  have "length (lsd_byte s) = 4" "take 4 (lsd_byte s) = take 4 xs" using assms(1) by (simp_all add: lsd_collected_def)
  then show ?thesis using assms(2) by simp
qed

lemma and_mark: "(x :: u16) AND 0x300 = push_bit 8 (take_bit 2 (drop_bit 8 x))"
proof -
  have "x AND push_bit 8 (mask 2) = push_bit 8 (take_bit 2 (drop_bit 8 x))"
    by (auto intro!: bit_word_eqI simp: bit_simps)
  moreover have "push_bit 8 (mask 2) = (0x300 :: u16)" by (simp add: mask_eq_exp_minus_1)
  ultimately show ?thesis by (simp only:)
qed

lemma mark_bits:
  assumes "c < 256" "k < 4"
  shows "(of_nat (k * 256 + c) :: u16) AND 0x300 = of_nat (k * 256)"
proof -
  have u: "unat (of_nat (k * 256 + c) :: u16) = k * 256 + c"
    using assms by (subst unat_of_nat) simp
  have "unat (drop_bit 8 (of_nat (k * 256 + c) :: u16)) = unat (of_nat k :: u16)"
    using assms unfolding unat_drop_bit_eq u by (simp add: drop_bit_eq_div unat_of_nat)
  then have "drop_bit 8 (of_nat (k * 256 + c) :: u16) = of_nat k" by (simp add: word_unat_eq_iff)
  moreover have "k = 0 \<or> k = 1 \<or> k = 2 \<or> k = 3" using assms by linarith
  ultimately show ?thesis unfolding and_mark by auto
qed

lemma values_fit:
  assumes "k < 4" "i < 256"
  shows "lsd_fits k (of_nat (lsd_values m i ! k))" "lsd_values m i ! k < 768" "length (lsd_values m i) = 4"
proof -
  have b: "unat (c :: u8) < 256" for c using unsigned_less [of c] by simp
  then have b': "unat (c :: u8) < 768" "unat (c :: u8) < 512" for c by (simp_all add: less_trans [of _ 256])
  have u: "(ucast (c :: u8) :: u16) < 256" for c using b [of c] by (simp add: word_less_nat_alt unsigned_ucast_eq take_bit_eq_mod)
  have "k = 0 \<or> k = 1 \<or> k = 2 \<or> k = 3" using assms by linarith
  then show "lsd_values m i ! k < 768" using b' assms(2) by (auto simp: lsd_values_def)
  show "length (lsd_values m i) = 4" by (simp add: lsd_values_def)
  consider "k = 0" | "k = 1" | "k = 2" | "k = 3" using assms by linarith
  then show "lsd_fits k (of_nat (lsd_values m i ! k))"
    using u b mark_bits [OF b, of 1] mark_bits [OF assms(2), of 2] by cases (simp_all add: lsd_fits_def lsd_values_def)
qed

section \<open>Groups\<close>

definition lsd_burst :: "nat \<Rightarrow> u8 list \<Rightarrow> u16 \<Rightarrow> u8 \<Rightarrow> nat list \<Rightarrow> lsd_frame list \<Rightarrow> bool" where
  "lsd_burst t mac datum num vs fs \<longleftrightarrow> list_all2 (\<lambda>v. lsd_from t mac num (datum + of_nat v)) vs fs"

text \<open>What a sequence of frames leads to: completion, or a table with the pairs \<open>S\<close>.\<close>

definition lsd_leads ::
  "u8 list \<Rightarrow> u8 list \<Rightarrow> u8 list \<Rightarrow> u8 \<Rightarrow> nat \<Rightarrow> u8 list \<Rightarrow> u16 \<Rightarrow> nat set \<Rightarrow> u8 \<Rightarrow> (int \<times> lsd) option \<Rightarrow> bool" where
  "lsd_leads ssid pwd user bc t mac datum S num res \<longleftrightarrow>
     (\<exists>s. res = Some (LSD_ONESHOT_COMPLETE, s) \<and> lsd_holds ssid pwd user s) \<or>
     (\<exists>s. res = Some (LSD_ONESHOT_CONTINUE, s) \<and> lsd_hears ssid pwd user bc t mac datum S s \<and>
        (lsd_byte_cnt (lsd_srcs s ! t) = 0 \<or> lsd_last_num (lsd_srcs s ! t) = num))"

lemma feed_group:
  assumes ok: "lsd_sendable ssid pwd user" and i: "i < lsd_pairs (lsd_message ssid pwd user bc)" and dm: "unat datum < 256"
    and h: "lsd_hears ssid pwd user bc t mac datum S s" and k: "k < 4"
    and c: "lsd_collected num (map of_nat (lsd_values (lsd_message ssid pwd user bc) i)) k (lsd_srcs s ! t)"
    and fs: "lsd_burst t mac datum num (drop k (lsd_values (lsd_message ssid pwd user bc) i)) fs"
  shows "lsd_leads ssid pwd user bc t mac datum (insert i S) num (lsd_feed fs s) \<and>
    (insert i S = {..<lsd_pairs (lsd_message ssid pwd user bc)} \<longrightarrow> fst (the (lsd_feed fs s)) = LSD_ONESHOT_COMPLETE)"
  using h k c fs
proof (induction fs arbitrary: k s)
  let ?m = "lsd_message ssid pwd user bc"
  let ?v = "lsd_values ?m i" and ?x = "map (of_nat :: nat \<Rightarrow> u16) (lsd_values ?m i)"
  have i256: "i < 256" using i pairs_bound [OF ok, of bc] by simp
  note fit = values_fit [OF _ i256, where m = ?m]
  have l4: "length ?v = 4" using fit(3) [of 0] by simp
  {
    case Nil
    then show ?case using l4 by (simp add: lsd_burst_def)
  next
    case (Cons f fs)
    let ?a = "lsd_after (seq_ctrl (fst f)) num (of_nat (?v ! k)) (lsd_srcs s ! t)"
    have vk: "?v ! k # drop (Suc k) ?v = drop k ?v" using Cons.prems(2) l4 by (simp add: Cons_nth_drop_Suc)
    have f: "lsd_from t mac num (datum + of_nat (?v ! k)) f" and fs: "lsd_burst t mac datum num (drop (k + 1) ?v) fs"
      using Cons.prems(4) unfolding lsd_burst_def vk [symmetric] by simp_all
    have v: "unat datum + ?v ! k < 1024" using fit(2) [OF Cons.prems(2)] dm by simp
    have x: "?x ! k = of_nat (?v ! k)" using Cons.prems(2) l4 by simp
    have "lsd_fits k (?x ! k)" using fit(1) [OF Cons.prems(2)] x by simp
    note nx = collected_next [OF Cons.prems(3,2) _ this, of "seq_ctrl (fst f)", unfolded x]
    show ?case
    proof (cases "k = 3")
      case True
      have b: "lsd_byte_cnt ?a = 4" using nx(1) l4 True by simp
      have b2: "lsd_byte ?a = ?x" using collected_all [of num ?x ?a] nx(2) l4 True by simp
      have "fs = []" using fs l4 True by (simp add: lsd_burst_def)
      moreover from hears_group [OF Cons.prems(1) ok f v i b b2] obtain r s' where
        "tls_lsd_recv (fst f) (snd f) s = Some (r, s')"
        "r = LSD_ONESHOT_COMPLETE \<and> lsd_holds ssid pwd user s' \<or>
          r = LSD_ONESHOT_CONTINUE \<and> lsd_hears ssid pwd user bc t mac datum (insert i S) s' \<and>
          insert i S \<noteq> {..<lsd_pairs ?m} \<and> lsd_byte_cnt (lsd_srcs s' ! t) = 0 \<and> lsd_last_num (lsd_srcs s' ! t) = num"
        by blast
      ultimately show ?thesis unfolding lsd_leads_def by (elim disjE conjE) simp_all
    next
      case False
      then have k: "k + 1 < 4" using Cons.prems(2) by simp
      have "lsd_byte_cnt ?a < 4" using nx l4 k by (auto simp: word_less_nat_alt unat_word_ariths unat_of_nat)
      from hears_frame [OF Cons.prems(1) ok f v this] obtain r s' where r: "tls_lsd_recv (fst f) (snd f) s = Some (r, s')"
        and oc: "r = LSD_ONESHOT_COMPLETE \<and> lsd_holds ssid pwd user s' \<or>
          r = LSD_ONESHOT_CONTINUE \<and> lsd_hears ssid pwd user bc t mac datum S s' \<and> lsd_srcs s' ! t = ?a" by blast
      show ?thesis
      proof (cases "r = LSD_ONESHOT_COMPLETE")
        case True
        then show ?thesis using r oc by (simp add: lsd_leads_def)
      next
        case False
        then have "lsd_hears ssid pwd user bc t mac datum S s'" "lsd_collected num ?x (k + 1) (lsd_srcs s' ! t)" "r = LSD_ONESHOT_CONTINUE"
          using oc nx l4 by auto
        from Cons.IH [OF this(1) k this(2) fs] this(3) show ?thesis using r by simp
      qed
    qed
  }
qed

text \<open>Fewer than four frames leave the table as it is.\<close>

lemma feed_partial:
  assumes ok: "lsd_sendable ssid pwd user" and dm: "unat datum < 256" and h: "lsd_hears ssid pwd user bc t mac datum S s"
    and c: "unat (if lsd_last_num (lsd_srcs s ! t) = num then lsd_byte_cnt (lsd_srcs s ! t) else 0) + length fs < 4"
    and fs: "lsd_burst t mac datum num vs fs" and vs: "\<forall>v\<in>set vs. v < 768"
  shows "fs \<noteq> [] \<Longrightarrow> lsd_leads ssid pwd user bc t mac datum S num (lsd_feed fs s)"
  using h c fs vs
proof (induction fs arbitrary: s vs)
  case (Cons f fs)
  from Cons.prems(4) obtain v ws where vs: "vs = v # ws" and f: "lsd_from t mac num (datum + of_nat v) f"
    and fs: "lsd_burst t mac datum num ws fs" by (auto simp: lsd_burst_def list_all2_Cons2)
  let ?a = "lsd_after (seq_ctrl (fst f)) num (of_nat v) (lsd_srcs s ! t)"
  have v: "unat datum + v < 1024" using Cons.prems(5) vs dm by simp
  have "lsd_byte_cnt (lsd_srcs s ! t) < 4" using Cons.prems(2) by (simp add: lsd_hears_def lsd_locked_def)
  from after_cnt [OF this, of "seq_ctrl (fst f)" num "of_nat v"]
  have le: "unat (lsd_byte_cnt ?a) + length fs < 4" using Cons.prems(3) by simp
  then have "lsd_byte_cnt ?a < 4" by (simp add: word_less_nat_alt)
  from hears_frame [OF Cons.prems(2) ok f v this] obtain r s' where r: "tls_lsd_recv (fst f) (snd f) s = Some (r, s')"
    and oc: "r = LSD_ONESHOT_COMPLETE \<and> lsd_holds ssid pwd user s' \<or>
      r = LSD_ONESHOT_CONTINUE \<and> lsd_hears ssid pwd user bc t mac datum S s' \<and> lsd_srcs s' ! t = ?a" by blast
  show ?case
  proof (cases "r = LSD_ONESHOT_COMPLETE")
    case True
    then show ?thesis using r oc by (simp add: lsd_leads_def)
  next
    case False
    then have hs: "lsd_hears ssid pwd user bc t mac datum S s'" and a: "lsd_srcs s' ! t = ?a" and rc: "r = LSD_ONESHOT_CONTINUE"
      using oc by auto
    show ?thesis
    proof (cases fs)
      case Nil
      then show ?thesis using r rc hs a by (simp add: lsd_leads_def)
    next
      case (Cons g gs)
      then have "lsd_leads ssid pwd user bc t mac datum S num (lsd_feed fs s')"
        using Cons.IH [OF _ hs _ fs] le a vs Cons.prems(5) by simp
      then show ?thesis using r rc by simp
    qed
  qed
qed simp

section \<open>Transmissions\<close>

text \<open>The frames of the group of pair \<open>i\<close>, sent under the number \<open>num\<close>, of which some may have been lost.\<close>

definition lsd_sent :: "u8 list \<Rightarrow> nat \<Rightarrow> u8 list \<Rightarrow> u16 \<Rightarrow> u8 \<Rightarrow> nat \<Rightarrow> lsd_frame list \<Rightarrow> bool" where
  "lsd_sent m t mac datum num i fs \<longleftrightarrow>
     i < lsd_pairs m \<and> fs \<noteq> [] \<and> (\<exists>vs. subseq vs (lsd_values m i) \<and> lsd_burst t mac datum num vs fs)"

text \<open>The pairs of which all four frames arrived.\<close>

definition lsd_whole :: "(u8 \<times> nat \<times> lsd_frame list) list \<Rightarrow> nat set" where
  "lsd_whole gs = {i. \<exists>num fs. (num, i, fs) \<in> set gs \<and> length fs = 4}"

lemma whole_Cons: "lsd_whole ((num, i, fs) # gs) = (if length fs = 4 then insert i (lsd_whole gs) else lsd_whole gs)"
  by (auto simp: lsd_whole_def)

lemma sent_leads:
  assumes ok: "lsd_sendable ssid pwd user" and dm: "unat datum < 256" and h: "lsd_hears ssid pwd user bc t mac datum S s"
    and n: "lsd_byte_cnt (lsd_srcs s ! t) = 0 \<or> lsd_last_num (lsd_srcs s ! t) \<noteq> num"
    and f: "lsd_sent (lsd_message ssid pwd user bc) t mac datum num i fs"
  shows "lsd_leads ssid pwd user bc t mac datum (if length fs = 4 then insert i S else S) num (lsd_feed fs s)"
    and "length fs = 4 \<Longrightarrow> insert i S = {..<lsd_pairs (lsd_message ssid pwd user bc)} \<Longrightarrow> fst (the (lsd_feed fs s)) = LSD_ONESHOT_COMPLETE"
proof -
  let ?m = "lsd_message ssid pwd user bc"
  from f obtain vs where i: "i < lsd_pairs ?m" and ne: "fs \<noteq> []" and sub: "subseq vs (lsd_values ?m i)"
    and b: "lsd_burst t mac datum num vs fs" by (auto simp: lsd_sent_def)
  have i256: "i < 256" using i pairs_bound [OF ok, of bc] by simp
  note fit = values_fit [OF _ i256, where m = ?m]
  have l4: "length (lsd_values ?m i) = 4" using fit(3) [of 0] by simp
  have lv: "length vs = length fs" using b by (simp add: lsd_burst_def list_all2_lengthD)
  have st: "lsd_collected num xs 0 (lsd_srcs s ! t)" for xs
    using n h by (auto simp: lsd_collected_def lsd_hears_def lsd_locked_def)
  have g: "lsd_leads ssid pwd user bc t mac datum (insert i S) num (lsd_feed fs s) \<and>
    (insert i S = {..<lsd_pairs ?m} \<longrightarrow> fst (the (lsd_feed fs s)) = LSD_ONESHOT_COMPLETE)" if "length fs = 4"
  proof -
    have "vs = lsd_values ?m i" using sub lv l4 that by (simp add: subseq_same_length)
    then show ?thesis using feed_group [OF ok i dm h _ st, of fs] b by simp
  qed
  have "lsd_leads ssid pwd user bc t mac datum S num (lsd_feed fs s)" if "length fs \<noteq> 4"
  proof -
    have "set vs \<subseteq> set (lsd_values ?m i)" using sub by (auto simp: subseq_conv_nths dest: in_set_nthsD)
    then have "\<forall>v\<in>set vs. v < 768" using fit(2) l4 by (fastforce simp: in_set_conv_nth)
    moreover have "length fs < 4" using list_emb_length [OF sub] lv l4 that by simp
    ultimately show ?thesis using feed_partial [OF ok dm h _ b _ ne] n by auto
  qed
  with g show "lsd_leads ssid pwd user bc t mac datum (if length fs = 4 then insert i S else S) num (lsd_feed fs s)" by simp
  show "fst (the (lsd_feed fs s)) = LSD_ONESHOT_COMPLETE" if "length fs = 4" "insert i S = {..<lsd_pairs ?m}"
    using g that by simp
qed

lemma sent_sequence:
  assumes ok: "lsd_sendable ssid pwd user" and dm: "unat datum < 256" and h: "lsd_hears ssid pwd user bc t mac datum S s"
    and n: "gs \<noteq> [] \<Longrightarrow> lsd_byte_cnt (lsd_srcs s ! t) = 0 \<or> lsd_last_num (lsd_srcs s ! t) \<noteq> fst (hd gs)"
    and adj: "distinct_adj (map fst gs)"
    and snt: "\<forall>(num, i, fs)\<in>set gs. lsd_sent (lsd_message ssid pwd user bc) t mac datum num i fs"
    and full: "S \<union> lsd_whole gs = {..<lsd_pairs (lsd_message ssid pwd user bc)}" "S \<noteq> {..<lsd_pairs (lsd_message ssid pwd user bc)}"
  shows "\<exists>s'. lsd_feed (concat (map (snd \<circ> snd) gs)) s = Some (LSD_ONESHOT_COMPLETE, s') \<and> lsd_holds ssid pwd user s'"
  using h n adj snt full
proof (induction gs arbitrary: S s)
  case Nil
  then show ?case by (simp add: lsd_whole_def)
next
  case (Cons g gs)
  obtain num i fs where g: "g = (num, i, fs)" by (cases g) auto
  let ?m = "lsd_message ssid pwd user bc" and ?S = "if length fs = 4 then insert i S else S"
  have sn: "lsd_sent ?m t mac datum num i fs" using Cons.prems(4) g by auto
  note ld = sent_leads [OF ok dm Cons.prems(1) _ sn]
  have n: "lsd_byte_cnt (lsd_srcs s ! t) = 0 \<or> lsd_last_num (lsd_srcs s ! t) \<noteq> num" using Cons.prems(2) g by simp
  from ld(1) [OF n] consider (stop) s1 where "lsd_feed fs s = Some (LSD_ONESHOT_COMPLETE, s1)" "lsd_holds ssid pwd user s1"
    | (go) s1 where "lsd_feed fs s = Some (LSD_ONESHOT_CONTINUE, s1)" "lsd_hears ssid pwd user bc t mac datum ?S s1"
        "lsd_byte_cnt (lsd_srcs s1 ! t) = 0 \<or> lsd_last_num (lsd_srcs s1 ! t) = num"
    unfolding lsd_leads_def by blast
  then show ?case
  proof cases
    case stop
    then show ?thesis using feed_stop [OF stop(1)] g by simp
  next
    case go
    have u: "?S \<union> lsd_whole gs = {..<lsd_pairs ?m}" using Cons.prems(5) by (simp add: g whole_Cons split: if_splits)
    have e: "?S \<noteq> {..<lsd_pairs ?m}"
    proof
      assume a: "?S = {..<lsd_pairs ?m}"
      show False
      proof (cases "length fs = 4")
        case True
        then show False using ld(2) [OF n] a go(1) by simp
      next
        case False
        then show False using Cons.prems(6) a by simp
      qed
    qed
    have "gs \<noteq> [] \<Longrightarrow> lsd_byte_cnt (lsd_srcs s1 ! t) = 0 \<or> lsd_last_num (lsd_srcs s1 ! t) \<noteq> fst (hd gs)"
      using go(3) Cons.prems(3) g by (cases gs) auto
    from Cons.IH [OF go(2) this _ _ u e] show ?thesis using Cons.prems(3,4) feed_append [OF go(1)] g
      by (auto dest: distinct_adj_ConsD)
  qed
qed

end
