(* ===== verification/Lsd_Sync.thy ===== *)
theory Lsd_Sync
  imports Lsd_Group
begin

text \<open>
  The announcement: four frames whose lengths go down by one, in any rotation, lock the receiver on the sender and on
  the base length.
\<close>

unbundle bit_operations_syntax

section \<open>Announcing frames\<close>

definition lsd_guide :: "nat \<Rightarrow> nat \<Rightarrow> nat \<Rightarrow> nat" where
  "lsd_guide g r j = g + 3 - (r + j) mod 4"

lemma guide_bounds: "g \<le> lsd_guide g r j \<and> lsd_guide g r j \<le> g + 3"
proof -
  have "(r + j) mod 4 < 4" by simp
  then have "(r + j) mod 4 \<le> 3" by linarith
  then show ?thesis by (simp add: lsd_guide_def)
qed

lemma guide_step: "lsd_guide g r (Suc j) + 1 = lsd_guide g r j \<or> lsd_guide g r (Suc j) = lsd_guide g r j + 3"
proof -
  have "(r + j) mod 4 < 4" by simp
  then have "(r + j) mod 4 \<le> 3" by linarith
  then show ?thesis unfolding lsd_guide_def add_Suc_right mod_Suc by (simp split: if_splits) linarith
qed

lemma guide_min: "min (lsd_guide g r 3) (min (lsd_guide g r 2) (min (lsd_guide g r 1) (lsd_guide g r 0))) = g"
proof -
  have m: "(r + 1) mod 4 = (r mod 4 + 1) mod 4" "(r + 2) mod 4 = (r mod 4 + 2) mod 4" "(r + 3) mod 4 = (r mod 4 + 3) mod 4"
    by (simp_all only: mod_add_left_eq)
  have "r mod 4 < 4" by simp
  then consider "r mod 4 = 0" | "r mod 4 = 1" | "r mod 4 = 2" | "r mod 4 = 3" by linarith
  then show ?thesis unfolding lsd_guide_def m by cases simp_all
qed

definition lsd_announced :: "u8 list \<Rightarrow> nat \<Rightarrow> nat \<Rightarrow> nat \<Rightarrow> lsd_src \<Rightarrow> bool" where
  "lsd_announced mac g r k s \<longleftrightarrow>
     lsd_src_mac s = mac \<and> lsd_head_cnt s = of_nat k \<and> lsd_sync_cnt s = 0 \<and> lsd_state s = 0 \<and> length (lsd_head s) = 4 \<and>
     (\<forall>j<k. lsd_head s ! j = of_nat (lsd_guide g r j)) \<and> lsd_byte_cnt s = 0 \<and> lsd_data_cnt s = 0 \<and> length (lsd_byte s) = 4"

lemma guide_word:
  assumes "g \<le> 83"
  shows "uint (of_nat (lsd_guide g r j) :: u16) = int (lsd_guide g r j)" "unat (of_nat (lsd_guide g r j) :: u16) = lsd_guide g r j"
proof -
  have "lsd_guide g r j < 2 ^ 16" using guide_bounds [of g r j] assms by simp
  then show "unat (of_nat (lsd_guide g r j) :: u16) = lsd_guide g r j" by (simp add: unat_of_nat)
  then show "uint (of_nat (lsd_guide g r j) :: u16) = int (lsd_guide g r j)" unfolding uint_nat by simp
qed

lemma head_step_down:
  assumes c: "0 < lsd_head_cnt s" "unat (lsd_head_cnt s) < length (lsd_head s)"
    and d: "uint x + 1 = uint (lsd_head s ! (unat (lsd_head_cnt s) - 1)) \<or> uint x - 3 = uint (lsd_head s ! (unat (lsd_head_cnt s) - 1))"
  shows "lsd_head_step x b s =
    (let s = s\<lparr>lsd_head := (lsd_head s)[unat (lsd_head_cnt s) := x], lsd_temp_lock := 1, lsd_head_cnt := lsd_head_cnt s + 1,
         lsd_head_bw20 := (if b then lsd_head_bw20 s + 1 else lsd_head_bw20 s)\<rparr>
     in if 4 \<le> lsd_head_cnt s then s\<lparr>lsd_sync_cnt := lsd_sync_cnt s + 1, lsd_head_cnt := 0\<rparr> else s)"
proof -
  have "unat (lsd_head_cnt s) \<noteq> unat (lsd_head_cnt s) - 1" using c(1) by (simp add: word_less_nat_alt)
  then show ?thesis unfolding lsd_head_step_def Let_def using d by (elim disjE) (simp_all add: c)
qed

lemma head_step_next:
  assumes a: "lsd_announced mac g r (Suc k) s" and k: "Suc k < 4" and g: "g \<le> 83"
  shows "lsd_head_step (of_nat (lsd_guide g r (Suc k))) b s =
    (let s = s\<lparr>lsd_head := (lsd_head s)[Suc k := of_nat (lsd_guide g r (Suc k))], lsd_temp_lock := 1, lsd_head_cnt := of_nat (k + 2),
         lsd_head_bw20 := (if b then lsd_head_bw20 s + 1 else lsd_head_bw20 s)\<rparr>
     in if k = 2 then s\<lparr>lsd_sync_cnt := 1, lsd_head_cnt := 0\<rparr> else s)"
proof -
  have c: "lsd_head_cnt s = of_nat (Suc k)" and h: "lsd_head s ! k = of_nat (lsd_guide g r k)" "length (lsd_head s) = 4" "lsd_sync_cnt s = 0"
    using a by (simp_all add: lsd_announced_def)
  have u: "unat (lsd_head_cnt s) = Suc k" unfolding c unat_of_nat using k by simp
  have z: "0 < lsd_head_cnt s" using u by (simp add: word_less_nat_alt)
  have c1: "lsd_head_cnt s + 1 = of_nat (k + 2)" unfolding c by simp
  have "unat (of_nat (k + 2) :: u8) = k + 2" unfolding unat_of_nat using k by simp
  then have f: "4 \<le> (of_nat (k + 2) :: u8) \<longleftrightarrow> k = 2" using k by (auto simp: word_le_nat_alt)
  have st: "int (lsd_guide g r (Suc k)) + 1 = int (lsd_guide g r k) \<or> int (lsd_guide g r (Suc k)) - 3 = int (lsd_guide g r k)"
    using guide_step [of g r k] by linarith
  have "lsd_head_step (of_nat (lsd_guide g r (Suc k))) b s =
    (let s = s\<lparr>lsd_head := (lsd_head s)[Suc k := of_nat (lsd_guide g r (Suc k))], lsd_temp_lock := 1, lsd_head_cnt := of_nat (k + 2),
         lsd_head_bw20 := (if b then lsd_head_bw20 s + 1 else lsd_head_bw20 s)\<rparr>
     in if 4 \<le> lsd_head_cnt s then s\<lparr>lsd_sync_cnt := lsd_sync_cnt s + 1, lsd_head_cnt := 0\<rparr> else s)"
    using head_step_down [OF z, of "of_nat (lsd_guide g r (Suc k))" b] u h k st unfolding c1 by (simp add: guide_word [OF g])
  then show ?thesis using f h(3) by (simp add: Let_def)
qed

section \<open>The receiver locks\<close>

lemma guide_in_range:
  assumes "60 \<le> g" "g \<le> 83"
  shows "\<not> ((of_nat (lsd_guide g r j) :: u16) < 60 \<or> 86 < (of_nat (lsd_guide g r j) :: u16))"
  using guide_bounds [of g r j] assms guide_word(2) [OF assms(2), of r j] by (simp add: word_less_nat_alt)

lemma sync_first:
  assumes g: "60 \<le> g" "g \<le> 83" and r: "\<not> ieee80211_has_retry (frame_control h)"
  shows "\<exists>s. lsd_sync h (of_nat (lsd_guide g r 0)) mac 0 zero_src = (LSD_ONESHOT_CONTINUE, 0, s) \<and> lsd_announced mac g r 1 s"
proof -
  have rng: "((of_nat (lsd_guide g r 0) :: u16) < 60 \<or> 86 < (of_nat (lsd_guide g r 0) :: u16)) = False"
    using guide_in_range [OF g, of r 0] by simp
  have "\<not> (4 :: u8) \<le> 1" by (simp add: word_le_nat_alt)
  then show ?thesis unfolding lsd_sync_def rng if_False Let_def using r
    by (simp add: lsd_track_mac_def lsd_new_mac_def zero_src_def lsd_head_step_def Let_def lsd_temp_locked_def lsd_announced_def)
qed

lemma sync_next:
  assumes a: "lsd_announced mac g r (Suc k) s" and k: "k < 2" and g: "60 \<le> g" "g \<le> 83" and nz: "mac \<noteq> replicate 6 0"
    and r: "\<not> ieee80211_has_retry (frame_control h)"
  shows "\<exists>c l s'. lsd_sync h (of_nat (lsd_guide g r (Suc k))) mac lock s = (c, l, s') \<and> 0 \<le> c \<and> c < 4 \<and> lsd_announced mac g r (Suc (Suc k)) s'"
proof -
  have rng: "((of_nat (lsd_guide g r (Suc k)) :: u16) < 60 \<or> 86 < (of_nat (lsd_guide g r (Suc k)) :: u16)) = False"
    using guide_in_range [OF g, of r "Suc k"] by simp
  have m: "lsd_track_mac mac s = s" using a nz by (simp add: lsd_track_mac_def lsd_announced_def)
  let ?s = "s\<lparr>lsd_last_seq := seq_ctrl h\<rparr>"
  have "lsd_announced mac g r (Suc k) ?s" using a by (simp add: lsd_announced_def)
  note st = head_step_next [OF this _ g(2), of "duration_id h AND 1 = 0"]
  let ?t = "lsd_head_step (of_nat (lsd_guide g r (Suc k))) (duration_id h AND 1 = 0) ?s"
  have an: "lsd_announced mac g r (Suc (Suc k)) ?t" using st a k by (auto simp: lsd_announced_def Let_def nth_list_update less_Suc_eq)
  then have "\<not> 1 \<le> lsd_sync_cnt ?t" by (simp add: lsd_announced_def)
  then show ?thesis unfolding lsd_sync_def rng if_False Let_def m using r an by (auto simp: lsd_temp_locked_def)
qed

lemma sync_last:
  assumes a: "lsd_announced mac g r 3 s" and g: "60 \<le> g" "g \<le> 83" and nz: "mac \<noteq> replicate 6 0"
    and r: "\<not> ieee80211_has_retry (frame_control h)"
  shows "\<exists>c l s'. lsd_sync h (of_nat (lsd_guide g r 3)) mac lock s = (c, l, s') \<and> 0 \<le> c \<and> c < 4 \<and>
    lsd_state s' = 1 \<and> lsd_src_mac s' = mac \<and> lsd_data_datum s' = of_nat (g + 19) \<and> length (lsd_byte s') = 4 \<and>
    lsd_byte_cnt s' = 0 \<and> lsd_data_cnt s' = 0"
proof -
  have rng: "((of_nat (lsd_guide g r 3) :: u16) < 60 \<or> 86 < (of_nat (lsd_guide g r 3) :: u16)) = False"
    using guide_in_range [OF g, of r 3] by simp
  have m: "lsd_track_mac mac s = s" using a nz by (simp add: lsd_track_mac_def lsd_announced_def)
  let ?s = "s\<lparr>lsd_last_seq := seq_ctrl h\<rparr>"
  have "lsd_announced mac g r (Suc 2) ?s" using a by (simp add: lsd_announced_def)
  note st = head_step_next [OF this _ g(2), of "duration_id h AND 1 = 0"]
  let ?t = "lsd_head_step (of_nat (lsd_guide g r 3)) (duration_id h AND 1 = 0) ?s"
  have t: "lsd_sync_cnt ?t = 1" "lsd_src_mac ?t = mac" "length (lsd_byte ?t) = 4" "lsd_byte_cnt ?t = 0" "lsd_data_cnt ?t = 0"
    "lsd_head ?t = (lsd_head s)[3 := of_nat (lsd_guide g r 3)]"
    using st a by (simp_all add: lsd_announced_def Let_def)
  have hd: "lsd_head ?t ! 3 = of_nat (lsd_guide g r 3)" "lsd_head ?t ! 2 = of_nat (lsd_guide g r 2)"
    "lsd_head ?t ! 1 = of_nat (lsd_guide g r 1)" "lsd_head ?t ! 0 = of_nat (lsd_guide g r 0)"
    using t(6) a by (simp_all add: lsd_announced_def)
  have mn: "min (of_nat (lsd_guide g r i)) (of_nat n) = (of_nat (min (lsd_guide g r i) n) :: u16)" if "n \<le> 86" for i n
    using that guide_word(2) [OF g(2), of r i] by (simp add: min_def word_le_nat_alt unat_of_nat)
  have le: "lsd_guide g r i \<le> 86" for i using guide_bounds [of g r i] g by simp
  have gl: "fold min [lsd_head ?t ! 1, lsd_head ?t ! 2, lsd_head ?t ! 3] (lsd_head ?t ! 0) = of_nat g"
    unfolding hd using guide_min [of g r] le by (simp add: mn min.coboundedI1 del: min.absorb1 min.absorb2)
  have dm: "(of_nat g - 1 + 20 :: u16) = of_nat (g + 19)" by simp
  show ?thesis unfolding lsd_sync_def rng if_False Let_def m gl dm using r t by (auto simp: lsd_temp_locked_def)
qed

text \<open>A frame that finds a receiver without base length.\<close>

lemma feed_sync:
  assumes d: "lsd_data s = Some d" "lsd_param s = Some p" and f: "lsd_from t mac num n f" and z: "lsd_state (lsd_srcs s ! t) = 0"
    and sy: "lsd_sync (fst f) n mac (lsd_lock_chan_cnt s) (lsd_srcs s ! t) = (c, l, src)" and c: "0 \<le> c" "c < 4"
  shows "lsd_feed (f # fs) s = lsd_feed fs (s\<lparr>lsd_srcs := (lsd_srcs s)[t := src], lsd_lock_chan_cnt := l\<rparr>)"
proof -
  have k: "t = lsd_kind (fst f)" using f by (simp add: lsd_from_def)
  have "tls_lsd_recv (fst f) (snd f) s = Some (c, s\<lparr>lsd_srcs := (lsd_srcs s)[t := src], lsd_lock_chan_cnt := l\<rparr>)"
    using recv_unfold [OF d k] f z sy by (simp add: lsd_from_def)
  then show ?thesis using c by simp
qed

text \<open>Four announcing frames, beginning anywhere in the sequence of lengths; their numbers do not matter.\<close>

definition lsd_announces :: "nat \<Rightarrow> u8 list \<Rightarrow> nat \<Rightarrow> nat \<Rightarrow> lsd_frame list \<Rightarrow> bool" where
  "lsd_announces t mac g r hs \<longleftrightarrow>
     list_all2 (\<lambda>j f. lsd_from t mac (ieee80211_get_DA (fst f) ! 5) (of_nat (lsd_guide g r j)) f) [0, 1, 2, 3] hs"

lemma announcement_locks:
  assumes g: "60 \<le> g" "g \<le> 83" and nz: "mac \<noteq> replicate 6 0" and t: "t < 3"
    and hs: "lsd_announces t mac g r hs" and sc: "lsd_scan_fine ssid bc scan"
  shows "\<exists>s. lsd_feed (hs @ fs) (tls_lsd_init True True scan s0) = lsd_feed fs s \<and>
    lsd_hears ssid pwd user bc t mac (of_nat (g + 19)) {} s \<and> lsd_byte_cnt (lsd_srcs s ! t) = 0"
proof -
  from hs obtain f0 f1 f2 f3 where hs: "hs = [f0, f1, f2, f3]"
    and f: "lsd_from t mac (ieee80211_get_DA (fst f0) ! 5) (of_nat (lsd_guide g r 0)) f0"
      "lsd_from t mac (ieee80211_get_DA (fst f1) ! 5) (of_nat (lsd_guide g r (Suc 0))) f1"
      "lsd_from t mac (ieee80211_get_DA (fst f2) ! 5) (of_nat (lsd_guide g r (Suc 1))) f2"
      "lsd_from t mac (ieee80211_get_DA (fst f3) ! 5) (of_nat (lsd_guide g r 3)) f3"
    by (auto simp: list_all2_Cons1 lsd_announces_def numeral_2_eq_2)
  have nr: "\<not> ieee80211_has_retry (frame_control (fst f0))" "\<not> ieee80211_has_retry (frame_control (fst f1))"
    "\<not> ieee80211_has_retry (frame_control (fst f2))" "\<not> ieee80211_has_retry (frame_control (fst f3))"
    using f by (simp_all add: lsd_from_def)
  let ?i = "tls_lsd_init True True scan s0"
  have i: "lsd_data ?i = Some zero_data" "lsd_param ?i = Some zero_param" "lsd_srcs ?i ! t = zero_src" "length (lsd_srcs ?i) = 3"
    "lsd_lock_chan_cnt ?i = 0" "lsd_scan_bss ?i = scan"
    using t by (simp_all add: tls_lsd_init_def)
  define ch where "ch = (\<lambda>src l. ?i\<lparr>lsd_srcs := (lsd_srcs ?i)[t := src], lsd_lock_chan_cnt := l\<rparr>)"
  have ch: "lsd_data (ch a l) = Some zero_data" "lsd_param (ch a l) = Some zero_param" "lsd_srcs (ch a l) ! t = a"
    "lsd_lock_chan_cnt (ch a l) = l" "(ch a l)\<lparr>lsd_srcs := (lsd_srcs (ch a l))[t := b], lsd_lock_chan_cnt := m\<rparr> = ch b m"
    "length (lsd_srcs (ch a l)) = 3" "lsd_scan_bss (ch a l) = scan" for a b l m
    using i t by (simp_all add: ch_def)
  from sync_first [OF g nr(1), of r mac] obtain a1 where a1: "lsd_sync (fst f0) (of_nat (lsd_guide g r 0)) mac 0 zero_src = (0, 0, a1)"
    "lsd_announced mac g r (Suc 0) a1" by auto
  from sync_next [OF a1(2) _ g nz nr(2), of 0] obtain c2 l2 a2 where
    a2: "lsd_sync (fst f1) (of_nat (lsd_guide g r (Suc 0))) mac 0 a1 = (c2, l2, a2)" "0 \<le> c2" "c2 < 4" "lsd_announced mac g r (Suc 1) a2" by auto
  from sync_next [OF a2(4) _ g nz nr(3), of l2] obtain c3 l3 a3 where
    a3: "lsd_sync (fst f2) (of_nat (lsd_guide g r (Suc 1))) mac l2 a2 = (c3, l3, a3)" "0 \<le> c3" "c3 < 4" "lsd_announced mac g r 3 a3"
    by (auto simp: numeral_3_eq_3)
  from sync_last [OF a3(4) g nz nr(4), of l3] obtain c4 l4 a4 where
    a4: "lsd_sync (fst f3) (of_nat (lsd_guide g r 3)) mac l3 a3 = (c4, l4, a4)" "0 \<le> c4" "c4 < 4" "lsd_state a4 = 1" "lsd_src_mac a4 = mac"
    "lsd_data_datum a4 = of_nat (g + 19)" "length (lsd_byte a4) = 4" "lsd_byte_cnt a4 = 0" "lsd_data_cnt a4 = 0" by auto
  have st: "lsd_state a1 = 0" "lsd_state a2 = 0" "lsd_state a3 = 0" using a1(2) a2(4) a3(4) by (simp_all add: lsd_announced_def)
  have "lsd_feed (hs @ fs) ?i = lsd_feed ([f1, f2, f3] @ fs) (ch a1 0)"
    unfolding hs ch_def using feed_sync [OF i(1,2) f(1)] a1(1) i by (simp add: zero_src_def)
  also have "\<dots> = lsd_feed ([f2, f3] @ fs) (ch a2 l2)"
    using feed_sync [OF ch(1,2) f(2), of a1 0] a2 st by (simp add: ch)
  also have "\<dots> = lsd_feed ([f3] @ fs) (ch a3 l3)"
    using feed_sync [OF ch(1,2) f(3), of a2 l2] a3 st by (simp add: ch)
  also have "\<dots> = lsd_feed fs (ch a4 l4)"
    using feed_sync [OF ch(1,2) f(4), of a3 l3] a4 st by (simp add: ch)
  finally show ?thesis using a4 t sc
    by (intro exI [of _ "ch a4 l4"]) (auto simp: lsd_hears_def lsd_locked_def ch table_empty fresh_zero)
qed

end
