(* ===== verification/Lsd_Props.thy ===== *)
theory Lsd_Props
  imports Lsd_Sync
begin

text \<open>
  Properties of the provisioning: a message reaches the device through lost, repeated and reordered groups; a group with
  a damaged byte is not stored; the number of a group is not checked.
\<close>

unbundle bit_operations_syntax

section \<open>Example frames\<close>

definition lsd_ex_frame :: "u8 \<Rightarrow> u16 \<Rightarrow> lsd_frame" where
  "lsd_ex_frame num n =
     (\<lparr>frame_control = 0x0108, duration_id = 1, addr1 = replicate 6 7, addr2 = replicate 6 9,
       addr3 = [0x01, 0x00, 0x5E, 0, 0, num], seq_ctrl = 0, addr4 = []\<rparr>, n)"

definition lsd_ex_group :: "u8 list \<Rightarrow> nat \<Rightarrow> u8 \<times> nat \<times> lsd_frame list" where
  "lsd_ex_group m i = (of_nat i, i, map (\<lambda>v. lsd_ex_frame (of_nat i) (79 + of_nat v)) (lsd_values m i))"

lemma ex_from: "lsd_from 1 (replicate 6 9) num n (lsd_ex_frame num n)"
  by (simp add: lsd_from_def lsd_ex_frame_def lsd_kind_def lsd_multicast_def lsd_frm_len_def ieee80211_has_tods_def
      ieee80211_get_SA_def ieee80211_get_DA_def ieee80211_has_a4_def ieee80211_has_fromds_def ieee80211_has_retry_def
      ieee80211_is_data_qos_def)

lemma ex_kind: "lsd_kind (fst (lsd_ex_frame num n)) = 1" "ieee80211_get_DA (fst (lsd_ex_frame num n)) ! 5 = num"
  using ex_from [of num n] by (simp_all add: lsd_from_def)

lemma ex_not_noise: "v < 768 \<Longrightarrow> \<not> lsd_noise 1 (replicate 6 9) 79 (lsd_ex_frame num (79 + of_nat v))"
  using ex_from [of num "79 + of_nat v"] datum_value [of 79 v] by (simp add: lsd_noise_def lsd_from_def)

lemma ex_sent:
  assumes "i < lsd_pairs m" "lsd_pairs m \<le> 127"
  shows "lsd_sent m 1 (replicate 6 9) 79 (of_nat i) i (snd (snd (lsd_ex_group m i)))"
proof -
  have "lsd_burst 1 (replicate 6 9) 79 (of_nat i) vs (map (\<lambda>v. lsd_ex_frame (of_nat i) (79 + of_nat v)) vs)" for vs
    by (induction vs) (simp_all add: lsd_burst_def ex_from [simplified])
  moreover have "lsd_values m i \<noteq> []" by (simp add: lsd_values_def)
  ultimately show ?thesis using assms by (auto simp: lsd_sent_def lsd_ex_group_def)
qed

lemma ex_whole: "lsd_whole (map (lsd_ex_group m) [0..<n]) = {..<n}"
proof -
  have "length (lsd_values m i) = 4" for i by (simp add: lsd_values_def)
  then have "(num, i, fs) \<in> set (map (lsd_ex_group m) [0..<n]) \<Longrightarrow> i < n"
    and "i < n \<Longrightarrow> lsd_ex_group m i \<in> set (map (lsd_ex_group m) [0..<n]) \<and> length (snd (snd (lsd_ex_group m i))) = 4" for num i fs
    by (auto simp: lsd_ex_group_def)
  then show ?thesis unfolding lsd_whole_def by (fastforce simp: lsd_ex_group_def)
qed

lemma ex_filter:
  assumes "lsd_pairs m \<le> 127"
  shows "filter (\<lambda>f. \<not> lsd_noise 1 (replicate 6 9) 79 f) (concat (map (snd \<circ> snd) (map (lsd_ex_group m) [0..<lsd_pairs m]))) =
    concat (map (snd \<circ> snd) (map (lsd_ex_group m) [0..<lsd_pairs m]))"
proof (rule filter_True, rule ballI)
  fix f assume "f \<in> set (concat (map (snd \<circ> snd) (map (lsd_ex_group m) [0..<lsd_pairs m])))"
  then obtain i v where i: "i < lsd_pairs m" "v \<in> set (lsd_values m i)" and f: "f = lsd_ex_frame (of_nat i) (79 + of_nat v)"
    by (auto simp: lsd_ex_group_def)
  then obtain k where "k < 4" "v = lsd_values m i ! k" using values_fit(3) [of 0 i m] assms by (auto simp: in_set_conv_nth)
  then have "v < 768" using values_fit(2) [of k i m] i assms by simp
  then show "\<not> lsd_noise 1 (replicate 6 9) 79 f" unfolding f by (rule ex_not_noise)
qed

section \<open>Groups with a number out of range\<close>

lemma receive_none:
  assumes "lsd_src_mac src = mac" "lsd_data_datum src = datum" "\<not> ieee80211_has_retry (frame_control h)"
  shows "lsd_receive scan h n mac num src d p = None \<longleftrightarrow>
    datum \<le> n \<and> n < 1024 \<and> 4 \<le> lsd_byte_cnt (lsd_after (seq_ctrl h) num (n - datum) src) \<and>
    (128 :: u8) \<le> ucast (lsd_byte (lsd_after (seq_ctrl h) num (n - datum) src) ! 3)"
proof -
  let ?a = "lsd_after (seq_ctrl h) num (n - datum) src"
  have dm: "lsd_data_datum (lsd_new_num num (src\<lparr>lsd_last_seq := q\<rparr>)) = datum" for q using assms(2) by (simp add: lsd_new_num_def)
  have g: "lsd_group ?a d = None \<longleftrightarrow> (128 :: u8) \<le> ucast (lsd_byte ?a ! 3)"
    by (auto simp: lsd_group_def Let_def word_le_nat_alt)
  have "lsd_receive scan h n mac num src d p =
    (if 1024 \<le> n \<or> n < datum then Some (LSD_ONESHOT_CONTINUE, src, d, p)
     else if 4 \<le> lsd_byte_cnt ?a
     then case lsd_group ?a d of
            None \<Rightarrow> None
          | Some (err, s', d) \<Rightarrow> Some (if err then (LSD_ONESHOT_ERR, s', d, p) else lsd_evaluate scan s' d p)
     else Some (lsd_evaluate scan ?a d p))"
    using assms unfolding lsd_receive_def Let_def dm by (simp add: lsd_after_def)
  moreover have "\<exists>r s' d' p'. lsd_evaluate scan x y z = (r, s', d', p')" for x y z by (cases "lsd_evaluate scan x y z") auto
  ultimately show ?thesis unfolding g [symmetric] by (cases "lsd_group ?a d") (auto simp: linorder_not_less linorder_not_le)
qed

section \<open>Properties\<close>

text \<open>C10. A sender announces itself by four frames whose lengths go down by one, beginning anywhere, and then sends the pairs
  of bytes of its message in groups of four frames, in any order and as often as it likes, each group under another
  number than the one before. Frames may be lost, and frames that carry nothing may arrive between them. If all four frames of some
  group of every pair arrive, the receiver reports completion, never an error, and the name, the key and the
  user data it holds are those that were sent. (The scanned networks whose address has the checksum that was sent bear the
  name that was sent, and all frames are of one of the three kinds.)
\<close>

theorem lsd_provisions:
  assumes "lsd_sendable ssid pwd user" and "60 \<le> g" and "g \<le> 83" and "mac \<noteq> replicate 6 0"
    and "lsd_announces t mac g r hs" and "lsd_scan_fine ssid bc scan"
    and "\<forall>f\<in>set fs. lsd_kind (fst f) = t"
    and "filter (\<lambda>f. \<not> lsd_noise t mac (of_nat (g + 19)) f) fs = concat (map (snd \<circ> snd) gs)"
    and "distinct_adj (map fst gs)"
    and "\<forall>(num, i, gf)\<in>set gs. lsd_sent (lsd_message ssid pwd user bc) t mac (of_nat (g + 19)) num i gf"
    and "lsd_whole gs = {..<lsd_pairs (lsd_message ssid pwd user bc)}"
  shows "\<exists>s p. lsd_feed (hs @ fs) (tls_lsd_init True True scan s0) = Some (LSD_ONESHOT_COMPLETE, s) \<and>
    lsd_param s = Some p \<and> lsd_got ssid pwd user p"
proof -
  have t: "t < 3" using assms(5) kind_less by (auto simp: lsd_announces_def list_all2_Cons1 lsd_from_def)
  from announcement_locks [OF assms(2-4) t assms(5,6), of fs s0 pwd user] obtain s where
    fd: "lsd_feed (hs @ fs) (tls_lsd_init True True scan s0) = lsd_feed fs s"
    and h: "lsd_hears ssid pwd user bc t mac (of_nat (g + 19)) {} s" and c: "lsd_byte_cnt (lsd_srcs s ! t) = 0" by blast
  have "lsd_tuned t mac (of_nat (g + 19)) s" using h by (auto simp: lsd_hears_def lsd_locked_def lsd_tuned_def)
  note fn = feed_noise [OF this assms(7), unfolded assms(8)]
  have dm: "unat (of_nat (g + 19) :: u16) < 256" unfolding unat_of_nat using assms(3) by simp
  have "0 \<in> {..<lsd_pairs (lsd_message ssid pwd user bc)}" using pairs_pos [OF assms(1), of bc] by simp
  then have ne: "{} \<noteq> {..<lsd_pairs (lsd_message ssid pwd user bc)}" by blast
  from sent_sequence [OF assms(1) dm h _ assms(9,10) _ ne] c assms(11) show ?thesis
    unfolding fd fn by (auto simp: lsd_holds_def)
qed

theorem lsd_provisions_witness:
  "\<exists>s p. lsd_feed (map (\<lambda>j. lsd_ex_frame 0 (of_nat (lsd_guide 60 0 j))) [0, 1, 2, 3] @
      concat (map (snd \<circ> snd) (map (lsd_ex_group (lsd_message [65] [7, 8] [5] 3)) [0..<lsd_pairs (lsd_message [65] [7, 8] [5] 3)])))
      (tls_lsd_init True True None
        \<lparr>lsd_srcs = [], lsd_lock_chan_cnt = 0, lsd_data = None, lsd_param = None, lsd_scan_bss = None\<rparr>) = Some (LSD_ONESHOT_COMPLETE, s) \<and>
    lsd_param s = Some p \<and> lsd_got [65] [7, 8] [5] p"
proof (rule lsd_provisions [where g = 60 and t = 1 and mac = "replicate 6 9" and r = 0 and bc = 3 and
      gs = "map (lsd_ex_group (lsd_message [65] [7, 8] [5] 3)) [0..<lsd_pairs (lsd_message [65] [7, 8] [5] 3)]"])
  let ?m = "lsd_message [65] [7, 8] [5] 3"
  show s: "lsd_sendable [65] [7, 8] [5]" by (simp add: lsd_sendable_def)
  have n: "lsd_pairs ?m \<le> 127" using pairs_bound [OF s, of 3] by simp
  show "lsd_announces 1 (replicate 6 9) 60 0 (map (\<lambda>j. lsd_ex_frame 0 (of_nat (lsd_guide 60 0 j))) [0, 1, 2, 3])"
    by (simp add: lsd_announces_def ex_kind ex_from [simplified])
  show "lsd_scan_fine [65] 3 None" by (simp add: lsd_scan_fine_def)
  show "\<forall>f\<in>set (concat (map (snd \<circ> snd) (map (lsd_ex_group ?m) [0..<lsd_pairs ?m]))). lsd_kind (fst f) = 1"
    by (auto simp: lsd_ex_group_def ex_kind)
  show "filter (\<lambda>f. \<not> lsd_noise 1 (replicate 6 9) (of_nat (60 + 19)) f)
      (concat (map (snd \<circ> snd) (map (lsd_ex_group ?m) [0..<lsd_pairs ?m]))) =
    concat (map (snd \<circ> snd) (map (lsd_ex_group ?m) [0..<lsd_pairs ?m]))"
    using ex_filter [OF n] by simp
  show "distinct_adj (map fst (map (lsd_ex_group ?m) [0..<lsd_pairs ?m]))"
    by (simp add: lsd_ex_group_def lsd_pairs_def lsd_message_def lsd_body_def upt_rec comp_def)
  show "\<forall>(num, i, gf)\<in>set (map (lsd_ex_group ?m) [0..<lsd_pairs ?m]). lsd_sent ?m 1 (replicate 6 9) (of_nat (60 + 19)) num i gf"
    using ex_sent [OF _ n] by (auto simp: lsd_ex_group_def)
  show "lsd_whole (map (lsd_ex_group ?m) [0..<lsd_pairs ?m]) = {..<lsd_pairs ?m}"
    by (rule ex_whole)
qed simp_all

text \<open>C35. A group that arrives with exactly one of its four bytes damaged, two of data, the number and the checksum, is not stored:
  the table and the count stay as they are, if the number is in range.
\<close>

theorem lsd_group_damaged:
  assumes "map ucast (lsd_byte s) = [a', c', b', q']" and "q' < 128"
    and "length (filter (\<lambda>x. x) [a \<noteq> a', b \<noteq> b', q \<noteq> q', c' \<noteq> lsd_crc8_calc [a, b, q]]) = 1"
  shows "\<exists>s'. lsd_group s d = Some (False, s', d) \<and> lsd_data_cnt s' = lsd_data_cnt s"
proof -
  have ne: "c' \<noteq> lsd_crc8_calc [a', b', q']"
    using assms(3) crc8.one_byte_detected [of "[]" a "[b, q]" 0 a'] crc8.one_byte_detected [of "[a]" b "[q]" 0 b']
      crc8.one_byte_detected [of "[a, b]" q "[]" 0 q']
    unfolding lsd_crc8_calc_absorb by (auto split: if_splits)
  have "ucast (lsd_byte s ! 0) = a'" "ucast (lsd_byte s ! 1) = c'" "ucast (lsd_byte s ! 2) = b'" "ucast (lsd_byte s ! 3) = q'"
    using assms(1) by (auto simp: map_eq_Cons_conv numeral_2_eq_2 numeral_3_eq_3)
  moreover have "unat q' < 128" using assms(2) by (simp add: word_less_nat_alt)
  ultimately show ?thesis using ne by (simp add: lsd_group_def Let_def)
qed

theorem lsd_group_damaged_witness:
  "\<exists>s'. lsd_group (zero_src\<lparr>lsd_byte := [6, 0x100 + ucast (lsd_crc8_calc [5, 7, 2]), 7, 0x202]\<rparr>) zero_data = Some (False, s', zero_data) \<and>
    lsd_data_cnt s' = 0"
proof -
  have "\<exists>s'. lsd_group (zero_src\<lparr>lsd_byte := [6, 0x100 + ucast (lsd_crc8_calc [5, 7, 2]), 7, 0x202]\<rparr>) zero_data =
      Some (False, s', zero_data) \<and> lsd_data_cnt s' = lsd_data_cnt (zero_src\<lparr>lsd_byte := [6, 0x100 + ucast (lsd_crc8_calc [5, 7, 2]), 7, 0x202]\<rparr>)"
    by (rule lsd_group_damaged [where a = 5 and b = 7 and q = 2 and a' = 6 and b' = 7 and q' = 2 and c' = "lsd_crc8_calc [5, 7, 2]"])
      (simp_all add: word_less_nat_alt ucast_value [simplified])
  then show ?thesis by (simp add: zero_src_def)
qed

text \<open>Once a sender is locked, a frame makes the code read and write outside the table of 256 bytes exactly when it is the
  fourth of a group whose number is 128 or more; the number is used before the checksum of the group is tested.
\<close>

theorem lsd_group_number:
  assumes "lsd_tuned t mac datum s" and "lsd_from t mac num n f" and "lsd_byte_cnt (lsd_srcs s ! t) < 4" and "length (lsd_byte (lsd_srcs s ! t)) = 4"
  shows "tls_lsd_recv (fst f) (snd f) s = None \<longleftrightarrow>
    datum \<le> n \<and> n < 1024 \<and> lsd_last_num (lsd_srcs s ! t) = num \<and> lsd_byte_cnt (lsd_srcs s ! t) = 3 \<and>
    (n - datum) AND 0x300 = 0x200 \<and> (128 :: u8) \<le> ucast (n - datum)"
proof -
  let ?src = "lsd_srcs s ! t" and ?a = "lsd_after (seq_ctrl (fst f)) num (n - datum) (lsd_srcs s ! t)"
  from assms(1) obtain d p where d: "lsd_data s = Some d" "lsd_param s = Some p" by (auto simp: lsd_tuned_def)
  have k: "t = lsd_kind (fst f)" using assms(2) by (simp add: lsd_from_def)
  have a: "4 \<le> lsd_byte_cnt ?a \<longleftrightarrow> lsd_last_num ?src = num \<and> lsd_byte_cnt ?src = 3 \<and> (n - datum) AND 0x300 = 0x200"
  proof (cases "lsd_last_num ?src = num \<and> lsd_byte_cnt ?src = 3")
    case True
    have "\<not> 4 \<le> (0 :: u8)" by simp
    then show ?thesis using True assms(4) by (simp add: lsd_after_defs)
  next
    case False
    then have "unat (if lsd_last_num ?src = num then lsd_byte_cnt ?src else 0) < 3"
      using assms(3) by (auto simp: word_less_nat_alt word_unat_eq_iff)
    then have "unat (lsd_byte_cnt ?a) < 4" using after_cnt [OF assms(3), of "seq_ctrl (fst f)" num "n - datum"] by linarith
    then show ?thesis using False by (auto simp: word_le_nat_alt)
  qed
  have b: "lsd_last_num ?src = num \<Longrightarrow> lsd_byte_cnt ?src = 3 \<Longrightarrow> lsd_byte ?a ! 3 = n - datum"
    using assms(4) by (simp add: lsd_after_defs)
  have "tls_lsd_recv (fst f) (snd f) s = None \<longleftrightarrow> lsd_receive (lsd_scan_bss s) (fst f) n mac num ?src d p = None"
    using recv_unfold [OF d k] assms(1,2) by (simp add: lsd_from_def lsd_tuned_def split: option.split)
  also have "\<dots> \<longleftrightarrow> datum \<le> n \<and> n < 1024 \<and> 4 \<le> lsd_byte_cnt ?a \<and> (128 :: u8) \<le> ucast (lsd_byte ?a ! 3)"
    using receive_none [of ?src mac datum "fst f"] assms(1,2) by (simp add: lsd_from_def lsd_tuned_def)
  finally show ?thesis using a b by auto
qed

theorem lsd_group_number_witness:
  "tls_lsd_recv (fst (lsd_ex_frame 1 (79 + 0x2FF))) (79 + 0x2FF)
     \<lparr>lsd_srcs = replicate 3 (zero_src\<lparr>lsd_state := 1, lsd_src_mac := replicate 6 9, lsd_data_datum := 79, lsd_last_num := 1, lsd_byte_cnt := 3\<rparr>),
      lsd_lock_chan_cnt = 0, lsd_data = Some zero_data, lsd_param = Some zero_param, lsd_scan_bss = None\<rparr> = None"
proof -
  let ?s = "\<lparr>lsd_srcs = replicate 3 (zero_src\<lparr>lsd_state := 1, lsd_src_mac := replicate 6 9, lsd_data_datum := 79, lsd_last_num := 1, lsd_byte_cnt := 3\<rparr>),
      lsd_lock_chan_cnt = 0, lsd_data = Some zero_data, lsd_param = Some zero_param, lsd_scan_bss = None\<rparr>"
  have "lsd_tuned 1 (replicate 6 9) 79 ?s" by (simp add: lsd_tuned_def)
  from lsd_group_number [OF this ex_from, of 1 "79 + 0x2FF"] show ?thesis
    by (simp add: zero_src_def word_less_nat_alt word_le_nat_alt lsd_ex_frame_def)
qed

end
