(* ===== verification/Efuse.thy ===== *)
theory Efuse
  imports Bytes Crc Flash_Otp
begin

text \<open>
  Factory data in flash, \<^verbatim>\<open>platform/drivers/efuse/wm_efuse.c\<close>: the addresses and the calibration of the radio are kept in the
  structure \<^verbatim>\<open>FT_PARAM_ST_VER1\<close> of 220 bytes, of which the first two sectors of the flash hold a copy each. The structure is the sequence
  of its bytes. The checksum engine is hardware and an argument \<open>crc\<close> (the value of \<^verbatim>\<open>tls_crypto_crc_final\<close>); \<open>alloc\<close> tells
  which allocations succeed. \<open>None\<close> stands for an access outside a buffer or a write that does not return.
\<close>

unbundle bit_operations_syntax

abbreviation (input) "SIGNATURE_WORD \<equiv> 0xA0FFFF9F :: u32"
abbreviation (input) "FT_MAGICNUM_ADDR \<equiv> 0x8000000 :: nat"
abbreviation (input) "FT_PARAM_RUNTIME_ADDR \<equiv> 0x8001000 :: nat"
abbreviation (input) "sizeof_FT_PARAM_ST \<equiv> 132 :: nat"
abbreviation (input) "sizeof_EXT_1 \<equiv> 52 :: nat"
abbreviation (input) "sizeof_VER1 \<equiv> 220 :: nat"

datatype ft_cmd =
  CMD_WIFI_MAC | CMD_BT_MAC | CMD_TX_DC | CMD_RX_DC | CMD_TX_IQ_GAIN | CMD_RX_IQ_GAIN | CMD_TX_IQ_PHASE | CMD_RX_IQ_PHASE |
  CMD_TX_GAIN | CMD_TX_ADC_CAL | CMD_FREQ_ERR | CMD_RF_CAL_FLAG | CMD_ALL

text \<open>\<open>CMD_ALL\<close> stands for every number without a case of its own.\<close>

record 'c ft =
  fflash :: "'c fls"
  gftParam :: "u8 list"

definition default_mac :: "u8 list" where
  "default_mac = [0x00, 0x25, 0x08, 0x09, 0x01, 0x0F]"

text \<open>The places of the members.\<close>

definition ft_off :: "ft_cmd \<Rightarrow> nat" where
  "ft_off op = (case op of
     CMD_WIFI_MAC \<Rightarrow> 8 | CMD_BT_MAC \<Rightarrow> 16 | CMD_TX_DC \<Rightarrow> 24 | CMD_RX_DC \<Rightarrow> 28 | CMD_TX_IQ_GAIN \<Rightarrow> 32 | CMD_RX_IQ_GAIN \<Rightarrow> 36 |
     CMD_TX_IQ_PHASE \<Rightarrow> 40 | CMD_RX_IQ_PHASE \<Rightarrow> 44 | CMD_TX_GAIN \<Rightarrow> 48 | CMD_FREQ_ERR \<Rightarrow> 136 | CMD_RF_CAL_FLAG \<Rightarrow> 140 |
     CMD_TX_ADC_CAL \<Rightarrow> 144 | CMD_ALL \<Rightarrow> 0)"

definition magic_no :: "u8 list \<Rightarrow> u32" where
  "magic_no g = un32 g"

definition version_no :: "u8 list \<Rightarrow> u16" where
  "version_no g = un16 (drop 14 g)"

definition ext_param_len :: "u8 list \<Rightarrow> u16" where
  "ext_param_len g = un16 (drop 22 g)"

definition ft_ext1_valid :: "u8 list \<Rightarrow> bool" where
  "ft_ext1_valid pft \<longleftrightarrow>
     0 < version_no pft \<and> version_no pft < 0xFFFF \<and> sizeof_EXT_1 \<le> unat (ext_param_len pft) \<and> unat (ext_param_len pft) \<le> sizeof_EXT_1 + 32"

text \<open>The checks of a copy that has been read: the result and the buffer.\<close>

definition ft_check :: "(u8 list \<Rightarrow> u32) \<Rightarrow> u8 list \<Rightarrow> int \<times> u8 list" where
  "ft_check crc pft =
     (if magic_no pft \<noteq> SIGNATURE_WORD then (0, pft)
      else if un32 (drop 4 pft) \<noteq> crc (take (sizeof_FT_PARAM_ST - 8) (drop 8 pft)) then (0, pft)
      else if ft_ext1_valid pft
      then (if un32 (drop 132 pft) = crc (take (unat (ext_param_len pft)) (drop 136 pft)) then 1 else 0, pft)
      else (2, copy_into (copy_into pft 14 [0xFF, 0xFF] 2) 22 [0xFF, 0xFF] 2))"

definition ft_param_init ::
    "'c flash_hw \<Rightarrow> (u8 list \<Rightarrow> u32) \<Rightarrow> nat \<Rightarrow> u8 list \<Rightarrow> 'c fls \<Rightarrow> int \<times> u8 list \<times> 'c fls" where
  "ft_param_init hw crc ft_addr pft f =
     (let (_, bs, f) = tls_fls_read hw True True ft_addr False sizeof_VER1 f;
          (ret, pft) = ft_check crc (bs @ drop (length bs) pft)
      in (ret, pft, f))"

definition ft_blank :: "u8 list" where
  "ft_blank = replicate sizeof_VER1 0xFF"

definition tls_ft_param_init :: "'c flash_hw \<Rightarrow> (u8 list \<Rightarrow> u32) \<Rightarrow> bool \<Rightarrow> 'c ft \<Rightarrow> int \<times> 'c ft" where
  "tls_ft_param_init hw crc alloc s =
     (if magic_no (gftParam s) = SIGNATURE_WORD then (1, s)
      else let s = s\<lparr>gftParam := ft_blank\<rparr>
           in if \<not> alloc then (0, s)
              else let (ret, pft, f) = ft_param_init hw crc FT_PARAM_RUNTIME_ADDR ft_blank (fflash s);
                       (ret, pft, f) = (if ret = 0 then ft_param_init hw crc FT_MAGICNUM_ADDR ft_blank f else (ret, pft, f));
                       g = (if ret = 1 then pft else if ret = 2 then take sizeof_FT_PARAM_ST pft @ drop sizeof_FT_PARAM_ST (gftParam s) else gftParam s);
                       (_, f) = tls_flash_unlock hw f
                   in (ret, s\<lparr>gftParam := g, fflash := f\<rparr>))"

section \<open>Reading a member\<close>

text \<open>\<^verbatim>\<open>memcpy(data, &gftParamVer1 + off, n)\<close> into a buffer of the caller.\<close>

definition ft_copy_out :: "u8 list \<Rightarrow> nat \<Rightarrow> nat \<Rightarrow> u8 list \<Rightarrow> u8 list option" where
  "ft_copy_out src off n data = (if length src < off + n \<or> length data < n then None else Some (copy_into data 0 (drop off src) n))"

definition ft_get_flash ::
    "'c flash_hw \<Rightarrow> bool \<Rightarrow> nat \<Rightarrow> u8 list \<Rightarrow> 'c ft \<Rightarrow> (int \<times> u8 list \<times> 'c ft) option" where
  "ft_get_flash hw alloc addr data s =
     (let (ret, bs, f) = tls_fls_read hw True alloc addr False 4 (fflash s);
          s = s\<lparr>fflash := f\<rparr>
      in if length data < 4 then None
         else Some (if ret \<noteq> 0 then - 1 else 0, bs @ drop (length bs) data, s))"

definition ft_get_mac :: "u8 list \<Rightarrow> nat \<Rightarrow> u8 list \<Rightarrow> u8 list option" where
  "ft_get_mac g rdlen data =
     (if g ! 8 AND 1 \<noteq> 0 \<or> g ! 8 OR g ! 9 OR g ! 10 OR g ! 11 OR g ! 12 OR g ! 13 = 0
      then ft_copy_out default_mac 0 rdlen data else ft_copy_out g 8 rdlen data)"

definition ft_get_bt_mac :: "u8 list \<Rightarrow> nat \<Rightarrow> u8 list \<Rightarrow> u8 list option" where
  "ft_get_bt_mac g rdlen data =
     (if take 6 (drop 16 g) = replicate 6 0xFF \<or> take 6 (drop 16 g) = replicate 6 0
      then case ft_copy_out default_mac 0 rdlen data of
             None \<Rightarrow> None
           | Some d \<Rightarrow> if length d < 6 then None else Some (d[5 := d ! 5 + 1, 0 := d ! 0 OR 0xC0])
      else ft_copy_out g 16 rdlen data)"

definition tls_ft_param_get ::
    "'c flash_hw \<Rightarrow> bool \<Rightarrow> ft_cmd \<Rightarrow> u8 list \<Rightarrow> nat \<Rightarrow> 'c ft \<Rightarrow> (int \<times> u8 list \<times> 'c ft) option" where
  "tls_ft_param_get hw alloc opnum data rdlen s =
     (let g = gftParam s;
          ok = map_option (\<lambda>d. (0, d, s))
      in case opnum of
           CMD_FREQ_ERR \<Rightarrow> if ft_ext1_valid g then ok (ft_copy_out g 136 4 data) else ft_get_flash hw alloc (FT_MAGICNUM_ADDR + 132) data s
         | CMD_RF_CAL_FLAG \<Rightarrow> if ft_ext1_valid g then ok (ft_copy_out g 140 4 data) else ft_get_flash hw alloc (FT_MAGICNUM_ADDR + 136) data s
         | CMD_TX_ADC_CAL \<Rightarrow> if ft_ext1_valid g then ok (ft_copy_out g 144 rdlen data) else Some (- 1, data, s)
         | CMD_WIFI_MAC \<Rightarrow> ok (ft_get_mac g rdlen data)
         | CMD_BT_MAC \<Rightarrow> ok (ft_get_bt_mac g rdlen data)
         | CMD_TX_GAIN \<Rightarrow> ok (ft_copy_out g 48 (if rdlen < 84 then rdlen else 84) data)
         | CMD_ALL \<Rightarrow> Some (- 1, data, s)
         | _ \<Rightarrow> ok (ft_copy_out g (ft_off opnum) 4 data))"

section \<open>Writing a member\<close>

text \<open>A copy is written and read back; the code compares all bytes.\<close>

definition ft_write_copy ::
    "'c flash_hw \<Rightarrow> (u8 list \<Rightarrow> u32) \<Rightarrow> bool \<Rightarrow> nat \<Rightarrow> 'c ft \<Rightarrow> (bool \<times> 'c ft) option" where
  "ft_write_copy hw crc alloc addr s = do {
     (_, f) \<leftarrow> tls_fls_write hw alloc addr (Some (gftParam s)) sizeof_VER1 (fflash s);
     let (ret, pft, f) = ft_param_init hw crc addr ft_blank f;
     Some (ret \<noteq> 0 \<and> pft = gftParam s, s\<lparr>fflash := f\<rparr>)
   }"

definition ft_unlock :: "'c flash_hw \<Rightarrow> 'c ft \<Rightarrow> 'c ft" where
  "ft_unlock hw s = s\<lparr>fflash := snd (tls_flash_unlock hw (fflash s))\<rparr>"

text \<open>Before a member is changed, the first copy is made equal to the current data if the second is intact.\<close>

definition ft_backup :: "'c flash_hw \<Rightarrow> (u8 list \<Rightarrow> u32) \<Rightarrow> bool \<Rightarrow> 'c ft \<Rightarrow> (bool \<times> 'c ft) option" where
  "ft_backup hw crc alloc s =
     (let (ret, _, f) = ft_param_init hw crc FT_PARAM_RUNTIME_ADDR ft_blank (fflash s);
          s = s\<lparr>fflash := f\<rparr>
      in if ret = 0 then Some (True, s)
         else let (ret, pft, f) = ft_param_init hw crc FT_MAGICNUM_ADDR ft_blank (fflash s);
                  s = s\<lparr>fflash := f\<rparr>
              in if ret = 0 \<or> pft \<noteq> gftParam s then ft_write_copy hw crc alloc FT_MAGICNUM_ADDR (ft_unlock hw s) else Some (True, s))"

definition ft_extend :: "u8 list \<Rightarrow> u8 list" where
  "ft_extend g =
     (if ft_ext1_valid g then g
      else copy_into (copy_into (copy_into g 14 (le16 1) 2) 22 (le16 52) 2) 136 (replicate 52 0xFF) 52)"

text \<open>\<^verbatim>\<open>memcpy(&gftParamVer1 + off, data, n)\<close>.\<close>

definition ft_copy_in :: "nat \<Rightarrow> nat \<Rightarrow> u8 list \<Rightarrow> u8 list \<Rightarrow> u8 list option" where
  "ft_copy_in off n data g = (if sizeof_VER1 < off + n \<or> length data < n then None else Some (copy_into g off data n))"

definition ft_member :: "ft_cmd \<Rightarrow> u8 list \<Rightarrow> nat \<Rightarrow> u8 list \<Rightarrow> u8 list option" where
  "ft_member opnum data len g =
     ft_copy_in (ft_off opnum)
       (case opnum of CMD_WIFI_MAC \<Rightarrow> len | CMD_BT_MAC \<Rightarrow> len | CMD_TX_ADC_CAL \<Rightarrow> len | CMD_TX_GAIN \<Rightarrow> (if 84 \<le> len then 84 else len) | _ \<Rightarrow> 4)
       data g"

definition ft_seal :: "(u8 list \<Rightarrow> u32) \<Rightarrow> u8 list \<Rightarrow> u8 list" where
  "ft_seal crc g =
     (let g = copy_into g 132 (le32 (crc (take (unat (ext_param_len g)) (drop 136 g)))) 4;
          g = copy_into g 0 (le32 SIGNATURE_WORD) 4
      in copy_into g 4 (le32 (crc (take (sizeof_FT_PARAM_ST - 8) (drop 8 g)))) 4)"

definition tls_ft_param_set ::
    "'c flash_hw \<Rightarrow> (u8 list \<Rightarrow> u32) \<Rightarrow> (nat \<Rightarrow> bool) \<Rightarrow> ft_cmd \<Rightarrow> u8 list option \<Rightarrow> nat \<Rightarrow> 'c ft \<Rightarrow> (int \<times> 'c ft) option" where
  "tls_ft_param_set hw crc alloc opnum data len s =
     (case data of
        None \<Rightarrow> Some (- 1, s)
      | Some data \<Rightarrow>
          if len = 0 \<or> \<not> alloc 0 then Some (- 1, s)
          else do {
            (ok, s) \<leftarrow> ft_backup hw crc (alloc 1) s;
            if \<not> ok then Some (- 1, s)
            else let s = s\<lparr>gftParam := ft_extend (gftParam s)\<rparr>
                 in if opnum = CMD_ALL then Some (- 1, s)
                    else do {
                      g \<leftarrow> ft_member opnum data len (gftParam s);
                      (ok, s) \<leftarrow> ft_write_copy hw crc (alloc 2) FT_PARAM_RUNTIME_ADDR (ft_unlock hw (s\<lparr>gftParam := ft_seal crc g\<rparr>));
                      if \<not> ok then Some (- 1, s)
                      else do {
                        (ok, s) \<leftarrow> ft_write_copy hw crc (alloc 3) FT_MAGICNUM_ADDR s;
                        Some (if ok then 0 else - 1, s)
                      }
                    }
          })"

section \<open>Functions for single members\<close>

definition tls_get_mac_addr :: "'c flash_hw \<Rightarrow> u8 list \<Rightarrow> 'c ft \<Rightarrow> (int \<times> u8 list \<times> 'c ft) option" where
  "tls_get_mac_addr hw data s = tls_ft_param_get hw True CMD_WIFI_MAC data 6 s"

definition tls_set_mac_addr :: "'c flash_hw \<Rightarrow> (u8 list \<Rightarrow> u32) \<Rightarrow> (nat \<Rightarrow> bool) \<Rightarrow> u8 list option \<Rightarrow> 'c ft \<Rightarrow> (int \<times> 'c ft) option" where
  "tls_set_mac_addr hw crc alloc data s = tls_ft_param_set hw crc alloc CMD_WIFI_MAC data 6 s"

definition tls_get_bt_mac_addr :: "'c flash_hw \<Rightarrow> u8 list \<Rightarrow> 'c ft \<Rightarrow> (int \<times> u8 list \<times> 'c ft) option" where
  "tls_get_bt_mac_addr hw data s = tls_ft_param_get hw True CMD_BT_MAC data 6 s"

definition tls_set_bt_mac_addr :: "'c flash_hw \<Rightarrow> (u8 list \<Rightarrow> u32) \<Rightarrow> (nat \<Rightarrow> bool) \<Rightarrow> u8 list option \<Rightarrow> 'c ft \<Rightarrow> (int \<times> 'c ft) option" where
  "tls_set_bt_mac_addr hw crc alloc data s = tls_ft_param_set hw crc alloc CMD_BT_MAC data 6 s"

definition tls_get_tx_lo :: "'c flash_hw \<Rightarrow> u8 list \<Rightarrow> 'c ft \<Rightarrow> (int \<times> u8 list \<times> 'c ft) option" where
  "tls_get_tx_lo hw data s = tls_ft_param_get hw True CMD_TX_DC data 4 s"

definition tls_set_tx_lo :: "'c flash_hw \<Rightarrow> (u8 list \<Rightarrow> u32) \<Rightarrow> (nat \<Rightarrow> bool) \<Rightarrow> u8 list option \<Rightarrow> 'c ft \<Rightarrow> (int \<times> 'c ft) option" where
  "tls_set_tx_lo hw crc alloc data s = tls_ft_param_set hw crc alloc CMD_TX_DC data 4 s"

definition tls_get_tx_iq_gain :: "'c flash_hw \<Rightarrow> u8 list \<Rightarrow> 'c ft \<Rightarrow> (int \<times> u8 list \<times> 'c ft) option" where
  "tls_get_tx_iq_gain hw data s = tls_ft_param_get hw True CMD_TX_IQ_GAIN data 4 s"

definition tls_set_tx_iq_gain :: "'c flash_hw \<Rightarrow> (u8 list \<Rightarrow> u32) \<Rightarrow> (nat \<Rightarrow> bool) \<Rightarrow> u8 list option \<Rightarrow> 'c ft \<Rightarrow> (int \<times> 'c ft) option" where
  "tls_set_tx_iq_gain hw crc alloc data s = tls_ft_param_set hw crc alloc CMD_TX_IQ_GAIN data 4 s"

definition tls_get_rx_iq_gain :: "'c flash_hw \<Rightarrow> u8 list \<Rightarrow> 'c ft \<Rightarrow> (int \<times> u8 list \<times> 'c ft) option" where
  "tls_get_rx_iq_gain hw data s = tls_ft_param_get hw True CMD_RX_IQ_GAIN data 4 s"

definition tls_set_rx_iq_gain :: "'c flash_hw \<Rightarrow> (u8 list \<Rightarrow> u32) \<Rightarrow> (nat \<Rightarrow> bool) \<Rightarrow> u8 list option \<Rightarrow> 'c ft \<Rightarrow> (int \<times> 'c ft) option" where
  "tls_set_rx_iq_gain hw crc alloc data s = tls_ft_param_set hw crc alloc CMD_RX_IQ_GAIN data 4 s"

definition tls_get_tx_iq_phase :: "'c flash_hw \<Rightarrow> u8 list \<Rightarrow> 'c ft \<Rightarrow> (int \<times> u8 list \<times> 'c ft) option" where
  "tls_get_tx_iq_phase hw data s = tls_ft_param_get hw True CMD_TX_IQ_PHASE data 4 s"

definition tls_set_tx_iq_phase :: "'c flash_hw \<Rightarrow> (u8 list \<Rightarrow> u32) \<Rightarrow> (nat \<Rightarrow> bool) \<Rightarrow> u8 list option \<Rightarrow> 'c ft \<Rightarrow> (int \<times> 'c ft) option" where
  "tls_set_tx_iq_phase hw crc alloc data s = tls_ft_param_set hw crc alloc CMD_TX_IQ_PHASE data 4 s"

definition tls_get_rx_iq_phase :: "'c flash_hw \<Rightarrow> u8 list \<Rightarrow> 'c ft \<Rightarrow> (int \<times> u8 list \<times> 'c ft) option" where
  "tls_get_rx_iq_phase hw data s = tls_ft_param_get hw True CMD_RX_IQ_PHASE data 4 s"

definition tls_set_rx_iq_phase :: "'c flash_hw \<Rightarrow> (u8 list \<Rightarrow> u32) \<Rightarrow> (nat \<Rightarrow> bool) \<Rightarrow> u8 list option \<Rightarrow> 'c ft \<Rightarrow> (int \<times> 'c ft) option" where
  "tls_set_rx_iq_phase hw crc alloc data s = tls_ft_param_set hw crc alloc CMD_RX_IQ_PHASE data 4 s"

definition tls_get_tx_gain :: "'c flash_hw \<Rightarrow> u8 list \<Rightarrow> 'c ft \<Rightarrow> (int \<times> u8 list \<times> 'c ft) option" where
  "tls_get_tx_gain hw data s = tls_ft_param_get hw True CMD_TX_GAIN data 84 s"

definition tls_set_tx_gain :: "'c flash_hw \<Rightarrow> (u8 list \<Rightarrow> u32) \<Rightarrow> (nat \<Rightarrow> bool) \<Rightarrow> u8 list option \<Rightarrow> 'c ft \<Rightarrow> (int \<times> 'c ft) option" where
  "tls_set_tx_gain hw crc alloc data s = tls_ft_param_set hw crc alloc CMD_TX_GAIN data 84 s"

definition tls_get_adc_cal_param :: "'c flash_hw \<Rightarrow> u8 list \<Rightarrow> 'c ft \<Rightarrow> (int \<times> u8 list \<times> 'c ft) option" where
  "tls_get_adc_cal_param hw data s = tls_ft_param_get hw True CMD_TX_ADC_CAL data 36 s"

definition tls_set_adc_cal_param :: "'c flash_hw \<Rightarrow> (u8 list \<Rightarrow> u32) \<Rightarrow> (nat \<Rightarrow> bool) \<Rightarrow> u8 list option \<Rightarrow> 'c ft \<Rightarrow> (int \<times> 'c ft) option" where
  "tls_set_adc_cal_param hw crc alloc data s = tls_ft_param_set hw crc alloc CMD_TX_ADC_CAL data 36 s"

text \<open>A frequency error outside 200 kHz is replaced by the bound; the value is a signed 32 bit integer.\<close>

definition ft_clamp :: "u8 list \<Rightarrow> u8 list" where
  "ft_clamp freqerr =
     (let value = sint (un32 freqerr)
      in if 200000 < value then copy_into freqerr 0 (le32 200000) 4
         else if value < - 200000 then copy_into freqerr 0 (le32 (- 200000)) 4 else freqerr)"

definition tls_freq_err_op ::
    "'c flash_hw \<Rightarrow> (u8 list \<Rightarrow> u32) \<Rightarrow> (nat \<Rightarrow> bool) \<Rightarrow> u8 list \<Rightarrow> u8 \<Rightarrow> 'c ft \<Rightarrow> (int \<times> u8 list \<times> 'c ft) option" where
  "tls_freq_err_op hw crc alloc freqerr flag s =
     (if flag \<noteq> 0
      then do {
        (ret, s) \<leftarrow> tls_ft_param_set hw crc alloc CMD_FREQ_ERR (Some freqerr) 4 s;
        Some (if ret = 0 then 0 else 1, freqerr, s)
      }
      else do {
        (ret, freqerr, s) \<leftarrow> tls_ft_param_get hw (alloc 0) CMD_FREQ_ERR freqerr 4 s;
        Some (if ret = 0 then (0, ft_clamp freqerr, s) else (1, freqerr, s))
      })"

definition tls_rf_cal_finish_op ::
    "'c flash_hw \<Rightarrow> (u8 list \<Rightarrow> u32) \<Rightarrow> (nat \<Rightarrow> bool) \<Rightarrow> u8 list \<Rightarrow> u8 \<Rightarrow> 'c ft \<Rightarrow> (int \<times> u8 list \<times> 'c ft) option" where
  "tls_rf_cal_finish_op hw crc alloc calflag flag s =
     (if flag \<noteq> 0
      then do {
        (ret, s) \<leftarrow> tls_ft_param_set hw crc alloc CMD_RF_CAL_FLAG (Some calflag) 4 s;
        Some (if ret = 0 then 0 else 1, calflag, s)
      }
      else do {
        (ret, calflag, s) \<leftarrow> tls_ft_param_get hw (alloc 0) CMD_RF_CAL_FLAG calflag 4 s;
        Some (if ret = 0 then 0 else 1, calflag, s)
      })"

end
