(* ===== verification/Efuse_Store.thy ===== *)
theory Efuse_Store
  imports Efuse
begin

text \<open>
  The two sectors of the factory data on a chip with the documented behaviour: reading, unlocking and writing them.
\<close>

unbundle bit_operations_syntax

section \<open>A chip that keeps its identification\<close>

text \<open>The contract of the chip, with the documented fact that no command changes its identification.\<close>

locale spi_nor_id = spi_nor_sr hw mem wel prot cap rid sr1 sr2
  for hw :: "'c flash_hw" and mem wel prot cap rid sr1 sr2 +
  assumes rid_const: "rid (fst (hw w a b c)) = rid c"

text \<open>The identification as one more cell behind the address range: what is proved of the cells holds of it too.\<close>

definition mem_id :: "('c \<Rightarrow> nat \<Rightarrow> u8) \<Rightarrow> ('c \<Rightarrow> u8) \<Rightarrow> 'c \<Rightarrow> nat \<Rightarrow> u8" where
  "mem_id mem rid c x = (if x < 0x2000000 then mem c x else rid c)"

lemma mem_id_eqI: "mem c = mem d \<Longrightarrow> rid c = rid d \<Longrightarrow> mem_id mem rid c = mem_id mem rid d"
  by (rule ext) (simp add: mem_id_def)

lemma mem_id_erase: "a < 0x2000000 \<Longrightarrow> mem d = mem_erase (mem c) (a div 4096) \<Longrightarrow> rid d = rid c \<Longrightarrow>
    mem_id mem rid d = mem_erase (mem_id mem rid c) (a div 4096)"
proof (rule ext)
  fix x assume a: "a < 0x2000000" "mem d = mem_erase (mem c) (a div 4096)" "rid d = rid c"
  have "x < 0x2000000" if "x div 4096 = a div 4096" 
    using that a(1) div_less_iff_less_mult [of 4096 x 8192] div_less_iff_less_mult [of 4096 a 8192] by simp
  then show "mem_id mem rid d x = mem_erase (mem_id mem rid c) (a div 4096) x" using a(2,3) by (auto simp: mem_id_def mem_erase_def)
qed

lemma mem_id_and: "a + length bs \<le> 0x2000000 \<Longrightarrow> mem d = mem_and (mem c) a bs \<Longrightarrow> rid d = rid c \<Longrightarrow>
    mem_id mem rid d = mem_and (mem_id mem rid c) a bs"
  by (rule ext) (auto simp: mem_id_def mem_and_def)

sublocale spi_nor_id \<subseteq> ids: spi_nor_sr hw "mem_id mem rid" wel prot cap rid sr1 sr2
proof
  fix a b c w n i x
  show "mem_id mem rid (fst (hw 6 a b c)) = mem_id mem rid c" by (rule mem_id_eqI) (simp_all add: enable_mem rid_const)
  show "wel c \<Longrightarrow> a < cap \<Longrightarrow> \<not> prot c a \<Longrightarrow> mem_id mem rid (fst (hw 0x80000820 a b c)) = mem_erase (mem_id mem rid c) (a div 4096)"
    by (rule mem_id_erase) (use cap_bound in \<open>simp_all add: erase_mem rid_const\<close>)
  show "wel c \<Longrightarrow> 0 < n \<Longrightarrow> n \<le> 256 \<Longrightarrow> a mod 256 = 0 \<Longrightarrow> a + n \<le> cap \<Longrightarrow> \<not> prot c a \<Longrightarrow>
      mem_id mem rid (fst (hw (0x80009002 OR push_bit 16 (of_nat n - 1)) a b c)) = mem_and (mem_id mem rid c) a (map b [0..<n])"
    by (rule mem_id_and) (use cap_bound in \<open>simp_all add: program_mem rid_const\<close>)
  show "w \<in> set read_cmds \<Longrightarrow> 0 < n \<Longrightarrow> n \<le> 1024 \<Longrightarrow> a + n \<le> cap \<Longrightarrow> i < n \<Longrightarrow>
      snd (hw (w OR push_bit 16 (of_nat n - 1)) a b c) i = mem_id mem rid c (a + i)"
    using cap_bound by (simp add: read_buf mem_id_def)
  show "w \<in> set read_cmds \<Longrightarrow> 0 < n \<Longrightarrow> n \<le> 1024 \<Longrightarrow>
      mem_id mem rid (fst (hw (w OR push_bit 16 (of_nat n - 1)) a b c)) = mem_id mem rid c"
    by (rule mem_id_eqI) (simp_all add: read_mem rid_const)
  show "wel c \<Longrightarrow> mem_id mem rid (fst (hw 0x1A001 a b c)) = mem_id mem rid c"
    "wel c \<Longrightarrow> mem_id mem rid (fst (hw 0xA001 a b c)) = mem_id mem rid c"
    "wel c \<Longrightarrow> mem_id mem rid (fst (hw 0xA031 a b c)) = mem_id mem rid c"
    by (rule mem_id_eqI; simp add: write_both write_sr1 write_sr2 rid_const)+
qed (simp_all add: enable_wel enable_prot enable_buf erase_prot program_prot read_prot cap_sectors cap_bound rid_read rid_chip sr1_read
    sr1_chip sr2_read sr2_chip enable_sr write_both write_sr1 write_sr2 prot_none prot_low)

interpretation nor: spi_nor_id nor_hw cells latch nor_prot "0x2000000" "\<lambda>c. ucast (jedec c)" reg1 reg2
  by unfold_locales (simp add: nor_hw_def Let_def)

section \<open>The two sectors\<close>

definition ft_sectors :: "nat \<Rightarrow> ('c \<Rightarrow> u8) \<Rightarrow> 'c fls \<Rightarrow> bool" where
  "ft_sectors cap rid f \<longleftrightarrow> rid (chip f) \<in> set sr_chips \<and>
     (case inside_fls f of None \<Rightarrow> False | Some d \<Rightarrow> density d \<le> cap \<and> 0x2000 \<le> density d)"

context spi_nor_id
begin

lemma ft_sectors_drv: "ft_sectors cap rid f \<Longrightarrow> drv g = drv f \<Longrightarrow> rid (chip g) = rid (chip f) \<Longrightarrow> ft_sectors cap rid g"
  by (simp add: ft_sectors_def drv_def)

lemma mem_idD: "mem_id mem rid c = mem_id mem rid d \<Longrightarrow> rid c = rid d"
  by (drule fun_cong [of _ _ "0x2000000"]) (simp add: mem_id_def)

text \<open>The bytes of the copy at an offset.\<close>

lemma ft_read:
  assumes s: "ft_sectors cap rid f" and a: "a = 0x8000000 + off" "off + n \<le> 0x2000" "0 < n" and k: "off mod 256 = 0 \<and> n mod 4 = 0 \<or> ok"
  shows "\<exists>f'. tls_fls_read hw True ok a False n f = (0, mem_read (mem (chip f)) off n, f') \<and> ft_sectors cap rid f' \<and>
    mem (chip f') = mem (chip f) \<and> prot (chip f') = prot (chip f)"
proof -
  from s obtain d where d: "inside_fls f = Some d" "density d \<le> cap" "0x2000 \<le> density d" by (auto simp: ft_sectors_def split: option.splits)
  have m: "a mod 0x8000000 = off" "a mod 256 = off mod 256" using a by (simp_all add: mod_add_eq [symmetric])
  from ids.read_spec [OF d(1,2), of n a ok True] read_spec [OF d(1,2), of n a ok True] obtain f' where
    "tls_fls_read hw True ok a False n f = (0, mem_read (mem (chip f)) off n, f')" "kept (mem_id mem rid) prot f f'" "kept mem prot f f'"
    using a d(3) k m by auto
  moreover from this(2) have "rid (chip f') = rid (chip f)" by (auto simp: kept_def dest: mem_idD)
  ultimately show ?thesis using ft_sectors_drv [OF s, of f'] by (auto simp: kept_def)
qed

lemma ft_unlocks:
  assumes s: "ft_sectors cap rid f"
  shows "\<exists>f'. tls_flash_unlock hw f = (0, f') \<and> ft_sectors cap rid f' \<and> mem (chip f') = mem (chip f) \<and> (\<forall>x. \<not> prot (chip f') x)"
proof -
  from s obtain d where d: "inside_fls f = Some d" and r: "rid (chip f) \<in> set sr_chips" by (auto simp: ft_sectors_def split: option.splits)
  from ids.lock_unlock_spec(1) [OF d r] lock_unlock_spec(1) [OF d r] obtain f' where
    "tls_flash_unlock hw f = (0, f')" "\<forall>x. \<not> prot (chip f') x" "mem_id mem rid (chip f') = mem_id mem rid (chip f)"
    "mem (chip f') = mem (chip f)" "drv f' = drv f" by auto
  then show ?thesis using ft_sectors_drv [OF s, of f'] mem_idD by blast
qed

lemma ft_writes:
  assumes s: "ft_sectors cap rid f" and a: "a = 0x8000000 + off" "off = 0 \<or> off = 0x1000" and p: "\<forall>x. \<not> prot (chip f) x" and l: "length g = 220"
  shows "\<exists>f'. tls_fls_write hw True a (Some g) 220 f = Some (0, f') \<and> ft_sectors cap rid f' \<and>
    mem (chip f') = mem_write (mem (chip f)) off g \<and> (\<forall>x. \<not> prot (chip f') x)"
proof -
  from s obtain d where d: "inside_fls f = Some d" "density d \<le> cap" "0x2000 \<le> density d" by (auto simp: ft_sectors_def split: option.splits)
  have m: "a mod 0x8000000 = off" using a by auto
  have rp: "range_unprotected prot f (a mod 0x8000000) 220" using p by (simp add: range_unprotected_def)
  have dn: "a mod 0x8000000 + 220 \<le> density d" using a d(3) m by auto
  from ids.write_spec [OF d(1,2) _ _ dn rp, of g] write_spec [OF d(1,2) _ _ dn rp, of g] obtain f' where
    f': "tls_fls_write hw True a (Some g) 220 f = Some (0, f')" "mem_id mem rid (chip f') = mem_write (mem_id mem rid (chip f)) off g"
    "mem (chip f') = mem_write (mem (chip f)) off g" "prot (chip f') = prot (chip f)" "drv f' = drv f" using l m by auto
  have "mem_id mem rid (chip f') 0x2000000 = mem_id mem rid (chip f) 0x2000000" using f'(2) a(2) l by (auto simp: mem_write_def)
  then have "rid (chip f') = rid (chip f)" by (simp add: mem_id_def)
  then show ?thesis using f' ft_sectors_drv [OF s, of f'] p by auto
qed

end

end
