(* ===== verification/Efuse_Data.thy ===== *)
theory Efuse_Data
  imports Efuse_Store
begin

text \<open>
  The bytes of the factory data: what sealing, extending and changing a member do to the other members.
\<close>

unbundle bit_operations_syntax

section \<open>Slices\<close>

definition ft_slice :: "nat \<Rightarrow> nat \<Rightarrow> u8 list \<Rightarrow> u8 list" where
  "ft_slice a n g = take n (drop a g)"

lemma un_take: "un32 (take 4 xs) = un32 xs" "un16 (take 2 xs) = un16 xs"
  by (simp_all add: un32_def un16_def)

lemma slice_fields:
  "magic_no g = un32 (ft_slice 0 4 g)" "version_no g = un16 (ft_slice 14 2 g)" "ext_param_len g = un16 (ft_slice 22 2 g)"
  "un32 (drop a g) = un32 (ft_slice a 4 g)"
  by (simp_all add: magic_no_def version_no_def ext_param_len_def ft_slice_def un_take)

lemma length_slice: "a + n \<le> length g \<Longrightarrow> length (ft_slice a n g) = n"
  by (simp add: ft_slice_def)

lemma slice_copy_same:
  "a + n \<le> length g \<Longrightarrow> length bs = n \<Longrightarrow> ft_slice a n (copy_into g a bs n) = bs"
  using copy_into_same [of a n g bs] by (simp add: ft_slice_def)

lemma slice_copy_other:
  "a + n \<le> length g \<Longrightarrow> n \<le> length bs \<Longrightarrow> b + m \<le> a \<or> a + n \<le> b \<Longrightarrow> ft_slice b m (copy_into g a bs n) = ft_slice b m g"
  using copy_into_other [of a n g bs b m] by (simp add: ft_slice_def)

lemma slice_slice: "b + m \<le> n \<Longrightarrow> ft_slice b m (ft_slice a n g) = ft_slice (a + b) m g"
  by (simp add: ft_slice_def drop_take add.commute)

text \<open>Members inside an unchanged slice are unchanged.\<close>

lemma slice_mono: "ft_slice a n g = ft_slice a n h \<Longrightarrow> a \<le> b \<Longrightarrow> b + m \<le> a + n \<Longrightarrow> ft_slice b m g = ft_slice b m h"
  using slice_slice [of "b - a" m n a g] slice_slice [of "b - a" m n a h] by simp

section \<open>Sealing\<close>

lemma length_seal: "length g = 220 \<Longrightarrow> length (ft_seal crc g) = 220"
  by (simp add: ft_seal_def Let_def)

lemma seal_slices:
  assumes l: "length g = 220"
  shows "ft_slice 8 124 (ft_seal crc g) = ft_slice 8 124 g" "ft_slice 136 84 (ft_seal crc g) = ft_slice 136 84 g"
    "ft_slice 0 4 (ft_seal crc g) = le32 SIGNATURE_WORD"
    "ft_slice 4 4 (ft_seal crc g) = le32 (crc (ft_slice 8 124 g))"
    "ft_slice 132 4 (ft_seal crc g) = le32 (crc (ft_slice 136 (unat (ext_param_len g)) g))"
proof -
  let ?g1 = "copy_into g 132 (le32 (crc (take (unat (ext_param_len g)) (drop 136 g)))) 4"
  let ?g2 = "copy_into ?g1 0 (le32 SIGNATURE_WORD) 4"
  have l1: "length ?g1 = 220" "length ?g2 = 220" using l by simp_all
  have b: "ft_slice 8 124 ?g2 = ft_slice 8 124 g" using l l1 by (simp add: slice_copy_other)
  have s: "ft_seal crc g = copy_into ?g2 4 (le32 (crc (ft_slice 8 124 g))) 4"
    using b by (simp add: ft_seal_def Let_def ft_slice_def)
  show "ft_slice 8 124 (ft_seal crc g) = ft_slice 8 124 g" unfolding s using l1 b by (simp add: slice_copy_other)
  show "ft_slice 136 84 (ft_seal crc g) = ft_slice 136 84 g" unfolding s using l l1 by (simp add: slice_copy_other)
  show "ft_slice 0 4 (ft_seal crc g) = le32 SIGNATURE_WORD" unfolding s using l1 by (simp add: slice_copy_other slice_copy_same)
  show "ft_slice 4 4 (ft_seal crc g) = le32 (crc (ft_slice 8 124 g))" unfolding s using l1 by (simp add: slice_copy_same)
  show "ft_slice 132 4 (ft_seal crc g) = le32 (crc (ft_slice 136 (unat (ext_param_len g)) g))"
    unfolding s using l l1 by (simp add: slice_copy_other slice_copy_same) (simp add: ft_slice_def)
qed

lemma un32_le32_0: "un32 (le32 w) = w"
  using un32_le32 [of w "[]"] by simp

lemma un16_le16_0: "un16 (le16 w) = w"
  using un16_le16 [of w "[]"] by simp

lemma ext1_valid_slice: "ft_slice 8 124 g = ft_slice 8 124 h \<Longrightarrow> ft_ext1_valid g = ft_ext1_valid h \<and> ext_param_len g = ext_param_len h"
  using slice_mono [of 8 124 g h 14 2] slice_mono [of 8 124 g h 22 2] by (simp add: ft_ext1_valid_def slice_fields)

lemma check_seal:
  assumes l: "length g = 220" and v: "ft_ext1_valid g"
  shows "ft_check crc (ft_seal crc g) = (1, ft_seal crc g)"
proof -
  note s = seal_slices [OF l, of crc]
  have v': "ft_ext1_valid (ft_seal crc g)" "ext_param_len (ft_seal crc g) = ext_param_len g"
    using ext1_valid_slice [OF s(1)] v by simp_all
  have "unat (ext_param_len g) \<le> 84" using v by (simp add: ft_ext1_valid_def)
  then have "ft_slice 136 (unat (ext_param_len g)) (ft_seal crc g) = ft_slice 136 (unat (ext_param_len g)) g"
    using slice_mono [OF s(2), of 136 "unat (ext_param_len g)"] by simp
  moreover have "take 124 (drop 8 (ft_seal crc g)) = ft_slice 8 124 g" using s(1) by (simp add: ft_slice_def)
  ultimately show ?thesis using v' s(3-5)
    by (simp add: ft_check_def slice_fields un32_le32_0) (simp add: ft_slice_def)
qed

section \<open>Extending and changing a member\<close>

lemma extend_slices:
  assumes l: "length g = 220"
  shows "length (ft_extend g) = 220" "ft_ext1_valid (ft_extend g)"
    "ft_slice 8 6 (ft_extend g) = ft_slice 8 6 g" "ft_slice 16 6 (ft_extend g) = ft_slice 16 6 g" "ft_slice 24 108 (ft_extend g) = ft_slice 24 108 g"
proof -
  let ?g1 = "copy_into g 14 (le16 1) 2"
  let ?g2 = "copy_into ?g1 22 (le16 52) 2"
  let ?g3 = "copy_into ?g2 136 (replicate 52 0xFF) 52"
  have l1: "length ?g1 = 220" "length ?g2 = 220" "length ?g3 = 220" using l by simp_all
  then show "length (ft_extend g) = 220" using l by (simp add: ft_extend_def)
  have "ft_slice 14 2 ?g3 = le16 1" "ft_slice 22 2 ?g3 = le16 52"
    using l l1 by (simp_all add: slice_copy_other slice_copy_same)
  then have "ft_ext1_valid ?g3" by (simp add: ft_ext1_valid_def slice_fields un16_le16_0 word_less_nat_alt)
  then show "ft_ext1_valid (ft_extend g)" by (simp add: ft_extend_def)
  show "ft_slice 8 6 (ft_extend g) = ft_slice 8 6 g" "ft_slice 16 6 (ft_extend g) = ft_slice 16 6 g" "ft_slice 24 108 (ft_extend g) = ft_slice 24 108 g"
    using l l1 by (simp_all add: ft_extend_def slice_copy_other)
qed

text \<open>The sizes of the members.\<close>

definition ft_size :: "ft_cmd \<Rightarrow> nat" where
  "ft_size op = (case op of CMD_WIFI_MAC \<Rightarrow> 6 | CMD_BT_MAC \<Rightarrow> 6 | CMD_TX_GAIN \<Rightarrow> 84 | CMD_TX_ADC_CAL \<Rightarrow> 36 | CMD_ALL \<Rightarrow> 0 | _ \<Rightarrow> 4)"

definition ft_field :: "ft_cmd \<Rightarrow> u8 list \<Rightarrow> u8 list" where
  "ft_field op g = ft_slice (ft_off op) (ft_size op) g"

definition ft_in_ext :: "ft_cmd \<Rightarrow> bool" where
  "ft_in_ext op \<longleftrightarrow> op = CMD_FREQ_ERR \<or> op = CMD_RF_CAL_FLAG \<or> op = CMD_TX_ADC_CAL"

lemma member_fits:
  assumes "op \<noteq> CMD_ALL" "length data = ft_size op"
  shows "ft_member op data (ft_size op) g = Some (copy_into g (ft_off op) data (ft_size op))"
  using assms by (cases op) (simp_all add: ft_member_def ft_copy_in_def ft_size_def ft_off_def)

lemma field_places:
  assumes "op \<noteq> CMD_ALL"
  shows "8 \<le> ft_off op" "ft_off op + ft_size op \<le> 220" "ft_off op + ft_size op \<le> 132 \<or> 136 \<le> ft_off op"
    "ft_off op + ft_size op \<le> 14 \<or> 16 \<le> ft_off op" "ft_off op + ft_size op \<le> 22 \<or> 24 \<le> ft_off op"
    "ft_in_ext op \<longleftrightarrow> 136 \<le> ft_off op"
  using assms by (cases op; simp add: ft_size_def ft_off_def ft_in_ext_def)+

lemma fields_disjoint:
  assumes "op \<noteq> CMD_ALL" "op' \<noteq> CMD_ALL" "op \<noteq> op'"
  shows "ft_off op' + ft_size op' \<le> ft_off op \<or> ft_off op + ft_size op \<le> ft_off op'"
  using assms by (cases op; cases op'; simp add: ft_size_def ft_off_def)

text \<open>The new contents after a member has been set.\<close>

definition ft_updated :: "(u8 list \<Rightarrow> u32) \<Rightarrow> ft_cmd \<Rightarrow> u8 list \<Rightarrow> u8 list \<Rightarrow> u8 list" where
  "ft_updated crc op data g = ft_seal crc (copy_into (ft_extend g) (ft_off op) data (ft_size op))"

lemma seal_field:
  assumes "length g = 220" "op \<noteq> CMD_ALL"
  shows "ft_field op (ft_seal crc g) = ft_field op g"
proof (cases "ft_in_ext op")
  case True
  then show ?thesis unfolding ft_field_def
    using slice_mono [OF seal_slices(2) [OF assms(1)], of "ft_off op" "ft_size op"] field_places [OF assms(2)] by simp
next
  case False
  then show ?thesis unfolding ft_field_def
    using slice_mono [OF seal_slices(1) [OF assms(1)], of "ft_off op" "ft_size op"] field_places [OF assms(2)] by simp
qed

lemma extend_field:
  assumes "length g = 220" "op \<noteq> CMD_ALL" "ft_in_ext op \<Longrightarrow> ft_ext1_valid g"
  shows "ft_field op (ft_extend g) = ft_field op g"
proof (cases "ft_ext1_valid g")
  case True
  then show ?thesis by (simp add: ft_extend_def)
next
  case False
  then have "\<not> ft_in_ext op" using assms(3) by blast
  then show ?thesis using assms(2) extend_slices(3,4) [OF assms(1)] slice_mono [OF extend_slices(5) [OF assms(1)], of "ft_off op" "ft_size op"]
    by (cases op) (simp_all add: ft_field_def ft_in_ext_def ft_off_def ft_size_def)
qed

lemma updated_spec:
  assumes l: "length g = 220" and op: "op \<noteq> CMD_ALL" and d: "length data = ft_size op"
  shows "length (ft_updated crc op data g) = 220" "ft_check crc (ft_updated crc op data g) = (1, ft_updated crc op data g)"
    "ft_field op (ft_updated crc op data g) = data" "ft_ext1_valid (ft_updated crc op data g)"
    "\<And>op'. op' \<noteq> CMD_ALL \<Longrightarrow> op' \<noteq> op \<Longrightarrow> (ft_in_ext op' \<Longrightarrow> ft_ext1_valid g) \<Longrightarrow>
       ft_field op' (ft_updated crc op data g) = ft_field op' g"
proof -
  let ?e = "ft_extend g"
  let ?c = "copy_into ?e (ft_off op) data (ft_size op)"
  note e = extend_slices [OF l] and pl = field_places [OF op]
  have lc: "length ?c = 220" using e(1) pl(2) d by simp
  have "ft_slice 14 2 ?c = ft_slice 14 2 ?e" "ft_slice 22 2 ?c = ft_slice 22 2 ?e"
    by (rule slice_copy_other; use e(1) pl d in auto)+
  then have v: "ft_ext1_valid ?c" using e(2) by (simp add: ft_ext1_valid_def slice_fields)
  show "length (ft_updated crc op data g) = 220" using length_seal [OF lc] by (simp add: ft_updated_def)
  show "ft_check crc (ft_updated crc op data g) = (1, ft_updated crc op data g)"
    using check_seal [OF lc v] by (simp add: ft_updated_def)
  show "ft_ext1_valid (ft_updated crc op data g)"
    using ext1_valid_slice [OF seal_slices(1) [OF lc, of crc]] v by (simp add: ft_updated_def)
  show "ft_field op (ft_updated crc op data g) = data"
    unfolding ft_updated_def seal_field [OF lc op] using slice_copy_same [of "ft_off op" "ft_size op" ?e data] e(1) pl(2) d by (simp add: ft_field_def)
  fix op' assume o: "op' \<noteq> CMD_ALL" "op' \<noteq> op" "ft_in_ext op' \<Longrightarrow> ft_ext1_valid g"
  have "ft_field op' ?c = ft_field op' ?e"
    unfolding ft_field_def by (rule slice_copy_other) (use e(1) pl(2) d fields_disjoint [OF op o(1)] o(2) in auto)
  then show "ft_field op' (ft_updated crc op data g) = ft_field op' g"
    unfolding ft_updated_def seal_field [OF lc o(1)] using extend_field [OF l o(1,3)] by simp
qed

end
