(* ===== verification/Efuse_Persist.thy ===== *)
theory Efuse_Persist
  imports Efuse_Data
begin

text \<open>
  Loading and storing the factory data on a chip with the documented behaviour.
\<close>

unbundle bit_operations_syntax

section \<open>Copies\<close>

text \<open>The copy in the second sector (\<open>True\<close>, the runtime data) or in the first.\<close>

definition ft_base :: "bool \<Rightarrow> nat" where
  "ft_base b = (if b then 0x1000 else 0)"

definition ft_copy :: "('c \<Rightarrow> nat \<Rightarrow> u8) \<Rightarrow> 'c fls \<Rightarrow> bool \<Rightarrow> u8 list" where
  "ft_copy mem f b = mem_read (mem (chip f)) (ft_base b) 220"

definition ft_intact :: "(u8 list \<Rightarrow> u32) \<Rightarrow> u8 list \<Rightarrow> bool" where
  "ft_intact crc g \<longleftrightarrow> length g = 220 \<and> ft_check crc g = (1, g)"

definition ft_ready :: "nat \<Rightarrow> ('c \<Rightarrow> u8) \<Rightarrow> ('c \<Rightarrow> nat \<Rightarrow> u8) \<Rightarrow> (u8 list \<Rightarrow> u32) \<Rightarrow> 'c ft \<Rightarrow> bool" where
  "ft_ready cap rid mem crc s \<longleftrightarrow> ft_sectors cap rid (fflash s) \<and> length (gftParam s) = 220 \<and>
     (fst (ft_check crc (ft_copy mem (fflash s) True)) = 0 \<or> ft_intact crc (gftParam s))"

text \<open>Both copies hold the current data.\<close>

definition ft_stored :: "nat \<Rightarrow> ('c \<Rightarrow> u8) \<Rightarrow> ('c \<Rightarrow> nat \<Rightarrow> u8) \<Rightarrow> (u8 list \<Rightarrow> u32) \<Rightarrow> 'c ft \<Rightarrow> bool" where
  "ft_stored cap rid mem crc s \<longleftrightarrow> ft_sectors cap rid (fflash s) \<and> ft_intact crc (gftParam s) \<and> (\<forall>b. ft_copy mem (fflash s) b = gftParam s)"

lemma stored_ready: "ft_stored cap rid mem crc s \<Longrightarrow> ft_ready cap rid mem crc s"
  by (simp add: ft_stored_def ft_ready_def ft_intact_def)

lemma length_copy [simp]: "length (ft_copy mem f b) = 220"
  by (simp add: ft_copy_def)

lemma length_blank [simp]: "length ft_blank = 220"
  by (simp add: ft_blank_def)

lemma copy_written:
  assumes "mem (chip f') = mem_write (mem (chip f)) (ft_base b) g" "length g = 220"
  shows "ft_copy mem f' b = g" "ft_copy mem f' (\<not> b) = ft_copy mem f (\<not> b)"
proof -
  show "ft_copy mem f' b = g" using mem_read_mem_write [of "mem (chip f)" "ft_base b" g] assms by (simp add: ft_copy_def)
  show "ft_copy mem f' (\<not> b) = ft_copy mem f (\<not> b)"
    using assms by (cases b) (simp_all add: ft_copy_def ft_base_def mem_read_mem_write_other)
qed

lemma base_cases: "ft_base b = 0 \<or> ft_base b = 0x1000" "ft_base b + 220 \<le> 0x2000"
  by (simp_all add: ft_base_def)

section \<open>Operations\<close>

context spi_nor_id
begin

lemma load_copy:
  assumes "ft_sectors cap rid f" "length pft = 220" "a = 0x8000000 + ft_base b"
  shows "\<exists>f'. ft_param_init hw crc a pft f = (fst (ft_check crc (ft_copy mem f b)), snd (ft_check crc (ft_copy mem f b)), f') \<and>
    ft_sectors cap rid f' \<and> mem (chip f') = mem (chip f) \<and> prot (chip f') = prot (chip f)"
proof -
  from ft_read [OF assms(1,3), of 220 True] obtain f' where
    "tls_fls_read hw True True a False 220 f = (0, ft_copy mem f b, f')" "ft_sectors cap rid f'" "mem (chip f') = mem (chip f)"
    "prot (chip f') = prot (chip f)"
    using base_cases(2) [of b] by (auto simp: ft_copy_def)
  then show ?thesis using assms(2) by (simp add: ft_param_init_def split: prod.split)
qed

lemma write_copy_any:
  assumes s: "ft_sectors cap rid (fflash s)" and np: "\<forall>x. \<not> prot (chip (fflash s)) x" and l: "length (gftParam s) = 220"
    and a: "a = 0x8000000 + ft_base b"
  shows "\<exists>f. ft_write_copy hw crc True a s =
      Some (fst (ft_check crc (gftParam s)) \<noteq> 0 \<and> snd (ft_check crc (gftParam s)) = gftParam s, s\<lparr>fflash := f\<rparr>) \<and> ft_sectors cap rid f \<and>
    ft_copy mem f b = gftParam s \<and> ft_copy mem f (\<not> b) = ft_copy mem (fflash s) (\<not> b) \<and> (\<forall>x. \<not> prot (chip f) x)"
proof -
  from ft_writes [OF s a base_cases(1) np l] obtain f1 where f1: "tls_fls_write hw True a (Some (gftParam s)) 220 (fflash s) = Some (0, f1)"
    "ft_sectors cap rid f1" "mem (chip f1) = mem_write (mem (chip (fflash s))) (ft_base b) (gftParam s)" "\<forall>x. \<not> prot (chip f1) x"
    by auto
  note c = copy_written [OF f1(3) l]
  from load_copy [OF f1(2) length_blank a, of crc] obtain f2 where
    f2: "ft_param_init hw crc a ft_blank f1 = (fst (ft_check crc (gftParam s)), snd (ft_check crc (gftParam s)), f2)"
    "ft_sectors cap rid f2" "mem (chip f2) = mem (chip f1)" "prot (chip f2) = prot (chip f1)"
    using c(1) by auto
  have "ft_copy mem f2 b' = ft_copy mem f1 b'" for b' using f2(3) by (simp add: ft_copy_def)
  then show ?thesis using f1 f2 c by (intro exI [of _ f2]) (simp add: ft_write_copy_def)
qed

lemma write_copy:
  assumes s: "ft_sectors cap rid (fflash s)" and np: "\<forall>x. \<not> prot (chip (fflash s)) x" and g: "ft_intact crc (gftParam s)"
    and a: "a = 0x8000000 + ft_base b"
  shows "\<exists>f. ft_write_copy hw crc True a s = Some (True, s\<lparr>fflash := f\<rparr>) \<and> ft_sectors cap rid f \<and>
    ft_copy mem f b = gftParam s \<and> ft_copy mem f (\<not> b) = ft_copy mem (fflash s) (\<not> b) \<and> (\<forall>x. \<not> prot (chip f) x)"
  using write_copy_any [OF s np _ a, of crc] g by (simp add: ft_intact_def)

lemma unlock_ft:
  assumes "ft_sectors cap rid (fflash s)"
  shows "\<exists>f. ft_unlock hw s = s\<lparr>fflash := f\<rparr> \<and> ft_sectors cap rid f \<and> mem (chip f) = mem (chip (fflash s)) \<and> (\<forall>x. \<not> prot (chip f) x)"
  using ft_unlocks [OF assms] by (auto simp: ft_unlock_def)

lemma backup_spec:
  assumes r: "ft_ready cap rid mem crc s"
  shows "\<exists>f. ft_backup hw crc True s = Some (True, s\<lparr>fflash := f\<rparr>) \<and> ft_sectors cap rid f \<and> ft_copy mem f True = ft_copy mem (fflash s) True \<and>
    (fst (ft_check crc (ft_copy mem (fflash s) True)) \<noteq> 0 \<longrightarrow> snd (ft_check crc (ft_copy mem f False)) = gftParam s \<and> fst (ft_check crc (ft_copy mem f False)) \<noteq> 0)"
proof -
  have s: "ft_sectors cap rid (fflash s)" using r by (simp add: ft_ready_def)
  from load_copy [OF s length_blank, of "0x8001000" True crc] obtain f1 where
    f1: "ft_param_init hw crc 0x8001000 ft_blank (fflash s) = (fst (ft_check crc (ft_copy mem (fflash s) True)), snd (ft_check crc (ft_copy mem (fflash s) True)), f1)"
    "ft_sectors cap rid f1" "mem (chip f1) = mem (chip (fflash s))" by (auto simp: ft_base_def)
  have c1: "ft_copy mem f1 b = ft_copy mem (fflash s) b" for b using f1(3) by (simp add: ft_copy_def)
  show ?thesis
  proof (cases "fst (ft_check crc (ft_copy mem (fflash s) True)) = 0")
    case True
    then show ?thesis using f1 c1 by (intro exI [of _ f1]) (simp add: ft_backup_def)
  next
    case False
    then have g: "ft_intact crc (gftParam s)" using r by (simp add: ft_ready_def)
    from load_copy [OF f1(2) length_blank, of "0x8000000" False crc] obtain f2 where
      f2: "ft_param_init hw crc 0x8000000 ft_blank f1 = (fst (ft_check crc (ft_copy mem f1 False)), snd (ft_check crc (ft_copy mem f1 False)), f2)"
      "ft_sectors cap rid f2" "mem (chip f2) = mem (chip f1)" by (auto simp: ft_base_def)
    have c2: "ft_copy mem f2 b = ft_copy mem (fflash s) b" for b using f2(3) c1 by (simp add: ft_copy_def)
    from unlock_ft [of "s\<lparr>fflash := f2\<rparr>"] f2(2) obtain f3 where f3: "ft_unlock hw (s\<lparr>fflash := f2\<rparr>) = s\<lparr>fflash := f3\<rparr>"
      "ft_sectors cap rid f3" "mem (chip f3) = mem (chip f2)" "\<forall>x. \<not> prot (chip f3) x" by auto
    have c3: "ft_copy mem f3 b = ft_copy mem (fflash s) b" for b using f3(3) c2 by (simp add: ft_copy_def)
    from write_copy [of "s\<lparr>fflash := f3\<rparr>" crc "0x8000000" False] f3 g obtain f4 where
      f4: "ft_write_copy hw crc True 0x8000000 (s\<lparr>fflash := f3\<rparr>) = Some (True, s\<lparr>fflash := f4\<rparr>)" "ft_sectors cap rid f4"
      "ft_copy mem f4 False = gftParam s" "ft_copy mem f4 True = ft_copy mem f3 True" by (auto simp: ft_base_def)
    show ?thesis
    proof (cases "fst (ft_check crc (ft_copy mem (fflash s) False)) = 0 \<or> snd (ft_check crc (ft_copy mem (fflash s) False)) \<noteq> gftParam s")
      case True
      then show ?thesis using False f1 f2 f3(1) f4 c1 c2 c3 g
        by (intro exI [of _ f4]) (auto simp: ft_backup_def ft_intact_def)
    next
      case eq: False
      then show ?thesis using False f1 f2 c1 c2 by (intro exI [of _ f2]) (auto simp: ft_backup_def)
    qed
  qed
qed

text \<open>The phases of \<^verbatim>\<open>tls_ft_param_set\<close>: the first sector is made a copy of the old data, the second sector is
  written, then the first.\<close>

lemma set_phases:
  assumes r: "ft_ready cap rid mem crc s" and op: "op \<noteq> CMD_ALL" and d: "length data = ft_size op" and al: "\<And>k. alloc k"
    and g: "g = ft_updated crc op data (gftParam s)"
  obtains f1 f2 f3 f4 where "ft_intact crc g"
    "ft_backup hw crc True s = Some (True, s\<lparr>fflash := f1\<rparr>)"
    "ft_unlock hw (s\<lparr>fflash := f1, gftParam := g\<rparr>) = s\<lparr>gftParam := g, fflash := f2\<rparr>" "mem (chip f2) = mem (chip f1)"
    "ft_write_copy hw crc True 0x8001000 (s\<lparr>gftParam := g, fflash := f2\<rparr>) = Some (True, s\<lparr>gftParam := g, fflash := f3\<rparr>)"
    "ft_copy mem f3 True = g"
    "ft_write_copy hw crc True 0x8000000 (s\<lparr>gftParam := g, fflash := f3\<rparr>) = Some (True, s\<lparr>gftParam := g, fflash := f4\<rparr>)"
    "ft_sectors cap rid f4" "\<forall>b. ft_copy mem f4 b = g"
    "tls_ft_param_set hw crc alloc op (Some data) (ft_size op) s = Some (0, s\<lparr>gftParam := g, fflash := f4\<rparr>)"
proof -
  have l: "length (gftParam s) = 220" using r by (simp add: ft_ready_def)
  have gi: "ft_intact crc g" using updated_spec(1,2) [OF l op d, where crc = crc] by (simp add: ft_intact_def g)
  have n: "ft_size op \<noteq> 0" using op by (cases op) (simp_all add: ft_size_def)
  from backup_spec [OF r] obtain f1 where f1: "ft_backup hw crc True s = Some (True, s\<lparr>fflash := f1\<rparr>)" "ft_sectors cap rid f1" by blast
  from unlock_ft [of "s\<lparr>fflash := f1, gftParam := g\<rparr>"] f1(2) obtain f2 where
    f2: "ft_unlock hw (s\<lparr>fflash := f1, gftParam := g\<rparr>) = s\<lparr>gftParam := g, fflash := f2\<rparr>" "ft_sectors cap rid f2" "\<forall>x. \<not> prot (chip f2) x"
    "mem (chip f2) = mem (chip f1)" by auto
  from write_copy [of "s\<lparr>gftParam := g, fflash := f2\<rparr>" crc "0x8001000" True] f2 gi obtain f3 where
    f3: "ft_write_copy hw crc True 0x8001000 (s\<lparr>gftParam := g, fflash := f2\<rparr>) = Some (True, s\<lparr>gftParam := g, fflash := f3\<rparr>)"
    "ft_sectors cap rid f3" "ft_copy mem f3 True = g" "\<forall>x. \<not> prot (chip f3) x" by (auto simp: ft_base_def)
  from write_copy [of "s\<lparr>gftParam := g, fflash := f3\<rparr>" crc "0x8000000" False] f3 gi obtain f4 where
    f4: "ft_write_copy hw crc True 0x8000000 (s\<lparr>gftParam := g, fflash := f3\<rparr>) = Some (True, s\<lparr>gftParam := g, fflash := f4\<rparr>)"
    "ft_sectors cap rid f4" "ft_copy mem f4 False = g" "ft_copy mem f4 True = g" by (auto simp: ft_base_def)
  have m: "ft_member op data (ft_size op) (ft_extend (gftParam s)) = Some (copy_into (ft_extend (gftParam s)) (ft_off op) data (ft_size op))"
    by (rule member_fits [OF op d])
  have s: "tls_ft_param_set hw crc alloc op (Some data) (ft_size op) s = Some (0, s\<lparr>gftParam := g, fflash := f4\<rparr>)"
    using f1(1) f2(1) f3(1) f4(1) m op n al by (simp add: tls_ft_param_set_def ft_updated_def g)
  have c: "\<forall>b. ft_copy mem f4 b = g" using f4 by (simp add: all_bool_eq)
  show thesis by (rule that [OF gi f1(1) f2(1,4) f3(1,3) f4(1,2) c s])
qed

lemma set_spec:
  assumes r: "ft_ready cap rid mem crc s" and op: "op \<noteq> CMD_ALL" and d: "length data = ft_size op" and al: "\<And>k. alloc k"
  shows "\<exists>s'. tls_ft_param_set hw crc alloc op (Some data) (ft_size op) s = Some (0, s') \<and>
    gftParam s' = ft_updated crc op data (gftParam s) \<and> ft_stored cap rid mem crc s'"
  by (rule set_phases [where alloc = alloc, OF r op d al refl]) (simp add: ft_stored_def)

text \<open>Power on: the structure is cleared and loaded from the copies.\<close>

lemma boot_spec:
  assumes s: "ft_sectors cap rid f"
  shows "\<exists>f'. tls_ft_param_init hw crc True \<lparr>fflash = f, gftParam = replicate 220 0\<rparr> =
     (let (r, g) = ft_check crc (ft_copy mem f True);
          (r, g) = (if r = 0 then ft_check crc (ft_copy mem f False) else (r, g))
      in (r, \<lparr>fflash = f', gftParam = (if r = 1 then g else if r = 2 then take 132 g @ drop 132 ft_blank else ft_blank)\<rparr>)) \<and>
    ft_sectors cap rid f' \<and> mem (chip f') = mem (chip f) \<and> (\<forall>x. \<not> prot (chip f') x)"
proof -
  have z: "magic_no (replicate 220 0) \<noteq> SIGNATURE_WORD" by (simp add: magic_no_def un32_def)
  from load_copy [OF s length_blank, of "0x8001000" True crc] obtain f1 where
    f1: "ft_param_init hw crc 0x8001000 ft_blank f = (fst (ft_check crc (ft_copy mem f True)), snd (ft_check crc (ft_copy mem f True)), f1)"
    "ft_sectors cap rid f1" "mem (chip f1) = mem (chip f)" by (auto simp: ft_base_def)
  from load_copy [OF f1(2) length_blank, of "0x8000000" False crc] obtain f2 where
    f2: "ft_param_init hw crc 0x8000000 ft_blank f1 = (fst (ft_check crc (ft_copy mem f False)), snd (ft_check crc (ft_copy mem f False)), f2)"
    "ft_sectors cap rid f2" "mem (chip f2) = mem (chip f)" using f1(3) by (auto simp: ft_base_def ft_copy_def)
  from ft_unlocks [OF f1(2)] obtain u1 where u1: "tls_flash_unlock hw f1 = (0, u1)" "ft_sectors cap rid u1" "mem (chip u1) = mem (chip f)"
    "\<forall>x. \<not> prot (chip u1) x" using f1(3) by auto
  from ft_unlocks [OF f2(2)] obtain u2 where u2: "tls_flash_unlock hw f2 = (0, u2)" "ft_sectors cap rid u2" "mem (chip u2) = mem (chip f)"
    "\<forall>x. \<not> prot (chip u2) x" using f2(3) by auto
  show ?thesis
  proof (cases "fst (ft_check crc (ft_copy mem f True)) = 0")
    case True
    then show ?thesis using z f1(1) f2(1) u2
      by (intro exI [of _ u2]) (simp add: tls_ft_param_init_def Let_def case_prod_beta)
  next
    case False
    then show ?thesis using z f1(1) u1
      by (intro exI [of _ u1]) (simp add: tls_ft_param_init_def Let_def case_prod_beta)
  qed
qed

end

end
