(* ===== verification/Efuse_Props.thy ===== *)
theory Efuse_Props
  imports Efuse_Persist
begin

text \<open>
  Properties of the factory data.
\<close>

unbundle bit_operations_syntax

section \<open>What a read delivers\<close>

text \<open>The value of a member with the bytes \<open>m\<close>: an address that is not usable is replaced by the default.\<close>

definition ft_value :: "ft_cmd \<Rightarrow> u8 list \<Rightarrow> u8 list" where
  "ft_value op m =
     (if op = CMD_WIFI_MAC \<and> (hd m AND 1 \<noteq> 0 \<or> m = replicate 6 0) then [0x00, 0x25, 0x08, 0x09, 0x01, 0x0F]
      else if op = CMD_BT_MAC \<and> (m = replicate 6 0xFF \<or> m = replicate 6 0) then [0xC0, 0x25, 0x08, 0x09, 0x01, 0x10]
      else m)"

lemma copy_into_whole: "length data = n \<Longrightarrow> n \<le> length src \<Longrightarrow> copy_into data 0 src n = take n src"
  by (simp add: copy_into_def)

lemma copy_out_whole: "length data = n \<Longrightarrow> off + n \<le> length g \<Longrightarrow> ft_copy_out g off n data = Some (ft_slice off n g)"
  by (simp add: ft_copy_out_def ft_slice_def copy_into_def)

lemma mac_slice: "length g = 220 \<Longrightarrow> ft_slice 8 6 g = [g ! 8, g ! 9, g ! 10, g ! 11, g ! 12, g ! 13]"
  by (rule nth_equalityI) (auto simp: ft_slice_def less_Suc_eq_0_disj numeral_eq_Suc)

lemma mac_usable:
  assumes "length g = 220"
  shows "(g ! 8 OR g ! 9 OR g ! 10 OR g ! 11 OR g ! 12 OR g ! 13 = 0) = (ft_slice 8 6 g = replicate 6 0)" "hd (ft_slice 8 6 g) = g ! 8"
proof -
  have "replicate 6 (0 :: u8) = [0, 0, 0, 0, 0, 0]" by (simp add: numeral_eq_Suc)
  then show "(g ! 8 OR g ! 9 OR g ! 10 OR g ! 11 OR g ! 12 OR g ! 13 = 0) = (ft_slice 8 6 g = replicate 6 0)"
    unfolding mac_slice [OF assms] by (simp add: or_eq_0_iff)
  show "hd (ft_slice 8 6 g) = g ! 8" unfolding mac_slice [OF assms] by simp
qed

lemma get_value:
  assumes l: "length (gftParam s) = 220" and v: "ft_ext1_valid (gftParam s)" and op: "op \<noteq> CMD_ALL" and b: "length buf = ft_size op"
  shows "tls_ft_param_get hw al op buf (ft_size op) s = Some (0, ft_value op (ft_field op (gftParam s)), s)"
proof (cases "op = CMD_WIFI_MAC \<or> op = CMD_BT_MAC")
  case False
  then show ?thesis using op b l v
    by (cases op) (simp_all add: tls_ft_param_get_def ft_value_def ft_field_def ft_size_def ft_off_def copy_out_whole)
next
  case True
  let ?g = "gftParam s"
  have d: "length buf = 6" using True b by (auto simp: ft_size_def)
  have dm: "ft_copy_out default_mac 0 6 buf = Some [0x00, 0x25, 0x08, 0x09, 0x01, 0x0F]"
    using copy_out_whole [OF d, of 0 default_mac] by (simp add: default_mac_def ft_slice_def)
  have m: "ft_get_mac ?g 6 buf = Some (ft_value CMD_WIFI_MAC (ft_slice 8 6 ?g))"
    using l dm copy_out_whole [OF d, of 8 ?g] by (simp add: ft_get_mac_def ft_value_def mac_usable [OF l])
  have n: "ft_get_bt_mac ?g 6 buf = Some (ft_value CMD_BT_MAC (ft_slice 16 6 ?g))"
    using l dm copy_out_whole [OF d, of 16 ?g] by (simp add: ft_get_bt_mac_def ft_value_def ft_slice_def)
  show ?thesis using True m n by (auto simp: tls_ft_param_get_def ft_field_def ft_size_def ft_off_def)
qed

section \<open>Example devices\<close>

lemma demo_sectors: "ft_sectors 0x2000000 (\<lambda>c. ucast (jedec c)) (demo_fls\<lparr>chip := (chip demo_fls)\<lparr>cells := m\<rparr>\<rparr>)"
  by (simp add: ft_sectors_def demo_fls_def sr_chips_def)

lemma demo_copy: "ft_copy cells (demo_fls\<lparr>chip := (chip demo_fls)\<lparr>cells := m\<rparr>\<rparr>) b = mem_read m (ft_base b) 220"
  by (simp add: ft_copy_def)

definition demo_ft :: "nor_chip ft" where
  "demo_ft = \<lparr>fflash = demo_fls\<lparr>chip := (chip demo_fls)\<lparr>cells := (\<lambda>_. 0x5A)\<rparr>\<rparr>, gftParam = ft_blank\<rparr>"

lemma check_fill: "fst (ft_check crc (mem_read (\<lambda>_. 0x5A) a 220)) = 0"
  by (simp add: ft_check_def magic_no_def un32_def mem_read_def)

lemma demo_ready: "ft_ready 0x2000000 (\<lambda>c. ucast (jedec c)) cells crc demo_ft"
  using demo_sectors [of "\<lambda>_. 0x5A"] check_fill by (simp add: ft_ready_def demo_ft_def demo_copy)

lemma check_damaged: "crc (ft_slice 8 124 g) \<noteq> un32 (ft_slice 4 4 g) \<Longrightarrow> ft_check crc g = (0, g)"
  by (auto simp: ft_check_def slice_fields(4) [of 4] ft_slice_def [symmetric])

section \<open>Properties\<close>

text \<open>C11. On a chip with the documented behaviour, setting a member of the factory data stores it: after a
  power cycle the start-up finds the data, a read delivers the bytes that were set, and every other
  member reads as before. (The members behind the base structure keep their values if they were valid.)
\<close>

theorem ft_set_persists:
  assumes "spi_nor_id hw mem wel prot cap rid sr1 sr2" and "ft_ready cap rid mem crc s" and "\<And>k. alloc k"
    and "op \<noteq> CMD_ALL" and "length data = ft_size op" and "op' \<noteq> CMD_ALL" and "length buf = ft_size op'"
    and "op' = op \<or> ft_ext1_valid (gftParam s) \<or> \<not> ft_in_ext op'"
  shows "\<exists>s' s''. tls_ft_param_set hw crc alloc op (Some data) (ft_size op) s = Some (0, s') \<and>
    tls_ft_param_init hw crc True \<lparr>fflash = fflash s', gftParam = replicate 220 0\<rparr> = (1, s'') \<and>
    tls_ft_param_get hw al op' buf (ft_size op') s'' =
      Some (0, ft_value op' (if op' = op then data else ft_field op' (gftParam s)), s'')"
proof -
  have l: "length (gftParam s) = 220" using assms(2) by (simp add: ft_ready_def)
  note u = updated_spec [OF l assms(4,5), where crc = crc]
  from spi_nor_id.set_spec [where alloc = alloc, OF assms(1,2,4,5,3)] obtain s' where s': "tls_ft_param_set hw crc alloc op (Some data) (ft_size op) s = Some (0, s')"
    "gftParam s' = ft_updated crc op data (gftParam s)" "ft_stored cap rid mem crc s'" by blast
  then have c: "ft_sectors cap rid (fflash s')" "ft_copy mem (fflash s') True = gftParam s'" "ft_check crc (gftParam s') = (1, gftParam s')"
    by (auto simp: ft_stored_def ft_intact_def)
  from spi_nor_id.boot_spec [OF assms(1) c(1), of crc] obtain f where
    i: "tls_ft_param_init hw crc True \<lparr>fflash = fflash s', gftParam = replicate 220 0\<rparr> = (1, \<lparr>fflash = f, gftParam = gftParam s'\<rparr>)"
    using c(2,3) by auto
  have fd: "ft_field op' (gftParam s') = (if op' = op then data else ft_field op' (gftParam s))"
    using u(3) u(5) [OF assms(6)] assms(8) s'(2) by auto
  have "tls_ft_param_get hw al op' buf (ft_size op') \<lparr>fflash = f, gftParam = gftParam s'\<rparr> =
      Some (0, ft_value op' (ft_field op' (gftParam s')), \<lparr>fflash = f, gftParam = gftParam s'\<rparr>)"
    using get_value [of "\<lparr>fflash = f, gftParam = gftParam s'\<rparr>" op' buf hw al] u(1,4) assms(6,7) s'(2) by simp
  then show ?thesis using s'(1) i unfolding fd by blast
qed

theorem ft_set_persists_witness:
  "\<exists>s' s''. tls_ft_param_set nor_hw get_crc32 (\<lambda>_. True) CMD_WIFI_MAC (Some [2, 1, 2, 3, 4, 5]) 6 demo_ft = Some (0, s') \<and>
    tls_ft_param_init nor_hw get_crc32 True \<lparr>fflash = fflash s', gftParam = replicate 220 0\<rparr> = (1, s'') \<and>
    tls_ft_param_get nor_hw True CMD_WIFI_MAC (replicate 6 0) 6 s'' = Some (0, [2, 1, 2, 3, 4, 5], s'')"
proof -
  have "[2, 1, 2, 3, 4, 5] \<noteq> replicate 6 (0 :: u8)" by (simp add: numeral_eq_Suc)
  then have v: "ft_value CMD_WIFI_MAC [2, 1, 2, 3, 4, 5] = [2, 1, 2, 3, 4, 5]" by (simp add: ft_value_def)
  have n: "ft_size CMD_WIFI_MAC = 6" by (simp add: ft_size_def)
  show ?thesis
    using ft_set_persists [OF nor.spi_nor_id_axioms demo_ready, of "\<lambda>_. True" CMD_WIFI_MAC "[2, 1, 2, 3, 4, 5]" CMD_WIFI_MAC "replicate 6 0" get_crc32 True]
    unfolding n by (simp add: v)
qed

text \<open>Whatever the two sectors hold, after a start every member can be set, with one exception: the second sector holds a copy of the
  older format without the additional members.
\<close>

theorem ft_boot_ready:
  assumes "spi_nor_id hw mem wel prot cap rid sr1 sr2" and "ft_sectors cap rid f" and "fst (ft_check crc (ft_copy mem f True)) \<noteq> 2"
  shows "ft_ready cap rid mem crc (snd (tls_ft_param_init hw crc True \<lparr>fflash = f, gftParam = replicate 220 0\<rparr>))"
proof -
  from spi_nor_id.boot_spec [OF assms(1,2), of crc] obtain f' where
    bt: "tls_ft_param_init hw crc True \<lparr>fflash = f, gftParam = replicate 220 0\<rparr> =
       (let (r, g) = ft_check crc (ft_copy mem f True);
            (r, g) = (if r = 0 then ft_check crc (ft_copy mem f False) else (r, g))
        in (r, \<lparr>fflash = f', gftParam = (if r = 1 then g else if r = 2 then take 132 g @ drop 132 ft_blank else ft_blank)\<rparr>))"
    and f': "ft_sectors cap rid f'" "mem (chip f') = mem (chip f)" by blast
  have c: "ft_copy mem f' b = ft_copy mem f b" for b using f'(2) by (simp add: ft_copy_def)
  have rs: "fst (ft_check crc g) \<in> {0, 1, 2}" "fst (ft_check crc g) \<noteq> 2 \<Longrightarrow> snd (ft_check crc g) = g"
    "length g = 220 \<Longrightarrow> length (snd (ft_check crc g)) = 220" for g
    by (auto simp: ft_check_def)
  show ?thesis
  proof (cases "fst (ft_check crc (ft_copy mem f True)) = 0")
    case True
    then show ?thesis using bt f'(1) c rs(3) [of "ft_copy mem f False"] by (simp add: case_prod_beta Let_def ft_ready_def)
  next
    case False
    then have "ft_check crc (ft_copy mem f True) = (1, ft_copy mem f True)" using assms(3) rs(1,2) [of "ft_copy mem f True"] by (auto simp: prod_eq_iff)
    then show ?thesis using bt f'(1) c by (simp add: ft_ready_def ft_intact_def)
  qed
qed

theorem ft_boot_ready_witness:
  "ft_ready 0x2000000 (\<lambda>c. ucast (jedec c)) cells get_crc32
    (snd (tls_ft_param_init nor_hw get_crc32 True \<lparr>fflash = fflash demo_ft, gftParam = replicate 220 0\<rparr>))"
  by (rule ft_boot_ready [OF nor.spi_nor_id_axioms]) (simp_all add: demo_ft_def demo_sectors demo_copy check_fill)

text \<open>The exception: the second sector holds an intact copy of the older format and the first holds none. The start replaces
  two fields that the checksum covers, so that the data in memory do not pass the check; every attempt to set a member
  writes them to the first sector, finds the copy damaged and fails.
\<close>

theorem ft_old_format_stuck:
  assumes "spi_nor_id hw mem wel prot cap rid sr1 sr2" and "ft_sectors cap rid f" and "\<And>k. alloc k"
    and "ft_check crc (ft_copy mem f True) = (2, n)" and "fst (ft_check crc (ft_copy mem f False)) = 0"
    and "crc (ft_slice 8 124 n) \<noteq> un32 (ft_slice 4 4 n)" and "0 < len"
  shows "\<exists>s s'. tls_ft_param_init hw crc True \<lparr>fflash = f, gftParam = replicate 220 0\<rparr> = (2, s) \<and>
    tls_ft_param_set hw crc alloc op (Some data) len s = Some (- 1, s') \<and> gftParam s' = gftParam s \<and>
    fst (ft_check crc (ft_copy mem (fflash s') False)) = 0"
proof -
  let ?g = "take 132 n @ drop 132 ft_blank"
  from spi_nor_id.boot_spec [OF assms(1,2), of crc] assms(4) obtain f1 where
    f1: "tls_ft_param_init hw crc True \<lparr>fflash = f, gftParam = replicate 220 0\<rparr> = (2, \<lparr>fflash = f1, gftParam = ?g\<rparr>)"
      "ft_sectors cap rid f1" "mem (chip f1) = mem (chip f)" by auto
  have "n = snd (ft_check crc (ft_copy mem f True))" using assms(4) by simp
  then have ln: "length n = 220" by (auto simp: ft_check_def)
  then have lg: "length ?g = 220" by simp
  have sl: "ft_slice 8 124 ?g = ft_slice 8 124 n" "ft_slice 4 4 ?g = ft_slice 4 4 n" using ln by (simp_all add: ft_slice_def drop_take)
  then have ck: "ft_check crc ?g = (0, ?g)" using assms(6) by (intro check_damaged) simp
  from spi_nor_id.load_copy [OF assms(1) f1(2) length_blank, of "0x8001000" True crc] obtain f2 where
    f2: "ft_param_init hw crc 0x8001000 ft_blank f1 = (2, n, f2)" "ft_sectors cap rid f2" "mem (chip f2) = mem (chip f)"
    using f1(3) assms(4) by (auto simp: ft_base_def ft_copy_def)
  from spi_nor_id.load_copy [OF assms(1) f2(2) length_blank, of "0x8000000" False crc] obtain p f3 where
    f3: "ft_param_init hw crc 0x8000000 ft_blank f2 = (0, p, f3)" "ft_sectors cap rid f3"
    using f2(3) assms(5) by (auto simp: ft_base_def ft_copy_def)
  from spi_nor_id.unlock_ft [OF assms(1), of "\<lparr>fflash = f3, gftParam = ?g\<rparr>"] f3(2) obtain f4 where
    f4: "ft_unlock hw \<lparr>fflash = f3, gftParam = ?g\<rparr> = \<lparr>fflash = f4, gftParam = ?g\<rparr>" "ft_sectors cap rid f4" "\<forall>x. \<not> prot (chip f4) x" by auto
  from spi_nor_id.write_copy_any [OF assms(1), of "\<lparr>fflash = f4, gftParam = ?g\<rparr>" "0x8000000" False crc] f4 lg ck obtain f5 where
    f5: "ft_write_copy hw crc True 0x8000000 \<lparr>fflash = f4, gftParam = ?g\<rparr> = Some (False, \<lparr>fflash = f5, gftParam = ?g\<rparr>)" "ft_copy mem f5 False = ?g"
    by (auto simp: ft_base_def)
  have "ft_backup hw crc True \<lparr>fflash = f1, gftParam = ?g\<rparr> = Some (False, \<lparr>fflash = f5, gftParam = ?g\<rparr>)"
    using f2 f3 f4(1) f5(1) by (simp add: ft_backup_def)
  then have "tls_ft_param_set hw crc alloc op (Some data) len \<lparr>fflash = f1, gftParam = ?g\<rparr> = Some (- 1, \<lparr>fflash = f5, gftParam = ?g\<rparr>)"
    using assms(3,7) by (simp add: tls_ft_param_set_def)
  then show ?thesis using f1(1) f5(2) ck by fastforce
qed

text \<open>A copy of the older format: no version, one byte of the length zero.\<close>

definition old_body :: "u8 \<Rightarrow> u8 list" where
  "old_body x = replicate 6 0 @ [0xFF, 0xFF] @ replicate 6 0 @ [0xFF] @ x # replicate 108 0"

definition old_copy :: "u8 \<Rightarrow> u8 list" where
  "old_copy x = le32 SIGNATURE_WORD @ le32 (get_crc32 (old_body 0)) @ old_body x @ replicate 88 0"

lemma old_slices:
  "length (old_copy x) = 220" "ft_slice 0 4 (old_copy x) = le32 SIGNATURE_WORD" "ft_slice 4 4 (old_copy x) = le32 (get_crc32 (old_body 0))"
  "ft_slice 8 124 (old_copy x) = old_body x" "ft_slice 14 2 (old_copy x) = le16 0xFFFF"
  by (simp_all add: old_copy_def ft_slice_def old_body_def le16_def)

lemma old_check: "ft_check get_crc32 (old_copy 0) = (2, old_copy 0xFF)"
proof -
  have "\<not> ft_ext1_valid (old_copy 0)" by (simp add: ft_ext1_valid_def slice_fields old_slices un16_le16_0)
  moreover have "take 124 (drop 8 (old_copy 0)) = old_body 0" using old_slices(4) [of 0] by (simp add: ft_slice_def)
  moreover have "copy_into (copy_into (old_copy 0) 14 [0xFF, 0xFF] 2) 22 [0xFF, 0xFF] 2 = old_copy 0xFF"
    by (simp add: copy_into_def old_copy_def old_body_def)
  ultimately show ?thesis by (simp add: ft_check_def slice_fields old_slices un32_le32_0)
qed

theorem ft_old_format_stuck_witness:
  "\<exists>f (s :: nor_chip ft) s'. tls_ft_param_init nor_hw get_crc32 True \<lparr>fflash = f, gftParam = replicate 220 0\<rparr> = (2, s) \<and>
    tls_ft_param_set nor_hw get_crc32 (\<lambda>_. True) CMD_WIFI_MAC (Some [2, 1, 2, 3, 4, 5]) 6 s = Some (- 1, s')"
proof -
  let ?m = "mem_write (\<lambda>_. 0x5A) 0x1000 (old_copy 0)"
  let ?f = "demo_fls\<lparr>chip := (chip demo_fls)\<lparr>cells := ?m\<rparr>\<rparr>"
  have "mem_read ?m 0x1000 220 = old_copy 0" using mem_read_mem_write [of "\<lambda>_. 0x5A" "0x1000" "old_copy 0"] by (simp add: old_slices(1))
  then have t: "ft_check get_crc32 (ft_copy cells ?f True) = (2, old_copy 0xFF)" using old_check by (simp add: demo_copy ft_base_def)
  have "mem_read ?m 0 220 = mem_read (\<lambda>_. 0x5A) 0 220" by (rule mem_read_mem_write_other) simp
  then have z: "fst (ft_check get_crc32 (ft_copy cells ?f False)) = 0" using check_fill by (simp add: demo_copy ft_base_def)
  have "get_crc32 (old_body 0xFF) \<noteq> get_crc32 (old_body 0)"
    using crc32_detects_byte [of "0xFF" 0 "replicate 6 0 @ [0xFF, 0xFF] @ replicate 6 0 @ [0xFF]" "replicate 108 0"] by (simp add: old_body_def)
  then have "get_crc32 (ft_slice 8 124 (old_copy 0xFF)) \<noteq> un32 (ft_slice 4 4 (old_copy 0xFF))" by (simp add: old_slices un32_le32_0)
  from ft_old_format_stuck [OF nor.spi_nor_id_axioms demo_sectors _ t z this, of "\<lambda>_. True" 6 CMD_WIFI_MAC "[2, 1, 2, 3, 4, 5]"]
  show ?thesis by auto
qed

text \<open>A frequency error that is read lies between -200 kHz and 200 kHz, whatever is stored.
\<close>

theorem ft_freq_err_bounds:
  assumes "tls_freq_err_op hw crc alloc freqerr 0 s = Some (0, v, s')"
  shows "- 200000 \<le> sint (un32 v) \<and> sint (un32 v) \<le> 200000"
proof -
  have c: "un32 (copy_into x 0 (le32 w) 4) = w" for x w by (simp add: copy_into_def)
  have "\<exists>x. v = ft_clamp x"
    using assms by (auto simp: tls_freq_err_op_def bind_eq_Some_conv split: if_splits)
  then show ?thesis by (auto simp: ft_clamp_def Let_def c)
qed

theorem ft_freq_err_bounds_witness:
  "\<exists>v s'. tls_freq_err_op nor_hw get_crc32 (\<lambda>_. True) (replicate 4 0) 0 \<lparr>fflash = demo_fls, gftParam = ft_updated get_crc32 CMD_FREQ_ERR [0, 0, 0, 0x80] ft_blank\<rparr> =
      Some (0, v, s') \<and> - 200000 \<le> sint (un32 v)"
proof -
  let ?s = "\<lparr>fflash = demo_fls, gftParam = ft_updated get_crc32 CMD_FREQ_ERR [0, 0, 0, 0x80] ft_blank\<rparr>"
  have u: "length (gftParam ?s) = 220" "ft_ext1_valid (gftParam ?s)"
    using updated_spec(1,4) [of ft_blank CMD_FREQ_ERR "[0, 0, 0, 0x80]", where crc = get_crc32] by (simp_all add: ft_size_def)
  have "tls_ft_param_get nor_hw True CMD_FREQ_ERR (replicate 4 0) 4 ?s = Some (0, ft_value CMD_FREQ_ERR (ft_field CMD_FREQ_ERR (gftParam ?s)), ?s)"
    using get_value [OF u, of CMD_FREQ_ERR "replicate 4 0" nor_hw True] by (simp add: ft_size_def)
  then have r: "tls_freq_err_op nor_hw get_crc32 (\<lambda>_. True) (replicate 4 0) 0 ?s =
      Some (0, ft_clamp (ft_value CMD_FREQ_ERR (ft_field CMD_FREQ_ERR (gftParam ?s))), ?s)" by (simp add: tls_freq_err_op_def)
  then show ?thesis using ft_freq_err_bounds [OF r] by blast
qed

end
