(* ===== verification/Efuse_Crash.thy ===== *)
theory Efuse_Crash
  imports Efuse_Props
begin

text \<open>
  Power failures while factory data are written. The chip is run with a recorder that notes every command the
  driver issues together with the chip before it, so that the states in which the power can fail are
  those of the run itself. The first part shows, for any hardware, which commands the driver issues: the
  functions that read or unlock issue no erase and no program command, and a write of the factory data erases and
  programs one sector only. The second part follows \<^verbatim>\<open>tls_ft_param_set\<close> through its phases.
\<close>

unbundle bit_operations_syntax

section \<open>Commands of the driver\<close>

text \<open>The opcodes the driver uses that do not change the cells: write enable, identification, status registers, reads.\<close>

definition quiet_ops :: "u8 list" where
  "quiet_ops = [0x06, 0x9F, 0x05, 0x35, 0x85, 0x01, 0x31, 0xC1, 0x03, 0x0B, 0xBB, 0xEB]"

definition quiet :: "u32 \<Rightarrow> bool" where
  "quiet w \<longleftrightarrow> (ucast w :: u8) \<in> set quiet_ops"

text \<open>The sector erase, and a page program of \<open>n\<close> bytes.\<close>

definition erases :: "u32 \<Rightarrow> bool" where
  "erases w \<longleftrightarrow> w = 0x80000820"

definition programs :: "nat \<Rightarrow> u32 \<Rightarrow> bool" where
  "programs n w \<longleftrightarrow> 0 < n \<and> n \<le> 256 \<and> w = 0x80009002 OR push_bit 16 (of_nat n - 1)"

text \<open>A command that changes at most cells of the sectors \<open>K\<close>.\<close>

definition allowed :: "nat set \<Rightarrow> u32 \<Rightarrow> nat \<Rightarrow> bool" where
  "allowed K w a \<longleftrightarrow> quiet w \<or> a div 4096 \<in> K \<and> (erases w \<or> a mod 256 = 0 \<and> (\<exists>n. programs n w))"

definition cmd_step :: "'c flash_hw \<Rightarrow> nat set \<Rightarrow> 'c \<Rightarrow> 'c \<Rightarrow> bool" where
  "cmd_step hw K c c' \<longleftrightarrow> (\<exists>w a b. allowed K w a \<and> c' = fst (hw w a b c))"

text \<open>The chip of \<open>s\<close> comes from \<open>c\<close> by such commands.\<close>

definition via :: "'c flash_hw \<Rightarrow> nat set \<Rightarrow> 'c \<Rightarrow> 'c fls \<Rightarrow> bool" where
  "via hw K c s \<longleftrightarrow> (cmd_step hw K)\<^sup>*\<^sup>* c (chip s)"

lemma via_refl [simp]: "via hw K (chip s) s"
  by (simp add: via_def)

lemma via_chip: "chip s' = chip s \<Longrightarrow> via hw K c s' = via hw K c s"
  by (simp add: via_def)

lemma via_trans: "via hw K c s \<Longrightarrow> via hw K (chip s) s' \<Longrightarrow> via hw K c s'"
  by (simp add: via_def)

lemma via_start:
  assumes "via hw K c s" "allowed K (cmd_addr s) (flash_addr s)"
  shows "via hw K c (flash_start hw s)"
  using assms unfolding via_def chip_start
  by (elim rtranclp.rtrancl_into_rtrancl) (auto simp: cmd_step_def)

lemma via_frame [simp]:
  "via hw K c (flash_cmd w s) = via hw K c s" "via hw K c (flash_set_addr a s) = via hw K c s"
  "via hw K c (write_first_value v s) = via hw K c s" "via hw K c (fls_acquire s) = via hw K c s"
  "via hw K c (fls_release s) = via hw K c s" "via hw K c (s\<lparr>rsa := b\<rparr>) = via hw K c s"
  by (simp_all add: via_def fls_acquire_def fls_release_def)

lemma via_quiet: "via hw K c s \<Longrightarrow> quiet w \<Longrightarrow> via hw K c (flash_start hw (flash_cmd w s))"
  by (rule via_start) (simp_all add: allowed_def)

lemma quiet_cmds [simp]:
  "quiet 6" "quiet 0x2C09F" "quiet 0xC005" "quiet 0xC035" "quiet 0xC085" "quiet 0x1A001" "quiet 0xA001" "quiet 0xA031" "quiet 0xA0C1"
  by (simp_all add: quiet_def quiet_ops_def)

section \<open>Unlocking\<close>

lemma via_readRID: "readRID hw s = (r, s') \<Longrightarrow> via hw K c s \<Longrightarrow> via hw K c s'"
  by (auto simp: readRID_def Let_def intro: via_quiet)

lemma via_read_sr: "read_sr hw s = (r, s') \<Longrightarrow> via hw K c s \<Longrightarrow> via hw K c s'"
  by (auto simp: read_sr_def Let_def intro!: via_quiet)

lemma via_writeBp:
  assumes "via hw K c s"
  shows "via hw K c (writeBpBit_for_1wreg hw cmp b4 b3 b2 b1 b0 s)" "via hw K c (writeBpBit_for_2wreg hw cmp b4 b3 b2 b1 b0 s)"
    "via hw K c (writeESMTBpBit hw cmp b4 b3 b2 b1 b0 s)"
  using assms
  by (auto simp: writeBpBit_for_1wreg_def writeBpBit_for_2wreg_def writeESMTBpBit_def Let_def
      intro!: via_quiet split: prod.splits dest!: via_read_sr)

lemma via_flashunlock: "flashunlock hw s = (r, s') \<Longrightarrow> via hw K c s \<Longrightarrow> via hw K c s'"
  by (auto simp: flashunlock_def intro!: via_writeBp split: prod.splits if_splits dest: via_readRID)

lemma via_unlock: "tls_flash_unlock hw s = (r, s') \<Longrightarrow> via hw K c s \<Longrightarrow> via hw K c s'"
  by (auto simp: tls_flash_unlock_def split: prod.splits if_splits dest!: via_flashunlock)

section \<open>Reading\<close>

lemma quiet_read:
  assumes "read_cmd_word cmd sz cr = Some w"
  shows "quiet w"
proof -
  obtain w' where w': "w' \<in> set read_cmds" "w = w' OR push_bit 16 ((of_nat sz - 1) AND 0x3FF)"
    using assms by (auto simp: read_cmd_word_def Let_def read_cmds_def split: if_splits)
  show ?thesis using w'(1) unfolding quiet_def w'(2) nor_opcode by (auto simp: read_cmds_def quiet_ops_def)
qed

lemma via_readByCMD: "readByCMD_raw hw cmd a sz s = (e, bs, s') \<Longrightarrow> via hw K c s \<Longrightarrow> via hw K c s'"
  by (auto simp: readByCMD_raw_def Let_def allowed_def quiet_read intro!: via_start split: option.splits dest: quiet_read)

lemma via_read_chunks: "read_chunks hw k mx a s = (bs, a', s') \<Longrightarrow> via hw K c s \<Longrightarrow> via hw K c s'"
proof (induction k arbitrary: a s bs a' s')
  case (Suc k)
  then show ?case using via_readByCMD by (fastforce simp: Let_def split: prod.splits)
qed simp

lemma via_flashRead:
  assumes "flashRead hw al ok a sz s = (e, bs, s')" "via hw K c s"
  shows "via hw K c s'"
  using assms via_readByCMD via_read_chunks
  by (fastforce simp: flashRead_def Let_def split: prod.splits if_splits)

lemma via_read: "tls_fls_read hw al ok a bn n s = (e, bs, s') \<Longrightarrow> via hw K c s \<Longrightarrow> via hw K c s'"
  by (auto simp: tls_fls_read_def split: prod.splits if_splits dest!: via_flashRead)

section \<open>Writing\<close>

lemma via_writeEnable: "via hw K c s \<Longrightarrow> via hw K c (writeEnable hw s)"
  unfolding writeEnable_def by (rule via_quiet) simp_all

lemma via_erase:
  assumes "via hw K c s" "a mod 0x2000000 div 4096 \<in> K"
  shows "via hw K c (eraseSector hw a s)"
  unfolding eraseSector_def eraseSR_def Let_def
  by (rule via_start) (use assms in \<open>simp_all add: via_writeEnable allowed_def erases_def\<close>)

lemma via_program:
  assumes "programPage hw a 256 buf s = Some s'" "via hw K c s" "a mod 0x2000000 div 4096 \<in> K" "a mod 256 = 0"
  shows "via hw K c s'"
proof -
  obtain b where s': "s' = flash_start hw (flash_set_addr a (flash_cmd (0x80009002 OR push_bit 16 (of_nat 256 - 1)) (writeEnable hw (s\<lparr>rsa := b\<rparr>))))"
    using assms(1) by (auto simp: programPage_def programSR_def Let_def split: option.splits)
  have "a mod 0x2000000 mod 256 = 0" using assms(4) by (simp add: mod_mod_cancel)
  moreover have "programs 256 (0x80009002 OR push_bit 16 (of_nat 256 - 1))" by (simp add: programs_def)
  ultimately show ?thesis unfolding s'
    by (intro via_start) (use assms in \<open>auto simp: via_writeEnable allowed_def simp del: of_nat_numeral\<close>)
qed

lemma page_sector: "k < 0x2000 \<Longrightarrow> i < 16 \<Longrightarrow> (k * 4096 + i * 256) mod 0x2000000 div 4096 = k \<and> (k * 4096 + i * 256) mod 256 = 0" for i k :: nat
proof -
  assume "k < 0x2000" "i < 16"
  then have "(k * 4096 + i * 256) mod 0x2000000 = k * 4096 + i * 256" by simp
  moreover have "(k * 4096 + i * 256) div 4096 = k" using \<open>i < 16\<close> by simp
  moreover have "(k * 4096 + i * 256) = (k * 16 + i) * 256" by simp
  ultimately show ?thesis by (metis mod_mult_self2_is_0)
qed

lemma via_pages:
  assumes "program_pages hw n i (k * 4096) cache s = Some s'" "via hw {k} c s" "i + n \<le> 16" "k < 0x2000"
  shows "via hw {k} c s'"
  using assms
proof (induction n arbitrary: i s)
  case (Suc n)
  then obtain t where t: "programPage hw (k * 4096 + i * 256) 256 (drop (i * 256) cache) s = Some t"
    "program_pages hw n (i + 1) (k * 4096) cache t = Some s'" by (auto simp: bind_eq_Some_conv)
  have "via hw {k} c t" by (rule via_program [OF t(1) Suc.prems(2)]) (use page_sector [of k i] Suc.prems in simp_all)
  then show ?case using Suc.IH [OF t(2)] Suc.prems by simp
qed simp

text \<open>A write inside one sector.\<close>

lemma via_write:
  assumes w: "tls_fls_write hw ok (0x8000000 + off) (Some g) n s = Some (e, s')" and v: "via hw {off div 4096} c s"
    and o: "off < 0x2000000" "off mod 4096 + n \<le> 4096"
  shows "via hw {off div 4096} c s'"
proof -
  let ?k = "off div 4096"
  have k: "?k < 0x2000" using o(1) by (simp add: less_mult_imp_div_less)
  have a: "off mod 0x8000000 = off" using o(1) by simp
  consider "chip s' = chip s" | t where "fls_write_loop hw ?k (off mod 4096) n g n (fls_acquire s) = Some t" "s' = fls_release t"
    using w o(2) by (auto simp: tls_fls_write_def a Let_def bind_eq_Some_conv fls_acquire_def fls_release_def split: if_splits)
  then show ?thesis
  proof cases
    case 1
    show ?thesis using v by (simp add: via_chip [OF 1])
  next
    case (2 t)
    obtain e1 cache s1 where r: "flashRead hw True True (?k * 4096) 4096 (fls_acquire s) = (e1, cache, s1)" by (metis prod_cases3)
    have v1: "via hw {?k} c s1" using via_flashRead [OF r] v by simp
    have "program_pages hw 16 0 (?k * 4096) (copy_into cache (off mod 4096) g n) (eraseSector hw (?k * 4096) s1) = Some t"
      using 2(1) by (subst (asm) fls_write_loop.simps) (simp add: r Let_def bind_eq_Some_conv)
    moreover have "via hw {?k} c (eraseSector hw (?k * 4096) s1)"
      by (rule via_erase [OF v1]) (use page_sector [OF k, of 0] in simp)
    ultimately have "via hw {?k} c t" using via_pages [of hw 16 0 ?k] k by simp
    then show ?thesis using 2(2) by simp
  qed
qed

section \<open>The factory data\<close>

lemma via_load: "ft_param_init hw crc a pft f = (r, g, f') \<Longrightarrow> via hw K c f \<Longrightarrow> via hw K c f'"
  by (auto simp: ft_param_init_def Let_def split: prod.splits dest: via_read)

lemma via_write_copy:
  assumes "ft_write_copy hw crc ok (0x8000000 + ft_base b) s = Some (r, s')" "via hw {if b then 1 else 0} c (fflash s)"
  shows "via hw {if b then 1 else 0} c (fflash s')"
proof -
  obtain e f1 where w: "tls_fls_write hw ok (0x8000000 + ft_base b) (Some (gftParam s)) 220 (fflash s) = Some (e, f1)"
    using assms(1) by (auto simp: ft_write_copy_def bind_eq_Some_conv)
  obtain r1 g f2 where i: "ft_param_init hw crc (0x8000000 + ft_base b) ft_blank f1 = (r1, g, f2)" by (metis prod_cases3)
  have s': "fflash s' = f2" using assms(1) w i by (auto simp: ft_write_copy_def)
  have b: "ft_base b div 4096 = (if b then 1 else 0)" by (simp add: ft_base_def)
  have "via hw {if b then 1 else 0} c f1"
    using via_write [OF w] assms(2) unfolding b by (simp add: ft_base_def)
  from via_load [OF i this] show ?thesis by (simp add: s')
qed

lemma via_ft_unlock: "via hw K c (fflash s) \<Longrightarrow> via hw K c (fflash (ft_unlock hw s))"
  using via_unlock [of hw "fflash s" "fst (tls_flash_unlock hw (fflash s))"] by (simp add: ft_unlock_def)

lemma via_backup:
  assumes "ft_backup hw crc ok s = Some (r, s')" "via hw {0} c (fflash s)"
  shows "via hw {0} c (fflash s')"
proof -
  obtain r1 g1 f1 where 1: "ft_param_init hw crc 0x8001000 ft_blank (fflash s) = (r1, g1, f1)" by (metis prod_cases3)
  obtain r2 g2 f2 where 2: "ft_param_init hw crc 0x8000000 ft_blank f1 = (r2, g2, f2)" by (metis prod_cases3)
  note v = via_load [OF 2 via_load [OF 1 assms(2)]]
  consider "fflash s' \<in> {f1, f2}" | "ft_write_copy hw crc ok 0x8000000 (ft_unlock hw (s\<lparr>fflash := f2\<rparr>)) = Some (r, s')"
    using assms(1) 1 2 by (auto simp: ft_backup_def Let_def split: if_splits)
  then show ?thesis
  proof cases
    case 1
    then show ?thesis using v via_load [OF \<open>ft_param_init hw crc 0x8001000 ft_blank (fflash s) = (r1, g1, f1)\<close> assms(2)] by auto
  next
    case 2
    then show ?thesis using via_write_copy [of hw crc ok False] via_ft_unlock [of hw "{0}" c "s\<lparr>fflash := f2\<rparr>"] v by (simp add: ft_base_def)
  qed
qed

section \<open>A chip with a recorder\<close>

text \<open>The recorder notes each erase and each program command, the only commands that change cells: the command word, the
  address and the chip before the command.\<close>

definition changes :: "u32 \<Rightarrow> bool" where
  "changes w \<longleftrightarrow> (ucast w :: u8) \<in> {0x20, 0x02}"

definition recorded :: "'c flash_hw \<Rightarrow> ('c \<times> (u32 \<times> nat \<times> 'c) list) flash_hw" where
  "recorded hw w a b cl =
     (let (c', b') = hw w a b (fst cl)
      in ((c', if changes w then snd cl @ [(w, a, fst cl)] else snd cl), b'))"

lemma recorded_simps [simp]:
  "fst (fst (recorded hw w a b cl)) = fst (hw w a b (fst cl))"
  "snd (fst (recorded hw w a b cl)) = (if changes w then snd cl @ [(w, a, fst cl)] else snd cl)"
  "snd (recorded hw w a b cl) = snd (hw w a b (fst cl))"
  by (simp_all add: recorded_def split: prod.split)

text \<open>What the cells can hold when the power fails in a run with the notes \<open>l\<close> that ends with the chip \<open>c\<close>: the contents before a noted
  command, with any bytes in the sector that it was erasing or programming, or the contents at the
  end. (Between two noted commands the cells do not change.)\<close>

definition cut_off :: "('c \<Rightarrow> nat \<Rightarrow> u8) \<Rightarrow> u32 \<times> nat \<times> 'c \<Rightarrow> (nat \<Rightarrow> u8) \<Rightarrow> bool" where
  "cut_off mem e m \<longleftrightarrow> (\<forall>x. x div 4096 \<noteq> fst (snd e) div 4096 \<longrightarrow> m x = mem (snd (snd e)) x)"

definition power_cut :: "('c \<Rightarrow> nat \<Rightarrow> u8) \<Rightarrow> 'c \<times> (u32 \<times> nat \<times> 'c) list \<Rightarrow> (nat \<Rightarrow> u8) \<Rightarrow> bool" where
  "power_cut mem cl m \<longleftrightarrow> (\<exists>e \<in> set (snd cl). cut_off mem e m) \<or> m = mem (fst cl)"

definition agree :: "nat set \<Rightarrow> (nat \<Rightarrow> u8) \<Rightarrow> (nat \<Rightarrow> u8) \<Rightarrow> bool" where
  "agree K m m' \<longleftrightarrow> (\<forall>x. x div 4096 \<notin> K \<longrightarrow> m x = m' x)"

text \<open>The documented scope of the commands: the quiet ones keep all cells, an erase and a page program keep those of the other
  sectors.\<close>

locale spi_nor_cells = spi_nor_id hw mem wel prot cap rid sr1 sr2
  for hw :: "'c flash_hw" and mem wel prot cap rid sr1 sr2 +
  assumes quiet_cells: "quiet w \<Longrightarrow> mem (fst (hw w a b c)) = mem c"
    and erase_cells: "erases w \<Longrightarrow> x div 4096 \<noteq> a div 4096 \<Longrightarrow> mem (fst (hw w a b c)) x = mem c x"
    and program_cells: "programs n w \<Longrightarrow> a mod 256 = 0 \<Longrightarrow> x div 4096 \<noteq> a div 4096 \<Longrightarrow> mem (fst (hw w a b c)) x = mem c x"

lemma quiet_changes: "quiet w \<Longrightarrow> \<not> changes w"
  by (auto simp: quiet_def quiet_ops_def changes_def)

lemma quiet_fst:
  "\<not> changes w \<Longrightarrow> fst (hw w a b (fst cl)) = fst cl \<Longrightarrow> fst (recorded hw w a b cl) = cl"
  by (simp add: prod_eq_iff)

lemma changes_cmds: "\<not> changes 0x2C09F" "\<not> changes 0xC005" "\<not> changes 0xC035"
  by (simp_all add: quiet_changes)

sublocale spi_nor_cells \<subseteq> rec: spi_nor_id "recorded hw" "\<lambda>cl. mem (fst cl)" "\<lambda>cl. wel (fst cl)" "\<lambda>cl. prot (fst cl)" cap
  "\<lambda>cl. rid (fst cl)" "\<lambda>cl. sr1 (fst cl)" "\<lambda>cl. sr2 (fst cl)"
  by unfold_locales
    (auto simp: enable_wel enable_mem enable_prot enable_buf erase_mem erase_prot program_mem program_prot read_buf read_mem read_prot
      cap_sectors cap_bound rid_read rid_chip sr1_read sr1_chip sr2_read sr2_chip enable_sr write_both write_sr1 write_sr2 prot_none prot_low
      rid_const changes_cmds intro!: quiet_fst)

interpretation nor: spi_nor_cells nor_hw cells latch nor_prot "0x2000000" "\<lambda>c. ucast (jedec c)" reg1 reg2
proof
  fix w :: u32 and a b c x n
  show "quiet w \<Longrightarrow> cells (fst (nor_hw w a b c)) = cells c"
    using quiet_changes [of w] by (simp add: nor_hw_def Let_def changes_def)
  show "erases w \<Longrightarrow> x div 4096 \<noteq> a div 4096 \<Longrightarrow> cells (fst (nor_hw w a b c)) x = cells c x"
    by (simp add: erases_def nor_hw_def Let_def mem_erase_def)
  show "cells (fst (nor_hw w a b c)) x = cells c x" if "programs n w" "a mod 256 = 0" "x div 4096 \<noteq> a div 4096"
  proof -
    have "\<not> (a \<le> x \<and> x < a + n)"
    proof
      assume "a \<le> x \<and> x < a + n"
      then have "a div 256 \<le> x div 256" "x div 256 \<le> a div 256" using that(1,2) by (auto simp: programs_def div_le_mono)
      then have "x div 256 div 16 = a div 256 div 16" by simp
      then show False using that(3) by (simp flip: div_mult2_eq)
    qed
    then show ?thesis using that(1) by (auto simp: programs_def nor_hw_program mem_and_def)
  qed
qed

section \<open>Phases of a write\<close>

text \<open>The state of the two copies in which the next start loads \<open>g\<close>: the second sector holds it, or the second sector fails
  the checks and the first holds it.\<close>

definition ft_loads :: "(u8 list \<Rightarrow> u32) \<Rightarrow> (nat \<Rightarrow> u8) \<Rightarrow> u8 list \<Rightarrow> bool" where
  "ft_loads crc m g \<longleftrightarrow> ft_intact crc g \<and>
     (mem_read m 0x1000 220 = g \<or> fst (ft_check crc (mem_read m 0x1000 220)) = 0 \<and> mem_read m 0 220 = g)"

context spi_nor_cells
begin

lemma step_cells:
  assumes "allowed K w a"
  shows "agree K (mem (fst (hw w a b c))) (mem c)" "changes w \<Longrightarrow> a div 4096 \<in> K"
proof -
  have "mem (fst (hw w a b c)) x = mem c x" if x: "x div 4096 \<notin> K" for x
  proof (cases "quiet w")
    case True
    then show ?thesis by (simp add: quiet_cells)
  next
    case False
    then have a: "a div 4096 \<in> K" and w: "erases w \<or> a mod 256 = 0 \<and> (\<exists>n. programs n w)"
      using assms by (simp_all add: allowed_def)
    have x: "x div 4096 \<noteq> a div 4096" using x a by auto
    from w show ?thesis
    proof
      assume "erases w"
      then show ?thesis using x by (rule erase_cells)
    next
      assume "a mod 256 = 0 \<and> (\<exists>n. programs n w)"
      then obtain n where n: "programs n w" "a mod 256 = 0" by (elim conjE exE)
      show ?thesis using n x by (rule program_cells)
    qed
  qed
  then show "agree K (mem (fst (hw w a b c))) (mem c)" by (simp add: agree_def)
  show "changes w \<Longrightarrow> a div 4096 \<in> K" using assms quiet_changes [of w] by (auto simp: allowed_def)
qed

text \<open>A phase whose commands are confined to the sectors \<open>K\<close>: the cells of the other sectors are the same at its end and at each
  command that is noted in it.\<close>

lemma phase_notes:
  assumes "(cmd_step (recorded hw) K)\<^sup>*\<^sup>* cl cl'"
  shows "agree K (mem (fst cl')) (mem (fst cl)) \<and>
    (\<exists>new. snd cl' = snd cl @ new \<and> (\<forall>(w, a, c) \<in> set new. a div 4096 \<in> K \<and> agree K (mem c) (mem (fst cl))))"
  using assms
proof induction
  case base
  then show ?case by (simp add: agree_def)
next
  case (step y z)
  from step.hyps(2) obtain w a b where w: "allowed K w a" "z = fst (recorded hw w a b y)" by (auto simp: cmd_step_def)
  note c = step_cells [OF w(1)]
  from step.IH obtain new where new: "snd y = snd cl @ new" "\<forall>(w, a, c) \<in> set new. a div 4096 \<in> K \<and> agree K (mem c) (mem (fst cl))"
    "agree K (mem (fst y)) (mem (fst cl))" by blast
  have "agree K (mem (fst z)) (mem (fst cl))" using c(1) [of b "fst y"] new(3) by (simp add: w(2) agree_def)
  moreover have "snd z = snd cl @ (if changes w then new @ [(w, a, fst y)] else new)" using new(1) by (simp add: w(2))
  ultimately show ?case using new(2,3) c(2) by (intro conjI exI [of _ "if changes w then new @ [(w, a, fst y)] else new"]) auto
qed

lemma phase:
  assumes "via (recorded hw) K (chip f) f'"
  shows "agree K (mem (fst (chip f'))) (mem (fst (chip f))) \<and> (\<exists>new. snd (chip f') = snd (chip f) @ new \<and>
    (\<forall>e \<in> set new. \<forall>m. cut_off mem e m \<longrightarrow> K \<noteq> {} \<and> agree K m (mem (fst (chip f)))))"
proof -
  from phase_notes [OF assms [unfolded via_def]] obtain new where new: "snd (chip f') = snd (chip f) @ new"
    "agree K (mem (fst (chip f'))) (mem (fst (chip f)))" "\<forall>(w, a, c) \<in> set new. a div 4096 \<in> K \<and> agree K (mem c) (mem (fst (chip f)))" by blast
  have "K \<noteq> {} \<and> agree K m (mem (fst (chip f)))" if e: "e \<in> set new" "cut_off mem e m" for e m
  proof -
    have a: "fst (snd e) div 4096 \<in> K" "agree K (mem (snd (snd e))) (mem (fst (chip f)))" using new(3) e(1) by auto
    have "m x = mem (fst (chip f)) x" if "x div 4096 \<notin> K" for x
    proof -
      have "x div 4096 \<noteq> fst (snd e) div 4096" using that a(1) by metis
      then show ?thesis using e(2) a(2) that by (simp add: agree_def cut_off_def)
    qed
    then show ?thesis using a(1) by (auto simp: agree_def)
  qed
  with new(1,2) show ?thesis by blast
qed

lemma agree_copy:
  assumes "agree {if b then 0 else 1} m m'"
  shows "mem_read m (ft_base b) 220 = mem_read m' (ft_base b) 220"
proof (rule nth_equalityI)
  fix i assume "i < length (mem_read m (ft_base b) 220)"
  then have i: "i < 220" by simp
  then have "(ft_base b + i) div 4096 = (if b then 1 else 0)" by (auto simp: ft_base_def)
  then show "mem_read m (ft_base b) 220 ! i = mem_read m' (ft_base b) 220 ! i" using assms i by (simp add: agree_def)
qed simp

text \<open>What a start finds in cells with the contents \<open>m\<close>.\<close>

lemma boot_finds:
  assumes f: "ft_sectors cap rid f" and g: "ft_loads crc (mem (chip f)) g"
  shows "\<exists>f'. tls_ft_param_init hw crc True \<lparr>fflash = f, gftParam = replicate 220 0\<rparr> = (1, \<lparr>fflash = f', gftParam = g\<rparr>) \<and>
    ft_loads crc (mem (chip f')) g"
proof -
  from boot_spec [OF f(1), of crc] obtain f' where
    bt: "tls_ft_param_init hw crc True \<lparr>fflash = f, gftParam = replicate 220 0\<rparr> =
       (let (r, g) = ft_check crc (ft_copy mem f True);
            (r, g) = (if r = 0 then ft_check crc (ft_copy mem f False) else (r, g))
        in (r, \<lparr>fflash = f', gftParam = (if r = 1 then g else if r = 2 then take 132 g @ drop 132 ft_blank else ft_blank)\<rparr>))"
    and m: "mem (chip f') = mem (chip f)" by blast
  have cp: "ft_copy mem f True = mem_read (mem (chip f)) 0x1000 220" "ft_copy mem f False = mem_read (mem (chip f)) 0 220"
    by (simp_all add: ft_copy_def ft_base_def)
  show ?thesis using bt g unfolding cp by (auto simp: ft_loads_def ft_intact_def case_prod_beta Let_def m)
qed

end

lemma via_backup_reads:
  assumes "ft_backup hw crc ok s = Some (r, s')" "fst (ft_param_init hw crc 0x8001000 ft_blank (fflash s)) = 0"
  shows "via hw K (chip (fflash s)) (fflash s')"
proof -
  obtain r1 g1 f1 where 1: "ft_param_init hw crc 0x8001000 ft_blank (fflash s) = (r1, g1, f1)" by (metis prod_cases3)
  then have "fflash s' = f1" using assms by (auto simp: ft_backup_def Let_def)
  then show ?thesis using via_load [OF 1 via_refl] by simp
qed

text \<open>A copy that passes the checks with the intact data \<open>g\<close> is \<open>g\<close>: a copy in the older format is changed by them.\<close>

lemma checked_copy:
  assumes "ft_intact crc g" "fst (ft_check crc p) \<noteq> 0" "snd (ft_check crc p) = g" "length p = 220"
  shows "p = g"
proof (rule ccontr)
  assume "p \<noteq> g"
  then have g: "g = copy_into (copy_into p 14 [0xFF, 0xFF] 2) 22 [0xFF, 0xFF] 2"
    using assms(2,3) by (auto simp: ft_check_def split: if_splits)
  have "g ! 14 = 0xFF \<and> g ! 15 = 0xFF" using assms(4) by (simp add: g copy_into_def nth_append)
  moreover have "length g = 220" using assms(1) by (simp add: ft_intact_def)
  ultimately have "drop 14 g = 0xFF # 0xFF # drop 16 g" by (simp add: Cons_nth_drop_Suc [symmetric] numeral_eq_Suc)
  then have "\<not> ft_ext1_valid g" by (simp add: ft_ext1_valid_def version_no_def un16_def)
  then show False using assms(1) by (auto simp: ft_intact_def ft_check_def split: if_splits)
qed

context spi_nor_cells
begin

abbreviation (input) "rmem \<equiv> \<lambda>cl :: 'c \<times> (u32 \<times> nat \<times> 'c) list. mem (fst cl)"
abbreviation (input) "rrid \<equiv> \<lambda>cl :: 'c \<times> (u32 \<times> nat \<times> 'c) list. rid (fst cl)"

text \<open>The backup: when the second sector does not hold a copy it only reads; otherwise it writes at most the first sector. In
  both cases the first sector holds the current data afterwards.\<close>

lemma fflash_eqD: "s\<lparr>fflash := f\<rparr> = s\<lparr>fflash := f'\<rparr> \<Longrightarrow> f = f'"
  by (drule arg_cong [where f = fflash]) simp

lemma backup_phase:
  assumes s: "ft_ready cap rrid rmem crc s" and l: "ft_loads crc (rmem (chip (fflash s))) (gftParam s)"
    and b: "ft_backup (recorded hw) crc True s = Some (True, s\<lparr>fflash := f\<rparr>)"
    and K: "K = (if ft_copy rmem (fflash s) True = gftParam s then {0} else {})"
  shows "via (recorded hw) K (chip (fflash s)) f" "ft_copy rmem f False = gftParam s"
proof -
  have gi: "ft_intact crc (gftParam s)" and c: "ft_copy rmem (fflash s) True = gftParam s \<or>
      fst (ft_check crc (ft_copy rmem (fflash s) True)) = 0 \<and> ft_copy rmem (fflash s) False = gftParam s"
    using l by (simp_all add: ft_loads_def ft_copy_def ft_base_def)
  have sec: "ft_sectors cap rrid (fflash s)" using s by (simp add: ft_ready_def)
  have g1: "fst (ft_check crc (gftParam s)) = 1" using gi by (simp add: ft_intact_def)
  from rec.load_copy [OF sec length_blank, of "0x8001000" True crc]
  have i: "fst (ft_param_init (recorded hw) crc 0x8001000 ft_blank (fflash s)) = fst (ft_check crc (ft_copy rmem (fflash s) True))"
    by (auto simp: ft_base_def)
  obtain fa where fa: "ft_backup (recorded hw) crc True s = Some (True, s\<lparr>fflash := fa\<rparr>)"
    "fst (ft_check crc (ft_copy rmem (fflash s) True)) \<noteq> 0 \<longrightarrow>
      snd (ft_check crc (ft_copy rmem fa False)) = gftParam s \<and> fst (ft_check crc (ft_copy rmem fa False)) \<noteq> 0"
    using rec.backup_spec [OF s] by blast
  have "fa = f" using b fa(1) by (auto dest: fflash_eqD)
  note bs = fa(2) [unfolded this, rule_format]
  show v: "via (recorded hw) K (chip (fflash s)) f"
    using via_backup [OF b, of "chip (fflash s)"] via_backup_reads [OF b, of K] i c by (auto simp: K)
  show "ft_copy rmem f False = gftParam s"
  proof (cases "ft_copy rmem (fflash s) True = gftParam s")
    case True
    then show ?thesis using checked_copy [OF gi, of "ft_copy rmem f False"] bs g1 by simp
  next
    case False
    then have "agree {} (mem (fst (chip f))) (mem (fst (chip (fflash s))))" using phase [OF v] K by simp
    then have "mem (fst (chip f)) = mem (fst (chip (fflash s)))" by (auto simp: agree_def)
    then show ?thesis using c False by (simp add: ft_copy_def)
  qed
qed

lemma set_cut:
  assumes s: "ft_sectors cap rrid (fflash s)" "snd (chip (fflash s)) = []" and l: "ft_loads crc (rmem (chip (fflash s))) (gftParam s)"
    and set: "op \<noteq> CMD_ALL" "length data = ft_size op" "\<And>k. alloc k"
    and g': "g' = ft_updated crc op data (gftParam s)"
  obtains f where "tls_ft_param_set (recorded hw) crc alloc op (Some data) (ft_size op) s = Some (0, s\<lparr>gftParam := g', fflash := f\<rparr>)"
    "ft_intact crc g'"
    "\<forall>m. power_cut mem (chip f) m \<longrightarrow> mem_read m 0x1000 220 \<in> {gftParam s, g'} \<or> mem_read m 0 220 = gftParam s"
proof -
  have rd: "ft_ready cap rrid rmem crc s" using s l by (simp add: ft_ready_def ft_intact_def ft_loads_def)
  obtain f1 f2 f3 f4 where p: "ft_intact crc g'"
    "ft_backup (recorded hw) crc True s = Some (True, s\<lparr>fflash := f1\<rparr>)"
    "ft_unlock (recorded hw) (s\<lparr>fflash := f1, gftParam := g'\<rparr>) = s\<lparr>gftParam := g', fflash := f2\<rparr>" "rmem (chip f2) = rmem (chip f1)"
    "ft_write_copy (recorded hw) crc True 0x8001000 (s\<lparr>gftParam := g', fflash := f2\<rparr>) = Some (True, s\<lparr>gftParam := g', fflash := f3\<rparr>)"
    "ft_copy rmem f3 True = g'"
    "ft_write_copy (recorded hw) crc True 0x8000000 (s\<lparr>gftParam := g', fflash := f3\<rparr>) = Some (True, s\<lparr>gftParam := g', fflash := f4\<rparr>)"
    "ft_sectors cap rrid f4" "\<forall>b. ft_copy rmem f4 b = g'"
    "tls_ft_param_set (recorded hw) crc alloc op (Some data) (ft_size op) s = Some (0, s\<lparr>gftParam := g', fflash := f4\<rparr>)"
    by (rule rec.set_phases [where alloc = alloc, OF rd set g'])
  define K0 :: "nat set" where "K0 = (if ft_copy rmem (fflash s) True = gftParam s then {0} else {})"
  note b = backup_phase [OF rd l p(2) K0_def]
  have "via (recorded hw) {1} (chip f1) f2" using via_ft_unlock [of "recorded hw" "{1}" "chip f1" "s\<lparr>fflash := f1, gftParam := g'\<rparr>"] p(3) by simp
  then have v2: "via (recorded hw) {1} (chip f1) f3" using via_write_copy [of "recorded hw" crc True True "s\<lparr>gftParam := g', fflash := f2\<rparr>"] p(5) by (simp add: ft_base_def)
  have v3: "via (recorded hw) {0} (chip f3) f4" using via_write_copy [of "recorded hw" crc True False "s\<lparr>gftParam := g', fflash := f3\<rparr>"] p(7) by (simp add: ft_base_def)
  from phase [OF b(1)] obtain n1 where n1: "snd (chip f1) = snd (chip (fflash s)) @ n1"
    "\<forall>e \<in> set n1. \<forall>m. cut_off mem e m \<longrightarrow> K0 \<noteq> {} \<and> agree K0 m (mem (fst (chip (fflash s))))"
    by blast
  from phase [OF v2] obtain n2 where n2: "snd (chip f3) = snd (chip f1) @ n2"
    "\<forall>e \<in> set n2. \<forall>m. cut_off mem e m \<longrightarrow> {1 :: nat} \<noteq> {} \<and> agree {1} m (mem (fst (chip f1)))"
    by blast
  from phase [OF v3] obtain n3 where n3: "snd (chip f4) = snd (chip f3) @ n3"
    "\<forall>e \<in> set n3. \<forall>m. cut_off mem e m \<longrightarrow> {0 :: nat} \<noteq> {} \<and> agree {0} m (mem (fst (chip f3)))"
    by blast
  have "mem_read m 0x1000 220 \<in> {gftParam s, g'} \<or> mem_read m 0 220 = gftParam s" if m: "power_cut mem (chip f4) m" for m
  proof -
    from m consider "m = mem (fst (chip f4))" | e where "e \<in> set n1" "cut_off mem e m" | e where "e \<in> set n2" "cut_off mem e m"
      | e where "e \<in> set n3" "cut_off mem e m"
      unfolding power_cut_def n3(1) n2(1) n1(1) s(2) by auto
    then show ?thesis
    proof cases
      case 1
      then show ?thesis using p(9) by (simp add: ft_copy_def ft_base_def all_bool_eq)
    next
      case (2 e)
      then have "K0 \<noteq> {} \<and> agree K0 m (mem (fst (chip (fflash s))))" using n1(2) by blast
      then show ?thesis using agree_copy [of True m "mem (fst (chip (fflash s)))"] by (simp add: K0_def ft_copy_def ft_base_def split: if_splits)
    next
      case (3 e)
      then have "agree {1} m (mem (fst (chip f1)))" using n2(2) by blast
      then show ?thesis using agree_copy [of False m "mem (fst (chip f1))"] b(2) by (simp add: ft_copy_def ft_base_def)
    next
      case (4 e)
      then have "agree {0} m (mem (fst (chip f3)))" using n3(2) by blast
      then show ?thesis using agree_copy [of True m "mem (fst (chip f3))"] p(6) by (simp add: ft_copy_def ft_base_def)
    qed
  qed
  with p(1,10) that show thesis by blast
qed

end

section \<open>Properties\<close>

text \<open>C25. A power failure while a member is being set leaves the old or the new data. The data in memory are those a start loads from
  the chip. The member is set on the chip with the recorder, and the power fails at any moment of that run: at rest, or during one of
  the erase and program commands, which then leaves arbitrary bytes in its sector. If what is left of the second sector is noticed by
  the checks, or is a whole copy of the old or the new data, the next start loads the old or the new data, and the
  chip is again in a state from which the starts that follow load them. (All allocations of the call succeed; the checks are checksums and
  cannot notice every damage.)
\<close>

theorem ft_set_crash:
  assumes "spi_nor_cells hw mem wel prot cap rid sr1 sr2"
    and "ft_sectors cap (\<lambda>cl. rid (fst cl)) (fflash s)" "snd (chip (fflash s)) = []"
    and "ft_loads crc (mem (fst (chip (fflash s)))) (gftParam s)" "op \<noteq> CMD_ALL" "length data = ft_size op" "\<And>k. alloc k"
  shows "\<exists>s'. tls_ft_param_set (recorded hw) crc alloc op (Some data) (ft_size op) s = Some (0, s') \<and>
    ft_field op (gftParam s') = data \<and>
    (\<forall>f. power_cut mem (chip (fflash s')) (mem (chip f)) \<longrightarrow> ft_sectors cap rid f \<longrightarrow>
      fst (ft_check crc (mem_read (mem (chip f)) 0x1000 220)) = 0 \<or> mem_read (mem (chip f)) 0x1000 220 \<in> {gftParam s, gftParam s'} \<longrightarrow>
      (\<exists>f' g. tls_ft_param_init hw crc True \<lparr>fflash = f, gftParam = replicate 220 0\<rparr> = (1, \<lparr>fflash = f', gftParam = g\<rparr>) \<and>
         g \<in> {gftParam s, gftParam s'} \<and> ft_loads crc (mem (chip f')) g))"
proof -
  let ?g' = "ft_updated crc op data (gftParam s)"
  have gi: "ft_intact crc (gftParam s)" using assms(4) by (simp add: ft_loads_def)
  obtain f1 where f1: "tls_ft_param_set (recorded hw) crc alloc op (Some data) (ft_size op) s = Some (0, s\<lparr>gftParam := ?g', fflash := f1\<rparr>)"
    "ft_intact crc ?g'" "\<forall>m. power_cut mem (chip f1) m \<longrightarrow> mem_read m 0x1000 220 \<in> {gftParam s, ?g'} \<or> mem_read m 0 220 = gftParam s"
    by (rule spi_nor_cells.set_cut [where alloc = alloc, OF assms refl])
  have "\<exists>g \<in> {gftParam s, ?g'}. ft_loads crc (mem (chip f)) g"
    if "power_cut mem (chip f1) (mem (chip f))"
      "fst (ft_check crc (mem_read (mem (chip f)) 0x1000 220)) = 0 \<or> mem_read (mem (chip f)) 0x1000 220 \<in> {gftParam s, ?g'}" for f
    using that f1(2,3) gi by (auto simp: ft_loads_def)
  moreover have "ft_field op ?g' = data" using gi assms(5,6) by (simp add: ft_intact_def updated_spec(3))
  ultimately show ?thesis using f1(1) spi_nor_cells.boot_finds [OF assms(1)] by (fastforce simp del: mem_read_def)
qed

definition demo_rec :: "(nor_chip \<times> (u32 \<times> nat \<times> nor_chip) list) ft" where
  "demo_rec = (let g = ft_updated get_crc32 CMD_TX_DC (replicate 4 1) ft_blank;
       c = (chip demo_fls)\<lparr>cells := mem_write (\<lambda>_. 0x5A) 0 g\<rparr>
     in \<lparr>fflash = \<lparr>chip = (c, []), rsa = rsa demo_fls, cmd_addr = cmd_addr demo_fls, flash_addr = flash_addr demo_fls,
          flash_cr = flash_cr demo_fls, encrypt_ctrl = encrypt_ctrl demo_fls, inside_fls = inside_fls demo_fls,
          sem_taken = sem_taken demo_fls, gsflscache = gsflscache demo_fls, gsSector = gsSector demo_fls\<rparr>, gftParam = g\<rparr>)"

theorem ft_set_crash_witness:
  "\<exists>s' f f' g. tls_ft_param_set (recorded nor_hw) get_crc32 (\<lambda>_. True) CMD_TX_DC (Some (replicate 4 2)) 4 demo_rec = Some (0, s') \<and>
    power_cut cells (chip (fflash s')) (cells (chip f)) \<and>
    tls_ft_param_init nor_hw get_crc32 True \<lparr>fflash = f, gftParam = replicate 220 0\<rparr> = (1, \<lparr>fflash = f', gftParam = g\<rparr>) \<and>
    ft_field CMD_TX_DC g \<in> {replicate 4 1, replicate 4 2}"
proof -
  let ?rid = "\<lambda>c. ucast (jedec c) :: u8"
  have d: "length (replicate 4 (b :: u8)) = ft_size CMD_TX_DC" for b by (simp add: ft_size_def)
  have n: "ft_size CMD_TX_DC = 4" by (simp add: ft_size_def)
  note u = updated_spec(1,2,3) [OF length_blank _ d [of 1], where crc = get_crc32, simplified]
  have sec: "ft_sectors 0x2000000 (\<lambda>cl. ?rid (fst cl)) (fflash demo_rec)"
    by (simp add: ft_sectors_def demo_rec_def Let_def demo_fls_def sr_chips_def)
  have l: "ft_loads get_crc32 (cells (fst (chip (fflash demo_rec)))) (gftParam demo_rec)"
  proof -
    have "mem_read (mem_write (\<lambda>_. 0x5A) 0 (ft_updated get_crc32 CMD_TX_DC (replicate 4 1) ft_blank)) 0x1000 220 = mem_read (\<lambda>_. 0x5A) 0x1000 220"
      by (rule mem_read_mem_write_other) (simp add: u)
    moreover have "mem_read (mem_write (\<lambda>_. 0x5A) 0 (ft_updated get_crc32 CMD_TX_DC (replicate 4 1) ft_blank)) 0 220 = ft_updated get_crc32 CMD_TX_DC (replicate 4 1) ft_blank"
      using mem_read_mem_write [of "\<lambda>_. 0x5A" 0 "ft_updated get_crc32 CMD_TX_DC (replicate 4 1) ft_blank"] by (simp add: u)
    ultimately show ?thesis using check_fill by (simp add: ft_loads_def ft_intact_def demo_rec_def Let_def u)
  qed
  have rd: "ft_ready 0x2000000 (\<lambda>cl. ?rid (fst cl)) (\<lambda>cl. cells (fst cl)) get_crc32 demo_rec"
    using sec l by (simp add: ft_ready_def ft_loads_def ft_intact_def)
  have e: "snd (chip (fflash demo_rec)) = []" by (simp add: demo_rec_def Let_def)
  from ft_set_crash [OF nor.spi_nor_cells_axioms sec e l _ d [of 2], of "\<lambda>_. True", unfolded n] obtain s' where
    s': "tls_ft_param_set (recorded nor_hw) get_crc32 (\<lambda>_. True) CMD_TX_DC (Some (replicate 4 2)) 4 demo_rec = Some (0, s')"
    and v: "ft_field CMD_TX_DC (gftParam s') = replicate 4 2"
    and boot: "\<forall>f. power_cut cells (chip (fflash s')) (cells (chip f)) \<longrightarrow> ft_sectors 0x2000000 ?rid f \<longrightarrow>
      fst (ft_check get_crc32 (mem_read (cells (chip f)) 0x1000 220)) = 0 \<or>
        mem_read (cells (chip f)) 0x1000 220 \<in> {gftParam demo_rec, gftParam s'} \<longrightarrow>
      (\<exists>f' g. tls_ft_param_init nor_hw get_crc32 True \<lparr>fflash = f, gftParam = replicate 220 0\<rparr> = (1, \<lparr>fflash = f', gftParam = g\<rparr>) \<and>
        g \<in> {gftParam demo_rec, gftParam s'} \<and> ft_loads get_crc32 (cells (chip f')) g)"
    by blast
  from nor.rec.set_spec [OF rd _ d [of 2], of "\<lambda>_. True"] s' have st: "ft_copy (\<lambda>cl. cells (fst cl)) (fflash s') True = gftParam s'"
    by (auto simp: n ft_stored_def)
  let ?f = "demo_fls\<lparr>chip := (chip demo_fls)\<lparr>cells := cells (fst (chip (fflash s')))\<rparr>\<rparr>"
  have c: "power_cut cells (chip (fflash s')) (cells (chip ?f))" by (simp add: power_cut_def)
  have "mem_read (cells (chip ?f)) 0x1000 220 = gftParam s'" using st by (simp add: ft_copy_def ft_base_def)
  then have "mem_read (cells (chip ?f)) 0x1000 220 \<in> {gftParam demo_rec, gftParam s'}" by simp
  from boot [rule_format, OF c demo_sectors disjI2 [OF this]] obtain f' g where
    "tls_ft_param_init nor_hw get_crc32 True \<lparr>fflash = ?f, gftParam = replicate 220 0\<rparr> = (1, \<lparr>fflash = f', gftParam = g\<rparr>)"
    "g \<in> {gftParam demo_rec, gftParam s'}" by blast
  moreover have "ft_field CMD_TX_DC (gftParam demo_rec) = replicate 4 1" by (simp add: demo_rec_def Let_def u)
  ultimately show ?thesis using s' c v by blast
qed

end
