(* ===== verification/Dns.thy ===== *)
theory Dns
  imports Dhcp "HOL-Library.Monad_Syntax"
begin

text \<open>
  The name server of the access point, \<^verbatim>\<open>src/app/dnsserver/dns_server.c\<close>: the comparison of a name in a query with
  the name of the device, the two replies, the handler of received packets, configuration, start and stop.
  The calls into the IP stack are recorded in order in \<open>dns_log\<close>; what the handler asks its
  surroundings (allocations, the provisioning mode, the state of the station interface) is the record \<open>dns_env\<close>.
  \<open>None\<close> is an access outside an object.
\<close>

unbundle bit_operations_syntax

section \<open>Data\<close>

abbreviation (input) "DNSS_ERR_SUCCESS \<equiv> 0 :: int"
abbreviation (input) "DNSS_ERR_LINKDOWN \<equiv> 1 :: int"
abbreviation (input) "DNSS_ERR_PARAM \<equiv> 2 :: int"
abbreviation (input) "DNSS_ERR_MEM \<equiv> 3 :: int"
abbreviation (input) "DNS_DEFAULT_TTL \<equiv> 3600 :: u32"
abbreviation (input) "DNS_SERVER_PORT \<equiv> 53 :: u16"
abbreviation (input) "DNS_RRTYPE_A \<equiv> 1 :: u16"
abbreviation (input) "DNS_RRCLASS_IN \<equiv> 1 :: u16"
abbreviation (input) "DNS_FLAG1_RESPONSE \<equiv> 0x80 :: u8"
abbreviation (input) "DNS_FLAG2_ERR_NONE \<equiv> 0 :: u8"
abbreviation (input) "DNS_FLAG2_ERR_NAME \<equiv> 3 :: u8"
abbreviation (input) "DNS_NAME_OFFSET \<equiv> 0xC000 :: u16"
abbreviation (input) "sizeof_DNS_HEADER \<equiv> 12 :: nat"
abbreviation (input) "sizeof_DNS_QUERY \<equiv> 4 :: nat"
abbreviation (input) "sizeof_DNS_ANSWER \<equiv> 8 :: nat"

text \<open>Sockets are numbered; \<open>None\<close> is \<^verbatim>\<open>NULL\<close>.\<close>

datatype dns_call =
    Dns_new "nat option" | Dns_bind nat u16 | Dns_recv nat | Dns_remove nat | Dns_sendto "nat option" u32 u16 "u8 list"

record DNS_SERVER =
  DnsSocket :: "nat option"
  DnsName :: "u8 list"
  HostIp :: u32
  dns_log :: "dns_call list"

record dns_env =
  msg_mem :: bool
  reply_mem :: bool
  reply_pbuf :: bool
  oneshot_flag :: nat
  sta_up :: bool

definition log_dns :: "dns_call list \<Rightarrow> DNS_SERVER \<Rightarrow> DNS_SERVER" where
  "log_dns cs sv = sv\<lparr>dns_log := dns_log sv @ cs\<rparr>"

text \<open>The length of the C string at the start of a buffer.\<close>

definition strlen :: "u8 list \<Rightarrow> nat option" where
  "strlen q = (if 0 \<in> set q then Some (length (takeWhile (\<lambda>b. b \<noteq> 0) q)) else None)"

section \<open>Comparing names\<close>

text \<open>The inner loop: \<open>n\<close> bytes of a label at \<open>j\<close> with the name at \<open>i\<close>.\<close>

fun cmp_label :: "u8 list \<Rightarrow> nat \<Rightarrow> u8 list \<Rightarrow> nat \<Rightarrow> nat \<Rightarrow> bool option" where
  "cmp_label MyDns i Query j 0 = Some True"
| "cmp_label MyDns i Query j (Suc n) =
     (if length MyDns \<le> i \<or> length Query \<le> j then None
      else if MyDns ! i \<noteq> Query ! j then Some False
      else cmp_label MyDns (i + 1) Query (j + 1) n)"

text \<open>\<^verbatim>\<open>return ((*(--MyDns) == 0) ? 0 : 1)\<close>.\<close>

definition cmp_end :: "u8 list \<Rightarrow> nat \<Rightarrow> int option" where
  "cmp_end MyDns i = (if i = 0 \<or> length MyDns < i then None else Some (if MyDns ! (i - 1) = 0 then 0 else 1))"

function cmp_names :: "u8 list \<Rightarrow> nat \<Rightarrow> u8 list \<Rightarrow> nat \<Rightarrow> int option" where
  "cmp_names MyDns i Query j =
     (if length Query \<le> j then None
      else let n = Query ! j
           in if n AND 0xC0 = 0xC0 then cmp_end MyDns i
              else case cmp_label MyDns i Query (j + 1) (unat n) of
                     None \<Rightarrow> None
                   | Some False \<Rightarrow> Some 1
                   | Some True \<Rightarrow>
                       if length Query \<le> j + 1 + unat n then None
                       else if Query ! (j + 1 + unat n) = 0 then cmp_end MyDns (i + unat n + 1)
                       else cmp_names MyDns (i + unat n + 1) Query (j + 1 + unat n))"
  by pat_completeness auto
termination by (relation "measure (\<lambda>(MyDns, i, Query, j). length Query - j)") auto

declare cmp_names.simps [simp del]

definition DnsCompareName :: "u8 list \<Rightarrow> u8 list \<Rightarrow> int option" where
  "DnsCompareName MyDns Query = do {
     len \<leftarrow> strlen Query;
     if (32 :: u32) < of_nat len - 1 then Some 1 else cmp_names MyDns 0 Query 0
   }"

section \<open>Replies\<close>

definition dns_header :: "u8 list \<Rightarrow> u8 \<Rightarrow> u16 \<Rightarrow> u8 list" where
  "dns_header TansactionId flag2 answers =
     TansactionId @ [DNS_FLAG1_RESPONSE, flag2] @ le16 (htons 1) @ le16 (htons answers) @ le16 0 @ le16 0"

text \<open>A reply is built in a buffer of \<open>bufsize\<close> bytes and sent; the lengths that the IP stack takes have 16 bits.\<close>

definition dns_send :: "dns_env \<Rightarrow> u32 \<Rightarrow> u16 \<Rightarrow> nat \<Rightarrow> u8 list \<Rightarrow> DNS_SERVER \<Rightarrow> DNS_SERVER option" where
  "dns_send e Addr Port bufsize reply sv =
     (if \<not> reply_mem e then Some sv
      else if bufsize < length reply then None
      else if \<not> reply_pbuf e then Some sv
      else Some (log_dns [Dns_sendto (DnsSocket sv) Addr Port (take (length reply mod 2 ^ 16) reply)] sv))"

definition DNSNameErrGenAndSend ::
    "dns_env \<Rightarrow> u32 \<Rightarrow> u16 \<Rightarrow> u8 list \<Rightarrow> u8 list \<Rightarrow> u8 list \<Rightarrow> DNS_SERVER \<Rightarrow> DNS_SERVER option" where
  "DNSNameErrGenAndSend e Addr Port DnsQuery QueryName TansactionId sv = do {
     len \<leftarrow> strlen QueryName;
     dns_send e Addr Port ((sizeof_DNS_HEADER + (len + 1) + sizeof_DNS_QUERY + 3) div 4 * 4)
       (dns_header TansactionId DNS_FLAG2_ERR_NAME 0 @ take (len + 1) QueryName @ DnsQuery) sv
   }"

definition DNSAnswerGenAndSend ::
    "dns_env \<Rightarrow> u32 \<Rightarrow> u16 \<Rightarrow> u8 list \<Rightarrow> u8 list \<Rightarrow> u8 list \<Rightarrow> DNS_SERVER \<Rightarrow> DNS_SERVER option" where
  "DNSAnswerGenAndSend e Addr Port DnsQuery QueryName TansactionId sv = do {
     len \<leftarrow> strlen QueryName;
     dns_send e Addr Port ((sizeof_DNS_HEADER + (len + 1) + sizeof_DNS_QUERY + 2 + sizeof_DNS_ANSWER + 2 + 4 + 3) div 4 * 4)
       (dns_header TansactionId DNS_FLAG2_ERR_NONE 1 @ take (len + 1) QueryName @ DnsQuery @
        le16 (htons (DNS_NAME_OFFSET OR of_nat sizeof_DNS_HEADER)) @
        le16 (htons DNS_RRTYPE_A) @ le16 (htons DNS_RRCLASS_IN) @ le32 (htonl DNS_DEFAULT_TTL) @
        le16 (htons 4) @ le32 (HostIp sv)) sv
   }"

section \<open>A received packet\<close>

definition DNSS_RecvCb :: "dns_env \<Rightarrow> u8 list \<Rightarrow> u32 \<Rightarrow> u16 \<Rightarrow> DNS_SERVER \<Rightarrow> DNS_SERVER option" where
  "DNSS_RecvCb e P Addr Port sv =
     (if \<not> msg_mem e then Some sv
      else if length P < 3 then None
      else if P ! 2 AND DNS_FLAG1_RESPONSE \<noteq> 0 \<or> P ! 2 AND 0x78 \<noteq> 0 then Some sv
      else do {
        let pDnsName = drop sizeof_DNS_HEADER P;
        len \<leftarrow> strlen pDnsName;
        if length pDnsName < len + 1 + sizeof_DNS_QUERY then None
        else do {
          let DnsQuery = take sizeof_DNS_QUERY (drop (len + 1) pDnsName);
          if get16 DnsQuery 2 \<noteq> htons DNS_RRCLASS_IN \<and> get16 DnsQuery 0 \<noteq> htons DNS_RRTYPE_A then Some sv
          else do {
            ret \<leftarrow> DnsCompareName (DnsName sv) pDnsName;
            if ret \<noteq> 0 \<and> oneshot_flag e \<noteq> 3
            then if sta_up e then Some sv else DNSNameErrGenAndSend e Addr Port DnsQuery pDnsName (take 2 P) sv
            else DNSAnswerGenAndSend e Addr Port DnsQuery pDnsName (take 2 P) sv
          }
        }
      })"

section \<open>Configuration, start and stop\<close>

text \<open>A name argument is \<^verbatim>\<open>NULL\<close> or a buffer with a C string.\<close>

definition set_name :: "nat \<Rightarrow> u8 list \<Rightarrow> u8 list" where
  "set_name len buf = take len buf @ replicate (32 - len) 0"

definition DNSS_Config :: "u8 list option \<Rightarrow> DNS_SERVER \<Rightarrow> (int \<times> DNS_SERVER) option" where
  "DNSS_Config name sv =
     (case name of
        None \<Rightarrow> Some (DNSS_ERR_PARAM, sv)
      | Some buf \<Rightarrow> do {
          len \<leftarrow> strlen buf;
          if 32 < len then Some (DNSS_ERR_PARAM, sv)
          else Some (DNSS_ERR_SUCCESS, sv\<lparr>DnsName := set_name len buf\<rparr>)
        })"

text \<open>\<open>sock\<close> is the result of \<^verbatim>\<open>udp_new\<close>.\<close>

definition DNSS_Start :: "nat option \<Rightarrow> netif option \<Rightarrow> u8 list option \<Rightarrow> DNS_SERVER \<Rightarrow> (int \<times> DNS_SERVER) option" where
  "DNSS_Start sock Netif name sv =
     (case Netif of
        None \<Rightarrow> Some (DNSS_ERR_PARAM, sv)
      | Some nif \<Rightarrow> do {
          buf \<leftarrow> name;
          len \<leftarrow> strlen buf;
          if 32 < len then Some (DNSS_ERR_PARAM, sv)
          else if \<not> is_up nif then Some (DNSS_ERR_LINKDOWN, sv)
          else let sv = log_dns [Dns_new sock] (sv\<lparr>DnsSocket := sock, DnsName := set_name len buf, HostIp := ip_addr nif\<rparr>)
               in Some (case sock of
                    None \<Rightarrow> (DNSS_ERR_MEM, sv)
                  | Some h \<Rightarrow> (DNSS_ERR_SUCCESS, log_dns [Dns_bind h DNS_SERVER_PORT, Dns_recv h] sv))
        })"

definition DNSS_Stop :: "DNS_SERVER \<Rightarrow> DNS_SERVER" where
  "DNSS_Stop sv = (case DnsSocket sv of None \<Rightarrow> sv | Some h \<Rightarrow> log_dns [Dns_remove h] sv)"

end
