(* ===== verification/Dns_Props.thy ===== *)
theory Dns_Props
  imports Dns
begin

text \<open>
  Properties of the name server: which names it takes for its own, what it sends for a query, and that its replies
  never trigger replies. Names are lists of labels; \<open>enc_name\<close> is their form in a message and \<open>dotted\<close>
  the pattern that the comparison really uses, in which the separators stand for any byte.
\<close>

unbundle bit_operations_syntax

section \<open>Names\<close>

definition label_ok :: "u8 list \<Rightarrow> bool" where
  "label_ok l \<longleftrightarrow> l \<noteq> [] \<and> length l < 64 \<and> 0 \<notin> set l"

definition enc_name :: "u8 list list \<Rightarrow> u8 list" where
  "enc_name ls = concat (map (\<lambda>l. of_nat (length l) # l) ls)"

fun dotted :: "u8 list list \<Rightarrow> u8 option list" where
  "dotted [] = []"
| "dotted [l] = map Some l"
| "dotted (l # m # ls) = map Some l @ None # dotted (m # ls)"

definition fits :: "u8 option list \<Rightarrow> u8 list \<Rightarrow> bool" where
  "fits = list_all2 (\<lambda>x c. x = None \<or> x = Some c)"

fun join_dots :: "u8 list list \<Rightarrow> u8 list" where
  "join_dots [] = []"
| "join_dots [l] = l"
| "join_dots (l # m # ls) = l @ 0x2E # join_dots (m # ls)"

lemma fits_Some: "fits (map Some l) c \<longleftrightarrow> c = l"
  by (induction l arbitrary: c) (auto simp: fits_def list_all2_Cons1)

lemma fits_append: "length a = length c \<Longrightarrow> fits (a @ b) (c @ d) \<longleftrightarrow> fits a c \<and> fits b d"
  by (simp add: fits_def list_all2_append)

lemma fits_None: "fits (None # a) (x # c) \<longleftrightarrow> fits a c"
  by (simp add: fits_def)

lemma fits_length: "fits p c \<Longrightarrow> length c = length p"
  by (auto simp: fits_def dest: list_all2_lengthD)

lemma fits_nth: "fits p c \<Longrightarrow> i < length p \<Longrightarrow> p ! i = Some b \<Longrightarrow> c ! i = b"
  by (auto simp: fits_def list_all2_conv_all_nth)

lemma fits_join: "fits (dotted ls) (join_dots ls)"
proof (induction ls rule: dotted.induct)
  case (3 l m ls)
  then show ?case using fits_append [of "map Some l" l] by (simp add: fits_Some fits_None)
qed (simp_all add: fits_Some, simp add: fits_def)

text \<open>What fitting means: the length of the dotted name and its byte at every place but those of the separators.\<close>

lemma dotted_join_nth:
  "i < length (dotted ls) \<Longrightarrow> dotted ls ! i = None \<or> dotted ls ! i = Some (join_dots ls ! i)"
  using fits_join [of ls] by (auto simp: fits_def list_all2_conv_all_nth)

lemma fits_iff_join:
  "fits (dotted ls) name \<longleftrightarrow> length name = length (join_dots ls) \<and>
    (\<forall>i < length name. dotted ls ! i \<noteq> None \<longrightarrow> name ! i = join_dots ls ! i)"
  using dotted_join_nth [of _ ls] fits_length [OF fits_join, of ls]
  by (fastforce simp: fits_def list_all2_conv_all_nth)

lemma unat_label: "label_ok l \<Longrightarrow> unat (of_nat (length l) :: u8) = length l"
  by (simp add: label_ok_def unat_of_nat)

lemma label_head:
  assumes "label_ok l"
  shows "(of_nat (length l) :: u8) \<noteq> 0" "(of_nat (length l) :: u8) AND 0xC0 \<noteq> 0xC0"
proof -
  let ?n = "of_nat (length l) :: u8"
  show "?n \<noteq> 0" using unat_label [OF assms] assms by (auto simp: label_ok_def)
  have "\<not> bit ?n 6"
  proof
    assume b: "bit ?n 6"
    have "unat ?n < 2 ^ 6" using unat_label [OF assms] assms by (simp add: label_ok_def)
    from bit_small_unat [OF this b] show False by simp
  qed
  moreover have "bit (0xC0 :: u8) 6" by simp
  ultimately show "?n AND 0xC0 \<noteq> 0xC0" by (metis bit_and_iff)
qed

lemma enc_nonzero: "\<forall>l\<in>set ls. label_ok l \<Longrightarrow> 0 \<notin> set (enc_name ls)"
  using label_head(1) by (fastforce simp: enc_name_def label_ok_def)

lemma strlen_append: "0 \<notin> set a \<Longrightarrow> strlen (a @ 0 # r) = Some (length a)"
proof -
  assume "0 \<notin> set a"
  then have "takeWhile (\<lambda>b. b \<noteq> 0) (a @ 0 # r) = a" by (subst takeWhile_append2) auto
  then show ?thesis by (simp add: strlen_def)
qed

lemma strlen_enc: "\<forall>l\<in>set ls. label_ok l \<Longrightarrow> strlen (enc_name ls @ 0 # r) = Some (length (enc_name ls))"
  by (simp add: strlen_append enc_nonzero)

lemma length_enc: "ls \<noteq> [] \<Longrightarrow> length (enc_name ls) = length (dotted ls) + 1"
  by (induction ls rule: dotted.induct) (simp_all add: enc_name_def)

lemma dotted_last:
  "ls \<noteq> [] \<Longrightarrow> \<forall>l\<in>set ls. label_ok l \<Longrightarrow> \<exists>b. b \<noteq> 0 \<and> dotted ls \<noteq> [] \<and> dotted ls ! (length (dotted ls) - 1) = Some b"
proof (induction ls rule: dotted.induct)
  case (2 l)
  then have "l \<noteq> []" "last l \<noteq> 0" by (auto simp: label_ok_def) (metis last_in_set)
  then show ?case by (auto simp: last_conv_nth)
next
  case (3 l m ls)
  then obtain b where "b \<noteq> 0" "dotted (m # ls) \<noteq> []" "dotted (m # ls) ! (length (dotted (m # ls)) - 1) = Some b" by auto
  then show ?case by (auto simp: nth_append nth_Cons' split: if_splits)
qed simp

section \<open>The comparison\<close>

lemma cmp_label_spec:
  "i + n \<le> length my \<Longrightarrow> j + n \<le> length q \<Longrightarrow> cmp_label my i q j n = Some (take n (drop i my) = take n (drop j q))"
proof (induction n arbitrary: i j)
  case (Suc n)
  then have "take (Suc n) (drop i my) = my ! i # take n (drop (Suc i) my)" "take (Suc n) (drop j q) = q ! j # take n (drop (Suc j) q)"
    by (simp_all add: Cons_nth_drop_Suc [symmetric])
  then show ?case using Suc by simp
qed simp

lemma cmp_step:
  assumes "label_ok l" "length pre = j" "i + length l \<le> length my"
  shows "cmp_names my i (pre @ (of_nat (length l) # l) @ b # r) j =
    (if take (length l) (drop i my) \<noteq> l then Some 1
     else if b = 0 then cmp_end my (i + length l + 1)
     else cmp_names my (i + length l + 1) ((pre @ of_nat (length l) # l) @ b # r) (j + 1 + length l))"
proof -
  let ?q = "pre @ (of_nat (length l) # l) @ b # r"
  have n: "?q ! j = of_nat (length l)" and b: "?q ! (j + 1 + length l) = b" using assms(2) by (simp_all add: nth_append)
  have "cmp_label my i ?q (j + 1) (length l) = Some (take (length l) (drop i my) = l)"
    using assms(2,3) by (simp add: cmp_label_spec)
  then show ?thesis
    using assms(2) unat_label [OF assms(1)] label_head [OF assms(1)] b n
    by (subst cmp_names.simps) (simp add: Let_def)
qed

lemma cmp_encoded:
  assumes "ls \<noteq> []" "\<forall>l\<in>set ls. label_ok l" "length pre = j" "i + length (dotted ls) \<le> length my"
  shows "cmp_names my i (pre @ enc_name ls @ 0 # r) j =
    (if fits (dotted ls) (take (length (dotted ls)) (drop i my)) then cmp_end my (i + length (dotted ls) + 1) else Some 1)"
  using assms
proof (induction ls arbitrary: pre i j rule: dotted.induct)
  case (2 l)
  then show ?case using cmp_step [of l pre j i my 0 r] by (simp add: enc_name_def fits_Some)
next
  case (3 l m ls)
  let ?d = "dotted (m # ls)" and ?k = "i + length l"
  have l: "label_ok l" and m: "(of_nat (length m) :: u8) \<noteq> 0" using "3.prems" label_head(1) [of m] by auto
  have len: "?k + 1 + length ?d \<le> length my" using "3.prems" by simp
  have tk: "take (length (dotted (l # m # ls))) (drop i my) =
      take (length l) (drop i my) @ my ! ?k # take (length ?d) (drop (?k + 1) my)"
  proof -
    have "drop ?k my = my ! ?k # drop (?k + 1) my" using len by (simp add: Cons_nth_drop_Suc)
    then have "take (1 + length ?d) (drop ?k my) = my ! ?k # take (length ?d) (drop (?k + 1) my)" by simp
    moreover have "take (length l + (1 + length ?d)) (drop i my) = take (length l) (drop i my) @ take (1 + length ?d) (drop ?k my)"
      by (simp only: take_add drop_drop add.commute)
    ultimately show ?thesis by simp
  qed
  have ft: "fits (dotted (l # m # ls)) (take (length (dotted (l # m # ls))) (drop i my)) \<longleftrightarrow>
      take (length l) (drop i my) = l \<and> fits ?d (take (length ?d) (drop (?k + 1) my))"
    unfolding tk using len by (simp add: fits_append fits_None fits_Some)
  have "cmp_names my i (pre @ enc_name (l # m # ls) @ 0 # r) j =
      (if take (length l) (drop i my) \<noteq> l then Some 1
       else cmp_names my (?k + 1) ((pre @ of_nat (length l) # l) @ enc_name (m # ls) @ 0 # r) (j + 1 + length l))"
    using cmp_step [OF l "3.prems"(3), of i my "of_nat (length m)" "m @ enc_name ls @ 0 # r"] len m by (simp add: enc_name_def)
  moreover have "cmp_names my (?k + 1) ((pre @ of_nat (length l) # l) @ enc_name (m # ls) @ 0 # r) (j + 1 + length l) =
      (if fits ?d (take (length ?d) (drop (?k + 1) my)) then cmp_end my (?k + 1 + length ?d + 1) else Some 1)"
    using "3.prems" len by (intro "3.IH") auto
  moreover have "i + length (dotted (l # m # ls)) + 1 = ?k + 1 + length ?d + 1" by simp
  ultimately show ?case unfolding ft by presburger
qed simp

text \<open>The name of the device is followed by zero bytes.\<close>

abbreviation (input) "dns_field name \<equiv> name @ replicate (32 - length name) (0 :: u8)"

lemma fits_field:
  assumes "ls \<noteq> []" "\<forall>l\<in>set ls. label_ok l" "0 \<notin> set name" "length name \<le> 32" "length (dotted ls) \<le> 32"
    and "fits (dotted ls) (take (length (dotted ls)) (dns_field name))"
  shows "length (dotted ls) \<le> length name"
proof (rule ccontr)
  let ?d = "length (dotted ls)"
  assume n: "\<not> ?thesis"
  moreover from dotted_last [OF assms(1,2)] obtain b where b: "b \<noteq> 0" "dotted ls \<noteq> []" "dotted ls ! (?d - 1) = Some b" by blast
  moreover have "?d - 1 < ?d" using b(2) by simp
  moreover have "take ?d (dns_field name) ! (?d - 1) = 0" using b(2) assms(5) n by (simp add: nth_append) linarith
  ultimately show False using fits_nth [OF assms(6), of "?d - 1" b] by simp
qed

lemma compare_field:
  assumes "ls \<noteq> []" "\<forall>l\<in>set ls. label_ok l" "0 \<notin> set name" "length name \<le> 32" "length (enc_name ls) < 2 ^ 16"
  shows "DnsCompareName (dns_field name) (enc_name ls @ 0 # r) =
    (if \<not> fits (dotted ls) name then Some 1 else if length name = 32 then None else Some 0)"
proof -
  let ?d = "length (dotted ls)" and ?q = "enc_name ls @ 0 # r"
  have e: "length (enc_name ls) = ?d + 1" by (rule length_enc [OF assms(1)])
  have "(of_nat (length (enc_name ls)) - 1 :: u32) = of_nat ?d" using e by simp
  moreover have "?d < 2 ^ 32" using assms(5) e by simp
  ultimately have u: "(32 :: u32) < of_nat (length (enc_name ls)) - 1 \<longleftrightarrow> 32 < ?d" using u32_of_nat_less [of 32 ?d] by simp
  have q: "DnsCompareName my ?q = (if 32 < ?d then Some 1 else cmp_names my 0 ?q 0)" for my
    unfolding DnsCompareName_def strlen_enc [OF assms(2)] using u by simp
  show ?thesis
  proof (cases "32 < ?d")
    case True
    then have "\<not> fits (dotted ls) name" using assms(4) fits_length by fastforce
    then show ?thesis using True q by simp
  next
    case False
    have c: "DnsCompareName (dns_field name) ?q =
        (if fits (dotted ls) (take ?d (dns_field name)) then cmp_end (dns_field name) (?d + 1) else Some 1)"
      unfolding q using cmp_encoded [OF assms(1,2), of "[]" 0 0 "dns_field name" r] False assms(4) by (simp only: append_Nil if_False list.size drop_0 add_0 length_append length_replicate)
    show ?thesis
    proof (cases "fits (dotted ls) (take ?d (dns_field name))")
      case True
      have d: "?d \<le> length name" by (rule fits_field [OF assms(1-4) _ True]) (use False in linarith)
      have "take ?d (dns_field name) = take ?d name" using d by (simp only: take_append) simp
      then have "fits (dotted ls) (take ?d name)" using True by (simp only:)
      then have eq: "fits (dotted ls) name \<longleftrightarrow> ?d = length name" using fits_length [of "dotted ls" name] by auto
      have z: "dns_field name ! ?d = 0 \<longleftrightarrow> ?d = length name" if "?d < 32"
      proof (cases "?d < length name")
        case True
        then have "name ! ?d \<noteq> 0" using assms(3) by (metis nth_mem)
        then show ?thesis using True by (simp add: nth_append)
      qed (use d that in \<open>simp add: nth_append\<close>)
      have "cmp_end (dns_field name) (?d + 1) = (if ?d < 32 then Some (if ?d = length name then 0 else 1) else None)"
        using z assms(4) False by (simp add: cmp_end_def)
      then show ?thesis unfolding c using True eq d assms(4) by auto
    next
      case n: False
      have "take ?d (dns_field name) = name" if "fits (dotted ls) name" using fits_length [OF that] by simp
      then show ?thesis using c n by auto
    qed
  qed
qed


section \<open>A query\<close>

definition dns_query :: "u8 list \<Rightarrow> u8 \<Rightarrow> u8 list \<Rightarrow> u8 list list \<Rightarrow> u8 list \<Rightarrow> u8 list \<Rightarrow> u8 list \<Rightarrow> u8 list" where
  "dns_query tid fl h ls ty cl rest = tid @ [fl] @ h @ enc_name ls @ [0] @ ty @ cl @ rest"

text \<open>The replies, byte by byte.\<close>

definition dns_name_error :: "u8 list \<Rightarrow> u8 list list \<Rightarrow> u8 list \<Rightarrow> u8 list \<Rightarrow> u8 list" where
  "dns_name_error tid ls ty cl = tid @ [0x80, 3, 0, 1, 0, 0, 0, 0, 0, 0] @ enc_name ls @ [0] @ ty @ cl"

definition dns_answer :: "u8 list \<Rightarrow> u8 list list \<Rightarrow> u8 list \<Rightarrow> u8 list \<Rightarrow> u32 \<Rightarrow> u8 list" where
  "dns_answer tid ls ty cl ip = tid @ [0x80, 0, 0, 1, 0, 1, 0, 0, 0, 0] @ enc_name ls @ [0] @ ty @ cl @
     [0xC0, 12, 0, 1, 0, 1, 0, 0, 0x0E, 0x10, 0, 4] @ le32 ip"

lemma dns_header_bytes:
  "dns_header tid f 0 = tid @ [0x80, f, 0, 1, 0, 0, 0, 0, 0, 0]" "dns_header tid f 1 = tid @ [0x80, f, 0, 1, 0, 1, 0, 0, 0, 0]"
  by (simp_all add: dns_header_def htons_def le16_def un16_def)

lemma dns_answer_bytes:
  "le16 (htons (DNS_NAME_OFFSET OR of_nat sizeof_DNS_HEADER)) @ le16 (htons DNS_RRTYPE_A) @ le16 (htons DNS_RRCLASS_IN) @
     le32 (htonl DNS_DEFAULT_TTL) @ le16 (htons 4) @ le32 ip = [0xC0, 12, 0, 1, 0, 1, 0, 0, 0x0E, 0x10, 0, 4] @ le32 ip"
  by (simp add: htonl_def un32_def htons_def le16_def un16_def le32_def)

lemma dns_send_short:
  "reply_mem e \<Longrightarrow> reply_pbuf e \<Longrightarrow> length reply \<le> bufsize \<Longrightarrow> length reply < 2 ^ 16 \<Longrightarrow>
   dns_send e a p bufsize reply sv = Some (log_dns [Dns_sendto (DnsSocket sv) a p reply] sv)"
  by (simp add: dns_send_def)

lemma div4: "n \<le> (n + 3) div 4 * 4" for n :: nat
  by linarith

lemma name_error_sent:
  assumes "\<forall>l\<in>set ls. label_ok l" "length (enc_name ls) \<le> 254" "length tid = 2" "length ty = 2" "length cl = 2" "reply_mem e" "reply_pbuf e"
  shows "DNSNameErrGenAndSend e a p (ty @ cl) (enc_name ls @ 0 # r) tid sv =
    Some (log_dns [Dns_sendto (DnsSocket sv) a p (dns_name_error tid ls ty cl)] sv)"
proof -
  have "length (dns_name_error tid ls ty cl) = 12 + (length (enc_name ls) + 1) + 4" using assms(3-5) by (simp add: dns_name_error_def)
  then show ?thesis
    unfolding DNSNameErrGenAndSend_def strlen_enc [OF assms(1)] dns_header_bytes
    using dns_send_short [OF assms(6,7), of "dns_name_error tid ls ty cl"] assms(2) div4 [of "12 + (length (enc_name ls) + 1) + 4"]
    by (simp add: dns_name_error_def)
qed

lemma answer_sent:
  assumes "\<forall>l\<in>set ls. label_ok l" "length (enc_name ls) \<le> 254" "length tid = 2" "length ty = 2" "length cl = 2" "reply_mem e" "reply_pbuf e"
  shows "DNSAnswerGenAndSend e a p (ty @ cl) (enc_name ls @ 0 # r) tid sv =
    Some (log_dns [Dns_sendto (DnsSocket sv) a p (dns_answer tid ls ty cl (HostIp sv))] sv)"
proof -
  have "length (dns_answer tid ls ty cl (HostIp sv)) = 12 + (length (enc_name ls) + 1) + 4 + 2 + 8 + 2 + 4"
    using assms(3-5) by (simp add: dns_answer_def)
  then show ?thesis
    unfolding DNSAnswerGenAndSend_def strlen_enc [OF assms(1)] dns_header_bytes dns_answer_bytes
    using dns_send_short [OF assms(6,7), of "dns_answer tid ls ty cl (HostIp sv)"] assms(2)
      div4 [of "12 + (length (enc_name ls) + 1) + 4 + 2 + 8 + 2 + 4"]
    by (simp add: dns_answer_def)
qed

lemma query_parts:
  assumes "length tid = 2" "length h = 9"
  shows "3 \<le> length (dns_query tid fl h ls ty cl rest)" "dns_query tid fl h ls ty cl rest ! 2 = fl"
    "take 2 (dns_query tid fl h ls ty cl rest) = tid" "drop 12 (dns_query tid fl h ls ty cl rest) = enc_name ls @ 0 # ty @ cl @ rest"
  using assms by (simp_all add: dns_query_def nth_append)

lemma query_is_A_or_IN:
  assumes "length ty = 2" "length cl = 2" "ty = [0, 1] \<or> cl = [0, 1]"
  shows "get16 (ty @ cl) 2 = htons DNS_RRCLASS_IN \<or> get16 (ty @ cl) 0 = htons DNS_RRTYPE_A"
  using assms by (auto simp: get16_def htons_def un16_def le16_def)

lemma recv_query:
  assumes "length tid = 2" "length h = 9" "length ty = 2" "length cl = 2" "ty = [0, 1] \<or> cl = [0, 1]"
    and "fl AND 0x80 = 0" "fl AND 0x78 = 0" "\<forall>l\<in>set ls. label_ok l" "msg_mem e"
  shows "DNSS_RecvCb e (dns_query tid fl h ls ty cl rest) a p sv =
    DnsCompareName (DnsName sv) (enc_name ls @ 0 # ty @ cl @ rest) \<bind> (\<lambda>ret.
      if ret \<noteq> 0 \<and> oneshot_flag e \<noteq> 3
      then if sta_up e then Some sv else DNSNameErrGenAndSend e a p (ty @ cl) (enc_name ls @ 0 # ty @ cl @ rest) tid sv
      else DNSAnswerGenAndSend e a p (ty @ cl) (enc_name ls @ 0 # ty @ cl @ rest) tid sv)"
proof -
  let ?q = "enc_name ls @ 0 # ty @ cl @ rest"
  have tk: "take 4 (drop (length (enc_name ls) + 1) ?q) = ty @ cl" using assms(3,4) by simp
  have len: "\<not> length ?q < length (enc_name ls) + 1 + 4" using assms(3,4) by simp
  have ch: "\<not> (get16 (ty @ cl) 2 \<noteq> htons DNS_RRCLASS_IN \<and> get16 (ty @ cl) 0 \<noteq> htons DNS_RRTYPE_A)" using query_is_A_or_IN [OF assms(3-5)] by blast
  have lp: "\<not> length (dns_query tid fl h ls ty cl rest) < 3" using query_parts(1) [OF assms(1,2)] by (simp add: not_less)
  show ?thesis
    unfolding DNSS_RecvCb_def Let_def query_parts(2-4) [OF assms(1,2)] strlen_enc [OF assms(8)] bind.simps(2) tk
    using len ch lp assms(6,7,9) by (simp only: if_True if_False simp_thms)
qed

lemma set_name_field: "length name \<le> 32 \<Longrightarrow> 0 \<notin> set name \<Longrightarrow> strlen (name @ 0 # r) = Some (length name) \<and> set_name (length name) (name @ 0 # r) = dns_field name"
  by (simp add: strlen_append set_name_def)

section \<open>The reachable states\<close>

text \<open>A UDP packet over IPv4 has at most 65507 bytes.\<close>

inductive dns_reach :: "DNS_SERVER \<Rightarrow> bool" where
  boot: "dns_reach \<lparr>DnsSocket = None, DnsName = replicate 32 0, HostIp = 0, dns_log = []\<rparr>"
| config: "dns_reach sv \<Longrightarrow> DNSS_Config name sv = Some (ret, sv') \<Longrightarrow> dns_reach sv'"
| start: "dns_reach sv \<Longrightarrow> DNSS_Start sock nif name sv = Some (ret, sv') \<Longrightarrow> dns_reach sv'"
| stop: "dns_reach sv \<Longrightarrow> dns_reach (DNSS_Stop sv)"
| recv: "dns_reach sv \<Longrightarrow> length P \<le> 65507 \<Longrightarrow> DNSS_RecvCb e P a p sv = Some sv' \<Longrightarrow> dns_reach sv'"

definition is_response :: "dns_call \<Rightarrow> bool" where
  "is_response c = (case c of Dns_sendto s a p b \<Rightarrow> 12 \<le> length b \<and> b ! 2 = 0x80 | _ \<Rightarrow> True)"

definition dns_inv :: "DNS_SERVER \<Rightarrow> bool" where
  "dns_inv sv \<longleftrightarrow> list_all is_response (dns_log sv) \<and> (\<exists>name. 0 \<notin> set name \<and> length name \<le> 32 \<and> DnsName sv = dns_field name)"

lemma strlen_take: "strlen buf = Some n \<Longrightarrow> 0 \<notin> set (take n buf) \<and> n < length buf"
proof -
  assume "strlen buf = Some n"
  then have n: "n = length (takeWhile (\<lambda>b. b \<noteq> 0) buf)" and z: "0 \<in> set buf" by (auto simp: strlen_def split: if_splits)
  have "take n buf = takeWhile (\<lambda>b. b \<noteq> 0) buf" unfolding n by (rule takeWhile_eq_take [symmetric])
  moreover have "n < length buf"
    using n z length_takeWhile_le [of "\<lambda>b. b \<noteq> 0" buf] takeWhile_eq_all_conv [of "\<lambda>b. b \<noteq> 0" buf] takeWhile_eq_take [of "\<lambda>b. b \<noteq> 0" buf]
    by (metis le_neq_implies_less order_refl take_all)
  ultimately show ?thesis by (auto dest: set_takeWhileD)
qed

lemma set_name_inv:
  assumes "strlen buf = Some n" "n \<le> 32"
  shows "\<exists>name. 0 \<notin> set name \<and> length name \<le> 32 \<and> set_name n buf = dns_field name"
  using strlen_take [OF assms(1)] assms(2) by (intro exI [of _ "take n buf"]) (simp add: set_name_def)

lemma dns_send_inv:
  assumes "dns_send e a p bufsize (dns_header tid f n @ r) sv = Some sv'" "dns_inv sv" "length tid = 2" "length r < 2 ^ 16 - 12"
  shows "dns_inv sv'"
  using assms by (auto simp: dns_send_def dns_inv_def log_dns_def is_response_def dns_header_def nth_append split: if_splits)

lemma recv_inv:
  assumes "DNSS_RecvCb e P a p sv = Some sv'" "dns_inv sv" "length P \<le> 65507"
  shows "dns_inv sv'"
proof -
  let ?q = "drop 12 P"
  have d: "dns_inv sv'"
    if s: "dns_send e a p bufsize (dns_header (take 2 P) f k @ take (n + 1) ?q @ take 4 (drop (n + 1) ?q) @ ext) sv = Some sv'"
      and l: "length ext \<le> 16" "n + 5 \<le> length ?q" for n f k ext bufsize
    using assms(3) l by (intro dns_send_inv [OF s assms(2)]) auto
  note d' = d [where ext = "[]", simplified]
  show ?thesis
    using assms(1,2) d d'
    by (auto simp: DNSS_RecvCb_def DNSAnswerGenAndSend_def DNSNameErrGenAndSend_def Let_def not_less bind_eq_Some_conv split: if_splits)
qed

lemma reach_inv: "dns_reach sv \<Longrightarrow> dns_inv sv"
proof (induction rule: dns_reach.induct)
  case boot
  show ?case by (auto simp: dns_inv_def intro!: exI [of _ "[]"])
next
  case (config sv name ret sv')
  then show ?case using set_name_inv
    by (auto simp: DNSS_Config_def dns_inv_def bind_eq_Some_conv not_less split: option.splits if_splits)
next
  case (start sv sock nif name ret sv')
  then show ?case using set_name_inv
    by (auto simp: DNSS_Start_def dns_inv_def bind_eq_Some_conv not_less log_dns_def is_response_def Let_def split: option.splits if_splits)
next
  case (stop sv)
  then show ?case by (auto simp: DNSS_Stop_def dns_inv_def log_dns_def is_response_def split: option.splits)
next
  case (recv sv P e a p sv')
  then show ?case using recv_inv by blast
qed


lemma query_served:
  assumes "ls \<noteq> []" "\<forall>l\<in>set ls. label_ok l" "length (enc_name ls) \<le> 254" "0 \<notin> set name" "length name < 32" "DnsName sv = dns_field name"
    and "length tid = 2" "length h = 9" "fl AND 0x80 = 0" "fl AND 0x78 = 0" "length ty = 2" "length cl = 2" "ty = [0, 1] \<or> cl = [0, 1]"
    and "msg_mem e" "reply_mem e" "reply_pbuf e"
  shows "DNSS_RecvCb e (dns_query tid fl h ls ty cl rest) a p sv =
    Some (if fits (dotted ls) name \<or> oneshot_flag e = 3
          then log_dns [Dns_sendto (DnsSocket sv) a p (dns_answer tid ls ty cl (HostIp sv))] sv
          else if sta_up e then sv
          else log_dns [Dns_sendto (DnsSocket sv) a p (dns_name_error tid ls ty cl)] sv)"
proof -
  have "DnsCompareName (DnsName sv) (enc_name ls @ 0 # ty @ cl @ rest) = Some (if fits (dotted ls) name then 0 else 1)"
    using compare_field [OF assms(1,2,4), of "ty @ cl @ rest"] assms(3,5,6) by simp
  then show ?thesis
    unfolding recv_query [OF assms(7,8,11-13,9,10,2,14)] by (simp add: name_error_sent answer_sent assms)
qed

section \<open>Properties\<close>

text \<open>The comparison of names decides a pattern match: a query for the labels \<open>ls\<close> is for the device exactly if the
  name of the device has the length of the dotted query and agrees with every label; no access leaves the
  two names. The name must be shorter than its field.\<close>

theorem dns_compare_correct:
  assumes "ls \<noteq> []" "\<forall>l\<in>set ls. label_ok l" "0 \<notin> set name" "length name < 32" "length (enc_name ls) < 2 ^ 16"
  shows "DnsCompareName (dns_field name) (enc_name ls @ 0 # r) = Some (if fits (dotted ls) name then 0 else 1)"
  unfolding compare_field [OF assms(1-3) less_imp_le [OF assms(4)] assms(5)] using assms(4) by simp

theorem dns_compare_correct_witness:
  "DnsCompareName (dns_field [97, 46, 98]) [1, 97, 1, 98, 0, 0, 1, 0, 1] = Some 0"
  using dns_compare_correct [of "[[97], [98]]" "[97, 46, 98]" "[0, 1, 0, 1]"]
  by (simp add: label_ok_def enc_name_def fits_def)

text \<open>The separator of two labels matches any byte of the name: a device called \<open>x\<close>, one byte, \<open>y\<close> takes a
  query for the two labels \<open>x\<close> and \<open>y\<close> for its own.\<close>

theorem dns_separator_unchecked:
  assumes "label_ok x" "label_ok y" "c \<noteq> 0" "length x + length y < 31"
  shows "DnsCompareName (dns_field (x @ [c] @ y)) (enc_name [x, y] @ 0 # r) = Some 0"
proof -
  have "fits (dotted [x, y]) (x @ [c] @ y)" by (simp add: fits_append fits_None fits_Some)
  moreover have "length (enc_name [x, y]) < 2 ^ 16" using assms(1,2) by (simp add: enc_name_def label_ok_def)
  ultimately show ?thesis
    using compare_field [of "[x, y]" "x @ [c] @ y" r] assms by (simp add: label_ok_def)
qed

theorem dns_separator_unchecked_witness:
  "DnsCompareName (dns_field [97, 45, 98]) [1, 97, 1, 98, 0, 0, 1, 0, 1] = Some 0"
  using dns_separator_unchecked [of "[97]" "[98]" 45 "[0, 1, 0, 1]"] by (simp add: label_ok_def enc_name_def)

text \<open>A name of 32 bytes, which configuration and start accept, has no terminator in its field: a query for it reads
  the byte behind the field.\<close>

theorem dns_name_32_overread:
  assumes "ls \<noteq> []" "\<forall>l\<in>set ls. label_ok l" "length (join_dots ls) = 32"
  shows "\<exists>sv'. DNSS_Config (Some (join_dots ls @ [0])) sv = Some (DNSS_ERR_SUCCESS, sv') \<and>
    DnsCompareName (DnsName sv') (enc_name ls @ 0 # r) = None"
proof -
  have z: "0 \<notin> set (join_dots ls)"
    using assms(2) by (induction ls rule: join_dots.induct) (auto simp: label_ok_def)
  have "length (dotted ls) = 32" using fits_length [OF fits_join] assms(3) by simp
  then have "length (enc_name ls) < 2 ^ 16" using length_enc [OF assms(1)] by simp
  then have "DnsCompareName (dns_field (join_dots ls)) (enc_name ls @ 0 # r) = None"
    using compare_field [OF assms(1,2) z] assms(3) fits_join by simp
  then show ?thesis
    using set_name_field [OF _ z, of "[]"] assms(3) by (simp add: DNSS_Config_def)
qed

theorem dns_name_32_overread_witness:
  "\<exists>sv'. DNSS_Config (Some (replicate 32 97 @ [0])) \<lparr>DnsSocket = None, DnsName = replicate 32 0, HostIp = 0, dns_log = []\<rparr> = Some (DNSS_ERR_SUCCESS, sv') \<and>
    DnsCompareName (DnsName sv') (32 # replicate 32 97 @ [0]) = None"
  using dns_name_32_overread [where ls = "[replicate 32 97]" and r = "[]" and sv = "\<lparr>DnsSocket = None, DnsName = replicate 32 0, HostIp = 0, dns_log = []\<rparr>"] by (simp add: label_ok_def enc_name_def)

text \<open>C21. What the server does with a query for the labels \<open>ls\<close>, given memory. It takes the query for its
  own exactly if its name has the length of the dotted form of \<open>ls\<close> and agrees with it at every byte of
  a label; the bytes of the name at the separators are not looked at, so that a name that differs
  from the query there is taken for it too. Such a query, and in the provisioning mode every query, is
  answered with the server's address; any other is told that the name does not exist, and gets no reply
  while the station interface is up. The reply goes to the sender with its transaction number and
  repeats the question. All accesses stay in their objects, with one exception: a name of 32 bytes
  fills its field, and for a query that matches it the comparison reads the byte behind the
  field (\<open>None\<close>).\<close>

theorem dns_query_served:
  assumes "ls \<noteq> []" "\<forall>l\<in>set ls. label_ok l" "length (enc_name ls) \<le> 254" "0 \<notin> set name" "length name \<le> 32" "DnsName sv = dns_field name"
    and "length tid = 2" "length h = 9" "fl AND 0x80 = 0" "fl AND 0x78 = 0" "length ty = 2" "length cl = 2" "ty = [0, 1] \<or> cl = [0, 1]"
    and "msg_mem e" "reply_mem e" "reply_pbuf e"
    and same: "same \<longleftrightarrow> length name = length (join_dots ls) \<and>
      (\<forall>i < length name. dotted ls ! i \<noteq> None \<longrightarrow> name ! i = join_dots ls ! i)"
  shows "DNSS_RecvCb e (dns_query tid fl h ls ty cl rest) a p sv =
    (if same \<and> length name = 32 then None
     else Some (if same \<or> oneshot_flag e = 3
                then log_dns [Dns_sendto (DnsSocket sv) a p (dns_answer tid ls ty cl (HostIp sv))] sv
                else if sta_up e then sv
                else log_dns [Dns_sendto (DnsSocket sv) a p (dns_name_error tid ls ty cl)] sv))"
proof -
  have fits: "same \<longleftrightarrow> fits (dotted ls) name" unfolding same fits_iff_join ..
  show ?thesis
  proof (cases "same \<and> length name = 32")
    case True
    then have "DnsCompareName (DnsName sv) (enc_name ls @ 0 # ty @ cl @ rest) = None"
      using compare_field [OF assms(1,2,4,5)] assms(3,6) fits by simp
    then show ?thesis unfolding recv_query [OF assms(7,8,11-13,9,10,2,14)] using True by simp
  next
    case False
    have "DnsCompareName (DnsName sv) (enc_name ls @ 0 # ty @ cl @ rest) = Some (if same then 0 else 1)"
      using compare_field [OF assms(1,2,4,5)] assms(3,6) fits False by auto
    then show ?thesis
      unfolding recv_query [OF assms(7,8,11-13,9,10,2,14)] using False by (simp add: name_error_sent answer_sent assms(2,3,7,11,12,15,16))
  qed
qed

theorem dns_query_served_witness:
  "DNSS_RecvCb \<lparr>msg_mem = True, reply_mem = True, reply_pbuf = True, oneshot_flag = 0, sta_up = False\<rparr>
     [0x12, 0x34, 1, 0, 0, 1, 0, 0, 0, 0, 0, 0, 2, 97, 98, 0, 0, 1, 0, 1] 0x0201A8C0 1024
     \<lparr>DnsSocket = Some 7, DnsName = dns_field [97, 98], HostIp = 0x0101A8C0, dns_log = []\<rparr> =
   Some \<lparr>DnsSocket = Some 7, DnsName = dns_field [97, 98], HostIp = 0x0101A8C0,
     dns_log = [Dns_sendto (Some 7) 0x0201A8C0 1024
       [0x12, 0x34, 0x80, 0, 0, 1, 0, 1, 0, 0, 0, 0, 2, 97, 98, 0, 0, 1, 0, 1, 0xC0, 12, 0, 1, 0, 1, 0, 0, 0x0E, 0x10, 0, 4, 0xC0, 0xA8, 1, 1]]\<rparr>"
  using dns_query_served [where ls = "[[97, 98]]" and name = "[97, 98]" and tid = "[0x12, 0x34]" and h = "[0, 0, 1, 0, 0, 0, 0, 0, 0]"
      and fl = 1 and ty = "[0, 1]" and cl = "[0, 1]" and rest = "[]" and a = "0x0201A8C0" and p = 1024
      and sv = "\<lparr>DnsSocket = Some 7, DnsName = dns_field [97, 98], HostIp = 0x0101A8C0, dns_log = []\<rparr>"
      and e = "\<lparr>msg_mem = True, reply_mem = True, reply_pbuf = True, oneshot_flag = 0, sta_up = False\<rparr>"]
  by (simp add: label_ok_def enc_name_def dns_query_def dns_answer_def log_dns_def le32_def)

text \<open>A device answers to the name it was given: configured with the dotted form of \<open>ls\<close>, shorter than 32 bytes, it
  answers a query for \<open>ls\<close> with its address.\<close>

theorem dns_own_name_answered:
  assumes "ls \<noteq> []" "\<forall>l\<in>set ls. label_ok l" "length (join_dots ls) < 32"
    and "length tid = 2" "length h = 9" "fl AND 0x80 = 0" "fl AND 0x78 = 0" "msg_mem e" "reply_mem e" "reply_pbuf e"
  shows "\<exists>sv'. DNSS_Config (Some (join_dots ls @ [0])) sv = Some (DNSS_ERR_SUCCESS, sv') \<and>
    DNSS_RecvCb e (dns_query tid fl h ls [0, 1] [0, 1] rest) a p sv' =
      Some (log_dns [Dns_sendto (DnsSocket sv) a p (dns_answer tid ls [0, 1] [0, 1] (HostIp sv))] sv')"
proof -
  have z: "0 \<notin> set (join_dots ls)"
    using assms(2) by (induction ls rule: join_dots.induct) (auto simp: label_ok_def)
  let ?sv = "sv\<lparr>DnsName := dns_field (join_dots ls)\<rparr>"
  have "length (enc_name ls) \<le> 254" using fits_length [OF fits_join, of ls] length_enc [OF assms(1)] assms(3) by simp
  moreover have "DnsCompareName (DnsName ?sv) (enc_name ls @ 0 # [0, 1] @ [0, 1] @ rest) = Some 0"
    using compare_field [OF assms(1,2) z] assms(3) fits_join calculation by simp
  ultimately have "DNSS_RecvCb e (dns_query tid fl h ls [0, 1] [0, 1] rest) a p ?sv =
      Some (log_dns [Dns_sendto (DnsSocket sv) a p (dns_answer tid ls [0, 1] [0, 1] (HostIp sv))] ?sv)"
    using recv_query [OF assms(4,5) _ _ _ assms(6,7,2,8), of "[0, 1]" "[0, 1]" rest a p ?sv]
      answer_sent [OF assms(2) _ assms(4) _ _ assms(9,10), of "[0, 1]" "[0, 1]" a p "[0, 1, 0, 1] @ rest" ?sv] by simp
  then show ?thesis
    using set_name_field [OF _ z, of "[]"] assms(3) by (simp add: DNSS_Config_def)
qed

theorem dns_own_name_answered_witness:
  "\<exists>sv'. DNSS_Config (Some [97, 46, 98, 0]) \<lparr>DnsSocket = Some 7, DnsName = replicate 32 0, HostIp = 3, dns_log = []\<rparr> = Some (DNSS_ERR_SUCCESS, sv') \<and>
    DNSS_RecvCb \<lparr>msg_mem = True, reply_mem = True, reply_pbuf = True, oneshot_flag = 0, sta_up = True\<rparr>
      (dns_query [1, 2] 1 (replicate 9 0) [[97], [98]] [0, 1] [0, 1] []) 9 53 sv' =
      Some (log_dns [Dns_sendto (Some 7) 9 53 (dns_answer [1, 2] [[97], [98]] [0, 1] [0, 1] 3)] sv')"
  using dns_own_name_answered [where ls = "[[97], [98]]" and tid = "[1, 2]" and h = "replicate 9 0" and fl = 1 and rest = "[]" and a = 9 and p = 53
      and e = "\<lparr>msg_mem = True, reply_mem = True, reply_pbuf = True, oneshot_flag = 0, sta_up = True\<rparr>"
      and sv = "\<lparr>DnsSocket = Some 7, DnsName = replicate 32 0, HostIp = 3, dns_log = []\<rparr>"]
  by (simp add: label_ok_def)

text \<open>C29. Replies cause no replies: whatever the server has been sent, a packet that it sent itself, and that comes back
  to it or reaches another server of this kind, is dropped. Two servers cannot keep answering each other.\<close>

theorem dns_no_reply_loop:
  assumes "dns_reach sv" "Dns_sendto s a p b \<in> set (dns_log sv)"
  shows "DNSS_RecvCb e b a' p' sv' = Some sv'"
  using reach_inv [OF assms(1)] assms(2)
  by (auto simp: dns_inv_def list_all_iff is_response_def DNSS_RecvCb_def split: dns_call.splits)

theorem dns_no_reply_loop_witness:
  "\<exists>sv b. Dns_sendto (Some 7) 9 53 b \<in> set (dns_log sv) \<and> dns_reach sv \<and>
     (\<forall>e sv'. DNSS_RecvCb e b 9 53 sv' = Some sv')"
proof -
  let ?e = "\<lparr>msg_mem = True, reply_mem = True, reply_pbuf = True, oneshot_flag = 3, sta_up = True\<rparr>"
  let ?s0 = "\<lparr>DnsSocket = None, DnsName = replicate 32 0, HostIp = 0, dns_log = []\<rparr>"
  let ?s1 = "\<lparr>DnsSocket = Some 7, DnsName = dns_field [97], HostIp = 3, dns_log = [Dns_new (Some 7), Dns_bind 7 53, Dns_recv 7]\<rparr>"
  let ?P = "dns_query [1, 2] 0 (replicate 9 0) [[98]] [0, 1] [0, 1] []"
  have "DNSS_Start (Some 7) (Some \<lparr>is_up = True, ip_addr = 3, netmask = 0\<rparr>) (Some [97, 0]) ?s0 = Some (0, ?s1)"
    by (simp add: DNSS_Start_def strlen_def log_dns_def set_name_def)
  then have r1: "dns_reach ?s1" using dns_reach.boot dns_reach.start by blast
  have "length ?P \<le> 65507" by (simp add: dns_query_def enc_name_def)
  moreover have "DNSS_RecvCb ?e ?P 9 53 ?s1 = Some (log_dns [Dns_sendto (Some 7) 9 53 (dns_answer [1, 2] [[98]] [0, 1] [0, 1] 3)] ?s1)"
    using query_served [where ls = "[[98]]" and name = "[97]" and tid = "[1, 2]" and h = "replicate 9 0" and fl = 0 and ty = "[0, 1]" and cl = "[0, 1]"
        and rest = "[]" and a = 9 and p = 53 and sv = ?s1 and e = ?e]
    by (simp add: label_ok_def enc_name_def)
  ultimately have r: "dns_reach (log_dns [Dns_sendto (Some 7) 9 53 (dns_answer [1, 2] [[98]] [0, 1] [0, 1] 3)] ?s1)" (is "dns_reach ?s2")
    using r1 dns_reach.recv by blast
  have m: "Dns_sendto (Some 7) 9 53 (dns_answer [1, 2] [[98]] [0, 1] [0, 1] 3) \<in> set (dns_log ?s2)" by (simp add: log_dns_def)
  show ?thesis by (intro exI conjI allI) (rule m, rule r, rule dns_no_reply_loop [OF r m])
qed

end
