(* ===== verification/Pwm.thy ===== *)
theory Pwm
  imports Cpu_Pmu "HOL-Library.Monad_Syntax"
begin

text \<open>
  The pulse width modulator, \<^verbatim>\<open>platform/drivers/pwm/wm_pwm.c\<close>: five channels that share the registers of the unit. The
  settings of a channel are spread over bit fields of nine registers; channel 4 has registers of its own and differs
  in most operations. \<open>pwm_view\<close> is the abstract state of a channel.
  An operation returns its result (0 or -1) and the new state.
\<close>

unbundle bit_operations_syntax

section \<open>Registers and parameters\<close>

abbreviation (input) "HR_PWM_CLKDIV01 \<equiv> 0x40011E00 :: nat"
abbreviation (input) "HR_PWM_CTL \<equiv> 0x40011E08 :: nat"
abbreviation (input) "HR_PWM_PERIOD \<equiv> 0x40011E0C :: nat"
abbreviation (input) "HR_PWM_PNUM \<equiv> 0x40011E10 :: nat"
abbreviation (input) "HR_PWM_CMPDAT \<equiv> 0x40011E14 :: nat"
abbreviation (input) "HR_PWM_DTCTL \<equiv> 0x40011E18 :: nat"
abbreviation (input) "HR_PWM_INTEN \<equiv> 0x40011E1C :: nat"
abbreviation (input) "HR_PWM_BRKCTL \<equiv> 0x40011E28 :: nat"
abbreviation (input) "HR_PWM_CH4_REG1 \<equiv> 0x40011E2C :: nat"
abbreviation (input) "HR_PWM_CH4_REG2 \<equiv> 0x40011E30 :: nat"
abbreviation (input) "HR_PWM_CAP2CTL \<equiv> 0x40011E38 :: nat"
abbreviation (input) "PWM_IRQn \<equiv> 22 :: nat"
abbreviation (input) "PWM_CHANNEL_MAX_NUM \<equiv> 5 :: nat"
abbreviation (input) "WM_SUCCESS \<equiv> 0 :: int"
abbreviation (input) "WM_FAILED \<equiv> - 1 :: int"

datatype tls_pwm_out_mode =
    WM_PWM_OUT_MODE_BRAKE | WM_PWM_OUT_MODE_ALLSYC | WM_PWM_OUT_MODE_2SYC | WM_PWM_OUT_MODE_MC | WM_PWM_OUT_MODE_INDPT

datatype tls_pwm_cap_int_type =
    WM_PWM_CAP_RISING_EDGE_INT | WM_PWM_CAP_FALLING_EDGE_INT | WM_PWM_CAP_RISING_FALLING_EDGE_INT | WM_PWM_CAP_DMA_INT

datatype tls_pwm_cnt_type =
    WM_PWM_CNT_TYPE_EDGE_ALLGN_CAP | WM_PWM_CNT_TYPE_EDGE_ALIGN_OUT | WM_PWM_CNT_TYPE_CENTER_ALIGN

datatype tls_pwm_loop_type = WM_PWM_LOOP_TYPE_SINGLE | WM_PWM_LOOP_TYPE_LOOP

datatype tls_pwm_brake_out_level = WM_PWM_BRAKE_OUT_HIGH | WM_PWM_BRAKE_OUT_LOW

record pwm_init_param =
  pp_mode :: tls_pwm_out_mode
  pp_channel :: nat
  pp_clkdiv :: u16
  pp_period :: u8
  pp_duty :: u8
  pp_dten :: bool
  pp_dtclkdiv :: u8
  pp_dtcnt :: u8
  pp_cnt_type :: tls_pwm_cnt_type
  pp_loop_type :: tls_pwm_loop_type
  pp_inverse_en :: bool
  pp_pnum :: u8
  pp_pnum_int :: bool

record pwm_state = mcu +
  pwm_callback :: "nat option"

section \<open>Interrupt\<close>

definition PWM_IRQHandler :: "'a pwm_state_scheme \<Rightarrow> nat list" where
  "PWM_IRQHandler s = (case pwm_callback s of None \<Rightarrow> [] | Some f \<Rightarrow> [f])"

definition tls_pwm_isr_register :: "nat option \<Rightarrow> 'a pwm_state_scheme \<Rightarrow> 'a pwm_state_scheme" where
  "tls_pwm_isr_register cb s = tls_irq_enable PWM_IRQn (s\<lparr>pwm_callback := cb\<rparr>)"

section \<open>Settings of a channel\<close>

text \<open>\<^verbatim>\<open>temp = read(r) & ~m; temp |= v; write(r, temp)\<close>.\<close>

definition reg_put :: "nat \<Rightarrow> u32 \<Rightarrow> u32 \<Rightarrow> 'a mcu_scheme \<Rightarrow> 'a mcu_scheme" where
  "reg_put r m v s = tls_reg_write32 r ((tls_reg_read32 r s AND NOT m) OR v) s"

definition reg_switch :: "nat \<Rightarrow> u32 \<Rightarrow> bool \<Rightarrow> 'a mcu_scheme \<Rightarrow> 'a mcu_scheme" where
  "reg_switch r m en s = (if en then reg_or r m s else reg_andn r m s)"

definition tls_pwm_start :: "nat \<Rightarrow> 'a mcu_scheme \<Rightarrow> int \<times> 'a mcu_scheme" where
  "tls_pwm_start channel s =
     (if channel > PWM_CHANNEL_MAX_NUM - 1 then (WM_FAILED, s)
      else (WM_SUCCESS, reg_or HR_PWM_CTL (BIT (27 + channel)) s))"

definition tls_pwm_stop :: "nat \<Rightarrow> 'a mcu_scheme \<Rightarrow> int \<times> 'a mcu_scheme" where
  "tls_pwm_stop channel s =
     (if channel > PWM_CHANNEL_MAX_NUM - 1 then (WM_FAILED, s)
      else (WM_SUCCESS, reg_andn HR_PWM_CTL (BIT (27 + channel)) s))"

definition tls_pwm_duty_config :: "nat \<Rightarrow> u8 \<Rightarrow> 'a mcu_scheme \<Rightarrow> int \<times> 'a mcu_scheme" where
  "tls_pwm_duty_config channel duty s =
     (if channel > PWM_CHANNEL_MAX_NUM - 1 then (WM_FAILED, s)
      else if duty = 0 then (WM_SUCCESS, snd (tls_pwm_stop channel s))
      else if channel = 4 then (WM_SUCCESS, reg_put HR_PWM_CH4_REG2 0xFF00 (push_bit 8 (ucast duty)) s)
      else (WM_SUCCESS, reg_put HR_PWM_CMPDAT (push_bit (channel * 8) 0xFF) (push_bit (channel * 8) (ucast duty)) s))"

definition tls_pwm_freq_config :: "nat \<Rightarrow> u16 \<Rightarrow> u8 \<Rightarrow> 'a mcu_scheme \<Rightarrow> int \<times> 'a mcu_scheme" where
  "tls_pwm_freq_config channel clkdiv period s =
     (if channel > PWM_CHANNEL_MAX_NUM - 1 then (WM_FAILED, s)
      else if channel = 4 then
        let s = reg_put HR_PWM_CH4_REG1 0xFFFF0000 (push_bit 16 (ucast clkdiv)) s
        in (WM_SUCCESS, reg_put HR_PWM_CH4_REG1 0xFF00 (push_bit 8 (ucast period)) s)
      else
        let s = reg_put (HR_PWM_CLKDIV01 + (channel div 2) * 4) (push_bit ((channel mod 2) * 16) 0xFFFF)
                  (push_bit ((channel mod 2) * 16) (ucast clkdiv)) s
        in (WM_SUCCESS, reg_put HR_PWM_PERIOD (push_bit (channel * 8) 0xFF) (push_bit (channel * 8) (ucast period)) s))"

definition tls_pwm_out_mode_config :: "nat \<Rightarrow> tls_pwm_out_mode \<Rightarrow> 'a mcu_scheme \<Rightarrow> int \<times> 'a mcu_scheme" where
  "tls_pwm_out_mode_config channel mode s =
     (if channel > PWM_CHANNEL_MAX_NUM - 1 then (WM_FAILED, s)
      else case mode of
        WM_PWM_OUT_MODE_BRAKE \<Rightarrow> (WM_SUCCESS, reg_or HR_PWM_BRKCTL (BIT (11 + channel)) s)
      | WM_PWM_OUT_MODE_ALLSYC \<Rightarrow>
          if channel \<noteq> 0 then (WM_FAILED, s)
          else let s = reg_andn HR_PWM_BRKCTL 0xF800 s
               in (WM_SUCCESS, reg_or HR_PWM_CTL (BIT 6) s)
      | WM_PWM_OUT_MODE_2SYC \<Rightarrow>
          if channel \<noteq> 0 \<and> channel \<noteq> 2 then (WM_FAILED, s)
          else let s = reg_andn HR_PWM_BRKCTL (push_bit channel 0x1800) s;
                   s = reg_andn HR_PWM_CTL (BIT 6) s
               in (WM_SUCCESS, reg_or HR_PWM_CTL (BIT (14 + channel div 2)) s)
      | WM_PWM_OUT_MODE_MC \<Rightarrow>
          if channel \<noteq> 0 \<and> channel \<noteq> 2 then (WM_FAILED, s)
          else let s = reg_andn HR_PWM_BRKCTL (push_bit channel 0x1800) s;
                   s = reg_andn HR_PWM_CTL (BIT 6) s;
                   s = reg_andn HR_PWM_CTL (BIT (14 + channel div 2)) s
               in (WM_SUCCESS, reg_or HR_PWM_CTL (BIT (0 + channel div 2)) s)
      | WM_PWM_OUT_MODE_INDPT \<Rightarrow>
          let s = reg_andn HR_PWM_CTL (BIT 6) s;
              s = (if channel \<noteq> 4 then
                     let s = reg_andn HR_PWM_CTL (BIT (0 + channel div 2)) s
                     in reg_andn HR_PWM_CTL (BIT (14 + channel div 2)) s
                   else s)
          in (WM_SUCCESS, reg_andn HR_PWM_BRKCTL (BIT (11 + channel)) s))"

text \<open>The first of the three types falls through to the test for the second; below channel 4 it ends in the error.\<close>

definition tls_pwm_cnt_type_config :: "nat \<Rightarrow> tls_pwm_cnt_type \<Rightarrow> 'a mcu_scheme \<Rightarrow> int \<times> 'a mcu_scheme" where
  "tls_pwm_cnt_type_config channel cnt_type s =
     (if channel > PWM_CHANNEL_MAX_NUM - 1 then (WM_FAILED, s)
      else if channel = 4 then
        let s = (if cnt_type = WM_PWM_CNT_TYPE_EDGE_ALLGN_CAP
                 then reg_andn HR_PWM_CH4_REG2 (BIT 3) (reg_andn HR_PWM_CH4_REG2 (BIT 4) s) else s);
            s = (if cnt_type = WM_PWM_CNT_TYPE_EDGE_ALIGN_OUT
                 then reg_or HR_PWM_CH4_REG2 (BIT 3) (reg_andn HR_PWM_CH4_REG2 (BIT 4) s)
                 else if cnt_type = WM_PWM_CNT_TYPE_CENTER_ALIGN
                 then reg_andn HR_PWM_CH4_REG2 (BIT 3) (reg_or HR_PWM_CH4_REG2 (BIT 4) s) else s)
        in (WM_SUCCESS, s)
      else
        let s = (if cnt_type = WM_PWM_CNT_TYPE_EDGE_ALLGN_CAP \<and> channel = 0
                 then reg_andn HR_PWM_CTL (BIT 16) (reg_andn HR_PWM_CTL (BIT 17) s) else s)
        in if cnt_type = WM_PWM_CNT_TYPE_EDGE_ALIGN_OUT
           then (WM_SUCCESS, reg_or HR_PWM_CTL (BIT (16 + channel * 2)) (reg_andn HR_PWM_CTL (BIT (17 + channel * 2)) s))
           else if cnt_type = WM_PWM_CNT_TYPE_CENTER_ALIGN
           then (WM_SUCCESS, reg_andn HR_PWM_CTL (BIT (16 + channel * 2)) (reg_or HR_PWM_CTL (BIT (17 + channel * 2)) s))
           else (WM_FAILED, s))"

definition tls_pwm_loop_mode_config :: "nat \<Rightarrow> tls_pwm_loop_type \<Rightarrow> 'a mcu_scheme \<Rightarrow> int \<times> 'a mcu_scheme" where
  "tls_pwm_loop_mode_config channel loop_mode s =
     (if channel > PWM_CHANNEL_MAX_NUM - 1 then (WM_FAILED, s)
      else if channel = 4 then (WM_SUCCESS, reg_switch HR_PWM_CH4_REG2 (BIT 1) (loop_mode = WM_PWM_LOOP_TYPE_LOOP) s)
      else (WM_SUCCESS, reg_switch HR_PWM_CTL (BIT (8 + channel)) (loop_mode = WM_PWM_LOOP_TYPE_LOOP) s))"

definition tls_pwm_out_inverse_cmd :: "nat \<Rightarrow> bool \<Rightarrow> 'a mcu_scheme \<Rightarrow> int \<times> 'a mcu_scheme" where
  "tls_pwm_out_inverse_cmd channel en s =
     (if channel > PWM_CHANNEL_MAX_NUM - 1 then (WM_FAILED, s)
      else if channel = 4 then (WM_SUCCESS, reg_switch HR_PWM_CH4_REG2 (BIT 0) en s)
      else (WM_SUCCESS, reg_switch HR_PWM_CTL (BIT (2 + channel)) en s))"

definition tls_pwm_stoptime_by_period_config :: "nat \<Rightarrow> u8 \<Rightarrow> 'a mcu_scheme \<Rightarrow> int \<times> 'a mcu_scheme" where
  "tls_pwm_stoptime_by_period_config channel pnum s =
     (if channel > PWM_CHANNEL_MAX_NUM - 1 then (WM_FAILED, s)
      else if channel = 4 then (WM_SUCCESS, reg_put HR_PWM_CH4_REG1 0xFF (ucast pnum) s)
      else (WM_SUCCESS, reg_put HR_PWM_PNUM (push_bit (channel * 8) 0xFF) (push_bit (channel * 8) (ucast pnum)) s))"

definition tls_pwm_output_en_cmd :: "nat \<Rightarrow> bool \<Rightarrow> 'a mcu_scheme \<Rightarrow> int \<times> 'a mcu_scheme" where
  "tls_pwm_output_en_cmd channel en s =
     (if channel \<noteq> 0 \<and> channel \<noteq> 4 then (WM_FAILED, s)
      else if channel = 4 then (WM_SUCCESS, reg_switch HR_PWM_CAP2CTL (BIT 2) (\<not> en) s)
      else (WM_SUCCESS, reg_switch HR_PWM_CTL (BIT 12) (\<not> en) s))"

text \<open>The dead time. The word that is written last comes from the control register.\<close>

definition tls_pwm_deadzone_config :: "nat \<Rightarrow> bool \<Rightarrow> u8 \<Rightarrow> u8 \<Rightarrow> 'a mcu_scheme \<Rightarrow> int \<times> 'a mcu_scheme" where
  "tls_pwm_deadzone_config channel dten dtclkdiv dtcnt s =
     (if (channel \<noteq> 0 \<and> channel \<noteq> 2) \<or> dtclkdiv > 3 then (WM_FAILED, s)
      else if dten then
        let s = reg_put HR_PWM_DTCTL 0x00030000 (push_bit 16 (ucast dtclkdiv)) s
        in if channel = 0 \<or> channel = 1 then
             let s = reg_put HR_PWM_DTCTL 0xFF (ucast dtcnt) s
             in (WM_SUCCESS, tls_reg_write32 HR_PWM_DTCTL (tls_reg_read32 HR_PWM_CTL s OR BIT 20) s)
           else
             let s = reg_put HR_PWM_DTCTL 0xFF00 (push_bit 8 (ucast dtcnt)) s
             in (WM_SUCCESS, tls_reg_write32 HR_PWM_DTCTL (tls_reg_read32 HR_PWM_CTL s OR BIT 21) s)
      else if channel = 0 \<or> channel = 1
      then (WM_SUCCESS, tls_reg_write32 HR_PWM_DTCTL (tls_reg_read32 HR_PWM_CTL s AND NOT (BIT 20)) s)
      else (WM_SUCCESS, tls_reg_write32 HR_PWM_DTCTL (tls_reg_read32 HR_PWM_CTL s AND NOT (BIT 21)) s))"

definition tls_pwm_brake_mode_config :: "nat \<Rightarrow> bool \<Rightarrow> tls_pwm_brake_out_level \<Rightarrow> 'a mcu_scheme \<Rightarrow> int \<times> 'a mcu_scheme" where
  "tls_pwm_brake_mode_config channel en brok s =
     (if channel > PWM_CHANNEL_MAX_NUM - 1 then (WM_FAILED, s)
      else if en then
        let s = reg_switch HR_PWM_BRKCTL (BIT (3 + channel)) (brok = WM_PWM_BRAKE_OUT_HIGH) s
        in (WM_SUCCESS, reg_or HR_PWM_BRKCTL (BIT (11 + channel)) s)
      else (WM_SUCCESS, reg_andn HR_PWM_BRKCTL (BIT (11 + channel)) s))"

definition tls_pwm_stoptime_irq_cmd :: "nat \<Rightarrow> bool \<Rightarrow> 'a mcu_scheme \<Rightarrow> int \<times> 'a mcu_scheme" where
  "tls_pwm_stoptime_irq_cmd channel en s =
     (if channel > PWM_CHANNEL_MAX_NUM - 1 then (WM_FAILED, s)
      else if channel = 4 then (WM_SUCCESS, reg_switch HR_PWM_INTEN (BIT 4) en s)
      else (WM_SUCCESS, reg_switch HR_PWM_INTEN (BIT channel) en s))"

section \<open>Capture\<close>

definition tls_pwm_capture_inverse_cmd :: "nat \<Rightarrow> bool \<Rightarrow> 'a mcu_scheme \<Rightarrow> int \<times> 'a mcu_scheme" where
  "tls_pwm_capture_inverse_cmd channel en s =
     (if channel \<noteq> 0 \<and> channel \<noteq> 4 then (WM_FAILED, s)
      else if channel = 0 then (WM_SUCCESS, reg_switch HR_PWM_CTL (BIT 25) en s)
      else (WM_SUCCESS, reg_switch HR_PWM_CAP2CTL (BIT 0) en s))"

definition tls_pwm_capture_mode_config :: "nat \<Rightarrow> 'a mcu_scheme \<Rightarrow> int \<times> 'a mcu_scheme" where
  "tls_pwm_capture_mode_config channel s =
     (if channel \<noteq> 0 \<and> channel \<noteq> 4 then (WM_FAILED, s)
      else if channel = 0 then (WM_SUCCESS, reg_or HR_PWM_CTL (BIT 24) s)
      else (WM_SUCCESS, reg_or HR_PWM_CAP2CTL (BIT 1) s))"

text \<open>The three enable bits at \<open>p\<close> (rising edge, falling edge, DMA) of the register \<open>r\<close>.\<close>

definition cap_irq :: "nat \<Rightarrow> nat \<Rightarrow> tls_pwm_cap_int_type \<Rightarrow> 'a mcu_scheme \<Rightarrow> 'a mcu_scheme" where
  "cap_irq r p int_type s =
     (case int_type of
        WM_PWM_CAP_RISING_FALLING_EDGE_INT \<Rightarrow> reg_andn r (BIT (p + 2)) (reg_or r (BIT (p + 1)) (reg_or r (BIT p) s))
      | WM_PWM_CAP_RISING_EDGE_INT \<Rightarrow> reg_andn r (BIT (p + 2)) (reg_andn r (BIT (p + 1)) (reg_or r (BIT p) s))
      | WM_PWM_CAP_FALLING_EDGE_INT \<Rightarrow> reg_andn r (BIT (p + 2)) (reg_andn r (BIT p) (reg_or r (BIT (p + 1)) s))
      | WM_PWM_CAP_DMA_INT \<Rightarrow> reg_andn r (BIT (p + 1)) (reg_andn r (BIT p) (reg_or r (BIT (p + 2)) s)))"

definition tls_pwm_capture_irq_type_config :: "nat \<Rightarrow> tls_pwm_cap_int_type \<Rightarrow> 'a mcu_scheme \<Rightarrow> int \<times> 'a mcu_scheme" where
  "tls_pwm_capture_irq_type_config channel int_type s =
     (if channel \<noteq> 0 \<and> channel \<noteq> 4 then (WM_FAILED, s)
      else if channel = 0 then (WM_SUCCESS, cap_irq HR_PWM_INTEN 5 int_type s)
      else (WM_SUCCESS, cap_irq HR_PWM_CAP2CTL 8 int_type s))"

section \<open>Initialisation\<close>

definition tls_pwm_out_init :: "pwm_init_param \<Rightarrow> 'a mcu_scheme \<Rightarrow> int \<times> 'a mcu_scheme" where
  "tls_pwm_out_init p s =
     (let c = pp_channel p
      in if c > PWM_CHANNEL_MAX_NUM - 1 then (WM_FAILED, s)
         else let (ret, s) = tls_pwm_out_mode_config c (pp_mode p) s
              in if ret \<noteq> WM_SUCCESS then (WM_FAILED, s)
                 else let (ret, s) = (if pp_mode p = WM_PWM_OUT_MODE_MC
                                      then tls_pwm_deadzone_config c (pp_dten p) (pp_dtclkdiv p) (pp_dtcnt p) s else (ret, s))
                      in if ret \<noteq> WM_SUCCESS then (WM_FAILED, s)
                         else let s = snd (tls_pwm_cnt_type_config c (pp_cnt_type p) s);
                                  s = snd (tls_pwm_freq_config c (pp_clkdiv p) (pp_period p) s);
                                  s = snd (tls_pwm_duty_config c (pp_duty p) s);
                                  s = snd (tls_pwm_loop_mode_config c (pp_loop_type p) s);
                                  s = snd (tls_pwm_out_inverse_cmd c (pp_inverse_en p) s);
                                  s = snd (tls_pwm_stoptime_by_period_config c (pp_pnum p) s);
                                  s = snd (tls_pwm_stoptime_irq_cmd c (pp_pnum_int p) s);
                                  s = (if c = 0 \<or> c = 4 then snd (tls_pwm_output_en_cmd c True s) else s);
                                  s = (if pp_mode p = WM_PWM_OUT_MODE_ALLSYC \<and> c = 0 then snd (tls_pwm_output_en_cmd 4 True s) else s)
                              in (WM_SUCCESS, s))"

definition tls_pwm_cap_init :: "nat \<Rightarrow> u16 \<Rightarrow> bool \<Rightarrow> tls_pwm_cap_int_type \<Rightarrow> 'a mcu_scheme \<Rightarrow> int \<times> 'a mcu_scheme" where
  "tls_pwm_cap_init channel clkdiv inverse_en int_type s =
     (if channel \<noteq> 0 \<and> channel \<noteq> 4 then (WM_FAILED, s)
      else let s = snd (tls_pwm_freq_config channel clkdiv 0xFF s);
               s = snd (tls_pwm_capture_inverse_cmd channel inverse_en s);
               s = snd (tls_pwm_capture_mode_config channel s);
               s = snd (tls_pwm_cnt_type_config channel WM_PWM_CNT_TYPE_EDGE_ALLGN_CAP s);
               s = (if channel = 0 then snd (tls_pwm_output_en_cmd channel False s) else s);
               s = snd (tls_pwm_loop_mode_config channel WM_PWM_LOOP_TYPE_LOOP s)
           in (WM_SUCCESS, snd (tls_pwm_capture_irq_type_config channel int_type s)))"

text \<open>The divider for a frequency; a zero frequency and zero clock dividers make the division undefined.\<close>

definition pwm_clkdiv :: "u32 \<Rightarrow> 'a mcu_scheme \<Rightarrow> u16 option" where
  "pwm_clkdiv freq s = do {
     sysclk \<leftarrow> tls_sys_clk_get s;
     if freq = 0 then None else Some (ucast (apbclk sysclk * UNIT_MHZ div 256 div freq))
   }"

definition tls_pwm_freq_set :: "nat \<Rightarrow> u32 \<Rightarrow> 'a mcu_scheme \<Rightarrow> 'a mcu_scheme option" where
  "tls_pwm_freq_set channel freq s =
     (if channel > PWM_CHANNEL_MAX_NUM - 1 then Some s
      else do {
        clkdiv \<leftarrow> pwm_clkdiv freq s;
        let s = snd (tls_pwm_stop channel s);
        let s = snd (tls_pwm_freq_config channel clkdiv 255 s);
        Some (snd (tls_pwm_start channel s))
      })"

definition tls_pwm_duty_set :: "nat \<Rightarrow> u8 \<Rightarrow> 'a mcu_scheme \<Rightarrow> 'a mcu_scheme" where
  "tls_pwm_duty_set channel duty s =
     (if channel > PWM_CHANNEL_MAX_NUM - 1 then s
      else if duty = 0 then snd (tls_pwm_stop channel s)
      else snd (tls_pwm_start channel (snd (tls_pwm_duty_config channel duty s))))"

definition tls_pwm_init :: "nat \<Rightarrow> u32 \<Rightarrow> u8 \<Rightarrow> u8 \<Rightarrow> 'a mcu_scheme \<Rightarrow> (int \<times> 'a mcu_scheme) option" where
  "tls_pwm_init channel freq duty pnum s = do {
     clkdiv \<leftarrow> pwm_clkdiv freq s;
     Some (tls_pwm_out_init
       \<lparr>pp_mode = WM_PWM_OUT_MODE_INDPT, pp_channel = channel, pp_clkdiv = clkdiv, pp_period = 255, pp_duty = duty,
        pp_dten = False, pp_dtclkdiv = 0, pp_dtcnt = 0, pp_cnt_type = WM_PWM_CNT_TYPE_EDGE_ALIGN_OUT,
        pp_loop_type = WM_PWM_LOOP_TYPE_LOOP, pp_inverse_en = False, pp_pnum = pnum, pp_pnum_int = False\<rparr> s)
   }"

end
