(* ===== verification/Pwm_Props.thy ===== *)
theory Pwm_Props
  imports Pwm
begin

text \<open>
  The pulse width modulator as five independent channels: \<open>pwm_view\<close> reads the settings of a channel from the registers,
  and every operation on a channel changes the named setting of that channel and nothing of the other four.
\<close>

unbundle bit_operations_syntax

section \<open>The settings of a channel\<close>

record pwm_channel =
  v_clkdiv :: u32
  v_period :: u32
  v_duty :: u32
  v_pnum :: u32
  v_loop :: bool
  v_inverse :: bool
  v_center :: bool
  v_edge :: bool
  v_pnum_int :: bool
  v_running :: bool

definition pwm_view :: "nat \<Rightarrow> 'a mcu_scheme \<Rightarrow> pwm_channel" where
  "pwm_view c s =
     (let ctl = regs s HR_PWM_CTL; r1 = regs s HR_PWM_CH4_REG1; r2 = regs s HR_PWM_CH4_REG2
      in if c = 4
         then \<lparr>v_clkdiv = field 16 16 r1, v_period = field 8 8 r1, v_duty = field 8 8 r2, v_pnum = field 0 8 r1,
               v_loop = bit r2 1, v_inverse = bit r2 0, v_center = bit r2 4, v_edge = bit r2 3,
               v_pnum_int = bit (regs s HR_PWM_INTEN) 4, v_running = bit ctl 31\<rparr>
         else \<lparr>v_clkdiv = field (c mod 2 * 16) 16 (regs s (HR_PWM_CLKDIV01 + c div 2 * 4)),
               v_period = field (c * 8) 8 (regs s HR_PWM_PERIOD), v_duty = field (c * 8) 8 (regs s HR_PWM_CMPDAT),
               v_pnum = field (c * 8) 8 (regs s HR_PWM_PNUM), v_loop = bit ctl (8 + c), v_inverse = bit ctl (2 + c),
               v_center = bit ctl (17 + c * 2), v_edge = bit ctl (16 + c * 2),
               v_pnum_int = bit (regs s HR_PWM_INTEN) c, v_running = bit ctl (27 + c)\<rparr>)"

section \<open>Fields\<close>

lemma field_put_same:
  assumes "unat v < 2 ^ w" "p + w \<le> 32"
  shows "field p w ((x AND NOT (push_bit p (mask w))) OR push_bit p v) = v"
proof (rule bit_eqI)
  fix n
  have "bit v n \<Longrightarrow> n < w" by (rule bit_small_unat [OF assms(1)])
  then show "bit (field p w ((x AND NOT (push_bit p (mask w))) OR push_bit p v)) n \<longleftrightarrow> bit v n"
    using assms(2) by (auto simp: bits bit_or_iff bit_and_iff bit_not_iff bit_push_bit_iff bit_mask_iff)
qed

lemma field_put_other:
  assumes "unat v < 2 ^ w" "q + k \<le> p \<or> p + w \<le> q"
  shows "field q k ((x AND NOT (push_bit p (mask w))) OR push_bit p v) = field q k x"
proof (rule bit_eqI)
  fix n
  have "bit v (q + n - p) \<Longrightarrow> q + n - p < w" by (rule bit_small_unat [OF assms(1)])
  then show "bit (field q k ((x AND NOT (push_bit p (mask w))) OR push_bit p v)) n \<longleftrightarrow> bit (field q k x) n"
    using assms(2) by (auto simp: bits bit_or_iff bit_and_iff bit_not_iff bit_push_bit_iff bit_mask_iff dest: bit_u32_less)
qed

lemma bit_put_other:
  fixes x :: u32
  assumes "unat v < 2 ^ w" "n < p \<or> p + w \<le> n"
  shows "bit ((x AND NOT (push_bit p (mask w))) OR push_bit p v) n \<longleftrightarrow> bit x n"
proof -
  have "bit v (n - p) \<Longrightarrow> n - p < w" by (rule bit_small_unat [OF assms(1)])
  then show ?thesis
    using assms(2) by (auto simp: bit_or_iff bit_and_iff bit_not_iff bit_push_bit_iff bit_mask_iff dest: bit_u32_less)
qed

lemma field_or_BIT: "k < q \<or> q + w \<le> k \<Longrightarrow> field q w (x OR BIT k) = field q w x"
  by (rule bit_eqI) (auto simp: bits)

lemma field_andn_BIT: "k < q \<or> q + w \<le> k \<Longrightarrow> field q w (x AND NOT (BIT k)) = field q w x"
  by (rule bit_eqI) (auto simp: bits)

lemma put_masks:
  "(0xFF00 :: u32) = push_bit 8 (mask 8)" "(0xFFFF0000 :: u32) = push_bit 16 (mask 16)" "(0xFF :: u32) = push_bit 0 (mask 8)"
  "push_bit k (0xFF :: u32) = push_bit k (mask 8)" "push_bit k (0xFFFF :: u32) = push_bit k (mask 16)"
  "(- 65536 :: u32) = NOT (mask 16)"
  by (simp_all add: mask_eq_exp_minus_1)

lemma unat_bytes [simp]: "unat (ucast (b :: u8) :: u32) < 256" "unat (ucast (h :: u16) :: u32) < 65536"
  using unsigned_less [of b, where ?'a = nat] unsigned_less [of h, where ?'a = nat]
  by (simp_all add: unsigned_ucast_eq take_bit_nat_eq_self)

lemma regs_put: "regs (reg_put r m v s) = (regs s)(r := (regs s r AND NOT m) OR v)"
  by (simp add: reg_put_def)

lemma regs_switch: "regs (reg_switch r m en s) = (regs s)(r := (if en then regs s r OR m else regs s r AND NOT m))"
  by (simp add: reg_switch_def)

lemma channel_cases: "c \<le> 4 \<Longrightarrow> c = 0 \<or> c = 1 \<or> c = 2 \<or> c = 3 \<or> c = (4 :: nat)"
  by auto

lemma channelE:
  assumes "c \<le> (4 :: nat)"
  obtains "c = 0" | "c = 1" | "c = 2" | "c = 3" | "c = 4"
  using channel_cases [OF assms] by blast

lemmas put0 = field_put_same [where p = 0, simplified] field_put_other [where p = 0, simplified] bit_put_other [where p = 0, simplified]

lemmas put_simps = regs_put regs_switch put_masks field_put_same field_put_other bit_put_other field_or_BIT field_andn_BIT put0 bits

section \<open>One setting at a time\<close>

text \<open>The operation \<open>op\<close> on the channel \<open>c\<close> acts on the settings of that channel as \<open>f\<close>.\<close>

definition acts_on :: "nat \<Rightarrow> (pwm_channel \<Rightarrow> pwm_channel) \<Rightarrow> 'a mcu_scheme \<Rightarrow> 'a mcu_scheme \<Rightarrow> bool" where
  "acts_on c f s s' \<longleftrightarrow> (\<forall>c'\<le>4. pwm_view c' s' = (if c' = c then f (pwm_view c s) else pwm_view c' s))"

lemma acts_onI:
  assumes "pwm_view 0 s' = (if c = 0 then f (pwm_view 0 s) else pwm_view 0 s)" "pwm_view 1 s' = (if c = 1 then f (pwm_view 1 s) else pwm_view 1 s)"
    "pwm_view 2 s' = (if c = 2 then f (pwm_view 2 s) else pwm_view 2 s)" "pwm_view 3 s' = (if c = 3 then f (pwm_view 3 s) else pwm_view 3 s)"
    "pwm_view 4 s' = (if c = 4 then f (pwm_view 4 s) else pwm_view 4 s)"
  shows "acts_on c f s s'"
  unfolding acts_on_def using assms by (auto dest!: channel_cases)

lemma acts_on_id: "acts_on c (\<lambda>v. v) s s"
  by (simp add: acts_on_def)

lemma acts_start: "c \<le> 4 \<Longrightarrow> acts_on c (\<lambda>v. v\<lparr>v_running := True\<rparr>) s (snd (tls_pwm_start c s))"
  by (erule channelE; rule acts_onI; simp add: tls_pwm_start_def pwm_view_def Let_def put_simps)

lemma acts_stop: "c \<le> 4 \<Longrightarrow> acts_on c (\<lambda>v. v\<lparr>v_running := False\<rparr>) s (snd (tls_pwm_stop c s))"
  by (erule channelE; rule acts_onI; simp add: tls_pwm_stop_def pwm_view_def Let_def put_simps)

definition put_duty :: "u8 \<Rightarrow> pwm_channel \<Rightarrow> pwm_channel" where
  "put_duty d v = (if d = 0 then v\<lparr>v_running := False\<rparr> else v\<lparr>v_duty := ucast d\<rparr>)"

lemma acts_duty: "c \<le> 4 \<Longrightarrow> acts_on c (put_duty d) s (snd (tls_pwm_duty_config c d s))"
proof (cases "d = 0")
  case True
  assume c: "c \<le> 4"
  then show ?thesis using acts_stop [OF c, of s] True by (simp add: tls_pwm_duty_config_def put_duty_def acts_on_def)
next
  case False
  assume "c \<le> 4"
  then show ?thesis using False
    by (elim channelE; intro acts_onI; simp add: put_duty_def tls_pwm_duty_config_def pwm_view_def Let_def put_simps)
qed

lemma acts_freq: "c \<le> 4 \<Longrightarrow> acts_on c (\<lambda>v. v\<lparr>v_clkdiv := ucast d, v_period := ucast n\<rparr>) s (snd (tls_pwm_freq_config c d n s))"
  by (erule channelE; rule acts_onI; simp add: tls_pwm_freq_config_def pwm_view_def Let_def put_simps)

lemma acts_loop: "c \<le> 4 \<Longrightarrow> acts_on c (\<lambda>v. v\<lparr>v_loop := (l = WM_PWM_LOOP_TYPE_LOOP)\<rparr>) s (snd (tls_pwm_loop_mode_config c l s))"
  by (erule channelE; rule acts_onI; simp add: tls_pwm_loop_mode_config_def pwm_view_def Let_def put_simps)

lemma acts_inverse: "c \<le> 4 \<Longrightarrow> acts_on c (\<lambda>v. v\<lparr>v_inverse := en\<rparr>) s (snd (tls_pwm_out_inverse_cmd c en s))"
  by (erule channelE; rule acts_onI; simp add: tls_pwm_out_inverse_cmd_def pwm_view_def Let_def put_simps)

lemma acts_pnum: "c \<le> 4 \<Longrightarrow> acts_on c (\<lambda>v. v\<lparr>v_pnum := ucast n\<rparr>) s (snd (tls_pwm_stoptime_by_period_config c n s))"
  by (erule channelE; rule acts_onI; simp add: tls_pwm_stoptime_by_period_config_def pwm_view_def Let_def put_simps)

lemma acts_pnum_int: "c \<le> 4 \<Longrightarrow> acts_on c (\<lambda>v. v\<lparr>v_pnum_int := en\<rparr>) s (snd (tls_pwm_stoptime_irq_cmd c en s))"
  by (erule channelE; rule acts_onI; simp add: tls_pwm_stoptime_irq_cmd_def pwm_view_def Let_def put_simps)

definition put_cnt :: "nat \<Rightarrow> tls_pwm_cnt_type \<Rightarrow> pwm_channel \<Rightarrow> pwm_channel" where
  "put_cnt c ty v =
     (case ty of
        WM_PWM_CNT_TYPE_EDGE_ALIGN_OUT \<Rightarrow> v\<lparr>v_center := False, v_edge := True\<rparr>
      | WM_PWM_CNT_TYPE_CENTER_ALIGN \<Rightarrow> v\<lparr>v_center := True, v_edge := False\<rparr>
      | WM_PWM_CNT_TYPE_EDGE_ALLGN_CAP \<Rightarrow> if c = 0 \<or> c = 4 then v\<lparr>v_center := False, v_edge := False\<rparr> else v)"

lemma acts_cnt: "c \<le> 4 \<Longrightarrow> acts_on c (put_cnt c ty) s (snd (tls_pwm_cnt_type_config c ty s))"
  by (erule channelE; cases ty; rule acts_onI; simp add: put_cnt_def tls_pwm_cnt_type_config_def pwm_view_def Let_def put_simps)

lemma acts_mode: "c \<le> 4 \<Longrightarrow> acts_on c (\<lambda>v. v) s (snd (tls_pwm_out_mode_config c m s))"
  by (erule channelE; cases m; rule acts_onI; simp add: tls_pwm_out_mode_config_def pwm_view_def Let_def put_simps)

lemma acts_deadzone: "acts_on c (\<lambda>v. v) s (snd (tls_pwm_deadzone_config c' en d n s))"
  by (rule acts_onI; simp add: tls_pwm_deadzone_config_def pwm_view_def Let_def put_simps)

lemma acts_output: "acts_on c (\<lambda>v. v) s (snd (tls_pwm_output_en_cmd c' en s))"
  by (rule acts_onI) (simp_all add: tls_pwm_output_en_cmd_def pwm_view_def Let_def put_simps)

lemma acts_cap_inverse: "acts_on c (\<lambda>v. v) s (snd (tls_pwm_capture_inverse_cmd c' en s))"
  by (rule acts_onI; simp add: tls_pwm_capture_inverse_cmd_def pwm_view_def Let_def put_simps)

lemma acts_cap_mode: "acts_on c (\<lambda>v. v) s (snd (tls_pwm_capture_mode_config c' s))"
  by (rule acts_onI; simp add: tls_pwm_capture_mode_config_def pwm_view_def Let_def put_simps)

lemma acts_cap_irq: "acts_on c (\<lambda>v. v) s (snd (tls_pwm_capture_irq_type_config c' ty s))"
  by (cases ty; rule acts_onI; simp add: tls_pwm_capture_irq_type_config_def cap_irq_def pwm_view_def Let_def put_simps)


section \<open>Whole configurations\<close>

definition pwm_param_ok :: "pwm_init_param \<Rightarrow> bool" where
  "pwm_param_ok p \<longleftrightarrow> pp_channel p \<le> 4 \<and>
     (case pp_mode p of
        WM_PWM_OUT_MODE_ALLSYC \<Rightarrow> pp_channel p = 0
      | WM_PWM_OUT_MODE_2SYC \<Rightarrow> pp_channel p = 0 \<or> pp_channel p = 2
      | WM_PWM_OUT_MODE_MC \<Rightarrow> (pp_channel p = 0 \<or> pp_channel p = 2) \<and> pp_dtclkdiv p \<le> 3
      | _ \<Rightarrow> True)"

definition pwm_configured :: "pwm_init_param \<Rightarrow> pwm_channel \<Rightarrow> pwm_channel" where
  "pwm_configured p v =
     (put_duty (pp_duty p) (put_cnt (pp_channel p) (pp_cnt_type p) v))
       \<lparr>v_clkdiv := ucast (pp_clkdiv p), v_period := ucast (pp_period p), v_loop := (pp_loop_type p = WM_PWM_LOOP_TYPE_LOOP),
        v_inverse := pp_inverse_en p, v_pnum := ucast (pp_pnum p), v_pnum_int := pp_pnum_int p\<rparr>"

lemma out_init_ret: "fst (tls_pwm_out_init p s) = (if pwm_param_ok p then WM_SUCCESS else WM_FAILED)"
  by (cases "pp_mode p")
     (auto simp: tls_pwm_out_init_def tls_pwm_out_mode_config_def tls_pwm_deadzone_config_def pwm_param_ok_def Let_def not_le)

lemma out_init_acts:
  assumes "pwm_param_ok p"
  shows "acts_on (pp_channel p) (pwm_configured p) s (snd (tls_pwm_out_init p s))"
proof -
  let ?c = "pp_channel p"
  have c: "?c \<le> 4" using assms by (simp add: pwm_param_ok_def)
  define s1 where "s1 = snd (tls_pwm_out_mode_config ?c (pp_mode p) s)"
  define s2 where "s2 = (if pp_mode p = WM_PWM_OUT_MODE_MC then snd (tls_pwm_deadzone_config ?c (pp_dten p) (pp_dtclkdiv p) (pp_dtcnt p) s1) else s1)"
  define s3 where "s3 = snd (tls_pwm_cnt_type_config ?c (pp_cnt_type p) s2)"
  define s4 where "s4 = snd (tls_pwm_freq_config ?c (pp_clkdiv p) (pp_period p) s3)"
  define s5 where "s5 = snd (tls_pwm_duty_config ?c (pp_duty p) s4)"
  define s6 where "s6 = snd (tls_pwm_loop_mode_config ?c (pp_loop_type p) s5)"
  define s7 where "s7 = snd (tls_pwm_out_inverse_cmd ?c (pp_inverse_en p) s6)"
  define s8 where "s8 = snd (tls_pwm_stoptime_by_period_config ?c (pp_pnum p) s7)"
  define s9 where "s9 = snd (tls_pwm_stoptime_irq_cmd ?c (pp_pnum_int p) s8)"
  define s10 where "s10 = (if ?c = 0 \<or> ?c = 4 then snd (tls_pwm_output_en_cmd ?c True s9) else s9)"
  define s11 where "s11 = (if pp_mode p = WM_PWM_OUT_MODE_ALLSYC \<and> ?c = 0 then snd (tls_pwm_output_en_cmd 4 True s10) else s10)"
  have r1: "fst (tls_pwm_out_mode_config ?c (pp_mode p) s) = 0"
    using assms by (cases "pp_mode p") (auto simp: tls_pwm_out_mode_config_def pwm_param_ok_def Let_def)
  have r2: "fst (tls_pwm_deadzone_config ?c en (pp_dtclkdiv p) n x) = 0" if "pp_mode p = WM_PWM_OUT_MODE_MC" for en n and x :: "'a mcu_scheme"
    using assms that by (auto simp: tls_pwm_deadzone_config_def pwm_param_ok_def Let_def not_less)
  have "snd (tls_pwm_out_init p s) = s11"
    using c r1 r2
    unfolding tls_pwm_out_init_def s11_def s10_def s9_def s8_def s7_def s6_def s5_def s4_def s3_def s2_def s1_def Let_def case_prod_beta
    by (cases "pp_mode p = WM_PWM_OUT_MODE_MC") simp_all
  moreover have "acts_on ?c (\<lambda>v. v) s s1" unfolding s1_def by (rule acts_mode [OF c])
  moreover have "acts_on ?c (\<lambda>v. v) s1 s2" unfolding s2_def by (simp add: acts_deadzone acts_on_id)
  moreover have "acts_on ?c (put_cnt ?c (pp_cnt_type p)) s2 s3" unfolding s3_def by (rule acts_cnt [OF c])
  moreover have "acts_on ?c (\<lambda>v. v\<lparr>v_clkdiv := ucast (pp_clkdiv p), v_period := ucast (pp_period p)\<rparr>) s3 s4" unfolding s4_def by (rule acts_freq [OF c])
  moreover have "acts_on ?c (put_duty (pp_duty p)) s4 s5" unfolding s5_def by (rule acts_duty [OF c])
  moreover have "acts_on ?c (\<lambda>v. v\<lparr>v_loop := (pp_loop_type p = WM_PWM_LOOP_TYPE_LOOP)\<rparr>) s5 s6" unfolding s6_def by (rule acts_loop [OF c])
  moreover have "acts_on ?c (\<lambda>v. v\<lparr>v_inverse := pp_inverse_en p\<rparr>) s6 s7" unfolding s7_def by (rule acts_inverse [OF c])
  moreover have "acts_on ?c (\<lambda>v. v\<lparr>v_pnum := ucast (pp_pnum p)\<rparr>) s7 s8" unfolding s8_def by (rule acts_pnum [OF c])
  moreover have "acts_on ?c (\<lambda>v. v\<lparr>v_pnum_int := pp_pnum_int p\<rparr>) s8 s9" unfolding s9_def by (rule acts_pnum_int [OF c])
  moreover have "acts_on ?c (\<lambda>v. v) s9 s10" unfolding s10_def by (simp add: acts_output acts_on_id)
  moreover have "acts_on ?c (\<lambda>v. v) s10 s11" unfolding s11_def by (simp add: acts_output acts_on_id)
  ultimately show ?thesis
    using c by (simp add: acts_on_def pwm_configured_def put_duty_def)
qed

section \<open>Independent channels\<close>

text \<open>A bank of \<open>n\<close> channels: a call on a channel acts on its settings and on no others. Then a run of calls leaves in
  each channel what its own calls make of it, however they are interleaved with calls on the others.\<close>

locale channel_bank =
  fixes view :: "nat \<Rightarrow> 's \<Rightarrow> 'v" and n :: nat and call :: "nat \<Rightarrow> 'p \<Rightarrow> 's \<Rightarrow> 's" and act :: "nat \<Rightarrow> 'p \<Rightarrow> 'v \<Rightarrow> 'v"
  assumes call_view: "c < n \<Longrightarrow> c' < n \<Longrightarrow> view c' (call c p s) = (if c' = c then act c p (view c s) else view c' s)"
begin

lemma run_view:
  assumes "\<forall>(c, p)\<in>set xs. c < n" "c < n"
  shows "view c (fold (\<lambda>(c, p). call c p) xs s) = fold (act c) (map snd (filter (\<lambda>x. fst x = c) xs)) (view c s)"
  using assms by (induction xs arbitrary: s) (auto simp: call_view)

end

datatype pwm_call =
    Start | Stop | Duty u8 | Duty_set u8 | Freq u16 u8 | Cnt_type tls_pwm_cnt_type | Loop_mode tls_pwm_loop_type | Inverse bool | Pnum u8 | Pnum_irq bool
  | Out_mode tls_pwm_out_mode | Output_en bool | Deadzone bool u8 u8 | Capture_irq tls_pwm_cap_int_type | Init pwm_init_param

fun pwm_do :: "nat \<Rightarrow> pwm_call \<Rightarrow> 'a mcu_scheme \<Rightarrow> 'a mcu_scheme" where
  "pwm_do c Start s = snd (tls_pwm_start c s)"
| "pwm_do c Stop s = snd (tls_pwm_stop c s)"
| "pwm_do c (Duty d) s = snd (tls_pwm_duty_config c d s)"
| "pwm_do c (Duty_set d) s = tls_pwm_duty_set c d s"
| "pwm_do c (Freq d n) s = snd (tls_pwm_freq_config c d n s)"
| "pwm_do c (Cnt_type ty) s = snd (tls_pwm_cnt_type_config c ty s)"
| "pwm_do c (Loop_mode l) s = snd (tls_pwm_loop_mode_config c l s)"
| "pwm_do c (Inverse en) s = snd (tls_pwm_out_inverse_cmd c en s)"
| "pwm_do c (Pnum n) s = snd (tls_pwm_stoptime_by_period_config c n s)"
| "pwm_do c (Pnum_irq en) s = snd (tls_pwm_stoptime_irq_cmd c en s)"
| "pwm_do c (Out_mode m) s = snd (tls_pwm_out_mode_config c m s)"
| "pwm_do c (Output_en en) s = snd (tls_pwm_output_en_cmd c en s)"
| "pwm_do c (Deadzone en d n) s = snd (tls_pwm_deadzone_config c en d n s)"
| "pwm_do c (Capture_irq ty) s = snd (tls_pwm_capture_irq_type_config c ty s)"
| "pwm_do c (Init p) s = snd (tls_pwm_out_init (p\<lparr>pp_channel := c\<rparr>) s)"

fun pwm_act :: "nat \<Rightarrow> pwm_call \<Rightarrow> pwm_channel \<Rightarrow> pwm_channel" where
  "pwm_act c Start v = v\<lparr>v_running := True\<rparr>"
| "pwm_act c Stop v = v\<lparr>v_running := False\<rparr>"
| "pwm_act c (Duty d) v = put_duty d v"
| "pwm_act c (Duty_set d) v = (put_duty d v)\<lparr>v_running := (d \<noteq> 0)\<rparr>"
| "pwm_act c (Freq d n) v = v\<lparr>v_clkdiv := ucast d, v_period := ucast n\<rparr>"
| "pwm_act c (Cnt_type ty) v = put_cnt c ty v"
| "pwm_act c (Loop_mode l) v = v\<lparr>v_loop := (l = WM_PWM_LOOP_TYPE_LOOP)\<rparr>"
| "pwm_act c (Inverse en) v = v\<lparr>v_inverse := en\<rparr>"
| "pwm_act c (Pnum n) v = v\<lparr>v_pnum := ucast n\<rparr>"
| "pwm_act c (Pnum_irq en) v = v\<lparr>v_pnum_int := en\<rparr>"
| "pwm_act c (Init p) v = (if pwm_param_ok (p\<lparr>pp_channel := c\<rparr>) then pwm_configured (p\<lparr>pp_channel := c\<rparr>) v else v)"
| "pwm_act c _ v = v"

lemma out_init_refused:
  assumes "\<not> pwm_param_ok p" "pp_channel p \<le> 4"
  shows "acts_on (pp_channel p) (\<lambda>v. v) s (snd (tls_pwm_out_init p s))"
proof -
  let ?c = "pp_channel p" and ?s1 = "snd (tls_pwm_out_mode_config (pp_channel p) (pp_mode p) s)"
  have "snd (tls_pwm_out_init p s) \<in> {?s1, snd (tls_pwm_deadzone_config ?c (pp_dten p) (pp_dtclkdiv p) (pp_dtcnt p) ?s1)}"
    using out_init_ret [of p s] assms unfolding tls_pwm_out_init_def Let_def case_prod_beta by (auto split: if_splits)
  moreover have "acts_on ?c (\<lambda>v. v) s ?s1" by (rule acts_mode [OF assms(2)])
  moreover have "acts_on ?c (\<lambda>v. v) ?s1 (snd (tls_pwm_deadzone_config ?c en d n ?s1))" for en d n by (rule acts_deadzone)
  ultimately show ?thesis by (auto simp: acts_on_def split: if_splits)
qed

lemma acts_duty_set:
  assumes "c \<le> 4"
  shows "acts_on c (\<lambda>v. (put_duty d v)\<lparr>v_running := (d \<noteq> 0)\<rparr>) s (tls_pwm_duty_set c d s)"
  using acts_stop [OF assms, of s] acts_duty [OF assms, of d s] acts_start [OF assms, of "snd (tls_pwm_duty_config c d s)"] assms
  by (auto simp: acts_on_def tls_pwm_duty_set_def put_duty_def)

lemmas call_views =
  acts_start acts_stop acts_duty acts_duty_set acts_freq acts_cnt acts_loop acts_inverse acts_pnum acts_pnum_int acts_mode
  acts_output [where c = 0] acts_deadzone [where c = 0] acts_cap_irq [where c = 0]

lemma view_call:
  assumes "c \<le> 4" "c' \<le> 4"
  shows "pwm_view c' (pwm_do c p s) = (if c' = c then pwm_act c p (pwm_view c s) else pwm_view c' s)"
proof (cases p)
  case (Init q)
  then show ?thesis
    using assms out_init_acts [of "q\<lparr>pp_channel := c\<rparr>" s] out_init_refused [of "q\<lparr>pp_channel := c\<rparr>" s] by (auto simp: acts_on_def)
qed (use assms in \<open>simp_all add: call_views [unfolded acts_on_def, rule_format]\<close>)

interpretation pwm: channel_bank pwm_view 5 pwm_do pwm_act
  by unfold_locales (rule view_call; simp)

section \<open>Frequencies\<close>

lemma pwm_clkdiv_40:
  assumes "tls_sys_clk_get s = Some clk" "apbclk clk = 40" "freq \<noteq> 0"
  shows "pwm_clkdiv freq s = Some (ucast (156250 div freq))"
  using assms by (simp add: pwm_clkdiv_def)

lemma ucast_quotient:
  assumes "3 \<le> freq"
  shows "(ucast (ucast (156250 div freq :: u32) :: u16) :: u32) = 156250 div freq"
proof -
  have f: "3 \<le> unat freq" using assms by (simp add: word_le_nat_alt)
  have "unat (156250 div freq) = 156250 div unat freq" by (simp add: unat_div_distrib)
  also have "\<dots> \<le> 156250 div 3" by (rule div_le_mono2) (use f in simp_all)
  finally have "unat (156250 div freq) < 2 ^ 16" by simp
  then show ?thesis by (simp add: word_unat_eq_iff unsigned_ucast_eq unsigned_take_bit_eq take_bit_nat_eq_self)
qed

lemma clock_40: "tls_sys_clk_get (tls_sys_clk_set 2 mcu_reset) = Some \<lparr>apbclk = 40, cpuclk = 240, wlanclk = 160\<rparr>"
  using clk_set_get [of 2 mcu_reset] by simp

section \<open>Capture\<close>

definition pwm_captures :: "u16 \<Rightarrow> pwm_channel \<Rightarrow> pwm_channel" where
  "pwm_captures d v = v\<lparr>v_clkdiv := ucast d, v_period := 0xFF, v_center := False, v_edge := False, v_loop := True\<rparr>"

lemma cap_init_acts:
  assumes "c = 0 \<or> c = 4"
  shows "acts_on c (pwm_captures d) s (snd (tls_pwm_cap_init c d neg ty s))"
proof -
  have c: "c \<le> 4" using assms by auto
  define s1 where "s1 = snd (tls_pwm_freq_config c d 0xFF s)"
  define s2 where "s2 = snd (tls_pwm_capture_mode_config c (snd (tls_pwm_capture_inverse_cmd c neg s1)))"
  define s3 where "s3 = snd (tls_pwm_cnt_type_config c WM_PWM_CNT_TYPE_EDGE_ALLGN_CAP s2)"
  define s4 where "s4 = (if c = 0 then snd (tls_pwm_output_en_cmd c False s3) else s3)"
  define s5 where "s5 = snd (tls_pwm_loop_mode_config c WM_PWM_LOOP_TYPE_LOOP s4)"
  have "snd (tls_pwm_cap_init c d neg ty s) = snd (tls_pwm_capture_irq_type_config c ty s5)"
    using assms unfolding tls_pwm_cap_init_def s5_def s4_def s3_def s2_def s1_def Let_def by auto
  moreover have "acts_on c (\<lambda>v. v\<lparr>v_clkdiv := ucast d, v_period := ucast (0xFF :: u8)\<rparr>) s s1" unfolding s1_def by (rule acts_freq [OF c])
  moreover have "acts_on c (\<lambda>v. v) s1 s2"
    using acts_cap_inverse [of c s1 c neg] acts_cap_mode [of c "snd (tls_pwm_capture_inverse_cmd c neg s1)" c] unfolding s2_def by (simp add: acts_on_def)
  moreover have "acts_on c (put_cnt c WM_PWM_CNT_TYPE_EDGE_ALLGN_CAP) s2 s3" unfolding s3_def by (rule acts_cnt [OF c])
  moreover have "acts_on c (\<lambda>v. v) s3 s4" unfolding s4_def by (simp add: acts_output acts_on_id)
  moreover have "acts_on c (\<lambda>v. v\<lparr>v_loop := True\<rparr>) s4 s5" using acts_loop [OF c, of WM_PWM_LOOP_TYPE_LOOP s4] unfolding s5_def by simp
  moreover have "acts_on c (\<lambda>v. v) s5 (snd (tls_pwm_capture_irq_type_config c ty s5))" by (rule acts_cap_irq)
  ultimately show ?thesis using c assms by (auto simp: acts_on_def pwm_captures_def put_cnt_def)
qed

lemma cap_init_ctl:
  "bit (regs (snd (tls_pwm_cap_init 0 d neg ty s)) HR_PWM_CTL) 24" "bit (regs (snd (tls_pwm_cap_init 4 d neg ty s)) HR_PWM_CAP2CTL) 1"
  "bit (regs (snd (tls_pwm_cap_init 0 d neg ty s)) HR_PWM_CTL) 25 = neg" "bit (regs (snd (tls_pwm_cap_init 4 d neg ty s)) HR_PWM_CAP2CTL) 0 = neg"
  by (cases ty; simp add: tls_pwm_cap_init_def tls_pwm_freq_config_def tls_pwm_capture_inverse_cmd_def tls_pwm_capture_mode_config_def
      tls_pwm_cnt_type_config_def tls_pwm_output_en_cmd_def tls_pwm_loop_mode_config_def tls_pwm_capture_irq_type_config_def cap_irq_def
      regs_put regs_switch Let_def bits)+

section \<open>Properties\<close>

text \<open>C14. The five channels are independent: after any run of calls on any channels, in any order, the settings of a channel
  are those that its own calls make of its settings before, in the order of these calls. No call for one
  channel disturbs the divider, period, duty, number of periods, alignment, interrupt enable or run bit of another.\<close>

theorem pwm_channels_independent:
  assumes "\<forall>(c, p)\<in>set xs. c < 5" "c < 5"
  shows "pwm_view c (fold (\<lambda>(c, p). pwm_do c p) xs s) = fold (pwm_act c) (map snd (filter (\<lambda>x. fst x = c) xs)) (pwm_view c s)"
  using assms by (rule pwm.run_view)

theorem pwm_channels_independent_witness:
  "v_duty (pwm_view 1 (fold (\<lambda>(c, p). pwm_do c p) [(1, Duty 7), (2, Duty 9), (4, Freq 3 255), (1, Start), (0, Stop)] mcu_reset)) = 7"
  using pwm_channels_independent [of "[(1, Duty 7), (2, Duty 9), (4, Freq 3 255), (1, Start), (0, Stop)]" 1 mcu_reset]
  by (simp add: put_duty_def)

text \<open>Initialisation for output succeeds exactly for a channel below 5 in a mode that the channel has, with a dead time
  divider of at most 3 in complementary mode. Then the channel has the settings that were asked for and the
  other channels keep theirs; a duty of zero stops the channel and leaves the old duty.\<close>

theorem pwm_out_init_correct:
  "fst (tls_pwm_out_init p s) = (if pwm_param_ok p then WM_SUCCESS else WM_FAILED)
   \<and> (pwm_param_ok p \<longrightarrow> (\<forall>c\<le>4. pwm_view c (snd (tls_pwm_out_init p s)) =
        (if c = pp_channel p then pwm_configured p (pwm_view c s) else pwm_view c s)))"
  using out_init_ret [of p s] out_init_acts [of p s] by (auto simp: acts_on_def)

theorem pwm_out_init_correct_witness:
  "v_period (pwm_view 2 (snd (tls_pwm_out_init
     \<lparr>pp_mode = WM_PWM_OUT_MODE_MC, pp_channel = 2, pp_clkdiv = 4, pp_period = 99, pp_duty = 50, pp_dten = True, pp_dtclkdiv = 3, pp_dtcnt = 9,
      pp_cnt_type = WM_PWM_CNT_TYPE_CENTER_ALIGN, pp_loop_type = WM_PWM_LOOP_TYPE_LOOP, pp_inverse_en = False, pp_pnum = 1, pp_pnum_int = True\<rparr> mcu_reset))) = 99"
  using pwm_out_init_correct [of
     "\<lparr>pp_mode = WM_PWM_OUT_MODE_MC, pp_channel = 2, pp_clkdiv = 4, pp_period = 99, pp_duty = 50, pp_dten = True, pp_dtclkdiv = 3, pp_dtcnt = 9,
      pp_cnt_type = WM_PWM_CNT_TYPE_CENTER_ALIGN, pp_loop_type = WM_PWM_LOOP_TYPE_LOOP, pp_inverse_en = False, pp_pnum = 1, pp_pnum_int = True\<rparr>" mcu_reset]
  by (simp add: pwm_param_ok_def pwm_configured_def)

text \<open>C39. The dead time that is asked for has no effect: the word with the divider and the count is overwritten with the
  control register, so that the dead time depends on the control bits alone.\<close>

theorem pwm_deadzone_ignored:
  assumes "c = 0 \<or> c = 2" "d \<le> 3"
  shows "fst (tls_pwm_deadzone_config c True d n s) = WM_SUCCESS \<and>
    regs (snd (tls_pwm_deadzone_config c True d n s)) = (regs s)(HR_PWM_DTCTL := regs s HR_PWM_CTL OR BIT (20 + c div 2))"
  using assms by (auto simp: tls_pwm_deadzone_config_def Let_def regs_put not_less)

theorem pwm_deadzone_ignored_witness:
  "regs (snd (tls_pwm_deadzone_config 2 True 3 77 mcu_reset)) HR_PWM_DTCTL = 0x00200000"
  using pwm_deadzone_ignored [of 2 3 77 mcu_reset] by (simp add: mcu_reset_def BIT_numeral)

text \<open>Setting a frequency with the bus clock of 40 MHz: from 3 to 156250 Hz the divider is the exact quotient, the
  channel runs with the period 255, and its duty and the other channels are left alone.\<close>

theorem pwm_freq_exact:
  assumes "tls_sys_clk_get s = Some clk" "apbclk clk = 40" "3 \<le> freq" "c \<le> 4"
  shows "\<exists>s'. tls_pwm_freq_set c freq s = Some s' \<and>
    (\<forall>c'\<le>4. pwm_view c' s' = (if c' = c then (pwm_view c s)\<lparr>v_clkdiv := 156250 div freq, v_period := 255, v_running := True\<rparr> else pwm_view c' s))"
proof -
  have f: "freq \<noteq> 0" using assms(3) by auto
  let ?d = "ucast (156250 div freq) :: u16"
  let ?s1 = "snd (tls_pwm_stop c s)"
  let ?s2 = "snd (tls_pwm_freq_config c ?d 255 ?s1)"
  have "tls_pwm_freq_set c freq s = Some (snd (tls_pwm_start c ?s2))"
    using pwm_clkdiv_40 [OF assms(1,2) f] assms(4) by (simp add: tls_pwm_freq_set_def)
  then show ?thesis
    using acts_stop [OF assms(4), of s] acts_freq [OF assms(4), where d = ?d and n = 255 and s = ?s1] acts_start [OF assms(4), of ?s2] ucast_quotient [OF assms(3)]
      assms(4) by (simp add: acts_on_def)
qed

theorem pwm_freq_exact_witness:
  "\<exists>s'. tls_pwm_freq_set 3 1000 (tls_sys_clk_set 2 mcu_reset) = Some s' \<and> v_clkdiv (pwm_view 3 s') = 156 \<and> v_running (pwm_view 3 s')"
proof -
  from pwm_freq_exact [OF clock_40, of 1000 3] obtain s' where
    "tls_pwm_freq_set 3 1000 (tls_sys_clk_set 2 mcu_reset) = Some s'" "v_clkdiv (pwm_view 3 s') = 156250 div 1000" "v_running (pwm_view 3 s')" by auto
  then show ?thesis by simp
qed

text \<open>Below 3 Hz, though the documented range begins at 1 Hz, the divider does not fit into its 16 bits.\<close>

theorem pwm_freq_low_wrong:
  assumes "tls_sys_clk_get s = Some clk" "apbclk clk = 40"
  shows "pwm_clkdiv 1 s = Some 25178 \<and> pwm_clkdiv 2 s = Some 12589 \<and> pwm_clkdiv 0 s = None"
  using assms by (simp add: pwm_clkdiv_def)

theorem pwm_freq_low_wrong_witness:
  "pwm_clkdiv 1 (tls_sys_clk_set 2 mcu_reset) = Some 25178"
  using pwm_freq_low_wrong [OF clock_40] by simp

text \<open>Initialisation for capture is possible for the channels 0 and 4. The channel then captures, with the polarity that
  was asked for, counts in a loop with the given divider, and the other channels keep their settings.\<close>

theorem pwm_cap_init_correct:
  assumes "c = 0 \<or> c = 4"
  shows "fst (tls_pwm_cap_init c d neg ty s) = WM_SUCCESS
    \<and> (\<forall>c'\<le>4. pwm_view c' (snd (tls_pwm_cap_init c d neg ty s)) = (if c' = c then pwm_captures d (pwm_view c s) else pwm_view c' s))
    \<and> (let s' = snd (tls_pwm_cap_init c d neg ty s);
           r = regs s' (if c = 0 then HR_PWM_CTL else HR_PWM_CAP2CTL)
       in bit r (if c = 0 then 24 else 1) \<and> bit r (if c = 0 then 25 else 0) = neg)"
proof -
  have "fst (tls_pwm_cap_init c d neg ty s) = WM_SUCCESS" using assms by (auto simp: tls_pwm_cap_init_def Let_def)
  then show ?thesis using cap_init_acts [OF assms, of d s neg ty] cap_init_ctl [of d neg ty s] assms by (auto simp: acts_on_def Let_def)
qed

theorem pwm_cap_init_correct_witness:
  "v_clkdiv (pwm_view 4 (snd (tls_pwm_cap_init 4 100 True WM_PWM_CAP_DMA_INT mcu_reset))) = 100"
  using pwm_cap_init_correct [of 4 100 True WM_PWM_CAP_DMA_INT mcu_reset] by (simp add: pwm_captures_def)

end
