(* ===== verification/At_Line.thy ===== *)
theory At_Line
  imports Uart_Ring
begin

text \<open>
  The framing of AT commands on a serial port, \<^verbatim>\<open>src/app/wm_atcmd/wm_uart_task.c\<close>: a command begins with \<^verbatim>\<open>AT+\<close> in the receive
  ring of the port and ends with a carriage return, a line feed or both. Pointers into the ring are positions in its
  buffer. The calls that the parser makes, the handler of a complete command and the request to run again for the rest
  of the ring, are returned in order.
\<close>

unbundle bit_operations_syntax

section \<open>End of line\<close>

abbreviation (input) "CR \<equiv> 13 :: u8"
abbreviation (input) "LF \<equiv> 10 :: u8"

datatype at_call = Hostif_cmd_handler nat "u8 list" | Task_rx_cb nat u32

fun memchr :: "u8 \<Rightarrow> u8 list \<Rightarrow> nat option" where
  "memchr c [] = None"
| "memchr c (x # xs) = (if x = c then Some 0 else map_option Suc (memchr c xs))"

definition find_atcmd_eol :: "u8 list \<Rightarrow> nat option" where
  "find_atcmd_eol src =
     (case (memchr CR src, memchr LF src) of
        (Some p, Some q) \<Rightarrow>
          if int p - int q > 1 then Some q
          else if int q - int p > 1 then Some p
          else if int p - int q = 1 then Some p
          else if int q - int p = 1 then Some q
          else None
      | (Some p, None) \<Rightarrow> Some p
      | (None, Some q) \<Rightarrow> Some q
      | (None, None) \<Rightarrow> None)"

definition modify_atcmd_tail :: "nat \<Rightarrow> tls_uart_circ_buf \<Rightarrow> nat option \<times> tls_uart_circ_buf" where
  "modify_atcmd_tail p recv =
     (let tail = unat (r_tail recv);
          cmd_len = (if p \<ge> tail then p - tail else p + 512 - tail)
      in if cmd_len > 512 then (None, recv\<lparr>r_tail := r_head recv\<rparr>)
         else (Some p, recv\<lparr>r_tail := (r_tail recv + of_nat cmd_len) AND (TLS_UART_RX_BUF_SIZE - 1)\<rparr>))"

definition jump_eol :: "tls_uart_circ_buf \<Rightarrow> tls_uart_circ_buf" where
  "jump_eol recv =
     (let c = r_buf recv ! unat (r_tail recv)
      in if c = CR \<or> c = LF then recv\<lparr>r_tail := (r_tail recv + 1) AND (TLS_UART_RX_BUF_SIZE - 1)\<rparr> else recv)"

definition parse_atcmd_eol :: "tls_uart_circ_buf \<Rightarrow> nat option \<times> tls_uart_circ_buf" where
  "parse_atcmd_eol recv =
     (let head = unat (r_head recv); tail = unat (r_tail recv);
          (p, recv) =
            (if r_head recv > r_tail recv
             then case find_atcmd_eol (take (head - tail) (drop tail (r_buf recv))) of
                    Some p \<Rightarrow> modify_atcmd_tail (tail + p) recv
                  | None \<Rightarrow> (None, recv)
             else case find_atcmd_eol (take (512 - tail) (drop tail (r_buf recv))) of
                    Some p \<Rightarrow> modify_atcmd_tail (tail + p) recv
                  | None \<Rightarrow> (case find_atcmd_eol (take head (r_buf recv)) of
                               Some p \<Rightarrow> modify_atcmd_tail p recv
                             | None \<Rightarrow> (None, recv)))
      in (p, jump_eol recv))"

section \<open>A command\<close>

definition ring_at :: "tls_uart_circ_buf \<Rightarrow> u32 \<Rightarrow> u8" where
  "ring_at recv k = r_buf recv ! unat ((r_tail recv + k) AND (TLS_UART_RX_BUF_SIZE - 1))"

definition is_at :: "tls_uart_circ_buf \<Rightarrow> bool" where
  "is_at recv \<longleftrightarrow> (r_buf recv ! unat (r_tail recv) = 0x41 \<or> r_buf recv ! unat (r_tail recv) = 0x61) \<and>
     (ring_at recv 1 = 0x54 \<or> ring_at recv 1 = 0x74) \<and> ring_at recv 2 = 0x2B"

text \<open>The copy of the command from \<open>start\<close> up to \<open>eol\<close>, in two parts when it runs over the end of the ring.\<close>

definition copy_cmd :: "nat \<Rightarrow> nat \<Rightarrow> tls_uart_circ_buf \<Rightarrow> u8 list" where
  "copy_cmd start eol recv =
     (if eol \<ge> start then take (eol - start) (drop start (r_buf recv))
      else take (512 - start) (drop start (r_buf recv)) @ take eol (r_buf recv))"

text \<open>One line feed in the place of the end of line.\<close>

definition finish_cmd :: "u8 list \<Rightarrow> u8 list" where
  "finish_cmd buf =
     (let cmd_len = length buf
      in if buf ! (cmd_len - 2) = CR \<or> buf ! (cmd_len - 2) = LF then take (cmd_len - 2) buf @ [LF]
         else if buf ! (cmd_len - 1) = CR \<or> buf ! (cmd_len - 1) = LF then take (cmd_len - 1) buf @ [LF]
         else buf @ [LF])"

lemma mod_pred: "a mod 512 \<noteq> 0 \<Longrightarrow> (a - 1) mod 512 < a mod 512" for a :: nat
proof -
  assume "a mod 512 \<noteq> 0"
  then have "a - 1 = 512 * (a div 512) + (a mod 512 - 1)" using mult_div_mod_eq [of 512 a] by linarith
  then have "(a - 1) mod 512 = (a mod 512 - 1) mod 512" by (metis mod_mult_self4)
  also have "\<dots> \<le> a mod 512 - 1" by (rule mod_less_eq_dividend)
  finally show ?thesis using \<open>a mod 512 \<noteq> 0\<close> by linarith
qed

lemma circ_cnt_skip:
  assumes "CIRC_CNT h t \<noteq> 0"
  shows "unat (CIRC_CNT h ((t + 1) mod 512)) < unat (CIRC_CNT h t)"
proof -
  let ?x = "h - t"
  let ?k = "(t + 1) div 512 * 512"
  have e: "h - (t + 1) mod 512 = (?x - 1) + ?k" using div_mult_mod_eq [of "t + 1" 512] by (simp add: algebra_simps)
  have k: "unat ?k mod 512 = 0" by (simp add: unat_word_ariths mod_mod_cancel)
  have "CIRC_CNT h ((t + 1) mod 512) = ((?x - 1) + ?k) AND 511" unfolding CIRC_CNT_def e by simp
  then have "unat (CIRC_CNT h ((t + 1) mod 512)) = unat ((?x - 1) + ?k) mod 512" by (simp only: unat_and_511)
  also have "\<dots> = (unat (?x - 1) mod 512 + unat ?k mod 512) mod 512" by (simp only: unat_add_512 mod_add_eq)
  finally have c: "unat (CIRC_CNT h ((t + 1) mod 512)) = unat (?x - 1) mod 512" unfolding k by simp
  have m: "unat (CIRC_CNT h t) = unat ?x mod 512" by (simp add: CIRC_CNT_def)
  have nz: "unat ?x mod 512 \<noteq> 0" using assms by (metis m unat_eq_zero)
  then have "?x \<noteq> 0" by auto
  then show ?thesis unfolding c m using mod_pred [OF nz] by (simp add: unat_minus_one)
qed

text \<open>The loop of \<^verbatim>\<open>parse_atcmd_line\<close>. \<open>alloc\<close> is the outcome of the allocation of the command's buffer.\<close>

function parse_atcmd_line :: "bool \<Rightarrow> nat \<Rightarrow> tls_uart_circ_buf \<Rightarrow> at_call list \<times> tls_uart_circ_buf" where
  "parse_atcmd_line alloc uart_no recv =
     (if CIRC_CNT (r_head recv) (r_tail recv) < 4 then ([], recv)
      else if is_at recv then
        let (ptr_eol, r) = parse_atcmd_eol (recv\<lparr>r_tail := (r_tail recv + 3) AND (TLS_UART_RX_BUF_SIZE - 1)\<rparr>)
        in case ptr_eol of
             None \<Rightarrow>
               if CIRC_CNT (r_head r) (r_tail r) > 512 then ([], r\<lparr>r_tail := r_head r\<rparr>)
               else ([], r\<lparr>r_tail := (r_tail r - 3) AND (TLS_UART_RX_BUF_SIZE - 1)\<rparr>)
           | Some eol \<Rightarrow>
               if \<not> alloc then ([], r)
               else let cmd = Hostif_cmd_handler (if uart_no = 0 then 4 else 3) (finish_cmd (copy_cmd (unat (r_tail recv)) eol r));
                        cnt = CIRC_CNT (r_head r) (r_tail r)
                    in if cnt > 0 then ([cmd, Task_rx_cb uart_no cnt], r)
                       else let (cs, r) = parse_atcmd_line alloc uart_no r in (cmd # cs, r)
      else parse_atcmd_line alloc uart_no (recv\<lparr>r_tail := (r_tail recv + 1) mod TLS_UART_RX_BUF_SIZE\<rparr>))"
  by pat_completeness auto
termination
proof (relation "measure (\<lambda>(_, _, r). unat (CIRC_CNT (r_head r) (r_tail r)))", goal_cases)
  case 1
  show ?case by simp
next
  case (2 alloc uart_no recv x eol r x2 cmd cnt)
  then show ?case by (auto simp: word_less_nat_alt not_less)
next
  case (3 alloc uart_no recv)
  then have "CIRC_CNT (r_head recv) (r_tail recv) \<noteq> 0" by auto
  then show ?case using circ_cnt_skip by simp
qed

declare parse_atcmd_line.simps [simp del]

end
