(* ===== verification/At_Props.thy ===== *)
theory At_Props
  imports At_Line
begin

text \<open>
  Properties of the framing of AT commands: whatever the position of the ring, the commands in it reach the
  handler complete, in order and once, in one normal form; an incomplete command waits in the ring.
\<close>

unbundle bit_operations_syntax

section \<open>The end of a line\<close>

definition is_eol :: "u8 \<Rightarrow> bool" where
  "is_eol e \<longleftrightarrow> e = CR \<or> e = LF"

definition no_eol :: "u8 list \<Rightarrow> bool" where
  "no_eol b \<longleftrightarrow> (\<forall>x\<in>set b. \<not> is_eol x)"

definition other_eol :: "u8 \<Rightarrow> u8" where
  "other_eol e = (if e = CR then LF else CR)"

lemma memchr_append: "c \<notin> set b \<Longrightarrow> memchr c (b @ xs) = map_option ((+) (length b)) (memchr c xs)"
  by (cases "memchr c xs"; induction b) auto

lemma memchr_none: "memchr c xs = None \<longleftrightarrow> c \<notin> set xs"
  by (induction xs) auto

lemma memchr_0: "memchr c xs = Some 0 \<longleftrightarrow> xs \<noteq> [] \<and> hd xs = c"
  by (cases xs) auto

lemma memchr_eol: "no_eol b \<Longrightarrow> is_eol c \<Longrightarrow> memchr c (b @ xs) = map_option ((+) (length b)) (memchr c xs)"
  by (rule memchr_append) (auto simp: no_eol_def)

lemma find_none: "no_eol xs \<Longrightarrow> find_atcmd_eol xs = None"
  using memchr_none [of CR xs] memchr_none [of LF xs] by (auto simp: find_atcmd_eol_def no_eol_def is_eol_def)

lemma find_eol:
  assumes "no_eol b" "is_eol e"
  shows "find_atcmd_eol (b @ e # xs) = Some (if xs \<noteq> [] \<and> hd xs = other_eol e then length b + 1 else length b)"
proof -
  have m: "memchr c (b @ e # xs) = map_option ((+) (length b)) (memchr c (e # xs))" if "is_eol c" for c
    by (rule memchr_eol [OF assms(1) that])
  have cr: "memchr CR (b @ e # xs) = map_option ((+) (length b)) (memchr CR (e # xs))"
    and lf: "memchr LF (b @ e # xs) = map_option ((+) (length b)) (memchr LF (e # xs))" by (rule m; simp add: is_eol_def)+
  show ?thesis
  proof (cases "memchr (other_eol e) xs")
    case None
    then have "\<not> (xs \<noteq> [] \<and> hd xs = other_eol e)" using memchr_0 [of "other_eol e" xs] by simp
    then show ?thesis using None assms(2) unfolding find_atcmd_eol_def cr lf by (auto simp: is_eol_def other_eol_def)
  next
    case (Some k)
    then have "k = 0 \<longleftrightarrow> xs \<noteq> [] \<and> hd xs = other_eol e" using memchr_0 [of "other_eol e" xs] by auto
    then show ?thesis using Some assms(2) unfolding find_atcmd_eol_def cr lf by (auto simp: is_eol_def other_eol_def)
  qed
qed

text \<open>The search in a ring whose buffer ends after \<open>k\<close> of its bytes.\<close>

definition at_eol :: "nat \<Rightarrow> u8 list \<Rightarrow> nat option" where
  "at_eol k xs = (case find_atcmd_eol (take k xs) of Some p \<Rightarrow> Some p | None \<Rightarrow> map_option ((+) k) (find_atcmd_eol (drop k xs)))"

lemma no_eol_sub: "no_eol b \<Longrightarrow> no_eol (take k b)" "no_eol b \<Longrightarrow> no_eol (drop k b)"
  by (auto simp: no_eol_def dest: in_set_takeD in_set_dropD)

lemma at_eol_none: "no_eol b \<Longrightarrow> at_eol k b = None"
  by (simp add: at_eol_def find_none no_eol_sub)

lemma at_eol_line:
  assumes "no_eol b" "is_eol e"
  obtains "at_eol k (b @ e # xs) = Some (length b)" | "at_eol k (b @ e # xs) = Some (length b + 1)" "xs \<noteq> []" "hd xs = other_eol e"
proof (cases "length b < k")
  case True
  then have t: "take k (b @ e # xs) = b @ e # take (k - length b - 1) xs" by (simp add: take_Cons')
  have h: "take n xs \<noteq> [] \<Longrightarrow> hd (take n xs) = hd xs" "take n xs \<noteq> [] \<Longrightarrow> xs \<noteq> []" for n by (cases xs; cases n; simp)+
  show ?thesis
    using that h [of "k - length b - 1"] find_eol [OF assms, of "take (k - length b - 1) xs"] unfolding at_eol_def t by (auto split: if_splits)
next
  case False
  then have t: "take k (b @ e # xs) = take k b" "drop k (b @ e # xs) = drop k b @ e # xs" by simp_all
  show ?thesis
    using that False find_none [OF no_eol_sub(1) [OF assms(1)], of k] find_eol [OF no_eol_sub(2) [OF assms(1)] assms(2), of k xs]
    unfolding at_eol_def t by (auto split: if_splits)
qed

section \<open>The ring\<close>

lemma ring_nth: "i < ring_cnt r \<Longrightarrow> ring_bytes r ! i = r_buf r ! ((unat (r_tail r) + i) mod 512)"
  by (simp add: ring_bytes_def)

lemma ring_split:
  assumes "ring_ok r" "0 < ring_cnt r"
  shows "r_head r > r_tail r \<Longrightarrow> take (unat (r_head r) - unat (r_tail r)) (drop (unat (r_tail r)) (r_buf r)) = ring_bytes r \<and> ring_cnt r \<le> 512 - unat (r_tail r)"
    and "\<not> r_head r > r_tail r \<Longrightarrow> take (512 - unat (r_tail r)) (drop (unat (r_tail r)) (r_buf r)) = take (512 - unat (r_tail r)) (ring_bytes r) \<and>
      take (unat (r_head r)) (r_buf r) = drop (512 - unat (r_tail r)) (ring_bytes r)"
proof -
  let ?h = "unat (r_head r)" and ?t = "unat (r_tail r)"
  have ok: "?h < 512" "?t < 512" "length (r_buf r) = 512" using assms(1) by (simp_all add: ring_ok_def)
  have all: "ring_bytes r = take (ring_cnt r) (drop ?t (r_buf r) @ r_buf r)" using ring_bytes_unroll [OF assms(1) order_refl] by simp
  {
    assume "r_head r > r_tail r"
    then have "?t < ?h" by (simp add: word_less_nat_alt)
    moreover from this have "ring_cnt r = ?h - ?t" unfolding ring_cnt_def using ok by (intro mod_512) simp_all
    ultimately show "take (?h - ?t) (drop ?t (r_buf r)) = ring_bytes r \<and> ring_cnt r \<le> 512 - ?t" using all ok by simp
  next
    assume "\<not> r_head r > r_tail r"
    then have "?h \<le> ?t" by (simp add: word_less_nat_alt)
    moreover have "?h \<noteq> ?t" using assms(2) by (auto simp: ring_cnt_def)
    ultimately have lt: "?h < ?t" by simp
    then have "ring_cnt r = (512 - ?t) + ?h" unfolding ring_cnt_def using ok by simp
    then have "ring_bytes r = drop ?t (r_buf r) @ take ?h (r_buf r)" using all ok by simp
    then show "take (512 - ?t) (drop ?t (r_buf r)) = take (512 - ?t) (ring_bytes r) \<and> take ?h (r_buf r) = drop (512 - ?t) (ring_bytes r)"
      using ok by simp
  }
qed

lemma and_511_add: "((a AND 511) + n) AND 511 = (a + n) AND (511 :: u32)"
proof -
  have "unat (((a AND 511) + n) AND 511) = (unat a mod 512 + unat n) mod 512" using unat_add_512 [of "a AND 511" n] by simp
  also have "\<dots> = unat ((a + n) AND 511)" using unat_add_512 [of a n] by (simp add: mod_simps)
  finally show ?thesis by (simp only: word_unat_eq_iff)
qed

lemma ring_skip_skip: "ring_skip m (ring_skip n r) = ring_skip (n + m) r"
  by (simp add: ring_skip_def and_511_add add.assoc)

lemma jump_eol_skip:
  assumes "ring_ok r" "p < ring_cnt r" "is_eol (ring_bytes r ! p)"
  shows "jump_eol (r\<lparr>r_tail := (r_tail r + of_nat p) AND 511\<rparr>) = ring_skip (of_nat (p + 1)) r"
proof -
  have p: "unat (of_nat p :: u32) = p" using assms(2) ring_cnt_less [of r] by (intro unat_u32_of_nat) simp
  have "unat ((r_tail r + of_nat p) AND 511) = (unat (r_tail r) + p) mod 512" using unat_add_512 [of "r_tail r" "of_nat p"] p by simp
  then have "r_buf r ! unat ((r_tail r + of_nat p) AND 511) = ring_bytes r ! p" using ring_nth [OF assms(2)] by simp
  moreover have e: "(r_tail r + of_nat (p + 1)) AND 511 = (((r_tail r + of_nat p) AND 511) + 1) AND 511"
    by (simp only: and_511_add of_nat_add of_nat_1 add.assoc)
  moreover have "ring_skip (of_nat (p + 1)) r = r\<lparr>r_tail := (((r_tail r + of_nat p) AND 511) + 1) AND 511\<rparr>"
    unfolding ring_skip_def e [symmetric] by simp
  ultimately show ?thesis using assms(3) by (auto simp: jump_eol_def Let_def is_eol_def)
qed

lemma modify_tail:
  assumes "ring_ok r" "p < ring_cnt r"
  shows "modify_atcmd_tail ((unat (r_tail r) + p) mod 512) r = (Some ((unat (r_tail r) + p) mod 512), r\<lparr>r_tail := (r_tail r + of_nat p) AND 511\<rparr>)"
proof -
  let ?t = "unat (r_tail r)"
  have ok: "?t < 512" "p < 512" using assms ring_cnt_less [of r] by (simp_all add: ring_ok_def)
  have "(if (?t + p) mod 512 \<ge> ?t then (?t + p) mod 512 - ?t else (?t + p) mod 512 + 512 - ?t) = p"
    using ok by (cases "?t + p < 512") (auto simp: mod_if)
  then show ?thesis using ok by (simp add: modify_atcmd_tail_def Let_def)
qed

lemma find_some_nth: "find_atcmd_eol xs = Some p \<Longrightarrow> p < length xs \<and> is_eol (xs ! p)"
proof -
  have m: "memchr c xs = Some p \<Longrightarrow> p < length xs \<and> xs ! p = c" for c p
    by (induction xs arbitrary: p) (auto split: if_splits)
  show "find_atcmd_eol xs = Some p \<Longrightarrow> p < length xs \<and> is_eol (xs ! p)"
    using m [of CR] m [of LF] by (auto simp: find_atcmd_eol_def is_eol_def split: option.splits if_splits)
qed

lemma at_eol_nth: "at_eol k xs = Some p \<Longrightarrow> p < length xs \<and> is_eol (xs ! p)"
  using find_some_nth [of "take k xs"] find_some_nth [of "drop k xs"] by (auto simp: at_eol_def split: option.splits)

lemma parse_eol_some:
  assumes "ring_ok r" "0 < ring_cnt r" "at_eol (512 - unat (r_tail r)) (ring_bytes r) = Some p"
  shows "parse_atcmd_eol r = (Some ((unat (r_tail r) + p) mod 512), ring_skip (of_nat (p + 1)) r)"
proof -
  let ?t = "unat (r_tail r)" and ?k = "512 - unat (r_tail r)" and ?xs = "ring_bytes r"
  have ok: "?t < 512" using assms(1) by (simp add: ring_ok_def)
  have p: "p < ring_cnt r" "is_eol (?xs ! p)" using at_eol_nth [OF assms(3)] by simp_all
  note mj = modify_tail [OF assms(1) p(1)] jump_eol_skip [OF assms(1) p]
  show ?thesis
  proof (cases "r_head r > r_tail r")
    case True
    note s = ring_split(1) [OF assms(1,2) True]
    then have f: "find_atcmd_eol ?xs = Some p" using assms(3) by (auto simp: at_eol_def find_none no_eol_def split: option.splits)
    have "?t + p < 512" using p(1) s by linarith
    then have "(?t + p) mod 512 = ?t + p" by simp
    then show ?thesis using True s f mj by (simp add: parse_atcmd_eol_def Let_def)
  next
    case False
    note s = ring_split(2) [OF assms(1,2) False]
    show ?thesis
    proof (cases "find_atcmd_eol (take ?k ?xs)")
      case (Some q)
      then have q: "q = p" using assms(3) by (simp add: at_eol_def)
      then have "p < ?k" using find_some_nth [OF Some] by simp
      then have "(?t + p) mod 512 = ?t + p" by simp
      then show ?thesis using False s Some q mj by (simp add: parse_atcmd_eol_def Let_def)
    next
      case None
      then obtain q where q: "find_atcmd_eol (drop ?k ?xs) = Some q" "p = ?k + q" using assms(3) by (auto simp: at_eol_def)
      have "?t + p = q + 512" using q(2) ok by simp
      moreover have "q < 512" using find_some_nth [OF q(1)] ring_cnt_less [of r] by (simp, linarith)
      ultimately have "(?t + p) mod 512 = q" by (intro mod_512)
      then show ?thesis using False s None q mj by (simp add: parse_atcmd_eol_def Let_def)
    qed
  qed
qed

lemma parse_eol_none:
  assumes "ring_ok r" "0 < ring_cnt r" "no_eol (ring_bytes r)"
  shows "parse_atcmd_eol r = (None, r)"
proof -
  let ?t = "unat (r_tail r)" and ?k = "512 - unat (r_tail r)" and ?xs = "ring_bytes r"
  have "r_buf r ! unat (r_tail r) = ?xs ! 0" using ring_nth [OF assms(2)] assms(1) by (simp add: ring_ok_def)
  then have "\<not> is_eol (r_buf r ! unat (r_tail r))" using assms(2,3) by (simp add: no_eol_def)
  then have j: "jump_eol r = r" by (simp add: jump_eol_def Let_def is_eol_def)
  show ?thesis
  proof (cases "r_head r > r_tail r")
    case True
    then show ?thesis using ring_split(1) [OF assms(1,2) True] find_none [OF assms(3)] j by (simp add: parse_atcmd_eol_def Let_def)
  next
    case False
    then show ?thesis using ring_split(2) [OF assms(1,2) False] no_eol_sub [OF assms(3), THEN find_none] j
      by (simp add: parse_atcmd_eol_def Let_def)
  qed
qed

lemma copy_cmd_bytes:
  assumes "ring_ok r" "n \<le> ring_cnt r" "r_buf r' = r_buf r"
  shows "copy_cmd (unat (r_tail r)) ((unat (r_tail r) + n) mod 512) r' = take n (ring_bytes r)"
proof -
  let ?t = "unat (r_tail r)"
  have ok: "?t < 512" "length (r_buf r) = 512" "n < 512" using assms(1,2) ring_cnt_less [of r] by (simp_all add: ring_ok_def)
  have all: "take n (ring_bytes r) = take n (drop ?t (r_buf r) @ r_buf r)" by (rule ring_bytes_unroll [OF assms(1,2)])
  show ?thesis
  proof (cases "?t + n < 512")
    case True
    then show ?thesis unfolding all using ok assms(3) by (simp add: copy_cmd_def)
  next
    case False
    then have e: "(?t + n) mod 512 = ?t + n - 512" using ok by (intro mod_512) simp_all
    then show ?thesis unfolding all e using False ok assms(3) by (simp add: copy_cmd_def add.commute)
  qed
qed


section \<open>One call of the parser\<close>

definition at_prefix :: "u8 list \<Rightarrow> bool" where
  "at_prefix pre \<longleftrightarrow> pre \<in> {[0x41, 0x54, 0x2B], [0x61, 0x54, 0x2B], [0x41, 0x74, 0x2B], [0x61, 0x74, 0x2B]}"

definition at_noise :: "u8 list \<Rightarrow> bool" where
  "at_noise j \<longleftrightarrow> 0x41 \<notin> set j \<and> 0x61 \<notin> set j"

lemma at_prefix_length: "at_prefix pre \<Longrightarrow> length pre = 3"
  by (auto simp: at_prefix_def)

lemma ring_at_nth: "unat k < ring_cnt r \<Longrightarrow> ring_at r k = ring_bytes r ! unat k"
  using unat_add_512 [of "r_tail r" k] by (simp add: ring_at_def ring_nth)

lemma is_at_bytes:
  assumes "ring_ok r" "3 \<le> ring_cnt r"
  shows "is_at r \<longleftrightarrow> at_prefix (take 3 (ring_bytes r))"
proof -
  have "r_buf r ! unat (r_tail r) = ring_bytes r ! 0" using ring_nth [of 0 r] assms by (simp add: ring_ok_def)
  moreover have "ring_at r 1 = ring_bytes r ! 1" "ring_at r 2 = ring_bytes r ! 2"
    using ring_at_nth [of 1 r] ring_at_nth [of 2 r] assms(2) by simp_all
  moreover have "take 3 (ring_bytes r) = [ring_bytes r ! 0, ring_bytes r ! 1, ring_bytes r ! 2]"
    using assms(2) by (intro nth_equalityI) (auto simp: less_Suc_eq numeral_eq_Suc)
  ultimately show ?thesis by (auto simp: is_at_def at_prefix_def)
qed

lemma skip_eq: "(t + 1) mod 512 = (t + 1) AND (511 :: u32)"
proof -
  have "unat ((t + 1) mod 512) = unat ((t + 1) AND 511)" by (simp add: unat_mod_distrib)
  then show ?thesis by (simp only: word_unat_eq_iff)
qed

lemma parse_noise:
  assumes "ring_ok r" "4 \<le> ring_cnt r" "\<not> at_prefix (take 3 (ring_bytes r))"
  shows "parse_atcmd_line a u r = parse_atcmd_line a u (ring_skip 1 r)"
proof -
  have "\<not> CIRC_CNT (r_head r) (r_tail r) < 4" using circ_cnt_ring [OF assms(1)] assms(2) by (simp add: word_less_nat_alt)
  moreover have "\<not> is_at r" using is_at_bytes [OF assms(1)] assms(2,3) by simp
  ultimately show ?thesis by (subst parse_atcmd_line.simps) (simp add: ring_skip_def skip_eq)
qed

lemma noise_skipped:
  assumes "ring_ok r" "ring_bytes r = j @ xs" "at_noise j" "4 \<le> length xs"
  shows "parse_atcmd_line a u r = parse_atcmd_line a u (ring_skip (of_nat (length j)) r)"
  using assms
proof (induction j arbitrary: r)
  case Nil
  have "ring_skip 0 r = r"
  proof -
    have "r_tail r AND 511 = r_tail r" using Nil.prems(1) by (simp add: word_unat_eq_iff ring_ok_def)
    then show ?thesis by (simp add: ring_skip_def)
  qed
  then show ?case by simp
next
  case (Cons x j)
  have c: "ring_cnt r = Suc (length j + length xs)" using Cons.prems(2) length_ring_bytes [of r] by simp
  have "\<not> at_prefix (take 3 (ring_bytes r))" using Cons.prems(2,3) by (auto simp: at_prefix_def at_noise_def)
  then have "parse_atcmd_line a u r = parse_atcmd_line a u (ring_skip 1 r)"
    using Cons.prems(1,4) c by (intro parse_noise) simp_all
  also have "\<dots> = parse_atcmd_line a u (ring_skip (of_nat (length j)) (ring_skip 1 r))"
    using Cons.prems c ring_bytes_skip [OF Cons.prems(1), of 1] by (intro Cons.IH ring_skip_ok) (simp_all add: at_noise_def)
  also have "ring_skip (of_nat (length j)) (ring_skip 1 r) = ring_skip (of_nat (length (x # j))) r" by (simp add: ring_skip_skip)
  finally show ?case .
qed

lemma finish_line:
  assumes "at_prefix pre" "no_eol b" "is_eol e"
  shows "finish_cmd (pre @ b) = pre @ b @ [LF]" "finish_cmd (pre @ b @ [e]) = pre @ b @ [LF]"
proof -
  have n: "no_eol (pre @ b)" using assms(1,2) by (auto simp: at_prefix_def no_eol_def is_eol_def)
  have l: "3 \<le> length (pre @ b)" using at_prefix_length [OF assms(1)] by simp
  have i: "\<not> is_eol ((pre @ b) ! k)" if "k < length (pre @ b)" for k using n that nth_mem [OF that] by (simp add: no_eol_def)
  show "finish_cmd (pre @ b) = pre @ b @ [LF]"
    using i [of "length (pre @ b) - 2"] i [of "length (pre @ b) - 1"] l by (simp add: finish_cmd_def Let_def is_eol_def)
  have "length (pre @ b @ [e]) - 2 < length (pre @ b)" using l by simp
  then have "\<not> is_eol ((pre @ b @ [e]) ! (length (pre @ b @ [e]) - 2))"
    using i [of "length (pre @ b @ [e]) - 2"] by (metis append_assoc nth_append)
  moreover have "(pre @ b @ [e]) ! (length (pre @ b @ [e]) - 1) = e" by (metis append_assoc append_is_Nil_conv last_conv_nth last_snoc not_Cons_self2)
  moreover have "take (length (pre @ b @ [e]) - 1) (pre @ b @ [e]) = pre @ b" by simp
  ultimately show "finish_cmd (pre @ b @ [e]) = pre @ b @ [LF]"
    using assms(3) unfolding finish_cmd_def Let_def is_eol_def by simp
qed

text \<open>The call for a complete command, and what it leaves: the bytes behind the end of line, or behind the pair of ends.\<close>

lemma parse_command:
  assumes "ring_ok r" "ring_bytes r = pre @ b @ e # rest" "at_prefix pre" "no_eol b" "is_eol e"
  obtains r' n where "parse_atcmd_line True u r =
      (Hostif_cmd_handler (if u = 0 then 4 else 3) (pre @ b @ [LF]) #
         (if drop n rest = [] then [] else [Task_rx_cb u (CIRC_CNT (r_head r') (r_tail r'))]), r')"
    "ring_ok r'" "ring_bytes r' = drop n rest" "n = 0 \<or> n = 1 \<and> rest \<noteq> [] \<and> is_eol (hd rest)"
proof -
  let ?r1 = "ring_skip 3 r"
  have l: "length pre = 3" by (rule at_prefix_length [OF assms(3)])
  have c: "ring_cnt r = 4 + length b + length rest" using assms(2) l length_ring_bytes [of r] by simp
  have b1: "ring_bytes ?r1 = b @ e # rest" using ring_bytes_skip [OF assms(1), of 3] c assms(2) l by simp
  have ok1: "ring_ok ?r1" by (rule ring_skip_ok [OF assms(1)])
  have c1: "0 < ring_cnt ?r1" using b1 length_ring_bytes [of ?r1] by simp
  have enough: "\<not> CIRC_CNT (r_head r) (r_tail r) < 4" using circ_cnt_ring [OF assms(1)] c by (simp add: word_less_nat_alt)
  have at: "is_at r" using is_at_bytes [OF assms(1)] c assms(2,3) l by simp
  obtain p where p: "at_eol (512 - unat (r_tail ?r1)) (ring_bytes ?r1) = Some p" "length b \<le> p" "p \<le> length b + 1"
    "p = length b + 1 \<Longrightarrow> rest \<noteq> [] \<and> is_eol (hd rest)"
    unfolding b1 by (rule at_eol_line [OF assms(4,5), of "512 - unat (r_tail ?r1)" rest]) (auto simp: other_eol_def is_eol_def)
  let ?r2 = "ring_skip (of_nat (p + 1)) ?r1" and ?n = "p - length b"
  have pl: "p < ring_cnt ?r1" using at_eol_nth [OF p(1)] by simp
  have eol: "parse_atcmd_eol ?r1 = (Some ((unat (r_tail ?r1) + p) mod 512), ?r2)" by (rule parse_eol_some [OF ok1 c1 p(1)])
  have pos: "(unat (r_tail ?r1) + p) mod 512 = (unat (r_tail r) + (3 + p)) mod 512" by (simp add: ring_skip_indices mod_simps add.assoc)
  have pc: "3 + p \<le> ring_cnt r" using pl b1 length_ring_bytes [of ?r1] c by simp
  have "copy_cmd (unat (r_tail r)) ((unat (r_tail ?r1) + p) mod 512) ?r2 = take (3 + p) (ring_bytes r)"
    unfolding pos by (rule copy_cmd_bytes [OF assms(1) pc]) (simp add: ring_skip_indices)
  moreover have "finish_cmd (take (3 + p) (ring_bytes r)) = pre @ b @ [LF]"
  proof (cases "p = length b")
    case True
    then show ?thesis using finish_line(1) [OF assms(3-5)] assms(2) l by simp
  next
    case False
    then have "p = length b + 1" using p(2,3) by simp
    then show ?thesis using finish_line(2) [OF assms(3-5)] assms(2) l by simp
  qed
  ultimately have cmd: "finish_cmd (copy_cmd (unat (r_tail r)) ((unat (r_tail ?r1) + p) mod 512) ?r2) = pre @ b @ [LF]" by simp
  have up: "unat (of_nat (p + 1) :: u32) = p + 1" using pl ring_cnt_less [of ?r1] by (intro unat_u32_of_nat) simp
  have ok2: "ring_ok ?r2" by (rule ring_skip_ok [OF ok1])
  have b2: "ring_bytes ?r2 = drop ?n rest"
    using ring_bytes_skip [OF ok1, of "of_nat (p + 1)"] up pl p(2) b1 by (simp add: drop_Cons' Suc_diff_le)
  have cnt: "CIRC_CNT (r_head ?r2) (r_tail ?r2) > 0 \<longleftrightarrow> drop ?n rest \<noteq> []"
    using circ_cnt_ring [OF ok2] b2 length_ring_bytes [of ?r2] by (metis length_0_conv unat_gt_0 word_neq_0_conv word_coorder.not_eq_extremum gr0I)
  have emp: "parse_atcmd_line True u ?r2 = ([], ?r2)" if "drop ?n rest = []"
    using cnt that by (subst parse_atcmd_line.simps) (simp add: word_less_nat_alt)
  have r1: "r\<lparr>r_tail := (r_tail r + 3) AND 511\<rparr> = ?r1" by (simp add: ring_skip_def)
  have "parse_atcmd_line True u r =
      (Hostif_cmd_handler (if u = 0 then 4 else 3) (pre @ b @ [LF]) #
         (if drop ?n rest = [] then [] else [Task_rx_cb u (CIRC_CNT (r_head ?r2) (r_tail ?r2))]), ?r2)"
    using enough at eol cmd cnt emp by (subst parse_atcmd_line.simps) (simp add: r1 Let_def)
  moreover have "?n = 0 \<or> ?n = 1 \<and> rest \<noteq> [] \<and> is_eol (hd rest)" using p(2-4) by (cases "p = length b") auto
  ultimately show thesis using that ok2 b2 by blast
qed

text \<open>A command that has not ended stays in the ring.\<close>

lemma parse_incomplete:
  assumes "ring_ok r" "ring_bytes r = xs" "take 3 xs = pre \<or> length xs < 4" "at_prefix pre" "no_eol xs"
  shows "parse_atcmd_line a u r = ([], r)"
proof (cases "ring_cnt r < 4")
  case True
  then have "CIRC_CNT (r_head r) (r_tail r) < 4" using circ_cnt_ring [OF assms(1)] by (simp add: word_less_nat_alt)
  then show ?thesis by (subst parse_atcmd_line.simps) simp
next
  case False
  let ?r1 = "ring_skip 3 r"
  have b1: "ring_bytes ?r1 = drop 3 xs" using ring_bytes_skip [OF assms(1), of 3] False assms(2) by simp
  have ok1: "ring_ok ?r1" by (rule ring_skip_ok [OF assms(1)])
  have c1: "0 < ring_cnt ?r1" using False ring_cnt_skip [OF assms(1), of 3] by simp
  have eol: "parse_atcmd_eol ?r1 = (None, ?r1)" using b1 no_eol_sub(2) [OF assms(5)] by (intro parse_eol_none [OF ok1 c1]) simp
  have "\<not> CIRC_CNT (r_head r) (r_tail r) < 4" using circ_cnt_ring [OF assms(1)] False by (simp add: word_less_nat_alt)
  moreover have "is_at r" using is_at_bytes [OF assms(1)] False assms(2-4) length_ring_bytes [of r] by auto
  moreover have "\<not> CIRC_CNT (r_head ?r1) (r_tail ?r1) > 512"
    using circ_cnt_ring [OF ok1] ring_cnt_less [of ?r1] by (simp add: word_less_nat_alt)
  moreover have "?r1\<lparr>r_tail := (r_tail ?r1 - 3) AND 511\<rparr> = r"
  proof -
    have "(((r_tail r + 3) AND 511) - 3) AND 511 = r_tail r AND 511" using and_511_add [of "r_tail r + 3" "- 3"] by simp
    moreover have "r_tail r AND 511 = r_tail r" using assms(1) by (simp add: word_unat_eq_iff ring_ok_def)
    ultimately show ?thesis by (simp add: ring_skip_def)
  qed
  moreover have "r\<lparr>r_tail := (r_tail r + 3) AND 511\<rparr> = ?r1" by (simp add: ring_skip_def)
  ultimately show ?thesis using eol by (subst parse_atcmd_line.simps) simp
qed


section \<open>Runs of the parser\<close>

fun handled :: "at_call list \<Rightarrow> u8 list list" where
  "handled [] = []"
| "handled (Hostif_cmd_handler k c # cs) = c # handled cs"
| "handled (Task_rx_cb u n # cs) = handled cs"

lemma handled_append [simp]: "handled (a @ b) = handled a @ handled b"
  by (induction a rule: handled.induct) simp_all

fun at_calls :: "nat \<Rightarrow> nat \<Rightarrow> tls_uart_circ_buf \<Rightarrow> at_call list \<times> tls_uart_circ_buf" where
  "at_calls u 0 r = ([], r)"
| "at_calls u (Suc n) r = (let (cs, r) = parse_atcmd_line True u r; (cs', r) = at_calls u n r in (cs @ cs', r))"

fun at_feed :: "nat \<Rightarrow> u8 list list \<Rightarrow> tls_uart_circ_buf \<Rightarrow> at_call list \<times> tls_uart_circ_buf" where
  "at_feed u [] r = ([], r)"
| "at_feed u (p # ps) r = (let (cs, r) = parse_atcmd_line True u (fold ring_put p r); (cs', r) = at_feed u ps r in (cs @ cs', r))"

type_synonym at_item = "u8 list \<times> u8 list \<times> u8 list \<times> u8"

fun item_ok :: "at_item \<Rightarrow> bool" where
  "item_ok (j, pre, b, e) \<longleftrightarrow> at_noise j \<and> at_prefix pre \<and> no_eol b \<and> is_eol e"

fun item_bytes :: "at_item \<Rightarrow> u8 list" where
  "item_bytes (j, pre, b, e) = j @ pre @ b @ [e]"

fun item_cmd :: "at_item \<Rightarrow> u8 list" where
  "item_cmd (j, pre, b, e) = pre @ b @ [LF]"

lemma parse_item:
  assumes "ring_ok r" "ring_bytes r = j @ pre @ b @ e # rest" "item_ok (j, pre, b, e)"
  obtains cs r' n where "parse_atcmd_line True u r = (cs, r')" "handled cs = [item_cmd (j, pre, b, e)]" "ring_ok r'" "ring_bytes r' = drop n rest"
    "n = 0 \<or> n = 1 \<and> rest \<noteq> [] \<and> is_eol (hd rest)"
proof -
  let ?r = "ring_skip (of_nat (length j)) r"
  have c: "length j \<le> ring_cnt r" using assms(2) length_ring_bytes [of r] by simp
  have j: "unat (of_nat (length j) :: u32) = length j" using c ring_cnt_less [of r] by (intro unat_u32_of_nat) simp
  have it: "at_prefix pre" "no_eol b" "is_eol e" using assms(3) by simp_all
  have bs: "ring_bytes ?r = pre @ b @ e # rest" using ring_bytes_skip [OF assms(1), of "of_nat (length j)"] j c assms(2) by simp
  have "parse_atcmd_line True u r = parse_atcmd_line True u ?r"
    using assms(3) at_prefix_length [of pre] by (intro noise_skipped [OF assms(1,2)]) auto
  moreover obtain r' n where p: "parse_atcmd_line True u ?r =
      (Hostif_cmd_handler (if u = 0 then 4 else 3) (pre @ b @ [LF]) #
         (if drop n rest = [] then [] else [Task_rx_cb u (CIRC_CNT (r_head r') (r_tail r'))]), r')" (is "_ = (?cs, r')")
    "ring_ok r'" "ring_bytes r' = drop n rest" "n = 0 \<or> n = 1 \<and> rest \<noteq> [] \<and> is_eol (hd rest)"
    by (rule parse_command [OF ring_skip_ok [OF assms(1)] bs it])
  ultimately have "parse_atcmd_line True u r = (?cs, r')" by simp
  moreover have "handled ?cs = [item_cmd (j, pre, b, e)]" by simp
  ultimately show thesis using p(2-4) by (rule that)
qed

lemma calls_deliver:
  assumes "ring_ok r" "ring_bytes r = concat (map item_bytes xs) @ rest" "list_all item_ok xs"
  shows "handled (fst (at_calls u (length xs) r)) = map item_cmd xs"
  using assms
proof (induction "length xs" arbitrary: xs r)
  case (Suc m zs)
  then obtain x xs where z: "zs = x # xs" "m = length xs" by (cases zs) auto
  obtain j pre b e where x: "x = (j, pre, b, e)" by (cases x)
  let ?rest = "concat (map item_bytes xs) @ rest"
  obtain cs r' n where p: "parse_atcmd_line True u r = (cs, r')" "handled cs = [item_cmd x]" "ring_ok r'" "ring_bytes r' = drop n ?rest"
    "n = 0 \<or> n = 1 \<and> ?rest \<noteq> [] \<and> is_eol (hd ?rest)"
    using parse_item [of r j pre b e ?rest u] Suc.prems x z by auto
  have "handled (fst (at_calls u m r')) = map item_cmd xs"
  proof (cases "n = 0 \<or> xs = []")
    case True
    then show ?thesis using Suc.hyps(1) [OF z(2) p(3)] p(4) Suc.prems(3) z by auto
  next
    case False
    then obtain j' pre' b' e' ys where c: "xs = (j', pre', b', e') # ys" by (cases xs) auto
    then have ok: "at_prefix pre'" "at_noise j'" using Suc.prems(3) z by simp_all
    have "j' \<noteq> []"
    proof
      assume "j' = []"
      then have "hd ?rest = hd pre'" using c ok(1) by (auto simp: at_prefix_def)
      then show False using False p(5) ok(1) by (auto simp: at_prefix_def is_eol_def)
    qed
    then obtain k j'' where j': "j' = k # j''" by (cases j') auto
    let ?ys = "(j'', pre', b', e') # ys"
    have "ring_bytes r' = concat (map item_bytes ?ys) @ rest" using p(4,5) False c j' by simp
    moreover have "list_all item_ok ?ys" using Suc.prems(3) z c j' by (simp add: at_noise_def)
    moreover have "m = length ?ys" using z c by simp
    ultimately have "handled (fst (at_calls u (length ?ys) r')) = map item_cmd ?ys" using Suc.hyps(1) p(3) by blast
    then show ?thesis using z c by simp
  qed
  then show ?case using p(1,2) z by (simp add: case_prod_beta)
qed simp

lemma feed_empty:
  assumes "ring_ok r" "ring_bytes r = []" "concat ps = []"
  shows "handled (fst (at_feed u ps r)) = []"
  using assms(3)
proof (induction ps)
  case (Cons p ps)
  have "parse_atcmd_line True u r = ([], r)" by (rule parse_incomplete [OF assms(1,2), of "[0x41, 0x54, 0x2B]"]) (simp_all add: at_prefix_def no_eol_def)
  then show ?case using Cons by simp
qed simp

lemma prefix_incomplete:
  assumes "xs @ ys = pre @ b @ [e]" "ys \<noteq> []" "at_prefix pre" "no_eol b"
  shows "take 3 xs = pre \<or> length xs < 4" "no_eol xs"
proof -
  have "xs @ butlast ys = pre @ b" using assms(1,2) by (metis butlast_append butlast_snoc append_assoc)
  then have "take 3 (xs @ butlast ys) = pre" "no_eol (xs @ butlast ys)"
    using assms(3,4) at_prefix_length [OF assms(3)] by (auto simp: at_prefix_def no_eol_def is_eol_def)
  then show "take 3 xs = pre \<or> length xs < 4" "no_eol xs" by (auto simp: no_eol_def)
qed

lemma feed_delivers:
  assumes "ring_ok r" "ring_bytes r @ concat ps = pre @ b @ [e]" "length (pre @ b @ [e]) \<le> 511" "at_prefix pre" "no_eol b" "is_eol e" "concat ps \<noteq> []"
  shows "handled (fst (at_feed u ps r)) = [pre @ b @ [LF]]"
  using assms
proof (induction ps arbitrary: r)
  case (Cons p ps)
  let ?r = "fold ring_put p r"
  have "length (ring_bytes r @ concat (p # ps)) \<le> 511" using Cons.prems(2,3) by (simp only:)
  then have "length (ring_bytes r) + length p \<le> 511" by simp
  then have r: "ring_ok ?r" "ring_bytes ?r = ring_bytes r @ p" using ring.put_all [OF Cons.prems(1)] by simp_all
  have eq: "ring_bytes ?r @ concat ps = pre @ b @ [e]" using Cons.prems(2) r(2) by simp
  show ?case
  proof (cases "concat ps = []")
    case True
    then have "ring_bytes ?r = pre @ b @ e # []" using eq by (simp only: True append_Nil2)
    then obtain r' n where "parse_atcmd_line True u ?r =
      (Hostif_cmd_handler (if u = 0 then 4 else 3) (pre @ b @ [LF]) #
         (if drop n [] = ([] :: u8 list) then [] else [Task_rx_cb u (CIRC_CNT (r_head r') (r_tail r'))]), r')" "ring_ok r'" "ring_bytes r' = drop n []"
      by (rule parse_command [OF r(1) _ Cons.prems(4-6)])
    then show ?thesis using feed_empty [of r' ps u] True by (simp add: case_prod_beta)
  next
    case False
    then have "parse_atcmd_line True u ?r = ([], ?r)"
      using parse_incomplete [OF r(1) refl _ Cons.prems(4)] prefix_incomplete [OF eq False Cons.prems(4,5)] by blast
    then show ?thesis using Cons.IH [OF r(1) eq Cons.prems(3-6) False] by (simp add: case_prod_beta)
  qed
qed simp

section \<open>Properties\<close>

text \<open>C18. The commands that wait in the ring, each with bytes before it that are no start of a command, reach the handler
  one per call of the parser: all of them, in their order, each complete and ended by one line feed, wherever the
  ring wraps around and whether a line ends with a carriage return, a line feed or both.\<close>

theorem at_commands_delivered:
  assumes "ring_ok r" "ring_bytes r = concat (map item_bytes xs) @ rest" "list_all item_ok xs"
  shows "handled (fst (at_calls u (length xs) r)) = map item_cmd xs"
  using assms by (rule calls_deliver)

theorem at_commands_delivered_witness:
  "handled (fst (at_calls 0 2 (fold ring_put [65, 84, 43, 90, 13, 10, 97, 116, 43, 81, 63, 10] \<lparr>r_buf = replicate 512 0, r_head = 508, r_tail = 508\<rparr>))) =
    [[65, 84, 43, 90, 10], [97, 116, 43, 81, 63, 10]]"
proof -
  let ?xs = "[([], [65, 84, 43], [90], 13), ([10], [97, 116, 43], [81, 63], 10)] :: at_item list"
  let ?r = "\<lparr>r_buf = replicate 512 0, r_head = 508, r_tail = 508\<rparr>" and ?b = "[65, 84, 43, 90, 13, 10, 97, 116, 43, 81, 63, 10]"
  have "ring_ok ?r" "ring_bytes ?r = []" by (simp_all add: ring_ok_def ring_bytes_def ring_cnt_def)
  then have "ring_ok (fold ring_put ?b ?r)" "ring_bytes (fold ring_put ?b ?r) = concat (map item_bytes ?xs) @ []"
    using ring.put_all [of ?r ?b] by (simp_all del: fold_simps)
  moreover have "list_all item_ok ?xs" by (simp add: at_noise_def at_prefix_def no_eol_def is_eol_def)
  ultimately have "handled (fst (at_calls 0 (length ?xs) (fold ring_put ?b ?r))) = map item_cmd ?xs" by (rule at_commands_delivered)
  moreover have "length ?xs = 2" by simp
  ultimately show ?thesis by (simp only: list.map item_cmd.simps append.simps)
qed

text \<open>C30. A command may arrive in any pieces, with a call of the parser after each: it reaches the handler once, when it is
  complete.\<close>

theorem at_fragments_delivered:
  assumes "ring_ok r" "ring_bytes r = []" "concat ps = pre @ b @ [e]" "length (pre @ b @ [e]) \<le> 511" "at_prefix pre" "no_eol b" "is_eol e"
  shows "handled (fst (at_feed u ps r)) = [pre @ b @ [LF]]"
  using assms by (intro feed_delivers) simp_all

theorem at_fragments_delivered_witness:
  "handled (fst (at_feed 1 [[65], [84, 43, 90], [], [81, 13]] \<lparr>r_buf = replicate 512 0, r_head = 511, r_tail = 511\<rparr>)) = [[65, 84, 43, 90, 81, 10]]"
proof -
  have "handled (fst (at_feed 1 [[65], [84, 43, 90], [], [81, 13]] \<lparr>r_buf = replicate 512 0, r_head = 511, r_tail = 511\<rparr>)) = [[65, 84, 43] @ [90, 81] @ [10]]"
    by (rule at_fragments_delivered [where e = 13])
      (simp_all add: ring_ok_def ring_bytes_def ring_cnt_def at_prefix_def no_eol_def is_eol_def)
  then show ?thesis by simp
qed

end
