(* ===== verification/Spifls.thy ===== *)
theory Spifls
  imports Flash
begin

text \<open>
  The driver of an external serial flash: the module \<^verbatim>\<open>wm_fls.c\<close>, which
  keeps a list of chip drivers and the lock, and the chip driver
  \<^verbatim>\<open>wm_fls_gd25qxx.c\<close>. The transactions of the SPI master
  (\<^verbatim>\<open>wm_hostspi.h\<close>) are the fields of \<open>spi_bus\<close>, functions on the state
  \<open>'c\<close> of the bus and the chip; they return a status, zero for success. A driver
  structure is named by its address: \<open>drv_mem\<close> holds its data members, and the table
  \<open>ops\<close> its function pointers. The result \<open>None\<close> stands for a call that does not
  return: a wait for a status bit that never changes, a wait for a lock that nobody
  releases, a null pointer dereferenced, or a copy beyond the end of a buffer.
\<close>

unbundle bit_operations_syntax

section \<open>Data\<close>

record 'c spi_bus =
  tls_spi_write :: "u8 list \<Rightarrow> 'c \<Rightarrow> int \<times> 'c"
  tls_spi_read_with_cmd :: "u8 list \<Rightarrow> nat \<Rightarrow> 'c \<Rightarrow> int \<times> u8 list \<times> 'c"
  tls_spi_write_with_cmd :: "u8 list \<Rightarrow> u8 list \<Rightarrow> 'c \<Rightarrow> int \<times> 'c"
  tls_spi_setup :: "u8 \<Rightarrow> u8 \<Rightarrow> u32 \<Rightarrow> 'c \<Rightarrow> 'c"

record tls_fls_drv =
  drv_id :: u32
  total_size :: u32
  page_size :: u32
  program_size :: u32
  sector_size :: u32
  drv_clock :: u32
  drv_mode :: u8
  cs_active :: u8
  drv_flags :: u8

record 'c fls_dev =
  spi_dev :: 'c
  drv_mem :: "nat \<Rightarrow> tls_fls_drv"
  exspifls_drv :: "nat option"

record 'c tls_fls_ops =
  drv_read :: "u32 \<Rightarrow> u32 \<Rightarrow> 'c fls_dev \<Rightarrow> (nat \<times> u8 list \<times> 'c fls_dev) option"
  drv_fast_read :: "u32 \<Rightarrow> u32 \<Rightarrow> 'c fls_dev \<Rightarrow> (nat \<times> u8 list \<times> 'c fls_dev) option"
  drv_page_write :: "u32 \<Rightarrow> u8 list \<Rightarrow> 'c fls_dev \<Rightarrow> (nat \<times> 'c fls_dev) option"
  drv_erase :: "u32 \<Rightarrow> 'c fls_dev \<Rightarrow> (nat \<times> 'c fls_dev) option"
  drv_chip_erase :: "'c fls_dev \<Rightarrow> (nat \<times> 'c fls_dev) option"
  drv_probe :: "u32 \<Rightarrow> 'c fls_dev \<Rightarrow> (nat \<times> 'c fls_dev) option"
  drv_remove :: "'c fls_dev \<Rightarrow> 'c fls_dev"

record tls_fls =
  fls_drvs :: "nat list"
  current_drv :: "nat option"
  fls_lock :: nat

record 'c spifls =
  fls_dev :: "'c fls_dev"
  spi_fls :: "tls_fls option"

section \<open>The chip driver\<close>

definition exspi_fls :: nat where
  "exspi_fls = 0"

definition exspi_fls_init :: tls_fls_drv where
  "exspi_fls_init = \<lparr>drv_id = 0, total_size = 0, page_size = 0, program_size = 0, sector_size = 0,
     drv_clock = 10000000, drv_mode = 0, cs_active = 0, drv_flags = 0\<rparr>"

definition swap32 :: "u32 \<Rightarrow> u32" where
  "swap32 v = push_bit 24 (v AND 0xFF) OR push_bit 8 (v AND 0xFF00) OR drop_bit 8 (v AND 0xFF0000) OR drop_bit 24 v"

definition fls_cmd :: "u32 \<Rightarrow> u32 \<Rightarrow> u8 list" where
  "fls_cmd opcode adr = le32 (opcode OR (swap32 adr AND 0xFFFFFF00))"

definition spifls_write_enable :: "'c spi_bus \<Rightarrow> 'c \<Rightarrow> nat \<times> 'c" where
  "spifls_write_enable bus c =
     (case tls_spi_write bus [0x06] c of (err, c) \<Rightarrow> (if err \<noteq> 0 then 10 else 0, c))"

partial_function (option) spifls_wait_write_enable :: "'c spi_bus \<Rightarrow> 'c \<Rightarrow> (nat \<times> 'c) option" where
  "spifls_wait_write_enable bus c =
     (case tls_spi_read_with_cmd bus [0x05] 1 c of (err, rx, c) \<Rightarrow>
        if err \<noteq> 0 then Some (10, c)
        else if bit (rx ! 0) 1 then Some (0, c)
        else spifls_wait_write_enable bus c)"

partial_function (option) spifls_wait_flash_ready :: "'c spi_bus \<Rightarrow> 'c \<Rightarrow> (nat \<times> 'c) option" where
  "spifls_wait_flash_ready bus c =
     (case tls_spi_read_with_cmd bus [0x05] 1 c of (err, rx, c) \<Rightarrow>
        if err \<noteq> 0 then Some (10, c)
        else if \<not> bit (rx ! 0) 0 then Some (0, c)
        else spifls_wait_flash_ready bus c)"

definition spifls_drv_read :: "'c spi_bus \<Rightarrow> u32 \<Rightarrow> u32 \<Rightarrow> 'c fls_dev \<Rightarrow> (nat \<times> u8 list \<times> 'c fls_dev) option" where
  "spifls_drv_read bus adr len d =
     (case tls_spi_read_with_cmd bus (fls_cmd 0x03 adr) (unat len) (spi_dev d) of (err, rx, c) \<Rightarrow>
        Some (if err \<noteq> 0 then 10 else 0, rx, d\<lparr>spi_dev := c\<rparr>))"

definition spifls_drv_fast_read :: "u32 \<Rightarrow> u32 \<Rightarrow> 'c fls_dev \<Rightarrow> (nat \<times> u8 list \<times> 'c fls_dev) option" where
  "spifls_drv_fast_read adr len d = Some (4, [], d)"

definition spifls_drv_page_write :: "'c spi_bus \<Rightarrow> u32 \<Rightarrow> u8 list \<Rightarrow> 'c fls_dev \<Rightarrow> (nat \<times> 'c fls_dev) option" where
  "spifls_drv_page_write bus page buf d =
     (case spifls_write_enable bus (spi_dev d) of (err, c) \<Rightarrow>
        if err \<noteq> 0 then Some (10, d\<lparr>spi_dev := c\<rparr>)
        else do {
          (err, c) \<leftarrow> spifls_wait_write_enable bus c;
          if err \<noteq> 0 then Some (10, d\<lparr>spi_dev := c\<rparr>)
          else do {
            p \<leftarrow> exspifls_drv d;
            let psz = page_size (drv_mem d p);
            if length buf < unat psz then None
            else case tls_spi_write_with_cmd bus (fls_cmd 0x02 (page * psz)) (take (unat psz) buf) c of (err, c) \<Rightarrow>
              if err \<noteq> 0 then Some (10, d\<lparr>spi_dev := c\<rparr>)
              else do {
                (err, c) \<leftarrow> spifls_wait_flash_ready bus c;
                Some (if err \<noteq> 0 then 10 else 0, d\<lparr>spi_dev := c\<rparr>)
              }
          }
        })"

definition spifls_drv_erase :: "'c spi_bus \<Rightarrow> u32 \<Rightarrow> 'c fls_dev \<Rightarrow> (nat \<times> 'c fls_dev) option" where
  "spifls_drv_erase bus sector d =
     (case spifls_write_enable bus (spi_dev d) of (err, c) \<Rightarrow>
        if err \<noteq> 0 then Some (10, d\<lparr>spi_dev := c\<rparr>)
        else do {
          (err, c) \<leftarrow> spifls_wait_write_enable bus c;
          if err \<noteq> 0 then Some (10, d\<lparr>spi_dev := c\<rparr>)
          else do {
            p \<leftarrow> exspifls_drv d;
            case tls_spi_write bus (fls_cmd 0x20 (sector * sector_size (drv_mem d p))) c of (err, c) \<Rightarrow>
              if err \<noteq> 0 then Some (10, d\<lparr>spi_dev := c\<rparr>)
              else do {
                (err, c) \<leftarrow> spifls_wait_flash_ready bus c;
                Some (if err \<noteq> 0 then 10 else 0, d\<lparr>spi_dev := c\<rparr>)
              }
          }
        })"

definition spifls_drv_chip_erase :: "'c spi_bus \<Rightarrow> 'c fls_dev \<Rightarrow> (nat \<times> 'c fls_dev) option" where
  "spifls_drv_chip_erase bus d =
     (case spifls_write_enable bus (spi_dev d) of (err, c) \<Rightarrow>
        if err \<noteq> 0 then Some (10, d\<lparr>spi_dev := c\<rparr>)
        else do {
          (err, c) \<leftarrow> spifls_wait_write_enable bus c;
          if err \<noteq> 0 then Some (10, d\<lparr>spi_dev := c\<rparr>)
          else case tls_spi_write bus [0xC7] c of (err, c) \<Rightarrow>
            if err \<noteq> 0 then Some (10, d\<lparr>spi_dev := c\<rparr>)
            else do {
              (err, c) \<leftarrow> spifls_wait_flash_ready bus c;
              Some (if err \<noteq> 0 then 10 else 0, d\<lparr>spi_dev := c\<rparr>)
            }
        })"

text \<open>
  The capacity is a shift by the third identification byte; a shift by 32 or more is
  undefined in C.
\<close>

definition spifls_drv_probe :: "u32 \<Rightarrow> 'c fls_dev \<Rightarrow> (nat \<times> 'c fls_dev) option" where
  "spifls_drv_probe ident d =
     (if ident = 0 then Some (1, d)
      else if drop_bit 16 ident AND 0xFF \<noteq> 0 \<and> 32 \<le> unat (drop_bit 16 ident) then None
      else
        let e = drv_mem d exspi_fls;
            e = e\<lparr>drv_id := ident,
                  total_size := (if drop_bit 16 ident AND 0xFF \<noteq> 0 then push_bit (unat (drop_bit 16 ident)) 1 else 0x100000),
                  page_size := 256, program_size := 256, sector_size := 4096\<rparr>
        in Some (0, d\<lparr>drv_mem := (drv_mem d)(exspi_fls := e), exspifls_drv := Some exspi_fls\<rparr>))"

definition spifls_drv_remove :: "'c fls_dev \<Rightarrow> 'c fls_dev" where
  "spifls_drv_remove d = d\<lparr>exspifls_drv := None\<rparr>"

definition gd25_ops :: "'c spi_bus \<Rightarrow> 'c tls_fls_ops" where
  "gd25_ops bus = \<lparr>drv_read = spifls_drv_read bus, drv_fast_read = spifls_drv_fast_read,
     drv_page_write = spifls_drv_page_write bus, drv_erase = spifls_drv_erase bus,
     drv_chip_erase = spifls_drv_chip_erase bus, drv_probe = spifls_drv_probe, drv_remove = spifls_drv_remove\<rparr>"

section \<open>The lock\<close>

text \<open>
  The lock is a counting semaphore of the operating system, created with the count 1. Its
  largest count is \<^verbatim>\<open>configSEMAPHORE_INIT_VALUE\<close>, five; a release beyond fails, and
  the callers ignore the status.
\<close>

definition sem_acquire :: "'c spifls \<Rightarrow> 'c spifls option" where
  "sem_acquire s = (case spi_fls s of None \<Rightarrow> None
     | Some f \<Rightarrow> if fls_lock f = 0 then None else Some (s\<lparr>spi_fls := Some (f\<lparr>fls_lock := fls_lock f - 1\<rparr>)\<rparr>))"

definition sem_release :: "'c spifls \<Rightarrow> 'c spifls" where
  "sem_release s = s\<lparr>spi_fls := map_option (\<lambda>f. f\<lparr>fls_lock := min 5 (fls_lock f + 1)\<rparr>) (spi_fls s)\<rparr>"

section \<open>The flash module\<close>

definition spifls_current :: "'c spifls \<Rightarrow> nat + nat" where
  "spifls_current s = (case spi_fls s of None \<Rightarrow> Inl 3
     | Some f \<Rightarrow> (case current_drv f of None \<Rightarrow> Inl 11 | Some p \<Rightarrow> Inr p))"

definition cur_mem :: "'c spifls \<Rightarrow> nat \<Rightarrow> tls_fls_drv" where
  "cur_mem s p = drv_mem (fls_dev s) p"

definition clip_bytes :: "u32 \<Rightarrow> u32 \<Rightarrow> u32 \<Rightarrow> u32" where
  "clip_bytes lim adr len = (if lim < adr + len then lim - adr else len)"

definition tls_spifls_read_id :: "'c spi_bus \<Rightarrow> 'c fls_dev \<Rightarrow> nat \<times> u32 \<times> 'c fls_dev" where
  "tls_spifls_read_id bus d =
     (case tls_spi_read_with_cmd bus (le32 0x9F) 3 (spi_dev d) of (err, rx, c) \<Rightarrow>
        (if err \<noteq> 0 then 10 else 0, un32 (take 3 rx @ [0, 0, 0, 0]), d\<lparr>spi_dev := c\<rparr>))"

definition tls_spifls_read :: "(nat \<Rightarrow> 'c tls_fls_ops) \<Rightarrow> u32 \<Rightarrow> bool \<Rightarrow> u32 \<Rightarrow> 'c spifls \<Rightarrow> (nat \<times> u8 list \<times> 'c spifls) option" where
  "tls_spifls_read ops adr null len s =
     (case spifls_current s of Inl err \<Rightarrow> Some (err, [], s)
      | Inr p \<Rightarrow>
        if total_size (cur_mem s p) \<le> adr \<or> len = 0 \<or> null then Some (1, [], s)
        else do {
          s \<leftarrow> sem_acquire s;
          (err, bs, d) \<leftarrow> drv_read (ops p) adr (clip_bytes (total_size (cur_mem s p)) adr len) (fls_dev s);
          Some (err, bs, sem_release (s\<lparr>fls_dev := d\<rparr>))
        })"

definition tls_spifls_fast_read :: "(nat \<Rightarrow> 'c tls_fls_ops) \<Rightarrow> u32 \<Rightarrow> bool \<Rightarrow> u32 \<Rightarrow> 'c spifls \<Rightarrow> (nat \<times> u8 list \<times> 'c spifls) option" where
  "tls_spifls_fast_read ops adr null len s =
     (case spifls_current s of Inl err \<Rightarrow> Some (err, [], s)
      | Inr p \<Rightarrow>
        if total_size (cur_mem s p) \<le> adr \<or> len = 0 \<or> null then Some (1, [], s)
        else if drv_flags (cur_mem s p) AND 2 \<noteq> 2 then Some (4, [], s)
        else do {
          (err, bs, d) \<leftarrow> drv_fast_read (ops p) adr (clip_bytes (total_size (cur_mem s p)) adr len) (fls_dev s);
          Some (err, bs, s\<lparr>fls_dev := d\<rparr>)
        })"

fun write_pages :: "'c tls_fls_ops \<Rightarrow> nat \<Rightarrow> u32 \<Rightarrow> u8 list \<Rightarrow> nat \<Rightarrow> nat \<Rightarrow> 'c fls_dev \<Rightarrow> (nat \<times> 'c fls_dev) option" where
  "write_pages op p page buf i 0 d = Some (0, d)"
| "write_pages op p page buf i (Suc k) d = do {
     (err, d) \<leftarrow> drv_page_write op (page + of_nat i) (drop (i * unat (page_size (drv_mem d p))) buf) d;
     if err \<noteq> 0 then Some (err, d) else write_pages op p page buf (Suc i) k d
   }"

definition tls_spifls_page_write :: "(nat \<Rightarrow> 'c tls_fls_ops) \<Rightarrow> u32 \<Rightarrow> u8 list option \<Rightarrow> u32 \<Rightarrow> 'c spifls \<Rightarrow> (nat \<times> 'c spifls) option" where
  "tls_spifls_page_write ops page buf page_cnt s =
     (case spifls_current s of Inl err \<Rightarrow> Some (err, s)
      | Inr p \<Rightarrow>
        let pages = total_size (cur_mem s p) div page_size (cur_mem s p)
        in case buf of None \<Rightarrow> Some (1, s)
           | Some bs \<Rightarrow>
             if pages \<le> page \<or> page_cnt = 0 then Some (1, s)
             else do {
               (err, d) \<leftarrow> write_pages (ops p) p page bs 0 (unat (clip_bytes pages page page_cnt)) (fls_dev s);
               Some (err, s\<lparr>fls_dev := d\<rparr>)
             })"

definition memcpy_cache :: "u8 list \<Rightarrow> nat \<Rightarrow> u8 list \<Rightarrow> nat \<Rightarrow> u8 list option" where
  "memcpy_cache cache off buf n =
     (if off + n \<le> length cache \<and> n \<le> length buf then Some (copy_into cache off buf n) else None)"

text \<open>Where in the cache, and how many bytes, the \<open>i\<close>-th sector takes of the buffer.\<close>

definition sector_part :: "u32 \<Rightarrow> u32 \<Rightarrow> u32 \<Rightarrow> u32 \<Rightarrow> u32 \<Rightarrow> u32 \<times> u32" where
  "sector_part ssz adr sector_num i write_bytes =
     (if sector_num = 1 then (adr mod ssz, write_bytes)
      else if i = 0 then (adr mod ssz, ssz - adr mod ssz)
      else if i = sector_num - 1 then (0, write_bytes)
      else (0, ssz))"

fun write_sectors :: "(nat \<Rightarrow> 'c tls_fls_ops) \<Rightarrow> nat \<Rightarrow> u32 \<Rightarrow> u32 \<Rightarrow> u32 \<Rightarrow> u32 \<Rightarrow> nat \<Rightarrow> u8 list \<Rightarrow> u32 \<Rightarrow>
    'c spifls \<Rightarrow> (nat \<times> 'c spifls) option" where
  "write_sectors ops p adr sector_addr sector_num i 0 buf write_bytes s = Some (0, s)"
| "write_sectors ops p adr sector_addr sector_num i (Suc k) buf write_bytes s =
     (let ssz = sector_size (cur_mem s p); psz = page_size (cur_mem s p) in do {
        (err, cache, d) \<leftarrow> drv_read (ops p) ((sector_addr + i) * ssz) ssz (fls_dev s);
        let s = s\<lparr>fls_dev := d\<rparr>;
        if err \<noteq> 0 then Some (err, sem_release s)
        else case sector_part ssz adr sector_num i write_bytes of (off, n) \<Rightarrow> do {
          cache \<leftarrow> memcpy_cache cache (unat off) buf (unat n);
          (err, d) \<leftarrow> drv_erase (ops p) (sector_addr + i) (fls_dev s);
          let s = s\<lparr>fls_dev := d\<rparr>;
          if err \<noteq> 0 then Some (err, sem_release s)
          else do {
            (err, s) \<leftarrow> tls_spifls_page_write ops ((sector_addr + i) * (ssz div psz)) (Some cache) (ssz div psz) s;
            if err \<noteq> 0 then Some (err, sem_release s)
            else write_sectors ops p adr sector_addr sector_num (i + 1) k (drop (unat n) buf) (write_bytes - n) s
          }
        }
      })"

text \<open>\<open>alloc\<close> says whether the memory for the sector cache is available.\<close>

definition tls_spifls_write :: "(nat \<Rightarrow> 'c tls_fls_ops) \<Rightarrow> bool \<Rightarrow> u32 \<Rightarrow> u8 list option \<Rightarrow> u32 \<Rightarrow> 'c spifls \<Rightarrow> (nat \<times> 'c spifls) option" where
  "tls_spifls_write ops alloc adr buf len s =
     (case spifls_current s of Inl err \<Rightarrow> Some (err, s)
      | Inr p \<Rightarrow> (case buf of None \<Rightarrow> Some (1, s)
        | Some bs \<Rightarrow>
          if total_size (cur_mem s p) \<le> adr \<or> len = 0 then Some (1, s)
          else do {
            s \<leftarrow> sem_acquire s;
            let write_bytes = clip_bytes (total_size (cur_mem s p)) adr len;
            let ssz = sector_size (cur_mem s p);
            let sector_addr = adr div ssz;
            let sector_num = (adr + write_bytes - 1) div ssz - sector_addr + 1;
            if \<not> alloc then Some (6, sem_release s)
            else do {
              (err, s) \<leftarrow> write_sectors ops p adr sector_addr sector_num 0 (unat sector_num) bs write_bytes s;
              Some (err, sem_release s)
            }
          }))"

definition tls_spifls_erase :: "(nat \<Rightarrow> 'c tls_fls_ops) \<Rightarrow> u32 \<Rightarrow> 'c spifls \<Rightarrow> (nat \<times> 'c spifls) option" where
  "tls_spifls_erase ops sector s =
     (case spifls_current s of Inl err \<Rightarrow> Some (err, s)
      | Inr p \<Rightarrow>
        if total_size (cur_mem s p) div sector_size (cur_mem s p) \<le> sector then Some (1, s)
        else do {
          s \<leftarrow> sem_acquire s;
          (err, d) \<leftarrow> drv_erase (ops p) sector (fls_dev s);
          Some (err, sem_release (s\<lparr>fls_dev := d\<rparr>))
        })"

definition tls_spifls_chip_erase :: "(nat \<Rightarrow> 'c tls_fls_ops) \<Rightarrow> 'c spifls \<Rightarrow> (nat \<times> 'c spifls) option" where
  "tls_spifls_chip_erase ops s =
     (case spifls_current s of Inl err \<Rightarrow> Some (err, s)
      | Inr p \<Rightarrow> do {
          (err, d) \<leftarrow> drv_chip_erase (ops p) (fls_dev s);
          Some (err, s\<lparr>fls_dev := d\<rparr>)
        })"

definition tls_spifls_get_param :: "u8 \<Rightarrow> bool \<Rightarrow> 'c spifls \<Rightarrow> (nat \<times> u32 option \<times> 'c spifls) option" where
  "tls_spifls_get_param typ null s =
     (case spifls_current s of Inl err \<Rightarrow> Some (err, None, s)
      | Inr p \<Rightarrow>
        if null then Some (1, None, s)
        else do {
          s \<leftarrow> sem_acquire s;
          let drv = cur_mem s p;
          let param = (if typ = 0 then Some (drv_id drv) else if typ = 1 then Some (total_size drv)
            else if typ = 2 then Some (page_size drv) else if typ = 3 then Some (program_size drv)
            else if typ = 4 then Some (sector_size drv) else None);
          Some (if param = None then 1 else 0, param, sem_release s)
        })"

definition tls_spifls_drv_register :: "nat option \<Rightarrow> 'c spifls \<Rightarrow> (nat \<times> 'c spifls) option" where
  "tls_spifls_drv_register fls_drv s = (case fls_drv of None \<Rightarrow> Some (1, s)
     | Some q \<Rightarrow> do {
         f \<leftarrow> spi_fls s;
         if list_ex (\<lambda>p. drv_id (cur_mem s p) = drv_id (cur_mem s q)) (fls_drvs f) then Some (5, s)
         else Some (0, s\<lparr>spi_fls := Some (f\<lparr>fls_drvs := fls_drvs f @ [q]\<rparr>)\<rparr>)
       })"

definition tls_spifls_drv_unregister :: "'c spifls \<Rightarrow> nat \<times> 'c spifls" where
  "tls_spifls_drv_unregister s = (3, s)"

text \<open>The loop of the probe leaves in its first round, by a return or by a break.\<close>

definition tls_spifls_probe :: "'c spi_bus \<Rightarrow> (nat \<Rightarrow> 'c tls_fls_ops) \<Rightarrow> 'c spifls \<Rightarrow> (nat \<times> 'c spifls) option" where
  "tls_spifls_probe bus ops s = (case spi_fls s of None \<Rightarrow> Some (3, s)
     | Some f \<Rightarrow>
       if current_drv f \<noteq> None then Some (2, s)
       else case tls_spifls_read_id bus (fls_dev s) of (err, ident, d) \<Rightarrow>
         let s = s\<lparr>fls_dev := d\<rparr>
         in if err \<noteq> 0 then Some (err, s)
            else (case fls_drvs f of [] \<Rightarrow> Some (11, s)
              | p # _ \<Rightarrow> do {
                  (err, d) \<leftarrow> drv_probe (ops p) ident (fls_dev s);
                  if err \<noteq> 0 then Some (err, s\<lparr>fls_dev := d\<rparr>)
                  else
                    let m = drv_mem d p;
                        d = d\<lparr>spi_dev := tls_spi_setup bus (drv_mode m) (cs_active m) (drv_clock m) (spi_dev d)\<rparr>
                    in Some (0, s\<lparr>fls_dev := d, spi_fls := Some (f\<lparr>current_drv := Some p\<rparr>)\<rparr>)
                }))"

definition tls_spifls_drv_install :: "'c spi_bus \<Rightarrow> (nat \<Rightarrow> 'c tls_fls_ops) \<Rightarrow> 'c spifls \<Rightarrow> (nat \<times> 'c spifls) option" where
  "tls_spifls_drv_install bus ops s = do {
     (err, s) \<leftarrow> tls_spifls_drv_register (Some exspi_fls) s;
     if err = 5 then Some (err, s) else tls_spifls_probe bus ops s
   }"

text \<open>\<open>alloc\<close> and \<open>sem\<close> say whether the memory and the semaphore could be had.\<close>

definition tls_spifls_init :: "'c spi_bus \<Rightarrow> (nat \<Rightarrow> 'c tls_fls_ops) \<Rightarrow> bool \<Rightarrow> bool \<Rightarrow> 'c spifls \<Rightarrow> (nat \<times> 'c spifls) option" where
  "tls_spifls_init bus ops alloc sem s =
     (if spi_fls s \<noteq> None then Some (2, s)
      else if \<not> alloc \<or> \<not> sem then Some (6, s)
      else do {
        (_, s) \<leftarrow> tls_spifls_drv_install bus ops (s\<lparr>spi_fls := Some \<lparr>fls_drvs = [], current_drv = None, fls_lock = 1\<rparr>\<rparr>);
        Some (0, s)
      })"

definition tls_spifls_exit :: "'c spifls \<Rightarrow> nat \<times> 'c spifls" where
  "tls_spifls_exit s = (3, s)"

end
