(* ===== verification/Spifls_Spec.thy ===== *)
theory Spifls_Spec
  imports Spifls
begin

text \<open>
  The contract of a chip driver, the structure \<^verbatim>\<open>tls_fls_drv\<close>: the locale
  \<open>fls_driver\<close> states what reading, programming a page and erasing a sector do to the
  contents of a device that is ready. Writing through the sector cache is proved once from
  it, whatever chip the driver serves: the sectors are read, changed, erased and programmed
  in turn, so that exactly the given bytes change.
\<close>

declare write_sectors.simps(2) [simp del]

section \<open>How the buffer is divided\<close>

definition part_len :: "nat \<Rightarrow> nat \<Rightarrow> nat" where
  "part_len a w = min w (4096 - a mod 4096)"

lemma last_sector:
  fixes a w :: nat
  assumes "0 < w"
  shows "(a + w - 1) div 4096 = a div 4096 \<longleftrightarrow> w \<le> 4096 - a mod 4096"
proof -
  define q r where "q = a div 4096" and "r = a mod 4096"
  have a: "a = q * 4096 + r" "r < 4096" by (simp_all add: q_def r_def)
  have "(a + w - 1) div 4096 = q + (r + w - 1) div 4096" using assms by (simp add: a(1) add.assoc)
  moreover have "(r + w - 1) div 4096 = 0 \<longleftrightarrow> r + w - 1 < 4096" by (simp add: div_eq_0_iff)
  ultimately show ?thesis using a(2) assms by (auto simp: q_def r_def)
qed

text \<open>
  \<open>at_sector\<close> holds before the \<open>i\<close>-th round: \<open>w\<close> bytes remain for the
  address \<open>a\<close>, which lies in sector \<open>sa + i\<close>, and the last of them in sector
  \<open>sa + sn - 1\<close>.
\<close>

definition at_sector :: "nat \<Rightarrow> nat \<Rightarrow> nat \<Rightarrow> nat \<Rightarrow> nat \<Rightarrow> nat \<Rightarrow> bool" where
  "at_sector adr sa sn i a w \<longleftrightarrow> 0 < w \<and> i < sn \<and> (if i = 0 then a = adr else a mod 4096 = 0) \<and>
     a div 4096 = sa + i \<and> (a + w - 1) div 4096 = sa + sn - 1"

lemma at_sector_last:
  assumes "at_sector adr sa sn i a w" "Suc i = sn"
  shows "part_len a w = w"
  using assms last_sector [of w a] by (auto simp: at_sector_def part_len_def)

lemma at_sector_inner:
  assumes "at_sector adr sa sn i a w" "Suc i < sn"
  shows "part_len a w = 4096 - a mod 4096" "part_len a w < w"
    "at_sector adr sa sn (Suc i) (a + part_len a w) (w - part_len a w)"
proof -
  have lt: "4096 - a mod 4096 < w" using assms last_sector [of w a] by (auto simp: at_sector_def)
  then show p: "part_len a w = 4096 - a mod 4096" by (simp add: part_len_def)
  with lt show "part_len a w < w" by simp
  define q r where "q = a div 4096" and "r = a mod 4096"
  have "a = q * 4096 + r" "r < 4096" by (simp_all add: q_def r_def)
  then have "a + part_len a w = (q + 1) * 4096" unfolding p r_def [symmetric] by simp
  then have a: "a + part_len a w = (a div 4096 + 1) * 4096" by (simp add: q_def)
  then have "(a + part_len a w) mod 4096 = 0" "(a + part_len a w) div 4096 = a div 4096 + 1"
    by (simp_all only: mod_mult_self2_is_0 nonzero_mult_div_cancel_right numeral_eq_iff)
  then show "at_sector adr sa sn (Suc i) (a + part_len a w) (w - part_len a w)"
    using assms \<open>part_len a w < w\<close> by (auto simp: at_sector_def)
qed

lemma sector_part_eq:
  assumes "at_sector (unat adr) sa (unat sn) (unat i) a (unat w)"
  shows "\<exists>off n. sector_part 4096 adr sn i w = (off, n) \<and> unat off = a mod 4096 \<and> unat n = part_len a (unat w)"
proof -
  have i0: "i = 0 \<longleftrightarrow> unat i = 0" by (simp add: unat_eq_zero)
  have m: "unat (adr mod 4096) = unat adr mod 4096" by (simp add: unat_mod)
  have s: "unat (4096 - adr mod 4096) = 4096 - unat adr mod 4096"
    by (subst unat_sub) (simp_all add: word_le_nat_alt m)
  show ?thesis
  proof (cases "Suc (unat i) = unat sn")
    case True
    then have l: "i = sn - 1" by (auto simp: word_unat_eq_iff unat_sub_if_size word_size)
    from at_sector_last [OF assms True] assms True l i0 m show ?thesis
      by (auto simp: sector_part_def at_sector_def unat_eq_zero)
  next
    case False
    then have lt: "Suc (unat i) < unat sn" using assms by (simp add: at_sector_def)
    moreover have "unat (sn - 1) = unat sn - 1" using lt by (subst unat_sub) (auto simp: word_le_nat_alt)
    ultimately have "sn \<noteq> 1" "i \<noteq> sn - 1" by auto
    with at_sector_inner [OF assms lt] assms i0 m s show ?thesis
      by (auto simp: sector_part_def at_sector_def)
  qed
qed

section \<open>The lock around an operation\<close>

lemma sem_pair:
  assumes "spi_fls s = Some f" "0 < fls_lock f" "fls_lock f \<le> 5"
  obtains t where "sem_acquire s = Some t" "fls_dev t = fls_dev s" "spifls_current t = spifls_current s"
    "\<And>d. sem_release (t\<lparr>fls_dev := d\<rparr>) = s\<lparr>fls_dev := d\<rparr>"
proof
  show "sem_acquire s = Some (s\<lparr>spi_fls := Some (f\<lparr>fls_lock := fls_lock f - 1\<rparr>)\<rparr>)"
    using assms by (simp add: sem_acquire_def)
qed (use assms in \<open>simp_all add: spifls_current_def sem_release_def min_def\<close>)

section \<open>The contract of a chip driver\<close>

locale fls_driver =
  fixes ops :: "nat \<Rightarrow> 'c tls_fls_ops"
    and p :: nat
    and content :: "'c fls_dev \<Rightarrow> nat \<Rightarrow> u8"
    and ready :: "'c fls_dev \<Rightarrow> bool"
    and cap :: nat
  assumes geometry: "ready d \<Longrightarrow> unat (total_size (drv_mem d p)) = cap \<and> page_size (drv_mem d p) = 256 \<and> sector_size (drv_mem d p) = 4096"
    and read_ok: "ready d \<Longrightarrow> 0 < len \<Longrightarrow> unat adr + unat len \<le> cap \<Longrightarrow>
      \<exists>d'. drv_read (ops p) adr len d = Some (0, mem_read (content d) (unat adr) (unat len), d') \<and> ready d' \<and> content d' = content d"
    and page_ok: "ready d \<Longrightarrow> unat page * 256 < cap \<Longrightarrow> 256 \<le> length buf \<Longrightarrow>
      \<exists>d'. drv_page_write (ops p) page buf d = Some (0, d') \<and> ready d' \<and>
        content d' = mem_and (content d) (unat page * 256) (take 256 buf)"
    and erase_ok: "ready d \<Longrightarrow> unat sector * 4096 < cap \<Longrightarrow>
      \<exists>d'. drv_erase (ops p) sector d = Some (0, d') \<and> ready d' \<and> content d' = mem_erase (content d) (unat sector)"
    and cap_sectors: "4096 dvd cap"
    and cap_bound: "cap \<le> 0x1000000"
begin

lemma write_pages_spec:
  assumes "ready d" "(unat page + i + k) * 256 \<le> cap" "(i + k) * 256 \<le> length buf"
  shows "\<exists>d'. write_pages (ops p) p page buf i k d = Some (0, d') \<and> ready d' \<and>
    content d' = mem_and (content d) ((unat page + i) * 256) (take (k * 256) (drop (i * 256) buf))"
  using assms
proof (induction k arbitrary: i d)
  case 0
  then show ?case by simp
next
  case (Suc k)
  have u: "unat (page + of_nat i) = unat page + i"
    using Suc.prems(2) cap_bound by (subst unat_add_lem [THEN iffD1]) (simp_all add: unat_of_nat take_bit_nat_eq_self)
  let ?a = "(unat page + i) * 256"
  have l: "256 \<le> length (drop (i * 256) buf)" using Suc.prems(3) by simp
  obtain d1 where d1: "drv_page_write (ops p) (page + of_nat i) (drop (i * 256) buf) d = Some (0, d1)" "ready d1"
    "content d1 = mem_and (content d) ?a (take 256 (drop (i * 256) buf))"
    using page_ok [OF Suc.prems(1), of "page + of_nat i", OF _ l] Suc.prems(2) u by auto
  obtain d2 where d2: "write_pages (ops p) p page buf (Suc i) k d1 = Some (0, d2)" "ready d2"
    "content d2 = mem_and (content d1) ((unat page + Suc i) * 256) (take (k * 256) (drop (Suc i * 256) buf))"
    using Suc.IH [OF d1(2), of "Suc i"] Suc.prems by auto
  have "take (Suc k * 256) (drop (i * 256) buf) = take 256 (drop (i * 256) buf) @ take (k * 256) (drop (Suc i * 256) buf)"
    by (simp add: take_add drop_drop ac_simps)
  moreover have "length (take 256 (drop (i * 256) buf)) = 256" using Suc.prems(3) by simp
  ultimately have "content d2 = mem_and (content d) ?a (take (Suc k * 256) (drop (i * 256) buf))"
    using d2(3) d1(3) mem_and_append [of "content d" ?a "take 256 (drop (i * 256) buf)"] by (simp add: algebra_simps)
  then show ?case using d1(1) d2(1,2) geometry [OF Suc.prems(1)] by simp
qed

lemma page_write_spec:
  assumes "spifls_current s = Inr p" "ready (fls_dev s)" "unat sec * 4096 < cap" "length cache = 4096"
  shows "\<exists>d. tls_spifls_page_write ops (sec * 16) (Some cache) 16 s = Some (0, s\<lparr>fls_dev := d\<rparr>) \<and> ready d \<and>
    content d = mem_and (content (fls_dev s)) (unat sec * 4096) cache"
proof -
  obtain q where q: "cap = 4096 * q" using cap_sectors by blast
  have sec: "unat sec < q" using assms(3) q by simp
  have u: "unat (sec * 16) = unat sec * 16"
    using assms(3) cap_bound by (subst unat_mult_lem [THEN iffD1]) simp_all
  let ?m = "drv_mem (fls_dev s) p"
  have g: "unat (total_size ?m) = cap" "page_size ?m = 256" using geometry [OF assms(2)] by simp_all
  have pages: "unat (total_size ?m div page_size ?m) = q * 16" by (simp add: unat_div g q)
  have "unat (sec * 16 + 16) = unat sec * 16 + 16"
    using u assms(3) cap_bound by (subst unat_add_lem [THEN iffD1]) simp_all
  then have clip: "clip_bytes (total_size ?m div page_size ?m) (sec * 16) 16 = 16"
    using pages sec by (simp add: clip_bytes_def word_less_nat_alt)
  have guard: "\<not> total_size ?m div page_size ?m \<le> sec * 16" using pages u sec by (simp add: word_le_nat_alt)
  obtain d where d: "write_pages (ops p) p (sec * 16) cache 0 16 (fls_dev s) = Some (0, d)" "ready d"
    "content d = mem_and (content (fls_dev s)) (unat sec * 4096) cache"
    using write_pages_spec [OF assms(2), of "sec * 16" 0 16 cache] u sec q assms(4) by (auto simp: mult.commute)
  then show ?thesis using assms(1) guard clip by (auto simp: tls_spifls_page_write_def cur_mem_def Let_def)
qed

lemma sector_round:
  assumes cur: "spifls_current s = Inr p" and rdy: "ready (fls_dev s)"
    and at: "at_sector (unat adr) (unat sa) (unat sn) (unat i) a (unat w)" "a + unat w \<le> cap" "unat w \<le> length buf"
  obtains n d where "unat n = part_len a (unat w)" "ready d"
    "content d = mem_write (content (fls_dev s)) a (take (unat n) buf)"
    "write_sectors ops p adr sa sn i (Suc k) buf w s = write_sectors ops p adr sa sn (i + 1) k (drop (unat n) buf) (w - n) (s\<lparr>fls_dev := d\<rparr>)"
proof -
  let ?sec = "sa + i" and ?S = "a div 4096"
  have S: "?S = unat sa + unat i" and w: "0 < unat w" using at(1) by (simp_all add: at_sector_def)
  have lt: "?S * 4096 < cap" using at(2) w div_mult_mod_eq [of a 4096] by linarith
  obtain q where q: "cap = 4096 * q" using cap_sectors by blast
  have fit: "?S * 4096 + 4096 \<le> cap" using lt unfolding q by simp
  have u: "unat ?sec = ?S" using S lt cap_bound by (subst unat_add_lem [THEN iffD1]) simp_all
  have ub: "unat (?sec * 4096) = ?S * 4096" using u lt cap_bound by (subst unat_mult_lem [THEN iffD1]) simp_all
  have g: "page_size (drv_mem (fls_dev s) p) = 256" "sector_size (drv_mem (fls_dev s) p) = 4096"
    using geometry [OF rdy] by simp_all
  obtain d1 where d1: "drv_read (ops p) (?sec * 4096) 4096 (fls_dev s) = Some (0, mem_read (content (fls_dev s)) (?S * 4096) 4096, d1)"
    "ready d1" "content d1 = content (fls_dev s)"
    using read_ok [OF rdy, of 4096 "?sec * 4096"] ub fit by auto
  obtain off n where part: "sector_part 4096 adr sn i w = (off, n)" "unat off = a mod 4096" "unat n = part_len a (unat w)"
    using sector_part_eq [OF at(1)] by auto
  have n: "a mod 4096 + unat n \<le> 4096" "unat n \<le> length buf" using part(3) at(3) by (auto simp: part_len_def)
  let ?cache = "copy_into (mem_read (content (fls_dev s)) (?S * 4096) 4096) (a mod 4096) buf (unat n)"
  have c: "memcpy_cache (mem_read (content (fls_dev s)) (?S * 4096) 4096) (unat off) buf (unat n) = Some ?cache"
    using n part(2) by (simp add: memcpy_cache_def)
  obtain d2 where d2: "drv_erase (ops p) ?sec d1 = Some (0, d2)" "ready d2" "content d2 = mem_erase (content (fls_dev s)) ?S"
    using erase_ok [OF d1(2), of ?sec] u lt d1(3) by auto
  obtain d3 where d3: "tls_spifls_page_write ops (?sec * 16) (Some ?cache) 16 (s\<lparr>fls_dev := d2\<rparr>) = Some (0, s\<lparr>fls_dev := d3\<rparr>)"
    "ready d3" "content d3 = mem_and (content d2) (?S * 4096) ?cache"
    using page_write_spec [of "s\<lparr>fls_dev := d2\<rparr>" ?sec ?cache] cur d2(2) u lt n by (auto simp: spifls_current_def)
  have "content d3 = mem_write (content (fls_dev s)) (?S * 4096) ?cache"
    using d3(3) d2(3) n by (simp add: mem_and_erased)
  also have "\<dots> = mem_write (content (fls_dev s)) a (take (unat n) buf)"
    using mem_write_copy_into [OF n, of "content (fls_dev s)" "?S * 4096"] by simp
  finally have "content d3 = mem_write (content (fls_dev s)) a (take (unat n) buf)" .
  moreover have "write_sectors ops p adr sa sn i (Suc k) buf w s =
      write_sectors ops p adr sa sn (i + 1) k (drop (unat n) buf) (w - n) (s\<lparr>fls_dev := d3\<rparr>)"
    using d1(1) c d2(1) d3(1) part(1) by (simp add: write_sectors.simps(2) cur_mem_def g)
  ultimately show ?thesis using that part(3) d3(2) by blast
qed

lemma write_sectors_spec:
  assumes "spifls_current s = Inr p" "ready (fls_dev s)" "Suc k + unat i = unat sn"
    and "at_sector (unat adr) (unat sa) (unat sn) (unat i) a (unat w)" "a + unat w \<le> cap" "unat w \<le> length buf"
  shows "\<exists>d. write_sectors ops p adr sa sn i (Suc k) buf w s = Some (0, s\<lparr>fls_dev := d\<rparr>) \<and> ready d \<and>
    content d = mem_write (content (fls_dev s)) a (take (unat w) buf)"
  using assms
proof (induction k arbitrary: i a w buf s)
  case 0
  obtain n d where "unat n = part_len a (unat w)" "ready d"
    "content d = mem_write (content (fls_dev s)) a (take (unat n) buf)"
    "write_sectors ops p adr sa sn i (Suc 0) buf w s = write_sectors ops p adr sa sn (i + 1) 0 (drop (unat n) buf) (w - n) (s\<lparr>fls_dev := d\<rparr>)"
    using sector_round [OF 0(1,2,4,5,6)] by blast
  moreover have "part_len a (unat w) = unat w" using at_sector_last [OF 0(4)] 0(3) by simp
  ultimately show ?case by auto
next
  case (Suc k)
  have lt: "Suc (unat i) < unat sn" using Suc.prems(3) by simp
  note inner = at_sector_inner [OF Suc.prems(4) lt]
  obtain n d where nd: "unat n = part_len a (unat w)" "ready d"
    "content d = mem_write (content (fls_dev s)) a (take (unat n) buf)"
    "write_sectors ops p adr sa sn i (Suc (Suc k)) buf w s =
       write_sectors ops p adr sa sn (i + 1) (Suc k) (drop (unat n) buf) (w - n) (s\<lparr>fls_dev := d\<rparr>)"
    using sector_round [OF Suc.prems(1,2,4,5,6)] by blast
  have i1: "unat (i + 1) = Suc (unat i)"
    using lt unsigned_less [of sn, where ?'a = nat] by (subst unat_add_lem [THEN iffD1]) simp_all
  have w1: "unat (w - n) = unat w - unat n" using inner(2) nd(1) by (subst unat_sub) (simp_all add: word_le_nat_alt)
  obtain d' where d': "write_sectors ops p adr sa sn (i + 1) (Suc k) (drop (unat n) buf) (w - n) (s\<lparr>fls_dev := d\<rparr>) = Some (0, s\<lparr>fls_dev := d'\<rparr>)"
    "ready d'" "content d' = mem_write (content d) (a + unat n) (take (unat w - unat n) (drop (unat n) buf))"
    using Suc.IH [of "s\<lparr>fls_dev := d\<rparr>" "i + 1" "a + unat n" "w - n" "drop (unat n) buf"]
      Suc.prems inner(2,3) nd(1,2) i1 w1 diff_le_mono [OF Suc.prems(6), of "unat n"] by (auto simp: spifls_current_def)
  have "take (unat n) buf @ take (unat w - unat n) (drop (unat n) buf) = take (unat w) buf"
    using inner(2) nd(1) take_add [of "unat n" "unat w - unat n" buf] by simp
  moreover have "length (take (unat n) buf) = unat n" using inner(2) nd(1) Suc.prems(6) by simp
  ultimately have "content d' = mem_write (content (fls_dev s)) a (take (unat w) buf)"
    using d'(3) nd(3) mem_write_append [of "content (fls_dev s)" a "take (unat n) buf"] by simp
  then show ?case using nd(4) d'(1,2) by auto
qed

lemma clip_spec:
  assumes "ready d" "unat adr < cap" "unat adr + unat len < 2 ^ 32"
  shows "unat (clip_bytes (total_size (drv_mem d p)) adr len) = min (unat len) (cap - unat adr)"
proof -
  have t: "unat (total_size (drv_mem d p)) = cap" using geometry [OF assms(1)] by simp
  have "unat (adr + len) = unat adr + unat len" using assms(3) by (subst unat_add_lem [THEN iffD1]) simp_all
  moreover have "unat (total_size (drv_mem d p) - adr) = cap - unat adr"
    using assms(2) t by (subst unat_sub) (simp_all add: word_le_nat_alt)
  ultimately show ?thesis using t assms(2) by (auto simp: clip_bytes_def word_less_nat_alt min_def)
qed

lemma write_spec:
  assumes f: "spi_fls s = Some f" "current_drv f = Some p" "0 < fls_lock f" "fls_lock f \<le> 5" and rdy: "ready (fls_dev s)"
    and len: "0 < len" "unat adr < cap" "unat adr + unat len < 2 ^ 32" "min (unat len) (cap - unat adr) \<le> length buf"
  shows "\<exists>d. tls_spifls_write ops True adr (Some buf) len s = Some (0, s\<lparr>fls_dev := d\<rparr>) \<and> ready d \<and>
    content d = mem_write (content (fls_dev s)) (unat adr) (take (min (unat len) (cap - unat adr)) buf)"
proof -
  obtain t where t: "sem_acquire s = Some t" "fls_dev t = fls_dev s" "spifls_current t = spifls_current s"
    "\<And>d. sem_release (t\<lparr>fls_dev := d\<rparr>) = s\<lparr>fls_dev := d\<rparr>"
    using sem_pair [OF f(1,3,4)] by blast
  let ?m = "drv_mem (fls_dev s) p"
  define w where "w = clip_bytes (total_size ?m) adr len"
  define sn where "sn = (adr + w - 1) div 4096 - adr div 4096 + 1"
  have cur: "spifls_current s = Inr p" using f by (simp add: spifls_current_def)
  have g: "unat (total_size ?m) = cap" "sector_size ?m = 4096" using geometry [OF rdy] by simp_all
  have w: "unat w = min (unat len) (cap - unat adr)" unfolding w_def by (rule clip_spec [OF rdy len(2,3)])
  have w0: "0 < unat w" using w len(1,2) by (simp add: word_less_nat_alt)
  have le: "unat adr + unat w \<le> cap" using w len(2) by simp
  have "unat (adr + w) = unat adr + unat w" using le cap_bound by (subst unat_add_lem [THEN iffD1]) simp_all
  then have "unat (adr + w - 1) = unat adr + unat w - 1" using w0 by (subst unat_sub) (simp_all add: word_le_nat_alt)
  then have e: "unat ((adr + w - 1) div 4096) = (unat adr + unat w - 1) div 4096" by (simp add: unat_div)
  have b: "unat (adr div 4096) = unat adr div 4096" by (simp add: unat_div)
  have mono: "unat adr div 4096 \<le> (unat adr + unat w - 1) div 4096" using w0 by (intro div_le_mono) linarith
  then have "unat ((adr + w - 1) div 4096 - adr div 4096) = (unat adr + unat w - 1) div 4096 - unat adr div 4096"
    using e b by (subst unat_sub) (simp_all add: word_le_nat_alt)
  moreover have "(unat adr + unat w - 1) div 4096 \<le> cap" using le by (simp add: div_le_dividend le_trans)
  then have "(unat adr + unat w - 1) div 4096 - unat adr div 4096 < 4294967295" using cap_bound by linarith
  ultimately have sn: "unat sn = Suc ((unat adr + unat w - 1) div 4096 - unat adr div 4096)"
    unfolding sn_def by (subst unat_add_lem [THEN iffD1]) simp_all
  have at: "at_sector (unat adr) (unat (adr div 4096)) (unat sn) (unat (0 :: u32)) (unat adr) (unat w)"
    using w0 b sn mono by (simp add: at_sector_def)
  obtain d where d: "write_sectors ops p adr (adr div 4096) sn 0 (unat sn) buf w t = Some (0, t\<lparr>fls_dev := d\<rparr>)" "ready d"
    "content d = mem_write (content (fls_dev s)) (unat adr) (take (unat w) buf)"
    using write_sectors_spec [OF _ _ _ at le, of t "unat sn - 1" buf] t cur rdy w len(4) sn by auto
  have "\<not> total_size ?m \<le> adr" using g(1) len(2) by (simp add: word_le_nat_alt)
  then have "tls_spifls_write ops True adr (Some buf) len s = Some (0, s\<lparr>fls_dev := d\<rparr>)"
    using cur t d(1) len(1) g(2) by (simp add: tls_spifls_write_def cur_mem_def w_def [symmetric] sn_def [symmetric])
  then show ?thesis using d(2,3) w by auto
qed

lemma read_spec:
  assumes f: "spi_fls s = Some f" "current_drv f = Some p" "0 < fls_lock f" "fls_lock f \<le> 5" and rdy: "ready (fls_dev s)"
    and len: "0 < len" "unat adr < cap" "unat adr + unat len < 2 ^ 32"
  shows "\<exists>d. tls_spifls_read ops adr False len s =
      Some (0, mem_read (content (fls_dev s)) (unat adr) (min (unat len) (cap - unat adr)), s\<lparr>fls_dev := d\<rparr>) \<and>
    ready d \<and> content d = content (fls_dev s)"
proof -
  obtain t where t: "sem_acquire s = Some t" "fls_dev t = fls_dev s" "\<And>d. sem_release (t\<lparr>fls_dev := d\<rparr>) = s\<lparr>fls_dev := d\<rparr>"
    using sem_pair [OF f(1,3,4)] by blast
  let ?m = "drv_mem (fls_dev s) p"
  define w where "w = clip_bytes (total_size ?m) adr len"
  have w: "unat w = min (unat len) (cap - unat adr)" unfolding w_def by (rule clip_spec [OF rdy len(2,3)])
  have "0 < w" "unat adr + unat w \<le> cap" using w len(1,2) by (simp_all add: word_less_nat_alt)
  from read_ok [OF rdy this] obtain d where
    "drv_read (ops p) adr w (fls_dev s) = Some (0, mem_read (content (fls_dev s)) (unat adr) (unat w), d)" "ready d" "content d = content (fls_dev s)"
    by blast
  moreover have "\<not> total_size ?m \<le> adr" using geometry [OF rdy] len(2) by (simp add: word_le_nat_alt)
  ultimately show ?thesis using t f len(1) w
    by (auto simp: tls_spifls_read_def spifls_current_def cur_mem_def w_def [symmetric])
qed

lemma erase_spec:
  assumes f: "spi_fls s = Some f" "current_drv f = Some p" "0 < fls_lock f" "fls_lock f \<le> 5" and rdy: "ready (fls_dev s)"
    and k: "unat sector < cap div 4096"
  shows "\<exists>d. tls_spifls_erase ops sector s = Some (0, s\<lparr>fls_dev := d\<rparr>) \<and> ready d \<and>
    content d = mem_erase (content (fls_dev s)) (unat sector)"
proof -
  obtain t where t: "sem_acquire s = Some t" "fls_dev t = fls_dev s" "\<And>d. sem_release (t\<lparr>fls_dev := d\<rparr>) = s\<lparr>fls_dev := d\<rparr>"
    using sem_pair [OF f(1,3,4)] by blast
  let ?m = "drv_mem (fls_dev s) p"
  have "unat (total_size ?m div sector_size ?m) = cap div 4096" using geometry [OF rdy] by (simp add: unat_div)
  then have "\<not> total_size ?m div sector_size ?m \<le> sector" using k by (simp add: word_le_nat_alt)
  moreover have "unat sector * 4096 < cap" using k cap_sectors by (auto simp: dvd_def)
  then obtain d where "drv_erase (ops p) sector (fls_dev s) = Some (0, d)" "ready d" "content d = mem_erase (content (fls_dev s)) (unat sector)"
    using erase_ok [OF rdy] by blast
  ultimately show ?thesis using t f by (auto simp: tls_spifls_erase_def spifls_current_def cur_mem_def)
qed

end

end
