(* ===== verification/Spifls_Gd25.thy ===== *)
theory Spifls_Gd25
  imports Spifls_Spec
begin

text \<open>
  The chip driver on a chip. The locale \<open>spi_flash\<close> states the documented behaviour of a
  serial flash on the SPI bus for the commands the driver sends: a status register with a
  busy bit and a write enable latch, reading, page program, sector erase and chip erase with
  24-bit addresses. The driver then satisfies the contract \<open>fls_driver\<close>; its waits
  return, because the chip is busy for a bounded number of polls. The locales are
  interpreted on the reference chip \<open>gd_bus\<close>.
\<close>

unbundle bit_operations_syntax

section \<open>Command bytes\<close>

definition adr24 :: "nat \<Rightarrow> u8 list" where
  "adr24 a = [of_nat (a div 65536), of_nat (a div 256), of_nat a]"

lemma bit_run: "bit c n \<longleftrightarrow> k \<le> n \<and> n < k + l \<and> n < 32" if "c = push_bit k (mask l)" for c :: u32
  unfolding that by (auto simp: bit_mask_iff bit_push_bit_iff)

lemma bit_byte_masks:
  "bit (0xFF :: u32) n \<longleftrightarrow> n < 8" "bit (0xFF00 :: u32) n \<longleftrightarrow> 8 \<le> n \<and> n < 16"
  "bit (0xFF0000 :: u32) n \<longleftrightarrow> 16 \<le> n \<and> n < 24" "bit (0xFFFFFF00 :: u32) n \<longleftrightarrow> 8 \<le> n \<and> n < 32"
  using bit_run [of "0xFF" 0 8 n] bit_run [of "0xFF00" 8 8 n] bit_run [of "0xFF0000" 16 8 n] bit_run [of "0xFFFFFF00" 8 24 n]
  by (auto simp: mask_eq_exp_minus_1)

lemma bit_swap_bytes:
  fixes v m1 m2 m3 :: u32
  assumes "\<And>n. bit m1 n \<longleftrightarrow> n < 8" "\<And>n. bit m2 n \<longleftrightarrow> 8 \<le> n \<and> n < 16" "\<And>n. bit m3 n \<longleftrightarrow> 16 \<le> n \<and> n < 24"
  shows "bit (push_bit 24 (v AND m1) OR push_bit 8 (v AND m2) OR drop_bit 8 (v AND m3) OR drop_bit 24 v) n \<longleftrightarrow>
    (if n < 8 then bit v (n + 24) else if n < 16 then bit v (n + 8)
     else if n < 24 then bit v (n - 8) else n < 32 \<and> bit v (n - 24))"
proof -
  have "bit v (n + 24) \<Longrightarrow> n < 8" by (drule bit_imp_le_length) simp
  then show ?thesis
    by (auto simp: bit_or_iff bit_and_iff bit_push_bit_iff bit_drop_bit_eq assms ac_simps)
qed

lemmas bit_swap32 = bit_swap_bytes [OF bit_byte_masks(1-3), folded swap32_def]

text \<open>The four bytes of a command are its code and the address, the highest byte first.\<close>

lemma adr24_word: "adr24 (unat adr) = [ucast (drop_bit 16 adr), ucast (drop_bit 8 adr), ucast adr]" for adr :: u32
proof -
  have "(of_nat (unat adr div 2 ^ k) :: u8) = ucast (drop_bit k adr)" for k
    using of_nat_unat [of "drop_bit k adr", where 'a = "8 word"] by (simp only: unat_drop_bit_eq) (simp only: drop_bit_eq_div)
  note b = this
  have p: "(65536 :: nat) = 2 ^ 16" "(256 :: nat) = 2 ^ 8" by simp_all
  have "(of_nat (unat adr) :: u8) = ucast adr" by (rule of_nat_unat)
  then show ?thesis unfolding adr24_def p b by (simp only: simp_thms)
qed

lemma le32_cmd:
  fixes opcode x m :: u32
  assumes "\<And>n. bit m n \<longleftrightarrow> 8 \<le> n \<and> n < 32" "\<And>n. bit opcode n \<Longrightarrow> n < 8"
  shows "le32 (opcode OR (x AND m)) = [ucast opcode, ucast (drop_bit 8 x), ucast (drop_bit 16 x), ucast (drop_bit 24 x)]"
  using assms by (auto simp: le32_def bit_eq_iff bit_byte_of bit_byte_0 bit_or_iff bit_and_iff bit_drop_bit_eq dest: assms(2))

lemma fls_cmd_bytes:
  assumes "unat opcode < 2 ^ 8"
  shows "fls_cmd opcode adr = ucast opcode # adr24 (unat adr)"
proof -
  have "fls_cmd opcode adr = [ucast opcode, ucast (drop_bit 8 (swap32 adr)), ucast (drop_bit 16 (swap32 adr)), ucast (drop_bit 24 (swap32 adr))]"
    unfolding fls_cmd_def by (rule le32_cmd [OF bit_byte_masks(4) bit_small_unat [OF assms]])
  also have "\<dots> = ucast opcode # adr24 (unat adr)" unfolding adr24_word
    by (auto simp: bit_eq_iff bit_byte_of bit_byte_0 bit_drop_bit_eq bit_swap32 ac_simps)
  finally show ?thesis .
qed

section \<open>A serial flash on the bus\<close>

text \<open>
  \<open>busy c\<close> is the number of status reads that still find the chip busy.
\<close>

locale spi_flash =
  fixes bus :: "'c spi_bus"
    and mem :: "'c \<Rightarrow> nat \<Rightarrow> u8"
    and wel :: "'c \<Rightarrow> bool"
    and busy :: "'c \<Rightarrow> nat"
    and cap :: nat
  assumes enable: "busy c = 0 \<Longrightarrow>
      \<exists>c'. tls_spi_write bus [0x06] c = (0, c') \<and> wel c' \<and> busy c' = 0 \<and> mem c' = mem c"
    and status: "\<exists>sr c'. tls_spi_read_with_cmd bus [0x05] 1 c = (0, [sr], c') \<and> bit sr 0 = (busy c \<noteq> 0) \<and>
      bit sr 1 = wel c \<and> busy c' = busy c - 1 \<and> mem c' = mem c \<and> (busy c = 0 \<longrightarrow> wel c' = wel c)"
    and read: "busy c = 0 \<Longrightarrow> 0 < n \<Longrightarrow> a + n \<le> cap \<Longrightarrow>
      \<exists>c'. tls_spi_read_with_cmd bus (0x03 # adr24 a) n c = (0, mem_read (mem c) a n, c') \<and> busy c' = 0 \<and> mem c' = mem c"
    and program: "busy c = 0 \<Longrightarrow> wel c \<Longrightarrow> a mod 256 = 0 \<Longrightarrow> a < cap \<Longrightarrow> length bs = 256 \<Longrightarrow>
      \<exists>c'. tls_spi_write_with_cmd bus (0x02 # adr24 a) bs c = (0, c') \<and> mem c' = mem_and (mem c) a bs"
    and erase: "busy c = 0 \<Longrightarrow> wel c \<Longrightarrow> a < cap \<Longrightarrow>
      \<exists>c'. tls_spi_write bus (0x20 # adr24 a) c = (0, c') \<and> mem c' = mem_erase (mem c) (a div 4096)"
    and erase_all: "busy c = 0 \<Longrightarrow> wel c \<Longrightarrow>
      \<exists>c'. tls_spi_write bus [0xC7] c = (0, c') \<and> mem c' = (\<lambda>x. if x < cap then 0xFF else mem c x)"
    and configure: "mem (tls_spi_setup bus m cs clk c) = mem c" "busy (tls_spi_setup bus m cs clk c) = busy c"
    and cap_sectors: "4096 dvd cap"
    and cap_bound: "cap \<le> 0x1000000"

definition gd25_ready :: "('c \<Rightarrow> nat) \<Rightarrow> nat \<Rightarrow> 'c fls_dev \<Rightarrow> bool" where
  "gd25_ready busy cap d \<longleftrightarrow> busy (spi_dev d) = 0 \<and> exspifls_drv d = Some exspi_fls \<and>
     unat (total_size (drv_mem d exspi_fls)) = cap \<and> page_size (drv_mem d exspi_fls) = 256 \<and>
     sector_size (drv_mem d exspi_fls) = 4096"

lemma gd25_ready_dev: "gd25_ready busy cap d \<Longrightarrow> busy c = 0 \<Longrightarrow> gd25_ready busy cap (d\<lparr>spi_dev := c\<rparr>)"
  by (simp add: gd25_ready_def)

context spi_flash
begin

lemma wait_flash_ready:
  "\<exists>c'. spifls_wait_flash_ready bus c = Some (0, c') \<and> busy c' = 0 \<and> mem c' = mem c"
proof (induction "busy c" arbitrary: c rule: less_induct)
  case less
  obtain sr c1 where c1: "tls_spi_read_with_cmd bus [0x05] 1 c = (0, [sr], c1)" "bit sr 0 = (busy c \<noteq> 0)"
    "busy c1 = busy c - 1" "mem c1 = mem c" using status by blast
  show ?case
  proof (cases "busy c = 0")
    case True
    then show ?thesis using c1 by (subst spifls_wait_flash_ready.simps) simp
  next
    case False
    then have "\<exists>c'. spifls_wait_flash_ready bus c1 = Some (0, c') \<and> busy c' = 0 \<and> mem c' = mem c1"
      using less [of c1] c1(3) by simp
    then show ?thesis using c1 False by (subst spifls_wait_flash_ready.simps) simp
  qed
qed

lemma write_enabled:
  assumes "busy c = 0"
  obtains c1 c' where "spifls_write_enable bus c = (0, c1)" "spifls_wait_write_enable bus c1 = Some (0, c')"
    "wel c'" "busy c' = 0" "mem c' = mem c"
proof -
  obtain c1 where c1: "tls_spi_write bus [0x06] c = (0, c1)" "wel c1" "busy c1 = 0" "mem c1 = mem c"
    using enable [OF assms] by blast
  obtain sr c2 where c2: "tls_spi_read_with_cmd bus [0x05] 1 c1 = (0, [sr], c2)" "bit sr 1" "wel c2" "busy c2 = 0" "mem c2 = mem c1"
    using status [of c1] c1(2,3) by auto
  have "spifls_wait_write_enable bus c1 = Some (0, c2)"
    using c2(1,2) by (subst spifls_wait_write_enable.simps) simp
  with c1 c2 show ?thesis using that by (simp add: spifls_write_enable_def)
qed

lemma drv_read_ok:
  assumes "gd25_ready busy cap d" "0 < len" "unat adr + unat len \<le> cap"
  shows "\<exists>c. spifls_drv_read bus adr len d = Some (0, mem_read (mem (spi_dev d)) (unat adr) (unat len), d\<lparr>spi_dev := c\<rparr>) \<and>
    busy c = 0 \<and> mem c = mem (spi_dev d)"
  using read [of "spi_dev d" "unat len" "unat adr"] assms
  by (auto simp: gd25_ready_def spifls_drv_read_def fls_cmd_bytes word_less_nat_alt)

lemma drv_page_write_ok:
  assumes rdy: "gd25_ready busy cap d" and p: "unat page * 256 < cap" "256 \<le> length buf"
  shows "\<exists>c. spifls_drv_page_write bus page buf d = Some (0, d\<lparr>spi_dev := c\<rparr>) \<and> busy c = 0 \<and>
    mem c = mem_and (mem (spi_dev d)) (unat page * 256) (take 256 buf)"
proof -
  have d: "busy (spi_dev d) = 0" "exspifls_drv d = Some exspi_fls" "page_size (drv_mem d exspi_fls) = 256"
    using rdy by (simp_all add: gd25_ready_def)
  obtain c1 c2 where c2: "spifls_write_enable bus (spi_dev d) = (0, c1)" "spifls_wait_write_enable bus c1 = Some (0, c2)"
    "wel c2" "busy c2 = 0" "mem c2 = mem (spi_dev d)" using write_enabled [OF d(1)] by blast
  have u: "unat (page * 256) = unat page * 256" using p(1) cap_bound by (subst unat_mult_lem [THEN iffD1]) simp_all
  obtain c3 where c3: "tls_spi_write_with_cmd bus (fls_cmd 0x02 (page * 256)) (take 256 buf) c2 = (0, c3)"
    "mem c3 = mem_and (mem c2) (unat page * 256) (take 256 buf)"
    using program [OF c2(4,3), of "unat page * 256" "take 256 buf"] p u by (auto simp: fls_cmd_bytes)
  obtain c4 where "spifls_wait_flash_ready bus c3 = Some (0, c4)" "busy c4 = 0" "mem c4 = mem c3"
    using wait_flash_ready by blast
  then show ?thesis using d c2 c3 p(2) by (auto simp: spifls_drv_page_write_def)
qed

lemma drv_erase_ok:
  assumes rdy: "gd25_ready busy cap d" and k: "unat sector * 4096 < cap"
  shows "\<exists>c. spifls_drv_erase bus sector d = Some (0, d\<lparr>spi_dev := c\<rparr>) \<and> busy c = 0 \<and>
    mem c = mem_erase (mem (spi_dev d)) (unat sector)"
proof -
  have d: "busy (spi_dev d) = 0" "exspifls_drv d = Some exspi_fls" "sector_size (drv_mem d exspi_fls) = 4096"
    using rdy by (simp_all add: gd25_ready_def)
  obtain c1 c2 where c2: "spifls_write_enable bus (spi_dev d) = (0, c1)" "spifls_wait_write_enable bus c1 = Some (0, c2)"
    "wel c2" "busy c2 = 0" "mem c2 = mem (spi_dev d)" using write_enabled [OF d(1)] by blast
  have u: "unat (sector * 4096) = unat sector * 4096" using k cap_bound by (subst unat_mult_lem [THEN iffD1]) simp_all
  obtain c3 where c3: "tls_spi_write bus (fls_cmd 0x20 (sector * 4096)) c2 = (0, c3)"
    "mem c3 = mem_erase (mem c2) (unat sector)"
    using erase [OF c2(4,3) k] u by (auto simp: fls_cmd_bytes)
  obtain c4 where "spifls_wait_flash_ready bus c3 = Some (0, c4)" "busy c4 = 0" "mem c4 = mem c3"
    using wait_flash_ready by blast
  then show ?thesis using d c2 c3 by (auto simp: spifls_drv_erase_def)
qed

lemma drv_chip_erase_ok:
  assumes "gd25_ready busy cap d"
  shows "\<exists>c. spifls_drv_chip_erase bus d = Some (0, d\<lparr>spi_dev := c\<rparr>) \<and> busy c = 0 \<and>
    mem c = (\<lambda>x. if x < cap then 0xFF else mem (spi_dev d) x)"
proof -
  obtain c1 c2 where c2: "spifls_write_enable bus (spi_dev d) = (0, c1)" "spifls_wait_write_enable bus c1 = Some (0, c2)"
    "wel c2" "busy c2 = 0" "mem c2 = mem (spi_dev d)" using write_enabled [of "spi_dev d"] assms by (auto simp: gd25_ready_def)
  obtain c3 where c3: "tls_spi_write bus [0xC7] c2 = (0, c3)" "mem c3 = (\<lambda>x. if x < cap then 0xFF else mem (spi_dev d) x)"
    using erase_all [OF c2(4,3)] unfolding c2(5) by blast
  obtain c4 where "spifls_wait_flash_ready bus c3 = Some (0, c4)" "busy c4 = 0" "mem c4 = mem c3"
    using wait_flash_ready by blast
  then show ?thesis using c2 c3 by (intro exI [of _ c4]) (simp add: spifls_drv_chip_erase_def)
qed

end

text \<open>The chip driver keeps the contract of a driver on every such chip.\<close>

sublocale spi_flash \<subseteq> gd: fls_driver "\<lambda>_. gd25_ops bus" exspi_fls "\<lambda>d. mem (spi_dev d)" "gd25_ready busy cap" cap
proof
  fix d :: "'c fls_dev" and len adr page sector :: u32 and buf :: "u8 list"
  assume rdy: "gd25_ready busy cap d"
  then show "unat (total_size (drv_mem d exspi_fls)) = cap \<and> page_size (drv_mem d exspi_fls) = 256 \<and> sector_size (drv_mem d exspi_fls) = 4096"
    by (simp add: gd25_ready_def)
  show "\<exists>d'. drv_read (gd25_ops bus) adr len d = Some (0, mem_read (mem (spi_dev d)) (unat adr) (unat len), d') \<and>
      gd25_ready busy cap d' \<and> mem (spi_dev d') = mem (spi_dev d)" if "0 < len" "unat adr + unat len \<le> cap"
    using drv_read_ok [OF rdy that] gd25_ready_dev [OF rdy] by (auto simp: gd25_ops_def)
  show "\<exists>d'. drv_page_write (gd25_ops bus) page buf d = Some (0, d') \<and> gd25_ready busy cap d' \<and>
      mem (spi_dev d') = mem_and (mem (spi_dev d)) (unat page * 256) (take 256 buf)"
    if "unat page * 256 < cap" "256 \<le> length buf"
    using drv_page_write_ok [OF rdy that] gd25_ready_dev [OF rdy] by (auto simp: gd25_ops_def)
  show "\<exists>d'. drv_erase (gd25_ops bus) sector d = Some (0, d') \<and> gd25_ready busy cap d' \<and>
      mem (spi_dev d') = mem_erase (mem (spi_dev d)) (unat sector)" if "unat sector * 4096 < cap"
    using drv_erase_ok [OF rdy that] gd25_ready_dev [OF rdy] by (auto simp: gd25_ops_def)
qed (rule cap_sectors cap_bound)+

section \<open>Identification and start\<close>

locale spi_flash_id = spi_flash bus mem wel busy cap
  for bus :: "'c spi_bus" and mem wel busy cap +
  fixes ident :: "u8 list"
  assumes identify: "busy c = 0 \<Longrightarrow>
      \<exists>c'. tls_spi_read_with_cmd bus (le32 0x9F) 3 c = (0, ident, c') \<and> busy c' = 0 \<and> mem c' = mem c"
    and ident_len: "length ident = 3"
    and ident_cap: "ident ! 2 \<noteq> 0" "cap = 2 ^ unat (ident ! 2)"

definition gd25_state :: "('c \<Rightarrow> nat) \<Rightarrow> nat \<Rightarrow> 'c spifls \<Rightarrow> bool" where
  "gd25_state busy cap s \<longleftrightarrow> (case spi_fls s of None \<Rightarrow> False
     | Some f \<Rightarrow> current_drv f = Some exspi_fls \<and> fls_lock f = 1 \<and> gd25_ready busy cap (fls_dev s))"

lemma drop_bit_un32: "drop_bit 16 (un32 [a, b, c, 0]) = ucast c"
proof -
  have "bit x n \<Longrightarrow> n < 8" for x :: u8 and n by (rule bit_u8_less)
  then show ?thesis
    by (fastforce simp: un32_def bit_eq_iff bit_drop_bit_eq bit_or_iff bit_push_bit_iff bit_ucast_iff)
qed

context spi_flash_id
begin

lemma init_ready:
  assumes "spi_fls s = None" "busy (spi_dev (fls_dev s)) = 0"
  shows "\<exists>s'. tls_spifls_init bus (\<lambda>_. gd25_ops bus) True True s = Some (0, s') \<and> gd25_state busy cap s' \<and>
    mem (spi_dev (fls_dev s')) = mem (spi_dev (fls_dev s))"
proof -
  obtain c where c: "tls_spi_read_with_cmd bus (le32 0x9F) 3 (spi_dev (fls_dev s)) = (0, ident, c)" "busy c = 0"
    "mem c = mem (spi_dev (fls_dev s))" using identify [OF assms(2)] by blast
  obtain x y z where id: "ident = [x, y, z]" using ident_len by (auto simp: numeral_3_eq_3 length_Suc_conv)
  let ?i = "un32 [x, y, z, 0]"
  have z: "z \<noteq> 0" "cap = 2 ^ unat z" using ident_cap by (simp_all add: id)
  have shift: "drop_bit 16 ?i = ucast z" by (rule drop_bit_un32)
  have "(2 :: nat) ^ unat z \<le> 2 ^ 24" using cap_bound z(2) by simp
  then have le: "unat z \<le> 24" by (simp only: power_increasing_iff)
  have u: "unat (ucast z :: u32) = unat z" using le by (simp add: unsigned_ucast_eq take_bit_nat_eq_self)
  have nz: "ucast z AND (0xFF :: u32) \<noteq> 0"
  proof -
    have "ucast z AND m = ucast z" if "\<And>n. bit m n \<longleftrightarrow> n < 8" for m :: u32
      by (auto simp: bit_eq_iff bit_and_iff that bit_ucast_iff dest: bit_u8_less)
    from this [OF bit_byte_masks(1)] show ?thesis using z(1) u by (metis unat_0 unat_eq_zero)
  qed
  have "push_bit (unat z) 1 = (of_nat cap :: u32)" by (simp add: push_bit_eq_mult z(2))
  then have "unat (push_bit (unat z) 1 :: u32) = cap"
    using cap_bound by (simp only: unsigned_of_nat) (simp add: take_bit_nat_eq_self)
  moreover have "?i \<noteq> 0" using shift nz by auto
  moreover have "un32 (take 3 ident @ [0, 0, 0, 0]) = ?i" by (simp add: id un32_def)
  ultimately show ?thesis using assms c le nz
    by (auto simp: tls_spifls_init_def tls_spifls_drv_install_def tls_spifls_drv_register_def tls_spifls_probe_def
        tls_spifls_read_id_def spifls_drv_probe_def gd25_ops_def shift u Let_def gd25_state_def gd25_ready_def configure)
qed

end

section \<open>A reference chip\<close>

text \<open>
  A chip of 1 MByte with the identification C8 40 14, which decodes the bytes of a
  transaction and stays busy for two status reads after a program or erase.
\<close>

record gd_chip =
  gd_cells :: "nat \<Rightarrow> u8"
  gd_latch :: bool
  gd_busy :: nat

definition un_adr24 :: "u8 list \<Rightarrow> nat" where
  "un_adr24 bs = unat (bs ! 0) * 65536 + unat (bs ! 1) * 256 + unat (bs ! 2)"

definition gd_write :: "u8 list \<Rightarrow> gd_chip \<Rightarrow> int \<times> gd_chip" where
  "gd_write bs c = (0,
     if gd_busy c \<noteq> 0 \<or> bs = [] then c
     else if bs ! 0 = 0x06 then c\<lparr>gd_latch := True\<rparr>
     else if bs ! 0 = 0x20 \<and> gd_latch c then
       c\<lparr>gd_cells := mem_erase (gd_cells c) (un_adr24 (tl bs) div 4096), gd_latch := False, gd_busy := 2\<rparr>
     else if bs ! 0 = 0xC7 \<and> gd_latch c then
       c\<lparr>gd_cells := (\<lambda>x. if x < 0x100000 then 0xFF else gd_cells c x), gd_latch := False, gd_busy := 2\<rparr>
     else c)"

definition gd_read :: "u8 list \<Rightarrow> nat \<Rightarrow> gd_chip \<Rightarrow> int \<times> u8 list \<times> gd_chip" where
  "gd_read bs n c = (0,
     if bs = [] then replicate n 0
     else if bs ! 0 = 0x05 then replicate n ((if gd_busy c \<noteq> 0 then 1 else 0) OR (if gd_latch c then 2 else 0))
     else if bs ! 0 = 0x03 then mem_read (gd_cells c) (un_adr24 (tl bs)) n
     else if bs ! 0 = 0x9F then take n [0xC8, 0x40, 0x14]
     else replicate n 0,
     c\<lparr>gd_busy := gd_busy c - 1\<rparr>)"

definition gd_program :: "u8 list \<Rightarrow> u8 list \<Rightarrow> gd_chip \<Rightarrow> int \<times> gd_chip" where
  "gd_program bs tx c = (0,
     if gd_busy c = 0 \<and> bs \<noteq> [] \<and> bs ! 0 = 0x02 \<and> gd_latch c then
       c\<lparr>gd_cells := mem_and (gd_cells c) (un_adr24 (tl bs)) tx, gd_latch := False, gd_busy := 2\<rparr>
     else c)"

definition gd_bus :: "gd_chip spi_bus" where
  "gd_bus = \<lparr>tls_spi_write = gd_write, tls_spi_read_with_cmd = gd_read, tls_spi_write_with_cmd = gd_program,
     tls_spi_setup = (\<lambda>_ _ _ c. c)\<rparr>"

lemma un_adr24_adr24 [simp]:
  assumes "a < 0x1000000"
  shows "un_adr24 (adr24 a) = a"
proof -
  define x y z where "x = a div 65536" and "y = a div 256 mod 256" and "z = a mod 256"
  have "a div 256 div 256 = x" by (simp add: x_def div_mult2_eq [symmetric])
  then have "a div 256 = x * 256 + y" using div_mult_mod_eq [of "a div 256" 256] by (simp add: y_def)
  then have a: "(x * 256 + y) * 256 + z = a" using div_mult_mod_eq [of a 256] by (simp add: z_def)
  have "un_adr24 (adr24 a) = x mod 256 * 65536 + y * 256 + z"
    by (simp add: un_adr24_def adr24_def unsigned_of_nat take_bit_eq_mod x_def y_def z_def)
  moreover have "x mod 256 = x" using assms by (simp add: x_def)
  ultimately show ?thesis using a by (simp add: algebra_simps)
qed

interpretation gd25: spi_flash_id gd_bus gd_cells gd_latch gd_busy "0x100000" "[0xC8, 0x40, 0x14]"
proof
  fix c :: gd_chip
  show "\<exists>sr c'. tls_spi_read_with_cmd gd_bus [0x05] 1 c = (0, [sr], c') \<and> bit sr 0 = (gd_busy c \<noteq> 0) \<and>
      bit sr 1 = gd_latch c \<and> gd_busy c' = gd_busy c - 1 \<and> gd_cells c' = gd_cells c \<and> (gd_busy c = 0 \<longrightarrow> gd_latch c' = gd_latch c)"
    by (auto simp: gd_bus_def gd_read_def bit_or_iff)
qed (auto simp: gd_bus_def gd_write_def gd_read_def gd_program_def le32_def)

end
