(* ===== verification/Spifls_Props.thy ===== *)
theory Spifls_Props
  imports Spifls_Gd25
begin

text \<open>
  Properties of the external flash: sequences of writes and erases after the start refine a
  byte memory, on every chip of the interface, and what a failed write does to the lock.
\<close>

section \<open>Sequences of requests\<close>

datatype fls_req = Fls_write u32 "u8 list" u32 | Fls_erase u32 | Fls_read u32 u32

fun req_ok :: "nat \<Rightarrow> fls_req \<Rightarrow> bool" where
  "req_ok cap (Fls_write adr buf len) \<longleftrightarrow> 0 < len \<and> unat adr < cap \<and> unat adr + unat len < 2 ^ 32 \<and>
     min (unat len) (cap - unat adr) \<le> length buf"
| "req_ok cap (Fls_erase sector) \<longleftrightarrow> unat sector < cap div 4096"
| "req_ok cap (Fls_read adr len) \<longleftrightarrow> 0 < len \<and> unat adr < cap \<and> unat adr + unat len < 2 ^ 32"

text \<open>
  The specification: a memory of bytes, in which a write that reaches beyond the end is cut,
  and the bytes that the reads return.
\<close>

fun spec_req :: "nat \<Rightarrow> fls_req \<Rightarrow> (nat \<Rightarrow> u8) \<times> u8 list list \<Rightarrow> (nat \<Rightarrow> u8) \<times> u8 list list" where
  "spec_req cap (Fls_write adr buf len) (m, out) =
     (mem_write m (unat adr) (take (min (unat len) (cap - unat adr)) buf), out)"
| "spec_req cap (Fls_erase sector) (m, out) = (mem_erase m (unat sector), out)"
| "spec_req cap (Fls_read adr len) (m, out) = (m, out @ [mem_read m (unat adr) (min (unat len) (cap - unat adr))])"

text \<open>The requests on the module; \<open>None\<close> when one does not return or reports an error.\<close>

fun run_req :: "'c spi_bus \<Rightarrow> fls_req \<Rightarrow> 'c spifls \<times> u8 list list \<Rightarrow> ('c spifls \<times> u8 list list) option" where
  "run_req bus (Fls_write adr buf len) (s, out) =
     (case tls_spifls_write (\<lambda>_. gd25_ops bus) True adr (Some buf) len s of Some (0, s') \<Rightarrow> Some (s', out) | _ \<Rightarrow> None)"
| "run_req bus (Fls_erase sector) (s, out) =
     (case tls_spifls_erase (\<lambda>_. gd25_ops bus) sector s of Some (0, s') \<Rightarrow> Some (s', out) | _ \<Rightarrow> None)"
| "run_req bus (Fls_read adr len) (s, out) =
     (case tls_spifls_read (\<lambda>_. gd25_ops bus) adr False len s of Some (0, bs, s') \<Rightarrow> Some (s', out @ [bs]) | _ \<Rightarrow> None)"

fun run_reqs :: "'c spi_bus \<Rightarrow> fls_req list \<Rightarrow> 'c spifls \<times> u8 list list \<Rightarrow> ('c spifls \<times> u8 list list) option" where
  "run_reqs bus [] so = Some so"
| "run_reqs bus (r # rs) so = Option.bind (run_req bus r so) (run_reqs bus rs)"

context spi_flash
begin

lemma gd25_state_dev: "gd25_state busy cap s \<Longrightarrow> gd25_ready busy cap d \<Longrightarrow> gd25_state busy cap (s\<lparr>fls_dev := d\<rparr>)"
  by (simp add: gd25_state_def split: option.splits)

lemma req_refines:
  assumes "gd25_state busy cap s" "req_ok cap r"
  shows "\<exists>s'. run_req bus r (s, out) = Some (s', snd (spec_req cap r (mem (spi_dev (fls_dev s)), out))) \<and>
    gd25_state busy cap s' \<and> mem (spi_dev (fls_dev s')) = fst (spec_req cap r (mem (spi_dev (fls_dev s)), out))"
proof -
  obtain f where f: "spi_fls s = Some f" "current_drv f = Some exspi_fls" "0 < fls_lock f" "fls_lock f \<le> 5"
    and rdy: "gd25_ready busy cap (fls_dev s)"
    using assms(1) by (auto simp: gd25_state_def split: option.splits)
  note dev = gd25_state_dev [OF assms(1)]
  show ?thesis
  proof (cases r)
    case (Fls_write adr buf len)
    then show ?thesis using gd.write_spec [OF f rdy, of len adr buf] assms(2) dev by auto
  next
    case (Fls_erase sector)
    then show ?thesis using gd.erase_spec [OF f rdy, of sector] assms(2) dev by auto
  next
    case (Fls_read adr len)
    then show ?thesis using gd.read_spec [OF f rdy, of len adr] assms(2) dev by auto
  qed
qed

lemma reqs_refine:
  assumes "gd25_state busy cap s" "list_all (req_ok cap) rs"
  shows "\<exists>s'. run_reqs bus rs (s, out) = Some (s', snd (fold (spec_req cap) rs (mem (spi_dev (fls_dev s)), out))) \<and>
    gd25_state busy cap s' \<and> mem (spi_dev (fls_dev s')) = fst (fold (spec_req cap) rs (mem (spi_dev (fls_dev s)), out))"
  using assms
proof (induction rs arbitrary: s out)
  case Nil
  then show ?case by simp
next
  case (Cons r rs)
  obtain s1 where s1: "run_req bus r (s, out) = Some (s1, snd (spec_req cap r (mem (spi_dev (fls_dev s)), out)))"
    "gd25_state busy cap s1" "mem (spi_dev (fls_dev s1)) = fst (spec_req cap r (mem (spi_dev (fls_dev s)), out))"
    using req_refines [OF Cons.prems(1), of r] Cons.prems(2) by auto
  have "spec_req cap r (mem (spi_dev (fls_dev s)), out) = (mem (spi_dev (fls_dev s1)), snd (spec_req cap r (mem (spi_dev (fls_dev s)), out)))"
    using s1(3) by (metis prod.collapse)
  then show ?case using Cons.IH [OF s1(2), of "snd (spec_req cap r (mem (spi_dev (fls_dev s)), out))"] Cons.prems(2) s1(1) by simp
qed

end

section \<open>The lock\<close>

lemma page_write_lock: "tls_spifls_page_write ops page buf cnt s = Some (err, s') \<Longrightarrow> spi_fls s' = spi_fls s"
  by (auto simp: tls_spifls_page_write_def Let_def split: sum.splits option.splits if_splits bind_splits)

text \<open>A round that fails has released the lock once when the loop ends.\<close>

lemma write_sectors_lock:
  "write_sectors ops p adr sa sn i k buf w s = Some (err, s') \<Longrightarrow>
    spi_fls s' = (if err = 0 then spi_fls s else spi_fls (sem_release s))"
proof (induction k arbitrary: i buf w s)
  case 0
  then show ?case by simp
next
  case (Suc k)
  from Suc.prems show ?case
    by (auto simp: write_sectors.simps(2) Let_def sem_release_def dest!: Suc.IH page_write_lock split: bind_splits prod.splits if_splits)
qed

section \<open>Properties\<close>

text \<open>C5. The external flash is a byte memory. On every chip that behaves as its interface says, the
  start finds the chip and installs its driver; every sequence of writes, sector erases and
  reads within the chip then returns without an error. The reads deliver, and the chip
  finally holds, exactly what the specification gives: a write changes the bytes it names,
  cut at the end of the chip, and no others, although whole sectors are erased and
  programmed again. The lock is free again and the driver is ready after every sequence.
\<close>

theorem spifls_refines_memory:
  assumes "spi_flash_id bus mem wel busy cap ident"
    and "spi_fls s = None" "busy (spi_dev (fls_dev s)) = 0"
    and "list_all (req_ok cap) rs"
  shows "\<exists>s1 s2. tls_spifls_init bus (\<lambda>_. gd25_ops bus) True True s = Some (0, s1) \<and>
    run_reqs bus rs (s1, []) = Some (s2, snd (fold (spec_req cap) rs (mem (spi_dev (fls_dev s)), []))) \<and>
    mem (spi_dev (fls_dev s2)) = fst (fold (spec_req cap) rs (mem (spi_dev (fls_dev s)), [])) \<and>
    gd25_state busy cap s2"
proof -
  obtain s1 where "tls_spifls_init bus (\<lambda>_. gd25_ops bus) True True s = Some (0, s1)" "gd25_state busy cap s1"
    "mem (spi_dev (fls_dev s1)) = mem (spi_dev (fls_dev s))"
    using spi_flash_id.init_ready [OF assms(1-3)] by blast
  then show ?thesis
    using spi_flash.reqs_refine [OF spi_flash_id.axioms(1) [OF assms(1)] _ assms(4), of s1 "[]"] by auto
qed

definition gd_start :: "gd_chip spifls" where
  "gd_start = \<lparr>fls_dev = \<lparr>spi_dev = \<lparr>gd_cells = (\<lambda>_. 0x55), gd_latch = False, gd_busy = 0\<rparr>,
     drv_mem = (\<lambda>_. exspi_fls_init), exspifls_drv = None\<rparr>, spi_fls = None\<rparr>"

theorem spifls_refines_memory_witness:
  "\<exists>s1 s2. tls_spifls_init gd_bus (\<lambda>_. gd25_ops gd_bus) True True gd_start = Some (0, s1) \<and>
    run_reqs gd_bus [Fls_write 0x0FFF [1, 2, 3] 3, Fls_erase 1, Fls_read 0x0FFE 3] (s1, []) = Some (s2, [[0x55, 1, 0xFF]]) \<and>
    gd_cells (spi_dev (fls_dev s2)) = mem_erase (mem_write (\<lambda>_. 0x55) 0x0FFF [1, 2, 3]) 1 \<and> gd25_state gd_busy 0x100000 s2"
  using spifls_refines_memory [OF gd25.spi_flash_id_axioms,
      of gd_start "[Fls_write 0x0FFF [1, 2, 3] 3, Fls_erase 1, Fls_read 0x0FFE 3]"]
  by (simp add: gd_start_def mem_write_def mem_erase_def mem_read_def upt_rec)

text \<open>C40. A write that fails gives up the lock twice. When no operation holds the lock, a write that
  succeeds leaves it as it was; a write that fails inside the loop, because the chip driver
  reports an error, releases it in the loop and again after it. The count of the semaphore
  is then two, and from then on two tasks can be inside the driver at the same time.
\<close>

theorem spifls_lock_released_twice:
  assumes "spi_fls s = Some f" "current_drv f = Some p" "fls_lock f = 1"
    and "adr < total_size (cur_mem s p)" "len \<noteq> 0"
    and "tls_spifls_write ops True adr (Some buf) len s = Some (err, s')"
  shows "\<exists>f'. spi_fls s' = Some f' \<and> fls_lock f' = (if err = 0 then 1 else 2) \<and>
    ((\<exists>t u. sem_acquire s' = Some t \<and> sem_acquire t = Some u) \<longleftrightarrow> err \<noteq> 0)"
proof -
  let ?t = "s\<lparr>spi_fls := Some (f\<lparr>fls_lock := 0\<rparr>)\<rparr>"
  have "sem_acquire s = Some ?t" using assms(1,3) by (simp add: sem_acquire_def)
  then obtain s1 sa sn k w where "write_sectors ops p adr sa sn 0 k buf w ?t = Some (err, s1)" "s' = sem_release s1"
    using assms by (auto simp: tls_spifls_write_def spifls_current_def Let_def cur_mem_def split: bind_splits if_splits)
  then have "spi_fls s' = Some (f\<lparr>fls_lock := if err = 0 then 1 else 2\<rparr>)"
    using write_sectors_lock by (fastforce simp: sem_release_def)
  then show ?thesis by (auto simp: sem_acquire_def)
qed

definition dead_bus :: "unit spi_bus" where
  "dead_bus = \<lparr>tls_spi_write = (\<lambda>_ c. (- 2, c)), tls_spi_read_with_cmd = (\<lambda>_ n c. (0, replicate n 0, c)),
     tls_spi_write_with_cmd = (\<lambda>_ _ c. (- 2, c)), tls_spi_setup = (\<lambda>_ _ _ c. c)\<rparr>"

definition dead_state :: "nat \<Rightarrow> unit spifls" where
  "dead_state n = \<lparr>fls_dev = \<lparr>spi_dev = (), drv_mem = (\<lambda>_. exspi_fls_init\<lparr>total_size := 0x100000, page_size := 256, sector_size := 4096\<rparr>),
     exspifls_drv = Some exspi_fls\<rparr>, spi_fls = Some \<lparr>fls_drvs = [exspi_fls], current_drv = Some exspi_fls, fls_lock = n\<rparr>\<rparr>"

theorem spifls_lock_released_twice_witness:
  "tls_spifls_write (\<lambda>_. gd25_ops dead_bus) True 0 (Some [1]) 1 (dead_state 1) = Some (10, dead_state 2) \<and>
    (\<exists>t u. sem_acquire (dead_state 2) = Some t \<and> sem_acquire t = Some u)"
proof -
  have w: "tls_spifls_write (\<lambda>_. gd25_ops dead_bus) True 0 (Some [1]) 1 (dead_state 1) = Some (10, dead_state 2)"
    by (simp add: tls_spifls_write_def spifls_current_def cur_mem_def dead_state_def sem_acquire_def clip_bytes_def
        write_sectors.simps(2) gd25_ops_def spifls_drv_read_def dead_bus_def sector_part_def memcpy_cache_def
        spifls_drv_erase_def spifls_write_enable_def sem_release_def)
  from spifls_lock_released_twice [OF _ _ _ _ _ w] show ?thesis
    using w by (simp add: dead_state_def cur_mem_def)
qed

end
