(* ===== verification/Spec2Isabelle.thy ===== *)
theory Spec2Isabelle
  imports Gpio_Afsel Timer Watchdog Rtc Dma Strconv Flash_Otp Param_Reach Param_User Fwup_Props Fwup_Queue Wl_Preempt Uart_Tx Dhcp_Props Lsd_Props Efuse_Crash Dns_Props Pwm_Props At_Props Spifls_Props
begin

text \<open>
  A verification development for the W800 SDK under \<^verbatim>\<open>src/cores/w800/sdk\<close>: the platform layer (\<^verbatim>\<open>platform\<close>), the
  C code between the register map of the chip and the applications, and of the
  applications the DHCP server, the DNS server, the provisioning by frame lengths and the framing of AT
  commands.

  \<^bold>\<open>Parts of the program and how they interact.\<close> Drivers access the chip through
  \<^verbatim>\<open>tls_reg_read32\<close> and \<^verbatim>\<open>tls_reg_write32\<close>, enable their interrupt line and register callbacks. The flash driver
  is used by the parameter store (\<^verbatim>\<open>wm_param.c\<close>) and by the upgrade module (\<^verbatim>\<open>wm_fwup.c\<close>); the
  upgrade module also reads parameters and uses the fast write functions of the driver.

  \<^bold>\<open>Theories.\<close>
  \<^item> \<open>Mcu_Prelude\<close>, \<open>Mcu_Regs\<close>: machine integers, bit lemmas, the register file with its read and
    write laws and the interrupt controller (\<^verbatim>\<open>include/wm_regs.h\<close>, \<^verbatim>\<open>drivers/irq\<close>).
  \<^item> \<open>Cpu_Pmu\<close>, \<open>Io\<close>, \<open>Gpio\<close>, \<open>Gpio_Afsel\<close>: clocks, power management unit, pin multiplexer, GPIO and the
    alternate functions (\<^verbatim>\<open>drivers/cpu\<close>, \<^verbatim>\<open>drivers/pmu\<close>, \<^verbatim>\<open>drivers/io\<close>, \<^verbatim>\<open>drivers/gpio\<close>).
  \<^item> \<open>Slots\<close>: the contract of a driver that hands out numbered channels, as the locale \<open>slots\<close>;
    \<open>Timer\<close> and \<open>Dma\<close> interpret it (\<^verbatim>\<open>drivers/timer\<close>, \<^verbatim>\<open>drivers/dma\<close>).
  \<^item> \<open>Pwm\<close>, \<open>Pwm_Props\<close>: the pulse width modulator (\<^verbatim>\<open>drivers/pwm\<close>), an instance of the locale \<open>channel_bank\<close>.
  \<^item> \<open>Watchdog\<close>, \<open>Rtc\<close>, \<open>Crc\<close>, \<open>Strconv\<close>: \<^verbatim>\<open>drivers/watchdog\<close>, \<^verbatim>\<open>drivers/rtc\<close>, \<^verbatim>\<open>common/utils/platform_utils.c\<close>.
  \<^item> \<open>Flash_Ctl\<close>, \<open>Flash_Nor\<close>, \<open>Flash\<close>, \<open>Flash_Otp\<close>: \<^verbatim>\<open>drivers/internalflash/wm_internal_fls.c\<close>. The flash controller and the chip
    are a parameter \<open>hw\<close>; the locales \<open>spi_nor\<close>, \<open>spi_nor_sr\<close> and \<open>spi_nor_otp\<close> state its documented behaviour and
    are interpreted on the reference chip \<open>nor_hw\<close>.
  \<^item> \<open>Efuse\<close>, \<open>Efuse_Store\<close>, \<open>Efuse_Data\<close>, \<open>Efuse_Persist\<close>, \<open>Efuse_Props\<close>, \<open>Efuse_Crash\<close>: the factory data in the first two sectors
    (\<^verbatim>\<open>drivers/efuse/wm_efuse.c\<close>), on the flash driver; the locale \<open>spi_nor_id\<close> extends the contract of the chip. In
    \<open>Efuse_Crash\<close> the chip records the commands that change it, so that a power failure can be placed at any moment of a run
    (\<open>power_cut\<close>); the locale \<open>spi_nor_cells\<close> adds which cells a command can change.
  \<^item> \<open>Spifls\<close>, \<open>Spifls_Spec\<close>, \<open>Spifls_Gd25\<close>, \<open>Spifls_Props\<close>: the external flash (\<^verbatim>\<open>drivers/flash/wm_fls.c\<close> and
    \<^verbatim>\<open>wm_fls_gd25qxx.c\<close>). The transactions of the SPI master are a parameter. The locale \<open>fls_driver\<close> is the contract of a
    chip driver, from which the module is verified; \<open>spi_flash\<close> is a chip on the bus, on which the GD25 driver keeps that contract.
  \<^item> \<open>Bytes\<close>, \<open>Param_Layout\<close>, \<open>Param\<close>, \<open>Param_Access\<close>, \<open>Param_Persist\<close>, \<open>Param_Reach\<close>, \<open>Param_User\<close>: \<^verbatim>\<open>common/params/wm_param.c\<close>
    and its headers; the structures are sequences of bytes at the offsets that C gives their members.
  \<^item> \<open>Fwup\<close>, \<open>Fwup_Image\<close>, \<open>Fwup_Session\<close>, \<open>Fwup_Props\<close>, \<open>Fwup_Queue\<close>: \<^verbatim>\<open>common/fwup/wm_fwup.c\<close>.
  \<^item> \<open>Wl_Timers\<close>, \<open>Wl_Task\<close>, \<open>Wl_Preempt\<close>: the timer lists, mailboxes and message loop of the task wrapper
    (\<^verbatim>\<open>common/task/wm_wl_timers.c\<close>, \<^verbatim>\<open>wm_wl_mbox.c\<close>, \<^verbatim>\<open>wm_wl_task.c\<close>). The clock, the receive operation and
    the timer handlers are parameters; the queue behind a mailbox is a bounded list. \<open>Wl_Task\<close> has each call as one function; in
    \<open>Wl_Preempt\<close> the calls are cut into the steps between which another task can run, and every call of \<open>Wl_Task\<close> is a run of
    these steps.
  \<^item> \<open>Uart_Ring\<close>, \<open>Uart\<close>, \<open>Uart_Rx\<close>, \<open>Uart_Tx\<close>: \<^verbatim>\<open>drivers/uart/wm_uart.c\<close>; the receive ring is an instance of the
    locale \<open>byte_queue\<close>. What a handler reads from the hardware is an argument.
  \<^item> \<open>At_Line\<close>, \<open>At_Props\<close>: the framing of AT commands in the receive ring (\<^verbatim>\<open>src/app/wm_atcmd/wm_uart_task.c\<close>), on \<open>Uart_Ring\<close>.
  \<^item> \<open>Dhcp_Msg\<close>, \<open>Dhcp\<close>, \<open>Dhcp_Table\<close>, \<open>Dhcp_Serve\<close>, \<open>Dhcp_Reach\<close>, \<open>Dhcp_Props\<close>: the DHCP server of the access point
    (\<^verbatim>\<open>src/app/dhcpserver/dhcp_server.c\<close>): messages as bytes, the operations, the table of clients with its invariant,
    reachable states and the abstract table of leases \<open>lease_step\<close>.
  \<^item> \<open>Dns\<close>, \<open>Dns_Props\<close>: the name server of the access point (\<^verbatim>\<open>src/app/dnsserver/dns_server.c\<close>): names, replies and the
    calls into the IP stack.
  \<^item> \<open>Lsd\<close>, \<open>Lsd_Msg\<close>, \<open>Lsd_Eval\<close>, \<open>Lsd_Recv\<close>, \<open>Lsd_Group\<close>, \<open>Lsd_Sync\<close>, \<open>Lsd_Props\<close>: provisioning by the lengths of frames
    (\<^verbatim>\<open>src/app/oneshotconfig/wm_oneshot_lsd.c\<close>): the receiver, the message of a sender as a specification, the evaluation of
    the bytes that have arrived, frames, groups of frames and the announcement.

  \<^bold>\<open>Conventions.\<close> A state is a record of the module's variables; an operation is a function that
  returns the result and the new state. Registers and integers that can wrap have their width
  (\<open>u8\<close>, \<open>u16\<close>, \<open>u32\<close>); addresses and lengths of the flash are natural numbers where the code
  keeps them in range. The outcome of a memory allocation, of an operating system call or of a hardware status
  is an argument. \<open>None\<close> as a result stands for a call that does not return or that leaves its
  buffer. Loops with a bound are recursive functions with a termination proof; loops that depend on
  the hardware are \<^theory_text>\<open>partial_function (option)\<close>, and the lemmas prove that they return.

  \<^bold>\<open>What the lemmas show.\<close> For the drivers: the effect of each operation on its registers, that
  it leaves the others alone, which callback an interrupt runs, and invariants over arbitrary
  sequences of calls (an interrupt line is enabled exactly while a pin uses it; live timers
  and channels are different; the channels of the pulse width modulator are independent). For the flash: writing stores exactly the bytes, on every
  alignment and across sectors, whole sessions of fast writes do, and protection protects; the external flash refines a memory of bytes over any sequence of
  requests.
  For the checksums: the table and the 32 equations compute the standard CRC-8 and CRC-32. For
  the parameters: distinct ids own disjoint ranges, what is set is read back, and over the runs of \<open>param_reach\<close>, with
  initialisation on any flash, failing allocations and power cycles between operations, the copies stay well numbered and, while the
  counter in RAM is in step, none is newer than it, so that the
  next boot finds the last save; an interrupted write loses nothing but itself. For the upgrade: an
  image arrives in flash exactly, and the boot loader flag is written exactly when its
  checksum matches. For the task wrapper: a list of timers refines a sorted list of
  deadlines, the timers fire in order and on time up to the tick, the fetch loop returns,
  and, with preemption between any two steps, the messages are accounted for: the count of a static message, and the one place of each heap
  message until it is freed. For the UART: the bytes of all writes
  leave in order and completely, received bytes are read in order, and the baud rate word is exact; AT commands reach their handler complete, in order and once. For the DHCP server: it refines a table of
  leases that never gives an address to two stations, a station that asks is served, and leases end. For
  the DNS server: which names it answers and how (the separators are not compared, and a name of 32 bytes is read past its field), and that replies never cause replies. For the
  factory data: what is set survives a power cycle, and a power failure at any moment of the writing leaves the old or the new data. For the
  provisioning: a message whose groups arrive in any order, some of them incomplete, is received completely. The theorems at the end of a theory whose comment says so are about behaviour that
  departs from the contract or the documentation of the code.

  \<^bold>\<open>Bounds.\<close> No fuel is used. The theorems on the flash assume a chip of at most 32 MiB (the
  25 address bits of the controller) with a capacity in whole sectors (the external one at most 16 MiB, its 24 address bits), and addresses in range; the theorems on the
  parameters assume that the 16-bit counter does not wrap, and one theorem shows what happens when it does.

  \<^bold>\<open>Scope of parameters of the model.\<close> The receive operation of a mailbox is total: a receive that blocks for ever is not
  modelled. The SPI master is a parameter of the external flash; in DMA mode \<^verbatim>\<open>wm_hostspi.c\<close> refuses reads of more than
  8160 bytes, which is outside the documented behaviour that \<open>spi_flash\<close> states. The capacity of a chip is a shift by an
  identification byte; a shift by 32 or more, undefined in C, is 0 here. \<open>spi_nor_sr\<close> is about chips on which status registers can be written
  together and one by one. An increment or decrement of a counter in RAM is one step.

  \<^bold>\<open>Not modelled.\<close> The other drivers (SPI, I2C, I2S, SDIO, LCD, smart card, touch sensor, ADC, PSRAM, crypto) are
  sequences of register accesses that wait for status bits of their units, whose behaviour is documented outside the
  repository. The adapter of the operating system calls FreeRTOS
  one to one, the start-up code is assembly and linker symbols, the AT command interpreter and the
  web pages are text around calls into the wireless library, which is a binary. The third-party
  libraries in the repository (lwIP, mbedtls, FatFs, the Bluetooth stacks, the kernel and
  others) are not part of the SDK's own code.
\<close>

end
